(* ===== verification/Prelude.thy ===== *)
theory Prelude
  imports Main "HOL-Library.Word" "HOL-Library.AList"
begin

text \<open>
  The prelude of the development: the machine types of the Go sources, errors as values,
  the control structures the sources use (a loop that stops at the first success or at the
  first failure while it mutates a shared object, a map that is filled by a loop), the
  parts of the Go standard library they call (\<^verbatim>\<open>strings\<close>, \<^verbatim>\<open>strconv\<close>), the collections of
  theorems that the component theories fill, and the lemmas they share.
\<close>

section \<open>Machine types and errors\<close>

type_synonym u8 = "8 word"
type_synonym u16 = "16 word"
type_synonym u32 = "32 word"
type_synonym u64 = "64 word"
type_synonym u128 = "128 word"
type_synonym bytes = "u8 list"

text \<open>An argument of the variadic \<^verbatim>\<open>E.New\<close>, \<^verbatim>\<open>E.Cause\<close> and \<^verbatim>\<open>F.ToString\<close> calls: a
  string, an integer or an error. The text they are printed to is not modelled; the list of what
  is printed is.\<close>

datatype num_error = ErrSyntax | ErrRange

text \<open>Go errors. \<open>EExternal\<close> is an error value of code outside the sources, \<open>GoPanic\<close> is a
  \<^verbatim>\<open>panic\<close>, the others are the constructors that the sources call.\<close>

datatype arg = ArgS string | ArgI int | ArgE goerr
and goerr =
    ENew "arg list"
  | ECause goerr "arg list"
  | EExtend goerr "arg list"
  | ENum num_error
  | EUnexpectedEOF
  | EOverflow
  | EInvalid
  | ERejected goerr
  | ENeedMoreData
  | EDeadlineExceeded
  | EErrors "goerr list"
  | ERcode int
  | EExternal string
  | GoPanic "arg list"

type_synonym 'a res = "goerr + 'a"

definition nil_dereference :: goerr where
  "nil_dereference = GoPanic [ArgS ''invalid memory address or nil pointer dereference'']"

definition res_bind :: "'a res \<Rightarrow> ('a \<Rightarrow> 'b res) \<Rightarrow> 'b res" where
  "res_bind x f = (case x of Inl e \<Rightarrow> Inl e | Inr a \<Rightarrow> f a)"

definition res_cause :: "arg list \<Rightarrow> 'a res \<Rightarrow> 'a res" where
  "res_cause args x = (case x of Inl e \<Rightarrow> Inl (ECause e args) | Inr a \<Rightarrow> Inr a)"

section \<open>Loops\<close>

text \<open>
  \<open>any_st f xs s\<close> is \<^verbatim>\<open>for _, x := range xs { if f(x) { return true } }; return false\<close> where
  \<^verbatim>\<open>f\<close> may mutate the object \<open>s\<close> it shares with the caller; \<open>all_st\<close> is the dual loop.
  They are also how the generic slice helpers \<^verbatim>\<open>common.Any\<close> and \<^verbatim>\<open>common.All\<close> with a
  mutating predicate are read.
\<close>

fun any_st :: "('a \<Rightarrow> 's \<Rightarrow> bool \<times> 's) \<Rightarrow> 'a list \<Rightarrow> 's \<Rightarrow> bool \<times> 's" where
  "any_st f [] s = (False, s)"
| "any_st f (x # xs) s = (case f x s of (b, s') \<Rightarrow> if b then (True, s') else any_st f xs s')"

fun all_st :: "('a \<Rightarrow> 's \<Rightarrow> bool \<times> 's) \<Rightarrow> 'a list \<Rightarrow> 's \<Rightarrow> bool \<times> 's" where
  "all_st f [] s = (True, s)"
| "all_st f (x # xs) s = (case f x s of (b, s') \<Rightarrow> if b then all_st f xs s' else (False, s'))"

text \<open>A loop that builds a list, or returns at the first error.\<close>

fun map_res :: "('a \<Rightarrow> 'b res) \<Rightarrow> 'a list \<Rightarrow> 'b list res" where
  "map_res f [] = Inr []"
| "map_res f (x # xs) =
     (case f x of Inl e \<Rightarrow> Inl e
      | Inr y \<Rightarrow> (case map_res f xs of Inl e \<Rightarrow> Inl e | Inr ys \<Rightarrow> Inr (y # ys)))"

text \<open>\<^verbatim>\<open>m := make(map[K]bool); for _, k := range ks { m[k] = true }\<close>: reading an absent key
  of such a map gives the zero value \<^verbatim>\<open>false\<close>.\<close>

fun bool_map_from :: "('k \<Rightarrow> bool) \<Rightarrow> 'k list \<Rightarrow> ('k \<Rightarrow> bool)" where
  "bool_map_from m [] = m"
| "bool_map_from m (k # ks) = bool_map_from (m(k := True)) ks"

definition bool_map :: "'k list \<Rightarrow> ('k \<Rightarrow> bool)" where
  "bool_map ks = bool_map_from (\<lambda>_. False) ks"

section \<open>Strings\<close>

definition has_prefix :: "'a list \<Rightarrow> 'a list \<Rightarrow> bool" where
  "has_prefix s p \<longleftrightarrow> take (length p) s = p"

definition has_suffix :: "'a list \<Rightarrow> 'a list \<Rightarrow> bool" where
  "has_suffix s p \<longleftrightarrow> length p \<le> length s \<and> drop (length s - length p) s = p"

fun strings_Contains :: "string \<Rightarrow> string \<Rightarrow> bool" where
  "strings_Contains [] sub \<longleftrightarrow> sub = []"
| "strings_Contains (c # s) sub \<longleftrightarrow> has_prefix (c # s) sub \<or> strings_Contains s sub"

fun strings_Join :: "string list \<Rightarrow> string \<Rightarrow> string" where
  "strings_Join [] sep = []"
| "strings_Join [x] sep = x"
| "strings_Join (x # y # xs) sep = x @ sep @ strings_Join (y # xs) sep"

text \<open>\<^verbatim>\<open>strings.Split(s, string(c))\<close> for a one-byte separator.\<close>

fun strings_Split :: "'a \<Rightarrow> 'a list \<Rightarrow> 'a list list" where
  "strings_Split c [] = [[]]"
| "strings_Split c (x # s) =
     (if x = c then [] # strings_Split c s
      else case strings_Split c s of [] \<Rightarrow> [[x]] | w # ws \<Rightarrow> (x # w) # ws)"

text \<open>\<^verbatim>\<open>strings.Index(s, string(c))\<close> for a one-byte needle: \<open>None\<close> is -1.\<close>

fun index_of :: "char \<Rightarrow> string \<Rightarrow> nat option" where
  "index_of c [] = None"
| "index_of c (d # s) = (if d = c then Some 0 else map_option Suc (index_of c s))"

text \<open>\<^verbatim>\<open>strconv.ParseUint(s, 10, bits)\<close>: the loop fails at the first byte that is no
  decimal digit and as soon as the value passes the largest one of the width.\<close>

definition digit_value :: "char \<Rightarrow> nat option" where
  "digit_value c =
     (let n = of_char c in if 48 \<le> n \<and> n \<le> 57 then Some (n - 48) else None)"

fun ParseUint_loop :: "nat \<Rightarrow> nat \<Rightarrow> string \<Rightarrow> num_error + nat" where
  "ParseUint_loop maxVal n [] = Inr n"
| "ParseUint_loop maxVal n (c # s) =
     (case digit_value c of
        None \<Rightarrow> Inl ErrSyntax
      | Some d \<Rightarrow> (let n1 = n * 10 + d in
          if n1 > maxVal then Inl ErrRange else ParseUint_loop maxVal n1 s))"

definition ParseUint10 :: "nat \<Rightarrow> string \<Rightarrow> num_error + nat" where
  "ParseUint10 bits s =
     (if s = [] then Inl ErrSyntax else ParseUint_loop (2 ^ bits - 1) 0 s)"

text \<open>The decimal notation of a number: the specification that \<open>ParseUint10\<close> is measured
  against.\<close>

definition digit_char :: "nat \<Rightarrow> char" where
  "digit_char d = char_of (48 + d)"

fun decimal :: "nat \<Rightarrow> string" where
  "decimal n = (if n < 10 then [digit_char n] else decimal (n div 10) @ [digit_char (n mod 10)])"

declare decimal.simps [simp del]

text \<open>\<^verbatim>\<open>%x\<close> of an unsigned number.\<close>

definition hex_char :: "nat \<Rightarrow> char" where
  "hex_char d = char_of (if d < 10 then 48 + d else 87 + d)"

fun hexadecimal :: "nat \<Rightarrow> string" where
  "hexadecimal n = (if n < 16 then [hex_char n] else hexadecimal (n div 16) @ [hex_char (n mod 16)])"

declare hexadecimal.simps [simp del]

section \<open>Shared lemmas\<close>

named_theorems item_defs \<open>the Match methods of the rule items\<close>
named_theorems rule_defs \<open>the phases of a rule's Match method\<close>

lemma res_bind_simps [simp]:
  "res_bind (Inl e) f = Inl e" "res_bind (Inr a) f = f a"
  by (simp_all add: res_bind_def)

lemma res_cause_simps [simp]:
  "res_cause args (Inl e) = Inl (ECause e args)" "res_cause args (Inr a) = Inr a"
  by (simp_all add: res_cause_def)

lemma res_bind_Inr_iff:
  "res_bind x f = Inr b \<longleftrightarrow> (\<exists>a. x = Inr a \<and> f a = Inr b)"
  by (cases x) auto

lemma any_st_pure:
  assumes "\<And>x. x \<in> set xs \<Longrightarrow> f x s = (g x, s)"
  shows "any_st f xs s = ((\<exists>x\<in>set xs. g x), s)"
  using assms by (induction xs) auto

lemma all_st_pure:
  assumes "\<And>x. x \<in> set xs \<Longrightarrow> f x s = (g x, s)"
  shows "all_st f xs s = ((\<forall>x\<in>set xs. g x), s)"
  using assms by (induction xs) auto

text \<open>What every call keeps of the shared object, the loop keeps.\<close>

lemma any_st_keeps:
  assumes "P s" "\<And>x s. x \<in> set xs \<Longrightarrow> P s \<Longrightarrow> P (snd (f x s))"
  shows "P (snd (any_st f xs s))"
  using assms
proof (induction xs arbitrary: s)
  case (Cons x xs)
  obtain b s' where f: "f x s = (b, s')" by force
  from Cons.prems(1) Cons.prems(2)[of x s] f have "P s'" by simp
  with Cons f show ?case by simp
qed simp

lemma all_st_keeps:
  assumes "P s" "\<And>x s. x \<in> set xs \<Longrightarrow> P s \<Longrightarrow> P (snd (f x s))"
  shows "P (snd (all_st f xs s))"
  using assms
proof (induction xs arbitrary: s)
  case (Cons x xs)
  obtain b s' where f: "f x s = (b, s')" by force
  from Cons.prems(1) Cons.prems(2)[of x s] f have "P s'" by simp
  with Cons f show ?case by simp
qed simp

text \<open>When each call's answer does not depend on what the calls before it left behind
  (\<open>I\<close> is what is known of the object), the loop is the quantifier.\<close>

lemma any_st_iff:
  assumes "I s"
    and "\<And>x s. x \<in> set xs \<Longrightarrow> I s \<Longrightarrow> I (snd (f x s))"
    and "\<And>x s. x \<in> set xs \<Longrightarrow> I s \<Longrightarrow> fst (f x s) = g x"
  shows "fst (any_st f xs s) \<longleftrightarrow> (\<exists>x\<in>set xs. g x)"
  using assms
proof (induction xs arbitrary: s)
  case (Cons x xs)
  obtain b s' where f: "f x s = (b, s')" by force
  from Cons.prems(1) Cons.prems(2)[of x s] Cons.prems(3)[of x s] f
  have "I s'" and "b = g x" by simp_all
  with Cons f show ?case by simp
qed simp

lemma all_st_iff:
  assumes "I s"
    and "\<And>x s. x \<in> set xs \<Longrightarrow> I s \<Longrightarrow> I (snd (f x s))"
    and "\<And>x s. x \<in> set xs \<Longrightarrow> I s \<Longrightarrow> fst (f x s) = g x"
  shows "fst (all_st f xs s) \<longleftrightarrow> (\<forall>x\<in>set xs. g x)"
  using assms
proof (induction xs arbitrary: s)
  case (Cons x xs)
  obtain b s' where f: "f x s = (b, s')" by force
  from Cons.prems(1) Cons.prems(2)[of x s] Cons.prems(3)[of x s] f
  have "I s'" and "b = g x" by simp_all
  with Cons f show ?case by simp
qed simp

lemma bool_map_from_iff: "bool_map_from m ks k \<longleftrightarrow> m k \<or> k \<in> set ks"
  by (induction ks arbitrary: m) auto

lemma bool_map_iff [simp]: "bool_map ks k \<longleftrightarrow> k \<in> set ks"
  by (simp add: bool_map_def bool_map_from_iff)

lemma map_res_Inr_length: "map_res f xs = Inr ys \<Longrightarrow> length ys = length xs"
  by (induction xs arbitrary: ys) (auto split: sum.splits)

lemma map_res_Inr_nth:
  "map_res f xs = Inr ys \<Longrightarrow> i < length xs \<Longrightarrow> f (xs ! i) = Inr (ys ! i)"
proof (induction xs arbitrary: ys i)
  case (Cons x xs)
  then show ?case by (cases i) (auto split: sum.splits)
qed simp

lemma index_of_append: "c \<notin> set s \<Longrightarrow> index_of c (s @ c # t) = Some (length s)"
  by (induction s) auto

lemma index_of_None: "index_of c s = None \<longleftrightarrow> c \<notin> set s"
  by (induction s) auto

lemma index_of_Some: "index_of c s = Some i \<Longrightarrow> c \<in> set s"
  by (metis index_of_None option.distinct(1))

lemma strings_Contains_single: "strings_Contains s [c] \<longleftrightarrow> c \<in> set s"
  by (induction s) (auto simp: has_prefix_def)

lemma strings_Contains_iff: "strings_Contains s sub \<longleftrightarrow> (\<exists>a b. s = a @ sub @ b)"
proof (induction s)
  case (Cons c s)
  have pre: "has_prefix (c # s) sub \<longleftrightarrow> (\<exists>b. c # s = sub @ b)"
    unfolding has_prefix_def by (metis append_eq_conv_conj append_take_drop_id)
  have step: "(\<exists>a b. c # s = a @ sub @ b) \<longleftrightarrow>
      (\<exists>b. c # s = sub @ b) \<or> (\<exists>a b. s = a @ sub @ b)"
    by (metis append_Cons append_Nil list.inject neq_Nil_conv)
  show ?case by (simp add: pre step Cons.IH)
qed simp

lemma has_suffix_iff: "has_suffix s p \<longleftrightarrow> (\<exists>q. s = q @ p)"
  unfolding has_suffix_def
  by (metis append_eq_conv_conj append_take_drop_id diff_diff_cancel le_add2 length_append
      length_drop add_diff_cancel_right')

subsection \<open>Parsing decimal numbers\<close>

lemma digit_value_digit_char [simp]: "d < 10 \<Longrightarrow> digit_value (digit_char d) = Some d"
  by (simp add: digit_value_def digit_char_def)

lemma digit_char_neq_colon: "d < 10 \<Longrightarrow> digit_char d \<noteq> CHR '':''"
proof
  assume d: "d < 10" and "digit_char d = CHR '':''"
  then have "of_char (digit_char d) = (of_char (CHR '':'') :: nat)" by simp
  with d show False by (simp add: digit_char_def)
qed

lemma decimal_neq_Nil [simp]: "decimal n \<noteq> []"
  by (subst decimal.simps) simp

lemma colon_notin_decimal: "CHR '':'' \<notin> set (decimal n)"
proof (induction n rule: decimal.induct)
  case (1 n)
  then show ?case
    by (subst decimal.simps) (auto simp: digit_char_neq_colon dest!: sym [of "CHR '':''"])
qed

lemma ParseUint_loop_append:
  "ParseUint_loop m a s = Inr b \<Longrightarrow> ParseUint_loop m a (s @ t) = ParseUint_loop m b t"
  by (induction m a s rule: ParseUint_loop.induct)
    (auto split: option.splits if_splits simp: Let_def)

lemma ParseUint_loop_decimal: "n \<le> m \<Longrightarrow> ParseUint_loop m 0 (decimal n) = Inr n"
proof (induction n rule: decimal.induct)
  case (1 n)
  show ?case
  proof (cases "n < 10")
    case True
    with 1 show ?thesis by (subst decimal.simps) simp
  next
    case False
    with 1 have "ParseUint_loop m 0 (decimal (n div 10)) = Inr (n div 10)" by simp
    then have "ParseUint_loop m 0 (decimal (n div 10) @ [digit_char (n mod 10)])
        = ParseUint_loop m (n div 10) [digit_char (n mod 10)]"
      by (rule ParseUint_loop_append)
    moreover have "n div 10 * 10 + n mod 10 = n" by simp
    ultimately show ?thesis using False 1 by (subst decimal.simps) (simp add: Let_def)
  qed
qed

lemma ParseUint10_decimal: "n < 2 ^ bits \<Longrightarrow> ParseUint10 bits (decimal n) = Inr n"
  by (simp add: ParseUint10_def ParseUint_loop_decimal)

lemma ParseUint_loop_bound:
  "ParseUint_loop m a s = Inr n \<Longrightarrow> a \<le> m \<Longrightarrow> n \<le> m"
  by (induction m a s rule: ParseUint_loop.induct)
    (auto split: option.splits if_splits simp: Let_def)

lemma ParseUint10_bound: "ParseUint10 bits s = Inr n \<Longrightarrow> n < 2 ^ bits"
  unfolding ParseUint10_def
  by (auto split: if_splits dest!: ParseUint_loop_bound) (metis Suc_pred less_Suc_eq_le
      zero_less_numeral zero_less_power)

end
