(* ===== verification/Metadata.thy ===== *)
theory Metadata
  imports Prelude
begin

text \<open>
  The data that a connection carries through the router, and what the router reads of its
  surroundings: IP addresses and prefixes (\<^verbatim>\<open>net/netip\<close>), socket addresses, the
  \<^verbatim>\<open>InboundContext\<close> of \<^verbatim>\<open>adapter/inbound.go\<close> with its rule cache, and the two records that
  the definitions take as arguments: \<open>deps\<close>, the functions of packages outside the sources,
  and \<open>env\<close>, what the other services report when a rule is evaluated. An object of a
  package outside the sources (a domain matcher, an AdGuard matcher, a compiled regular
  expression) is a value of the type variable \<open>'h\<close>, a handle that only \<open>deps\<close> interprets.
  Fields of \<^verbatim>\<open>InboundContext\<close> carry the prefix \<open>md_\<close>; \<^verbatim>\<open>SniffContext\<close>, an opaque value
  private to the sniffers, is left out.
\<close>

section \<open>Addresses\<close>

text \<open>\<^verbatim>\<open>netip.Addr\<close>: the zero value, an IPv4 address, an IPv6 address with its zone.\<close>

datatype Addr = AddrZero | Addr4 u32 | Addr6 u128 string

fun Addr_IsValid :: "Addr \<Rightarrow> bool" where
  "Addr_IsValid AddrZero = False"
| "Addr_IsValid _ = True"

fun Addr_Is4 :: "Addr \<Rightarrow> bool" where
  "Addr_Is4 (Addr4 _) = True"
| "Addr_Is4 _ = False"

fun Addr_Is6 :: "Addr \<Rightarrow> bool" where
  "Addr_Is6 (Addr6 _ _) = True"
| "Addr_Is6 _ = False"

text \<open>\<^verbatim>\<open>netip.Prefix\<close>: an address and a number of bits, -1 when invalid.\<close>

record Prefix =
  pfx_Addr :: Addr
  pfx_Bits :: int

definition Prefix_zero :: Prefix where
  "Prefix_zero = \<lparr>pfx_Addr = AddrZero, pfx_Bits = -1\<rparr>"

definition Prefix_IsValid :: "Prefix \<Rightarrow> bool" where
  "Prefix_IsValid p \<longleftrightarrow> Addr_IsValid (pfx_Addr p) \<and> 0 \<le> pfx_Bits p"

text \<open>\<^verbatim>\<open>Prefix.Overlaps\<close>: both valid, of one family, and equal on the shorter prefix.\<close>

definition Prefix_Overlaps :: "Prefix \<Rightarrow> Prefix \<Rightarrow> bool" where
  "Prefix_Overlaps p q =
     (if \<not> Prefix_IsValid p \<or> \<not> Prefix_IsValid q then False
      else let n = nat (min (pfx_Bits p) (pfx_Bits q)) in
        case (pfx_Addr p, pfx_Addr q) of
          (Addr4 a, Addr4 b) \<Rightarrow> drop_bit (32 - n) a = drop_bit (32 - n) b
        | (Addr6 a _, Addr6 b _) \<Rightarrow> drop_bit (128 - n) a = drop_bit (128 - n) b
        | _ \<Rightarrow> False)"

text \<open>\<^verbatim>\<open>M.Socksaddr\<close>: a host (an address or a domain name) and a port.\<close>

record Socksaddr =
  sa_Addr :: Addr
  sa_Port :: u16
  sa_Fqdn :: string

definition Socksaddr_zero :: Socksaddr where
  "Socksaddr_zero = \<lparr>sa_Addr = AddrZero, sa_Port = 0, sa_Fqdn = []\<rparr>"

text \<open>The representation of \<^verbatim>\<open>netipx.IPSet\<close> that \<^verbatim>\<open>common/srs/ip_set.go\<close> reads and builds
  through an unsafe pointer cast.\<close>

record myIPRange =
  rr_from :: Addr
  rr_to :: Addr

record myIPSet =
  rr :: "myIPRange list"

text \<open>A call on a \<^verbatim>\<open>netipx.IPSetBuilder\<close>; the builder is the list of the calls made on it.\<close>

datatype builder_call = AddPrefix Prefix | AddAddr Addr

section \<open>InboundContext\<close>

record ProcessInfo =
  pi_ProcessID :: u32
  pi_ProcessPath :: string
  pi_PackageName :: string
  pi_User :: string
  pi_UserId :: int

record InboundOptions =
  io_SniffEnabled :: bool
  io_SniffOverrideDestination :: bool
  io_SniffTimeout :: int
  io_DomainStrategy :: u8
  io_UDPDisableDomainUnmapping :: bool
  io_Detour :: string

definition InboundOptions_zero :: InboundOptions where
  "InboundOptions_zero =
     \<lparr>io_SniffEnabled = False, io_SniffOverrideDestination = False, io_SniffTimeout = 0,
      io_DomainStrategy = 0, io_UDPDisableDomainUnmapping = False, io_Detour = []\<rparr>"

record InboundContext =
  md_Inbound :: string
  md_InboundType :: string
  md_IPVersion :: u8
  md_Network :: string
  md_Source :: Socksaddr
  md_Destination :: Socksaddr
  md_User :: string
  md_Outbound :: string
  md_Protocol :: string
  md_Domain :: string
  md_Client :: string
  md_SnifferNames :: "string list"
  md_SniffError :: "goerr option"
  md_InboundDetour :: string
  md_LastInbound :: string
  md_OriginDestination :: Socksaddr
  md_RouteOriginalDestination :: Socksaddr
  md_InboundOptions :: InboundOptions
  md_UDPDisableDomainUnmapping :: bool
  md_UDPConnect :: bool
  md_UDPTimeout :: int
  md_TLSFragment :: bool
  md_TLSFragmentFallbackDelay :: int
  md_TLSRecordFragment :: bool
  md_NetworkStrategy :: "u8 option"
  md_NetworkType :: "u8 list"
  md_FallbackNetworkType :: "u8 list"
  md_FallbackDelay :: int
  md_DestinationAddresses :: "Addr list"
  md_SourceGeoIPCode :: string
  md_GeoIPCode :: string
  md_ProcessInfo :: "ProcessInfo option"
  md_QueryType :: u16
  md_FakeIP :: bool
  md_IPCIDRMatchSource :: bool
  md_IPCIDRAcceptEmpty :: bool
  md_SourceAddressMatch :: bool
  md_SourcePortMatch :: bool
  md_DestinationAddressMatch :: bool
  md_DestinationPortMatch :: bool
  md_DidMatch :: bool
  md_IgnoreDestinationIPCIDRMatch :: bool

definition InboundContext_zero :: InboundContext where
  "InboundContext_zero =
     \<lparr>md_Inbound = [], md_InboundType = [], md_IPVersion = 0, md_Network = [],
      md_Source = Socksaddr_zero, md_Destination = Socksaddr_zero, md_User = [],
      md_Outbound = [], md_Protocol = [], md_Domain = [], md_Client = [],
      md_SnifferNames = [], md_SniffError = None, md_InboundDetour = [],
      md_LastInbound = [], md_OriginDestination = Socksaddr_zero,
      md_RouteOriginalDestination = Socksaddr_zero,
      md_InboundOptions = InboundOptions_zero, md_UDPDisableDomainUnmapping = False,
      md_UDPConnect = False, md_UDPTimeout = 0, md_TLSFragment = False,
      md_TLSFragmentFallbackDelay = 0, md_TLSRecordFragment = False,
      md_NetworkStrategy = None, md_NetworkType = [], md_FallbackNetworkType = [],
      md_FallbackDelay = 0, md_DestinationAddresses = [], md_SourceGeoIPCode = [],
      md_GeoIPCode = [], md_ProcessInfo = None, md_QueryType = 0, md_FakeIP = False,
      md_IPCIDRMatchSource = False, md_IPCIDRAcceptEmpty = False,
      md_SourceAddressMatch = False, md_SourcePortMatch = False,
      md_DestinationAddressMatch = False, md_DestinationPortMatch = False,
      md_DidMatch = False, md_IgnoreDestinationIPCIDRMatch = False\<rparr>"

definition ResetRuleCache :: "InboundContext \<Rightarrow> InboundContext" where
  "ResetRuleCache c = c
     \<lparr>md_IPCIDRMatchSource := False,
      md_IPCIDRAcceptEmpty := False,
      md_SourceAddressMatch := False,
      md_SourcePortMatch := False,
      md_DestinationAddressMatch := False,
      md_DestinationPortMatch := False,
      md_DidMatch := False\<rparr>"

section \<open>What the router reads of its surroundings\<close>

text \<open>\<^verbatim>\<open>control.Interface\<close> and \<^verbatim>\<open>adapter.NetworkInterface\<close>.\<close>

record Interface =
  if_Name :: string
  if_Addresses :: "Prefix list"

record NetworkInterface =
  ni_Interface :: Interface
  ni_Type :: u8
  ni_DNSServers :: "string list"
  ni_Expensive :: bool
  ni_Constrained :: bool

text \<open>An entry of the outbound manager, as far as rules use it: its type, whether it offers
  preferred routes, and those routes.\<close>

record PreferredRoutes =
  pr_Type :: string
  pr_WithRoutes :: bool
  pr_PreferredDomain :: "string \<Rightarrow> bool"
  pr_PreferredAddress :: "Addr \<Rightarrow> bool"

record env =
  env_DefaultNetworkInterface :: "NetworkInterface option"
  env_NetworkInterfaces :: "NetworkInterface list"
  env_Interfaces :: "Interface list"
  env_DefaultInterface :: "Interface option"
  env_SSID :: string
  env_BSSID :: string
  env_ClashMode :: "string option"
  env_Outbound :: "string \<Rightarrow> PreferredRoutes option"

text \<open>Functions of packages outside the sources.\<close>

record 'h deps =
  F_ToString :: "arg list \<Rightarrow> string"
  F_MapToString :: "arg list \<Rightarrow> string list"
  domain_NewMatcher :: "string list \<Rightarrow> string list \<Rightarrow> bool \<Rightarrow> 'h"
  domain_Matcher_Match :: "'h \<Rightarrow> string \<Rightarrow> bool"
  domain_NewAdGuardMatcher :: "string list \<Rightarrow> 'h"
  domain_AdGuardMatcher_Match :: "'h \<Rightarrow> string \<Rightarrow> bool"
  regexp_Compile :: "string \<Rightarrow> 'h res"
  regexp_MatchString :: "'h \<Rightarrow> string \<Rightarrow> bool"
  netip_ParsePrefix :: "string \<Rightarrow> Prefix res"
  netip_ParseAddr :: "string \<Rightarrow> Addr res"
  netip_Prefix_String :: "Prefix \<Rightarrow> string"
  netip_Addr_String :: "Addr \<Rightarrow> string"
  time_Duration_String :: "int \<Rightarrow> string"
  netipx_IPSet :: "builder_call list \<Rightarrow> myIPSet res"
  netipx_IPSet_Contains :: "myIPSet \<Rightarrow> Addr \<Rightarrow> bool"
  N_IsPublicAddr :: "Addr \<Rightarrow> bool"
  M_IsIP :: "Socksaddr \<Rightarrow> bool"
  M_IsIPv4 :: "Socksaddr \<Rightarrow> bool"
  M_IsIPv6 :: "Socksaddr \<Rightarrow> bool"
  M_IsFqdn :: "Socksaddr \<Rightarrow> bool"
  M_IsValid :: "Socksaddr \<Rightarrow> bool"
  M_AddrString :: "Socksaddr \<Rightarrow> string"
  M_ParseSocksaddrHostPort :: "string \<Rightarrow> u16 \<Rightarrow> Socksaddr"
  strings_ToLower :: "string \<Rightarrow> string"
  strings_EqualFold :: "string \<Rightarrow> string \<Rightarrow> bool"
  filepath_Base :: "string \<Rightarrow> string"
  badoption_Prefixable_Build :: "Prefix option \<Rightarrow> Prefix \<Rightarrow> Prefix"
  mDNS_TypeToString :: "u16 \<Rightarrow> string option"
  mDNS_RcodeToString :: "int \<Rightarrow> string"

section \<open>Lemmas on the rule cache\<close>

text \<open>The five flags that rule matching itself writes; \<open>clear_flags\<close> forgets them.\<close>

definition clear_flags :: "InboundContext \<Rightarrow> InboundContext" where
  "clear_flags c = c
     \<lparr>md_SourceAddressMatch := False, md_SourcePortMatch := False,
      md_DestinationAddressMatch := False, md_DestinationPortMatch := False,
      md_DidMatch := False\<rparr>"

lemma clear_flags_idem [simp]: "clear_flags (clear_flags c) = clear_flags c"
  by (simp add: clear_flags_def)

lemma clear_flags_upd [simp]:
  "clear_flags (c\<lparr>md_SourceAddressMatch := b\<rparr>) = clear_flags c"
  "clear_flags (c\<lparr>md_SourcePortMatch := b\<rparr>) = clear_flags c"
  "clear_flags (c\<lparr>md_DestinationAddressMatch := b\<rparr>) = clear_flags c"
  "clear_flags (c\<lparr>md_DestinationPortMatch := b\<rparr>) = clear_flags c"
  "clear_flags (c\<lparr>md_DidMatch := b\<rparr>) = clear_flags c"
  by (simp_all add: clear_flags_def)

lemma flag_upd_self [simp]:
  "c\<lparr>md_SourceAddressMatch := md_SourceAddressMatch c\<rparr> = c"
  "c\<lparr>md_SourcePortMatch := md_SourcePortMatch c\<rparr> = c"
  "c\<lparr>md_DestinationAddressMatch := md_DestinationAddressMatch c\<rparr> = c"
  "c\<lparr>md_DestinationPortMatch := md_DestinationPortMatch c\<rparr> = c"
  "c\<lparr>md_DidMatch := md_DidMatch c\<rparr> = c"
  by (cases c, simp)+

lemma clear_flags_ResetRuleCache [simp]:
  "clear_flags (ResetRuleCache c) = ResetRuleCache c"
  by (simp add: clear_flags_def ResetRuleCache_def)

lemma ResetRuleCache_idem [simp]: "ResetRuleCache (ResetRuleCache c) = ResetRuleCache c"
  by (simp add: ResetRuleCache_def)

lemma ResetRuleCache_clear_flags [simp]:
  "ResetRuleCache (clear_flags c) = ResetRuleCache c"
  by (simp add: clear_flags_def ResetRuleCache_def)

lemma ResetRuleCache_upd [simp]:
  "ResetRuleCache (c\<lparr>md_IPCIDRMatchSource := b\<rparr>) = ResetRuleCache c"
  "ResetRuleCache (c\<lparr>md_IPCIDRAcceptEmpty := b\<rparr>) = ResetRuleCache c"
  "ResetRuleCache (c\<lparr>md_SourceAddressMatch := b\<rparr>) = ResetRuleCache c"
  "ResetRuleCache (c\<lparr>md_SourcePortMatch := b\<rparr>) = ResetRuleCache c"
  "ResetRuleCache (c\<lparr>md_DestinationAddressMatch := b\<rparr>) = ResetRuleCache c"
  "ResetRuleCache (c\<lparr>md_DestinationPortMatch := b\<rparr>) = ResetRuleCache c"
  "ResetRuleCache (c\<lparr>md_DidMatch := b\<rparr>) = ResetRuleCache c"
  by (simp_all add: ResetRuleCache_def)

lemma ResetRuleCache_sel [simp]:
  "\<not> md_SourceAddressMatch (ResetRuleCache c)" "\<not> md_SourcePortMatch (ResetRuleCache c)"
  "\<not> md_DestinationAddressMatch (ResetRuleCache c)"
  "\<not> md_DestinationPortMatch (ResetRuleCache c)" "\<not> md_DidMatch (ResetRuleCache c)"
  "\<not> md_IPCIDRMatchSource (ResetRuleCache c)" "\<not> md_IPCIDRAcceptEmpty (ResetRuleCache c)"
  "md_IgnoreDestinationIPCIDRMatch (ResetRuleCache c) = md_IgnoreDestinationIPCIDRMatch c"
  by (simp_all add: ResetRuleCache_def)

lemma clear_flags_sel [simp]:
  "md_IgnoreDestinationIPCIDRMatch (clear_flags c) = md_IgnoreDestinationIPCIDRMatch c"
  by (simp add: clear_flags_def)

end
