(* ===== verification/RuleItems.thy ===== *)
theory RuleItems
  imports Metadata
begin

text \<open>
  The rule items of \<^verbatim>\<open>route/rule/rule_item_*.go\<close> and \<^verbatim>\<open>route/rule/rule_*interface_address.go\<close>: the Go
  interface \<^verbatim>\<open>RuleItem\<close> as a datatype with one constructor per implementing struct (the
  rule-set item apart, which theory \<open>RuleSets\<close> adds), and for each struct its constructor
  function \<open>New...\<close>, its \<^verbatim>\<open>Match\<close> method and its \<^verbatim>\<open>String\<close> method. A field that points to the
  network manager is not stored: what the manager answers is read from \<open>env\<close>. An outbound
  of a \<open>PreferredByItem\<close> is referred to by its tag. A Go map that is iterated over is an
  association list.
\<close>

section \<open>The items\<close>

record rangeItem =
  ri_start :: u16
  ri_end :: u16

datatype 'h RuleItem =
    AdGuardDomainItem 'h
  | AuthUserItem "string list" "string \<Rightarrow> bool"
  | IPCIDRItem myIPSet bool string
  | ClashModeItem bool string
  | ClientItem "string list" "string \<Rightarrow> bool"
  | DomainItem 'h string
  | DomainKeywordItem "string list"
  | DomainRegexItem "'h list" string
  | InboundItem "string list" "string \<Rightarrow> bool"
  | IPAcceptAnyItem
  | IPIsPrivateItem bool
  | IPVersionItem bool
  | NetworkItem "string list" "string \<Rightarrow> bool"
  | NetworkIsConstrainedItem
  | NetworkIsExpensiveItem
  | NetworkTypeItem "u8 list"
  | OutboundItem "string list" "string \<Rightarrow> bool" bool
  | PackageNameItem "string list" "string \<Rightarrow> bool"
  | PortItem "u16 list" "u16 \<Rightarrow> bool" bool
  | PortRangeItem bool "string list" "rangeItem list"
  | PreferredByItem "string list" "string list"
  | ProcessItem "string list" "string \<Rightarrow> bool"
  | ProcessPathItem "string list" "string \<Rightarrow> bool"
  | ProcessPathRegexItem "'h list" string
  | ProtocolItem "string list" "string \<Rightarrow> bool"
  | QueryTypeItem "u16 list" "u16 \<Rightarrow> bool"
  | UserItem "string list" "string \<Rightarrow> bool"
  | UserIdItem "int list" "int \<Rightarrow> bool"
  | WIFIBSSIDItem "string list" "string \<Rightarrow> bool"
  | WIFISSIDItem "string list" "string \<Rightarrow> bool"
  | InterfaceAddressItem "(string \<times> Prefix list) list" string
  | DefaultInterfaceAddressItem "Prefix list"
  | NetworkInterfaceAddressItem "(u8 \<times> Prefix list) list" string

text \<open>The host a domain item looks at: the sniffed domain, else the destination's name.\<close>

definition domainHost :: "InboundContext \<Rightarrow> string" where
  "domainHost md = (if md_Domain md \<noteq> [] then md_Domain md else sa_Fqdn (md_Destination md))"

text \<open>\<^verbatim>\<open>name=x\<close> for one element, \<^verbatim>\<open>name=[x y ...]\<close> otherwise, printed with \<^verbatim>\<open>F.ToString\<close>.\<close>

definition describe_list :: "'h deps \<Rightarrow> string \<Rightarrow> string list \<Rightarrow> string" where
  "describe_list d name xs =
     (if length xs = 1 then F_ToString d [ArgS (name @ ''=''), ArgS (xs ! 0)]
      else F_ToString d [ArgS (name @ ''=[''), ArgS (strings_Join xs '' ''), ArgS '']''])"

text \<open>The same with plain concatenation, and the variant that prints three elements at most.\<close>

definition plain_list :: "string \<Rightarrow> string list \<Rightarrow> string" where
  "plain_list name xs =
     (if length xs = 1 then name @ ''='' @ xs ! 0
      else name @ ''=['' @ strings_Join xs '' '' @ '']'')"

definition short_list :: "string \<Rightarrow> string list \<Rightarrow> string" where
  "short_list name xs =
     (if length xs = 1 then name @ ''='' @ xs ! 0
      else if length xs > 3 then name @ ''=['' @ strings_Join (take 3 xs) '' '' @ ''...]''
      else name @ ''=['' @ strings_Join xs '' '' @ '']'')"

section \<open>Constructors, Match and String\<close>

subsection \<open>AdGuard domains\<close>

definition NewAdGuardDomainItem :: "'h deps \<Rightarrow> string list \<Rightarrow> 'h RuleItem" where
  "NewAdGuardDomainItem d ruleLines = AdGuardDomainItem (domain_NewAdGuardMatcher d ruleLines)"

definition NewRawAdGuardDomainItem :: "'h \<Rightarrow> 'h RuleItem" where
  "NewRawAdGuardDomainItem matcher = AdGuardDomainItem matcher"

definition AdGuardDomainItem_Match :: "'h deps \<Rightarrow> 'h \<Rightarrow> InboundContext \<Rightarrow> bool" where
  "AdGuardDomainItem_Match d matcher md =
     (if domainHost md = [] then False
      else domain_AdGuardMatcher_Match d matcher (strings_ToLower d (domainHost md)))"

definition AdGuardDomainItem_String :: string where
  "AdGuardDomainItem_String = ''!adguard_domain_rules=<binary>''"

subsection \<open>Authenticated user\<close>

definition NewAuthUserItem :: "string list \<Rightarrow> 'h RuleItem" where
  "NewAuthUserItem users = AuthUserItem users (bool_map users)"

definition AuthUserItem_Match :: "(string \<Rightarrow> bool) \<Rightarrow> InboundContext \<Rightarrow> bool" where
  "AuthUserItem_Match userMap md = userMap (md_User md)"

definition AuthUserItem_String :: "'h deps \<Rightarrow> string list \<Rightarrow> string" where
  "AuthUserItem_String d users = describe_list d ''auth_user'' users"

subsection \<open>IP CIDR\<close>

fun parse_cidrs :: "'h deps \<Rightarrow> nat \<Rightarrow> string list \<Rightarrow> builder_call list res" where
  "parse_cidrs d i [] = Inr []"
| "parse_cidrs d i (s # ss) =
     (case netip_ParsePrefix d s of
        Inr prefix \<Rightarrow> res_bind (parse_cidrs d (Suc i) ss) (\<lambda>cs. Inr (AddPrefix prefix # cs))
      | Inl err \<Rightarrow>
          (case netip_ParseAddr d s of
             Inr addr \<Rightarrow> res_bind (parse_cidrs d (Suc i) ss) (\<lambda>cs. Inr (AddAddr addr # cs))
           | Inl _ \<Rightarrow> Inl (ECause err [ArgS ''parse ['', ArgI (int i), ArgS '']''])))"

definition NewIPCIDRItem :: "'h deps \<Rightarrow> bool \<Rightarrow> string list \<Rightarrow> 'h RuleItem res" where
  "NewIPCIDRItem d isSource prefixStrings =
     res_bind (parse_cidrs d 0 prefixStrings) (\<lambda>builder.
       let description = short_list (if isSource then ''source_ip_cidr'' else ''ip_cidr'') prefixStrings
       in res_bind (netipx_IPSet d builder) (\<lambda>ipSet.
            Inr (IPCIDRItem ipSet isSource description)))"

definition NewRawIPCIDRItem :: "bool \<Rightarrow> myIPSet \<Rightarrow> 'h RuleItem" where
  "NewRawIPCIDRItem isSource ipSet =
     IPCIDRItem ipSet isSource ((if isSource then ''source_ip_cidr='' else ''ip_cidr='') @ ''<binary>'')"

definition IPCIDRItem_Match :: "'h deps \<Rightarrow> myIPSet \<Rightarrow> bool \<Rightarrow> InboundContext \<Rightarrow> bool" where
  "IPCIDRItem_Match d ipSet isSource md =
     (if isSource \<or> md_IPCIDRMatchSource md
      then netipx_IPSet_Contains d ipSet (sa_Addr (md_Source md))
      else if M_IsIP d (md_Destination md)
      then netipx_IPSet_Contains d ipSet (sa_Addr (md_Destination md))
      else if md_DestinationAddresses md \<noteq> []
      then list_ex (netipx_IPSet_Contains d ipSet) (md_DestinationAddresses md)
      else md_IPCIDRAcceptEmpty md)"

subsection \<open>Clash mode\<close>

definition NewClashModeItem :: "string \<Rightarrow> 'h RuleItem" where
  "NewClashModeItem mode = ClashModeItem False mode"

definition ClashModeItem_Start :: "env \<Rightarrow> string \<Rightarrow> 'h RuleItem" where
  "ClashModeItem_Start e mode = ClashModeItem (env_ClashMode e \<noteq> None) mode"

definition ClashModeItem_Match :: "'h deps \<Rightarrow> env \<Rightarrow> bool \<Rightarrow> string \<Rightarrow> bool" where
  "ClashModeItem_Match d e clashServer mode =
     (if \<not> clashServer then False
      else case env_ClashMode e of
        None \<Rightarrow> False
      | Some current \<Rightarrow> strings_EqualFold d current mode)"

definition ClashModeItem_String :: "string \<Rightarrow> string" where
  "ClashModeItem_String mode = ''clash_mode='' @ mode"

subsection \<open>Client\<close>

definition NewClientItem :: "string list \<Rightarrow> 'h RuleItem" where
  "NewClientItem clients = ClientItem clients (bool_map clients)"

definition ClientItem_Match :: "(string \<Rightarrow> bool) \<Rightarrow> InboundContext \<Rightarrow> bool" where
  "ClientItem_Match clientMap md = clientMap (md_Client md)"

definition ClientItem_String :: "'h deps \<Rightarrow> string list \<Rightarrow> string" where
  "ClientItem_String d clients = describe_list d ''client'' clients"

subsection \<open>Domains\<close>

definition NewDomainItem :: "'h deps \<Rightarrow> string list \<Rightarrow> string list \<Rightarrow> 'h RuleItem res" where
  "NewDomainItem d domains domainSuffixes =
     (if [] \<in> set domains then Inl (ENew [ArgS ''domain: empty item is not allowed''])
      else if [] \<in> set domainSuffixes
      then Inl (ENew [ArgS ''domain_suffix: empty item is not allowed''])
      else
        let description = (if domains \<noteq> [] then short_list ''domain'' domains else []);
            description = (if domainSuffixes \<noteq> [] then
              (if description \<noteq> [] then description @ '' '' else description)
                @ short_list ''domain_suffix'' domainSuffixes
              else description)
        in Inr (DomainItem (domain_NewMatcher d domains domainSuffixes False) description))"

definition NewRawDomainItem :: "'h \<Rightarrow> 'h RuleItem" where
  "NewRawDomainItem matcher = DomainItem matcher ''domain/domain_suffix=<binary>''"

definition DomainItem_Match :: "'h deps \<Rightarrow> 'h \<Rightarrow> InboundContext \<Rightarrow> bool" where
  "DomainItem_Match d matcher md =
     (if domainHost md = [] then False
      else domain_Matcher_Match d matcher (strings_ToLower d (domainHost md)))"

definition NewDomainKeywordItem :: "string list \<Rightarrow> 'h RuleItem" where
  "NewDomainKeywordItem keywords = DomainKeywordItem keywords"

definition DomainKeywordItem_Match :: "'h deps \<Rightarrow> string list \<Rightarrow> InboundContext \<Rightarrow> bool" where
  "DomainKeywordItem_Match d keywords md =
     (if domainHost md = [] then False
      else list_ex (strings_Contains (strings_ToLower d (domainHost md))) keywords)"

definition DomainKeywordItem_String :: "string list \<Rightarrow> string" where
  "DomainKeywordItem_String keywords = short_list ''domain_keyword'' keywords"

fun compile_all :: "'h deps \<Rightarrow> nat \<Rightarrow> string list \<Rightarrow> 'h list res" where
  "compile_all d i [] = Inr []"
| "compile_all d i (regex # regexes) =
     (case regexp_Compile d regex of
        Inl err \<Rightarrow> Inl (ECause err [ArgS ''parse expression '', ArgI (int i)])
      | Inr matcher \<Rightarrow> res_bind (compile_all d (Suc i) regexes) (\<lambda>ms. Inr (matcher # ms)))"

definition describe_regexes :: "'h deps \<Rightarrow> string \<Rightarrow> string list \<Rightarrow> string" where
  "describe_regexes d name expressions =
     name @ ''='' @
     (if length expressions = 1 then expressions ! 0
      else if length expressions > 3
      then F_ToString d [ArgS ''['', ArgS (strings_Join (take 3 expressions) '' ''), ArgS '']'']
      else F_ToString d [ArgS ''['', ArgS (strings_Join expressions '' ''), ArgS '']''])"

definition NewDomainRegexItem :: "'h deps \<Rightarrow> string list \<Rightarrow> 'h RuleItem res" where
  "NewDomainRegexItem d expressions =
     res_bind (compile_all d 0 expressions) (\<lambda>matchers.
       Inr (DomainRegexItem matchers (describe_regexes d ''domain_regex'' expressions)))"

definition DomainRegexItem_Match :: "'h deps \<Rightarrow> 'h list \<Rightarrow> InboundContext \<Rightarrow> bool" where
  "DomainRegexItem_Match d matchers md =
     (if domainHost md = [] then False
      else list_ex (\<lambda>matcher. regexp_MatchString d matcher (strings_ToLower d (domainHost md))) matchers)"

subsection \<open>Inbound\<close>

definition NewInboundRule :: "string list \<Rightarrow> 'h RuleItem" where
  "NewInboundRule inbounds = InboundItem inbounds (bool_map inbounds)"

definition InboundItem_Match :: "(string \<Rightarrow> bool) \<Rightarrow> InboundContext \<Rightarrow> bool" where
  "InboundItem_Match inboundMap md = inboundMap (md_Inbound md)"

definition InboundItem_String :: "'h deps \<Rightarrow> string list \<Rightarrow> string" where
  "InboundItem_String d inbounds = describe_list d ''inbound'' inbounds"

subsection \<open>IP address kinds and versions\<close>

definition NewIPAcceptAnyItem :: "'h RuleItem" where
  "NewIPAcceptAnyItem = IPAcceptAnyItem"

definition IPAcceptAnyItem_Match :: "InboundContext \<Rightarrow> bool" where
  "IPAcceptAnyItem_Match md \<longleftrightarrow> length (md_DestinationAddresses md) > 0"

definition IPAcceptAnyItem_String :: string where
  "IPAcceptAnyItem_String = ''ip_accept_any=true''"

definition NewIPIsPrivateItem :: "bool \<Rightarrow> 'h RuleItem" where
  "NewIPIsPrivateItem isSource = IPIsPrivateItem isSource"

definition IPIsPrivateItem_Match :: "'h deps \<Rightarrow> bool \<Rightarrow> InboundContext \<Rightarrow> bool" where
  "IPIsPrivateItem_Match d isSource md =
     (let destination = (if isSource then sa_Addr (md_Source md) else sa_Addr (md_Destination md))
      in if Addr_IsValid destination then \<not> N_IsPublicAddr d destination
         else if \<not> isSource
         then list_ex (\<lambda>a. \<not> N_IsPublicAddr d a) (md_DestinationAddresses md)
         else False)"

definition IPIsPrivateItem_String :: "bool \<Rightarrow> string" where
  "IPIsPrivateItem_String isSource =
     (if isSource then ''source_ip_is_private=true'' else ''ip_is_private=true'')"

definition NewIPVersionItem :: "bool \<Rightarrow> 'h RuleItem" where
  "NewIPVersionItem isIPv6 = IPVersionItem isIPv6"

definition IPVersionItem_Match :: "'h deps \<Rightarrow> bool \<Rightarrow> InboundContext \<Rightarrow> bool" where
  "IPVersionItem_Match d isIPv6 md \<longleftrightarrow>
     md_IPVersion md \<noteq> 0 \<and> (md_IPVersion md = 6) = isIPv6 \<or>
     M_IsIP d (md_Destination md) \<and> M_IsIPv6 d (md_Destination md) = isIPv6"

definition IPVersionItem_String :: "bool \<Rightarrow> string" where
  "IPVersionItem_String isIPv6 = ''ip_version='' @ (if isIPv6 then ''6'' else ''4'')"

subsection \<open>Network\<close>

definition NewNetworkItem :: "string list \<Rightarrow> 'h RuleItem" where
  "NewNetworkItem networks = NetworkItem networks (bool_map networks)"

definition NetworkItem_Match :: "(string \<Rightarrow> bool) \<Rightarrow> InboundContext \<Rightarrow> bool" where
  "NetworkItem_Match networkMap md = networkMap (md_Network md)"

definition NetworkItem_String :: "'h deps \<Rightarrow> string list \<Rightarrow> string" where
  "NetworkItem_String d networks =
     ''network='' @
     (if length networks = 1 then F_ToString d [ArgS (networks ! 0)]
      else ''['' @ strings_Join (F_MapToString d (map ArgS networks)) '' '' @ '']'')"

definition NetworkIsConstrainedItem_Match :: "env \<Rightarrow> bool" where
  "NetworkIsConstrainedItem_Match e =
     (case env_DefaultNetworkInterface e of None \<Rightarrow> False | Some n \<Rightarrow> ni_Constrained n)"

definition NetworkIsConstrainedItem_String :: string where
  "NetworkIsConstrainedItem_String = ''network_is_expensive=true''"

definition NetworkIsExpensiveItem_Match :: "env \<Rightarrow> bool" where
  "NetworkIsExpensiveItem_Match e =
     (case env_DefaultNetworkInterface e of None \<Rightarrow> False | Some n \<Rightarrow> ni_Expensive n)"

definition NetworkIsExpensiveItem_String :: string where
  "NetworkIsExpensiveItem_String = ''network_is_expensive=true''"

definition NewNetworkTypeItem :: "u8 list \<Rightarrow> 'h RuleItem" where
  "NewNetworkTypeItem networkType = NetworkTypeItem networkType"

definition NetworkTypeItem_Match :: "env \<Rightarrow> u8 list \<Rightarrow> bool" where
  "NetworkTypeItem_Match e networkType =
     (case env_DefaultNetworkInterface e of
        None \<Rightarrow> False
      | Some n \<Rightarrow> ni_Type n \<in> set networkType)"

text \<open>\<^verbatim>\<open>InterfaceType.String\<close> of \<^verbatim>\<open>constant/network.go\<close>.\<close>

definition InterfaceType_String :: "'h deps \<Rightarrow> u8 \<Rightarrow> string" where
  "InterfaceType_String d t =
     (if t = 0 then ''wifi'' else if t = 1 then ''cellular''
      else if t = 2 then ''ethernet'' else if t = 3 then ''other''
      else F_ToString d [ArgI (uint t)])"

definition NetworkTypeItem_String :: "'h deps \<Rightarrow> u8 list \<Rightarrow> string" where
  "NetworkTypeItem_String d networkType =
     (if length networkType = 1
      then F_ToString d [ArgS ''network_type='', ArgS (InterfaceType_String d (networkType ! 0))]
      else F_ToString d [ArgS ''network_type='',
        ArgS (''['' @ strings_Join (F_MapToString d
          (map (\<lambda>t. ArgS (InterfaceType_String d t)) networkType)) '' '' @ '']'')])"

subsection \<open>Outbound\<close>

fun outbound_loop :: "(string \<Rightarrow> bool) \<times> bool \<Rightarrow> string list \<Rightarrow> (string \<Rightarrow> bool) \<times> bool" where
  "outbound_loop (m, matchAny) [] = (m, matchAny)"
| "outbound_loop (m, matchAny) (outbound # outbounds) =
     (if outbound = ''any'' then outbound_loop (m, True) outbounds
      else outbound_loop (m(outbound := True), matchAny) outbounds)"

definition NewOutboundRule :: "string list \<Rightarrow> 'h RuleItem" where
  "NewOutboundRule outbounds =
     (case outbound_loop (\<lambda>_. False, False) outbounds of
        (outboundMap, matchAny) \<Rightarrow> OutboundItem outbounds outboundMap matchAny)"

definition OutboundItem_Match :: "(string \<Rightarrow> bool) \<Rightarrow> bool \<Rightarrow> InboundContext \<Rightarrow> bool" where
  "OutboundItem_Match outboundMap matchAny md =
     (if matchAny then md_Outbound md \<noteq> [] else outboundMap (md_Outbound md))"

definition OutboundItem_String :: "'h deps \<Rightarrow> string list \<Rightarrow> string" where
  "OutboundItem_String d outbounds = describe_list d ''outbound'' outbounds"

subsection \<open>Processes and users\<close>

definition NewPackageNameItem :: "string list \<Rightarrow> 'h RuleItem" where
  "NewPackageNameItem packageNameList = PackageNameItem packageNameList (bool_map packageNameList)"

definition PackageNameItem_Match :: "(string \<Rightarrow> bool) \<Rightarrow> InboundContext \<Rightarrow> bool" where
  "PackageNameItem_Match packageMap md =
     (case md_ProcessInfo md of
        None \<Rightarrow> False
      | Some p \<Rightarrow> if pi_PackageName p = [] then False else packageMap (pi_PackageName p))"

definition PackageNameItem_String :: "string list \<Rightarrow> string" where
  "PackageNameItem_String packageNames = plain_list ''package_name'' packageNames"

definition NewProcessItem :: "string list \<Rightarrow> 'h RuleItem" where
  "NewProcessItem processNameList = ProcessItem processNameList (bool_map processNameList)"

definition ProcessItem_Match :: "'h deps \<Rightarrow> (string \<Rightarrow> bool) \<Rightarrow> InboundContext \<Rightarrow> bool" where
  "ProcessItem_Match d processMap md =
     (case md_ProcessInfo md of
        None \<Rightarrow> False
      | Some p \<Rightarrow> if pi_ProcessPath p = [] then False
                  else processMap (filepath_Base d (pi_ProcessPath p)))"

definition ProcessItem_String :: "string list \<Rightarrow> string" where
  "ProcessItem_String processes = plain_list ''process_name'' processes"

definition NewProcessPathItem :: "string list \<Rightarrow> 'h RuleItem" where
  "NewProcessPathItem processNameList = ProcessPathItem processNameList (bool_map processNameList)"

definition ProcessPathItem_Match :: "(string \<Rightarrow> bool) \<Rightarrow> InboundContext \<Rightarrow> bool" where
  "ProcessPathItem_Match processMap md =
     (case md_ProcessInfo md of
        None \<Rightarrow> False
      | Some p \<Rightarrow> if pi_ProcessPath p = [] then False else processMap (pi_ProcessPath p))"

definition ProcessPathItem_String :: "string list \<Rightarrow> string" where
  "ProcessPathItem_String processes = plain_list ''process_path'' processes"

definition NewProcessPathRegexItem :: "'h deps \<Rightarrow> string list \<Rightarrow> 'h RuleItem res" where
  "NewProcessPathRegexItem d expressions =
     res_bind (compile_all d 0 expressions) (\<lambda>matchers.
       Inr (ProcessPathRegexItem matchers (describe_regexes d ''process_path_regex'' expressions)))"

definition ProcessPathRegexItem_Match :: "'h deps \<Rightarrow> 'h list \<Rightarrow> InboundContext \<Rightarrow> bool" where
  "ProcessPathRegexItem_Match d matchers md =
     (case md_ProcessInfo md of
        None \<Rightarrow> False
      | Some p \<Rightarrow> if pi_ProcessPath p = [] then False
                  else list_ex (\<lambda>matcher. regexp_MatchString d matcher (pi_ProcessPath p)) matchers)"

definition NewUserItem :: "string list \<Rightarrow> 'h RuleItem" where
  "NewUserItem users = UserItem users (bool_map users)"

definition UserItem_Match :: "(string \<Rightarrow> bool) \<Rightarrow> InboundContext \<Rightarrow> bool" where
  "UserItem_Match userMap md =
     (case md_ProcessInfo md of
        None \<Rightarrow> False
      | Some p \<Rightarrow> if pi_User p = [] then False else userMap (pi_User p))"

definition UserItem_String :: "'h deps \<Rightarrow> string list \<Rightarrow> string" where
  "UserItem_String d users = describe_list d ''user'' users"

definition NewUserIDItem :: "int list \<Rightarrow> 'h RuleItem" where
  "NewUserIDItem userIdList = UserIdItem userIdList (bool_map userIdList)"

definition UserIdItem_Match :: "(int \<Rightarrow> bool) \<Rightarrow> InboundContext \<Rightarrow> bool" where
  "UserIdItem_Match userIdMap md =
     (case md_ProcessInfo md of
        None \<Rightarrow> False
      | Some p \<Rightarrow> if pi_UserId p = -1 then False else userIdMap (pi_UserId p))"

definition UserIdItem_String :: "'h deps \<Rightarrow> int list \<Rightarrow> string" where
  "UserIdItem_String d userIds =
     (if length userIds = 1 then ''user_id='' @ F_ToString d [ArgI (userIds ! 0)]
      else ''user_id=['' @ strings_Join (F_MapToString d (map ArgI userIds)) '' '' @ '']'')"

subsection \<open>Ports\<close>

definition NewPortItem :: "bool \<Rightarrow> u16 list \<Rightarrow> 'h RuleItem" where
  "NewPortItem isSource ports = PortItem ports (bool_map ports) isSource"

definition PortItem_Match :: "(u16 \<Rightarrow> bool) \<Rightarrow> bool \<Rightarrow> InboundContext \<Rightarrow> bool" where
  "PortItem_Match portMap isSource md =
     (if isSource then portMap (sa_Port (md_Source md)) else portMap (sa_Port (md_Destination md)))"

definition PortItem_String :: "'h deps \<Rightarrow> u16 list \<Rightarrow> bool \<Rightarrow> string" where
  "PortItem_String d ports isSource =
     (if isSource then ''source_port='' else ''port='') @
     (if length ports = 1 then F_ToString d [ArgI (uint (ports ! 0))]
      else ''['' @ strings_Join (F_MapToString d (map (\<lambda>p. ArgI (uint p)) ports)) '' '' @ '']'')"

definition ErrBadPortRange :: goerr where
  "ErrBadPortRange = ENew [ArgS ''bad port range'']"

text \<open>\<^verbatim>\<open>strconv.ParseUint(s, 10, 16)\<close> with the error of the loop body.\<close>

definition parse_port :: "string \<Rightarrow> string \<Rightarrow> nat res" where
  "parse_port portRange s =
     (case ParseUint10 16 s of
        Inl err \<Rightarrow> Inl (ECause (ENum err) [ArgE (EExtend ErrBadPortRange [ArgS portRange])])
      | Inr n \<Rightarrow> Inr n)"

definition parse_range :: "string \<Rightarrow> rangeItem res" where
  "parse_range portRange =
     (case index_of (CHR '':'') portRange of
        None \<Rightarrow> Inl (EExtend ErrBadPortRange [ArgS portRange])
      | Some subIndex \<Rightarrow>
          res_bind (if subIndex > 0 then parse_port portRange (take subIndex portRange) else Inr 0) (\<lambda>start.
          res_bind (if subIndex = length portRange - 1 then Inr 65535
                    else parse_port portRange (drop (subIndex + 1) portRange)) (\<lambda>end.
          Inr \<lparr>ri_start = of_nat start, ri_end = of_nat end\<rparr>)))"

definition NewPortRangeItem :: "bool \<Rightarrow> string list \<Rightarrow> 'h RuleItem res" where
  "NewPortRangeItem isSource rangeList =
     res_bind (map_res parse_range rangeList) (\<lambda>portRangeList.
       Inr (PortRangeItem isSource rangeList portRangeList))"

definition PortRangeItem_Match :: "bool \<Rightarrow> rangeItem list \<Rightarrow> InboundContext \<Rightarrow> bool" where
  "PortRangeItem_Match isSource portRangeList md =
     (let port = (if isSource then sa_Port (md_Source md) else sa_Port (md_Destination md))
      in list_ex (\<lambda>r. port \<ge> ri_start r \<and> port \<le> ri_end r) portRangeList)"

definition PortRangeItem_String :: "bool \<Rightarrow> string list \<Rightarrow> string" where
  "PortRangeItem_String isSource portRanges =
     plain_list (if isSource then ''source_port_range'' else ''port_range'') portRanges"

subsection \<open>Preferred routes of an outbound\<close>

definition NewPreferredByItem :: "string list \<Rightarrow> 'h RuleItem" where
  "NewPreferredByItem outboundTags = PreferredByItem outboundTags []"

fun preferred_outbounds :: "env \<Rightarrow> string list \<Rightarrow> string list res" where
  "preferred_outbounds e [] = Inr []"
| "preferred_outbounds e (tag # tags) =
     (case env_Outbound e tag of
        None \<Rightarrow> Inl (ENew [ArgS ''outbound not found: '', ArgS tag])
      | Some outbound \<Rightarrow>
          if \<not> pr_WithRoutes outbound
          then Inl (ENew [ArgS ''outbound type does not support preferred routes: '', ArgS (pr_Type outbound)])
          else res_bind (preferred_outbounds e tags) (\<lambda>rest. Inr (tag # rest)))"

definition PreferredByItem_Start :: "env \<Rightarrow> string list \<Rightarrow> string list \<Rightarrow> 'h RuleItem res" where
  "PreferredByItem_Start e outboundTags outbounds =
     res_bind (preferred_outbounds e outboundTags) (\<lambda>found.
       Inr (PreferredByItem outboundTags (outbounds @ found)))"

definition preferred_domain :: "env \<Rightarrow> string \<Rightarrow> string \<Rightarrow> bool" where
  "preferred_domain e host tag =
     (case env_Outbound e tag of None \<Rightarrow> False | Some ob \<Rightarrow> pr_PreferredDomain ob host)"

definition preferred_address :: "env \<Rightarrow> Addr \<Rightarrow> string \<Rightarrow> bool" where
  "preferred_address e a tag =
     (case env_Outbound e tag of None \<Rightarrow> False | Some ob \<Rightarrow> pr_PreferredAddress ob a)"

definition PreferredByItem_Match :: "'h deps \<Rightarrow> env \<Rightarrow> string list \<Rightarrow> InboundContext \<Rightarrow> bool" where
  "PreferredByItem_Match d e outbounds md =
     (if domainHost md \<noteq> [] \<and> list_ex (preferred_domain e (domainHost md)) outbounds then True
      else if M_IsIP d (md_Destination md) \<and>
        list_ex (preferred_address e (sa_Addr (md_Destination md))) outbounds then True
      else if md_DestinationAddresses md \<noteq> [] \<and>
        list_ex (\<lambda>a. list_ex (preferred_address e a) outbounds) (md_DestinationAddresses md) then True
      else False)"

definition PreferredByItem_String :: "'h deps \<Rightarrow> string list \<Rightarrow> string" where
  "PreferredByItem_String d outboundTags =
     ''preferred_by='' @
     (if length outboundTags = 1 then F_ToString d [ArgS (outboundTags ! 0)]
      else ''['' @ strings_Join (F_MapToString d (map ArgS outboundTags)) '' '' @ '']'')"

subsection \<open>Protocol and DNS query type\<close>

definition NewProtocolItem :: "string list \<Rightarrow> 'h RuleItem" where
  "NewProtocolItem protocols = ProtocolItem protocols (bool_map protocols)"

definition ProtocolItem_Match :: "(string \<Rightarrow> bool) \<Rightarrow> InboundContext \<Rightarrow> bool" where
  "ProtocolItem_Match protocolMap md = protocolMap (md_Protocol md)"

definition ProtocolItem_String :: "'h deps \<Rightarrow> string list \<Rightarrow> string" where
  "ProtocolItem_String d protocols = describe_list d ''protocol'' protocols"

definition NewQueryTypeItem :: "u16 list \<Rightarrow> 'h RuleItem" where
  "NewQueryTypeItem typeList = QueryTypeItem typeList (bool_map typeList)"

definition QueryTypeItem_Match :: "(u16 \<Rightarrow> bool) \<Rightarrow> InboundContext \<Rightarrow> bool" where
  "QueryTypeItem_Match typeMap md =
     (if md_QueryType md = 0 then False else typeMap (md_QueryType md))"

definition DNSQueryTypeToString :: "'h deps \<Rightarrow> u16 \<Rightarrow> string" where
  "DNSQueryTypeToString d queryType =
     (case mDNS_TypeToString d queryType of
        Some typeName \<Rightarrow> typeName
      | None \<Rightarrow> F_ToString d [ArgI (uint queryType)])"

definition QueryTypeItem_String :: "'h deps \<Rightarrow> u16 list \<Rightarrow> string" where
  "QueryTypeItem_String d typeList = plain_list ''query_type'' (map (DNSQueryTypeToString d) typeList)"

subsection \<open>Wireless networks\<close>

definition NewWIFIBSSIDItem :: "string list \<Rightarrow> 'h RuleItem" where
  "NewWIFIBSSIDItem bssidList = WIFIBSSIDItem bssidList (bool_map bssidList)"

definition WIFIBSSIDItem_Match :: "env \<Rightarrow> (string \<Rightarrow> bool) \<Rightarrow> bool" where
  "WIFIBSSIDItem_Match e bssidMap = bssidMap (env_BSSID e)"

definition WIFIBSSIDItem_String :: "'h deps \<Rightarrow> string list \<Rightarrow> string" where
  "WIFIBSSIDItem_String d bssidList = describe_list d ''wifi_bssid'' bssidList"

definition NewWIFISSIDItem :: "string list \<Rightarrow> 'h RuleItem" where
  "NewWIFISSIDItem ssidList = WIFISSIDItem ssidList (bool_map ssidList)"

definition WIFISSIDItem_Match :: "env \<Rightarrow> (string \<Rightarrow> bool) \<Rightarrow> bool" where
  "WIFISSIDItem_Match e ssidMap = ssidMap (env_SSID e)"

definition WIFISSIDItem_String :: "'h deps \<Rightarrow> string list \<Rightarrow> string" where
  "WIFISSIDItem_String d ssidList = describe_list d ''wifi_ssid'' ssidList"

subsection \<open>Interface addresses\<close>

definition build_prefixes :: "'h deps \<Rightarrow> Prefix option list \<Rightarrow> Prefix list" where
  "build_prefixes d ps = map (\<lambda>p. badoption_Prefixable_Build d p Prefix_zero) ps"

fun interface_addresses ::
  "'h deps \<Rightarrow> ('k \<Rightarrow> string) \<Rightarrow> ('k \<times> Prefix list) list \<times> string list \<Rightarrow>
     ('k \<times> Prefix option list) list \<Rightarrow> ('k \<times> Prefix list) list \<times> string list" where
  "interface_addresses d name (m, ds) [] = (m, ds)"
| "interface_addresses d name (m, ds) ((k, ps) # entries) =
     (let prefixes = build_prefixes d ps in
      interface_addresses d name
        (AList.update k prefixes m,
         ds @ [name k @ ''='' @ strings_Join (map (netip_Prefix_String d) prefixes) '','']) entries)"

definition NewInterfaceAddressItem ::
  "'h deps \<Rightarrow> (string \<times> Prefix option list) list \<Rightarrow> 'h RuleItem" where
  "NewInterfaceAddressItem d entries =
     (case interface_addresses d id ([], []) entries of
        (m, ds) \<Rightarrow> InterfaceAddressItem m (''interface_address=['' @ strings_Join ds '' '' @ '']''))"

definition find_interface :: "string \<Rightarrow> Interface list \<Rightarrow> Interface" where
  "find_interface ifName interfaces =
     (case find (\<lambda>it. if_Name it = ifName) interfaces of
        Some it \<Rightarrow> it
      | None \<Rightarrow> \<lparr>if_Name = [], if_Addresses = []\<rparr>)"

definition InterfaceAddressItem_Match :: "env \<Rightarrow> (string \<times> Prefix list) list \<Rightarrow> bool" where
  "InterfaceAddressItem_Match e interfaceAddresses =
     list_all (\<lambda>(ifName, addresses).
       let iface = find_interface ifName (env_Interfaces e) in
       if if_Name iface = [] then False
       else if list_all (\<lambda>address. list_all (\<lambda>it. \<not> Prefix_Overlaps address it) (if_Addresses iface)) addresses
       then False
       else True) interfaceAddresses"

definition NewDefaultInterfaceAddressItem :: "'h deps \<Rightarrow> Prefix option list \<Rightarrow> 'h RuleItem" where
  "NewDefaultInterfaceAddressItem d interfaceAddresses =
     DefaultInterfaceAddressItem (build_prefixes d interfaceAddresses)"

definition DefaultInterfaceAddressItem_Match :: "env \<Rightarrow> Prefix list \<Rightarrow> bool" where
  "DefaultInterfaceAddressItem_Match e interfaceAddresses =
     (case env_DefaultInterface e of
        None \<Rightarrow> False
      | Some iface \<Rightarrow> list_all (\<lambda>address.
          if list_all (\<lambda>it. \<not> Prefix_Overlaps address it) (if_Addresses iface) then False else True)
          interfaceAddresses)"

definition DefaultInterfaceAddressItem_String :: "'h deps \<Rightarrow> Prefix list \<Rightarrow> string" where
  "DefaultInterfaceAddressItem_String d interfaceAddresses =
     short_list ''default_interface_address'' (map (netip_Prefix_String d) interfaceAddresses)"

definition NewNetworkInterfaceAddressItem ::
  "'h deps \<Rightarrow> (u8 \<times> Prefix option list) list \<Rightarrow> 'h RuleItem" where
  "NewNetworkInterfaceAddressItem d entries =
     (case interface_addresses d (InterfaceType_String d) ([], []) entries of
        (m, ds) \<Rightarrow> NetworkInterfaceAddressItem m
          (''network_interface_address=['' @ strings_Join ds '' '' @ '']''))"

definition NetworkInterfaceAddressItem_Match :: "env \<Rightarrow> (u8 \<times> Prefix list) list \<Rightarrow> bool" where
  "NetworkInterfaceAddressItem_Match e interfaceAddresses =
     list_all (\<lambda>(ifType, addresses).
       list_ex (\<lambda>n.
         if ni_Type n \<noteq> ifType then False
         else list_ex (\<lambda>it. list_ex (\<lambda>prefix. Prefix_Overlaps prefix it) addresses)
                (if_Addresses (ni_Interface n)))
         (env_NetworkInterfaces e)) interfaceAddresses"

section \<open>Dynamic dispatch\<close>

text \<open>The dynamic type test \<^verbatim>\<open>item.(*IPCIDRItem)\<close>.\<close>

fun is_IPCIDRItem :: "'h RuleItem \<Rightarrow> bool" where
  "is_IPCIDRItem (IPCIDRItem ipSet isSource description) = True"
| "is_IPCIDRItem _ = False"

text \<open>\<^verbatim>\<open>RuleItem.Match\<close> called through the interface.\<close>

fun RuleItem_Match :: "'h deps \<Rightarrow> env \<Rightarrow> 'h RuleItem \<Rightarrow> InboundContext \<Rightarrow> bool" where
  "RuleItem_Match d e (AdGuardDomainItem m) md = AdGuardDomainItem_Match d m md"
| "RuleItem_Match d e (AuthUserItem us um) md = AuthUserItem_Match um md"
| "RuleItem_Match d e (IPCIDRItem s src desc) md = IPCIDRItem_Match d s src md"
| "RuleItem_Match d e (ClashModeItem cs mode) md = ClashModeItem_Match d e cs mode"
| "RuleItem_Match d e (ClientItem cs cm) md = ClientItem_Match cm md"
| "RuleItem_Match d e (DomainItem m desc) md = DomainItem_Match d m md"
| "RuleItem_Match d e (DomainKeywordItem ks) md = DomainKeywordItem_Match d ks md"
| "RuleItem_Match d e (DomainRegexItem ms desc) md = DomainRegexItem_Match d ms md"
| "RuleItem_Match d e (InboundItem is im) md = InboundItem_Match im md"
| "RuleItem_Match d e IPAcceptAnyItem md = IPAcceptAnyItem_Match md"
| "RuleItem_Match d e (IPIsPrivateItem src) md = IPIsPrivateItem_Match d src md"
| "RuleItem_Match d e (IPVersionItem v6) md = IPVersionItem_Match d v6 md"
| "RuleItem_Match d e (NetworkItem ns nm) md = NetworkItem_Match nm md"
| "RuleItem_Match d e NetworkIsConstrainedItem md = NetworkIsConstrainedItem_Match e"
| "RuleItem_Match d e NetworkIsExpensiveItem md = NetworkIsExpensiveItem_Match e"
| "RuleItem_Match d e (NetworkTypeItem ts) md = NetworkTypeItem_Match e ts"
| "RuleItem_Match d e (OutboundItem os om a) md = OutboundItem_Match om a md"
| "RuleItem_Match d e (PackageNameItem ps pm) md = PackageNameItem_Match pm md"
| "RuleItem_Match d e (PortItem ps pm src) md = PortItem_Match pm src md"
| "RuleItem_Match d e (PortRangeItem src rs rl) md = PortRangeItem_Match src rl md"
| "RuleItem_Match d e (PreferredByItem ts os) md = PreferredByItem_Match d e os md"
| "RuleItem_Match d e (ProcessItem ps pm) md = ProcessItem_Match d pm md"
| "RuleItem_Match d e (ProcessPathItem ps pm) md = ProcessPathItem_Match pm md"
| "RuleItem_Match d e (ProcessPathRegexItem ms desc) md = ProcessPathRegexItem_Match d ms md"
| "RuleItem_Match d e (ProtocolItem ps pm) md = ProtocolItem_Match pm md"
| "RuleItem_Match d e (QueryTypeItem ts tm) md = QueryTypeItem_Match tm md"
| "RuleItem_Match d e (UserItem us um) md = UserItem_Match um md"
| "RuleItem_Match d e (UserIdItem us um) md = UserIdItem_Match um md"
| "RuleItem_Match d e (WIFIBSSIDItem bs bm) md = WIFIBSSIDItem_Match e bm"
| "RuleItem_Match d e (WIFISSIDItem ss sm) md = WIFISSIDItem_Match e sm"
| "RuleItem_Match d e (InterfaceAddressItem as desc) md = InterfaceAddressItem_Match e as"
| "RuleItem_Match d e (DefaultInterfaceAddressItem as) md = DefaultInterfaceAddressItem_Match e as"
| "RuleItem_Match d e (NetworkInterfaceAddressItem as desc) md = NetworkInterfaceAddressItem_Match e as"

text \<open>\<^verbatim>\<open>Start\<close> of the items that have one; the others are no starters.\<close>

fun RuleItem_Start :: "env \<Rightarrow> 'h RuleItem \<Rightarrow> 'h RuleItem res" where
  "RuleItem_Start e (ClashModeItem cs mode) = Inr (ClashModeItem_Start e mode)"
| "RuleItem_Start e (PreferredByItem ts os) = PreferredByItem_Start e ts os"
| "RuleItem_Start e item = Inr item"

section \<open>Lemmas\<close>

lemmas item_Match_defs [item_defs] =
  AdGuardDomainItem_Match_def AuthUserItem_Match_def IPCIDRItem_Match_def
  ClashModeItem_Match_def ClientItem_Match_def DomainItem_Match_def
  DomainKeywordItem_Match_def DomainRegexItem_Match_def InboundItem_Match_def
  IPAcceptAnyItem_Match_def IPIsPrivateItem_Match_def IPVersionItem_Match_def
  NetworkItem_Match_def NetworkIsConstrainedItem_Match_def
  NetworkIsExpensiveItem_Match_def NetworkTypeItem_Match_def OutboundItem_Match_def
  PackageNameItem_Match_def PortItem_Match_def PortRangeItem_Match_def
  PreferredByItem_Match_def ProcessItem_Match_def ProcessPathItem_Match_def
  ProcessPathRegexItem_Match_def ProtocolItem_Match_def QueryTypeItem_Match_def
  UserItem_Match_def UserIdItem_Match_def WIFIBSSIDItem_Match_def WIFISSIDItem_Match_def
  InterfaceAddressItem_Match_def DefaultInterfaceAddressItem_Match_def
  NetworkInterfaceAddressItem_Match_def

text \<open>No item reads the flags that rule matching writes: what an item answers does not
  depend on the items evaluated before it.\<close>

lemma RuleItem_Match_clear_flags:
  "RuleItem_Match d e item (clear_flags md) = RuleItem_Match d e item md"
  by (cases item) (simp_all add: item_defs domainHost_def clear_flags_def)

text \<open>No item but an IP CIDR item reads the two options that a rule-set item writes.\<close>

lemma RuleItem_Match_options:
  "\<not> is_IPCIDRItem item \<Longrightarrow>
   RuleItem_Match d e item (md\<lparr>md_IPCIDRMatchSource := a, md_IPCIDRAcceptEmpty := b\<rparr>) =
   RuleItem_Match d e item md"
  by (cases item) (simp_all add: item_defs domainHost_def)

subsection \<open>Port ranges\<close>

definition range_text :: "nat \<times> nat \<Rightarrow> string" where
  "range_text = (\<lambda>(a, b). decimal a @ '':'' @ decimal b)"

lemma parse_range_text:
  assumes "a < 65536" "b < 65536"
  shows "parse_range (range_text (a, b)) = Inr \<lparr>ri_start = of_nat a, ri_end = of_nat b\<rparr>"
proof -
  have idx: "index_of (CHR '':'') (range_text (a, b)) = Some (length (decimal a))"
    using index_of_append [OF colon_notin_decimal, of a "decimal b"] by (simp add: range_text_def)
  have nl: "0 < length (decimal a)" "0 < length (decimal b)" by simp_all
  have "ParseUint10 16 (decimal a) = Inr a" "ParseUint10 16 (decimal b) = Inr b"
    using assms by (auto intro: ParseUint10_decimal)
  then show ?thesis using idx nl by (simp add: parse_range_def parse_port_def range_text_def)
qed

lemma map_res_parse_range_texts:
  assumes "\<forall>(a, b)\<in>set rs. a < 65536 \<and> b < 65536"
  shows "map_res parse_range (map range_text rs) =
    Inr (map (\<lambda>(a, b). \<lparr>ri_start = of_nat a, ri_end = of_nat b\<rparr>) rs)"
  using assms by (induction rs) (auto simp: parse_range_text)

lemma word16_le_of_nat:
  assumes "a < 65536"
  shows "(of_nat a :: u16) \<le> p \<longleftrightarrow> a \<le> unat p" "p \<le> (of_nat a :: u16) \<longleftrightarrow> unat p \<le> a"
  using assms by (simp_all add: word_le_nat_alt unat_of_nat take_bit_nat_eq_self)

lemma parse_range_needs_colon: "parse_range s = Inr r \<Longrightarrow> CHR '':'' \<in> set s"
  by (cases "index_of (CHR '':'') s") (auto simp: parse_range_def index_of_None dest: index_of_Some)

subsection \<open>Map iteration order\<close>

lemma list_all_set_cong: "set xs = set ys \<Longrightarrow> list_all P xs = list_all P ys"
  by (simp add: list_all_iff)

subsection \<open>Constructed items\<close>

lemma outbound_loop_eq:
  "outbound_loop (m, a) os =
     ((\<lambda>k. m k \<or> (k \<in> set os \<and> k \<noteq> ''any'')), a \<or> ''any'' \<in> set os)"
  by (induction os arbitrary: m a) (auto simp: fun_eq_iff)

lemma interface_addresses_keys:
  "fst ` set (fst (interface_addresses d name (m, ds) es)) = fst ` set m \<union> fst ` set es"
  by (induction d name "(m, ds)" es arbitrary: m ds rule: interface_addresses.induct)
    (auto simp: Let_def dom_update image_Un)

end
