(* ===== verification/RuleMatch.thy ===== *)
theory RuleMatch
  imports RuleItems
begin

text \<open>
  The two abstract rules of \<^verbatim>\<open>route/rule/rule_abstract.go\<close>, on which every kind of rule is built.
  Their code is generic in the items (the Go interface \<^verbatim>\<open>RuleItem\<close>) and in the sub-rules (the
  Go interface \<^verbatim>\<open>HeadlessRule\<close>), so the definitions take the \<^verbatim>\<open>Match\<close> method of an element as
  an argument: a function that answers and may change the metadata it is given. The locale
  \<open>pure_items\<close> is the contract of the plain items, \<open>cache_frame\<close> the one of everything that
  can be matched: it changes nothing but the rule cache.
\<close>

section \<open>abstractDefaultRule\<close>

record ('i, 'a) abstractDefaultRule =
  items :: "'i list"
  sourceAddressItems :: "'i list"
  sourcePortItems :: "'i list"
  destinationAddressItems :: "'i list"
  destinationIPCIDRItems :: "'i list"
  destinationPortItems :: "'i list"
  allItems :: "'i list"
  ruleSetItem :: "'i option"
  invert :: bool
  action :: "'a option"

type_synonym 'i matcher = "'i \<Rightarrow> InboundContext \<Rightarrow> bool \<times> InboundContext"

definition match_sourceAddress ::
  "'i matcher \<Rightarrow> ('i, 'a) abstractDefaultRule \<Rightarrow> InboundContext \<Rightarrow> InboundContext" where
  "match_sourceAddress m r md =
     (if sourceAddressItems r \<noteq> [] \<and> \<not> md_SourceAddressMatch md then
        (case any_st m (sourceAddressItems r) (md\<lparr>md_DidMatch := True\<rparr>) of
           (b, md') \<Rightarrow> if b then md'\<lparr>md_SourceAddressMatch := True\<rparr> else md')
      else md)"

definition match_sourcePort ::
  "'i matcher \<Rightarrow> ('i, 'a) abstractDefaultRule \<Rightarrow> InboundContext \<Rightarrow> InboundContext" where
  "match_sourcePort m r md =
     (if sourcePortItems r \<noteq> [] \<and> \<not> md_SourcePortMatch md then
        (case any_st m (sourcePortItems r) (md\<lparr>md_DidMatch := True\<rparr>) of
           (b, md') \<Rightarrow> if b then md'\<lparr>md_SourcePortMatch := True\<rparr> else md')
      else md)"

definition match_destinationAddress ::
  "'i matcher \<Rightarrow> ('i, 'a) abstractDefaultRule \<Rightarrow> InboundContext \<Rightarrow> InboundContext" where
  "match_destinationAddress m r md =
     (if destinationAddressItems r \<noteq> [] \<and> \<not> md_DestinationAddressMatch md then
        (case any_st m (destinationAddressItems r) (md\<lparr>md_DidMatch := True\<rparr>) of
           (b, md') \<Rightarrow> if b then md'\<lparr>md_DestinationAddressMatch := True\<rparr> else md')
      else md)"

definition match_destinationIPCIDR ::
  "'i matcher \<Rightarrow> ('i, 'a) abstractDefaultRule \<Rightarrow> InboundContext \<Rightarrow> InboundContext" where
  "match_destinationIPCIDR m r md =
     (if \<not> md_IgnoreDestinationIPCIDRMatch md \<and> destinationIPCIDRItems r \<noteq> [] \<and>
         \<not> md_DestinationAddressMatch md then
        (case any_st m (destinationIPCIDRItems r) (md\<lparr>md_DidMatch := True\<rparr>) of
           (b, md') \<Rightarrow> if b then md'\<lparr>md_DestinationAddressMatch := True\<rparr> else md')
      else md)"

definition match_destinationPort ::
  "'i matcher \<Rightarrow> ('i, 'a) abstractDefaultRule \<Rightarrow> InboundContext \<Rightarrow> InboundContext" where
  "match_destinationPort m r md =
     (if destinationPortItems r \<noteq> [] \<and> \<not> md_DestinationPortMatch md then
        (case any_st m (destinationPortItems r) (md\<lparr>md_DidMatch := True\<rparr>) of
           (b, md') \<Rightarrow> if b then md'\<lparr>md_DestinationPortMatch := True\<rparr> else md')
      else md)"

text \<open>The loop over the remaining items; \<open>isRuleSet\<close> is the dynamic type test
  \<^verbatim>\<open>item.(*RuleSetItem)\<close>. \<open>False\<close>: the loop returned.\<close>

fun match_items ::
  "('i \<Rightarrow> bool) \<Rightarrow> 'i matcher \<Rightarrow> 'i list \<Rightarrow> InboundContext \<Rightarrow> bool \<times> InboundContext" where
  "match_items isRuleSet m [] md = (True, md)"
| "match_items isRuleSet m (item # rest) md =
     (case m item (if isRuleSet item then md else md\<lparr>md_DidMatch := True\<rparr>) of
        (b, md') \<Rightarrow> if b then match_items isRuleSet m rest md' else (False, md'))"

text \<open>The checks after the loop.\<close>

definition match_result :: "('i, 'a) abstractDefaultRule \<Rightarrow> InboundContext \<Rightarrow> bool" where
  "match_result r md =
     (if sourceAddressItems r \<noteq> [] \<and> \<not> md_SourceAddressMatch md then invert r
      else if sourcePortItems r \<noteq> [] \<and> \<not> md_SourcePortMatch md then invert r
      else if (\<not> md_IgnoreDestinationIPCIDRMatch md \<and> destinationIPCIDRItems r \<noteq> [] \<or>
               destinationAddressItems r \<noteq> []) \<and> \<not> md_DestinationAddressMatch md then invert r
      else if destinationPortItems r \<noteq> [] \<and> \<not> md_DestinationPortMatch md then invert r
      else if \<not> md_DidMatch md then True
      else \<not> invert r)"

definition abstractDefaultRule_Match ::
  "('i \<Rightarrow> bool) \<Rightarrow> 'i matcher \<Rightarrow> ('i, 'a) abstractDefaultRule \<Rightarrow> InboundContext \<Rightarrow>
     bool \<times> InboundContext" where
  "abstractDefaultRule_Match isRuleSet m r md =
     (if allItems r = [] then (True, md)
      else
        let md = match_sourceAddress m r md;
            md = match_sourcePort m r md;
            md = match_destinationAddress m r md;
            md = match_destinationIPCIDR m r md;
            md = match_destinationPort m r md
        in case match_items isRuleSet m (items r) md of
             (b, md) \<Rightarrow> if \<not> b then (invert r, md) else (match_result r md, md))"

text \<open>\<^verbatim>\<open>Start\<close> and \<^verbatim>\<open>Close\<close> loop over \<open>allItems\<close>. The groups hold the same objects: what \<^verbatim>\<open>Start\<close>
  changes in an item shows in its group too. \<open>start\<close> and \<open>close\<close> are the methods of an item
  (for an item without one, the function that does nothing), \<open>s\<close> the state they reach.\<close>

fun start_items :: "('i \<Rightarrow> 's \<Rightarrow> 'i res \<times> 's) \<Rightarrow> 'i list \<Rightarrow> 's \<Rightarrow> 'i list res \<times> 's" where
  "start_items start [] s = (Inr [], s)"
| "start_items start (item # rest) s =
     (case start item s of
        (Inl err, s) \<Rightarrow> (Inl err, s)
      | (Inr item, s) \<Rightarrow>
          (case start_items start rest s of
             (Inl err, s) \<Rightarrow> (Inl err, s)
           | (Inr rest, s) \<Rightarrow> (Inr (item # rest), s)))"

definition started :: "('i \<Rightarrow> 's \<Rightarrow> 'i res \<times> 's) \<Rightarrow> 's \<Rightarrow> 'i \<Rightarrow> 'i" where
  "started start s item = (case fst (start item s) of Inl err \<Rightarrow> item | Inr item' \<Rightarrow> item')"

definition abstractDefaultRule_Start ::
  "('i \<Rightarrow> 's \<Rightarrow> 'i res \<times> 's) \<Rightarrow> ('i, 'a) abstractDefaultRule \<Rightarrow> 's \<Rightarrow>
     ('i, 'a) abstractDefaultRule res \<times> 's" where
  "abstractDefaultRule_Start start r s =
     (case start_items start (allItems r) s of
        (Inl err, s') \<Rightarrow> (Inl err, s')
      | (Inr all, s') \<Rightarrow>
          (Inr (r\<lparr>items := map (started start s) (items r),
                  sourceAddressItems := map (started start s) (sourceAddressItems r),
                  sourcePortItems := map (started start s) (sourcePortItems r),
                  destinationAddressItems := map (started start s) (destinationAddressItems r),
                  destinationIPCIDRItems := map (started start s) (destinationIPCIDRItems r),
                  destinationPortItems := map (started start s) (destinationPortItems r),
                  allItems := all,
                  ruleSetItem := map_option (started start s) (ruleSetItem r)\<rparr>), s'))"

fun close_items :: "('i \<Rightarrow> 's \<Rightarrow> unit res \<times> 's) \<Rightarrow> 'i list \<Rightarrow> 's \<Rightarrow> unit res \<times> 's" where
  "close_items close [] s = (Inr (), s)"
| "close_items close (item # rest) s =
     (case close item s of
        (Inl err, s) \<Rightarrow> (Inl err, s)
      | (Inr _, s) \<Rightarrow> close_items close rest s)"

definition abstractDefaultRule_Close ::
  "('i \<Rightarrow> 's \<Rightarrow> unit res \<times> 's) \<Rightarrow> ('i, 'a) abstractDefaultRule \<Rightarrow> 's \<Rightarrow> unit res \<times> 's" where
  "abstractDefaultRule_Close close r s = close_items close (allItems r) s"

text \<open>\<^verbatim>\<open>str\<close> is the \<^verbatim>\<open>String\<close> method of an item, which \<^verbatim>\<open>F.MapToString\<close> calls.\<close>

definition abstractDefaultRule_String ::
  "'h deps \<Rightarrow> ('i \<Rightarrow> string) \<Rightarrow> ('i, 'a) abstractDefaultRule \<Rightarrow> string" where
  "abstractDefaultRule_String d str r =
     (let text = strings_Join (F_MapToString d (map (\<lambda>i. ArgS (str i)) (allItems r))) '' '' in
      if \<not> invert r then text else ''!('' @ text @ '')'')"

section \<open>abstractLogicalRule\<close>

definition abstractLogicalRule_String ::
  "'h deps \<Rightarrow> ('r \<Rightarrow> string) \<Rightarrow> 'r list \<Rightarrow> string \<Rightarrow> bool \<Rightarrow> string" where
  "abstractLogicalRule_String d str rules mode neg =
     (let op = (if mode = ''and'' then ''&&'' else if mode = ''or'' then ''||'' else []);
          text = strings_Join (F_MapToString d (map (\<lambda>r. ArgS (str r)) rules)) ('' '' @ op @ '' '') in
      if \<not> neg then text else ''!('' @ text @ '')'')"

definition LogicalTypeAnd :: string where "LogicalTypeAnd = ''and''"
definition LogicalTypeOr :: string where "LogicalTypeOr = ''or''"

definition abstractLogicalRule_Match ::
  "'r matcher \<Rightarrow> 'r list \<Rightarrow> string \<Rightarrow> bool \<Rightarrow> InboundContext \<Rightarrow> bool \<times> InboundContext" where
  "abstractLogicalRule_Match m rules mode neg md =
     (if mode = LogicalTypeAnd then
        (case all_st (\<lambda>it md. m it (ResetRuleCache md)) rules md of (b, md') \<Rightarrow> (b \<noteq> neg, md'))
      else
        (case any_st (\<lambda>it md. m it (ResetRuleCache md)) rules md of (b, md') \<Rightarrow> (b \<noteq> neg, md')))"

text \<open>The recursion of a rule through its sub-rules calls \<open>m\<close> on the elements of \<open>rules\<close>
  only.\<close>

lemma any_st_cong [fundef_cong]:
  "xs = ys \<Longrightarrow> s = t \<Longrightarrow> (\<And>x s. x \<in> set ys \<Longrightarrow> f x s = g x s) \<Longrightarrow> any_st f xs s = any_st g ys t"
proof (induction ys arbitrary: xs s t)
  case (Cons y ys)
  have "any_st f ys u = any_st g ys u" for u
    by (rule Cons.IH) (simp_all add: Cons.prems(3))
  with Cons.prems show ?case by (simp split: prod.split)
qed simp

lemma all_st_cong [fundef_cong]:
  "xs = ys \<Longrightarrow> s = t \<Longrightarrow> (\<And>x s. x \<in> set ys \<Longrightarrow> f x s = g x s) \<Longrightarrow> all_st f xs s = all_st g ys t"
proof (induction ys arbitrary: xs s t)
  case (Cons y ys)
  have "all_st f ys u = all_st g ys u" for u
    by (rule Cons.IH) (simp_all add: Cons.prems(3))
  with Cons.prems show ?case by (simp split: prod.split)
qed simp

lemma abstractLogicalRule_Match_cong [fundef_cong]:
  "rules = rules' \<Longrightarrow> mode = mode' \<Longrightarrow> neg = neg' \<Longrightarrow> md = md' \<Longrightarrow>
   (\<And>x s. x \<in> set rules' \<Longrightarrow> m x s = m' x s) \<Longrightarrow>
   abstractLogicalRule_Match m rules mode neg md = abstractLogicalRule_Match m' rules' mode' neg' md'"
  unfolding abstractLogicalRule_Match_def
  by (simp cong: any_st_cong all_st_cong)

section \<open>Building rules\<close>

text \<open>The constructors of the rules append an item to one group and to \<open>allItems\<close>.\<close>

definition add_items :: "'i \<Rightarrow> ('i, 'a) abstractDefaultRule \<Rightarrow> ('i, 'a) abstractDefaultRule" where
  "add_items item r = r\<lparr>items := items r @ [item], allItems := allItems r @ [item]\<rparr>"

definition add_sourceAddressItems :: "'i \<Rightarrow> ('i, 'a) abstractDefaultRule \<Rightarrow> ('i, 'a) abstractDefaultRule" where
  "add_sourceAddressItems item r =
     r\<lparr>sourceAddressItems := sourceAddressItems r @ [item], allItems := allItems r @ [item]\<rparr>"

definition add_sourcePortItems :: "'i \<Rightarrow> ('i, 'a) abstractDefaultRule \<Rightarrow> ('i, 'a) abstractDefaultRule" where
  "add_sourcePortItems item r =
     r\<lparr>sourcePortItems := sourcePortItems r @ [item], allItems := allItems r @ [item]\<rparr>"

definition add_destinationAddressItems ::
  "'i \<Rightarrow> ('i, 'a) abstractDefaultRule \<Rightarrow> ('i, 'a) abstractDefaultRule" where
  "add_destinationAddressItems item r =
     r\<lparr>destinationAddressItems := destinationAddressItems r @ [item], allItems := allItems r @ [item]\<rparr>"

definition add_destinationIPCIDRItems ::
  "'i \<Rightarrow> ('i, 'a) abstractDefaultRule \<Rightarrow> ('i, 'a) abstractDefaultRule" where
  "add_destinationIPCIDRItems item r =
     r\<lparr>destinationIPCIDRItems := destinationIPCIDRItems r @ [item], allItems := allItems r @ [item]\<rparr>"

definition add_destinationPortItems ::
  "'i \<Rightarrow> ('i, 'a) abstractDefaultRule \<Rightarrow> ('i, 'a) abstractDefaultRule" where
  "add_destinationPortItems item r =
     r\<lparr>destinationPortItems := destinationPortItems r @ [item], allItems := allItems r @ [item]\<rparr>"

definition empty_rule :: "bool \<Rightarrow> 'a option \<Rightarrow> ('i, 'a) abstractDefaultRule" where
  "empty_rule neg act =
     \<lparr>items = [], sourceAddressItems = [], sourcePortItems = [], destinationAddressItems = [],
      destinationIPCIDRItems = [], destinationPortItems = [], allItems = [], ruleSetItem = None,
      invert = neg, action = act\<rparr>"

text \<open>A constructor is a sequence of statements \<^verbatim>\<open>if cond { item := New...; append }\<close>, each of
  which may return with an error: \<open>opt_item\<close> is one whose item is built without, \<open>opt_res\<close> one
  whose item may fail, \<open>run_stages\<close> the sequence.\<close>

definition opt_item :: "bool \<Rightarrow> ('i \<Rightarrow> 'r \<Rightarrow> 'r) \<Rightarrow> 'i \<Rightarrow> 'r \<Rightarrow> 'r res" where
  "opt_item c add item r = (if c then Inr (add item r) else Inr r)"

definition opt_res :: "bool \<Rightarrow> ('i \<Rightarrow> 'r \<Rightarrow> 'r) \<Rightarrow> 'i res \<Rightarrow> 'r \<Rightarrow> 'r res" where
  "opt_res c add item r = (if c then res_bind item (\<lambda>item. Inr (add item r)) else Inr r)"

fun run_stages :: "('r \<Rightarrow> 'r res) list \<Rightarrow> 'r \<Rightarrow> 'r res" where
  "run_stages [] r = Inr r"
| "run_stages (stage # stages) r =
     (case stage r of Inl err \<Rightarrow> Inl err | Inr r' \<Rightarrow> run_stages stages r')"

section \<open>Specification\<close>

text \<open>
  The documented matching logic of a default rule (\<^verbatim>\<open>docs/configuration/route/rule.md\<close>): a
  disjunction in each of the address and port groups, a conjunction of the groups and the
  other fields. \<open>f\<close> says which items match; \<open>ignore\<close> drops the IP CIDR group, as the first
  pass over DNS rules does; a group whose flag is already set by an enclosing rule holds.
\<close>

definition group_ok :: "('i \<Rightarrow> bool) \<Rightarrow> bool \<Rightarrow> 'i list \<Rightarrow> bool" where
  "group_ok f flag xs \<longleftrightarrow> xs = [] \<or> flag \<or> (\<exists>x\<in>set xs. f x)"

definition destination_items :: "bool \<Rightarrow> ('i, 'a) abstractDefaultRule \<Rightarrow> 'i list" where
  "destination_items ignore r =
     destinationAddressItems r @ (if ignore then [] else destinationIPCIDRItems r)"

definition rule_condition ::
  "('i \<Rightarrow> bool) \<Rightarrow> ('i, 'a) abstractDefaultRule \<Rightarrow> InboundContext \<Rightarrow> bool" where
  "rule_condition f r md \<longleftrightarrow>
     (\<forall>i\<in>set (items r). f i) \<and>
     group_ok f (md_SourceAddressMatch md) (sourceAddressItems r) \<and>
     group_ok f (md_SourcePortMatch md) (sourcePortItems r) \<and>
     group_ok f (md_DestinationAddressMatch md)
       (destination_items (md_IgnoreDestinationIPCIDRMatch md) r) \<and>
     group_ok f (md_DestinationPortMatch md) (destinationPortItems r)"

text \<open>Whether the evaluation looks at a condition of the rule at all.\<close>

definition rule_looks ::
  "('i \<Rightarrow> bool) \<Rightarrow> ('i, 'a) abstractDefaultRule \<Rightarrow> InboundContext \<Rightarrow> bool" where
  "rule_looks isRuleSet r md \<longleftrightarrow>
     md_DidMatch md \<or>
     sourceAddressItems r \<noteq> [] \<and> \<not> md_SourceAddressMatch md \<or>
     sourcePortItems r \<noteq> [] \<and> \<not> md_SourcePortMatch md \<or>
     destination_items (md_IgnoreDestinationIPCIDRMatch md) r \<noteq> [] \<and> \<not> md_DestinationAddressMatch md \<or>
     destinationPortItems r \<noteq> [] \<and> \<not> md_DestinationPortMatch md \<or>
     (\<exists>i\<in>set (items r). \<not> isRuleSet i)"

text \<open>The well-formedness of a built rule: \<open>allItems\<close> lists the items of the six groups.\<close>

definition all_groups :: "('i, 'a) abstractDefaultRule \<Rightarrow> 'i set" where
  "all_groups r = set (items r) \<union> set (sourceAddressItems r) \<union> set (sourcePortItems r) \<union>
     set (destinationAddressItems r) \<union> set (destinationIPCIDRItems r) \<union> set (destinationPortItems r)"

definition rule_wf :: "('i, 'a) abstractDefaultRule \<Rightarrow> bool" where
  "rule_wf r \<longleftrightarrow> set (allItems r) = all_groups r"

lemma destination_items_Nil:
  "destination_items ignore r = [] \<longleftrightarrow>
     destinationAddressItems r = [] \<and> (ignore \<or> destinationIPCIDRItems r = [])"
  by (simp add: destination_items_def)

section \<open>Lemmas on built rules\<close>

named_theorems stage_intros \<open>which stages of a constructor keep a property of the rule\<close>

definition stage_keeps :: "('r \<Rightarrow> bool) \<Rightarrow> ('r \<Rightarrow> 'r res) \<Rightarrow> bool" where
  "stage_keeps P stage \<longleftrightarrow> (\<forall>r r'. P r \<longrightarrow> stage r = Inr r' \<longrightarrow> P r')"

lemma run_stages_keeps:
  "run_stages stages r = Inr r' \<Longrightarrow> P r \<Longrightarrow> \<forall>stage\<in>set stages. stage_keeps P stage \<Longrightarrow> P r'"
proof (induction stages arbitrary: r)
  case (Cons stage stages)
  then obtain r1 where r1: "stage r = Inr r1" "run_stages stages r1 = Inr r'"
    by (auto split: sum.splits)
  moreover from Cons.prems(3) have "stage_keeps P stage" by simp
  ultimately have "P r1" using Cons.prems(2) unfolding stage_keeps_def by blast
  with r1 Cons.IH [of r1] Cons.prems(3) show ?case by simp
qed simp

lemma run_stages_append:
  "run_stages (xs @ ys) r = res_bind (run_stages xs r) (run_stages ys)"
  by (induction xs arbitrary: r) (auto split: sum.split)

lemma run_stages_Cons_Inr:
  "run_stages (stage # stages) r = Inr r' \<longleftrightarrow>
     (\<exists>r1. stage r = Inr r1 \<and> run_stages stages r1 = Inr r')"
  by (cases "stage r") auto

lemma opt_item_keeps [stage_intros]:
  "(\<And>r. c \<Longrightarrow> P r \<Longrightarrow> P (add item r)) \<Longrightarrow> stage_keeps P (opt_item c add item)"
  by (auto simp: stage_keeps_def opt_item_def)

lemma opt_res_keeps [stage_intros]:
  "(\<And>r item. c \<Longrightarrow> ires = Inr item \<Longrightarrow> P r \<Longrightarrow> P (add item r)) \<Longrightarrow> stage_keeps P (opt_res c add ires)"
  by (cases ires) (auto simp: stage_keeps_def opt_res_def)

lemmas add_defs =
  add_items_def add_sourceAddressItems_def add_sourcePortItems_def
  add_destinationAddressItems_def add_destinationIPCIDRItems_def add_destinationPortItems_def

lemma rule_wf_empty [simp]: "rule_wf (empty_rule neg act)"
  by (simp add: rule_wf_def all_groups_def empty_rule_def)

lemma rule_wf_add [simp]:
  "rule_wf r \<Longrightarrow> rule_wf (add_items item r)"
  "rule_wf r \<Longrightarrow> rule_wf (add_sourceAddressItems item r)"
  "rule_wf r \<Longrightarrow> rule_wf (add_sourcePortItems item r)"
  "rule_wf r \<Longrightarrow> rule_wf (add_destinationAddressItems item r)"
  "rule_wf r \<Longrightarrow> rule_wf (add_destinationIPCIDRItems item r)"
  "rule_wf r \<Longrightarrow> rule_wf (add_destinationPortItems item r)"
  by (simp_all add: rule_wf_def all_groups_def add_defs)

section \<open>Plain items\<close>

lemmas match_phase_defs [rule_defs] =
  match_sourceAddress_def match_sourcePort_def match_destinationAddress_def
  match_destinationIPCIDR_def match_destinationPort_def

locale pure_items =
  fixes m :: "'i matcher"
    and f :: "'i \<Rightarrow> InboundContext \<Rightarrow> bool"
  assumes m_pure: "m i md = (f i md, md)"
    and f_flags: "f i (clear_flags md) = f i md"
begin

lemma f_cong: "clear_flags md = clear_flags md' \<Longrightarrow> f i md = f i md'"
  using f_flags [of i md] f_flags [of i md'] by simp

lemma f_upd [simp]:
  "f i (md\<lparr>md_SourceAddressMatch := b\<rparr>) = f i md"
  "f i (md\<lparr>md_SourcePortMatch := b\<rparr>) = f i md"
  "f i (md\<lparr>md_DestinationAddressMatch := b\<rparr>) = f i md"
  "f i (md\<lparr>md_DestinationPortMatch := b\<rparr>) = f i md"
  "f i (md\<lparr>md_DidMatch := b\<rparr>) = f i md"
  by (auto intro!: f_cong)

lemma any_m [simp]: "any_st m xs md = ((\<exists>x\<in>set xs. f x md), md)"
  by (rule any_st_pure) (simp add: m_pure)

lemma match_items_pure:
  "fst (match_items isRuleSet m xs md) \<longleftrightarrow> (\<forall>i\<in>set xs. f i md)"
  "\<forall>i\<in>set xs. f i md \<Longrightarrow> snd (match_items isRuleSet m xs md) =
     md\<lparr>md_DidMatch := md_DidMatch md \<or> (\<exists>i\<in>set xs. \<not> isRuleSet i)\<rparr>"
  by (induction xs arbitrary: md) (auto simp: m_pure)

text \<open>A phase of the evaluation as one update of the metadata: \<open>flag\<close> and \<open>put\<close> read and
  write the flag of the group \<open>xs\<close>, \<open>g\<close> is what else guards the phase.\<close>

lemma phase_upd:
  assumes self: "\<And>c. put (flag c) c = c"
    and did: "\<And>c b. flag (c\<lparr>md_DidMatch := b\<rparr>) = flag c"
  shows "(if g \<and> xs \<noteq> [] \<and> \<not> flag md then
            (case any_st m xs (md\<lparr>md_DidMatch := True\<rparr>) of (b, md') \<Rightarrow> if b then put True md' else md')
          else md) =
     put (flag md \<or> g \<and> (\<exists>x\<in>set xs. f x md))
       (md\<lparr>md_DidMatch := md_DidMatch md \<or> g \<and> xs \<noteq> [] \<and> \<not> flag md\<rparr>)"
proof (cases "g \<and> xs \<noteq> [] \<and> \<not> flag md")
  case True
  then have "put False (md\<lparr>md_DidMatch := True\<rparr>) = md\<lparr>md_DidMatch := True\<rparr>"
    using self [of "md\<lparr>md_DidMatch := True\<rparr>"] by (simp add: did)
  with True show ?thesis by simp
next
  case False
  then have "(flag md \<or> g \<and> (\<exists>x\<in>set xs. f x md)) = flag md" by auto
  with False self [of md] show ?thesis by auto
qed

lemma phase_sourceAddress:
  "match_sourceAddress m r md = md
     \<lparr>md_DidMatch := md_DidMatch md \<or> sourceAddressItems r \<noteq> [] \<and> \<not> md_SourceAddressMatch md,
      md_SourceAddressMatch := md_SourceAddressMatch md \<or> (\<exists>x\<in>set (sourceAddressItems r). f x md)\<rparr>"
  using phase_upd [of "\<lambda>b. md_SourceAddressMatch_update (\<lambda>_. b)" md_SourceAddressMatch "True" "sourceAddressItems r" md]
  by (simp add: match_sourceAddress_def)

lemma phase_sourcePort:
  "match_sourcePort m r md = md
     \<lparr>md_DidMatch := md_DidMatch md \<or> sourcePortItems r \<noteq> [] \<and> \<not> md_SourcePortMatch md,
      md_SourcePortMatch := md_SourcePortMatch md \<or> (\<exists>x\<in>set (sourcePortItems r). f x md)\<rparr>"
  using phase_upd [of "\<lambda>b. md_SourcePortMatch_update (\<lambda>_. b)" md_SourcePortMatch "True" "sourcePortItems r" md]
  by (simp add: match_sourcePort_def)

lemma phase_destinationAddress:
  "match_destinationAddress m r md = md
     \<lparr>md_DidMatch := md_DidMatch md \<or> destinationAddressItems r \<noteq> [] \<and> \<not> md_DestinationAddressMatch md,
      md_DestinationAddressMatch := md_DestinationAddressMatch md \<or>
        (\<exists>x\<in>set (destinationAddressItems r). f x md)\<rparr>"
  using phase_upd [of "\<lambda>b. md_DestinationAddressMatch_update (\<lambda>_. b)" md_DestinationAddressMatch "True" "destinationAddressItems r" md]
  by (simp add: match_destinationAddress_def)

lemma phase_destinationIPCIDR:
  "match_destinationIPCIDR m r md = md
     \<lparr>md_DidMatch := md_DidMatch md \<or> \<not> md_IgnoreDestinationIPCIDRMatch md \<and>
        destinationIPCIDRItems r \<noteq> [] \<and> \<not> md_DestinationAddressMatch md,
      md_DestinationAddressMatch := md_DestinationAddressMatch md \<or>
        \<not> md_IgnoreDestinationIPCIDRMatch md \<and> (\<exists>x\<in>set (destinationIPCIDRItems r). f x md)\<rparr>"
  using phase_upd [of "\<lambda>b. md_DestinationAddressMatch_update (\<lambda>_. b)" md_DestinationAddressMatch "\<not> md_IgnoreDestinationIPCIDRMatch md" "destinationIPCIDRItems r" md]
  by (simp add: match_destinationIPCIDR_def)

lemma phase_destinationPort:
  "match_destinationPort m r md = md
     \<lparr>md_DidMatch := md_DidMatch md \<or> destinationPortItems r \<noteq> [] \<and> \<not> md_DestinationPortMatch md,
      md_DestinationPortMatch := md_DestinationPortMatch md \<or> (\<exists>x\<in>set (destinationPortItems r). f x md)\<rparr>"
  using phase_upd [of "\<lambda>b. md_DestinationPortMatch_update (\<lambda>_. b)" md_DestinationPortMatch "True" "destinationPortItems r" md]
  by (simp add: match_destinationPort_def)

lemmas phases = phase_sourceAddress phase_sourcePort phase_destinationAddress
  phase_destinationIPCIDR phase_destinationPort

text \<open>The five phases together: each flag becomes the disjunction of its group.\<close>

lemma all_phases:
  "match_destinationPort m r (match_destinationIPCIDR m r
     (match_destinationAddress m r (match_sourcePort m r (match_sourceAddress m r md)))) = md
     \<lparr>md_SourceAddressMatch := md_SourceAddressMatch md \<or> (\<exists>x\<in>set (sourceAddressItems r). f x md),
      md_SourcePortMatch := md_SourcePortMatch md \<or> (\<exists>x\<in>set (sourcePortItems r). f x md),
      md_DestinationAddressMatch := md_DestinationAddressMatch md \<or>
        (\<exists>x\<in>set (destination_items (md_IgnoreDestinationIPCIDRMatch md) r). f x md),
      md_DestinationPortMatch := md_DestinationPortMatch md \<or> (\<exists>x\<in>set (destinationPortItems r). f x md),
      md_DidMatch := md_DidMatch md \<or>
        sourceAddressItems r \<noteq> [] \<and> \<not> md_SourceAddressMatch md \<or>
        sourcePortItems r \<noteq> [] \<and> \<not> md_SourcePortMatch md \<or>
        destination_items (md_IgnoreDestinationIPCIDRMatch md) r \<noteq> [] \<and> \<not> md_DestinationAddressMatch md \<or>
        destinationPortItems r \<noteq> [] \<and> \<not> md_DestinationPortMatch md\<rparr>"
proof -
  have da: "(md_DestinationAddressMatch md \<or> (\<exists>x\<in>set (destinationAddressItems r). f x md)) \<or>
        \<not> md_IgnoreDestinationIPCIDRMatch md \<and> (\<exists>x\<in>set (destinationIPCIDRItems r). f x md)
      \<longleftrightarrow> md_DestinationAddressMatch md \<or>
        (\<exists>x\<in>set (destination_items (md_IgnoreDestinationIPCIDRMatch md) r). f x md)"
    by (auto simp: destination_items_def)
  have did: "(destinationAddressItems r \<noteq> [] \<and> \<not> md_DestinationAddressMatch md) \<or>
        \<not> md_IgnoreDestinationIPCIDRMatch md \<and> destinationIPCIDRItems r \<noteq> [] \<and>
        \<not> (md_DestinationAddressMatch md \<or> (\<exists>x\<in>set (destinationAddressItems r). f x md))
      \<longleftrightarrow> destination_items (md_IgnoreDestinationIPCIDRMatch md) r \<noteq> [] \<and> \<not> md_DestinationAddressMatch md"
    by (auto simp: destination_items_def)
  show ?thesis
    unfolding phases by (simp add: da [symmetric] did [symmetric] disj_assoc)
qed

text \<open>The matching logic, for any state of the flags.\<close>

theorem Match_spec:
  "fst (abstractDefaultRule_Match isRuleSet m r md) \<longleftrightarrow>
     allItems r = [] \<or>
     (if rule_condition (\<lambda>i. f i md) r md
      then rule_looks isRuleSet r md \<longrightarrow> \<not> invert r
      else invert r)"
proof (cases "allItems r = []")
  case True
  then show ?thesis by (simp add: abstractDefaultRule_Match_def)
next
  case nonempty: False
  define md5 where "md5 = match_destinationPort m r (match_destinationIPCIDR m r
      (match_destinationAddress m r (match_sourcePort m r (match_sourceAddress m r md))))"
  have fi: "f i md5 = f i md" for i by (simp add: md5_def all_phases)
  obtain b md6 where items: "match_items isRuleSet m (items r) md5 = (b, md6)" by force
  have b: "b \<longleftrightarrow> (\<forall>i\<in>set (items r). f i md)"
    using match_items_pure(1) [of isRuleSet "items r" md5] items by (simp add: fi)
  have md6: "b \<Longrightarrow> md6 = md5\<lparr>md_DidMatch := md_DidMatch md5 \<or> (\<exists>i\<in>set (items r). \<not> isRuleSet i)\<rparr>"
    using match_items_pure(2) [of "items r" md5 isRuleSet] items b by (simp add: fi)
  have eq: "fst (abstractDefaultRule_Match isRuleSet m r md) =
      (if \<not> b then invert r else match_result r md6)"
    using nonempty items by (simp add: abstractDefaultRule_Match_def md5_def Let_def)
  have ne: "(\<exists>x\<in>set xs. f x md) \<Longrightarrow> xs \<noteq> []" for xs by auto
  show ?thesis
  proof (cases b)
    case True
    let ?f = "\<lambda>i. f i md" and ?ign = "md_IgnoreDestinationIPCIDRMatch md"
    note sel = md6 [OF True, unfolded md5_def all_phases]
    have sa: "sourceAddressItems r \<noteq> [] \<and> \<not> md_SourceAddressMatch md6 \<longleftrightarrow>
        \<not> group_ok ?f (md_SourceAddressMatch md) (sourceAddressItems r)"
      by (simp add: sel group_ok_def)
    have sp: "sourcePortItems r \<noteq> [] \<and> \<not> md_SourcePortMatch md6 \<longleftrightarrow>
        \<not> group_ok ?f (md_SourcePortMatch md) (sourcePortItems r)"
      by (simp add: sel group_ok_def)
    have da: "(\<not> md_IgnoreDestinationIPCIDRMatch md6 \<and> destinationIPCIDRItems r \<noteq> [] \<or>
          destinationAddressItems r \<noteq> []) \<and> \<not> md_DestinationAddressMatch md6 \<longleftrightarrow>
        \<not> group_ok ?f (md_DestinationAddressMatch md) (destination_items ?ign r)"
      by (auto simp: sel group_ok_def destination_items_Nil)
    have dp: "destinationPortItems r \<noteq> [] \<and> \<not> md_DestinationPortMatch md6 \<longleftrightarrow>
        \<not> group_ok ?f (md_DestinationPortMatch md) (destinationPortItems r)"
      by (simp add: sel group_ok_def)
    have did: "md_DidMatch md6 \<longleftrightarrow> rule_looks isRuleSet r md"
      by (simp add: sel rule_looks_def disj_assoc)
    have res: "match_result r md6 \<longleftrightarrow>
        (if rule_condition ?f r md then rule_looks isRuleSet r md \<longrightarrow> \<not> invert r else invert r)"
      using True unfolding match_result_def sa sp da dp did b rule_condition_def by simp
    show ?thesis using True nonempty by (simp add: eq res)
  next
    case False
    then have "\<not> rule_condition (\<lambda>i. f i md) r md" by (auto simp: b rule_condition_def)
    then show ?thesis using False nonempty by (simp add: eq)
  qed
qed

text \<open>After \<^verbatim>\<open>ResetRuleCache\<close>, a built rule matches exactly when its condition holds, or does
  not hold when the rule is inverted; a rule without items always matches, and so does one
  whose only conditions are rule sets or ignored, however it is inverted.\<close>

lemma Match_after_reset:
  assumes "rule_wf r" "\<forall>i\<in>all_groups r. \<not> isRuleSet i" "\<not> md_IgnoreDestinationIPCIDRMatch md"
  shows "fst (abstractDefaultRule_Match isRuleSet m r (ResetRuleCache md)) \<longleftrightarrow>
     allItems r = [] \<or> rule_condition (\<lambda>i. f i (ResetRuleCache md)) r (ResetRuleCache md) \<noteq> invert r"
proof (cases "allItems r = []")
  case False
  then obtain i where "i \<in> all_groups r" using assms(1) by (cases "allItems r") (auto simp: rule_wf_def)
  then have "rule_looks isRuleSet r (ResetRuleCache md)"
    using assms by (auto simp: all_groups_def rule_looks_def destination_items_def)
  then show ?thesis by (auto simp: Match_spec)
qed (simp add: Match_spec)

end

section \<open>The frame of every evaluation\<close>

text \<open>The contract of whatever can be matched against a connection: it may write the rule
  cache and nothing else.\<close>

lemma logical_keeps_if:
  assumes "\<And>r s. r \<in> set rules \<Longrightarrow> ResetRuleCache s = ResetRuleCache md \<Longrightarrow>
      ResetRuleCache (snd (m r (ResetRuleCache s))) = ResetRuleCache md"
  shows "ResetRuleCache (snd (abstractLogicalRule_Match m rules mode neg md)) = ResetRuleCache md"
proof -
  have "ResetRuleCache (snd (all_st (\<lambda>it md. m it (ResetRuleCache md)) rules md)) = ResetRuleCache md"
    by (rule all_st_keeps) (simp_all add: assms)
  moreover have "ResetRuleCache (snd (any_st (\<lambda>it md. m it (ResetRuleCache md)) rules md)) = ResetRuleCache md"
    by (rule any_st_keeps) (simp_all add: assms)
  ultimately show ?thesis by (simp add: abstractLogicalRule_Match_def case_prod_unfold)
qed

lemma logical_keeps_on:
  assumes "\<And>r md. r \<in> set rules \<Longrightarrow> ResetRuleCache (snd (m r md)) = ResetRuleCache md"
  shows "ResetRuleCache (snd (abstractLogicalRule_Match m rules mode neg md)) = ResetRuleCache md"
  by (rule logical_keeps_if) (simp add: assms)

text \<open>A logical rule evaluates each sub-rule on a fresh cache: it is the conjunction or the
  disjunction of what its sub-rules answer there, whatever the cache holds.\<close>

lemma logical_spec_if:
  assumes "\<And>r s. r \<in> set rules \<Longrightarrow> ResetRuleCache s = ResetRuleCache md \<Longrightarrow>
      ResetRuleCache (snd (m r (ResetRuleCache s))) = ResetRuleCache md"
  shows "fst (abstractLogicalRule_Match m rules mode neg md) \<longleftrightarrow>
     (if mode = LogicalTypeAnd then \<forall>r\<in>set rules. fst (m r (ResetRuleCache md))
      else \<exists>r\<in>set rules. fst (m r (ResetRuleCache md))) \<noteq> neg"
proof -
  let ?I = "\<lambda>s. ResetRuleCache s = ResetRuleCache md"
  have "fst (all_st (\<lambda>it md. m it (ResetRuleCache md)) rules md) \<longleftrightarrow>
      (\<forall>r\<in>set rules. fst (m r (ResetRuleCache md)))"
    by (rule all_st_iff [where I = ?I]) (simp_all add: assms)
  moreover have "fst (any_st (\<lambda>it md. m it (ResetRuleCache md)) rules md) \<longleftrightarrow>
      (\<exists>r\<in>set rules. fst (m r (ResetRuleCache md)))"
    by (rule any_st_iff [where I = ?I]) (simp_all add: assms)
  ultimately show ?thesis by (simp add: abstractLogicalRule_Match_def case_prod_unfold)
qed

locale cache_frame =
  fixes m :: "'i matcher"
  assumes m_keeps: "ResetRuleCache (snd (m i md)) = ResetRuleCache md"
begin

lemma any_m_keeps: "ResetRuleCache (snd (any_st m xs md)) = ResetRuleCache md"
  by (rule any_st_keeps) (simp_all add: m_keeps)

lemma phase_keeps:
  "ResetRuleCache (match_sourceAddress m r md) = ResetRuleCache md"
  "ResetRuleCache (match_sourcePort m r md) = ResetRuleCache md"
  "ResetRuleCache (match_destinationAddress m r md) = ResetRuleCache md"
  "ResetRuleCache (match_destinationIPCIDR m r md) = ResetRuleCache md"
  "ResetRuleCache (match_destinationPort m r md) = ResetRuleCache md"
  using any_m_keeps [of "sourceAddressItems r" "md\<lparr>md_DidMatch := True\<rparr>"]
    any_m_keeps [of "sourcePortItems r" "md\<lparr>md_DidMatch := True\<rparr>"]
    any_m_keeps [of "destinationAddressItems r" "md\<lparr>md_DidMatch := True\<rparr>"]
    any_m_keeps [of "destinationIPCIDRItems r" "md\<lparr>md_DidMatch := True\<rparr>"]
    any_m_keeps [of "destinationPortItems r" "md\<lparr>md_DidMatch := True\<rparr>"]
  by (auto simp: rule_defs split: prod.splits)

lemma match_items_keeps:
  "ResetRuleCache (snd (match_items isRuleSet m xs md)) = ResetRuleCache md"
proof (induction xs arbitrary: md)
  case (Cons x xs)
  obtain b md' where eq: "m x (if isRuleSet x then md else md\<lparr>md_DidMatch := True\<rparr>) = (b, md')" by force
  then have "ResetRuleCache md' = ResetRuleCache md"
    using m_keeps [of x "if isRuleSet x then md else md\<lparr>md_DidMatch := True\<rparr>"] by (simp split: if_splits)
  with eq Cons.IH [of md'] show ?case by simp
qed simp

lemma default_keeps:
  "ResetRuleCache (snd (abstractDefaultRule_Match isRuleSet m r md)) = ResetRuleCache md"
  using match_items_keeps [of isRuleSet "items r"]
  by (auto simp: abstractDefaultRule_Match_def Let_def phase_keeps split: prod.split)
    (metis phase_keeps snd_conv)+

lemma reset_m_keeps: "ResetRuleCache (snd (m i (ResetRuleCache md))) = ResetRuleCache md"
  by (simp add: m_keeps)

lemma logical_keeps:
  "ResetRuleCache (snd (abstractLogicalRule_Match m rules mode neg md)) = ResetRuleCache md"
  by (rule logical_keeps_on) (rule m_keeps)

lemma logical_spec:
  "fst (abstractLogicalRule_Match m rules mode neg md) \<longleftrightarrow>
     (if mode = LogicalTypeAnd then \<forall>r\<in>set rules. fst (m r (ResetRuleCache md))
      else \<exists>r\<in>set rules. fst (m r (ResetRuleCache md))) \<noteq> neg"
  by (rule logical_spec_if) (simp add: m_keeps)

end

sublocale pure_items \<subseteq> pure: cache_frame m
  by unfold_locales (simp add: m_pure)

section \<open>Evaluation and the flag that ignores IP CIDR conditions\<close>

text \<open>Setting \<^verbatim>\<open>IgnoreDestinationIPCIDRMatch\<close> before an evaluation or after it is the same where the
  evaluation has no condition that the flag drops.\<close>

definition ign :: "bool \<Rightarrow> InboundContext \<Rightarrow> InboundContext" where
  "ign b md = md\<lparr>md_IgnoreDestinationIPCIDRMatch := b\<rparr>"

definition ign_free :: "'i matcher \<Rightarrow> 'i \<Rightarrow> bool" where
  "ign_free m i \<longleftrightarrow> (\<forall>b md. m i (ign b md) = apsnd (ign b) (m i md))"

lemma ign_upd [simp]:
  "(ign b md)\<lparr>md_SourceAddressMatch := c\<rparr> = ign b (md\<lparr>md_SourceAddressMatch := c\<rparr>)"
  "(ign b md)\<lparr>md_SourcePortMatch := c\<rparr> = ign b (md\<lparr>md_SourcePortMatch := c\<rparr>)"
  "(ign b md)\<lparr>md_DestinationAddressMatch := c\<rparr> = ign b (md\<lparr>md_DestinationAddressMatch := c\<rparr>)"
  "(ign b md)\<lparr>md_DestinationPortMatch := c\<rparr> = ign b (md\<lparr>md_DestinationPortMatch := c\<rparr>)"
  "(ign b md)\<lparr>md_DidMatch := c\<rparr> = ign b (md\<lparr>md_DidMatch := c\<rparr>)"
  "(ign b md)\<lparr>md_IPCIDRMatchSource := c\<rparr> = ign b (md\<lparr>md_IPCIDRMatchSource := c\<rparr>)"
  "(ign b md)\<lparr>md_IPCIDRAcceptEmpty := c\<rparr> = ign b (md\<lparr>md_IPCIDRAcceptEmpty := c\<rparr>)"
  "ResetRuleCache (ign b md) = ign b (ResetRuleCache md)"
  by (simp_all add: ign_def ResetRuleCache_def)

lemma ign_sel [simp]:
  "md_SourceAddressMatch (ign b md) = md_SourceAddressMatch md"
  "md_SourcePortMatch (ign b md) = md_SourcePortMatch md"
  "md_DestinationAddressMatch (ign b md) = md_DestinationAddressMatch md"
  "md_DestinationPortMatch (ign b md) = md_DestinationPortMatch md"
  "md_DidMatch (ign b md) = md_DidMatch md"
  "md_IgnoreDestinationIPCIDRMatch (ign b md) = b"
  by (simp_all add: ign_def)

lemma any_st_apsnd:
  assumes "\<And>x s. x \<in> set xs \<Longrightarrow> f x (h s) = apsnd h (f x s)"
  shows "any_st f xs (h s) = apsnd h (any_st f xs s)"
  using assms by (induction xs arbitrary: s) (auto split: prod.split)

lemma all_st_apsnd:
  assumes "\<And>x s. x \<in> set xs \<Longrightarrow> f x (h s) = apsnd h (f x s)"
  shows "all_st f xs (h s) = apsnd h (all_st f xs s)"
  using assms by (induction xs arbitrary: s) (auto split: prod.split)

lemma any_st_ign: "\<forall>x\<in>set xs. ign_free m x \<Longrightarrow> any_st m xs (ign b md) = apsnd (ign b) (any_st m xs md)"
  by (rule any_st_apsnd) (simp add: ign_free_def)

lemma match_items_ign:
  "\<forall>x\<in>set xs. ign_free m x \<Longrightarrow>
   match_items g m xs (ign b md) = apsnd (ign b) (match_items g m xs md)"
  by (induction xs arbitrary: md) (auto simp: ign_free_def split: prod.split)

lemma phases_ign:
  assumes "\<forall>x\<in>all_groups r. ign_free m x" "destinationIPCIDRItems r = []"
  shows "match_sourceAddress m r (ign b md) = ign b (match_sourceAddress m r md)"
    and "match_sourcePort m r (ign b md) = ign b (match_sourcePort m r md)"
    and "match_destinationAddress m r (ign b md) = ign b (match_destinationAddress m r md)"
    and "match_destinationIPCIDR m r (ign b md) = ign b (match_destinationIPCIDR m r md)"
    and "match_destinationPort m r (ign b md) = ign b (match_destinationPort m r md)"
  using assms by (auto simp: rule_defs all_groups_def any_st_ign split: prod.split)

lemma default_ign:
  assumes "\<forall>x\<in>all_groups r. ign_free m x" "destinationIPCIDRItems r = []"
  shows "ign_free (abstractDefaultRule_Match g m) r"
proof -
  have "match_result r (ign b md) = match_result r md" for b md
    by (simp add: match_result_def assms(2))
  moreover have "\<forall>x\<in>set (items r). ign_free m x" using assms(1) by (simp add: all_groups_def)
  ultimately show ?thesis
    by (auto simp: ign_free_def abstractDefaultRule_Match_def Let_def phases_ign [OF assms]
        match_items_ign split: prod.split)
qed

lemma logical_ign:
  assumes "\<forall>r\<in>set rules. ign_free m r"
  shows "abstractLogicalRule_Match m rules mode neg (ign b md) =
    apsnd (ign b) (abstractLogicalRule_Match m rules mode neg md)"
proof -
  have "all_st (\<lambda>it md. m it (ResetRuleCache md)) rules (ign b md) =
      apsnd (ign b) (all_st (\<lambda>it md. m it (ResetRuleCache md)) rules md)"
    using assms by (intro all_st_apsnd) (simp add: ign_free_def)
  moreover have "any_st (\<lambda>it md. m it (ResetRuleCache md)) rules (ign b md) =
      apsnd (ign b) (any_st (\<lambda>it md. m it (ResetRuleCache md)) rules md)"
    using assms by (intro any_st_apsnd) (simp add: ign_free_def)
  ultimately show ?thesis by (simp add: abstractLogicalRule_Match_def split: prod.split)
qed

section \<open>The contract of the plain items\<close>

text \<open>The plain items keep the contract.\<close>

definition RuleItem_Match_st :: "'h deps \<Rightarrow> env \<Rightarrow> 'h RuleItem matcher" where
  "RuleItem_Match_st d e item md = (RuleItem_Match d e item md, md)"

interpretation plain: pure_items "RuleItem_Match_st d e" "RuleItem_Match d e" for d e
  by unfold_locales (simp_all add: RuleItem_Match_st_def RuleItem_Match_clear_flags)

end
