(* ===== verification/HeadlessRules.thy ===== *)
theory HeadlessRules
  imports RuleMatch
begin

text \<open>
  Headless rules, the rules of a rule set: their options (\<^verbatim>\<open>option/rule_set.go\<close>), their
  constructors (\<^verbatim>\<open>route/rule/rule_headless.go\<close>) and the functions over them of
  \<^verbatim>\<open>route/rule/rule_set.go\<close>. A headless rule holds plain items only. A nil and an empty list of
  options are the same value here.
\<close>

section \<open>Options\<close>

record 'h DefaultHeadlessRuleOptions =
  hr_QueryType :: "u16 list"
  hr_Network :: "string list"
  hr_Domain :: "string list"
  hr_DomainSuffix :: "string list"
  hr_DomainKeyword :: "string list"
  hr_DomainRegex :: "string list"
  hr_SourceIPCIDR :: "string list"
  hr_IPCIDR :: "string list"
  hr_SourcePort :: "u16 list"
  hr_SourcePortRange :: "string list"
  hr_Port :: "u16 list"
  hr_PortRange :: "string list"
  hr_ProcessName :: "string list"
  hr_ProcessPath :: "string list"
  hr_ProcessPathRegex :: "string list"
  hr_PackageName :: "string list"
  hr_NetworkType :: "u8 list"
  hr_NetworkIsExpensive :: bool
  hr_NetworkIsConstrained :: bool
  hr_WIFISSID :: "string list"
  hr_WIFIBSSID :: "string list"
  hr_NetworkInterfaceAddress :: "(u8 \<times> Prefix option list) list option"
  hr_DefaultInterfaceAddress :: "Prefix option list"
  hr_Invert :: bool
  hr_DomainMatcher :: "'h option"
  hr_SourceIPSet :: "myIPSet option"
  hr_IPSet :: "myIPSet option"
  hr_AdGuardDomain :: "string list"
  hr_AdGuardDomainMatcher :: "'h option"

definition DefaultHeadlessRuleOptions_zero :: "'h DefaultHeadlessRuleOptions" where
  "DefaultHeadlessRuleOptions_zero =
     \<lparr>hr_QueryType = [], hr_Network = [], hr_Domain = [], hr_DomainSuffix = [],
      hr_DomainKeyword = [], hr_DomainRegex = [], hr_SourceIPCIDR = [], hr_IPCIDR = [],
      hr_SourcePort = [], hr_SourcePortRange = [], hr_Port = [], hr_PortRange = [],
      hr_ProcessName = [], hr_ProcessPath = [], hr_ProcessPathRegex = [], hr_PackageName = [],
      hr_NetworkType = [], hr_NetworkIsExpensive = False, hr_NetworkIsConstrained = False,
      hr_WIFISSID = [], hr_WIFIBSSID = [], hr_NetworkInterfaceAddress = None,
      hr_DefaultInterfaceAddress = [], hr_Invert = False, hr_DomainMatcher = None,
      hr_SourceIPSet = None, hr_IPSet = None, hr_AdGuardDomain = [],
      hr_AdGuardDomainMatcher = None\<rparr>"

definition DefaultHeadlessRuleOptions_IsValid :: "'h DefaultHeadlessRuleOptions \<Rightarrow> bool" where
  "DefaultHeadlessRuleOptions_IsValid r \<longleftrightarrow>
     r \<noteq> DefaultHeadlessRuleOptions_zero\<lparr>hr_Invert := hr_Invert r\<rparr>"

text \<open>\<^verbatim>\<open>option.HeadlessRule\<close>: the type name, the default options, and the mode, rules and invert
  fields of the logical options.\<close>

datatype 'h HeadlessRuleOptions =
  HeadlessRuleOptions
    (hro_Type: string)
    (hro_DefaultOptions: "'h DefaultHeadlessRuleOptions")
    (hro_Mode: string)
    (hro_Rules: "'h HeadlessRuleOptions list")
    (hro_Invert: bool)

definition RuleTypeDefault :: string where "RuleTypeDefault = ''default''"
definition RuleTypeLogical :: string where "RuleTypeLogical = ''logical''"

lemmas rule_types = RuleTypeDefault_def RuleTypeLogical_def

text \<open>\<open>common.All\<close> stops at the first rule that is not valid, and a rule of an unknown type
  panics when it is reached.\<close>

fun all_res :: "('a \<Rightarrow> bool res) \<Rightarrow> 'a list \<Rightarrow> bool res" where
  "all_res f [] = Inr True"
| "all_res f (x # xs) =
     (case f x of Inl e \<Rightarrow> Inl e | Inr False \<Rightarrow> Inr False | Inr True \<Rightarrow> all_res f xs)"

lemma all_res_cong [fundef_cong]:
  "xs = ys \<Longrightarrow> (\<And>x. x \<in> set ys \<Longrightarrow> f x = g x) \<Longrightarrow> all_res f xs = all_res g ys"
  by (induction ys arbitrary: xs) (auto split: sum.split bool.split)

fun HeadlessRuleOptions_IsValid :: "'h HeadlessRuleOptions \<Rightarrow> bool res" where
  "HeadlessRuleOptions_IsValid (HeadlessRuleOptions type def mode rules neg) =
     (if type = RuleTypeDefault \<or> type = [] then Inr (DefaultHeadlessRuleOptions_IsValid def)
      else if type = RuleTypeLogical then
        (if length rules > 0 then all_res HeadlessRuleOptions_IsValid rules else Inr False)
      else Inl (GoPanic [ArgS (''unknown rule type: '' @ type)]))"

definition LogicalHeadlessRuleOptions_IsValid :: "'h HeadlessRuleOptions list \<Rightarrow> bool res" where
  "LogicalHeadlessRuleOptions_IsValid rules =
     (if length rules > 0 then all_res HeadlessRuleOptions_IsValid rules else Inr False)"

section \<open>Headless rules\<close>

datatype 'h HeadlessRule =
    DefaultHeadlessRule "('h RuleItem, unit) abstractDefaultRule"
  | LogicalHeadlessRule "'h HeadlessRule list" string bool

text \<open>\<open>nm\<close>: whether the context has a network manager.\<close>

definition headless_address_stages ::
  "'h deps \<Rightarrow> 'h DefaultHeadlessRuleOptions \<Rightarrow>
     (('h RuleItem, unit) abstractDefaultRule \<Rightarrow> ('h RuleItem, unit) abstractDefaultRule res) list" where
  "headless_address_stages d opts =
    [opt_item (hr_Network opts \<noteq> []) add_items (NewNetworkItem (hr_Network opts)),
     (if hr_Domain opts \<noteq> [] \<or> hr_DomainSuffix opts \<noteq> []
      then opt_res True add_destinationAddressItems (NewDomainItem d (hr_Domain opts) (hr_DomainSuffix opts))
      else opt_item (hr_DomainMatcher opts \<noteq> None) add_destinationAddressItems
             (NewRawDomainItem (the (hr_DomainMatcher opts)))),
     opt_item (hr_DomainKeyword opts \<noteq> []) add_destinationAddressItems
       (NewDomainKeywordItem (hr_DomainKeyword opts)),
     opt_res (hr_DomainRegex opts \<noteq> []) add_destinationAddressItems
       (res_cause [ArgS ''domain_regex''] (NewDomainRegexItem d (hr_DomainRegex opts))),
     (if hr_SourceIPCIDR opts \<noteq> []
      then opt_res True add_sourceAddressItems
             (res_cause [ArgS ''source_ip_cidr''] (NewIPCIDRItem d True (hr_SourceIPCIDR opts)))
      else opt_item (hr_SourceIPSet opts \<noteq> None) add_sourceAddressItems
             (NewRawIPCIDRItem True (the (hr_SourceIPSet opts))))]"

definition headless_ipcidr_stage ::
  "'h deps \<Rightarrow> 'h DefaultHeadlessRuleOptions \<Rightarrow>
     ('h RuleItem, unit) abstractDefaultRule \<Rightarrow> ('h RuleItem, unit) abstractDefaultRule res" where
  "headless_ipcidr_stage d opts =
    (if hr_IPCIDR opts \<noteq> []
     then opt_res True add_destinationIPCIDRItems
            (res_cause [ArgS ''ipcidr''] (NewIPCIDRItem d False (hr_IPCIDR opts)))
     else opt_item (hr_IPSet opts \<noteq> None) add_destinationIPCIDRItems
            (NewRawIPCIDRItem False (the (hr_IPSet opts))))"

definition headless_port_stages ::
  "'h DefaultHeadlessRuleOptions \<Rightarrow>
     (('h RuleItem, unit) abstractDefaultRule \<Rightarrow> ('h RuleItem, unit) abstractDefaultRule res) list" where
  "headless_port_stages opts =
    [opt_item (hr_SourcePort opts \<noteq> []) add_sourcePortItems (NewPortItem True (hr_SourcePort opts)),
     opt_res (hr_SourcePortRange opts \<noteq> []) add_sourcePortItems
       (res_cause [ArgS ''source_port_range''] (NewPortRangeItem True (hr_SourcePortRange opts))),
     opt_item (hr_Port opts \<noteq> []) add_destinationPortItems (NewPortItem False (hr_Port opts)),
     opt_res (hr_PortRange opts \<noteq> []) add_destinationPortItems
       (res_cause [ArgS ''port_range''] (NewPortRangeItem False (hr_PortRange opts)))]"

definition headless_process_stages ::
  "'h deps \<Rightarrow> 'h DefaultHeadlessRuleOptions \<Rightarrow>
     (('h RuleItem, unit) abstractDefaultRule \<Rightarrow> ('h RuleItem, unit) abstractDefaultRule res) list" where
  "headless_process_stages d opts =
    [opt_item (hr_ProcessName opts \<noteq> []) add_items (NewProcessItem (hr_ProcessName opts)),
     opt_item (hr_ProcessPath opts \<noteq> []) add_items (NewProcessPathItem (hr_ProcessPath opts)),
     opt_res (hr_ProcessPathRegex opts \<noteq> []) add_items
       (res_cause [ArgS ''process_path_regex''] (NewProcessPathRegexItem d (hr_ProcessPathRegex opts))),
     opt_item (hr_PackageName opts \<noteq> []) add_items (NewPackageNameItem (hr_PackageName opts))]"

definition headless_network_stages ::
  "'h deps \<Rightarrow> bool \<Rightarrow> 'h DefaultHeadlessRuleOptions \<Rightarrow>
     (('h RuleItem, unit) abstractDefaultRule \<Rightarrow> ('h RuleItem, unit) abstractDefaultRule res) list" where
  "headless_network_stages d nm opts =
    [opt_item (nm \<and> hr_NetworkType opts \<noteq> []) add_items (NewNetworkTypeItem (hr_NetworkType opts)),
     opt_item (nm \<and> hr_NetworkIsExpensive opts) add_items NetworkIsExpensiveItem,
     opt_item (nm \<and> hr_NetworkIsConstrained opts) add_items NetworkIsConstrainedItem,
     opt_item (nm \<and> hr_WIFISSID opts \<noteq> []) add_items (NewWIFISSIDItem (hr_WIFISSID opts)),
     opt_item (nm \<and> hr_WIFIBSSID opts \<noteq> []) add_items (NewWIFIBSSIDItem (hr_WIFIBSSID opts)),
     opt_item (nm \<and> hr_NetworkInterfaceAddress opts \<noteq> None \<and> the (hr_NetworkInterfaceAddress opts) \<noteq> [])
       add_items (NewNetworkInterfaceAddressItem d (the (hr_NetworkInterfaceAddress opts))),
     opt_item (nm \<and> hr_DefaultInterfaceAddress opts \<noteq> []) add_items
       (NewDefaultInterfaceAddressItem d (hr_DefaultInterfaceAddress opts))]"

definition headless_adguard_stages ::
  "'h deps \<Rightarrow> 'h DefaultHeadlessRuleOptions \<Rightarrow>
     (('h RuleItem, unit) abstractDefaultRule \<Rightarrow> ('h RuleItem, unit) abstractDefaultRule res) list" where
  "headless_adguard_stages d opts =
    [if hr_AdGuardDomain opts \<noteq> []
     then opt_item True add_destinationAddressItems (NewAdGuardDomainItem d (hr_AdGuardDomain opts))
     else opt_item (hr_AdGuardDomainMatcher opts \<noteq> None) add_destinationAddressItems
            (NewRawAdGuardDomainItem (the (hr_AdGuardDomainMatcher opts)))]"

definition NewDefaultHeadlessRule ::
  "'h deps \<Rightarrow> bool \<Rightarrow> 'h DefaultHeadlessRuleOptions \<Rightarrow>
     ('h RuleItem, unit) abstractDefaultRule res" where
  "NewDefaultHeadlessRule d nm opts =
     run_stages (headless_address_stages d opts @ [headless_ipcidr_stage d opts] @
         headless_port_stages opts @ headless_process_stages d opts @
         headless_network_stages d nm opts @ headless_adguard_stages d opts)
       (empty_rule (hr_Invert opts) None)"

text \<open>The loop over the sub-rules, which wraps an error with the index of the rule.\<close>

fun sub_rules :: "(nat \<Rightarrow> arg list) \<Rightarrow> ('o \<Rightarrow> 'r res) \<Rightarrow> nat \<Rightarrow> 'o list \<Rightarrow> 'r list res" where
  "sub_rules text new i [] = Inr []"
| "sub_rules text new i (x # xs) =
     (case new x of
        Inl err \<Rightarrow> Inl (ECause err (text i))
      | Inr r \<Rightarrow> res_bind (sub_rules text new (Suc i) xs) (\<lambda>rs. Inr (r # rs)))"

lemma sub_rules_cong [fundef_cong]:
  "text = text' \<Longrightarrow> i = i' \<Longrightarrow> xs = ys \<Longrightarrow> (\<And>x. x \<in> set ys \<Longrightarrow> f x = g x) \<Longrightarrow>
   sub_rules text f i xs = sub_rules text' g i' ys"
  by (induction ys arbitrary: xs i i') (auto split: sum.split)

definition sub_rule_text :: "nat \<Rightarrow> arg list" where
  "sub_rule_text i = [ArgS ''sub rule['', ArgI (int i), ArgS '']'']"

definition logical_mode :: "string \<Rightarrow> string res" where
  "logical_mode mode =
     (if mode = LogicalTypeAnd then Inr LogicalTypeAnd
      else if mode = LogicalTypeOr then Inr LogicalTypeOr
      else Inl (ENew [ArgS ''unknown logical mode: '', ArgS mode]))"

fun NewHeadlessRule :: "'h deps \<Rightarrow> bool \<Rightarrow> 'h HeadlessRuleOptions \<Rightarrow> 'h HeadlessRule res" where
  "NewHeadlessRule d nm (HeadlessRuleOptions type def mode rules neg) =
     (if type = [] \<or> type = RuleTypeDefault then
        (if \<not> DefaultHeadlessRuleOptions_IsValid def then Inl (ENew [ArgS ''missing conditions''])
         else res_bind (NewDefaultHeadlessRule d nm def) (\<lambda>r. Inr (DefaultHeadlessRule r)))
      else if type = RuleTypeLogical then
        res_bind (LogicalHeadlessRuleOptions_IsValid rules) (\<lambda>valid.
          if \<not> valid then Inl (ENew [ArgS ''missing conditions''])
          else
            res_bind (logical_mode mode) (\<lambda>mode.
            res_bind (sub_rules sub_rule_text (NewHeadlessRule d nm) 0 rules) (\<lambda>rs.
              Inr (LogicalHeadlessRule rs mode neg))))
      else Inl (ENew [ArgS ''unknown rule type: '', ArgS type]))"

fun HeadlessRule_Match :: "'h deps \<Rightarrow> env \<Rightarrow> 'h HeadlessRule matcher" where
  "HeadlessRule_Match d e (DefaultHeadlessRule r) md =
     abstractDefaultRule_Match (\<lambda>_. False) (RuleItem_Match_st d e) r md"
| "HeadlessRule_Match d e (LogicalHeadlessRule rules mode neg) md =
     abstractLogicalRule_Match (HeadlessRule_Match d e) rules mode neg md"

section \<open>Functions over headless rules\<close>

fun item_ipset :: "'h RuleItem \<Rightarrow> myIPSet list" where
  "item_ipset (IPCIDRItem ipSet isSource description) = [ipSet]"
| "item_ipset _ = []"

fun extractIPSetFromRule :: "'h HeadlessRule \<Rightarrow> myIPSet list" where
  "extractIPSetFromRule (DefaultHeadlessRule r) = concat (map item_ipset (destinationIPCIDRItems r))"
| "extractIPSetFromRule (LogicalHeadlessRule rules mode neg) = concat (map extractIPSetFromRule rules)"

fun HasHeadlessRule ::
  "('h DefaultHeadlessRuleOptions \<Rightarrow> bool) \<Rightarrow> 'h HeadlessRuleOptions list \<Rightarrow> bool" where
  "HasHeadlessRule cond [] = False"
| "HasHeadlessRule cond (HeadlessRuleOptions type def mode rules neg # rest) =
     (if type = RuleTypeDefault \<and> cond def then True
      else if type = RuleTypeLogical \<and> HasHeadlessRule cond rules then True
      else HasHeadlessRule cond rest)"

definition isProcessHeadlessRule :: "'h DefaultHeadlessRuleOptions \<Rightarrow> bool" where
  "isProcessHeadlessRule r \<longleftrightarrow>
     hr_ProcessName r \<noteq> [] \<or> hr_ProcessPath r \<noteq> [] \<or> hr_ProcessPathRegex r \<noteq> [] \<or> hr_PackageName r \<noteq> []"

definition isWIFIHeadlessRule :: "'h DefaultHeadlessRuleOptions \<Rightarrow> bool" where
  "isWIFIHeadlessRule r \<longleftrightarrow> hr_WIFISSID r \<noteq> [] \<or> hr_WIFIBSSID r \<noteq> []"

definition isIPCIDRHeadlessRule :: "'h DefaultHeadlessRuleOptions \<Rightarrow> bool" where
  "isIPCIDRHeadlessRule r \<longleftrightarrow> hr_IPCIDR r \<noteq> [] \<or> hr_IPSet r \<noteq> None"

section \<open>Lemmas\<close>

lemmas headless_stage_defs =
  headless_address_stages_def headless_ipcidr_stage_def headless_port_stages_def
  headless_process_stages_def headless_network_stages_def headless_adguard_stages_def

text \<open>A property that every append keeps holds of a built rule; the stages after the one for IP
  CIDR do not touch that group.\<close>

lemma headless_tail_keeps:
  assumes "\<And>item r. P r \<Longrightarrow> P (add_items item r)"
    and "\<And>item r. P r \<Longrightarrow> P (add_sourcePortItems item r)"
    and "\<And>item r. P r \<Longrightarrow> P (add_destinationPortItems item r)"
    and "\<And>item r. P r \<Longrightarrow> P (add_destinationAddressItems item r)"
  shows "\<forall>stage\<in>set (headless_port_stages opts @ headless_process_stages d opts @
      headless_network_stages d nm opts @ headless_adguard_stages d opts). stage_keeps P stage"
proof -
  have "\<forall>stage\<in>set (headless_port_stages opts). stage_keeps P stage"
    "\<forall>stage\<in>set (headless_process_stages d opts). stage_keeps P stage"
    "\<forall>stage\<in>set (headless_network_stages d nm opts). stage_keeps P stage"
    "\<forall>stage\<in>set (headless_adguard_stages d opts). stage_keeps P stage"
    using assms unfolding headless_stage_defs by (simp_all add: stage_intros)
  then show ?thesis by auto
qed

lemma headless_head_keeps:
  assumes "\<And>item r. P r \<Longrightarrow> P (add_items item r)"
    and "\<And>item r. P r \<Longrightarrow> P (add_sourceAddressItems item r)"
    and "\<And>item r. P r \<Longrightarrow> P (add_destinationAddressItems item r)"
  shows "\<forall>stage\<in>set (headless_address_stages d opts). stage_keeps P stage"
  using assms unfolding headless_address_stages_def by (simp add: stage_intros)

lemma NewDefaultHeadlessRule_keeps:
  assumes "NewDefaultHeadlessRule d nm opts = Inr r" "P (empty_rule (hr_Invert opts) None)"
    and "\<And>item r. P r \<Longrightarrow> P (add_items item r)"
    and "\<And>item r. P r \<Longrightarrow> P (add_sourceAddressItems item r)"
    and "\<And>item r. P r \<Longrightarrow> P (add_sourcePortItems item r)"
    and "\<And>item r. P r \<Longrightarrow> P (add_destinationAddressItems item r)"
    and "\<And>item r. P r \<Longrightarrow> P (add_destinationIPCIDRItems item r)"
    and "\<And>item r. P r \<Longrightarrow> P (add_destinationPortItems item r)"
  shows "P r"
proof -
  have "stage_keeps P (headless_ipcidr_stage d opts)"
    using assms(7) unfolding headless_ipcidr_stage_def by (simp add: stage_intros)
  moreover note headless_head_keeps [of P d opts, OF assms(3,4,6)]
    headless_tail_keeps [of P opts d nm, OF assms(3,5,8,6)]
  ultimately show ?thesis
    using assms(1,2) unfolding NewDefaultHeadlessRule_def by (elim run_stages_keeps) auto
qed

lemma NewDefaultHeadlessRule_wf: "NewDefaultHeadlessRule d nm opts = Inr r \<Longrightarrow> rule_wf r"
  by (erule NewDefaultHeadlessRule_keeps) simp_all

lemma NewDefaultHeadlessRule_invert:
  "NewDefaultHeadlessRule d nm opts = Inr r \<Longrightarrow> invert r = hr_Invert opts"
  by (erule NewDefaultHeadlessRule_keeps) (simp_all add: add_defs empty_rule_def)

lemma NewIPCIDRItem_item: "NewIPCIDRItem d src cs = Inr item \<Longrightarrow> \<exists>s t. item = IPCIDRItem s src t"
  by (auto simp: NewIPCIDRItem_def res_bind_Inr_iff Let_def)

lemma headless_ipcidr_items:
  assumes "headless_ipcidr_stage d opts r = Inr r'" "destinationIPCIDRItems r = []"
  shows "concat (map item_ipset (destinationIPCIDRItems r')) \<noteq> [] \<longleftrightarrow> isIPCIDRHeadlessRule opts"
  using assms
  by (cases "NewIPCIDRItem d False (hr_IPCIDR opts)")
    (auto simp: headless_ipcidr_stage_def opt_res_def opt_item_def isIPCIDRHeadlessRule_def
      add_defs NewRawIPCIDRItem_def split: if_splits dest!: NewIPCIDRItem_item)

text \<open>What the metadata of a rule set says of IP CIDR conditions is what the built rule has.\<close>

lemma NewDefaultHeadlessRule_ipcidr:
  assumes "NewDefaultHeadlessRule d nm opts = Inr r"
  shows "extractIPSetFromRule (DefaultHeadlessRule r) \<noteq> [] \<longleftrightarrow> isIPCIDRHeadlessRule opts"
proof -
  let ?P = "\<lambda>xs r. destinationIPCIDRItems r = xs"
  from assms obtain r1 r2 where
      head: "run_stages (headless_address_stages d opts) (empty_rule (hr_Invert opts) None) = Inr r1"
    and mid: "headless_ipcidr_stage d opts r1 = Inr r2"
    and tail: "run_stages (headless_port_stages opts @ headless_process_stages d opts @
        headless_network_stages d nm opts @ headless_adguard_stages d opts) r2 = Inr r"
    unfolding NewDefaultHeadlessRule_def run_stages_append [of "headless_address_stages d opts"]
    by (auto simp: res_bind_Inr_iff run_stages_Cons_Inr simp del: run_stages.simps(2))
  have "?P [] r1"
    by (rule run_stages_keeps [OF head])
      (simp add: empty_rule_def, rule headless_head_keeps, simp_all add: add_defs)
  moreover have "?P (destinationIPCIDRItems r2) r"
    by (rule run_stages_keeps [OF tail])
      (simp, rule headless_tail_keeps, simp_all add: add_defs)
  ultimately show ?thesis using headless_ipcidr_items [OF mid] by simp
qed

lemma HeadlessRule_Match_keeps:
  "ResetRuleCache (snd (HeadlessRule_Match d e r md)) = ResetRuleCache md"
proof (induction r arbitrary: md)
  case (DefaultHeadlessRule r)
  show ?case by (simp add: plain.pure.default_keeps)
next
  case (LogicalHeadlessRule rules mode neg)
  then show ?case by (simp add: logical_keeps_on)
qed

interpretation headless: cache_frame "HeadlessRule_Match d e" for d e
  by unfold_locales (rule HeadlessRule_Match_keeps)

text \<open>The type names that the decoder of the options lets through.\<close>

fun decoded :: "'h HeadlessRuleOptions \<Rightarrow> bool" where
  "decoded (HeadlessRuleOptions type def mode rules neg) \<longleftrightarrow>
     type = RuleTypeDefault \<or> type = RuleTypeLogical \<and> list_all decoded rules"

lemma sub_rules_Cons_Inr:
  "sub_rules text new i (x # xs) = Inr rs \<longleftrightarrow>
     (\<exists>r rs'. new x = Inr r \<and> sub_rules text new (Suc i) xs = Inr rs' \<and> rs = r # rs')"
  by (cases "new x") (auto simp: res_bind_Inr_iff)

lemma NewHeadlessRule_logical:
  assumes "NewHeadlessRule d nm (HeadlessRuleOptions RuleTypeLogical def mode rules neg) = Inr r"
  shows "\<exists>rs. sub_rules sub_rule_text (NewHeadlessRule d nm) 0 rules = Inr rs \<and>
    r = LogicalHeadlessRule rs mode neg"
  using assms by (auto simp: res_bind_Inr_iff rule_types logical_mode_def split: if_splits)

lemma NewHeadlessRule_default:
  assumes "NewHeadlessRule d nm (HeadlessRuleOptions RuleTypeDefault def mode rules neg) = Inr r"
  shows "\<exists>r0. NewDefaultHeadlessRule d nm def = Inr r0 \<and> r = DefaultHeadlessRule r0"
  using assms by (auto simp: res_bind_Inr_iff split: if_splits)

lemma extract_iff_HasHeadlessRule:
  assumes "sub_rules text (NewHeadlessRule d nm) i opts = Inr rs" "list_all decoded opts"
  shows "concat (map extractIPSetFromRule rs) \<noteq> [] \<longleftrightarrow> HasHeadlessRule isIPCIDRHeadlessRule opts"
  using assms
proof (induction "isIPCIDRHeadlessRule :: 'a DefaultHeadlessRuleOptions \<Rightarrow> bool" opts
    arbitrary: "text" i rs rule: HasHeadlessRule.induct)
  case 1
  then show ?case by simp
next
  case (2 ty def mode rules neg rest)
  from "2.prems"(1) obtain r rs' where
      r: "NewHeadlessRule d nm (HeadlessRuleOptions ty def mode rules neg) = Inr r"
    and rest: "sub_rules text (NewHeadlessRule d nm) (Suc i) rest = Inr rs'" "rs = r # rs'"
    unfolding sub_rules_Cons_Inr by blast
  have tail: "concat (map extractIPSetFromRule rs') \<noteq> [] \<longleftrightarrow> HasHeadlessRule isIPCIDRHeadlessRule rest"
    if "\<not> (ty = RuleTypeDefault \<and> isIPCIDRHeadlessRule def)"
      "\<not> (ty = RuleTypeLogical \<and> HasHeadlessRule isIPCIDRHeadlessRule rules)"
    using "2.hyps"(2) [OF that rest(1)] "2.prems"(2) by simp
  from "2.prems"(2) consider (plain) "ty = RuleTypeDefault"
    | (logical) "ty = RuleTypeLogical" "list_all decoded rules" by auto
  then show ?case
  proof cases
    case plain
    from r obtain r0 where "NewDefaultHeadlessRule d nm def = Inr r0" "r = DefaultHeadlessRule r0"
      unfolding plain using NewHeadlessRule_default by blast
    with NewDefaultHeadlessRule_ipcidr [of d nm def r0]
    have head: "extractIPSetFromRule r \<noteq> [] \<longleftrightarrow> isIPCIDRHeadlessRule def" by simp
    with tail plain rest(2) show ?thesis
      by (cases "isIPCIDRHeadlessRule def") (simp_all add: rule_types)
  next
    case logical
    from r obtain rs0 where
        sub: "sub_rules sub_rule_text (NewHeadlessRule d nm) 0 rules = Inr rs0"
      and r_def: "r = LogicalHeadlessRule rs0 mode neg"
      unfolding logical(1) using NewHeadlessRule_logical by blast
    from logical have "\<not> (ty = RuleTypeDefault \<and> isIPCIDRHeadlessRule def)" by (simp add: rule_types)
    from "2.hyps"(1) [OF this sub logical(2)]
    have head: "extractIPSetFromRule r \<noteq> [] \<longleftrightarrow> HasHeadlessRule isIPCIDRHeadlessRule rules"
      using r_def by simp
    with tail logical rest(2) show ?thesis
      by (cases "HasHeadlessRule isIPCIDRHeadlessRule rules") (simp_all add: rule_types)
  qed
qed

subsection \<open>The IP CIDR group of a headless rule\<close>

fun no_ipcidr :: "'h HeadlessRule \<Rightarrow> bool" where
  "no_ipcidr (DefaultHeadlessRule r) \<longleftrightarrow> destinationIPCIDRItems r = []"
| "no_ipcidr (LogicalHeadlessRule rules mode neg) \<longleftrightarrow> list_all no_ipcidr rules"

fun ipcidr_typed :: "'h HeadlessRule \<Rightarrow> bool" where
  "ipcidr_typed (DefaultHeadlessRule r) \<longleftrightarrow> list_all is_IPCIDRItem (destinationIPCIDRItems r)"
| "ipcidr_typed (LogicalHeadlessRule rules mode neg) \<longleftrightarrow> list_all ipcidr_typed rules"

lemma is_IPCIDRItem_ipset: "is_IPCIDRItem i \<Longrightarrow> item_ipset i \<noteq> []"
  by (cases i) simp_all

lemma no_ipcidr_extract: "ipcidr_typed r \<Longrightarrow> no_ipcidr r \<longleftrightarrow> extractIPSetFromRule r = []"
proof (induction r)
  case (DefaultHeadlessRule r)
  then show ?case by (cases "destinationIPCIDRItems r") (auto simp: is_IPCIDRItem_ipset)
next
  case (LogicalHeadlessRule rules mode neg)
  then show ?case by (auto simp: list_all_iff)
qed

lemma NewDefaultHeadlessRule_typed:
  assumes "NewDefaultHeadlessRule d nm opts = Inr r"
  shows "list_all is_IPCIDRItem (destinationIPCIDRItems r)"
proof -
  let ?P = "\<lambda>r. list_all is_IPCIDRItem (destinationIPCIDRItems r)"
  have "stage_keeps ?P (headless_ipcidr_stage d opts)"
    by (auto simp: stage_keeps_def headless_ipcidr_stage_def opt_res_def opt_item_def add_defs
        NewRawIPCIDRItem_def res_cause_def res_bind_Inr_iff split: sum.splits if_splits
        dest!: NewIPCIDRItem_item)
  moreover have "\<forall>stage\<in>set (headless_address_stages d opts). stage_keeps ?P stage"
    by (rule headless_head_keeps) (simp_all add: add_defs)
  moreover have "\<forall>stage\<in>set (headless_port_stages opts @ headless_process_stages d opts @
      headless_network_stages d nm opts @ headless_adguard_stages d opts). stage_keeps ?P stage"
    by (rule headless_tail_keeps) (simp_all add: add_defs)
  moreover have "?P (empty_rule (hr_Invert opts) None)" by (simp add: empty_rule_def)
  ultimately show ?thesis
    using assms unfolding NewDefaultHeadlessRule_def by (elim run_stages_keeps) auto
qed

lemma sub_rules_set:
  "sub_rules text new i xs = Inr rs \<Longrightarrow> r \<in> set rs \<Longrightarrow> \<exists>x\<in>set xs. new x = Inr r"
proof (induction xs arbitrary: i rs)
  case (Cons x xs)
  then obtain r' rs' where "new x = Inr r'" "sub_rules text new (Suc i) xs = Inr rs'" "rs = r' # rs'"
    unfolding sub_rules_Cons_Inr by blast
  with Cons.IH [of "Suc i" rs'] Cons.prems(2) show ?case by auto
qed simp

lemma NewHeadlessRule_typed: "NewHeadlessRule d nm opts = Inr r \<Longrightarrow> ipcidr_typed r"
proof (induction opts arbitrary: r)
  case (HeadlessRuleOptions ty def mode rules neg)
  show ?case
  proof (cases "ty = [] \<or> ty = RuleTypeDefault")
    case True
    then show ?thesis
      using HeadlessRuleOptions.prems NewDefaultHeadlessRule_typed
      by (auto simp: res_bind_Inr_iff split: if_splits)
  next
    case False
    then have ty: "ty = RuleTypeLogical" using HeadlessRuleOptions.prems by (auto split: if_splits)
    obtain rs where rs: "sub_rules sub_rule_text (NewHeadlessRule d nm) 0 rules = Inr rs"
      and r: "r = LogicalHeadlessRule rs mode neg"
      using NewHeadlessRule_logical HeadlessRuleOptions.prems unfolding ty by blast
    have "ipcidr_typed r'" if "r' \<in> set rs" for r'
      using sub_rules_set [OF rs that] HeadlessRuleOptions.IH by blast
    then show ?thesis by (simp add: r list_all_iff)
  qed
qed

text \<open>What the metadata says of a set of rules.\<close>

lemma no_ipcidr_iff_HasHeadlessRule:
  assumes "sub_rules text (NewHeadlessRule d nm) i opts = Inr rs" "list_all decoded opts"
  shows "list_all no_ipcidr rs \<longleftrightarrow> \<not> HasHeadlessRule isIPCIDRHeadlessRule opts"
proof -
  have "ipcidr_typed r" if "r \<in> set rs" for r
    using sub_rules_set [OF assms(1) that] NewHeadlessRule_typed by blast
  then have "list_all no_ipcidr rs \<longleftrightarrow> concat (map extractIPSetFromRule rs) = []"
    by (auto simp: list_all_iff no_ipcidr_extract)
  with extract_iff_HasHeadlessRule [OF assms] show ?thesis by blast
qed

lemma RuleItem_Match_ign [simp]: "RuleItem_Match d e item (ign b md) = RuleItem_Match d e item md"
  by (cases item) (simp_all add: item_defs domainHost_def ign_def)

lemma RuleItem_ign_free: "ign_free (RuleItem_Match_st d e) item"
  by (simp add: ign_free_def RuleItem_Match_st_def)

lemma HeadlessRule_ign_free: "no_ipcidr r \<Longrightarrow> ign_free (HeadlessRule_Match d e) r"
proof (induction r)
  case (DefaultHeadlessRule r)
  then have "ign_free (abstractDefaultRule_Match (\<lambda>_. False) (RuleItem_Match_st d e)) r"
    by (intro default_ign) (simp_all add: RuleItem_ign_free)
  then show ?case by (simp add: ign_free_def)
next
  case (LogicalHeadlessRule rules mode neg)
  then have "\<forall>r\<in>set rules. ign_free (HeadlessRule_Match d e) r" by (simp add: list_all_iff)
  then show ?case by (simp add: ign_free_def [of _ "LogicalHeadlessRule rules mode neg"] logical_ign)
qed

end
