(* ===== verification/Srs.thy ===== *)
theory Srs
  imports HeadlessRules
begin

unbundle bit_operations_syntax

text \<open>
  The binary rule-set format (\<^verbatim>\<open>common/srs/binary.go\<close>, \<^verbatim>\<open>ip_set.go\<close>, \<^verbatim>\<open>ip_cidr.go\<close>). A writer
  gives the bytes it writes or an error; a reader takes the remaining bytes and gives a value and the
  bytes after it, or an error. \<^verbatim>\<open>encoding/binary\<close> is modelled; the functions of \<^verbatim>\<open>varbin\<close>, of
  the domain matchers and of \<^verbatim>\<open>zlib\<close> are the fields of \<open>codec\<close>. The loops of the readers
  carry fuel, one unit per byte: a rule and an item each take a byte at least.
\<close>

section \<open>Bytes\<close>

type_synonym 'a reader = "bytes \<Rightarrow> ('a \<times> bytes) res"

definition io_EOF :: goerr where "io_EOF = EExternal ''EOF''"

fun read_byte :: "u8 reader" where
  "read_byte [] = Inl io_EOF"
| "read_byte (b # bs) = Inr (b, bs)"

definition read_bool :: "bool reader" where
  "read_bool bs = res_bind (read_byte bs) (\<lambda>(b, bs). Inr (b \<noteq> 0, bs))"

definition put_bool :: "bool \<Rightarrow> bytes" where
  "put_bool b = [if b then 1 else 0]"

text \<open>Big-endian integers of \<open>n\<close> bytes.\<close>

fun put_be :: "nat \<Rightarrow> 'w::len word \<Rightarrow> bytes" where
  "put_be 0 w = []"
| "put_be (Suc n) w = put_be n (drop_bit 8 w) @ [ucast w]"

fun get_be :: "'w::len word \<Rightarrow> bytes \<Rightarrow> 'w word" where
  "get_be acc [] = acc"
| "get_be acc (b # bs) = get_be (push_bit 8 acc OR ucast b) bs"

definition read_u64 :: "u64 reader" where
  "read_u64 bs =
     (if bs = [] then Inl io_EOF else if length bs < 8 then Inl EUnexpectedEOF
      else Inr (get_be 0 (take 8 bs), drop 8 bs))"

text \<open>\<^verbatim>\<open>binary.ReadUvarint\<close> and the encoding it reads, \<^verbatim>\<open>binary.PutUvarint\<close>.\<close>

fun ReadUvarint_loop :: "nat \<Rightarrow> nat \<Rightarrow> u64 \<Rightarrow> nat \<Rightarrow> u64 reader" where
  "ReadUvarint_loop 0 i x s bs = Inl EOverflow"
| "ReadUvarint_loop (Suc n) i x s [] = Inl (if i > 0 then EUnexpectedEOF else io_EOF)"
| "ReadUvarint_loop (Suc n) i x s (b # bs) =
     (if b < 0x80 then
        (if i = 9 \<and> b > 1 then Inl EOverflow else Inr (x OR push_bit s (ucast b), bs))
      else ReadUvarint_loop n (Suc i) (x OR push_bit s (ucast (b AND 0x7f))) (s + 7) bs)"

definition ReadUvarint :: "u64 reader" where
  "ReadUvarint bs = ReadUvarint_loop 10 0 0 0 bs"

function PutUvarint :: "u64 \<Rightarrow> bytes" where
  "PutUvarint x = (if x < 0x80 then [ucast x] else (ucast x OR 0x80) # PutUvarint (drop_bit 7 x))"
  by auto
termination
proof (relation "measure unat")
  fix x :: u64
  assume "\<not> x < 0x80"
  then have "0x80 \<le> unat x" by (simp add: word_less_nat_alt)
  moreover have "unat (drop_bit 7 x) = unat x div 128"
    unfolding unat_drop_bit_eq by (simp add: drop_bit_eq_div)
  ultimately show "(drop_bit 7 x, x) \<in> measure unat" by simp
qed simp

declare PutUvarint.simps [simp del]

section \<open>The functions of other packages\<close>

record 'h codec =
  vb_WriteUvarint :: "u64 \<Rightarrow> bytes"
  vb_WriteStrings :: "string list \<Rightarrow> bytes"
  vb_ReadStrings :: "string list reader"
  vb_WriteUint8s :: "u8 list \<Rightarrow> bytes"
  vb_ReadUint8s :: "u8 list reader"
  vb_WriteUint16s :: "u16 list \<Rightarrow> bytes"
  vb_ReadUint16s :: "u16 list reader"
  vb_WriteBytes :: "bytes \<Rightarrow> bytes"
  vb_ReadBytes :: "bytes reader"
  vb_ReadUint8 :: "u8 reader"
  vb_WriteRange :: "bytes \<times> bytes \<Rightarrow> bytes"
  vb_ReadRanges :: "nat \<Rightarrow> (bytes \<times> bytes) list reader"
  domain_Matcher_Write :: "'h \<Rightarrow> bytes"
  domain_ReadMatcher :: "'h reader"
  domain_Matcher_Dump :: "'h \<Rightarrow> string list \<times> string list"
  domain_AdGuardMatcher_Write :: "'h \<Rightarrow> bytes"
  domain_ReadAdGuardMatcher :: "'h reader"
  domain_AdGuardMatcher_Dump :: "'h \<Rightarrow> string list"
  netipx_IPSet_Prefixes :: "myIPSet \<Rightarrow> Prefix list"
  M_AddrFromIP :: "bytes \<Rightarrow> Addr"
  zlib_Compress :: "bytes \<Rightarrow> bytes"
  zlib_NewReader :: "bytes \<Rightarrow> bytes res"

section \<open>IP sets and prefixes\<close>

fun Addr_AsSlice :: "Addr \<Rightarrow> bytes" where
  "Addr_AsSlice AddrZero = []"
| "Addr_AsSlice (Addr4 a) = put_be 4 a"
| "Addr_AsSlice (Addr6 a zone) = put_be 16 a"

fun Addr_BitLen :: "Addr \<Rightarrow> int" where
  "Addr_BitLen AddrZero = 0"
| "Addr_BitLen (Addr4 a) = 32"
| "Addr_BitLen (Addr6 a zone) = 128"

fun Addr_withoutZone :: "Addr \<Rightarrow> Addr" where
  "Addr_withoutZone (Addr6 a zone) = Addr6 a []"
| "Addr_withoutZone a = a"

definition PrefixFrom :: "Addr \<Rightarrow> int \<Rightarrow> Prefix" where
  "PrefixFrom ip bits =
     \<lparr>pfx_Addr = Addr_withoutZone ip,
      pfx_Bits = (if ip \<noteq> AddrZero \<and> 0 \<le> bits \<and> bits \<le> Addr_BitLen ip then bits else -1)\<rparr>"

definition readIPSet :: "'h codec \<Rightarrow> myIPSet reader" where
  "readIPSet c bs =
     res_bind (read_byte bs) (\<lambda>(version, bs).
     if version \<noteq> 1 then Inl EInvalid
     else res_bind (read_u64 bs) (\<lambda>(length, bs).
          res_bind (vb_ReadRanges c (unat length) bs) (\<lambda>(ranges, bs).
          Inr (\<lparr>rr = map (\<lambda>(from, to). \<lparr>rr_from = M_AddrFromIP c from, rr_to = M_AddrFromIP c to\<rparr>) ranges\<rparr>,
               bs))))"

definition writeIPSet :: "'h codec \<Rightarrow> myIPSet \<Rightarrow> bytes" where
  "writeIPSet c ipSet =
     (let dataList = map (\<lambda>r. (Addr_AsSlice (rr_from r), Addr_AsSlice (rr_to r))) (rr ipSet) in
      [1] @ put_be 8 (of_nat (length dataList) :: u64) @ concat (map (vb_WriteRange c) dataList))"

definition readPrefix :: "'h codec \<Rightarrow> Prefix reader" where
  "readPrefix c bs =
     res_bind (vb_ReadBytes c bs) (\<lambda>(addrSlice, bs).
     res_bind (vb_ReadUint8 c bs) (\<lambda>(prefixBits, bs).
     Inr (PrefixFrom (M_AddrFromIP c addrSlice) (uint prefixBits), bs)))"

definition writePrefix :: "'h codec \<Rightarrow> Prefix \<Rightarrow> bytes" where
  "writePrefix c prefix =
     vb_WriteBytes c (Addr_AsSlice (pfx_Addr prefix)) @ [word_of_int (pfx_Bits prefix)]"

text \<open>The loop that reads a counted sequence.\<close>

fun read_n :: "'a reader \<Rightarrow> nat \<Rightarrow> 'a list reader" where
  "read_n r 0 bs = Inr ([], bs)"
| "read_n r (Suc n) bs =
     res_bind (r bs) (\<lambda>(x, bs). res_bind (read_n r n bs) (\<lambda>(xs, bs). Inr (x # xs, bs)))"

definition readPrefixes :: "'h codec \<Rightarrow> Prefix option list reader" where
  "readPrefixes c bs =
     res_bind (ReadUvarint bs) (\<lambda>(prefixCount, bs).
     res_bind (read_n (readPrefix c) (unat prefixCount) bs) (\<lambda>(ps, bs). Inr (map Some ps, bs)))"

definition writePrefixes :: "'h deps \<Rightarrow> 'h codec \<Rightarrow> Prefix option list \<Rightarrow> bytes" where
  "writePrefixes d c value =
     vb_WriteUvarint c (of_nat (length value)) @
     concat (map (\<lambda>rawPrefix. writePrefix c (badoption_Prefixable_Build d rawPrefix Prefix_zero)) value)"

section \<open>Item types\<close>

abbreviation (input) ruleItemQueryType :: u8 where "ruleItemQueryType \<equiv> 0"
abbreviation (input) ruleItemNetwork :: u8 where "ruleItemNetwork \<equiv> 1"
abbreviation (input) ruleItemDomain :: u8 where "ruleItemDomain \<equiv> 2"
abbreviation (input) ruleItemDomainKeyword :: u8 where "ruleItemDomainKeyword \<equiv> 3"
abbreviation (input) ruleItemDomainRegex :: u8 where "ruleItemDomainRegex \<equiv> 4"
abbreviation (input) ruleItemSourceIPCIDR :: u8 where "ruleItemSourceIPCIDR \<equiv> 5"
abbreviation (input) ruleItemIPCIDR :: u8 where "ruleItemIPCIDR \<equiv> 6"
abbreviation (input) ruleItemSourcePort :: u8 where "ruleItemSourcePort \<equiv> 7"
abbreviation (input) ruleItemSourcePortRange :: u8 where "ruleItemSourcePortRange \<equiv> 8"
abbreviation (input) ruleItemPort :: u8 where "ruleItemPort \<equiv> 9"
abbreviation (input) ruleItemPortRange :: u8 where "ruleItemPortRange \<equiv> 10"
abbreviation (input) ruleItemProcessName :: u8 where "ruleItemProcessName \<equiv> 11"
abbreviation (input) ruleItemProcessPath :: u8 where "ruleItemProcessPath \<equiv> 12"
abbreviation (input) ruleItemPackageName :: u8 where "ruleItemPackageName \<equiv> 13"
abbreviation (input) ruleItemWIFISSID :: u8 where "ruleItemWIFISSID \<equiv> 14"
abbreviation (input) ruleItemWIFIBSSID :: u8 where "ruleItemWIFIBSSID \<equiv> 15"
abbreviation (input) ruleItemAdGuardDomain :: u8 where "ruleItemAdGuardDomain \<equiv> 16"
abbreviation (input) ruleItemProcessPathRegex :: u8 where "ruleItemProcessPathRegex \<equiv> 17"
abbreviation (input) ruleItemNetworkType :: u8 where "ruleItemNetworkType \<equiv> 18"
abbreviation (input) ruleItemNetworkIsExpensive :: u8 where "ruleItemNetworkIsExpensive \<equiv> 19"
abbreviation (input) ruleItemNetworkIsConstrained :: u8 where "ruleItemNetworkIsConstrained \<equiv> 20"
abbreviation (input) ruleItemNetworkInterfaceAddress :: u8 where "ruleItemNetworkInterfaceAddress \<equiv> 21"
abbreviation (input) ruleItemDefaultInterfaceAddress :: u8 where "ruleItemDefaultInterfaceAddress \<equiv> 22"
abbreviation (input) ruleItemFinal :: u8 where "ruleItemFinal \<equiv> 0xFF"

text \<open>One entry of the interface address map, and \<^verbatim>\<open>TypedMap.Put\<close> for each entry in turn.\<close>

definition read_interface_entry :: "'h codec \<Rightarrow> (u8 \<times> Prefix option list) reader" where
  "read_interface_entry c bs =
     res_bind (read_byte bs) (\<lambda>(key, bs).
     res_bind (readPrefixes c bs) (\<lambda>(value, bs). Inr ((key, value), bs)))"

fun put_entries :: "('k \<times> 'v) list \<Rightarrow> ('k \<times> 'v) list \<Rightarrow> ('k \<times> 'v) list" where
  "put_entries [] m = m"
| "put_entries ((k, v) # entries) m = put_entries entries (AList.update k v m)"

section \<open>Reading\<close>

text \<open>The switch over the type of an item, the final one apart.\<close>

definition read_item ::
  "'h deps \<Rightarrow> 'h codec \<Rightarrow> bool \<Rightarrow> u8 \<Rightarrow> u8 \<Rightarrow> 'h DefaultHeadlessRuleOptions \<Rightarrow>
     'h DefaultHeadlessRuleOptions reader" where
  "read_item d c rcv itemType lastItemType rule bs =
     (if itemType = ruleItemQueryType then
        res_bind (vb_ReadUint16s c bs) (\<lambda>(v, bs). Inr (rule\<lparr>hr_QueryType := v\<rparr>, bs))
      else if itemType = ruleItemNetwork then
        res_bind (vb_ReadStrings c bs) (\<lambda>(v, bs). Inr (rule\<lparr>hr_Network := v\<rparr>, bs))
      else if itemType = ruleItemDomain then
        res_bind (domain_ReadMatcher c bs) (\<lambda>(matcher, bs).
          let rule = rule\<lparr>hr_DomainMatcher := Some matcher\<rparr> in
          Inr (if rcv then rule\<lparr>hr_Domain := fst (domain_Matcher_Dump c matcher),
                                hr_DomainSuffix := snd (domain_Matcher_Dump c matcher)\<rparr>
               else rule, bs))
      else if itemType = ruleItemDomainKeyword then
        res_bind (vb_ReadStrings c bs) (\<lambda>(v, bs). Inr (rule\<lparr>hr_DomainKeyword := v\<rparr>, bs))
      else if itemType = ruleItemDomainRegex then
        res_bind (vb_ReadStrings c bs) (\<lambda>(v, bs). Inr (rule\<lparr>hr_DomainRegex := v\<rparr>, bs))
      else if itemType = ruleItemSourceIPCIDR then
        res_bind (readIPSet c bs) (\<lambda>(ipSet, bs).
          let rule = rule\<lparr>hr_SourceIPSet := Some ipSet\<rparr> in
          Inr (if rcv then rule\<lparr>hr_SourceIPCIDR := map (netip_Prefix_String d) (netipx_IPSet_Prefixes c ipSet)\<rparr>
               else rule, bs))
      else if itemType = ruleItemIPCIDR then
        res_bind (readIPSet c bs) (\<lambda>(ipSet, bs).
          let rule = rule\<lparr>hr_IPSet := Some ipSet\<rparr> in
          Inr (if rcv then rule\<lparr>hr_IPCIDR := map (netip_Prefix_String d) (netipx_IPSet_Prefixes c ipSet)\<rparr>
               else rule, bs))
      else if itemType = ruleItemSourcePort then
        res_bind (vb_ReadUint16s c bs) (\<lambda>(v, bs). Inr (rule\<lparr>hr_SourcePort := v\<rparr>, bs))
      else if itemType = ruleItemSourcePortRange then
        res_bind (vb_ReadStrings c bs) (\<lambda>(v, bs). Inr (rule\<lparr>hr_SourcePortRange := v\<rparr>, bs))
      else if itemType = ruleItemPort then
        res_bind (vb_ReadUint16s c bs) (\<lambda>(v, bs). Inr (rule\<lparr>hr_Port := v\<rparr>, bs))
      else if itemType = ruleItemPortRange then
        res_bind (vb_ReadStrings c bs) (\<lambda>(v, bs). Inr (rule\<lparr>hr_PortRange := v\<rparr>, bs))
      else if itemType = ruleItemProcessName then
        res_bind (vb_ReadStrings c bs) (\<lambda>(v, bs). Inr (rule\<lparr>hr_ProcessName := v\<rparr>, bs))
      else if itemType = ruleItemProcessPath then
        res_bind (vb_ReadStrings c bs) (\<lambda>(v, bs). Inr (rule\<lparr>hr_ProcessPath := v\<rparr>, bs))
      else if itemType = ruleItemProcessPathRegex then
        res_bind (vb_ReadStrings c bs) (\<lambda>(v, bs). Inr (rule\<lparr>hr_ProcessPathRegex := v\<rparr>, bs))
      else if itemType = ruleItemPackageName then
        res_bind (vb_ReadStrings c bs) (\<lambda>(v, bs). Inr (rule\<lparr>hr_PackageName := v\<rparr>, bs))
      else if itemType = ruleItemWIFISSID then
        res_bind (vb_ReadStrings c bs) (\<lambda>(v, bs). Inr (rule\<lparr>hr_WIFISSID := v\<rparr>, bs))
      else if itemType = ruleItemWIFIBSSID then
        res_bind (vb_ReadStrings c bs) (\<lambda>(v, bs). Inr (rule\<lparr>hr_WIFIBSSID := v\<rparr>, bs))
      else if itemType = ruleItemAdGuardDomain then
        res_bind (domain_ReadAdGuardMatcher c bs) (\<lambda>(matcher, bs).
          let rule = rule\<lparr>hr_AdGuardDomainMatcher := Some matcher\<rparr> in
          Inr (if rcv then rule\<lparr>hr_AdGuardDomain := domain_AdGuardMatcher_Dump c matcher\<rparr> else rule, bs))
      else if itemType = ruleItemNetworkType then
        res_bind (vb_ReadUint8s c bs) (\<lambda>(v, bs). Inr (rule\<lparr>hr_NetworkType := v\<rparr>, bs))
      else if itemType = ruleItemNetworkIsExpensive then Inr (rule\<lparr>hr_NetworkIsExpensive := True\<rparr>, bs)
      else if itemType = ruleItemNetworkIsConstrained then Inr (rule\<lparr>hr_NetworkIsConstrained := True\<rparr>, bs)
      else if itemType = ruleItemNetworkInterfaceAddress then
        res_bind (ReadUvarint bs) (\<lambda>(size, bs).
        res_bind (read_n (read_interface_entry c) (unat size) bs) (\<lambda>(entries, bs).
          Inr (rule\<lparr>hr_NetworkInterfaceAddress := Some (put_entries entries [])\<rparr>, bs)))
      else if itemType = ruleItemDefaultInterfaceAddress then
        res_bind (readPrefixes c bs) (\<lambda>(v, bs). Inr (rule\<lparr>hr_DefaultInterfaceAddress := v\<rparr>, bs))
      else Inl (ENew [ArgS ''unknown rule item type: '', ArgI (uint itemType), ArgS '', last type: '',
                      ArgI (uint lastItemType)]))"

fun readDefaultRule_loop ::
  "'h deps \<Rightarrow> 'h codec \<Rightarrow> bool \<Rightarrow> nat \<Rightarrow> u8 \<Rightarrow> 'h DefaultHeadlessRuleOptions \<Rightarrow>
     'h DefaultHeadlessRuleOptions reader" where
  "readDefaultRule_loop d c rcv 0 lastItemType rule bs = Inl (EExternal ''out of fuel'')"
| "readDefaultRule_loop d c rcv (Suc fuel) lastItemType rule bs =
     res_bind (read_byte bs) (\<lambda>(itemType, bs).
       if itemType = ruleItemFinal then
         res_bind (read_bool bs) (\<lambda>(b, bs). Inr (rule\<lparr>hr_Invert := b\<rparr>, bs))
       else
         res_bind (read_item d c rcv itemType lastItemType rule bs) (\<lambda>(rule, bs).
           readDefaultRule_loop d c rcv fuel itemType rule bs))"

definition readDefaultRule ::
  "'h deps \<Rightarrow> 'h codec \<Rightarrow> bool \<Rightarrow> nat \<Rightarrow> 'h DefaultHeadlessRuleOptions reader" where
  "readDefaultRule d c rcv fuel bs =
     readDefaultRule_loop d c rcv fuel 0 DefaultHeadlessRuleOptions_zero bs"

text \<open>The loop over rules, which wraps an error with the index of the rule.\<close>

fun read_rules :: "(nat \<Rightarrow> arg list) \<Rightarrow> 'a reader \<Rightarrow> nat \<Rightarrow> nat \<Rightarrow> 'a list reader" where
  "read_rules msg r i 0 bs = Inr ([], bs)"
| "read_rules msg r i (Suc n) bs =
     (case r bs of
        Inl err \<Rightarrow> Inl (ECause err (msg i))
      | Inr (x, bs) \<Rightarrow> res_bind (read_rules msg r (Suc i) n bs) (\<lambda>(xs, bs). Inr (x # xs, bs)))"

definition read_mode :: "string reader" where
  "read_mode bs =
     res_bind (read_byte bs) (\<lambda>(mode, bs).
       if mode = 0 then Inr (LogicalTypeAnd, bs)
       else if mode = 1 then Inr (LogicalTypeOr, bs)
       else Inl (ENew [ArgS ''unknown logical mode: '', ArgI (uint mode)]))"

fun readRule :: "'h deps \<Rightarrow> 'h codec \<Rightarrow> bool \<Rightarrow> nat \<Rightarrow> 'h HeadlessRuleOptions reader"
  and readLogicalRule ::
    "'h deps \<Rightarrow> 'h codec \<Rightarrow> bool \<Rightarrow> nat \<Rightarrow> 'h HeadlessRuleOptions reader" where
  "readRule d c rcv 0 bs = Inl (EExternal ''out of fuel'')"
| "readRule d c rcv (Suc fuel) bs =
     res_bind (read_byte bs) (\<lambda>(ruleType, bs).
       if ruleType = 0 then
         res_bind (readDefaultRule d c rcv fuel bs) (\<lambda>(def, bs).
           Inr (HeadlessRuleOptions RuleTypeDefault def [] [] False, bs))
       else if ruleType = 1 then readLogicalRule d c rcv fuel bs
       else Inl (ENew [ArgS ''unknown rule type: '', ArgI (uint ruleType)]))"
| "readLogicalRule d c rcv 0 bs = Inl (EExternal ''out of fuel'')"
| "readLogicalRule d c rcv (Suc fuel) bs =
     res_bind (read_mode bs) (\<lambda>(mode, bs).
     res_bind (ReadUvarint bs) (\<lambda>(length, bs).
     res_bind (read_rules (\<lambda>i. [ArgS ''read logical rule ['', ArgI (int i), ArgS '']''])
                 (readRule d c rcv fuel) 0 (unat length) bs) (\<lambda>(rules, bs).
     res_bind (read_bool bs) (\<lambda>(b, bs).
       Inr (HeadlessRuleOptions RuleTypeLogical DefaultHeadlessRuleOptions_zero mode rules b, bs)))))"

definition MagicBytes :: bytes where "MagicBytes = [0x53, 0x52, 0x53]"
definition RuleSetVersionCurrent :: u8 where "RuleSetVersionCurrent = 4"

record 'h PlainRuleSetCompat =
  prs_Version :: u8
  prs_Rules :: "'h HeadlessRuleOptions list"

definition srs_Read :: "'h deps \<Rightarrow> 'h codec \<Rightarrow> bool \<Rightarrow> bytes \<Rightarrow> 'h PlainRuleSetCompat res" where
  "srs_Read d c rcv bs =
     (if bs = [] then Inl io_EOF
      else if length bs < 3 then Inl EUnexpectedEOF
      else if take 3 bs \<noteq> MagicBytes then Inl (ENew [ArgS ''invalid anchor rule-set file''])
      else
        res_bind (read_byte (drop 3 bs)) (\<lambda>(version, bs).
        if version > RuleSetVersionCurrent
        then Inl (ENew [ArgS ''unsupported version: '', ArgI (uint version)])
        else
          res_bind (zlib_NewReader c bs) (\<lambda>plain.
          res_bind (ReadUvarint plain) (\<lambda>(len, bs).
          res_bind (read_rules (\<lambda>i. [ArgS ''read rule['', ArgI (int i), ArgS '']''])
                      (readRule d c rcv (Suc (length bs))) 0 (unat len) bs) (\<lambda>(rules, bs).
            Inr \<lparr>prs_Version = version, prs_Rules = rules\<rparr>)))))"

section \<open>Writing\<close>

definition writeRuleItemCIDR :: "'h deps \<Rightarrow> 'h codec \<Rightarrow> u8 \<Rightarrow> string list \<Rightarrow> bytes res" where
  "writeRuleItemCIDR d c itemType value =
     res_bind (parse_cidrs d 0 value) (\<lambda>builder.
     res_bind (netipx_IPSet d builder) (\<lambda>ipSet.
       Inr (itemType # writeIPSet c ipSet)))"

definition needs_version :: "u8 \<Rightarrow> u8 \<Rightarrow> string \<Rightarrow> bytes \<Rightarrow> bytes res" where
  "needs_version generateVersion version msg bs =
     (if generateVersion < version then Inl (ENew [ArgS msg]) else Inr bs)"

definition write_interface_entries ::
  "'h deps \<Rightarrow> 'h codec \<Rightarrow> (u8 \<times> Prefix option list) list \<Rightarrow> bytes" where
  "write_interface_entries d c entries =
     vb_WriteUvarint c (of_nat (length entries)) @
     concat (map (\<lambda>(key, value). key # writePrefixes d c value) entries)"

text \<open>What \<^verbatim>\<open>writeDefaultRule\<close> writes between the type byte and the final item, one element per
  \<^verbatim>\<open>if\<close> statement.\<close>

definition write_items ::
  "'h deps \<Rightarrow> 'h codec \<Rightarrow> 'h DefaultHeadlessRuleOptions \<Rightarrow> u8 \<Rightarrow> bytes res list" where
  "write_items d c rule generateVersion = [
    (if hr_QueryType rule \<noteq> [] then Inr (ruleItemQueryType # vb_WriteUint16s c (hr_QueryType rule)) else Inr []),
    (if hr_Network rule \<noteq> [] then Inr (ruleItemNetwork # vb_WriteStrings c (hr_Network rule)) else Inr []),
    (if hr_Domain rule \<noteq> [] \<or> hr_DomainSuffix rule \<noteq> []
     then Inr (ruleItemDomain # domain_Matcher_Write c
            (domain_NewMatcher d (hr_Domain rule) (hr_DomainSuffix rule) (generateVersion = 1)))
     else Inr []),
    (if hr_DomainKeyword rule \<noteq> [] then Inr (ruleItemDomainKeyword # vb_WriteStrings c (hr_DomainKeyword rule)) else Inr []),
    (if hr_DomainRegex rule \<noteq> [] then Inr (ruleItemDomainRegex # vb_WriteStrings c (hr_DomainRegex rule)) else Inr []),
    (if hr_SourceIPCIDR rule \<noteq> []
     then res_cause [ArgS ''source_ip_cidr''] (writeRuleItemCIDR d c ruleItemSourceIPCIDR (hr_SourceIPCIDR rule))
     else Inr []),
    (if hr_IPCIDR rule \<noteq> []
     then res_cause [ArgS ''ipcidr''] (writeRuleItemCIDR d c ruleItemIPCIDR (hr_IPCIDR rule))
     else Inr []),
    (if hr_SourcePort rule \<noteq> [] then Inr (ruleItemSourcePort # vb_WriteUint16s c (hr_SourcePort rule)) else Inr []),
    (if hr_SourcePortRange rule \<noteq> [] then Inr (ruleItemSourcePortRange # vb_WriteStrings c (hr_SourcePortRange rule)) else Inr []),
    (if hr_Port rule \<noteq> [] then Inr (ruleItemPort # vb_WriteUint16s c (hr_Port rule)) else Inr []),
    (if hr_PortRange rule \<noteq> [] then Inr (ruleItemPortRange # vb_WriteStrings c (hr_PortRange rule)) else Inr []),
    (if hr_ProcessName rule \<noteq> [] then Inr (ruleItemProcessName # vb_WriteStrings c (hr_ProcessName rule)) else Inr []),
    (if hr_ProcessPath rule \<noteq> [] then Inr (ruleItemProcessPath # vb_WriteStrings c (hr_ProcessPath rule)) else Inr []),
    (if hr_ProcessPathRegex rule \<noteq> [] then Inr (ruleItemProcessPathRegex # vb_WriteStrings c (hr_ProcessPathRegex rule)) else Inr []),
    (if hr_PackageName rule \<noteq> [] then Inr (ruleItemPackageName # vb_WriteStrings c (hr_PackageName rule)) else Inr []),
    (if hr_NetworkType rule \<noteq> []
     then needs_version generateVersion 3 ''`network_type` rule item is only supported in version 3 or later''
            (ruleItemNetworkType # vb_WriteUint8s c (hr_NetworkType rule))
     else Inr []),
    (if hr_NetworkIsExpensive rule
     then needs_version generateVersion 3
            ''`network_is_expensive` rule item is only supported in version 3 or later''
            [ruleItemNetworkIsExpensive]
     else Inr []),
    (if hr_NetworkIsConstrained rule
     then needs_version generateVersion 3
            ''`network_is_constrained` rule item is only supported in version 3 or later''
            [ruleItemNetworkIsConstrained]
     else Inr []),
    (if hr_NetworkInterfaceAddress rule \<noteq> None \<and> the (hr_NetworkInterfaceAddress rule) \<noteq> []
     then needs_version generateVersion 4
            ''`network_interface_address` rule item is only supported in version 4 or later''
            (ruleItemNetworkInterfaceAddress #
               write_interface_entries d c (the (hr_NetworkInterfaceAddress rule)))
     else Inr []),
    (if hr_DefaultInterfaceAddress rule \<noteq> []
     then needs_version generateVersion 4
            ''`default_interface_address` rule item is only supported in version 4 or later''
            (ruleItemDefaultInterfaceAddress # writePrefixes d c (hr_DefaultInterfaceAddress rule))
     else Inr []),
    (if hr_WIFISSID rule \<noteq> [] then Inr (ruleItemWIFISSID # vb_WriteStrings c (hr_WIFISSID rule)) else Inr []),
    (if hr_WIFIBSSID rule \<noteq> [] then Inr (ruleItemWIFIBSSID # vb_WriteStrings c (hr_WIFIBSSID rule)) else Inr []),
    (if hr_AdGuardDomain rule \<noteq> []
     then needs_version generateVersion 2 ''AdGuard rule items is only supported in version 2 or later''
            (ruleItemAdGuardDomain #
               domain_AdGuardMatcher_Write c (domain_NewAdGuardMatcher d (hr_AdGuardDomain rule)))
     else Inr [])]"

definition writeDefaultRule ::
  "'h deps \<Rightarrow> 'h codec \<Rightarrow> 'h DefaultHeadlessRuleOptions \<Rightarrow> u8 \<Rightarrow> bytes res" where
  "writeDefaultRule d c rule generateVersion =
     res_bind (map_res id (write_items d c rule generateVersion)) (\<lambda>segments.
       Inr ([0] @ concat segments @ [ruleItemFinal] @ put_bool (hr_Invert rule)))"

definition write_mode :: "string \<Rightarrow> u8 res" where
  "write_mode mode =
     (if mode = LogicalTypeAnd then Inr 0
      else if mode = LogicalTypeOr then Inr 1
      else Inl (GoPanic [ArgS (''unknown logical mode: '' @ mode)]))"

lemma map_res_cong [fundef_cong]:
  "xs = ys \<Longrightarrow> (\<And>x. x \<in> set ys \<Longrightarrow> f x = g x) \<Longrightarrow> map_res f xs = map_res g ys"
  by (induction ys arbitrary: xs) (auto split: sum.split)

fun writeRule :: "'h deps \<Rightarrow> 'h codec \<Rightarrow> u8 \<Rightarrow> 'h HeadlessRuleOptions \<Rightarrow> bytes res" where
  "writeRule d c generateVersion (HeadlessRuleOptions type def mode rules neg) =
     (if type = RuleTypeDefault then writeDefaultRule d c def generateVersion
      else if type = RuleTypeLogical then
        res_bind (write_mode mode) (\<lambda>m.
        res_bind (map_res (writeRule d c generateVersion) rules) (\<lambda>segments.
          Inr ([1, m] @ vb_WriteUvarint c (of_nat (length rules)) @ concat segments @ put_bool neg)))
      else Inl (GoPanic [ArgS (''unknown rule type: '' @ type)]))"

definition srs_Write :: "'h deps \<Rightarrow> 'h codec \<Rightarrow> 'h HeadlessRuleOptions list \<Rightarrow> u8 \<Rightarrow> bytes res" where
  "srs_Write d c rules generateVersion =
     res_bind (map_res (writeRule d c generateVersion) rules) (\<lambda>segments.
       Inr (MagicBytes @ [generateVersion] @
         zlib_Compress c (vb_WriteUvarint c (of_nat (length rules)) @ concat segments)))"

end
