(* ===== verification/RuleSets.thy ===== *)
theory RuleSets
  imports Srs
begin

text \<open>
  Rule sets: the local one (\<^verbatim>\<open>route/rule/rule_set_local.go\<close>), the remote one
  (\<^verbatim>\<open>route/rule/rule_set_remote.go\<close>) and the item that refers to them
  (\<^verbatim>\<open>route/rule/rule_item_rule_set.go\<close>). Rule sets are shared objects: rules name them by tag, and
  \<open>rule_sets\<close>, the map that the router keeps, is the store they live in. A registered
  callback is a number; an update returns the callbacks that it calls. Reading a file, the
  HTTP exchange and the JSON decoder are arguments; a file watcher is only the call that creates it.
\<close>

section \<open>Local rule sets\<close>

record RuleSetMetadata =
  ContainsProcessRule :: bool
  ContainsWIFIRule :: bool
  ContainsIPCIDRRule :: bool

definition RuleSetMetadata_zero :: RuleSetMetadata where
  "RuleSetMetadata_zero =
     \<lparr>ContainsProcessRule = False, ContainsWIFIRule = False, ContainsIPCIDRRule = False\<rparr>"

record 'h LocalRuleSet =
  ls_tag :: string
  ls_rules :: "'h HeadlessRule list"
  ls_metadata :: RuleSetMetadata
  ls_fileFormat :: string
  ls_callbacks :: "nat list"
  ls_refs :: int

record 'h RuleSetOptions =
  rso_Type :: string
  rso_Tag :: string
  rso_Format :: string
  rso_InlineRules :: "'h HeadlessRuleOptions list"
  rso_LocalPath :: string
  rso_URL :: string
  rso_DownloadDetour :: string
  rso_UpdateInterval :: int

definition RuleSetTypeInline :: string where "RuleSetTypeInline = ''inline''"
definition RuleSetTypeLocal :: string where "RuleSetTypeLocal = ''local''"
definition RuleSetTypeRemote :: string where "RuleSetTypeRemote = ''remote''"
definition RuleSetFormatSource :: string where "RuleSetFormatSource = ''source''"
definition RuleSetFormatBinary :: string where "RuleSetFormatBinary = ''binary''"

definition PlainRuleSetCompat_Upgrade :: "'h PlainRuleSetCompat \<Rightarrow> 'h HeadlessRuleOptions list res" where
  "PlainRuleSetCompat_Upgrade r =
     (if prs_Version r \<in> {1, 2, 3, 4} then Inr (prs_Rules r)
      else Inl (ENew [ArgS ''unknown rule-set version: '', ArgI (uint (prs_Version r))]))"

definition parse_rule_text :: "nat \<Rightarrow> arg list" where
  "parse_rule_text i = [ArgS ''parse rule_set.rules.['', ArgI (int i), ArgS '']'']"

definition rule_set_metadata :: "'h HeadlessRuleOptions list \<Rightarrow> RuleSetMetadata" where
  "rule_set_metadata headlessRules =
     \<lparr>ContainsProcessRule = HasHeadlessRule isProcessHeadlessRule headlessRules,
      ContainsWIFIRule = HasHeadlessRule isWIFIHeadlessRule headlessRules,
      ContainsIPCIDRRule = HasHeadlessRule isIPCIDRHeadlessRule headlessRules\<rparr>"

text \<open>\<open>Inl\<close>: the error, and the rule set is left as it was. \<open>Inr\<close>: the new state and the
  callbacks called.\<close>

definition LocalRuleSet_reloadRules ::
  "'h deps \<Rightarrow> bool \<Rightarrow> 'h HeadlessRuleOptions list \<Rightarrow> 'h LocalRuleSet \<Rightarrow> ('h LocalRuleSet \<times> nat list) res" where
  "LocalRuleSet_reloadRules d nm headlessRules s =
     res_bind (sub_rules parse_rule_text (NewHeadlessRule d nm) 0 headlessRules) (\<lambda>rules.
       Inr (s\<lparr>ls_rules := rules, ls_metadata := rule_set_metadata headlessRules\<rparr>, ls_callbacks s))"

definition LocalRuleSet_reloadFile ::
  "'h deps \<Rightarrow> 'h codec \<Rightarrow> bool \<Rightarrow> (bytes \<Rightarrow> 'h PlainRuleSetCompat res) \<Rightarrow> (string \<Rightarrow> bytes res) \<Rightarrow>
     string \<Rightarrow> 'h LocalRuleSet \<Rightarrow> ('h LocalRuleSet \<times> nat list) res" where
  "LocalRuleSet_reloadFile d c nm json_Unmarshal readFile path s =
     res_bind
       (if ls_fileFormat s = RuleSetFormatSource \<or> ls_fileFormat s = []
        then res_bind (readFile path) json_Unmarshal
        else if ls_fileFormat s = RuleSetFormatBinary
        then res_bind (readFile path) (srs_Read d c False)
        else Inl (ENew [ArgS ''unknown rule-set format: '', ArgS (ls_fileFormat s)]))
       (\<lambda>ruleSet.
        res_bind (PlainRuleSetCompat_Upgrade ruleSet) (\<lambda>plainRules.
          LocalRuleSet_reloadRules d nm plainRules s))"

definition NewLocalRuleSet ::
  "'h deps \<Rightarrow> 'h codec \<Rightarrow> bool \<Rightarrow> (bytes \<Rightarrow> 'h PlainRuleSetCompat res) \<Rightarrow> (string \<Rightarrow> bytes res) \<Rightarrow>
     (string \<Rightarrow> string) \<Rightarrow> (string \<Rightarrow> unit res) \<Rightarrow> 'h RuleSetOptions \<Rightarrow> 'h LocalRuleSet res" where
  "NewLocalRuleSet d c nm json_Unmarshal readFile absPath newWatcher options =
     (let s = \<lparr>ls_tag = rso_Tag options, ls_rules = [], ls_metadata = RuleSetMetadata_zero,
               ls_fileFormat = rso_Format options, ls_callbacks = [], ls_refs = 0\<rparr> in
      if rso_Type options = RuleSetTypeInline then
        (if length (rso_InlineRules options) = 0 then Inl (ENew [ArgS ''empty inline rule-set''])
         else res_bind (LocalRuleSet_reloadRules d nm (rso_InlineRules options) s) (\<lambda>(s, _). Inr s))
      else
        (let filePath = absPath (rso_LocalPath options) in
         res_bind (LocalRuleSet_reloadFile d c nm json_Unmarshal readFile filePath s) (\<lambda>(s, _).
         res_bind (newWatcher filePath) (\<lambda>_. Inr s))))"

definition LocalRuleSet_ExtractIPSet :: "'h LocalRuleSet \<Rightarrow> myIPSet list" where
  "LocalRuleSet_ExtractIPSet s = concat (map extractIPSetFromRule (ls_rules s))"

definition LocalRuleSet_IncRef :: "'h LocalRuleSet \<Rightarrow> 'h LocalRuleSet" where
  "LocalRuleSet_IncRef s = s\<lparr>ls_refs := ls_refs s + 1\<rparr>"

text \<open>The counter has already been decremented when the panic is raised.\<close>

definition LocalRuleSet_DecRef :: "'h LocalRuleSet \<Rightarrow> 'h LocalRuleSet res" where
  "LocalRuleSet_DecRef s =
     (if ls_refs s - 1 < 0 then Inl (GoPanic [ArgS ''rule-set: negative refs''])
      else Inr (s\<lparr>ls_refs := ls_refs s - 1\<rparr>))"

definition LocalRuleSet_Cleanup :: "'h LocalRuleSet \<Rightarrow> 'h LocalRuleSet" where
  "LocalRuleSet_Cleanup s = (if ls_refs s = 0 then s\<lparr>ls_rules := []\<rparr> else s)"

definition LocalRuleSet_RegisterCallback :: "nat \<Rightarrow> 'h LocalRuleSet \<Rightarrow> 'h LocalRuleSet" where
  "LocalRuleSet_RegisterCallback cb s = s\<lparr>ls_callbacks := ls_callbacks s @ [cb]\<rparr>"

definition LocalRuleSet_UnregisterCallback :: "nat \<Rightarrow> 'h LocalRuleSet \<Rightarrow> 'h LocalRuleSet" where
  "LocalRuleSet_UnregisterCallback cb s = s\<lparr>ls_callbacks := remove1 cb (ls_callbacks s)\<rparr>"

definition LocalRuleSet_Close :: "'h LocalRuleSet \<Rightarrow> 'h LocalRuleSet" where
  "LocalRuleSet_Close s = s\<lparr>ls_rules := []\<rparr>"

definition LocalRuleSet_Match :: "'h deps \<Rightarrow> env \<Rightarrow> 'h LocalRuleSet matcher" where
  "LocalRuleSet_Match d e s md = any_st (HeadlessRule_Match d e) (ls_rules s) md"

section \<open>Remote rule sets\<close>

record 'h RemoteRuleSet =
  rm_options :: "'h RuleSetOptions"
  rm_updateInterval :: int
  rm_rules :: "'h HeadlessRule list"
  rm_metadata :: RuleSetMetadata
  rm_lastUpdated :: "int option"
  rm_lastEtag :: string
  rm_callbacks :: "nat list"
  rm_refs :: int

record SavedBinary =
  sb_Content :: bytes
  sb_LastUpdated :: "int option"
  sb_LastEtag :: string

text \<open>The cache file, as far as rule sets use it: what is saved, and the error that a save ends
  with, if any.\<close>

record CacheFile =
  cf_saved :: "string \<Rightarrow> SavedBinary option"
  cf_saveError :: "goerr option"

definition CacheFile_SaveRuleSet :: "string \<Rightarrow> SavedBinary \<Rightarrow> CacheFile \<Rightarrow> CacheFile" where
  "CacheFile_SaveRuleSet tag b cf =
     (case cf_saveError cf of
        Some err \<Rightarrow> cf
      | None \<Rightarrow> cf\<lparr>cf_saved := (cf_saved cf)(tag := Some b)\<rparr>)"

text \<open>An HTTP response: status code and text, the body or the error of reading it, the header
  \<^verbatim>\<open>Etag\<close>.\<close>

record http_response =
  hp_StatusCode :: int
  hp_Status :: string
  hp_Body :: "bytes res"
  hp_Etag :: string

definition NewRemoteRuleSet :: "'h RuleSetOptions \<Rightarrow> 'h RemoteRuleSet" where
  "NewRemoteRuleSet options =
     \<lparr>rm_options = options,
      rm_updateInterval = (if rso_UpdateInterval options > 0 then rso_UpdateInterval options
                           else 24 * 3600 * 1000000000),
      rm_rules = [], rm_metadata = RuleSetMetadata_zero, rm_lastUpdated = None, rm_lastEtag = [],
      rm_callbacks = [], rm_refs = 0\<rparr>"

definition RemoteRuleSet_loadBytes ::
  "'h deps \<Rightarrow> 'h codec \<Rightarrow> bool \<Rightarrow> (bytes \<Rightarrow> 'h PlainRuleSetCompat res) \<Rightarrow> bytes \<Rightarrow>
     'h RemoteRuleSet \<Rightarrow> ('h RemoteRuleSet \<times> nat list) res" where
  "RemoteRuleSet_loadBytes d c nm json_Unmarshal content s =
     res_bind
       (if rso_Format (rm_options s) = RuleSetFormatSource then json_Unmarshal content
        else if rso_Format (rm_options s) = RuleSetFormatBinary then srs_Read d c False content
        else Inl (ENew [ArgS ''unknown rule-set format: '', ArgS (rso_Format (rm_options s))]))
       (\<lambda>ruleSet.
        res_bind (PlainRuleSetCompat_Upgrade ruleSet) (\<lambda>plainRules.
        res_bind (sub_rules parse_rule_text (NewHeadlessRule d nm) 0 plainRules) (\<lambda>rules.
          Inr (s\<lparr>rm_metadata := rule_set_metadata plainRules, rm_rules := rules\<rparr>, rm_callbacks s))))"

text \<open>\<open>http\<close> answers a request that carries the given \<^verbatim>\<open>If-None-Match\<close> header. The result is the
  error, if any, the state and the cache file after the call, and the callbacks called.\<close>

definition RemoteRuleSet_fetch ::
  "'h deps \<Rightarrow> 'h codec \<Rightarrow> bool \<Rightarrow> (bytes \<Rightarrow> 'h PlainRuleSetCompat res) \<Rightarrow> (string \<Rightarrow> http_response res) \<Rightarrow>
     int \<Rightarrow> CacheFile option \<Rightarrow> 'h RemoteRuleSet \<Rightarrow>
     goerr option \<times> 'h RemoteRuleSet \<times> CacheFile option \<times> nat list" where
  "RemoteRuleSet_fetch d c nm json_Unmarshal http now cacheFile s =
     (case http (rm_lastEtag s) of
        Inl err \<Rightarrow> (Some err, s, cacheFile, [])
      | Inr response \<Rightarrow>
        if hp_StatusCode response = 200 then
          (case hp_Body response of
             Inl err \<Rightarrow> (Some err, s, cacheFile, [])
           | Inr content \<Rightarrow>
             (case RemoteRuleSet_loadBytes d c nm json_Unmarshal content s of
                Inl err \<Rightarrow> (Some err, s, cacheFile, [])
              | Inr (s, callbacks) \<Rightarrow>
                  let s = (if hp_Etag response \<noteq> [] then s\<lparr>rm_lastEtag := hp_Etag response\<rparr> else s);
                      s = s\<lparr>rm_lastUpdated := Some now\<rparr>;
                      saved = \<lparr>sb_Content = content, sb_LastUpdated = rm_lastUpdated s,
                               sb_LastEtag = rm_lastEtag s\<rparr>
                  in (None, s, map_option (CacheFile_SaveRuleSet (rso_Tag (rm_options s)) saved) cacheFile,
                      callbacks)))
        else if hp_StatusCode response = 304 then
          (let s = s\<lparr>rm_lastUpdated := Some now\<rparr> in
           (None, s,
            map_option (\<lambda>cf.
              case cf_saved cf (rso_Tag (rm_options s)) of
                None \<Rightarrow> cf
              | Some savedRuleSet \<Rightarrow>
                  CacheFile_SaveRuleSet (rso_Tag (rm_options s))
                    (savedRuleSet\<lparr>sb_LastUpdated := rm_lastUpdated s\<rparr>) cf) cacheFile, []))
        else (Some (ENew [ArgS ''unexpected status: '', ArgS (hp_Status response)]), s, cacheFile, []))"

text \<open>\<open>detour\<close> says which outbounds exist.\<close>

definition RemoteRuleSet_StartContext ::
  "'h deps \<Rightarrow> 'h codec \<Rightarrow> bool \<Rightarrow> (bytes \<Rightarrow> 'h PlainRuleSetCompat res) \<Rightarrow> (string \<Rightarrow> http_response res) \<Rightarrow>
     (string \<Rightarrow> bool) \<Rightarrow> int \<Rightarrow> CacheFile option \<Rightarrow> 'h RemoteRuleSet \<Rightarrow>
     goerr option \<times> 'h RemoteRuleSet \<times> CacheFile option \<times> nat list" where
  "RemoteRuleSet_StartContext d c nm json_Unmarshal http detour now cacheFile s =
     (let name = rso_DownloadDetour (rm_options s) in
      if name \<noteq> [] \<and> \<not> detour name
      then (Some (ENew [ArgS ''download detour not found: '', ArgS name]), s, cacheFile, [])
      else
        case (case cacheFile of
                None \<Rightarrow> Inr (s, [])
              | Some cf \<Rightarrow>
                  (case cf_saved cf (rso_Tag (rm_options s)) of
                     None \<Rightarrow> Inr (s, [])
                   | Some savedSet \<Rightarrow>
                       res_cause [ArgS ''restore cached rule-set'']
                         (res_bind (RemoteRuleSet_loadBytes d c nm json_Unmarshal (sb_Content savedSet) s)
                           (\<lambda>(s, callbacks). Inr (s\<lparr>rm_lastUpdated := sb_LastUpdated savedSet,
                                                  rm_lastEtag := sb_LastEtag savedSet\<rparr>, callbacks)))))
        of Inl err \<Rightarrow> (Some err, s, cacheFile, [])
         | Inr (s, callbacks) \<Rightarrow>
             if rm_lastUpdated s = None then
               (case RemoteRuleSet_fetch d c nm json_Unmarshal http now cacheFile s of
                  (Some err, s, cacheFile, cbs) \<Rightarrow>
                    (Some (ECause err [ArgS ''initial rule-set: '', ArgS (rso_Tag (rm_options s))]), s,
                     cacheFile, callbacks @ cbs)
                | (None, s, cacheFile, cbs) \<Rightarrow> (None, s, cacheFile, callbacks @ cbs))
             else (None, s, cacheFile, callbacks))"

text \<open>\<open>updateOnce\<close>, the body of the update loop: an error is logged.\<close>

definition RemoteRuleSet_updateOnce ::
  "'h deps \<Rightarrow> 'h codec \<Rightarrow> bool \<Rightarrow> (bytes \<Rightarrow> 'h PlainRuleSetCompat res) \<Rightarrow> (string \<Rightarrow> http_response res) \<Rightarrow>
     int \<Rightarrow> CacheFile option \<Rightarrow> 'h RemoteRuleSet \<Rightarrow> 'h RemoteRuleSet \<times> CacheFile option \<times> nat list" where
  "RemoteRuleSet_updateOnce d c nm json_Unmarshal http now cacheFile s =
     (case RemoteRuleSet_fetch d c nm json_Unmarshal http now cacheFile s of
        (Some err, s, cacheFile, cbs) \<Rightarrow> (s, cacheFile, cbs)
      | (None, s, cacheFile, cbs) \<Rightarrow> (if rm_refs s = 0 then s\<lparr>rm_rules := []\<rparr> else s, cacheFile, cbs))"

definition RemoteRuleSet_ExtractIPSet :: "'h RemoteRuleSet \<Rightarrow> myIPSet list" where
  "RemoteRuleSet_ExtractIPSet s = concat (map extractIPSetFromRule (rm_rules s))"

definition RemoteRuleSet_IncRef :: "'h RemoteRuleSet \<Rightarrow> 'h RemoteRuleSet" where
  "RemoteRuleSet_IncRef s = s\<lparr>rm_refs := rm_refs s + 1\<rparr>"

definition RemoteRuleSet_DecRef :: "'h RemoteRuleSet \<Rightarrow> 'h RemoteRuleSet res" where
  "RemoteRuleSet_DecRef s =
     (if rm_refs s - 1 < 0 then Inl (GoPanic [ArgS ''rule-set: negative refs''])
      else Inr (s\<lparr>rm_refs := rm_refs s - 1\<rparr>))"

definition RemoteRuleSet_Cleanup :: "'h RemoteRuleSet \<Rightarrow> 'h RemoteRuleSet" where
  "RemoteRuleSet_Cleanup s = (if rm_refs s = 0 then s\<lparr>rm_rules := []\<rparr> else s)"

definition RemoteRuleSet_RegisterCallback :: "nat \<Rightarrow> 'h RemoteRuleSet \<Rightarrow> 'h RemoteRuleSet" where
  "RemoteRuleSet_RegisterCallback cb s = s\<lparr>rm_callbacks := rm_callbacks s @ [cb]\<rparr>"

definition RemoteRuleSet_UnregisterCallback :: "nat \<Rightarrow> 'h RemoteRuleSet \<Rightarrow> 'h RemoteRuleSet" where
  "RemoteRuleSet_UnregisterCallback cb s = s\<lparr>rm_callbacks := remove1 cb (rm_callbacks s)\<rparr>"

definition RemoteRuleSet_Close :: "'h RemoteRuleSet \<Rightarrow> 'h RemoteRuleSet" where
  "RemoteRuleSet_Close s = s\<lparr>rm_rules := []\<rparr>"

definition RemoteRuleSet_Match :: "'h deps \<Rightarrow> env \<Rightarrow> 'h RemoteRuleSet matcher" where
  "RemoteRuleSet_Match d e s md = any_st (HeadlessRule_Match d e) (rm_rules s) md"

section \<open>The interface RuleSet\<close>

datatype 'h RuleSet = LocalSet "'h LocalRuleSet" | RemoteSet "'h RemoteRuleSet"

type_synonym 'h rule_sets = "string \<Rightarrow> 'h RuleSet option"

fun RuleSet_Match :: "'h deps \<Rightarrow> env \<Rightarrow> 'h RuleSet matcher" where
  "RuleSet_Match d e (LocalSet s) md = LocalRuleSet_Match d e s md"
| "RuleSet_Match d e (RemoteSet s) md = RemoteRuleSet_Match d e s md"

fun RuleSet_Metadata :: "'h RuleSet \<Rightarrow> RuleSetMetadata" where
  "RuleSet_Metadata (LocalSet s) = ls_metadata s"
| "RuleSet_Metadata (RemoteSet s) = rm_metadata s"

fun RuleSet_IncRef :: "'h RuleSet \<Rightarrow> 'h RuleSet" where
  "RuleSet_IncRef (LocalSet s) = LocalSet (LocalRuleSet_IncRef s)"
| "RuleSet_IncRef (RemoteSet s) = RemoteSet (RemoteRuleSet_IncRef s)"

fun RuleSet_Cleanup :: "'h RuleSet \<Rightarrow> 'h RuleSet" where
  "RuleSet_Cleanup (LocalSet s) = LocalSet (LocalRuleSet_Cleanup s)"
| "RuleSet_Cleanup (RemoteSet s) = RemoteSet (RemoteRuleSet_Cleanup s)"

fun RuleSet_Close :: "'h RuleSet \<Rightarrow> 'h RuleSet" where
  "RuleSet_Close (LocalSet s) = LocalSet (LocalRuleSet_Close s)"
| "RuleSet_Close (RemoteSet s) = RemoteSet (RemoteRuleSet_Close s)"

fun RuleSet_rules :: "'h RuleSet \<Rightarrow> 'h HeadlessRule list" where
  "RuleSet_rules (LocalSet s) = ls_rules s"
| "RuleSet_rules (RemoteSet s) = rm_rules s"

fun RuleSet_refs :: "'h RuleSet \<Rightarrow> int" where
  "RuleSet_refs (LocalSet s) = ls_refs s"
| "RuleSet_refs (RemoteSet s) = rm_refs s"

definition NewRuleSet ::
  "'h deps \<Rightarrow> 'h codec \<Rightarrow> bool \<Rightarrow> (bytes \<Rightarrow> 'h PlainRuleSetCompat res) \<Rightarrow> (string \<Rightarrow> bytes res) \<Rightarrow>
     (string \<Rightarrow> string) \<Rightarrow> (string \<Rightarrow> unit res) \<Rightarrow> 'h RuleSetOptions \<Rightarrow> 'h RuleSet res" where
  "NewRuleSet d c nm json_Unmarshal readFile absPath newWatcher options =
     (if rso_Type options = RuleSetTypeInline \<or> rso_Type options = RuleSetTypeLocal \<or> rso_Type options = []
      then res_bind (NewLocalRuleSet d c nm json_Unmarshal readFile absPath newWatcher options)
             (\<lambda>s. Inr (LocalSet s))
      else if rso_Type options = RuleSetTypeRemote then Inr (RemoteSet (NewRemoteRuleSet options))
      else Inl (ENew [ArgS ''unknown rule-set type: '', ArgS (rso_Type options)]))"

section \<open>The rule-set item\<close>

text \<open>The items of a route or DNS rule. The fields of a rule-set item: the tags, the rule sets
  found when it was started, and its two options.\<close>

datatype 'h Item =
    PlainItem "'h RuleItem"
  | RuleSetItem "string list" "string list" bool bool

fun is_RuleSetItem :: "'h Item \<Rightarrow> bool" where
  "is_RuleSetItem (RuleSetItem tagList setList ipCidrMatchSource ipCidrAcceptEmpty) = True"
| "is_RuleSetItem _ = False"

definition NewRuleSetItem :: "string list \<Rightarrow> bool \<Rightarrow> bool \<Rightarrow> 'h Item" where
  "NewRuleSetItem tagList ipCidrMatchSource ipCidrAcceptEmpty =
     RuleSetItem tagList [] ipCidrMatchSource ipCidrAcceptEmpty"

fun RuleSetItem_Start ::
  "string list \<Rightarrow> string list \<Rightarrow> 'h rule_sets \<Rightarrow> (string list) res \<times> 'h rule_sets" where
  "RuleSetItem_Start [] setList sets = (Inr setList, sets)"
| "RuleSetItem_Start (tag # tags) setList sets =
     (case sets tag of
        None \<Rightarrow> (Inl (ENew [ArgS ''rule-set not found: '', ArgS tag]), sets)
      | Some ruleSet \<Rightarrow>
          RuleSetItem_Start tags (setList @ [tag]) (sets(tag := Some (RuleSet_IncRef ruleSet))))"

text \<open>A rule set that a started item refers to is in the store: rule sets are never removed.\<close>

definition RuleSet_Match_tag :: "'h deps \<Rightarrow> env \<Rightarrow> 'h rule_sets \<Rightarrow> string matcher" where
  "RuleSet_Match_tag d e sets tag md =
     (case sets tag of None \<Rightarrow> (False, md) | Some ruleSet \<Rightarrow> RuleSet_Match d e ruleSet md)"

definition RuleSetItem_Match ::
  "'h deps \<Rightarrow> env \<Rightarrow> 'h rule_sets \<Rightarrow> string list \<Rightarrow> bool \<Rightarrow> bool \<Rightarrow> InboundContext \<Rightarrow> bool \<times> InboundContext" where
  "RuleSetItem_Match d e sets setList ipCidrMatchSource ipCidrAcceptEmpty md =
     any_st (RuleSet_Match_tag d e sets) setList
       (md\<lparr>md_IPCIDRMatchSource := ipCidrMatchSource, md_IPCIDRAcceptEmpty := ipCidrAcceptEmpty\<rparr>)"

definition RuleSetItem_ContainsDestinationIPCIDRRule ::
  "'h rule_sets \<Rightarrow> string list \<Rightarrow> bool \<Rightarrow> bool" where
  "RuleSetItem_ContainsDestinationIPCIDRRule sets setList ipCidrMatchSource =
     (if ipCidrMatchSource then False
      else list_ex (\<lambda>tag. case sets tag of None \<Rightarrow> False
                          | Some ruleSet \<Rightarrow> ContainsIPCIDRRule (RuleSet_Metadata ruleSet)) setList)"

definition RuleSetItem_String :: "'h deps \<Rightarrow> string list \<Rightarrow> string" where
  "RuleSetItem_String d tagList = describe_list d ''rule_set'' tagList"

fun Item_Match :: "'h deps \<Rightarrow> env \<Rightarrow> 'h rule_sets \<Rightarrow> 'h Item matcher" where
  "Item_Match d e sets (PlainItem item) md = RuleItem_Match_st d e item md"
| "Item_Match d e sets (RuleSetItem tagList setList src acc) md =
     RuleSetItem_Match d e sets setList src acc md"

fun Item_Start :: "env \<Rightarrow> 'h Item \<Rightarrow> 'h rule_sets \<Rightarrow> 'h Item res \<times> 'h rule_sets" where
  "Item_Start e (PlainItem item) sets =
     (case RuleItem_Start e item of Inl err \<Rightarrow> (Inl err, sets) | Inr item' \<Rightarrow> (Inr (PlainItem item'), sets))"
| "Item_Start e (RuleSetItem tagList setList src acc) sets =
     (case RuleSetItem_Start tagList setList sets of
        (Inl err, sets') \<Rightarrow> (Inl err, sets')
      | (Inr setList', sets') \<Rightarrow> (Inr (RuleSetItem tagList setList' src acc), sets'))"

section \<open>Lemmas\<close>

lemma RuleSet_Match_rules:
  "RuleSet_Match d e s md = any_st (HeadlessRule_Match d e) (RuleSet_rules s) md"
  by (cases s) (simp_all add: LocalRuleSet_Match_def RemoteRuleSet_Match_def)

lemma RuleSet_Match_keeps: "ResetRuleCache (snd (RuleSet_Match d e s md)) = ResetRuleCache md"
  by (simp add: RuleSet_Match_rules headless.any_m_keeps)

interpretation ruleset: cache_frame "RuleSet_Match_tag d e sets" for d e sets
  by unfold_locales (simp add: RuleSet_Match_tag_def RuleSet_Match_keeps split: option.split)

lemma Item_Match_keeps: "ResetRuleCache (snd (Item_Match d e sets item md)) = ResetRuleCache md"
  by (cases item) (simp_all add: RuleItem_Match_st_def RuleSetItem_Match_def ruleset.any_m_keeps)

interpretation item: cache_frame "Item_Match d e sets" for d e sets
  by unfold_locales (rule Item_Match_keeps)

text \<open>Starting a rule-set item finds every tag or fails, and takes one reference per tag.\<close>

lemma RuleSetItem_Start_spec:
  "RuleSetItem_Start tags setList sets = (Inr setList', sets') \<Longrightarrow>
     setList' = setList @ tags \<and> (\<forall>t\<in>set tags. sets t \<noteq> None) \<and>
     (\<forall>t. map_option RuleSet_refs (sets' t) =
        map_option (\<lambda>s. RuleSet_refs s + int (count_list tags t)) (sets t)) \<and>
     (\<forall>t. map_option RuleSet_rules (sets' t) = map_option RuleSet_rules (sets t))"
proof (induction tags setList sets rule: RuleSetItem_Start.induct)
  case (2 tag tags setList sets)
  from "2.prems" obtain s where s: "sets tag = Some s" by (cases "sets tag") auto
  have "RuleSet_refs (RuleSet_IncRef s) = RuleSet_refs s + 1"
    "RuleSet_rules (RuleSet_IncRef s) = RuleSet_rules s"
    by (cases s; simp add: LocalRuleSet_IncRef_def RemoteRuleSet_IncRef_def)+
  moreover have "RuleSetItem_Start tags (setList @ [tag]) (sets(tag \<mapsto> RuleSet_IncRef s)) = (Inr setList', sets')"
    using "2.prems" s by simp
  note IH = "2.IH" [OF s this]
  ultimately show ?case using IH s by (auto split: if_splits)
qed (simp add: option.map_ident)

text \<open>A load that fails changes nothing; what a load installs depends on the content alone.\<close>

lemma loadBytes_rules:
  assumes "RemoteRuleSet_loadBytes d c nm json content s = Inr (s', cbs)"
    and "rm_options t = rm_options s"
  shows "\<exists>cbs'. RemoteRuleSet_loadBytes d c nm json content t =
    Inr (t\<lparr>rm_rules := rm_rules s', rm_metadata := rm_metadata s'\<rparr>, cbs')"
  using assms by (auto simp: RemoteRuleSet_loadBytes_def res_bind_Inr_iff split: if_splits)

lemma fetch_error_keeps:
  assumes "RemoteRuleSet_fetch d c nm json http now cf s = (Some err, s', cf', cbs)"
  shows "s' = s" "cf' = cf" "cbs = []"
  using assms by (auto simp: RemoteRuleSet_fetch_def Let_def split: sum.splits if_splits prod.splits)

lemma loadBytes_options:
  "RemoteRuleSet_loadBytes d c nm json content s = Inr (s', cbs) \<Longrightarrow>
     rm_options s' = rm_options s \<and> rm_refs s' = rm_refs s \<and> rm_lastEtag s' = rm_lastEtag s"
  by (auto simp: RemoteRuleSet_loadBytes_def res_bind_Inr_iff)

subsection \<open>Matching against a rule set\<close>

text \<open>A flag that is already set can only help a rule that is not inverted.\<close>

definition flags_le :: "InboundContext \<Rightarrow> InboundContext \<Rightarrow> bool" where
  "flags_le md md' \<longleftrightarrow> clear_flags md = clear_flags md' \<and>
     (md_SourceAddressMatch md \<longrightarrow> md_SourceAddressMatch md') \<and>
     (md_SourcePortMatch md \<longrightarrow> md_SourcePortMatch md') \<and>
     (md_DestinationAddressMatch md \<longrightarrow> md_DestinationAddressMatch md') \<and>
     (md_DestinationPortMatch md \<longrightarrow> md_DestinationPortMatch md') \<and>
     (md_DidMatch md \<longrightarrow> md_DidMatch md')"

lemma flags_le_refl [simp]: "flags_le md md"
  by (simp add: flags_le_def)

lemma flags_le_trans: "flags_le a b \<Longrightarrow> flags_le b c \<Longrightarrow> flags_le a c"
  by (simp add: flags_le_def)

lemma flags_le_did: "flags_le md (md\<lparr>md_DidMatch := True\<rparr>)"
  by (simp add: flags_le_def)

lemma flags_le_ignore:
  "clear_flags md = clear_flags md' \<Longrightarrow>
   md_IgnoreDestinationIPCIDRMatch md = md_IgnoreDestinationIPCIDRMatch md'"
  by (metis clear_flags_sel)

lemma group_ok_mono: "group_ok f b xs \<Longrightarrow> (b \<Longrightarrow> b') \<Longrightarrow> group_ok f b' xs"
  by (auto simp: group_ok_def)

lemma default_mono:
  assumes "fst (abstractDefaultRule_Match g (RuleItem_Match_st d e) r md)" "\<not> invert r" "flags_le md md'"
  shows "fst (abstractDefaultRule_Match g (RuleItem_Match_st d e) r md')"
proof -
  have f: "RuleItem_Match d e i md' = RuleItem_Match d e i md" for i
    using assms(3) by (intro plain.f_cong) (simp add: flags_le_def)
  have ign: "md_IgnoreDestinationIPCIDRMatch md' = md_IgnoreDestinationIPCIDRMatch md"
    using assms(3) by (metis flags_le_def flags_le_ignore)
  have flags: "md_SourceAddressMatch md \<Longrightarrow> md_SourceAddressMatch md'"
    "md_SourcePortMatch md \<Longrightarrow> md_SourcePortMatch md'"
    "md_DestinationAddressMatch md \<Longrightarrow> md_DestinationAddressMatch md'"
    "md_DestinationPortMatch md \<Longrightarrow> md_DestinationPortMatch md'"
    using assms(3) by (simp_all add: flags_le_def)
  have "rule_condition (\<lambda>i. RuleItem_Match d e i md) r md \<Longrightarrow>
      rule_condition (\<lambda>i. RuleItem_Match d e i md') r md'"
    unfolding rule_condition_def f ign using flags by (blast intro: group_ok_mono)
  with assms(1,2) show ?thesis by (auto simp: plain.Match_spec split: if_splits)
qed

text \<open>Matching a default rule only sets flags.\<close>

lemma default_flags_le:
  "flags_le md (snd (abstractDefaultRule_Match g (RuleItem_Match_st d e) r md))"
proof -
  have items: "flags_le md (snd (match_items g (RuleItem_Match_st d e) xs md))" for xs md
  proof (induction xs arbitrary: md)
    case (Cons x xs)
    let ?md = "if g x then md else md\<lparr>md_DidMatch := True\<rparr>"
    have "flags_le md ?md" by (simp add: flags_le_did)
    with flags_le_trans [OF this Cons.IH [of ?md]] show ?case by (simp add: RuleItem_Match_st_def)
  qed simp
  show ?thesis
  proof (cases "allItems r = []")
    case False
    define md5 where "md5 = match_destinationPort (RuleItem_Match_st d e) r
      (match_destinationIPCIDR (RuleItem_Match_st d e) r (match_destinationAddress (RuleItem_Match_st d e) r
        (match_sourcePort (RuleItem_Match_st d e) r (match_sourceAddress (RuleItem_Match_st d e) r md))))"
    have "flags_le md md5" by (simp add: md5_def plain.all_phases flags_le_def)
    moreover have "snd (abstractDefaultRule_Match g (RuleItem_Match_st d e) r md) =
        snd (match_items g (RuleItem_Match_st d e) (items r) md5)"
      using False by (simp add: abstractDefaultRule_Match_def Let_def md5_def split: prod.split)
    ultimately show ?thesis using items [of md5 "items r"] by (metis flags_le_trans)
  qed (simp add: abstractDefaultRule_Match_def flags_le_def)
qed

lemma any_default_complete:
  assumes "\<forall>h\<in>set hs. \<exists>r. h = DefaultHeadlessRule r" "DefaultHeadlessRule r \<in> set hs" "\<not> invert r"
    and "fst (HeadlessRule_Match d e (DefaultHeadlessRule r) md)" "flags_le md md'"
  shows "fst (any_st (HeadlessRule_Match d e) hs md')"
  using assms(1,2,5)
proof (induction hs arbitrary: md')
  case (Cons h hs)
  obtain b md1 where m: "HeadlessRule_Match d e h md' = (b, md1)" by force
  from Cons.prems(1) obtain r' where h: "h = DefaultHeadlessRule r'" by auto
  show ?case
  proof (cases "h = DefaultHeadlessRule r")
    case True
    then have "b" using default_mono [OF _ assms(3) Cons.prems(3)] assms(4) m
      by (metis HeadlessRule_Match.simps(1) fst_conv)
    with m show ?thesis by simp
  next
    case False
    have "flags_le md' md1" using default_flags_le [of md' _ d e r'] m h by (metis HeadlessRule_Match.simps(1) snd_conv)
    with Cons.prems(3) have "flags_le md md1" by (rule flags_le_trans)
    with Cons.IH [of md1] Cons.prems False m show ?thesis by simp
  qed
qed simp

end
