(* ===== verification/DnsMessages.thy ===== *)
theory DnsMessages
  imports Prelude Metadata
begin

text \<open>
  DNS messages as the sources use them: the records \<^verbatim>\<open>dns.Msg\<close>, \<^verbatim>\<open>dns.Question\<close> and \<^verbatim>\<open>dns.RR\<close>
  of the package \<^verbatim>\<open>miekg/dns\<close> with the fields that the sources read and write. The data of a
  resource record is a datatype with the kinds that the sources look into or build: an address, the
  target of a CNAME, the minimum TTL of an SOA record, the parameters of an HTTPS record by key with
  their texts, the options of an OPT record, texts, a mail exchanger; every other kind is carried as
  its presentation text.
\<close>

record Question =
  q_Name :: string
  q_Qtype :: u16
  q_Qclass :: u16

text \<open>An EDNS0 option of an OPT record: the client subnet with its code, address family, netmask and
  address, or another option as its text.\<close>

datatype edns_option =
    EDNS0_SUBNET u16 u16 u8 Addr
  | EDNS0_Other string

datatype rdata =
    RD_A Addr
  | RD_AAAA Addr
  | RD_CNAME string
  | RD_SOA u32
  | RD_HTTPS "(u16 \<times> string) list"
  | RD_OPT "edns_option list"
  | RD_TXT "string list"
  | RD_MX u16 string
  | RD_Other string

record RR =
  rr_Name :: string
  rr_Rrtype :: u16
  rr_Class :: u16
  rr_Ttl :: u32
  rr_Data :: rdata

record Msg =
  msg_Id :: u16
  msg_Response :: bool
  msg_Opcode :: int
  msg_Authoritative :: bool
  msg_Truncated :: bool
  msg_RecursionDesired :: bool
  msg_RecursionAvailable :: bool
  msg_Rcode :: int
  msg_Question :: "Question list"
  msg_Answer :: "RR list"
  msg_Ns :: "RR list"
  msg_Extra :: "RR list"

definition Msg_zero :: Msg where
  "Msg_zero =
     \<lparr>msg_Id = 0, msg_Response = False, msg_Opcode = 0, msg_Authoritative = False,
      msg_Truncated = False, msg_RecursionDesired = False, msg_RecursionAvailable = False,
      msg_Rcode = 0, msg_Question = [], msg_Answer = [], msg_Ns = [], msg_Extra = []\<rparr>"

definition TypeA :: u16 where "TypeA = 1"
definition TypeCNAME :: u16 where "TypeCNAME = 5"
definition TypeAAAA :: u16 where "TypeAAAA = 28"
definition TypeHTTPS :: u16 where "TypeHTTPS = 65"
definition TypeOPT :: u16 where "TypeOPT = 41"
definition ClassINET :: u16 where "ClassINET = 1"
definition EDNS0SUBNET :: u16 where "EDNS0SUBNET = 8"
definition SVCB_IPV4HINT :: u16 where "SVCB_IPV4HINT = 4"
definition SVCB_IPV6HINT :: u16 where "SVCB_IPV6HINT = 6"

definition RcodeSuccess :: int where "RcodeSuccess = 0"
definition RcodeRefused :: int where "RcodeRefused = 5"

definition RcodeFormatError :: int where "RcodeFormatError = 1"
definition RcodeNameError :: int where "RcodeNameError = 3"

text \<open>A DNS transport, as far as the routers use it: its tag, its type and, when it implements
  \<^verbatim>\<open>adapter.LegacyDNSTransport\<close>, its legacy strategy and client subnet; and the options of a query.\<close>

record DNSTransport =
  tr_Tag :: string
  tr_Type :: string
  tr_Legacy :: "(u8 \<times> Prefix) option"

record DNSQueryOptions =
  qo_Transport :: "DNSTransport option"
  qo_Strategy :: u8
  qo_LookupStrategy :: u8
  qo_DisableCache :: bool
  qo_RewriteTTL :: "u32 option"
  qo_ClientSubnet :: Prefix

definition DNSQueryOptions_zero :: DNSQueryOptions where
  "DNSQueryOptions_zero =
     \<lparr>qo_Transport = None, qo_Strategy = 0, qo_LookupStrategy = 0, qo_DisableCache = False,
      qo_RewriteTTL = None, qo_ClientSubnet = Prefix_zero\<rparr>"

end
