(* ===== verification/RuleAction.thy ===== *)
theory RuleAction
  imports RuleItems DnsMessages
begin

text \<open>
  Rule actions (\<^verbatim>\<open>route/rule/rule_action.go\<close>) and their options (\<^verbatim>\<open>option/rule_action.go\<close>): the Go
  interface \<^verbatim>\<open>adapter.RuleAction\<close> as a datatype with one constructor per implementing struct,
  the two functions that build actions from options, and the methods of the actions. A
  \<^verbatim>\<open>time.Duration\<close> and a \<^verbatim>\<open>time.Time\<close> are numbers of nanoseconds. The dialer that a direct
  action holds is built by a function given as an argument.
\<close>

section \<open>Constants\<close>

definition RuleActionTypeRoute :: string where "RuleActionTypeRoute = ''route''"
definition RuleActionTypeRouteOptions :: string where "RuleActionTypeRouteOptions = ''route-options''"
definition RuleActionTypeDirect :: string where "RuleActionTypeDirect = ''direct''"
definition RuleActionTypeReject :: string where "RuleActionTypeReject = ''reject''"
definition RuleActionTypeHijackDNS :: string where "RuleActionTypeHijackDNS = ''hijack-dns''"
definition RuleActionTypeSniff :: string where "RuleActionTypeSniff = ''sniff''"
definition RuleActionTypeResolve :: string where "RuleActionTypeResolve = ''resolve''"
definition RuleActionTypePredefined :: string where "RuleActionTypePredefined = ''predefined''"

lemmas action_types =
  RuleActionTypeRoute_def RuleActionTypeRouteOptions_def RuleActionTypeDirect_def
  RuleActionTypeReject_def RuleActionTypeHijackDNS_def RuleActionTypeSniff_def
  RuleActionTypeResolve_def RuleActionTypePredefined_def

definition RuleActionRejectMethodDefault :: string where "RuleActionRejectMethodDefault = ''default''"
definition RuleActionRejectMethodDrop :: string where "RuleActionRejectMethodDrop = ''drop''"
definition RuleActionRejectMethodReply :: string where "RuleActionRejectMethodReply = ''reply''"

lemmas reject_methods =
  RuleActionRejectMethodDefault_def RuleActionRejectMethodDrop_def RuleActionRejectMethodReply_def

definition DomainStrategyAsIS :: u8 where "DomainStrategyAsIS = 0"
definition DomainStrategyPreferIPv4 :: u8 where "DomainStrategyPreferIPv4 = 1"
definition DomainStrategyPreferIPv6 :: u8 where "DomainStrategyPreferIPv6 = 2"
definition DomainStrategyIPv4Only :: u8 where "DomainStrategyIPv4Only = 3"
definition DomainStrategyIPv6Only :: u8 where "DomainStrategyIPv6Only = 4"

lemmas domain_strategies =
  DomainStrategyAsIS_def DomainStrategyPreferIPv4_def DomainStrategyPreferIPv6_def
  DomainStrategyIPv4Only_def DomainStrategyIPv6Only_def

definition DomainStrategy_String :: "u8 \<Rightarrow> string res" where
  "DomainStrategy_String s =
     (if s = DomainStrategyAsIS then Inr []
      else if s = DomainStrategyPreferIPv4 then Inr ''prefer_ipv4''
      else if s = DomainStrategyPreferIPv6 then Inr ''prefer_ipv6''
      else if s = DomainStrategyIPv4Only then Inr ''ipv4_only''
      else if s = DomainStrategyIPv6Only then Inr ''ipv6_only''
      else Inl (GoPanic [ArgS ''unknown domain strategy: '', ArgI (uint s)]))"

text \<open>The decoding of a strategy, after the JSON string has been read.\<close>

definition DomainStrategy_Unmarshal :: "string \<Rightarrow> u8 res" where
  "DomainStrategy_Unmarshal value =
     (if value = [] \<or> value = ''as_is'' then Inr DomainStrategyAsIS
      else if value = ''prefer_ipv4'' then Inr DomainStrategyPreferIPv4
      else if value = ''prefer_ipv6'' then Inr DomainStrategyPreferIPv6
      else if value = ''ipv4_only'' then Inr DomainStrategyIPv4Only
      else if value = ''ipv6_only'' then Inr DomainStrategyIPv6Only
      else Inl (ENew [ArgS ''unknown domain strategy: '', ArgS value]))"

section \<open>Options\<close>

record RawRouteOptionsActionOptions =
  rro_OverrideAddress :: string
  rro_OverridePort :: u16
  rro_NetworkStrategy :: "u8 option"
  rro_FallbackDelay :: u32
  rro_UDPDisableDomainUnmapping :: bool
  rro_UDPConnect :: bool
  rro_UDPTimeout :: int
  rro_TLSFragment :: bool
  rro_TLSFragmentFallbackDelay :: int
  rro_TLSRecordFragment :: bool

record RouteActionOptions = RawRouteOptionsActionOptions +
  rao_Outbound :: string

record DomainResolveOptions =
  dmr_Server :: string
  dmr_Strategy :: u8
  dmr_DisableCache :: bool
  dmr_RewriteTTL :: "u32 option"
  dmr_ClientSubnet :: "Prefix option"

record DialerOptions =
  do_Detour :: string
  do_BindInterface :: string
  do_Inet4BindAddress :: "Addr option"
  do_Inet6BindAddress :: "Addr option"
  do_ProtectPath :: string
  do_RoutingMark :: u32
  do_ReuseAddr :: bool
  do_NetNs :: string
  do_ConnectTimeout :: int
  do_TCPFastOpen :: bool
  do_TCPMultiPath :: bool
  do_UDPFragment :: "bool option"
  do_UDPFragmentDefault :: bool
  do_DomainResolver :: "DomainResolveOptions option"
  do_NetworkStrategy :: "u8 option"
  do_NetworkType :: "u8 list"
  do_FallbackNetworkType :: "u8 list"
  do_FallbackDelay :: int
  do_DomainStrategy :: u8

record RejectActionOptions =
  rjo_Method :: string
  rjo_NoDrop :: bool

record RouteActionSniff =
  sno_Sniffer :: "string list"
  sno_Timeout :: int

record RouteActionResolve =
  rso_Server :: string
  rso_Strategy :: u8
  rso_DisableCache :: bool
  rso_RewriteTTL :: "u32 option"
  rso_ClientSubnet :: "Prefix option"

record RuleActionOptions =
  rua_Action :: string
  rua_RouteOptions :: RouteActionOptions
  rua_RouteOptionsOptions :: RawRouteOptionsActionOptions
  rua_DirectOptions :: DialerOptions
  rua_RejectOptions :: RejectActionOptions
  rua_SniffOptions :: RouteActionSniff
  rua_ResolveOptions :: RouteActionResolve

record DNSRouteOptionsActionOptions =
  dro_Strategy :: u8
  dro_DisableCache :: bool
  dro_RewriteTTL :: "u32 option"
  dro_ClientSubnet :: "Prefix option"

record DNSRouteActionOptions = DNSRouteOptionsActionOptions +
  dra_Server :: string

record DNSRouteActionPredefined =
  pdo_Rcode :: "int option"
  pdo_Answer :: "RR list"
  pdo_Ns :: "RR list"
  pdo_Extra :: "RR list"

record DNSRuleActionOptions =
  dua_Action :: string
  dua_RouteOptions :: DNSRouteActionOptions
  dua_RouteOptionsOptions :: DNSRouteOptionsActionOptions
  dua_RejectOptions :: RejectActionOptions
  dua_PredefinedOptions :: DNSRouteActionPredefined

text \<open>The checks that the decoders make once the JSON object has been read into the record.\<close>

definition RawRouteOptionsActionOptions_zero :: RawRouteOptionsActionOptions where
  "RawRouteOptionsActionOptions_zero =
     \<lparr>rro_OverrideAddress = [], rro_OverridePort = 0, rro_NetworkStrategy = None,
      rro_FallbackDelay = 0, rro_UDPDisableDomainUnmapping = False, rro_UDPConnect = False,
      rro_UDPTimeout = 0, rro_TLSFragment = False, rro_TLSFragmentFallbackDelay = 0,
      rro_TLSRecordFragment = False\<rparr>"

definition RouteOptionsActionOptions_Unmarshal ::
  "RawRouteOptionsActionOptions \<Rightarrow> RawRouteOptionsActionOptions res" where
  "RouteOptionsActionOptions_Unmarshal r =
     (if r = RawRouteOptionsActionOptions_zero then Inl (ENew [ArgS ''empty route option action''])
      else if rro_TLSFragment r \<and> rro_TLSRecordFragment r
      then Inl (ENew [ArgS ''`tls_fragment` and `tls_record_fragment` are mutually exclusive''])
      else Inr r)"

definition RejectActionOptions_Unmarshal :: "RejectActionOptions \<Rightarrow> RejectActionOptions res" where
  "RejectActionOptions_Unmarshal r =
     res_bind
       (if rjo_Method r = [] \<or> rjo_Method r = RuleActionRejectMethodDefault
        then Inr (r\<lparr>rjo_Method := RuleActionRejectMethodDefault\<rparr>)
        else if rjo_Method r = RuleActionRejectMethodDrop \<or> rjo_Method r = RuleActionRejectMethodReply
        then Inr r
        else Inl (ENew [ArgS (''unknown reject method: '' @ rjo_Method r)]))
       (\<lambda>r. if rjo_Method r = RuleActionRejectMethodDrop \<and> rjo_NoDrop r
            then Inl (ENew [ArgS ''no_drop is not available in current context''])
            else Inr r)"

definition DirectActionOptions_Unmarshal :: "DialerOptions \<Rightarrow> DialerOptions res" where
  "DirectActionOptions_Unmarshal opts =
     (if do_Detour opts \<noteq> [] then Inl (ENew [ArgS ''detour is not available in the current context''])
      else Inr opts)"

text \<open>The name under which an action's options are decoded and encoded.\<close>

definition RuleAction_Unmarshal_action :: "string \<Rightarrow> string res" where
  "RuleAction_Unmarshal_action a =
     (if a = [] \<or> a = RuleActionTypeRoute then Inr RuleActionTypeRoute
      else if a \<in> {RuleActionTypeRouteOptions, RuleActionTypeDirect, RuleActionTypeReject,
                   RuleActionTypeHijackDNS, RuleActionTypeSniff, RuleActionTypeResolve}
      then Inr a
      else Inl (ENew [ArgS (''unknown rule action: '' @ a)]))"

definition DNSRuleAction_Unmarshal_action :: "string \<Rightarrow> string res" where
  "DNSRuleAction_Unmarshal_action a =
     (if a = [] \<or> a = RuleActionTypeRoute then Inr RuleActionTypeRoute
      else if a \<in> {RuleActionTypeRouteOptions, RuleActionTypeReject, RuleActionTypePredefined}
      then Inr a
      else Inl (ENew [ArgS (''unknown DNS rule action: '' @ a)]))"

section \<open>Actions\<close>

record RouteOptions =
  ro_OverrideAddress :: Socksaddr
  ro_OverridePort :: u16
  ro_NetworkStrategy :: "u8 option"
  ro_NetworkType :: "u8 list"
  ro_FallbackNetworkType :: "u8 list"
  ro_FallbackDelay :: int
  ro_UDPDisableDomainUnmapping :: bool
  ro_UDPConnect :: bool
  ro_UDPTimeout :: int
  ro_TLSFragment :: bool
  ro_TLSFragmentFallbackDelay :: int
  ro_TLSRecordFragment :: bool

record DNSRouteOptions =
  dn_Strategy :: u8
  dn_DisableCache :: bool
  dn_RewriteTTL :: "u32 option"
  dn_ClientSubnet :: Prefix

record RejectAction =
  rj_Method :: string
  rj_NoDrop :: bool
  rj_dropCounter :: "int list"

text \<open>The sniffer functions of \<^verbatim>\<open>common/sniff\<close>, by name.\<close>

datatype StreamSniffer = TLSClientHello | HTTPHost | StreamDomainNameQuery | BitTorrent | SSH | RDP
datatype PacketSniffer =
  QUICClientHello | DomainNameQuery | STUNMessage | UTP | UDPTracker | DTLSRecord | NTP

record SniffAction =
  sn_SnifferNames :: "string list"
  sn_StreamSniffers :: "StreamSniffer list"
  sn_PacketSniffers :: "PacketSniffer list"
  sn_Timeout :: int
  sn_OverrideDestination :: bool

record ResolveAction =
  rs_Server :: string
  rs_Strategy :: u8
  rs_DisableCache :: bool
  rs_RewriteTTL :: "u32 option"
  rs_ClientSubnet :: Prefix

record PredefinedAction =
  pd_Rcode :: int
  pd_Answer :: "RR list"
  pd_Ns :: "RR list"
  pd_Extra :: "RR list"

datatype 'h RuleAction =
    RuleActionRoute string RouteOptions
  | RuleActionRouteOptions RouteOptions
  | RuleActionDNSRoute string DNSRouteOptions
  | RuleActionDNSRouteOptions DNSRouteOptions
  | RuleActionDirect 'h string
  | RuleActionReject RejectAction
  | RuleActionHijackDNS
  | RuleActionSniff SniffAction
  | RuleActionResolve ResolveAction
  | RuleActionPredefined PredefinedAction

fun RuleAction_Type :: "'h RuleAction \<Rightarrow> string" where
  "RuleAction_Type (RuleActionRoute outbound options) = RuleActionTypeRoute"
| "RuleAction_Type (RuleActionRouteOptions options) = RuleActionTypeRouteOptions"
| "RuleAction_Type (RuleActionDNSRoute server options) = RuleActionTypeRoute"
| "RuleAction_Type (RuleActionDNSRouteOptions options) = RuleActionTypeRouteOptions"
| "RuleAction_Type (RuleActionDirect dialer description) = RuleActionTypeDirect"
| "RuleAction_Type (RuleActionReject r) = RuleActionTypeReject"
| "RuleAction_Type RuleActionHijackDNS = RuleActionTypeHijackDNS"
| "RuleAction_Type (RuleActionSniff r) = RuleActionTypeSniff"
| "RuleAction_Type (RuleActionResolve r) = RuleActionTypeResolve"
| "RuleAction_Type (RuleActionPredefined r) = RuleActionTypePredefined"

definition IsFinalAction :: "'h RuleAction \<Rightarrow> bool" where
  "IsFinalAction a =
     (if RuleAction_Type a = RuleActionTypeSniff \<or> RuleAction_Type a = RuleActionTypeResolve
      then False else True)"

section \<open>Sniffers by name\<close>

text \<open>One iteration of the loop of \<^verbatim>\<open>build\<close>: what a name appends to the two lists.\<close>

definition sniffers_of :: "string \<Rightarrow> (StreamSniffer list \<times> PacketSniffer list) res" where
  "sniffers_of name =
     (if name = ''tls'' then Inr ([TLSClientHello], [])
      else if name = ''http'' then Inr ([HTTPHost], [])
      else if name = ''quic'' then Inr ([], [QUICClientHello])
      else if name = ''dns'' then Inr ([StreamDomainNameQuery], [DomainNameQuery])
      else if name = ''stun'' then Inr ([], [STUNMessage])
      else if name = ''bittorrent'' then Inr ([BitTorrent], [UTP, UDPTracker])
      else if name = ''dtls'' then Inr ([], [DTLSRecord])
      else if name = ''ssh'' then Inr ([SSH], [])
      else if name = ''rdp'' then Inr ([RDP], [])
      else if name = ''ntp'' then Inr ([], [NTP])
      else Inl (ENew [ArgS ''unknown sniffer: '', ArgS name]))"

fun build_loop :: "string list \<Rightarrow> SniffAction \<Rightarrow> SniffAction res" where
  "build_loop [] r = Inr r"
| "build_loop (name # names) r =
     (case sniffers_of name of
        Inl err \<Rightarrow> Inl err
      | Inr (ss, ps) \<Rightarrow>
          build_loop names (r\<lparr>sn_StreamSniffers := sn_StreamSniffers r @ ss,
                              sn_PacketSniffers := sn_PacketSniffers r @ ps\<rparr>))"

definition RuleActionSniff_build :: "SniffAction \<Rightarrow> SniffAction res" where
  "RuleActionSniff_build r = build_loop (sn_SnifferNames r) r"

section \<open>From options to actions\<close>

definition DirectActionOptions_Descriptions :: "'h deps \<Rightarrow> DialerOptions \<Rightarrow> string list res" where
  "DirectActionOptions_Descriptions d o4 =
     res_bind (if do_DomainStrategy o4 \<noteq> DomainStrategyAsIS
               then res_bind (DomainStrategy_String (do_DomainStrategy o4)) (\<lambda>s. Inr [''domain_strategy='' @ s])
               else Inr [])
       (\<lambda>strategy. Inr (
        (if do_BindInterface o4 \<noteq> [] then [''bind_interface='' @ do_BindInterface o4] else []) @
        (case do_Inet4BindAddress o4 of None \<Rightarrow> []
         | Some a \<Rightarrow> [''inet4_bind_address='' @ netip_Addr_String d a]) @
        (case do_Inet6BindAddress o4 of None \<Rightarrow> []
         | Some a \<Rightarrow> [''inet6_bind_address='' @ netip_Addr_String d a]) @
        (if do_RoutingMark o4 \<noteq> 0 then [''routing_mark='' @ ''0x'' @ hexadecimal (unat (do_RoutingMark o4))] else []) @
        (if do_ReuseAddr o4 then [''reuse_addr''] else []) @
        (if do_ConnectTimeout o4 \<noteq> 0 then [''connect_timeout='' @ time_Duration_String d (do_ConnectTimeout o4)] else []) @
        (if do_TCPFastOpen o4 then [''tcp_fast_open''] else []) @
        (if do_TCPMultiPath o4 then [''tcp_multi_path''] else []) @
        (case do_UDPFragment o4 of None \<Rightarrow> []
         | Some b \<Rightarrow> [''udp_fragment='' @ (if b then ''true'' else ''false'')]) @
        strategy @
        (if do_FallbackDelay o4 \<noteq> 0 then [''fallback_delay='' @ time_Duration_String d (do_FallbackDelay o4)] else [])))"

definition direct_description :: "'h deps \<Rightarrow> string list \<Rightarrow> string" where
  "direct_description d descriptions =
     (case descriptions of
        [] \<Rightarrow> []
      | [a] \<Rightarrow> F_ToString d [ArgS ''('', ArgS a, ArgS '')'']
      | [a, b] \<Rightarrow> F_ToString d [ArgS ''('', ArgS a, ArgS '','', ArgS b, ArgS '')'']
      | a # b # _ \<Rightarrow> F_ToString d [ArgS ''('', ArgS a, ArgS '','', ArgS b, ArgS '',...)''])"

definition NewRuleAction ::
  "'h deps \<Rightarrow> (DialerOptions \<Rightarrow> 'h res) \<Rightarrow> RuleActionOptions \<Rightarrow> 'h RuleAction option res" where
  "NewRuleAction d dialer_New action =
     (if rua_Action action = [] then Inr None
      else if rua_Action action = RuleActionTypeRoute then
        (let r = rua_RouteOptions action in
         Inr (Some (RuleActionRoute (rao_Outbound r)
           \<lparr>ro_OverrideAddress = M_ParseSocksaddrHostPort d (rro_OverrideAddress r) 0,
            ro_OverridePort = rro_OverridePort r,
            ro_NetworkStrategy = rro_NetworkStrategy r,
            ro_NetworkType = [],
            ro_FallbackNetworkType = [],
            ro_FallbackDelay = uint (rro_FallbackDelay r),
            ro_UDPDisableDomainUnmapping = rro_UDPDisableDomainUnmapping r,
            ro_UDPConnect = rro_UDPConnect r,
            ro_UDPTimeout = 0,
            ro_TLSFragment = rro_TLSFragment r,
            ro_TLSFragmentFallbackDelay = rro_TLSFragmentFallbackDelay r,
            ro_TLSRecordFragment = rro_TLSRecordFragment r\<rparr>)))
      else if rua_Action action = RuleActionTypeRouteOptions then
        (let r = rua_RouteOptionsOptions action in
         Inr (Some (RuleActionRouteOptions
           \<lparr>ro_OverrideAddress = M_ParseSocksaddrHostPort d (rro_OverrideAddress r) 0,
            ro_OverridePort = rro_OverridePort r,
            ro_NetworkStrategy = rro_NetworkStrategy r,
            ro_NetworkType = [],
            ro_FallbackNetworkType = [],
            ro_FallbackDelay = uint (rro_FallbackDelay r),
            ro_UDPDisableDomainUnmapping = rro_UDPDisableDomainUnmapping r,
            ro_UDPConnect = rro_UDPConnect r,
            ro_UDPTimeout = rro_UDPTimeout r,
            ro_TLSFragment = rro_TLSFragment r,
            ro_TLSFragmentFallbackDelay = rro_TLSFragmentFallbackDelay r,
            ro_TLSRecordFragment = rro_TLSRecordFragment r\<rparr>)))
      else if rua_Action action = RuleActionTypeDirect then
        res_bind (dialer_New (rua_DirectOptions action)) (\<lambda>directDialer.
        res_bind (DirectActionOptions_Descriptions d (rua_DirectOptions action)) (\<lambda>descriptions.
          Inr (Some (RuleActionDirect directDialer (direct_description d descriptions)))))
      else if rua_Action action = RuleActionTypeReject then
        Inr (Some (RuleActionReject
          \<lparr>rj_Method = rjo_Method (rua_RejectOptions action),
           rj_NoDrop = rjo_NoDrop (rua_RejectOptions action), rj_dropCounter = []\<rparr>))
      else if rua_Action action = RuleActionTypeHijackDNS then Inr (Some RuleActionHijackDNS)
      else if rua_Action action = RuleActionTypeSniff then
        res_bind (RuleActionSniff_build
          \<lparr>sn_SnifferNames = sno_Sniffer (rua_SniffOptions action), sn_StreamSniffers = [],
           sn_PacketSniffers = [], sn_Timeout = sno_Timeout (rua_SniffOptions action),
           sn_OverrideDestination = False\<rparr>) (\<lambda>r. Inr (Some (RuleActionSniff r)))
      else if rua_Action action = RuleActionTypeResolve then
        (let r = rua_ResolveOptions action in
         Inr (Some (RuleActionResolve
           \<lparr>rs_Server = rso_Server r, rs_Strategy = rso_Strategy r,
            rs_DisableCache = rso_DisableCache r, rs_RewriteTTL = rso_RewriteTTL r,
            rs_ClientSubnet = badoption_Prefixable_Build d (rso_ClientSubnet r) Prefix_zero\<rparr>)))
      else Inl (GoPanic [ArgS ''unknown rule action: '', ArgS (rua_Action action)]))"

definition dns_route_options :: "('a DNSRouteOptionsActionOptions_scheme) \<Rightarrow> DNSRouteOptions" where
  "dns_route_options r =
     \<lparr>dn_Strategy = dro_Strategy r, dn_DisableCache = dro_DisableCache r,
      dn_RewriteTTL = dro_RewriteTTL r,
      dn_ClientSubnet = (case dro_ClientSubnet r of None \<Rightarrow> Prefix_zero | Some p \<Rightarrow> p)\<rparr>"

definition DNSRCode_Build :: "int option \<Rightarrow> int" where
  "DNSRCode_Build r = (case r of None \<Rightarrow> RcodeSuccess | Some n \<Rightarrow> n)"

definition NewDNSRuleAction :: "DNSRuleActionOptions \<Rightarrow> 'h RuleAction option res" where
  "NewDNSRuleAction action =
     (if dua_Action action = [] then Inr None
      else if dua_Action action = RuleActionTypeRoute then
        Inr (Some (RuleActionDNSRoute (dra_Server (dua_RouteOptions action))
          (dns_route_options (dua_RouteOptions action))))
      else if dua_Action action = RuleActionTypeRouteOptions then
        Inr (Some (RuleActionDNSRouteOptions (dns_route_options (dua_RouteOptionsOptions action))))
      else if dua_Action action = RuleActionTypeReject then
        Inr (Some (RuleActionReject
          \<lparr>rj_Method = rjo_Method (dua_RejectOptions action),
           rj_NoDrop = rjo_NoDrop (dua_RejectOptions action), rj_dropCounter = []\<rparr>))
      else if dua_Action action = RuleActionTypePredefined then
        (let p = dua_PredefinedOptions action in
         Inr (Some (RuleActionPredefined
           \<lparr>pd_Rcode = DNSRCode_Build (pdo_Rcode p), pd_Answer = pdo_Answer p,
            pd_Ns = pdo_Ns p, pd_Extra = pdo_Extra p\<rparr>)))
      else Inl (GoPanic [ArgS ''unknown rule action: '', ArgS (dua_Action action)]))"

section \<open>Reject\<close>

definition tun_ErrReset :: goerr where "tun_ErrReset = EExternal ''tun.ErrReset''"
definition tun_ErrDrop :: goerr where "tun_ErrDrop = EExternal ''tun.ErrDrop''"

text \<open>\<^verbatim>\<open>errors.As(err, &rejected)\<close> follows the chain of wrapped errors.\<close>

fun IsRejected :: "goerr \<Rightarrow> bool" where
  "IsRejected (ERejected cause) = True"
| "IsRejected (ECause err args) = IsRejected err"
| "IsRejected (EExtend err args) = IsRejected err"
| "IsRejected (EErrors errs) = list_ex IsRejected errs"
| "IsRejected _ = False"

definition second :: int where "second = 1000000000"

text \<open>\<^verbatim>\<open>Error\<close> at the time \<open>timeNow\<close>: \<open>Inr None\<close> is the nil error, \<open>Inl\<close> the panic. The mutex
  makes the update of the counter atomic.\<close>

definition RuleActionReject_Error ::
  "int \<Rightarrow> RejectAction \<Rightarrow> goerr option res \<times> RejectAction" where
  "RuleActionReject_Error timeNow r =
     (if rj_Method r = RuleActionRejectMethodDefault then
        (let returnErr = Inr (Some (ERejected tun_ErrReset)) in
         if rj_NoDrop r then (returnErr, r)
         else
           let r = r\<lparr>rj_dropCounter := filter (\<lambda>t. timeNow - t \<le> 30 * second) (rj_dropCounter r)\<rparr>;
               r = r\<lparr>rj_dropCounter := rj_dropCounter r @ [timeNow]\<rparr>
           in if length (rj_dropCounter r) > 50 then (Inr (Some (ERejected tun_ErrDrop)), r)
              else (returnErr, r))
      else if rj_Method r = RuleActionRejectMethodDrop then (Inr (Some (ERejected tun_ErrDrop)), r)
      else if rj_Method r = RuleActionRejectMethodReply then (Inr None, r)
      else (Inl (GoPanic [ArgS ''unknown reject method: '', ArgS (rj_Method r)]), r))"

section \<open>Predefined responses\<close>

definition rewriteRecords :: "RR list \<Rightarrow> Question \<Rightarrow> RR list" where
  "rewriteRecords records question =
     map (\<lambda>it.
       if has_prefix (rr_Name it) ''*'' then
         (if has_suffix (q_Name question) (drop 1 (rr_Name it)) then it\<lparr>rr_Name := q_Name question\<rparr>
          else it)
       else it) records"

definition RuleActionPredefined_Response :: "PredefinedAction \<Rightarrow> Msg \<Rightarrow> Msg res" where
  "RuleActionPredefined_Response r request =
     (case msg_Question request of
        [] \<Rightarrow> Inl (GoPanic [ArgS ''index out of range [0] with length 0''])
      | question # _ \<Rightarrow> Inr (Msg_zero
          \<lparr>msg_Id := msg_Id request,
           msg_Response := True,
           msg_Authoritative := True,
           msg_RecursionDesired := True,
           msg_RecursionAvailable := True,
           msg_Rcode := pd_Rcode r,
           msg_Question := msg_Question request,
           msg_Answer := rewriteRecords (pd_Answer r) question,
           msg_Ns := rewriteRecords (pd_Ns r) question,
           msg_Extra := rewriteRecords (pd_Extra r) question\<rparr>))"

section \<open>Descriptions\<close>

definition NetworkStrategy_String :: "'h deps \<Rightarrow> u8 \<Rightarrow> string" where
  "NetworkStrategy_String d s =
     (if s = 0 then ''default'' else if s = 1 then ''fallback'' else if s = 2 then ''hybrid''
      else F_ToString d [ArgI (uint s)])"

definition RouteOptions_Descriptions :: "'h deps \<Rightarrow> RouteOptions \<Rightarrow> string list" where
  "RouteOptions_Descriptions d r =
     (if M_IsValid d (ro_OverrideAddress r)
      then [F_ToString d [ArgS ''override-address='', ArgS (M_AddrString d (ro_OverrideAddress r))]] else []) @
     (if ro_OverridePort r > 0
      then [F_ToString d [ArgS ''override-port='', ArgI (uint (ro_OverridePort r))]] else []) @
     (case ro_NetworkStrategy r of None \<Rightarrow> []
      | Some s \<Rightarrow> [F_ToString d [ArgS ''network-strategy='', ArgS (NetworkStrategy_String d s)]]) @
     (if ro_NetworkType r \<noteq> []
      then [F_ToString d [ArgS ''network-type='',
              ArgS (strings_Join (map (InterfaceType_String d) (ro_NetworkType r)) '','')]] else []) @
     (if ro_FallbackNetworkType r \<noteq> []
      then [F_ToString d [ArgS (''fallback-network-type='' @
              strings_Join (map (InterfaceType_String d) (ro_NetworkType r)) '','')]] else []) @
     (if ro_FallbackDelay r > 0
      then [F_ToString d [ArgS ''fallback-delay='', ArgS (time_Duration_String d (ro_FallbackDelay r))]] else []) @
     (if ro_UDPDisableDomainUnmapping r then [''udp-disable-domain-unmapping''] else []) @
     (if ro_UDPConnect r then [''udp-connect''] else []) @
     (if ro_UDPTimeout r > 0 then [''udp-timeout''] else []) @
     (if ro_TLSFragment r then [''tls-fragment''] else []) @
     (if ro_TLSFragmentFallbackDelay r > 0
      then [F_ToString d [ArgS ''tls-fragment-fallback-delay='',
              ArgS (time_Duration_String d (ro_TLSFragmentFallbackDelay r))]] else []) @
     (if ro_TLSRecordFragment r then [''tls-record-fragment''] else [])"

text \<open>The options of a DNS action, with the separator that the action's printer uses.\<close>

definition dns_option_texts ::
  "'h deps \<Rightarrow> char \<Rightarrow> bool \<Rightarrow> u32 option \<Rightarrow> Prefix \<Rightarrow> string list" where
  "dns_option_texts d c disableCache rewriteTTL clientSubnet =
     (if disableCache then [''disable'' @ c # ''cache''] else []) @
     (case rewriteTTL of None \<Rightarrow> []
      | Some ttl \<Rightarrow> [F_ToString d [ArgS (''rewrite'' @ c # ''ttl=''), ArgI (uint ttl)]]) @
     (if Prefix_IsValid clientSubnet
      then [F_ToString d [ArgS (''client'' @ c # ''subnet=''), ArgS (netip_Prefix_String d clientSubnet)]]
      else [])"

definition RuleActionResolve_String :: "'h deps \<Rightarrow> ResolveAction \<Rightarrow> string res" where
  "RuleActionResolve_String d r =
     res_bind (if rs_Strategy r \<noteq> DomainStrategyAsIS
               then res_bind (DomainStrategy_String (rs_Strategy r)) (\<lambda>s. Inr [F_ToString d [ArgS s]])
               else Inr [])
       (\<lambda>strategy.
        let options = (if rs_Server r \<noteq> [] then [rs_Server r] else []) @ strategy @
              dns_option_texts d (CHR ''_'') (rs_DisableCache r) (rs_RewriteTTL r) (rs_ClientSubnet r)
        in if options = [] then Inr ''resolve''
           else Inr (F_ToString d [ArgS ''resolve('', ArgS (strings_Join options '',''), ArgS '')'']))"

definition RuleActionSniff_String :: "'h deps \<Rightarrow> SniffAction \<Rightarrow> string" where
  "RuleActionSniff_String d r =
     (let names = strings_Join (sn_SnifferNames r) '','' in
      if sn_SnifferNames r = [] \<and> sn_Timeout r = 0 then ''sniff''
      else if sn_SnifferNames r \<noteq> [] \<and> sn_Timeout r = 0
      then F_ToString d [ArgS ''sniff('', ArgS names, ArgS '')'']
      else if sn_SnifferNames r = [] \<and> sn_Timeout r > 0
      then F_ToString d [ArgS ''sniff('', ArgS (time_Duration_String d (sn_Timeout r)), ArgS '')'']
      else F_ToString d [ArgS ''sniff('', ArgS names, ArgS '','',
             ArgS (time_Duration_String d (sn_Timeout r)), ArgS '')''])"

text \<open>\<open>rr_text\<close> is \<^verbatim>\<open>dns.RR.String\<close>.\<close>

fun RuleAction_String :: "'h deps \<Rightarrow> (RR \<Rightarrow> string) \<Rightarrow> 'h RuleAction \<Rightarrow> string res" where
  "RuleAction_String d rr_text (RuleActionRoute outbound r) =
     Inr (F_ToString d [ArgS ''route('',
       ArgS (strings_Join (outbound # RouteOptions_Descriptions d r) '',''), ArgS '')''])"
| "RuleAction_String d rr_text (RuleActionRouteOptions r) =
     Inr (F_ToString d [ArgS ''route-options('',
       ArgS (strings_Join (RouteOptions_Descriptions d r) '',''), ArgS '')''])"
| "RuleAction_String d rr_text (RuleActionDNSRoute server r) =
     Inr (F_ToString d [ArgS ''route('', ArgS (strings_Join (server #
       dns_option_texts d (CHR ''-'') (dn_DisableCache r) (dn_RewriteTTL r) (dn_ClientSubnet r)) '',''),
       ArgS '')''])"
| "RuleAction_String d rr_text (RuleActionDNSRouteOptions r) =
     Inr (F_ToString d [ArgS ''route-options('', ArgS (strings_Join
       (dns_option_texts d (CHR ''-'') (dn_DisableCache r) (dn_RewriteTTL r) (dn_ClientSubnet r)) '',''),
       ArgS '')''])"
| "RuleAction_String d rr_text (RuleActionDirect dialer description) = Inr (''direct'' @ description)"
| "RuleAction_String d rr_text (RuleActionReject r) =
     (if rj_Method r = RuleActionRejectMethodDefault then Inr ''reject''
      else Inr (F_ToString d [ArgS ''reject('', ArgS (rj_Method r), ArgS '')'']))"
| "RuleAction_String d rr_text RuleActionHijackDNS = Inr ''hijack-dns''"
| "RuleAction_String d rr_text (RuleActionSniff r) = Inr (RuleActionSniff_String d r)"
| "RuleAction_String d rr_text (RuleActionResolve r) = RuleActionResolve_String d r"
| "RuleAction_String d rr_text (RuleActionPredefined r) =
     Inr (F_ToString d [ArgS ''predefined('', ArgS (strings_Join (mDNS_RcodeToString d (pd_Rcode r) #
       map rr_text (pd_Answer r) @ map rr_text (pd_Ns r) @ map rr_text (pd_Extra r)) '',''), ArgS '')''])"

section \<open>Lemmas\<close>

text \<open>The calls of \<^verbatim>\<open>Error\<close> at the times \<open>ts\<close>, in order.\<close>

fun reject_run :: "int list \<Rightarrow> RejectAction \<Rightarrow> RejectAction" where
  "reject_run [] r = r"
| "reject_run (t # ts) r = reject_run ts (snd (RuleActionReject_Error t r))"

lemma reject_run_append: "reject_run (ts @ us) r = reject_run us (reject_run ts r)"
  by (induction ts arbitrary: r) simp_all

lemma reject_counter_step:
  assumes "rj_Method r = RuleActionRejectMethodDefault" "\<not> rj_NoDrop r"
  shows "snd (RuleActionReject_Error t r) =
    r\<lparr>rj_dropCounter := filter (\<lambda>u. t - u \<le> 30 * second) (rj_dropCounter r) @ [t]\<rparr>"
  using assms by (simp add: RuleActionReject_Error_def Let_def)

text \<open>While the clock does not run backwards, the counter holds the calls of the last 30 seconds.\<close>

lemma reject_run_counter:
  assumes r: "rj_Method r = RuleActionRejectMethodDefault" "\<not> rj_NoDrop r" "rj_dropCounter r = []"
    and "sorted (ts @ [t])"
  shows "reject_run (ts @ [t]) r =
    r\<lparr>rj_dropCounter := filter (\<lambda>u. t - u \<le> 30 * second) (ts @ [t])\<rparr>"
  using assms(4)
proof (induction ts arbitrary: t rule: rev_induct)
  case Nil
  then show ?case using r by (simp add: reject_counter_step second_def)
next
  case (snoc s ts)
  from snoc.prems have "sorted (ts @ [s])" "s \<le> t" by (simp_all add: sorted_append)
  with snoc.IH have IH: "reject_run (ts @ [s]) r =
      r\<lparr>rj_dropCounter := filter (\<lambda>u. s - u \<le> 30 * second) (ts @ [s])\<rparr>" by simp
  have "filter (\<lambda>u. t - u \<le> 30 * second) (filter (\<lambda>u. s - u \<le> 30 * second) (ts @ [s]))
      = filter (\<lambda>u. t - u \<le> 30 * second) (ts @ [s])"
    using \<open>s \<le> t\<close> unfolding filter_filter by (intro filter_cong) auto
  then show ?case
    unfolding reject_run_append [of "ts @ [s]"] IH
    using r by (simp add: reject_counter_step second_def)
qed

lemma build_loop_append:
  "build_loop (xs @ ys) r = res_bind (build_loop xs r) (build_loop ys)"
  by (induction xs arbitrary: r) (auto split: sum.split)

end
