(* ===== verification/Rules.thy ===== *)
theory Rules
  imports RuleSets RuleAction
begin

text \<open>
  Route rules: their options (\<^verbatim>\<open>option/rule.go\<close>) and the rules themselves
  (\<^verbatim>\<open>route/rule/rule_default.go\<close>). The statements of \<^verbatim>\<open>NewDefaultRule\<close> are grouped, in order, into
  the lists of stages that it runs. The report of a deprecated option is not modelled.
\<close>

section \<open>Options\<close>

record RawDefaultRule =
  dr_Inbound :: "string list"
  dr_IPVersion :: int
  dr_Network :: "string list"
  dr_AuthUser :: "string list"
  dr_Protocol :: "string list"
  dr_Client :: "string list"
  dr_Domain :: "string list"
  dr_DomainSuffix :: "string list"
  dr_DomainKeyword :: "string list"
  dr_DomainRegex :: "string list"
  dr_Geosite :: "string list"
  dr_SourceGeoIP :: "string list"
  dr_GeoIP :: "string list"
  dr_SourceIPCIDR :: "string list"
  dr_SourceIPIsPrivate :: bool
  dr_IPCIDR :: "string list"
  dr_IPIsPrivate :: bool
  dr_SourcePort :: "u16 list"
  dr_SourcePortRange :: "string list"
  dr_Port :: "u16 list"
  dr_PortRange :: "string list"
  dr_ProcessName :: "string list"
  dr_ProcessPath :: "string list"
  dr_ProcessPathRegex :: "string list"
  dr_PackageName :: "string list"
  dr_User :: "string list"
  dr_UserID :: "int list"
  dr_ClashMode :: string
  dr_NetworkType :: "u8 list"
  dr_NetworkIsExpensive :: bool
  dr_NetworkIsConstrained :: bool
  dr_WIFISSID :: "string list"
  dr_WIFIBSSID :: "string list"
  dr_InterfaceAddress :: "(string \<times> Prefix option list) list option"
  dr_NetworkInterfaceAddress :: "(u8 \<times> Prefix option list) list option"
  dr_DefaultInterfaceAddress :: "Prefix option list"
  dr_PreferredBy :: "string list"
  dr_RuleSet :: "string list"
  dr_RuleSetIPCIDRMatchSource :: bool
  dr_Invert :: bool
  dr_Deprecated_RulesetIPCIDRMatchSource :: bool

definition RawDefaultRule_zero :: RawDefaultRule where
  "RawDefaultRule_zero =
     \<lparr>dr_Inbound = [], dr_IPVersion = 0, dr_Network = [],
      dr_AuthUser = [], dr_Protocol = [], dr_Client = [],
      dr_Domain = [], dr_DomainSuffix = [], dr_DomainKeyword = [],
      dr_DomainRegex = [], dr_Geosite = [], dr_SourceGeoIP = [],
      dr_GeoIP = [], dr_SourceIPCIDR = [], dr_SourceIPIsPrivate = False,
      dr_IPCIDR = [], dr_IPIsPrivate = False, dr_SourcePort = [],
      dr_SourcePortRange = [], dr_Port = [], dr_PortRange = [],
      dr_ProcessName = [], dr_ProcessPath = [], dr_ProcessPathRegex = [],
      dr_PackageName = [], dr_User = [], dr_UserID = [],
      dr_ClashMode = [], dr_NetworkType = [], dr_NetworkIsExpensive = False,
      dr_NetworkIsConstrained = False, dr_WIFISSID = [], dr_WIFIBSSID = [],
      dr_InterfaceAddress = None, dr_NetworkInterfaceAddress = None, dr_DefaultInterfaceAddress = [],
      dr_PreferredBy = [], dr_RuleSet = [], dr_RuleSetIPCIDRMatchSource = False,
      dr_Invert = False, dr_Deprecated_RulesetIPCIDRMatchSource = False\<rparr>"

definition RouteActionOptions_zero :: RouteActionOptions where
  "RouteActionOptions_zero =
     RawRouteOptionsActionOptions.extend RawRouteOptionsActionOptions_zero
       (RouteActionOptions.fields [])"

definition DialerOptions_zero :: DialerOptions where
  "DialerOptions_zero =
     \<lparr>do_Detour = [], do_BindInterface = [], do_Inet4BindAddress = None, do_Inet6BindAddress = None,
      do_ProtectPath = [], do_RoutingMark = 0, do_ReuseAddr = False, do_NetNs = [],
      do_ConnectTimeout = 0, do_TCPFastOpen = False, do_TCPMultiPath = False, do_UDPFragment = None,
      do_UDPFragmentDefault = False, do_DomainResolver = None, do_NetworkStrategy = None,
      do_NetworkType = [], do_FallbackNetworkType = [], do_FallbackDelay = 0, do_DomainStrategy = 0\<rparr>"

definition RuleActionOptions_zero :: RuleActionOptions where
  "RuleActionOptions_zero =
     \<lparr>rua_Action = [], rua_RouteOptions = RouteActionOptions_zero,
      rua_RouteOptionsOptions = RawRouteOptionsActionOptions_zero, rua_DirectOptions = DialerOptions_zero,
      rua_RejectOptions = \<lparr>rjo_Method = [], rjo_NoDrop = False\<rparr>,
      rua_SniffOptions = \<lparr>sno_Sniffer = [], sno_Timeout = 0\<rparr>,
      rua_ResolveOptions = \<lparr>rso_Server = [], rso_Strategy = 0, rso_DisableCache = False,
                            rso_RewriteTTL = None, rso_ClientSubnet = None\<rparr>\<rparr>"

text \<open>\<^verbatim>\<open>option.Rule\<close>: the type name, the default options with their action, and the mode, rules,
  invert and action fields of the logical options.\<close>

datatype RuleOptions =
  RuleOptions
    (ruo_Type: string)
    (ruo_DefaultOptions: RawDefaultRule)
    (ruo_DefaultAction: RuleActionOptions)
    (ruo_Mode: string)
    (ruo_Rules: "RuleOptions list")
    (ruo_Invert: bool)
    (ruo_LogicalAction: RuleActionOptions)

definition DefaultRuleOptions_IsValid :: "RawDefaultRule \<Rightarrow> RuleActionOptions \<Rightarrow> bool" where
  "DefaultRuleOptions_IsValid r a \<longleftrightarrow>
     \<not> (r = RawDefaultRule_zero\<lparr>dr_Invert := dr_Invert r\<rparr> \<and> a = RuleActionOptions_zero)"

fun RuleOptions_IsValid :: "RuleOptions \<Rightarrow> bool res" where
  "RuleOptions_IsValid (RuleOptions type def act mode rules neg lact) =
     (if type = RuleTypeDefault then Inr (DefaultRuleOptions_IsValid def act)
      else if type = RuleTypeLogical then
        (if length rules > 0 then all_res RuleOptions_IsValid rules else Inr False)
      else Inl (GoPanic [ArgS (''unknown rule type: '' @ type)]))"

definition LogicalRuleOptions_IsValid :: "RuleOptions list \<Rightarrow> bool res" where
  "LogicalRuleOptions_IsValid rules =
     (if length rules > 0 then all_res RuleOptions_IsValid rules else Inr False)"

section \<open>Rules\<close>

type_synonym 'h item_rule = "('h Item, 'h RuleAction) abstractDefaultRule"

datatype 'h Rule =
    DefaultRule "'h item_rule"
  | LogicalRule "'h Rule list" string bool "'h RuleAction option"

definition plain_res :: "'h RuleItem res \<Rightarrow> 'h Item res" where
  "plain_res r = res_bind r (\<lambda>item. Inr (PlainItem item))"

text \<open>A statement that only rejects an option.\<close>

definition opt_fail :: "bool \<Rightarrow> string \<Rightarrow> 'r \<Rightarrow> 'r res" where
  "opt_fail c msg r = (if c then Inl (ENew [ArgS msg]) else Inr r)"

definition rule_inbound_stages ::
  "RawDefaultRule \<Rightarrow>
     ('h item_rule \<Rightarrow> 'h item_rule res) list" where
  "rule_inbound_stages opts =
    [opt_item (dr_Inbound opts \<noteq> []) add_items
       (PlainItem (NewInboundRule (dr_Inbound opts))),
     opt_res (dr_IPVersion opts > 0) add_items
       (if dr_IPVersion opts = 4 \<or> dr_IPVersion opts = 6
        then Inr (PlainItem (NewIPVersionItem (dr_IPVersion opts = 6)))
        else Inl (ENew [ArgS ''invalid ip version: '', ArgI (dr_IPVersion opts)])),
     opt_item (dr_Network opts \<noteq> []) add_items
       (PlainItem (NewNetworkItem (dr_Network opts))),
     opt_item (dr_AuthUser opts \<noteq> []) add_items
       (PlainItem (NewAuthUserItem (dr_AuthUser opts))),
     opt_item (dr_Protocol opts \<noteq> []) add_items
       (PlainItem (NewProtocolItem (dr_Protocol opts))),
     opt_item (dr_Client opts \<noteq> []) add_items
       (PlainItem (NewClientItem (dr_Client opts)))]"

definition rule_domain_stages ::
  "'h deps \<Rightarrow> RawDefaultRule \<Rightarrow>
     ('h item_rule \<Rightarrow> 'h item_rule res) list" where
  "rule_domain_stages d opts =
    [opt_res (dr_Domain opts \<noteq> [] \<or> dr_DomainSuffix opts \<noteq> []) add_destinationAddressItems
       (plain_res (NewDomainItem d (dr_Domain opts) (dr_DomainSuffix opts))),
     opt_item (dr_DomainKeyword opts \<noteq> []) add_destinationAddressItems
       (PlainItem (NewDomainKeywordItem (dr_DomainKeyword opts))),
     opt_res (dr_DomainRegex opts \<noteq> []) add_destinationAddressItems
       (plain_res (NewDomainRegexItem d (dr_DomainRegex opts))),
     opt_fail (dr_Geosite opts \<noteq> []) ''geosite database is deprecated in anchor 1.8.0 and removed in anchor 1.12.0'',
     opt_fail (dr_SourceGeoIP opts \<noteq> []) ''geoip database is deprecated in anchor 1.8.0 and removed in anchor 1.12.0'',
     opt_fail (dr_GeoIP opts \<noteq> []) ''geoip database is deprecated in anchor 1.8.0 and removed in anchor 1.12.0'']"

definition rule_ip_stages ::
  "'h deps \<Rightarrow> RawDefaultRule \<Rightarrow>
     ('h item_rule \<Rightarrow> 'h item_rule res) list" where
  "rule_ip_stages d opts =
    [opt_res (dr_SourceIPCIDR opts \<noteq> []) add_sourceAddressItems
       (plain_res (res_cause [ArgS ''source_ip_cidr''] (NewIPCIDRItem d True (dr_SourceIPCIDR opts)))),
     opt_item (dr_SourceIPIsPrivate opts) add_sourceAddressItems
       (PlainItem (NewIPIsPrivateItem True)),
     opt_res (dr_IPCIDR opts \<noteq> []) add_destinationIPCIDRItems
       (plain_res (res_cause [ArgS ''ipcidr''] (NewIPCIDRItem d False (dr_IPCIDR opts)))),
     opt_item (dr_IPIsPrivate opts) add_destinationIPCIDRItems
       (PlainItem (NewIPIsPrivateItem False))]"

definition rule_port_stages ::
  "RawDefaultRule \<Rightarrow>
     ('h item_rule \<Rightarrow> 'h item_rule res) list" where
  "rule_port_stages opts =
    [opt_item (dr_SourcePort opts \<noteq> []) add_sourcePortItems
       (PlainItem (NewPortItem True (dr_SourcePort opts))),
     opt_res (dr_SourcePortRange opts \<noteq> []) add_sourcePortItems
       (plain_res (res_cause [ArgS ''source_port_range''] (NewPortRangeItem True (dr_SourcePortRange opts)))),
     opt_item (dr_Port opts \<noteq> []) add_destinationPortItems
       (PlainItem (NewPortItem False (dr_Port opts))),
     opt_res (dr_PortRange opts \<noteq> []) add_destinationPortItems
       (plain_res (res_cause [ArgS ''port_range''] (NewPortRangeItem False (dr_PortRange opts))))]"

definition rule_process_stages ::
  "'h deps \<Rightarrow> RawDefaultRule \<Rightarrow>
     ('h item_rule \<Rightarrow> 'h item_rule res) list" where
  "rule_process_stages d opts =
    [opt_item (dr_ProcessName opts \<noteq> []) add_items
       (PlainItem (NewProcessItem (dr_ProcessName opts))),
     opt_item (dr_ProcessPath opts \<noteq> []) add_items
       (PlainItem (NewProcessPathItem (dr_ProcessPath opts))),
     opt_res (dr_ProcessPathRegex opts \<noteq> []) add_items
       (plain_res (res_cause [ArgS ''process_path_regex''] (NewProcessPathRegexItem d (dr_ProcessPathRegex opts)))),
     opt_item (dr_PackageName opts \<noteq> []) add_items
       (PlainItem (NewPackageNameItem (dr_PackageName opts))),
     opt_item (dr_User opts \<noteq> []) add_items
       (PlainItem (NewUserItem (dr_User opts))),
     opt_item (dr_UserID opts \<noteq> []) add_items
       (PlainItem (NewUserIDItem (dr_UserID opts))),
     opt_item (dr_ClashMode opts \<noteq> []) add_items
       (PlainItem (NewClashModeItem (dr_ClashMode opts)))]"

definition rule_network_stages ::
  "'h deps \<Rightarrow> RawDefaultRule \<Rightarrow>
     ('h item_rule \<Rightarrow> 'h item_rule res) list" where
  "rule_network_stages d opts =
    [opt_item (dr_NetworkType opts \<noteq> []) add_items
       (PlainItem (NewNetworkTypeItem (dr_NetworkType opts))),
     opt_item (dr_NetworkIsExpensive opts) add_items
       (PlainItem (NetworkIsExpensiveItem)),
     opt_item (dr_NetworkIsConstrained opts) add_items
       (PlainItem (NetworkIsConstrainedItem)),
     opt_item (dr_WIFISSID opts \<noteq> []) add_items
       (PlainItem (NewWIFISSIDItem (dr_WIFISSID opts))),
     opt_item (dr_WIFIBSSID opts \<noteq> []) add_items
       (PlainItem (NewWIFIBSSIDItem (dr_WIFIBSSID opts))),
     opt_item (dr_InterfaceAddress opts \<noteq> None \<and> the (dr_InterfaceAddress opts) \<noteq> []) add_items
       (PlainItem (NewInterfaceAddressItem d (the (dr_InterfaceAddress opts)))),
     opt_item (dr_NetworkInterfaceAddress opts \<noteq> None \<and> the (dr_NetworkInterfaceAddress opts) \<noteq> []) add_items
       (PlainItem (NewNetworkInterfaceAddressItem d (the (dr_NetworkInterfaceAddress opts)))),
     opt_item (dr_DefaultInterfaceAddress opts \<noteq> []) add_items
       (PlainItem (NewDefaultInterfaceAddressItem d (dr_DefaultInterfaceAddress opts))),
     opt_item (dr_PreferredBy opts \<noteq> []) add_items
       (PlainItem (NewPreferredByItem (dr_PreferredBy opts))),
     opt_item (dr_RuleSet opts \<noteq> []) add_items
       (NewRuleSetItem (dr_RuleSet opts)
         (dr_RuleSetIPCIDRMatchSource opts \<or> dr_Deprecated_RulesetIPCIDRMatchSource opts) False)]"

definition NewDefaultRule ::
  "'h deps \<Rightarrow> (DialerOptions \<Rightarrow> 'h res) \<Rightarrow> RawDefaultRule \<Rightarrow> RuleActionOptions \<Rightarrow> 'h item_rule res" where
  "NewDefaultRule d dialer_New opts act =
     res_bind (res_cause [ArgS ''action''] (NewRuleAction d dialer_New act)) (\<lambda>action.
       run_stages (rule_inbound_stages opts @ rule_domain_stages d opts @ rule_ip_stages d opts @
           rule_port_stages opts @ rule_process_stages d opts @ rule_network_stages d opts)
         (empty_rule (dr_Invert opts) action))"

text \<open>\<open>check\<close>: whether an outbound is required, which it is not in the sub-rules of a logical rule.\<close>

definition missing_outbound :: "RuleActionOptions \<Rightarrow> bool \<Rightarrow> bool" where
  "missing_outbound act check \<longleftrightarrow>
     (rua_Action act = [] \<or> rua_Action act = RuleActionTypeRoute) \<and>
     rao_Outbound (rua_RouteOptions act) = [] \<and> check"

fun NewRule ::
  "'h deps \<Rightarrow> (DialerOptions \<Rightarrow> 'h res) \<Rightarrow> bool \<Rightarrow> RuleOptions \<Rightarrow> 'h Rule res" where
  "NewRule d dialer_New check (RuleOptions type def act mode rules neg lact) =
     (if type = [] \<or> type = RuleTypeDefault then
        (if \<not> DefaultRuleOptions_IsValid def act then Inl (ENew [ArgS ''missing conditions''])
         else if missing_outbound act check then Inl (ENew [ArgS ''missing outbound field''])
         else res_bind (NewDefaultRule d dialer_New def act) (\<lambda>r. Inr (DefaultRule r)))
      else if type = RuleTypeLogical then
        res_bind (LogicalRuleOptions_IsValid rules) (\<lambda>valid.
          if \<not> valid then Inl (ENew [ArgS ''missing conditions''])
          else if missing_outbound lact check then Inl (ENew [ArgS ''missing outbound field''])
          else
            res_bind (res_cause [ArgS ''action''] (NewRuleAction d dialer_New lact)) (\<lambda>action.
            res_bind (logical_mode mode) (\<lambda>mode.
            res_bind (sub_rules sub_rule_text (NewRule d dialer_New False) 0 rules) (\<lambda>rs.
              Inr (LogicalRule rs mode neg action)))))
      else Inl (ENew [ArgS ''unknown rule type: '', ArgS type]))"

fun Rule_Match :: "'h deps \<Rightarrow> env \<Rightarrow> 'h rule_sets \<Rightarrow> 'h Rule matcher" where
  "Rule_Match d e sets (DefaultRule r) md =
     abstractDefaultRule_Match is_RuleSetItem (Item_Match d e sets) r md"
| "Rule_Match d e sets (LogicalRule rules mode neg act) md =
     abstractLogicalRule_Match (Rule_Match d e sets) rules mode neg md"

fun Rule_Action :: "'h Rule \<Rightarrow> 'h RuleAction option" where
  "Rule_Action (DefaultRule r) = action r"
| "Rule_Action (LogicalRule rules mode neg act) = act"

fun Rule_set_Action :: "'h RuleAction \<Rightarrow> 'h Rule \<Rightarrow> 'h Rule" where
  "Rule_set_Action a (DefaultRule r) = DefaultRule (r\<lparr>action := Some a\<rparr>)"
| "Rule_set_Action a (LogicalRule rules mode neg act) = LogicalRule rules mode neg (Some a)"

text \<open>\<^verbatim>\<open>Start\<close> of a logical rule starts its sub-rules until one fails.\<close>

fun Rule_Start :: "env \<Rightarrow> 'h Rule \<Rightarrow> 'h rule_sets \<Rightarrow> 'h Rule res \<times> 'h rule_sets"
  and Rules_Start :: "env \<Rightarrow> 'h Rule list \<Rightarrow> 'h rule_sets \<Rightarrow> 'h Rule list res \<times> 'h rule_sets" where
  "Rule_Start e (DefaultRule r) sets =
     (case abstractDefaultRule_Start (Item_Start e) r sets of
        (Inl err, sets) \<Rightarrow> (Inl err, sets)
      | (Inr r, sets) \<Rightarrow> (Inr (DefaultRule r), sets))"
| "Rule_Start e (LogicalRule rules mode neg act) sets =
     (case Rules_Start e rules sets of
        (Inl err, sets) \<Rightarrow> (Inl err, sets)
      | (Inr rules, sets) \<Rightarrow> (Inr (LogicalRule rules mode neg act), sets))"
| "Rules_Start e [] sets = (Inr [], sets)"
| "Rules_Start e (r # rs) sets =
     (case Rule_Start e r sets of
        (Inl err, sets) \<Rightarrow> (Inl err, sets)
      | (Inr r, sets) \<Rightarrow>
          (case Rules_Start e rs sets of
             (Inl err, sets) \<Rightarrow> (Inl err, sets)
           | (Inr rs, sets) \<Rightarrow> (Inr (r # rs), sets)))"

section \<open>Lemmas\<close>

lemma opt_fail_keeps [stage_intros]: "stage_keeps P (opt_fail c msg)"
  by (simp add: stage_keeps_def opt_fail_def)

lemmas rule_stage_defs =
  rule_inbound_stages_def rule_domain_stages_def rule_ip_stages_def rule_port_stages_def
  rule_process_stages_def rule_network_stages_def

lemma NewDefaultRule_keeps:
  assumes "NewDefaultRule d dialer_New opts act = Inr r" "\<And>a. P (empty_rule (dr_Invert opts) a)"
    and "\<And>item r. P r \<Longrightarrow> P (add_items item r)"
    and "\<And>item r. P r \<Longrightarrow> P (add_sourceAddressItems item r)"
    and "\<And>item r. P r \<Longrightarrow> P (add_sourcePortItems item r)"
    and "\<And>item r. P r \<Longrightarrow> P (add_destinationAddressItems item r)"
    and "\<And>item r. P r \<Longrightarrow> P (add_destinationIPCIDRItems item r)"
    and "\<And>item r. P r \<Longrightarrow> P (add_destinationPortItems item r)"
  shows "P r"
proof -
  have "\<forall>stage\<in>set (rule_inbound_stages opts). stage_keeps P stage"
    "\<forall>stage\<in>set (rule_domain_stages d opts). stage_keeps P stage"
    "\<forall>stage\<in>set (rule_ip_stages d opts). stage_keeps P stage"
    "\<forall>stage\<in>set (rule_port_stages opts). stage_keeps P stage"
    "\<forall>stage\<in>set (rule_process_stages d opts). stage_keeps P stage"
    "\<forall>stage\<in>set (rule_network_stages d opts). stage_keeps P stage"
    using assms(3-8) unfolding rule_stage_defs by (simp_all add: stage_intros)
  moreover from assms(1) obtain a where "run_stages (rule_inbound_stages opts @ rule_domain_stages d opts @
      rule_ip_stages d opts @ rule_port_stages opts @ rule_process_stages d opts @ rule_network_stages d opts)
      (empty_rule (dr_Invert opts) a) = Inr r"
    by (auto simp: NewDefaultRule_def res_bind_Inr_iff)
  ultimately show ?thesis using assms(2) by (elim run_stages_keeps) auto
qed

lemma NewDefaultRule_wf: "NewDefaultRule d dialer_New opts act = Inr r \<Longrightarrow> rule_wf r"
  by (erule NewDefaultRule_keeps) simp_all

lemma Rule_Match_keeps: "ResetRuleCache (snd (Rule_Match d e sets r md)) = ResetRuleCache md"
proof (induction r arbitrary: md)
  case (DefaultRule r)
  show ?case by (simp add: item.default_keeps)
next
  case (LogicalRule rules mode neg act)
  then show ?case by (simp add: logical_keeps_on)
qed

interpretation rule: cache_frame "Rule_Match d e sets" for d e sets
  by unfold_locales (rule Rule_Match_keeps)

end
