(* ===== verification/Sniff.thy ===== *)
theory Sniff
  imports RuleAction
begin

text \<open>
  Protocol sniffing: the peek functions of \<^verbatim>\<open>common/sniff/sniff.go\<close> and the sniff action of the router,
  \<^verbatim>\<open>actionSniff\<close> in \<^verbatim>\<open>route/route.go\<close>. The sniffers themselves are an argument: each answers on
  the bytes seen so far and may write the metadata. A stream sniffer gets the buffers one after the other, as the
  \<^verbatim>\<open>io.MultiReader\<close> of the code gives them: a single read does not pass the end of a buffer. A connection is the list of the results
  that reading it gives until the deadline: an exhausted list is a deadline that has passed.
  Cancellation of the context is not modelled.
\<close>

section \<open>Connections and sniffers\<close>

type_synonym packet = "bytes \<times> Socksaddr"

record stream_conn =
  sc_deadlineError :: "goerr option"
  sc_reads :: "bytes res list"

record packet_conn =
  pc_reads :: "packet res list"

datatype input = NoConn | StreamConn stream_conn | PacketConn packet_conn

record sniff_deps =
  sd_stream :: "StreamSniffer \<Rightarrow> bytes list \<Rightarrow> InboundContext \<Rightarrow> goerr option \<times> InboundContext"
  sd_packet :: "PacketSniffer \<Rightarrow> bytes \<Rightarrow> InboundContext \<Rightarrow> goerr option \<times> InboundContext"
  M_IsDomainName :: "string \<Rightarrow> bool"

text \<open>\<^verbatim>\<open>errors.Is(err, sniff.ErrNeedMoreData)\<close> and \<^verbatim>\<open>errors.Is(err, context.DeadlineExceeded)\<close>.\<close>

fun is_NeedMoreData :: "goerr \<Rightarrow> bool" where
  "is_NeedMoreData ENeedMoreData = True"
| "is_NeedMoreData (ECause err args) = is_NeedMoreData err"
| "is_NeedMoreData (EExtend err args) = is_NeedMoreData err"
| "is_NeedMoreData (EErrors errs) = list_ex is_NeedMoreData errs"
| "is_NeedMoreData _ = False"

fun is_DeadlineExceeded :: "goerr \<Rightarrow> bool" where
  "is_DeadlineExceeded EDeadlineExceeded = True"
| "is_DeadlineExceeded (ECause err args) = is_DeadlineExceeded err"
| "is_DeadlineExceeded (EExtend err args) = is_DeadlineExceeded err"
| "is_DeadlineExceeded (EErrors errs) = list_ex is_DeadlineExceeded errs"
| "is_DeadlineExceeded _ = False"

section \<open>Peeking\<close>

definition Skip :: "InboundContext \<Rightarrow> bool" where
  "Skip md \<longleftrightarrow> sa_Port (md_Destination md) \<in> {25, 465, 587, 143, 993, 110, 995}"

text \<open>The loop over the sniffers on one content: \<open>None\<close> when one of them succeeds, else the errors
  of all of them.\<close>

fun run_sniffers ::
  "('s \<Rightarrow> 'c \<Rightarrow> InboundContext \<Rightarrow> goerr option \<times> InboundContext) \<Rightarrow> 's list \<Rightarrow> 'c \<Rightarrow> goerr list \<Rightarrow>
     InboundContext \<Rightarrow> goerr list option \<times> InboundContext" where
  "run_sniffers sniff [] content errs md = (Some errs, md)"
| "run_sniffers sniff (s # ss) content errs md =
     (case sniff s content md of
        (None, md) \<Rightarrow> (None, md)
      | (Some err, md) \<Rightarrow> run_sniffers sniff ss content (errs @ [err]) md)"

text \<open>\<^verbatim>\<open>E.Errors\<close> of the errors collected; of none it is nil.\<close>

definition E_Errors :: "goerr list \<Rightarrow> goerr option" where
  "E_Errors errs = (if errs = [] then None else Some (EErrors errs))"

definition PeekPacket ::
  "sniff_deps \<Rightarrow> PacketSniffer list \<Rightarrow> bytes \<Rightarrow> InboundContext \<Rightarrow> goerr option \<times> InboundContext" where
  "PeekPacket sd sniffers content md =
     (case run_sniffers (sd_packet sd) sniffers content [] md of
        (None, md) \<Rightarrow> (None, md)
      | (Some errs, md) \<Rightarrow> (E_Errors errs, md))"

text \<open>The loop of \<^verbatim>\<open>PeekStream\<close>: \<open>i\<close> counts the reads, \<open>sniffError\<close> is the error of the last round.
  The result: the error, the metadata, the content of the buffer, the reads left.\<close>

fun PeekStream_loop ::
  "sniff_deps \<Rightarrow> StreamSniffer list \<Rightarrow> bytes list \<Rightarrow> goerr option \<Rightarrow> nat \<Rightarrow> goerr option \<Rightarrow> bytes \<Rightarrow>
     bytes res list \<Rightarrow> InboundContext \<Rightarrow> goerr option \<times> InboundContext \<times> bytes \<times> bytes res list" where
  "PeekStream_loop sd sniffers pre deadlineErr i sniffError buffer [] md =
     (case deadlineErr of
        Some err \<Rightarrow> (Some (ECause err [ArgS ''set read deadline'']), md, buffer, [])
      | None \<Rightarrow>
          (if i > 0 then sniffError else Some (ECause EDeadlineExceeded [ArgS ''read payload'']),
           md, buffer, []))"
| "PeekStream_loop sd sniffers pre deadlineErr i sniffError buffer (r # rs) md =
     (case deadlineErr of
        Some err \<Rightarrow> (Some (ECause err [ArgS ''set read deadline'']), md, buffer, r # rs)
      | None \<Rightarrow>
          (case r of
             Inl err \<Rightarrow>
               (if i > 0 then sniffError else Some (ECause err [ArgS ''read payload'']), md, buffer, rs)
           | Inr payload \<Rightarrow>
               (case run_sniffers (sd_stream sd) sniffers (pre @ [buffer @ payload]) [] md of
                  (None, md) \<Rightarrow> (None, md, buffer @ payload, rs)
                | (Some errs, md) \<Rightarrow>
                    (case E_Errors errs of
                       None \<Rightarrow> (None, md, buffer @ payload, rs)
                     | Some err \<Rightarrow>
                         if \<not> is_NeedMoreData err then (Some err, md, buffer @ payload, rs)
                         else PeekStream_loop sd sniffers pre deadlineErr (Suc i) (Some err)
                                (buffer @ payload) rs md))))"

definition PeekStream ::
  "sniff_deps \<Rightarrow> StreamSniffer list \<Rightarrow> bytes list \<Rightarrow> stream_conn \<Rightarrow> InboundContext \<Rightarrow>
     goerr option \<times> InboundContext \<times> bytes \<times> stream_conn" where
  "PeekStream sd sniffers buffers conn md =
     (case PeekStream_loop sd sniffers buffers (sc_deadlineError conn) 0 None [] (sc_reads conn) md of
        (err, md, buffer, reads) \<Rightarrow> (err, md, buffer, conn\<lparr>sc_reads := reads\<rparr>))"

section \<open>The sniff action\<close>

definition default_stream_sniffers :: "StreamSniffer list" where
  "default_stream_sniffers = [TLSClientHello, HTTPHost, StreamDomainNameQuery, BitTorrent, SSH, RDP]"

definition default_packet_sniffers :: "PacketSniffer list" where
  "default_packet_sniffers =
     [DomainNameQuery, QUICClientHello, STUNMessage, UTP, UDPTracker, DTLSRecord, NTP]"

definition override_destination :: "sniff_deps \<Rightarrow> SniffAction \<Rightarrow> InboundContext \<Rightarrow> InboundContext" where
  "override_destination sd act md =
     (if sn_OverrideDestination act \<and> M_IsDomainName sd (md_Domain md)
      then md\<lparr>md_Destination := \<lparr>sa_Addr = AddrZero, sa_Port = sa_Port (md_Destination md),
                                sa_Fqdn = md_Domain md\<rparr>\<rparr>
      else md)"

text \<open>The guard against repeating a sniff that has failed.\<close>

definition sniff_failed_before :: "SniffAction \<Rightarrow> InboundContext \<Rightarrow> bool" where
  "sniff_failed_before act md \<longleftrightarrow>
     md_SnifferNames md = sn_SnifferNames act \<and>
     (case md_SniffError md of None \<Rightarrow> False | Some err \<Rightarrow> \<not> is_NeedMoreData err)"

definition quicMoreData :: "SniffAction \<Rightarrow> InboundContext \<Rightarrow> bool" where
  "quicMoreData act md \<longleftrightarrow>
     md_SnifferNames md = sn_SnifferNames act \<and>
     (case md_SniffError md of None \<Rightarrow> False | Some err \<Rightarrow> is_NeedMoreData err)"

text \<open>One packet: the sniffers that are run on it, and what is recorded in the metadata.\<close>

definition sniff_packet ::
  "sniff_deps \<Rightarrow> SniffAction \<Rightarrow> PacketSniffer list \<Rightarrow> bytes \<Rightarrow> InboundContext \<Rightarrow> goerr option \<times> InboundContext" where
  "sniff_packet sd act packetSniffers content md =
     (case PeekPacket sd (if quicMoreData act md then [QUICClientHello] else packetSniffers) content md of
        (err, md) \<Rightarrow> (err, md\<lparr>md_SnifferNames := sn_SnifferNames act, md_SniffError := err\<rparr>))"

text \<open>The loop over the packets that earlier actions have buffered: \<open>None\<close> when all of them need
  more data.\<close>

fun sniff_buffered ::
  "sniff_deps \<Rightarrow> SniffAction \<Rightarrow> PacketSniffer list \<Rightarrow> packet list \<Rightarrow> InboundContext \<Rightarrow>
     goerr option option \<times> InboundContext" where
  "sniff_buffered sd act ps [] md = (None, md)"
| "sniff_buffered sd act ps (p # rest) md =
     (case sniff_packet sd act ps (fst p) md of
        (Some err, md) \<Rightarrow> if is_NeedMoreData err then sniff_buffered sd act ps rest md else (Some (Some err), md)
      | (None, md) \<Rightarrow> (Some None, md))"

text \<open>The loop that reads packets. The result: the fatal error or the last error, the packets
  buffered, the metadata, the reads left.\<close>

fun sniff_read ::
  "sniff_deps \<Rightarrow> SniffAction \<Rightarrow> PacketSniffer list \<Rightarrow> packet list \<Rightarrow> packet res list \<Rightarrow> InboundContext \<Rightarrow>
     goerr option res \<times> packet list \<times> InboundContext \<times> packet res list" where
  "sniff_read sd act ps packetBuffers [] md = (Inr (Some EDeadlineExceeded), packetBuffers, md, [])"
| "sniff_read sd act ps packetBuffers (Inl err # rs) md =
     (if \<not> is_DeadlineExceeded err then (Inl err, packetBuffers, md, rs)
      else (Inr (Some err), packetBuffers, md, rs))"
| "sniff_read sd act ps packetBuffers (Inr p # rs) md =
     (case sniff_packet sd act ps (fst p) md of
        (Some err, md) \<Rightarrow>
          if is_NeedMoreData err then sniff_read sd act ps (packetBuffers @ [p]) rs md
          else (Inr (Some err), packetBuffers @ [p], md, rs)
      | (None, md) \<Rightarrow> (Inr None, packetBuffers @ [p], md, rs))"

record sniff_result =
  sr_buffer :: "bytes option"
  sr_packetBuffers :: "packet list"
  sr_fatalErr :: "goerr option"
  sr_md :: InboundContext
  sr_input :: input

definition sniff_nothing :: "InboundContext \<Rightarrow> input \<Rightarrow> sniff_result" where
  "sniff_nothing md inp =
     \<lparr>sr_buffer = None, sr_packetBuffers = [], sr_fatalErr = None, sr_md = md, sr_input = inp\<rparr>"

definition sniff_stream ::
  "sniff_deps \<Rightarrow> SniffAction \<Rightarrow> stream_conn \<Rightarrow> bytes list \<Rightarrow> InboundContext \<Rightarrow> sniff_result" where
  "sniff_stream sd act conn inputBuffers md =
     (if sn_StreamSniffers act = [] \<and> sn_PacketSniffers act \<noteq> [] then sniff_nothing md (StreamConn conn)
      else if sniff_failed_before act md then sniff_nothing md (StreamConn conn)
      else
        let sniffers = (if sn_StreamSniffers act \<noteq> [] then sn_StreamSniffers act else default_stream_sniffers)
        in case PeekStream sd sniffers inputBuffers conn md of
             (err, md, sniffBuffer, conn) \<Rightarrow>
               let md = md\<lparr>md_SnifferNames := sn_SnifferNames act, md_SniffError := err\<rparr>;
                   md = (if err = None then override_destination sd act md else md)
               in \<lparr>sr_buffer = (if sniffBuffer \<noteq> [] then Some sniffBuffer else None), sr_packetBuffers = [],
                   sr_fatalErr = None, sr_md = md, sr_input = StreamConn conn\<rparr>)"

definition sniff_packets ::
  "sniff_deps \<Rightarrow> SniffAction \<Rightarrow> packet_conn \<Rightarrow> packet list \<Rightarrow> InboundContext \<Rightarrow> sniff_result" where
  "sniff_packets sd act conn inputPacketBuffers md =
     (if sn_PacketSniffers act = [] \<and> sn_StreamSniffers act \<noteq> [] then sniff_nothing md (PacketConn conn)
      else if sniff_failed_before act md then sniff_nothing md (PacketConn conn)
      else
        let ps = (if sn_PacketSniffers act \<noteq> [] then sn_PacketSniffers act else default_packet_sniffers) in
        case sniff_buffered sd act ps inputPacketBuffers md of
          (Some err, md) \<Rightarrow>
            (sniff_nothing (if err = None then override_destination sd act md else md) (PacketConn conn))
        | (None, md) \<Rightarrow>
            (case sniff_read sd act ps inputPacketBuffers (pc_reads conn) md of
               (Inl fatal, packetBuffers, md, reads) \<Rightarrow>
                 \<lparr>sr_buffer = None, sr_packetBuffers = packetBuffers, sr_fatalErr = Some fatal, sr_md = md,
                  sr_input = PacketConn (conn\<lparr>pc_reads := reads\<rparr>)\<rparr>
             | (Inr err, packetBuffers, md, reads) \<Rightarrow>
                 \<lparr>sr_buffer = None, sr_packetBuffers = packetBuffers, sr_fatalErr = None,
                  sr_md = (if err = None then override_destination sd act md else md),
                  sr_input = PacketConn (conn\<lparr>pc_reads := reads\<rparr>)\<rparr>))"

definition actionSniff ::
  "sniff_deps \<Rightarrow> SniffAction \<Rightarrow> input \<Rightarrow> bytes list \<Rightarrow> packet list \<Rightarrow> InboundContext \<Rightarrow> sniff_result" where
  "actionSniff sd act inp inputBuffers inputPacketBuffers md =
     (if Skip md then sniff_nothing md inp
      else if md_Protocol md \<noteq> [] then sniff_nothing md inp
      else case inp of
        StreamConn conn \<Rightarrow> sniff_stream sd act conn inputBuffers md
      | PacketConn conn \<Rightarrow> sniff_packets sd act conn inputPacketBuffers md
      | NoConn \<Rightarrow> sniff_nothing md inp)"

end
