(* ===== verification/Router.thy ===== *)
theory Router
  imports Rules Sniff
begin

text \<open>
  The router (\<^verbatim>\<open>route/route.go\<close>): the rule loop \<^verbatim>\<open>matchRule\<close> with the preparation of the metadata
  before it, and its three callers \<^verbatim>\<open>routeConnection\<close>, \<^verbatim>\<open>routePacketConnection\<close> and \<^verbatim>\<open>PreMatch\<close>. What
  the router asks of the other managers (inbounds, outbounds, DNS, fake-ip store, process
  searcher) is the record \<open>route_deps\<close>. A call of another component that ends the routing of a
  connection is a value of the result types \<open>routed\<close> and \<open>prematched\<close>; a wrapper put around a
  connection is a constructor of \<open>conn\<close> or \<open>pconn\<close>. The memory check \<^verbatim>\<open>conntrack.KillerCheck\<close>, the
  wrapper that adds read deadlines and the logging are not modelled.
\<close>

section \<open>Managers\<close>

record Outbound =
  ob_Tag :: string
  ob_Network :: "string list"
  ob_ConnectionHandler :: bool
  ob_PacketConnectionHandler :: bool
  ob_DirectRoute :: bool

record Inbound =
  in_TCPInjectable :: bool
  in_UDPInjectable :: bool

record FakeIPStore =
  fs_Contains :: "Addr \<Rightarrow> bool"
  fs_Lookup :: "Addr \<Rightarrow> string option"

type_synonym addr_port = "Addr \<times> u16"

record route_deps =
  rd_processSearcher :: "(string \<Rightarrow> addr_port \<Rightarrow> addr_port \<Rightarrow> ProcessInfo res) option"
  rd_user_LookupId :: "int \<Rightarrow> string option"
  rd_FakeIP :: "FakeIPStore option"
  rd_LookupReverseMapping :: "Addr \<Rightarrow> string option"
  rd_Transport :: "string \<Rightarrow> DNSTransport option"
  rd_Lookup :: "InboundContext \<Rightarrow> string \<Rightarrow> DNSQueryOptions \<Rightarrow> Addr list res"
  rd_Inbound :: "string \<Rightarrow> Inbound option"
  rd_Outbound :: "string \<Rightarrow> Outbound option"
  rd_Default :: Outbound
  rd_trackers :: "string list"
  rd_sniff :: sniff_deps
  rd_mux_Destination :: string
  rd_vmess_MuxDestination :: string
  rd_uot_MagicAddress :: string
  rd_uot_LegacyMagicAddress :: string

definition NetworkTCP :: string where "NetworkTCP = ''tcp''"
definition NetworkUDP :: string where "NetworkUDP = ''udp''"
definition NetworkICMP :: string where "NetworkICMP = ''icmp''"

section \<open>Preparing the metadata\<close>

definition AddrPort :: "Socksaddr \<Rightarrow> addr_port" where
  "AddrPort s = (sa_Addr s, sa_Port s)"

definition FindProcessInfo ::
  "(string \<Rightarrow> addr_port \<Rightarrow> addr_port \<Rightarrow> ProcessInfo res) \<Rightarrow> (int \<Rightarrow> string option) \<Rightarrow> string \<Rightarrow>
     addr_port \<Rightarrow> addr_port \<Rightarrow> ProcessInfo res" where
  "FindProcessInfo searcher LookupId network source destination =
     res_bind (searcher network source destination) (\<lambda>info.
       if pi_UserId info \<noteq> -1 then
         (case LookupId (pi_UserId info) of
            None \<Rightarrow> Inr info
          | Some name \<Rightarrow> Inr (info\<lparr>pi_User := name\<rparr>))
       else Inr info)"

definition find_process :: "'h deps \<Rightarrow> route_deps \<Rightarrow> InboundContext \<Rightarrow> InboundContext" where
  "find_process d rd md =
     (case rd_processSearcher rd of
        None \<Rightarrow> md
      | Some searcher \<Rightarrow>
          if md_ProcessInfo md \<noteq> None then md
          else
            let originDestination =
              (if M_IsValid d (md_OriginDestination md) then AddrPort (md_OriginDestination md)
               else if M_IsIP d (md_Destination md) then AddrPort (md_Destination md)
               else (AddrZero, 0))
            in case FindProcessInfo searcher (rd_user_LookupId rd) (md_Network md)
                      (AddrPort (md_Source md)) originDestination of
                 Inl fErr \<Rightarrow> md
               | Inr processInfo \<Rightarrow> md\<lparr>md_ProcessInfo := Some processInfo\<rparr>)"

definition reverse_mapping :: "route_deps \<Rightarrow> InboundContext \<Rightarrow> InboundContext" where
  "reverse_mapping rd md =
     (if md_Domain md = [] then
        (case rd_LookupReverseMapping rd (sa_Addr (md_Destination md)) of
           Some domain \<Rightarrow> md\<lparr>md_Domain := domain\<rparr>
         | None \<Rightarrow> md)
      else md)"

definition resolve_fakeip :: "route_deps \<Rightarrow> InboundContext \<Rightarrow> InboundContext res" where
  "resolve_fakeip rd md =
     (case rd_FakeIP rd of
        None \<Rightarrow> Inr (reverse_mapping rd md)
      | Some store \<Rightarrow>
          if Addr_IsValid (sa_Addr (md_Destination md)) \<and> fs_Contains store (sa_Addr (md_Destination md)) then
            (case fs_Lookup store (sa_Addr (md_Destination md)) of
               None \<Rightarrow> Inl (ENew [ArgS ''missing fakeip record, try enable `experimental.cache_file`''])
             | Some domain \<Rightarrow>
                 if domain \<noteq> [] then
                   Inr (md\<lparr>md_OriginDestination := md_Destination md,
                           md_Destination := \<lparr>sa_Addr = AddrZero, sa_Port = sa_Port (md_Destination md),
                                              sa_Fqdn = domain\<rparr>,
                           md_FakeIP := True\<rparr>)
                 else Inr md)
          else Inr (reverse_mapping rd md))"

definition set_ip_version :: "'h deps \<Rightarrow> InboundContext \<Rightarrow> InboundContext" where
  "set_ip_version d md =
     (if M_IsIPv4 d (md_Destination md) then md\<lparr>md_IPVersion := 4\<rparr>
      else if M_IsIPv6 d (md_Destination md) then md\<lparr>md_IPVersion := 6\<rparr>
      else md)"

definition actionResolve ::
  "'h deps \<Rightarrow> route_deps \<Rightarrow> ResolveAction \<Rightarrow> InboundContext \<Rightarrow> InboundContext res" where
  "actionResolve d rd act md =
     (if M_IsFqdn d (md_Destination md) then
        res_bind
          (if rs_Server act \<noteq> [] then
             (case rd_Transport rd (rs_Server act) of
                None \<Rightarrow> Inl (ENew [ArgS ''DNS server not found: '', ArgS (rs_Server act)])
              | Some transport \<Rightarrow> Inr (Some transport))
           else Inr None)
          (\<lambda>transport.
            res_bind (rd_Lookup rd md (sa_Fqdn (md_Destination md))
                \<lparr>qo_Transport = transport, qo_Strategy = rs_Strategy act, qo_LookupStrategy = 0,
                 qo_DisableCache = rs_DisableCache act, qo_RewriteTTL = rs_RewriteTTL act,
                 qo_ClientSubnet = rs_ClientSubnet act\<rparr>)
              (\<lambda>addresses. Inr (md\<lparr>md_DestinationAddresses := addresses\<rparr>)))
      else Inr md)"

section \<open>The rule loop\<close>

text \<open>The variables of \<^verbatim>\<open>matchRule\<close>: the metadata it points to, the connection it reads, the two
  kinds of buffers it returns.\<close>

record match_state =
  ms_md :: InboundContext
  ms_input :: input
  ms_buffers :: "bytes list"
  ms_packetBuffers :: "packet list"

text \<open>The call of the sniff action and the use of its result: the new buffer is appended, else the
  new packets are.\<close>

definition match_sniff :: "route_deps \<Rightarrow> SniffAction \<Rightarrow> match_state \<Rightarrow> unit res \<times> match_state" where
  "match_sniff rd act ms =
     (let res = actionSniff (rd_sniff rd) act (ms_input ms) (ms_buffers ms) (ms_packetBuffers ms) (ms_md ms);
          ms = ms\<lparr>ms_md := sr_md res, ms_input := sr_input res\<rparr>;
          ms = (case sr_buffer res of
                  Some newBuffer \<Rightarrow> ms\<lparr>ms_buffers := ms_buffers ms @ [newBuffer]\<rparr>
                | None \<Rightarrow>
                    if sr_packetBuffers res \<noteq> []
                    then ms\<lparr>ms_packetBuffers := ms_packetBuffers ms @ sr_packetBuffers res\<rparr>
                    else ms)
      in (case sr_fatalErr res of Some err \<Rightarrow> Inl err | None \<Rightarrow> Inr (), ms))"

definition match_resolve ::
  "'h deps \<Rightarrow> route_deps \<Rightarrow> ResolveAction \<Rightarrow> match_state \<Rightarrow> unit res \<times> match_state" where
  "match_resolve d rd act ms =
     (case actionResolve d rd act (ms_md ms) of
        Inl err \<Rightarrow> (Inl err, ms)
      | Inr md \<Rightarrow> (Inr (), ms\<lparr>ms_md := md\<rparr>))"

text \<open>The deprecated options of the inbound: a sniff and a resolution before the first rule.\<close>

definition inbound_sniff_action :: "InboundOptions \<Rightarrow> SniffAction" where
  "inbound_sniff_action io =
     \<lparr>sn_SnifferNames = [], sn_StreamSniffers = [], sn_PacketSniffers = [],
      sn_Timeout = io_SniffTimeout io, sn_OverrideDestination = io_SniffOverrideDestination io\<rparr>"

definition inbound_resolve_action :: "InboundOptions \<Rightarrow> ResolveAction" where
  "inbound_resolve_action io =
     \<lparr>rs_Server = [], rs_Strategy = io_DomainStrategy io, rs_DisableCache = False,
      rs_RewriteTTL = None, rs_ClientSubnet = Prefix_zero\<rparr>"

definition inbound_options ::
  "'h deps \<Rightarrow> route_deps \<Rightarrow> bool \<Rightarrow> match_state \<Rightarrow> unit res \<times> match_state" where
  "inbound_options d rd preMatch ms =
     (if md_InboundOptions (ms_md ms) \<noteq> InboundOptions_zero then
        (case (if \<not> preMatch \<and> io_SniffEnabled (md_InboundOptions (ms_md ms))
               then match_sniff rd (inbound_sniff_action (md_InboundOptions (ms_md ms))) ms
               else (Inr (), ms)) of
           (Inl err, ms) \<Rightarrow> (Inl err, ms)
         | (Inr _, ms) \<Rightarrow>
             (case (if io_DomainStrategy (md_InboundOptions (ms_md ms)) \<noteq> DomainStrategyAsIS
                    then match_resolve d rd (inbound_resolve_action (md_InboundOptions (ms_md ms))) ms
                    else (Inr (), ms)) of
                (Inl err, ms) \<Rightarrow> (Inl err, ms)
              | (Inr _, ms) \<Rightarrow>
                  let md = ms_md ms;
                      md = (if io_UDPDisableDomainUnmapping (md_InboundOptions md)
                            then md\<lparr>md_UDPDisableDomainUnmapping := True\<rparr> else md)
                  in (Inr (), ms\<lparr>ms_md := md\<lparr>md_InboundOptions := InboundOptions_zero\<rparr>\<rparr>)))
      else (Inr (), ms))"

fun action_route_options :: "'h RuleAction \<Rightarrow> RouteOptions option" where
  "action_route_options (RuleActionRoute outbound options) = Some options"
| "action_route_options (RuleActionRouteOptions options) = Some options"
| "action_route_options _ = None"

definition override_target :: "'h deps \<Rightarrow> RouteOptions \<Rightarrow> InboundContext \<Rightarrow> InboundContext" where
  "override_target d ro md =
     (let md = (if (M_IsValid d (ro_OverrideAddress ro) \<or> ro_OverridePort ro > 0) \<and>
                   \<not> M_IsValid d (md_RouteOriginalDestination md)
                then md\<lparr>md_RouteOriginalDestination := md_Destination md\<rparr> else md);
          md = (if M_IsValid d (ro_OverrideAddress ro)
                then md\<lparr>md_Destination :=
                          \<lparr>sa_Addr = sa_Addr (ro_OverrideAddress ro), sa_Port = sa_Port (md_Destination md),
                           sa_Fqdn = sa_Fqdn (ro_OverrideAddress ro)\<rparr>,
                        md_DestinationAddresses := []\<rparr>
                else md)
      in if ro_OverridePort ro > 0
         then md\<lparr>md_Destination :=
                   \<lparr>sa_Addr = sa_Addr (md_Destination md), sa_Port = ro_OverridePort ro,
                    sa_Fqdn = sa_Fqdn (md_Destination md)\<rparr>\<rparr>
         else md)"

definition apply_route_options :: "'h deps \<Rightarrow> RouteOptions \<Rightarrow> InboundContext \<Rightarrow> InboundContext" where
  "apply_route_options d ro md =
     (let md = override_target d ro md;
          md = (if ro_NetworkStrategy ro \<noteq> None then md\<lparr>md_NetworkStrategy := ro_NetworkStrategy ro\<rparr> else md);
          md = (if ro_NetworkType ro \<noteq> [] then md\<lparr>md_NetworkType := ro_NetworkType ro\<rparr> else md);
          md = (if ro_FallbackNetworkType ro \<noteq> []
                then md\<lparr>md_FallbackNetworkType := ro_FallbackNetworkType ro\<rparr> else md);
          md = (if ro_FallbackDelay ro \<noteq> 0 then md\<lparr>md_FallbackDelay := ro_FallbackDelay ro\<rparr> else md);
          md = (if ro_UDPDisableDomainUnmapping ro then md\<lparr>md_UDPDisableDomainUnmapping := True\<rparr> else md);
          md = (if ro_UDPConnect ro then md\<lparr>md_UDPConnect := True\<rparr> else md);
          md = (if ro_UDPTimeout ro > 0 then md\<lparr>md_UDPTimeout := ro_UDPTimeout ro\<rparr> else md);
          md = (if ro_TLSFragment ro
                then md\<lparr>md_TLSFragment := True, md_TLSFragmentFallbackDelay := ro_TLSFragmentFallbackDelay ro\<rparr>
                else md)
      in if ro_TLSRecordFragment ro then md\<lparr>md_TLSRecordFragment := True\<rparr> else md)"

text \<open>The body of the loop once a rule has matched: its action is performed; \<open>True\<close> selects the
  rule and ends the loop.\<close>

definition perform_action ::
  "'h deps \<Rightarrow> route_deps \<Rightarrow> bool \<Rightarrow> 'h RuleAction \<Rightarrow> match_state \<Rightarrow> bool res \<times> match_state" where
  "perform_action d rd preMatch ra ms =
     (let ms = (case action_route_options ra of
                  Some routeOptions \<Rightarrow> ms\<lparr>ms_md := apply_route_options d routeOptions (ms_md ms)\<rparr>
                | None \<Rightarrow> ms);
          selected = RuleAction_Type ra = RuleActionTypeRoute \<or>
                     RuleAction_Type ra = RuleActionTypeReject \<or>
                     RuleAction_Type ra = RuleActionTypeHijackDNS
      in case ra of
           RuleActionSniff act \<Rightarrow>
             (if \<not> preMatch then
                (case match_sniff rd act ms of
                   (Inl err, ms) \<Rightarrow> (Inl err, ms)
                 | (Inr _, ms) \<Rightarrow> (Inr selected, ms))
              else if md_Network (ms_md ms) \<noteq> NetworkICMP then (Inr True, ms)
              else (Inr selected, ms))
         | RuleActionResolve act \<Rightarrow>
             (case match_resolve d rd act ms of
                (Inl err, ms) \<Rightarrow> (Inl err, ms)
              | (Inr _, ms) \<Rightarrow> (Inr selected, ms))
         | _ \<Rightarrow> (Inr selected, ms))"

fun match_rules ::
  "'h deps \<Rightarrow> env \<Rightarrow> 'h rule_sets \<Rightarrow> route_deps \<Rightarrow> bool \<Rightarrow> nat \<Rightarrow> 'h Rule list \<Rightarrow> match_state \<Rightarrow>
     (nat \<times> 'h Rule) option res \<times> match_state" where
  "match_rules d e sets rd preMatch i [] ms = (Inr None, ms)"
| "match_rules d e sets rd preMatch i (currentRule # rules) ms =
     (case Rule_Match d e sets currentRule (ResetRuleCache (ms_md ms)) of
        (False, md) \<Rightarrow> match_rules d e sets rd preMatch (Suc i) rules (ms\<lparr>ms_md := md\<rparr>)
      | (True, md) \<Rightarrow>
          (case Rule_Action currentRule of
             None \<Rightarrow> (Inl nil_dereference, ms\<lparr>ms_md := md\<rparr>)
           | Some ra \<Rightarrow>
               (case perform_action d rd preMatch ra (ms\<lparr>ms_md := md\<rparr>) of
                  (Inl err, ms) \<Rightarrow> (Inl err, ms)
                | (Inr True, ms) \<Rightarrow> (Inr (Some (i, currentRule)), ms)
                | (Inr False, ms) \<Rightarrow> match_rules d e sets rd preMatch (Suc i) rules ms)))"

definition matchRule ::
  "'h deps \<Rightarrow> env \<Rightarrow> 'h rule_sets \<Rightarrow> route_deps \<Rightarrow> 'h Rule list \<Rightarrow> bool \<Rightarrow> input \<Rightarrow> InboundContext \<Rightarrow>
     (nat \<times> 'h Rule) option res \<times> match_state" where
  "matchRule d e sets rd rules preMatch inp md =
     (let ms = \<lparr>ms_md = find_process d rd md, ms_input = inp, ms_buffers = [], ms_packetBuffers = []\<rparr>
      in case resolve_fakeip rd (ms_md ms) of
           Inl err \<Rightarrow> (Inl err, ms)
         | Inr md \<Rightarrow>
             (case inbound_options d rd preMatch (ms\<lparr>ms_md := set_ip_version d md\<rparr>) of
                (Inl err, ms) \<Rightarrow> (Inl err, ms)
              | (Inr _, ms) \<Rightarrow> match_rules d e sets rd preMatch 0 rules ms))"

section \<open>Routing a connection\<close>

text \<open>Connections as the wrappers put around them. A cached connection gives its buffer before it
  reads the connection it wraps.\<close>

datatype conn =
    RawConn stream_conn
  | CachedConn conn bytes
  | TrackedConn conn string

datatype pconn =
    RawPacketConn packet_conn
  | CachedPacketConn pconn bytes Socksaddr
  | TrackedPacketConn pconn string
  | NATPacketConn pconn Socksaddr Socksaddr

text \<open>What becomes of a connection: the call that ends the routing.\<close>

datatype 'c routed =
    InjectInbound string 'c InboundContext
  | HijackDNS 'c InboundContext
  | HijackDNSPacket 'c "packet list" InboundContext
  | HandledByOutbound Outbound 'c InboundContext
  | ConnectedToOutbound Outbound 'c InboundContext
  | NotRouted

text \<open>\<^verbatim>\<open>return action.Error(ctx)\<close>: the counter of the action changes in the rule, the nil error
  returns without having routed anything.\<close>

definition reject_connection ::
  "int \<Rightarrow> nat \<Rightarrow> RejectAction \<Rightarrow> 'h Rule list \<Rightarrow> 'c routed res \<times> 'h Rule list" where
  "reject_connection timeNow i r rules =
     (case RuleActionReject_Error timeNow r of
        (res, r) \<Rightarrow>
          (case res of Inl err \<Rightarrow> Inl err | Inr (Some err) \<Rightarrow> Inl err | Inr None \<Rightarrow> Inr NotRouted,
           rules[i := Rule_set_Action (RuleActionReject r) (rules ! i)]))"

definition inject_detour ::
  "route_deps \<Rightarrow> (Inbound \<Rightarrow> bool) \<Rightarrow> string \<Rightarrow> 'c \<Rightarrow> InboundContext \<Rightarrow> 'c routed res" where
  "inject_detour rd injectable network c md =
     (if md_LastInbound md = md_InboundDetour md
      then Inl (ENew [ArgS ''routing loop on detour: '', ArgS (md_InboundDetour md)])
      else case rd_Inbound rd (md_InboundDetour md) of
        None \<Rightarrow> Inl (ENew [ArgS ''inbound detour not found: '', ArgS (md_InboundDetour md)])
      | Some detour \<Rightarrow>
          if \<not> injectable detour
          then Inl (ENew [ArgS (''inbound detour is not '' @ network @ '' injectable: ''),
                          ArgS (md_InboundDetour md)])
          else Inr (InjectInbound (md_InboundDetour md) c
                 (md\<lparr>md_LastInbound := md_Inbound md, md_Inbound := md_InboundDetour md,
                     md_InboundDetour := []\<rparr>)))"

text \<open>The destinations of the multiplexing protocols that used to be handled globally.\<close>

definition legacy_destination :: "route_deps \<Rightarrow> string \<Rightarrow> goerr option" where
  "legacy_destination rd fqdn =
     (if fqdn = rd_mux_Destination rd
      then Some (ENew [ArgS ''global multiplex is deprecated since anchor v1.7.0, enable multiplex in Inbound fields instead.''])
      else if fqdn = rd_vmess_MuxDestination rd
      then Some (ENew [ArgS ''global multiplex (v2ray legacy) not supported since anchor v1.7.0.''])
      else if fqdn = rd_uot_MagicAddress rd
      then Some (ENew [ArgS ''global UoT not supported since anchor v1.7.0.''])
      else if fqdn = rd_uot_LegacyMagicAddress rd
      then Some (ENew [ArgS ''global UoT (legacy) not supported since anchor v1.7.0.''])
      else None)"

text \<open>The outbound of a route action, and the default one.\<close>

definition route_outbound :: "route_deps \<Rightarrow> string \<Rightarrow> string \<Rightarrow> string \<Rightarrow> Outbound res" where
  "route_outbound rd network name tag =
     (case rd_Outbound rd tag of
        None \<Rightarrow> Inl (ENew [ArgS ''outbound not found: '', ArgS tag])
      | Some ob \<Rightarrow>
          if network \<notin> set (ob_Network ob)
          then Inl (ENew [ArgS (name @ '' is not supported by outbound: ''), ArgS (ob_Tag ob)])
          else Inr ob)"

definition default_outbound :: "route_deps \<Rightarrow> string \<Rightarrow> string \<Rightarrow> Outbound res" where
  "default_outbound rd network msg =
     (if network \<notin> set (ob_Network (rd_Default rd))
      then Inl (ENew [ArgS msg, ArgS (ob_Tag (rd_Default rd))])
      else Inr (rd_Default rd))"

definition cached_conn :: "bytes list \<Rightarrow> conn \<Rightarrow> conn" where
  "cached_conn buffers c = fold (\<lambda>buffer c. CachedConn c buffer) buffers c"

definition tracked_conn :: "route_deps \<Rightarrow> conn \<Rightarrow> conn" where
  "tracked_conn rd c = fold (\<lambda>tracker c. TrackedConn c tracker) (rd_trackers rd) c"

fun input_conn :: "input \<Rightarrow> conn" where
  "input_conn (StreamConn c) = RawConn c"
| "input_conn _ = RawConn \<lparr>sc_deadlineError = None, sc_reads = []\<rparr>"

fun input_pconn :: "input \<Rightarrow> pconn" where
  "input_pconn (PacketConn c) = RawPacketConn c"
| "input_pconn _ = RawPacketConn \<lparr>pc_reads = []\<rparr>"

text \<open>The end of \<^verbatim>\<open>routeConnection\<close>, once an outbound is selected.\<close>

definition to_outbound :: "route_deps \<Rightarrow> match_state \<Rightarrow> Outbound \<Rightarrow> conn routed" where
  "to_outbound rd ms ob =
     (let c = tracked_conn rd (cached_conn (ms_buffers ms) (input_conn (ms_input ms)))
      in if ob_ConnectionHandler ob then HandledByOutbound ob c (ms_md ms)
         else ConnectedToOutbound ob c (ms_md ms))"

text \<open>What follows the call of \<^verbatim>\<open>matchRule\<close> in \<^verbatim>\<open>routeConnection\<close>, by the rule selected.\<close>

definition route_selected ::
  "route_deps \<Rightarrow> int \<Rightarrow> 'h Rule list \<Rightarrow> (nat \<times> 'h Rule) option \<Rightarrow> match_state \<Rightarrow>
     conn routed res \<times> 'h Rule list" where
  "route_selected rd timeNow rules selectedRule ms =
     (case selectedRule of
        None \<Rightarrow>
          (res_bind (default_outbound rd NetworkTCP ''TCP is not supported by default outbound: '')
             (\<lambda>ob. Inr (to_outbound rd ms ob)), rules)
      | Some (i, rule) \<Rightarrow>
          (case Rule_Action rule of
             Some (RuleActionRoute tag options) \<Rightarrow>
               (res_bind (route_outbound rd NetworkTCP ''TCP'' tag) (\<lambda>ob. Inr (to_outbound rd ms ob)), rules)
           | Some (RuleActionReject r) \<Rightarrow>
               (if rj_Method r = RuleActionRejectMethodReply
                then (Inl (ENew [ArgS ''reject method `reply` is not supported for TCP connections'']), rules)
                else reject_connection timeNow i r rules)
           | Some RuleActionHijackDNS \<Rightarrow>
               (Inr (HijackDNS (cached_conn (ms_buffers ms) (input_conn (ms_input ms))) (ms_md ms)), rules)
           | _ \<Rightarrow> (Inl nil_dereference, rules)))"

definition routeConnection ::
  "'h deps \<Rightarrow> env \<Rightarrow> 'h rule_sets \<Rightarrow> route_deps \<Rightarrow> int \<Rightarrow> 'h Rule list \<Rightarrow> stream_conn \<Rightarrow> InboundContext \<Rightarrow>
     conn routed res \<times> 'h Rule list" where
  "routeConnection d e sets rd timeNow rules c md =
     (if md_InboundDetour md \<noteq> [] then (inject_detour rd in_TCPInjectable ''TCP'' (RawConn c) md, rules)
      else
        case legacy_destination rd (sa_Fqdn (md_Destination md)) of
          Some err \<Rightarrow> (Inl err, rules)
        | None \<Rightarrow>
            (case matchRule d e sets rd rules False (StreamConn c) (md\<lparr>md_Network := NetworkTCP\<rparr>) of
               (Inl err, ms) \<Rightarrow> (Inl err, rules)
             | (Inr selectedRule, ms) \<Rightarrow> route_selected rd timeNow rules selectedRule ms))"

definition cached_pconn :: "packet list \<Rightarrow> pconn \<Rightarrow> pconn" where
  "cached_pconn packetBuffers c = fold (\<lambda>p c. CachedPacketConn c (fst p) (snd p)) packetBuffers c"

definition tracked_pconn :: "route_deps \<Rightarrow> pconn \<Rightarrow> pconn" where
  "tracked_pconn rd c = fold (\<lambda>tracker c. TrackedPacketConn c tracker) (rd_trackers rd) c"

definition packets_to_outbound :: "route_deps \<Rightarrow> match_state \<Rightarrow> Outbound \<Rightarrow> pconn routed" where
  "packets_to_outbound rd ms ob =
     (let c = tracked_pconn rd (cached_pconn (ms_packetBuffers ms) (input_pconn (ms_input ms)));
          c = (if md_FakeIP (ms_md ms)
               then NATPacketConn c (md_OriginDestination (ms_md ms)) (md_Destination (ms_md ms)) else c)
      in if ob_PacketConnectionHandler ob then HandledByOutbound ob c (ms_md ms)
         else ConnectedToOutbound ob c (ms_md ms))"

definition route_packets_selected ::
  "route_deps \<Rightarrow> int \<Rightarrow> 'h Rule list \<Rightarrow> (nat \<times> 'h Rule) option \<Rightarrow> match_state \<Rightarrow>
     pconn routed res \<times> 'h Rule list" where
  "route_packets_selected rd timeNow rules selectedRule ms =
     (case selectedRule of
        None \<Rightarrow>
          (res_bind (default_outbound rd NetworkUDP ''UDP is not supported by outbound: '')
             (\<lambda>ob. Inr (packets_to_outbound rd ms ob)), rules)
      | Some (i, rule) \<Rightarrow>
          (case Rule_Action rule of
             Some (RuleActionRoute tag options) \<Rightarrow>
               (res_bind (route_outbound rd NetworkUDP ''UDP'' tag)
                  (\<lambda>ob. Inr (packets_to_outbound rd ms ob)), rules)
           | Some (RuleActionReject r) \<Rightarrow>
               (if rj_Method r = RuleActionRejectMethodReply
                then (Inl (ENew [ArgS ''reject method `reply` is not supported for UDP connections'']), rules)
                else reject_connection timeNow i r rules)
           | Some RuleActionHijackDNS \<Rightarrow>
               (Inr (HijackDNSPacket (input_pconn (ms_input ms)) (ms_packetBuffers ms) (ms_md ms)), rules)
           | _ \<Rightarrow> (Inl nil_dereference, rules)))"

definition routePacketConnection ::
  "'h deps \<Rightarrow> env \<Rightarrow> 'h rule_sets \<Rightarrow> route_deps \<Rightarrow> int \<Rightarrow> 'h Rule list \<Rightarrow> packet_conn \<Rightarrow> InboundContext \<Rightarrow>
     pconn routed res \<times> 'h Rule list" where
  "routePacketConnection d e sets rd timeNow rules c md =
     (if md_InboundDetour md \<noteq> [] then (inject_detour rd in_UDPInjectable ''UDP'' (RawPacketConn c) md, rules)
      else
        case matchRule d e sets rd rules False (PacketConn c) (md\<lparr>md_Network := NetworkUDP\<rparr>) of
          (Inl err, ms) \<Rightarrow> (Inl err, rules)
        | (Inr selectedRule, ms) \<Rightarrow> route_packets_selected rd timeNow rules selectedRule ms)"

section \<open>Pre-match\<close>

text \<open>\<^verbatim>\<open>PreMatch\<close>: \<open>PassThrough\<close> is the result \<^verbatim>\<open>nil, nil\<close>; \<open>DirectRoute\<close> is the call of the
  outbound's \<^verbatim>\<open>NewDirectRouteConnection\<close>, with the addresses that the two writers put around it
  exchange when the destination is a domain.\<close>

datatype prematched =
    PassThrough
  | DirectRoute Outbound InboundContext "(Addr \<times> Addr) option"

definition direct_route_of :: "Outbound \<Rightarrow> Outbound res" where
  "direct_route_of ob =
     (if ob_DirectRoute ob then Inr ob
      else Inl (GoPanic [ArgS ''interface conversion: missing method NewDirectRouteConnection'']))"

definition direct_route ::
  "'h deps \<Rightarrow> route_deps \<Rightarrow> Outbound \<Rightarrow> InboundContext \<Rightarrow> prematched res" where
  "direct_route d rd ob md =
     (if \<not> M_IsFqdn d (md_Destination md) then Inr (DirectRoute ob md None)
      else
        res_bind
          (if md_DestinationAddresses md = [] then
             actionResolve d rd
               \<lparr>rs_Server = [],
                rs_Strategy = (if M_IsIPv4 d (md_Source md) then DomainStrategyIPv4Only else DomainStrategyIPv6Only),
                rs_DisableCache = False, rs_RewriteTTL = None, rs_ClientSubnet = Prefix_zero\<rparr> md
           else Inr md)
          (\<lambda>md.
            case find (if M_IsIPv4 d (md_Source md) then Addr_Is4 else Addr_Is6) (md_DestinationAddresses md) of
              None \<Rightarrow>
                Inl (ENew [ArgS (if M_IsIPv4 d (md_Source md) then ''no IPv4 address found for domain: ''
                                 else ''no IPv6 address found for domain: ''),
                           ArgS (sa_Fqdn (md_Destination md))])
            | Some newDestination \<Rightarrow>
                Inr (DirectRoute ob
                  (md\<lparr>md_Destination := \<lparr>sa_Addr = newDestination, sa_Port = 0, sa_Fqdn = []\<rparr>\<rparr>)
                  (Some (sa_Addr (md_OriginDestination md), newDestination)))))"

definition PreMatch ::
  "'h deps \<Rightarrow> env \<Rightarrow> 'h rule_sets \<Rightarrow> route_deps \<Rightarrow> int \<Rightarrow> 'h Rule list \<Rightarrow> bool \<Rightarrow> InboundContext \<Rightarrow>
     prematched res \<times> 'h Rule list" where
  "PreMatch d e sets rd timeNow rules hasRouteContext md =
     (case matchRule d e sets rd rules True NoConn md of
        (Inl err, ms) \<Rightarrow> (Inl err, rules)
      | (Inr None, ms) \<Rightarrow>
          (let md = ms_md ms in
           if md_Network md \<noteq> NetworkICMP then Inr PassThrough
           else
             res_bind (if md_Network md \<notin> set (ob_Network (rd_Default rd))
                       then Inl (ENew [ArgS (md_Network md), ArgS '' is not supported by default outbound: '',
                                       ArgS (ob_Tag (rd_Default rd))])
                       else direct_route_of (rd_Default rd))
               (\<lambda>ob. direct_route d rd ob md), rules)
      | (Inr (Some (i, rule)), ms) \<Rightarrow>
          (let md = ms_md ms in
           case Rule_Action rule of
             Some (RuleActionReject r) \<Rightarrow>
               (if rj_Method r = RuleActionRejectMethodReply \<and> md_Network md = NetworkTCP
                then (Inl (ENew [ArgS ''reject method `reply` is not supported for TCP connections'']), rules)
                else if rj_Method r = RuleActionRejectMethodReply \<and> md_Network md = NetworkUDP
                then (Inl (ENew [ArgS ''reject method `reply` is not supported for UDP connections'']), rules)
                else case reject_connection timeNow i r rules of
                       (Inl err, rules) \<Rightarrow> (Inl err, rules)
                     | (Inr _, rules) \<Rightarrow> (Inr PassThrough, rules))
           | Some (RuleActionRoute tag options) \<Rightarrow>
               (if \<not> hasRouteContext then Inr PassThrough
                else
                  case rd_Outbound rd tag of
                    None \<Rightarrow> Inl (ENew [ArgS ''outbound not found: '', ArgS tag])
                  | Some ob \<Rightarrow>
                      if md_Network md \<notin> set (ob_Network ob)
                      then Inl (ENew [ArgS (md_Network md), ArgS '' is not supported by outbound: '', ArgS tag])
                      else res_bind (direct_route_of ob) (\<lambda>ob. direct_route d rd ob md), rules)
           | _ \<Rightarrow> (Inr PassThrough, rules)))"

end
