(* ===== verification/DNSRules.thy ===== *)
theory DNSRules
  imports Rules
begin

text \<open>
  DNS rules: their options (\<^verbatim>\<open>option/rule_dns.go\<close>) and the rules themselves
  (\<^verbatim>\<open>route/rule/rule_dns.go\<close>). A DNS rule is matched twice: \<^verbatim>\<open>Match\<close> before the query is sent, with the
  conditions on the addresses of the response left out, and \<^verbatim>\<open>MatchAddressLimit\<close> with them when the
  response is there.
\<close>

section \<open>Options\<close>

record RawDefaultDNSRule =
  dd_Inbound :: "string list"
  dd_IPVersion :: int
  dd_QueryType :: "u16 list"
  dd_Network :: "string list"
  dd_AuthUser :: "string list"
  dd_Protocol :: "string list"
  dd_Domain :: "string list"
  dd_DomainSuffix :: "string list"
  dd_DomainKeyword :: "string list"
  dd_DomainRegex :: "string list"
  dd_Geosite :: "string list"
  dd_SourceGeoIP :: "string list"
  dd_GeoIP :: "string list"
  dd_IPCIDR :: "string list"
  dd_IPIsPrivate :: bool
  dd_IPAcceptAny :: bool
  dd_SourceIPCIDR :: "string list"
  dd_SourceIPIsPrivate :: bool
  dd_SourcePort :: "u16 list"
  dd_SourcePortRange :: "string list"
  dd_Port :: "u16 list"
  dd_PortRange :: "string list"
  dd_ProcessName :: "string list"
  dd_ProcessPath :: "string list"
  dd_ProcessPathRegex :: "string list"
  dd_PackageName :: "string list"
  dd_User :: "string list"
  dd_UserID :: "int list"
  dd_Outbound :: "string list"
  dd_ClashMode :: string
  dd_NetworkType :: "u8 list"
  dd_NetworkIsExpensive :: bool
  dd_NetworkIsConstrained :: bool
  dd_WIFISSID :: "string list"
  dd_WIFIBSSID :: "string list"
  dd_InterfaceAddress :: "(string \<times> Prefix option list) list option"
  dd_NetworkInterfaceAddress :: "(u8 \<times> Prefix option list) list option"
  dd_DefaultInterfaceAddress :: "Prefix option list"
  dd_RuleSet :: "string list"
  dd_RuleSetIPCIDRMatchSource :: bool
  dd_RuleSetIPCIDRAcceptEmpty :: bool
  dd_Invert :: bool
  dd_Deprecated_RulesetIPCIDRMatchSource :: bool

definition RawDefaultDNSRule_zero :: RawDefaultDNSRule where
  "RawDefaultDNSRule_zero =
     \<lparr>dd_Inbound = [], dd_IPVersion = 0, dd_QueryType = [],
      dd_Network = [], dd_AuthUser = [], dd_Protocol = [],
      dd_Domain = [], dd_DomainSuffix = [], dd_DomainKeyword = [],
      dd_DomainRegex = [], dd_Geosite = [], dd_SourceGeoIP = [],
      dd_GeoIP = [], dd_IPCIDR = [], dd_IPIsPrivate = False,
      dd_IPAcceptAny = False, dd_SourceIPCIDR = [], dd_SourceIPIsPrivate = False,
      dd_SourcePort = [], dd_SourcePortRange = [], dd_Port = [],
      dd_PortRange = [], dd_ProcessName = [], dd_ProcessPath = [],
      dd_ProcessPathRegex = [], dd_PackageName = [], dd_User = [],
      dd_UserID = [], dd_Outbound = [], dd_ClashMode = [],
      dd_NetworkType = [], dd_NetworkIsExpensive = False, dd_NetworkIsConstrained = False,
      dd_WIFISSID = [], dd_WIFIBSSID = [], dd_InterfaceAddress = None,
      dd_NetworkInterfaceAddress = None, dd_DefaultInterfaceAddress = [], dd_RuleSet = [],
      dd_RuleSetIPCIDRMatchSource = False, dd_RuleSetIPCIDRAcceptEmpty = False, dd_Invert = False,
      dd_Deprecated_RulesetIPCIDRMatchSource = False\<rparr>"

definition DNSRouteOptionsActionOptions_zero :: DNSRouteOptionsActionOptions where
  "DNSRouteOptionsActionOptions_zero =
     \<lparr>dro_Strategy = 0, dro_DisableCache = False, dro_RewriteTTL = None, dro_ClientSubnet = None\<rparr>"

definition DNSRuleActionOptions_zero :: DNSRuleActionOptions where
  "DNSRuleActionOptions_zero =
     \<lparr>dua_Action = [],
      dua_RouteOptions = DNSRouteOptionsActionOptions.extend DNSRouteOptionsActionOptions_zero
        (DNSRouteActionOptions.fields []),
      dua_RouteOptionsOptions = DNSRouteOptionsActionOptions_zero,
      dua_RejectOptions = \<lparr>rjo_Method = [], rjo_NoDrop = False\<rparr>,
      dua_PredefinedOptions = \<lparr>pdo_Rcode = None, pdo_Answer = [], pdo_Ns = [], pdo_Extra = []\<rparr>\<rparr>"

datatype DNSRuleOptions =
  DNSRuleOptions
    (dno_Type: string)
    (dno_DefaultOptions: RawDefaultDNSRule)
    (dno_DefaultAction: DNSRuleActionOptions)
    (dno_Mode: string)
    (dno_Rules: "DNSRuleOptions list")
    (dno_Invert: bool)
    (dno_LogicalAction: DNSRuleActionOptions)

definition DefaultDNSRuleOptions_IsValid :: "RawDefaultDNSRule \<Rightarrow> DNSRuleActionOptions \<Rightarrow> bool" where
  "DefaultDNSRuleOptions_IsValid r a \<longleftrightarrow>
     \<not> (r = RawDefaultDNSRule_zero\<lparr>dd_Invert := dd_Invert r\<rparr> \<and> a = DNSRuleActionOptions_zero)"

fun DNSRuleOptions_IsValid :: "DNSRuleOptions \<Rightarrow> bool res" where
  "DNSRuleOptions_IsValid (DNSRuleOptions type def act mode rules neg lact) =
     (if type = RuleTypeDefault then Inr (DefaultDNSRuleOptions_IsValid def act)
      else if type = RuleTypeLogical then
        (if length rules > 0 then all_res DNSRuleOptions_IsValid rules else Inr False)
      else Inl (GoPanic [ArgS (''unknown DNS rule type: '' @ type)]))"

definition LogicalDNSRuleOptions_IsValid :: "DNSRuleOptions list \<Rightarrow> bool res" where
  "LogicalDNSRuleOptions_IsValid rules =
     (if length rules > 0 then all_res DNSRuleOptions_IsValid rules else Inr False)"

section \<open>Rules\<close>

datatype 'h DNSRule =
    DefaultDNSRule "'h item_rule"
  | LogicalDNSRule "'h DNSRule list" string bool "'h RuleAction option"

definition dns_inbound_stages ::
  "RawDefaultDNSRule \<Rightarrow>
     ('h item_rule \<Rightarrow> 'h item_rule res) list" where
  "dns_inbound_stages opts =
    [opt_item (dd_Inbound opts \<noteq> []) add_items
       (PlainItem (NewInboundRule (dd_Inbound opts))),
     opt_res (dd_IPVersion opts > 0) add_items
       (if dd_IPVersion opts = 4 \<or> dd_IPVersion opts = 6
        then Inr (PlainItem (NewIPVersionItem (dd_IPVersion opts = 6)))
        else Inl (ENew [ArgS ''invalid ip version: '', ArgI (dd_IPVersion opts)])),
     opt_item (dd_QueryType opts \<noteq> []) add_items
       (PlainItem (NewQueryTypeItem (dd_QueryType opts))),
     opt_item (dd_Network opts \<noteq> []) add_items
       (PlainItem (NewNetworkItem (dd_Network opts))),
     opt_item (dd_AuthUser opts \<noteq> []) add_items
       (PlainItem (NewAuthUserItem (dd_AuthUser opts))),
     opt_item (dd_Protocol opts \<noteq> []) add_items
       (PlainItem (NewProtocolItem (dd_Protocol opts)))]"

definition dns_domain_stages ::
  "'h deps \<Rightarrow> RawDefaultDNSRule \<Rightarrow>
     ('h item_rule \<Rightarrow> 'h item_rule res) list" where
  "dns_domain_stages d opts =
    [opt_res (dd_Domain opts \<noteq> [] \<or> dd_DomainSuffix opts \<noteq> []) add_destinationAddressItems
       (plain_res (NewDomainItem d (dd_Domain opts) (dd_DomainSuffix opts))),
     opt_item (dd_DomainKeyword opts \<noteq> []) add_destinationAddressItems
       (PlainItem (NewDomainKeywordItem (dd_DomainKeyword opts))),
     opt_res (dd_DomainRegex opts \<noteq> []) add_destinationAddressItems
       (plain_res (res_cause [ArgS ''domain_regex''] (NewDomainRegexItem d (dd_DomainRegex opts)))),
     opt_fail (dd_Geosite opts \<noteq> []) ''geosite database is deprecated in anchor 1.8.0 and removed in anchor 1.12.0'',
     opt_fail (dd_SourceGeoIP opts \<noteq> []) ''geoip database is deprecated in anchor 1.8.0 and removed in anchor 1.12.0'',
     opt_fail (dd_GeoIP opts \<noteq> []) ''geoip database is deprecated in anchor 1.8.0 and removed in anchor 1.12.0'']"

definition dns_ip_stages ::
  "'h deps \<Rightarrow> RawDefaultDNSRule \<Rightarrow>
     ('h item_rule \<Rightarrow> 'h item_rule res) list" where
  "dns_ip_stages d opts =
    [opt_res (dd_SourceIPCIDR opts \<noteq> []) add_sourceAddressItems
       (plain_res (res_cause [ArgS ''source_ip_cidr''] (NewIPCIDRItem d True (dd_SourceIPCIDR opts)))),
     opt_res (dd_IPCIDR opts \<noteq> []) add_destinationIPCIDRItems
       (plain_res (res_cause [ArgS ''ip_cidr''] (NewIPCIDRItem d False (dd_IPCIDR opts)))),
     opt_item (dd_SourceIPIsPrivate opts) add_sourceAddressItems
       (PlainItem (NewIPIsPrivateItem True)),
     opt_item (dd_IPIsPrivate opts) add_destinationIPCIDRItems
       (PlainItem (NewIPIsPrivateItem False)),
     opt_item (dd_IPAcceptAny opts) add_destinationIPCIDRItems
       (PlainItem (NewIPAcceptAnyItem))]"

definition dns_port_stages ::
  "RawDefaultDNSRule \<Rightarrow>
     ('h item_rule \<Rightarrow> 'h item_rule res) list" where
  "dns_port_stages opts =
    [opt_item (dd_SourcePort opts \<noteq> []) add_sourcePortItems
       (PlainItem (NewPortItem True (dd_SourcePort opts))),
     opt_res (dd_SourcePortRange opts \<noteq> []) add_sourcePortItems
       (plain_res (res_cause [ArgS ''source_port_range''] (NewPortRangeItem True (dd_SourcePortRange opts)))),
     opt_item (dd_Port opts \<noteq> []) add_destinationPortItems
       (PlainItem (NewPortItem False (dd_Port opts))),
     opt_res (dd_PortRange opts \<noteq> []) add_destinationPortItems
       (plain_res (res_cause [ArgS ''port_range''] (NewPortRangeItem False (dd_PortRange opts))))]"

definition dns_process_stages ::
  "'h deps \<Rightarrow> RawDefaultDNSRule \<Rightarrow>
     ('h item_rule \<Rightarrow> 'h item_rule res) list" where
  "dns_process_stages d opts =
    [opt_item (dd_ProcessName opts \<noteq> []) add_items
       (PlainItem (NewProcessItem (dd_ProcessName opts))),
     opt_item (dd_ProcessPath opts \<noteq> []) add_items
       (PlainItem (NewProcessPathItem (dd_ProcessPath opts))),
     opt_res (dd_ProcessPathRegex opts \<noteq> []) add_items
       (plain_res (res_cause [ArgS ''process_path_regex''] (NewProcessPathRegexItem d (dd_ProcessPathRegex opts)))),
     opt_item (dd_PackageName opts \<noteq> []) add_items
       (PlainItem (NewPackageNameItem (dd_PackageName opts))),
     opt_item (dd_User opts \<noteq> []) add_items
       (PlainItem (NewUserItem (dd_User opts))),
     opt_item (dd_UserID opts \<noteq> []) add_items
       (PlainItem (NewUserIDItem (dd_UserID opts))),
     opt_item (dd_Outbound opts \<noteq> []) add_items
       (PlainItem (NewOutboundRule (dd_Outbound opts))),
     opt_item (dd_ClashMode opts \<noteq> []) add_items
       (PlainItem (NewClashModeItem (dd_ClashMode opts)))]"

definition dns_network_stages ::
  "'h deps \<Rightarrow> RawDefaultDNSRule \<Rightarrow>
     ('h item_rule \<Rightarrow> 'h item_rule res) list" where
  "dns_network_stages d opts =
    [opt_item (dd_NetworkType opts \<noteq> []) add_items
       (PlainItem (NewNetworkTypeItem (dd_NetworkType opts))),
     opt_item (dd_NetworkIsExpensive opts) add_items
       (PlainItem (NetworkIsExpensiveItem)),
     opt_item (dd_NetworkIsConstrained opts) add_items
       (PlainItem (NetworkIsConstrainedItem)),
     opt_item (dd_WIFISSID opts \<noteq> []) add_items
       (PlainItem (NewWIFISSIDItem (dd_WIFISSID opts))),
     opt_item (dd_WIFIBSSID opts \<noteq> []) add_items
       (PlainItem (NewWIFIBSSIDItem (dd_WIFIBSSID opts))),
     opt_item (dd_InterfaceAddress opts \<noteq> None \<and> the (dd_InterfaceAddress opts) \<noteq> []) add_items
       (PlainItem (NewInterfaceAddressItem d (the (dd_InterfaceAddress opts)))),
     opt_item (dd_NetworkInterfaceAddress opts \<noteq> None \<and> the (dd_NetworkInterfaceAddress opts) \<noteq> []) add_items
       (PlainItem (NewNetworkInterfaceAddressItem d (the (dd_NetworkInterfaceAddress opts)))),
     opt_item (dd_DefaultInterfaceAddress opts \<noteq> []) add_items
       (PlainItem (NewDefaultInterfaceAddressItem d (dd_DefaultInterfaceAddress opts))),
     opt_item (dd_RuleSet opts \<noteq> []) add_items
       (NewRuleSetItem (dd_RuleSet opts)
         (dd_RuleSetIPCIDRMatchSource opts \<or> dd_Deprecated_RulesetIPCIDRMatchSource opts) (dd_RuleSetIPCIDRAcceptEmpty opts))]"

definition NewDefaultDNSRule ::
  "'h deps \<Rightarrow> RawDefaultDNSRule \<Rightarrow> DNSRuleActionOptions \<Rightarrow> 'h item_rule res" where
  "NewDefaultDNSRule d opts act =
     res_bind (NewDNSRuleAction act) (\<lambda>action.
       run_stages (dns_inbound_stages opts @ dns_domain_stages d opts @ dns_ip_stages d opts @
           dns_port_stages opts @ dns_process_stages d opts @ dns_network_stages d opts)
         (empty_rule (dd_Invert opts) action))"

definition missing_server :: "DNSRuleActionOptions \<Rightarrow> bool \<Rightarrow> bool" where
  "missing_server act check \<longleftrightarrow>
     (dua_Action act = [] \<or> dua_Action act = RuleActionTypeRoute) \<and>
     dra_Server (dua_RouteOptions act) = [] \<and> check"

fun NewDNSRule :: "'h deps \<Rightarrow> bool \<Rightarrow> DNSRuleOptions \<Rightarrow> 'h DNSRule res" where
  "NewDNSRule d check (DNSRuleOptions type def act mode rules neg lact) =
     (if type = [] \<or> type = RuleTypeDefault then
        (if \<not> DefaultDNSRuleOptions_IsValid def act then Inl (ENew [ArgS ''missing conditions''])
         else if missing_server act check then Inl (ENew [ArgS ''missing server field''])
         else res_bind (NewDefaultDNSRule d def act) (\<lambda>r. Inr (DefaultDNSRule r)))
      else if type = RuleTypeLogical then
        res_bind (LogicalDNSRuleOptions_IsValid rules) (\<lambda>valid.
          if \<not> valid then Inl (ENew [ArgS ''missing conditions''])
          else if missing_server lact check then Inl (ENew [ArgS ''missing server field''])
          else
            res_bind (NewDNSRuleAction lact) (\<lambda>action.
            res_bind (logical_mode mode) (\<lambda>mode.
            res_bind (sub_rules sub_rule_text (NewDNSRule d False) 0 rules) (\<lambda>rs.
              Inr (LogicalDNSRule rs mode neg action)))))
      else Inl (ENew [ArgS ''unknown rule type: '', ArgS type]))"

fun DNSRule_Action :: "'h DNSRule \<Rightarrow> 'h RuleAction option" where
  "DNSRule_Action (DefaultDNSRule r) = action r"
| "DNSRule_Action (LogicalDNSRule rules mode neg act) = act"

text \<open>\<^verbatim>\<open>ContainsDestinationIPCIDRRule\<close> called on the items that are rule-set items.\<close>

fun item_address_limit :: "'h rule_sets \<Rightarrow> 'h Item \<Rightarrow> bool" where
  "item_address_limit sets (RuleSetItem tagList setList src acc) =
     RuleSetItem_ContainsDestinationIPCIDRRule sets setList src"
| "item_address_limit sets (PlainItem item) = False"

definition DefaultDNSRule_WithAddressLimit :: "'h rule_sets \<Rightarrow> 'h item_rule \<Rightarrow> bool" where
  "DefaultDNSRule_WithAddressLimit sets r =
     (if length (destinationIPCIDRItems r) > 0 then True
      else list_ex (item_address_limit sets) (items r))"

fun DNSRule_WithAddressLimit :: "'h rule_sets \<Rightarrow> 'h DNSRule \<Rightarrow> bool" where
  "DNSRule_WithAddressLimit sets (DefaultDNSRule r) = DefaultDNSRule_WithAddressLimit sets r"
| "DNSRule_WithAddressLimit sets (LogicalDNSRule rules mode neg act) =
     list_ex (DNSRule_WithAddressLimit sets) rules"

definition DefaultDNSRule_Match :: "'h deps \<Rightarrow> env \<Rightarrow> 'h rule_sets \<Rightarrow> 'h item_rule matcher" where
  "DefaultDNSRule_Match d e sets r md =
     (case abstractDefaultRule_Match is_RuleSetItem (Item_Match d e sets) r
             (md\<lparr>md_IgnoreDestinationIPCIDRMatch := True\<rparr>) of
        (b, md) \<Rightarrow> (b, md\<lparr>md_IgnoreDestinationIPCIDRMatch := False\<rparr>))"

fun DNSRule_Match :: "'h deps \<Rightarrow> env \<Rightarrow> 'h rule_sets \<Rightarrow> 'h DNSRule matcher" where
  "DNSRule_Match d e sets (DefaultDNSRule r) md = DefaultDNSRule_Match d e sets r md"
| "DNSRule_Match d e sets (LogicalDNSRule rules mode neg act) md =
     abstractLogicalRule_Match (DNSRule_Match d e sets) rules mode neg md"

fun DNSRule_MatchAddressLimit :: "'h deps \<Rightarrow> env \<Rightarrow> 'h rule_sets \<Rightarrow> 'h DNSRule matcher" where
  "DNSRule_MatchAddressLimit d e sets (DefaultDNSRule r) md =
     abstractDefaultRule_Match is_RuleSetItem (Item_Match d e sets) r md"
| "DNSRule_MatchAddressLimit d e sets (LogicalDNSRule rules mode neg act) md =
     abstractLogicalRule_Match (DNSRule_MatchAddressLimit d e sets) rules mode neg md"

fun DNSRule_Start :: "env \<Rightarrow> 'h DNSRule \<Rightarrow> 'h rule_sets \<Rightarrow> 'h DNSRule res \<times> 'h rule_sets"
  and DNSRules_Start :: "env \<Rightarrow> 'h DNSRule list \<Rightarrow> 'h rule_sets \<Rightarrow> 'h DNSRule list res \<times> 'h rule_sets" where
  "DNSRule_Start e (DefaultDNSRule r) sets =
     (case abstractDefaultRule_Start (Item_Start e) r sets of
        (Inl err, sets) \<Rightarrow> (Inl err, sets)
      | (Inr r, sets) \<Rightarrow> (Inr (DefaultDNSRule r), sets))"
| "DNSRule_Start e (LogicalDNSRule rules mode neg act) sets =
     (case DNSRules_Start e rules sets of
        (Inl err, sets) \<Rightarrow> (Inl err, sets)
      | (Inr rules, sets) \<Rightarrow> (Inr (LogicalDNSRule rules mode neg act), sets))"
| "DNSRules_Start e [] sets = (Inr [], sets)"
| "DNSRules_Start e (r # rs) sets =
     (case DNSRule_Start e r sets of
        (Inl err, sets) \<Rightarrow> (Inl err, sets)
      | (Inr r, sets) \<Rightarrow>
          (case DNSRules_Start e rs sets of
             (Inl err, sets) \<Rightarrow> (Inl err, sets)
           | (Inr rs, sets) \<Rightarrow> (Inr (r # rs), sets)))"

section \<open>Lemmas\<close>

lemmas dns_stage_defs =
  dns_inbound_stages_def dns_domain_stages_def dns_ip_stages_def dns_port_stages_def
  dns_process_stages_def dns_network_stages_def

lemma NewDefaultDNSRule_keeps:
  assumes "NewDefaultDNSRule d opts act = Inr r" "\<And>a. P (empty_rule (dd_Invert opts) a)"
    and "\<And>item r. P r \<Longrightarrow> P (add_items item r)"
    and "\<And>item r. P r \<Longrightarrow> P (add_sourceAddressItems item r)"
    and "\<And>item r. P r \<Longrightarrow> P (add_sourcePortItems item r)"
    and "\<And>item r. P r \<Longrightarrow> P (add_destinationAddressItems item r)"
    and "\<And>item r. P r \<Longrightarrow> P (add_destinationIPCIDRItems item r)"
    and "\<And>item r. P r \<Longrightarrow> P (add_destinationPortItems item r)"
  shows "P r"
proof -
  have "\<forall>stage\<in>set (dns_inbound_stages opts). stage_keeps P stage"
    "\<forall>stage\<in>set (dns_domain_stages d opts). stage_keeps P stage"
    "\<forall>stage\<in>set (dns_ip_stages d opts). stage_keeps P stage"
    "\<forall>stage\<in>set (dns_port_stages opts). stage_keeps P stage"
    "\<forall>stage\<in>set (dns_process_stages d opts). stage_keeps P stage"
    "\<forall>stage\<in>set (dns_network_stages d opts). stage_keeps P stage"
    using assms(3-8) unfolding dns_stage_defs by (simp_all add: stage_intros)
  moreover from assms(1) obtain a where "run_stages (dns_inbound_stages opts @ dns_domain_stages d opts @
      dns_ip_stages d opts @ dns_port_stages opts @ dns_process_stages d opts @ dns_network_stages d opts)
      (empty_rule (dd_Invert opts) a) = Inr r"
    by (auto simp: NewDefaultDNSRule_def res_bind_Inr_iff)
  ultimately show ?thesis using assms(2) by (elim run_stages_keeps) auto
qed

lemma NewDefaultDNSRule_wf: "NewDefaultDNSRule d opts act = Inr r \<Longrightarrow> rule_wf r"
  by (erule NewDefaultDNSRule_keeps) simp_all

subsection \<open>What an evaluation leaves behind\<close>

lemma DefaultDNSRule_Match_ign:
  "DefaultDNSRule_Match d e sets r md =
     apsnd (ign False) (abstractDefaultRule_Match is_RuleSetItem (Item_Match d e sets) r (ign True md))"
  by (simp add: DefaultDNSRule_Match_def ign_def split: prod.split)

lemma ign_ign [simp]: "ign a (ign b md) = ign a md"
  by (simp add: ign_def)

lemma ign_self [simp]: "\<not> md_IgnoreDestinationIPCIDRMatch md \<Longrightarrow> ign False md = md"
  by (cases md) (simp add: ign_def)

lemma ResetRuleCache_ignore:
  "ResetRuleCache md = ResetRuleCache md' \<Longrightarrow>
   md_IgnoreDestinationIPCIDRMatch md = md_IgnoreDestinationIPCIDRMatch md'"
  by (metis ResetRuleCache_sel(8))

lemma DNSRule_Match_keeps:
  "\<not> md_IgnoreDestinationIPCIDRMatch md \<Longrightarrow>
   ResetRuleCache (snd (DNSRule_Match d e sets r md)) = ResetRuleCache md"
proof (induction r arbitrary: md)
  case (DefaultDNSRule r)
  have "ResetRuleCache (snd (abstractDefaultRule_Match is_RuleSetItem (Item_Match d e sets) r (ign True md))) =
      ign True (ResetRuleCache md)" by (simp add: item.default_keeps)
  then show ?case using DefaultDNSRule by (simp add: DefaultDNSRule_Match_ign)
next
  case (LogicalDNSRule rules mode neg act)
  have "ResetRuleCache (snd (abstractLogicalRule_Match (DNSRule_Match d e sets) rules mode neg md)) =
      ResetRuleCache md"
  proof (rule logical_keeps_if)
    fix r s
    assume "r \<in> set rules" "ResetRuleCache s = ResetRuleCache md"
    with LogicalDNSRule show "ResetRuleCache (snd (DNSRule_Match d e sets r (ResetRuleCache s))) = ResetRuleCache md"
      by simp
  qed
  then show ?case by simp
qed

lemma DNSRule_MatchAddressLimit_keeps:
  "ResetRuleCache (snd (DNSRule_MatchAddressLimit d e sets r md)) = ResetRuleCache md"
proof (induction r arbitrary: md)
  case (DefaultDNSRule r)
  show ?case by (simp add: item.default_keeps)
next
  case (LogicalDNSRule rules mode neg act)
  then show ?case by (simp add: logical_keeps_on)
qed

interpretation dnslimit: cache_frame "DNSRule_MatchAddressLimit d e sets" for d e sets
  by unfold_locales (rule DNSRule_MatchAddressLimit_keeps)

text \<open>A logical DNS rule, in both passes, is the combination of its sub-rules.\<close>

lemma LogicalDNSRule_Match_spec:
  assumes "\<not> md_IgnoreDestinationIPCIDRMatch md"
  shows "fst (DNSRule_Match d e sets (LogicalDNSRule rules mode neg act) md) \<longleftrightarrow>
     (if mode = LogicalTypeAnd then \<forall>r\<in>set rules. fst (DNSRule_Match d e sets r (ResetRuleCache md))
      else \<exists>r\<in>set rules. fst (DNSRule_Match d e sets r (ResetRuleCache md))) \<noteq> neg"
  unfolding DNSRule_Match.simps
proof (rule logical_spec_if)
  fix r s
  assume "r \<in> set rules" "ResetRuleCache s = ResetRuleCache md"
  with assms show "ResetRuleCache (snd (DNSRule_Match d e sets r (ResetRuleCache s))) = ResetRuleCache md"
    by (simp add: DNSRule_Match_keeps)
qed

subsection \<open>Rules without conditions on the response\<close>

text \<open>The metadata of the rule sets is truthful when a set that does not announce IP CIDR conditions
  has none.\<close>

definition sets_truthful :: "'h rule_sets \<Rightarrow> bool" where
  "sets_truthful sets \<longleftrightarrow> (\<forall>tag s. sets tag = Some s \<longrightarrow>
     ContainsIPCIDRRule (RuleSet_Metadata s) \<or> list_all no_ipcidr (RuleSet_rules s))"

fun no_match_source :: "'h Item \<Rightarrow> bool" where
  "no_match_source (RuleSetItem tagList setList src acc) = (\<not> src)"
| "no_match_source (PlainItem item) = True"

fun dns_no_match_source :: "'h DNSRule \<Rightarrow> bool" where
  "dns_no_match_source (DefaultDNSRule r) \<longleftrightarrow> (\<forall>i\<in>all_groups r. no_match_source i)"
| "dns_no_match_source (LogicalDNSRule rules mode neg act) \<longleftrightarrow> list_all dns_no_match_source rules"

text \<open>Rule-set items are in the group \<open>items\<close> only.\<close>

fun dns_rule_sets_in_items :: "'h DNSRule \<Rightarrow> bool" where
  "dns_rule_sets_in_items (DefaultDNSRule r) \<longleftrightarrow>
     (\<forall>i\<in>set (sourceAddressItems r) \<union> set (sourcePortItems r) \<union> set (destinationAddressItems r) \<union>
         set (destinationIPCIDRItems r) \<union> set (destinationPortItems r). \<not> is_RuleSetItem i)"
| "dns_rule_sets_in_items (LogicalDNSRule rules mode neg act) \<longleftrightarrow> list_all dns_rule_sets_in_items rules"

lemma RuleSet_Match_tag_ign_free:
  assumes "sets_truthful sets" "\<And>s. sets tag = Some s \<Longrightarrow> \<not> ContainsIPCIDRRule (RuleSet_Metadata s)"
  shows "ign_free (RuleSet_Match_tag d e sets) tag"
proof (cases "sets tag")
  case (Some s)
  with assms have "\<forall>r\<in>set (RuleSet_rules s). ign_free (HeadlessRule_Match d e) r"
    unfolding sets_truthful_def list_all_iff by (blast intro: HeadlessRule_ign_free)
  with Some show ?thesis by (simp add: ign_free_def [of _ tag] RuleSet_Match_tag_def RuleSet_Match_rules any_st_ign)
qed (simp add: ign_free_def RuleSet_Match_tag_def)

lemma Item_ign_free:
  assumes "sets_truthful sets" "\<not> item_address_limit sets item" "no_match_source item"
  shows "ign_free (Item_Match d e sets) item"
proof (cases item)
  case (PlainItem i)
  then show ?thesis using RuleItem_ign_free [of d e i] by (simp add: ign_free_def)
next
  case (RuleSetItem tagList setList src acc)
  with assms have "\<forall>tag\<in>set setList. ign_free (RuleSet_Match_tag d e sets) tag"
    by (auto simp: RuleSetItem_ContainsDestinationIPCIDRRule_def list_ex_iff
        intro!: RuleSet_Match_tag_ign_free)
  with RuleSetItem show ?thesis
    by (simp add: ign_free_def [of _ "RuleSetItem tagList setList src acc"] RuleSetItem_Match_def any_st_ign)
qed

lemma DNSRule_ign_free:
  assumes "sets_truthful sets"
  shows "\<not> DNSRule_WithAddressLimit sets r \<Longrightarrow> dns_no_match_source r \<Longrightarrow> dns_rule_sets_in_items r \<Longrightarrow>
    ign_free (DNSRule_MatchAddressLimit d e sets) r"
proof (induction r)
  case (DefaultDNSRule r)
  have "ign_free (Item_Match d e sets) i" if i: "i \<in> all_groups r" for i
  proof (cases "is_RuleSetItem i")
    case True
    with i DefaultDNSRule.prems have "\<not> item_address_limit sets i"
      by (auto simp: DefaultDNSRule_WithAddressLimit_def all_groups_def list_ex_iff split: if_splits)
    with i DefaultDNSRule.prems show ?thesis by (intro Item_ign_free assms) auto
  next
    case False
    then obtain j where "i = PlainItem j" by (cases i) auto
    then show ?thesis using RuleItem_ign_free [of d e j] by (simp add: ign_free_def)
  qed
  moreover have "destinationIPCIDRItems r = []"
    using DefaultDNSRule.prems by (auto simp: DefaultDNSRule_WithAddressLimit_def split: if_splits)
  ultimately have "ign_free (abstractDefaultRule_Match is_RuleSetItem (Item_Match d e sets)) r"
    by (intro default_ign) auto
  then show ?case by (simp add: ign_free_def)
next
  case (LogicalDNSRule rules mode neg act)
  then have "\<forall>r\<in>set rules. ign_free (DNSRule_MatchAddressLimit d e sets) r"
    by (auto simp: list_all_iff list_ex_iff)
  then show ?case by (simp add: ign_free_def [of _ "LogicalDNSRule rules mode neg act"] logical_ign)
qed

text \<open>Then the two passes are one: they give the same answer and leave the same metadata.\<close>

lemma DNSRule_Match_eq_MatchAddressLimit:
  assumes "sets_truthful sets"
  shows "\<not> DNSRule_WithAddressLimit sets r \<Longrightarrow> dns_no_match_source r \<Longrightarrow> dns_rule_sets_in_items r \<Longrightarrow>
    \<not> md_IgnoreDestinationIPCIDRMatch md \<Longrightarrow>
    fst (DNSRule_Match d e sets r md) = fst (DNSRule_MatchAddressLimit d e sets r md)"
proof (induction r arbitrary: md)
  case (DefaultDNSRule r)
  then have "ign_free (DNSRule_MatchAddressLimit d e sets) (DefaultDNSRule r)"
    by (intro DNSRule_ign_free assms)
  then show ?case by (simp add: ign_free_def DefaultDNSRule_Match_ign)
next
  case (LogicalDNSRule rules mode neg act)
  have "fst (DNSRule_Match d e sets r (ResetRuleCache md)) =
      fst (DNSRule_MatchAddressLimit d e sets r (ResetRuleCache md))" if "r \<in> set rules" for r
    using that LogicalDNSRule by (intro LogicalDNSRule.IH) (auto simp: list_all_iff list_ex_iff)
  then show ?case
    using LogicalDNSRule.prems(4) by (simp add: LogicalDNSRule_Match_spec dnslimit.logical_spec
        del: DNSRule_Match.simps(2))
qed

end
