(* ===== verification/Samples.thy ===== *)
theory Samples
  imports Router DNSRules
begin

text \<open>
  Concrete arguments for the examples that accompany the theorems: one instance of each record
  of functions that the model takes for code outside the sources. The handle of a matcher or a
  regular expression is a list of strings, and each function behaves as documented on the
  few inputs that the examples use. No theorem depends on these instances.
\<close>

fun sample_arg :: "arg \<Rightarrow> string" where
  "sample_arg (ArgS s) = s"
| "sample_arg _ = []"

fun sample_range :: "builder_call \<Rightarrow> myIPRange" where
  "sample_range (AddAddr a) = \<lparr>rr_from = a, rr_to = a\<rparr>"
| "sample_range (AddPrefix p) =
     (case pfx_Addr p of
        Addr4 a \<Rightarrow> \<lparr>rr_from = Addr4 a, rr_to = Addr4 (a + 2 ^ (32 - nat (pfx_Bits p)) - 1)\<rparr>
      | b \<Rightarrow> \<lparr>rr_from = b, rr_to = b\<rparr>)"

fun sample_in_range :: "Addr \<Rightarrow> myIPRange \<Rightarrow> bool" where
  "sample_in_range (Addr4 a) r =
     (case (rr_from r, rr_to r) of (Addr4 lo, Addr4 hi) \<Rightarrow> lo \<le> a \<and> a \<le> hi | _ \<Rightarrow> False)"
| "sample_in_range a r = (rr_from r = a)"

definition sample_deps :: "string list deps" where
  "sample_deps =
     \<lparr>F_ToString = (\<lambda>as. concat (map sample_arg as)),
      F_MapToString = map sample_arg,
      domain_NewMatcher = (\<lambda>domains suffixes generate. domains),
      domain_Matcher_Match = (\<lambda>h s. s \<in> set h),
      domain_NewAdGuardMatcher = (\<lambda>rules. rules),
      domain_AdGuardMatcher_Match = (\<lambda>h s. s \<in> set h),
      regexp_Compile = (\<lambda>s. Inr [s]),
      regexp_MatchString = (\<lambda>h s. h = [s]),
      netip_ParsePrefix = (\<lambda>s. if s = ''10.0.0.0/8'' then Inr \<lparr>pfx_Addr = Addr4 0x0A000000, pfx_Bits = 8\<rparr>
                               else Inl EInvalid),
      netip_ParseAddr = (\<lambda>s. if s = ''10.0.0.1'' then Inr (Addr4 0x0A000001) else Inl EInvalid),
      netip_Prefix_String = (\<lambda>p. ''10.0.0.0/8''),
      netip_Addr_String = (\<lambda>a. ''10.0.0.1''),
      time_Duration_String = (\<lambda>n. ''1s''),
      netipx_IPSet = (\<lambda>calls. Inr \<lparr>rr = map sample_range calls\<rparr>),
      netipx_IPSet_Contains = (\<lambda>s a. list_ex (sample_in_range a) (rr s)),
      N_IsPublicAddr = (\<lambda>a. False),
      M_IsIP = (\<lambda>s. Addr_IsValid (sa_Addr s)),
      M_IsIPv4 = (\<lambda>s. Addr_Is4 (sa_Addr s)),
      M_IsIPv6 = (\<lambda>s. Addr_Is6 (sa_Addr s)),
      M_IsFqdn = (\<lambda>s. \<not> Addr_IsValid (sa_Addr s) \<and> sa_Fqdn s \<noteq> []),
      M_IsValid = (\<lambda>s. Addr_IsValid (sa_Addr s) \<or> sa_Fqdn s \<noteq> []),
      M_AddrString = (\<lambda>s. sa_Fqdn s),
      M_ParseSocksaddrHostPort = (\<lambda>host port. \<lparr>sa_Addr = AddrZero, sa_Port = port, sa_Fqdn = host\<rparr>),
      strings_ToLower = (\<lambda>s. s),
      strings_EqualFold = (\<lambda>s t. s = t),
      filepath_Base = (\<lambda>s. s),
      badoption_Prefixable_Build = (\<lambda>p def. case p of None \<Rightarrow> def | Some q \<Rightarrow> q),
      mDNS_TypeToString = (\<lambda>n. None),
      mDNS_RcodeToString = (\<lambda>n. [])\<rparr>"

definition sample_env :: env where
  "sample_env =
     \<lparr>env_DefaultNetworkInterface = None, env_NetworkInterfaces = [], env_Interfaces = [],
      env_DefaultInterface = None, env_SSID = [], env_BSSID = [], env_ClashMode = None,
      env_Outbound = (\<lambda>tag. None)\<rparr>"

text \<open>Sniffers that never recognise anything.\<close>

definition sample_sniff :: sniff_deps where
  "sample_sniff =
     \<lparr>sd_stream = (\<lambda>s content md. (Some EInvalid, md)),
      sd_packet = (\<lambda>s content md. (Some EInvalid, md)),
      M_IsDomainName = (\<lambda>s. s \<noteq> [])\<rparr>"

definition sample_outbound :: Outbound where
  "sample_outbound =
     \<lparr>ob_Tag = ''direct'', ob_Network = [NetworkTCP, NetworkUDP], ob_ConnectionHandler = False,
      ob_PacketConnectionHandler = False, ob_DirectRoute = True\<rparr>"

definition sample_route :: route_deps where
  "sample_route =
     \<lparr>rd_processSearcher = None, rd_user_LookupId = (\<lambda>uid. None), rd_FakeIP = None,
      rd_LookupReverseMapping = (\<lambda>a. None), rd_Transport = (\<lambda>tag. None),
      rd_Lookup = (\<lambda>md name opts. Inr [Addr4 0x0A000001]), rd_Inbound = (\<lambda>tag. None),
      rd_Outbound = (\<lambda>tag. if tag = ''proxy'' then Some (sample_outbound\<lparr>ob_Tag := ''proxy''\<rparr>) else None),
      rd_Default = sample_outbound, rd_trackers = [], rd_sniff = sample_sniff,
      rd_mux_Destination = ''sp.mux'', rd_vmess_MuxDestination = ''v1.mux'',
      rd_uot_MagicAddress = ''sp.v2'', rd_uot_LegacyMagicAddress = ''sp.v1''\<rparr>"

definition sample_route_options :: RouteOptions where
  "sample_route_options =
     \<lparr>ro_OverrideAddress = Socksaddr_zero, ro_OverridePort = 0, ro_NetworkStrategy = None,
      ro_NetworkType = [], ro_FallbackNetworkType = [], ro_FallbackDelay = 0,
      ro_UDPDisableDomainUnmapping = False, ro_UDPConnect = False, ro_UDPTimeout = 0,
      ro_TLSFragment = False, ro_TLSFragmentFallbackDelay = 0, ro_TLSRecordFragment = False\<rparr>"

definition sample_sniff_action :: "string list \<Rightarrow> SniffAction" where
  "sample_sniff_action names =
     \<lparr>sn_SnifferNames = names, sn_StreamSniffers = [TLSClientHello], sn_PacketSniffers = [QUICClientHello],
      sn_Timeout = 0, sn_OverrideDestination = False\<rparr>"

text \<open>A rule without items, which matches every connection, and its action.\<close>

definition always :: "'h RuleAction \<Rightarrow> 'h Rule" where
  "always a = DefaultRule (empty_rule False (Some a))"

lemma always_simps [simp]:
  "Rule_Match d e sets (always a) md = (True, md)" "Rule_Action (always a) = Some a"
  by (simp_all add: always_def empty_rule_def abstractDefaultRule_Match_def)

lemmas sample_defs =
  sample_deps_def sample_env_def sample_sniff_def sample_route_def sample_outbound_def
  sample_route_options_def sample_sniff_action_def

end
