(* ===== verification/RouterProps.thy ===== *)
theory RouterProps
  imports Samples "HOL-Library.Multiset"
begin

text \<open>
  What the router guarantees: which rule is selected, which outbound a connection can reach, and
  what becomes of the bytes and packets that sniffing has read. The lemmas first reduce the
  rule loop to a property that each action keeps; the theorems about the callers follow.
\<close>


section \<open>The order of the rules\<close>

text \<open>A rule matches when it does so on a fresh rule cache; the first rule that matches.\<close>

definition rule_matches :: "'h deps \<Rightarrow> env \<Rightarrow> 'h rule_sets \<Rightarrow> InboundContext \<Rightarrow> 'h Rule \<Rightarrow> bool" where
  "rule_matches d e sets md r \<longleftrightarrow> fst (Rule_Match d e sets r (ResetRuleCache md))"

fun first_rule :: "('a \<Rightarrow> bool) \<Rightarrow> nat \<Rightarrow> 'a list \<Rightarrow> (nat \<times> 'a) option" where
  "first_rule P i [] = None"
| "first_rule P i (r # rs) = (if P r then Some (i, r) else first_rule P (Suc i) rs)"

definition final_action :: "'h RuleAction \<Rightarrow> bool" where
  "final_action a \<longleftrightarrow>
     RuleAction_Type a \<in> {RuleActionTypeRoute, RuleActionTypeReject, RuleActionTypeHijackDNS}"

definition final_rule :: "'h Rule \<Rightarrow> bool" where
  "final_rule r \<longleftrightarrow> (case Rule_Action r of None \<Rightarrow> False | Some a \<Rightarrow> final_action a)"

lemma first_rule_None: "first_rule P i rs = None \<longleftrightarrow> (\<forall>r\<in>set rs. \<not> P r)"
  by (induction rs arbitrary: i) simp_all

lemma first_rule_Some:
  "first_rule P i rs = Some (j, r) \<longleftrightarrow>
     (\<exists>k < length rs. j = i + k \<and> r = rs ! k \<and> P r \<and> (\<forall>l < k. \<not> P (rs ! l)))"
proof (induction rs arbitrary: i)
  case (Cons s rs)
  show ?case
    by (auto simp: Cons.IH Ex_less_Suc2 All_less_Suc2)
qed simp

lemma Rule_Match_cong:
  "ResetRuleCache md = ResetRuleCache md' \<Longrightarrow> rule_matches d e sets md = rule_matches d e sets md'"
  by (simp add: rule_matches_def fun_eq_iff)

lemma final_action_simps [simp]:
  "final_action (RuleActionRoute t ro)" "final_action (RuleActionReject rj)"
  "final_action RuleActionHijackDNS" "final_action (RuleActionDNSRoute t dn)"
  "\<not> final_action (RuleActionSniff sn)" "\<not> final_action (RuleActionResolve rs)"
  "\<not> final_action (RuleActionRouteOptions ro)" "\<not> final_action (RuleActionDirect h s)"
  "\<not> final_action (RuleActionDNSRouteOptions dn)" "\<not> final_action (RuleActionPredefined pd)"
  by (simp_all add: final_action_def action_types)

lemma perform_action_final:
  "final_action a \<Longrightarrow> \<exists>ms'. perform_action d rd pre a ms = (Inr True, ms')"
  by (cases a) (simp_all add: perform_action_def)

lemma perform_action_selects:
  assumes "perform_action d rd pre a ms = (Inr b, ms')"
  shows "b \<longleftrightarrow> final_action a \<or>
    (\<exists>sn. a = RuleActionSniff sn \<and> pre \<and> md_Network (ms_md ms) \<noteq> NetworkICMP)"
  using assms
  by (cases a) (auto simp: perform_action_def action_types split: prod.splits sum.splits if_splits)

lemma match_rules_final:
  assumes "list_all final_rule rules"
  shows "fst (match_rules d e sets rd pre i rules ms) =
    Inr (first_rule (rule_matches d e sets (ms_md ms)) i rules)"
  using assms
proof (induction rules arbitrary: i ms)
  case (Cons r rules)
  obtain b md where m: "Rule_Match d e sets r (ResetRuleCache (ms_md ms)) = (b, md)" by fastforce
  have keep: "ResetRuleCache md = ResetRuleCache (ms_md ms)"
    using Rule_Match_keeps [of d e sets r "ResetRuleCache (ms_md ms)"] by (simp add: m)
  from Cons.prems obtain a where a: "Rule_Action r = Some a" "final_action a"
    by (auto simp: final_rule_def split: option.splits)
  then obtain ms' where p: "perform_action d rd pre a (ms\<lparr>ms_md := md\<rparr>) = (Inr True, ms')"
    using perform_action_final by blast
  show ?case
    using Cons.IH [of "Suc i" "ms\<lparr>ms_md := md\<rparr>"] Cons.prems
      Rule_Match_cong [OF keep, of d e sets]
    by (cases b) (simp_all add: m a p rule_matches_def)
qed simp

section \<open>What is selected\<close>

lemma match_rules_selected:
  assumes "match_rules d e sets rd pre i rules ms = (Inr (Some (j, r)), ms')"
  shows "i \<le> j \<and> j < i + length rules \<and> r = rules ! (j - i) \<and>
    (\<exists>a. Rule_Action r = Some a \<and> (final_action a \<or> pre \<and> (\<exists>sn. a = RuleActionSniff sn)))"
  using assms
proof (induction rules arbitrary: i ms)
  case (Cons s rules)
  note IH = Cons.IH [of "Suc i"]
  from Cons.prems show ?case
    by (auto split: prod.splits bool.splits option.splits sum.splits
      dest!: IH perform_action_selects simp: nth_Cons' Suc_le_eq)
qed simp

section \<open>Bytes and packets are neither lost nor invented\<close>

text \<open>What is left to read of an input, and what reading a wrapped connection gives: a cached
  connection gives its buffer first (\<^verbatim>\<open>bufio.CachedConn\<close>, \<^verbatim>\<open>bufio.CachedPacketConn\<close>).\<close>

definition payload :: "'a list res list \<Rightarrow> 'a list" where
  "payload rs = concat (map (\<lambda>r. case r of Inl err \<Rightarrow> [] | Inr b \<Rightarrow> b) rs)"

definition packets :: "packet res list \<Rightarrow> packet list" where
  "packets rs = concat (map (\<lambda>r. case r of Inl err \<Rightarrow> [] | Inr p \<Rightarrow> [p]) rs)"

fun input_bytes :: "input \<Rightarrow> bytes" where
  "input_bytes (StreamConn c) = payload (sc_reads c)"
| "input_bytes _ = []"

fun input_packets :: "input \<Rightarrow> packet list" where
  "input_packets (PacketConn c) = packets (pc_reads c)"
| "input_packets _ = []"

fun conn_bytes :: "conn \<Rightarrow> bytes" where
  "conn_bytes (RawConn c) = payload (sc_reads c)"
| "conn_bytes (CachedConn c b) = b @ conn_bytes c"
| "conn_bytes (TrackedConn c t) = conn_bytes c"

fun pconn_packets :: "pconn \<Rightarrow> packet list" where
  "pconn_packets (RawPacketConn c) = packets (pc_reads c)"
| "pconn_packets (CachedPacketConn c b a) = (b, a) # pconn_packets c"
| "pconn_packets (TrackedPacketConn c t) = pconn_packets c"
| "pconn_packets (NATPacketConn c o1 o2) = pconn_packets c"

fun routed_conn :: "'c routed \<Rightarrow> 'c option" where
  "routed_conn (InjectInbound tag c md) = Some c"
| "routed_conn (HijackDNS c md) = Some c"
| "routed_conn (HijackDNSPacket c ps md) = Some c"
| "routed_conn (HandledByOutbound ob c md) = Some c"
| "routed_conn (ConnectedToOutbound ob c md) = Some c"
| "routed_conn NotRouted = None"

lemma payload_simps [simp]:
  "payload [] = []" "payload (Inl err # rs) = payload rs" "payload (Inr b # rs) = b @ payload rs"
  by (simp_all add: payload_def)

lemma packets_simps [simp]:
  "packets [] = []" "packets (Inl err # rs) = packets rs" "packets (Inr p # rs) = p # packets rs"
  by (simp_all add: packets_def)

lemma PeekStream_loop_bytes:
  "PeekStream_loop sd ss pre dl i se buffer rs md = (err, md', buffer', rs') \<Longrightarrow>
     buffer' @ payload rs' = buffer @ payload rs"
  by (induction sd ss pre dl i se buffer rs md rule: PeekStream_loop.induct)
    (auto split: option.splits sum.splits prod.splits if_splits)

lemma sniff_read_packets:
  "sniff_read sd act ps pb rs md = (res, pb', md', rs') \<Longrightarrow> pb' @ packets rs' = pb @ packets rs"
  by (induction sd act ps pb rs md rule: sniff_read.induct)
    (auto split: option.splits prod.splits if_splits)

lemma sniff_stream_conserves:
  "(case sr_buffer (sniff_stream sd act c bufs md) of None \<Rightarrow> [] | Some b \<Rightarrow> b) @
     input_bytes (sr_input (sniff_stream sd act c bufs md)) = payload (sc_reads c) \<and>
   (\<exists>c'. sr_input (sniff_stream sd act c bufs md) = StreamConn c')"
  by (auto simp: sniff_stream_def sniff_nothing_def PeekStream_def Let_def
    split: prod.splits dest!: PeekStream_loop_bytes)

lemma sniff_packets_conserves:
  "sr_packetBuffers (sniff_packets sd act c [] md) @
     input_packets (sr_input (sniff_packets sd act c [] md)) = packets (pc_reads c)"
  by (auto simp: sniff_packets_def sniff_nothing_def Let_def
    split: prod.splits option.splits sum.splits dest!: sniff_read_packets)

lemma sniff_kind:
  "sr_buffer (sniff_packets sd act pc pbufs md) = None"
  "sr_packetBuffers (sniff_stream sd act c bufs md) = []"
  "\<exists>c'. sr_input (sniff_packets sd act pc pbufs md) = PacketConn c'"
  by (auto simp: sniff_packets_def sniff_stream_def sniff_nothing_def Let_def
    split: prod.splits option.splits sum.splits)

lemma actionSniff_bytes:
  "(case sr_buffer (actionSniff sd act inp bufs pbufs md) of None \<Rightarrow> [] | Some b \<Rightarrow> b) @
     input_bytes (sr_input (actionSniff sd act inp bufs pbufs md)) = input_bytes inp"
proof (cases inp)
  case (PacketConn pc)
  moreover obtain c' where "sr_input (sniff_packets sd act pc pbufs md) = PacketConn c'"
    using sniff_kind(3) by blast
  ultimately show ?thesis by (simp add: actionSniff_def sniff_nothing_def sniff_kind)
qed (simp_all add: actionSniff_def sniff_nothing_def sniff_stream_conserves)

lemma actionSniff_packets:
  "sr_packetBuffers (actionSniff sd act inp bufs [] md) @
     input_packets (sr_input (actionSniff sd act inp bufs [] md)) = input_packets inp"
proof (cases inp)
  case (StreamConn c)
  moreover obtain c' where "sr_input (sniff_stream sd act c bufs md) = StreamConn c'"
    using sniff_stream_conserves by blast
  ultimately show ?thesis by (simp add: actionSniff_def sniff_nothing_def sniff_kind)
qed (simp_all add: actionSniff_def sniff_nothing_def sniff_packets_conserves)

lemma actionSniff_packet_buffer:
  "sr_buffer (actionSniff sd act (PacketConn c) bufs pbufs md) = None"
  by (simp add: actionSniff_def sniff_nothing_def sniff_kind)

text \<open>What a step of the rule loop does to the buffers: nothing, or one call of the sniff action.\<close>

definition state_bytes :: "match_state \<Rightarrow> bytes" where
  "state_bytes ms = concat (ms_buffers ms) @ input_bytes (ms_input ms)"

definition io_part :: "match_state \<Rightarrow> input \<times> bytes list \<times> packet list" where
  "io_part ms = (ms_input ms, ms_buffers ms, ms_packetBuffers ms)"

lemma io_part_md [simp]: "io_part (ms\<lparr>ms_md := md\<rparr>) = io_part ms"
  by (simp add: io_part_def)

lemma state_bytes_md [simp]: "state_bytes (ms\<lparr>ms_md := md\<rparr>) = state_bytes ms"
  by (simp add: state_bytes_def)

lemma match_sniff_bytes: "state_bytes (snd (match_sniff rd act ms)) = state_bytes ms"
  using actionSniff_bytes [of "rd_sniff rd" act "ms_input ms" "ms_buffers ms" "ms_packetBuffers ms" "ms_md ms"]
  by (auto simp: match_sniff_def state_bytes_def Let_def split: option.splits)

lemma match_resolve_io: "match_resolve d rd act ms = (res, ms') \<Longrightarrow> io_part ms' = io_part ms"
  by (auto simp: match_resolve_def split: sum.splits)

lemma io_part_bytes: "io_part ms = io_part ms' \<Longrightarrow> state_bytes ms = state_bytes ms'"
  by (simp add: io_part_def state_bytes_def)

fun is_Sniff :: "'h RuleAction \<Rightarrow> bool" where
  "is_Sniff (RuleActionSniff sn) = True"
| "is_Sniff _ = False"

lemma perform_action_io:
  "pre \<or> \<not> is_Sniff a \<Longrightarrow> io_part (snd (perform_action d rd pre a ms)) = io_part ms"
  by (cases a) (auto simp: perform_action_def split: prod.split sum.split dest: match_resolve_io)

lemma perform_action_sniff:
  "perform_action d rd False (RuleActionSniff sn) ms =
     (case match_sniff rd sn ms of (Inl err, ms) \<Rightarrow> (Inl err, ms) | (Inr u, ms) \<Rightarrow> (Inr False, ms))"
  by (simp add: perform_action_def action_types split: prod.split sum.split)

lemma perform_action_bytes: "state_bytes (snd (perform_action d rd pre a ms)) = state_bytes ms"
proof (cases "pre \<or> \<not> is_Sniff a")
  case True
  then show ?thesis by (intro io_part_bytes perform_action_io)
next
  case False
  then obtain sn where "a = RuleActionSniff sn" by (cases a) auto
  with False match_sniff_bytes [of rd sn ms] show ?thesis
    by (auto simp: perform_action_sniff split: prod.split sum.split)
qed

definition sniff_rules :: "'h Rule list \<Rightarrow> nat" where
  "sniff_rules rules =
     length (filter (\<lambda>r. case Rule_Action r of None \<Rightarrow> False | Some a \<Rightarrow> is_Sniff a) rules)"

definition inbound_sniffs :: "InboundContext \<Rightarrow> nat" where
  "inbound_sniffs md = (if io_SniffEnabled (md_InboundOptions md) then 1 else 0)"

lemma sniff_rules_simps [simp]:
  "sniff_rules [] = 0"
  "sniff_rules (r # rs) =
     (case Rule_Action r of None \<Rightarrow> 0 | Some a \<Rightarrow> if is_Sniff a then 1 else 0) + sniff_rules rs"
  by (simp_all add: sniff_rules_def split: option.split)

text \<open>A property of the buffers that every action keeps is kept by the loop.\<close>

lemma match_rules_keeps:
  assumes "\<And>ms md. Q (ms\<lparr>ms_md := md\<rparr>) = Q ms"
    and "\<And>r a ms. r \<in> set rules \<Longrightarrow> Rule_Action r = Some a \<Longrightarrow> Q ms \<Longrightarrow>
      Q (snd (perform_action d rd pre a ms))"
    and "Q ms"
  shows "Q (snd (match_rules d e sets rd pre i rules ms))"
  using assms(2,3)
proof (induction rules arbitrary: i ms)
  case (Cons r rules)
  obtain b md where m: "Rule_Match d e sets r (ResetRuleCache (ms_md ms)) = (b, md)" by fastforce
  have Q: "Q (ms\<lparr>ms_md := md\<rparr>)" using Cons.prems(2) by (simp add: assms(1))
  have keep: "Q (snd (perform_action d rd pre a ms))"
    if "s \<in> set rules" "Rule_Action s = Some a" "Q ms" for s a ms
    using that by (intro Cons.prems(1) [of s]) simp_all
  have IH: "Q (snd (match_rules d e sets rd pre i rules ms))" if "Q ms" for i ms
    using keep that by (rule Cons.IH)
  show ?case
  proof (cases b)
    case True
    show ?thesis
    proof (cases "Rule_Action r")
      case (Some a)
      obtain res ms' where p: "perform_action d rd pre a (ms\<lparr>ms_md := md\<rparr>) = (res, ms')" by fastforce
      with Cons.prems(1) [OF _ Some Q] have "Q ms'" by simp
      then have "Q (snd (match_rules d e sets rd pre (Suc i) rules ms'))"
        by (rule IH)
      with \<open>Q ms'\<close> Some p m True show ?thesis
        by (cases res) (auto split: bool.split)
    qed (use Q m True in simp)
  next
    case False
    then show ?thesis using IH [OF Q] m by simp
  qed
qed simp

lemma inbound_options_keeps:
  assumes "\<And>ms md. Q (ms\<lparr>ms_md := md\<rparr>) = Q ms"
    and "\<And>ms ms'. io_part ms = io_part ms' \<Longrightarrow> Q ms = Q ms'"
    and "\<And>act. \<not> pre \<Longrightarrow> io_SniffEnabled (md_InboundOptions (ms_md ms)) \<Longrightarrow> Q (snd (match_sniff rd act ms))"
    and "Q ms"
  shows "Q (snd (inbound_options d rd pre ms))"
proof (cases "md_InboundOptions (ms_md ms) = InboundOptions_zero")
  case False
  let ?sniffed = "if \<not> pre \<and> io_SniffEnabled (md_InboundOptions (ms_md ms))
    then match_sniff rd (inbound_sniff_action (md_InboundOptions (ms_md ms))) ms else (Inr (), ms)"
  obtain r1 ms1 where 1: "?sniffed = (r1, ms1)" by fastforce
  then have "Q ms1" using assms(3,4) by (auto split: if_splits) (metis snd_conv)
  show ?thesis
  proof (cases r1)
    case (Inr u)
    let ?resolved = "if io_DomainStrategy (md_InboundOptions (ms_md ms1)) \<noteq> DomainStrategyAsIS
      then match_resolve d rd (inbound_resolve_action (md_InboundOptions (ms_md ms1))) ms1 else (Inr (), ms1)"
    obtain r2 ms2 where 2: "?resolved = (r2, ms2)" by fastforce
    then have "io_part ms2 = io_part ms1" by (auto split: if_splits dest: match_resolve_io)
    with assms(2) \<open>Q ms1\<close> have "Q ms2" by blast
    then show ?thesis using False Inr
      unfolding inbound_options_def 1 2 by (cases r2) (auto simp: 2 Let_def assms(1))
  qed (use \<open>Q ms1\<close> False in \<open>simp add: inbound_options_def 1\<close>)
qed (use assms(4) in \<open>simp add: inbound_options_def\<close>)

lemma matchRule_keeps:
  assumes "\<And>ms md. Q (ms\<lparr>ms_md := md\<rparr>) = Q ms"
    and "\<And>ms ms'. io_part ms = io_part ms' \<Longrightarrow> Q ms = Q ms'"
    and "\<And>act ms. \<not> pre \<Longrightarrow> Q ms \<Longrightarrow> Q (snd (match_sniff rd act ms))"
    and "\<And>md. Q \<lparr>ms_md = md, ms_input = inp, ms_buffers = [], ms_packetBuffers = []\<rparr>"
  shows "Q (snd (matchRule d e sets rd rules pre inp md))"
proof -
  have act: "Q (snd (perform_action d rd pre a ms))"
    if "r \<in> set rules" "Rule_Action r = Some a" "Q ms" for r a ms
  proof (cases "pre \<or> \<not> is_Sniff a")
    case True
    then show ?thesis using assms(2) perform_action_io that(3) by blast
  next
    case False
    then obtain sn where "a = RuleActionSniff sn" by (cases a) auto
    with False assms(3) [OF _ that(3), of sn] show ?thesis
      by (auto simp: perform_action_sniff split: prod.split sum.split)
  qed
  show ?thesis
  proof (cases "resolve_fakeip rd (find_process d rd md)")
    case (Inr md1)
    let ?ms = "\<lparr>ms_md = set_ip_version d md1, ms_input = inp, ms_buffers = [], ms_packetBuffers = []\<rparr>"
    obtain res ms1 where 1: "inbound_options d rd pre ?ms = (res, ms1)" by fastforce
    have "Q (snd (inbound_options d rd pre ?ms))"
      by (rule inbound_options_keeps [of Q, OF assms(1) assms(2) assms(3) [OF _ assms(4)] assms(4)])
    then have "Q ms1" by (simp add: 1)
    moreover have "Q (snd (match_rules d e sets rd pre 0 rules ms1))"
      using assms(1) act \<open>Q ms1\<close> by (rule match_rules_keeps)
    ultimately show ?thesis using Inr 1 by (cases res) (simp_all add: matchRule_def)
  qed (simp add: matchRule_def assms(4))
qed

lemma matchRule_bytes:
  "state_bytes (snd (matchRule d e sets rd rules pre inp md)) = input_bytes inp"
  by (rule matchRule_keeps [where Q = "\<lambda>ms. state_bytes ms = input_bytes inp"])
    (auto simp: match_sniff_bytes dest: io_part_bytes, simp add: state_bytes_def)

lemma matchRule_pre:
  "io_part (snd (matchRule d e sets rd rules True inp md)) = (inp, [], [])"
  by (rule matchRule_keeps [where Q = "\<lambda>ms. io_part ms = (inp, [], [])"])
    (simp_all add: io_part_def)

lemma matchRule_no_packets:
  "ms_packetBuffers (snd (matchRule d e sets rd rules pre (StreamConn c) md)) = [] \<and>
   (\<exists>c'. ms_input (snd (matchRule d e sets rd rules pre (StreamConn c) md)) = StreamConn c')"
proof (rule matchRule_keeps [where Q = "\<lambda>ms. ms_packetBuffers ms = [] \<and> (\<exists>c'. ms_input ms = StreamConn c')"])
  fix act and ms :: match_state
  assume *: "ms_packetBuffers ms = [] \<and> (\<exists>c'. ms_input ms = StreamConn c')"
  then obtain c' where "ms_input ms = StreamConn c'" by blast
  moreover obtain c'' where "sr_input (sniff_stream (rd_sniff rd) act c' (ms_buffers ms) (ms_md ms)) = StreamConn c''"
    using sniff_stream_conserves by blast
  ultimately show "ms_packetBuffers (snd (match_sniff rd act ms)) = [] \<and>
      (\<exists>c'. ms_input (snd (match_sniff rd act ms)) = StreamConn c')"
    using * by (simp add: match_sniff_def actionSniff_def sniff_nothing_def sniff_kind Let_def split: option.split)
qed (auto simp: io_part_def)

lemma matchRule_no_buffers:
  "ms_buffers (snd (matchRule d e sets rd rules pre (PacketConn c) md)) = [] \<and>
   (\<exists>c'. ms_input (snd (matchRule d e sets rd rules pre (PacketConn c) md)) = PacketConn c')"
proof (rule matchRule_keeps [where Q = "\<lambda>ms. ms_buffers ms = [] \<and> (\<exists>c'. ms_input ms = PacketConn c')"])
  fix act and ms :: match_state
  assume *: "ms_buffers ms = [] \<and> (\<exists>c'. ms_input ms = PacketConn c')"
  then obtain c' where "ms_input ms = PacketConn c'" by blast
  moreover obtain c'' where
    "sr_input (sniff_packets (rd_sniff rd) act c' (ms_packetBuffers ms) (ms_md ms)) = PacketConn c''"
    using sniff_kind(3) by blast
  ultimately show "ms_buffers (snd (match_sniff rd act ms)) = [] \<and>
      (\<exists>c'. ms_input (snd (match_sniff rd act ms)) = PacketConn c')"
    using * by (simp add: match_sniff_def actionSniff_def sniff_nothing_def sniff_kind Let_def)
qed (auto simp: io_part_def)

text \<open>How many buffers there can be, and the packets while there is at most one sniff.\<close>

lemma match_sniff_buffers:
  "length (ms_buffers (snd (match_sniff rd act ms))) \<le> Suc (length (ms_buffers ms))"
  by (simp add: match_sniff_def Let_def split: option.split)

definition state_packets :: "match_state \<Rightarrow> packet list" where
  "state_packets ms = ms_packetBuffers ms @ input_packets (ms_input ms)"

lemma match_sniff_packets:
  assumes "ms_packetBuffers ms = []" "ms_input ms = PacketConn c"
  shows "state_packets (snd (match_sniff rd act ms)) = state_packets ms"
  using actionSniff_packets [of "rd_sniff rd" act "ms_input ms" "ms_buffers ms" "ms_md ms"] assms
  by (auto simp: match_sniff_def state_packets_def actionSniff_packet_buffer Let_def)

text \<open>A property with a budget of sniffs, which each sniff may use one of.\<close>

lemma match_rules_budget:
  assumes io: "\<And>n ms ms'. io_part ms = io_part ms' \<Longrightarrow> Q n ms = Q n ms'"
    and sniff: "\<And>n act ms. Q (Suc n) ms \<Longrightarrow> Q n (snd (match_sniff rd act ms))"
    and weaken: "\<And>n m ms. Q n ms \<Longrightarrow> m \<le> n \<Longrightarrow> Q m ms"
    and "Q (sniff_rules rules) ms"
  shows "Q 0 (snd (match_rules d e sets rd pre i rules ms))"
  using assms(4)
proof (induction rules arbitrary: i ms)
  case (Cons r rules)
  obtain b md where m: "Rule_Match d e sets r (ResetRuleCache (ms_md ms)) = (b, md)" by fastforce
  have md: "Q n (ms\<lparr>ms_md := md\<rparr>) = Q n ms" for n by (rule io) simp
  have tail: "Q (sniff_rules rules) (ms\<lparr>ms_md := md\<rparr>)"
    using weaken [OF Cons.prems, of "sniff_rules rules"] by (simp add: md)
  show ?case
  proof (cases b)
    case True
    show ?thesis
    proof (cases "Rule_Action r")
      case (Some a)
      obtain res ms' where p: "perform_action d rd pre a (ms\<lparr>ms_md := md\<rparr>) = (res, ms')" by fastforce
      have "Q (sniff_rules rules) ms'"
      proof (cases "pre \<or> \<not> is_Sniff a")
        case True
        then have "io_part ms' = io_part (ms\<lparr>ms_md := md\<rparr>)" using perform_action_io p by (metis snd_conv)
        then show ?thesis using tail io by blast
      next
        case False
        then obtain sn where sn: "a = RuleActionSniff sn" by (cases a) auto
        have "Q (Suc (sniff_rules rules)) (ms\<lparr>ms_md := md\<rparr>)" using Cons.prems Some sn by (simp add: md)
        from sniff [OF this, of sn] p False sn show ?thesis
          by (auto simp: perform_action_sniff split: prod.splits sum.splits)
      qed
      moreover from Cons.IH [OF this] have "Q 0 (snd (match_rules d e sets rd pre (Suc i) rules ms'))" .
      ultimately show ?thesis using weaken Some p m True by (cases res) (auto split: bool.split)
    qed (use weaken [OF tail] m True in simp)
  next
    case False
    then show ?thesis using Cons.IH [OF tail] m by simp
  qed
qed simp

lemma find_process_options: "md_InboundOptions (find_process d rd md) = md_InboundOptions md"
  by (simp add: find_process_def Let_def split: option.split sum.split)

lemma reverse_mapping_options: "md_InboundOptions (reverse_mapping rd md) = md_InboundOptions md"
  by (simp add: reverse_mapping_def split: option.split)

lemma set_ip_version_options: "md_InboundOptions (set_ip_version d md) = md_InboundOptions md"
  by (simp add: set_ip_version_def)

lemma resolve_fakeip_options:
  "resolve_fakeip rd md = Inr md1 \<Longrightarrow> md_InboundOptions md1 = md_InboundOptions md"
  by (auto simp: resolve_fakeip_def reverse_mapping_options simp del: InboundContext.simps(1)
    split: option.splits if_splits)

lemma prepared_options:
  assumes "resolve_fakeip rd (find_process d rd md) = Inr md1"
  shows "md_InboundOptions (set_ip_version d md1) = md_InboundOptions md"
  using resolve_fakeip_options [OF assms] by (simp add: set_ip_version_options find_process_options)

lemma matchRule_budget:
  assumes io: "\<And>n ms ms'. io_part ms = io_part ms' \<Longrightarrow> Q n ms = Q n ms'"
    and sniff: "\<And>n act ms. Q (Suc n) ms \<Longrightarrow> Q n (snd (match_sniff rd act ms))"
    and weaken: "\<And>n m ms. Q n ms \<Longrightarrow> m \<le> n \<Longrightarrow> Q m ms"
    and init: "\<And>md'. Q (inbound_sniffs md + sniff_rules rules)
      \<lparr>ms_md = md', ms_input = inp, ms_buffers = [], ms_packetBuffers = []\<rparr>"
  shows "Q 0 (snd (matchRule d e sets rd rules pre inp md))"
proof (cases "resolve_fakeip rd (find_process d rd md)")
  case (Inl err)
  then show ?thesis using weaken [OF init] by (simp add: matchRule_def)
next
  case (Inr md1)
  let ?Q = "Q (sniff_rules rules)"
  let ?ms = "\<lparr>ms_md = set_ip_version d md1, ms_input = inp, ms_buffers = [], ms_packetBuffers = []\<rparr>"
  obtain res ms1 where 1: "inbound_options d rd pre ?ms = (res, ms1)" by fastforce
  have md: "?Q (ms\<lparr>ms_md := md'\<rparr>) = ?Q ms" for ms md' by (rule io) simp
  have "?Q (snd (match_sniff rd act ?ms))"
    if "io_SniffEnabled (md_InboundOptions (ms_md ?ms))" for act
    using that init [of "set_ip_version d md1"] sniff
    by (simp add: inbound_sniffs_def prepared_options [OF Inr])
  moreover have "?Q ?ms" using weaken [OF init] by simp
  ultimately have "?Q (snd (inbound_options d rd pre ?ms))"
    by (intro inbound_options_keeps [of ?Q, OF md io])
  then have "?Q ms1" by (simp add: 1)
  moreover have "Q 0 (snd (match_rules d e sets rd pre 0 rules ms1))"
    by (rule match_rules_budget [of Q, OF io sniff weaken \<open>?Q ms1\<close>])
  ultimately show ?thesis using Inr 1 weaken by (cases res) (auto simp: matchRule_def)
qed

lemma matchRule_buffers:
  "length (ms_buffers (snd (matchRule d e sets rd rules pre inp md))) \<le> inbound_sniffs md + sniff_rules rules"
proof -
  let ?Q = "\<lambda>n ms. length (ms_buffers ms) + n \<le> inbound_sniffs md + sniff_rules rules"
  have "?Q n (snd (match_sniff rd act ms))" if "?Q (Suc n) ms" for n act ms
    using match_sniff_buffers [of rd act ms] that by linarith
  then have "?Q 0 (snd (matchRule d e sets rd rules pre inp md))"
    by (intro matchRule_budget [of ?Q]) (auto simp: io_part_def)
  then show ?thesis by simp
qed

lemma matchRule_packets:
  assumes "inbound_sniffs md + sniff_rules rules \<le> 1"
  shows "state_packets (snd (matchRule d e sets rd rules pre (PacketConn c) md)) = packets (pc_reads c)"
proof -
  define Q where "Q n ms \<longleftrightarrow> state_packets ms = packets (pc_reads c) \<and> (\<exists>c'. ms_input ms = PacketConn c') \<and>
    (n = 0 \<or> n = 1 \<and> ms_packetBuffers ms = [])" for n :: nat and ms
  have sniff: "Q n (snd (match_sniff rd act ms))" if "Q (Suc n) ms" for n act ms
  proof -
    from that obtain c' where *: "ms_input ms = PacketConn c'" "n = 0" "ms_packetBuffers ms = []"
      and p: "state_packets ms = packets (pc_reads c)" by (auto simp: Q_def)
    obtain c'' where "sr_input (sniff_packets (rd_sniff rd) act c' [] (ms_md ms)) = PacketConn c''"
      using sniff_kind(3) by blast
    then have "\<exists>c'. ms_input (snd (match_sniff rd act ms)) = PacketConn c'"
      using * by (simp add: match_sniff_def actionSniff_def sniff_nothing_def Let_def split: option.split)
    with *(2) match_sniff_packets [OF *(3,1), of rd act] p show ?thesis by (simp add: Q_def)
  qed
  have io: "Q n ms = Q n ms'" if "io_part ms = io_part ms'" for n ms ms'
    using that by (simp add: Q_def io_part_def state_packets_def)
  have weaken: "Q m ms" if "Q n ms" "m \<le> n" for n m ms using that by (auto simp: Q_def)
  have init: "Q (inbound_sniffs md + sniff_rules rules)
      \<lparr>ms_md = md', ms_input = PacketConn c, ms_buffers = [], ms_packetBuffers = []\<rparr>" for md'
    using assms by (auto simp: state_packets_def Q_def)
  have "Q 0 (snd (matchRule d e sets rd rules pre (PacketConn c) md))"
    by (rule matchRule_budget [of Q, OF io sniff weaken init])
  then show ?thesis by (simp add: Q_def)
qed

section \<open>The callers\<close>

lemma conn_bytes_cached [simp]: "conn_bytes (cached_conn bufs c) = concat (rev bufs) @ conn_bytes c"
  by (induction bufs arbitrary: c) (simp_all add: cached_conn_def)

lemma conn_bytes_tracked [simp]: "conn_bytes (tracked_conn rd c) = conn_bytes c"
proof -
  have "conn_bytes (fold (\<lambda>tracker c. TrackedConn c tracker) ts c) = conn_bytes c" for ts
    by (induction ts arbitrary: c) simp_all
  then show ?thesis by (simp add: tracked_conn_def)
qed

lemma pconn_packets_cached [simp]: "pconn_packets (cached_pconn ps c) = rev ps @ pconn_packets c"
  by (induction ps arbitrary: c) (simp_all add: cached_pconn_def)

lemma pconn_packets_tracked [simp]: "pconn_packets (tracked_pconn rd c) = pconn_packets c"
proof -
  have "pconn_packets (fold (\<lambda>tracker c. TrackedPacketConn c tracker) ts c) = pconn_packets c" for ts
    by (induction ts arbitrary: c) simp_all
  then show ?thesis by (simp add: tracked_pconn_def)
qed

lemma conn_bytes_input: "ms_input ms = StreamConn c' \<Longrightarrow> conn_bytes (input_conn (ms_input ms)) = input_bytes (ms_input ms)"
  by simp

lemma pconn_packets_input:
  "ms_input ms = PacketConn c' \<Longrightarrow> pconn_packets (input_pconn (ms_input ms)) = input_packets (ms_input ms)"
  by simp

lemma concat_rev_short: "length bs \<le> 1 \<Longrightarrow> concat (rev bs) = concat bs"
  by (cases bs rule: rev_cases) simp_all

fun routed_packets :: "pconn routed \<Rightarrow> packet list option" where
  "routed_packets (InjectInbound tag c md) = Some (pconn_packets c)"
| "routed_packets (HijackDNS c md) = Some (pconn_packets c)"
| "routed_packets (HijackDNSPacket c ps md) = Some (ps @ pconn_packets c)"
| "routed_packets (HandledByOutbound ob c md) = Some (pconn_packets c)"
| "routed_packets (ConnectedToOutbound ob c md) = Some (pconn_packets c)"
| "routed_packets NotRouted = None"

fun routed_outbound :: "'c routed \<Rightarrow> Outbound option" where
  "routed_outbound (HandledByOutbound ob c md) = Some ob"
| "routed_outbound (ConnectedToOutbound ob c md) = Some ob"
| "routed_outbound _ = None"

lemma inject_detour_conn:
  "inject_detour rd injectable n c md = Inr out \<Longrightarrow> routed_conn out = Some c \<and> routed_outbound out = None \<and>
     (\<exists>md'. out = InjectInbound (md_InboundDetour md) c md')"
  by (auto simp: inject_detour_def split: if_splits option.splits)

lemma reject_connection_conn:
  "reject_connection t i r rules = (Inr out, rules') \<Longrightarrow> out = NotRouted"
  by (auto simp: reject_connection_def split: prod.splits sum.splits option.splits)

lemma to_outbound_conn:
  "routed_conn (to_outbound rd ms ob) =
     Some (tracked_conn rd (cached_conn (ms_buffers ms) (input_conn (ms_input ms))))"
  "routed_outbound (to_outbound rd ms ob) = Some ob"
  by (simp_all add: to_outbound_def Let_def)

lemma packets_to_outbound_packets:
  "routed_packets (packets_to_outbound rd ms ob) =
     Some (rev (ms_packetBuffers ms) @ pconn_packets (input_pconn (ms_input ms)))"
  "routed_outbound (packets_to_outbound rd ms ob) = Some ob"
  by (simp_all add: packets_to_outbound_def Let_def)

text \<open>The successful outcomes of the two callers.\<close>

lemma route_selected_cases:
  assumes "route_selected rd t rules sel ms = (Inr out, rules')"
  obtains (rejected) "out = NotRouted"
  | (hijacked) "out = HijackDNS (cached_conn (ms_buffers ms) (input_conn (ms_input ms))) (ms_md ms)"
  | (default) "sel = None" "out = to_outbound rd ms (rd_Default rd)" "NetworkTCP \<in> set (ob_Network (rd_Default rd))"
  | (routed) i r tag ro ob where "sel = Some (i, r)" "Rule_Action r = Some (RuleActionRoute tag ro)"
      "rd_Outbound rd tag = Some ob" "NetworkTCP \<in> set (ob_Network ob)" "out = to_outbound rd ms ob"
proof (cases sel)
  case None
  with assms default show ?thesis
    by (auto simp: route_selected_def default_outbound_def split: if_splits)
next
  case (Some ir)
  obtain i r where ir: "ir = (i, r)" by fastforce
  obtain a where a: "Rule_Action r = Some a"
    using assms Some ir by (cases "Rule_Action r") (auto simp: route_selected_def)
  show ?thesis using assms Some ir a rejected hijacked routed
    by (cases a) (auto simp: route_selected_def route_outbound_def res_bind_Inr_iff
      split: option.splits if_splits dest: reject_connection_conn)
qed

lemma routeConnection_cases:
  assumes "routeConnection d e sets rd t rules c md = (Inr out, rules')"
  obtains (detour) "routed_conn out = Some (RawConn c)" "routed_outbound out = None"
  | (matched) sel ms where
      "matchRule d e sets rd rules False (StreamConn c) (md\<lparr>md_Network := NetworkTCP\<rparr>) = (Inr sel, ms)"
      "route_selected rd t rules sel ms = (Inr out, rules')"
proof (cases "md_InboundDetour md = []")
  case False
  with assms have "inject_detour rd in_TCPInjectable ''TCP'' (RawConn c) md = Inr out"
    by (simp add: routeConnection_def)
  from inject_detour_conn [OF this] show ?thesis by (intro detour) simp_all
next
  case True
  with assms matched show ?thesis
    by (auto simp: routeConnection_def split: option.splits prod.splits sum.splits)
qed

lemma routeConnection_bytes:
  assumes "routeConnection d e sets rd t rules c md = (Inr out, rules')" "routed_conn out = Some c'"
    "inbound_sniffs md + sniff_rules rules \<le> 1"
  shows "conn_bytes c' = payload (sc_reads c)"
  using assms(1)
proof (cases rule: routeConnection_cases)
  case detour
  with assms(2) show ?thesis by auto
next
  case (matched sel ms)
  let ?md = "md\<lparr>md_Network := NetworkTCP\<rparr>"
  have "length (ms_buffers ms) \<le> 1"
    using matchRule_buffers [of d e sets rd rules False "StreamConn c" ?md] assms(3)
    by (simp add: matched(1) inbound_sniffs_def)
  moreover have "state_bytes ms = payload (sc_reads c)"
    using matchRule_bytes [of d e sets rd rules False "StreamConn c" ?md] by (simp add: matched(1))
  moreover obtain c'' where "ms_input ms = StreamConn c''"
    using matchRule_no_packets [of d e sets rd rules False c ?md] unfolding matched(1) by auto
  ultimately have "conn_bytes (cached_conn (ms_buffers ms) (input_conn (ms_input ms))) = payload (sc_reads c)"
    by (simp add: concat_rev_short state_bytes_def)
  then show ?thesis
    using assms(2) by (cases rule: route_selected_cases [OF matched(2)]) (auto simp: to_outbound_conn)
qed

lemma routePacketConnection_packets:
  assumes "routePacketConnection d e sets rd t rules c md = (Inr out, rules')" "routed_packets out = Some ps"
    "inbound_sniffs md + sniff_rules rules \<le> 1"
  shows "mset ps = mset (packets (pc_reads c))"
proof (cases "md_InboundDetour md = []")
  case False
  with assms(1) have "inject_detour rd in_UDPInjectable ''UDP'' (RawPacketConn c) md = Inr out"
    by (simp add: routePacketConnection_def)
  from inject_detour_conn [OF this] assms(2) show ?thesis by auto
next
  case True
  let ?md = "md\<lparr>md_Network := NetworkUDP\<rparr>"
  from True assms(1) obtain sel ms where m: "matchRule d e sets rd rules False (PacketConn c) ?md = (Inr sel, ms)"
    and R: "route_packets_selected rd t rules sel ms = (Inr out, rules')"
    by (auto simp: routePacketConnection_def split: prod.splits sum.splits)
  have state: "state_packets ms = packets (pc_reads c)"
    using matchRule_packets [of ?md rules d e sets rd False c] assms(3) by (simp add: m inbound_sniffs_def)
  obtain c'' where c'': "ms_input ms = PacketConn c''"
    using matchRule_no_buffers [of d e sets rd rules False c ?md] unfolding m by auto
  have all: "mset (rev (ms_packetBuffers ms) @ pconn_packets (input_pconn (ms_input ms))) = mset (packets (pc_reads c))"
    "mset (ms_packetBuffers ms @ pconn_packets (input_pconn (ms_input ms))) = mset (packets (pc_reads c))"
    by (simp_all add: c'' state [symmetric] state_packets_def)
  have "(\<exists>ob. out = packets_to_outbound rd ms ob) \<or> out = NotRouted \<or>
      out = HijackDNSPacket (input_pconn (ms_input ms)) (ms_packetBuffers ms) (ms_md ms)"
    using R by (auto simp: route_packets_selected_def res_bind_Inr_iff
      split: option.splits prod.splits RuleAction.splits if_splits dest: reject_connection_conn)
  with assms(2) all show ?thesis by (auto simp: packets_to_outbound_packets)
qed

section \<open>Route options\<close>

text \<open>Whether options replace the destination.\<close>

definition overrides :: "'h deps \<Rightarrow> RouteOptions \<Rightarrow> bool" where
  "overrides d ro \<longleftrightarrow> M_IsValid d (ro_OverrideAddress ro) \<or> ro_OverridePort ro > 0"

text \<open>The options after the destination touch neither the destination nor the original one.\<close>

lemma override_target_destinations:
  "md_RouteOriginalDestination (override_target d ro md) =
     (if overrides d ro \<and> \<not> M_IsValid d (md_RouteOriginalDestination md) then md_Destination md
      else md_RouteOriginalDestination md)"
  "\<not> overrides d ro \<Longrightarrow> md_Destination (override_target d ro md) = md_Destination md"
  by (auto simp: override_target_def overrides_def Let_def)

lemma apply_route_options_destinations:
  "md_RouteOriginalDestination (apply_route_options d ro md) = md_RouteOriginalDestination (override_target d ro md)"
  "md_Destination (apply_route_options d ro md) = md_Destination (override_target d ro md)"
  by (simp_all add: apply_route_options_def Let_def)

lemma original_destination_stays:
  "M_IsValid d (md_RouteOriginalDestination md) \<Longrightarrow>
     md_RouteOriginalDestination (fold (apply_route_options d) ros md) = md_RouteOriginalDestination md"
  by (induction ros arbitrary: md) (simp_all add: apply_route_options_destinations override_target_destinations)

lemma original_destination_set:
  assumes "M_IsValid d (md_Destination md)" "\<not> M_IsValid d (md_RouteOriginalDestination md)"
  shows "md_RouteOriginalDestination (fold (apply_route_options d) ros md) =
    (if list_ex (overrides d) ros then md_Destination md else md_RouteOriginalDestination md)"
  using assms
proof (induction ros arbitrary: md)
  case (Cons ro ros)
  show ?case
  proof (cases "overrides d ro")
    case True
    then have "md_RouteOriginalDestination (apply_route_options d ro md) = md_Destination md"
      using Cons.prems by (simp add: apply_route_options_destinations override_target_destinations)
    with Cons.prems original_destination_stays [of d "apply_route_options d ro md"] True show ?thesis by simp
  next
    case False
    with Cons show ?thesis
      by (simp add: apply_route_options_destinations override_target_destinations)
  qed
qed simp

text \<open>The definitions that evaluate the rule loop on a concrete connection.\<close>

lemmas route_evaluation =
  matchRule_def InboundContext_zero_def resolve_fakeip_def find_process_def
  reverse_mapping_def sample_defs set_ip_version_def inbound_options_def perform_action_def
  action_types Socksaddr_zero_def legacy_destination_def match_sniff_def actionSniff_def Skip_def
  sniff_stream_def sniff_packets_def sniff_packet_def sniff_nothing_def sniff_failed_before_def
  PeekStream_def PeekPacket_def quicMoreData_def E_Errors_def

section \<open>Theorems\<close>

text \<open>C1. When every rule has a final action (route, reject or hijack-dns), the rule that \<^verbatim>\<open>matchRule\<close>
  selects is the first one in the list that matches the prepared metadata on a fresh rule cache,
  and none when no rule matches; what earlier rules left in the rule cache has no influence.\<close>

theorem matchRule_first_match:
  assumes "list_all final_rule rules" "md_InboundOptions md = InboundOptions_zero"
    and "resolve_fakeip rd (find_process d rd md) = Inr md1"
  shows "(fst (matchRule d e sets rd rules preMatch inp md) = Inr (Some (i, r)) \<longleftrightarrow>
       i < length rules \<and> r = rules ! i \<and> rule_matches d e sets (set_ip_version d md1) r \<and>
       (\<forall>k < i. \<not> rule_matches d e sets (set_ip_version d md1) (rules ! k))) \<and>
     (fst (matchRule d e sets rd rules preMatch inp md) = Inr None \<longleftrightarrow>
       (\<forall>r \<in> set rules. \<not> rule_matches d e sets (set_ip_version d md1) r))"
proof -
  have "fst (matchRule d e sets rd rules preMatch inp md) =
      Inr (first_rule (rule_matches d e sets (set_ip_version d md1)) 0 rules)"
    using assms match_rules_final [OF assms(1)] prepared_options [OF assms(3)]
    by (simp add: matchRule_def inbound_options_def)
  then show ?thesis by (auto simp: first_rule_Some first_rule_None)
qed

theorem matchRule_first_match_witness:
  "fst (matchRule sample_deps sample_env (\<lambda>tag. None) sample_route
     [always (RuleActionRoute ''proxy'' sample_route_options), always RuleActionHijackDNS] False NoConn
     InboundContext_zero) = Inr (Some (0, always (RuleActionRoute ''proxy'' sample_route_options)))"
  by (subst matchRule_first_match [where ?md1.0 = InboundContext_zero, THEN conjunct1])
    (simp_all add: final_rule_def InboundContext_zero_def resolve_fakeip_def find_process_def
      reverse_mapping_def sample_defs rule_matches_def)

text \<open>C40. A rule that \<^verbatim>\<open>matchRule\<close> selects stands in the list at the index returned, and its action is
  route, reject or hijack-dns, or, in a pre-match only, sniff: in particular a rule whose action
  is \<^verbatim>\<open>direct\<close> is never selected.\<close>

theorem matchRule_selected_action:
  assumes "matchRule d e sets rd rules preMatch inp md = (Inr (Some (i, r)), ms)"
  shows "i < length rules \<and> r = rules ! i \<and>
    (\<exists>a. Rule_Action r = Some a \<and> (final_action a \<or> preMatch \<and> (\<exists>sn. a = RuleActionSniff sn)))"
  using assms
  by (auto simp: matchRule_def Let_def split: sum.splits prod.splits dest!: match_rules_selected)

theorem matchRule_selected_action_witness:
  "\<exists>ms. matchRule sample_deps sample_env (\<lambda>tag. None) sample_route
     [always (RuleActionDirect [] []), always RuleActionHijackDNS] False NoConn InboundContext_zero =
       (Inr (Some (1, always RuleActionHijackDNS)), ms) \<and> final_action RuleActionHijackDNS"
proof -
  let ?m = "matchRule sample_deps sample_env (\<lambda>tag. None) sample_route
     [always (RuleActionDirect [] []), always RuleActionHijackDNS] False NoConn InboundContext_zero"
  have "?m = (Inr (Some (1, always RuleActionHijackDNS)), snd ?m)"
    by (simp add: matchRule_def InboundContext_zero_def resolve_fakeip_def find_process_def
      reverse_mapping_def sample_defs set_ip_version_def inbound_options_def perform_action_def
      action_types Socksaddr_zero_def)
  with matchRule_selected_action [OF this] show ?thesis by auto
qed

text \<open>C3. Sniffing does not disturb a stream: when at most one sniff is configured (in the inbound's
  options or in the rules), the connection that is handed on, to an outbound, to the DNS hijacker
  or to a detour inbound, gives exactly the bytes that the client sent, in order.\<close>

theorem routeConnection_stream_intact:
  assumes "routeConnection d e sets rd timeNow rules c md = (Inr out, rules')" "routed_conn out = Some c'"
    and "inbound_sniffs md + sniff_rules rules \<le> 1"
  shows "conn_bytes c' = payload (sc_reads c)"
  using assms by (rule routeConnection_bytes)

theorem routeConnection_stream_intact_witness:
  "\<exists>out c'. fst (routeConnection sample_deps sample_env (\<lambda>tag. None) sample_route 0
       [always (RuleActionSniff (sample_sniff_action [''tls'']))]
       \<lparr>sc_deadlineError = None, sc_reads = [Inr [1, 2], Inr [3]]\<rparr> InboundContext_zero) = Inr out \<and>
     routed_conn out = Some c' \<and> conn_bytes c' = [1, 2, 3]"
proof -
  let ?rules = "[always (RuleActionSniff (sample_sniff_action [''tls'']))]"
  let ?c = "\<lparr>sc_deadlineError = None, sc_reads = [Inr [1, 2], Inr [3]]\<rparr>"
  let ?r = "routeConnection sample_deps sample_env (\<lambda>tag. None) sample_route 0 ?rules ?c InboundContext_zero"
  have "\<exists>out c'. fst ?r = Inr out \<and> routed_conn out = Some c'"
    by (simp add: route_evaluation routeConnection_def route_selected_def default_outbound_def
      to_outbound_conn Let_def)
  then obtain out c' where out: "fst ?r = Inr out" "routed_conn out = Some c'" by blast
  then have "?r = (Inr out, snd ?r)" by (metis prod.collapse)
  moreover have "inbound_sniffs InboundContext_zero + sniff_rules ?rules \<le> 1"
    by (simp add: inbound_sniffs_def InboundContext_zero_def InboundOptions_zero_def)
  ultimately have "conn_bytes c' = payload (sc_reads ?c)"
    using out(2) by (intro routeConnection_stream_intact)
  then have "conn_bytes c' = [1, 2, 3]" by simp
  with out show ?thesis by blast
qed

text \<open>The bound on the number of sniffs in C3 is needed: with two sniff actions that each read
  from the connection, the cached connections are nested so that the bytes read second are
  delivered first.\<close>

theorem routeConnection_two_sniffs_swap:
  "(case fst (routeConnection sample_deps sample_env (\<lambda>tag. None) sample_route 0
       [always (RuleActionSniff (sample_sniff_action [''tls''])),
        always (RuleActionSniff (sample_sniff_action [''http'']))]
       \<lparr>sc_deadlineError = None, sc_reads = [Inr [1, 2], Inr [3]]\<rparr> InboundContext_zero) of
      Inl err \<Rightarrow> None
    | Inr out \<Rightarrow> map_option conn_bytes (routed_conn out)) = Some [3, 1, 2]"
  by code_simp

text \<open>C8. Nor does sniffing lose or invent packets: with at most one sniff configured, the packets that
  are handed on (those buffered and those still to be read) are those that the client sent,
  each as often as it was sent.\<close>

theorem routePacketConnection_packets_intact:
  assumes "routePacketConnection d e sets rd timeNow rules c md = (Inr out, rules')"
    and "routed_packets out = Some ps" "inbound_sniffs md + sniff_rules rules \<le> 1"
  shows "mset ps = mset (packets (pc_reads c))"
  using assms by (rule routePacketConnection_packets)

theorem routePacketConnection_packets_intact_witness:
  "\<exists>out ps. fst (routePacketConnection sample_deps sample_env (\<lambda>tag. None) sample_route 0
       [always (RuleActionSniff (sample_sniff_action [''quic'']))]
       \<lparr>pc_reads = [Inr ([1], Socksaddr_zero), Inr ([2], Socksaddr_zero)]\<rparr> InboundContext_zero) = Inr out \<and>
     routed_packets out = Some ps \<and> mset ps = {#([1], Socksaddr_zero), ([2], Socksaddr_zero)#}"
proof -
  let ?rules = "[always (RuleActionSniff (sample_sniff_action [''quic'']))]"
  let ?c = "\<lparr>pc_reads = [Inr ([1], Socksaddr_zero), Inr ([2], Socksaddr_zero)]\<rparr>"
  let ?r = "routePacketConnection sample_deps sample_env (\<lambda>tag. None) sample_route 0 ?rules ?c InboundContext_zero"
  have "(case fst ?r of Inl err \<Rightarrow> None | Inr out \<Rightarrow> routed_packets out) \<noteq> None" by code_simp
  then obtain out ps where out: "fst ?r = Inr out" "routed_packets out = Some ps"
    by (auto split: sum.splits)
  then have "?r = (Inr out, snd ?r)" by (metis prod.collapse)
  moreover have "inbound_sniffs InboundContext_zero + sniff_rules ?rules \<le> 1" by code_simp
  ultimately have "mset ps = mset (packets (pc_reads ?c))"
    using out(2) by (intro routePacketConnection_packets_intact)
  then have "mset ps = {#([1], Socksaddr_zero), ([2], Socksaddr_zero)#}" by simp
  with out show ?thesis by blast
qed

text \<open>Packet sniffers that wait for more of a fragmented QUIC client hello.\<close>

definition waiting_route :: route_deps where
  "waiting_route = sample_route\<lparr>rd_sniff := sample_sniff
     \<lparr>sd_packet := (\<lambda>s content md. (Some ENeedMoreData, md))\<rparr>\<rparr>"

text \<open>The bound on the number of sniffs in C8 is needed: \<^verbatim>\<open>actionSniff\<close> returns the packets buffered
  by an earlier sniff together with the new ones and \<^verbatim>\<open>matchRule\<close> appends them all again, so a
  second sniff of a client hello in fragments hands the first packet on twice.\<close>

theorem routePacketConnection_two_sniffs_duplicate:
  "(case fst (routePacketConnection sample_deps sample_env (\<lambda>tag. None) waiting_route 0
       [always (RuleActionSniff (sample_sniff_action [''quic''])),
        always (RuleActionSniff (sample_sniff_action [''quic'']))]
       \<lparr>pc_reads = [Inr ([1], Socksaddr_zero), Inl EDeadlineExceeded, Inr ([2], Socksaddr_zero)]\<rparr>
       InboundContext_zero) of
      Inl err \<Rightarrow> None
    | Inr out \<Rightarrow> routed_packets out) =
   Some [([2], Socksaddr_zero), ([1], Socksaddr_zero), ([1], Socksaddr_zero)]"
  by code_simp

text \<open>A pre-match reads nothing: whatever the rules are, the input is returned as it was and no
  buffer is filled.\<close>

theorem matchRule_preMatch_reads_nothing:
  "ms_input (snd (matchRule d e sets rd rules True inp md)) = inp \<and>
   ms_buffers (snd (matchRule d e sets rd rules True inp md)) = [] \<and>
   ms_packetBuffers (snd (matchRule d e sets rd rules True inp md)) = []"
  using matchRule_pre [of d e sets rd rules inp md] by (simp add: io_part_def)

text \<open>C33. A connection reaches an outbound only if the outbound supports TCP, and then either no rule
  was selected and it is the default outbound, or it is the outbound named by the route action of
  the rule selected. A connection that a reject rule has caught reaches none.\<close>

theorem routeConnection_outbound:
  assumes "routeConnection d e sets rd timeNow rules c md = (Inr out, rules')"
    and "routed_outbound out = Some ob"
  shows "NetworkTCP \<in> set (ob_Network ob) \<and>
    (case fst (matchRule d e sets rd rules False (StreamConn c) (md\<lparr>md_Network := NetworkTCP\<rparr>)) of
       Inl err \<Rightarrow> False
     | Inr None \<Rightarrow> ob = rd_Default rd
     | Inr (Some (i, r)) \<Rightarrow>
         \<exists>tag options. Rule_Action r = Some (RuleActionRoute tag options) \<and> rd_Outbound rd tag = Some ob)"
  using assms(1)
proof (cases rule: routeConnection_cases)
  case detour
  with assms(2) show ?thesis by simp
next
  case (matched sel ms)
  from matched(2) assms(2) show ?thesis
    unfolding matched(1) by (cases rule: route_selected_cases) (auto simp: to_outbound_conn)
qed

theorem routeConnection_outbound_witness:
  "\<exists>out. fst (routeConnection sample_deps sample_env (\<lambda>tag. None) sample_route 0
       [always (RuleActionRoute ''proxy'' sample_route_options)]
       \<lparr>sc_deadlineError = None, sc_reads = []\<rparr> InboundContext_zero) = Inr out \<and>
     routed_outbound out = Some (sample_outbound\<lparr>ob_Tag := ''proxy''\<rparr>) \<and>
     NetworkTCP \<in> set (ob_Network (sample_outbound\<lparr>ob_Tag := ''proxy''\<rparr>))"
proof -
  let ?r = "routeConnection sample_deps sample_env (\<lambda>tag. None) sample_route 0
       [always (RuleActionRoute ''proxy'' sample_route_options)]
       \<lparr>sc_deadlineError = None, sc_reads = []\<rparr> InboundContext_zero"
  have "(case fst ?r of Inl err \<Rightarrow> None | Inr out \<Rightarrow> routed_outbound out) =
      Some (sample_outbound\<lparr>ob_Tag := ''proxy''\<rparr>)" by code_simp
  then obtain out where out: "fst ?r = Inr out" "routed_outbound out = Some (sample_outbound\<lparr>ob_Tag := ''proxy''\<rparr>)"
    by (auto split: sum.splits)
  then have "?r = (Inr out, snd ?r)" by (metis prod.collapse)
  from routeConnection_outbound [OF this out(2)] out show ?thesis by blast
qed

text \<open>Whatever route options a connection meets, in whatever order, the original destination
  that is recorded is the destination before the first override, and it is recorded only if
  some options override the destination.\<close>

theorem route_options_original_destination:
  assumes "M_IsValid d (md_Destination md)" "\<not> M_IsValid d (md_RouteOriginalDestination md)"
  shows "md_RouteOriginalDestination (fold (apply_route_options d) ros md) =
    (if list_ex (overrides d) ros then md_Destination md else md_RouteOriginalDestination md)"
  using assms by (rule original_destination_set)

theorem route_options_original_destination_witness:
  "md_RouteOriginalDestination (fold (apply_route_options sample_deps)
     [sample_route_options\<lparr>ro_OverridePort := 53\<rparr>, sample_route_options\<lparr>ro_OverridePort := 80\<rparr>]
     (InboundContext_zero\<lparr>md_Destination := \<lparr>sa_Addr = Addr4 1, sa_Port = 443, sa_Fqdn = []\<rparr>\<rparr>)) =
   \<lparr>sa_Addr = Addr4 1, sa_Port = 443, sa_Fqdn = []\<rparr>"
  by (subst route_options_original_destination)
    (simp_all add: sample_defs InboundContext_zero_def Socksaddr_zero_def overrides_def)

end
