(* ===== verification/SrsRoundtrip.thy ===== *)
theory SrsRoundtrip
  imports Srs
begin

text \<open>
  What is written in the binary rule-set format is read back: the encodings of
  \<^verbatim>\<open>encoding/binary\<close>, then IP sets and prefixes, the items of a rule, the rules, the file. The
  laws of the packages that the format is built on are the hypothesis \<open>codec_laws\<close>.
\<close>

section \<open>Integers\<close>

lemma get_be_append: "get_be acc (xs @ ys) = get_be (get_be acc xs) ys"
  by (induction xs arbitrary: acc) simp_all

lemma length_put_be [simp]: "length (put_be n w) = n"
  by (induction n arbitrary: w) simp_all

lemma get_be_put_be:
  fixes w :: "'w::len word"
  shows "get_be 0 (put_be n w) = take_bit (8 * n) w"
proof (induction n arbitrary: w)
  case (Suc n)
  have "get_be 0 (put_be (Suc n) w) = push_bit 8 (take_bit (8 * n) (drop_bit 8 w)) OR ucast (ucast w :: u8)"
    by (simp add: get_be_append Suc)
  also have "\<dots> = take_bit (8 * Suc n) w"
    by (rule bit_word_eqI)
      (auto simp: bit_or_iff bit_push_bit_iff bit_take_bit_iff bit_drop_bit_eq bit_unsigned_iff
        dest: bit_imp_le_length)
  finally show ?case .
qed simp

lemma read_u64_put_be [simp]: "read_u64 (put_be 8 w @ rest) = Inr (w, rest)"
proof -
  have "get_be 0 (put_be 8 w) = w"
    unfolding get_be_put_be by (simp add: take_bit_word_eq_self)
  moreover have "put_be 8 w @ rest \<noteq> []" by (metis append_is_Nil_conv length_0_conv length_put_be zero_neq_numeral)
  ultimately show ?thesis by (simp add: read_u64_def)
qed

text \<open>\<^verbatim>\<open>PutUvarint\<close> and \<^verbatim>\<open>ReadUvarint\<close>.\<close>

lemma uvarint_low: "x < 0x80 \<Longrightarrow> ucast (ucast x :: u8) = (x :: u64)"
  by (simp add: word_unat_eq_iff word_less_nat_alt unsigned_ucast_eq unsigned_take_bit_eq take_bit_nat_eq_self)

lemma uvarint_low_byte: "x < 0x80 \<Longrightarrow> unat (ucast (x :: u64) :: u8) = unat x"
  by (simp add: word_less_nat_alt unsigned_ucast_eq take_bit_nat_eq_self)

lemma uvarint_high_byte: "\<not> (ucast (x :: u64) OR 0x80 :: u8) < 0x80"
  by (simp add: not_less) (metis le_word_or2 or.commute)

lemma bit_0x80: "bit (0x80 :: u8) n \<longleftrightarrow> n = 7"
  using bit_exp_iff [where 'a = u8, of 7 n] by auto

lemma mask_0x7f: "(0x7f :: u8) = mask 7"
  by (simp add: mask_eq_exp_minus_1)

lemma uvarint_high: "ucast ((ucast (x :: u64) OR 0x80 :: u8) AND 0x7f) = take_bit 7 x"
  unfolding mask_0x7f
  by (rule bit_word_eqI, simp only: bit_or_iff bit_and_iff bit_mask_iff bit_0x80 bit_take_bit_iff
      bit_unsigned_iff) auto

lemma uvarint_step:
  "(x OR push_bit s (take_bit 7 y)) OR push_bit (s + 7) (drop_bit 7 y) = x OR push_bit s (y :: u64)"
proof (rule bit_word_eqI)
  have "s + 7 \<le> n \<Longrightarrow> 7 + (n - (s + 7)) = n - s" for n by simp
  then show "bit ((x OR push_bit s (take_bit 7 y)) OR push_bit (s + 7) (drop_bit 7 y)) n \<longleftrightarrow>
      bit (x OR push_bit s y) n" for n
    by (cases "s + 7 \<le> n") (auto simp: bit_or_iff bit_push_bit_iff bit_take_bit_iff bit_drop_bit_eq)
qed

lemma unat_drop7: "unat (drop_bit 7 (y :: u64)) = unat y div 128"
  unfolding unat_drop_bit_eq by (simp add: drop_bit_eq_div)

lemma ReadUvarint_loop_Put:
  assumes "n + i = 10" "s = 7 * i" "i \<le> 9" "unat y < 2 ^ (64 - s)"
  shows "ReadUvarint_loop n i x s (PutUvarint y @ rest) = Inr (x OR push_bit s y, rest)"
  using assms
proof (induction y arbitrary: n i x s rule: PutUvarint.induct)
  case (1 y)
  from "1.prems" obtain m where n: "n = Suc m" by (cases n) auto
  show ?case
  proof (cases "y < 0x80")
    case True
    have "\<not> (i = 9 \<and> (ucast y :: u8) > 1)"
      using "1.prems" True by (auto simp: word_less_nat_alt uvarint_low_byte)
    moreover have "(ucast y :: u8) < 0x80"
      using True uvarint_low_byte [OF True] by (simp add: word_less_nat_alt)
    ultimately show ?thesis
      using True by (simp add: PutUvarint.simps [of y] n uvarint_low)
  next
    case False
    then have big: "128 \<le> unat y" by (simp add: word_less_nat_alt)
    have i: "i \<le> 8"
    proof (rule ccontr)
      assume "\<not> i \<le> 8"
      with "1.prems" have "i = 9" by simp
      with "1.prems" big show False by simp
    qed
    have "2 ^ (64 - s) = (128 :: nat) * 2 ^ (64 - (s + 7))"
      using i "1.prems"(2) power_add [of "2 :: nat" 7 "64 - (s + 7)"] by simp
    then have small: "unat (drop_bit 7 y) < 2 ^ (64 - (s + 7))"
      using "1.prems"(4) by (simp add: unat_drop7 less_mult_imp_div_less mult.commute)
    have "ReadUvarint_loop m (Suc i) (x OR push_bit s (take_bit 7 y)) (s + 7)
        (PutUvarint (drop_bit 7 y) @ rest) =
        Inr ((x OR push_bit s (take_bit 7 y)) OR push_bit (s + 7) (drop_bit 7 y), rest)"
      by (rule "1.IH" [OF False]) (use "1.prems" small i n in simp_all)
    then show ?thesis
      using False by (simp add: PutUvarint.simps [of y] n uvarint_high_byte uvarint_high uvarint_step)
  qed
qed

lemma ReadUvarint_PutUvarint: "ReadUvarint (PutUvarint y @ rest) = Inr (y, rest)"
  using ReadUvarint_loop_Put [of 10 0 0 y 0 rest] unsigned_less [of y]
  by (simp add: ReadUvarint_def)

section \<open>The laws of the packages underneath\<close>

text \<open>A Go slice or string has a length that fits an \<^verbatim>\<open>int\<close>.\<close>

definition len_ok :: "'a list \<Rightarrow> bool" where
  "len_ok xs \<longleftrightarrow> length xs < 2 ^ 63"

definition strings_ok :: "string list \<Rightarrow> bool" where
  "strings_ok xs \<longleftrightarrow> len_ok xs \<and> list_all len_ok xs"

text \<open>Each reader of \<^verbatim>\<open>varbin\<close> and of the matchers reads what its writer wrote and leaves the rest;
  \<^verbatim>\<open>AddrFromIP\<close> makes an address of four or sixteen bytes; \<^verbatim>\<open>zlib\<close> gives back what it compressed.\<close>

definition codec_laws :: "'h deps \<Rightarrow> 'h codec \<Rightarrow> bool" where
  "codec_laws d c \<longleftrightarrow>
     (\<forall>n rest. ReadUvarint (vb_WriteUvarint c n @ rest) = Inr (n, rest)) \<and>
     (\<forall>xs rest. strings_ok xs \<longrightarrow> vb_ReadStrings c (vb_WriteStrings c xs @ rest) = Inr (xs, rest)) \<and>
     (\<forall>xs rest. len_ok xs \<longrightarrow> vb_ReadUint8s c (vb_WriteUint8s c xs @ rest) = Inr (xs, rest)) \<and>
     (\<forall>xs rest. len_ok xs \<longrightarrow> vb_ReadUint16s c (vb_WriteUint16s c xs @ rest) = Inr (xs, rest)) \<and>
     (\<forall>xs rest. len_ok xs \<longrightarrow> vb_ReadBytes c (vb_WriteBytes c xs @ rest) = Inr (xs, rest)) \<and>
     (\<forall>b rest. vb_ReadUint8 c (b # rest) = Inr (b, rest)) \<and>
     (\<forall>xs rest. xs \<noteq> [] \<longrightarrow> list_all (\<lambda>(a, b). len_ok a \<and> len_ok b) xs \<longrightarrow>
        vb_ReadRanges c (length xs) (concat (map (vb_WriteRange c) xs) @ rest) = Inr (xs, rest)) \<and>
     (\<forall>ds ss g rest. domain_ReadMatcher c (domain_Matcher_Write c (domain_NewMatcher d ds ss g) @ rest) =
        Inr (domain_NewMatcher d ds ss g, rest)) \<and>
     (\<forall>ls rest. domain_ReadAdGuardMatcher c (domain_AdGuardMatcher_Write c (domain_NewAdGuardMatcher d ls) @ rest) =
        Inr (domain_NewAdGuardMatcher d ls, rest)) \<and>
     (\<forall>a. M_AddrFromIP c (put_be 4 a) = Addr4 a) \<and>
     (\<forall>a. M_AddrFromIP c (put_be 16 a) = Addr6 a []) \<and>
     (\<forall>bs. zlib_NewReader c (zlib_Compress c bs) = Inr bs)"

lemma codec_lawsD:
  assumes "codec_laws d c"
  shows "ReadUvarint (vb_WriteUvarint c n @ rest) = Inr (n, rest)"
    and "strings_ok ss \<Longrightarrow> vb_ReadStrings c (vb_WriteStrings c ss @ rest) = Inr (ss, rest)"
    and "len_ok bs \<Longrightarrow> vb_ReadUint8s c (vb_WriteUint8s c bs @ rest) = Inr (bs, rest)"
    and "len_ok ws \<Longrightarrow> vb_ReadUint16s c (vb_WriteUint16s c ws @ rest) = Inr (ws, rest)"
    and "len_ok bs \<Longrightarrow> vb_ReadBytes c (vb_WriteBytes c bs @ rest) = Inr (bs, rest)"
    and "vb_ReadUint8 c (b # rest) = Inr (b, rest)"
    and "rs \<noteq> [] \<Longrightarrow> list_all (\<lambda>(a, b). len_ok a \<and> len_ok b) rs \<Longrightarrow>
      vb_ReadRanges c (length rs) (concat (map (vb_WriteRange c) rs) @ rest) = Inr (rs, rest)"
    and "domain_ReadMatcher c (domain_Matcher_Write c (domain_NewMatcher d ds dss g) @ rest) =
      Inr (domain_NewMatcher d ds dss g, rest)"
    and "domain_ReadAdGuardMatcher c (domain_AdGuardMatcher_Write c (domain_NewAdGuardMatcher d ls) @ rest) =
      Inr (domain_NewAdGuardMatcher d ls, rest)"
    and "M_AddrFromIP c (put_be 4 a4) = Addr4 a4" "M_AddrFromIP c (put_be 16 a6) = Addr6 a6 []"
    and "zlib_NewReader c (zlib_Compress c bs) = Inr bs"
  using assms unfolding codec_laws_def by simp_all

section \<open>IP sets and prefixes\<close>

text \<open>Addresses as an IP set holds them: valid and without zone.\<close>

fun plain_Addr :: "Addr \<Rightarrow> bool" where
  "plain_Addr AddrZero = False"
| "plain_Addr (Addr4 a) = True"
| "plain_Addr (Addr6 a zone) \<longleftrightarrow> zone = []"

definition ipset_ok :: "myIPSet \<Rightarrow> bool" where
  "ipset_ok s \<longleftrightarrow> rr s \<noteq> [] \<and> len_ok (rr s) \<and>
     list_all (\<lambda>r. plain_Addr (rr_from r) \<and> plain_Addr (rr_to r)) (rr s)"

definition prefix_ok :: "Prefix \<Rightarrow> bool" where
  "prefix_ok p \<longleftrightarrow> plain_Addr (pfx_Addr p) \<and> 0 \<le> pfx_Bits p \<and> pfx_Bits p \<le> Addr_BitLen (pfx_Addr p)"

lemma unat_of_length [simp]: "len_ok xs \<Longrightarrow> unat (of_nat (length xs) :: u64) = length xs"
  by (simp add: len_ok_def unat_of_nat take_bit_nat_eq_self)

lemma AddrFromIP_AsSlice: "codec_laws d c \<Longrightarrow> plain_Addr a \<Longrightarrow> M_AddrFromIP c (Addr_AsSlice a) = a"
  by (cases a) (auto simp: codec_lawsD)

lemma len_ok_AsSlice: "len_ok (Addr_AsSlice a)"
  by (cases a) (simp_all add: len_ok_def)

lemma readIPSet_writeIPSet:
  assumes "codec_laws d c" "ipset_ok s"
  shows "readIPSet c (writeIPSet c s @ rest) = Inr (s, rest)"
proof -
  let ?l = "map (\<lambda>r. (Addr_AsSlice (rr_from r), Addr_AsSlice (rr_to r))) (rr s)"
  have "list_all (\<lambda>(a, b). len_ok a \<and> len_ok b) ?l" "?l \<noteq> []"
    using assms(2) by (simp_all add: list_all_iff len_ok_AsSlice ipset_ok_def)
  then have "vb_ReadRanges c (length ?l) (concat (map (vb_WriteRange c) ?l) @ rest) = Inr (?l, rest)"
    by (intro codec_lawsD(7) [OF assms(1)])
  moreover have "map (\<lambda>r. \<lparr>rr_from = M_AddrFromIP c (Addr_AsSlice (rr_from r)),
      rr_to = M_AddrFromIP c (Addr_AsSlice (rr_to r))\<rparr>) (rr s) = rr s"
    using assms by (intro map_idI) (auto simp: ipset_ok_def list_all_iff AddrFromIP_AsSlice)
  ultimately show ?thesis
    using assms by (simp add: readIPSet_def writeIPSet_def Let_def ipset_ok_def comp_def)
qed

lemma readPrefix_writePrefix:
  assumes "codec_laws d c" "prefix_ok p"
  shows "readPrefix c (writePrefix c p @ rest) = Inr (p, rest)"
proof -
  have bits: "uint (word_of_int (pfx_Bits p) :: u8) = pfx_Bits p"
    using assms(2) by (cases "pfx_Addr p") (auto simp: prefix_ok_def uint_word_of_int)
  have "Addr_withoutZone (pfx_Addr p) = pfx_Addr p" "pfx_Addr p \<noteq> AddrZero"
    using assms(2) by (cases "pfx_Addr p"; auto simp: prefix_ok_def)+
  then have "PrefixFrom (pfx_Addr p) (pfx_Bits p) = p"
    using assms(2) by (simp add: PrefixFrom_def prefix_ok_def)
  moreover have "M_AddrFromIP c (Addr_AsSlice (pfx_Addr p)) = pfx_Addr p"
    using assms by (simp add: AddrFromIP_AsSlice prefix_ok_def)
  ultimately show ?thesis
    by (simp add: readPrefix_def writePrefix_def len_ok_AsSlice bits codec_lawsD [OF assms(1)])
qed

lemma read_n_concat:
  assumes "\<And>x rest. x \<in> set xs \<Longrightarrow> r (w x @ rest) = Inr (v x, rest)"
  shows "read_n r (length xs) (concat (map w xs) @ rest) = Inr (map v xs, rest)"
  using assms by (induction xs) auto

definition built :: "'h deps \<Rightarrow> Prefix option \<Rightarrow> Prefix" where
  "built d p = badoption_Prefixable_Build d p Prefix_zero"

definition prefixes_ok :: "'h deps \<Rightarrow> Prefix option list \<Rightarrow> bool" where
  "prefixes_ok d ps \<longleftrightarrow> len_ok ps \<and> list_all (\<lambda>p. prefix_ok (built d p)) ps"

lemma readPrefixes_writePrefixes:
  assumes "codec_laws d c" "prefixes_ok d ps"
  shows "readPrefixes c (writePrefixes d c ps @ rest) = Inr (map (\<lambda>p. Some (built d p)) ps, rest)"
proof -
  have "read_n (readPrefix c) (length ps) (concat (map (\<lambda>p. writePrefix c (built d p)) ps) @ rest) =
      Inr (map (built d) ps, rest)"
    using assms by (intro read_n_concat) (auto simp: prefixes_ok_def list_all_iff readPrefix_writePrefix)
  then show ?thesis
    using assms(2) by (simp add: codec_lawsD [OF assms(1)] readPrefixes_def writePrefixes_def prefixes_ok_def built_def comp_def)
qed

lemma put_entries_distinct:
  "distinct (map fst (m @ es)) \<Longrightarrow> put_entries es m = m @ es"
proof (induction es arbitrary: m)
  case (Cons e es)
  obtain k v where e: "e = (k, v)" by force
  with Cons.prems have "k \<notin> fst ` set m" by auto
  then have "AList.update k v m = m @ [(k, v)]" by (induction m) auto
  with Cons e show ?case by simp
qed simp

definition entries_ok :: "'h deps \<Rightarrow> (u8 \<times> Prefix option list) list \<Rightarrow> bool" where
  "entries_ok d es \<longleftrightarrow> len_ok es \<and> distinct (map fst es) \<and> list_all (prefixes_ok d \<circ> snd) es"

definition built_entries :: "'h deps \<Rightarrow> (u8 \<times> Prefix option list) list \<Rightarrow> (u8 \<times> Prefix option list) list" where
  "built_entries d es = map (\<lambda>(k, ps). (k, map (\<lambda>p. Some (built d p)) ps)) es"

lemma read_interface_entries:
  assumes "codec_laws d c" "entries_ok d es"
  shows "res_bind (ReadUvarint (write_interface_entries d c es @ rest)) (\<lambda>(size, bs).
      read_n (read_interface_entry c) (unat size) bs) = Inr (built_entries d es, rest)"
proof -
  have "read_n (read_interface_entry c) (length es)
      (concat (map (\<lambda>(k, ps). k # writePrefixes d c ps) es) @ rest) =
      Inr (map (\<lambda>(k, ps). (k, map (\<lambda>p. Some (built d p)) ps)) es, rest)"
    using assms
    by (intro read_n_concat)
      (auto simp: entries_ok_def list_all_iff read_interface_entry_def readPrefixes_writePrefixes)
  then show ?thesis
    using assms(2) by (simp add: codec_lawsD [OF assms(1)] write_interface_entries_def entries_ok_def built_entries_def)
qed

section \<open>The items of a rule\<close>

definition cidr_set :: "'h deps \<Rightarrow> string list \<Rightarrow> myIPSet res" where
  "cidr_set d cs = res_bind (parse_cidrs d 0 cs) (netipx_IPSet d)"

definition cidrs_ok :: "'h deps \<Rightarrow> string list \<Rightarrow> bool" where
  "cidrs_ok d cs = (cs = [] \<or> (case cidr_set d cs of Inl e \<Rightarrow> True | Inr s \<Rightarrow> ipset_ok s))"

definition cidr_image :: "'h deps \<Rightarrow> string list \<Rightarrow> myIPSet option" where
  "cidr_image d cs =
     (if cs = [] then None else case cidr_set d cs of Inl e \<Rightarrow> None | Inr s \<Rightarrow> Some s)"

text \<open>The options that the format can carry, and what reading them back gives: the domain lists and
  the CIDR lists come back as a matcher and as IP sets.\<close>

definition default_ok :: "'h deps \<Rightarrow> 'h DefaultHeadlessRuleOptions \<Rightarrow> bool" where
  "default_ok d rule \<longleftrightarrow>
     strings_ok (hr_Network rule) \<and>
     strings_ok (hr_DomainKeyword rule) \<and>
     strings_ok (hr_DomainRegex rule) \<and>
     strings_ok (hr_SourcePortRange rule) \<and>
     strings_ok (hr_PortRange rule) \<and>
     strings_ok (hr_ProcessName rule) \<and>
     strings_ok (hr_ProcessPath rule) \<and>
     strings_ok (hr_ProcessPathRegex rule) \<and>
     strings_ok (hr_PackageName rule) \<and>
     strings_ok (hr_WIFISSID rule) \<and>
     strings_ok (hr_WIFIBSSID rule) \<and>
     len_ok (hr_QueryType rule) \<and>
     len_ok (hr_SourcePort rule) \<and>
     len_ok (hr_Port rule) \<and>
     len_ok (hr_NetworkType rule) \<and>
     cidrs_ok d (hr_SourceIPCIDR rule) \<and> cidrs_ok d (hr_IPCIDR rule) \<and>
     (case hr_NetworkInterfaceAddress rule of None \<Rightarrow> True | Some es \<Rightarrow> entries_ok d es) \<and>
     prefixes_ok d (hr_DefaultInterfaceAddress rule)"

definition srs_image :: "'h deps \<Rightarrow> u8 \<Rightarrow> 'h DefaultHeadlessRuleOptions \<Rightarrow> 'h DefaultHeadlessRuleOptions" where
  "srs_image d ver rule = DefaultHeadlessRuleOptions_zero
     \<lparr>hr_QueryType := hr_QueryType rule,
      hr_Network := hr_Network rule,
      hr_DomainMatcher :=
        (if hr_Domain rule \<noteq> [] \<or> hr_DomainSuffix rule \<noteq> []
         then Some (domain_NewMatcher d (hr_Domain rule) (hr_DomainSuffix rule) (ver = 1)) else None),
      hr_DomainKeyword := hr_DomainKeyword rule,
      hr_DomainRegex := hr_DomainRegex rule,
      hr_SourceIPSet := cidr_image d (hr_SourceIPCIDR rule),
      hr_IPSet := cidr_image d (hr_IPCIDR rule),
      hr_SourcePort := hr_SourcePort rule,
      hr_SourcePortRange := hr_SourcePortRange rule,
      hr_Port := hr_Port rule,
      hr_PortRange := hr_PortRange rule,
      hr_ProcessName := hr_ProcessName rule,
      hr_ProcessPath := hr_ProcessPath rule,
      hr_ProcessPathRegex := hr_ProcessPathRegex rule,
      hr_PackageName := hr_PackageName rule,
      hr_NetworkType := hr_NetworkType rule,
      hr_NetworkIsExpensive := hr_NetworkIsExpensive rule,
      hr_NetworkIsConstrained := hr_NetworkIsConstrained rule,
      hr_NetworkInterfaceAddress :=
        (case hr_NetworkInterfaceAddress rule of None \<Rightarrow> None
         | Some es \<Rightarrow> if es = [] then None else Some (built_entries d es)),
      hr_DefaultInterfaceAddress := map (\<lambda>p. Some (built d p)) (hr_DefaultInterfaceAddress rule),
      hr_WIFISSID := hr_WIFISSID rule,
      hr_WIFIBSSID := hr_WIFIBSSID rule,
      hr_AdGuardDomainMatcher :=
        (if hr_AdGuardDomain rule \<noteq> [] then Some (domain_NewAdGuardMatcher d (hr_AdGuardDomain rule)) else None),
      hr_Invert := hr_Invert rule\<rparr>"

text \<open>A segment of \<open>write_items\<close> is empty or is read as one item.\<close>

definition segment_ok ::
  "'h deps \<Rightarrow> 'h codec \<Rightarrow> bytes res \<Rightarrow>
     ('h DefaultHeadlessRuleOptions \<Rightarrow> 'h DefaultHeadlessRuleOptions) \<Rightarrow> bool" where
  "segment_ok d c w upd \<longleftrightarrow> (\<forall>seg. w = Inr seg \<longrightarrow>
     seg = [] \<and> (\<forall>r. upd r = r) \<or>
     (\<exists>t body. seg = t # body \<and> t \<noteq> ruleItemFinal \<and>
        (\<forall>last r rest. read_item d c False t last r (body @ rest) = Inr (upd r, rest))))"

lemma segment_opt:
  assumes "t \<noteq> ruleItemFinal"
    and "\<And>lst r rest. cnd \<Longrightarrow> read_item d c False t lst r (body @ rest) = Inr (upd r, rest)"
    and "\<And>r. \<not> cnd \<Longrightarrow> upd r = r"
  shows "segment_ok d c (if cnd then Inr (t # body) else Inr []) upd"
  using assms by (simp add: segment_ok_def)

lemma segment_version:
  assumes "t \<noteq> ruleItemFinal"
    and "\<And>lst r rest. cnd \<Longrightarrow> read_item d c False t lst r (body @ rest) = Inr (upd r, rest)"
    and "\<And>r. \<not> cnd \<Longrightarrow> upd r = r"
  shows "segment_ok d c (if cnd then needs_version g v msg (t # body) else Inr []) upd"
  using assms by (simp add: segment_ok_def needs_version_def)

lemma segment_cidr:
  assumes laws: "codec_laws d c" and "cidrs_ok d cs" and t: "t \<noteq> ruleItemFinal"
    and item: "\<And>lst r rest s. cs \<noteq> [] \<Longrightarrow> cidr_image d cs = Some s \<Longrightarrow>
      readIPSet c (writeIPSet c s @ rest) = Inr (s, rest) \<Longrightarrow>
      read_item d c False t lst r (writeIPSet c s @ rest) = Inr (upd r, rest)"
    and none: "\<And>r. cs = [] \<Longrightarrow> upd r = r"
  shows "segment_ok d c (if cs \<noteq> [] then res_cause args (writeRuleItemCIDR d c t cs) else Inr []) upd"
proof (cases "cidr_set d cs")
  case (Inl e)
  then have "\<exists>e. writeRuleItemCIDR d c t cs = Inl e"
    by (cases "parse_cidrs d 0 cs") (auto simp: cidr_set_def writeRuleItemCIDR_def)
  then show ?thesis using none by (auto simp: segment_ok_def)
next
  case (Inr s)
  then have "writeRuleItemCIDR d c t cs = Inr (t # writeIPSet c s)"
    by (cases "parse_cidrs d 0 cs") (auto simp: cidr_set_def writeRuleItemCIDR_def)
  moreover have "readIPSet c (writeIPSet c s @ rest) = Inr (s, rest)" if "cs \<noteq> []" for rest
    using readIPSet_writeIPSet [OF laws] assms(2) Inr that by (simp add: cidrs_ok_def)
  then have "cs \<noteq> [] \<Longrightarrow> read_item d c False t lst r (writeIPSet c s @ rest) = Inr (upd r, rest)" for lst r rest
    using Inr by (intro item) (simp_all add: cidr_image_def)
  ultimately show ?thesis using t none by (simp add: segment_ok_def)
qed

definition item_updates ::
  "'h deps \<Rightarrow> u8 \<Rightarrow> 'h DefaultHeadlessRuleOptions \<Rightarrow>
     ('h DefaultHeadlessRuleOptions \<Rightarrow> 'h DefaultHeadlessRuleOptions) list" where
  "item_updates d ver rule = [
    hr_QueryType_update (\<lambda>v. if hr_QueryType rule \<noteq> [] then hr_QueryType rule else v),
    hr_Network_update (\<lambda>v. if hr_Network rule \<noteq> [] then hr_Network rule else v),
    hr_DomainMatcher_update (\<lambda>v.
      if hr_Domain rule \<noteq> [] \<or> hr_DomainSuffix rule \<noteq> []
      then Some (domain_NewMatcher d (hr_Domain rule) (hr_DomainSuffix rule) (ver = 1)) else v),
    hr_DomainKeyword_update (\<lambda>v. if hr_DomainKeyword rule \<noteq> [] then hr_DomainKeyword rule else v),
    hr_DomainRegex_update (\<lambda>v. if hr_DomainRegex rule \<noteq> [] then hr_DomainRegex rule else v),
    hr_SourceIPSet_update (\<lambda>v. if hr_SourceIPCIDR rule \<noteq> [] then cidr_image d (hr_SourceIPCIDR rule) else v),
    hr_IPSet_update (\<lambda>v. if hr_IPCIDR rule \<noteq> [] then cidr_image d (hr_IPCIDR rule) else v),
    hr_SourcePort_update (\<lambda>v. if hr_SourcePort rule \<noteq> [] then hr_SourcePort rule else v),
    hr_SourcePortRange_update (\<lambda>v. if hr_SourcePortRange rule \<noteq> [] then hr_SourcePortRange rule else v),
    hr_Port_update (\<lambda>v. if hr_Port rule \<noteq> [] then hr_Port rule else v),
    hr_PortRange_update (\<lambda>v. if hr_PortRange rule \<noteq> [] then hr_PortRange rule else v),
    hr_ProcessName_update (\<lambda>v. if hr_ProcessName rule \<noteq> [] then hr_ProcessName rule else v),
    hr_ProcessPath_update (\<lambda>v. if hr_ProcessPath rule \<noteq> [] then hr_ProcessPath rule else v),
    hr_ProcessPathRegex_update (\<lambda>v. if hr_ProcessPathRegex rule \<noteq> [] then hr_ProcessPathRegex rule else v),
    hr_PackageName_update (\<lambda>v. if hr_PackageName rule \<noteq> [] then hr_PackageName rule else v),
    hr_NetworkType_update (\<lambda>v. if hr_NetworkType rule \<noteq> [] then hr_NetworkType rule else v),
    hr_NetworkIsExpensive_update (\<lambda>v. if hr_NetworkIsExpensive rule then True else v),
    hr_NetworkIsConstrained_update (\<lambda>v. if hr_NetworkIsConstrained rule then True else v),
    hr_NetworkInterfaceAddress_update (\<lambda>v.
      if hr_NetworkInterfaceAddress rule \<noteq> None \<and> the (hr_NetworkInterfaceAddress rule) \<noteq> []
      then Some (built_entries d (the (hr_NetworkInterfaceAddress rule))) else v),
    hr_DefaultInterfaceAddress_update (\<lambda>v.
      if hr_DefaultInterfaceAddress rule \<noteq> []
      then map (\<lambda>p. Some (built d p)) (hr_DefaultInterfaceAddress rule) else v),
    hr_WIFISSID_update (\<lambda>v. if hr_WIFISSID rule \<noteq> [] then hr_WIFISSID rule else v),
    hr_WIFIBSSID_update (\<lambda>v. if hr_WIFIBSSID rule \<noteq> [] then hr_WIFIBSSID rule else v),
    hr_AdGuardDomainMatcher_update (\<lambda>v. if hr_AdGuardDomain rule \<noteq> [] then Some (domain_NewAdGuardMatcher d (hr_AdGuardDomain rule)) else v)]"

lemma write_items_segments:
  assumes laws: "codec_laws d c" and ok: "default_ok d rule"
  shows "list_all2 (segment_ok d c) (write_items d c rule ver) (item_updates d ver rule)"
proof -
  note oks = ok [unfolded default_ok_def] and law = codec_lawsD [OF laws]
  have interfaces: "res_bind (ReadUvarint
        (write_interface_entries d c (the (hr_NetworkInterfaceAddress rule)) @ rest)) (\<lambda>(size, bs).
      res_bind (read_n (read_interface_entry c) (unat size) bs) (\<lambda>(entries, bs).
        Inr (r\<lparr>hr_NetworkInterfaceAddress := Some (put_entries entries [])\<rparr>, bs))) =
      Inr (r\<lparr>hr_NetworkInterfaceAddress :=
        Some (built_entries d (the (hr_NetworkInterfaceAddress rule)))\<rparr>, rest)"
    if "\<exists>es. hr_NetworkInterfaceAddress rule = Some es"
    for r :: "'a DefaultHeadlessRuleOptions" and rest
  proof -
    from that obtain es where es: "hr_NetworkInterfaceAddress rule = Some es" by auto
    with oks have eok: "entries_ok d es" by simp
    then have "distinct (map fst (built_entries d es))"
      by (simp add: entries_ok_def built_entries_def comp_def case_prod_unfold)
    then have "put_entries (built_entries d es) [] = built_entries d es"
      using put_entries_distinct [of "[]" "built_entries d es"] by simp
    moreover obtain size bs where
        "ReadUvarint (write_interface_entries d c es @ rest) = Inr (size, bs)"
        "read_n (read_interface_entry c) (unat size) bs = Inr (built_entries d es, rest)"
      using read_interface_entries [OF laws eok, of rest] by (auto simp: res_bind_Inr_iff)
    ultimately show ?thesis using es by simp
  qed
  have no_entries: "x = None \<or> the x = [] \<Longrightarrow> ((\<exists>y. x = Some y) \<and> the x \<noteq> []) = False"
    for x :: "(u8 \<times> Prefix option list) list option" by auto
  show ?thesis
    unfolding write_items_def item_updates_def list_all2_Cons list_all2_Nil
    by (intro conjI segment_opt segment_version segment_cidr [OF laws])
      (use oks in \<open>simp_all add: read_item_def law interfaces readPrefixes_writePrefixes [OF laws] no_entries\<close>)
qed

lemma map_res_id_Inr: "map_res id ws = Inr segs \<Longrightarrow> ws = map Inr segs"
  by (induction ws arbitrary: segs) (auto split: sum.splits)

text \<open>The loop over the items reads the segments one after the other.\<close>

lemma readDefaultRule_loop_segments:
  assumes "list_all2 (segment_ok d c) (map Inr segs) upds" "length (concat segs) \<le> fuel"
  shows "\<exists>fuel' lst'. fuel \<le> fuel' + length (concat segs) \<and>
    readDefaultRule_loop d c False fuel lst rule (concat segs @ rest) =
    readDefaultRule_loop d c False fuel' lst' (fold (\<lambda>u r. u r) upds rule) rest"
  using assms
proof (induction segs arbitrary: upds fuel lst rule)
  case Nil
  then show ?case by auto
next
  case (Cons seg segs)
  from Cons.prems(1) obtain u us where upds: "upds = u # us" "segment_ok d c (Inr seg) u"
    "list_all2 (segment_ok d c) (map Inr segs) us" by (auto simp: list_all2_Cons1)
  from upds(2) consider "seg = []" "\<forall>r. u r = r"
    | t body where "seg = t # body" "t \<noteq> ruleItemFinal"
        "\<forall>lst r rest. read_item d c False t lst r (body @ rest) = Inr (u r, rest)"
    by (auto simp: segment_ok_def)
  then show ?case
  proof cases
    case 1
    then show ?thesis using Cons.IH [OF upds(3), of fuel lst rule] Cons.prems(2) upds(1) by simp
  next
    case 2
    with Cons.prems(2) obtain f where fuel: "fuel = Suc f" by (cases fuel) auto
    with 2 Cons.prems(2) have "length (concat segs) \<le> f" by simp
    from Cons.IH [OF upds(3) this, of t "u rule"] obtain fuel' lst' where
      "f \<le> fuel' + length (concat segs)"
      "readDefaultRule_loop d c False f t (u rule) (concat segs @ rest) =
       readDefaultRule_loop d c False fuel' lst' (fold (\<lambda>u r. u r) us (u rule)) rest" by blast
    then show ?thesis using 2 fuel upds(1) by (intro exI [of _ fuel'] exI [of _ lst']) simp
  qed
qed

text \<open>The updates together give the image, up to the field that the final item sets.\<close>

lemma if_entries:
  "(if (\<exists>y. x = Some y) \<and> the x \<noteq> [] then Some (g (the x)) else None) =
     (case x of None \<Rightarrow> None | Some es \<Rightarrow> if es = [] then None else Some (g es))"
  by (cases x) auto

lemma fold_item_updates:
  "(fold (\<lambda>u r. u r) (item_updates d ver rule) DefaultHeadlessRuleOptions_zero)\<lparr>hr_Invert := hr_Invert rule\<rparr> =
   srs_image d ver rule"
  unfolding item_updates_def srs_image_def DefaultHeadlessRuleOptions_zero_def
  by (simp add: cidr_image_def split del: if_split) (intro conjI; simp add: if_entries)

lemma readDefaultRule_writeDefaultRule:
  assumes "codec_laws d c" "default_ok d rule" "writeDefaultRule d c rule ver = Inr bs"
    and "length bs \<le> Suc fuel"
  shows "\<exists>body. bs = 0 # body \<and> readDefaultRule d c False fuel (body @ rest) = Inr (srs_image d ver rule, rest)"
proof -
  from assms(3) obtain segs where segs: "write_items d c rule ver = map Inr segs"
    and bs: "bs = [0] @ concat segs @ [ruleItemFinal] @ put_bool (hr_Invert rule)"
    by (auto simp: writeDefaultRule_def res_bind_Inr_iff dest: map_res_id_Inr)
  have "list_all2 (segment_ok d c) (map Inr segs) (item_updates d ver rule)"
    using write_items_segments [OF assms(1,2), of ver] by (simp add: segs)
  moreover from assms(4) have len: "length (concat segs) + 2 \<le> fuel" by (simp add: bs put_bool_def)
  ultimately obtain fuel' lst where f: "fuel \<le> fuel' + length (concat segs)"
    and loop: "readDefaultRule_loop d c False fuel 0 DefaultHeadlessRuleOptions_zero
      (concat segs @ [ruleItemFinal] @ put_bool (hr_Invert rule) @ rest) =
      readDefaultRule_loop d c False fuel' lst
        (fold (\<lambda>u r. u r) (item_updates d ver rule) DefaultHeadlessRuleOptions_zero)
        ([ruleItemFinal] @ put_bool (hr_Invert rule) @ rest)"
    using readDefaultRule_loop_segments [of d c segs _ fuel 0 _
        "[ruleItemFinal] @ put_bool (hr_Invert rule) @ rest"] by (metis add_leD1)
  from f len obtain f' where "fuel' = Suc f'" by (cases fuel') auto
  with loop have "readDefaultRule d c False fuel
      (concat segs @ [ruleItemFinal] @ put_bool (hr_Invert rule) @ rest) = Inr (srs_image d ver rule, rest)"
    by (simp add: readDefaultRule_def read_bool_def put_bool_def fold_item_updates [symmetric])
  with bs show ?thesis by (simp add: put_bool_def)
qed

section \<open>Rules and files\<close>

fun rule_ok :: "'h deps \<Rightarrow> 'h HeadlessRuleOptions \<Rightarrow> bool" where
  "rule_ok d (HeadlessRuleOptions type def mode rules neg) \<longleftrightarrow>
     (type = RuleTypeDefault \<and> default_ok d def) \<or>
     (type = RuleTypeLogical \<and> len_ok rules \<and> list_all (rule_ok d) rules)"

fun rule_image :: "'h deps \<Rightarrow> u8 \<Rightarrow> 'h HeadlessRuleOptions \<Rightarrow> 'h HeadlessRuleOptions" where
  "rule_image d ver (HeadlessRuleOptions type def mode rules neg) =
     (if type = RuleTypeDefault
      then HeadlessRuleOptions RuleTypeDefault (srs_image d ver def) [] [] False
      else HeadlessRuleOptions RuleTypeLogical DefaultHeadlessRuleOptions_zero mode
             (map (rule_image d ver) rules) neg)"

lemma read_rules_concat:
  assumes "map_res w xs = Inr segs" "length (concat segs) \<le> n"
    and "\<And>x seg rest. x \<in> set xs \<Longrightarrow> w x = Inr seg \<Longrightarrow> length seg \<le> n \<Longrightarrow> r (seg @ rest) = Inr (v x, rest)"
  shows "read_rules msg r i (length xs) (concat segs @ rest) = Inr (map v xs, rest)"
  using assms
proof (induction xs arbitrary: segs i)
  case (Cons x xs)
  then obtain seg segs' where w: "w x = Inr seg" "map_res w xs = Inr segs'" "segs = seg # segs'"
    by (auto split: sum.splits)
  with Cons.prems have "r (seg @ concat segs' @ rest) = Inr (v x, concat segs' @ rest)" by simp
  moreover have "read_rules msg r (Suc i) (length xs) (concat segs' @ rest) = Inr (map v xs, rest)"
    using Cons.prems w by (intro Cons.IH) simp_all
  ultimately show ?case using w(3) by simp
qed simp

lemma readRule_writeRule:
  assumes "codec_laws d c"
  shows "writeRule d c ver opts = Inr bs \<Longrightarrow> rule_ok d opts \<Longrightarrow> length bs \<le> fuel \<Longrightarrow>
    readRule d c False fuel (bs @ rest) = Inr (rule_image d ver opts, rest)"
proof (induction opts arbitrary: bs fuel rest)
  case (HeadlessRuleOptions ty def mode rules neg)
  show ?case
  proof (cases "ty = RuleTypeDefault")
    case True
    with HeadlessRuleOptions.prems have w: "writeDefaultRule d c def ver = Inr bs" "default_ok d def"
      by (auto simp: rule_types)
    then obtain f where f: "fuel = Suc f"
      using HeadlessRuleOptions.prems(3) by (cases fuel) (auto simp: writeDefaultRule_def res_bind_Inr_iff)
    obtain body where "bs = 0 # body"
      "readDefaultRule d c False f (body @ rest) = Inr (srs_image d ver def, rest)"
      using readDefaultRule_writeDefaultRule [OF assms w(2,1)] HeadlessRuleOptions.prems(3) f by blast
    with True f show ?thesis by simp
  next
    case False
    with HeadlessRuleOptions.prems(2) have ty: "ty = RuleTypeLogical" "len_ok rules" "list_all (rule_ok d) rules"
      by auto
    from HeadlessRuleOptions.prems(1) obtain m segs where m: "write_mode mode = Inr m"
      and segs: "map_res (writeRule d c ver) rules = Inr segs"
      and bs: "bs = [1, m] @ vb_WriteUvarint c (of_nat (length rules)) @ concat segs @ put_bool neg"
      using ty False by (auto simp: res_bind_Inr_iff)
    with HeadlessRuleOptions.prems(3) obtain f where f: "fuel = Suc (Suc f)" "length (concat segs) \<le> f"
      by (cases fuel; cases "fuel - 1") auto
    have "read_rules (\<lambda>i. [ArgS ''read logical rule ['', ArgI (int i), ArgS '']'']) (readRule d c False f) 0
        (length rules) (concat segs @ put_bool neg @ rest) =
        Inr (map (rule_image d ver) rules, put_bool neg @ rest)"
      by (rule read_rules_concat [OF segs f(2)])
        (use HeadlessRuleOptions.IH ty(3) in \<open>auto simp: list_all_iff\<close>)
    moreover have "read_mode (m # rest') = Inr (mode, rest')" for rest'
      using m by (auto simp: write_mode_def read_mode_def split: if_splits)
    ultimately show ?thesis
      using False ty bs f(1) by (simp add: codec_lawsD [OF assms] read_bool_def put_bool_def)
  qed
qed

text \<open>The file as a whole.\<close>

lemma srs_Read_srs_Write:
  assumes laws: "codec_laws d c" and ok: "len_ok rules" "list_all (rule_ok d) rules"
    and ver: "ver \<le> RuleSetVersionCurrent" and wr: "srs_Write d c rules ver = Inr bs"
  shows "srs_Read d c False bs = Inr \<lparr>prs_Version = ver, prs_Rules = map (rule_image d ver) rules\<rparr>"
proof -
  from wr obtain segs where segs: "map_res (writeRule d c ver) rules = Inr segs"
    and bs: "bs = MagicBytes @ [ver] @
      zlib_Compress c (vb_WriteUvarint c (of_nat (length rules)) @ concat segs)"
    by (auto simp: srs_Write_def res_bind_Inr_iff)
  have "read_rules (\<lambda>i. [ArgS ''read rule['', ArgI (int i), ArgS '']''])
      (readRule d c False (Suc (length (concat segs)))) 0 (length rules) (concat segs @ []) =
      Inr (map (rule_image d ver) rules, [])"
    by (rule read_rules_concat [OF segs])
      (use ok in \<open>auto simp: list_all_iff simp del: readRule.simps intro!: readRule_writeRule [OF laws]\<close>)
  then show ?thesis
    using bs ok ver by (simp add: srs_Read_def MagicBytes_def codec_lawsD [OF laws] not_less)
qed

end
