(* ===== verification/RuleProps.thy ===== *)
theory RuleProps
  imports Samples SrsRoundtrip
begin

text \<open>
  What the rules guarantee: the matching logic of the documentation for the rules that the
  constructors build, the frame of an evaluation, logical rules, the two passes over DNS rules,
  the metadata and the lifecycle of rule sets.
\<close>

section \<open>Rules without rule sets\<close>

lemma match_items_cong:
  "(\<And>i s. i \<in> set xs \<Longrightarrow> m i s = m' i s) \<Longrightarrow> match_items g m xs md = match_items g m' xs md"
  by (induction xs arbitrary: md) (simp_all split: prod.split)

lemma default_Match_cong:
  assumes "\<And>i s. i \<in> all_groups r \<Longrightarrow> m i s = m' i s"
  shows "abstractDefaultRule_Match g m r md = abstractDefaultRule_Match g m' r md"
proof -
  have any: "any_st m xs s = any_st m' xs s" if "set xs \<subseteq> all_groups r" for xs s
    using that assms by (intro any_st_cong) auto
  have groups: "set (sourceAddressItems r) \<subseteq> all_groups r" "set (sourcePortItems r) \<subseteq> all_groups r"
    "set (destinationAddressItems r) \<subseteq> all_groups r" "set (destinationIPCIDRItems r) \<subseteq> all_groups r"
    "set (destinationPortItems r) \<subseteq> all_groups r"
    by (auto simp: all_groups_def)
  have "match_sourceAddress m r = match_sourceAddress m' r" "match_sourcePort m r = match_sourcePort m' r"
    "match_destinationAddress m r = match_destinationAddress m' r"
    "match_destinationIPCIDR m r = match_destinationIPCIDR m' r"
    "match_destinationPort m r = match_destinationPort m' r"
    by (rule ext, simp add: match_phase_defs any groups)+
  moreover have "match_items g m (items r) s = match_items g m' (items r) s" for s
    using assms by (intro match_items_cong) (auto simp: all_groups_def)
  ultimately show ?thesis by (simp only: abstractDefaultRule_Match_def)
qed

text \<open>An item matched without its effect on the metadata; on plain items it is the item itself.\<close>

definition item_holds :: "'h deps \<Rightarrow> env \<Rightarrow> 'h Item \<Rightarrow> InboundContext \<Rightarrow> bool" where
  "item_holds d e i md = (case i of PlainItem item \<Rightarrow> RuleItem_Match d e item md | _ \<Rightarrow> False)"

interpretation holds: pure_items "\<lambda>i md. (item_holds d e i md, md)" "item_holds d e" for d e
  by unfold_locales (simp_all add: item_holds_def RuleItem_Match_clear_flags split: Item.split)

lemma plain_Item_Match:
  "\<not> is_RuleSetItem i \<Longrightarrow> Item_Match d e sets i md = (item_holds d e i md, md)"
  by (cases i) (simp_all add: item_holds_def RuleItem_Match_st_def)

definition no_rule_sets :: "'h item_rule \<Rightarrow> bool" where
  "no_rule_sets r \<longleftrightarrow> (\<forall>i\<in>all_groups r. \<not> is_RuleSetItem i)"

lemma no_rule_sets_empty [simp]: "no_rule_sets (empty_rule neg act)"
  by (simp add: no_rule_sets_def all_groups_def empty_rule_def)

lemma no_rule_sets_add [simp]:
  "no_rule_sets (add_items i r) \<longleftrightarrow> \<not> is_RuleSetItem i \<and> no_rule_sets r"
  "no_rule_sets (add_sourceAddressItems i r) \<longleftrightarrow> \<not> is_RuleSetItem i \<and> no_rule_sets r"
  "no_rule_sets (add_sourcePortItems i r) \<longleftrightarrow> \<not> is_RuleSetItem i \<and> no_rule_sets r"
  "no_rule_sets (add_destinationAddressItems i r) \<longleftrightarrow> \<not> is_RuleSetItem i \<and> no_rule_sets r"
  "no_rule_sets (add_destinationIPCIDRItems i r) \<longleftrightarrow> \<not> is_RuleSetItem i \<and> no_rule_sets r"
  "no_rule_sets (add_destinationPortItems i r) \<longleftrightarrow> \<not> is_RuleSetItem i \<and> no_rule_sets r"
  by (auto simp: no_rule_sets_def all_groups_def add_defs)

lemma plain_res_item: "plain_res x = Inr i \<Longrightarrow> \<not> is_RuleSetItem i"
  by (cases x) (auto simp: plain_res_def)

lemma NewDefaultRule_plain:
  assumes "NewDefaultRule d dialer_New opts act = Inr r" "dr_RuleSet opts = []"
  shows "no_rule_sets r"
proof -
  have "\<forall>stage\<in>set (rule_inbound_stages opts). stage_keeps no_rule_sets stage"
    "\<forall>stage\<in>set (rule_domain_stages d opts). stage_keeps no_rule_sets stage"
    "\<forall>stage\<in>set (rule_ip_stages d opts). stage_keeps no_rule_sets stage"
    "\<forall>stage\<in>set (rule_port_stages opts). stage_keeps no_rule_sets stage"
    "\<forall>stage\<in>set (rule_process_stages d opts). stage_keeps no_rule_sets stage"
    "\<forall>stage\<in>set (rule_network_stages d opts). stage_keeps no_rule_sets stage"
    using assms(2) unfolding rule_stage_defs by (auto simp: plain_res_item intro!: stage_intros)
  moreover from assms(1) obtain a where "run_stages (rule_inbound_stages opts @ rule_domain_stages d opts @
      rule_ip_stages d opts @ rule_port_stages opts @ rule_process_stages d opts @ rule_network_stages d opts)
      (empty_rule (dr_Invert opts) a) = Inr r"
    by (auto simp: NewDefaultRule_def res_bind_Inr_iff)
  ultimately show ?thesis by (elim run_stages_keeps) auto
qed

lemma NewDefaultDNSRule_plain:
  assumes "NewDefaultDNSRule d opts act = Inr r" "dd_RuleSet opts = []"
  shows "no_rule_sets r"
proof -
  have "\<forall>stage\<in>set (dns_inbound_stages opts). stage_keeps no_rule_sets stage"
    "\<forall>stage\<in>set (dns_domain_stages d opts). stage_keeps no_rule_sets stage"
    "\<forall>stage\<in>set (dns_ip_stages d opts). stage_keeps no_rule_sets stage"
    "\<forall>stage\<in>set (dns_port_stages opts). stage_keeps no_rule_sets stage"
    "\<forall>stage\<in>set (dns_process_stages d opts). stage_keeps no_rule_sets stage"
    "\<forall>stage\<in>set (dns_network_stages d opts). stage_keeps no_rule_sets stage"
    using assms(2) unfolding dns_stage_defs by (auto simp: plain_res_item intro!: stage_intros)
  moreover from assms(1) obtain a where "run_stages (dns_inbound_stages opts @ dns_domain_stages d opts @
      dns_ip_stages d opts @ dns_port_stages opts @ dns_process_stages d opts @ dns_network_stages d opts)
      (empty_rule (dd_Invert opts) a) = Inr r"
    by (auto simp: NewDefaultDNSRule_def res_bind_Inr_iff)
  ultimately show ?thesis by (elim run_stages_keeps) auto
qed

lemma no_rule_sets_dns:
  assumes "no_rule_sets r"
  shows "dns_no_match_source (DefaultDNSRule r)" "dns_rule_sets_in_items (DefaultDNSRule r)"
proof -
  have "no_match_source i" if "\<not> is_RuleSetItem i" for i :: "'a Item" using that by (cases i) auto
  with assms show "dns_no_match_source (DefaultDNSRule r)" "dns_rule_sets_in_items (DefaultDNSRule r)"
    by (auto simp: no_rule_sets_def all_groups_def)
qed

lemma NewDefaultRule_invert: "NewDefaultRule d dialer_New opts act = Inr r \<Longrightarrow> invert r = dr_Invert opts"
  by (erule NewDefaultRule_keeps) (simp_all add: add_defs empty_rule_def)

lemma plain_Rule_Match:
  assumes "rule_wf r" "no_rule_sets r" "\<not> md_IgnoreDestinationIPCIDRMatch md"
  shows "fst (Rule_Match d e sets (DefaultRule r) (ResetRuleCache md)) \<longleftrightarrow>
    allItems r = [] \<or> rule_condition (\<lambda>i. item_holds d e i (ResetRuleCache md)) r (ResetRuleCache md) \<noteq> invert r"
proof -
  have "Rule_Match d e sets (DefaultRule r) (ResetRuleCache md) =
      abstractDefaultRule_Match is_RuleSetItem (\<lambda>i md. (item_holds d e i md, md)) r (ResetRuleCache md)"
    unfolding Rule_Match.simps
    using assms(2) by (intro default_Match_cong) (simp add: plain_Item_Match no_rule_sets_def)
  then show ?thesis
    using holds.Match_after_reset [of r is_RuleSetItem md d e] assms by (simp add: no_rule_sets_def)
qed

section \<open>The documented logic, on the options\<close>

text \<open>An option of a rule: whether it is used, and whether its condition holds.\<close>

type_synonym used_option = "bool \<times> bool"

definition any_option :: "used_option list \<Rightarrow> bool" where
  "any_option os \<longleftrightarrow> (\<forall>(used, holds)\<in>set os. \<not> used) \<or> (\<exists>(used, holds)\<in>set os. used \<and> holds)"

definition every_option :: "used_option list \<Rightarrow> bool" where
  "every_option os \<longleftrightarrow> (\<forall>(used, holds)\<in>set os. used \<longrightarrow> holds)"

definition item_built :: "'h deps \<Rightarrow> env \<Rightarrow> InboundContext \<Rightarrow> 'h RuleItem res \<Rightarrow> bool" where
  "item_built d e md x = (case x of Inl err \<Rightarrow> False | Inr item \<Rightarrow> RuleItem_Match d e item md)"

definition source_address_options :: "'h deps \<Rightarrow> env \<Rightarrow> InboundContext \<Rightarrow> RawDefaultRule \<Rightarrow> used_option list" where
  "source_address_options d e md opts =
    [(dr_SourceIPCIDR opts \<noteq> [], item_built d e md (NewIPCIDRItem d True (dr_SourceIPCIDR opts))),
     (dr_SourceIPIsPrivate opts, RuleItem_Match d e (NewIPIsPrivateItem True) md)]"

definition source_port_options :: "'h deps \<Rightarrow> env \<Rightarrow> InboundContext \<Rightarrow> RawDefaultRule \<Rightarrow> used_option list" where
  "source_port_options d e md opts =
    [(dr_SourcePort opts \<noteq> [], RuleItem_Match d e (NewPortItem True (dr_SourcePort opts)) md),
     (dr_SourcePortRange opts \<noteq> [], item_built d e md (NewPortRangeItem True (dr_SourcePortRange opts)))]"

definition destination_options :: "'h deps \<Rightarrow> env \<Rightarrow> InboundContext \<Rightarrow> RawDefaultRule \<Rightarrow> used_option list" where
  "destination_options d e md opts =
    [(dr_Domain opts \<noteq> [] \<or> dr_DomainSuffix opts \<noteq> [], item_built d e md (NewDomainItem d (dr_Domain opts) (dr_DomainSuffix opts))),
     (dr_DomainKeyword opts \<noteq> [], RuleItem_Match d e (NewDomainKeywordItem (dr_DomainKeyword opts)) md),
     (dr_DomainRegex opts \<noteq> [], item_built d e md (NewDomainRegexItem d (dr_DomainRegex opts))),
     (dr_IPCIDR opts \<noteq> [], item_built d e md (NewIPCIDRItem d False (dr_IPCIDR opts))),
     (dr_IPIsPrivate opts, RuleItem_Match d e (NewIPIsPrivateItem False) md)]"

definition destination_port_options :: "'h deps \<Rightarrow> env \<Rightarrow> InboundContext \<Rightarrow> RawDefaultRule \<Rightarrow> used_option list" where
  "destination_port_options d e md opts =
    [(dr_Port opts \<noteq> [], RuleItem_Match d e (NewPortItem False (dr_Port opts)) md),
     (dr_PortRange opts \<noteq> [], item_built d e md (NewPortRangeItem False (dr_PortRange opts)))]"

definition other_options :: "'h deps \<Rightarrow> env \<Rightarrow> InboundContext \<Rightarrow> RawDefaultRule \<Rightarrow> used_option list" where
  "other_options d e md opts =
    [(dr_Inbound opts \<noteq> [], RuleItem_Match d e (NewInboundRule (dr_Inbound opts)) md),
     (dr_IPVersion opts > 0, RuleItem_Match d e (NewIPVersionItem (dr_IPVersion opts = 6)) md),
     (dr_Network opts \<noteq> [], RuleItem_Match d e (NewNetworkItem (dr_Network opts)) md),
     (dr_AuthUser opts \<noteq> [], RuleItem_Match d e (NewAuthUserItem (dr_AuthUser opts)) md),
     (dr_Protocol opts \<noteq> [], RuleItem_Match d e (NewProtocolItem (dr_Protocol opts)) md),
     (dr_Client opts \<noteq> [], RuleItem_Match d e (NewClientItem (dr_Client opts)) md),
     (dr_ProcessName opts \<noteq> [], RuleItem_Match d e (NewProcessItem (dr_ProcessName opts)) md),
     (dr_ProcessPath opts \<noteq> [], RuleItem_Match d e (NewProcessPathItem (dr_ProcessPath opts)) md),
     (dr_ProcessPathRegex opts \<noteq> [], item_built d e md (NewProcessPathRegexItem d (dr_ProcessPathRegex opts))),
     (dr_PackageName opts \<noteq> [], RuleItem_Match d e (NewPackageNameItem (dr_PackageName opts)) md),
     (dr_User opts \<noteq> [], RuleItem_Match d e (NewUserItem (dr_User opts)) md),
     (dr_UserID opts \<noteq> [], RuleItem_Match d e (NewUserIDItem (dr_UserID opts)) md),
     (dr_ClashMode opts \<noteq> [], RuleItem_Match d e (NewClashModeItem (dr_ClashMode opts)) md),
     (dr_NetworkType opts \<noteq> [], RuleItem_Match d e (NewNetworkTypeItem (dr_NetworkType opts)) md),
     (dr_NetworkIsExpensive opts, RuleItem_Match d e NetworkIsExpensiveItem md),
     (dr_NetworkIsConstrained opts, RuleItem_Match d e NetworkIsConstrainedItem md),
     (dr_WIFISSID opts \<noteq> [], RuleItem_Match d e (NewWIFISSIDItem (dr_WIFISSID opts)) md),
     (dr_WIFIBSSID opts \<noteq> [], RuleItem_Match d e (NewWIFIBSSIDItem (dr_WIFIBSSID opts)) md),
     (dr_InterfaceAddress opts \<noteq> None \<and> the (dr_InterfaceAddress opts) \<noteq> [],
      RuleItem_Match d e (NewInterfaceAddressItem d (the (dr_InterfaceAddress opts))) md),
     (dr_NetworkInterfaceAddress opts \<noteq> None \<and> the (dr_NetworkInterfaceAddress opts) \<noteq> [],
      RuleItem_Match d e (NewNetworkInterfaceAddressItem d (the (dr_NetworkInterfaceAddress opts))) md),
     (dr_DefaultInterfaceAddress opts \<noteq> [], RuleItem_Match d e (NewDefaultInterfaceAddressItem d (dr_DefaultInterfaceAddress opts)) md),
     (dr_PreferredBy opts \<noteq> [], RuleItem_Match d e (NewPreferredByItem (dr_PreferredBy opts)) md)]"

definition all_options :: "'h deps \<Rightarrow> env \<Rightarrow> InboundContext \<Rightarrow> RawDefaultRule \<Rightarrow> used_option list" where
  "all_options d e md opts = source_address_options d e md opts @ source_port_options d e md opts @ destination_options d e md opts @
     destination_port_options d e md opts @ other_options d e md opts"

text \<open>The statements of \<^verbatim>\<open>NewDefaultRule\<close> that succeed, as additions to the rule.\<close>

definition add_if :: "bool \<Rightarrow> ('i \<Rightarrow> 'r \<Rightarrow> 'r) \<Rightarrow> 'i \<Rightarrow> 'r \<Rightarrow> 'r" where
  "add_if c add item r = (if c then add item r else r)"

lemma run_stages_Inr:
  "run_stages [] r = Inr r' \<longleftrightarrow> r' = r"
  "run_stages (opt_item c add item # stages) r = Inr r' \<longleftrightarrow> run_stages stages (add_if c add item r) = Inr r'"
  "run_stages (opt_res c add x # stages) r = Inr r' \<longleftrightarrow> (c \<longrightarrow> \<not> isl x) \<and> run_stages stages (add_if c add (projr x) r) = Inr r'"
  "run_stages (opt_fail c msg # stages) r = Inr r' \<longleftrightarrow> \<not> c \<and> run_stages stages r = Inr r'"
  by (auto simp: opt_item_def opt_res_def opt_fail_def add_if_def res_bind_def split: sum.splits)

definition seg :: "bool \<Rightarrow> 'a \<Rightarrow> 'a list" where
  "seg c x = (if c then [x] else [])"

lemma map_seg: "map f (seg c x) = seg c (f x)"
  by (simp add: seg_def)

lemma seg_cong: "(c \<Longrightarrow> x = y) \<Longrightarrow> seg c x = seg c y"
  by (simp add: seg_def)

lemma append_cong: "xs = xs' \<Longrightarrow> ys = ys' \<Longrightarrow> xs @ ys = xs' @ ys'"
  by simp

lemma add_if_groups:
  "items (add_if c add_items i r) = items r @ seg c i"
  "items (add_if c add_sourceAddressItems i r) = items r"
  "items (add_if c add_sourcePortItems i r) = items r"
  "items (add_if c add_destinationAddressItems i r) = items r"
  "items (add_if c add_destinationIPCIDRItems i r) = items r"
  "items (add_if c add_destinationPortItems i r) = items r"
  "sourceAddressItems (add_if c add_sourceAddressItems i r) = sourceAddressItems r @ seg c i"
  "sourceAddressItems (add_if c add_items i r) = sourceAddressItems r"
  "sourceAddressItems (add_if c add_sourcePortItems i r) = sourceAddressItems r"
  "sourceAddressItems (add_if c add_destinationAddressItems i r) = sourceAddressItems r"
  "sourceAddressItems (add_if c add_destinationIPCIDRItems i r) = sourceAddressItems r"
  "sourceAddressItems (add_if c add_destinationPortItems i r) = sourceAddressItems r"
  "sourcePortItems (add_if c add_sourcePortItems i r) = sourcePortItems r @ seg c i"
  "sourcePortItems (add_if c add_items i r) = sourcePortItems r"
  "sourcePortItems (add_if c add_sourceAddressItems i r) = sourcePortItems r"
  "sourcePortItems (add_if c add_destinationAddressItems i r) = sourcePortItems r"
  "sourcePortItems (add_if c add_destinationIPCIDRItems i r) = sourcePortItems r"
  "sourcePortItems (add_if c add_destinationPortItems i r) = sourcePortItems r"
  "destinationAddressItems (add_if c add_destinationAddressItems i r) = destinationAddressItems r @ seg c i"
  "destinationAddressItems (add_if c add_items i r) = destinationAddressItems r"
  "destinationAddressItems (add_if c add_sourceAddressItems i r) = destinationAddressItems r"
  "destinationAddressItems (add_if c add_sourcePortItems i r) = destinationAddressItems r"
  "destinationAddressItems (add_if c add_destinationIPCIDRItems i r) = destinationAddressItems r"
  "destinationAddressItems (add_if c add_destinationPortItems i r) = destinationAddressItems r"
  "destinationIPCIDRItems (add_if c add_destinationIPCIDRItems i r) = destinationIPCIDRItems r @ seg c i"
  "destinationIPCIDRItems (add_if c add_items i r) = destinationIPCIDRItems r"
  "destinationIPCIDRItems (add_if c add_sourceAddressItems i r) = destinationIPCIDRItems r"
  "destinationIPCIDRItems (add_if c add_sourcePortItems i r) = destinationIPCIDRItems r"
  "destinationIPCIDRItems (add_if c add_destinationAddressItems i r) = destinationIPCIDRItems r"
  "destinationIPCIDRItems (add_if c add_destinationPortItems i r) = destinationIPCIDRItems r"
  "destinationPortItems (add_if c add_destinationPortItems i r) = destinationPortItems r @ seg c i"
  "destinationPortItems (add_if c add_items i r) = destinationPortItems r"
  "destinationPortItems (add_if c add_sourceAddressItems i r) = destinationPortItems r"
  "destinationPortItems (add_if c add_sourcePortItems i r) = destinationPortItems r"
  "destinationPortItems (add_if c add_destinationAddressItems i r) = destinationPortItems r"
  "destinationPortItems (add_if c add_destinationIPCIDRItems i r) = destinationPortItems r"
  by (simp_all add: add_if_def add_defs seg_def)

definition option_values :: "used_option list \<Rightarrow> bool list" where
  "option_values os = concat (map (\<lambda>(used, holds). seg used holds) os)"

lemma option_values_spec:
  "any_option os \<longleftrightarrow> option_values os = [] \<or> True \<in> set (option_values os)"
  "every_option os \<longleftrightarrow> False \<notin> set (option_values os)"
  "(\<forall>(used, holds)\<in>set os. \<not> used) \<longleftrightarrow> option_values os = []"
  unfolding any_option_def every_option_def option_values_def seg_def by force+

lemma item_holds_plain [simp]: "item_holds d e (PlainItem item) md = RuleItem_Match d e item md"
  by (simp add: item_holds_def)

lemma item_built_cause [simp]: "item_built d e md (res_cause args x) = item_built d e md x"
  by (cases x) (simp_all add: res_cause_def item_built_def)

lemma item_holds_built: "\<not> isl (plain_res x) \<Longrightarrow> item_holds d e (projr (plain_res x)) md = item_built d e md x"
  by (cases x) (simp_all add: plain_res_def res_bind_def item_built_def)

lemma item_holds_version:
  "\<not> isl (if v = 4 \<or> v = 6 then Inr i else Inl err) \<Longrightarrow> item_holds d e (projr (if v = 4 \<or> v = 6 then Inr i else Inl err)) md = item_holds d e i md"
  for v :: int
  by (cases "v = 4 \<or> v = 6") simp_all

lemma NewDefaultRule_groups:
  assumes "NewDefaultRule d dialer_New opts act = Inr r" "dr_RuleSet opts = []"
    and f: "f = (\<lambda>i. item_holds d e i md)"
  shows "map f (sourceAddressItems r) = option_values (source_address_options d e md opts)"
    "map f (sourcePortItems r) = option_values (source_port_options d e md opts)"
    "map f (destinationAddressItems r @ destinationIPCIDRItems r) = option_values (destination_options d e md opts)"
    "map f (destinationPortItems r) = option_values (destination_port_options d e md opts)"
    "map f (items r) = option_values (other_options d e md opts)"
proof -
  obtain a where "run_stages (rule_inbound_stages opts @ rule_domain_stages d opts @ rule_ip_stages d opts @
      rule_port_stages opts @ rule_process_stages d opts @ rule_network_stages d opts) (empty_rule (dr_Invert opts) a) = Inr r"
    using assms(1) by (auto simp: NewDefaultRule_def res_bind_Inr_iff)
  note run = this [unfolded rule_stage_defs append.simps run_stages_Inr]
  have no_sets: "seg (dr_RuleSet opts \<noteq> []) x = []" for x :: bool using assms(2) by (simp add: seg_def)
  note vals = option_values_def list.map concat.simps prod.case append_Nil append_Nil2 append_assoc
  note group = add_if_groups map_append map_seg f empty_rule_def abstractDefaultRule.simps list.map append_assoc append_Nil append_Nil2 no_sets
  show "map f (sourceAddressItems r) = option_values (source_address_options d e md opts)"
    unfolding source_address_options_def vals
    using run by (simp only: group) (intro append_cong seg_cong refl; simp add: item_holds_built)
  show "map f (sourcePortItems r) = option_values (source_port_options d e md opts)"
    unfolding source_port_options_def vals
    using run by (simp only: group) (intro append_cong seg_cong refl; simp add: item_holds_built)
  show "map f (destinationAddressItems r @ destinationIPCIDRItems r) = option_values (destination_options d e md opts)"
    unfolding destination_options_def vals
    using run by (simp only: group) (intro append_cong seg_cong refl; simp add: item_holds_built)
  show "map f (destinationPortItems r) = option_values (destination_port_options d e md opts)"
    unfolding destination_port_options_def vals
    using run by (simp only: group) (intro append_cong seg_cong refl; simp add: item_holds_built)
  show "map f (items r) = option_values (other_options d e md opts)"
    unfolding other_options_def vals
    using run by (simp only: group) (intro append_cong seg_cong refl; simp add: item_holds_built item_holds_version)
qed

lemma option_values_append: "option_values (xs @ ys) = option_values xs @ option_values ys"
  by (simp add: option_values_def)

section \<open>Theorems on matching\<close>

text \<open>C2. A route rule that \<^verbatim>\<open>NewDefaultRule\<close> has built, from options without \<^verbatim>\<open>rule_set\<close>, matches a
  connection on a fresh rule cache, where addresses are not ignored, exactly as documented for its options: where options of the source
  address, the source port, the destination address (domains or IP CIDRs) or the destination port are used, the condition of one of them
  holds, and the condition of every other option that is used holds; the answer is negated by \<^verbatim>\<open>invert\<close>, and a rule
  without conditions always matches.\<close>

theorem default_rule_documented_logic:
  assumes "NewDefaultRule d dialer_New opts act = Inr r" "dr_RuleSet opts = []"
    and "\<not> md_IgnoreDestinationIPCIDRMatch md"
  shows "fst (Rule_Match d e sets (DefaultRule r) (ResetRuleCache md)) \<longleftrightarrow>
    (\<forall>(used, holds)\<in>set (all_options d e (ResetRuleCache md) opts). \<not> used) \<or>
    (any_option (source_address_options d e (ResetRuleCache md) opts) \<and> any_option (source_port_options d e (ResetRuleCache md) opts) \<and>
     any_option (destination_options d e (ResetRuleCache md) opts) \<and> any_option (destination_port_options d e (ResetRuleCache md) opts) \<and>
     every_option (other_options d e (ResetRuleCache md) opts)) \<noteq> dr_Invert opts"
proof -
  note groups = NewDefaultRule_groups [OF assms(1,2) refl, of e "ResetRuleCache md"]
  have "rule_condition (\<lambda>i. item_holds d e i (ResetRuleCache md)) r (ResetRuleCache md) \<longleftrightarrow>
      any_option (source_address_options d e (ResetRuleCache md) opts) \<and> any_option (source_port_options d e (ResetRuleCache md) opts) \<and>
      any_option (destination_options d e (ResetRuleCache md) opts) \<and> any_option (destination_port_options d e (ResetRuleCache md) opts) \<and>
      every_option (other_options d e (ResetRuleCache md) opts)"
    unfolding option_values_spec groups [symmetric] using assms(3)
    by (auto simp: rule_condition_def group_ok_def destination_items_def)
  moreover have "allItems r = [] \<longleftrightarrow> (\<forall>(used, holds)\<in>set (all_options d e (ResetRuleCache md) opts). \<not> used)"
  proof -
    have "allItems r = [] \<longleftrightarrow> all_groups r = {}" using NewDefaultRule_wf [OF assms(1)] by (auto simp: rule_wf_def)
    also have "\<dots> \<longleftrightarrow> option_values (all_options d e (ResetRuleCache md) opts) = []"
      unfolding all_options_def option_values_append groups [symmetric] by (auto simp: all_groups_def)
    finally show ?thesis by (simp add: option_values_spec(3))
  qed
  ultimately show ?thesis
    using plain_Rule_Match [OF NewDefaultRule_wf [OF assms(1)] NewDefaultRule_plain [OF assms(1,2)] assms(3), of d e sets]
    by (simp add: NewDefaultRule_invert [OF assms(1)])
qed

theorem default_rule_documented_logic_witness:
  "\<exists>r. NewDefaultRule sample_deps (\<lambda>opts. Inr []) (RawDefaultRule_zero\<lparr>dr_Port := [443], dr_Domain := [''a'']\<rparr>)
      (RuleActionOptions_zero\<lparr>rua_Action := ''hijack-dns''\<rparr>) = Inr r \<and>
    (\<forall>sets. fst (Rule_Match sample_deps sample_env sets (DefaultRule r) (ResetRuleCache
       (InboundContext_zero\<lparr>md_Domain := ''a'', md_Destination := \<lparr>sa_Addr = AddrZero, sa_Port = 443, sa_Fqdn = []\<rparr>\<rparr>))))"
proof -
  let ?opts = "RawDefaultRule_zero\<lparr>dr_Port := [443], dr_Domain := [''a'']\<rparr>"
  let ?new = "NewDefaultRule sample_deps (\<lambda>opts. Inr []) ?opts (RuleActionOptions_zero\<lparr>rua_Action := ''hijack-dns''\<rparr>) :: string list item_rule res"
  let ?md = "InboundContext_zero\<lparr>md_Domain := ''a'', md_Destination := \<lparr>sa_Addr = AddrZero, sa_Port = 443, sa_Fqdn = []\<rparr>\<rparr>"
  have "\<not> isl ?new" by code_simp
  then obtain r where r: "?new = Inr r" by (cases ?new) auto
  have options: "any_option (source_address_options sample_deps sample_env (ResetRuleCache ?md) ?opts) \<and> any_option (source_port_options sample_deps sample_env (ResetRuleCache ?md) ?opts) \<and>
      any_option (destination_options sample_deps sample_env (ResetRuleCache ?md) ?opts) \<and> any_option (destination_port_options sample_deps sample_env (ResetRuleCache ?md) ?opts) \<and>
      every_option (other_options sample_deps sample_env (ResetRuleCache ?md) ?opts)"
    by code_simp
  have "\<not> md_IgnoreDestinationIPCIDRMatch ?md" "dr_RuleSet ?opts = []" "\<not> dr_Invert ?opts"
    by (simp_all add: InboundContext_zero_def RawDefaultRule_zero_def)
  with default_rule_documented_logic [OF r _ this(1), of sample_env] options r show ?thesis by blast
qed

text \<open>Every constructor of a default rule returns a rule whose \<^verbatim>\<open>allItems\<close>, the list that decides
  whether the rule has conditions and that \<^verbatim>\<open>Start\<close>, \<^verbatim>\<open>Close\<close> and \<^verbatim>\<open>String\<close> loop over, holds exactly the
  items of its six groups.\<close>

theorem constructors_all_items:
  "(NewDefaultRule d dialer_New opts act = Inr r \<longrightarrow> set (allItems r) = all_groups r) \<and>
   (NewDefaultDNSRule d dopts dact = Inr dr \<longrightarrow> set (allItems dr) = all_groups dr) \<and>
   (NewDefaultHeadlessRule d nm hopts = Inr hr \<longrightarrow> set (allItems hr) = all_groups hr)"
  using NewDefaultRule_wf [of d dialer_New opts act r] NewDefaultDNSRule_wf [of d dopts dact dr]
    NewDefaultHeadlessRule_wf [of d nm hopts hr]
  by (simp add: rule_wf_def)

theorem constructors_all_items_witness:
  "\<exists>hr. NewDefaultHeadlessRule sample_deps True
      (DefaultHeadlessRuleOptions_zero\<lparr>hr_Port := [80], hr_Domain := [''a'']\<rparr>) = Inr hr \<and>
    set (allItems hr) = all_groups hr \<and> allItems hr \<noteq> []"
proof -
  let ?new = "NewDefaultHeadlessRule sample_deps True
      (DefaultHeadlessRuleOptions_zero\<lparr>hr_Port := [80], hr_Domain := [''a'']\<rparr>)"
  have "(case ?new of Inl err \<Rightarrow> False | Inr hr \<Rightarrow> \<not> List.null (allItems hr))" by code_simp
  then obtain hr where hr: "?new = Inr hr" "allItems hr \<noteq> []" by (auto simp: List.null_iff split: sum.splits)
  with constructors_all_items [of sample_deps _ _ _ _ _ _ _ True
      "DefaultHeadlessRuleOptions_zero\<lparr>hr_Port := [80], hr_Domain := [''a'']\<rparr>" hr]
  show ?thesis by blast
qed

text \<open>Evaluating a route rule, whatever it is, changes nothing of the metadata but the rule cache:
  the connection itself is left as it was.\<close>

theorem Rule_Match_changes_cache_only:
  "ResetRuleCache (snd (Rule_Match d e sets r md)) = ResetRuleCache md"
  by (rule rule.m_keeps)

text \<open>C37. A logical route rule is the conjunction or the disjunction of its sub-rules, each on a fresh
  cache, negated by \<^verbatim>\<open>invert\<close>: the answer does not depend on the state of the rule cache nor on what
  earlier sub-rules have written there.\<close>

theorem LogicalRule_Match_spec:
  "fst (Rule_Match d e sets (LogicalRule rules mode neg act) md) \<longleftrightarrow>
     (if mode = LogicalTypeAnd
      then list_all (\<lambda>r. fst (Rule_Match d e sets r (ResetRuleCache md))) rules
      else list_ex (\<lambda>r. fst (Rule_Match d e sets r (ResetRuleCache md))) rules) \<noteq> neg"
  by (simp add: rule.logical_spec list_all_iff list_ex_iff)

section \<open>Theorems on DNS rules\<close>

text \<open>Where a DNS rule announces no condition on the response (\<^verbatim>\<open>WithAddressLimit\<close> is false), uses no
  rule set with \<^verbatim>\<open>rule_set_ip_cidr_match_source\<close>, and the metadata of the rule sets is truthful, the
  pass over the query gives the same answer as the pass over the response: nothing is lost by
  checking the rule on the query only.\<close>

theorem DNSRule_one_pass_enough:
  assumes "sets_truthful sets" "\<not> DNSRule_WithAddressLimit sets r" "dns_no_match_source r"
    and "dns_rule_sets_in_items r" "\<not> md_IgnoreDestinationIPCIDRMatch md"
  shows "fst (DNSRule_Match d e sets r md) = fst (DNSRule_MatchAddressLimit d e sets r md)"
  using assms by (rule DNSRule_Match_eq_MatchAddressLimit)

definition sample_dns_rule :: "RawDefaultDNSRule \<Rightarrow> string list item_rule" where
  "sample_dns_rule opts =
     (case NewDefaultDNSRule sample_deps opts (DNSRuleActionOptions_zero\<lparr>dua_Action := ''reject''\<rparr>) of
        Inl err \<Rightarrow> empty_rule False None | Inr r \<Rightarrow> r)"

theorem DNSRule_one_pass_enough_witness:
  "fst (DNSRule_Match sample_deps sample_env (\<lambda>tag. None)
      (DefaultDNSRule (sample_dns_rule (RawDefaultDNSRule_zero\<lparr>dd_Domain := [''a'']\<rparr>)))
      (InboundContext_zero\<lparr>md_Domain := ''a''\<rparr>)) \<and>
   fst (DNSRule_MatchAddressLimit sample_deps sample_env (\<lambda>tag. None)
      (DefaultDNSRule (sample_dns_rule (RawDefaultDNSRule_zero\<lparr>dd_Domain := [''a'']\<rparr>)))
      (InboundContext_zero\<lparr>md_Domain := ''a''\<rparr>))"
proof -
  let ?r = "DefaultDNSRule (sample_dns_rule (RawDefaultDNSRule_zero\<lparr>dd_Domain := [''a'']\<rparr>))"
  let ?md = "InboundContext_zero\<lparr>md_Domain := ''a''\<rparr>"
  have "fst (DNSRule_Match sample_deps sample_env (\<lambda>tag. None) ?r ?md)" by code_simp
  moreover have "\<not> DNSRule_WithAddressLimit (\<lambda>tag. None) ?r" by code_simp
  moreover have "no_rule_sets (sample_dns_rule (RawDefaultDNSRule_zero\<lparr>dd_Domain := [''a'']\<rparr>))"
    by (auto simp: sample_dns_rule_def RawDefaultDNSRule_zero_def split: sum.split intro: NewDefaultDNSRule_plain)
  then have "dns_no_match_source ?r" "dns_rule_sets_in_items ?r" by (rule no_rule_sets_dns)+
  moreover have "sets_truthful (\<lambda>tag. None)" by (simp add: sets_truthful_def)
  moreover have "\<not> md_IgnoreDestinationIPCIDRMatch ?md" by (simp add: InboundContext_zero_def)
  ultimately show ?thesis using DNSRule_one_pass_enough [of "\<lambda>tag. None" ?r ?md sample_deps sample_env] by blast
qed

text \<open>Between queries the metadata is left clean: if it does not ignore IP CIDR conditions before a
  DNS rule is evaluated, it does not afterwards, and nothing but the rule cache has changed.\<close>

theorem DNSRule_Match_changes_cache_only:
  assumes "\<not> md_IgnoreDestinationIPCIDRMatch md"
  shows "ResetRuleCache (snd (DNSRule_Match d e sets r md)) = ResetRuleCache md"
  using assms by (rule DNSRule_Match_keeps)

theorem DNSRule_Match_changes_cache_only_witness:
  "ResetRuleCache (snd (DNSRule_Match sample_deps sample_env (\<lambda>tag. None)
      (DefaultDNSRule (sample_dns_rule (RawDefaultDNSRule_zero\<lparr>dd_Domain := [''a'']\<rparr>))) InboundContext_zero)) =
   ResetRuleCache InboundContext_zero \<and> \<not> md_IgnoreDestinationIPCIDRMatch InboundContext_zero"
proof -
  have "\<not> md_IgnoreDestinationIPCIDRMatch InboundContext_zero" by (simp add: InboundContext_zero_def)
  with DNSRule_Match_changes_cache_only [OF this] show ?thesis by blast
qed

text \<open>A DNS rule with both domain conditions and an \<^verbatim>\<open>ip_cidr\<close> condition does not filter the response:
  once the domain matches, the destination address group holds and the IP CIDR items are not
  looked at, here on a response outside the prefix.\<close>

theorem DNS_domain_disables_address_filter:
  "(let r = DefaultDNSRule (sample_dns_rule (RawDefaultDNSRule_zero\<lparr>dd_Domain := [''a''], dd_IPCIDR := [''10.0.0.0/8'']\<rparr>));
        md = InboundContext_zero\<lparr>md_Domain := ''a''\<rparr>
    in DNSRule_WithAddressLimit (\<lambda>tag. None) r \<and>
       fst (DNSRule_Match sample_deps sample_env (\<lambda>tag. None) r md) \<and>
       fst (DNSRule_MatchAddressLimit sample_deps sample_env (\<lambda>tag. None) r
         (ResetRuleCache (md\<lparr>md_DestinationAddresses := [Addr4 0x08080808]\<rparr>))))"
  by code_simp

section \<open>Theorems on rule sets\<close>

text \<open>A rule set of two rules, each with a domain and a port.\<close>

definition sample_headless :: "string \<Rightarrow> u16 \<Rightarrow> string list HeadlessRule" where
  "sample_headless domain port =
     (case NewDefaultHeadlessRule sample_deps True
             (DefaultHeadlessRuleOptions_zero\<lparr>hr_Port := [port], hr_Domain := [domain]\<rparr>) of
        Inl err \<Rightarrow> LogicalHeadlessRule [] [] False | Inr r \<Rightarrow> DefaultHeadlessRule r)"

definition sample_set :: "string list LocalRuleSet" where
  "sample_set =
     \<lparr>ls_tag = ''set'', ls_rules = [sample_headless ''a'' 80, sample_headless ''b'' 443],
      ls_metadata = RuleSetMetadata_zero, ls_fileFormat = [], ls_callbacks = [], ls_refs = 0\<rparr>"

text \<open>A rule set does not reset the rule cache between its rules: a connection that none of the rules
  matches (the domain of the first, the port of the second) matches the set, because the first
  rule has left its domain match behind.\<close>

theorem rule_set_cache_leak:
  "(let md = InboundContext_zero\<lparr>md_Domain := ''a'', md_Destination := \<lparr>sa_Addr = AddrZero, sa_Port = 443, sa_Fqdn = []\<rparr>\<rparr>
    in \<not> list_ex (\<lambda>r. fst (HeadlessRule_Match sample_deps sample_env r (ResetRuleCache md))) (ls_rules sample_set) \<and>
       fst (LocalRuleSet_Match sample_deps sample_env sample_set (ResetRuleCache md)))"
  by code_simp

text \<open>In the other direction nothing is missed: in a rule set of default rules, a rule that is not
  inverted and matches a connection makes the set match, whatever the rules before it have
  written to the rule cache.\<close>

theorem rule_set_complete:
  assumes "\<forall>h\<in>set (RuleSet_rules s). \<exists>r. h = DefaultHeadlessRule r"
    and "DefaultHeadlessRule r \<in> set (RuleSet_rules s)" "\<not> invert r"
    and "fst (HeadlessRule_Match d e (DefaultHeadlessRule r) md)"
  shows "fst (RuleSet_Match d e s md)"
  using any_default_complete [OF assms flags_le_refl] by (simp add: RuleSet_Match_rules)

theorem rule_set_complete_witness:
  "fst (RuleSet_Match sample_deps sample_env (LocalSet sample_set)
     (InboundContext_zero\<lparr>md_Domain := ''b'', md_Destination := \<lparr>sa_Addr = AddrZero, sa_Port = 443, sa_Fqdn = []\<rparr>\<rparr>))"
proof -
  let ?md = "InboundContext_zero\<lparr>md_Domain := ''b'', md_Destination := \<lparr>sa_Addr = AddrZero, sa_Port = 443, sa_Fqdn = []\<rparr>\<rparr>"
  have "(case sample_headless ''a'' 80 of DefaultHeadlessRule r \<Rightarrow> True | _ \<Rightarrow> False)" by code_simp
  then obtain r1 where r1: "sample_headless ''a'' 80 = DefaultHeadlessRule r1"
    by (cases "sample_headless ''a'' 80") auto
  have "(case sample_headless ''b'' 443 of DefaultHeadlessRule r \<Rightarrow> \<not> invert r | _ \<Rightarrow> False)" by code_simp
  then obtain r2 where r2: "sample_headless ''b'' 443 = DefaultHeadlessRule r2" "\<not> invert r2"
    by (cases "sample_headless ''b'' 443") auto
  have "fst (HeadlessRule_Match sample_deps sample_env (sample_headless ''b'' 443) ?md)" by code_simp
  with r1 r2 rule_set_complete [of "LocalSet sample_set" r2 sample_deps sample_env ?md] show ?thesis
    by (simp add: sample_set_def)
qed

end
