(* ===== verification/SrsProps.thy ===== *)
theory SrsProps
  imports Samples SrsRoundtrip
begin

text \<open>
  What the binary rule-set format guarantees: a rule set that has been written is read back, with
  the instance of the codec that shows the laws assumed of the packages below the sources to be
  consistent; the encoding of lengths; the errors of the reader.
\<close>

section \<open>A codec that obeys the laws\<close>

text \<open>A list is written element by element, each announced by a byte 1, and closed by a byte 0.\<close>

fun put_list :: "('a \<Rightarrow> bytes) \<Rightarrow> 'a list \<Rightarrow> bytes" where
  "put_list f [] = [0]"
| "put_list f (x # xs) = 1 # f x @ put_list f xs"

fun get_list :: "nat \<Rightarrow> 'a reader \<Rightarrow> 'a list reader" where
  "get_list 0 g bs = Inl EInvalid"
| "get_list (Suc n) g [] = Inl EInvalid"
| "get_list (Suc n) g (b # bs) =
     (if b = 0 then Inr ([], bs)
      else case g bs of
        Inl err \<Rightarrow> Inl err
      | Inr (x, bs) \<Rightarrow>
          (case get_list n g bs of Inl err \<Rightarrow> Inl err | Inr (xs, bs) \<Rightarrow> Inr (x # xs, bs)))"

definition read_list :: "'a reader \<Rightarrow> 'a list reader" where
  "read_list g bs = get_list (length bs) g bs"

lemma get_list_put_list:
  "(\<And>x rest. g (f x @ rest) = Inr (x, rest)) \<Longrightarrow> length (put_list f xs) \<le> n \<Longrightarrow>
     get_list n g (put_list f xs @ rest) = Inr (xs, rest)"
proof (induction xs arbitrary: n)
  case Nil
  then show ?case by (cases n) simp_all
next
  case (Cons x xs)
  then show ?case by (cases n) simp_all
qed

lemma read_list_put_list:
  "(\<And>x rest. g (f x @ rest) = Inr (x, rest)) \<Longrightarrow> read_list g (put_list f xs @ rest) = Inr (xs, rest)"
  by (simp add: read_list_def get_list_put_list)

definition put_char :: "char \<Rightarrow> bytes" where "put_char c = [of_nat (of_char c)]"

fun get_char :: "char reader" where
  "get_char [] = Inl EInvalid"
| "get_char (b # bs) = Inr (char_of (unat b), bs)"

lemma get_char_put_char [simp]: "get_char (put_char c @ rest) = Inr (c, rest)"
proof -
  have "(of_char c :: nat) < 256" by simp
  then show ?thesis by (simp add: put_char_def unat_of_nat)
qed

definition get_u16 :: "u16 reader" where
  "get_u16 bs = (if length bs < 2 then Inl EInvalid else Inr (get_be 0 (take 2 bs), drop 2 bs))"

lemma get_u16_put_be [simp]: "get_u16 (put_be 2 w @ rest) = Inr (w, rest)"
proof -
  have "get_be 0 (put_be 2 w) = w"
    unfolding get_be_put_be by (simp add: take_bit_word_eq_self)
  then show ?thesis by (simp add: get_u16_def)
qed

definition put_string :: "string \<Rightarrow> bytes" where "put_string = put_list put_char"
definition get_string :: "string reader" where "get_string = read_list get_char"
definition put_bytes :: "bytes \<Rightarrow> bytes" where "put_bytes = put_list (\<lambda>b. [b])"
definition get_bytes :: "bytes reader" where "get_bytes = read_list read_byte"

lemma get_string_put_string [simp]: "get_string (put_string s @ rest) = Inr (s, rest)"
  by (simp add: get_string_def put_string_def read_list_put_list)

lemma get_bytes_put_bytes [simp]: "get_bytes (put_bytes s @ rest) = Inr (s, rest)"
  by (simp add: get_bytes_def put_bytes_def read_list_put_list)

fun get_ranges :: "nat \<Rightarrow> (bytes \<times> bytes) list reader" where
  "get_ranges 0 bs = Inr ([], bs)"
| "get_ranges (Suc n) bs =
     res_bind (get_bytes bs) (\<lambda>(a, bs). res_bind (get_bytes bs) (\<lambda>(b, bs).
       res_bind (get_ranges n bs) (\<lambda>(rs, bs). Inr ((a, b) # rs, bs))))"

definition put_range :: "bytes \<times> bytes \<Rightarrow> bytes" where
  "put_range = (\<lambda>(a, b). put_bytes a @ put_bytes b)"

lemma get_ranges_put_range:
  "get_ranges (length xs) (concat (map put_range xs) @ rest) = Inr (xs, rest)"
  by (induction xs) (auto simp: put_range_def)

definition sample_codec :: "string list codec" where
  "sample_codec =
     \<lparr>vb_WriteUvarint = PutUvarint,
      vb_WriteStrings = put_list put_string, vb_ReadStrings = read_list get_string,
      vb_WriteUint8s = put_bytes, vb_ReadUint8s = get_bytes,
      vb_WriteUint16s = put_list (put_be 2), vb_ReadUint16s = read_list get_u16,
      vb_WriteBytes = put_bytes, vb_ReadBytes = get_bytes, vb_ReadUint8 = read_byte,
      vb_WriteRange = put_range, vb_ReadRanges = get_ranges,
      domain_Matcher_Write = put_list put_string, domain_ReadMatcher = read_list get_string,
      domain_Matcher_Dump = (\<lambda>h. (h, [])),
      domain_AdGuardMatcher_Write = put_list put_string, domain_ReadAdGuardMatcher = read_list get_string,
      domain_AdGuardMatcher_Dump = (\<lambda>h. h),
      netipx_IPSet_Prefixes = (\<lambda>s. []),
      M_AddrFromIP = (\<lambda>bs. if length bs = 4 then Addr4 (get_be 0 bs) else Addr6 (get_be 0 bs) []),
      zlib_Compress = (\<lambda>bs. bs), zlib_NewReader = Inr\<rparr>"

lemma sample_codec_laws: "codec_laws sample_deps sample_codec"
proof -
  have "get_be 0 (put_be 4 a) = a" for a :: u32
    unfolding get_be_put_be by (simp add: take_bit_word_eq_self)
  moreover have "get_be 0 (put_be 16 a) = a" for a :: u128
    unfolding get_be_put_be by (simp add: take_bit_word_eq_self)
  ultimately show ?thesis
    by (simp add: codec_laws_def sample_codec_def ReadUvarint_PutUvarint read_list_put_list
      get_ranges_put_range)
qed

section \<open>Theorems\<close>

text \<open>C4. Compiling rules to the binary format and reading the file gives the rules back: every field is
  restored, domains and CIDRs as the matcher and the IP sets that were written, for every
  version of the format and every nesting of logical rules. The laws assumed are the
  documented ones of the packages that encode the primitive values.\<close>

theorem srs_roundtrip:
  assumes "codec_laws d c" "len_ok rules" "list_all (rule_ok d) rules" "ver \<le> RuleSetVersionCurrent"
    and "srs_Write d c rules ver = Inr bs"
  shows "srs_Read d c False bs = Inr \<lparr>prs_Version = ver, prs_Rules = map (rule_image d ver) rules\<rparr>"
  using assms by (rule srs_Read_srs_Write)

theorem srs_roundtrip_witness:
  "\<exists>bs. srs_Write sample_deps sample_codec
      [HeadlessRuleOptions RuleTypeLogical DefaultHeadlessRuleOptions_zero LogicalTypeOr
        [HeadlessRuleOptions RuleTypeDefault (DefaultHeadlessRuleOptions_zero\<lparr>hr_Network := [''tcp''], hr_Port := [443]\<rparr>) [] [] False]
        True] 2 = Inr bs \<and>
    srs_Read sample_deps sample_codec False bs = Inr \<lparr>prs_Version = 2, prs_Rules =
      [HeadlessRuleOptions RuleTypeLogical DefaultHeadlessRuleOptions_zero LogicalTypeOr
        [HeadlessRuleOptions RuleTypeDefault (DefaultHeadlessRuleOptions_zero\<lparr>hr_Network := [''tcp''], hr_Port := [443]\<rparr>) [] [] False]
        True]\<rparr>"
proof -
  let ?def = "DefaultHeadlessRuleOptions_zero\<lparr>hr_Network := [''tcp''], hr_Port := [443]\<rparr> :: string list DefaultHeadlessRuleOptions"
  let ?rules = "[HeadlessRuleOptions RuleTypeLogical DefaultHeadlessRuleOptions_zero LogicalTypeOr
        [HeadlessRuleOptions RuleTypeDefault ?def [] [] False] True]"
  obtain bs where bs: "srs_Write sample_deps sample_codec ?rules 2 = Inr bs"
    by (simp add: srs_Write_def rule_types writeDefaultRule_def write_items_def write_mode_def
      DefaultHeadlessRuleOptions_zero_def LogicalTypeAnd_def LogicalTypeOr_def)
  have "len_ok ?rules" "list_all (rule_ok sample_deps) ?rules" "(2 :: u8) \<le> RuleSetVersionCurrent"
    by (simp_all add: len_ok_def strings_ok_def rule_types default_ok_def DefaultHeadlessRuleOptions_zero_def
      cidrs_ok_def cidr_set_def sample_deps_def ipset_ok_def prefixes_ok_def RuleSetVersionCurrent_def)
  from srs_roundtrip [OF sample_codec_laws this bs] have
    "srs_Read sample_deps sample_codec False bs = Inr \<lparr>prs_Version = 2, prs_Rules = map (rule_image sample_deps 2) ?rules\<rparr>" .
  also have "map (rule_image sample_deps 2) ?rules = ?rules"
    by (simp add: rule_types srs_image_def DefaultHeadlessRuleOptions_zero_def cidr_image_def)
  finally show ?thesis using bs by blast
qed

lemma map_res_Inr_elem: "map_res f xs = Inr ys \<Longrightarrow> x \<in> set xs \<Longrightarrow> \<exists>y. f x = Inr y"
  by (induction xs arbitrary: ys) (auto split: sum.splits)

text \<open>A file never holds an item that its version does not know: if a rule set is written for a
  version, no default rule in it uses network conditions before version 3, interface addresses
  before version 4 or AdGuard rules before version 2.\<close>

theorem srs_Write_version_gate:
  assumes "srs_Write d c rules ver = Inr bs"
    and "HeadlessRuleOptions RuleTypeDefault def mode subs neg \<in> set rules"
  shows "(hr_NetworkType def \<noteq> [] \<or> hr_NetworkIsExpensive def \<or> hr_NetworkIsConstrained def \<longrightarrow> 3 \<le> ver) \<and>
    (hr_NetworkInterfaceAddress def \<noteq> None \<and> the (hr_NetworkInterfaceAddress def) \<noteq> [] \<or>
     hr_DefaultInterfaceAddress def \<noteq> [] \<longrightarrow> 4 \<le> ver) \<and>
    (hr_AdGuardDomain def \<noteq> [] \<longrightarrow> 2 \<le> ver)"
proof -
  from assms obtain segs where "map_res (writeRule d c ver) rules = Inr segs"
    by (auto simp: srs_Write_def res_bind_Inr_iff)
  from map_res_Inr_elem [OF this assms(2)] obtain out where "writeDefaultRule d c def ver = Inr out" by auto
  then obtain parts where parts: "map_res id (write_items d c def ver) = Inr parts"
    by (auto simp: writeDefaultRule_def res_bind_Inr_iff)
  have item: "\<exists>y. write_items d c def ver ! i = Inr y" if "i < length (write_items d c def ver)" for i
    using map_res_Inr_elem [OF parts nth_mem [OF that]] by simp
  have "hr_NetworkType def \<noteq> [] \<Longrightarrow> 3 \<le> ver" "hr_NetworkIsExpensive def \<Longrightarrow> 3 \<le> ver"
    "hr_NetworkIsConstrained def \<Longrightarrow> 3 \<le> ver"
    using item [of 15] item [of 16] item [of 17]
    by (simp_all add: write_items_def needs_version_def not_less split: if_splits)
  moreover have "hr_NetworkInterfaceAddress def \<noteq> None \<and> the (hr_NetworkInterfaceAddress def) \<noteq> [] \<Longrightarrow> 4 \<le> ver"
    "hr_DefaultInterfaceAddress def \<noteq> [] \<Longrightarrow> 4 \<le> ver" "hr_AdGuardDomain def \<noteq> [] \<Longrightarrow> 2 \<le> ver"
    using item [of 18] item [of 19] item [of 22]
    by (simp_all add: write_items_def needs_version_def not_less split: if_splits)
  ultimately show ?thesis by blast
qed

theorem srs_Write_version_gate_witness:
  "\<exists>bs. srs_Write sample_deps sample_codec [HeadlessRuleOptions RuleTypeDefault
      (DefaultHeadlessRuleOptions_zero\<lparr>hr_NetworkType := [1]\<rparr>) [] [] False] 3 = Inr bs \<and> (3 :: u8) \<le> 3"
proof -
  let ?def = "DefaultHeadlessRuleOptions_zero\<lparr>hr_NetworkType := [1]\<rparr> :: string list DefaultHeadlessRuleOptions"
  obtain bs where bs: "srs_Write sample_deps sample_codec [HeadlessRuleOptions RuleTypeDefault ?def [] [] False] 3 = Inr bs"
    by (simp add: srs_Write_def rule_types writeDefaultRule_def write_items_def needs_version_def
      DefaultHeadlessRuleOptions_zero_def)
  have "hr_NetworkType ?def \<noteq> [] \<longrightarrow> (3 :: u8) \<le> 3"
    using srs_Write_version_gate [OF bs, of ?def "[]" "[]" False] by simp
  with bs show ?thesis by simp
qed

text \<open>The reader refuses what is not a rule-set file of a known version: a file that is read begins
  with the magic bytes and a version byte that is not above the current version, and the rule set
  that results carries that version.\<close>

theorem srs_Read_header:
  assumes "srs_Read d c rcv bs = Inr rs"
  shows "\<exists>rest. bs = MagicBytes @ prs_Version rs # rest \<and> prs_Version rs \<le> RuleSetVersionCurrent"
proof -
  from assms have len: "\<not> length bs < 3" and magic: "take 3 bs = MagicBytes"
    by (auto simp: srs_Read_def split: if_splits)
  with assms obtain ver rest where "read_byte (drop 3 bs) = Inr (ver, rest)" "\<not> ver > RuleSetVersionCurrent"
      "prs_Version rs = ver"
    by (auto simp: srs_Read_def res_bind_Inr_iff split: if_splits prod.splits)
  then have "drop 3 bs = prs_Version rs # rest \<and> prs_Version rs \<le> RuleSetVersionCurrent"
    by (cases "drop 3 bs") (auto simp: not_less)
  with magic show ?thesis by (metis append_take_drop_id)
qed

theorem srs_Read_header_witness:
  "srs_Read sample_deps sample_codec False [0x53, 0x52, 0x53, 1, 0] = Inr \<lparr>prs_Version = 1, prs_Rules = []\<rparr> \<and>
   (\<exists>rest. [0x53, 0x52, 0x53, 1, 0] = MagicBytes @ 1 # rest) \<and> (1 :: u8) \<le> RuleSetVersionCurrent"
proof -
  have r: "srs_Read sample_deps sample_codec False [0x53, 0x52, 0x53, 1, 0] = Inr \<lparr>prs_Version = 1, prs_Rules = []\<rparr>"
    by code_simp
  from srs_Read_header [OF this] r show ?thesis by simp
qed

end
