(* ===== verification/RuleSetProps.thy ===== *)
theory RuleSetProps
  imports SrsProps
begin

text \<open>
  The lifecycle of rule sets: what their metadata says, the references that started rules take,
  and what fetching, failing to fetch and restarting do to a remote rule set and its cache file.
\<close>

section \<open>Theorems\<close>

text \<open>What a rule set announces in its metadata is what it holds: after its rules have been (re)loaded
  from decoded options, \<^verbatim>\<open>ContainsIPCIDRRule\<close> is true exactly if \<^verbatim>\<open>ExtractIPSet\<close> finds an IP set in the
  rules that were built.\<close>

theorem rule_set_metadata_truthful:
  assumes "LocalRuleSet_reloadRules d nm headlessRules s = Inr (s', callbacks)"
    and "list_all decoded headlessRules"
  shows "ContainsIPCIDRRule (ls_metadata s') \<longleftrightarrow> LocalRuleSet_ExtractIPSet s' \<noteq> []"
proof -
  from assms(1) obtain rules where rules: "sub_rules parse_rule_text (NewHeadlessRule d nm) 0 headlessRules = Inr rules"
    and s': "s' = s\<lparr>ls_rules := rules, ls_metadata := rule_set_metadata headlessRules\<rparr>"
    by (auto simp: LocalRuleSet_reloadRules_def res_bind_Inr_iff)
  from extract_iff_HasHeadlessRule [OF rules assms(2)] show ?thesis
    by (simp add: s' LocalRuleSet_ExtractIPSet_def rule_set_metadata_def)
qed

definition sample_local_set :: "string list LocalRuleSet" where
  "sample_local_set =
     \<lparr>ls_tag = ''set'', ls_rules = [], ls_metadata = RuleSetMetadata_zero, ls_fileFormat = [],
      ls_callbacks = [], ls_refs = 0\<rparr>"

definition sample_cidr_options :: "string list HeadlessRuleOptions list" where
  "sample_cidr_options = [HeadlessRuleOptions RuleTypeDefault
     (DefaultHeadlessRuleOptions_zero\<lparr>hr_IPCIDR := [''10.0.0.0/8'']\<rparr>) [] [] False]"

theorem rule_set_metadata_truthful_witness:
  "\<exists>s' callbacks. LocalRuleSet_reloadRules sample_deps True sample_cidr_options sample_local_set = Inr (s', callbacks) \<and>
     ContainsIPCIDRRule (ls_metadata s') \<and> LocalRuleSet_ExtractIPSet s' \<noteq> []"
proof -
  have "(case LocalRuleSet_reloadRules sample_deps True sample_cidr_options sample_local_set of
      Inl err \<Rightarrow> False | Inr (s', callbacks) \<Rightarrow> ContainsIPCIDRRule (ls_metadata s'))" by code_simp
  then obtain s' callbacks where r:
      "LocalRuleSet_reloadRules sample_deps True sample_cidr_options sample_local_set = Inr (s', callbacks)"
      "ContainsIPCIDRRule (ls_metadata s')"
    by (auto split: sum.splits)
  moreover have "list_all decoded sample_cidr_options" by (simp add: sample_cidr_options_def)
  ultimately show ?thesis using rule_set_metadata_truthful by blast
qed

text \<open>Starting a rule-set item succeeds only if every tag names a rule set, keeps the order of the
  tags, and takes one reference on a rule set for each of its occurrences, so that no
  rule set in use loses its rules in \<^verbatim>\<open>Cleanup\<close>; no other rule set and no rule is touched.\<close>

theorem RuleSetItem_Start_references:
  assumes "Item_Start e (NewRuleSetItem tags src acc) sets = (Inr item, sets')"
  shows "item = RuleSetItem tags tags src acc \<and> list_all (\<lambda>t. sets t \<noteq> None) tags \<and>
    (\<forall>t. map_option RuleSet_refs (sets' t) =
       map_option (\<lambda>s. RuleSet_refs s + int (count_list tags t)) (sets t)) \<and>
    (\<forall>t. map_option RuleSet_rules (sets' t) = map_option RuleSet_rules (sets t))"
proof -
  from assms obtain setList where s: "RuleSetItem_Start tags [] sets = (Inr setList, sets')"
    and item: "item = RuleSetItem tags setList src acc"
    by (auto simp: NewRuleSetItem_def split: prod.splits sum.splits)
  from RuleSetItem_Start_spec [OF s] item show ?thesis by (simp add: list_all_iff)
qed

theorem RuleSetItem_Start_references_witness:
  "\<exists>sets'. Item_Start sample_env (NewRuleSetItem [''set'', ''set''] False False)
       (\<lambda>t. if t = ''set'' then Some (LocalSet sample_local_set) else None) =
     (Inr (RuleSetItem [''set'', ''set''] [''set'', ''set''] False False), sets') \<and>
     map_option RuleSet_refs (sets' ''set'') = Some 2"
proof -
  let ?sets = "\<lambda>t. if t = ''set'' then Some (LocalSet sample_local_set) else None"
  obtain item sets' where st: "Item_Start sample_env (NewRuleSetItem [''set'', ''set''] False False) ?sets = (Inr item, sets')"
    by (simp add: NewRuleSetItem_def)
  note spec = RuleSetItem_Start_references [OF st]
  from spec have "map_option RuleSet_refs (sets' ''set'') =
      map_option (\<lambda>s. RuleSet_refs s + int (count_list [''set'', ''set''] ''set'')) (?sets ''set'')" by blast
  then have "map_option RuleSet_refs (sets' ''set'') = Some 2" by (simp add: sample_local_set_def)
  with spec st show ?thesis by blast
qed

text \<open>A fetch of a remote rule set that fails, for whatever reason (the transport, the body, the
  format, a rule that does not parse, an unexpected status), leaves the rule set, its
  metadata and the cache file exactly as they were and calls no callback.\<close>

theorem RemoteRuleSet_fetch_failure_keeps:
  assumes "RemoteRuleSet_fetch d c nm json_Unmarshal http now cacheFile s = (Some err, s', cacheFile', callbacks)"
  shows "s' = s \<and> cacheFile' = cacheFile \<and> callbacks = []"
  using fetch_error_keeps [OF assms] by blast

definition sample_remote :: "string list RemoteRuleSet" where
  "sample_remote = NewRemoteRuleSet
     \<lparr>rso_Type = ''remote'', rso_Tag = ''r'', rso_Format = RuleSetFormatSource, rso_InlineRules = [],
      rso_LocalPath = [], rso_URL = ''u'', rso_DownloadDetour = [], rso_UpdateInterval = 0\<rparr>"

definition sample_cache :: CacheFile where
  "sample_cache = \<lparr>cf_saved = (\<lambda>t. None), cf_saveError = None\<rparr>"

theorem RemoteRuleSet_fetch_failure_keeps_witness:
  "\<exists>err. RemoteRuleSet_fetch sample_deps sample_codec True (\<lambda>bs. Inl EInvalid)
     (\<lambda>etag. Inr \<lparr>hp_StatusCode = 404, hp_Status = ''404'', hp_Body = Inr [], hp_Etag = []\<rparr>) 5
     (Some sample_cache) sample_remote = (Some err, sample_remote, Some sample_cache, [])"
  (is "\<exists>err. ?f = _")
proof -
  obtain err where "fst ?f = Some err" by (simp add: RemoteRuleSet_fetch_def)
  then have f: "?f = (Some err, fst (snd ?f), fst (snd (snd ?f)), snd (snd (snd ?f)))"
    by (metis prod.collapse)
  with RemoteRuleSet_fetch_failure_keeps [OF f] show ?thesis by auto
qed

text \<open>What has been fetched survives a restart: after a fetch with status 200 whose result could be
  saved, a new rule set with the same options that is started with the same cache file has the
  same rules, metadata, time and etag, without asking the server.\<close>

theorem RemoteRuleSet_restart_restores:
  assumes "RemoteRuleSet_fetch d c nm json_Unmarshal http now (Some cf) s = (None, s', Some cf', callbacks)"
    and "http (rm_lastEtag s) = Inr response" "hp_StatusCode response = 200" "cf_saveError cf = None"
    and "rso_DownloadDetour (rm_options s) = []"
  shows "\<exists>t cbs. RemoteRuleSet_StartContext d c nm json_Unmarshal http' detour now' (Some cf')
      (NewRemoteRuleSet (rm_options s)) = (None, t, Some cf', cbs) \<and>
    rm_rules t = rm_rules s' \<and> rm_metadata t = rm_metadata s' \<and>
    rm_lastUpdated t = rm_lastUpdated s' \<and> rm_lastEtag t = rm_lastEtag s'"
proof -
  from assms(1-3) obtain content where body: "hp_Body response = Inr content"
    by (cases "hp_Body response") (auto simp: RemoteRuleSet_fetch_def)
  with assms(1-3) obtain s1 cbs1 where load: "RemoteRuleSet_loadBytes d c nm json_Unmarshal content s = Inr (s1, cbs1)"
    by (cases "RemoteRuleSet_loadBytes d c nm json_Unmarshal content s") (auto simp: RemoteRuleSet_fetch_def)
  let ?s2 = "if hp_Etag response \<noteq> [] then s1\<lparr>rm_lastEtag := hp_Etag response\<rparr> else s1"
  let ?saved = "\<lparr>sb_Content = content, sb_LastUpdated = Some now, sb_LastEtag = rm_lastEtag ?s2\<rparr>"
  from assms(1-3) body load have s': "s' = ?s2\<lparr>rm_lastUpdated := Some now\<rparr>"
    and cf': "cf' = CacheFile_SaveRuleSet (rso_Tag (rm_options ?s2)) ?saved cf"
    by (auto simp: RemoteRuleSet_fetch_def Let_def split: if_splits)
  have opt: "rm_options s1 = rm_options s" using loadBytes_options [OF load] by simp
  let ?new = "NewRemoteRuleSet (rm_options s)"
  have "rm_options ?new = rm_options s" by (simp add: NewRemoteRuleSet_def)
  from loadBytes_rules [OF load this] obtain cbs' where new:
      "RemoteRuleSet_loadBytes d c nm json_Unmarshal content ?new =
        Inr (?new\<lparr>rm_rules := rm_rules s1, rm_metadata := rm_metadata s1\<rparr>, cbs')" by blast
  have "cf_saved cf' (rso_Tag (rm_options s)) = Some ?saved"
    using assms(4) by (simp add: cf' CacheFile_SaveRuleSet_def opt)
  moreover have "rm_options ?new = rm_options s" by (simp add: NewRemoteRuleSet_def)
  ultimately show ?thesis
    using assms(5) new by (simp add: RemoteRuleSet_StartContext_def s')
qed

definition sample_http :: "string \<Rightarrow> http_response res" where
  "sample_http etag = Inr \<lparr>hp_StatusCode = 200, hp_Status = ''200'', hp_Body = Inr [1], hp_Etag = ''v1''\<rparr>"

definition sample_json :: "bytes \<Rightarrow> string list PlainRuleSetCompat res" where
  "sample_json bs = Inr \<lparr>prs_Version = 1, prs_Rules = sample_cidr_options\<rparr>"

theorem RemoteRuleSet_restart_restores_witness:
  "\<exists>s' cf' callbacks t cbs.
     RemoteRuleSet_fetch sample_deps sample_codec True sample_json sample_http 7 (Some sample_cache) sample_remote =
       (None, s', Some cf', callbacks) \<and>
     RemoteRuleSet_StartContext sample_deps sample_codec True sample_json (\<lambda>etag. Inl EInvalid) (\<lambda>tag. False) 9
       (Some cf') (NewRemoteRuleSet (rm_options sample_remote)) = (None, t, Some cf', cbs) \<and>
     rm_rules t = rm_rules s' \<and> rm_rules s' \<noteq> [] \<and> rm_lastEtag t = ''v1''"
proof -
  let ?f = "RemoteRuleSet_fetch sample_deps sample_codec True sample_json sample_http 7 (Some sample_cache) sample_remote"
  have "(case ?f of (None, s', Some cf', callbacks) \<Rightarrow> \<not> List.null (rm_rules s') \<and> rm_lastEtag s' = ''v1'' | _ \<Rightarrow> False)"
    by code_simp
  then obtain s' cf' callbacks where f: "?f = (None, s', Some cf', callbacks)"
      "rm_rules s' \<noteq> []" "rm_lastEtag s' = ''v1''"
    by (auto simp: List.null_iff split: prod.splits option.splits)
  have "sample_http (rm_lastEtag sample_remote) =
      Inr \<lparr>hp_StatusCode = 200, hp_Status = ''200'', hp_Body = Inr [1], hp_Etag = ''v1''\<rparr>"
    "rso_DownloadDetour (rm_options sample_remote) = []" "cf_saveError sample_cache = None"
    by (simp_all add: sample_http_def sample_remote_def NewRemoteRuleSet_def sample_cache_def)
  with RemoteRuleSet_restart_restores [OF f(1) this(1), of "\<lambda>etag. Inl EInvalid" "\<lambda>tag. False" 9] f
  show ?thesis by force
qed

end
