(* ===== verification/ActionProps.thy ===== *)
theory ActionProps
  imports Samples
begin

text \<open>
  Items and actions: the port-range syntax, the limit on rejections, predefined DNS responses,
  sniffers by name, domain strategies, and two behaviours of headless and route rules that the
  documentation does not have.
\<close>

section \<open>Items\<close>

text \<open>The item built from the texts \<^verbatim>\<open>a:b\<close> of ranges of ports accepts exactly the ports that lie in one
  of the ranges, bounds included.\<close>

theorem port_range_item_exact:
  assumes "\<forall>(a, b)\<in>set ranges. a < 65536 \<and> b < 65536"
  shows "\<exists>item. NewPortRangeItem isSource (map range_text ranges) = Inr item \<and>
    (RuleItem_Match d e item md \<longleftrightarrow>
      (\<exists>(a, b)\<in>set ranges.
        let port = unat (sa_Port (if isSource then md_Source md else md_Destination md)) in a \<le> port \<and> port \<le> b))"
proof -
  let ?p = "sa_Port (if isSource then md_Source md else md_Destination md)"
  have "(list_ex (\<lambda>r. ri_start r \<le> ?p \<and> ?p \<le> ri_end r)
        (map (\<lambda>(a, b). \<lparr>ri_start = of_nat a, ri_end = of_nat b\<rparr>) ranges)) \<longleftrightarrow>
      (\<exists>(a, b)\<in>set ranges. a \<le> unat ?p \<and> unat ?p \<le> b)"
    using assms by (induction ranges) (auto simp: word16_le_of_nat)
  moreover have "NewPortRangeItem isSource (map range_text ranges) = Inr (PortRangeItem isSource (map range_text ranges)
      (map (\<lambda>(a, b). \<lparr>ri_start = of_nat a, ri_end = of_nat b\<rparr>) ranges))"
    using assms by (simp add: NewPortRangeItem_def map_res_parse_range_texts)
  moreover have "RuleItem_Match d e (PortRangeItem isSource (map range_text ranges)
      (map (\<lambda>(a, b). \<lparr>ri_start = of_nat a, ri_end = of_nat b\<rparr>) ranges)) md \<longleftrightarrow>
      list_ex (\<lambda>r. ri_start r \<le> ?p \<and> ?p \<le> ri_end r)
        (map (\<lambda>(a, b). \<lparr>ri_start = of_nat a, ri_end = of_nat b\<rparr>) ranges)"
    by (simp add: PortRangeItem_Match_def Let_def)
  ultimately show ?thesis by (intro exI conjI; simp only: Let_def; blast?)
qed

theorem port_range_item_exact_witness:
  "\<exists>item. NewPortRangeItem False (map range_text [(80, 90), (443, 443)]) = Inr item \<and>
    (RuleItem_Match sample_deps sample_env item
       (InboundContext_zero\<lparr>md_Destination := \<lparr>sa_Addr = AddrZero, sa_Port = 443, sa_Fqdn = []\<rparr>\<rparr>) \<longleftrightarrow> True)"
  using port_range_item_exact [of "[(80, 90), (443, 443)]" False sample_deps sample_env
    "InboundContext_zero\<lparr>md_Destination := \<lparr>sa_Addr = AddrZero, sa_Port = 443, sa_Fqdn = []\<rparr>\<rparr>"]
  by simp

text \<open>A port range without a colon is refused with \<^verbatim>\<open>bad port range\<close>, wherever it stands in the list.\<close>

theorem port_range_needs_colon:
  assumes "s \<in> set rangeList" "CHR '':'' \<notin> set s"
  shows "\<exists>err. NewPortRangeItem isSource rangeList = Inl err"
proof -
  have "\<exists>err. map_res parse_range rangeList = Inl err"
    using assms(1)
  proof (induction rangeList)
    case (Cons r rs)
    show ?case
    proof (cases "parse_range r")
      case (Inr x)
      with parse_range_needs_colon assms(2) have "r \<noteq> s" by blast
      with Cons Inr show ?thesis by (auto split: sum.split)
    qed simp
  qed simp
  then show ?thesis by (auto simp: NewPortRangeItem_def)
qed

theorem port_range_needs_colon_witness:
  "\<exists>err. NewPortRangeItem True [''80:90'', ''8080''] = Inl err \<and> CHR '':'' \<notin> set ''8080''"
  using port_range_needs_colon [of "''8080''" "[''80:90'', ''8080'']" True] by simp

section \<open>Actions\<close>

text \<open>The reject action with the default method, called at times that do not run backwards, answers
  with a reset as long as at most 50 calls, this one included, fall in the last 30 seconds, and
  drops the connection otherwise; the counter never holds an older time.\<close>

theorem reject_flood_limit:
  assumes "rj_Method r = RuleActionRejectMethodDefault" "\<not> rj_NoDrop r" "rj_dropCounter r = []"
    and "sorted (ts @ [now])"
  shows "fst (RuleActionReject_Error now (reject_run ts r)) =
      Inr (Some (ERejected
        (if length (filter (\<lambda>t. now - t \<le> 30 * second) (ts @ [now])) > 50 then tun_ErrDrop else tun_ErrReset))) \<and>
    rj_dropCounter (snd (RuleActionReject_Error now (reject_run ts r))) =
      filter (\<lambda>t. now - t \<le> 30 * second) (ts @ [now])"
proof -
  have run: "snd (RuleActionReject_Error now (reject_run ts r)) =
      r\<lparr>rj_dropCounter := filter (\<lambda>u. now - u \<le> 30 * second) (ts @ [now])\<rparr>"
    using reject_run_counter [OF assms] by (simp add: reject_run_append)
  have m: "rj_Method (reject_run ts r) = RuleActionRejectMethodDefault \<and> \<not> rj_NoDrop (reject_run ts r)" for ts
    using assms(1,2) by (induction ts arbitrary: r) (simp_all add: reject_counter_step)
  have "fst (RuleActionReject_Error now q) = Inr (Some (ERejected
      (if length (rj_dropCounter (snd (RuleActionReject_Error now q))) > 50 then tun_ErrDrop else tun_ErrReset)))"
    if "rj_Method q = RuleActionRejectMethodDefault \<and> \<not> rj_NoDrop q" for q
    using that by (simp add: RuleActionReject_Error_def Let_def)
  from this [OF m [of ts]] run show ?thesis by simp
qed

theorem reject_flood_limit_witness:
  "fst (RuleActionReject_Error 0 (reject_run [] \<lparr>rj_Method = RuleActionRejectMethodDefault, rj_NoDrop = False, rj_dropCounter = []\<rparr>)) =
     Inr (Some (ERejected tun_ErrReset)) \<and>
   fst (RuleActionReject_Error 0 (reject_run (replicate 50 0) \<lparr>rj_Method = RuleActionRejectMethodDefault, rj_NoDrop = False, rj_dropCounter = []\<rparr>)) =
     Inr (Some (ERejected tun_ErrDrop))"
proof -
  let ?r = "\<lparr>rj_Method = RuleActionRejectMethodDefault, rj_NoDrop = False, rj_dropCounter = []\<rparr>"
  have "sorted (replicate 50 0 @ [0 :: int])" by (simp add: sorted_append)
  with reject_flood_limit [of ?r "[]" 0] reject_flood_limit [of ?r "replicate 50 0" 0] show ?thesis
    by (simp add: second_def)
qed

definition answered_name :: "Question \<Rightarrow> RR \<Rightarrow> string" where
  "answered_name q old =
     (if has_prefix (rr_Name old) ''*'' \<and> has_suffix (q_Name q) (drop 1 (rr_Name old)) then q_Name q
      else rr_Name old)"

lemma rewriteRecords_names: "rewriteRecords rs q = map (\<lambda>it. it\<lparr>rr_Name := answered_name q it\<rparr>) rs"
  by (auto simp: rewriteRecords_def answered_name_def)

text \<open>A predefined DNS response answers the query it was asked: it carries the query's id and
  question, the configured code, and as many records as configured, in order; a record whose
  name is a wildcard that the question's name matches gets that name, and nothing but names
  changes. A query without a question panics.\<close>

theorem predefined_response:
  "(msg_Question request = [] \<longrightarrow> RuleActionPredefined_Response r request =
      Inl (GoPanic [ArgS ''index out of range [0] with length 0''])) \<and>
   (msg_Question request = q # qs \<longrightarrow> (\<exists>response. RuleActionPredefined_Response r request = Inr response \<and>
     msg_Id response = msg_Id request \<and> msg_Response response \<and> msg_Rcode response = pd_Rcode r \<and>
     msg_Question response = msg_Question request \<and>
     msg_Answer response = map (\<lambda>it. it\<lparr>rr_Name := answered_name q it\<rparr>) (pd_Answer r) \<and>
     msg_Ns response = map (\<lambda>it. it\<lparr>rr_Name := answered_name q it\<rparr>) (pd_Ns r) \<and>
     msg_Extra response = map (\<lambda>it. it\<lparr>rr_Name := answered_name q it\<rparr>) (pd_Extra r)))"
  by (simp add: RuleActionPredefined_Response_def rewriteRecords_names)

theorem predefined_response_witness:
  "\<exists>response. RuleActionPredefined_Response
      \<lparr>pd_Rcode = 3, pd_Answer = [], pd_Ns = [], pd_Extra = []\<rparr>
      (Msg_zero\<lparr>msg_Id := 7, msg_Question := [\<lparr>q_Name = ''a.'', q_Qtype = TypeA, q_Qclass = 1\<rparr>]\<rparr>) = Inr response \<and>
    msg_Id response = 7 \<and> msg_Rcode response = 3"
  using predefined_response [of "Msg_zero\<lparr>msg_Id := 7, msg_Question := [\<lparr>q_Name = ''a.'', q_Qtype = TypeA, q_Qclass = 1\<rparr>]\<rparr>"
    "\<lparr>pd_Rcode = 3, pd_Answer = [], pd_Ns = [], pd_Extra = []\<rparr>" "\<lparr>q_Name = ''a.'', q_Qtype = TypeA, q_Qclass = 1\<rparr>" "[]"]
  by auto

lemma map_res_eq_map: "map_res f xs = Inr ys \<longleftrightarrow> map f xs = map Inr ys"
proof (induction xs arbitrary: ys)
  case (Cons a xs)
  show ?case
  proof (cases "f a")
    case (Inr b)
    have IH: "map f xs = map Inr zs \<longleftrightarrow> map_res f xs = Inr zs" for zs using Cons.IH by simp
    show ?thesis using Inr by (cases ys; cases "map_res f xs") (auto simp: IH)
  qed (cases ys; simp)
qed auto

lemma build_loop_sniffers:
  "build_loop names r = Inr r' \<longleftrightarrow>
     (\<exists>parts. map_res sniffers_of names = Inr parts \<and>
        r' = r\<lparr>sn_StreamSniffers := sn_StreamSniffers r @ concat (map fst parts),
               sn_PacketSniffers := sn_PacketSniffers r @ concat (map snd parts)\<rparr>)"
  by (induction names arbitrary: r) (auto split: sum.splits)

text \<open>Building a sniff action succeeds exactly if every name is known, and then the two lists hold
  the sniffers of the names, in the order of the names.\<close>

theorem sniff_build_exact:
  "RuleActionSniff_build r = Inr r' \<longleftrightarrow>
     (\<exists>parts. map sniffers_of (sn_SnifferNames r) = map Inr parts \<and>
        r' = r\<lparr>sn_StreamSniffers := sn_StreamSniffers r @ concat (map fst parts),
               sn_PacketSniffers := sn_PacketSniffers r @ concat (map snd parts)\<rparr>)"
  by (simp add: RuleActionSniff_build_def build_loop_sniffers map_res_eq_map)

text \<open>The text of a domain strategy is read back as the strategy, and a text that is read is one of
  those five.\<close>

theorem domain_strategy_roundtrip:
  "(DomainStrategy_String s = Inr t \<longrightarrow> DomainStrategy_Unmarshal t = Inr s) \<and>
   (DomainStrategy_Unmarshal u = Inr s \<longrightarrow> s \<le> DomainStrategyIPv6Only)"
  by (auto simp: DomainStrategy_String_def DomainStrategy_Unmarshal_def domain_strategies split: if_splits)

theorem domain_strategy_roundtrip_witness:
  "DomainStrategy_String DomainStrategyIPv4Only = Inr ''ipv4_only'' \<and>
   DomainStrategy_Unmarshal ''ipv4_only'' = Inr DomainStrategyIPv4Only"
proof -
  have s: "DomainStrategy_String DomainStrategyIPv4Only = Inr ''ipv4_only''"
    by (simp add: DomainStrategy_String_def domain_strategies)
  with domain_strategy_roundtrip [of DomainStrategyIPv4Only "''ipv4_only''" "''ipv4_only''"] show ?thesis by blast
qed

section \<open>Behaviours that the documentation does not have\<close>

text \<open>A headless rule whose only condition is \<^verbatim>\<open>query_type\<close> is accepted as valid, but the condition is
  not turned into an item: the rule that is built has no items and matches every connection.\<close>

theorem headless_query_type_matches_everything:
  assumes "qs \<noteq> []"
  shows "\<exists>r. NewHeadlessRule d nm (HeadlessRuleOptions RuleTypeDefault
      (DefaultHeadlessRuleOptions_zero\<lparr>hr_QueryType := qs\<rparr>) [] [] False) = Inr r \<and>
    HeadlessRule_Match d e r md = (True, md)"
  using assms
  by (simp add: DefaultHeadlessRuleOptions_IsValid_def rule_types NewDefaultHeadlessRule_def headless_stage_defs
    opt_item_def opt_res_def DefaultHeadlessRuleOptions_zero_def empty_rule_def abstractDefaultRule_Match_def)

theorem headless_query_type_matches_everything_witness:
  "\<exists>r. NewHeadlessRule sample_deps True (HeadlessRuleOptions RuleTypeDefault
      (DefaultHeadlessRuleOptions_zero\<lparr>hr_QueryType := [TypeAAAA]\<rparr>) [] [] False) = Inr r \<and>
    HeadlessRule_Match sample_deps sample_env r (InboundContext_zero\<lparr>md_QueryType := TypeA\<rparr>) =
      (True, InboundContext_zero\<lparr>md_QueryType := TypeA\<rparr>)"
  by (rule headless_query_type_matches_everything) simp

text \<open>The \<^verbatim>\<open>route\<close> action drops the option \<^verbatim>\<open>udp_timeout\<close> that it is given, while \<^verbatim>\<open>route-options\<close> keeps it.\<close>

theorem route_action_drops_udp_timeout:
  "(rua_Action a = RuleActionTypeRoute \<longrightarrow>
     (\<exists>outbound ro. NewRuleAction d dialer_New a = Inr (Some (RuleActionRoute outbound ro)) \<and> ro_UDPTimeout ro = 0)) \<and>
   (rua_Action a = RuleActionTypeRouteOptions \<longrightarrow>
     (\<exists>ro. NewRuleAction d dialer_New a = Inr (Some (RuleActionRouteOptions ro)) \<and>
       ro_UDPTimeout ro = rro_UDPTimeout (rua_RouteOptionsOptions a)))"
  by (simp add: NewRuleAction_def action_types Let_def)

theorem route_action_drops_udp_timeout_witness:
  "\<exists>outbound ro. NewRuleAction sample_deps (\<lambda>opts. Inr [])
      (RuleActionOptions_zero\<lparr>rua_Action := RuleActionTypeRoute,
         rua_RouteOptions := RouteActionOptions_zero\<lparr>rro_UDPTimeout := 5\<rparr>\<rparr>) =
    Inr (Some (RuleActionRoute outbound ro)) \<and> ro_UDPTimeout ro = 0"
  using route_action_drops_udp_timeout [of "RuleActionOptions_zero\<lparr>rua_Action := RuleActionTypeRoute,
         rua_RouteOptions := RouteActionOptions_zero\<lparr>rro_UDPTimeout := 5\<rparr>\<rparr>" sample_deps "\<lambda>opts. Inr []"]
  by simp

end
