(* ===== verification/DnsClient.thy ===== *)
theory DnsClient
  imports RuleAction Srs
begin

text \<open>
  The DNS client (\<^verbatim>\<open>dns/client.go\<close>, \<^verbatim>\<open>dns/extension_edns0_subnet.go\<close>) with its response cache and the
  store of rejected responses (\<^verbatim>\<open>experimental/cachefile/rdrc.go\<close>). What other code does is the
  record \<open>dns_deps\<close>: the exchange of a message by a transport (which takes time), functions of the
  package \<^verbatim>\<open>miekg/dns\<close>, and what the LRU cache has dropped when it is read. The two caches of the
  client, of which \<^verbatim>\<open>NewClient\<close> creates the one that \<^verbatim>\<open>independentCache\<close> selects, are one map from
  questions, with the tag of the transport in the second case. A cached message is the object that the caller
  of \<^verbatim>\<open>Exchange\<close> gets, so what \<^verbatim>\<open>Exchange\<close> changes after it has stored the message is changed in the cache
  too. Time is in nanoseconds. The locks that let equal questions wait for each other and
  the logging are not modelled.
\<close>

section \<open>What the client relies on\<close>

type_synonym ('k, 'v) lru = "'k \<Rightarrow> ('v \<times> int) option"
type_synonym cache_key = "Question \<times> string option"

record dns_deps =
  dd_exchange :: "DNSTransport \<Rightarrow> Msg \<Rightarrow> int \<Rightarrow> Msg res \<times> int"
  dd_groupError :: "(string \<times> goerr) list \<Rightarrow> goerr option"
  dd_drop :: "int \<Rightarrow> (cache_key, Msg) lru \<Rightarrow> (cache_key, Msg) lru"
  dd_reverse_drop :: "int \<Rightarrow> (Addr, string) lru \<Rightarrow> (Addr, string) lru"
  dd_saveError :: "goerr option"
  dns_IsFqdn :: "string \<Rightarrow> bool"
  dns_Fqdn :: "string \<Rightarrow> string"
  dns_IsEdns0 :: "Msg \<Rightarrow> RR option"
  OPT_Version :: "RR \<Rightarrow> u8"
  OPT_UDPSize :: "RR \<Rightarrow> u16"
  OPT_Do :: "RR \<Rightarrow> bool"
  Msg_SetEdns0 :: "u16 \<Rightarrow> bool \<Rightarrow> Msg \<Rightarrow> Msg"
  M_AddrFromIP :: "Addr \<Rightarrow> Addr"
  M_ParseAddr :: "string \<Rightarrow> Addr"

text \<open>Reading an LRU cache at a time: what it has dropped by then is gone.\<close>

definition lru_Get ::
  "(int \<Rightarrow> ('k, 'v) lru \<Rightarrow> ('k, 'v) lru) \<Rightarrow> int \<Rightarrow> 'k \<Rightarrow> ('k, 'v) lru \<Rightarrow> ('v \<times> int) option \<times> ('k, 'v) lru" where
  "lru_Get dropped now k m = (dropped now m k, dropped now m)"

definition ErrNotCached :: goerr where
  "ErrNotCached = ENew [ArgS ''not cached'']"

definition ErrResponseRejected :: goerr where
  "ErrResponseRejected = ENew [ArgS ''response rejected'']"

definition ErrResponseRejectedCached :: goerr where
  "ErrResponseRejectedCached = EExtend ErrResponseRejected [ArgS ''cached'']"

text \<open>\<^verbatim>\<open>errors.As(err, &rcodeError)\<close>.\<close>

fun as_RcodeError :: "goerr \<Rightarrow> int option" where
  "as_RcodeError (ERcode n) = Some n"
| "as_RcodeError (ECause e args) = as_RcodeError e"
| "as_RcodeError (EExtend e args) = as_RcodeError e"
| "as_RcodeError (ERejected e) = as_RcodeError e"
| "as_RcodeError _ = None"

section \<open>The store of rejected responses\<close>

text \<open>The bucket of the cache file: the time in seconds at which an entry expires, by the tag of the
  transport, the name and the type of the question. The goroutine that \<^verbatim>\<open>SaveRDRCAsync\<close> starts is
  taken to run at once; \<open>dd_saveError\<close> is the error of the database.\<close>

record RDRCStore =
  rc_rdrcTimeout :: int
  rc_saved :: "string \<times> string \<times> u16 \<Rightarrow> int option"

definition CacheFile_LoadRDRC :: "int \<Rightarrow> string \<Rightarrow> string \<Rightarrow> u16 \<Rightarrow> RDRCStore \<Rightarrow> bool \<times> RDRCStore" where
  "CacheFile_LoadRDRC now transportName qName qType s =
     (case rc_saved s (transportName, qName, qType) of
        None \<Rightarrow> (False, s)
      | Some expiresAt \<Rightarrow>
          if now > expiresAt * second
          then (False, s\<lparr>rc_saved := (rc_saved s)((transportName, qName, qType) := None)\<rparr>)
          else (True, s))"

definition CacheFile_SaveRDRC :: "int \<Rightarrow> string \<Rightarrow> string \<Rightarrow> u16 \<Rightarrow> RDRCStore \<Rightarrow> RDRCStore" where
  "CacheFile_SaveRDRC now transportName qName qType s =
     s\<lparr>rc_saved := (rc_saved s)((transportName, qName, qType) \<mapsto> (now + rc_rdrcTimeout s) div second)\<rparr>"

definition CacheFile_SaveRDRCAsync ::
  "goerr option \<Rightarrow> int \<Rightarrow> string \<Rightarrow> string \<Rightarrow> u16 \<Rightarrow> RDRCStore \<Rightarrow> RDRCStore" where
  "CacheFile_SaveRDRCAsync saveError now transportName qName qType s =
     (case saveError of
        None \<Rightarrow> CacheFile_SaveRDRC now transportName qName qType s
      | Some err \<Rightarrow> s)"

section \<open>The client\<close>

record Client =
  cl_disableCache :: bool
  cl_disableExpire :: bool
  cl_independentCache :: bool
  cl_clientSubnet :: Prefix
  cl_rdrc :: "RDRCStore option"
  cl_cache :: "(cache_key, Msg) lru"

record ClientOptions =
  co_DisableCache :: bool
  co_DisableExpire :: bool
  co_IndependentCache :: bool
  co_ClientSubnet :: Prefix

definition NewClient :: "ClientOptions \<Rightarrow> Client" where
  "NewClient options =
     \<lparr>cl_disableCache = co_DisableCache options, cl_disableExpire = co_DisableExpire options,
      cl_independentCache = co_IndependentCache options, cl_clientSubnet = co_ClientSubnet options,
      cl_rdrc = None, cl_cache = (\<lambda>k. None)\<rparr>"

definition Client_Start :: "RDRCStore option \<Rightarrow> Client \<Rightarrow> Client" where
  "Client_Start initRDRC c = c\<lparr>cl_rdrc := initRDRC\<rparr>"

definition Client_ClearCache :: "Client \<Rightarrow> Client" where
  "Client_ClearCache c = (if cl_disableCache c then c else c\<lparr>cl_cache := (\<lambda>k. None)\<rparr>)"

text \<open>\<^verbatim>\<open>question\<close>, or \<^verbatim>\<open>transportCacheKey{question, transport.Tag()}\<close>.\<close>

definition transportCacheKey :: "Client \<Rightarrow> Question \<Rightarrow> DNSTransport option \<Rightarrow> cache_key res" where
  "transportCacheKey c question transport =
     (if \<not> cl_independentCache c then Inr (question, None)
      else case transport of None \<Rightarrow> Inl nil_dereference | Some tr \<Rightarrow> Inr (question, Some (tr_Tag tr)))"

section \<open>Messages\<close>

definition FqdnToDomain :: "dns_deps \<Rightarrow> string \<Rightarrow> string" where
  "FqdnToDomain dd fqdn = (if dns_IsFqdn dd fqdn then take (length fqdn - 1) fqdn else fqdn)"

definition FixedResponseStatus :: "Msg \<Rightarrow> int \<Rightarrow> Msg" where
  "FixedResponseStatus message rcode =
     Msg_zero\<lparr>msg_Id := msg_Id message, msg_Response := True, msg_Authoritative := True,
       msg_RecursionDesired := True, msg_RecursionAvailable := True, msg_Rcode := rcode,
       msg_Question := msg_Question message\<rparr>"

definition fixed_header :: "u16 \<Rightarrow> Question \<Rightarrow> Msg" where
  "fixed_header ident question =
     Msg_zero\<lparr>msg_Id := ident, msg_Response := True, msg_Authoritative := True,
       msg_RecursionDesired := True, msg_RecursionAvailable := True, msg_Rcode := RcodeSuccess,
       msg_Question := [question]\<rparr>"

fun fixed_answers :: "Question \<Rightarrow> u32 \<Rightarrow> Addr list \<Rightarrow> RR list" where
  "fixed_answers question timeToLive [] = []"
| "fixed_answers question timeToLive (address # addresses) =
     (if Addr_Is4 address \<and> q_Qtype question = TypeA then
        [\<lparr>rr_Name = q_Name question, rr_Rrtype = TypeA, rr_Class = ClassINET, rr_Ttl = timeToLive,
          rr_Data = RD_A (Addr_withoutZone address)\<rparr>]
      else if Addr_Is6 address \<and> q_Qtype question = TypeAAAA then
        [\<lparr>rr_Name = q_Name question, rr_Rrtype = TypeAAAA, rr_Class = ClassINET, rr_Ttl = timeToLive,
          rr_Data = RD_AAAA (Addr_withoutZone address)\<rparr>]
      else []) @ fixed_answers question timeToLive addresses"

definition FixedResponse :: "u16 \<Rightarrow> Question \<Rightarrow> Addr list \<Rightarrow> u32 \<Rightarrow> Msg" where
  "FixedResponse ident question addresses timeToLive =
     (fixed_header ident question)\<lparr>msg_Answer := fixed_answers question timeToLive addresses\<rparr>"

definition FixedResponseCNAME :: "u16 \<Rightarrow> Question \<Rightarrow> string \<Rightarrow> u32 \<Rightarrow> Msg" where
  "FixedResponseCNAME ident question target timeToLive =
     (fixed_header ident question)\<lparr>msg_Answer :=
       [\<lparr>rr_Name = q_Name question, rr_Rrtype = TypeCNAME, rr_Class = ClassINET, rr_Ttl = timeToLive,
         rr_Data = RD_CNAME target\<rparr>]\<rparr>"

definition FixedResponseTXT :: "u16 \<Rightarrow> Question \<Rightarrow> string list \<Rightarrow> u32 \<Rightarrow> Msg" where
  "FixedResponseTXT ident question records timeToLive =
     (fixed_header ident question)\<lparr>msg_Answer :=
       [\<lparr>rr_Name = q_Name question, rr_Rrtype = TypeA, rr_Class = ClassINET, rr_Ttl = timeToLive,
         rr_Data = RD_TXT records\<rparr>]\<rparr>"

definition FixedResponseMX :: "u16 \<Rightarrow> Question \<Rightarrow> (u16 \<times> string) list \<Rightarrow> u32 \<Rightarrow> Msg" where
  "FixedResponseMX ident question records timeToLive =
     (fixed_header ident question)\<lparr>msg_Answer :=
       map (\<lambda>(pref, host).
         \<lparr>rr_Name = q_Name question, rr_Rrtype = TypeA, rr_Class = ClassINET, rr_Ttl = timeToLive,
          rr_Data = RD_MX pref host\<rparr>) records\<rparr>"

definition answer_addresses :: "dns_deps \<Rightarrow> RR \<Rightarrow> Addr list" where
  "answer_addresses dd answer =
     (case rr_Data answer of
        RD_A a \<Rightarrow> [M_AddrFromIP dd a]
      | RD_AAAA a \<Rightarrow> [M_AddrFromIP dd a]
      | RD_HTTPS values \<Rightarrow>
          concat (map (\<lambda>(key, txt).
            if key = SVCB_IPV4HINT \<or> key = SVCB_IPV6HINT
            then map (M_ParseAddr dd) (strings_Split (CHR '','') txt) else []) values)
      | _ \<Rightarrow> [])"

definition MessageToAddresses :: "dns_deps \<Rightarrow> Msg \<Rightarrow> Addr list" where
  "MessageToAddresses dd response =
     (if msg_Rcode response \<noteq> RcodeSuccess then []
      else concat (map (answer_addresses dd) (msg_Answer response)))"

text \<open>The three sections of a message, and a change of each of their records.\<close>

definition msg_records :: "Msg \<Rightarrow> RR list" where
  "msg_records m = msg_Answer m @ msg_Ns m @ msg_Extra m"

definition map_records :: "(RR \<Rightarrow> RR) \<Rightarrow> Msg \<Rightarrow> Msg" where
  "map_records f m =
     m\<lparr>msg_Answer := map f (msg_Answer m), msg_Ns := map f (msg_Ns m), msg_Extra := map f (msg_Extra m)\<rparr>"

section \<open>The client subnet\<close>

text \<open>The loop \<^verbatim>\<open>findExists\<close>: the positions of the OPT record and of its subnet option. A record
  that is not an OPT record sets \<^verbatim>\<open>optRecord\<close> back to nil.\<close>

fun find_subnet :: "nat \<Rightarrow> edns_option list \<Rightarrow> nat option" where
  "find_subnet j [] = None"
| "find_subnet j (EDNS0_SUBNET code family netmask a # options) = Some j"
| "find_subnet j (EDNS0_Other txt # options) = find_subnet (Suc j) options"

fun findExists :: "nat \<Rightarrow> nat option \<Rightarrow> RR list \<Rightarrow> nat option \<times> nat option" where
  "findExists i optRecord [] = (optRecord, None)"
| "findExists i optRecord (record # records) =
     (case rr_Data record of
        RD_OPT options \<Rightarrow>
          (case find_subnet 0 options of
             Some j \<Rightarrow> (Some i, Some j)
           | None \<Rightarrow> findExists (Suc i) (Some i) records)
      | _ \<Rightarrow> findExists (Suc i) None records)"

definition subnet_option :: "Prefix \<Rightarrow> edns_option" where
  "subnet_option clientSubnet =
     EDNS0_SUBNET EDNS0SUBNET (if Addr_Is4 (pfx_Addr clientSubnet) then 1 else 2)
       (word_of_int (pfx_Bits clientSubnet)) (Addr_withoutZone (pfx_Addr clientSubnet))"

text \<open>The subnet option at position \<open>j\<close> keeps its code and gets the family, netmask and address; no
  position is a new option at the end.\<close>

definition put_subnet :: "Prefix \<Rightarrow> nat option \<Rightarrow> edns_option list \<Rightarrow> edns_option list" where
  "put_subnet clientSubnet subnetOption options =
     (case subnetOption of
        None \<Rightarrow> options @ [subnet_option clientSubnet]
      | Some j \<Rightarrow>
          (case options ! j of
             EDNS0_SUBNET code family netmask a \<Rightarrow>
               (case subnet_option clientSubnet of
                  EDNS0_SUBNET code' family' netmask' a' \<Rightarrow> options[j := EDNS0_SUBNET code family' netmask' a']
                | EDNS0_Other txt \<Rightarrow> options)
           | EDNS0_Other txt \<Rightarrow> options))"

definition opt_record :: "edns_option list \<Rightarrow> RR" where
  "opt_record options =
     \<lparr>rr_Name = ''.'', rr_Rrtype = TypeOPT, rr_Class = 0, rr_Ttl = 0, rr_Data = RD_OPT options\<rparr>"

definition SetClientSubnet :: "Msg \<Rightarrow> Prefix \<Rightarrow> Msg" where
  "SetClientSubnet message clientSubnet =
     (case findExists 0 None (msg_Extra message) of
        (None, subnetOption) \<Rightarrow>
          message\<lparr>msg_Extra := msg_Extra message @ [opt_record (put_subnet clientSubnet None [])]\<rparr>
      | (Some i, subnetOption) \<Rightarrow>
          (case rr_Data (msg_Extra message ! i) of
             RD_OPT options \<Rightarrow>
               message\<lparr>msg_Extra := (msg_Extra message)[i :=
                 (msg_Extra message ! i)\<lparr>rr_Data := RD_OPT (put_subnet clientSubnet subnetOption options)\<rparr>]\<rparr>
           | _ \<Rightarrow> message))"

section \<open>The cache\<close>

definition Client_storeCache ::
  "int \<Rightarrow> DNSTransport option \<Rightarrow> Question \<Rightarrow> Msg \<Rightarrow> u32 \<Rightarrow> Client \<Rightarrow> Client" where
  "Client_storeCache now transport question message timeToLive c =
     (if timeToLive = 0 then c
      else case transportCacheKey c question transport of
        Inl err \<Rightarrow> c
      | Inr key \<Rightarrow>
          let expireAt = (if cl_disableExpire c then 0 else now + second * uint timeToLive)
          in c\<lparr>cl_cache := (cl_cache c)(key \<mapsto> (message, expireAt))\<rparr>)"

definition origin_ttl :: "RR list \<Rightarrow> int" where
  "origin_ttl records =
     fold (\<lambda>record originTTL.
       if originTTL = 0 \<or> rr_Ttl record > 0 \<and> uint (rr_Ttl record) < originTTL
       then uint (rr_Ttl record) else originTTL) records 0"

definition aged :: "int \<Rightarrow> Msg \<Rightarrow> Msg" where
  "aged nowTTL response =
     (let originTTL = origin_ttl (msg_records response)
      in if originTTL > 0
         then map_records (\<lambda>record. record\<lparr>rr_Ttl := rr_Ttl record - word_of_int (originTTL - nowTTL)\<rparr>) response
         else map_records (\<lambda>record. record\<lparr>rr_Ttl := word_of_int nowTTL\<rparr>) response)"

definition Client_loadResponse ::
  "dns_deps \<Rightarrow> int \<Rightarrow> Question \<Rightarrow> DNSTransport option \<Rightarrow> Client \<Rightarrow> (Msg \<times> int) option res \<times> Client" where
  "Client_loadResponse dd timeNow question transport c =
     (case transportCacheKey c question transport of
        Inl err \<Rightarrow> (Inl err, c)
      | Inr key \<Rightarrow>
          (case lru_Get (dd_drop dd) timeNow key (cl_cache c) of
             (None, m) \<Rightarrow> (Inr None, c\<lparr>cl_cache := m\<rparr>)
           | (Some (response, expireAt), m) \<Rightarrow>
               if cl_disableExpire c then (Inr (Some (response, 0)), c\<lparr>cl_cache := m\<rparr>)
               else if timeNow > expireAt then (Inr None, c\<lparr>cl_cache := m(key := None)\<rparr>)
               else
                 let nowTTL = (expireAt - timeNow) div second;
                     nowTTL = (if nowTTL < 0 then 0 else nowTTL)
                 in (Inr (Some (aged nowTTL response, nowTTL)), c\<lparr>cl_cache := m\<rparr>)))"

definition Client_questionCache ::
  "dns_deps \<Rightarrow> int \<Rightarrow> Question \<Rightarrow> DNSTransport option \<Rightarrow> Client \<Rightarrow> Addr list res \<times> Client" where
  "Client_questionCache dd timeNow question transport c =
     (case Client_loadResponse dd timeNow question transport c of
        (Inl err, c) \<Rightarrow> (Inl err, c)
      | (Inr None, c) \<Rightarrow> (Inl ErrNotCached, c)
      | (Inr (Some (response, ttl)), c) \<Rightarrow>
          if msg_Rcode response \<noteq> RcodeSuccess then (Inl (ERcode (msg_Rcode response)), c)
          else (Inr (MessageToAddresses dd response), c))"

definition sortAddresses :: "Addr list \<Rightarrow> Addr list \<Rightarrow> u8 \<Rightarrow> Addr list" where
  "sortAddresses response4 response6 strategy =
     (if strategy = DomainStrategyPreferIPv6 then response6 @ response4 else response4 @ response6)"

definition Client_ExchangeCache :: "dns_deps \<Rightarrow> int \<Rightarrow> Msg \<Rightarrow> Client \<Rightarrow> Msg option res \<times> Client" where
  "Client_ExchangeCache dd timeNow message c =
     (if cl_disableCache c \<or> cl_independentCache c \<or> length (msg_Question message) \<noteq> 1 then (Inr None, c)
      else case Client_loadResponse dd timeNow (msg_Question message ! 0) None c of
        (Inl err, c) \<Rightarrow> (Inl err, c)
      | (Inr None, c) \<Rightarrow> (Inr None, c)
      | (Inr (Some (response, ttl)), c) \<Rightarrow> (Inr (Some (response\<lparr>msg_Id := msg_Id message\<rparr>)), c))"

definition inet_question :: "string \<Rightarrow> u16 \<Rightarrow> Question" where
  "inet_question name qType = \<lparr>q_Name = name, q_Qtype = qType, q_Qclass = ClassINET\<rparr>"

text \<open>The result is that of \<^verbatim>\<open>LookupCache\<close>: \<open>None\<close> is \<^verbatim>\<open>nil, false\<close>. An error of \<^verbatim>\<open>questionCache\<close> other
  than \<open>ErrNotCached\<close> gives no addresses and counts as cached.\<close>

definition cached_addresses :: "Addr list res \<Rightarrow> Addr list option res" where
  "cached_addresses r =
     (case r of
        Inr addresses \<Rightarrow> Inr (Some addresses)
      | Inl (GoPanic args) \<Rightarrow> Inl (GoPanic args)
      | Inl err \<Rightarrow> if err \<noteq> ErrNotCached then Inr (Some []) else Inr None)"

definition Client_LookupCache ::
  "dns_deps \<Rightarrow> int \<Rightarrow> string \<Rightarrow> u8 \<Rightarrow> Client \<Rightarrow> Addr list option res \<times> Client" where
  "Client_LookupCache dd timeNow domain strategy c =
     (if cl_disableCache c \<or> cl_independentCache c then (Inr None, c)
      else
        let dnsName = dns_Fqdn dd (if dns_IsFqdn dd domain then take (length domain - 1) domain else domain)
        in if strategy = DomainStrategyIPv4Only then
             (case Client_questionCache dd timeNow (inet_question dnsName TypeA) None c of
                (r, c) \<Rightarrow> (cached_addresses r, c))
           else if strategy = DomainStrategyIPv6Only then
             (case Client_questionCache dd timeNow (inet_question dnsName TypeAAAA) None c of
                (r, c) \<Rightarrow> (cached_addresses r, c))
           else
             (case Client_loadResponse dd timeNow (inet_question dnsName TypeA) None c of
                (Inl err, c) \<Rightarrow> (Inl err, c)
              | (Inr None, c) \<Rightarrow> (Inr None, c)
              | (Inr (Some (response4, ttl4)), c) \<Rightarrow>
                  (case Client_loadResponse dd timeNow (inet_question dnsName TypeAAAA) None c of
                     (Inl err, c) \<Rightarrow> (Inl err, c)
                   | (Inr None, c) \<Rightarrow> (Inr None, c)
                   | (Inr (Some (response6, ttl6)), c) \<Rightarrow>
                       (Inr (Some (sortAddresses (MessageToAddresses dd response4)
                          (MessageToAddresses dd response6) strategy)), c))))"

section \<open>Exchange\<close>

text \<open>What a query changes: the client, the metadata that the response checker reads and writes, and
  the time.\<close>

record dns_run =
  run_client :: Client
  run_md :: InboundContext
  run_now :: int

type_synonym response_checker = "Addr list \<Rightarrow> InboundContext \<Rightarrow> bool \<times> InboundContext"

definition is_simple_request :: "Msg \<Rightarrow> DNSQueryOptions \<Rightarrow> bool" where
  "is_simple_request message options \<longleftrightarrow>
     length (msg_Question message) = 1 \<and> msg_Ns message = [] \<and>
     (case msg_Extra message of
        [] \<Rightarrow> True
      | [record] \<Rightarrow>
          rr_Rrtype record = TypeOPT \<and> rr_Class record > 0 \<and> rr_Ttl record = 0 \<and> rr_Data record = RD_OPT []
      | _ \<Rightarrow> False) \<and>
     \<not> Prefix_IsValid (qo_ClientSubnet options)"

definition strategy_rejects :: "u16 \<Rightarrow> u8 \<Rightarrow> bool" where
  "strategy_rejects qType strategy \<longleftrightarrow>
     qType = TypeA \<and> strategy = DomainStrategyIPv6Only \<or> qType = TypeAAAA \<and> strategy = DomainStrategyIPv4Only"

fun extractNegativeTTL :: "RR list \<Rightarrow> u32 option" where
  "extractNegativeTTL [] = None"
| "extractNegativeTTL (record # records) =
     (case rr_Data record of
        RD_SOA soaMinimum \<Rightarrow> Some (if rr_Ttl record < soaMinimum then rr_Ttl record else soaMinimum)
      | _ \<Rightarrow> extractNegativeTTL records)"

definition least_ttl :: "RR list \<Rightarrow> u32" where
  "least_ttl records =
     fold (\<lambda>record timeToLive.
       if timeToLive = 0 \<or> rr_Ttl record > 0 \<and> rr_Ttl record < timeToLive
       then rr_Ttl record else timeToLive) records 0"

definition response_ttl :: "DNSQueryOptions \<Rightarrow> Msg \<Rightarrow> u32" where
  "response_ttl options response =
     (let timeToLive =
            (if msg_Answer response = [] then
               (case extractNegativeTTL (msg_Ns response) of Some soaTTL \<Rightarrow> soaTTL | None \<Rightarrow> 0)
             else 0);
          timeToLive = (if timeToLive = 0 then least_ttl (msg_records response) else timeToLive)
      in case qo_RewriteTTL options of Some ttl \<Rightarrow> ttl | None \<Rightarrow> timeToLive)"

definition filter_hints :: "u16 \<Rightarrow> u8 \<Rightarrow> Msg \<Rightarrow> Msg" where
  "filter_hints qType strategy response =
     (if qType = TypeHTTPS \<and> (strategy = DomainStrategyIPv4Only \<or> strategy = DomainStrategyIPv6Only)
      then response\<lparr>msg_Answer := map (\<lambda>rr.
          case rr_Data rr of
            RD_HTTPS values \<Rightarrow>
              rr\<lparr>rr_Data := RD_HTTPS (filter (\<lambda>(key, txt).
                key \<noteq> (if strategy = DomainStrategyIPv4Only then SVCB_IPV6HINT else SVCB_IPV4HINT)) values)\<rparr>
          | _ \<Rightarrow> rr) (msg_Answer response)\<rparr>
      else response)"

definition match_edns :: "dns_deps \<Rightarrow> Msg \<Rightarrow> Msg \<Rightarrow> Msg" where
  "match_edns dd message response =
     (case dns_IsEdns0 dd response of
        None \<Rightarrow> response
      | Some responseOpt \<Rightarrow>
          let stripped = response\<lparr>msg_Extra := filter (\<lambda>it. rr_Rrtype it \<noteq> TypeOPT) (msg_Extra response)\<rparr>
          in case dns_IsEdns0 dd message of
               None \<Rightarrow> stripped
             | Some requestOpt \<Rightarrow>
                 if OPT_Version dd requestOpt < OPT_Version dd responseOpt
                 then Msg_SetEdns0 dd (OPT_UDPSize dd responseOpt) (OPT_Do dd responseOpt) stripped
                 else response)"

text \<open>From the response that was accepted to the one that is returned.\<close>

definition set_ttls :: "u32 \<Rightarrow> Msg \<Rightarrow> Msg" where
  "set_ttls timeToLive = map_records (\<lambda>record. record\<lparr>rr_Ttl := timeToLive\<rparr>)"

definition finish_response :: "dns_deps \<Rightarrow> Msg \<Rightarrow> DNSQueryOptions \<Rightarrow> u32 \<Rightarrow> Msg \<Rightarrow> Msg" where
  "finish_response dd message options timeToLive response =
     match_edns dd message ((set_ttls timeToLive response)\<lparr>msg_Id := msg_Id message\<rparr>)"

definition check_response ::
  "dns_deps \<Rightarrow> response_checker option \<Rightarrow> Msg \<Rightarrow> InboundContext \<Rightarrow> bool \<times> InboundContext" where
  "check_response dd responseChecker response md =
     (case responseChecker of
        None \<Rightarrow> (True, md)
      | Some checker \<Rightarrow>
          if msg_Rcode response \<noteq> RcodeSuccess \<or> msg_Answer response = [] then (False, md)
          else checker (MessageToAddresses dd response) md)"

text \<open>The response of the transport, or the one made from the code of its error.\<close>

definition transport_response :: "Msg \<Rightarrow> Msg res \<Rightarrow> Msg res" where
  "transport_response message r =
     (case r of
        Inr response \<Rightarrow> Inr response
      | Inl err \<Rightarrow>
          (case as_RcodeError err of
             Some rcode \<Rightarrow> Inr (FixedResponseStatus message rcode)
           | None \<Rightarrow> Inl err))"

definition handle_response ::
  "dns_deps \<Rightarrow> DNSTransport \<Rightarrow> Msg \<Rightarrow> Question \<Rightarrow> DNSQueryOptions \<Rightarrow> response_checker option \<Rightarrow> bool \<Rightarrow>
     Msg \<Rightarrow> dns_run \<Rightarrow> Msg res \<times> dns_run" where
  "handle_response dd transport message question options responseChecker disableCache response st =
     (let disableCache = disableCache \<or>
            msg_Rcode response \<noteq> RcodeSuccess \<and> msg_Rcode response \<noteq> RcodeNameError
      in case check_response dd responseChecker response (run_md st) of
           (False, md) \<Rightarrow>
             (Inl ErrResponseRejected,
              st\<lparr>run_md := md, run_client :=
                (if disableCache then run_client st
                 else (run_client st)\<lparr>cl_rdrc := map_option
                   (CacheFile_SaveRDRCAsync (dd_saveError dd) (run_now st) (tr_Tag transport)
                      (q_Name question) (q_Qtype question)) (cl_rdrc (run_client st))\<rparr>)\<rparr>)
         | (True, md) \<Rightarrow>
             let response = filter_hints (q_Qtype question) (qo_Strategy options) response;
                 timeToLive = response_ttl options response;
                 response = finish_response dd message options timeToLive response
             in (Inr response,
                 st\<lparr>run_md := md, run_client :=
                   (if disableCache then run_client st
                    else Client_storeCache (run_now st) (Some transport) question response timeToLive
                           (run_client st))\<rparr>))"

definition rejected_before ::
  "bool \<Rightarrow> int \<Rightarrow> DNSTransport \<Rightarrow> Question \<Rightarrow> Client \<Rightarrow> bool \<times> Client" where
  "rejected_before checked now transport question c =
     (case cl_rdrc c of
        Some rdrc \<Rightarrow>
          if checked then
            (case CacheFile_LoadRDRC now (tr_Tag transport) (q_Name question) (q_Qtype question) rdrc of
               (rejected, rdrc) \<Rightarrow> (rejected, c\<lparr>cl_rdrc := Some rdrc\<rparr>))
          else (False, c)
      | None \<Rightarrow> (False, c))"

definition exchange_uncached ::
  "dns_deps \<Rightarrow> string option \<Rightarrow> DNSTransport \<Rightarrow> Msg \<Rightarrow> Question \<Rightarrow> DNSQueryOptions \<Rightarrow> response_checker option \<Rightarrow>
     bool \<Rightarrow> dns_run \<Rightarrow> Msg res \<times> dns_run" where
  "exchange_uncached dd contextTransport transport message question options responseChecker disableCache st =
     (if contextTransport = Some (tr_Tag transport)
      then (Inl (ENew [ArgS ''DNS query loopback in transport['', ArgS (tr_Tag transport), ArgS '']'']), st)
      else
        case rejected_before (\<not> disableCache \<and> responseChecker \<noteq> None) (run_now st) transport question
               (run_client st) of
          (True, c) \<Rightarrow> (Inl ErrResponseRejectedCached, st\<lparr>run_client := c\<rparr>)
        | (False, c) \<Rightarrow>
            (case dd_exchange dd transport message (run_now st) of
               (r, now) \<Rightarrow>
                 (case transport_response message r of
                    Inl err \<Rightarrow> (Inl err, st\<lparr>run_client := c, run_now := now\<rparr>)
                  | Inr response \<Rightarrow>
                      handle_response dd transport message question options responseChecker disableCache
                        response (st\<lparr>run_client := c, run_now := now\<rparr>))))"

definition with_client_subnet :: "Client \<Rightarrow> DNSQueryOptions \<Rightarrow> Msg \<Rightarrow> Msg" where
  "with_client_subnet c options message =
     (let clientSubnet =
            (if Prefix_IsValid (qo_ClientSubnet options) then qo_ClientSubnet options else cl_clientSubnet c)
      in if Prefix_IsValid clientSubnet then SetClientSubnet message clientSubnet else message)"

definition Client_Exchange ::
  "dns_deps \<Rightarrow> string option \<Rightarrow> DNSTransport option \<Rightarrow> Msg \<Rightarrow> DNSQueryOptions \<Rightarrow> response_checker option \<Rightarrow>
     dns_run \<Rightarrow> Msg res \<times> dns_run" where
  "Client_Exchange dd contextTransport transport message options responseChecker st =
     (case msg_Question message of
        [] \<Rightarrow> (Inr (FixedResponseStatus message RcodeFormatError), st)
      | question # _ \<Rightarrow>
          if strategy_rejects (q_Qtype question) (qo_Strategy options)
          then (Inr (FixedResponseStatus message RcodeSuccess), st)
          else
            let message = with_client_subnet (run_client st) options message;
                disableCache = \<not> is_simple_request message options \<or> cl_disableCache (run_client st) \<or>
                  qo_DisableCache options
            in case (if disableCache then (Inr None, run_client st)
                     else Client_loadResponse dd (run_now st) question transport (run_client st)) of
                 (Inl err, c) \<Rightarrow> (Inl err, st\<lparr>run_client := c\<rparr>)
               | (Inr (Some (response, ttl)), c) \<Rightarrow>
                   (Inr (response\<lparr>msg_Id := msg_Id message\<rparr>), st\<lparr>run_client := c\<rparr>)
               | (Inr None, c) \<Rightarrow>
                   (case transport of
                      None \<Rightarrow> (Inl nil_dereference, st\<lparr>run_client := c\<rparr>)
                    | Some tr \<Rightarrow>
                        exchange_uncached dd contextTransport tr message question options responseChecker
                          disableCache (st\<lparr>run_client := c\<rparr>)))"

section \<open>Lookup\<close>

definition Client_lookupToExchange ::
  "dns_deps \<Rightarrow> string option \<Rightarrow> DNSTransport option \<Rightarrow> string \<Rightarrow> u16 \<Rightarrow> DNSQueryOptions \<Rightarrow>
     response_checker option \<Rightarrow> dns_run \<Rightarrow> Addr list res \<times> dns_run" where
  "Client_lookupToExchange dd contextTransport transport name qType options responseChecker st =
     (case (if cl_disableCache (run_client st) \<or> qo_DisableCache options then (Inl ErrNotCached, run_client st)
            else Client_questionCache dd (run_now st) (inet_question name qType) transport (run_client st)) of
        (cached, c) \<Rightarrow>
          if cached \<noteq> Inl ErrNotCached then (cached, st\<lparr>run_client := c\<rparr>)
          else
            (case Client_Exchange dd contextTransport transport
                    (Msg_zero\<lparr>msg_RecursionDesired := True, msg_Question := [inet_question name qType]\<rparr>)
                    options responseChecker (st\<lparr>run_client := c\<rparr>) of
               (Inl err, st) \<Rightarrow> (Inl err, st)
             | (Inr response, st) \<Rightarrow>
                 if msg_Rcode response \<noteq> RcodeSuccess then (Inl (ERcode (msg_Rcode response)), st)
                 else (Inr (MessageToAddresses dd response), st)))"

text \<open>The two tasks of \<^verbatim>\<open>Lookup\<close> run concurrently; the model runs one after the other, in the order that
  \<open>first4\<close> gives. \<open>dd_groupError\<close> is the error that the task group makes of those of its tasks.\<close>

definition task_error :: "string \<Rightarrow> 'a res \<Rightarrow> (string \<times> goerr) list" where
  "task_error name r = (case r of Inl err \<Rightarrow> [(name, err)] | Inr x \<Rightarrow> [])"

definition task_value :: "'a list res \<Rightarrow> 'a list" where
  "task_value r = (case r of Inl err \<Rightarrow> [] | Inr xs \<Rightarrow> xs)"

definition Client_Lookup ::
  "dns_deps \<Rightarrow> bool \<Rightarrow> string option \<Rightarrow> DNSTransport option \<Rightarrow> string \<Rightarrow> DNSQueryOptions \<Rightarrow>
     response_checker option \<Rightarrow> dns_run \<Rightarrow> Addr list res \<times> dns_run" where
  "Client_Lookup dd first4 contextTransport transport domain options responseChecker st =
     (let dnsName = dns_Fqdn dd (FqdnToDomain dd domain);
          strategy = (if qo_LookupStrategy options \<noteq> DomainStrategyAsIS then qo_LookupStrategy options
                      else qo_Strategy options);
          ask = (\<lambda>qType. Client_lookupToExchange dd contextTransport transport dnsName qType options responseChecker)
      in if strategy = DomainStrategyIPv4Only then ask TypeA st
         else if strategy = DomainStrategyIPv6Only then ask TypeAAAA st
         else
           let (r4, r6, st) =
             (if first4
              then (case ask TypeA st of (r4, st) \<Rightarrow> case ask TypeAAAA st of (r6, st) \<Rightarrow> (r4, r6, st))
              else (case ask TypeAAAA st of (r6, st) \<Rightarrow> case ask TypeA st of (r4, st) \<Rightarrow> (r4, r6, st)))
           in if task_value r4 = [] \<and> task_value r6 = []
              then (case dd_groupError dd (task_error ''exchange4'' r4 @ task_error ''exchange6'' r6) of
                      Some err \<Rightarrow> (Inl err, st)
                    | None \<Rightarrow> (Inr [], st))
              else (Inr (sortAddresses (task_value r4) (task_value r6) strategy), st))"

end
