(* ===== verification/DnsRouter.thy ===== *)
theory DnsRouter
  imports DnsClient DNSRules
begin

text \<open>
  The DNS router (\<^verbatim>\<open>dns/router.go\<close>): \<^verbatim>\<open>matchDNS\<close>, the loops of \<^verbatim>\<open>Exchange\<close> and \<^verbatim>\<open>Lookup\<close> that go on to
  the next rule when the response is rejected by the address conditions of the one that
  matched, and the reverse mapping. The index \<^verbatim>\<open>ruleIndex\<close> of the last rule, -1 at first, is
  modelled by the index at which the search starts. The metadata of the context, which the rules and
  the response check share, is the field \<open>run_md\<close> of the state. Logging is not modelled.
\<close>

section \<open>State\<close>

record 'h DnsRouter =
  nr_Transport :: "string \<Rightarrow> DNSTransport option"
  nr_Default :: "DNSTransport option"
  nr_rules :: "'h DNSRule list"
  nr_defaultDomainStrategy :: u8
  nr_dnsReverseMapping :: "(Addr, string) lru option"

definition DNSTypeFakeIP :: string where "DNSTypeFakeIP = ''fakeip''"

fun parse_dns_rules ::
  "'h deps \<Rightarrow> nat \<Rightarrow> DNSRuleOptions list \<Rightarrow> 'h DNSRule list res" where
  "parse_dns_rules d i [] = Inr []"
| "parse_dns_rules d i (ruleOptions # rules) =
     res_bind (res_cause [ArgS ''parse dns rule['', ArgI (int i), ArgS '']''] (NewDNSRule d True ruleOptions))
       (\<lambda>dnsRule. res_bind (parse_dns_rules d (Suc i) rules) (\<lambda>dnsRules. Inr (dnsRule # dnsRules)))"

definition DnsRouter_Initialize :: "'h deps \<Rightarrow> DNSRuleOptions list \<Rightarrow> 'h DnsRouter \<Rightarrow> 'h DnsRouter res" where
  "DnsRouter_Initialize d rules r =
     res_bind (parse_dns_rules d 0 rules) (\<lambda>dnsRules. Inr (r\<lparr>nr_rules := nr_rules r @ dnsRules\<rparr>))"

section \<open>Matching a rule\<close>

definition is_fakeip :: "DNSTransport \<Rightarrow> bool" where
  "is_fakeip transport \<longleftrightarrow> tr_Type transport = DNSTypeFakeIP"

definition set_query_options :: "bool \<Rightarrow> DNSRouteOptions \<Rightarrow> DNSQueryOptions \<Rightarrow> DNSQueryOptions" where
  "set_query_options isFakeIP act options =
     (let options = (if dn_Strategy act \<noteq> DomainStrategyAsIS
                     then options\<lparr>qo_Strategy := dn_Strategy act\<rparr> else options);
          options = (if isFakeIP \<or> dn_DisableCache act then options\<lparr>qo_DisableCache := True\<rparr> else options);
          options = (if dn_RewriteTTL act \<noteq> None then options\<lparr>qo_RewriteTTL := dn_RewriteTTL act\<rparr> else options)
      in if Prefix_IsValid (dn_ClientSubnet act)
         then options\<lparr>qo_ClientSubnet := dn_ClientSubnet act\<rparr> else options)"

definition set_legacy_options :: "DNSTransport \<Rightarrow> DNSQueryOptions \<Rightarrow> DNSQueryOptions" where
  "set_legacy_options transport options =
     (case tr_Legacy transport of
        None \<Rightarrow> options
      | Some (strategy, subnet) \<Rightarrow>
          let options = (if qo_Strategy options = DomainStrategyAsIS
                         then options\<lparr>qo_Strategy := strategy\<rparr> else options)
          in if \<not> Prefix_IsValid (qo_ClientSubnet options)
             then options\<lparr>qo_ClientSubnet := subnet\<rparr> else options)"

type_synonym 'h dns_match = "DNSTransport option \<times> (nat \<times> 'h DNSRule) option"

fun match_dns_rules ::
  "'h deps \<Rightarrow> env \<Rightarrow> 'h rule_sets \<Rightarrow> 'h DnsRouter \<Rightarrow> bool \<Rightarrow> bool \<Rightarrow> nat \<Rightarrow> 'h DNSRule list \<Rightarrow>
     DNSQueryOptions \<Rightarrow> InboundContext \<Rightarrow> 'h dns_match \<times> DNSQueryOptions \<times> InboundContext" where
  "match_dns_rules d e sets r allowFakeIP isAddressQuery i [] options md = ((nr_Default r, None), options, md)"
| "match_dns_rules d e sets r allowFakeIP isAddressQuery i (currentRule # rules) options md =
     (if DNSRule_WithAddressLimit sets currentRule \<and> \<not> isAddressQuery
      then match_dns_rules d e sets r allowFakeIP isAddressQuery (Suc i) rules options md
      else
        case DNSRule_Match d e sets currentRule (ResetRuleCache md) of
          (False, md) \<Rightarrow> match_dns_rules d e sets r allowFakeIP isAddressQuery (Suc i) rules options md
        | (True, md) \<Rightarrow>
            (case DNSRule_Action currentRule of
               Some (RuleActionDNSRoute server act) \<Rightarrow>
                 (case nr_Transport r server of
                    None \<Rightarrow> match_dns_rules d e sets r allowFakeIP isAddressQuery (Suc i) rules options md
                  | Some transport \<Rightarrow>
                      if is_fakeip transport \<and> \<not> allowFakeIP
                      then match_dns_rules d e sets r allowFakeIP isAddressQuery (Suc i) rules options md
                      else ((Some transport, Some (i, currentRule)),
                            set_legacy_options transport (set_query_options (is_fakeip transport) act options), md))
             | Some (RuleActionDNSRouteOptions act) \<Rightarrow>
                 match_dns_rules d e sets r allowFakeIP isAddressQuery (Suc i) rules
                   (set_query_options False act options) md
             | Some (RuleActionReject act) \<Rightarrow> ((None, Some (i, currentRule)), options, md)
             | Some (RuleActionPredefined act) \<Rightarrow> ((None, Some (i, currentRule)), options, md)
             | _ \<Rightarrow> match_dns_rules d e sets r allowFakeIP isAddressQuery (Suc i) rules options md))"

definition matchDNS ::
  "'h deps \<Rightarrow> env \<Rightarrow> 'h rule_sets \<Rightarrow> 'h DnsRouter \<Rightarrow> bool \<Rightarrow> nat \<Rightarrow> bool \<Rightarrow>
     DNSQueryOptions \<Rightarrow> InboundContext \<Rightarrow> 'h dns_match \<times> DNSQueryOptions \<times> InboundContext" where
  "matchDNS d e sets r allowFakeIP start isAddressQuery options md =
     match_dns_rules d e sets r allowFakeIP isAddressQuery start (drop start (nr_rules r)) options md"

definition isAddressQuery :: "Msg \<Rightarrow> bool" where
  "isAddressQuery message \<longleftrightarrow>
     list_ex (\<lambda>question. q_Qtype question = TypeA \<or> q_Qtype question = TypeAAAA \<or> q_Qtype question = TypeHTTPS)
       (msg_Question message)"

text \<open>The closure \<^verbatim>\<open>responseCheck\<close>, nil for a rule without address conditions.\<close>

definition response_check ::
  "'h deps \<Rightarrow> env \<Rightarrow> 'h rule_sets \<Rightarrow> (nat \<times> 'h DNSRule) option \<Rightarrow> response_checker option" where
  "response_check d e sets rule =
     (case rule of
        None \<Rightarrow> None
      | Some (i, rule) \<Rightarrow>
          if DNSRule_WithAddressLimit sets rule
          then Some (\<lambda>responseAddrs md.
            DNSRule_MatchAddressLimit d e sets rule (md\<lparr>md_DestinationAddresses := responseAddrs\<rparr>))
          else None)"

definition default_strategy :: "'h DnsRouter \<Rightarrow> DNSQueryOptions \<Rightarrow> DNSQueryOptions" where
  "default_strategy r options =
     (if qo_Strategy options = DomainStrategyAsIS
      then options\<lparr>qo_Strategy := nr_defaultDomainStrategy r\<rparr> else options)"

text \<open>\<^verbatim>\<open>errors.Is(err, ErrResponseRejectedCached) || errors.Is(err, ErrResponseRejected)\<close>: the first wraps the
  second.\<close>

fun is_ResponseRejected :: "goerr \<Rightarrow> bool" where
  "is_ResponseRejected (ENew args) \<longleftrightarrow> ENew args = ErrResponseRejected"
| "is_ResponseRejected (ECause err args) \<longleftrightarrow> is_ResponseRejected err"
| "is_ResponseRejected (EExtend err args) \<longleftrightarrow> is_ResponseRejected err"
| "is_ResponseRejected (ERejected err) \<longleftrightarrow> is_ResponseRejected err"
| "is_ResponseRejected _ \<longleftrightarrow> False"

section \<open>Exchange\<close>

text \<open>How one round of a loop ends: the function returns, the loop breaks with the last transport and
  a result, or it goes on at an index.\<close>

datatype 'a dns_step =
    Returned "'a res" dns_run
  | Broke "DNSTransport option" "'a res" dns_run
  | Again nat dns_run

definition exchange_action :: "Msg \<Rightarrow> (nat \<times> 'h DNSRule) option \<Rightarrow> Msg res option" where
  "exchange_action message rule =
     (case rule of
        None \<Rightarrow> None
      | Some (i, rule) \<Rightarrow>
          (case DNSRule_Action rule of
             Some (RuleActionReject act) \<Rightarrow>
               (if rj_Method act = RuleActionRejectMethodDefault then
                  Some (Inr (Msg_zero\<lparr>msg_Id := msg_Id message, msg_Rcode := RcodeRefused, msg_Response := True,
                                      msg_Question := [msg_Question message ! 0]\<rparr>))
                else if rj_Method act = RuleActionRejectMethodDrop then Some (Inl tun_ErrDrop)
                else None)
           | Some (RuleActionPredefined act) \<Rightarrow> Some (RuleActionPredefined_Response act message)
           | _ \<Rightarrow> None))"

definition exchange_step ::
  "'h deps \<Rightarrow> env \<Rightarrow> 'h rule_sets \<Rightarrow> 'h DnsRouter \<Rightarrow> dns_deps \<Rightarrow> string option \<Rightarrow> Msg \<Rightarrow> DNSQueryOptions \<Rightarrow>
     nat \<Rightarrow> dns_run \<Rightarrow> Msg dns_step" where
  "exchange_step d e sets r dd contextTransport message options start st =
     (case matchDNS d e sets r True start (isAddressQuery message) options (run_md st) of
        ((transport, rule), dnsOptions, md) \<Rightarrow>
          let st = st\<lparr>run_md := md\<rparr> in
          case exchange_action message rule of
            Some result \<Rightarrow> Returned result st
          | None \<Rightarrow>
              (case Client_Exchange dd contextTransport transport message (default_strategy r dnsOptions)
                      (response_check d e sets rule) st of
                 (result, st) \<Rightarrow>
                   (case (rule, response_check d e sets rule, result) of
                      (Some (i, currentRule), Some check, Inl err) \<Rightarrow>
                        if is_ResponseRejected err then Again (Suc i) st else Broke transport result st
                    | _ \<Rightarrow> Broke transport result st)))"

lemma match_dns_rules_index:
  "match_dns_rules d e sets r allowFakeIP isAddr i rules options md = ((transport, Some (j, rule)), out) \<Longrightarrow>
   i \<le> j \<and> j < i + length rules"
  by (induction rules arbitrary: i options md)
     (fastforce split: if_splits prod.splits bool.splits option.splits RuleAction.splits)+

lemma matchDNS_index:
  assumes "matchDNS d e sets r allowFakeIP start isAddr options md = ((transport, Some (j, rule)), out)"
  shows "start \<le> j \<and> j < length (nr_rules r)"
  using match_dns_rules_index [OF assms [unfolded matchDNS_def]] by auto

lemma exchange_step_Again:
  assumes "exchange_step d e sets r dd contextTransport message options start st = Again next st'"
  shows "start < next \<and> next \<le> length (nr_rules r)"
proof -
  obtain transport rule dnsOptions md
    where m: "matchDNS d e sets r True start (isAddressQuery message) options (run_md st) = ((transport, rule), dnsOptions, md)"
    by (metis prod.collapse)
  obtain i currentRule where "rule = Some (i, currentRule)" "next = Suc i"
    using assms by (auto simp: exchange_step_def m Let_def split: option.splits prod.splits sum.splits if_splits)
  then show ?thesis
    using matchDNS_index [of d e sets r True start "isAddressQuery message" options "run_md st" transport i currentRule]
      m by auto
qed

function exchange_loop ::
  "'h deps \<Rightarrow> env \<Rightarrow> 'h rule_sets \<Rightarrow> 'h DnsRouter \<Rightarrow> dns_deps \<Rightarrow> string option \<Rightarrow> Msg \<Rightarrow> DNSQueryOptions \<Rightarrow>
     nat \<Rightarrow> dns_run \<Rightarrow> Msg dns_step" where
  "exchange_loop d e sets r dd contextTransport message options start st =
     (case exchange_step d e sets r dd contextTransport message options start st of
        Again next st \<Rightarrow> exchange_loop d e sets r dd contextTransport message options next st
      | result \<Rightarrow> result)"
  by pat_completeness auto
termination
  by (relation "measure (\<lambda>(d, e, sets, r, dd, contextTransport, message, options, start, st).
        Suc (length (nr_rules r)) - start)")
     (auto dest: exchange_step_Again)

text \<open>The reverse mapping learns the addresses of a response that does not come from the fake-ip
  transport.\<close>

fun add_reverse :: "dns_deps \<Rightarrow> int \<Rightarrow> RR list \<Rightarrow> (Addr, string) lru \<Rightarrow> (Addr, string) lru" where
  "add_reverse dd now [] m = m"
| "add_reverse dd now (answer # answers) m =
     add_reverse dd now answers
       (case rr_Data answer of
          RD_A a \<Rightarrow> m(M_AddrFromIP dd a \<mapsto>
            (FqdnToDomain dd (rr_Name answer), now + uint (rr_Ttl answer) * second))
        | RD_AAAA a \<Rightarrow> m(M_AddrFromIP dd a \<mapsto>
            (FqdnToDomain dd (rr_Name answer), now + uint (rr_Ttl answer) * second))
        | _ \<Rightarrow> m)"

definition learn_reverse ::
  "dns_deps \<Rightarrow> int \<Rightarrow> DNSTransport option \<Rightarrow> Msg \<Rightarrow> 'h DnsRouter \<Rightarrow> 'h DnsRouter" where
  "learn_reverse dd now transport response r =
     (case nr_dnsReverseMapping r of
        None \<Rightarrow> r
      | Some m \<Rightarrow>
          if case transport of None \<Rightarrow> True | Some tr \<Rightarrow> \<not> is_fakeip tr
          then r\<lparr>nr_dnsReverseMapping := Some (add_reverse dd now (msg_Answer response) m)\<rparr> else r)"

definition LookupReverseMapping ::
  "dns_deps \<Rightarrow> int \<Rightarrow> Addr \<Rightarrow> 'h DnsRouter \<Rightarrow> string option \<times> 'h DnsRouter" where
  "LookupReverseMapping dd now ip r =
     (case nr_dnsReverseMapping r of
        None \<Rightarrow> (None, r)
      | Some m \<Rightarrow>
          (case lru_Get (dd_reverse_drop dd) now ip m of
             (entry, m) \<Rightarrow> (map_option fst entry, r\<lparr>nr_dnsReverseMapping := Some m\<rparr>)))"

text \<open>The metadata of a query, made from that of the context.\<close>

definition exchange_metadata :: "dns_deps \<Rightarrow> Question \<Rightarrow> InboundContext option \<Rightarrow> InboundContext" where
  "exchange_metadata dd question context =
     (let md = (case context of Some md \<Rightarrow> md | None \<Rightarrow> InboundContext_zero);
          md = md\<lparr>md_Destination := Socksaddr_zero, md_QueryType := q_Qtype question\<rparr>;
          md = (if q_Qtype question = TypeA then md\<lparr>md_IPVersion := 4\<rparr>
                else if q_Qtype question = TypeAAAA then md\<lparr>md_IPVersion := 6\<rparr> else md)
      in md\<lparr>md_Domain := FqdnToDomain dd (q_Name question)\<rparr>)"

definition exchange_query ::
  "'h deps \<Rightarrow> env \<Rightarrow> 'h rule_sets \<Rightarrow> 'h DnsRouter \<Rightarrow> dns_deps \<Rightarrow> string option \<Rightarrow> Msg \<Rightarrow> DNSQueryOptions \<Rightarrow>
     dns_run \<Rightarrow> Msg dns_step" where
  "exchange_query d e sets r dd contextTransport message options st =
     (case qo_Transport options of
        Some transport \<Rightarrow>
          (case Client_Exchange dd contextTransport (Some transport) message
                  (default_strategy r (set_legacy_options transport options)) None st of
             (result, st) \<Rightarrow> Broke (Some transport) result st)
      | None \<Rightarrow> exchange_loop d e sets r dd contextTransport message options 0 st)"

text \<open>\<^verbatim>\<open>Exchange\<close>: the state after it is the router with its reverse mapping, the client and the time.\<close>

definition DnsRouter_Exchange ::
  "'h deps \<Rightarrow> env \<Rightarrow> 'h rule_sets \<Rightarrow> dns_deps \<Rightarrow> string option \<Rightarrow> InboundContext option \<Rightarrow> Msg \<Rightarrow>
     DNSQueryOptions \<Rightarrow> int \<Rightarrow> Client \<Rightarrow> 'h DnsRouter \<Rightarrow> Msg res \<times> Client \<times> 'h DnsRouter \<times> int" where
  "DnsRouter_Exchange d e sets dd contextTransport context message options now c r =
     (if length (msg_Question message) \<noteq> 1 then
        (Inr (Msg_zero\<lparr>msg_Id := msg_Id message, msg_Response := True, msg_Rcode := RcodeFormatError,
                       msg_Question := msg_Question message\<rparr>), c, r, now)
      else
        case Client_ExchangeCache dd now message c of
          (Inl err, c) \<Rightarrow> (Inl err, c, r, now)
        | (Inr (Some response), c) \<Rightarrow> (Inr response, c, learn_reverse dd now None response r, now)
        | (Inr None, c) \<Rightarrow>
            (case exchange_query d e sets r dd contextTransport message options
                    \<lparr>run_client = c, run_md = exchange_metadata dd (msg_Question message ! 0) context,
                     run_now = now\<rparr> of
               Returned result st \<Rightarrow> (result, run_client st, r, run_now st)
             | Broke transport (Inl err) st \<Rightarrow> (Inl err, run_client st, r, run_now st)
             | Broke transport (Inr response) st \<Rightarrow>
                 (Inr response, run_client st, learn_reverse dd (run_now st) transport response r, run_now st)
             | Again start st \<Rightarrow> (Inl (GoPanic []), run_client st, r, run_now st)))"

section \<open>Lookup\<close>

text \<open>\<^verbatim>\<open>Lookup\<close> returns both the addresses and the error. A round ends with a return after \<^verbatim>\<open>action.Error\<close> has
  changed the rule, at the label \<^verbatim>\<open>response\<close> with the variables \<^verbatim>\<open>responseAddrs\<close> and \<^verbatim>\<open>err\<close>, or with another
  round.\<close>

type_synonym lookup_vars = "Addr list \<times> goerr option"

datatype 'h lookup_step =
    LookupRejected goerr "'h DNSRule list" dns_run
  | LookupResponse lookup_vars dns_run
  | LookupAgain nat lookup_vars dns_run

definition print_result :: "string \<Rightarrow> lookup_vars \<Rightarrow> lookup_vars" where
  "print_result domain vars =
     (case vars of (responseAddrs, err) \<Rightarrow>
        let err = (if err = None \<and> responseAddrs = [] then Some (ENew [ArgS ''empty result'']) else err)
        in (responseAddrs, map_option (\<lambda>err. ECause err [ArgS ''lookup '', ArgS domain]) err))"

fun DNSRule_set_Action :: "'h RuleAction \<Rightarrow> 'h DNSRule \<Rightarrow> 'h DNSRule" where
  "DNSRule_set_Action a (DefaultDNSRule r) = DefaultDNSRule (r\<lparr>action := Some a\<rparr>)"
| "DNSRule_set_Action a (LogicalDNSRule rules mode neg act) = LogicalDNSRule rules mode neg (Some a)"

text \<open>\<^verbatim>\<open>&R.RejectedError{Cause: action.Error(ctx)}\<close>; the cause may be nil.\<close>

definition lookup_rejected :: "int \<Rightarrow> RejectAction \<Rightarrow> goerr \<times> RejectAction" where
  "lookup_rejected now act =
     (case RuleActionReject_Error now act of
        (Inl panic, act) \<Rightarrow> (panic, act)
      | (Inr (Some err), act) \<Rightarrow> (ERejected err, act)
      | (Inr None, act) \<Rightarrow> (ERejected (EExternal ''nil''), act))"

definition predefined_addresses :: "dns_deps \<Rightarrow> RR list \<Rightarrow> Addr list" where
  "predefined_addresses dd answers =
     concat (map (\<lambda>answer. case rr_Data answer of
        RD_A a \<Rightarrow> [M_AddrFromIP dd a] | RD_AAAA a \<Rightarrow> [M_AddrFromIP dd a] | _ \<Rightarrow> []) answers)"

definition lookup_step ::
  "'h deps \<Rightarrow> env \<Rightarrow> 'h rule_sets \<Rightarrow> 'h DnsRouter \<Rightarrow> dns_deps \<Rightarrow> bool \<Rightarrow> string option \<Rightarrow> string \<Rightarrow>
     DNSQueryOptions \<Rightarrow> nat \<Rightarrow> lookup_vars \<Rightarrow> dns_run \<Rightarrow> 'h lookup_step" where
  "lookup_step d e sets r dd first4 contextTransport domain options start vars st =
     (case matchDNS d e sets r False start True options (run_md st) of
        ((transport, rule), dnsOptions, md) \<Rightarrow>
          let st = st\<lparr>run_md := md\<rparr>;
              ask = (case Client_Lookup dd first4 contextTransport transport domain (default_strategy r dnsOptions)
                             (response_check d e sets rule) st of
                       (result, st) \<Rightarrow>
                         let vars = (case result of Inl err \<Rightarrow> ([], Some err) | Inr addrs \<Rightarrow> (addrs, None))
                         in case (rule, response_check d e sets rule, result) of
                              (Some (i, currentRule), Some check, Inl err) \<Rightarrow>
                                LookupAgain (Suc i) (print_result domain vars) st
                            | _ \<Rightarrow> LookupResponse vars st)
          in case rule of
               None \<Rightarrow> ask
             | Some (i, currentRule) \<Rightarrow>
                 (case DNSRule_Action currentRule of
                    Some (RuleActionReject act) \<Rightarrow>
                      (case lookup_rejected (run_now st) act of
                         (err, act) \<Rightarrow>
                           LookupRejected err
                             ((nr_rules r)[i := DNSRule_set_Action (RuleActionReject act) currentRule]) st)
                  | Some (RuleActionPredefined act) \<Rightarrow>
                      (if pd_Rcode act \<noteq> RcodeSuccess
                       then LookupResponse (fst vars, Some (ERcode (pd_Rcode act))) st
                       else LookupResponse (fst vars @ predefined_addresses dd (pd_Answer act), snd vars) st)
                  | _ \<Rightarrow> ask))"

lemma lookup_step_Again:
  assumes "lookup_step d e sets r dd first4 contextTransport domain options start vars st = LookupAgain next vars' st'"
  shows "start < next \<and> next \<le> length (nr_rules r)"
proof -
  obtain transport rule dnsOptions md
    where m: "matchDNS d e sets r False start True options (run_md st) = ((transport, rule), dnsOptions, md)"
    by (metis prod.collapse)
  obtain i currentRule where "rule = Some (i, currentRule)" "next = Suc i"
    using assms by (auto simp: lookup_step_def m Let_def
      split: option.splits prod.splits sum.splits if_splits RuleAction.splits)
  then show ?thesis
    using matchDNS_index [of d e sets r False start True options "run_md st" transport i currentRule] m by auto
qed

function lookup_loop ::
  "'h deps \<Rightarrow> env \<Rightarrow> 'h rule_sets \<Rightarrow> 'h DnsRouter \<Rightarrow> dns_deps \<Rightarrow> bool \<Rightarrow> string option \<Rightarrow> string \<Rightarrow>
     DNSQueryOptions \<Rightarrow> nat \<Rightarrow> lookup_vars \<Rightarrow> dns_run \<Rightarrow> 'h lookup_step" where
  "lookup_loop d e sets r dd first4 contextTransport domain options start vars st =
     (case lookup_step d e sets r dd first4 contextTransport domain options start vars st of
        LookupAgain next vars st \<Rightarrow> lookup_loop d e sets r dd first4 contextTransport domain options next vars st
      | result \<Rightarrow> result)"
  by pat_completeness auto
termination
  by (relation "measure (\<lambda>(d, e, sets, r, dd, first4, contextTransport, domain, options, start, vars, st).
        Suc (length (nr_rules r)) - start)")
     (auto dest: lookup_step_Again)

definition lookup_metadata :: "dns_deps \<Rightarrow> string \<Rightarrow> InboundContext option \<Rightarrow> InboundContext" where
  "lookup_metadata dd domain context =
     (let md = (case context of Some md \<Rightarrow> md | None \<Rightarrow> InboundContext_zero)
      in md\<lparr>md_Destination := Socksaddr_zero, md_Domain := FqdnToDomain dd domain\<rparr>)"

text \<open>With a transport in the options, a legacy transport gets the default strategy of the router and
  its own client subnet.\<close>

definition lookup_transport_options :: "'h DnsRouter \<Rightarrow> DNSTransport \<Rightarrow> DNSQueryOptions \<Rightarrow> DNSQueryOptions" where
  "lookup_transport_options r transport options =
     (let options = (case tr_Legacy transport of
            None \<Rightarrow> options
          | Some (strategy, subnet) \<Rightarrow>
              let options = default_strategy r options
              in if \<not> Prefix_IsValid (qo_ClientSubnet options)
                 then options\<lparr>qo_ClientSubnet := subnet\<rparr> else options)
      in default_strategy r options)"

definition lookup_query ::
  "'h deps \<Rightarrow> env \<Rightarrow> 'h rule_sets \<Rightarrow> 'h DnsRouter \<Rightarrow> dns_deps \<Rightarrow> bool \<Rightarrow> string option \<Rightarrow> string \<Rightarrow>
     DNSQueryOptions \<Rightarrow> dns_run \<Rightarrow> 'h lookup_step" where
  "lookup_query d e sets r dd first4 contextTransport domain options st =
     (case qo_Transport options of
        Some transport \<Rightarrow>
          (case Client_Lookup dd first4 contextTransport (Some transport) domain
                  (lookup_transport_options r transport options) None st of
             (Inl err, st) \<Rightarrow> LookupResponse ([], Some err) st
           | (Inr addrs, st) \<Rightarrow> LookupResponse (addrs, None) st)
      | None \<Rightarrow> lookup_loop d e sets r dd first4 contextTransport domain options 0 ([], None) st)"

definition DnsRouter_Lookup ::
  "'h deps \<Rightarrow> env \<Rightarrow> 'h rule_sets \<Rightarrow> dns_deps \<Rightarrow> bool \<Rightarrow> string option \<Rightarrow> InboundContext option \<Rightarrow> string \<Rightarrow>
     DNSQueryOptions \<Rightarrow> int \<Rightarrow> Client \<Rightarrow> 'h DnsRouter \<Rightarrow> lookup_vars \<times> Client \<times> 'h DnsRouter \<times> int" where
  "DnsRouter_Lookup d e sets dd first4 contextTransport context domain options now c r =
     (case Client_LookupCache dd now domain (qo_Strategy options) c of
        (Inl err, c) \<Rightarrow> (([], Some err), c, r, now)
      | (Inr (Some responseAddrs), c) \<Rightarrow>
          (if responseAddrs = []
           then ([], Some (ENew [ArgS ''lookup '', ArgS domain, ArgS '': empty result (cached)'']))
           else (responseAddrs, None), c, r, now)
      | (Inr None, c) \<Rightarrow>
          (case lookup_query d e sets r dd first4 contextTransport domain options
                  \<lparr>run_client = c, run_md = lookup_metadata dd domain context, run_now = now\<rparr> of
             LookupRejected err rules st \<Rightarrow> (([], Some err), run_client st, r\<lparr>nr_rules := rules\<rparr>, run_now st)
           | LookupResponse vars st \<Rightarrow> (print_result domain vars, run_client st, r, run_now st)
           | LookupAgain start vars st \<Rightarrow> (([], Some (GoPanic [])), run_client st, r, run_now st)))"

definition DnsRouter_ClearCache :: "Client \<Rightarrow> Client" where
  "DnsRouter_ClearCache c = Client_ClearCache c"

section \<open>Lifecycle\<close>

fun start_dns_rules :: "env \<Rightarrow> nat \<Rightarrow> 'h DNSRule list \<Rightarrow> 'h rule_sets \<Rightarrow> 'h DNSRule list res \<times> 'h rule_sets" where
  "start_dns_rules e i [] sets = (Inr [], sets)"
| "start_dns_rules e i (rule # rules) sets =
     (case DNSRule_Start e rule sets of
        (Inl err, sets) \<Rightarrow> (Inl (ECause err [ArgS ''initialize DNS rule['', ArgI (int i), ArgS '']'']), sets)
      | (Inr rule, sets) \<Rightarrow>
          (case start_dns_rules e (Suc i) rules sets of
             (Inl err, sets) \<Rightarrow> (Inl err, sets)
           | (Inr rules, sets) \<Rightarrow> (Inr (rule # rules), sets)))"

definition DnsRouter_Start ::
  "env \<Rightarrow> RDRCStore option \<Rightarrow> Client \<Rightarrow> 'h DnsRouter \<Rightarrow> 'h rule_sets \<Rightarrow>
     'h DnsRouter res \<times> Client \<times> 'h rule_sets" where
  "DnsRouter_Start e initRDRC c r sets =
     (case start_dns_rules e 0 (nr_rules r) sets of
        (Inl err, sets) \<Rightarrow> (Inl err, Client_Start initRDRC c, sets)
      | (Inr rules, sets) \<Rightarrow> (Inr (r\<lparr>nr_rules := rules\<rparr>), Client_Start initRDRC c, sets))"

end
