(* ===== verification/DnsProps.thy ===== *)
theory DnsProps
  imports Samples DnsRouter
begin

text \<open>
  Properties of the DNS client and the DNS router: which rule and transport answer a query,
  what the response check accepts, the time to live of cached responses, the fixed
  responses, the client subnet and the store of rejected responses.
\<close>

section \<open>Which rule answers\<close>

text \<open>What \<^verbatim>\<open>matchDNS\<close> asks of a rule: it may be used for the query, it matches, and its action ends
  the search.\<close>

definition dns_applies ::
  "'h deps \<Rightarrow> env \<Rightarrow> 'h rule_sets \<Rightarrow> 'h DnsRouter \<Rightarrow> bool \<Rightarrow> bool \<Rightarrow> InboundContext \<Rightarrow> 'h DNSRule \<Rightarrow> bool" where
  "dns_applies d e sets r allowFakeIP isAddr md rule \<longleftrightarrow>
     (DNSRule_WithAddressLimit sets rule \<longrightarrow> isAddr) \<and>
     fst (DNSRule_Match d e sets rule (ResetRuleCache md)) \<and>
     (case DNSRule_Action rule of
        Some (RuleActionDNSRoute server act) \<Rightarrow>
          (case nr_Transport r server of None \<Rightarrow> False | Some transport \<Rightarrow> is_fakeip transport \<longrightarrow> allowFakeIP)
      | Some (RuleActionReject act) \<Rightarrow> True
      | Some (RuleActionPredefined act) \<Rightarrow> True
      | _ \<Rightarrow> False)"

definition dns_transport :: "'h DnsRouter \<Rightarrow> 'h DNSRule \<Rightarrow> DNSTransport option" where
  "dns_transport r rule =
     (case DNSRule_Action rule of Some (RuleActionDNSRoute server act) \<Rightarrow> nr_Transport r server | _ \<Rightarrow> None)"

lemma dns_applies_reset:
  "ResetRuleCache md' = ResetRuleCache md \<Longrightarrow>
   dns_applies d e sets r a b md' rule = dns_applies d e sets r a b md rule"
  by (simp add: dns_applies_def)

lemma DNSRule_Match_reset_keeps:
  assumes "DNSRule_Match d e sets rule (ResetRuleCache md) = (b, md')" "\<not> md_IgnoreDestinationIPCIDRMatch md"
  shows "ResetRuleCache md' = ResetRuleCache md \<and> \<not> md_IgnoreDestinationIPCIDRMatch md'"
proof -
  have "ResetRuleCache (snd (DNSRule_Match d e sets rule (ResetRuleCache md))) = ResetRuleCache (ResetRuleCache md)"
    by (rule DNSRule_Match_keeps) (simp add: assms)
  then have "ResetRuleCache md' = ResetRuleCache md" by (simp add: assms)
  with assms(2) show ?thesis using ResetRuleCache_ignore by metis
qed

lemma match_dns_rules_first:
  assumes "\<not> md_IgnoreDestinationIPCIDRMatch md"
  shows "fst (match_dns_rules d e sets r allowFakeIP isAddr i rules options md) =
    (case find (\<lambda>k. dns_applies d e sets r allowFakeIP isAddr md (rules ! k)) [0..<length rules] of
       None \<Rightarrow> (nr_Default r, None)
     | Some k \<Rightarrow> (dns_transport r (rules ! k), Some (i + k, rules ! k)))"
  using assms
proof (induction rules arbitrary: i options md)
  case (Cons rule rules)
  obtain b md' where m: "DNSRule_Match d e sets rule (ResetRuleCache md) = (b, md')" by force
  note keeps = DNSRule_Match_reset_keeps [OF m Cons.prems]
  have upt: "[0..<length (rule # rules)] = 0 # map Suc [0..<length rules]"
    by (simp add: upt_conv_Cons map_Suc_upt del: upt_Suc)
  have find_Suc: "find (\<lambda>k. P ((rule # rules) ! k)) (map Suc ks) = map_option Suc (find (\<lambda>k. P (rules ! k)) ks)"
    for P ks by (induction ks) auto
  show ?case
  proof (cases "dns_applies d e sets r allowFakeIP isAddr md rule")
    case True
    then show ?thesis unfolding upt using m
      by (auto simp: dns_applies_def dns_transport_def split: option.splits RuleAction.splits)
  next
    case False
    let ?tried = "DNSRule_WithAddressLimit sets rule \<longrightarrow> isAddr"
    let ?options = "case DNSRule_Action rule of
        Some (RuleActionDNSRouteOptions act) \<Rightarrow> if ?tried \<and> b then set_query_options False act options else options
      | _ \<Rightarrow> options"
    have skip: "fst (match_dns_rules d e sets r allowFakeIP isAddr i (rule # rules) options md) =
        fst (match_dns_rules d e sets r allowFakeIP isAddr (Suc i) rules ?options (if ?tried then md' else md))"
      using False m
      by (cases b) (auto simp: dns_applies_def split: if_splits option.splits RuleAction.splits)
    have md'': "ResetRuleCache (if ?tried then md' else md) = ResetRuleCache md"
        "\<not> md_IgnoreDestinationIPCIDRMatch (if ?tried then md' else md)"
      using keeps Cons.prems by auto
    show ?thesis unfolding upt using False Cons.IH [OF md''(2), of "Suc i" ?options]
      by (simp add: skip find_Suc [of "dns_applies d e sets r allowFakeIP isAddr md"] dns_applies_reset [OF md''(1)]
          split: option.split del: match_dns_rules.simps)
  qed
qed simp

text \<open>The options of the query: each is the last one that is set by the options rules passed on the way and by the selected rule, and
  otherwise the given one; a legacy transport fills in what is still open, and the fake-ip transport is never cached.\<close>

definition dns_options_of :: "'h deps \<Rightarrow> env \<Rightarrow> 'h rule_sets \<Rightarrow> bool \<Rightarrow> InboundContext \<Rightarrow> 'h DNSRule \<Rightarrow> DNSRouteOptions list" where
  "dns_options_of d e sets isAddr md rule =
     (if (DNSRule_WithAddressLimit sets rule \<longrightarrow> isAddr) \<and> fst (DNSRule_Match d e sets rule (ResetRuleCache md))
      then case DNSRule_Action rule of Some (RuleActionDNSRouteOptions act) \<Rightarrow> [act] | _ \<Rightarrow> []
      else [])"

definition route_options_of :: "'h DNSRule \<Rightarrow> DNSRouteOptions list" where
  "route_options_of rule = (case DNSRule_Action rule of Some (RuleActionDNSRoute server act) \<Rightarrow> [act] | _ \<Rightarrow> [])"

definition last_set :: "('a \<Rightarrow> bool) \<Rightarrow> ('a \<Rightarrow> 'b) \<Rightarrow> 'a list \<Rightarrow> 'b \<Rightarrow> 'b" where
  "last_set is_set value acts given = (if filter is_set acts = [] then given else value (last (filter is_set acts)))"

definition effective_options :: "DNSTransport option \<Rightarrow> DNSRouteOptions list \<Rightarrow> DNSQueryOptions \<Rightarrow> DNSQueryOptions" where
  "effective_options transport acts options =
     (let strategy = last_set (\<lambda>act. dn_Strategy act \<noteq> DomainStrategyAsIS) dn_Strategy acts (qo_Strategy options);
          subnet = last_set (\<lambda>act. Prefix_IsValid (dn_ClientSubnet act)) dn_ClientSubnet acts (qo_ClientSubnet options);
          legacy = Option.bind transport tr_Legacy
      in options
        \<lparr>qo_Strategy := (if strategy = DomainStrategyAsIS \<and> legacy \<noteq> None then fst (the legacy) else strategy),
         qo_DisableCache := (qo_DisableCache options \<or> (\<exists>act\<in>set acts. dn_DisableCache act) \<or> (\<exists>tr. transport = Some tr \<and> is_fakeip tr)),
         qo_RewriteTTL := last_set (\<lambda>act. dn_RewriteTTL act \<noteq> None) dn_RewriteTTL acts (qo_RewriteTTL options),
         qo_ClientSubnet := (if \<not> Prefix_IsValid subnet \<and> legacy \<noteq> None then snd (the legacy) else subnet)\<rparr>)"

lemma last_set_snoc [simp]:
  "last_set is_set value [] given = given"
  "last_set is_set value (acts @ [act]) given = (if is_set act then value act else last_set is_set value acts given)"
  by (simp_all add: last_set_def)

lemma options_folded:
  "fold (set_query_options False) acts options = effective_options None acts options"
proof (induction acts rule: rev_induct)
  case (snoc act acts)
  then show ?case by (simp add: set_query_options_def effective_options_def Let_def)
qed (simp add: effective_options_def)

lemma options_selected:
  "set_legacy_options tr (set_query_options (is_fakeip tr) act (effective_options None acts options)) = effective_options (Some tr) (acts @ [act]) options"
  by (simp add: set_query_options_def set_legacy_options_def effective_options_def Let_def split: option.split)

lemma match_dns_rules_options:
  assumes "\<not> md_IgnoreDestinationIPCIDRMatch md"
  shows "fst (snd (match_dns_rules d e sets r allowFakeIP isAddr i rules options md)) =
    (let passed = takeWhile (\<lambda>rule. \<not> dns_applies d e sets r allowFakeIP isAddr md rule) rules;
         options' = fold (set_query_options False) (concat (map (dns_options_of d e sets isAddr md) passed)) options
     in case drop (length passed) rules of
          [] \<Rightarrow> options'
        | rule # _ \<Rightarrow>
            (case DNSRule_Action rule of
               Some (RuleActionDNSRoute server act) \<Rightarrow>
                 (let tr = the (nr_Transport r server) in set_legacy_options tr (set_query_options (is_fakeip tr) act options'))
             | _ \<Rightarrow> options'))"
  using assms
proof (induction rules arbitrary: i options md)
  case (Cons rule rules)
  obtain b md' where m: "DNSRule_Match d e sets rule (ResetRuleCache md) = (b, md')" by force
  note keeps = DNSRule_Match_reset_keeps [OF m Cons.prems]
  show ?case
  proof (cases "dns_applies d e sets r allowFakeIP isAddr md rule")
    case True
    then have none: "takeWhile (\<lambda>rule. \<not> dns_applies d e sets r allowFakeIP isAddr md rule) (rule # rules) = []" by simp
    from True m have "b" "DNSRule_WithAddressLimit sets rule \<longrightarrow> isAddr" "case DNSRule_Action rule of
        Some (RuleActionDNSRoute server act) \<Rightarrow>
          (case nr_Transport r server of None \<Rightarrow> False | Some transport \<Rightarrow> is_fakeip transport \<longrightarrow> allowFakeIP)
      | Some (RuleActionReject act) \<Rightarrow> True | Some (RuleActionPredefined act) \<Rightarrow> True | _ \<Rightarrow> False"
      by (simp_all add: dns_applies_def)
    with m show ?thesis unfolding none Let_def
      by (cases "DNSRule_Action rule"; cases "the (DNSRule_Action rule)") (auto split: option.splits)
  next
    case False
    let ?tried = "DNSRule_WithAddressLimit sets rule \<longrightarrow> isAddr"
    let ?options = "fold (set_query_options False) (dns_options_of d e sets isAddr md rule) options" and ?md = "if ?tried then md' else md"
    have skip: "fst (snd (match_dns_rules d e sets r allowFakeIP isAddr i (rule # rules) options md)) =
        fst (snd (match_dns_rules d e sets r allowFakeIP isAddr (Suc i) rules ?options ?md))"
    proof (cases "?tried \<and> b")
      case True
      then show ?thesis using False m
        by (cases "DNSRule_Action rule"; cases "the (DNSRule_Action rule)") (auto simp: dns_applies_def dns_options_of_def split: option.splits)
    next
      case untried: False
      then have "dns_options_of d e sets isAddr md rule = []" using m by (auto simp: dns_options_of_def)
      with untried m show ?thesis by (cases ?tried) auto
    qed
    have md'': "ResetRuleCache ?md = ResetRuleCache md" "\<not> md_IgnoreDestinationIPCIDRMatch ?md" using keeps Cons.prems by auto
    have same: "dns_applies d e sets r allowFakeIP isAddr ?md = dns_applies d e sets r allowFakeIP isAddr md"
      "dns_options_of d e sets isAddr ?md = dns_options_of d e sets isAddr md"
      using md''(1) by (simp_all add: fun_eq_iff dns_applies_def dns_options_of_def)
    have tw: "takeWhile (\<lambda>rule. \<not> dns_applies d e sets r allowFakeIP isAddr md rule) (rule # rules) =
        rule # takeWhile (\<lambda>rule. \<not> dns_applies d e sets r allowFakeIP isAddr md rule) rules" using False by simp
    show ?thesis using Cons.IH [OF md''(2), of "Suc i" ?options]
      unfolding skip same tw Let_def list.map concat.simps fold_append o_apply list.size(4) add_0_right add_Suc_right drop_Suc_Cons by simp
  qed
qed simp

text \<open>C5. \<^verbatim>\<open>matchDNS\<close> finds the first rule, from the given index on, that applies to the query: a rule with
  address conditions is skipped for a query that does not ask for addresses, the rule matches on
  a fresh rule cache, and its action rejects, answers, or names a transport that exists and, where
  fake addresses are not allowed (every \<^verbatim>\<open>Lookup\<close>), is not the fake-ip transport. Without such a rule
  the default transport answers. The options of the query are those that the options rules on the way and the selected rule set, the
  last one winning for each of the strategy, the rewritten TTL and the client subnet, then those of a legacy transport. IP conditions are
  not ignored at the start.\<close>

theorem matchDNS_first_match:
  assumes "\<not> md_IgnoreDestinationIPCIDRMatch md"
    and "found = find (\<lambda>i. dns_applies d e sets r allowFakeIP isAddr md (nr_rules r ! i)) [start..<length (nr_rules r)]"
    and "passed = takeWhile (\<lambda>rule. \<not> dns_applies d e sets r allowFakeIP isAddr md rule) (drop start (nr_rules r))"
    and "acts = concat (map (dns_options_of d e sets isAddr md) passed)"
  shows "fst (matchDNS d e sets r allowFakeIP start isAddr options md) =
      (case found of
         None \<Rightarrow> (nr_Default r, None)
       | Some i \<Rightarrow> (dns_transport r (nr_rules r ! i), Some (i, nr_rules r ! i))) \<and>
    fst (snd (matchDNS d e sets r allowFakeIP start isAddr options md)) =
      (case found of
         None \<Rightarrow> effective_options None acts options
       | Some i \<Rightarrow> effective_options (dns_transport r (nr_rules r ! i)) (acts @ route_options_of (nr_rules r ! i)) options)"
proof (cases "start \<le> length (nr_rules r)")
  case True
  let ?P = "dns_applies d e sets r allowFakeIP isAddr md" and ?rules = "drop start (nr_rules r)"
  have upt: "[start..<length (nr_rules r)] = map (\<lambda>i. i + start) [0..<length ?rules]"
    using True map_add_upt [of start "length (nr_rules r) - start"] by simp
  have find_add: "find (\<lambda>i. ?P (nr_rules r ! i)) (map (\<lambda>i. i + start) ks) =
      map_option (\<lambda>i. i + start) (find (\<lambda>k. ?P (?rules ! k)) ks)"
    for ks using True by (induction ks) (auto simp: add.commute)
  have found: "found = map_option (\<lambda>i. i + start) (find (\<lambda>k. ?P (?rules ! k)) [0..<length ?rules])"
    unfolding assms(2) upt find_add ..
  have "fst (matchDNS d e sets r allowFakeIP start isAddr options md) =
      (case found of None \<Rightarrow> (nr_Default r, None) | Some i \<Rightarrow> (dns_transport r (nr_rules r ! i), Some (i, nr_rules r ! i)))"
    unfolding found matchDNS_def match_dns_rules_first [OF assms(1)] using True
    by (simp add: add.commute split: option.split)
  moreover have "fst (snd (matchDNS d e sets r allowFakeIP start isAddr options md)) =
      (case found of
         None \<Rightarrow> effective_options None acts options
       | Some i \<Rightarrow> effective_options (dns_transport r (nr_rules r ! i)) (acts @ route_options_of (nr_rules r ! i)) options)"
  proof (cases "drop (length passed) ?rules")
    case Nil
    have "takeWhile (\<lambda>rule. \<not> ?P rule) ?rules = ?rules" using Nil assms(3) takeWhile_eq_take [of "\<lambda>rule. \<not> ?P rule" ?rules]
      by (metis drop_eq_Nil take_all)
    then have "found = None" unfolding found by (simp add: find_None_iff takeWhile_eq_all_conv all_set_conv_all_nth)
    with Nil show ?thesis
      unfolding matchDNS_def match_dns_rules_options [OF assms(1)] Let_def assms(3) [symmetric] assms(4) [symmetric] by (simp add: options_folded)
  next
    case (Cons rule rest)
    have k: "length passed < length ?rules" "?rules ! length passed = rule"
      using Cons nth_via_drop [OF Cons] by (auto intro: ccontr)
    have applies: "?P rule" using nth_length_takeWhile [of "\<lambda>rule. \<not> ?P rule" ?rules] k assms(3) by simp
    have before: "\<not> ?P (?rules ! j)" if "j < length passed" for j
      using that assms(3) nth_mem [of j passed] set_takeWhileD takeWhile_nth [of j "\<lambda>rule. \<not> ?P rule" ?rules] by metis
    have "find (\<lambda>k. ?P (?rules ! k)) [0..<length ?rules] = Some (length passed)"
      unfolding find_Some_iff using k applies before by (intro exI [of _ "length passed"]) simp
    then have f: "found = Some (length passed + start)" "nr_rules r ! (length passed + start) = rule"
      using found k True by (simp_all add: add.commute)
    show ?thesis
      unfolding matchDNS_def match_dns_rules_options [OF assms(1)] Let_def assms(3) [symmetric] assms(4) [symmetric] Cons f list.case option.case
      using applies
      by (auto simp: options_folded options_selected dns_applies_def route_options_of_def dns_transport_def split: option.splits RuleAction.splits)
  qed
  ultimately show ?thesis ..
qed (simp add: matchDNS_def assms options_folded effective_options_def)

section \<open>What the response check accepts\<close>

lemma exchange_loop_ends: "exchange_loop d e sets r dd ctx message options start st \<noteq> Again next st'"
proof (induction d e sets r dd ctx message options start st rule: exchange_loop.induct)
  case (1 d e sets r dd ctx message options start st)
  then show ?case by (subst exchange_loop.simps) (auto split: dns_step.split simp del: exchange_loop.simps)
qed

lemmas client_defs = Client_loadResponse_def Client_storeCache_def handle_response_def rejected_before_def
  exchange_uncached_def lru_Get_def Let_def

lemma handle_response_disableCache [simp]:
  "cl_disableCache (run_client (snd (handle_response dd tr message q options checker dc response st))) =
   cl_disableCache (run_client st)"
  by (auto simp: handle_response_def Client_storeCache_def Let_def split: prod.split bool.split sum.split)

lemma exchange_uncached_disableCache [simp]:
  "cl_disableCache (run_client (snd (exchange_uncached dd ctx tr message q options checker dc st))) =
   cl_disableCache (run_client st)"
  by (auto simp: exchange_uncached_def rejected_before_def split: prod.split bool.split sum.split option.split if_splits)

lemma loadResponse_disableCache [simp]:
  "cl_disableCache (snd (Client_loadResponse dd now q transport c)) = cl_disableCache c"
  by (auto simp: Client_loadResponse_def lru_Get_def Let_def split: prod.split sum.split option.split)

lemma Client_Exchange_disableCache [simp]:
  "cl_disableCache (run_client (snd (Client_Exchange dd ctx transport message options checker st))) =
   cl_disableCache (run_client st)"
proof (cases "msg_Question message")
  case (Cons q qs)
  obtain res c where "(if \<not> is_simple_request (with_client_subnet (run_client st) options message) options \<or>
        cl_disableCache (run_client st) \<or> qo_DisableCache options
      then (Inr None, run_client st) else Client_loadResponse dd (run_now st) q transport (run_client st)) = (res, c)"
    (is "?load = _") by force
  moreover from this have "cl_disableCache c = cl_disableCache (run_client st)"
    by (metis loadResponse_disableCache snd_conv)
  ultimately show ?thesis using Cons
    by (auto simp: Client_Exchange_def Let_def split: sum.split option.split)
qed (simp add: Client_Exchange_def)

lemma Client_Exchange_disableCacheD:
  "Client_Exchange dd ctx transport message options checker st = (res, st') \<Longrightarrow>
   cl_disableCache (run_client st') = cl_disableCache (run_client st)"
  using Client_Exchange_disableCache [of dd ctx transport message options checker st] by simp

lemma exchange_step_disableCache:
  assumes "exchange_step d e sets r dd ctx message options start st = Again next st'"
  shows "cl_disableCache (run_client st') = cl_disableCache (run_client st)"
  using assms by (auto simp: exchange_step_def Let_def split: prod.splits option.splits sum.splits if_splits)
     (auto dest!: Client_Exchange_disableCacheD)

text \<open>The rounds of the loop, and the last one.\<close>

definition exchange_round ::
  "'h deps \<Rightarrow> env \<Rightarrow> 'h rule_sets \<Rightarrow> 'h DnsRouter \<Rightarrow> dns_deps \<Rightarrow> string option \<Rightarrow> Msg \<Rightarrow> DNSQueryOptions \<Rightarrow>
     nat \<times> dns_run \<Rightarrow> nat \<times> dns_run \<Rightarrow> bool" where
  "exchange_round d e sets r dd ctx message options x y \<longleftrightarrow>
     exchange_step d e sets r dd ctx message options (fst x) (snd x) = Again (fst y) (snd y)"

lemma exchange_loop_last:
  assumes "exchange_loop d e sets r dd ctx message options start st = Broke transport result st'"
  shows "\<exists>start' st1. (exchange_round d e sets r dd ctx message options)\<^sup>*\<^sup>* (start, st) (start', st1) \<and>
    cl_disableCache (run_client st1) = cl_disableCache (run_client st) \<and>
    exchange_step d e sets r dd ctx message options start' st1 = Broke transport result st'"
  using assms
proof (induction d e sets r dd ctx message options start st rule: exchange_loop.induct)
  case (1 d e sets r dd ctx message options start st)
  show ?case
  proof (cases "exchange_step d e sets r dd ctx message options start st")
    case (Again nx st2)
    have "exchange_loop d e sets r dd ctx message options start st =
        exchange_loop d e sets r dd ctx message options nx st2"
      by (subst exchange_loop.simps) (simp add: Again del: exchange_loop.simps)
    with "1.IH" [OF Again] "1.prems" obtain start' st1 where
        "(exchange_round d e sets r dd ctx message options)\<^sup>*\<^sup>* (nx, st2) (start', st1)"
        "cl_disableCache (run_client st1) = cl_disableCache (run_client st2)"
        "exchange_step d e sets r dd ctx message options start' st1 = Broke transport result st'" by auto
    moreover have "exchange_round d e sets r dd ctx message options (start, st) (nx, st2)" using Again by (simp add: exchange_round_def)
    ultimately show ?thesis using exchange_step_disableCache [OF Again] by (metis converse_rtranclp_into_rtranclp)
  qed (use 1 in \<open>auto simp: exchange_loop.simps [of d e sets r dd ctx message options start st] simp del: exchange_loop.simps\<close>)
qed

text \<open>A response that passed a check: the transport delivers it at that time, it succeeds with an answer, the check accepts its
  addresses, and what is returned is that response with its hints, TTLs and identifier adjusted.\<close>

definition accepted ::
  "dns_deps \<Rightarrow> (Addr list \<Rightarrow> bool) \<Rightarrow> DNSTransport \<Rightarrow> int \<Rightarrow> Msg \<Rightarrow> u16 \<Rightarrow> DNSQueryOptions \<Rightarrow> Msg \<Rightarrow> bool" where
  "accepted dd checker tr now message qType options response \<longleftrightarrow>
     (case fst (dd_exchange dd tr message now) of
        Inl err \<Rightarrow> False
      | Inr m \<Rightarrow>
          msg_Rcode m = RcodeSuccess \<and> msg_Answer m \<noteq> [] \<and> checker (MessageToAddresses dd m) \<and>
          (let m' = filter_hints qType (qo_Strategy options) m
           in response = finish_response dd message options (response_ttl options m') m'))"

lemma handle_response_accepted:
  assumes "handle_response dd tr message q options (Some checker) dc m st = (Inr response, st')"
  shows "msg_Rcode m = RcodeSuccess \<and> msg_Answer m \<noteq> [] \<and> fst (checker (MessageToAddresses dd m) (run_md st)) \<and>
    (let m' = filter_hints (q_Qtype q) (qo_Strategy options) m
     in response = finish_response dd message options (response_ttl options m') m')"
  using assms by (auto simp: handle_response_def check_response_def Let_def split: prod.splits bool.splits if_splits)

lemma exchange_uncached_accepted:
  assumes "exchange_uncached dd ctx tr message q options (Some checker) dc st = (Inr response, st')"
  shows "accepted dd (\<lambda>addrs. fst (checker addrs (run_md st))) tr (run_now st) message (q_Qtype q) options response"
proof -
  obtain c res now m where x: "dd_exchange dd tr message (run_now st) = (res, now)"
      "transport_response message res = Inr m"
      "handle_response dd tr message q options (Some checker) dc m (st\<lparr>run_client := c, run_now := now\<rparr>) = (Inr response, st')"
    using assms by (auto simp: exchange_uncached_def split: if_splits prod.splits bool.splits sum.splits)
  note acc = handle_response_accepted [OF x(3)]
  have "res = Inr m" using x(2) acc
    by (auto simp: transport_response_def FixedResponseStatus_def Msg_zero_def split: sum.splits option.splits)
  with x acc show ?thesis by (simp add: accepted_def)
qed

lemma Client_Exchange_accepted:
  assumes "Client_Exchange dd ctx transport message options (Some checker) st = (Inr response, st')"
    and "cl_disableCache (run_client st)" "msg_Question message = q # qs"
  shows "if strategy_rejects (q_Qtype q) (qo_Strategy options) then response = FixedResponseStatus message RcodeSuccess
    else \<exists>tr. transport = Some tr \<and> accepted dd (\<lambda>addrs. fst (checker addrs (run_md st))) tr (run_now st)
      (with_client_subnet (run_client st) options message) (q_Qtype q) options response"
  using assms by (auto simp: Client_Exchange_def Let_def split: option.splits dest!: exchange_uncached_accepted)

text \<open>C9. With the cache off, a response that the address conditions of the selecting rule reject is never returned: if the loop of
  \<^verbatim>\<open>Exchange\<close> ends with a response, then it is the response of the transport that \<^verbatim>\<open>matchDNS\<close> selects in a round that the
  loop comes to, and if the rule of that round has address conditions and the strategy does not exclude the question, then the transport
  delivered in this round a successful response whose addresses \<^verbatim>\<open>MatchAddressLimit\<close> of the rule accepts, and what is returned is
  that response with its hints, TTLs and identifier adjusted; a question that the strategy excludes is answered without addresses.\<close>

theorem exchange_response_accepted:
  assumes "exchange_loop d e sets r dd ctx message options start st = Broke transport (Inr response) st'"
    and "cl_disableCache (run_client st)" "msg_Question message = q # qs"
  shows "\<exists>start' st1 rule dnsOptions md.
    (exchange_round d e sets r dd ctx message options)\<^sup>*\<^sup>* (start, st) (start', st1) \<and>
    matchDNS d e sets r True start' (isAddressQuery message) options (run_md st1) = ((transport, rule), dnsOptions, md) \<and>
    (\<forall>i limited opts. rule = Some (i, limited) \<longrightarrow> DNSRule_WithAddressLimit sets limited \<longrightarrow> opts = default_strategy r dnsOptions \<longrightarrow>
       (if strategy_rejects (q_Qtype q) (qo_Strategy opts) then response = FixedResponseStatus message RcodeSuccess
        else \<exists>tr. transport = Some tr \<and>
          accepted dd (\<lambda>addrs. fst (DNSRule_MatchAddressLimit d e sets limited (md\<lparr>md_DestinationAddresses := addrs\<rparr>)))
            tr (run_now st1) (with_client_subnet (run_client st1) opts message) (q_Qtype q) opts response))"
proof -
  obtain start' st1 where s: "(exchange_round d e sets r dd ctx message options)\<^sup>*\<^sup>* (start, st) (start', st1)" "cl_disableCache (run_client st1)"
      "exchange_step d e sets r dd ctx message options start' st1 = Broke transport (Inr response) st'"
    using exchange_loop_last [OF assms(1)] assms(2) by auto
  obtain tr rule dnsOptions md where m: "matchDNS d e sets r True start' (isAddressQuery message) options (run_md st1) =
      ((tr, rule), dnsOptions, md)" by (metis prod.collapse)
  have x: "tr = transport" "Client_Exchange dd ctx transport message (default_strategy r dnsOptions)
      (response_check d e sets rule) (st1\<lparr>run_md := md\<rparr>) = (Inr response, st')"
    using s(3) by (auto simp: exchange_step_def m Let_def split: option.splits prod.splits sum.splits if_splits)
  have "if strategy_rejects (q_Qtype q) (qo_Strategy (default_strategy r dnsOptions)) then response = FixedResponseStatus message RcodeSuccess
      else \<exists>tr. transport = Some tr \<and>
        accepted dd (\<lambda>addrs. fst (DNSRule_MatchAddressLimit d e sets limited (md\<lparr>md_DestinationAddresses := addrs\<rparr>)))
          tr (run_now st1) (with_client_subnet (run_client st1) (default_strategy r dnsOptions) message) (q_Qtype q) (default_strategy r dnsOptions) response"
    if "rule = Some (i, limited)" "DNSRule_WithAddressLimit sets limited" for i limited
    using Client_Exchange_accepted [OF x(2) [unfolded response_check_def that(1) option.case prod.case if_P [OF that(2)]], of q qs] s(2) assms(3) by (simp split: if_splits)
  with s(1) m x(1) show ?thesis by blast
qed

section \<open>Time to live\<close>

lemma fold_least:
  fixes t :: "'w::len word"
  defines "f \<equiv> \<lambda>x t. if t = 0 \<or> x > 0 \<and> x < t then x else t"
  shows "(fold f xs t = 0 \<longleftrightarrow> (\<forall>x\<in>insert t (set xs). x = 0)) \<and>
    (fold f xs t \<noteq> 0 \<longrightarrow> fold f xs t \<in> insert t (set xs) \<and> (\<forall>x\<in>insert t (set xs). x \<noteq> 0 \<longrightarrow> fold f xs t \<le> x))"
proof (induction xs arbitrary: t)
  case (Cons x xs)
  have f: "f x t = 0 \<longleftrightarrow> x = 0 \<and> t = 0" "f x t = x \<or> f x t = t" "x \<noteq> 0 \<Longrightarrow> f x t \<le> x" "t \<noteq> 0 \<Longrightarrow> f x t \<le> t"
    by (auto simp: f_def word_gt_0)
  show ?case using Cons.IH [of "f x t"] f by (auto intro: order_trans)
qed simp

lemma least_ttl_eq: "least_ttl rs = fold (\<lambda>x t. if t = 0 \<or> x > 0 \<and> x < t then x else t) (map rr_Ttl rs) 0"
  by (simp add: least_ttl_def fold_map comp_def)

lemma least_ttl_spec:
  "(least_ttl rs = 0 \<longleftrightarrow> (\<forall>r\<in>set rs. rr_Ttl r = 0)) \<and>
   (least_ttl rs \<noteq> 0 \<longrightarrow> (\<exists>r\<in>set rs. rr_Ttl r = least_ttl rs) \<and> (\<forall>r\<in>set rs. rr_Ttl r \<noteq> 0 \<longrightarrow> least_ttl rs \<le> rr_Ttl r))"
  using fold_least [of "map rr_Ttl rs" 0] unfolding least_ttl_eq by auto

lemma origin_ttl_eq: "origin_ttl rs = uint (least_ttl rs)"
proof -
  have "fold (\<lambda>record originTTL. if originTTL = 0 \<or> rr_Ttl record > 0 \<and> uint (rr_Ttl record) < originTTL
      then uint (rr_Ttl record) else originTTL) rs (uint t) =
    uint (fold (\<lambda>record timeToLive. if timeToLive = 0 \<or> rr_Ttl record > 0 \<and> rr_Ttl record < timeToLive
      then rr_Ttl record else timeToLive) rs t)" for t
    by (induction rs arbitrary: t) (auto simp: word_less_def uint_0_iff)
  from this [of 0] show ?thesis by (simp add: origin_ttl_def least_ttl_def)
qed

lemma msg_records_map [simp]: "msg_records (map_records f m) = map f (msg_records m)"
  by (simp add: msg_records_def map_records_def)

lemma map_records_comp [simp]: "map_records f (map_records g m) = map_records (f \<circ> g) m"
  by (simp add: map_records_def)

lemma map_records_cong: "(\<And>r. r \<in> set (msg_records m) \<Longrightarrow> f r = g r) \<Longrightarrow> map_records f m = map_records g m"
  by (auto simp: msg_records_def map_records_def)

lemma least_ttl_set_ttls: "msg_records m \<noteq> [] \<Longrightarrow> least_ttl (msg_records (set_ttls ttl m)) = ttl"
  using least_ttl_spec [of "msg_records (set_ttls ttl m)"] by (auto simp: set_ttls_def)

lemma aged_set_ttls:
  assumes "ttl \<noteq> 0"
  shows "aged n (set_ttls ttl m) = set_ttls (word_of_int n) m"
proof (cases "msg_records m = []")
  case True
  then show ?thesis by (simp add: aged_def set_ttls_def msg_records_def map_records_def Let_def)
next
  case False
  then have "origin_ttl (msg_records (set_ttls ttl m)) = uint ttl" by (simp add: origin_ttl_eq least_ttl_set_ttls)
  moreover have "uint ttl > 0" using assms by (metis uint_0_iff uint_ge_0 order_less_le)
  moreover have "map_records (\<lambda>r. r\<lparr>rr_Ttl := rr_Ttl r - word_of_int (uint ttl - n)\<rparr>) (set_ttls ttl m) =
      set_ttls (word_of_int n) m"
  proof -
    have "ttl - word_of_int (uint ttl - n) = word_of_int n" by simp
    then show ?thesis by (simp add: set_ttls_def comp_def)
  qed
  ultimately show ?thesis by (simp add: aged_def Let_def del: of_int_diff)
qed

text \<open>C36. A cached response lives as long as its TTL says and never longer: stored with the TTL that all
  its records carry, it is found again, as long as the cache has not dropped it, until that many
  seconds have passed, with the remaining seconds as the TTL of every record, and it is not found
  any more after that.\<close>

theorem cached_ttl_is_remaining_lifetime:
  assumes "\<not> cl_disableExpire c" "ttl \<noteq> 0" "transportCacheKey c q transport = Inr key"
    and "c' = Client_storeCache now transport q (set_ttls ttl m) ttl c"
    and "dd_drop dd now' (cl_cache c') key = cl_cache c' key" "now \<le> now'"
  shows "let remaining = (now + second * uint ttl - now') div second
    in remaining \<le> uint ttl \<and>
       fst (Client_loadResponse dd now' q transport c') =
         Inr (if now' \<le> now + second * uint ttl then Some (set_ttls (word_of_int remaining) m, remaining) else None)"
proof -
  define remaining where "remaining = (now + second * uint ttl - now') div second"
  have key: "transportCacheKey c' q transport = Inr key" "\<not> cl_disableExpire c'"
    "cl_cache c' key = Some (set_ttls ttl m, now + second * uint ttl)"
    using assms by (auto simp: Client_storeCache_def transportCacheKey_def Let_def split: if_splits option.splits)
  have "\<not> remaining < 0" if "now' \<le> now + second * uint ttl"
    using that unfolding remaining_def by (simp add: second_def pos_imp_zdiv_neg_iff)
  with key assms(5) aged_set_ttls [OF assms(2)]
  have "fst (Client_loadResponse dd now' q transport c') =
      Inr (if now' \<le> now + second * uint ttl then Some (set_ttls (word_of_int remaining) m, remaining) else None)"
    by (auto simp: Client_loadResponse_def lru_Get_def Let_def remaining_def)
  moreover have "remaining \<le> (second * uint ttl) div second"
    unfolding remaining_def using assms(6) by (intro zdiv_mono1) (auto simp: second_def)
  ultimately show ?thesis by (simp add: Let_def remaining_def second_def)
qed

section \<open>Fixed responses and the client subnet\<close>

text \<open>A fixed response says what it was made from: read back, it gives the addresses that fit the type
  of the question, in order, and each of its records answers the question with the given TTL. The
  law assumed of \<^verbatim>\<open>M.AddrFromIP\<close> is that it reads an address from its bytes.\<close>

theorem FixedResponse_addresses:
  assumes "\<forall>a\<in>set addresses. M_AddrFromIP dd (Addr_withoutZone a) = a"
  shows "MessageToAddresses dd (FixedResponse ident q addresses ttl) =
      filter (\<lambda>a. Addr_Is4 a \<and> q_Qtype q = TypeA \<or> Addr_Is6 a \<and> q_Qtype q = TypeAAAA) addresses \<and>
    (\<forall>r\<in>set (msg_Answer (FixedResponse ident q addresses ttl)).
       rr_Name r = q_Name q \<and> rr_Rrtype r = q_Qtype q \<and> rr_Ttl r = ttl)"
proof -
  have "concat (map (answer_addresses dd) (fixed_answers q ttl xs)) =
      filter (\<lambda>a. Addr_Is4 a \<and> q_Qtype q = TypeA \<or> Addr_Is6 a \<and> q_Qtype q = TypeAAAA) xs"
    if "\<forall>a\<in>set xs. M_AddrFromIP dd (Addr_withoutZone a) = a" for xs
    using that by (induction xs) (auto simp: answer_addresses_def)
  moreover have "rr_Name r = q_Name q \<and> rr_Rrtype r = q_Qtype q \<and> rr_Ttl r = ttl"
    if "r \<in> set (fixed_answers q ttl xs)" for r xs
    using that by (induction xs) (auto split: if_splits)
  ultimately show ?thesis using assms
    by (simp add: FixedResponse_def fixed_header_def MessageToAddresses_def)
qed

lemma find_subnet_Some:
  "find_subnet j options = Some k \<Longrightarrow> j \<le> k \<and> k < j + length options \<and> (\<exists>code f n a. options ! (k - j) = EDNS0_SUBNET code f n a)"
  by (induction j options rule: find_subnet.induct) (auto simp: nth_Cons' split: if_splits)

lemma find_subnet_append: "find_subnet j options = None \<Longrightarrow> find_subnet j (options @ [EDNS0_SUBNET c f n a]) = Some (j + length options)"
  by (induction j options rule: find_subnet.induct) auto

lemma find_subnet_update:
  "find_subnet j options = Some k \<Longrightarrow> find_subnet j (options[k - j := EDNS0_SUBNET c f n a]) = Some k"
proof (induction j options rule: find_subnet.induct)
  case (3 j t options)
  then have "k - j = Suc (k - Suc j)" using find_subnet_Some [of "Suc j" options k] by (simp add: Suc_diff_Suc Suc_le_eq)
  with 3 show ?case by simp
qed auto

lemma findExists_inherited:
  "findExists i opt records = (Some k, sub) \<Longrightarrow> k < i \<Longrightarrow> records = [] \<and> opt = Some k \<and> sub = None"
proof (induction records arbitrary: i opt)
  case (Cons x records)
  then show ?case using Cons.IH [of "Suc i"] by (fastforce split: rdata.splits option.splits)
qed simp

lemma findExists_put:
  "findExists i opt records = (Some k, sub) \<Longrightarrow> i \<le> k \<Longrightarrow> \<forall>k. opt = Some k \<longrightarrow> k < i \<Longrightarrow>
   k - i < length records \<and> (\<exists>options. rr_Data (records ! (k - i)) = RD_OPT options \<and> find_subnet 0 options = sub) \<and>
   (\<forall>options' j. find_subnet 0 options' = Some j \<longrightarrow>
      findExists i opt (records[k - i := (records ! (k - i))\<lparr>rr_Data := RD_OPT options'\<rparr>]) = (Some k, Some j))"
proof (induction records arbitrary: i opt)
  case (Cons x records)
  show ?case
  proof (cases "k = i")
    case True
    have "\<not> findExists (Suc i) None records = (Some i, sub)" "findExists (Suc i) (Some i) records = (Some i, sub) \<Longrightarrow> sub = None"
      using findExists_inherited [of "Suc i" _ records i sub] by auto
    with True Cons.prems show ?thesis by (auto split: rdata.splits option.splits)
  next
    case False
    with Cons.prems have k: "Suc i \<le> k" "k - i = Suc (k - Suc i)" by auto
    with Cons.IH [of "Suc i" _] Cons.prems(1) False show ?thesis
      by (auto split: rdata.splits option.splits)
  qed
qed auto

lemma findExists_append:
  "findExists i opt records = (None, sub) \<Longrightarrow> find_subnet 0 options = Some j \<Longrightarrow>
   findExists i opt (records @ [opt_record options]) = (Some (i + length records), Some j)"
proof (induction records arbitrary: i opt)
  case (Cons x records)
  then show ?case by (auto split: rdata.splits option.splits)
qed (auto simp: opt_record_def)

lemma put_subnet_twice:
  assumes "find_subnet 0 options = sub"
  shows "\<exists>j. find_subnet 0 (put_subnet p sub options) = Some j \<and>
    put_subnet p' (Some j) (put_subnet p sub options) = put_subnet p' sub options"
proof (cases sub)
  case None
  with assms find_subnet_append [of 0 options] show ?thesis
    by (auto simp: put_subnet_def subnet_option_def)
next
  case (Some j)
  with assms find_subnet_Some [of 0 options j] find_subnet_update [of 0 options j] show ?thesis
    by (auto simp: put_subnet_def subnet_option_def)
qed

text \<open>The last client subnet wins: setting a client subnet on a message that already has one gives the
  same message as setting it on the original, whatever other records and options the message
  has; so the option never accumulates.\<close>

theorem SetClientSubnet_last_wins:
  "SetClientSubnet (SetClientSubnet message p) p' = SetClientSubnet message p'"
proof -
  obtain opt sub where f: "findExists 0 None (msg_Extra message) = (opt, sub)" by force
  show ?thesis
  proof (cases opt)
    case None
    with f findExists_append [of 0 None "msg_Extra message" sub "put_subnet p None []" 0] show ?thesis
      by (simp add: SetClientSubnet_def put_subnet_def subnet_option_def opt_record_def)
  next
    case (Some k)
    with f findExists_put [of 0 None "msg_Extra message" k sub] obtain options
      where o: "k < length (msg_Extra message)" "rr_Data (msg_Extra message ! k) = RD_OPT options"
        "find_subnet 0 options = sub"
        "\<And>options' j. find_subnet 0 options' = Some j \<Longrightarrow> findExists 0 None
          ((msg_Extra message)[k := (msg_Extra message ! k)\<lparr>rr_Data := RD_OPT options'\<rparr>]) = (Some k, Some j)"
      by auto
    from put_subnet_twice [OF o(3), of p p'] obtain j where j:
      "find_subnet 0 (put_subnet p sub options) = Some j"
      "put_subnet p' (Some j) (put_subnet p sub options) = put_subnet p' sub options" by blast
    with f Some o(1,2) o(4) [OF j(1)] show ?thesis by (simp add: SetClientSubnet_def)
  qed
qed

section \<open>Rejected responses\<close>

lemma loadResponse_absent:
  assumes "transportCacheKey c q transport = Inr key" "cl_cache c key = None" "dd_drop dd now (cl_cache c) \<subseteq>\<^sub>m cl_cache c"
  shows "Client_loadResponse dd now q transport c = (Inr None, c\<lparr>cl_cache := dd_drop dd now (cl_cache c)\<rparr>)"
    and "dd_drop dd now (cl_cache c) key = None"
proof -
  show "dd_drop dd now (cl_cache c) key = None"
    using assms(2,3) by (metis domIff map_le_def)
  then show "Client_loadResponse dd now q transport c = (Inr None, c\<lparr>cl_cache := dd_drop dd now (cl_cache c)\<rparr>)"
    using assms(1) by (simp add: Client_loadResponse_def lru_Get_def)
qed

lemma Client_Exchange_cached_path:
  assumes "msg_Question message = q # qs" "\<not> strategy_rejects (q_Qtype q) (qo_Strategy options)"
    and "is_simple_request (with_client_subnet (run_client st) options message) options"
    and "\<not> cl_disableCache (run_client st)" "\<not> qo_DisableCache options"
    and "Client_loadResponse dd (run_now st) q (Some tr) (run_client st) = (Inr None, c)"
  shows "Client_Exchange dd ctx (Some tr) message options checker st =
    exchange_uncached dd ctx tr (with_client_subnet (run_client st) options message) q options checker False
      (st\<lparr>run_client := c\<rparr>)"
  using assms by (simp add: Client_Exchange_def Let_def)

lemma handle_response_saves:
  assumes "handle_response dd tr message q options (Some checker) False m st = (Inl err, st')"
    and "msg_Rcode m = RcodeSuccess \<or> msg_Rcode m = RcodeNameError" "dd_saveError dd = None"
    and "cl_rdrc (run_client st) = Some rdrc"
  shows "run_client st' = (run_client st)\<lparr>cl_rdrc :=
      Some (CacheFile_SaveRDRC (run_now st) (tr_Tag tr) (q_Name q) (q_Qtype q) rdrc)\<rparr> \<and> run_now st' = run_now st"
  using assms
  by (auto simp: handle_response_def CacheFile_SaveRDRCAsync_def Let_def split: prod.splits bool.splits if_splits)

lemma rejected_before_False:
  assumes "rejected_before checked now tr q c = (False, c')" "cl_rdrc c = Some rdrc" "checked"
  shows "\<exists>rdrc'. c' = c\<lparr>cl_rdrc := Some rdrc'\<rparr> \<and> rc_rdrcTimeout rdrc' = rc_rdrcTimeout rdrc"
  using assms by (auto simp: rejected_before_def CacheFile_LoadRDRC_def split: option.splits if_splits)

lemma exchange_uncached_rejected:
  assumes "exchange_uncached dd ctx tr message q options (Some checker) False st = (Inl ErrResponseRejected, st')"
    and "cl_rdrc (run_client st) = Some rdrc" "dd_exchange dd tr message (run_now st) = (Inr m, now1)"
  shows "ctx \<noteq> Some (tr_Tag tr)"
    and "\<exists>rdrc'. rc_rdrcTimeout rdrc' = rc_rdrcTimeout rdrc \<and>
      handle_response dd tr message q options (Some checker) False m
        (st\<lparr>run_client := (run_client st)\<lparr>cl_rdrc := Some rdrc'\<rparr>, run_now := now1\<rparr>) = (Inl ErrResponseRejected, st')"
proof -
  show ctx: "ctx \<noteq> Some (tr_Tag tr)" using assms by (auto simp: exchange_uncached_def ErrResponseRejected_def)
  obtain b c' where b: "rejected_before True (run_now st) tr q (run_client st) = (b, c')" by force
  have "\<not> b" using assms ctx b
    by (auto simp: exchange_uncached_def ErrResponseRejected_def ErrResponseRejectedCached_def)
  with b rejected_before_False [of True "run_now st" tr q "run_client st" c'] assms(2) obtain rdrc'
    where c': "c' = (run_client st)\<lparr>cl_rdrc := Some rdrc'\<rparr>" "rc_rdrcTimeout rdrc' = rc_rdrcTimeout rdrc" by auto
  show "\<exists>rdrc'. rc_rdrcTimeout rdrc' = rc_rdrcTimeout rdrc \<and>
      handle_response dd tr message q options (Some checker) False m
        (st\<lparr>run_client := (run_client st)\<lparr>cl_rdrc := Some rdrc'\<rparr>, run_now := now1\<rparr>) = (Inl ErrResponseRejected, st')"
    using assms(1,3) ctx b \<open>\<not> b\<close> c' by (auto simp: exchange_uncached_def transport_response_def)
qed

text \<open>A response that was rejected is not asked for again: where rejected responses are stored, a
  simple request that the check has rejected once is rejected from the store, whatever
  the check says then, until the timeout of the store has passed (in whole seconds). The law assumed of
  the cache is that it may drop entries but does not make them up.\<close>

theorem rejected_response_remembered:
  assumes law: "\<forall>now m. dd_drop dd now m \<subseteq>\<^sub>m m"
    and first: "Client_Exchange dd ctx (Some tr) message options (Some checker) st = (Inl err, st')"
    and q: "msg_Question message = q # qs" "\<not> strategy_rejects (q_Qtype q) (qo_Strategy options)"
    and simple: "is_simple_request (with_client_subnet (run_client st) options message) options"
      "\<not> cl_disableCache (run_client st)" "\<not> qo_DisableCache options"
    and store: "cl_rdrc (run_client st) = Some rdrc" "dd_saveError dd = None" "err = ErrResponseRejected"
    and answer: "\<forall>msg now. \<exists>m now'. dd_exchange dd tr msg now = (Inr m, now') \<and>
      (msg_Rcode m = RcodeSuccess \<or> msg_Rcode m = RcodeNameError)"
    and later: "now' \<le> (run_now st' + rc_rdrcTimeout rdrc) div second * second"
    and uncached: "transportCacheKey (run_client st) q (Some tr) = Inr key" "cl_cache (run_client st) key = None"
  shows "fst (Client_Exchange dd ctx (Some tr) message options (Some checker') (st'\<lparr>run_now := now'\<rparr>)) =
    Inl ErrResponseRejectedCached"
proof -
  let ?c = "run_client st" and ?msg = "with_client_subnet (run_client st) options message"
  let ?m0 = "dd_drop dd (run_now st) (cl_cache ?c)"
  note load = loadResponse_absent [OF uncached law [rule_format]]
  have first': "exchange_uncached dd ctx tr ?msg q options (Some checker) False
      (st\<lparr>run_client := ?c\<lparr>cl_cache := ?m0\<rparr>\<rparr>) = (Inl ErrResponseRejected, st')"
    using first Client_Exchange_cached_path [OF q simple load(1)] store(3) by simp
  from answer obtain m now1 where m: "dd_exchange dd tr ?msg (run_now st) = (Inr m, now1)"
    "msg_Rcode m = RcodeSuccess \<or> msg_Rcode m = RcodeNameError" by blast
  from exchange_uncached_rejected [OF first', of rdrc m now1] m(1) store(1) obtain rdrc'
    where x: "ctx \<noteq> Some (tr_Tag tr)" "rc_rdrcTimeout rdrc' = rc_rdrcTimeout rdrc"
      "handle_response dd tr ?msg q options (Some checker) False m
        (st\<lparr>run_client := ?c\<lparr>cl_cache := ?m0, cl_rdrc := Some rdrc'\<rparr>, run_now := now1\<rparr>) = (Inl ErrResponseRejected, st')"
    by auto
  let ?c' = "?c\<lparr>cl_cache := ?m0, cl_rdrc :=
    Some (CacheFile_SaveRDRC now1 (tr_Tag tr) (q_Name q) (q_Qtype q) rdrc')\<rparr>"
  have c': "run_client st' = ?c'" "run_now st' = now1"
    using handle_response_saves [OF x(3) m(2) store(2), of rdrc'] by simp_all
  have key: "transportCacheKey ?c' q (Some tr) = Inr key" "cl_cache ?c' key = None"
    using uncached(1) load(2) by (simp_all add: transportCacheKey_def)
  have subnet: "with_client_subnet ?c' options message = ?msg" by (simp add: with_client_subnet_def)
  have "Client_Exchange dd ctx (Some tr) message options (Some checker') (st'\<lparr>run_now := now'\<rparr>) =
    exchange_uncached dd ctx tr (with_client_subnet (run_client (st'\<lparr>run_now := now'\<rparr>)) options message) q options
      (Some checker') False
      (st'\<lparr>run_now := now', run_client := ?c'\<lparr>cl_cache := dd_drop dd now' (cl_cache ?c')\<rparr>\<rparr>)"
    by (rule Client_Exchange_cached_path [OF q])
       (use simple loadResponse_absent(1) [OF key law [rule_format]] in \<open>simp_all add: c' subnet\<close>)
  then show ?thesis using x(1,2) later c'(2)
    by (simp add: exchange_uncached_def rejected_before_def CacheFile_LoadRDRC_def CacheFile_SaveRDRC_def)
qed

section \<open>Examples\<close>

text \<open>Transports that answer every question for an IPv4 address with an address inside (\<^verbatim>\<open>lan\<close>) or outside
  (\<^verbatim>\<open>wan\<close>) of \<^verbatim>\<open>10.0.0.0/8\<close>, and every question for an IPv6 address with \<^verbatim>\<open>::1\<close>.\<close>

definition sample_transport :: "string \<Rightarrow> DNSTransport" where
  "sample_transport tag = \<lparr>tr_Tag = tag, tr_Type = ''udp'', tr_Legacy = None\<rparr>"

definition sample_address :: "string \<Rightarrow> Question \<Rightarrow> Addr" where
  "sample_address tag q =
     (if q_Qtype q = TypeAAAA then Addr6 1 [] else if tag = ''lan'' then Addr4 0x0A000001 else Addr4 0x08080808)"

definition sample_dns :: dns_deps where
  "sample_dns =
     \<lparr>dd_exchange = (\<lambda>tr message now.
        (Inr (FixedResponse (msg_Id message) (msg_Question message ! 0)
                [sample_address (tr_Tag tr) (msg_Question message ! 0)] 60), now)),
      dd_groupError = (\<lambda>errs. if errs = [] then None else Some (EErrors (map snd errs))),
      dd_drop = (\<lambda>now m. m), dd_reverse_drop = (\<lambda>now m. m), dd_saveError = None,
      dns_IsFqdn = (\<lambda>s. s \<noteq> [] \<and> List.last s = CHR ''.''),
      dns_Fqdn = (\<lambda>s. if s \<noteq> [] \<and> List.last s = CHR ''.'' then s else s @ ''.''),
      dns_IsEdns0 = (\<lambda>m. None), OPT_Version = (\<lambda>r. 0), OPT_UDPSize = (\<lambda>r. 512), OPT_Do = (\<lambda>r. False),
      Msg_SetEdns0 = (\<lambda>size edns m. m), M_AddrFromIP = (\<lambda>a. a), M_ParseAddr = (\<lambda>s. AddrZero)\<rparr>"

definition sample_client :: Client where
  "sample_client = NewClient \<lparr>co_DisableCache = True, co_DisableExpire = False, co_IndependentCache = False,
     co_ClientSubnet = Prefix_zero\<rparr>"

definition sample_dns_rules :: "RawDefaultDNSRule \<Rightarrow> DNSRuleActionOptions \<Rightarrow> string list DNSRule" where
  "sample_dns_rules opts act =
     (case NewDefaultDNSRule sample_deps opts act of
        Inl err \<Rightarrow> DefaultDNSRule (empty_rule False None) | Inr r \<Rightarrow> DefaultDNSRule r)"

definition lan_only :: "string \<Rightarrow> string list DNSRule" where
  "lan_only server = sample_dns_rules (RawDefaultDNSRule_zero\<lparr>dd_IPCIDR := [''10.0.0.0/8'']\<rparr>)
     (DNSRuleActionOptions_zero\<lparr>dua_Action := ''route'',
        dua_RouteOptions := (dua_RouteOptions DNSRuleActionOptions_zero)\<lparr>dra_Server := server\<rparr>\<rparr>)"

definition sample_dns_router :: "string list DNSRule list \<Rightarrow> string list DnsRouter" where
  "sample_dns_router rules =
     \<lparr>nr_Transport = (\<lambda>tag. Some (sample_transport tag)), nr_Default = Some (sample_transport ''default''),
      nr_rules = rules, nr_defaultDomainStrategy = DomainStrategyIPv4Only, nr_dnsReverseMapping = None\<rparr>"

text \<open>The error of a rejected response outlives it: when a rule with address conditions rejects the
  response and the next rule has a predefined answer, \<^verbatim>\<open>Lookup\<close> returns the predefined addresses
  together with the error of the rejection, which every caller treats as a failure.\<close>

theorem Lookup_predefined_keeps_error:
  "(case DnsRouter_Lookup sample_deps sample_env (\<lambda>tag. None) sample_dns True None None ''a'' DNSQueryOptions_zero 0
      sample_client (sample_dns_router
        [lan_only ''wan'',
         sample_dns_rules RawDefaultDNSRule_zero (DNSRuleActionOptions_zero\<lparr>dua_Action := ''predefined'',
           dua_PredefinedOptions := \<lparr>pdo_Rcode = None,
             pdo_Answer = fixed_answers (inet_question ''a.'' TypeA) 60 [Addr4 0x0A000002],
             pdo_Ns = [], pdo_Extra = []\<rparr>\<rparr>)]) of
      ((addrs, err), _) \<Rightarrow> addrs = [Addr4 0x0A000002] \<and> err \<noteq> None)"
  by code_simp

text \<open>The check of the second response of a \<^verbatim>\<open>Lookup\<close> is void: the rule cache is not reset between the
  checks, so once the IPv4 addresses are accepted, the IPv6 addresses are accepted too,
  here one outside of the prefix that the rule demands.\<close>

theorem Lookup_second_response_unchecked:
  "(case DnsRouter_Lookup sample_deps sample_env (\<lambda>tag. None) sample_dns True None None ''a''
      (DNSQueryOptions_zero\<lparr>qo_Strategy := DomainStrategyPreferIPv4\<rparr>) 0
      sample_client (sample_dns_router [lan_only ''lan'']) of
      ((addrs, err), _) \<Rightarrow> addrs = [Addr4 0x0A000001, Addr6 1 []] \<and> err = None) \<and>
   \<not> fst (DNSRule_MatchAddressLimit sample_deps sample_env (\<lambda>tag. None) (lan_only ''lan'')
       (InboundContext_zero\<lparr>md_Domain := ''a'', md_DestinationAddresses := [Addr6 1 []]\<rparr>))"
  by code_simp

text \<open>A DNS rule that rejects with the method \<^verbatim>\<open>reply\<close>, which the decoder accepts, makes \<^verbatim>\<open>Exchange\<close> go on
  without a transport and dereference nil.\<close>

theorem Exchange_reject_reply_panics:
  "fst (DnsRouter_Exchange sample_deps sample_env (\<lambda>tag. None) sample_dns None None
      (Msg_zero\<lparr>msg_Question := [inet_question ''a.'' TypeA]\<rparr>) DNSQueryOptions_zero 0 sample_client
      (sample_dns_router [sample_dns_rules RawDefaultDNSRule_zero
        (DNSRuleActionOptions_zero\<lparr>dua_Action := ''reject'',
           dua_RejectOptions := \<lparr>rjo_Method = ''reply'', rjo_NoDrop = False\<rparr>\<rparr>)])) = Inl nil_dereference \<and>
   RejectActionOptions_Unmarshal \<lparr>rjo_Method = ''reply'', rjo_NoDrop = False\<rparr> =
     Inr \<lparr>rjo_Method = ''reply'', rjo_NoDrop = False\<rparr>"
  by code_simp

section \<open>The theorems at work\<close>

theorem matchDNS_first_match_witness:
  "let r = sample_dns_router [lan_only ''wan'', lan_only ''lan'']
   in (case fst (matchDNS sample_deps sample_env (\<lambda>tag. None) r False 1 True DNSQueryOptions_zero InboundContext_zero) of
         (transport, sel) \<Rightarrow> transport = Some (sample_transport ''lan'') \<and> map_option fst sel = Some 1)"
proof -
  let ?r = "sample_dns_router [lan_only ''wan'', lan_only ''lan'']"
  have "\<not> md_IgnoreDestinationIPCIDRMatch InboundContext_zero" by (simp add: InboundContext_zero_def)
  note first = matchDNS_first_match [OF this refl refl refl, where d = sample_deps and e = sample_env and sets = "\<lambda>tag. None" and r = ?r and allowFakeIP = False and
    start = 1 and isAddr = True and options = DNSQueryOptions_zero, THEN conjunct1]
  have "find (\<lambda>i. dns_applies sample_deps sample_env (\<lambda>tag. None) ?r False True InboundContext_zero (nr_rules ?r ! i))
      [1..<length (nr_rules ?r)] = Some 1" by code_simp
  moreover have "dns_transport ?r (nr_rules ?r ! 1) = Some (sample_transport ''lan'')" by code_simp
  ultimately show ?thesis unfolding Let_def first by simp
qed

definition sample_run :: dns_run where
  "sample_run = \<lparr>run_client = sample_client, run_md = InboundContext_zero, run_now = 0\<rparr>"

definition sample_query :: Msg where
  "sample_query = Msg_zero\<lparr>msg_Question := [inet_question ''a.'' TypeA]\<rparr>"

theorem exchange_response_accepted_witness:
  "let r = sample_dns_router [lan_only ''wan'', lan_only ''lan'']
   in \<exists>response st' start' st1 rule. exchange_loop sample_deps sample_env (\<lambda>tag. None) r sample_dns None sample_query
        DNSQueryOptions_zero 0 sample_run = Broke (Some (sample_transport ''lan'')) (Inr response) st' \<and>
      (exchange_round sample_deps sample_env (\<lambda>tag. None) r sample_dns None sample_query DNSQueryOptions_zero)\<^sup>*\<^sup>* (0, sample_run) (start', st1) \<and>
      fst (matchDNS sample_deps sample_env (\<lambda>tag. None) r True start' (isAddressQuery sample_query) DNSQueryOptions_zero (run_md st1)) =
        (Some (sample_transport ''lan''), rule)"
proof -
  let ?r = "sample_dns_router [lan_only ''wan'', lan_only ''lan'']"
  let ?run = "exchange_loop sample_deps sample_env (\<lambda>tag. None) ?r sample_dns None sample_query
        DNSQueryOptions_zero 0 sample_run"
  have "case ?run of Broke transport (Inr response) st' \<Rightarrow> transport = Some (sample_transport ''lan'') | _ \<Rightarrow> False"
    by code_simp
  then obtain response st' where run: "?run = Broke (Some (sample_transport ''lan'')) (Inr response) st'"
    by (auto split: dns_step.splits sum.splits simp del: exchange_loop.simps)
  have c: "cl_disableCache (run_client sample_run)" "msg_Question sample_query = inet_question ''a.'' TypeA # []" by code_simp+
  from exchange_response_accepted [OF run c] run show ?thesis unfolding Let_def by (metis fst_conv)
qed

theorem cached_ttl_is_remaining_lifetime_witness:
  "fst (Client_loadResponse sample_dns (10 * second) (inet_question ''a.'' TypeA) None
      (Client_storeCache 0 None (inet_question ''a.'' TypeA) (set_ttls 60 sample_query) 60
        (sample_client\<lparr>cl_disableCache := False\<rparr>))) = Inr (Some (set_ttls 50 sample_query, 50))"
  using cached_ttl_is_remaining_lifetime [of "sample_client\<lparr>cl_disableCache := False\<rparr>" 60 "inet_question ''a.'' TypeA" None
      "(inet_question ''a.'' TypeA, None)" _ 0 sample_query sample_dns "10 * second", OF _ _ _ refl]
  by (simp add: sample_client_def NewClient_def transportCacheKey_def sample_dns_def second_def Let_def)

theorem FixedResponse_addresses_witness:
  "MessageToAddresses sample_dns (FixedResponse 7 (inet_question ''a.'' TypeA) [Addr4 1, Addr6 1 [], Addr4 2] 60) =
     [Addr4 1, Addr4 2]"
  using FixedResponse_addresses [of "[Addr4 1, Addr6 1 [], Addr4 2]" sample_dns 7 "inet_question ''a.'' TypeA" 60]
  by (simp add: sample_dns_def inet_question_def TypeA_def TypeAAAA_def)

definition remembering_client :: Client where
  "remembering_client = sample_client\<lparr>cl_disableCache := False,
     cl_rdrc := Some \<lparr>rc_rdrcTimeout = 100 * second, rc_saved = (\<lambda>k. None)\<rparr>\<rparr>"

theorem rejected_response_remembered_witness:
  "let st = \<lparr>run_client = remembering_client, run_md = InboundContext_zero, run_now = 0\<rparr>;
       tr = Some (sample_transport ''wan'')
   in case Client_Exchange sample_dns None tr sample_query DNSQueryOptions_zero (Some (\<lambda>addrs md. (False, md))) st of
        (first, st') \<Rightarrow> first = Inl ErrResponseRejected \<and>
          fst (Client_Exchange sample_dns None tr sample_query DNSQueryOptions_zero (Some (\<lambda>addrs md. (True, md)))
            (st'\<lparr>run_now := 50 * second\<rparr>)) = Inl ErrResponseRejectedCached"
proof -
  let ?st = "\<lparr>run_client = remembering_client, run_md = InboundContext_zero, run_now = 0\<rparr>"
  let ?tr = "sample_transport ''wan''" and ?q = "inet_question ''a.'' TypeA"
  let ?rdrc = "\<lparr>rc_rdrcTimeout = 100 * second, rc_saved = (\<lambda>k. None)\<rparr>"
  let ?run = "Client_Exchange sample_dns None (Some ?tr) sample_query DNSQueryOptions_zero (Some (\<lambda>addrs md. (False, md))) ?st"
  have "fst ?run = Inl ErrResponseRejected" "run_now (snd ?run) = 0" by code_simp+
  then obtain st' where run: "?run = (Inl ErrResponseRejected, st')" "run_now st' = 0" by (metis prod.collapse)
  have "fst (Client_Exchange sample_dns None (Some ?tr) sample_query DNSQueryOptions_zero (Some (\<lambda>addrs md. (True, md)))
      (st'\<lparr>run_now := 50 * second\<rparr>)) = Inl ErrResponseRejectedCached"
  proof (rule rejected_response_remembered [OF _ run(1), of ?q "[]" ?rdrc _ "(?q, None)"])
    show "\<forall>now m. dd_drop sample_dns now m \<subseteq>\<^sub>m m" by (simp add: sample_dns_def)
    show "is_simple_request (with_client_subnet (run_client ?st) DNSQueryOptions_zero sample_query) DNSQueryOptions_zero"
      by code_simp
    show "\<forall>msg now. \<exists>m now'. dd_exchange sample_dns ?tr msg now = (Inr m, now') \<and>
        (msg_Rcode m = RcodeSuccess \<or> msg_Rcode m = RcodeNameError)"
      by (simp add: sample_dns_def FixedResponse_def fixed_header_def)
    show "50 * second \<le> (run_now st' + rc_rdrcTimeout ?rdrc) div second * second" by (simp add: run(2) second_def)
    show "cl_cache (run_client ?st) (?q, None) = None"
      by (simp add: remembering_client_def sample_client_def NewClient_def)
    show "transportCacheKey (run_client ?st) ?q (Some ?tr) = Inr (?q, None)" by code_simp
    show "cl_rdrc (run_client ?st) = Some ?rdrc" by (simp add: remembering_client_def)
    show "\<not> strategy_rejects (q_Qtype ?q) (qo_Strategy DNSQueryOptions_zero)" by code_simp
  qed (simp_all add: sample_query_def remembering_client_def DNSQueryOptions_zero_def sample_dns_def)
  with run show ?thesis by (simp add: Let_def)
qed

end
