(* ===== verification/Managers.thy ===== *)
theory Managers
  imports DnsMessages
begin

text \<open>
  The managers of inbounds, endpoints, services, outbounds and DNS transports (\<^verbatim>\<open>adapter/*/manager.go\<close>,
  \<^verbatim>\<open>dns/transport_manager.go\<close>) and the start stages (\<^verbatim>\<open>adapter/lifecycle*.go\<close>). What they manage is a
  \<open>node\<close>: an object with an identity, which Go compares with \<^verbatim>\<open>==\<close>, a tag, a type, the tags it
  depends on, and the results of its start and close methods. The first three managers share
  their code up to names; they are instances of the operations on a \<open>registry\<close>. The start of
  outbounds and of DNS transports in the order of their dependencies is one loop, with
  the words of the messages as its arguments. The registry that creates the objects is outside;
  \<open>created\<close> is its result. The locks make the operations atomic.
\<close>

section \<open>Start stages\<close>

datatype StartStage = StartStateInitialize | StartStateStart | StartStatePostStart | StartStateStarted

fun stage_number :: "StartStage \<Rightarrow> nat" where
  "stage_number StartStateInitialize = 0"
| "stage_number StartStateStart = 1"
| "stage_number StartStatePostStart = 2"
| "stage_number StartStateStarted = 3"

lemma stage_number_inject: "stage_number a = stage_number b \<longleftrightarrow> a = b"
  by (cases a; cases b) auto

instantiation StartStage :: linorder
begin

definition less_eq_StartStage :: "StartStage \<Rightarrow> StartStage \<Rightarrow> bool" where
  "less_eq_StartStage a b \<longleftrightarrow> stage_number a \<le> stage_number b"

definition less_StartStage :: "StartStage \<Rightarrow> StartStage \<Rightarrow> bool" where
  "less_StartStage a b \<longleftrightarrow> stage_number a < stage_number b"

instance
  by intro_classes (auto simp: less_eq_StartStage_def less_StartStage_def stage_number_inject)

end

definition ListStartStages :: "StartStage list" where
  "ListStartStages = [StartStateInitialize, StartStateStart, StartStatePostStart, StartStateStarted]"

fun StartStage_String :: "StartStage \<Rightarrow> string" where
  "StartStage_String StartStateInitialize = ''initialize''"
| "StartStage_String StartStateStart = ''start''"
| "StartStage_String StartStatePostStart = ''post-start''"
| "StartStage_String StartStateStarted = ''finish-start''"

text \<open>An object that implements \<^verbatim>\<open>Lifecycle\<close>, or has some of the methods \<^verbatim>\<open>PreStart\<close>, \<^verbatim>\<open>Start\<close> and
  \<^verbatim>\<open>PostStart\<close>, with their results; those of a \<^verbatim>\<open>Lifecycle\<close> are the stages at which its \<^verbatim>\<open>Start\<close> fails.\<close>

datatype starter =
    Lifecycle "(StartStage \<times> goerr) list"
  | LegacyStarter "goerr option option" "goerr option option" "goerr option option"

definition call_method :: "goerr option option \<Rightarrow> goerr option" where
  "call_method f = (case f of Some err \<Rightarrow> err | None \<Rightarrow> None)"

fun LegacyStart :: "starter \<Rightarrow> StartStage \<Rightarrow> goerr option" where
  "LegacyStart (Lifecycle errors) stage = map_of errors stage"
| "LegacyStart (LegacyStarter preStart start postStart) stage =
     (case stage of
        StartStateInitialize \<Rightarrow> call_method preStart
      | StartStateStart \<Rightarrow> call_method start
      | StartStateStarted \<Rightarrow> call_method postStart
      | StartStatePostStart \<Rightarrow> None)"

section \<open>The registry of inbounds, endpoints and services\<close>

record node =
  nd_id :: nat
  nd_Tag :: string
  nd_Type :: string
  nd_Dependencies :: "string list"
  nd_starter :: starter
  nd_close :: "goerr option"

record registry =
  rg_started :: bool
  rg_stage :: StartStage
  rg_items :: "node list"
  rg_byTag :: "(string \<times> node) list"

definition os_ErrInvalid :: goerr where "os_ErrInvalid = EExternal ''invalid argument''"

definition NewManager :: registry where
  "NewManager = \<lparr>rg_started = False, rg_stage = StartStateInitialize, rg_items = [], rg_byTag = []\<rparr>"

definition node_text :: "string \<Rightarrow> string \<Rightarrow> node \<Rightarrow> arg list" where
  "node_text word kind n = [ArgS word, ArgS ('' '' @ kind @ ''/''), ArgS (nd_Type n), ArgS ''['', ArgS (nd_Tag n), ArgS '']'']"

text \<open>\<^verbatim>\<open>append(items[:index], items[index+1:]...)\<close> at the index of the object; \<open>None\<close> if it is not there.\<close>

fun remove_node :: "node \<Rightarrow> node list \<Rightarrow> node list option" where
  "remove_node n [] = None"
| "remove_node n (x # xs) = (if nd_id x = nd_id n then Some xs else map_option ((#) x) (remove_node n xs))"

definition invalid_index :: goerr where
  "invalid_index = GoPanic [ArgS ''invalid inbound index'']"

text \<open>The loop that starts objects at a stage returns at the first error; the second component is what
  was started without one.\<close>

fun start_each :: "string \<Rightarrow> StartStage \<Rightarrow> node list \<Rightarrow> goerr option \<times> node list" where
  "start_each kind stage [] = (None, [])"
| "start_each kind stage (n # ns) =
     (case LegacyStart (nd_starter n) stage of
        Some err \<Rightarrow> (Some (ECause err (node_text (StartStage_String stage) kind n)), [])
      | None \<Rightarrow> (case start_each kind stage ns of (err, started) \<Rightarrow> (err, n # started)))"

definition already_started :: "StartStage \<Rightarrow> 'a registry_scheme \<Rightarrow> bool" where
  "already_started stage m \<longleftrightarrow> rg_started m \<and> rg_stage m \<ge> stage"

definition registry_Start ::
  "string \<Rightarrow> StartStage \<Rightarrow> 'a registry_scheme \<Rightarrow> goerr option \<times> 'a registry_scheme \<times> node list" where
  "registry_Start kind stage m =
     (if already_started stage m then (Some (GoPanic [ArgS ''already started'']), m, [])
      else case start_each kind stage (rg_items m) of
        (err, started) \<Rightarrow> (err, m\<lparr>rg_started := True, rg_stage := stage\<rparr>, started))"

text \<open>Endpoints are started at the stage \<^verbatim>\<open>start\<close> by the outbound manager.\<close>

definition endpoint_Start ::
  "StartStage \<Rightarrow> 'a registry_scheme \<Rightarrow> goerr option \<times> 'a registry_scheme \<times> node list" where
  "endpoint_Start stage m =
     (if already_started stage m then (Some (GoPanic [ArgS ''already started'']), m, [])
      else if stage = StartStateStart then (None, m\<lparr>rg_started := True, rg_stage := stage\<rparr>, [])
      else case start_each ''endpoint'' stage (rg_items m) of
        (err, started) \<Rightarrow> (err, m\<lparr>rg_started := True, rg_stage := stage\<rparr>, started))"

text \<open>\<^verbatim>\<open>Close\<close> closes all items and returns nil whatever their errors; the map by tags is kept.\<close>

definition registry_Close :: "'a registry_scheme \<Rightarrow> goerr option \<times> 'a registry_scheme \<times> node list" where
  "registry_Close m =
     (if \<not> rg_started m then (None, m, [])
      else (None, m\<lparr>rg_started := False, rg_items := []\<rparr>, rg_items m))"

definition registry_Get :: "string \<Rightarrow> 'a registry_scheme \<Rightarrow> node option" where
  "registry_Get tag m = map_of (rg_byTag m) tag"

definition inbound_Get :: "registry \<Rightarrow> string \<Rightarrow> registry \<Rightarrow> node option" where
  "inbound_Get endpoints tag m =
     (case registry_Get tag m of Some n \<Rightarrow> Some n | None \<Rightarrow> registry_Get tag endpoints)"

definition registry_Remove :: "string \<Rightarrow> 'a registry_scheme \<Rightarrow> goerr option \<times> 'a registry_scheme" where
  "registry_Remove tag m =
     (case map_of (rg_byTag m) tag of
        None \<Rightarrow> (Some os_ErrInvalid, m)
      | Some n \<Rightarrow>
          let m = m\<lparr>rg_byTag := AList.delete tag (rg_byTag m)\<rparr>
          in case remove_node n (rg_items m) of
               None \<Rightarrow> (Some invalid_index, m)
             | Some items \<Rightarrow> (if rg_started m then nd_close n else None, m\<lparr>rg_items := items\<rparr>))"

text \<open>The part of \<^verbatim>\<open>Create\<close> that all managers share: a new object is started when the manager is, an
  object with the same tag is closed and taken out, and the new one is put at the end.\<close>

fun start_stages :: "string \<Rightarrow> node \<Rightarrow> StartStage list \<Rightarrow> goerr option" where
  "start_stages kind n [] = None"
| "start_stages kind n (stage # stages) =
     (case LegacyStart (nd_starter n) stage of
        Some err \<Rightarrow> Some (ECause err (node_text (StartStage_String stage) kind n))
      | None \<Rightarrow> start_stages kind n stages)"

definition replace_existing :: "string \<Rightarrow> string \<Rightarrow> 'a registry_scheme \<Rightarrow> 'a registry_scheme res" where
  "replace_existing kind tag m =
     (case map_of (rg_byTag m) tag of
        None \<Rightarrow> Inr m
      | Some old \<Rightarrow>
          (case if rg_started m then nd_close old else None of
             Some err \<Rightarrow> Inl (ECause err (node_text ''close'' kind old))
           | None \<Rightarrow>
               (case remove_node old (rg_items m) of
                  None \<Rightarrow> Inl invalid_index
                | Some items \<Rightarrow> Inr (m\<lparr>rg_items := items\<rparr>))))"

definition put_node :: "string \<Rightarrow> node \<Rightarrow> 'a registry_scheme \<Rightarrow> 'a registry_scheme" where
  "put_node tag n m = m\<lparr>rg_items := rg_items m @ [n], rg_byTag := AList.update tag n (rg_byTag m)\<rparr>"

definition registry_Create ::
  "string \<Rightarrow> string \<Rightarrow> node res \<Rightarrow> 'a registry_scheme \<Rightarrow> goerr option \<times> 'a registry_scheme" where
  "registry_Create kind tag created m =
     (case created of
        Inl err \<Rightarrow> (Some err, m)
      | Inr n \<Rightarrow>
          (case if rg_started m then start_stages kind n ListStartStages else None of
             Some err \<Rightarrow> (Some err, m)
           | None \<Rightarrow>
               (case replace_existing kind tag m of
                  Inl err \<Rightarrow> (Some err, m)
                | Inr m \<Rightarrow> (None, put_node tag n m))))"

section \<open>Starting in the order of the dependencies\<close>

text \<open>The map \<^verbatim>\<open>started\<close> is the list of its keys, in the order in which they were put there. A node whose
  start fails is in it too.\<close>

fun start_pass :: "string \<Rightarrow> node list \<Rightarrow> string list \<Rightarrow> goerr option \<times> string list" where
  "start_pass kind [] started = (None, started)"
| "start_pass kind (n # ns) started =
     (if nd_Tag n \<in> set started \<or> \<not> set (nd_Dependencies n) \<subseteq> set started then start_pass kind ns started
      else case LegacyStart (nd_starter n) StartStateStart of
        Some err \<Rightarrow> (Some (ECause err (node_text ''start'' kind n)), started @ [nd_Tag n])
      | None \<Rightarrow> start_pass kind ns (started @ [nd_Tag n]))"

definition unstarted_dependency :: "string list \<Rightarrow> node \<Rightarrow> string" where
  "unstarted_dependency started n =
     (case find (\<lambda>it. it \<notin> set started) (nd_Dependencies n) of Some tag \<Rightarrow> tag | None \<Rightarrow> [])"

function lint :: "string \<Rightarrow> (string \<times> node) list \<Rightarrow> string list \<Rightarrow> string list \<Rightarrow> node \<Rightarrow> goerr" where
  "lint word byTag started oTree oCurrent =
     (let problemTag = unstarted_dependency started oCurrent
      in if problemTag \<in> set oTree
         then ENew [ArgS (''circular '' @ word @ '' dependency: ''), ArgS (strings_Join oTree '' -> ''),
                    ArgS '' -> '', ArgS problemTag]
         else case map_of byTag problemTag of
           None \<Rightarrow> ENew [ArgS ''dependency['', ArgS problemTag, ArgS (''] not found for '' @ word @ ''[''),
                         ArgS (nd_Tag oCurrent), ArgS '']'']
         | Some problem \<Rightarrow> lint word byTag started (oTree @ [problemTag]) problem)"
  by pat_completeness auto
termination
proof (relation "measure (\<lambda>(word, byTag, started, oTree, oCurrent). card (fst ` set byTag - set oTree))", goal_cases)
  case (2 word byTag started oTree oCurrent problemTag problem)
  then have "problemTag \<in> fst ` set byTag - set oTree" by (metis DiffI domI dom_map_of_conv_image_fst)
  then have "fst ` set byTag - set (oTree @ [problemTag]) \<subset> fst ` set byTag - set oTree" by auto
  then show ?case by (simp add: psubset_card_mono del: set_append)
qed simp

lemma start_pass_started:
  "start_pass kind ns started = (err, started') \<Longrightarrow>
   \<exists>new. started' = started @ new \<and> distinct new \<and> set new \<subseteq> nd_Tag ` set ns - set started"
proof (induction kind ns started arbitrary: err started' rule: start_pass.induct)
  case (2 kind n ns started)
  show ?case
  proof (cases "nd_Tag n \<in> set started \<or> \<not> set (nd_Dependencies n) \<subseteq> set started")
    case True
    with 2 show ?thesis by auto
  next
    case False
    with 2 show ?thesis by (force split: option.splits)
  qed
qed simp

function start_loop ::
  "string \<Rightarrow> string \<Rightarrow> (string \<times> node) list \<Rightarrow> node list \<Rightarrow> string list \<Rightarrow> goerr option \<times> string list" where
  "start_loop kind word byTag nodes started =
     (case start_pass kind nodes started of
        (Some err, started') \<Rightarrow> (Some err, started')
      | (None, started') \<Rightarrow>
          if length started' = length nodes then (None, started')
          else if length started < length started' then start_loop kind word byTag nodes started'
          else case find (\<lambda>it. nd_Tag it \<notin> set started') nodes of
            None \<Rightarrow> (Some nil_dereference, started')
          | Some current \<Rightarrow> (Some (lint word byTag started' [nd_Tag current] current), started'))"
  by pat_completeness auto
termination
proof (relation "measure (\<lambda>(kind, word, byTag, nodes, started). card (nd_Tag ` set nodes - set started))", goal_cases)
  case (2 kind word byTag nodes started err started')
  then have "start_pass kind nodes started = (err, started')" by simp
  from start_pass_started [OF this] 2 obtain new
    where "started' = started @ new" "new \<noteq> []" "set new \<subseteq> nd_Tag ` set nodes - set started" by auto
  then have "nd_Tag ` set nodes - set started' \<subset> nd_Tag ` set nodes - set started"
    by (cases new) auto
  then show ?case by (auto intro!: psubset_card_mono)
qed simp

section \<open>Outbounds\<close>

record outbound_manager = registry +
  om_defaultTag :: string
  om_dependByTag :: "string \<Rightarrow> string list"
  om_default :: "node option"

definition startOutbounds :: "(string \<times> node) list \<Rightarrow> node list \<Rightarrow> goerr option \<times> string list" where
  "startOutbounds byTag outbounds = start_loop ''outbound'' ''outbound'' byTag outbounds []"

definition outbound_Start ::
  "registry \<Rightarrow> node res \<Rightarrow> StartStage \<Rightarrow> outbound_manager \<Rightarrow> goerr option \<times> outbound_manager" where
  "outbound_Start endpoints fallback stage m =
     (if already_started stage m then (Some (GoPanic [ArgS ''already started'']), m)
      else
        let m = m\<lparr>rg_started := True, rg_stage := stage\<rparr>
        in if stage \<noteq> StartStateStart then (fst (start_each ''outbound'' stage (rg_items m)), m)
           else
             case (if om_defaultTag m \<noteq> [] \<and> om_default m = None then
                     (case registry_Get (om_defaultTag m) endpoints of
                        None \<Rightarrow> Inl (ENew [ArgS ''default outbound not found: '', ArgS (om_defaultTag m)])
                      | Some defaultEndpoint \<Rightarrow> Inr (m\<lparr>om_default := Some defaultEndpoint\<rparr>))
                   else Inr m) of
               Inl err \<Rightarrow> (Some err, m)
             | Inr m \<Rightarrow>
                 (case (if om_default m = None then
                          (case fallback of
                             Inl err \<Rightarrow> Inl (ECause err [ArgS ''create direct outbound for fallback''])
                           | Inr direct \<Rightarrow> Inr ((put_node (nd_Tag direct) direct m)\<lparr>om_default := Some direct\<rparr>))
                        else Inr m) of
                    Inl err \<Rightarrow> (Some err, m)
                  | Inr m \<Rightarrow> (fst (startOutbounds (rg_byTag m) (rg_items m @ rg_items endpoints)), m)))"

definition outbound_Outbound :: "registry \<Rightarrow> string \<Rightarrow> outbound_manager \<Rightarrow> node option" where
  "outbound_Outbound endpoints tag m =
     (case map_of (rg_byTag m) tag of Some n \<Rightarrow> Some n | None \<Rightarrow> registry_Get tag endpoints)"

text \<open>What \<^verbatim>\<open>Remove\<close> does to the lists of dependents.\<close>

fun remove_dependent :: "string \<Rightarrow> string list \<Rightarrow> (string \<Rightarrow> string list) \<Rightarrow> string \<Rightarrow> string list" where
  "remove_dependent tag [] dependBy = dependBy"
| "remove_dependent tag (dependency # dependencies) dependBy =
     remove_dependent tag dependencies
       (dependBy(dependency := if length (dependBy dependency) = 1 then []
                               else filter (\<lambda>it. it \<noteq> tag) (dependBy dependency)))"

fun add_dependent :: "string \<Rightarrow> string list \<Rightarrow> (string \<Rightarrow> string list) \<Rightarrow> string \<Rightarrow> string list" where
  "add_dependent tag [] dependBy = dependBy"
| "add_dependent tag (dependency # dependencies) dependBy =
     add_dependent tag dependencies (dependBy(dependency := dependBy dependency @ [tag]))"

definition is_default :: "node \<Rightarrow> 'a outbound_manager_scheme \<Rightarrow> bool" where
  "is_default n m \<longleftrightarrow> map_option nd_id (om_default m) = Some (nd_id n)"

text \<open>The first half of \<^verbatim>\<open>Remove\<close>: the object leaves the map and the list.\<close>

definition take_out :: "string \<Rightarrow> 'a registry_scheme \<Rightarrow> (node \<times> 'a registry_scheme) res \<times> 'a registry_scheme" where
  "take_out tag m =
     (case map_of (rg_byTag m) tag of
        None \<Rightarrow> (Inl os_ErrInvalid, m)
      | Some n \<Rightarrow>
          let m = m\<lparr>rg_byTag := AList.delete tag (rg_byTag m)\<rparr>
          in case remove_node n (rg_items m) of
               None \<Rightarrow> (Inl invalid_index, m)
             | Some items \<Rightarrow> (Inr (n, m\<lparr>rg_items := items\<rparr>), m))"

definition depended_by :: "string \<Rightarrow> string \<Rightarrow> 'a outbound_manager_scheme \<Rightarrow> goerr option" where
  "depended_by word tag m =
     (if om_dependByTag m tag \<noteq> []
      then Some (ENew [ArgS (word @ ''[''), ArgS tag, ArgS ''] is depended by '',
                       ArgS (strings_Join (om_dependByTag m tag) '', '')])
      else None)"

definition outbound_Remove :: "string \<Rightarrow> outbound_manager \<Rightarrow> goerr option \<times> outbound_manager" where
  "outbound_Remove tag m =
     (case take_out tag m of
        (Inl err, m) \<Rightarrow> (Some err, m)
      | (Inr (n, m), _) \<Rightarrow>
          let m = (if is_default n m
                   then m\<lparr>om_default := (case rg_items m of [] \<Rightarrow> None | x # xs \<Rightarrow> Some x)\<rparr> else m)
          in case depended_by ''outbound'' tag m of
               Some err \<Rightarrow> (Some err, m)
             | None \<Rightarrow>
                 (if rg_started m then nd_close n else None,
                  m\<lparr>om_dependByTag := remove_dependent tag (nd_Dependencies n) (om_dependByTag m)\<rparr>))"

definition becomes_default :: "string \<Rightarrow> 'a outbound_manager_scheme \<Rightarrow> bool" where
  "becomes_default tag m \<longleftrightarrow> tag = om_defaultTag m \<or> om_defaultTag m = [] \<and> om_default m = None"

definition outbound_Create ::
  "string \<Rightarrow> node res \<Rightarrow> outbound_manager \<Rightarrow> goerr option \<times> outbound_manager" where
  "outbound_Create tag created m =
     (if tag = [] then (Some os_ErrInvalid, m)
      else case registry_Create ''outbound'' tag created m of
        (Some err, m) \<Rightarrow> (Some err, m)
      | (None, m) \<Rightarrow>
          (case created of
             Inl err \<Rightarrow> (Some err, m)
           | Inr n \<Rightarrow>
               let m = m\<lparr>om_dependByTag := add_dependent tag (nd_Dependencies n) (om_dependByTag m)\<rparr>
               in (None, if becomes_default tag m then m\<lparr>om_default := Some n\<rparr> else m)))"

section \<open>DNS transports\<close>

record transport_manager = outbound_manager +
  tm_fakeIPTransport :: "node option"

definition FakeIPType :: string where "FakeIPType = ''fakeip''"

definition startTransports :: "(string \<times> node) list \<Rightarrow> node list \<Rightarrow> goerr option \<times> string list" where
  "startTransports byTag transports = start_loop ''dns'' ''server'' byTag transports []"

definition transport_Start ::
  "node res \<Rightarrow> StartStage \<Rightarrow> transport_manager \<Rightarrow> goerr option \<times> transport_manager" where
  "transport_Start fallback stage m =
     (if already_started stage m then (Some (GoPanic [ArgS ''already started'']), m)
      else
        let m = m\<lparr>rg_started := True, rg_stage := stage\<rparr>
        in if stage \<noteq> StartStateStart then (fst (start_each ''dns'' stage (rg_items m)), m)
           else if om_defaultTag m \<noteq> [] \<and> om_default m = None
           then (Some (ENew [ArgS ''default DNS server not found: '', ArgS (om_defaultTag m)]), m)
           else
             case (if om_default m = None then
                     (case fallback of
                        Inl err \<Rightarrow> Inl (ECause err [ArgS ''default DNS server fallback''])
                      | Inr direct \<Rightarrow> Inr ((put_node (nd_Tag direct) direct m)\<lparr>om_default := Some direct\<rparr>))
                   else Inr m) of
               Inl err \<Rightarrow> (Some err, m)
             | Inr m \<Rightarrow> (fst (startTransports (rg_byTag m) (rg_items m)), m))"

definition fakeip_default :: goerr where
  "fakeip_default = ENew [ArgS ''default server cannot be fakeip'']"

definition transport_Remove :: "string \<Rightarrow> transport_manager \<Rightarrow> goerr option \<times> transport_manager" where
  "transport_Remove tag m =
     (case take_out tag m of
        (Inl err, m) \<Rightarrow> (Some err, m)
      | (Inr (n, m), _) \<Rightarrow>
          (case (if is_default n m then
                   (case rg_items m of
                      [] \<Rightarrow> Inr (m\<lparr>om_default := None\<rparr>)
                    | nextTransport # _ \<Rightarrow>
                        if nd_Type nextTransport \<noteq> FakeIPType then Inl fakeip_default
                        else Inr (m\<lparr>om_default := Some nextTransport\<rparr>))
                 else Inr m) of
             Inl err \<Rightarrow> (Some err, m)
           | Inr m \<Rightarrow>
               (case depended_by ''server'' tag m of
                  Some err \<Rightarrow> (Some err, m)
                | None \<Rightarrow>
                    (None, m\<lparr>om_dependByTag := remove_dependent tag (nd_Dependencies n) (om_dependByTag m)\<rparr>))))"

definition transport_Create ::
  "string \<Rightarrow> node res \<Rightarrow> transport_manager \<Rightarrow> goerr option \<times> transport_manager" where
  "transport_Create tag created m =
     (if tag = [] then (Some os_ErrInvalid, m)
      else case registry_Create ''dns'' tag created m of
        (Some err, m) \<Rightarrow> (Some err, m)
      | (None, m) \<Rightarrow>
          (case created of
             Inl err \<Rightarrow> (Some err, m)
           | Inr n \<Rightarrow>
               let m = m\<lparr>om_dependByTag := add_dependent tag (nd_Dependencies n) (om_dependByTag m)\<rparr>
               in if becomes_default tag m \<and> nd_Type n = FakeIPType then (Some fakeip_default, m)
                  else
                    let m = (if becomes_default tag m then m\<lparr>om_default := Some n\<rparr> else m)
                    in if nd_Type n \<noteq> FakeIPType then (None, m)
                       else if tm_fakeIPTransport m \<noteq> None
                       then (Some (ENew [ArgS ''multiple fakeip server are not supported'']), m)
                       else (None, m\<lparr>tm_fakeIPTransport := Some n\<rparr>)))"

section \<open>The registry as a map\<close>

text \<open>The interface of a manager for its clients: objects are found by their tags. The clients create objects,
  each with its own identity, and remove them; some of the calls may fail.\<close>

datatype manager_call = CreateCall string node | RemoveCall string

fun run_calls ::
  "(string \<Rightarrow> node res \<Rightarrow> 'm \<Rightarrow> goerr option \<times> 'm) \<Rightarrow> (string \<Rightarrow> 'm \<Rightarrow> goerr option \<times> 'm) \<Rightarrow>
   manager_call list \<Rightarrow> 'm \<Rightarrow> goerr option list \<times> 'm" where
  "run_calls create remove [] m = ([], m)"
| "run_calls create remove (call # calls) m =
     (case (case call of CreateCall tag n \<Rightarrow> create tag (Inr n) m | RemoveCall tag \<Rightarrow> remove tag m) of
        (err, m) \<Rightarrow> (case run_calls create remove calls m of (errs, m) \<Rightarrow> (err # errs, m)))"

text \<open>The specification is a map from tags to objects. A creation that fails does not change it.\<close>

fun map_call :: "manager_call \<times> goerr option \<Rightarrow> (string \<Rightarrow> node option) \<Rightarrow> string \<Rightarrow> node option" where
  "map_call (CreateCall tag n, err) m = (if err = None then m(tag \<mapsto> n) else m)"
| "map_call (RemoveCall tag, err) m = m(tag := None)"

fun created_ids :: "manager_call list \<Rightarrow> nat list" where
  "created_ids [] = []"
| "created_ids (CreateCall tag n # calls) = nd_id n # created_ids calls"
| "created_ids (RemoveCall tag # calls) = created_ids calls"

locale tag_registry =
  fixes wf :: "'m \<Rightarrow> bool"
    and ids :: "'m \<Rightarrow> nat set"
    and get :: "string \<Rightarrow> 'm \<Rightarrow> node option"
    and create :: "string \<Rightarrow> node res \<Rightarrow> 'm \<Rightarrow> goerr option \<times> 'm"
    and remove :: "string \<Rightarrow> 'm \<Rightarrow> goerr option \<times> 'm"
  assumes create_get: "wf m \<Longrightarrow> create tag (Inr n) m = (None, m') \<Longrightarrow>
      get t m' = (if t = tag then Some n else get t m)"
    and create_wf: "wf m \<Longrightarrow> nd_id n \<notin> ids m \<Longrightarrow> wf (snd (create tag (Inr n) m))"
    and create_ids: "wf m \<Longrightarrow> ids (snd (create tag (Inr n) m)) \<subseteq> insert (nd_id n) (ids m)"
    and create_fails: "create tag created m = (Some err, m') \<Longrightarrow> m' = m"
    and remove_get: "wf m \<Longrightarrow> get t (snd (remove tag m)) = (if t = tag then None else get t m)"
    and remove_wf: "wf m \<Longrightarrow> wf (snd (remove tag m))"
    and remove_ids: "wf m \<Longrightarrow> ids (snd (remove tag m)) \<subseteq> ids m"
begin

lemma create_map:
  assumes "wf m" "create tag (Inr n) m = (err, m')"
  shows "(\<lambda>t. get t m') = map_call (CreateCall tag n, err) (\<lambda>t. get t m)"
proof (cases err)
  case None
  with create_get [OF assms(1)] assms(2) show ?thesis by (auto simp: fun_eq_iff)
next
  case (Some e)
  with create_fails [of tag "Inr n" m e m'] assms(2) show ?thesis by simp
qed

lemma calls_refine_map:
  "run_calls create remove calls m = (errs, m') \<Longrightarrow> wf m \<Longrightarrow>
   distinct (created_ids calls) \<Longrightarrow> set (created_ids calls) \<inter> ids m = {} \<Longrightarrow>
   wf m' \<and> (\<lambda>tag. get tag m') = fold map_call (zip calls errs) (\<lambda>tag. get tag m)"
proof (induction calls arbitrary: m errs)
  case (Cons call calls)
  show ?case
  proof (cases call)
    case (CreateCall tag n)
    obtain err m1 errs' where m1: "create tag (Inr n) m = (err, m1)"
      and rest: "run_calls create remove calls m1 = (errs', m')" "errs = err # errs'"
      using Cons.prems(1) CreateCall by (auto split: prod.splits)
    have "wf m1" "ids m1 \<subseteq> insert (nd_id n) (ids m)"
      using create_wf [of m n tag] create_ids [of m tag n] Cons.prems CreateCall m1 by auto
    moreover from this Cons.prems CreateCall have "set (created_ids calls) \<inter> ids m1 = {}" by auto
    ultimately show ?thesis
      using Cons.IH [OF rest(1)] Cons.prems CreateCall rest(2) create_map [OF _ m1] by simp
  next
    case (RemoveCall tag)
    obtain err m1 errs' where m1: "remove tag m = (err, m1)"
      and rest: "run_calls create remove calls m1 = (errs', m')" "errs = err # errs'"
      using Cons.prems(1) RemoveCall by (auto split: prod.splits)
    have "wf m1" "ids m1 \<subseteq> ids m" "(\<lambda>t. get t m1) = (\<lambda>t. get t m)(tag := None)"
      using remove_wf [of m tag] remove_ids [of m tag] remove_get [of m _ tag] Cons.prems(2) m1
      by (auto simp: fun_eq_iff)
    moreover from this Cons.prems RemoveCall have "set (created_ids calls) \<inter> ids m1 = {}" by auto
    ultimately show ?thesis using Cons.IH [OF rest(1)] Cons.prems RemoveCall rest(2) by simp
  qed
qed simp

end

text \<open>Well-formedness: the objects in the list are distinct, they are those that the map holds, and the map
  holds each under one tag.\<close>

definition registry_wf :: "'a registry_scheme \<Rightarrow> bool" where
  "registry_wf m \<longleftrightarrow> distinct (map nd_id (rg_items m)) \<and> set (rg_items m) = ran (map_of (rg_byTag m)) \<and>
     (\<forall>t t' n n'. map_of (rg_byTag m) t = Some n \<and> map_of (rg_byTag m) t' = Some n' \<and> nd_id n = nd_id n' \<longrightarrow> t = t')"

definition registry_ids :: "'a registry_scheme \<Rightarrow> nat set" where
  "registry_ids m = nd_id ` set (rg_items m)"

lemma remove_node_None: "remove_node n xs = None \<longleftrightarrow> nd_id n \<notin> nd_id ` set xs"
  by (induction xs) auto

lemma remove_node_Some:
  "remove_node n xs = Some ys \<Longrightarrow> distinct (map nd_id xs) \<Longrightarrow>
   set ys = {x \<in> set xs. nd_id x \<noteq> nd_id n} \<and> distinct (map nd_id ys)"
proof (induction xs arbitrary: ys)
  case (Cons x xs)
  show ?case
  proof (cases "nd_id x = nd_id n")
    case True
    with Cons.prems have "\<forall>y\<in>set xs. nd_id y \<noteq> nd_id n" by (auto simp: image_iff)
    with True Cons.prems show ?thesis by auto
  next
    case False
    with Cons show ?thesis by auto
  qed
qed simp

lemma replace_existing_items:
  assumes "replace_existing kind tag m = Inr m'" "distinct (map nd_id (rg_items m))"
  shows "m' = m\<lparr>rg_items := rg_items m'\<rparr> \<and> distinct (map nd_id (rg_items m')) \<and>
    set (rg_items m') = {x \<in> set (rg_items m). \<forall>old. map_of (rg_byTag m) tag = Some old \<longrightarrow> nd_id x \<noteq> nd_id old}"
  using assms by (auto simp: replace_existing_def split: option.splits dest: remove_node_Some)

lemma registry_Create_Some:
  assumes "registry_Create kind tag created m = (None, m')"
  obtains n m1 where "created = Inr n" "replace_existing kind tag m = Inr m1" "m' = put_node tag n m1"
  using assms by (auto simp: registry_Create_def split: option.splits sum.splits)

lemma registry_Create_fails: "registry_Create kind tag created m = (Some err, m') \<Longrightarrow> m' = m"
  by (auto simp: registry_Create_def split: option.splits sum.splits)

lemma registry_Create_get:
  assumes "registry_wf m" "registry_Create kind tag (Inr n) m = (None, m')"
  shows "registry_Get t m' = (if t = tag then Some n else registry_Get t m)"
proof -
  from assms(2) obtain m1 where m1: "replace_existing kind tag m = Inr m1" "m' = put_node tag n m1"
    by (auto elim: registry_Create_Some)
  with replace_existing_items [OF m1(1)] assms(1) have "rg_byTag m1 = rg_byTag m"
    by (metis registry_wf_def registry.ext_inject registry.surjective registry.update_convs(3))
  with m1 show ?thesis by (simp add: registry_Get_def put_node_def update_conv')
qed

lemma registry_put_wf:
  assumes "registry_wf m" "nd_id n \<notin> registry_ids m" "replace_existing kind tag m = Inr m1"
  shows "registry_wf (put_node tag n m1)"
proof -
  let ?M = "map_of (rg_byTag m)"
  note w = assms(1) [unfolded registry_wf_def]
  note items = replace_existing_items [OF assms(3)]
  have byTag: "rg_byTag m1 = rg_byTag m"
    using items w by (metis registry.ext_inject registry.surjective registry.update_convs(3))
  have n: "nd_id x \<noteq> nd_id n" if "?M t = Some x" for t x
    using that assms(2) w by (metis image_eqI ranI registry_ids_def)
  have eq: "map_of (rg_byTag (put_node tag n m1)) = ?M(tag \<mapsto> n)" "rg_items (put_node tag n m1) = rg_items m1 @ [n]"
    by (simp_all add: put_node_def update_conv' byTag)
  have inj: "t = t'" if "?M t = Some x" "?M t' = Some x'" "nd_id x = nd_id x'" for t t' x x'
    using that w by blast
  have "set (rg_items m1) = {x. \<exists>t. t \<noteq> tag \<and> ?M t = Some x}"
    using items w by (auto simp: ran_def)
  then have "set (rg_items m1 @ [n]) = ran (?M(tag \<mapsto> n))" by (auto simp: ran_def)
  moreover have "distinct (map nd_id (rg_items m1 @ [n]))"
    using items w n by (force simp: ran_def)
  moreover have "t = t'" if "(?M(tag \<mapsto> n)) t = Some x \<and> (?M(tag \<mapsto> n)) t' = Some x' \<and> nd_id x = nd_id x'" for t t' x x'
    using that n [of t x] n [of t' x'] inj [of t x t' x'] by (cases "t = tag"; cases "t' = tag") auto
  ultimately show ?thesis unfolding registry_wf_def eq by (intro conjI allI impI)
qed

lemma registry_Create_wf:
  assumes "registry_wf m" "nd_id n \<notin> registry_ids m"
  shows "registry_wf (snd (registry_Create kind tag (Inr n) m))"
proof (cases "fst (registry_Create kind tag (Inr n) m)")
  case None
  then obtain m' where m': "registry_Create kind tag (Inr n) m = (None, m')" by (metis prod.collapse)
  then obtain n' m1 where "Inr n = (Inr n' :: node res)" "replace_existing kind tag m = Inr m1" "m' = put_node tag n' m1"
    by (rule registry_Create_Some)
  with registry_put_wf [OF assms] m' show ?thesis by simp
next
  case (Some err)
  with assms registry_Create_fails show ?thesis by (metis prod.collapse)
qed

text \<open>In a well-formed registry \<^verbatim>\<open>Remove\<close> does not meet the missing index.\<close>

lemma take_out_cases:
  assumes "registry_wf m"
  shows "take_out tag m =
    (case map_of (rg_byTag m) tag of
       None \<Rightarrow> (Inl os_ErrInvalid, m)
     | Some n \<Rightarrow>
         (Inr (n, m\<lparr>rg_byTag := AList.delete tag (rg_byTag m),
                   rg_items := the (remove_node n (rg_items m))\<rparr>),
          m\<lparr>rg_byTag := AList.delete tag (rg_byTag m)\<rparr>))"
proof (cases "map_of (rg_byTag m) tag")
  case (Some n)
  with assms have "n \<in> set (rg_items m)" by (auto simp: registry_wf_def intro: ranI)
  then obtain items where "remove_node n (rg_items m) = Some items"
    using remove_node_None [of n "rg_items m"] by (cases "remove_node n (rg_items m)") auto
  with Some show ?thesis by (simp add: take_out_def Let_def)
qed (simp add: take_out_def)

lemma remove_node_the:
  assumes "registry_wf m" "map_of (rg_byTag m) tag = Some n"
  shows "distinct (map nd_id (the (remove_node n (rg_items m))))"
    and "set (the (remove_node n (rg_items m))) = {x \<in> set (rg_items m). nd_id x \<noteq> nd_id n}"
proof -
  from assms have "n \<in> set (rg_items m)" by (auto simp: registry_wf_def intro: ranI)
  then obtain items where i: "remove_node n (rg_items m) = Some items"
    using remove_node_None [of n "rg_items m"] by (cases "remove_node n (rg_items m)") auto
  with remove_node_Some [OF this] assms(1)
  show "distinct (map nd_id (the (remove_node n (rg_items m))))"
    "set (the (remove_node n (rg_items m))) = {x \<in> set (rg_items m). nd_id x \<noteq> nd_id n}"
    by (simp_all add: registry_wf_def)
qed

lemma registry_delete_wf:
  assumes w: "registry_wf m" and n: "map_of (rg_byTag m) tag = Some n"
  shows "registry_wf (m\<lparr>rg_byTag := AList.delete tag (rg_byTag m), rg_items := the (remove_node n (rg_items m))\<rparr>)"
proof -
  let ?M = "map_of (rg_byTag m)"
  have inj: "t = t'" if "?M t = Some x" "?M t' = Some x'" "nd_id x = nd_id x'" for t t' x x'
    using w that unfolding registry_wf_def by blast
  have "?M t = Some x \<and> nd_id x \<noteq> nd_id n \<longleftrightarrow> (?M(tag := None)) t = Some x" for t x
    using n inj [of t x tag n] by auto
  then have "{x \<in> set (rg_items m). nd_id x \<noteq> nd_id n} = ran (?M(tag := None))"
    using w unfolding registry_wf_def ran_def by blast
  with remove_node_the [OF w n] inj show ?thesis
    by (auto simp: registry_wf_def delete_conv' split: if_splits)
qed

lemma registry_Remove_take_out:
  "registry_Remove tag m =
     (case take_out tag m of
        (Inl err, m) \<Rightarrow> (Some err, m)
      | (Inr (n, m), _) \<Rightarrow> (if rg_started m then nd_close n else None, m))"
  by (simp add: registry_Remove_def take_out_def Let_def split: option.split)

lemma registry_Remove_get:
  "registry_wf m \<Longrightarrow> registry_Get t (snd (registry_Remove tag m)) = (if t = tag then None else registry_Get t m)"
  by (simp add: registry_Remove_take_out take_out_cases registry_Get_def delete_conv' split: option.split)

lemma registry_Remove_wf: "registry_wf m \<Longrightarrow> registry_wf (snd (registry_Remove tag m))"
  by (simp add: registry_Remove_take_out take_out_cases registry_delete_wf split: option.split)

lemma put_node_ids:
  "replace_existing kind tag m = Inr m1 \<Longrightarrow> registry_wf m \<Longrightarrow>
   registry_ids (put_node tag n m1) \<subseteq> insert (nd_id n) (registry_ids m)"
  using replace_existing_items [of kind tag m m1] by (auto simp: registry_wf_def registry_ids_def put_node_def)

lemma registry_Create_ids:
  assumes "registry_wf m"
  shows "registry_ids (snd (registry_Create kind tag (Inr n) m)) \<subseteq> insert (nd_id n) (registry_ids m)"
proof (cases "fst (registry_Create kind tag (Inr n) m)")
  case None
  then have "registry_Create kind tag (Inr n) m = (None, snd (registry_Create kind tag (Inr n) m))" by (metis prod.collapse)
  then show ?thesis using put_node_ids [OF _ assms] by (fastforce elim: registry_Create_Some)
next
  case (Some err)
  with registry_Create_fails show ?thesis by (metis prod.collapse subset_insertI)
qed

lemma registry_Remove_ids: "registry_wf m \<Longrightarrow> registry_ids (snd (registry_Remove tag m)) \<subseteq> registry_ids m"
  by (auto simp: registry_Remove_take_out take_out_cases registry_ids_def dest: remove_node_the split: option.splits)

interpretation reg: tag_registry registry_wf registry_ids registry_Get "registry_Create kind" registry_Remove
  for kind
proof
  show "registry_Create kind tag created m = (Some err, m') \<Longrightarrow> m' = m" for tag created m err m'
    by (rule registry_Create_fails)
qed (simp_all add: registry_Create_get registry_Create_wf registry_Create_ids registry_Remove_get registry_Remove_wf
       registry_Remove_ids)

section \<open>Outbounds as a map\<close>

text \<open>The other fields of the outbound manager do not matter for the registry in it.\<close>

lemma registry_fields [simp]:
  "registry_wf (m\<lparr>om_default := d\<rparr>) = registry_wf m"
  "registry_wf (m\<lparr>om_dependByTag := f\<rparr>) = registry_wf m"
  "registry_ids (m\<lparr>om_default := d\<rparr>) = registry_ids m"
  "registry_ids (m\<lparr>om_dependByTag := f\<rparr>) = registry_ids m"
  "registry_Get t (m\<lparr>om_default := d\<rparr>) = registry_Get t m"
  "registry_Get t (m\<lparr>om_dependByTag := f\<rparr>) = registry_Get t m"
  by (simp_all add: registry_wf_def registry_ids_def registry_Get_def)

lemma outbound_Create_registry:
  "outbound_Create tag (Inr n) m = (err, m') \<Longrightarrow>
   (err \<noteq> None \<and> m' = m) \<or>
   (\<exists>m1. registry_Create ''outbound'' tag (Inr n) m = (None, m1) \<and> err = None \<and>
      registry_Get t m' = registry_Get t m1 \<and> registry_wf m' = registry_wf m1 \<and> registry_ids m' = registry_ids m1)"
  by (auto simp: outbound_Create_def Let_def dest: registry_Create_fails split: if_splits prod.splits option.splits)

lemma outbound_Remove_registry:
  "registry_Get t (snd (outbound_Remove tag m)) = registry_Get t (snd (registry_Remove tag m))"
  "registry_wf (snd (outbound_Remove tag m)) = registry_wf (snd (registry_Remove tag m))"
  "registry_ids (snd (outbound_Remove tag m)) = registry_ids (snd (registry_Remove tag m))"
  by (auto simp: outbound_Remove_def registry_Remove_take_out Let_def split: sum.splits prod.splits option.splits)

lemma outbound_Create_fails: "outbound_Create tag created m = (Some err, m') \<Longrightarrow> m' = m"
  by (auto simp: outbound_Create_def Let_def dest: registry_Create_fails
      split: if_splits prod.splits option.splits sum.splits elim: registry_Create_Some)

interpretation out: tag_registry registry_wf registry_ids registry_Get outbound_Create outbound_Remove
proof (unfold_locales, goal_cases)
  case (1 m tag n m' t)
  with outbound_Create_registry [OF 1(2), of t] registry_Create_get [OF 1(1)] show ?case by auto
next
  case (2 m n tag)
  then show ?case
    using outbound_Create_registry [of tag n m "fst (outbound_Create tag (Inr n) m)" "snd (outbound_Create tag (Inr n) m)"]
      registry_Create_wf [OF 2] by (metis prod.collapse snd_conv)
next
  case (3 m tag n)
  then show ?case
    using outbound_Create_registry [of tag n m "fst (outbound_Create tag (Inr n) m)" "snd (outbound_Create tag (Inr n) m)"]
      registry_Create_ids [OF 3] by (metis prod.collapse snd_conv subset_insertI)
next
  case (4 tag created m err m')
  then show ?case by (rule outbound_Create_fails)
qed (simp_all add: outbound_Remove_registry registry_Remove_get registry_Remove_wf registry_Remove_ids)

end
