(* ===== verification/ManagerProps.thy ===== *)
theory ManagerProps
  imports Managers
begin

text \<open>
  Properties of the managers: the order in which dependent objects are started, when starting succeeds, and the
  managers as maps from tags to objects.
\<close>

section \<open>Sample objects\<close>

definition sample_node :: "nat \<Rightarrow> string \<Rightarrow> string list \<Rightarrow> node" where
  "sample_node i tag deps = \<lparr>nd_id = i, nd_Tag = tag, nd_Type = ''direct'', nd_Dependencies = deps,
     nd_starter = Lifecycle [], nd_close = None\<rparr>"

definition sample_nodes :: "node list" where
  "sample_nodes = [sample_node 1 ''select'' [''proxy'', ''direct''], sample_node 2 ''proxy'' [''direct''], sample_node 3 ''direct'' []]"

definition sample_manager :: outbound_manager where
  "sample_manager = \<lparr>rg_started = True, rg_stage = StartStateStarted, rg_items = [], rg_byTag = [],
     om_defaultTag = [], om_dependByTag = (\<lambda>tag. []), om_default = None\<rparr>"

definition sample_calls :: "manager_call list" where
  "sample_calls = [CreateCall ''direct'' (sample_node 1 ''direct'' []), CreateCall ''proxy'' (sample_node 2 ''proxy'' [''direct'']),
     RemoveCall ''absent'', CreateCall ''direct'' (sample_node 3 ''direct'' []), RemoveCall ''proxy'']"

definition sample_outbounds :: outbound_manager where
  "sample_outbounds = snd (run_calls outbound_Create outbound_Remove
     [CreateCall ''direct'' (sample_node 1 ''direct'' []), CreateCall ''proxy'' (sample_node 2 ''proxy'' [''direct''])] sample_manager)"

definition sample_transports :: transport_manager where
  "sample_transports = \<lparr>rg_started = True, rg_stage = StartStateStarted,
     rg_items = [sample_node 1 ''local'' [], sample_node 2 ''google'' []],
     rg_byTag = [(''local'', sample_node 1 ''local'' []), (''google'', sample_node 2 ''google'' [])],
     om_defaultTag = [], om_dependByTag = (\<lambda>tag. []), om_default = Some (sample_node 1 ''local'' []), tm_fakeIPTransport = None\<rparr>"

section \<open>The order of starting\<close>

text \<open>What \<^verbatim>\<open>startOutbounds\<close> keeps: the started tags are distinct tags of nodes, each after its dependencies.\<close>

definition start_ordered :: "node list \<Rightarrow> string list \<Rightarrow> bool" where
  "start_ordered nodes started \<longleftrightarrow> distinct started \<and>
     (\<forall>i<length started. \<exists>n\<in>set nodes. nd_Tag n = started ! i \<and> set (nd_Dependencies n) \<subseteq> set (take i started))"

lemma start_ordered_snoc:
  assumes "start_ordered nodes started" "n \<in> set nodes" "nd_Tag n \<notin> set started" "set (nd_Dependencies n) \<subseteq> set started"
  shows "start_ordered nodes (started @ [nd_Tag n])"
  using assms by (auto simp: start_ordered_def nth_append less_Suc_eq)

lemma start_pass_ordered:
  "start_pass kind ns started = (err, started') \<Longrightarrow> set ns \<subseteq> set nodes \<Longrightarrow> start_ordered nodes started \<Longrightarrow>
   start_ordered nodes started'"
  by (induction kind ns started arbitrary: err started' rule: start_pass.induct)
    (auto split: if_splits option.splits intro: start_ordered_snoc)

lemma start_loop_ordered:
  "start_loop kind word byTag nodes started = (err, started') \<Longrightarrow> start_ordered nodes started \<Longrightarrow>
   start_ordered nodes started'"
proof (induction kind word byTag nodes started arbitrary: err started' rule: start_loop.induct)
  case (1 kind word byTag nodes started)
  obtain e s where pass: "start_pass kind nodes started = (e, s)" by fastforce
  with start_pass_ordered [OF pass _ 1(3)] have s: "start_ordered nodes s" by simp
  show ?case
  proof (cases "e = None \<and> length s \<noteq> length nodes \<and> length started < length s")
    case True
    with 1(2) pass have "start_loop kind word byTag nodes s = (err, started')" by (subst (asm) start_loop.simps) simp
    with 1(1) [OF pass [symmetric] _ _ _ _ s] True show ?thesis by simp
  next
    case False
    with 1(2) pass s show ?thesis
      by (subst (asm) start_loop.simps) (auto split: option.splits if_splits)
  qed
qed

text \<open>A pass without error has started every node it could start at its turn.\<close>

lemma start_pass_None:
  "start_pass kind ns started = (None, started') \<Longrightarrow>
   set started \<subseteq> set started' \<and> (\<forall>n\<in>set ns. set (nd_Dependencies n) \<subseteq> set started \<longrightarrow> nd_Tag n \<in> set started')"
proof (induction kind ns started arbitrary: started' rule: start_pass.induct)
  case (2 kind n ns started)
  show ?case
  proof (cases "nd_Tag n \<in> set started \<or> \<not> set (nd_Dependencies n) \<subseteq> set started")
    case True
    with 2 show ?thesis by (auto simp del: subset_iff)
  next
    case False
    with 2 show ?thesis by (force split: option.splits)
  qed
qed simp

definition starts_succeed :: "node list \<Rightarrow> bool" where
  "starts_succeed nodes \<longleftrightarrow> list_all (\<lambda>n. LegacyStart (nd_starter n) StartStateStart = None) nodes"

lemma start_pass_succeeds: "starts_succeed ns \<Longrightarrow> fst (start_pass kind ns started) = None"
  by (induction kind ns started rule: start_pass.induct) (auto simp: starts_succeed_def)

text \<open>Dependencies can be satisfied if they exist and have a rank.\<close>

definition ranked :: "(string \<Rightarrow> nat) \<Rightarrow> node list \<Rightarrow> bool" where
  "ranked rank nodes \<longleftrightarrow>
     (\<forall>n\<in>set nodes. \<forall>d\<in>set (nd_Dependencies n). d \<in> nd_Tag ` set nodes \<and> rank d < rank (nd_Tag n))"

lemma ranked_progress:
  assumes "ranked rank nodes" "n \<in> set nodes" "nd_Tag n \<notin> set started"
  shows "\<exists>n'\<in>set nodes. nd_Tag n' \<notin> set started \<and> set (nd_Dependencies n') \<subseteq> set started"
  using assms(2,3)
proof (induction "rank (nd_Tag n)" arbitrary: n rule: less_induct)
  case less
  show ?case
  proof (cases "set (nd_Dependencies n) \<subseteq> set started")
    case False
    then obtain d where d: "d \<in> set (nd_Dependencies n)" "d \<notin> set started" by auto
    with assms(1) less.prems obtain n' where "n' \<in> set nodes" "nd_Tag n' = d" "rank d < rank (nd_Tag n)"
      by (fastforce simp: ranked_def)
    with less.hyps [of n'] d show ?thesis by simp
  qed (use less.prems in auto)
qed

lemma start_ordered_tags: "start_ordered nodes started \<Longrightarrow> set started \<subseteq> nd_Tag ` set nodes"
proof
  fix t assume "start_ordered nodes started" "t \<in> set started"
  moreover from this obtain i where "i < length started" "t = started ! i" by (metis in_set_conv_nth)
  ultimately show "t \<in> nd_Tag ` set nodes" unfolding start_ordered_def by (metis imageI)
qed

text \<open>The loop ends with an empty list of nodes to start exactly if all tags were started.\<close>

lemma start_ordered_length:
  assumes "start_ordered nodes started" "distinct (map nd_Tag nodes)"
  shows "length started = length nodes \<longleftrightarrow> set started = nd_Tag ` set nodes"
proof -
  have "length started = card (set started)" "length nodes = card (nd_Tag ` set nodes)"
    using assms by (auto simp: start_ordered_def distinct_card [symmetric] distinct_map card_image)
  with start_ordered_tags [OF assms(1)] show ?thesis by (metis card_subset_eq finite_imageI finite_set)
qed

lemma start_loop_succeeds:
  "distinct (map nd_Tag nodes) \<Longrightarrow> starts_succeed nodes \<Longrightarrow> ranked rank nodes \<Longrightarrow> start_ordered nodes started \<Longrightarrow>
   fst (start_loop kind word byTag nodes started) = None"
proof (induction kind word byTag "nodes" started rule: start_loop.induct)
  case (1 kind word byTag nodes started)
  obtain s where pass: "start_pass kind nodes started = (None, s)"
    using start_pass_succeeds [OF 1(3)] by (metis prod.collapse)
  from start_pass_ordered [OF pass _ 1(5)] have s: "start_ordered nodes s" by simp
  show ?case
  proof (cases "length s = length nodes")
    case True
    with pass show ?thesis by (subst start_loop.simps) simp
  next
    case False
    with start_ordered_length [OF s 1(2)] start_ordered_tags [OF s]
    obtain n where "n \<in> set nodes" "nd_Tag n \<notin> set s" by auto
    from ranked_progress [OF 1(4) this] obtain n'
      where n': "n' \<in> set nodes" "nd_Tag n' \<notin> set s" "set (nd_Dependencies n') \<subseteq> set s" by auto
    from start_pass_started [OF pass] obtain new where new: "s = started @ new" by auto
    have "new \<noteq> []"
      using start_pass_None [OF pass] n' new by auto
    then have "length started < length s" using new by simp
    with 1(1) [OF pass [symmetric] refl False _ 1(2-4) s] pass False show ?thesis
      by (subst start_loop.simps) simp
  qed
qed

lemma start_loop_None_length:
  "start_loop kind word byTag nodes started = (None, started') \<Longrightarrow> length started' = length nodes"
proof (induction kind word byTag nodes started rule: start_loop.induct)
  case (1 kind word byTag nodes started)
  obtain e s where pass: "start_pass kind nodes started = (e, s)" by fastforce
  show ?case
  proof (cases "e = None \<and> length s \<noteq> length nodes \<and> length started < length s")
    case True
    with 1(2) pass have "start_loop kind word byTag nodes s = (None, started')" by (subst (asm) start_loop.simps) simp
    with 1(1) [OF pass [symmetric]] True show ?thesis by simp
  next
    case False
    with 1(2) pass show ?thesis by (subst (asm) start_loop.simps) (auto split: option.splits if_splits)
  qed
qed

text \<open>The position in the order of starting is a rank.\<close>

lemma start_ordered_ranked:
  assumes "start_ordered nodes started" "set started = nd_Tag ` set nodes" "distinct (map nd_Tag nodes)"
  shows "\<exists>rank. ranked rank nodes"
proof -
  let ?rank = "inv_into {..<length started} ((!) started)"
  have rank: "?rank (started ! i) = i" if "i < length started" for i
    using that assms(1) by (intro inv_into_f_f inj_on_nth) (auto simp: start_ordered_def)
  have "d \<in> nd_Tag ` set nodes \<and> ?rank d < ?rank (nd_Tag n)" if n: "n \<in> set nodes" "d \<in> set (nd_Dependencies n)" for n d
  proof -
    from n(1) assms(2) obtain i where i: "i < length started" "started ! i = nd_Tag n"
      by (metis imageI in_set_conv_nth)
    with assms(1) obtain n' where "n' \<in> set nodes" "nd_Tag n' = nd_Tag n" "set (nd_Dependencies n') \<subseteq> set (take i started)"
      by (auto simp: start_ordered_def)
    moreover from this assms(3) n(1) have "n' = n" by (auto simp: distinct_map dest: inj_onD)
    ultimately have "d \<in> set (take i started)" using n(2) by auto
    then obtain j where "j < i" "started ! j = d" using i(1) by (auto simp: in_set_conv_nth)
    with i rank [of i] rank [of j] assms(2) show ?thesis by (metis less_trans nth_mem)
  qed
  then show ?thesis unfolding ranked_def by blast
qed

text \<open>C24. Outbounds, and endpoints with them, are started in an order that respects their dependencies: the tags that
  \<^verbatim>\<open>startOutbounds\<close> starts are distinct, and every one of them is the tag of an object all of whose dependencies
  were started before it, whether the whole start succeeds or ends with an error.\<close>

theorem startOutbounds_order:
  assumes "startOutbounds byTag outbounds = (err, started)"
  shows "distinct started \<and>
    (\<forall>i<length started. \<exists>n\<in>set outbounds.
       nd_Tag n = started ! i \<and> set (nd_Dependencies n) \<subseteq> set (take i started))"
proof -
  have "start_ordered outbounds started"
    using start_loop_ordered [OF assms [unfolded startOutbounds_def]] by (simp add: start_ordered_def)
  then show ?thesis by (simp add: start_ordered_def)
qed

theorem startOutbounds_order_witness:
  "let started = snd (startOutbounds [] sample_nodes)
   in started = [''direct'', ''proxy'', ''select''] \<and>
      (\<exists>n\<in>set sample_nodes. nd_Tag n = started ! 2 \<and> set (nd_Dependencies n) \<subseteq> set (take 2 started))"
proof -
  have run: "startOutbounds [] sample_nodes = (None, [''direct'', ''proxy'', ''select''])" by code_simp
  from spec [OF conjunct2 [OF startOutbounds_order [OF run]], of 2] show ?thesis unfolding run Let_def snd_conv by simp
qed

text \<open>C7. Starting succeeds exactly when it can: with distinct tags and objects whose own start succeeds,
  \<^verbatim>\<open>startOutbounds\<close> returns without error if and only if every dependency exists and the dependencies are
  acyclic, that is, ranked by a number that grows from a dependency to what depends on it; then every object is
  started.\<close>

theorem startOutbounds_succeeds:
  assumes "distinct (map nd_Tag outbounds)"
    and "\<forall>n\<in>set outbounds. LegacyStart (nd_starter n) StartStateStart = None"
  shows "(fst (startOutbounds byTag outbounds) = None \<longleftrightarrow>
      (\<exists>rank :: string \<Rightarrow> nat. \<forall>n\<in>set outbounds. \<forall>d\<in>set (nd_Dependencies n).
         d \<in> nd_Tag ` set outbounds \<and> rank d < rank (nd_Tag n))) \<and>
    (fst (startOutbounds byTag outbounds) = None \<longrightarrow> set (snd (startOutbounds byTag outbounds)) = nd_Tag ` set outbounds)"
proof -
  obtain err started where run: "startOutbounds byTag outbounds = (err, started)" by fastforce
  note loop = run [unfolded startOutbounds_def]
  have s: "start_ordered outbounds started"
    using start_loop_ordered [OF loop] by (simp add: start_ordered_def)
  have tags: "set started = nd_Tag ` set outbounds" if "err = None"
    using that start_loop_None_length loop start_ordered_length [OF s assms(1)] by blast
  have "fst (startOutbounds byTag outbounds) = None" if "ranked rank outbounds" for rank
    using start_loop_succeeds [OF assms(1) _ that, of "[]"] assms(2)
    by (simp add: startOutbounds_def starts_succeed_def list_all_iff start_ordered_def)
  then have "fst (startOutbounds byTag outbounds) = None \<longleftrightarrow> (\<exists>rank. ranked rank outbounds)"
    using start_ordered_ranked [OF s _ assms(1)] tags run by (metis fst_conv)
  with tags run show ?thesis by (simp add: ranked_def)
qed

theorem startOutbounds_succeeds_witness:
  "fst (startOutbounds [] sample_nodes) = None \<and> set (snd (startOutbounds [] sample_nodes)) = nd_Tag ` set sample_nodes"
proof -
  have "distinct (map nd_Tag sample_nodes)"
    "\<forall>n\<in>set sample_nodes. LegacyStart (nd_starter n) StartStateStart = None" by code_simp+
  from startOutbounds_succeeds [OF this, of "[]"]
  have "(\<exists>rank :: string \<Rightarrow> nat. \<forall>n\<in>set sample_nodes. \<forall>d\<in>set (nd_Dependencies n).
       d \<in> nd_Tag ` set sample_nodes \<and> rank d < rank (nd_Tag n)) \<Longrightarrow> ?thesis" by blast
  moreover let ?rank = "\<lambda>t. if t = ''direct'' then 0 else if t = ''proxy'' then 1 else (2 :: nat)"
  have "\<forall>n\<in>set sample_nodes. \<forall>d\<in>set (nd_Dependencies n). d \<in> nd_Tag ` set sample_nodes \<and>
       ?rank d < ?rank (nd_Tag n)" by code_simp
  then have "\<exists>rank :: string \<Rightarrow> nat. \<forall>n\<in>set sample_nodes. \<forall>d\<in>set (nd_Dependencies n).
       d \<in> nd_Tag ` set sample_nodes \<and> rank d < rank (nd_Tag n)" by (rule exI [where x = ?rank])
  ultimately show ?thesis by blast
qed

section \<open>The message when the dependencies cannot be satisfied\<close>

definition circular_error :: "string \<Rightarrow> string list \<Rightarrow> string \<Rightarrow> goerr" where
  "circular_error word path tag =
     ENew [ArgS (''circular '' @ word @ '' dependency: ''), ArgS (strings_Join path '' -> ''), ArgS '' -> '', ArgS tag]"

definition missing_error :: "string \<Rightarrow> string \<Rightarrow> string \<Rightarrow> goerr" where
  "missing_error word tag by = ENew [ArgS ''dependency['', ArgS tag, ArgS (''] not found for '' @ word @ ''[''), ArgS by, ArgS '']'']"

text \<open>Each tag of a path is that of a node that depends on the next one.\<close>

definition depends :: "node list \<Rightarrow> string \<Rightarrow> string \<Rightarrow> bool" where
  "depends nodes a b \<longleftrightarrow> (\<exists>n\<in>set nodes. nd_Tag n = a \<and> b \<in> set (nd_Dependencies n))"

text \<open>The error of a stuck start: a path that runs into itself, or a dependency that is not registered.\<close>

definition explains :: "string \<Rightarrow> (string \<times> node) list \<Rightarrow> node list \<Rightarrow> goerr \<Rightarrow> bool" where
  "explains word byTag nodes err \<longleftrightarrow>
     (\<exists>path tag. err = circular_error word path tag \<and> tag \<in> set path \<and> successively (depends nodes) (path @ [tag])) \<or>
     (\<exists>tag by. err = missing_error word tag by \<and> depends nodes by tag \<and> map_of byTag tag = None)"

lemma unstarted_dependency_in:
  "\<not> set (nd_Dependencies n) \<subseteq> set started \<Longrightarrow>
   unstarted_dependency started n \<in> set (nd_Dependencies n) \<and> unstarted_dependency started n \<notin> set started"
  by (auto simp: unstarted_dependency_def find_None_iff find_Some_iff split: option.split)

lemma lint_explains:
  assumes byTag: "\<And>tag n. map_of byTag tag = Some n \<Longrightarrow> n \<in> set nodes \<and> nd_Tag n = tag"
    and stuck: "\<And>n. n \<in> set nodes \<Longrightarrow> nd_Tag n \<notin> set started \<Longrightarrow> \<not> set (nd_Dependencies n) \<subseteq> set started"
  shows "n \<in> set nodes \<Longrightarrow> nd_Tag n \<notin> set started \<Longrightarrow> oTree \<noteq> [] \<Longrightarrow> last oTree = nd_Tag n \<Longrightarrow>
    successively (depends nodes) oTree \<Longrightarrow> explains word byTag nodes (lint word byTag started oTree n)"
proof (induction word byTag' \<equiv> byTag started' \<equiv> started oTree n rule: lint.induct)
  case (1 word oTree n)
  let ?tag = "unstarted_dependency started n"
  have tag: "?tag \<in> set (nd_Dependencies n)" "?tag \<notin> set started"
    using unstarted_dependency_in stuck 1(2,3) by blast+
  then have dep: "depends nodes (nd_Tag n) ?tag" using 1(2) by (auto simp: depends_def)
  with 1(4-6) have chain: "successively (depends nodes) (oTree @ [?tag])" by (simp add: successively_append_iff)
  show ?case
  proof (cases "?tag \<in> set oTree")
    case True
    with chain show ?thesis by (subst lint.simps) (auto simp: explains_def circular_error_def Let_def)
  next
    case False
    show ?thesis
    proof (cases "map_of byTag ?tag")
      case None
      with False dep show ?thesis by (subst lint.simps) (auto simp: explains_def missing_error_def Let_def)
    next
      case (Some problem)
      with byTag tag(2) have "problem \<in> set nodes" "nd_Tag problem = ?tag" by auto
      with 1(1) [OF refl False Some] tag(2) chain False Some show ?thesis by (subst lint.simps) (simp add: Let_def)
    qed
  qed
qed

lemma start_loop_explains:
  assumes byTag: "\<And>tag n. map_of byTag tag = Some n \<Longrightarrow> n \<in> set nodes \<and> nd_Tag n = tag"
  shows "distinct (map nd_Tag nodes) \<Longrightarrow> starts_succeed nodes \<Longrightarrow> start_ordered nodes started \<Longrightarrow>
    start_loop kind word byTag nodes started = (Some err, started') \<Longrightarrow> explains word byTag nodes err"
proof (induction kind word byTag' \<equiv> byTag nodes' \<equiv> nodes started rule: start_loop.induct)
  case (1 kind word started)
  obtain s where pass: "start_pass kind nodes started = (None, s)"
    using start_pass_succeeds [OF 1(3)] by (metis prod.collapse)
  from start_pass_ordered [OF pass _ 1(4)] have s: "start_ordered nodes s" by simp
  from start_pass_started [OF pass] obtain new where new: "s = started @ new" by auto
  have len: "length s \<noteq> length nodes" using 1(5) pass by (subst (asm) start_loop.simps) auto
  show ?case
  proof (cases "length started < length s")
    case True
    with 1(5) pass len have "start_loop kind word byTag nodes s = (Some err, started')"
      by (subst (asm) start_loop.simps) simp
    with 1(1) [OF pass [symmetric] refl len True 1(2,3) s] show ?thesis by simp
  next
    case False
    with new have [simp]: "s = started" by simp
    from start_ordered_length [OF s 1(2)] start_ordered_tags [OF s] len
    have "\<exists>n\<in>set nodes. nd_Tag n \<notin> set started" by auto
    then obtain current where current: "find (\<lambda>it. nd_Tag it \<notin> set started) nodes = Some current"
      by (cases "find (\<lambda>it. nd_Tag it \<notin> set started) nodes") (auto simp: find_None_iff)
    then have "current \<in> set nodes" "nd_Tag current \<notin> set started" by (auto simp: find_Some_iff)
    moreover have "\<not> set (nd_Dependencies n) \<subseteq> set started" if "n \<in> set nodes" "nd_Tag n \<notin> set started" for n
      using start_pass_None [OF pass] that by auto
    ultimately have "explains word byTag nodes (lint word byTag started [nd_Tag current] current)"
      by (intro lint_explains [OF byTag]) auto
    with 1(5) pass len current show ?thesis by (subst (asm) start_loop.simps) (auto simp del: lint.simps)
  qed
qed

text \<open>C39. When the objects to start have distinct tags and starts that succeed, an error of \<^verbatim>\<open>startOutbounds\<close> explains
  itself: it is a path along the dependencies that comes back to a tag on it, or a dependency of one of the objects
  that no outbound is registered for. The registered outbounds are among the objects, under their tags.\<close>

theorem startOutbounds_error_explained:
  assumes "distinct (map nd_Tag outbounds)"
    and "\<forall>n\<in>set outbounds. LegacyStart (nd_starter n) StartStateStart = None"
    and "\<forall>tag n. map_of byTag tag = Some n \<longrightarrow> n \<in> set outbounds \<and> nd_Tag n = tag"
    and "fst (startOutbounds byTag outbounds) = Some err"
  shows "(\<exists>path tag. err = circular_error ''outbound'' path tag \<and> tag \<in> set path \<and>
            successively (\<lambda>a b. \<exists>n\<in>set outbounds. nd_Tag n = a \<and> b \<in> set (nd_Dependencies n)) (path @ [tag])) \<or>
         (\<exists>tag by. err = missing_error ''outbound'' tag by \<and> map_of byTag tag = None \<and>
            (\<exists>n\<in>set outbounds. nd_Tag n = by \<and> tag \<in> set (nd_Dependencies n)))"
proof -
  obtain started where "start_loop ''outbound'' ''outbound'' byTag outbounds [] = (Some err, started)"
    using assms(4) by (auto simp: startOutbounds_def fst_def split: prod.splits)
  with start_loop_explains [of byTag outbounds "[]"] assms
  have "explains ''outbound'' byTag outbounds err"
    by (simp add: starts_succeed_def list_all_iff start_ordered_def)
  then show ?thesis unfolding explains_def depends_def by blast
qed

theorem startOutbounds_error_explained_witness:
  "\<exists>err path tag. fst (startOutbounds [] [sample_node 1 ''a'' [''b'']]) = Some err \<and>
     (err = circular_error ''outbound'' path tag \<or> err = missing_error ''outbound'' tag ''a'' \<and> tag = ''b'')"
proof -
  let ?n = "sample_node 1 ''a'' [''b'']"
  have "distinct (map nd_Tag [?n])" "\<forall>n\<in>set [?n]. LegacyStart (nd_starter n) StartStateStart = None"
    "\<forall>tag n. map_of [] tag = Some n \<longrightarrow> n \<in> set [?n] \<and> nd_Tag n = tag"
    by (simp_all add: sample_node_def)
  moreover have "fst (startOutbounds [] [?n]) = Some (missing_error ''outbound'' ''b'' ''a'')" by code_simp
  moreover note startOutbounds_error_explained [OF calculation]
  ultimately show ?thesis by (auto simp: sample_node_def)
qed

section \<open>Managers as maps\<close>

text \<open>C35. The outbound manager implements a map from tags to outbounds: after any sequence of creations and removals,
  failed ones included, a tag is found with the outbound of the last successful creation unless it was removed
  since, and the list and the map of the manager still agree. The outbounds created are new objects.\<close>

theorem outbound_manager_map:
  assumes "registry_wf m" "run_calls outbound_Create outbound_Remove calls m = (errs, m')"
    and "distinct (created_ids calls)" "set (created_ids calls) \<inter> nd_id ` set (rg_items m) = {}"
  shows "registry_wf m' \<and> (\<lambda>tag. registry_Get tag m') = fold map_call (zip calls errs) (\<lambda>tag. registry_Get tag m)"
  using out.calls_refine_map [OF assms(2,1,3)] assms(4) by (simp add: registry_ids_def)

theorem outbound_manager_map_witness:
  "case run_calls outbound_Create outbound_Remove sample_calls sample_manager of
     (errs, m') \<Rightarrow> errs = [None, None, Some os_ErrInvalid, None, None] \<and>
       registry_Get ''proxy'' m' = None \<and> registry_Get ''direct'' m' = Some (sample_node 3 ''direct'' [])"
proof -
  obtain errs m' where run: "run_calls outbound_Create outbound_Remove sample_calls sample_manager = (errs, m')" by fastforce
  have errs: "fst (run_calls outbound_Create outbound_Remove sample_calls sample_manager) = [None, None, Some os_ErrInvalid, None, None]"
    by code_simp
  have "registry_wf sample_manager" by (simp add: registry_wf_def sample_manager_def)
  from outbound_manager_map [OF this run]
  have "(\<lambda>tag. registry_Get tag m') = fold map_call (zip sample_calls errs) (\<lambda>tag. registry_Get tag sample_manager)"
    by (simp add: sample_calls_def sample_manager_def sample_node_def)
  then have "registry_Get tag m' = fold map_call (zip sample_calls errs) (\<lambda>tag. registry_Get tag sample_manager) tag" for tag
    by metis
  with run errs show ?thesis by (simp add: sample_calls_def registry_Get_def sample_manager_def)
qed

text \<open>So do the managers of inbounds, endpoints and services.\<close>

theorem registry_manager_map:
  assumes "registry_wf m" "run_calls (registry_Create kind) registry_Remove calls m = (errs, m')"
    and "distinct (created_ids calls)" "set (created_ids calls) \<inter> nd_id ` set (rg_items m) = {}"
  shows "registry_wf m' \<and> (\<lambda>tag. registry_Get tag m') = fold map_call (zip calls errs) (\<lambda>tag. registry_Get tag m)"
  using reg.calls_refine_map [OF assms(2,1,3)] assms(4) by (simp add: registry_ids_def)

theorem registry_manager_map_witness:
  "case run_calls (registry_Create ''inbound'') registry_Remove sample_calls NewManager of
     (errs, m') \<Rightarrow> errs = [None, None, Some os_ErrInvalid, None, None] \<and>
       registry_Get ''proxy'' m' = None \<and> registry_Get ''direct'' m' = Some (sample_node 3 ''direct'' [])"
proof -
  obtain errs m' where run: "run_calls (registry_Create ''inbound'') registry_Remove sample_calls NewManager = (errs, m')" by fastforce
  have errs: "fst (run_calls (registry_Create ''inbound'') registry_Remove sample_calls NewManager) = [None, None, Some os_ErrInvalid, None, None]"
    by code_simp
  have "registry_wf NewManager" by (simp add: registry_wf_def NewManager_def)
  from registry_manager_map [OF this run]
  have "(\<lambda>tag. registry_Get tag m') = fold map_call (zip sample_calls errs) (\<lambda>tag. registry_Get tag NewManager)"
    by (simp add: sample_calls_def NewManager_def sample_node_def)
  then have "registry_Get tag m' = fold map_call (zip sample_calls errs) (\<lambda>tag. registry_Get tag NewManager) tag" for tag
    by metis
  with run errs show ?thesis by (simp add: sample_calls_def registry_Get_def NewManager_def)
qed

lemma registry_wf_list:
  assumes "rg_items m = map snd (rg_byTag m)" "distinct (map fst (rg_byTag m))" "distinct (map nd_id (rg_items m))"
  shows "registry_wf m"
proof -
  have "t = t'" if "map_of (rg_byTag m) t = Some n" "map_of (rg_byTag m) t' = Some n'" "nd_id n = nd_id n'" for t t' n n'
    using that assms by (auto simp: distinct_map inj_on_def dest!: map_of_SomeD) (metis Pair_inject snd_conv)
  with assms show ?thesis unfolding registry_wf_def by (auto simp: ran_distinct)
qed

lemma sample_outbounds_wf: "registry_wf sample_outbounds"
proof -
  have "registry_wf sample_manager" by (simp add: registry_wf_def sample_manager_def)
  then show ?thesis
    unfolding sample_outbounds_def
    by (intro conjunct1 [OF out.calls_refine_map [OF surjective_pairing]])
      (auto simp: registry_ids_def sample_manager_def sample_node_def)
qed

text \<open>Removing an outbound that others depend on is answered with an error, but the outbound is gone all the same:
  its tag is not found any more, and it is neither closed nor taken off the lists of dependents.\<close>

theorem outbound_Remove_depended:
  assumes "registry_wf m" "registry_Get tag m = Some n" "om_dependByTag m tag \<noteq> []"
  shows "fst (outbound_Remove tag m) =
      Some (ENew [ArgS ''outbound['', ArgS tag, ArgS ''] is depended by '', ArgS (strings_Join (om_dependByTag m tag) '', '')]) \<and>
    registry_Get tag (snd (outbound_Remove tag m)) = None \<and>
    n \<notin> set (rg_items (snd (outbound_Remove tag m))) \<and>
    om_dependByTag (snd (outbound_Remove tag m)) = om_dependByTag m"
  using assms(2,3) remove_node_the(2) [OF assms(1), of tag n]
  by (auto simp: outbound_Remove_def take_out_cases [OF assms(1)] registry_Get_def delete_conv' depended_by_def Let_def)

theorem outbound_Remove_depended_witness:
  "fst (outbound_Remove ''direct'' sample_outbounds) \<noteq> None \<and>
   registry_Get ''direct'' (snd (outbound_Remove ''direct'' sample_outbounds)) = None"
proof -
  have "registry_Get ''direct'' sample_outbounds = Some (sample_node 1 ''direct'' [])"
    "om_dependByTag sample_outbounds ''direct'' \<noteq> []" by code_simp+
  from outbound_Remove_depended [OF sample_outbounds_wf this] show ?thesis by simp
qed

text \<open>When the default DNS server is removed and the next one in the list is not a fake-ip server, \<^verbatim>\<open>Remove\<close> fails
  with \<^verbatim>\<open>default server cannot be fakeip\<close>, and the server that was just taken out stays the default. The check in the
  code is the wrong way round: a fake-ip server is accepted as the new default.\<close>

theorem transport_Remove_default:
  assumes "registry_wf m" "registry_Get tag m = Some n" "om_default m = Some n"
    and "rg_items (snd (transport_Remove tag m)) = next_transport # others" "nd_Type next_transport \<noteq> FakeIPType"
  shows "fst (transport_Remove tag m) = Some fakeip_default \<and>
    om_default (snd (transport_Remove tag m)) = Some n \<and> registry_Get tag (snd (transport_Remove tag m)) = None"
  using assms(2-)
  by (auto simp: transport_Remove_def take_out_cases [OF assms(1)] registry_Get_def delete_conv' is_default_def Let_def
      split: list.splits if_splits option.splits)

theorem transport_Remove_default_witness:
  "fst (transport_Remove ''local'' sample_transports) = Some fakeip_default \<and>
   om_default (snd (transport_Remove ''local'' sample_transports)) = Some (sample_node 1 ''local'' [])"
proof -
  have "registry_wf sample_transports"
    by (rule registry_wf_list) (simp_all add: sample_transports_def sample_node_def)
  moreover have "registry_Get ''local'' sample_transports = Some (sample_node 1 ''local'' [])"
    "om_default sample_transports = Some (sample_node 1 ''local'' [])"
    "rg_items (snd (transport_Remove ''local'' sample_transports)) = [sample_node 2 ''google'' []]"
    "nd_Type (sample_node 2 ''google'' []) \<noteq> FakeIPType" by code_simp+
  ultimately show ?thesis using transport_Remove_default by blast
qed

lemma replace_existing_default:
  "replace_existing kind tag m = Inr m1 \<Longrightarrow> om_default m1 = om_default m \<and> om_defaultTag m1 = om_defaultTag m"
  by (auto simp: replace_existing_def split: option.splits)

text \<open>Creating an outbound again under the tag of the default outbound, when no default tag is configured, closes
  and replaces the old one in the list, but leaves it as the default outbound.\<close>

theorem outbound_Create_keeps_closed_default:
  assumes "registry_wf m" "om_defaultTag m = []" "registry_Get tag m = Some old" "om_default m = Some old"
    and "nd_id n \<notin> nd_id ` set (rg_items m)" "outbound_Create tag (Inr n) m = (None, m')"
  shows "om_default m' = Some old \<and> old \<notin> set (rg_items m') \<and> registry_Get tag m' = Some n"
proof -
  from assms(6) obtain m1 where m1: "registry_Create ''outbound'' tag (Inr n) m = (None, m1)"
    and m': "m' = m1\<lparr>om_dependByTag := add_dependent tag (nd_Dependencies n) (om_dependByTag m1)\<rparr>
      \<or> m' = m1\<lparr>om_dependByTag := add_dependent tag (nd_Dependencies n) (om_dependByTag m1), om_default := Some n\<rparr>
         \<and> becomes_default tag m1"
    and tag: "tag \<noteq> []"
    by (auto simp: outbound_Create_def Let_def becomes_default_def split: if_splits prod.splits option.splits)
  from m1 obtain m2 where m2: "replace_existing ''outbound'' tag m = Inr m2" "m1 = put_node tag n m2"
    by (auto elim: registry_Create_Some)
  have old: "old \<notin> set (rg_items m2)"
    using conjunct2 [OF conjunct2 [OF replace_existing_items [OF m2(1)]]] assms(1,3) by (auto simp: registry_wf_def registry_Get_def)
  have "old \<in> set (rg_items m)" using assms(1,3) by (auto simp: registry_wf_def registry_Get_def intro: ranI)
  then have "old \<noteq> n" using assms(5) by auto
  moreover have "\<not> becomes_default tag m1"
    using replace_existing_default [OF m2(1)] m2(2) assms(2,4) tag by (simp add: put_node_def becomes_default_def)
  ultimately show ?thesis
    using m' m2(2) old assms(4) replace_existing_default [OF m2(1)] registry_Create_get [OF assms(1) m1, of tag]
    by (simp add: put_node_def)
qed

theorem outbound_Create_keeps_closed_default_witness:
  "om_default (snd (outbound_Create ''direct'' (Inr (sample_node 3 ''direct'' [])) sample_outbounds)) =
     Some (sample_node 1 ''direct'' [])"
proof -
  have "om_defaultTag sample_outbounds = []" "registry_Get ''direct'' sample_outbounds = Some (sample_node 1 ''direct'' [])"
    "om_default sample_outbounds = Some (sample_node 1 ''direct'' [])"
    "nd_id (sample_node 3 ''direct'' []) \<notin> nd_id ` set (rg_items sample_outbounds)"
    "fst (outbound_Create ''direct'' (Inr (sample_node 3 ''direct'' [])) sample_outbounds) = None" by code_simp+
  moreover from this(5) have "outbound_Create ''direct'' (Inr (sample_node 3 ''direct'' [])) sample_outbounds =
    (None, snd (outbound_Create ''direct'' (Inr (sample_node 3 ''direct'' [])) sample_outbounds))" by (metis prod.collapse)
  ultimately show ?thesis using outbound_Create_keeps_closed_default [OF sample_outbounds_wf] by blast
qed

end
