(* ===== verification/FakeIP.thy ===== *)
theory FakeIP
  imports DnsClient SrsRoundtrip
begin

text \<open>
  Fake addresses (\<^verbatim>\<open>dns/transport/fakeip\<close>, \<^verbatim>\<open>adapter/fakeip*.go\<close>, \<^verbatim>\<open>experimental/cachefile/fakeip.go\<close>):
  the store that hands out an address of a reserved range for a domain, its two storages, in memory and in
  the cache file, and the DNS transport that answers with it. A storage is a Go interface, here a record of its
  methods on a state. Of \<^verbatim>\<open>net/netip\<close> the source uses \<^verbatim>\<open>Next\<close>, \<^verbatim>\<open>Contains\<close> and the binary
  marshalling, which are modelled; the buckets of the \<^verbatim>\<open>bbolt\<close> database are maps from bytes to bytes, with
  the documented errors of \<^verbatim>\<open>Put\<close> on an empty key and of \<^verbatim>\<open>DeleteBucket\<close> on a bucket that does not exist.
  A transaction that returns an error changes nothing. The goroutines of the cache file are steps
  of their own.
\<close>

section \<open>Addresses and prefixes\<close>

text \<open>\<^verbatim>\<open>Addr.Next\<close>: the zero address after the last one.\<close>

fun Addr_Next :: "Addr \<Rightarrow> Addr" where
  "Addr_Next AddrZero = AddrZero"
| "Addr_Next (Addr4 a) = (if a + 1 = 0 then AddrZero else Addr4 (a + 1))"
| "Addr_Next (Addr6 a zone) = (if a + 1 = 0 then AddrZero else Addr6 (a + 1) zone)"

definition Prefix_Contains :: "Prefix \<Rightarrow> Addr \<Rightarrow> bool" where
  "Prefix_Contains p ip \<longleftrightarrow> Prefix_IsValid p \<and>
     (case (pfx_Addr p, ip) of
        (Addr4 a, Addr4 b) \<Rightarrow> drop_bit (32 - nat (pfx_Bits p)) a = drop_bit (32 - nat (pfx_Bits p)) b
      | (Addr6 a _, Addr6 b zone) \<Rightarrow>
          zone = [] \<and> drop_bit (128 - nat (pfx_Bits p)) a = drop_bit (128 - nat (pfx_Bits p)) b
      | _ \<Rightarrow> False)"

definition string_bytes :: "string \<Rightarrow> bytes" where
  "string_bytes s = map of_char s"

definition bytes_string :: "bytes \<Rightarrow> string" where
  "bytes_string bs = map (\<lambda>b. char_of (unat b)) bs"

fun Addr_MarshalBinary :: "Addr \<Rightarrow> bytes" where
  "Addr_MarshalBinary AddrZero = []"
| "Addr_MarshalBinary (Addr4 a) = put_be 4 a"
| "Addr_MarshalBinary (Addr6 a zone) = put_be 16 a @ string_bytes zone"

definition Addr_UnmarshalBinary :: "bytes \<Rightarrow> Addr res" where
  "Addr_UnmarshalBinary b =
     (if length b = 0 then Inr AddrZero
      else if length b = 4 then Inr (Addr4 (get_be 0 b))
      else if length b \<ge> 16 then Inr (Addr6 (get_be 0 (take 16 b)) (bytes_string (drop 16 b)))
      else Inl (EExternal ''unexpected slice size''))"

definition Prefix_MarshalBinary :: "Prefix \<Rightarrow> bytes" where
  "Prefix_MarshalBinary p = Addr_MarshalBinary (Addr_withoutZone (pfx_Addr p)) @ [word_of_int (pfx_Bits p)]"

definition Prefix_UnmarshalBinary :: "bytes \<Rightarrow> Prefix res" where
  "Prefix_UnmarshalBinary b =
     (if b = [] then Inl (EExternal ''unexpected slice size'')
      else res_bind (Addr_UnmarshalBinary (butlast b)) (\<lambda>addr. Inr (PrefixFrom addr (uint (last b)))))"

section \<open>The metadata of a store\<close>

record FakeIPMetadata =
  fm_Inet4Range :: Prefix
  fm_Inet6Range :: Prefix
  fm_Inet4Current :: Addr
  fm_Inet6Current :: Addr

definition put_element :: "bytes \<Rightarrow> bytes" where
  "put_element data = put_be 2 (of_nat (length data) :: u16) @ data"

definition FakeIPMetadata_MarshalBinary :: "FakeIPMetadata \<Rightarrow> bytes" where
  "FakeIPMetadata_MarshalBinary m =
     concat (map put_element
       [Prefix_MarshalBinary (fm_Inet4Range m), Prefix_MarshalBinary (fm_Inet6Range m),
        Addr_MarshalBinary (fm_Inet4Current m), Addr_MarshalBinary (fm_Inet6Current m)])"

text \<open>The length is read under \<^verbatim>\<open>common.Must\<close>, which panics when the bytes end.\<close>

definition read_element :: "bytes reader" where
  "read_element bs =
     (if length bs < 2 then Inl (GoPanic [ArgE (if bs = [] then io_EOF else EUnexpectedEOF)])
      else
        let n = unat (get_be 0 (take 2 bs) :: u16); rest = drop 2 bs
        in if length rest < n then Inl (if rest = [] then io_EOF else EUnexpectedEOF)
           else Inr (take n rest, drop n rest))"

definition FakeIPMetadata_UnmarshalBinary :: "bytes \<Rightarrow> FakeIPMetadata res" where
  "FakeIPMetadata_UnmarshalBinary data =
     res_bind (read_element data) (\<lambda>(e, bs). res_bind (Prefix_UnmarshalBinary e) (\<lambda>inet4Range.
     res_bind (read_element bs) (\<lambda>(e, bs). res_bind (Prefix_UnmarshalBinary e) (\<lambda>inet6Range.
     res_bind (read_element bs) (\<lambda>(e, bs). res_bind (Addr_UnmarshalBinary e) (\<lambda>inet4Current.
     res_bind (read_element bs) (\<lambda>(e, bs). res_bind (Addr_UnmarshalBinary e) (\<lambda>inet6Current.
     Inr \<lparr>fm_Inet4Range = inet4Range, fm_Inet6Range = inet6Range,
          fm_Inet4Current = inet4Current, fm_Inet6Current = inet6Current\<rparr>))))))))"

section \<open>Storages\<close>

record 's FakeIPStorage =
  sto_Metadata :: "'s \<Rightarrow> FakeIPMetadata option res \<times> 's"
  sto_SaveMetadata :: "FakeIPMetadata \<Rightarrow> 's \<Rightarrow> goerr option \<times> 's"
  sto_SaveMetadataAsync :: "FakeIPMetadata \<Rightarrow> 's \<Rightarrow> 's"
  sto_StoreAsync :: "Addr \<Rightarrow> string \<Rightarrow> 's \<Rightarrow> 's"
  sto_Load :: "Addr \<Rightarrow> 's \<Rightarrow> string option"
  sto_LoadDomain :: "string \<Rightarrow> bool \<Rightarrow> 's \<Rightarrow> Addr option"
  sto_Reset :: "'s \<Rightarrow> goerr option \<times> 's"

subsection \<open>In memory\<close>

record MemoryStorage =
  mem_addressCache :: "Addr \<Rightarrow> string option"
  mem_domainCache4 :: "string \<Rightarrow> Addr option"
  mem_domainCache6 :: "string \<Rightarrow> Addr option"

definition NewMemoryStorage :: MemoryStorage where
  "NewMemoryStorage = \<lparr>mem_addressCache = Map.empty, mem_domainCache4 = Map.empty, mem_domainCache6 = Map.empty\<rparr>"

definition MemoryStorage_Store :: "Addr \<Rightarrow> string \<Rightarrow> MemoryStorage \<Rightarrow> MemoryStorage" where
  "MemoryStorage_Store address domain s =
     (let s = (case mem_addressCache s address of
                 None \<Rightarrow> s
               | Some oldDomain \<Rightarrow>
                   if Addr_Is4 address then s\<lparr>mem_domainCache4 := (mem_domainCache4 s)(oldDomain := None)\<rparr>
                   else s\<lparr>mem_domainCache6 := (mem_domainCache6 s)(oldDomain := None)\<rparr>);
          s = s\<lparr>mem_addressCache := (mem_addressCache s)(address \<mapsto> domain)\<rparr>
      in if Addr_Is4 address then s\<lparr>mem_domainCache4 := (mem_domainCache4 s)(domain \<mapsto> address)\<rparr>
         else s\<lparr>mem_domainCache6 := (mem_domainCache6 s)(domain \<mapsto> address)\<rparr>)"

definition MemoryStorage_LoadDomain :: "string \<Rightarrow> bool \<Rightarrow> MemoryStorage \<Rightarrow> Addr option" where
  "MemoryStorage_LoadDomain domain isIPv6 s =
     (if \<not> isIPv6 then mem_domainCache4 s domain else mem_domainCache6 s domain)"

definition memory_storage :: "MemoryStorage FakeIPStorage" where
  "memory_storage =
     \<lparr>sto_Metadata = (\<lambda>s. (Inr None, s)), sto_SaveMetadata = (\<lambda>metadata s. (None, s)),
      sto_SaveMetadataAsync = (\<lambda>metadata s. s), sto_StoreAsync = MemoryStorage_Store,
      sto_Load = (\<lambda>address s. mem_addressCache s address), sto_LoadDomain = MemoryStorage_LoadDomain,
      sto_Reset = (\<lambda>s. (None, NewMemoryStorage))\<rparr>"

subsection \<open>In the cache file\<close>

type_synonym bucket = "bytes \<Rightarrow> bytes option"

record fakeip_db =
  db_FakeIP :: "bucket option"
  db_FakeIPDomain4 :: "bucket option"
  db_FakeIPDomain6 :: "bucket option"

text \<open>The maps hold what the goroutines that are still running, \<open>cf_saving\<close>, are going to store.
  \<open>cf_saveMetadataTimer\<close> is the metadata that the function of the timer has captured.\<close>

record FakeIPCache =
  cf_DB :: fakeip_db
  cf_saveDomain :: "Addr \<Rightarrow> string option"
  cf_saveAddress4 :: "string \<Rightarrow> Addr option"
  cf_saveAddress6 :: "string \<Rightarrow> Addr option"
  cf_saving :: "(Addr \<times> string) list"
  cf_saveMetadataTimer :: "FakeIPMetadata option"

definition keyMetadata :: bytes where
  "keyMetadata = string_bytes ''fakeip_metadata''"

definition create_bucket :: "bucket option \<Rightarrow> bucket" where
  "create_bucket b = (case b of Some b \<Rightarrow> b | None \<Rightarrow> Map.empty)"

definition bucket_Put :: "bytes \<Rightarrow> bytes \<Rightarrow> bucket \<Rightarrow> bucket res" where
  "bucket_Put key v b = (if key = [] then Inl (EExternal ''key required'') else Inr (b(key \<mapsto> v)))"

definition CacheFile_FakeIPMetadata :: "FakeIPCache \<Rightarrow> FakeIPMetadata option res \<times> FakeIPCache" where
  "CacheFile_FakeIPMetadata c =
     (case db_FakeIP (cf_DB c) of
        None \<Rightarrow> (Inr None, c)
      | Some bucket \<Rightarrow>
          (case bucket keyMetadata of
             None \<Rightarrow> (Inr None, c)
           | Some metadataBinary \<Rightarrow>
               if metadataBinary = [] then (Inr None, c)
               else case FakeIPMetadata_UnmarshalBinary metadataBinary of
                 Inl (GoPanic args) \<Rightarrow> (Inl (GoPanic args), c)
               | Inl err \<Rightarrow> (Inr None, c)
               | Inr metadata \<Rightarrow>
                   (Inr (Some metadata), c\<lparr>cf_DB := (cf_DB c)\<lparr>db_FakeIP := Some (bucket(keyMetadata := None))\<rparr>\<rparr>)))"

definition CacheFile_FakeIPSaveMetadata :: "FakeIPMetadata \<Rightarrow> FakeIPCache \<Rightarrow> goerr option \<times> FakeIPCache" where
  "CacheFile_FakeIPSaveMetadata metadata c =
     (case bucket_Put keyMetadata (FakeIPMetadata_MarshalBinary metadata) (create_bucket (db_FakeIP (cf_DB c))) of
        Inl err \<Rightarrow> (Some err, c)
      | Inr bucket \<Rightarrow> (None, c\<lparr>cf_DB := (cf_DB c)\<lparr>db_FakeIP := Some bucket\<rparr>\<rparr>))"

definition CacheFile_FakeIPSaveMetadataAsync :: "FakeIPMetadata \<Rightarrow> FakeIPCache \<Rightarrow> FakeIPCache" where
  "CacheFile_FakeIPSaveMetadataAsync metadata c =
     (case cf_saveMetadataTimer c of
        None \<Rightarrow> c\<lparr>cf_saveMetadataTimer := Some metadata\<rparr>
      | Some captured \<Rightarrow> c)"

text \<open>The timer fires.\<close>

definition save_metadata_timer :: "FakeIPCache \<Rightarrow> FakeIPCache" where
  "save_metadata_timer c =
     (case cf_saveMetadataTimer c of
        None \<Rightarrow> c
      | Some captured \<Rightarrow> snd (CacheFile_FakeIPSaveMetadata captured c))"

definition delete_old :: "bytes option \<Rightarrow> bucket \<Rightarrow> bucket" where
  "delete_old oldDomain b = (case oldDomain of None \<Rightarrow> b | Some old \<Rightarrow> b(old := None))"

definition CacheFile_FakeIPStore :: "Addr \<Rightarrow> string \<Rightarrow> fakeip_db \<Rightarrow> fakeip_db res" where
  "CacheFile_FakeIPStore address domain db =
     (let bucket = create_bucket (db_FakeIP db);
          oldDomain = bucket (Addr_AsSlice address)
      in res_bind (bucket_Put (Addr_AsSlice address) (string_bytes domain) bucket) (\<lambda>bucket.
         let domains = create_bucket (if Addr_Is4 address then db_FakeIPDomain4 db else db_FakeIPDomain6 db)
         in res_bind (bucket_Put (string_bytes domain) (Addr_AsSlice address) (delete_old oldDomain domains)) (\<lambda>domains.
            Inr (if Addr_Is4 address then db\<lparr>db_FakeIP := Some bucket, db_FakeIPDomain4 := Some domains\<rparr>
                 else db\<lparr>db_FakeIP := Some bucket, db_FakeIPDomain6 := Some domains\<rparr>))))"

definition CacheFile_FakeIPStoreAsync :: "Addr \<Rightarrow> string \<Rightarrow> FakeIPCache \<Rightarrow> FakeIPCache" where
  "CacheFile_FakeIPStoreAsync address domain c =
     (let c = (case cf_saveDomain c address of
                 None \<Rightarrow> c
               | Some oldDomain \<Rightarrow>
                   if Addr_Is4 address then c\<lparr>cf_saveAddress4 := (cf_saveAddress4 c)(oldDomain := None)\<rparr>
                   else c\<lparr>cf_saveAddress6 := (cf_saveAddress6 c)(oldDomain := None)\<rparr>);
          c = c\<lparr>cf_saveDomain := (cf_saveDomain c)(address \<mapsto> domain)\<rparr>;
          c = (if Addr_Is4 address then c\<lparr>cf_saveAddress4 := (cf_saveAddress4 c)(domain \<mapsto> address)\<rparr>
               else c\<lparr>cf_saveAddress6 := (cf_saveAddress6 c)(domain \<mapsto> address)\<rparr>)
      in c\<lparr>cf_saving := cf_saving c @ [(address, domain)]\<rparr>)"

text \<open>One of the goroutines stores its entry and takes it out of the maps; an error is only logged.\<close>

definition save_entry :: "Addr \<times> string \<Rightarrow> FakeIPCache \<Rightarrow> FakeIPCache" where
  "save_entry e c =
     (case e of (address, domain) \<Rightarrow>
        let c = (case CacheFile_FakeIPStore address domain (cf_DB c) of Inl err \<Rightarrow> c | Inr db \<Rightarrow> c\<lparr>cf_DB := db\<rparr>);
            c = c\<lparr>cf_saveDomain := (cf_saveDomain c)(address := None), cf_saving := remove1 e (cf_saving c)\<rparr>
        in if Addr_Is4 address then c\<lparr>cf_saveAddress4 := (cf_saveAddress4 c)(domain := None)\<rparr>
           else c\<lparr>cf_saveAddress6 := (cf_saveAddress6 c)(domain := None)\<rparr>)"

definition CacheFile_FakeIPLoad :: "Addr \<Rightarrow> FakeIPCache \<Rightarrow> string option" where
  "CacheFile_FakeIPLoad address c =
     (case cf_saveDomain c address of
        Some cachedDomain \<Rightarrow> Some cachedDomain
      | None \<Rightarrow>
          (case db_FakeIP (cf_DB c) of
             None \<Rightarrow> None
           | Some bucket \<Rightarrow>
               (case bucket (Addr_AsSlice address) of
                  None \<Rightarrow> None
                | Some domain \<Rightarrow> if domain = [] then None else Some (bytes_string domain))))"

inductive cache_step :: "FakeIPCache \<Rightarrow> FakeIPCache \<Rightarrow> bool" where
  step_save: "e \<in> set (cf_saving c) \<Longrightarrow> cache_step c (save_entry e c)"
| step_timer: "cf_saveMetadataTimer c \<noteq> None \<Longrightarrow> cache_step c (save_metadata_timer c)"

text \<open>\<^verbatim>\<open>M.AddrFromIP\<close> is a function of another package.\<close>

definition CacheFile_FakeIPLoadDomain :: "(bytes \<Rightarrow> Addr) \<Rightarrow> string \<Rightarrow> bool \<Rightarrow> FakeIPCache \<Rightarrow> Addr option" where
  "CacheFile_FakeIPLoadDomain addrFromIP domain isIPv6 c =
     (case (if \<not> isIPv6 then cf_saveAddress4 c domain else cf_saveAddress6 c domain) of
        Some cachedAddress \<Rightarrow> Some cachedAddress
      | None \<Rightarrow>
          (case (if isIPv6 then db_FakeIPDomain6 (cf_DB c) else db_FakeIPDomain4 (cf_DB c)) of
             None \<Rightarrow> None
           | Some bucket \<Rightarrow>
               let address = addrFromIP (case bucket (string_bytes domain) of Some v \<Rightarrow> v | None \<Rightarrow> [])
               in if Addr_IsValid address then Some address else None))"

definition bucket_not_found :: goerr where
  "bucket_not_found = EExternal ''bucket not found''"

definition CacheFile_FakeIPReset :: "FakeIPCache \<Rightarrow> goerr option \<times> FakeIPCache" where
  "CacheFile_FakeIPReset c =
     (if db_FakeIP (cf_DB c) = None \<or> db_FakeIPDomain4 (cf_DB c) = None \<or> db_FakeIPDomain6 (cf_DB c) = None
      then (Some bucket_not_found, c)
      else (None, c\<lparr>cf_DB := \<lparr>db_FakeIP = None, db_FakeIPDomain4 = None, db_FakeIPDomain6 = None\<rparr>\<rparr>))"

definition cache_storage :: "(bytes \<Rightarrow> Addr) \<Rightarrow> FakeIPCache FakeIPStorage" where
  "cache_storage addrFromIP =
     \<lparr>sto_Metadata = CacheFile_FakeIPMetadata, sto_SaveMetadata = CacheFile_FakeIPSaveMetadata,
      sto_SaveMetadataAsync = CacheFile_FakeIPSaveMetadataAsync, sto_StoreAsync = CacheFile_FakeIPStoreAsync,
      sto_Load = CacheFile_FakeIPLoad, sto_LoadDomain = CacheFile_FakeIPLoadDomain addrFromIP,
      sto_Reset = CacheFile_FakeIPReset\<rparr>"

section \<open>The store\<close>

record 's Store =
  st_inet4Range :: Prefix
  st_inet6Range :: Prefix
  st_storage :: "'s option"
  st_inet4Current :: Addr
  st_inet6Current :: Addr

definition NewStore :: "Prefix \<Rightarrow> Prefix \<Rightarrow> 's Store" where
  "NewStore inet4Range inet6Range =
     \<lparr>st_inet4Range = inet4Range, st_inet6Range = inet6Range, st_storage = None,
      st_inet4Current = AddrZero, st_inet6Current = AddrZero\<rparr>"

definition third_address :: "Prefix \<Rightarrow> Addr" where
  "third_address p = Addr_Next (Addr_Next (pfx_Addr p))"

definition restart_store :: "'s Store \<Rightarrow> 's Store" where
  "restart_store s =
     s\<lparr>st_inet4Current := if Prefix_IsValid (st_inet4Range s) then third_address (st_inet4Range s) else st_inet4Current s,
       st_inet6Current := if Prefix_IsValid (st_inet6Range s) then third_address (st_inet6Range s) else st_inet6Current s\<rparr>"

text \<open>The storage is that of the cache file, when there is one and it stores fake addresses, and a new one in
  memory otherwise.\<close>

definition Store_Start :: "'s FakeIPStorage \<Rightarrow> 's \<Rightarrow> 's Store \<Rightarrow> goerr option \<times> 's Store" where
  "Store_Start ops storage s =
     (case sto_Metadata ops storage of
        (Inl err, storage) \<Rightarrow> (Some err, s)
      | (Inr metadata, storage) \<Rightarrow>
          (case metadata of
             Some m \<Rightarrow>
               if fm_Inet4Range m = st_inet4Range s \<and> fm_Inet6Range m = st_inet6Range s
               then (None, s\<lparr>st_inet4Current := fm_Inet4Current m, st_inet6Current := fm_Inet6Current m,
                            st_storage := Some storage\<rparr>)
               else (None, (restart_store s)\<lparr>st_storage := Some (snd (sto_Reset ops storage))\<rparr>)
           | None \<Rightarrow> (None, (restart_store s)\<lparr>st_storage := Some (snd (sto_Reset ops storage))\<rparr>)))"

definition Store_Contains :: "'s Store \<Rightarrow> Addr \<Rightarrow> bool" where
  "Store_Contains s address \<longleftrightarrow> Prefix_Contains (st_inet4Range s) address \<or> Prefix_Contains (st_inet6Range s) address"

definition Store_metadata :: "'s Store \<Rightarrow> FakeIPMetadata" where
  "Store_metadata s =
     \<lparr>fm_Inet4Range = st_inet4Range s, fm_Inet6Range = st_inet6Range s,
      fm_Inet4Current = st_inet4Current s, fm_Inet6Current = st_inet6Current s\<rparr>"

definition Store_Close :: "'s FakeIPStorage \<Rightarrow> 's Store \<Rightarrow> goerr option \<times> 's Store" where
  "Store_Close ops s =
     (case st_storage s of
        None \<Rightarrow> (None, s)
      | Some storage \<Rightarrow>
          (case sto_SaveMetadata ops (Store_metadata s) storage of
             (err, storage) \<Rightarrow> (err, s\<lparr>st_storage := Some storage\<rparr>)))"

definition next_address :: "Prefix \<Rightarrow> Addr \<Rightarrow> Addr" where
  "next_address p current =
     (if Prefix_Contains p (Addr_Next current) then Addr_Next current else third_address p)"

definition Store_allocate :: "bool \<Rightarrow> 's Store \<Rightarrow> (Addr \<times> 's Store) res" where
  "Store_allocate isIPv6 s =
     (if \<not> isIPv6 then
        if \<not> Addr_IsValid (st_inet4Current s) then Inl (ENew [ArgS ''missing IPv4 fakeip address range''])
        else let nextAddress = next_address (st_inet4Range s) (st_inet4Current s)
             in Inr (nextAddress, s\<lparr>st_inet4Current := nextAddress\<rparr>)
      else
        if \<not> Addr_IsValid (st_inet6Current s) then Inl (ENew [ArgS ''missing IPv6 fakeip address range''])
        else let nextAddress = next_address (st_inet6Range s) (st_inet6Current s)
             in Inr (nextAddress, s\<lparr>st_inet6Current := nextAddress\<rparr>))"

definition Store_Create :: "'s FakeIPStorage \<Rightarrow> string \<Rightarrow> bool \<Rightarrow> 's Store \<Rightarrow> Addr res \<times> 's Store" where
  "Store_Create ops domain isIPv6 s =
     (case st_storage s of
        None \<Rightarrow> (Inl nil_dereference, s)
      | Some storage \<Rightarrow>
          (case sto_LoadDomain ops domain isIPv6 storage of
             Some address \<Rightarrow> (Inr address, s)
           | None \<Rightarrow>
               (case Store_allocate isIPv6 s of
                  Inl err \<Rightarrow> (Inl err, s)
                | Inr (address, s) \<Rightarrow>
                    (Inr address,
                     s\<lparr>st_storage := Some (sto_SaveMetadataAsync ops (Store_metadata s)
                                           (sto_StoreAsync ops address domain storage))\<rparr>))))"

definition Store_Lookup :: "'s FakeIPStorage \<Rightarrow> Addr \<Rightarrow> 's Store \<Rightarrow> string option" where
  "Store_Lookup ops address s =
     (case st_storage s of None \<Rightarrow> None | Some storage \<Rightarrow> sto_Load ops address storage)"

definition Store_Reset :: "'s FakeIPStorage \<Rightarrow> 's Store \<Rightarrow> goerr option \<times> 's Store" where
  "Store_Reset ops s =
     (case st_storage s of
        None \<Rightarrow> (Some nil_dereference, s)
      | Some storage \<Rightarrow> (case sto_Reset ops storage of (err, storage) \<Rightarrow> (err, s\<lparr>st_storage := Some storage\<rparr>)))"

section \<open>The transport\<close>

definition DefaultDNSTTL :: u32 where "DefaultDNSTTL = 600"

definition FakeIP_Exchange ::
  "dns_deps \<Rightarrow> 's FakeIPStorage \<Rightarrow> Msg \<Rightarrow> 's Store \<Rightarrow> Msg res \<times> 's Store" where
  "FakeIP_Exchange dd ops message s =
     (case msg_Question message of
        [] \<Rightarrow> (Inl (GoPanic [ArgS ''index out of range'']), s)
      | question # _ \<Rightarrow>
          if q_Qtype question \<noteq> TypeA \<and> q_Qtype question \<noteq> TypeAAAA
          then (Inl (ENew [ArgS ''only IP queries are supported by fakeip'']), s)
          else case Store_Create ops (FqdnToDomain dd (q_Name question)) (q_Qtype question = TypeAAAA) s of
            (Inl err, s) \<Rightarrow> (Inl err, s)
          | (Inr address, s) \<Rightarrow> (Inr (FixedResponse (msg_Id message) question [address] DefaultDNSTTL), s))"

section \<open>The contract of a storage\<close>

lemma Addr_Is4_iff: "Addr_Is4 a \<longleftrightarrow> (\<exists>x. a = Addr4 x)"
  by (cases a) auto

lemma Prefix_Contains_family: "Prefix_Contains p a \<Longrightarrow> Addr_Is4 a = Addr_Is4 (pfx_Addr p) \<and> Addr_IsValid a"
  by (auto simp: Prefix_Contains_def split: Addr.splits)

text \<open>A range that can be used: its third address lies in it.\<close>

definition usable :: "Prefix \<Rightarrow> bool" where
  "usable p \<longleftrightarrow> Prefix_Contains p (third_address p)"

lemma next_address_in: "usable p \<Longrightarrow> Prefix_Contains p (next_address p current)"
  by (simp add: usable_def next_address_def)

text \<open>The ranges of a store fit its current addresses.\<close>

definition ranges_ok :: "'s Store \<Rightarrow> bool" where
  "ranges_ok s \<longleftrightarrow>
     (Addr_IsValid (st_inet4Current s) \<longrightarrow> usable (st_inet4Range s) \<and> Addr_Is4 (pfx_Addr (st_inet4Range s))) \<and>
     (Addr_IsValid (st_inet6Current s) \<longrightarrow> usable (st_inet6Range s) \<and> \<not> Addr_Is4 (pfx_Addr (st_inet6Range s)))"

lemma Store_allocate_ok:
  assumes "ranges_ok s" "Store_allocate isIPv6 s = Inr (a, s')"
  shows "Store_Contains s a" "isIPv6 = (\<not> Addr_Is4 a)" "ranges_ok s'" "Addr_IsValid a"
    "st_inet4Range s' = st_inet4Range s" "st_inet6Range s' = st_inet6Range s" "st_storage s' = st_storage s"
  using assms next_address_in Prefix_Contains_family
  by (auto simp: Store_allocate_def ranges_ok_def Store_Contains_def Let_def split: if_splits)

text \<open>The entries of a store: a domain leads to an address of the right family in the ranges, and the address back to the
  domain.\<close>

definition entries_ok :: "'s FakeIPStorage \<Rightarrow> 's Store \<Rightarrow> bool" where
  "entries_ok ops s \<longleftrightarrow>
     (\<exists>st. st_storage s = Some st \<and>
        (\<forall>d v6 a. sto_LoadDomain ops d v6 st = Some a \<longrightarrow>
           sto_Load ops a st = Some d \<and> v6 = (\<not> Addr_Is4 a) \<and> Store_Contains s a))"

text \<open>What the store relies on: an entry that was stored is found by its address and by its domain, no other address is
  affected, and saving the metadata affects no entry.\<close>

locale fakeip_storage =
  fixes ops :: "'s FakeIPStorage"
  assumes load_store: "sto_Load ops a (sto_StoreAsync ops address domain s) =
      (if a = address then Some domain else sto_Load ops a s)"
    and domain_store: "sto_LoadDomain ops domain (\<not> Addr_Is4 address) (sto_StoreAsync ops address domain s) = Some address"
    and load_metadata: "sto_Load ops a (sto_SaveMetadataAsync ops m s) = sto_Load ops a s"
    and domain_metadata: "sto_LoadDomain ops domain v6 (sto_SaveMetadataAsync ops m s) = sto_LoadDomain ops domain v6 s"
begin

text \<open>A new address is found under its domain, stays that of the domain, and takes nothing from the others.\<close>

lemma create_new:
  assumes "ranges_ok s" "st_storage s = Some st" "sto_LoadDomain ops domain v6 st = None"
    and "Store_Create ops domain v6 s = (Inr a, s')"
  shows "Store_Lookup ops a s' = Some domain" "Store_Contains s' a" "v6 = (\<not> Addr_Is4 a)"
    "a' \<noteq> a \<Longrightarrow> Store_Lookup ops a' s' = Store_Lookup ops a' s"
    "Store_Create ops domain v6 s' = (Inr a, s')"
proof -
  from assms(2-) obtain s1 where s1: "Store_allocate v6 s = Inr (a, s1)"
    and s': "s' = s1\<lparr>st_storage := Some (sto_SaveMetadataAsync ops (Store_metadata s1) (sto_StoreAsync ops a domain st))\<rparr>"
    by (auto simp: Store_Create_def split: sum.splits prod.splits)
  note ok = Store_allocate_ok [OF assms(1) s1]
  show "Store_Lookup ops a s' = Some domain" by (simp add: s' Store_Lookup_def load_metadata load_store)
  show "Store_Contains s' a" using ok by (simp add: s' Store_Contains_def)
  show v6: "v6 = (\<not> Addr_Is4 a)" by (fact ok)
  show "Store_Lookup ops a' s' = Store_Lookup ops a' s" if "a' \<noteq> a"
    using that assms(2) by (simp add: s' Store_Lookup_def load_metadata load_store)
  show "Store_Create ops domain v6 s' = (Inr a, s')"
    by (simp add: s' Store_Create_def domain_metadata domain_store v6)
qed

end

text \<open>A storage that also forgets the old domain of an address at once.\<close>

locale consistent_storage = fakeip_storage +
  assumes domain_store_other: "sto_LoadDomain ops d v6 (sto_StoreAsync ops address domain s) =
      (if v6 = Addr_Is4 address then sto_LoadDomain ops d v6 s
       else if d = domain then Some address
       else if sto_Load ops address s = Some d then None
       else sto_LoadDomain ops d v6 s)"
begin

lemma create_keeps:
  assumes "ranges_ok s" "entries_ok ops s" "Store_Create ops domain v6 s = (r, s')"
  shows "ranges_ok s' \<and> entries_ok ops s'"
proof -
  obtain st where st: "st_storage s = Some st"
    and entries: "\<And>d v6 a. sto_LoadDomain ops d v6 st = Some a \<Longrightarrow>
        sto_Load ops a st = Some d \<and> v6 = (\<not> Addr_Is4 a) \<and> Store_Contains s a"
    using assms(2) unfolding entries_ok_def by blast
  show ?thesis
  proof (cases "\<exists>a s1. sto_LoadDomain ops domain v6 st = None \<and> Store_allocate v6 s = Inr (a, s1)")
    case True
    then obtain a s1 where new: "sto_LoadDomain ops domain v6 st = None" "Store_allocate v6 s = Inr (a, s1)" by blast
    note ok = Store_allocate_ok [OF assms(1) new(2)]
    have s': "s' = s1\<lparr>st_storage := Some (sto_SaveMetadataAsync ops (Store_metadata s1) (sto_StoreAsync ops a domain st))\<rparr>"
      using assms(3) st new by (simp add: Store_Create_def)
    have "sto_Load ops b (sto_StoreAsync ops a domain st) = Some d \<and> v = (\<not> Addr_Is4 b) \<and> Store_Contains s b"
      if "sto_LoadDomain ops d v (sto_StoreAsync ops a domain st) = Some b" for d v b
    proof (cases "v \<noteq> Addr_Is4 a \<and> d = domain")
      case True
      with that ok(1) show ?thesis by (simp add: domain_store_other load_store)
    next
      case False
      with that have b: "sto_LoadDomain ops d v st = Some b" and "v = Addr_Is4 a \<or> sto_Load ops a st \<noteq> Some d"
        by (simp_all add: domain_store_other split: if_splits)
      with entries [OF b] have "b \<noteq> a" by auto
      with entries [OF b] show ?thesis by (simp add: load_store)
    qed
    then show ?thesis
      using ok by (simp add: s' entries_ok_def load_metadata domain_metadata Store_Contains_def ranges_ok_def)
  next
    case False
    with assms st have "s' = s" by (auto simp: Store_Create_def split: option.splits sum.splits)
    with assms show ?thesis by simp
  qed
qed

lemma create_found:
  assumes "ranges_ok s" "entries_ok ops s" "Store_Create ops domain v6 s = (Inr a, s')"
  shows "Store_Lookup ops a s' = Some domain" "Store_Contains s' a" "v6 = (\<not> Addr_Is4 a)"
    "Store_Create ops domain v6 s' = (Inr a, s')"
proof -
  obtain st where st: "st_storage s = Some st" using assms(2) unfolding entries_ok_def by blast
  have "Store_Lookup ops a s' = Some domain \<and> Store_Contains s' a \<and> v6 = (\<not> Addr_Is4 a) \<and>
    Store_Create ops domain v6 s' = (Inr a, s')"
  proof (cases "sto_LoadDomain ops domain v6 st")
    case None
    from create_new [OF assms(1) st None assms(3)] show ?thesis by simp
  next
    case (Some b)
    with assms(3) st have "b = a" "s' = s" by (simp_all add: Store_Create_def)
    with Some assms(2) st show ?thesis by (simp add: entries_ok_def Store_Lookup_def Store_Create_def)
  qed
  then show "Store_Lookup ops a s' = Some domain" "Store_Contains s' a" "v6 = (\<not> Addr_Is4 a)"
    "Store_Create ops domain v6 s' = (Inr a, s')" by blast+
qed

end

lemmas storage_defs = MemoryStorage_Store_def MemoryStorage_LoadDomain_def CacheFile_FakeIPStoreAsync_def
  CacheFile_FakeIPLoad_def CacheFile_FakeIPLoadDomain_def CacheFile_FakeIPSaveMetadataAsync_def

interpretation mem: consistent_storage memory_storage
  by unfold_locales (auto simp: memory_storage_def storage_defs Let_def split: option.splits)

interpretation cache: fakeip_storage "cache_storage addrFromIP" for addrFromIP
  by unfold_locales (auto simp: cache_storage_def storage_defs Let_def split: option.splits)

end
