(* ===== verification/FakeIPProps.thy ===== *)
theory FakeIPProps
  imports FakeIP Router
begin

text \<open>
  Properties of the fake addresses: the way of a domain through the DNS answer and back in the router, the order in
  which addresses are handed out, the metadata in the cache file, and the goroutines of the cache file.
\<close>

section \<open>Samples\<close>

definition sample_range4 :: Prefix where
  "sample_range4 = \<lparr>pfx_Addr = Addr4 0xC6120000, pfx_Bits = 29\<rparr>"

definition sample_range6 :: Prefix where
  "sample_range6 = \<lparr>pfx_Addr = Addr6 0xFC000000000000000000000000000000 [], pfx_Bits = 18\<rparr>"

definition sample_store :: "MemoryStorage Store" where
  "sample_store = snd (Store_Start memory_storage NewMemoryStorage (NewStore sample_range4 sample_range6))"

definition sample_cache :: FakeIPCache where
  "sample_cache = \<lparr>cf_DB = \<lparr>db_FakeIP = Some [Addr_AsSlice (Addr4 0xC6120003) \<mapsto> string_bytes ''a.example''],
       db_FakeIPDomain4 = Some [string_bytes ''a.example'' \<mapsto> Addr_AsSlice (Addr4 0xC6120003)], db_FakeIPDomain6 = None\<rparr>,
     cf_saveDomain = Map.empty, cf_saveAddress4 = Map.empty, cf_saveAddress6 = Map.empty, cf_saving = [],
     cf_saveMetadataTimer = None\<rparr>"

definition sample_cache_store :: "FakeIPCache Store" where
  "sample_cache_store = \<lparr>st_inet4Range = sample_range4, st_inet6Range = Prefix_zero, st_storage = Some sample_cache,
     st_inet4Current = Addr4 0xC6120003, st_inet6Current = AddrZero\<rparr>"

text \<open>What \<^verbatim>\<open>M.AddrFromIP\<close> does on the bytes of an address.\<close>

definition sample_AddrFromIP :: "bytes \<Rightarrow> Addr" where
  "sample_AddrFromIP bs = (case Addr_UnmarshalBinary bs of Inl e \<Rightarrow> AddrZero | Inr a \<Rightarrow> a)"

section \<open>From the DNS answer to the routed domain\<close>

definition started_ok :: "'s FakeIPStorage \<Rightarrow> 's Store \<Rightarrow> bool" where
  "started_ok ops s \<longleftrightarrow> ranges_ok s \<and> entries_ok ops s"

text \<open>What the rest of the program sees of a store.\<close>

definition store_view :: "'s FakeIPStorage \<Rightarrow> 's Store \<Rightarrow> FakeIPStore" where
  "store_view ops s = \<lparr>fs_Contains = Store_Contains s, fs_Lookup = (\<lambda>a. Store_Lookup ops a s)\<rparr>"

lemma memory_started:
  assumes "\<not> Prefix_IsValid inet4Range \<or> usable inet4Range \<and> Addr_Is4 (pfx_Addr inet4Range)"
    and "\<not> Prefix_IsValid inet6Range \<or> usable inet6Range \<and> \<not> Addr_Is4 (pfx_Addr inet6Range)"
  shows "started_ok memory_storage (snd (Store_Start memory_storage NewMemoryStorage (NewStore inet4Range inet6Range)))"
  using assms
  by (auto simp: started_ok_def ranges_ok_def entries_ok_def Store_Start_def memory_storage_def restart_store_def NewStore_def
      NewMemoryStorage_def MemoryStorage_LoadDomain_def)

text \<open>C6. The contract of the fake addresses holds at the start and through every query: with ranges whose third address
  lies in them, the store in memory keeps, whatever is asked for, that a domain has at most one address of each family,
  that the address lies in the ranges, and that it leads back to the domain.\<close>

theorem fakeip_contract:
  assumes "\<not> Prefix_IsValid inet4Range \<or> usable inet4Range \<and> Addr_Is4 (pfx_Addr inet4Range)"
    and "\<not> Prefix_IsValid inet6Range \<or> usable inet6Range \<and> \<not> Addr_Is4 (pfx_Addr inet6Range)"
    and "s = fold (\<lambda>(domain, isIPv6) s. snd (Store_Create memory_storage domain isIPv6 s)) queries
           (snd (Store_Start memory_storage NewMemoryStorage (NewStore inet4Range inet6Range)))"
    and "Store_Create memory_storage domain isIPv6 s = (Inr a, s')"
  shows "Store_Lookup memory_storage a s' = Some domain \<and> Store_Contains s' a \<and> isIPv6 = (\<not> Addr_Is4 a) \<and>
    Store_Create memory_storage domain isIPv6 s' = (Inr a, s')"
proof -
  have "started_ok memory_storage (fold (\<lambda>(domain, isIPv6) s. snd (Store_Create memory_storage domain isIPv6 s)) queries s0)"
    if "started_ok memory_storage s0" for s0
    using that
  proof (induction queries arbitrary: s0)
    case (Cons q queries)
    obtain domain isIPv6 where q: "q = (domain, isIPv6)" by force
    from mem.create_keeps [of s0 domain isIPv6] Cons.prems
    have "started_ok memory_storage (snd (Store_Create memory_storage domain isIPv6 s0))"
      by (metis prod.collapse started_ok_def)
    with Cons.IH q show ?case by simp
  qed simp
  from this [OF memory_started [OF assms(1,2)]] assms(3) have "ranges_ok s" "entries_ok memory_storage s"
    by (simp_all add: started_ok_def)
  from mem.create_found [OF this assms(4)] show ?thesis by simp
qed

theorem fakeip_contract_witness:
  "case Store_Create memory_storage ''b.example'' False (snd (Store_Create memory_storage ''a.example'' False sample_store)) of
     (r, s') \<Rightarrow> r = Inr (Addr4 0xC6120004) \<and> Store_Lookup memory_storage (Addr4 0xC6120004) s' = Some ''b.example''"
proof -
  let ?s = "snd (Store_Create memory_storage ''a.example'' False sample_store)"
  have ranges: "\<not> Prefix_IsValid sample_range4 \<or> usable sample_range4 \<and> Addr_Is4 (pfx_Addr sample_range4)"
    "\<not> Prefix_IsValid sample_range6 \<or> usable sample_range6 \<and> \<not> Addr_Is4 (pfx_Addr sample_range6)" by code_simp+
  have s: "?s = fold (\<lambda>(domain, isIPv6) s. snd (Store_Create memory_storage domain isIPv6 s)) [(''a.example'', False)]
      (snd (Store_Start memory_storage NewMemoryStorage (NewStore sample_range4 sample_range6)))"
    by (simp add: sample_store_def)
  have "fst (Store_Create memory_storage ''b.example'' False ?s) = Inr (Addr4 0xC6120004)" by code_simp
  then have run: "Store_Create memory_storage ''b.example'' False ?s =
    (Inr (Addr4 0xC6120004), snd (Store_Create memory_storage ''b.example'' False ?s))" by (metis prod.collapse)
  show ?thesis by (subst run) (use fakeip_contract [OF ranges s run] in simp)
qed

lemma sample_store_ok: "ranges_ok sample_store" "entries_ok memory_storage sample_store"
proof -
  have "usable sample_range4 \<and> Addr_Is4 (pfx_Addr sample_range4)" "usable sample_range6 \<and> \<not> Addr_Is4 (pfx_Addr sample_range6)"
    by code_simp+
  with memory_started [of sample_range4 sample_range6] show "ranges_ok sample_store" "entries_ok memory_storage sample_store"
    by (simp_all add: started_ok_def sample_store_def)
qed

text \<open>The way of a domain: the answer of the fake-ip transport to an address query holds exactly one address, and a
  connection to that address is routed to the domain of the query, with the fake address kept as the original
  destination.\<close>

theorem fakeip_query_routed:
  assumes "ranges_ok s" "entries_ok memory_storage s"
    and "msg_Question message = [question]" "FqdnToDomain dd (q_Name question) = domain" "domain \<noteq> []"
    and "FakeIP_Exchange dd memory_storage message s = (Inr response, s')"
    and "rd_FakeIP rd = Some (store_view memory_storage s')"
  shows "\<exists>a. map rr_Data (msg_Answer response) = [if q_Qtype question = TypeA then RD_A a else RD_AAAA a] \<and>
    (\<forall>md. sa_Addr (md_Destination md) = a \<longrightarrow>
       resolve_fakeip rd md =
         Inr (md\<lparr>md_OriginDestination := md_Destination md,
                 md_Destination := \<lparr>sa_Addr = AddrZero, sa_Port = sa_Port (md_Destination md), sa_Fqdn = domain\<rparr>,
                 md_FakeIP := True\<rparr>))"
proof -
  from assms(3,4,6) obtain a where q: "q_Qtype question = TypeA \<or> q_Qtype question = TypeAAAA"
    and create: "Store_Create memory_storage domain (q_Qtype question = TypeAAAA) s = (Inr a, s')"
    and response: "response = FixedResponse (msg_Id message) question [a] DefaultDNSTTL"
    by (auto simp: FakeIP_Exchange_def split: if_splits sum.splits prod.splits)
  note found = mem.create_found [OF assms(1,2) create]
  from found(2) Prefix_Contains_family have valid: "Addr_IsValid a" by (auto simp: Store_Contains_def)
  have zone: "Addr_withoutZone a = a"
    using found(2) by (cases a) (auto simp: Store_Contains_def Prefix_Contains_def split: Addr.splits)
  with found(3) q valid have "map rr_Data (msg_Answer response) =
      [if q_Qtype question = TypeA then RD_A a else RD_AAAA a]"
    by (cases a) (auto simp: response FixedResponse_def TypeA_def TypeAAAA_def)
  moreover have "resolve_fakeip rd md =
         Inr (md\<lparr>md_OriginDestination := md_Destination md,
                 md_Destination := \<lparr>sa_Addr = AddrZero, sa_Port = sa_Port (md_Destination md), sa_Fqdn = domain\<rparr>,
                 md_FakeIP := True\<rparr>)" if "sa_Addr (md_Destination md) = a" for md
    using that valid found(1,2) assms(5,7) by (simp add: resolve_fakeip_def store_view_def)
  ultimately show ?thesis by (intro exI [where x = a] conjI allI impI)
qed

theorem fakeip_query_routed_witness:
  "\<exists>dd rd response s' a.
     FakeIP_Exchange dd memory_storage
       (Msg_zero\<lparr>msg_Question := [\<lparr>q_Name = ''a.example.'', q_Qtype = TypeA, q_Qclass = ClassINET\<rparr>]\<rparr>) sample_store =
       (Inr response, s') \<and> map rr_Data (msg_Answer response) = [RD_A a] \<and>
     (\<forall>md. sa_Addr (md_Destination md) = a \<longrightarrow>
        (\<exists>md'. resolve_fakeip rd md = Inr md' \<and> sa_Fqdn (md_Destination md') = ''a.example''))"
proof -
  obtain dd :: dns_deps where dd: "dns_IsFqdn dd = (\<lambda>s. True)" by (meson dns_deps.select_convs(6))
  let ?q = "\<lparr>q_Name = ''a.example.'', q_Qtype = TypeA, q_Qclass = ClassINET\<rparr>"
  let ?m = "Msg_zero\<lparr>msg_Question := [?q]\<rparr>"
  have create: "fst (Store_Create memory_storage ''a.example'' False sample_store) = Inr (Addr4 0xC6120003)" by code_simp
  have domain: "FqdnToDomain dd (q_Name ?q) = ''a.example''" by (simp add: FqdnToDomain_def dd)
  obtain response s' where run: "FakeIP_Exchange dd memory_storage ?m sample_store = (Inr response, s')"
    using create domain by (cases "Store_Create memory_storage ''a.example'' False sample_store")
      (simp add: FakeIP_Exchange_def TypeA_def TypeAAAA_def)
  obtain rd :: route_deps where rd: "rd_FakeIP rd = Some (store_view memory_storage s')" by (meson route_deps.select_convs(3))
  from fakeip_query_routed [OF sample_store_ok _ domain _ run rd]
  obtain a where "map rr_Data (msg_Answer response) = [RD_A a]"
    "\<forall>md. sa_Addr (md_Destination md) = a \<longrightarrow> (\<exists>md'. resolve_fakeip rd md = Inr md' \<and> sa_Fqdn (md_Destination md') = ''a.example'')"
    by auto
  with run show ?thesis by (intro exI conjI)
qed

section \<open>The order of the addresses\<close>

text \<open>The addresses of a family as numbers; in a range, those from the third one to the last are handed out in a circle.\<close>

definition width :: "bool \<Rightarrow> nat" where
  "width isIPv6 = (if isIPv6 then 128 else 32)"

definition nat_addr :: "bool \<Rightarrow> nat \<Rightarrow> Addr" where
  "nat_addr isIPv6 n = (if isIPv6 then Addr6 (of_nat n) [] else Addr4 (of_nat n))"

definition range_of :: "bool \<Rightarrow> nat \<Rightarrow> int \<Rightarrow> Prefix" where
  "range_of isIPv6 base bits = \<lparr>pfx_Addr = nat_addr isIPv6 base, pfx_Bits = bits\<rparr>"

definition circle :: "bool \<Rightarrow> nat \<Rightarrow> int \<Rightarrow> nat" where
  "circle isIPv6 base bits = 2 ^ (width isIPv6 - nat bits) - base mod 2 ^ (width isIPv6 - nat bits) - 2"

definition nth_address :: "bool \<Rightarrow> nat \<Rightarrow> int \<Rightarrow> nat \<Rightarrow> Addr" where
  "nth_address isIPv6 base bits i = nat_addr isIPv6 (base + 2 + i mod circle isIPv6 base bits)"

lemma drop_bit_eq_iff: "drop_bit h (a :: 'w::len word) = drop_bit h b \<longleftrightarrow> unat a div 2 ^ h = unat b div 2 ^ h"
  unfolding word_unat_eq_iff unat_drop_bit_eq by (simp add: drop_bit_eq_div)

lemma unat_small: "n < 2 ^ LENGTH('w::len) \<Longrightarrow> unat (of_nat n :: 'w word) = n"
  by (simp add: unat_of_nat)

lemma nat_addr_contains:
  assumes "0 \<le> bits" "bits \<le> int (width v)" "base < 2 ^ width v" "y < 2 ^ width v"
  shows "Prefix_Contains (range_of v base bits) (nat_addr v y) \<longleftrightarrow> y div 2 ^ (width v - nat bits) = base div 2 ^ (width v - nat bits)"
  using assms by (auto simp: range_of_def nat_addr_def width_def Prefix_Contains_def Prefix_IsValid_def drop_bit_eq_iff unat_small split: if_splits)

lemma nat_addr_zero [simp]: "\<not> Prefix_Contains p AddrZero"
  by (simp add: Prefix_Contains_def split: Addr.splits)

lemma word_Suc_eq_0:
  "n < 2 ^ LENGTH('w::len) \<Longrightarrow> (of_nat n + 1 :: 'w word) = 0 \<longleftrightarrow> n + 1 = 2 ^ LENGTH('w)"
proof -
  assume n: "n < 2 ^ LENGTH('w)"
  have "(of_nat n + 1 :: 'w word) = 0 \<longleftrightarrow> 2 ^ LENGTH('w) dvd n + 1"
    using word_of_nat_eq_0_iff [of "n + 1", where 'a = 'w] by (simp add: add.commute)
  also have "\<dots> \<longleftrightarrow> n + 1 = 2 ^ LENGTH('w)"
  proof
    assume "2 ^ LENGTH('w) dvd n + 1"
    then have "2 ^ LENGTH('w) \<le> n + 1" by (intro dvd_imp_le) simp_all
    with n show "n + 1 = 2 ^ LENGTH('w)" by linarith
  qed simp
  finally show ?thesis .
qed

lemma nat_addr_next:
  assumes "n < 2 ^ width v"
  shows "Addr_Next (nat_addr v n) = (if n + 1 = 2 ^ width v then AddrZero else nat_addr v (n + 1))"
proof (cases v)
  case True
  with assms word_Suc_eq_0 [of n, where 'w = 128] show ?thesis by (simp add: nat_addr_def width_def; simp add: add.commute)
next
  case False
  with assms word_Suc_eq_0 [of n, where 'w = 32] show ?thesis by (simp add: nat_addr_def width_def; simp add: add.commute)
qed

lemma nat_addr_inj:
  assumes "nat_addr v m = nat_addr v' n" "m < 2 ^ width v" "n < 2 ^ width v'"
  shows "v = v' \<and> m = n"
  using assms by (cases v; cases v') (auto simp: nat_addr_def width_def word_unat_eq_iff unat_small)

definition range_ok :: "bool \<Rightarrow> nat \<Rightarrow> int \<Rightarrow> bool" where
  "range_ok v base bits \<longleftrightarrow> 0 \<le> bits \<and> bits \<le> int (width v) \<and> base < 2 ^ width v \<and> 0 < circle v base bits"

text \<open>A block of addresses ends within the width, and the circle lies in its block.\<close>

lemma block_end:
  assumes "h \<le> w" "base < 2 ^ w"
  shows "(base div 2 ^ h + 1) * 2 ^ h \<le> (2 ^ w :: nat)"
proof -
  have split: "(2 ^ w :: nat) = 2 ^ (w - h) * 2 ^ h" using assms(1) by (simp flip: power_add)
  have "base < 2 ^ (w - h) * 2 ^ h" using assms(2) split by simp
  then have "base div 2 ^ h < 2 ^ (w - h)" by (simp add: less_mult_imp_div_less)
  then show ?thesis unfolding split by (intro mult_le_mono1) simp
qed

lemma circle_block:
  assumes "range_ok v base bits" "h = width v - nat bits" "j < circle v base bits"
  shows "base + 2 + j < 2 ^ width v" "(base + 2 + j) div 2 ^ h = base div 2 ^ h"
    "Suc j = circle v base bits \<Longrightarrow> (base + 2 + j + 1) div 2 ^ h = Suc (base div 2 ^ h)"
proof -
  define q where "q = base div 2 ^ h"
  define b where "b = base mod 2 ^ h"
  have base: "base = q * 2 ^ h + b" using div_mult_mod_eq [of base "2 ^ h"] by (simp only: q_def b_def)
  have "circle v base bits = 2 ^ h - b - 2" by (simp only: circle_def assms(2) b_def)
  moreover have "0 < circle v base bits" using assms(1) by (simp add: range_ok_def)
  ultimately have n: "b + 2 + circle v base bits = 2 ^ h" by linarith
  have x: "base + 2 + j + 1 \<le> q * 2 ^ h + 2 ^ h" using base n assms(3) by linarith
  have "q * 2 ^ h + 2 ^ h \<le> (2 ^ width v :: nat)"
    using block_end [of h "width v" base] assms(1,2) by (simp add: range_ok_def q_def algebra_simps)
  with x show "base + 2 + j < 2 ^ width v" by linarith
  show "(base + 2 + j) div 2 ^ h = base div 2 ^ h"
    unfolding q_def [symmetric] using x base by (intro div_nat_eqI) (simp_all add: algebra_simps)
  show "(base + 2 + j + 1) div 2 ^ h = Suc (base div 2 ^ h)" if "Suc j = circle v base bits"
  proof -
    have "base + 2 + j + 1 = q * 2 ^ h + 2 ^ h" using that base n by linarith
    then show ?thesis by (simp add: div_add1_eq flip: q_def)
  qed
qed

lemma circle_less: "range_ok v base bits \<Longrightarrow> i mod circle v base bits < circle v base bits"
  by (simp add: range_ok_def)

lemma next_nth_address:
  assumes "range_ok v base bits"
  shows "next_address (range_of v base bits) (nth_address v base bits i) = nth_address v base bits (Suc i)"
proof -
  define h where "h = width v - nat bits"
  define j where "j = i mod circle v base bits"
  have j: "j < circle v base bits" unfolding j_def using assms by (rule circle_less)
  note block = circle_block [OF assms h_def j]
  have ok: "0 \<le> bits" "bits \<le> int (width v)" "base < 2 ^ width v" using assms by (simp_all add: range_ok_def)
  note contains = nat_addr_contains [OF ok, folded h_def]
  have "base + 2 < 2 ^ width v" using block(1) by linarith
  then have third: "third_address (range_of v base bits) = nat_addr v (base + 2)"
    using nat_addr_next [of base v] nat_addr_next [of "base + 1" v] by (simp add: third_address_def range_of_def)
  have next_ok: "Prefix_Contains (range_of v base bits) (Addr_Next (nat_addr v (base + 2 + j))) \<longleftrightarrow> Suc j \<noteq> circle v base bits"
  proof (cases "Suc j = circle v base bits")
    case True
    with nat_addr_next [OF block(1)] block contains [of "base + 2 + j + 1"] show ?thesis by auto
  next
    case False
    with j have "Suc j < circle v base bits" by linarith
    note more = circle_block [OF assms h_def this]
    with nat_addr_next [OF block(1)] contains [of "base + 2 + j + 1"] False show ?thesis by simp
  qed
  have "i mod circle v base bits = j" by (simp add: j_def)
  with next_ok third nat_addr_next [OF block(1)] show ?thesis
    by (auto simp: next_address_def nth_address_def mod_Suc split: if_splits)
qed

lemma nth_address_in: "range_ok v base bits \<Longrightarrow> Prefix_Contains (range_of v base bits) (nth_address v base bits i)"
  using circle_block [OF _ refl circle_less, of v base bits i] nat_addr_contains [of bits v base]
  by (simp add: nth_address_def range_ok_def)

lemma nat_mod_shift:
  assumes "(k + i) mod n = (k + j) mod n" "i < n" "j < (n :: nat)"
  shows "i = j"
proof -
  from assms(1) obtain q1 q2 where "k + i + n * q1 = k + j + n * q2" by (auto simp: nat_mod_eq_iff)
  then have "(i + n * q1) mod n = (j + n * q2) mod n" by simp
  with assms(2,3) show ?thesis by simp
qed

lemma nth_address_inj:
  assumes "range_ok v base bits" "range_ok v' base' bits'" "nth_address v base bits (k + i) = nth_address v' base' bits' (k' + j)"
  shows "v = v'" "v = v' \<Longrightarrow> base = base' \<Longrightarrow> bits = bits' \<Longrightarrow> k = k' \<Longrightarrow> i < circle v base bits \<Longrightarrow> j < circle v base bits \<Longrightarrow> i = j"
proof -
  note eq = nat_addr_inj [OF assms(3) [unfolded nth_address_def] circle_block(1) [OF assms(1) refl circle_less [OF assms(1)]]
      circle_block(1) [OF assms(2) refl circle_less [OF assms(2)]]]
  then show "v = v'" by simp
  show "i = j" if "v = v'" "base = base'" "bits = bits'" "k = k'" "i < circle v base bits" "j < circle v base bits"
    using eq that nat_mod_shift [of k i "circle v base bits" j] by auto
qed

section \<open>Distinct addresses\<close>

text \<open>The addresses of a sequence of queries for domains and families.\<close>

fun create_all :: "(string \<times> bool) list \<Rightarrow> MemoryStorage Store \<Rightarrow> Addr res list \<times> MemoryStorage Store" where
  "create_all [] s = ([], s)"
| "create_all ((domain, isIPv6) # queries) s =
     (case Store_Create memory_storage domain isIPv6 s of
        (r, s) \<Rightarrow> (case create_all queries s of (rs, s) \<Rightarrow> (r # rs, s)))"

definition family_range :: "bool \<Rightarrow> 's Store \<Rightarrow> Prefix" where
  "family_range isIPv6 s = (if isIPv6 then st_inet6Range s else st_inet4Range s)"

definition family_current :: "bool \<Rightarrow> 's Store \<Rightarrow> Addr" where
  "family_current isIPv6 s = (if isIPv6 then st_inet6Current s else st_inet4Current s)"

text \<open>The range of a family is the given one, and its current address is the one of this number in the circle.\<close>

definition family_at :: "bool \<Rightarrow> nat \<Rightarrow> int \<Rightarrow> nat \<Rightarrow> 's Store \<Rightarrow> bool" where
  "family_at v base bits k s \<longleftrightarrow> range_ok v base bits \<and> family_range v s = range_of v base bits \<and> family_current v s = nth_address v base bits k"

fun expected :: "(bool \<Rightarrow> nat \<Rightarrow> Addr) \<Rightarrow> (bool \<Rightarrow> nat) \<Rightarrow> (string \<times> bool) list \<Rightarrow> Addr list" where
  "expected at_number ks [] = []"
| "expected at_number ks ((domain, v) # queries) = at_number v (Suc (ks v)) # expected at_number (ks(v := Suc (ks v))) queries"

lemma expected_elem:
  "a \<in> set (expected at_number ks queries) \<Longrightarrow> \<exists>v j. v \<in> snd ` set queries \<and> a = at_number v (ks v + Suc j) \<and> j < length (filter (\<lambda>q. snd q = v) queries)"
proof (induction queries arbitrary: ks)
  case (Cons q queries)
  obtain domain v where q: "q = (domain, v)" by force
  show ?case
  proof (cases "a = at_number v (Suc (ks v))")
    case True
    then show ?thesis by (intro exI [of _ v] exI [of _ 0]) (simp add: q)
  next
    case False
    with Cons.prems have "a \<in> set (expected at_number (ks(v := Suc (ks v))) queries)" by (simp add: q)
    then obtain v' j where v': "v' \<in> snd ` set queries" "a = at_number v' ((ks(v := Suc (ks v))) v' + Suc j)" "j < length (filter (\<lambda>q. snd q = v') queries)"
      using Cons.IH by blast
    then show ?thesis
      by (intro exI [of _ v'] exI [of _ "if v' = v then Suc j else j"]) (auto simp: q)
  qed
qed simp

lemma expected_distinct:
  assumes "\<And>v. v \<in> snd ` set queries \<Longrightarrow> range_ok v (base v) (bits v)"
    and "\<And>v. v \<in> snd ` set queries \<Longrightarrow> length (filter (\<lambda>q. snd q = v) queries) \<le> circle v (base v) (bits v)"
  shows "distinct (expected (\<lambda>v. nth_address v (base v) (bits v)) ks queries)"
  using assms
proof (induction queries arbitrary: ks)
  case (Cons q queries)
  obtain domain v where q: "q = (domain, v)" by force
  let ?nth = "\<lambda>v. nth_address v (base v) (bits v)" and ?ks = "ks(v := Suc (ks v))"
  have v: "range_ok v (base v) (bits v)" "length (filter (\<lambda>q. snd q = v) queries) < circle v (base v) (bits v)"
    using Cons.prems(1) [of v] Cons.prems(2) [of v] by (simp_all add: q)
  have "?nth v (Suc (ks v)) \<notin> set (expected ?nth ?ks queries)"
  proof
    assume "?nth v (Suc (ks v)) \<in> set (expected ?nth ?ks queries)"
    then obtain v' j where v': "v' \<in> snd ` set queries" "?nth v (Suc (ks v)) = ?nth v' (?ks v' + Suc j)" "j < length (filter (\<lambda>q. snd q = v') queries)"
      using expected_elem [of _ ?nth ?ks queries] by blast
    have "range_ok v' (base v') (bits v')" using v'(1) Cons.prems(1) by auto
    note inj = nth_address_inj [OF v(1) this, of "Suc (ks v)" 0 "?ks v'" "Suc j"]
    have "v = v'" using inj(1) v'(2) by simp
    with inj(2) v'(2,3) v show False by simp
  qed
  moreover have "distinct (expected ?nth ?ks queries)"
  proof (rule Cons.IH)
    fix v' assume "v' \<in> snd ` set queries"
    then have "v' \<in> snd ` set (q # queries)" by auto
    from Cons.prems [OF this] show "range_ok v' (base v') (bits v')" "length (filter (\<lambda>q. snd q = v') queries) \<le> circle v' (base v') (bits v')"
      by (simp_all split: if_splits)
  qed
  ultimately show ?case by (simp add: q)
qed simp

lemma store_other:
  assumes "Addr_Is4 a = (\<not> v)" "(domain', v') \<noteq> (domain, v)" "MemoryStorage_LoadDomain domain' v' st = None"
  shows "MemoryStorage_LoadDomain domain' v' (MemoryStorage_Store a domain st) = None"
  using assms by (cases v; cases v') (auto simp: MemoryStorage_Store_def MemoryStorage_LoadDomain_def Let_def split: option.split)

lemma create_all_expected:
  assumes "\<And>v. v \<in> snd ` set queries \<Longrightarrow> family_at v (base v) (bits v) (ks v) s" "st_storage s = Some st" "distinct queries"
    "\<And>domain v. (domain, v) \<in> set queries \<Longrightarrow> MemoryStorage_LoadDomain domain v st = None"
  shows "fst (create_all queries s) = map Inr (expected (\<lambda>v. nth_address v (base v) (bits v)) ks queries)"
  using assms
proof (induction queries arbitrary: s ks st)
  case (Cons q queries)
  obtain domain v where q: "q = (domain, v)" by force
  let ?nth = "\<lambda>v. nth_address v (base v) (bits v)" and ?ks = "ks(v := Suc (ks v))"
  let ?a = "?nth v (Suc (ks v))"
  have at: "family_at v (base v) (bits v) (ks v) s" using Cons.prems(1) [of v] by (simp add: q)
  have valid: "Addr_IsValid (family_current v s)" "Addr_Is4 ?a = (\<not> v)"
    using at by (simp_all add: family_at_def nth_address_def nat_addr_def)
  define s1 where "s1 = (if v then s\<lparr>st_inet6Current := ?a\<rparr> else s\<lparr>st_inet4Current := ?a\<rparr>)\<lparr>st_storage := Some (MemoryStorage_Store ?a domain st)\<rparr>"
  have "Store_allocate v s = Inr (?a, if v then s\<lparr>st_inet6Current := ?a\<rparr> else s\<lparr>st_inet4Current := ?a\<rparr>)"
    using at valid(1) next_nth_address [of v "base v" "bits v" "ks v"]
    by (simp add: Store_allocate_def family_at_def family_range_def family_current_def Let_def split: if_splits)
  moreover have "MemoryStorage_LoadDomain domain v st = None" using Cons.prems(4) by (simp add: q)
  ultimately have create: "Store_Create memory_storage domain v s = (Inr ?a, s1)"
    using Cons.prems(2) by (simp add: Store_Create_def memory_storage_def s1_def)
  have "fst (create_all queries s1) = map Inr (expected ?nth ?ks queries)"
  proof (rule Cons.IH)
    show "family_at v' (base v') (bits v') (?ks v') s1" if "v' \<in> snd ` set queries" for v'
      using Cons.prems(1) [of v'] that at by (auto simp: family_at_def family_range_def family_current_def s1_def)
    show "MemoryStorage_LoadDomain domain' v' (MemoryStorage_Store ?a domain st) = None" if "(domain', v') \<in> set queries" for domain' v'
      using that Cons.prems(3) Cons.prems(4) [of domain' v'] by (intro store_other [OF valid(2)]; cases v; cases v'; auto simp: q)
  qed (use Cons.prems in \<open>simp_all add: s1_def\<close>)
  with create show ?case by (cases "create_all queries s1") (simp add: q)
qed simp

lemma expected_all2:
  "(\<And>v k. v \<in> snd ` set queries \<Longrightarrow> P v (at_number v k)) \<Longrightarrow> list_all2 (\<lambda>q. P (snd q)) queries (expected at_number ks queries)"
proof (induction queries arbitrary: ks)
  case (Cons q queries)
  then show ?case by (cases q) auto
qed simp

text \<open>C34. No address is handed out twice before a range has been gone through: with the storage in memory, from any address of the ranges on,
  any sequence of queries of both families for new domains gets addresses that are all different, and each of them lies in the range of
  its family, as long as there are not more queries of a family than its range has addresses after the second one.\<close>

theorem fakeip_addresses_distinct:
  assumes "\<And>v. v \<in> snd ` set queries \<Longrightarrow> family_at v (base v) (bits v) (ks v) s" "st_storage s = Some st"
    and "distinct queries" "\<And>domain v. (domain, v) \<in> set queries \<Longrightarrow> MemoryStorage_LoadDomain domain v st = None"
    and "\<And>v. v \<in> snd ` set queries \<Longrightarrow> length (filter (\<lambda>q. snd q = v) queries) \<le> circle v (base v) (bits v)"
  shows "\<exists>addresses. fst (create_all queries s) = map Inr addresses \<and> distinct addresses \<and>
    list_all2 (\<lambda>q. Prefix_Contains (family_range (snd q) s)) queries addresses"
proof -
  let ?nth = "\<lambda>v. nth_address v (base v) (bits v)"
  have ok: "range_ok v (base v) (bits v)" "family_range v s = range_of v (base v) (bits v)" if "v \<in> snd ` set queries" for v
    using assms(1) [OF that] by (simp_all add: family_at_def)
  have "list_all2 (\<lambda>q. Prefix_Contains (family_range (snd q) s)) queries (expected ?nth ks queries)"
    by (rule expected_all2) (metis ok nth_address_in)
  moreover have "distinct (expected ?nth ks queries)" using ok(1) assms(5) by (rule expected_distinct)
  moreover have "fst (create_all queries s) = map Inr (expected ?nth ks queries)" using assms(1-4) by (rule create_all_expected)
  ultimately show ?thesis by blast
qed

theorem fakeip_addresses_distinct_witness:
  "circle False 0xC6120000 29 = 6 \<and>
   (\<exists>addresses. fst (create_all [(''a'', False), (''a'', True), (''b'', False), (''b'', True)] sample_store) = map Inr addresses \<and> distinct addresses)"
proof -
  let ?qs = "[(''a'', False), (''a'', True), (''b'', False), (''b'', True)]"
  let ?base = "\<lambda>v. if v then 0xFC000000000000000000000000000000 else 0xC6120000 :: nat" and ?bits = "\<lambda>v. if v then 18 else 29 :: int"
  have c: "circle False 0xC6120000 29 = 6" "2 \<le> circle True 0xFC000000000000000000000000000000 18" by (simp_all add: circle_def width_def)
  have "st_storage sample_store = Some NewMemoryStorage" "family_range False sample_store = sample_range4" "family_range True sample_store = sample_range6"
    "family_current v sample_store = third_address (family_range v sample_store)" for v
    by (simp_all add: sample_store_def Store_Start_def NewStore_def memory_storage_def restart_store_def sample_range4_def sample_range6_def
        Prefix_IsValid_def family_range_def family_current_def)
  note store = this
  have "family_at False 0xC6120000 29 0 sample_store" "family_at True 0xFC000000000000000000000000000000 18 0 sample_store"
    unfolding family_at_def store
    by (simp_all add: range_ok_def c(1) order.strict_trans2 [OF _ c(2)] width_def range_of_def nat_addr_def sample_range4_def sample_range6_def nth_address_def third_address_def)
  then have at: "family_at v (?base v) (?bits v) 0 sample_store" for v by (cases v) simp_all
  have len: "length (filter (\<lambda>q. snd q = v) ?qs) \<le> circle v (?base v) (?bits v)" for v using c by (cases v) simp_all
  have new: "MemoryStorage_LoadDomain domain v NewMemoryStorage = None" for domain v
    by (simp add: NewMemoryStorage_def MemoryStorage_LoadDomain_def)
  have "distinct ?qs" by simp
  from fakeip_addresses_distinct [of ?qs ?base ?bits "\<lambda>v. 0" sample_store, OF at store(1) this new len] c(1) show ?thesis by blast
qed

section \<open>The metadata in the cache file\<close>

lemma bytes_string_string_bytes [simp]: "bytes_string (string_bytes s) = s"
proof (induction s)
  case (Cons c s)
  have "unat (of_char c :: u8) = (of_char c :: nat)"
    by (cases c) (simp add: of_char_def horner_sum_bit_eq_take_bit)
  with Cons show ?case by (simp add: bytes_string_def string_bytes_def)
qed (simp add: bytes_string_def string_bytes_def)

lemma string_bytes_simps [simp]:
  "length (string_bytes s) = length s" "string_bytes s = [] \<longleftrightarrow> s = []"
  by (simp_all add: string_bytes_def)

lemma string_bytes_inject [simp]: "string_bytes a = string_bytes b \<longleftrightarrow> a = b"
  by (metis bytes_string_string_bytes)

lemma get_be_self: "LENGTH('w::len) \<le> 8 * n \<Longrightarrow> get_be 0 (put_be n (w :: 'w word)) = w"
  unfolding get_be_put_be by (rule take_bit_word_eq_self)

lemma read_element_put:
  assumes "length data < 2 ^ 16"
  shows "read_element (put_element data @ rest) = Inr (data, rest)"
proof -
  have "unat (get_be 0 (put_be 2 (of_nat (length data) :: u16)) :: u16) = length data"
    using assms by (simp add: get_be_self unat_of_nat)
  then show ?thesis by (simp add: read_element_def put_element_def Let_def)
qed

lemma Addr_roundtrip [simp]: "Addr_UnmarshalBinary (Addr_MarshalBinary a) = Inr a"
  by (cases a) (simp_all add: Addr_UnmarshalBinary_def get_be_self)

definition plain_address :: "Addr \<Rightarrow> bool" where
  "plain_address a \<longleftrightarrow> Addr_IsValid a \<and> Addr_withoutZone a = a"

lemma plain_slice: "plain_address a \<Longrightarrow> Addr_UnmarshalBinary (Addr_AsSlice a) = Inr a"
proof -
  assume "plain_address a"
  then have "Addr_AsSlice a = Addr_MarshalBinary a" by (cases a) (auto simp: plain_address_def string_bytes_def)
  then show ?thesis by simp
qed

text \<open>The prefixes that \<^verbatim>\<open>netip\<close> makes: without a zone, and with a number of bits that fits the family, or -1.\<close>

definition prefix_wf :: "Prefix \<Rightarrow> bool" where
  "prefix_wf p \<longleftrightarrow> Addr_withoutZone (pfx_Addr p) = pfx_Addr p \<and>
     (pfx_Bits p = -1 \<or> pfx_Addr p \<noteq> AddrZero \<and> 0 \<le> pfx_Bits p \<and> pfx_Bits p \<le> Addr_BitLen (pfx_Addr p))"

lemma Addr_BitLen_le: "Addr_BitLen a \<le> 128"
  by (cases a) simp_all

lemma uint_bits: "0 \<le> bits \<Longrightarrow> bits \<le> 128 \<Longrightarrow> uint (word_of_int bits :: u8) = bits"
  by (simp add: uint_word_of_int)

lemma Prefix_roundtrip:
  assumes "prefix_wf p"
  shows "Prefix_UnmarshalBinary (Prefix_MarshalBinary p) = Inr p"
proof (cases "pfx_Bits p = -1")
  case True
  then have "uint (word_of_int (pfx_Bits p) :: u8) = 255" by (simp add: unsigned_minus_1_eq_mask mask_eq_exp_minus_1)
  with True assms Addr_BitLen_le [of "pfx_Addr p"] show ?thesis
    by (simp add: Prefix_UnmarshalBinary_def Prefix_MarshalBinary_def PrefixFrom_def prefix_wf_def)
next
  case False
  with assms Addr_BitLen_le [of "pfx_Addr p"] have "uint (word_of_int (pfx_Bits p) :: u8) = pfx_Bits p"
    by (intro uint_bits) (auto simp: prefix_wf_def)
  with False assms show ?thesis
    by (simp add: Prefix_UnmarshalBinary_def Prefix_MarshalBinary_def PrefixFrom_def prefix_wf_def)
qed

lemma Prefix_Marshal_length: "prefix_wf p \<Longrightarrow> length (Prefix_MarshalBinary p) < 65536"
  by (cases "pfx_Addr p") (simp_all add: Prefix_MarshalBinary_def prefix_wf_def)

definition metadata_wf :: "FakeIPMetadata \<Rightarrow> bool" where
  "metadata_wf m \<longleftrightarrow> prefix_wf (fm_Inet4Range m) \<and> prefix_wf (fm_Inet6Range m) \<and>
     length (Addr_MarshalBinary (fm_Inet4Current m)) < 2 ^ 16 \<and> length (Addr_MarshalBinary (fm_Inet6Current m)) < 2 ^ 16"

lemma metadata_unmarshal_marshal:
  assumes "metadata_wf m"
  shows "FakeIPMetadata_UnmarshalBinary (FakeIPMetadata_MarshalBinary m) = Inr m"
  using assms read_element_put [of "Addr_MarshalBinary (fm_Inet6Current m)" "[]"]
  by (simp add: FakeIPMetadata_UnmarshalBinary_def FakeIPMetadata_MarshalBinary_def metadata_wf_def read_element_put
      Prefix_Marshal_length Prefix_roundtrip)

lemma keyMetadata_simps [simp]: "keyMetadata \<noteq> []" "length keyMetadata = 15"
  by (simp_all add: keyMetadata_def)

lemma FakeIPMetadata_Marshal_nonempty [simp]: "FakeIPMetadata_MarshalBinary m \<noteq> []"
  by (simp add: FakeIPMetadata_MarshalBinary_def put_element_def) (metis length_put_be length_0_conv zero_neq_numeral)

lemma saved_metadata:
  assumes "metadata_wf m" "CacheFile_FakeIPSaveMetadata m c = (err, c')"
  shows "err = None" "fst (CacheFile_FakeIPMetadata c') = Inr (Some m)"
  using assms(2) metadata_unmarshal_marshal [OF assms(1)]
  by (auto simp: CacheFile_FakeIPSaveMetadata_def CacheFile_FakeIPMetadata_def bucket_Put_def)

lemma slice_not_key: "Addr_AsSlice a \<noteq> keyMetadata"
proof
  assume "Addr_AsSlice a = keyMetadata"
  then have "length (Addr_AsSlice a) = 15" by simp
  then show False by (cases a) simp_all
qed

text \<open>A restart goes on where the store was closed: the store with the cache file, opened again with the same ranges
  after it was closed and all entries were written, has the same current addresses and finds the same entries.\<close>

theorem fakeip_restart:
  assumes "st_storage s = Some c" "cf_saveDomain c = Map.empty" "cf_saveAddress4 c = Map.empty" "cf_saveAddress6 c = Map.empty"
    and "metadata_wf (Store_metadata s)"
    and "Store_Close (cache_storage addrFromIP) s = (err, s1)" "st_storage s1 = Some c1"
    and "Store_Start (cache_storage addrFromIP) c1 (NewStore (st_inet4Range s) (st_inet6Range s)) = (err', s2)"
  shows "err = None \<and> err' = None \<and> st_inet4Current s2 = st_inet4Current s \<and> st_inet6Current s2 = st_inet6Current s \<and>
    (\<forall>a. Store_Lookup (cache_storage addrFromIP) a s2 = Store_Lookup (cache_storage addrFromIP) a s)"
proof -
  have close: "CacheFile_FakeIPSaveMetadata (Store_metadata s) c = (err, c1)"
    using assms(1,6,7) by (auto simp: Store_Close_def cache_storage_def split: prod.splits)
  note saved = saved_metadata [OF assms(5) close]
  obtain c2 where c2: "CacheFile_FakeIPMetadata c1 = (Inr (Some (Store_metadata s)), c2)"
    using saved(2) by (metis prod.collapse)
  have start: "err' = None" "s2 = (NewStore (st_inet4Range s) (st_inet6Range s))\<lparr>st_inet4Current := st_inet4Current s,
      st_inet6Current := st_inet6Current s, st_storage := Some c2\<rparr>"
    using assms(8) c2 by (simp_all add: Store_Start_def cache_storage_def Store_metadata_def NewStore_def)
  have "CacheFile_FakeIPLoad a c2 = CacheFile_FakeIPLoad a c" for a
    using close c2 slice_not_key [of a]
    by (auto simp: CacheFile_FakeIPSaveMetadata_def CacheFile_FakeIPMetadata_def CacheFile_FakeIPLoad_def bucket_Put_def
        create_bucket_def split: option.splits sum.splits if_splits goerr.splits)
  with start saved(1) assms(1) show ?thesis by (simp add: Store_Lookup_def cache_storage_def)
qed

theorem fakeip_restart_witness:
  "case Store_Start (cache_storage sample_AddrFromIP) (the (st_storage (snd (Store_Close (cache_storage sample_AddrFromIP) sample_cache_store))))
          (NewStore sample_range4 Prefix_zero) of
     (err, s2) \<Rightarrow> err = None \<and> st_inet4Current s2 = Addr4 0xC6120003"
proof -
  let ?ops = "cache_storage sample_AddrFromIP"
  have "metadata_wf (Store_metadata sample_cache_store)"
    by (simp add: metadata_wf_def prefix_wf_def Store_metadata_def sample_cache_store_def sample_range4_def Prefix_zero_def)
  moreover obtain err s1 where close: "Store_Close ?ops sample_cache_store = (err, s1)" by fastforce
  moreover from close obtain c1 where "st_storage s1 = Some c1"
    by (auto simp: Store_Close_def sample_cache_store_def split: prod.splits)
  moreover obtain err' s2 where start: "Store_Start ?ops c1 (NewStore (st_inet4Range sample_cache_store) (st_inet6Range sample_cache_store)) = (err', s2)"
    by fastforce
  ultimately show ?thesis
    using fakeip_restart [of sample_cache_store sample_cache sample_AddrFromIP err s1 c1 err' s2]
    by (simp add: sample_cache_store_def sample_cache_def)
qed

text \<open>The metadata that the timer saves is that of the first address handed out: once the timer exists, saving newer
  metadata only starts it again, with the function that has captured the first one. A program that ends without
  closing the store goes on from there when it is started again.\<close>

theorem fakeip_timer_saves_first:
  assumes "metadata_wf first" "cf_saveMetadataTimer c = None"
    and "c' = fold CacheFile_FakeIPSaveMetadataAsync (first # later) c"
  shows "fst (CacheFile_FakeIPMetadata (save_metadata_timer c')) = Inr (Some first)"
proof -
  have "cf_saveMetadataTimer (fold CacheFile_FakeIPSaveMetadataAsync later c1) = Some first"
    if "cf_saveMetadataTimer c1 = Some first" for c1
    using that by (induction later arbitrary: c1) (simp_all add: CacheFile_FakeIPSaveMetadataAsync_def)
  then have "cf_saveMetadataTimer c' = Some first"
    using assms(2,3) by (simp add: CacheFile_FakeIPSaveMetadataAsync_def)
  then show ?thesis using saved_metadata(2) [OF assms(1) surjective_pairing] by (simp add: save_metadata_timer_def)
qed

theorem fakeip_timer_saves_first_witness:
  "fst (CacheFile_FakeIPMetadata (save_metadata_timer (fold CacheFile_FakeIPSaveMetadataAsync
     [Store_metadata sample_cache_store, (Store_metadata sample_cache_store)\<lparr>fm_Inet4Current := Addr4 0xC6120004\<rparr>] sample_cache))) =
   Inr (Some (Store_metadata sample_cache_store))"
proof -
  have "metadata_wf (Store_metadata sample_cache_store)"
    by (simp add: metadata_wf_def prefix_wf_def Store_metadata_def sample_cache_store_def sample_range4_def Prefix_zero_def)
  moreover have "cf_saveMetadataTimer sample_cache = None" by (simp add: sample_cache_def)
  ultimately show ?thesis by (rule fakeip_timer_saves_first) (rule refl)
qed

text \<open>A change of the ranges does not clear the cache file unless all three buckets exist: \<^verbatim>\<open>FakeIPReset\<close> fails on a
  bucket that was never created, the start ignores that, and a domain stored before is answered with its old address, in
  or out of the new ranges. A store that was only asked for addresses of one family has no bucket for the other.\<close>

theorem fakeip_reset_incomplete:
  assumes "db_FakeIPDomain4 (cf_DB c) = None \<or> db_FakeIPDomain6 (cf_DB c) = None"
    and "fst (CacheFile_FakeIPMetadata c) = Inr (Some m)" "fm_Inet4Range m \<noteq> inet4Range \<or> fm_Inet6Range m \<noteq> inet6Range"
    and "CacheFile_FakeIPLoadDomain addrFromIP domain isIPv6 c = Some a"
    and "Store_Start (cache_storage addrFromIP) c (NewStore inet4Range inet6Range) = (err, s)"
  shows "err = None \<and> fst (Store_Create (cache_storage addrFromIP) domain isIPv6 s) = Inr a"
proof -
  obtain c1 where c1: "CacheFile_FakeIPMetadata c = (Inr (Some m), c1)" using assms(2) by (metis prod.collapse)
  then have same: "CacheFile_FakeIPLoadDomain addrFromIP domain isIPv6 c1 = Some a"
    "db_FakeIPDomain4 (cf_DB c1) = db_FakeIPDomain4 (cf_DB c)" "db_FakeIPDomain6 (cf_DB c1) = db_FakeIPDomain6 (cf_DB c)"
    using assms(4) by (auto simp: CacheFile_FakeIPMetadata_def CacheFile_FakeIPLoadDomain_def
        split: option.splits sum.splits if_splits goerr.splits)
  then have "CacheFile_FakeIPReset c1 = (Some bucket_not_found, c1)"
    using assms(1) by (auto simp: CacheFile_FakeIPReset_def)
  with c1 assms(3,5) have "err = None" "st_storage s = Some c1"
    by (auto simp: Store_Start_def cache_storage_def NewStore_def)
  with same(1) show ?thesis by (simp add: Store_Create_def cache_storage_def)
qed

theorem fakeip_reset_incomplete_witness:
  "\<exists>c err s. Store_Start (cache_storage sample_AddrFromIP) c (NewStore \<lparr>pfx_Addr = Addr4 0x0A000000, pfx_Bits = 8\<rparr> Prefix_zero) = (err, s) \<and>
     fst (Store_Create (cache_storage sample_AddrFromIP) ''a.example'' False s) = Inr (Addr4 0xC6120003) \<and>
     \<not> Store_Contains s (Addr4 0xC6120003)"
proof -
  let ?r = "\<lparr>pfx_Addr = Addr4 0x0A000000, pfx_Bits = 8\<rparr>"
  define c where "c = snd (CacheFile_FakeIPSaveMetadata (Store_metadata sample_cache_store) sample_cache)"
  have wf: "metadata_wf (Store_metadata sample_cache_store)"
    by (simp add: metadata_wf_def prefix_wf_def Store_metadata_def sample_cache_store_def sample_range4_def Prefix_zero_def)
  have c: "db_FakeIPDomain6 (cf_DB c) = None" "db_FakeIPDomain4 (cf_DB c) = db_FakeIPDomain4 (cf_DB sample_cache)" "cf_saveAddress4 c = Map.empty"
    by (simp_all add: c_def CacheFile_FakeIPSaveMetadata_def bucket_Put_def sample_cache_def)
  have meta: "fst (CacheFile_FakeIPMetadata c) = Inr (Some (Store_metadata sample_cache_store))"
    unfolding c_def by (rule saved_metadata(2) [OF wf surjective_pairing])
  have load: "CacheFile_FakeIPLoadDomain sample_AddrFromIP ''a.example'' False c = Some (Addr4 0xC6120003)"
    using plain_slice [of "Addr4 0xC6120003"]
    by (simp add: CacheFile_FakeIPLoadDomain_def c sample_cache_def sample_AddrFromIP_def plain_address_def)
  obtain err s where start: "Store_Start (cache_storage sample_AddrFromIP) c (NewStore ?r Prefix_zero) = (err, s)" by fastforce
  have "fm_Inet4Range (Store_metadata sample_cache_store) \<noteq> ?r" by code_simp
  with fakeip_reset_incomplete [OF _ meta _ load start] c(1)
  have "fst (Store_Create (cache_storage sample_AddrFromIP) ''a.example'' False s) = Inr (Addr4 0xC6120003)" by simp
  moreover have "st_inet4Range s = ?r" "st_inet6Range s = Prefix_zero"
    using start by (auto simp: Store_Start_def NewStore_def restart_store_def split: prod.splits sum.splits option.splits if_splits)
  then have "\<not> Store_Contains s (Addr4 0xC6120003)" by (simp add: Store_Contains_def) code_simp
  ultimately show ?thesis using start by blast
qed

section \<open>The goroutines of the cache file\<close>

definition saving_ok :: "FakeIPCache \<Rightarrow> bool" where
  "saving_ok c \<longleftrightarrow> distinct (map fst (cf_saving c)) \<and> cf_saveDomain c = map_of (cf_saving c) \<and>
     (\<forall>(a, d)\<in>set (cf_saving c). plain_address a \<and> d \<noteq> [])"

lemma Addr_AsSlice_nonempty: "plain_address a \<Longrightarrow> Addr_AsSlice a \<noteq> []"
  using plain_slice [of a] by (auto simp: Addr_UnmarshalBinary_def plain_address_def)

lemma Addr_AsSlice_inject: "plain_address a \<Longrightarrow> plain_address b \<Longrightarrow> Addr_AsSlice a = Addr_AsSlice b \<longleftrightarrow> a = b"
  using plain_slice by (metis sum.inject(2))

lemma map_of_remove1:
  "distinct (map fst xs) \<Longrightarrow> (a, d) \<in> set xs \<Longrightarrow> map_of (remove1 (a, d) xs) = (map_of xs)(a := None)"
proof (induction xs)
  case (Cons x xs)
  show ?case
  proof (cases "x = (a, d)")
    case True
    with Cons.prems have "map_of xs a = None" by (simp add: map_of_eq_None_iff image_iff)
    with True show ?thesis by (auto simp: fun_eq_iff)
  next
    case False
    with Cons.prems have "(a, d) \<in> set xs" "fst x \<notin> fst ` set xs" by auto
    then have "fst x \<noteq> a" by (metis fst_conv imageI)
    with False Cons show ?thesis by (auto simp: fun_eq_iff)
  qed
qed simp

lemma save_entry_fields:
  assumes "plain_address a" "d \<noteq> []"
  shows "cf_saveDomain (save_entry (a, d) c) = (cf_saveDomain c)(a := None)"
    "cf_saving (save_entry (a, d) c) = remove1 (a, d) (cf_saving c)"
    "db_FakeIP (cf_DB (save_entry (a, d) c)) =
       Some ((create_bucket (db_FakeIP (cf_DB c)))(Addr_AsSlice a \<mapsto> string_bytes d))"
  using assms Addr_AsSlice_nonempty [OF assms(1)]
  by (simp_all add: save_entry_def CacheFile_FakeIPStore_def bucket_Put_def Let_def)

lemma save_entry_load:
  assumes "saving_ok c" "e \<in> set (cf_saving c)" "plain_address b"
  shows "CacheFile_FakeIPLoad b (save_entry e c) = CacheFile_FakeIPLoad b c"
proof -
  obtain a d where e: "e = (a, d)" by force
  from assms(1,2) e have ad: "plain_address a" "d \<noteq> []" "cf_saveDomain c a = Some d"
    by (auto simp: saving_ok_def)
  show ?thesis
  proof (cases "b = a")
    case True
    with ad e show ?thesis by (simp add: CacheFile_FakeIPLoad_def save_entry_fields)
  next
    case False
    with ad(1) assms(3) have "Addr_AsSlice b \<noteq> Addr_AsSlice a" by (simp add: Addr_AsSlice_inject)
    with False ad e show ?thesis
      by (simp add: CacheFile_FakeIPLoad_def save_entry_fields create_bucket_def split: option.split)
  qed
qed

lemma save_entry_ok:
  assumes "saving_ok c" "e \<in> set (cf_saving c)"
  shows "saving_ok (save_entry e c)"
proof -
  obtain a d where e: "e = (a, d)" by force
  from assms e have ad: "plain_address a" "d \<noteq> []" by (auto simp: saving_ok_def)
  from assms e have "map_of (remove1 (a, d) (cf_saving c)) = (cf_saveDomain c)(a := None)"
    by (simp add: saving_ok_def map_of_remove1)
  with assms(1) e ad show ?thesis
    by (auto simp: saving_ok_def save_entry_fields distinct_map distinct_remove1 inj_on_def dest: notin_set_remove1
        intro: set_remove1_subset [THEN subsetD])
qed

lemma timer_load: "CacheFile_FakeIPLoad b (save_metadata_timer c) = CacheFile_FakeIPLoad b c"
  using slice_not_key [of b]
  by (auto simp: save_metadata_timer_def CacheFile_FakeIPSaveMetadata_def CacheFile_FakeIPLoad_def bucket_Put_def
      create_bucket_def split: option.split)

lemma timer_ok: "saving_ok c \<Longrightarrow> saving_ok (save_metadata_timer c)"
  by (auto simp: save_metadata_timer_def CacheFile_FakeIPSaveMetadata_def bucket_Put_def saving_ok_def split: option.split)

inductive_cases cache_stepE: "cache_step c c'"

text \<open>The file maps addresses to domains and, per family, domains back to addresses; what waits to be written is in no entry of the file, and
  the maps hold it in both directions.\<close>

abbreviation domains_of :: "bool \<Rightarrow> FakeIPCache \<Rightarrow> bucket" where
  "domains_of isIPv6 c \<equiv> create_bucket (if isIPv6 then db_FakeIPDomain6 (cf_DB c) else db_FakeIPDomain4 (cf_DB c))"

abbreviation pending_of :: "bool \<Rightarrow> FakeIPCache \<Rightarrow> string \<Rightarrow> Addr option" where
  "pending_of isIPv6 c \<equiv> (if isIPv6 then cf_saveAddress6 c else cf_saveAddress4 c)"

definition cache_ok :: "FakeIPCache \<Rightarrow> bool" where
  "cache_ok c \<longleftrightarrow> saving_ok c \<and>
     (\<forall>a d a'. (a, d) \<in> set (cf_saving c) \<longrightarrow> (a', d) \<in> set (cf_saving c) \<longrightarrow> Addr_Is4 a = Addr_Is4 a' \<longrightarrow> a = a') \<and>
     (\<forall>v a d. pending_of v c d = Some a \<longleftrightarrow> (a, d) \<in> set (cf_saving c) \<and> v = (\<not> Addr_Is4 a)) \<and>
     (\<forall>a d. plain_address a \<longrightarrow> (create_bucket (db_FakeIP (cf_DB c)) (Addr_AsSlice a) = Some d \<longleftrightarrow> domains_of (\<not> Addr_Is4 a) c d = Some (Addr_AsSlice a))) \<and>
     (\<forall>a d. (a, d) \<in> set (cf_saving c) \<longrightarrow> domains_of (\<not> Addr_Is4 a) c (string_bytes d) = None)"

text \<open>An address and a domain that lead to each other.\<close>

definition linked :: "(bytes \<Rightarrow> Addr) \<Rightarrow> Addr \<Rightarrow> string \<Rightarrow> FakeIPCache \<Rightarrow> bool" where
  "linked addrFromIP a d c \<longleftrightarrow> CacheFile_FakeIPLoad a c = Some d \<and> CacheFile_FakeIPLoadDomain addrFromIP d (\<not> Addr_Is4 a) c = Some a"

lemma string_bytes_bytes_string: "string_bytes (bytes_string bs) = bs"
proof -
  have "(of_char (char_of (unat b)) :: u8) = b" for b :: u8
  proof -
    have "unat (of_char (char_of (unat b)) :: u8) = unat b"
    proof -
      have c: "unat (of_char c :: u8) = (of_char c :: nat)" for c by (cases c) (simp add: of_char_def horner_sum_bit_eq_take_bit)
      have "unat b < 256" using unsigned_less [of b] by simp
      then show ?thesis unfolding c by (simp add: of_char_of)
    qed
    then show ?thesis by (simp only: word_unat_eq_iff)
  qed
  then show ?thesis by (simp add: string_bytes_def bytes_string_def comp_def)
qed

lemma cache_okD:
  assumes "cache_ok c"
  shows "saving_ok c"
    "(a, d) \<in> set (cf_saving c) \<Longrightarrow> (a', d) \<in> set (cf_saving c) \<Longrightarrow> Addr_Is4 a = Addr_Is4 a' \<Longrightarrow> a = a'"
    "pending_of v c d = Some a \<longleftrightarrow> (a, d) \<in> set (cf_saving c) \<and> v = (\<not> Addr_Is4 a)"
    "plain_address a \<Longrightarrow> create_bucket (db_FakeIP (cf_DB c)) (Addr_AsSlice a) = Some bs \<longleftrightarrow> domains_of (\<not> Addr_Is4 a) c bs = Some (Addr_AsSlice a)"
    "(a, d) \<in> set (cf_saving c) \<Longrightarrow> domains_of (\<not> Addr_Is4 a) c (string_bytes d) = None"
  using assms unfolding cache_ok_def by blast+

lemma create_bucket_Some: "create_bucket b k = Some v \<Longrightarrow> \<exists>bucket. b = Some bucket \<and> bucket k = Some v"
  by (cases b) (simp_all add: create_bucket_def)

lemma linked_iff:
  assumes "cache_ok c" "plain_address a" "d \<noteq> []" "addrFromIP (Addr_AsSlice a) = a"
  shows "linked addrFromIP a d c \<longleftrightarrow> (a, d) \<in> set (cf_saving c) \<or>
    a \<notin> fst ` set (cf_saving c) \<and> create_bucket (db_FakeIP (cf_DB c)) (Addr_AsSlice a) = Some (string_bytes d)"
proof -
  have ok: "distinct (map fst (cf_saving c))" "cf_saveDomain c = map_of (cf_saving c)" using assms(1) by (simp_all add: cache_ok_def saving_ok_def)
  show ?thesis
  proof (cases "\<exists>x. (a, x) \<in> set (cf_saving c)")
    case True
    then obtain x where x: "(a, x) \<in> set (cf_saving c)" by blast
    have load: "CacheFile_FakeIPLoad a c = Some x" using x ok by (simp add: CacheFile_FakeIPLoad_def)
    have "pending_of (\<not> Addr_Is4 a) c x = Some a" using cache_okD(3) [OF assms(1)] x by blast
    then have "CacheFile_FakeIPLoadDomain addrFromIP x (\<not> Addr_Is4 a) c = Some a" by (simp add: CacheFile_FakeIPLoadDomain_def split: if_splits)
    moreover have "(a, d) \<in> set (cf_saving c) \<longleftrightarrow> d = x" using ok(1) x by (metis eq_key_imp_eq_value)
    moreover have "a \<in> fst ` set (cf_saving c)" using x by force
    ultimately show ?thesis using load by (auto simp: linked_def)
  next
    case False
    then have none: "a \<notin> fst ` set (cf_saving c)" "map_of (cf_saving c) a = None" by (force simp: map_of_eq_None_iff)+
    let ?b = "create_bucket (db_FakeIP (cf_DB c)) (Addr_AsSlice a)" and ?v = "\<not> Addr_Is4 a"
    have load: "CacheFile_FakeIPLoad a c = Some d \<longleftrightarrow> (\<exists>bs. ?b = Some bs \<and> bs \<noteq> [] \<and> d = bytes_string bs)"
      using none(2) by (auto simp: CacheFile_FakeIPLoad_def ok(2) create_bucket_def split: option.splits)
    have "linked addrFromIP a d c \<longleftrightarrow> ?b = Some (string_bytes d)"
    proof
      assume "?b = Some (string_bytes d)"
      then have dom: "domains_of ?v c (string_bytes d) = Some (Addr_AsSlice a)" using cache_okD(4) [OF assms(1,2)] by blast
      have "pending_of ?v c d = None"
      proof (cases "pending_of ?v c d")
        case (Some a')
        then have a': "(a', d) \<in> set (cf_saving c)" "?v = (\<not> Addr_Is4 a')" using cache_okD(3) [OF assms(1), of ?v d a'] by simp_all
        from cache_okD(5) [OF assms(1) a'(1)] dom show ?thesis unfolding a'(2) [symmetric] by simp
      qed
      moreover obtain bucket where "(if ?v then db_FakeIPDomain6 (cf_DB c) else db_FakeIPDomain4 (cf_DB c)) = Some bucket"
        "bucket (string_bytes d) = Some (Addr_AsSlice a)" using create_bucket_Some [OF dom] by blast
      ultimately have "CacheFile_FakeIPLoadDomain addrFromIP d ?v c = Some a"
        using assms(2,4) by (cases "Addr_Is4 a") (simp_all add: CacheFile_FakeIPLoadDomain_def Let_def plain_address_def)
      with load \<open>?b = Some (string_bytes d)\<close> assms(3) show "linked addrFromIP a d c" by (simp add: linked_def)
    next
      assume "linked addrFromIP a d c"
      then show "?b = Some (string_bytes d)" using load by (auto simp: linked_def string_bytes_bytes_string)
    qed
    with none(1) False show ?thesis by auto
  qed
qed

lemma save_entry_ok_pairs:
  assumes "cache_ok c" "(b, x) \<in> set (cf_saving c)"
  shows "cache_ok (save_entry (b, x) c)"
proof -
  let ?c = "save_entry (b, x) c" and ?v = "\<not> Addr_Is4 b"
  let ?bucket = "create_bucket (db_FakeIP (cf_DB c))"
  have sok: "saving_ok c" using assms(1) by (simp add: cache_ok_def)
  have bx: "plain_address b" "x \<noteq> []" using sok assms(2) by (auto simp: saving_ok_def)
  note fields = save_entry_fields [OF bx, of c]
  have doms: "domains_of v ?c = (if v = ?v then (delete_old (?bucket (Addr_AsSlice b)) (domains_of v c))(string_bytes x \<mapsto> Addr_AsSlice b) else domains_of v c)" for v
    using bx Addr_AsSlice_nonempty [OF bx(1)]
    by (cases v; cases "Addr_Is4 b") (simp_all add: save_entry_def CacheFile_FakeIPStore_def bucket_Put_def create_bucket_def Let_def)
  have pend: "pending_of v ?c d = (if v = ?v \<and> d = x then None else pending_of v c d)" for v d
    using bx Addr_AsSlice_nonempty [OF bx(1)]
    by (cases v; cases "Addr_Is4 b") (simp_all add: save_entry_def CacheFile_FakeIPStore_def bucket_Put_def create_bucket_def Let_def)
  have saving: "(a, d) \<in> set (cf_saving ?c) \<longleftrightarrow> (a, d) \<in> set (cf_saving c) \<and> (a, d) \<noteq> (b, x)" for a d
    unfolding fields(2) using sok by (simp add: saving_ok_def distinct_map)
  note ok = cache_okD(2-5) [OF assms(1)]
  have "saving_ok ?c" using save_entry_ok [OF sok assms(2)] .
  moreover have "a = a'" if "(a, d) \<in> set (cf_saving ?c)" "(a', d) \<in> set (cf_saving ?c)" "Addr_Is4 a = Addr_Is4 a'" for a a' d
    using that ok(1) unfolding saving by blast
  moreover have "pending_of v ?c d = Some a \<longleftrightarrow> (a, d) \<in> set (cf_saving ?c) \<and> v = (\<not> Addr_Is4 a)" for v a d
    using ok(2) [of v d a] ok(1) [of b x a] assms(2) unfolding pend saving by auto
  moreover have "create_bucket (db_FakeIP (cf_DB ?c)) (Addr_AsSlice a) = Some d \<longleftrightarrow> domains_of (\<not> Addr_Is4 a) ?c d = Some (Addr_AsSlice a)"
    if "plain_address a" for a d
  proof (cases "a = b")
    case True
    have "domains_of ?v c d \<noteq> Some (Addr_AsSlice b) \<or> ?bucket (Addr_AsSlice b) = Some d" using ok(3) [OF bx(1)] by blast
    with True doms [of ?v] show ?thesis unfolding fields(3) by (auto simp: create_bucket_def delete_old_def split: option.splits)
  next
    case False
    then have ne: "Addr_AsSlice a \<noteq> Addr_AsSlice b" using that bx(1) by (simp add: Addr_AsSlice_inject)
    have keep: "domains_of (\<not> Addr_Is4 a) ?c d = Some (Addr_AsSlice a) \<longleftrightarrow> domains_of (\<not> Addr_Is4 a) c d = Some (Addr_AsSlice a)"
    proof (cases "(\<not> Addr_Is4 a) = ?v")
      case True
      have "?bucket (Addr_AsSlice b) = Some d \<Longrightarrow> domains_of ?v c d = Some (Addr_AsSlice b)" using ok(3) [OF bx(1)] by blast
      with True ne ok(4) [OF assms(2)] show ?thesis unfolding doms by (auto simp: delete_old_def split: option.splits)
    qed (simp add: doms)
    show ?thesis unfolding keep fields(3) using ok(3) [OF that] ne by (simp add: create_bucket_def)
  qed
  moreover have "domains_of (\<not> Addr_Is4 a) ?c (string_bytes d) = None" if "(a, d) \<in> set (cf_saving ?c)" for a d
    using that ok(4) [of a d] ok(1) [of a d b] assms(2) unfolding saving doms
    by (auto simp: delete_old_def split: option.splits)
  ultimately show ?thesis unfolding cache_ok_def by blast
qed

lemma save_entry_linked:
  assumes "cache_ok c" "(b, x) \<in> set (cf_saving c)" "plain_address a" "d \<noteq> []" "addrFromIP (Addr_AsSlice a) = a"
  shows "linked addrFromIP a d (save_entry (b, x) c) \<longleftrightarrow> linked addrFromIP a d c"
proof -
  have sok: "saving_ok c" using assms(1) by (rule cache_okD)
  have bx: "plain_address b" "x \<noteq> []" using sok assms(2) by (auto simp: saving_ok_def)
  note fields = save_entry_fields [OF bx, of c]
  have dist: "distinct (map fst (cf_saving c))" using sok by (simp add: saving_ok_def)
  have saving: "set (cf_saving (save_entry (b, x) c)) = set (cf_saving c) - {(b, x)}"
    unfolding fields(2) using dist by (simp add: distinct_map)
  have only: "(b, y) \<in> set (cf_saving c) \<longleftrightarrow> y = x" for y using dist assms(2) by (metis eq_key_imp_eq_value)
  show ?thesis
  proof (cases "a = b")
    case True
    have "b \<notin> fst ` (set (cf_saving c) - {(b, x)})" using only by force
    moreover have "b \<in> fst ` set (cf_saving c)" using assms(2) by force
    ultimately show ?thesis
      unfolding linked_iff [where addrFromIP = addrFromIP, OF assms(1,3-5)] linked_iff [where addrFromIP = addrFromIP, OF save_entry_ok_pairs [OF assms(1,2)] assms(3-5)] saving fields(3)
      using True only by (auto simp: create_bucket_def)
  next
    case False
    then have "Addr_AsSlice a \<noteq> Addr_AsSlice b" using assms(3) bx(1) by (simp add: Addr_AsSlice_inject)
    moreover have "a \<in> fst ` (set (cf_saving c) - {(b, x)}) \<longleftrightarrow> a \<in> fst ` set (cf_saving c)" using False by force
    ultimately show ?thesis
      unfolding linked_iff [where addrFromIP = addrFromIP, OF assms(1,3-5)] linked_iff [where addrFromIP = addrFromIP, OF save_entry_ok_pairs [OF assms(1,2)] assms(3-5)] saving fields(3)
      using False by (auto simp: create_bucket_def)
  qed
qed

lemma timer_fields:
  "cf_saving (save_metadata_timer c) = cf_saving c" "pending_of v (save_metadata_timer c) = pending_of v c"
  "domains_of v (save_metadata_timer c) = domains_of v c"
  "create_bucket (db_FakeIP (cf_DB (save_metadata_timer c))) (Addr_AsSlice a) = create_bucket (db_FakeIP (cf_DB c)) (Addr_AsSlice a)"
  using slice_not_key [of a]
  by (auto simp: save_metadata_timer_def CacheFile_FakeIPSaveMetadata_def bucket_Put_def create_bucket_def split: option.split)

lemma timer_ok_pairs: "cache_ok c \<Longrightarrow> cache_ok (save_metadata_timer c)"
  unfolding cache_ok_def timer_fields using timer_ok by blast

text \<open>C10. The background writes are invisible: in whatever order the goroutines that write the entries and the timer
  that writes the metadata run, the domain of an address stays what it was when they were started, and an address and a domain lead to each
  other exactly if they did before. The writes that wait are for different addresses and for domains that the file does not have yet. (What
  changes is the domain that an address had in the file before: it leads to the address until the write.)\<close>

theorem fakeip_writes_invisible:
  assumes "cache_ok c" "cache_step\<^sup>*\<^sup>* c c'" "plain_address a" "d \<noteq> []" "addrFromIP (Addr_AsSlice a) = a"
  shows "CacheFile_FakeIPLoad a c' = CacheFile_FakeIPLoad a c \<and> (linked addrFromIP a d c' \<longleftrightarrow> linked addrFromIP a d c) \<and> cache_ok c'"
  using assms(2)
proof (induction rule: rtranclp_induct)
  case (step c1 c2)
  have ok: "cache_ok c1" using step.IH by simp
  note sok = cache_okD(1) [OF ok]
  from step.hyps(2) have "CacheFile_FakeIPLoad a c2 = CacheFile_FakeIPLoad a c1 \<and> (linked addrFromIP a d c2 \<longleftrightarrow> linked addrFromIP a d c1) \<and> cache_ok c2"
  proof (cases rule: cache_step.cases)
    case (step_save e)
    obtain b x where e: "e = (b, x)" by force
    with step_save save_entry_load [OF sok _ assms(3)] save_entry_linked [where addrFromIP = addrFromIP, OF ok _ assms(3-5)] save_entry_ok_pairs [OF ok] show ?thesis by simp
  next
    case step_timer
    note ok2 = timer_ok_pairs [OF ok]
    show ?thesis unfolding step_timer(1) linked_iff [where addrFromIP = addrFromIP, OF ok assms(3-5)] linked_iff [where addrFromIP = addrFromIP, OF ok2 assms(3-5)] timer_fields
      using ok2 by (simp add: timer_load)
  qed
  with step.IH show ?case by simp
qed (simp add: assms(1))

theorem fakeip_writes_invisible_witness:
  "let c = CacheFile_FakeIPStoreAsync (Addr4 0xC6120004) ''b.example'' sample_cache
   in cf_saving (save_entry (Addr4 0xC6120004, ''b.example'') c) = [] \<and>
      linked sample_AddrFromIP (Addr4 0xC6120004) ''b.example'' (save_entry (Addr4 0xC6120004, ''b.example'') c)"
proof -
  let ?a = "Addr4 0xC6120004"
  define c where "c = CacheFile_FakeIPStoreAsync ?a ''b.example'' sample_cache"
  have c: "cf_saving c = [(?a, ''b.example'')]" "cf_saveDomain c = [?a \<mapsto> ''b.example'']" "cf_saveAddress4 c = [''b.example'' \<mapsto> ?a]"
    "cf_saveAddress6 c = Map.empty" "cf_DB c = cf_DB sample_cache"
    by (simp_all add: c_def CacheFile_FakeIPStoreAsync_def sample_cache_def Let_def)
  have plain: "plain_address ?a" "plain_address (Addr4 0xC6120003)" by (simp_all add: plain_address_def)
  define sa where "sa = Addr_AsSlice (Addr4 0xC6120003)"
  have one: "plain_address a \<Longrightarrow> sa = Addr_AsSlice a \<Longrightarrow> Addr_Is4 a" for a
    using Addr_AsSlice_inject [OF plain(2)] unfolding sa_def by force
  have db: "db_FakeIP (cf_DB c) = Some [sa \<mapsto> string_bytes ''a.example'']" "db_FakeIPDomain6 (cf_DB c) = None"
    "db_FakeIPDomain4 (cf_DB c) = Some [string_bytes ''a.example'' \<mapsto> sa]" by (simp_all add: c(5) sa_def sample_cache_def)
  have "saving_ok c" using c plain by (auto simp: saving_ok_def)
  moreover have "\<forall>a d. plain_address a \<longrightarrow> (create_bucket (db_FakeIP (cf_DB c)) (Addr_AsSlice a) = Some d \<longleftrightarrow> domains_of (\<not> Addr_Is4 a) c d = Some (Addr_AsSlice a))"
    unfolding db using one by (auto simp: create_bucket_def)
  ultimately have ok: "cache_ok c" unfolding cache_ok_def c(1,3,4) by (auto simp: db create_bucket_def split: if_splits)
  have "cache_step\<^sup>*\<^sup>* c (save_entry (?a, ''b.example'') c)" using c by (intro r_into_rtranclp step_save) simp
  from fakeip_writes_invisible [OF ok this plain(1), of "''b.example''" sample_AddrFromIP] plain_slice [OF plain(1)]
    linked_iff [where addrFromIP = sample_AddrFromIP, OF ok plain(1), of "''b.example''"] c
  show ?thesis unfolding Let_def c_def [symmetric] by (simp add: sample_AddrFromIP_def save_entry_fields(2) [OF plain(1)])
qed

end
