(* ===== verification/OutboundGroups.thy ===== *)
theory OutboundGroups
  imports Router
begin

text \<open>
  Outbound groups (\<^verbatim>\<open>protocol/group/urltest.go\<close>, \<^verbatim>\<open>selector.go\<close>), the history of URL tests
  (\<^verbatim>\<open>common/urltest/urltest.go\<close>) and the group of connections that a change of the selection interrupts
  (\<^verbatim>\<open>common/interrupt\<close>). An outbound is its identity, tag, networks and, for a group, the tag that
  \<^verbatim>\<open>Now\<close> gives. The URL test itself and the dialling are functions of the network: their results are arguments. The tests of one
  check run concurrently for different tags and write different entries of the history, so the order does not matter and they
  are run in the order of the outbounds. The hook of the history is not modelled.
\<close>

section \<open>The history of URL tests\<close>

record URLTestHistory =
  uh_Time :: int
  uh_Delay :: u16

type_synonym HistoryStorage = "string \<Rightarrow> URLTestHistory option"

definition LoadURLTestHistory :: "HistoryStorage \<Rightarrow> string \<Rightarrow> URLTestHistory option" where
  "LoadURLTestHistory s tag = s tag"

definition DeleteURLTestHistory :: "string \<Rightarrow> HistoryStorage \<Rightarrow> HistoryStorage" where
  "DeleteURLTestHistory tag s = s(tag := None)"

definition StoreURLTestHistory :: "string \<Rightarrow> URLTestHistory \<Rightarrow> HistoryStorage \<Rightarrow> HistoryStorage" where
  "StoreURLTestHistory tag history s = s(tag \<mapsto> history)"

section \<open>Connections of a group\<close>

text \<open>A connection is its number; the group keeps those that are open.\<close>

record groupConnItem =
  gc_conn :: nat
  gc_isExternal :: bool

type_synonym interrupt_group = "groupConnItem list"

definition Group_NewConn :: "nat \<Rightarrow> bool \<Rightarrow> interrupt_group \<Rightarrow> interrupt_group" where
  "Group_NewConn conn isExternal g = g @ [\<lparr>gc_conn = conn, gc_isExternal = isExternal\<rparr>]"

definition interrupt_Conn_Close :: "nat \<Rightarrow> interrupt_group \<Rightarrow> interrupt_group" where
  "interrupt_Conn_Close conn g = filter (\<lambda>item. gc_conn item \<noteq> conn) g"

text \<open>The connections closed, and those left.\<close>

definition Group_Interrupt :: "bool \<Rightarrow> interrupt_group \<Rightarrow> nat list \<times> interrupt_group" where
  "Group_Interrupt interruptExternalConnections g =
     (let toDelete = \<lambda>item. \<not> gc_isExternal item \<or> interruptExternalConnections
      in (map gc_conn (filter toDelete g), filter (\<lambda>item. \<not> toDelete item) g))"

section \<open>The URL test group\<close>

record detour =
  dt_id :: nat
  dt_Tag :: string
  dt_Network :: "string list"
  dt_Now :: "string option"

definition RealTag :: "detour \<Rightarrow> string" where
  "RealTag d = (case dt_Now d of Some now \<Rightarrow> now | None \<Rightarrow> dt_Tag d)"

record URLTestGroup =
  ug_outbounds :: "detour list"
  ug_interval :: int
  ug_tolerance :: u16
  ug_idleTimeout :: int
  ug_history :: HistoryStorage
  ug_selectedOutboundTCP :: "detour option"
  ug_selectedOutboundUDP :: "detour option"
  ug_interruptGroup :: interrupt_group
  ug_interruptExternalConnections :: bool
  ug_ticker :: bool
  ug_started :: bool
  ug_lastActive :: int

definition DefaultURLTestInterval :: int where "DefaultURLTestInterval = 180 * 1000000000"

definition DefaultURLTestIdleTimeout :: int where "DefaultURLTestIdleTimeout = 1800 * 1000000000"

definition NewURLTestGroup ::
  "detour list \<Rightarrow> int \<Rightarrow> u16 \<Rightarrow> int \<Rightarrow> bool \<Rightarrow> HistoryStorage \<Rightarrow> URLTestGroup res" where
  "NewURLTestGroup outbounds interval tolerance idleTimeout interruptExternalConnections history =
     (let interval = (if interval = 0 then DefaultURLTestInterval else interval);
          tolerance = (if tolerance = 0 then 50 else tolerance);
          idleTimeout = (if idleTimeout = 0 then DefaultURLTestIdleTimeout else idleTimeout)
      in if interval > idleTimeout then Inl (ENew [ArgS ''interval must be less or equal than idle_timeout''])
         else Inr \<lparr>ug_outbounds = outbounds, ug_interval = interval, ug_tolerance = tolerance, ug_idleTimeout = idleTimeout,
                  ug_history = history, ug_selectedOutboundTCP = None, ug_selectedOutboundUDP = None,
                  ug_interruptGroup = [], ug_interruptExternalConnections = interruptExternalConnections,
                  ug_ticker = False, ug_started = False, ug_lastActive = 0\<rparr>)"

text \<open>The outbound selected before keeps its place when it has a history.\<close>

definition initial_choice :: "HistoryStorage \<Rightarrow> detour option \<Rightarrow> u16 \<times> detour option" where
  "initial_choice history selected =
     (case selected of
        None \<Rightarrow> (0, None)
      | Some d \<Rightarrow>
          (case LoadURLTestHistory history (RealTag d) of
             None \<Rightarrow> (0, None)
           | Some h \<Rightarrow> (uh_Delay h, Some d)))"

fun choose_loop :: "HistoryStorage \<Rightarrow> u16 \<Rightarrow> string \<Rightarrow> detour list \<Rightarrow> u16 \<times> detour option \<Rightarrow> u16 \<times> detour option" where
  "choose_loop history tolerance network [] choice = choice"
| "choose_loop history tolerance network (d # ds) (minDelay, minOutbound) =
     choose_loop history tolerance network ds
       (if network \<notin> set (dt_Network d) then (minDelay, minOutbound)
        else case LoadURLTestHistory history (RealTag d) of
          None \<Rightarrow> (minDelay, minOutbound)
        | Some h \<Rightarrow>
            if minDelay = 0 \<or> minDelay > uh_Delay h + tolerance then (uh_Delay h, Some d) else (minDelay, minOutbound))"

definition selected_for :: "string \<Rightarrow> URLTestGroup \<Rightarrow> detour option" where
  "selected_for network g =
     (if network = NetworkTCP then ug_selectedOutboundTCP g
      else if network = NetworkUDP then ug_selectedOutboundUDP g
      else None)"

definition URLTestGroup_Select :: "string \<Rightarrow> URLTestGroup \<Rightarrow> detour option \<times> bool" where
  "URLTestGroup_Select network g =
     (case snd (choose_loop (ug_history g) (ug_tolerance g) network (ug_outbounds g)
                  (initial_choice (ug_history g) (selected_for network g))) of
        Some d \<Rightarrow> (Some d, True)
      | None \<Rightarrow> (find (\<lambda>d. network \<in> set (dt_Network d)) (ug_outbounds g), False))"

text \<open>The condition under which \<^verbatim>\<open>performUpdateCheck\<close> takes a new selection.\<close>

definition takes_over :: "detour option \<times> bool \<Rightarrow> detour option \<Rightarrow> bool" where
  "takes_over choice selected \<longleftrightarrow>
     (case choice of
        (None, _) \<Rightarrow> False
      | (Some d, exists) \<Rightarrow>
          (case selected of None \<Rightarrow> True | Some s \<Rightarrow> exists \<and> dt_id d \<noteq> dt_id s))"

definition performUpdateCheck :: "URLTestGroup \<Rightarrow> nat list \<times> URLTestGroup" where
  "performUpdateCheck g =
     (let tcp = URLTestGroup_Select NetworkTCP g;
          updatedTCP = takes_over tcp (ug_selectedOutboundTCP g) \<and> ug_selectedOutboundTCP g \<noteq> None;
          g1 = (if takes_over tcp (ug_selectedOutboundTCP g) then g\<lparr>ug_selectedOutboundTCP := fst tcp\<rparr> else g);
          udp = URLTestGroup_Select NetworkUDP g1;
          updatedUDP = takes_over udp (ug_selectedOutboundUDP g1) \<and> ug_selectedOutboundUDP g1 \<noteq> None;
          g2 = (if takes_over udp (ug_selectedOutboundUDP g1) then g1\<lparr>ug_selectedOutboundUDP := fst udp\<rparr> else g1)
      in if updatedTCP \<or> updatedUDP then
           (case Group_Interrupt (ug_interruptExternalConnections g2) (ug_interruptGroup g2) of
              (closed, conns) \<Rightarrow> (closed, g2\<lparr>ug_interruptGroup := conns\<rparr>))
         else ([], g2))"

text \<open>The loop of \<^verbatim>\<open>urlTest\<close>: \<open>test\<close> is the result of the test of an outbound of the manager, \<open>None\<close> if
  there is no outbound with that tag.\<close>

fun test_loop ::
  "(string \<Rightarrow> u16 res option) \<Rightarrow> int \<Rightarrow> bool \<Rightarrow> int \<Rightarrow> detour list \<Rightarrow> string list \<Rightarrow> HistoryStorage \<Rightarrow> (string \<times> u16) list \<Rightarrow>
     HistoryStorage \<times> (string \<times> u16) list" where
  "test_loop test now force interval [] checked history result = (history, result)"
| "test_loop test now force interval (d # ds) checked history result =
     (if RealTag d \<in> set checked then test_loop test now force interval ds checked history result
      else if \<not> force \<and> (case LoadURLTestHistory history (RealTag d) of None \<Rightarrow> False | Some h \<Rightarrow> now - uh_Time h < interval)
      then test_loop test now force interval ds checked history result
      else
        let checked = checked @ [RealTag d]
        in case test (RealTag d) of
             None \<Rightarrow> test_loop test now force interval ds checked history result
           | Some (Inl err) \<Rightarrow>
               test_loop test now force interval ds checked (DeleteURLTestHistory (RealTag d) history) result
           | Some (Inr t) \<Rightarrow>
               test_loop test now force interval ds checked
                 (StoreURLTestHistory (RealTag d) \<lparr>uh_Time = now, uh_Delay = t\<rparr> history) (AList.update (dt_Tag d) t result))"

definition URLTestGroup_urlTest ::
  "(string \<Rightarrow> u16 res option) \<Rightarrow> int \<Rightarrow> bool \<Rightarrow> URLTestGroup \<Rightarrow> (string \<times> u16) list \<times> nat list \<times> URLTestGroup" where
  "URLTestGroup_urlTest test now force g =
     (case test_loop test now force (ug_interval g) (ug_outbounds g) [] (ug_history g) [] of
        (history, result) \<Rightarrow>
          (case performUpdateCheck (g\<lparr>ug_history := history\<rparr>) of (closed, g) \<Rightarrow> (result, closed, g)))"

definition URLTestGroup_PostStart :: "int \<Rightarrow> URLTestGroup \<Rightarrow> URLTestGroup" where
  "URLTestGroup_PostStart now g = g\<lparr>ug_started := True, ug_lastActive := now\<rparr>"

definition URLTestGroup_Touch :: "int \<Rightarrow> URLTestGroup \<Rightarrow> URLTestGroup" where
  "URLTestGroup_Touch now g =
     (if \<not> ug_started g then g
      else if ug_ticker g then g\<lparr>ug_lastActive := now\<rparr>
      else g\<lparr>ug_ticker := True\<rparr>)"

text \<open>The two parts of \<^verbatim>\<open>loopCheck\<close>: when the goroutine starts, and at a tick.\<close>

definition loopCheck_start :: "(string \<Rightarrow> u16 res option) \<Rightarrow> int \<Rightarrow> URLTestGroup \<Rightarrow> URLTestGroup" where
  "loopCheck_start test now g =
     (if now - ug_lastActive g > ug_interval g
      then snd (snd (URLTestGroup_urlTest test now False (g\<lparr>ug_lastActive := now\<rparr>)))
      else g)"

definition loopCheck_tick :: "(string \<Rightarrow> u16 res option) \<Rightarrow> int \<Rightarrow> URLTestGroup \<Rightarrow> URLTestGroup" where
  "loopCheck_tick test now g =
     (if now - ug_lastActive g > ug_idleTimeout g then g\<lparr>ug_ticker := False\<rparr>
      else snd (snd (URLTestGroup_urlTest test now False g)))"

section \<open>The URL test outbound\<close>

definition URLTest_Now :: "URLTestGroup \<Rightarrow> string" where
  "URLTest_Now g =
     (case ug_selectedOutboundTCP g of
        Some d \<Rightarrow> dt_Tag d
      | None \<Rightarrow> (case ug_selectedOutboundUDP g of Some d \<Rightarrow> dt_Tag d | None \<Rightarrow> []))"

text \<open>Dialling: \<open>name\<close> is \<^verbatim>\<open>N.NetworkName(network)\<close>; \<open>dial\<close> gives the connection of an outbound.\<close>

definition use_outbound ::
  "(detour \<Rightarrow> nat res) \<Rightarrow> bool \<Rightarrow> detour option \<Rightarrow> URLTestGroup \<Rightarrow> nat res \<times> URLTestGroup" where
  "use_outbound dial isExternal outbound g =
     (case outbound of
        None \<Rightarrow> (Inl (ENew [ArgS ''missing supported outbound'']), g)
      | Some d \<Rightarrow>
          (case dial d of
             Inr conn \<Rightarrow> (Inr conn, g\<lparr>ug_interruptGroup := Group_NewConn conn isExternal (ug_interruptGroup g)\<rparr>)
           | Inl err \<Rightarrow> (Inl err, g\<lparr>ug_history := DeleteURLTestHistory (dt_Tag d) (ug_history g)\<rparr>)))"

definition selected_or :: "string \<Rightarrow> detour option \<Rightarrow> URLTestGroup \<Rightarrow> detour option" where
  "selected_or network selected g =
     (case selected of Some d \<Rightarrow> Some d | None \<Rightarrow> fst (URLTestGroup_Select network g))"

definition URLTest_DialContext ::
  "(detour \<Rightarrow> nat res) \<Rightarrow> (string \<Rightarrow> string) \<Rightarrow> int \<Rightarrow> bool \<Rightarrow> string \<Rightarrow> URLTestGroup \<Rightarrow> nat res \<times> URLTestGroup" where
  "URLTest_DialContext dial networkName now isExternal network g =
     (let g = URLTestGroup_Touch now g
      in if networkName network = NetworkTCP
         then use_outbound dial isExternal (selected_or network (ug_selectedOutboundTCP g) g) g
         else if networkName network = NetworkUDP
         then use_outbound dial isExternal (selected_or network (ug_selectedOutboundUDP g) g) g
         else (Inl (EExtend (EExternal ''unknown network'') [ArgS network]), g))"

definition URLTest_ListenPacket ::
  "(detour \<Rightarrow> nat res) \<Rightarrow> int \<Rightarrow> bool \<Rightarrow> URLTestGroup \<Rightarrow> nat res \<times> URLTestGroup" where
  "URLTest_ListenPacket listen now isExternal g =
     (let g = URLTestGroup_Touch now g
      in use_outbound listen isExternal (selected_or NetworkUDP (ug_selectedOutboundUDP g) g) g)"

text \<open>The loop of \<^verbatim>\<open>Start\<close> that looks up the outbounds of the tags.\<close>

fun find_outbounds :: "(string \<Rightarrow> detour option) \<Rightarrow> nat \<Rightarrow> string list \<Rightarrow> detour list res" where
  "find_outbounds outbound i [] = Inr []"
| "find_outbounds outbound i (tag # tags) =
     (case outbound tag of
        None \<Rightarrow> Inl (ENew [ArgS ''outbound '', ArgI (int i), ArgS '' not found: '', ArgS tag])
      | Some d \<Rightarrow> (case find_outbounds outbound (Suc i) tags of Inl err \<Rightarrow> Inl err | Inr ds \<Rightarrow> Inr (d # ds)))"

definition URLTest_Start ::
  "(string \<Rightarrow> detour option) \<Rightarrow> string list \<Rightarrow> int \<Rightarrow> u16 \<Rightarrow> int \<Rightarrow> bool \<Rightarrow> HistoryStorage \<Rightarrow> URLTestGroup res" where
  "URLTest_Start outbound tags interval tolerance idleTimeout interruptExternalConnections history =
     res_bind (find_outbounds outbound 0 tags) (\<lambda>outbounds.
       NewURLTestGroup outbounds interval tolerance idleTimeout interruptExternalConnections history)"

section \<open>The selector\<close>

record Selector =
  sl_Tag :: string
  sl_tags :: "string list"
  sl_defaultTag :: string
  sl_outbounds :: "(string \<times> detour) list"
  sl_selected :: "detour option"
  sl_interruptGroup :: interrupt_group
  sl_interruptExternalConnections :: bool

definition NewSelector :: "string \<Rightarrow> string list \<Rightarrow> string \<Rightarrow> bool \<Rightarrow> Selector res" where
  "NewSelector tag outbounds defaultTag interruptExistConnections =
     (if outbounds = [] then Inl (ENew [ArgS ''missing tags''])
      else Inr \<lparr>sl_Tag = tag, sl_tags = outbounds, sl_defaultTag = defaultTag, sl_outbounds = [], sl_selected = None,
               sl_interruptGroup = [], sl_interruptExternalConnections = interruptExistConnections\<rparr>)"

definition Selector_Network :: "Selector \<Rightarrow> string list" where
  "Selector_Network s = (case sl_selected s of None \<Rightarrow> [NetworkTCP, NetworkUDP] | Some d \<Rightarrow> dt_Network d)"

fun put_outbounds ::
  "(string \<Rightarrow> detour option) \<Rightarrow> nat \<Rightarrow> string list \<Rightarrow> (string \<times> detour) list \<Rightarrow> goerr option \<times> (string \<times> detour) list" where
  "put_outbounds outbound i [] m = (None, m)"
| "put_outbounds outbound i (tag # tags) m =
     (case outbound tag of
        None \<Rightarrow> (Some (ENew [ArgS ''outbound '', ArgI (int i), ArgS '' not found: '', ArgS tag]), m)
      | Some d \<Rightarrow> put_outbounds outbound (Suc i) tags (AList.update tag d m))"

text \<open>The cache file holds the selected tag per selector; \<open>None\<close> when there is no cache file. \<^verbatim>\<open>LoadSelected\<close>
  gives the empty string for an absent entry.\<close>

type_synonym selected_cache = "(string \<Rightarrow> string) option"

definition cached_selection :: "selected_cache \<Rightarrow> Selector \<Rightarrow> detour option" where
  "cached_selection cache s =
     (case cache of
        None \<Rightarrow> None
      | Some load \<Rightarrow>
          if sl_Tag s = [] \<or> load (sl_Tag s) = [] then None else map_of (sl_outbounds s) (load (sl_Tag s)))"

definition Selector_Start :: "(string \<Rightarrow> detour option) \<Rightarrow> selected_cache \<Rightarrow> Selector \<Rightarrow> goerr option \<times> Selector" where
  "Selector_Start outbound cache s =
     (case put_outbounds outbound 0 (sl_tags s) (sl_outbounds s) of
        (Some err, outbounds) \<Rightarrow> (Some err, s\<lparr>sl_outbounds := outbounds\<rparr>)
      | (None, outbounds) \<Rightarrow>
          let s = s\<lparr>sl_outbounds := outbounds\<rparr>
          in case cached_selection cache s of
               Some d \<Rightarrow> (None, s\<lparr>sl_selected := Some d\<rparr>)
             | None \<Rightarrow>
                 if sl_defaultTag s \<noteq> [] then
                   (case map_of (sl_outbounds s) (sl_defaultTag s) of
                      None \<Rightarrow> (Some (ENew [ArgS ''default outbound not found: '', ArgS (sl_defaultTag s)]), s)
                    | Some d \<Rightarrow> (None, s\<lparr>sl_selected := Some d\<rparr>))
                 else
                   (case sl_tags s of
                      [] \<Rightarrow> (Some (GoPanic [ArgS ''index out of range'']), s)
                    | tag # _ \<Rightarrow> (None, s\<lparr>sl_selected := map_of (sl_outbounds s) tag\<rparr>)))"

definition Selector_Now :: "Selector \<Rightarrow> string" where
  "Selector_Now s =
     (case sl_selected s of
        Some d \<Rightarrow> dt_Tag d
      | None \<Rightarrow> (case sl_tags s of tag # _ \<Rightarrow> tag | [] \<Rightarrow> []))"

definition SelectOutbound ::
  "string \<Rightarrow> selected_cache \<Rightarrow> Selector \<Rightarrow> bool \<times> nat list \<times> selected_cache \<times> Selector" where
  "SelectOutbound tag cache s =
     (case map_of (sl_outbounds s) tag of
        None \<Rightarrow> (False, [], cache, s)
      | Some d \<Rightarrow>
          if map_option dt_id (sl_selected s) = Some (dt_id d) then (True, [], cache, s\<lparr>sl_selected := Some d\<rparr>)
          else
            let cache = (if sl_Tag s \<noteq> [] then map_option (\<lambda>load. load(sl_Tag s := tag)) cache else cache)
            in case Group_Interrupt (sl_interruptExternalConnections s) (sl_interruptGroup s) of
                 (closed, conns) \<Rightarrow> (True, closed, cache, s\<lparr>sl_selected := Some d, sl_interruptGroup := conns\<rparr>))"

definition Selector_DialContext ::
  "(detour \<Rightarrow> nat res) \<Rightarrow> bool \<Rightarrow> Selector \<Rightarrow> nat res \<times> Selector" where
  "Selector_DialContext dial isExternal s =
     (case sl_selected s of
        None \<Rightarrow> (Inl nil_dereference, s)
      | Some d \<Rightarrow>
          (case dial d of
             Inl err \<Rightarrow> (Inl err, s)
           | Inr conn \<Rightarrow> (Inr conn, s\<lparr>sl_interruptGroup := Group_NewConn conn isExternal (sl_interruptGroup s)\<rparr>)))"

definition Selector_ListenPacket ::
  "(detour \<Rightarrow> nat res) \<Rightarrow> bool \<Rightarrow> Selector \<Rightarrow> nat res \<times> Selector" where
  "Selector_ListenPacket listen isExternal s =
     (case sl_selected s of
        None \<Rightarrow> (Inl nil_dereference, s)
      | Some d \<Rightarrow>
          (case listen d of
             Inl err \<Rightarrow> (Inl err, s)
           | Inr conn \<Rightarrow> (Inr conn, s\<lparr>sl_interruptGroup := Group_NewConn conn isExternal (sl_interruptGroup s)\<rparr>)))"

section \<open>Direct routes\<close>

text \<open>\<open>direct\<close> is \<^verbatim>\<open>NewDirectRouteConnection\<close> of the outbound, \<open>None\<close> if it is not a
  \<^verbatim>\<open>DirectRouteOutbound\<close>: the type assertion panics.\<close>

definition group_direct_route :: "(detour \<Rightarrow> 'r res option) \<Rightarrow> string \<Rightarrow> detour \<Rightarrow> 'r res" where
  "group_direct_route direct network selected =
     (if network \<notin> set (dt_Network selected)
      then Inl (ENew [ArgS network, ArgS '' is not supported by outbound: '', ArgS (dt_Tag selected)])
      else case direct selected of
        None \<Rightarrow> Inl (GoPanic [ArgS ''interface conversion''])
      | Some r \<Rightarrow> r)"

definition Selector_NewDirectRouteConnection :: "(detour \<Rightarrow> 'r res option) \<Rightarrow> string \<Rightarrow> Selector \<Rightarrow> 'r res" where
  "Selector_NewDirectRouteConnection direct network s =
     (case sl_selected s of
        None \<Rightarrow> Inl nil_dereference
      | Some d \<Rightarrow> group_direct_route direct network d)"

text \<open>The group takes the outbound selected for TCP whatever the network.\<close>

definition URLTest_NewDirectRouteConnection ::
  "(detour \<Rightarrow> 'r res option) \<Rightarrow> int \<Rightarrow> string \<Rightarrow> URLTestGroup \<Rightarrow> 'r res \<times> URLTestGroup" where
  "URLTest_NewDirectRouteConnection direct now network g =
     (let g = URLTestGroup_Touch now g
      in (case selected_or NetworkTCP (ug_selectedOutboundTCP g) g of
            None \<Rightarrow> Inl (ENew [ArgS ''missing supported outbound''])
          | Some d \<Rightarrow> group_direct_route direct network d, g))"

end
