(* ===== verification/GroupProps.thy ===== *)
theory GroupProps
  imports OutboundGroups
begin

text \<open>
  Properties of the outbound groups: the choice of the URL test group with respect to its tolerance, where the 16-bit
  delays break it, and the selection of a selector across a restart.
\<close>

section \<open>Samples\<close>

definition sample_detour :: "nat \<Rightarrow> string \<Rightarrow> detour" where
  "sample_detour i tag = \<lparr>dt_id = i, dt_Tag = tag, dt_Network = [NetworkTCP, NetworkUDP], dt_Now = None\<rparr>"

text \<open>A group of two outbounds with the given delays, the first of them selected.\<close>

definition sample_group :: "u16 \<Rightarrow> u16 \<Rightarrow> URLTestGroup" where
  "sample_group delayA delayB =
     \<lparr>ug_outbounds = [sample_detour 1 ''a'', sample_detour 2 ''b''], ug_interval = 10, ug_tolerance = 50, ug_idleTimeout = 100,
      ug_history = [''a'' \<mapsto> \<lparr>uh_Time = 0, uh_Delay = delayA\<rparr>, ''b'' \<mapsto> \<lparr>uh_Time = 0, uh_Delay = delayB\<rparr>],
      ug_selectedOutboundTCP = Some (sample_detour 1 ''a''), ug_selectedOutboundUDP = None, ug_interruptGroup = [],
      ug_interruptExternalConnections = False, ug_ticker = False, ug_started = True, ug_lastActive = 0\<rparr>"

definition sample_lookup :: "string \<Rightarrow> detour option" where
  "sample_lookup tag = map_of [(''a'', sample_detour 1 ''a''), (''b'', sample_detour 2 ''b'')] tag"

definition sample_selector :: Selector where
  "sample_selector = \<lparr>sl_Tag = ''select'', sl_tags = [''a'', ''b''], sl_defaultTag = ''a'', sl_outbounds = [], sl_selected = None,
     sl_interruptGroup = [], sl_interruptExternalConnections = False\<rparr>"

section \<open>The choice of the URL test group\<close>

text \<open>Delays that the arithmetic of the choice can handle: measured as at least one millisecond, and far enough from the end of
  the 16 bits.\<close>

definition delays_ok :: "URLTestGroup \<Rightarrow> bool" where
  "delays_ok g \<longleftrightarrow>
     (\<forall>tag h. ug_history g tag = Some h \<longrightarrow> 0 < uh_Delay h \<and> unat (uh_Delay h) + unat (ug_tolerance g) < 2 ^ 16)"

definition choice_ok :: "HistoryStorage \<Rightarrow> u16 \<times> detour option \<Rightarrow> bool" where
  "choice_ok history choice \<longleftrightarrow>
     (case choice of
        (m, None) \<Rightarrow> m = 0
      | (m, Some d) \<Rightarrow> \<exists>h. history (RealTag d) = Some h \<and> m = uh_Delay h)"

lemma within_tolerance_iff:
  assumes "unat (d :: u16) + unat t < 2 ^ 16"
  shows "m > d + t \<longleftrightarrow> unat m > unat d + unat t"
  using assms by (simp add: word_less_nat_alt unat_word_ariths)

text \<open>What the loop guarantees: the choice has a history, is within the tolerance of every outbound it has seen, and is that of before
  or better by more than the tolerance.\<close>

lemma choose_loop_spec:
  assumes ok: "\<And>tag h. history tag = Some h \<Longrightarrow> 0 < uh_Delay h \<and> unat (uh_Delay h) + unat tol < 2 ^ 16"
  shows "choice_ok history (m, b) \<Longrightarrow> choose_loop history tol network ds (m, b) = (m', b') \<Longrightarrow>
    choice_ok history (m', b') \<and>
    (b \<noteq> None \<longrightarrow> b' = b \<and> m' = m \<or> b' \<noteq> None \<and> unat m' + unat tol < unat m) \<and>
    (\<forall>d\<in>set ds. \<forall>h. network \<in> set (dt_Network d) \<longrightarrow> history (RealTag d) = Some h \<longrightarrow>
       b' \<noteq> None \<and> unat m' \<le> unat (uh_Delay h) + unat tol)"
proof (induction ds arbitrary: m b)
  case (Cons d ds)
  define step where "step = (if network \<notin> set (dt_Network d) then (m, b)
        else case LoadURLTestHistory history (RealTag d) of
          None \<Rightarrow> (m, b)
        | Some h \<Rightarrow> if m = 0 \<or> m > uh_Delay h + tol then (uh_Delay h, Some d) else (m, b))"
  obtain m1 b1 where step: "step = (m1, b1)" by force
  have ok1: "choice_ok history (m1, b1)"
    using Cons.prems(1) step by (auto simp: step_def choice_ok_def LoadURLTestHistory_def split: if_splits option.splits)
  have change: "b \<noteq> None \<longrightarrow> b1 = b \<and> m1 = m \<or> b1 \<noteq> None \<and> unat m1 + unat tol < unat m"
  proof (intro impI)
    assume "b \<noteq> None"
    with Cons.prems(1) obtain d0 h where "history (RealTag d0) = Some h" "m = uh_Delay h" by (auto simp: choice_ok_def)
    with ok [of "RealTag d0" h] have "m \<noteq> 0" by auto
    then show "b1 = b \<and> m1 = m \<or> b1 \<noteq> None \<and> unat m1 + unat tol < unat m"
      using step ok within_tolerance_iff
      by (auto simp: step_def LoadURLTestHistory_def split: if_splits option.splits)
  qed
  have bound: "b1 \<noteq> None \<and> unat m1 \<le> unat (uh_Delay h) + unat tol"
    if "network \<in> set (dt_Network d)" "history (RealTag d) = Some h" for h
  proof (cases "m = 0 \<or> m > uh_Delay h + tol")
    case True
    with that step show ?thesis by (auto simp: step_def LoadURLTestHistory_def)
  next
    case False
    with that step have "m1 = m" "b1 = b" by (auto simp: step_def LoadURLTestHistory_def)
    moreover from False ok [OF that(2)] within_tolerance_iff have "unat m \<le> unat (uh_Delay h) + unat tol" by (metis not_less)
    moreover from False Cons.prems(1) have "b \<noteq> None" by (auto simp: choice_ok_def split: option.splits)
    ultimately show ?thesis by simp
  qed
  have loop: "choose_loop history tol network ds (m1, b1) = (m', b')" using Cons.prems(2) step by (simp add: step_def)
  note IH = Cons.IH [OF ok1 loop]
  then have "b1 \<noteq> None \<Longrightarrow> b' \<noteq> None \<and> unat m' \<le> unat m1" by auto
  with IH change bound show ?case by fastforce
qed auto

lemma initial_choice_ok: "choice_ok history (initial_choice history selected)"
  by (auto simp: initial_choice_def choice_ok_def LoadURLTestHistory_def split: option.splits)

lemma sample_delays_ok: "delays_ok (sample_group 100 40)"
  by (auto simp: delays_ok_def sample_group_def split: if_splits)

text \<open>C23. The choice of a URL test group is within the tolerance of the best: no outbound of the group that serves the network and
  has been measured is faster than the selected one by more than the tolerance. The measured delays are not zero, and their sums with
  the tolerance fit into 16 bits; \<open>Select_zero_delay\<close> and \<open>Select_overflow\<close> show that both are needed.\<close>

theorem Select_within_tolerance:
  assumes "delays_ok g" "URLTestGroup_Select network g = (Some d, True)"
  shows "\<exists>h. ug_history g (RealTag d) = Some h \<and>
    (\<forall>d'\<in>set (ug_outbounds g). \<forall>h'. network \<in> set (dt_Network d') \<longrightarrow> ug_history g (RealTag d') = Some h' \<longrightarrow>
       unat (uh_Delay h) \<le> unat (uh_Delay h') + unat (ug_tolerance g))"
proof -
  let ?i = "initial_choice (ug_history g) (selected_for network g)"
  obtain m' b' where loop: "choose_loop (ug_history g) (ug_tolerance g) network (ug_outbounds g) ?i = (m', b')" by force
  with assms(2) have "b' = Some d" by (auto simp: URLTestGroup_Select_def split: option.splits)
  moreover have "choice_ok (ug_history g) (m', b') \<and>
    (\<forall>d'\<in>set (ug_outbounds g). \<forall>h'. network \<in> set (dt_Network d') \<longrightarrow> ug_history g (RealTag d') = Some h' \<longrightarrow>
       b' \<noteq> None \<and> unat m' \<le> unat (uh_Delay h') + unat (ug_tolerance g))"
    using choose_loop_spec [of "ug_history g" "ug_tolerance g" "fst ?i" "snd ?i" network "ug_outbounds g" m' b'] assms(1) loop
      initial_choice_ok [of "ug_history g"] by (simp add: delays_ok_def)
  ultimately show ?thesis by (auto simp: choice_ok_def)
qed

theorem Select_within_tolerance_witness:
  "URLTestGroup_Select NetworkTCP (sample_group 100 40) = (Some (sample_detour 2 ''b''), True) \<and>
   (\<exists>h. ug_history (sample_group 100 40) ''b'' = Some h \<and> unat (uh_Delay h) \<le> 100 + 50)"
proof -
  have run: "URLTestGroup_Select NetworkTCP (sample_group 100 40) = (Some (sample_detour 2 ''b''), True)" by code_simp
  from Select_within_tolerance [OF sample_delays_ok run] obtain h where
    "ug_history (sample_group 100 40) (RealTag (sample_detour 2 ''b'')) = Some h" by blast
  then have "ug_history (sample_group 100 40) ''b'' = Some h" by (simp add: RealTag_def sample_detour_def)
  moreover from this have "unat (uh_Delay h) \<le> 100 + 50" by (auto simp: sample_group_def)
  ultimately show ?thesis using run by blast
qed

text \<open>The selection does not flap: as long as the selected outbound has a history, it is replaced only by one that is faster by
  more than the tolerance.\<close>

theorem Select_hysteresis:
  assumes "delays_ok g" "selected_for network g = Some s" "ug_history g (RealTag s) = Some hs"
    and "URLTestGroup_Select network g = (choice, exists)"
  shows "exists \<and> (choice = Some s \<or>
    (\<exists>d h. choice = Some d \<and> ug_history g (RealTag d) = Some h \<and> unat (uh_Delay h) + unat (ug_tolerance g) < unat (uh_Delay hs)))"
proof -
  have i: "initial_choice (ug_history g) (selected_for network g) = (uh_Delay hs, Some s)"
    using assms(2,3) by (simp add: initial_choice_def LoadURLTestHistory_def)
  obtain m' b' where loop: "choose_loop (ug_history g) (ug_tolerance g) network (ug_outbounds g) (uh_Delay hs, Some s) = (m', b')"
    by force
  have "choice_ok (ug_history g) (uh_Delay hs, Some s)" using assms(3) by (simp add: choice_ok_def)
  with choose_loop_spec [of "ug_history g" "ug_tolerance g" "uh_Delay hs" "Some s" network "ug_outbounds g" m' b'] assms(1) loop
  have "choice_ok (ug_history g) (m', b')" "b' = Some s \<or> b' \<noteq> None \<and> unat m' + unat (ug_tolerance g) < unat (uh_Delay hs)"
    by (auto simp: delays_ok_def)
  with assms(4) i loop show ?thesis by (auto simp: URLTestGroup_Select_def choice_ok_def split: option.splits)
qed

theorem Select_hysteresis_witness:
  "\<exists>choice. URLTestGroup_Select NetworkTCP (sample_group 100 40) = (choice, True) \<and> choice \<noteq> None"
proof -
  obtain choice exists where run: "URLTestGroup_Select NetworkTCP (sample_group 100 40) = (choice, exists)" by force
  have "selected_for NetworkTCP (sample_group 100 40) = Some (sample_detour 1 ''a'')"
    "ug_history (sample_group 100 40) (RealTag (sample_detour 1 ''a'')) = Some \<lparr>uh_Time = 0, uh_Delay = 100\<rparr>" by code_simp+
  from Select_hysteresis [OF sample_delays_ok this run] run show ?thesis by auto
qed

text \<open>Near the end of the 16 bits the choice is wrong: a delay close to 65536 ms plus the tolerance wraps around to a small
  number, so the slow outbound replaces one that takes 100 ms.\<close>

theorem Select_overflow:
  "URLTestGroup_Select NetworkTCP (sample_group 100 65500) = (Some (sample_detour 2 ''b''), True)"
  by code_simp

text \<open>A delay below one millisecond is stored as 0, which the loop takes for no choice: any other measured outbound replaces it.\<close>

lemma Select_zero_delay:
  "URLTestGroup_Select NetworkTCP (sample_group 0 3000) = (Some (sample_detour 2 ''b''), True)"
  by code_simp

text \<open>A failed connection through a nested group does not count: the history is deleted under the tag of the group, while the
  measurements are kept under the tag of the outbound that the group uses, so the history that the next choice looks at
  is unchanged.\<close>

theorem DialContext_failure_nested:
  assumes "networkName network = NetworkTCP" "ug_selectedOutboundTCP g = Some d" "dial d = Inl err" "RealTag d \<noteq> dt_Tag d"
  shows "fst (URLTest_DialContext dial networkName now isExternal network g) = Inl err \<and>
    ug_history (snd (URLTest_DialContext dial networkName now isExternal network g)) (RealTag d) = ug_history g (RealTag d)"
  using assms
  by (simp add: URLTest_DialContext_def URLTestGroup_Touch_def use_outbound_def selected_or_def DeleteURLTestHistory_def Let_def)

theorem DialContext_failure_nested_witness:
  "let d = (sample_detour 1 ''group'')\<lparr>dt_Now := Some ''b''\<rparr>;
       g = (sample_group 100 40)\<lparr>ug_selectedOutboundTCP := Some d\<rparr>
   in ug_history (snd (URLTest_DialContext (\<lambda>d. Inl EUnexpectedEOF) id 5 True ''tcp'' g)) ''b'' =
        Some \<lparr>uh_Time = 0, uh_Delay = 40\<rparr>"
proof -
  let ?d = "(sample_detour 1 ''group'')\<lparr>dt_Now := Some ''b''\<rparr>"
  let ?g = "(sample_group 100 40)\<lparr>ug_selectedOutboundTCP := Some ?d\<rparr>"
  have "RealTag ?d = ''b''" "RealTag ?d \<noteq> dt_Tag ?d" by code_simp+
  with DialContext_failure_nested [of id "''tcp''" ?g ?d "\<lambda>d. Inl EUnexpectedEOF" EUnexpectedEOF 5 True]
  show ?thesis by (simp add: NetworkTCP_def sample_group_def)
qed

section \<open>The selector\<close>

lemma put_outbounds_map:
  "put_outbounds outbound i tags m = (None, m') \<Longrightarrow>
   map_of m' t = (if t \<in> set tags then outbound t else map_of m t)"
  by (induction tags arbitrary: i m) (auto simp: update_conv' split: option.splits if_splits)

lemma put_outbounds_ok: "(\<forall>t\<in>set tags. outbound t \<noteq> None) \<Longrightarrow> fst (put_outbounds outbound i tags m) = None"
  by (induction tags arbitrary: i m) auto

text \<open>A selection survives a restart: with a cache file, the outbound that was selected is selected again when a selector with
  the same tag is started, whatever its default, if the tag is still among its outbounds.\<close>

theorem SelectOutbound_restart:
  assumes "SelectOutbound tag (Some load) s = (True, closed, cache, s')"
    and "map_option dt_id (sl_selected s) \<noteq> map_option dt_id (map_of (sl_outbounds s) tag)"
    and "sl_Tag s \<noteq> []" "tag \<noteq> []"
    and "sl_Tag s0 = sl_Tag s" "tag \<in> set (sl_tags s0)" "\<forall>t\<in>set (sl_tags s0). outbound t \<noteq> None"
  shows "fst (Selector_Start outbound cache s0) = None \<and> sl_selected (snd (Selector_Start outbound cache s0)) = outbound tag"
proof -
  have cache: "cache = Some (load(sl_Tag s := tag))"
    using assms(1-3) by (auto simp: SelectOutbound_def Let_def split: option.splits if_splits prod.splits)
  obtain m where m: "put_outbounds outbound 0 (sl_tags s0) (sl_outbounds s0) = (None, m)"
    using put_outbounds_ok [OF assms(7)] by (metis prod.collapse)
  obtain d where d: "outbound tag = Some d" using assms(6,7) by blast
  have "cached_selection cache (s0\<lparr>sl_outbounds := m\<rparr>) = Some d"
    using put_outbounds_map [OF m, of tag] assms(3-6) d by (simp add: cached_selection_def cache)
  with m d show ?thesis by (simp add: Selector_Start_def Let_def)
qed

theorem SelectOutbound_restart_witness:
  "let s = snd (Selector_Start sample_lookup (Some (\<lambda>tag. [])) sample_selector);
       cache = fst (snd (snd (SelectOutbound ''b'' (Some (\<lambda>tag. [])) s)))
   in sl_selected (snd (Selector_Start sample_lookup cache sample_selector)) = Some (sample_detour 2 ''b'')"
proof -
  let ?s = "snd (Selector_Start sample_lookup (Some (\<lambda>tag. [])) sample_selector)"
  have s: "map_option dt_id (sl_selected ?s) \<noteq> map_option dt_id (map_of (sl_outbounds ?s) ''b'')" "sl_Tag ?s \<noteq> []"
    "sl_Tag sample_selector = sl_Tag ?s" "''b'' \<in> set (sl_tags sample_selector)"
    "\<forall>t\<in>set (sl_tags sample_selector). sample_lookup t \<noteq> None" "sample_lookup ''b'' = Some (sample_detour 2 ''b'')" by code_simp+
  obtain ok closed cache s' where run: "SelectOutbound ''b'' (Some (\<lambda>tag. [])) ?s = (ok, closed, cache, s')" by (metis surj_pair)
  have "fst (SelectOutbound ''b'' (Some (\<lambda>tag. [])) ?s)" by code_simp
  with run have run: "SelectOutbound ''b'' (Some (\<lambda>tag. [])) ?s = (True, closed, cache, s')" by simp
  from SelectOutbound_restart [OF run s(1,2) _ s(3-5)] s(6) show ?thesis by (simp add: Let_def run)
qed

end
