(* ===== verification/TlsFragment.thy ===== *)
theory TlsFragment
  imports SrsRoundtrip
begin

text \<open>
  Fragmentation of the TLS client hello (\<^verbatim>\<open>common/tlsfragment/index.go\<close>, \<^verbatim>\<open>conn.go\<close>): finding the server name in a
  client hello, and writing the first packet in pieces, as separate packets, as separate TLS records, or both. A Go slice is the
  list of its bytes. The random numbers, the list of public suffixes and the outcomes of the calls on the network connection are
  arguments; what is written is the list of the writes. Waiting for an acknowledgement, or for the fallback delay,
  between two writes is not modelled.
\<close>

section \<open>Finding the server name\<close>

record MyServerName =
  sn_Index :: nat
  sn_Length :: nat
  sn_ServerName :: bytes

definition be16 :: "u8 \<Rightarrow> u8 \<Rightarrow> u16" where
  "be16 a b = push_bit 8 (ucast a) OR ucast b"

definition recordLayerHeaderLen :: nat where "recordLayerHeaderLen = 5"
definition handshakeHeaderLen :: nat where "handshakeHeaderLen = 6"
definition randomDataLen :: nat where "randomDataLen = 32"
definition sessionIDHeaderLen :: nat where "sessionIDHeaderLen = 1"
definition cipherSuiteHeaderLen :: nat where "cipherSuiteHeaderLen = 2"
definition compressMethodHeaderLen :: nat where "compressMethodHeaderLen = 1"
definition extensionsHeaderLen :: nat where "extensionsHeaderLen = 2"
definition extensionHeaderLen :: nat where "extensionHeaderLen = 4"
definition sniExtensionHeaderLen :: nat where "sniExtensionHeaderLen = 5"

lemmas header_lengths = recordLayerHeaderLen_def handshakeHeaderLen_def randomDataLen_def sessionIDHeaderLen_def
  cipherSuiteHeaderLen_def compressMethodHeaderLen_def extensionsHeaderLen_def extensionHeaderLen_def sniExtensionHeaderLen_def

text \<open>The server name in the data of a server name extension.\<close>

definition sni_name :: "nat \<Rightarrow> bytes \<Rightarrow> MyServerName option" where
  "sni_name currentIndex sex =
     (if length sex < sniExtensionHeaderLen then None
      else if sex ! 2 \<noteq> 0 then None
      else Some \<lparr>sn_Index = currentIndex + extensionHeaderLen + sniExtensionHeaderLen,
                 sn_Length = unat (be16 (sex ! 3) (sex ! 4)), sn_ServerName = drop sniExtensionHeaderLen sex\<rparr>)"

text \<open>The loop over the extensions. The expression \<^verbatim>\<open>4+exLen\<close> of the slice is computed in 16 bits; the loop may run forever,
  which is the value \<open>None\<close>.\<close>

partial_function (option) index_extensions :: "nat \<Rightarrow> bytes \<Rightarrow> MyServerName option option" where
  "index_extensions currentIndex exs =
     (if exs = [] then Some None
      else if length exs < extensionHeaderLen then Some None
      else
        let exType = be16 (exs ! 0) (exs ! 1); exLen = be16 (exs ! 2) (exs ! 3)
        in if length exs < extensionHeaderLen + unat exLen then Some None
           else if exType = 0 then Some (sni_name currentIndex (take (unat exLen) (drop extensionHeaderLen exs)))
           else index_extensions (currentIndex + 4 + unat exLen) (drop (unat (4 + exLen)) exs))"

declare index_extensions.simps [code]

definition indexTLSServerNameFromExtensions :: "bytes \<Rightarrow> MyServerName option option" where
  "indexTLSServerNameFromExtensions exs =
     (if length exs < extensionsHeaderLen then Some None
      else if length (drop extensionsHeaderLen exs) < unat (be16 (exs ! 0) (exs ! 1)) then Some None
      else index_extensions extensionsHeaderLen (drop extensionsHeaderLen exs))"

definition shift_name :: "nat \<Rightarrow> MyServerName option \<Rightarrow> MyServerName option" where
  "shift_name offset name = map_option (\<lambda>sn. sn\<lparr>sn_Index := sn_Index sn + offset\<rparr>) name"

text \<open>The index of the extensions in the handshake, after the session id, the cipher suites and the compression methods.\<close>

definition extensions_index :: "bytes \<Rightarrow> nat option" where
  "extensions_index handshake =
     (let currentIndex = handshakeHeaderLen + randomDataLen + sessionIDHeaderLen + unat (handshake ! 38)
      in if length handshake < currentIndex then None
         else let cipherSuites = drop currentIndex handshake
              in if length cipherSuites < cipherSuiteHeaderLen then None
                 else let csLen = unat (be16 (cipherSuites ! 0) (cipherSuites ! 1))
                      in if length cipherSuites < cipherSuiteHeaderLen + csLen + compressMethodHeaderLen then None
                         else let compressMethodLen = unat (cipherSuites ! (cipherSuiteHeaderLen + csLen));
                                  currentIndex = currentIndex + cipherSuiteHeaderLen + csLen + compressMethodHeaderLen + compressMethodLen
                              in if length handshake < currentIndex then None else Some currentIndex)"

definition tlsVersion_ok :: "u16 \<Rightarrow> bool" where
  "tlsVersion_ok tlsVersion \<longleftrightarrow> tlsVersion AND 0xFFFC = 0x0300 \<or> tlsVersion = 0x0304"

definition indexTLSServerNameFromHandshake :: "bytes \<Rightarrow> MyServerName option option" where
  "indexTLSServerNameFromHandshake handshake =
     (if length handshake < handshakeHeaderLen + randomDataLen + sessionIDHeaderLen then Some None
      else if handshake ! 0 \<noteq> 1 then Some None
      else if length (drop 4 handshake) \<noteq> unat (get_be 0 [handshake ! 1, handshake ! 2, handshake ! 3] :: u32) then Some None
      else if \<not> tlsVersion_ok (be16 (handshake ! 4) (handshake ! 5)) then Some None
      else case extensions_index handshake of
        None \<Rightarrow> Some None
      | Some currentIndex \<Rightarrow>
          map_option (shift_name currentIndex) (indexTLSServerNameFromExtensions (drop currentIndex handshake)))"

definition IndexTLSServerName :: "bytes \<Rightarrow> MyServerName option option" where
  "IndexTLSServerName payload =
     (if length payload < recordLayerHeaderLen \<or> payload ! 0 \<noteq> 22 then Some None
      else if length payload < recordLayerHeaderLen + unat (be16 (payload ! 3) (payload ! 4)) then Some None
      else map_option (shift_name recordLayerHeaderLen) (indexTLSServerNameFromHandshake (drop recordLayerHeaderLen payload)))"

section \<open>Writing the first packet\<close>

record fragment_conn =
  fc_tcpConn :: bool
  fc_firstPacketWritten :: bool
  fc_splitPacket :: bool
  fc_splitRecord :: bool

text \<open>The functions outside: \<open>PublicSuffix\<close>, the random number below a bound that the i-th call gives, and the errors of
  \<^verbatim>\<open>SetNoDelay\<close> and of the i-th write.\<close>

record fragment_deps =
  fd_PublicSuffix :: "bytes \<Rightarrow> bytes"
  fd_Intn :: "nat \<Rightarrow> nat \<Rightarrow> nat"
  fd_SetNoDelay :: "bool \<Rightarrow> goerr option"
  fd_Write :: "nat \<Rightarrow> goerr option"

definition dot :: u8 where "dot = 46"

text \<open>The labels of the name that are split; the prefix \<^verbatim>\<open>...\<close> that the code looks for cannot be a label.\<close>

definition labels_to_split :: "fragment_deps \<Rightarrow> bytes \<Rightarrow> bytes list" where
  "labels_to_split fd name =
     (let splits = strings_Split dot name
      in if fd_PublicSuffix fd name \<noteq> [] then take (length splits - count_list name dot) splits else splits)"

definition skip_dots :: "nat \<Rightarrow> bytes list \<Rightarrow> nat \<times> bytes list" where
  "skip_dots currentIndex splits =
     (case splits of
        [dots] \<Rightarrow> (currentIndex, splits)
      | dots # rest \<Rightarrow> if dots = [dot, dot, dot] then (currentIndex + length dots + 1, rest) else (currentIndex, splits)
      | [] \<Rightarrow> (currentIndex, splits))"

fun split_indexes :: "fragment_deps \<Rightarrow> nat \<Rightarrow> nat \<Rightarrow> bytes list \<Rightarrow> nat list res" where
  "split_indexes fd i currentIndex [] = Inr []"
| "split_indexes fd i currentIndex (split # splits) =
     (if split = [] then Inl (GoPanic [ArgS ''invalid argument to Intn''])
      else res_bind (split_indexes fd (Suc i) (currentIndex + length split + (if splits = [] then 0 else 1)) splits)
             (\<lambda>idxs. Inr ((currentIndex + fd_Intn fd i (length split)) # idxs)))"

text \<open>\<^verbatim>\<open>b[from:to]\<close> panics when the bounds are wrong.\<close>

definition slice :: "bytes \<Rightarrow> nat \<Rightarrow> nat \<Rightarrow> bytes res" where
  "slice b from to =
     (if from \<le> to \<and> to \<le> length b then Inr (take (to - from) (drop from b))
      else Inl (GoPanic [ArgS ''slice bounds out of range'']))"

text \<open>The payloads between the indexes, from \<open>from\<close> on.\<close>

fun payloads :: "bytes \<Rightarrow> nat \<Rightarrow> nat list \<Rightarrow> bytes list res" where
  "payloads b from [] = res_bind (slice b from (length b)) (\<lambda>payload. Inr [payload])"
| "payloads b from (idx # idxs) =
     res_bind (slice b from idx) (\<lambda>payload.
     res_bind (payloads b idx idxs) (\<lambda>rest. Inr (payload # rest)))"

definition tls_record :: "bytes \<Rightarrow> bytes \<Rightarrow> bytes" where
  "tls_record b payload = take 3 b @ put_be 2 (of_nat (length payload) :: u16) @ payload"

text \<open>Without any index the code reads the first element of an empty slice.\<close>

definition first_writes :: "fragment_conn \<Rightarrow> bytes \<Rightarrow> nat list \<Rightarrow> bytes list res" where
  "first_writes c b idxs =
     (if idxs = [] then Inl (GoPanic [ArgS ''index out of range''])
      else res_bind (payloads b (if fc_splitRecord c then recordLayerHeaderLen else 0) idxs) (\<lambda>parts.
        Inr (if fc_splitRecord c
             then (if fc_splitPacket c then map (tls_record b) parts else [concat (map (tls_record b) parts)])
             else if fc_splitPacket c then parts else [])))"

text \<open>The writes are made one after the other until one of them fails.\<close>

fun write_all :: "fragment_deps \<Rightarrow> nat \<Rightarrow> bytes list \<Rightarrow> goerr option \<times> bytes list" where
  "write_all fd i [] = (None, [])"
| "write_all fd i (w # ws) =
     (case fd_Write fd i of
        Some err \<Rightarrow> (Some err, [])
      | None \<Rightarrow> (case write_all fd (Suc i) ws of (err, done) \<Rightarrow> (err, w # done)))"

definition set_no_delay :: "fragment_deps \<Rightarrow> fragment_conn \<Rightarrow> bool \<Rightarrow> goerr option" where
  "set_no_delay fd c on = (if fc_tcpConn c then fd_SetNoDelay fd on else None)"

definition write_fragments :: "fragment_deps \<Rightarrow> fragment_conn \<Rightarrow> MyServerName \<Rightarrow> bytes \<Rightarrow> nat res \<times> bytes list" where
  "write_fragments fd c serverName b =
     (case if fc_splitPacket c then set_no_delay fd c True else None of
        Some err \<Rightarrow> (Inl err, [])
      | None \<Rightarrow>
          (case skip_dots (sn_Index serverName) (labels_to_split fd (sn_ServerName serverName)) of
             (currentIndex, splits) \<Rightarrow>
               (case res_bind (split_indexes fd 0 currentIndex splits) (first_writes c b) of
                  Inl err \<Rightarrow> (Inl err, [])
                | Inr ws \<Rightarrow>
                    (case write_all fd 0 ws of
                       (Some err, done) \<Rightarrow> (Inl err, done)
                     | (None, done) \<Rightarrow>
                         (case set_no_delay fd c False of
                            Some err \<Rightarrow> (Inl err, done)
                          | None \<Rightarrow> (Inr (length b), done))))))"

definition fragment_Write ::
  "fragment_deps \<Rightarrow> bytes \<Rightarrow> fragment_conn \<Rightarrow> (nat res \<times> bytes list \<times> fragment_conn) option" where
  "fragment_Write fd b c =
     (let plain = (case fd_Write fd 0 of Some err \<Rightarrow> (Inl err, []) | None \<Rightarrow> (Inr (length b), [b]))
      in if fc_firstPacketWritten c then Some (fst plain, snd plain, c)
         else case IndexTLSServerName b of
           None \<Rightarrow> None
         | Some None \<Rightarrow> Some (fst plain, snd plain, c\<lparr>fc_firstPacketWritten := True\<rparr>)
         | Some (Some serverName) \<Rightarrow>
             (case write_fragments fd c serverName b of
                (r, ws) \<Rightarrow> Some (r, ws, c\<lparr>fc_firstPacketWritten := True\<rparr>)))"

end
