(* ===== verification/Ja3.thy ===== *)
theory Ja3
  imports TlsFragment
begin

text \<open>
  The parser of client hellos (\<^verbatim>\<open>common/ja3\<close>) that the QUIC sniffer uses. Indexing and slicing are bounds-checked by Go:
  where the code does not check before, the model has the panic as a value. The lists of version numbers and of signature
  algorithms are read with the length that the packet claims.
\<close>

section \<open>The client hello\<close>

record ClientHello =
  ch_Version :: u16
  ch_CipherSuites :: "u16 list"
  ch_Extensions :: "u16 list"
  ch_EllipticCurves :: "u16 list"
  ch_EllipticCurvePF :: "u8 list"
  ch_Versions :: "u16 list"
  ch_SignatureAlgorithms :: "u16 list"
  ch_ServerName :: bytes

definition ClientHello_zero :: ClientHello where
  "ClientHello_zero = \<lparr>ch_Version = 0, ch_CipherSuites = [], ch_Extensions = [], ch_EllipticCurves = [], ch_EllipticCurvePF = [],
     ch_Versions = [], ch_SignatureAlgorithms = [], ch_ServerName = []\<rparr>"

definition ClientHello_Equals :: "ClientHello \<Rightarrow> ClientHello \<Rightarrow> bool \<Rightarrow> bool" where
  "ClientHello_Equals j another ignoreExtensionsSequence \<longleftrightarrow>
     ch_Version j = ch_Version another \<and> ch_CipherSuites j = ch_CipherSuites another \<and>
     (if ignoreExtensionsSequence then ch_Extensions j = sort (ch_Extensions another)
      else ch_Extensions j = ch_Extensions another) \<and>
     ch_EllipticCurves j = ch_EllipticCurves another \<and> ch_EllipticCurvePF j = ch_EllipticCurvePF another \<and>
     ch_SignatureAlgorithms j = ch_SignatureAlgorithms another"

section \<open>Parsing\<close>

text \<open>The errors: a length at one of the checks, a content type, a handshake type, a server name type, a version.\<close>

definition LengthErr :: "int \<Rightarrow> goerr" where "LengthErr check = ENew [ArgS ''length check '', ArgI check, ArgS '' failed'']"
definition ContentTypeErr :: goerr where "ContentTypeErr = ENew [ArgS ''content type not matching'']"
definition VersionErr :: "int \<Rightarrow> goerr" where "VersionErr check = ENew [ArgS ''version check '', ArgI check, ArgS '' failed'']"
definition HandshakeTypeErr :: goerr where "HandshakeTypeErr = ENew [ArgS ''handshake type not matching'']"
definition SNITypeErr :: goerr where "SNITypeErr = ENew [ArgS ''SNI type not supported'']"

definition index_panic :: goerr where "index_panic = GoPanic [ArgS ''index out of range'']"

text \<open>Pairs of bytes as numbers.\<close>

fun read_pairs :: "bytes \<Rightarrow> u16 list" where
  "read_pairs (a # b # bs) = be16 a b # read_pairs bs"
| "read_pairs _ = []"

text \<open>\<^verbatim>\<open>for i := 0; i < n; i += 2\<close> with \<^verbatim>\<open>binary.BigEndian.Uint16(bs[i:])\<close>.\<close>

fun read_claimed :: "nat \<Rightarrow> bytes \<Rightarrow> u16 list res" where
  "read_claimed 0 bs = Inr []"
| "read_claimed (Suc n) (a # b # bs) = res_bind (read_claimed (n - 1) bs) (\<lambda>vs. Inr (be16 a b # vs))"
| "read_claimed (Suc n) _ = Inl index_panic"

text \<open>One extension: what it adds to the result.\<close>

definition parse_extension :: "u16 \<Rightarrow> bytes \<Rightarrow> ClientHello \<Rightarrow> ClientHello res" where
  "parse_extension exType sex j =
     (if exType = 0 then
        if length sex < 5 then Inl (LengthErr 13)
        else if length (drop 5 sex) \<noteq> unat (be16 (sex ! 3) (sex ! 4)) then Inl (LengthErr 14)
        else if sex ! 2 \<noteq> 0 then Inl SNITypeErr
        else Inr (j\<lparr>ch_ServerName := drop 5 sex\<rparr>)
      else if exType = 10 then
        if length sex < 2 then Inl (LengthErr 15)
        else if length (drop 2 sex) \<noteq> unat (be16 (sex ! 0) (sex ! 1)) then Inl (LengthErr 16)
        else Inr (j\<lparr>ch_EllipticCurves := read_pairs (drop 2 sex)\<rparr>)
      else if exType = 11 then
        if length sex < 1 then Inl (LengthErr 17)
        else if length (drop 1 sex) \<noteq> unat (sex ! 0) then Inl (LengthErr 18)
        else Inr (j\<lparr>ch_EllipticCurvePF := drop 1 sex\<rparr>)
      else if exType = 43 then
        if length sex < 1 then Inl (LengthErr 19)
        else res_bind (read_claimed (unat (sex ! 0)) (drop 1 sex)) (\<lambda>vs. Inr (j\<lparr>ch_Versions := ch_Versions j @ vs\<rparr>))
      else if exType = 13 then
        if length sex < 2 then Inl (LengthErr 20)
        else res_bind (read_claimed (unat (be16 (sex ! 0) (sex ! 1))) (drop 2 sex))
               (\<lambda>vs. Inr (j\<lparr>ch_SignatureAlgorithms := ch_SignatureAlgorithms j @ vs\<rparr>))
      else Inr j)"

text \<open>The loop over the extensions. They are part of a record, whose length is a 16-bit number, so the sum \<^verbatim>\<open>4+exLen\<close> of the slice, which
  is at most the length of the rest, does not wrap in 16 bits.\<close>

function parse_extensions_loop :: "bytes \<Rightarrow> ClientHello \<Rightarrow> ClientHello res" where
  "parse_extensions_loop exs j =
     (if exs = [] then Inr j
      else if length exs < 4 then Inl (LengthErr 11)
      else
        let exType = be16 (exs ! 0) (exs ! 1); exLen = be16 (exs ! 2) (exs ! 3);
            j = j\<lparr>ch_Extensions := ch_Extensions j @ [exType]\<rparr>
        in if length exs < 4 + unat exLen then Inl (LengthErr 12)
           else res_bind (parse_extension exType (take (unat exLen) (drop 4 exs)) j) (\<lambda>j.
                  parse_extensions_loop (drop (4 + unat exLen) exs) j))"
  by pat_completeness auto
termination
  by (relation "measure (\<lambda>(exs, j). length exs)") auto

declare parse_extensions_loop.simps [simp del]

definition parseExtensions :: "bytes \<Rightarrow> ClientHello \<Rightarrow> ClientHello res" where
  "parseExtensions exs j =
     (if exs = [] then Inr j
      else if length exs < 2 then Inl (LengthErr 9)
      else if length (drop 2 exs) < unat (be16 (exs ! 0) (exs ! 1)) then Inl (LengthErr 10)
      else parse_extensions_loop (drop 2 exs) j)"

definition parseHandshake :: "bytes \<Rightarrow> ClientHello \<Rightarrow> ClientHello res" where
  "parseHandshake hs j =
     (if length hs < 39 then Inl (LengthErr 3)
      else if hs ! 0 \<noteq> 1 then Inl HandshakeTypeErr
      else if length (drop 4 hs) \<noteq> unat (get_be 0 [hs ! 1, hs ! 2, hs ! 3] :: u32) then Inl (LengthErr 4)
      else if \<not> tlsVersion_ok (be16 (hs ! 4) (hs ! 5)) then Inl (VersionErr 2)
      else if length hs < 39 + unat (hs ! 38) then Inl (LengthErr 5)
      else
        let cs = drop (39 + unat (hs ! 38)) hs
        in if length cs < 2 then Inl (LengthErr 6)
           else
             let csLen = unat (be16 (cs ! 0) (cs ! 1))
             in if length cs < 2 + csLen + 1 then Inl (LengthErr 7)
                else
                  let compressMethodLen = unat (cs ! (2 + csLen))
                  in if length cs < 2 + csLen + 1 + compressMethodLen then Inl (LengthErr 8)
                     else parseExtensions (drop (2 + csLen + 1 + compressMethodLen) cs)
                            (j\<lparr>ch_Version := be16 (hs ! 4) (hs ! 5),
                               ch_CipherSuites := read_pairs (take (csLen div 2 * 2) (drop 2 cs))\<rparr>))"

definition parseSegment :: "bytes \<Rightarrow> ClientHello \<Rightarrow> ClientHello res" where
  "parseSegment segment j =
     (if length segment < 5 then Inl (LengthErr 1)
      else if segment ! 0 \<noteq> 22 then Inl ContentTypeErr
      else if \<not> tlsVersion_ok (be16 (segment ! 1) (segment ! 2)) then Inl (VersionErr 1)
      else if length (drop 5 segment) < unat (be16 (segment ! 3) (segment ! 4)) then Inl (LengthErr 2)
      else parseHandshake (take (unat (be16 (segment ! 3) (segment ! 4))) (drop 5 segment)) j)"

definition ja3_Compute :: "bytes \<Rightarrow> ClientHello res" where
  "ja3_Compute payload = parseSegment payload ClientHello_zero"

section \<open>The text of the fingerprint\<close>

text \<open>The values of a list that the code does not skip, each followed by a dash; the last byte of the text so far is replaced.\<close>

definition GreaseBitmask :: u16 where "GreaseBitmask = 0x0F0F"

definition grease_values :: "u16 list \<Rightarrow> u16 list" where
  "grease_values vals = filter (\<lambda>val. val AND GreaseBitmask = 0x0A0A) vals"

definition append_values :: "string \<Rightarrow> u16 list \<Rightarrow> string" where
  "append_values s vals =
     (if vals \<noteq> []
      then butlast (s @ concat (map (\<lambda>val. decimal (unat val) @ ''-'') (grease_values vals))) @ '',''
      else s @ '','')"

definition marshalJA3 :: "ClientHello \<Rightarrow> string" where
  "marshalJA3 j =
     (let s = decimal (unat (ch_Version j)) @ '','';
          s = append_values s (ch_CipherSuites j);
          s = append_values s (ch_Extensions j);
          s = append_values s (ch_EllipticCurves j)
      in if ch_EllipticCurvePF j \<noteq> []
         then butlast (s @ concat (map (\<lambda>val. decimal (unat val) @ ''-'') (ch_EllipticCurvePF j)))
         else s)"

end
