(* ===== verification/Quic.thy ===== *)
theory Quic
  imports Ja3 Sniff
begin

text \<open>
  The QUIC sniffer (\<^verbatim>\<open>common/sniff/quic.go\<close>, \<^verbatim>\<open>quic_blacklist.go\<close>, \<^verbatim>\<open>internal/qtls\<close>): the header of an Initial packet, the
  frames in it, the client hello put together from the fragments of this and earlier packets, and the guess of the client. The
  derivation of keys and the ciphers are library code and arguments. \<^verbatim>\<open>SniffContext\<close> of the metadata, where the
  fragments of earlier packets wait, is an argument and part of the result. The result is \<open>None\<close> when the loop that puts the fragments
  together does not end.
\<close>

section \<open>Variable-length integers\<close>

text \<open>\<^verbatim>\<open>qtls.ReadUvarint\<close>: the two high bits of the first byte give the number of bytes; the others are read in turn.\<close>

fun read_bytes :: "nat \<Rightarrow> bytes reader" where
  "read_bytes 0 bs = Inr ([], bs)"
| "read_bytes (Suc n) bs = res_bind (read_byte bs) (\<lambda>(b, bs). res_bind (read_bytes n bs) (\<lambda>(rest, bs). Inr (b # rest, bs)))"

definition quic_ReadUvarint :: "u64 reader" where
  "quic_ReadUvarint bs =
     res_bind (read_byte bs) (\<lambda>(firstByte, bs).
     res_bind (read_bytes (2 ^ unat (drop_bit 6 (firstByte AND 0xc0)) - 1) bs) (\<lambda>(rest, bs).
     Inr (get_be 0 ((firstByte AND 0x3f) # rest), bs)))"

text \<open>\<^verbatim>\<open>io.ReadFull\<close> into \<open>n\<close> bytes, and \<^verbatim>\<open>io.CopyN(io.Discard, reader, n)\<close>.\<close>

definition read_full :: "nat \<Rightarrow> bytes reader" where
  "read_full n bs =
     (if n \<le> length bs then Inr (take n bs, drop n bs) else Inl (if bs = [] then io_EOF else EUnexpectedEOF))"

definition discard :: "nat \<Rightarrow> bytes \<Rightarrow> bytes res" where
  "discard n bs = (if n \<le> length bs then Inr (drop n bs) else Inl io_EOF)"

section \<open>The header\<close>

definition VersionDraft29 :: u32 where "VersionDraft29 = 0xff00001d"
definition Version1 :: u32 where "Version1 = 0x1"
definition Version2 :: u32 where "Version2 = 0x6b3343cf"

definition SaltOld :: bytes where
  "SaltOld = [0xaf, 0xbf, 0xec, 0x28, 0x99, 0x93, 0xd2, 0x4c, 0x9e, 0x97, 0x86, 0xf1, 0x9c, 0x61, 0x11, 0xe0, 0x43, 0x90, 0xa8, 0x99]"
definition SaltV1 :: bytes where
  "SaltV1 = [0x38, 0x76, 0x2c, 0xf7, 0xf5, 0x59, 0x34, 0xb3, 0x4d, 0x17, 0x9a, 0xe6, 0xa4, 0xc8, 0x0c, 0xad, 0xcc, 0xbb, 0x7f, 0x0a]"
definition SaltV2 :: bytes where
  "SaltV2 = [0x0d, 0xed, 0xe3, 0xde, 0xf7, 0x00, 0xa6, 0xdb, 0x81, 0x93, 0x81, 0xbe, 0x6e, 0x26, 0x9d, 0xcb, 0xf9, 0xbd, 0x2e, 0xd9]"

record quic_header =
  qh_version :: u32
  qh_destConnID :: bytes
  qh_hdrLen :: nat
  qh_packetLen :: nat
  qh_pnBytes :: bytes

definition read_header :: "bytes \<Rightarrow> quic_header res" where
  "read_header packet =
     res_bind (read_byte packet) (\<lambda>(typeByte, bs).
     if typeByte AND 0x40 = 0 then Inl (ENew [ArgS ''bad type byte''])
     else res_bind (read_full 4 bs) (\<lambda>(version, bs).
     let versionNumber = get_be 0 version; packetType = drop_bit 4 (typeByte AND 0x30)
     in if versionNumber \<noteq> VersionDraft29 \<and> versionNumber \<noteq> Version1 \<and> versionNumber \<noteq> Version2
     then Inl (ENew [ArgS ''bad version''])
     else if packetType = 0 \<and> versionNumber = Version2 \<or> packetType = 2 \<and> versionNumber \<noteq> Version2 \<or> packetType > 2
     then Inl (ENew [ArgS ''bad packet type''])
     else res_bind (read_byte bs) (\<lambda>(destConnIDLen, bs).
     if destConnIDLen = 0 \<or> destConnIDLen > 20 then Inl (ENew [ArgS ''bad destination connection id length''])
     else res_bind (read_full (unat destConnIDLen) bs) (\<lambda>(destConnID, bs).
     res_bind (read_byte bs) (\<lambda>(srcConnIDLen, bs).
     res_bind (discard (unat srcConnIDLen) bs) (\<lambda>bs.
     res_bind (quic_ReadUvarint bs) (\<lambda>(tokenLen, bs).
     res_bind (discard (unat tokenLen) bs) (\<lambda>bs.
     res_bind (quic_ReadUvarint bs) (\<lambda>(packetLen, bs).
     let hdrLen = length packet - length bs
     in if hdrLen + unat packetLen > length packet then Inl EInvalid
     else res_bind (discard 4 bs) (\<lambda>bs.
     res_bind (read_full 16 bs) (\<lambda>(pnBytes, bs).
     Inr \<lparr>qh_version = versionNumber, qh_destConnID = destConnID, qh_hdrLen = hdrLen, qh_packetLen = unat packetLen,
          qh_pnBytes = pnBytes\<rparr>)))))))))))"

text \<open>The keys: \<open>qd_mask\<close> is the mask that the header protection key gives for a sample, \<open>qd_open\<close> opens the payload with the
  key and the nonce.\<close>

record quic_deps =
  qd_mask :: "bytes \<Rightarrow> string \<Rightarrow> bytes \<Rightarrow> bytes \<Rightarrow> bytes"
  qd_open :: "bytes \<Rightarrow> string \<Rightarrow> string \<Rightarrow> bytes \<Rightarrow> u32 \<Rightarrow> bytes \<Rightarrow> bytes \<Rightarrow> bytes res"

definition quic_salt :: "u32 \<Rightarrow> bytes" where
  "quic_salt version = (if version = Version1 then SaltV1 else if version = Version2 then SaltV2 else SaltOld)"

definition hp_label :: "u32 \<Rightarrow> string" where
  "hp_label version = (if version = Version2 then ''quicv2 hp'' else ''quic hp'')"

definition key_label :: "u32 \<Rightarrow> string" where
  "key_label version = (if version = Version2 then ''quicv2 key'' else ''quic key'')"

definition iv_label :: "u32 \<Rightarrow> string" where
  "iv_label version = (if version = Version2 then ''quicv2 iv'' else ''quic iv'')"

text \<open>The packet without header protection, and the length of the packet number.\<close>

definition unmask :: "bytes \<Rightarrow> nat \<Rightarrow> bytes \<Rightarrow> bytes \<times> nat" where
  "unmask packet hdrLen msk =
     (let first = (packet ! 0) XOR (msk ! 0 AND 0xf);
          number = map (\<lambda>i. (packet ! (hdrLen + i)) XOR (msk ! (i + 1))) [0..<4];
          pnLen = unat (first AND 0x3) + 1
      in ([first] @ take (hdrLen - 1) (drop 1 packet) @ take pnLen number @ drop (hdrLen + pnLen) packet, pnLen))"

text \<open>The decrypted payload, with the bytes that stand behind it in the same array, and the slice of it.\<close>

definition open_packet :: "quic_deps \<Rightarrow> bytes \<Rightarrow> (bytes \<times> bytes) res" where
  "open_packet qd packet =
     res_bind (read_header packet) (\<lambda>h.
     case unmask packet (qh_hdrLen h) (qd_mask qd (quic_salt (qh_version h)) (hp_label (qh_version h)) (qh_destConnID h) (qh_pnBytes h)) of
       (newPacket, pnLen) \<Rightarrow>
         let extHdrLen = qh_hdrLen h + pnLen
         in if extHdrLen > qh_packetLen h + qh_hdrLen h then Inl EInvalid
            else
              let packetNumber = get_be 0 (take pnLen (drop (qh_hdrLen h) newPacket));
                  data = take (qh_packetLen h + qh_hdrLen h - extHdrLen) (drop extHdrLen newPacket)
              in res_bind (qd_open qd (quic_salt (qh_version h)) (key_label (qh_version h)) (iv_label (qh_version h)) (qh_destConnID h)
                             packetNumber data (take extHdrLen newPacket)) (\<lambda>decrypted.
                 Inr (decrypted, drop (extHdrLen + length decrypted) newPacket)))"

section \<open>The frames\<close>

record qCryptoFragment =
  qf_offset :: u64
  qf_length :: u64
  qf_payload :: bytes

fun skip_uvarints :: "nat \<Rightarrow> bytes \<Rightarrow> bytes res" where
  "skip_uvarints 0 bs = Inr bs"
| "skip_uvarints (Suc n) bs = res_bind (quic_ReadUvarint bs) (\<lambda>(v, bs). skip_uvarints n bs)"

text \<open>A frame of type ACK; the ranges are read until the bytes end.\<close>

definition read_ack :: "u8 \<Rightarrow> bytes \<Rightarrow> bytes res" where
  "read_ack frameType bs =
     res_bind (skip_uvarints 2 bs) (\<lambda>bs.
     res_bind (quic_ReadUvarint bs) (\<lambda>(ackRangeCount, bs).
     res_bind (skip_uvarints 1 bs) (\<lambda>bs.
     res_bind (if sint ackRangeCount \<le> 0 then Inr bs else skip_uvarints (2 * unat ackRangeCount) bs) (\<lambda>bs.
     if frameType = 3 then skip_uvarints 3 bs else Inr bs))))"

text \<open>The payload of a CRYPTO frame is a slice of the array, which may pass the end of the decrypted bytes but not that of the
  array.\<close>

definition read_crypto :: "bytes \<Rightarrow> bytes \<Rightarrow> (qCryptoFragment \<times> bytes) res" where
  "read_crypto spare bs =
     res_bind (quic_ReadUvarint bs) (\<lambda>(offset, bs).
     res_bind (quic_ReadUvarint bs) (\<lambda>(len, bs).
     if unat len > length bs + length spare then Inl (GoPanic [ArgS ''slice bounds out of range''])
     else Inr (\<lparr>qf_offset = offset, qf_length = len, qf_payload = take (unat len) (bs @ spare)\<rparr>, drop (unat len) bs)))"

definition read_close :: "bytes \<Rightarrow> bytes res" where
  "read_close bs =
     res_bind (skip_uvarints 2 bs) (\<lambda>bs. res_bind (quic_ReadUvarint bs) (\<lambda>(len, bs). Inr (drop (unat len) bs)))"

text \<open>The loop over the frames; each takes at least its type, so as much fuel as there are bytes is enough.\<close>

fun read_frames :: "nat \<Rightarrow> bytes \<Rightarrow> bytes \<Rightarrow> u8 list \<Rightarrow> qCryptoFragment list \<Rightarrow> (u8 list \<times> qCryptoFragment list) res" where
  "read_frames fuel spare [] types fragments = Inr (types, fragments)"
| "read_frames 0 spare (frameType # bs) types fragments = Inl EUnexpectedEOF"
| "read_frames (Suc fuel) spare (frameType # bs) types fragments =
     (let types = types @ [frameType]
      in if frameType = 0 \<or> frameType = 1 then read_frames fuel spare bs types fragments
         else if frameType = 2 \<or> frameType = 3
         then res_bind (read_ack frameType bs) (\<lambda>bs. read_frames fuel spare bs types fragments)
         else if frameType = 6
         then res_bind (read_crypto spare bs) (\<lambda>(fragment, bs). read_frames fuel spare bs types (fragments @ [fragment]))
         else if frameType = 0x1c then res_bind (read_close bs) (\<lambda>bs. read_frames fuel spare bs types fragments)
         else Inl EInvalid)"

section \<open>Putting the client hello together\<close>

partial_function (option) assemble :: "qCryptoFragment list \<Rightarrow> u64 \<Rightarrow> bytes \<Rightarrow> bytes option" where
  "assemble fragments index buffer =
     (case find (\<lambda>fragment. qf_offset fragment = index) fragments of
        None \<Rightarrow> Some buffer
      | Some fragment \<Rightarrow> assemble fragments (qf_offset fragment + qf_length fragment) (buffer @ qf_payload fragment))"

declare assemble.simps [code]

definition record_header :: "qCryptoFragment list \<Rightarrow> bytes" where
  "record_header fragments =
     [0x16, 0x03, 0x03] @ put_be 2 (ucast (sum_list (map qf_length fragments)) :: u16)"

section \<open>The client\<close>

definition ProtocolQUIC :: string where "ProtocolQUIC = ''quic''"
definition ClientChromium :: string where "ClientChromium = ''chromium''"
definition ClientSafari :: string where "ClientSafari = ''safari''"
definition ClientFirefox :: string where "ClientFirefox = ''firefox''"
definition ClientQUICGo :: string where "ClientQUICGo = ''quic-go''"
definition ClientUnknown :: string where "ClientUnknown = ''unknown''"

definition isZero :: "u8 list \<Rightarrow> bool" where
  "isZero bs \<longleftrightarrow> list_all (\<lambda>b. b = 0) bs"

definition uQUICChrome115 :: ClientHello where
  "uQUICChrome115 = ClientHello_zero\<lparr>ch_Version := 0x0303, ch_CipherSuites := [4865, 4866, 4867],
     ch_Extensions := [0, 10, 13, 16, 27, 43, 45, 51, 57, 17513], ch_EllipticCurves := [29, 23, 24],
     ch_SignatureAlgorithms := [1027, 2052, 1025, 1283, 2053, 1281, 2054, 1537, 513]\<rparr>"

definition maybeUQUIC :: "ClientHello \<Rightarrow> bool" where
  "maybeUQUIC fingerprint \<longleftrightarrow> \<not> ClientHello_Equals uQUICChrome115 fingerprint True"

definition is_safari :: "ClientHello \<Rightarrow> bool" where
  "is_safari f \<longleftrightarrow>
     length (ch_Versions f) = 2 \<and> ch_Versions f ! 0 AND GreaseBitmask = 0x0A0A \<and>
     length (ch_EllipticCurves f) = 5 \<and> ch_EllipticCurves f ! 0 AND GreaseBitmask = 0x0A0A \<or>
     ch_CipherSuites f = [0x1302] \<and> ch_EllipticCurves f = [29] \<and> ch_SignatureAlgorithms f = [0x0403]"

definition quic_client :: "u8 list \<Rightarrow> ClientHello \<Rightarrow> string res" where
  "quic_client types f =
     (if length types = 1 then Inr ClientFirefox
      else if types = [] then Inl index_panic
      else if hd types = 6 \<and> isZero (tl types) \<and> is_safari f then Inr ClientSafari
      else if last types = 6 \<and> isZero (butlast types) then Inr ClientQUICGo
      else if count_list types 6 > 1 \<or> count_list types 1 > 0
      then Inr (if maybeUQUIC f then ClientQUICGo else ClientChromium)
      else Inr ClientUnknown)"

definition bytes_text :: "bytes \<Rightarrow> string" where
  "bytes_text bs = map (\<lambda>b. char_of (unat b)) bs"

definition is_panic :: "goerr \<Rightarrow> bool" where
  "is_panic err = (case err of GoPanic args \<Rightarrow> True | _ \<Rightarrow> False)"

definition finish_hello ::
  "u8 list \<Rightarrow> qCryptoFragment list \<Rightarrow> bytes \<Rightarrow> InboundContext \<Rightarrow> goerr option \<times> qCryptoFragment list option \<times> InboundContext" where
  "finish_hello types fragments buffer md =
     (case ja3_Compute buffer of
        Inl err \<Rightarrow>
          if is_panic err then (Some err, None, md)
          else (Some (EErrors [ENeedMoreData, err]), Some fragments, md\<lparr>md_Protocol := ProtocolQUIC, md_Client := ClientChromium\<rparr>)
      | Inr fingerprint \<Rightarrow>
          let md = md\<lparr>md_Protocol := ProtocolQUIC, md_Domain := bytes_text (ch_ServerName fingerprint)\<rparr>
          in if md_Client md \<noteq> [] then (None, None, md)
             else case quic_client types fingerprint of
               Inl err \<Rightarrow> (Some err, None, md)
             | Inr client \<Rightarrow> (None, None, md\<lparr>md_Client := client\<rparr>))"

definition QUICClientHello ::
  "quic_deps \<Rightarrow> bytes \<Rightarrow> qCryptoFragment list option \<Rightarrow> InboundContext \<Rightarrow>
     (goerr option \<times> qCryptoFragment list option \<times> InboundContext) option" where
  "QUICClientHello qd packet sniffContext md =
     (case open_packet qd packet of
        Inl err \<Rightarrow> Some (Some err, sniffContext, md)
      | Inr (decrypted, spare) \<Rightarrow>
          (case read_frames (length decrypted) spare decrypted [] [] of
             Inl err \<Rightarrow> Some (Some err, sniffContext, md)
           | Inr (types, fragments) \<Rightarrow>
               let fragments = fragments @ (case sniffContext of None \<Rightarrow> [] | Some waiting \<Rightarrow> waiting)
               in case assemble fragments 0 (record_header fragments) of
                    None \<Rightarrow> None
                  | Some buffer \<Rightarrow> Some (finish_hello types fragments buffer md)))"

end
