(* ===== verification/FragmentProps.thy ===== *)
theory FragmentProps
  imports TlsFragment
begin

text \<open>
  Properties of the fragmentation of the client hello: the search for the server name ends and finds a name of the
  packet, unless the packet is too long, and the pieces that are written give the packet back.
\<close>

section \<open>Samples\<close>

text \<open>A client hello with the server name \<^verbatim>\<open>ab.cd\<close>.\<close>

definition sample_hello :: bytes where
  "sample_hello = [22, 3, 1, 0, 61] @ [1, 0, 0, 57, 3, 3] @ replicate 32 7 @ [0] @ [0, 2, 0x13, 1] @ [1, 0] @ [0, 14] @
     [0, 0, 0, 10] @ [0, 8, 0, 0, 5] @ [97, 98, 46, 99, 100]"

definition sample_fd :: fragment_deps where
  "sample_fd = \<lparr>fd_PublicSuffix = (\<lambda>name. []), fd_Intn = (\<lambda>i n. n - 1), fd_SetNoDelay = (\<lambda>on. None), fd_Write = (\<lambda>i. None)\<rparr>"

definition sample_fc :: "bool \<Rightarrow> bool \<Rightarrow> fragment_conn" where
  "sample_fc splitPacket splitRecord =
     \<lparr>fc_tcpConn = True, fc_firstPacketWritten = False, fc_splitPacket = splitPacket, fc_splitRecord = splitRecord\<rparr>"

text \<open>A client hello of 64 KiB whose first extension has the length 0xFFFC.\<close>

definition long_extension :: bytes where
  "long_extension = [0, 1, 0xFF, 0xFC] @ replicate 65532 0"

definition long_hello :: bytes where
  "long_hello = [22, 3, 1, 0, 0] @ [1, 1, 0, 0x28, 3, 3] @ replicate 32 0 @ [0] @ [0, 0] @ [0] @ [0, 0] @ long_extension"

section \<open>The search\<close>

lemma be16_get_be: "be16 a b = get_be 0 [a, b]"
  by (simp add: be16_def)

text \<open>In a packet below 64 KiB the 16-bit sum does not wrap.\<close>

lemma extension_length:
  assumes "extensionHeaderLen + unat (exLen :: u16) \<le> length exs" "length exs < 2 ^ 16"
  shows "unat (4 + exLen) = 4 + unat exLen"
  using assms by (simp add: unat_word_ariths extensionHeaderLen_def)

lemma index_extensions_returns:
  "length exs < 2 ^ 16 \<Longrightarrow> \<exists>r. index_extensions i exs = Some r"
proof (induction "length exs" arbitrary: i exs rule: less_induct)
  case less
  show ?case
  proof (cases "exs \<noteq> [] \<and> \<not> length exs < extensionHeaderLen \<and>
      \<not> length exs < extensionHeaderLen + unat (be16 (exs ! 2) (exs ! 3)) \<and> be16 (exs ! 0) (exs ! 1) \<noteq> 0")
    case True
    let ?l = "be16 (exs ! 2) (exs ! 3)"
    have "unat (4 + ?l) = 4 + unat ?l" using True less.prems by (intro extension_length [of _ exs]) auto
    then have "length (drop (unat (4 + ?l)) exs) < length exs" using True by auto
    moreover from this less.prems have "length (drop (unat (4 + ?l)) exs) < 2 ^ 16" by linarith
    ultimately obtain r where "index_extensions (i + 4 + unat ?l) (drop (unat (4 + ?l)) exs) = Some r"
      using less.hyps by blast
    with True show ?thesis by (subst index_extensions.simps) (simp add: Let_def)
  next
    case False
    then show ?thesis by (subst index_extensions.simps) (auto simp: Let_def)
  qed
qed

text \<open>A name that stands where its index says.\<close>

definition name_at :: "bytes \<Rightarrow> MyServerName \<Rightarrow> bool" where
  "name_at payload sn \<longleftrightarrow> sn_Index sn + length (sn_ServerName sn) \<le> length payload \<and>
     take (length (sn_ServerName sn)) (drop (sn_Index sn) payload) = sn_ServerName sn"

lemma name_at_shift: "name_at (drop k payload) sn \<Longrightarrow> k \<le> length payload \<Longrightarrow> name_at payload (sn\<lparr>sn_Index := sn_Index sn + k\<rparr>)"
  by (auto simp: name_at_def add.commute)

lemma name_at_unshift:
  "k \<le> sn_Index sn \<Longrightarrow> name_at (drop k payload) (sn\<lparr>sn_Index := sn_Index sn - k\<rparr>) \<Longrightarrow> k \<le> length payload \<Longrightarrow> name_at payload sn"
  by (auto simp: name_at_def)

lemma sni_name_at:
  assumes "sni_name i (take n (drop 4 exs)) = Some sn" "4 + n \<le> length exs"
  shows "i \<le> sn_Index sn" "name_at exs (sn\<lparr>sn_Index := sn_Index sn - i\<rparr>)"
  using assms by (auto simp: sni_name_def name_at_def header_lengths drop_take split: if_splits)

lemma index_extensions_name_at:
  "index_extensions i exs = Some (Some sn) \<Longrightarrow> length exs < 2 ^ 16 \<Longrightarrow>
   i \<le> sn_Index sn \<and> name_at exs (sn\<lparr>sn_Index := sn_Index sn - i\<rparr>)"
proof (induction "length exs" arbitrary: i exs rule: less_induct)
  case less
  let ?l = "be16 (exs ! 2) (exs ! 3)"
  have long: "exs \<noteq> []" "4 + unat ?l \<le> length exs"
    using less.prems(1) by (subst (asm) index_extensions.simps; auto simp: Let_def header_lengths split: if_splits)+
  show ?case
  proof (cases "be16 (exs ! 0) (exs ! 1) = 0")
    case True
    with less.prems(1) long have "sni_name i (take (unat ?l) (drop 4 exs)) = Some sn"
      by (subst (asm) index_extensions.simps) (auto simp: Let_def header_lengths)
    with sni_name_at long(2) show ?thesis by blast
  next
    case False
    have l: "unat (4 + ?l) = 4 + unat ?l" using long less.prems(2) by (intro extension_length [of _ exs]) (simp_all add: header_lengths)
    with False less.prems(1) long have "index_extensions (i + 4 + unat ?l) (drop (4 + unat ?l) exs) = Some (Some sn)"
      by (subst (asm) index_extensions.simps) (auto simp: Let_def header_lengths)
    from less.hyps [OF _ this] long less.prems(2)
    have "i + 4 + unat ?l \<le> sn_Index sn" "name_at (drop (4 + unat ?l) exs) (sn\<lparr>sn_Index := sn_Index sn - (i + 4 + unat ?l)\<rparr>)"
      by auto
    with name_at_shift [OF this(2) long(2)] show ?thesis by (simp add: algebra_simps)
  qed
qed

lemma shift_name_Some: "shift_name k name = Some sn \<Longrightarrow> \<exists>sn0. name = Some sn0 \<and> sn = sn0\<lparr>sn_Index := sn_Index sn0 + k\<rparr>"
  by (auto simp: shift_name_def)

lemma FromExtensions_name_at:
  assumes "indexTLSServerNameFromExtensions exs = Some (Some sn)" "length exs < 2 ^ 16"
  shows "name_at exs sn"
proof -
  have e: "index_extensions 2 (drop 2 exs) = Some (Some sn)" "2 \<le> length exs"
    using assms(1) by (auto simp: indexTLSServerNameFromExtensions_def header_lengths split: if_splits)
  from index_extensions_name_at [OF e(1)] assms(2)
  have "2 \<le> sn_Index sn" "name_at (drop 2 exs) (sn\<lparr>sn_Index := sn_Index sn - 2\<rparr>)" by auto
  with name_at_unshift e(2) show ?thesis by blast
qed

lemma extensions_index_le: "extensions_index handshake = Some i \<Longrightarrow> i \<le> length handshake"
  by (auto simp: extensions_index_def Let_def split: if_splits)

lemma FromHandshake_name_at:
  assumes "indexTLSServerNameFromHandshake handshake = Some (Some sn)" "length handshake < 2 ^ 16"
  shows "name_at handshake sn"
proof -
  from assms(1) obtain i name where i: "extensions_index handshake = Some i"
    and name: "indexTLSServerNameFromExtensions (drop i handshake) = Some name" "shift_name i name = Some sn"
    by (auto simp: indexTLSServerNameFromHandshake_def split: if_splits option.splits)
  from shift_name_Some [OF name(2)] obtain sn0 where sn0: "name = Some sn0" "sn = sn0\<lparr>sn_Index := sn_Index sn0 + i\<rparr>" by blast
  with name(1) assms(2) have "name_at (drop i handshake) sn0" by (intro FromExtensions_name_at) auto
  with sn0(2) extensions_index_le [OF i] name_at_shift show ?thesis by blast
qed

lemma IndexTLSServerName_name_at:
  assumes "IndexTLSServerName payload = Some (Some sn)" "length payload < 2 ^ 16"
  shows "name_at payload sn" "5 \<le> sn_Index sn"
proof -
  from assms(1) obtain name where len: "5 \<le> length payload"
    and name: "indexTLSServerNameFromHandshake (drop 5 payload) = Some name" "shift_name 5 name = Some sn"
    by (auto simp: IndexTLSServerName_def header_lengths split: if_splits)
  from shift_name_Some [OF name(2)] obtain sn0 where sn0: "name = Some sn0" "sn = sn0\<lparr>sn_Index := sn_Index sn0 + 5\<rparr>" by blast
  with name(1) assms(2) have "name_at (drop 5 payload) sn0" by (intro FromHandshake_name_at) auto
  with sn0(2) len name_at_shift show "name_at payload sn" by blast
  from sn0(2) show "5 \<le> sn_Index sn" by simp
qed

lemma IndexTLSServerName_returns:
  assumes "length payload < 2 ^ 16"
  shows "\<exists>r. IndexTLSServerName payload = Some r"
proof -
  have "\<exists>r. indexTLSServerNameFromExtensions exs = Some r" if "length exs < 2 ^ 16" for exs
    using index_extensions_returns [of "drop 2 exs" 2] that by (auto simp: indexTLSServerNameFromExtensions_def header_lengths)
  then have "\<exists>r. indexTLSServerNameFromHandshake h = Some r" if "length h < 2 ^ 16" for h
    using that by (auto simp: indexTLSServerNameFromHandshake_def split: option.split)
  from this [of "drop 5 payload"] assms show ?thesis by (auto simp: IndexTLSServerName_def header_lengths)
qed

section \<open>The pieces\<close>

lemma strings_Split_nonempty [simp]: "strings_Split c s \<noteq> []"
  by (cases s) (auto split: list.split)

lemma strings_Split_length: "length (strings_Split c s) = Suc (count_list s c)"
proof (induction s)
  case (Cons x s)
  then show ?case by (cases "strings_Split c s") auto
qed simp

lemma strings_Split_sep: "w \<in> set (strings_Split c s) \<Longrightarrow> c \<notin> set w"
proof (induction s arbitrary: w)
  case (Cons x s)
  then show ?case by (cases "strings_Split c s") (auto split: if_splits)
qed simp

definition labels_length :: "bytes list \<Rightarrow> nat" where
  "labels_length ls = sum_list (map length ls) + (length ls - 1)"

lemma labels_length_Cons: "ls \<noteq> [] \<Longrightarrow> labels_length (l # ls) = length l + 1 + labels_length ls"
  by (cases ls) (simp_all add: labels_length_def)

lemma strings_Split_total: "labels_length (strings_Split c s) = length s"
proof (induction s)
  case (Cons x s)
  then show ?case by (cases "strings_Split c s") (auto simp: labels_length_def)
qed (simp add: labels_length_def)

text \<open>The labels that are split: all of them, or the first one.\<close>

lemma labels_to_split_cases:
  "labels_to_split fd name = strings_Split dot name \<or> labels_to_split fd name = [hd (strings_Split dot name)]"
proof -
  have "take (Suc 0) (strings_Split dot name) = [hd (strings_Split dot name)]" by (cases "strings_Split dot name") auto
  then show ?thesis by (simp add: labels_to_split_def strings_Split_length Let_def)
qed

lemma labels_to_split_length: "labels_length (labels_to_split fd name) \<le> length name" "labels_to_split fd name \<noteq> []"
proof -
  have "labels_length [hd (strings_Split dot name)] \<le> labels_length (strings_Split dot name)"
    by (cases "strings_Split dot name") (simp_all add: labels_length_def)
  with labels_to_split_cases [of fd name] strings_Split_total [of dot name]
  show "labels_length (labels_to_split fd name) \<le> length name" by auto
  from labels_to_split_cases [of fd name] show "labels_to_split fd name \<noteq> []" by auto
qed

lemma skip_dots_none: "skip_dots i (labels_to_split fd name) = (i, labels_to_split fd name)"
proof -
  have "dot \<notin> set w" if "w \<in> set (labels_to_split fd name)" for w
    using that labels_to_split_cases [of fd name] strings_Split_sep [of w dot name]
    by (metis list.set_sel(1) set_ConsD strings_Split_nonempty strings_Split_sep empty_iff list.set(1))
  then have "[dot, dot, dot] \<notin> set (labels_to_split fd name)" by fastforce
  then show ?thesis by (auto simp: skip_dots_def split: list.split)
qed

lemma split_indexes_ok:
  assumes "\<And>i n. 0 < n \<Longrightarrow> fd_Intn fd i n < n"
  shows "[] \<notin> set ls \<Longrightarrow> ls \<noteq> [] \<Longrightarrow>
    \<exists>idxs. split_indexes fd i cur ls = Inr idxs \<and> idxs \<noteq> [] \<and> sorted idxs \<and> (\<forall>x\<in>set idxs. cur \<le> x \<and> x < cur + labels_length ls)"
proof (induction ls arbitrary: i cur)
  case (Cons l ls)
  have x: "fd_Intn fd i (length l) < length l" using Cons.prems(1) assms by (cases l) auto
  show ?case
  proof (cases "ls = []")
    case True
    with x Cons.prems(1) show ?thesis by (auto simp: labels_length_def)
  next
    case False
    from Cons.IH [OF _ False, of "Suc i" "cur + length l + 1"] Cons.prems(1)
    obtain idxs where "split_indexes fd (Suc i) (cur + length l + 1) ls = Inr idxs" "idxs \<noteq> []" "sorted idxs"
      "\<forall>x\<in>set idxs. cur + length l + 1 \<le> x \<and> x < cur + length l + 1 + labels_length ls" by auto
    with x Cons.prems(1) False show ?thesis by (fastforce simp: labels_length_Cons)
  qed
qed simp

lemma payloads_ok:
  "sorted (from # idxs) \<Longrightarrow> (\<forall>x\<in>set (from # idxs). x \<le> length b) \<Longrightarrow>
   \<exists>ps. payloads b from idxs = Inr ps \<and> concat ps = drop from b"
proof (induction idxs arbitrary: "from")
  case (Cons x idxs)
  from Cons.IH [of x] Cons.prems obtain ps where "payloads b x idxs = Inr ps" "concat ps = drop x b" by auto
  moreover have "take (x - from) (drop from b) @ drop x b = drop from b"
    using Cons.prems by (metis append_take_drop_id drop_drop le_add_diff_inverse2 list.set_intros(1,2) sorted_simps(2) add.commute)
  ultimately show ?case using Cons.prems by (simp add: slice_def)
qed (simp add: slice_def)

text \<open>The records of a stream of bytes: the type and version of each, and its content.\<close>

function parse_records :: "bytes \<Rightarrow> (bytes \<times> bytes) list option" where
  "parse_records bs =
     (if bs = [] then Some []
      else if length bs < 5 then None
      else
        let n = unat (be16 (bs ! 3) (bs ! 4))
        in if length bs < 5 + n then None
           else map_option ((#) (take 3 bs, take n (drop 5 bs))) (parse_records (drop (5 + n) bs)))"
  by pat_completeness auto
termination
  by (relation "measure length") auto

declare parse_records.simps [simp del]

lemma parse_records_Nil [simp]: "parse_records [] = Some []"
  by (subst parse_records.simps) simp

lemma drop_header: "drop (5 + length p) (a # b # c # d # e # p @ rest) = rest"
  by (simp add: eval_nat_numeral)

lemma parse_records_tls_record:
  assumes "3 \<le> length b" "length payload < 2 ^ 16"
  shows "parse_records (tls_record b payload @ rest) = map_option ((#) (take 3 b, payload)) (parse_records rest)"
proof -
  let ?w = "of_nat (length payload) :: u16"
  have bytes: "put_be 2 ?w = [ucast (drop_bit 8 ?w), ucast ?w]" by (simp add: numeral_2_eq_2)
  have "get_be 0 (put_be 2 ?w) = ?w" unfolding get_be_put_be by (simp add: take_bit_word_eq_self)
  then have "be16 (ucast (drop_bit 8 ?w)) (ucast ?w) = ?w" by (simp add: be16_get_be bytes)
  moreover have "unat ?w = length payload" using assms(2) by (simp add: unat_of_nat)
  moreover obtain b0 b1 b2 b' where "b = b0 # b1 # b2 # b'" using assms(1) by (auto simp: Suc_le_length_iff numeral_3_eq_3)
  ultimately show ?thesis by (subst parse_records.simps) (simp add: tls_record_def bytes Let_def drop_header)
qed

lemma parse_records_concat:
  assumes "3 \<le> length b"
  shows "(\<forall>p\<in>set ps. length p < 2 ^ 16) \<Longrightarrow> parse_records (concat (map (tls_record b) ps)) = Some (map (Pair (take 3 b)) ps)"
  using assms by (induction ps) (simp_all add: parse_records_tls_record)

section \<open>Theorems\<close>

definition Intn_ok :: "fragment_deps \<Rightarrow> bool" where
  "Intn_ok fd \<longleftrightarrow> (\<forall>i n. 0 < n \<longrightarrow> fd_Intn fd i n < n)"

definition network_ok :: "fragment_deps \<Rightarrow> bool" where
  "network_ok fd \<longleftrightarrow> (\<forall>i. fd_Write fd i = None) \<and> (\<forall>on. fd_SetNoDelay fd on = None)"

lemma write_all_ok: "network_ok fd \<Longrightarrow> write_all fd i ws = (None, ws)"
  by (induction ws arbitrary: i) (auto simp: network_ok_def)

text \<open>The payloads of a client hello with a server name.\<close>

lemma fragments_exist:
  assumes "length b < 2 ^ 16" "IndexTLSServerName b = Some (Some sn)" "Intn_ok fd"
    and "[] \<notin> set (labels_to_split fd (sn_ServerName sn))" "from \<le> 5"
  obtains idxs ps where "split_indexes fd 0 (sn_Index sn) (labels_to_split fd (sn_ServerName sn)) = Inr idxs" "idxs \<noteq> []"
    "payloads b from idxs = Inr ps" "concat ps = drop from b"
proof -
  note at = IndexTLSServerName_name_at [OF assms(2,1)]
  from split_indexes_ok [where fd = fd and i = 0 and cur = "sn_Index sn", OF _ assms(4) labels_to_split_length(2)] assms(3)
  obtain idxs where idxs: "split_indexes fd 0 (sn_Index sn) (labels_to_split fd (sn_ServerName sn)) = Inr idxs" "idxs \<noteq> []" "sorted idxs"
    "\<forall>x\<in>set idxs. sn_Index sn \<le> x \<and> x < sn_Index sn + labels_length (labels_to_split fd (sn_ServerName sn))"
    by (auto simp: Intn_ok_def)
  have le: "\<forall>x\<in>set idxs. 5 \<le> x \<and> x \<le> length b"
    using idxs(4) at labels_to_split_length(1) [of fd "sn_ServerName sn"] by (fastforce simp: name_at_def)
  then have "from \<le> length b" using idxs(2) assms(5) by (cases idxs) auto
  with le idxs(3) assms(5) have "sorted (from # idxs)" "\<forall>x\<in>set (from # idxs). x \<le> length b" by auto
  from payloads_ok [OF this] idxs that show thesis by blast
qed

text \<open>C13. The pieces of a client hello give the client hello: when the server name is found in a packet below 64 KiB and no label to be
  split is empty, \<^verbatim>\<open>Write\<close> succeeds and reports the whole packet as written; split into packets the writes are its bytes in
  order, and split into records they are TLS records with the type and version of the original one whose contents, put
  together, are its content.\<close>

theorem fragment_Write_complete:
  assumes "length b < 2 ^ 16" "IndexTLSServerName b = Some (Some sn)" "Intn_ok fd" "network_ok fd"
    and "[] \<notin> set (labels_to_split fd (sn_ServerName sn))"
    and "\<not> fc_firstPacketWritten c" "fc_splitPacket c \<or> fc_splitRecord c"
  shows "\<exists>ws c'. fragment_Write fd b c = Some (Inr (length b), ws, c') \<and> fc_firstPacketWritten c' \<and>
    (if fc_splitRecord c
     then \<exists>parts. parse_records (concat ws) = Some (map (Pair (take 3 b)) parts) \<and> concat parts = drop 5 b
     else concat ws = b)"
proof -
  let ?from = "if fc_splitRecord c then 5 else 0 :: nat"
  obtain idxs ps where idxs: "split_indexes fd 0 (sn_Index sn) (labels_to_split fd (sn_ServerName sn)) = Inr idxs" "idxs \<noteq> []"
    and ps: "payloads b ?from idxs = Inr ps" "concat ps = drop ?from b"
    by (rule fragments_exist [OF assms(1-3,5), of ?from]) auto
  define ws where "ws = (if fc_splitRecord c
      then (if fc_splitPacket c then map (tls_record b) ps else [concat (map (tls_record b) ps)])
      else ps)"
  have "first_writes c b idxs = Inr ws"
    using idxs(2) ps(1) assms(7) by (auto simp: first_writes_def ws_def recordLayerHeaderLen_def)
  moreover have "set_no_delay fd c on = None" for on using assms(4) by (simp add: set_no_delay_def network_ok_def)
  ultimately have "fragment_Write fd b c = Some (Inr (length b), ws, c\<lparr>fc_firstPacketWritten := True\<rparr>)"
    using assms(2,6) idxs(1) by (simp add: fragment_Write_def write_fragments_def skip_dots_none write_all_ok [OF assms(4)] Let_def)
  moreover have "5 \<le> length b" using assms(2) by (auto simp: IndexTLSServerName_def header_lengths split: if_splits)
  moreover have "\<forall>p\<in>set ps. length p < 2 ^ 16"
  proof
    fix p assume "p \<in> set ps"
    then have "length p \<le> length (concat ps)" by (induction ps) auto
    with ps(2) assms(1) show "length p < 2 ^ 16" by simp
  qed
  ultimately show ?thesis using ps(2) parse_records_concat [of b ps] by (auto simp: ws_def)
qed

theorem fragment_Write_complete_witness:
  "(\<exists>ws c'. fragment_Write sample_fd sample_hello (sample_fc True False) = Some (Inr 66, ws, c') \<and> concat ws = sample_hello) \<and>
   (\<exists>ws c' parts. fragment_Write sample_fd sample_hello (sample_fc True True) = Some (Inr 66, ws, c') \<and>
      parse_records (concat ws) = Some (map (Pair [22, 3, 1]) parts) \<and> concat parts = drop 5 sample_hello)"
proof -
  let ?sn = "\<lparr>sn_Index = 61, sn_Length = 5, sn_ServerName = [97, 98, 46, 99, 100]\<rparr>"
  have hello: "length sample_hello = 66" "take 3 sample_hello = [22, 3, 1]" by (simp_all add: sample_hello_def)
  have name: "IndexTLSServerName sample_hello = Some (Some ?sn)" by code_simp
  have "Intn_ok sample_fd" "network_ok sample_fd" by (simp_all add: Intn_ok_def network_ok_def sample_fd_def)
  moreover have "[] \<notin> set (labels_to_split sample_fd (sn_ServerName ?sn))" by code_simp
  ultimately show ?thesis
    using fragment_Write_complete [of sample_hello ?sn sample_fd "sample_fc True False"]
      fragment_Write_complete [of sample_hello ?sn sample_fd "sample_fc True True"] name hello
    by (auto simp: sample_fc_def)
qed

text \<open>C38. Writing a packet below 64 KiB ends: the search for the server name, whose loop the program does not bound,
  returns.\<close>

theorem fragment_Write_returns:
  assumes "length b < 2 ^ 16"
  shows "\<exists>r. fragment_Write fd b c = Some r"
  using IndexTLSServerName_returns [OF assms]
  by (auto simp: fragment_Write_def Let_def split: option.split prod.split)

theorem fragment_Write_returns_witness:
  "\<exists>r. fragment_Write sample_fd sample_hello (sample_fc True False) = Some r"
  using fragment_Write_returns [of sample_hello sample_fd "sample_fc True False"] by (simp add: sample_hello_def)

text \<open>A longer packet can make it run forever: an extension with the length 0xFFFC, of another type than the server name, makes
  the 16-bit sum of the slice zero, so the loop goes on with the same bytes.\<close>

theorem index_extensions_diverges:
  assumes "2 ^ 16 \<le> length exs" "be16 (exs ! 0) (exs ! 1) \<noteq> 0" "be16 (exs ! 2) (exs ! 3) = 0xFFFC"
  shows "index_extensions i exs = None"
proof -
  let ?bad = "\<lambda>exs. 2 ^ 16 \<le> length exs \<and> be16 (exs ! 0) (exs ! 1) \<noteq> 0 \<and> be16 (exs ! 2) (exs ! 3) = 0xFFFC"
  have "\<not> ?bad exs" if "index_extensions i exs = Some y" for i exs y
  proof (rule index_extensions.raw_induct [where P = "\<lambda>i exs y. \<not> ?bad exs", OF _ that])
    fix f i exs y
    assume IH: "\<And>i exs y. f i exs = Some y \<Longrightarrow> \<not> ?bad exs"
      and step: "(if exs = [] then Some None
      else if length exs < extensionHeaderLen then Some None
      else
        let exType = be16 (exs ! 0) (exs ! 1); exLen = be16 (exs ! 2) (exs ! 3)
        in if length exs < extensionHeaderLen + unat exLen then Some None
           else if exType = 0 then Some (sni_name i (take (unat exLen) (drop extensionHeaderLen exs)))
           else f (i + 4 + unat exLen) (drop (unat (4 + exLen)) exs)) = Some y"
    show "\<not> ?bad exs"
    proof
      assume bad: "?bad exs"
      then have "exs \<noteq> []" "\<not> length exs < 4" "\<not> length exs < 4 + 65532" by auto
      with bad step have "f (i + 4 + 65532) exs = Some y" by (simp add: header_lengths Let_def)
      with IH bad show False by blast
    qed
  qed
  with assms show ?thesis by (cases "index_extensions i exs") blast+
qed

theorem index_extensions_diverges_witness:
  "IndexTLSServerName long_hello = None \<and> fragment_Write sample_fd long_hello (sample_fc True False) = None"
proof -
  have "length long_extension = 65536" "long_extension ! 0 = 0" "long_extension ! 1 = 1" "long_extension ! 2 = 0xFF"
    "long_extension ! 3 = 0xFC"
    by (simp_all add: long_extension_def)
  moreover have "be16 0 1 \<noteq> 0" "be16 0xFF 0xFC = 0xFFFC" by code_simp+
  ultimately have "index_extensions 2 long_extension = None" by (intro index_extensions_diverges) simp_all
  then have e: "indexTLSServerNameFromExtensions ([0, 0] @ long_extension) = None"
    by (simp add: indexTLSServerNameFromExtensions_def header_lengths be16_def)
  let ?h = "drop 5 long_hello"
  have h: "?h = [1, 1, 0, 0x28, 3, 3] @ replicate 32 0 @ [0] @ [0, 0] @ [0] @ [0, 0] @ long_extension"
    by (simp add: long_hello_def)
  have i: "extensions_index ?h = Some 42"
    unfolding h by (simp add: extensions_index_def header_lengths be16_def nth_append Let_def)
  have len: "length ?h = 65580" unfolding h by (simp add: long_extension_def)
  have at: "?h ! 0 = 1" "?h ! 1 = 1" "?h ! 2 = 0" "?h ! 3 = 0x28" "?h ! 4 = 3" "?h ! 5 = 3"
    unfolding h by simp_all
  have rest: "drop 42 ?h = [0, 0] @ long_extension" unfolding h by simp
  have "(get_be 0 [1, 0, 0x28] :: u32) = 65576" "tlsVersion_ok (be16 3 3)" by code_simp+
  with e i len rest at have "indexTLSServerNameFromHandshake ?h = None"
    unfolding indexTLSServerNameFromHandshake_def at header_lengths by (simp del: drop_drop)
  moreover have "length long_hello = 65585" "long_hello ! 0 = 22" "long_hello ! 3 = 0" "long_hello ! 4 = 0"
    by (simp_all add: long_hello_def long_extension_def)
  moreover have "be16 0 0 = 0" by (simp add: be16_def)
  ultimately have index: "IndexTLSServerName long_hello = None"
    unfolding IndexTLSServerName_def header_lengths by simp
  then show ?thesis by (simp add: fragment_Write_def sample_fc_def Let_def)
qed

lemma split_indexes_empty_label: "[] \<in> set ls \<Longrightarrow> split_indexes fd i cur ls = Inl (GoPanic [ArgS ''invalid argument to Intn''])"
  by (induction ls arbitrary: i cur) auto

text \<open>An empty label ends the program: when one of the labels to be split is empty, as in an empty server name or one that
  begins with a dot, the random index is asked for with the bound 0, which panics, and nothing of the packet is written.\<close>

theorem fragment_Write_empty_label:
  assumes "IndexTLSServerName b = Some (Some sn)" "[] \<in> set (labels_to_split fd (sn_ServerName sn))"
    and "\<not> fc_firstPacketWritten c" "network_ok fd"
  shows "fragment_Write fd b c =
    Some (Inl (GoPanic [ArgS ''invalid argument to Intn'']), [], c\<lparr>fc_firstPacketWritten := True\<rparr>)"
  using assms(1,3,4) split_indexes_empty_label [OF assms(2)]
  by (simp add: fragment_Write_def write_fragments_def skip_dots_none set_no_delay_def network_ok_def)

theorem fragment_Write_empty_label_witness:
  "case fragment_Write sample_fd
     ([22, 3, 1, 0, 56] @ [1, 0, 0, 52, 3, 3] @ replicate 32 7 @ [0] @ [0, 2, 0x13, 1] @ [1, 0] @ [0, 9] @ [0, 0, 0, 5] @ [0, 3, 0, 0, 0])
     (sample_fc True False) of
     Some (Inl (GoPanic _), ws, _) \<Rightarrow> ws = [] | _ \<Rightarrow> False"
proof -
  let ?b = "[22, 3, 1, 0, 56] @ [1, 0, 0, 52, 3, 3] @ replicate 32 7 @ [0] @ [0, 2, 0x13, 1] @ [1, 0] @ [0, 9] @ [0, 0, 0, 5] @ [0, 3, 0, 0, 0]"
  let ?sn = "\<lparr>sn_Index = 61, sn_Length = 0, sn_ServerName = []\<rparr>"
  have "IndexTLSServerName ?b = Some (Some ?sn)" "[] \<in> set (labels_to_split sample_fd (sn_ServerName ?sn))" by code_simp+
  moreover have "\<not> fc_firstPacketWritten (sample_fc True False)" "network_ok sample_fd"
    by (simp_all add: sample_fc_def network_ok_def sample_fd_def)
  ultimately show ?thesis using fragment_Write_empty_label by simp
qed

end
