(* ===== verification/HelloProps.thy ===== *)
theory HelloProps
  imports Ja3 FragmentProps
begin

text \<open>
  The two parsers of client hellos against the wire format: a reference encoder of client hellos, as the TLS specification has them,
  and the proof that the parser of the sniffer and the search of the fragmenter both find the server name that was encoded.
\<close>

section \<open>The wire format\<close>

abbreviation enc16 :: "nat \<Rightarrow> bytes" where
  "enc16 n \<equiv> put_be 2 (of_nat n :: u16)"

definition enc_words :: "u16 list \<Rightarrow> bytes" where
  "enc_words vs = concat (map (put_be 2) vs)"

definition enc_extension :: "u16 \<times> bytes \<Rightarrow> bytes" where
  "enc_extension e = put_be 2 (fst e) @ enc16 (length (snd e)) @ snd e"

definition sni_data :: "bytes \<Rightarrow> bytes" where
  "sni_data name = enc16 (length name + 3) @ [0] @ enc16 (length name) @ name"

text \<open>The data of the extensions that the sniffer reads: a list of groups, of point formats, of versions and of signature
  algorithms; other extensions hold any bytes.\<close>

definition extension_ok :: "u16 \<times> bytes \<Rightarrow> bool" where
  "extension_ok e \<longleftrightarrow>
     length (snd e) < 2 ^ 16 - 4 \<and>
     (fst e = 10 \<longrightarrow> (\<exists>vs. snd e = enc16 (2 * length vs) @ enc_words vs)) \<and>
     (fst e = 11 \<longrightarrow> (\<exists>pfs. length pfs < 2 ^ 8 \<and> snd e = of_nat (length pfs) # pfs)) \<and>
     (fst e = 43 \<longrightarrow> (\<exists>vs. length vs < 2 ^ 7 \<and> snd e = of_nat (2 * length vs) # enc_words vs)) \<and>
     (fst e = 13 \<longrightarrow> (\<exists>vs. snd e = enc16 (2 * length vs) @ enc_words vs))"

definition enc_extensions :: "(u16 \<times> bytes) list \<Rightarrow> bytes" where
  "enc_extensions exts = concat (map enc_extension exts)"

definition hello_suites :: "u16 list \<Rightarrow> bytes \<Rightarrow> (u16 \<times> bytes) list \<Rightarrow> bytes" where
  "hello_suites suites methods exts =
     enc16 (2 * length suites) @ enc_words suites @ [of_nat (length methods)] @ methods @
     enc16 (length (enc_extensions exts)) @ enc_extensions exts"

definition hello_body :: "bytes \<Rightarrow> bytes \<Rightarrow> u16 list \<Rightarrow> bytes \<Rightarrow> (u16 \<times> bytes) list \<Rightarrow> bytes" where
  "hello_body random session suites methods exts =
     [3, 3] @ random @ [of_nat (length session)] @ session @ hello_suites suites methods exts"

definition hello_handshake :: "bytes \<Rightarrow> bytes" where
  "hello_handshake body = [1] @ put_be 3 (of_nat (length body) :: u32) @ body"

definition hello_record :: "bytes \<Rightarrow> bytes" where
  "hello_record handshake = [22, 3, 1] @ enc16 (length handshake) @ handshake"

section \<open>Reading numbers back\<close>

lemma put_be_2: "put_be 2 (w :: u16) = [ucast (drop_bit 8 w), ucast w]"
  by (simp add: numeral_2_eq_2)

lemma be16_put: "be16 (ucast (drop_bit 8 w)) (ucast w) = w"
proof -
  have "get_be 0 (put_be 2 w) = w" unfolding get_be_put_be by (simp add: take_bit_word_eq_self)
  then show ?thesis by (simp add: be16_get_be put_be_2)
qed

lemma length_enc16 [simp]: "length (put_be 2 (w :: u16)) = 2"
  by (simp add: put_be_2)

lemma unat_u16: "n < 65536 \<Longrightarrow> unat (of_nat n :: u16) = n"
  by (simp add: unsigned_of_nat take_bit_nat_eq_self)

lemma unat_u8: "n < 256 \<Longrightarrow> unat (of_nat n :: u8) = n"
  by (simp add: unsigned_of_nat take_bit_nat_eq_self)

lemma length_enc_words [simp]: "length (enc_words vs) = 2 * length vs"
  by (induction vs) (auto simp: enc_words_def)

lemma read_pairs_enc [simp]: "read_pairs (enc_words vs) = vs"
  by (induction vs) (auto simp: enc_words_def put_be_2 be16_put)

lemma read_claimed_enc [simp]: "read_claimed (2 * length vs) (enc_words vs) = Inr vs"
proof (induction vs)
  case (Cons v vs)
  have "2 * length (v # vs) = Suc (Suc (2 * length vs))" by simp
  with Cons show ?case by (simp add: enc_words_def put_be_2 be16_put)
qed (simp add: enc_words_def)

lemma drop_four [simp]: "drop (4 + n) (a # b # c # d # xs) = drop n xs"
  by (simp add: numeral_eq_Suc)

section \<open>The extensions\<close>

lemma parse_sni: "length (sni_data name) < 2 ^ 16 \<Longrightarrow> parse_extension 0 (sni_data name) j = Inr (j\<lparr>ch_ServerName := name\<rparr>)"
  by (simp add: sni_data_def put_be_2 parse_extension_def be16_put unat_u16)

lemma index_sni:
  "length (sni_data name) < 2 ^ 16 \<Longrightarrow>
   sni_name i (sni_data name) = Some \<lparr>sn_Index = i + 9, sn_Length = length name, sn_ServerName = name\<rparr>"
  by (simp add: sni_data_def put_be_2 sni_name_def be16_put unat_u16 header_lengths)

text \<open>What the extensions leave unchanged.\<close>

definition same_names :: "ClientHello \<Rightarrow> ClientHello \<Rightarrow> bool" where
  "same_names j j' \<longleftrightarrow> ch_ServerName j' = ch_ServerName j \<and> ch_Extensions j' = ch_Extensions j \<and>
     ch_CipherSuites j' = ch_CipherSuites j \<and> ch_Version j' = ch_Version j"

lemma parse_other:
  assumes "extension_ok e" "fst e \<noteq> 0"
  shows "\<exists>j'. parse_extension (fst e) (snd e) j = Inr j' \<and> same_names j j'"
proof -
  consider "fst e = 10" | "fst e = 11" | "fst e = 43" | "fst e = 13" | "fst e \<notin> {0, 10, 11, 43, 13}" using assms(2) by auto
  then show ?thesis
  proof cases
    case 1
    with assms(1) obtain vs where "snd e = enc16 (2 * length vs) @ enc_words vs" "2 * length vs < 65536" by (auto simp: extension_ok_def)
    with 1 show ?thesis by (simp add: parse_extension_def same_names_def put_be_2 be16_put unat_u16 del: of_nat_mult)
  next
    case 2
    with assms(1) obtain pfs where "snd e = of_nat (length pfs) # pfs" "length pfs < 256" by (auto simp: extension_ok_def)
    with 2 show ?thesis by (simp add: parse_extension_def same_names_def unat_u8)
  next
    case 3
    with assms(1) obtain vs where "snd e = of_nat (2 * length vs) # enc_words vs" "2 * length vs < 256" by (auto simp: extension_ok_def)
    with 3 show ?thesis by (simp add: parse_extension_def same_names_def unat_u8 del: of_nat_mult)
  next
    case 4
    with assms(1) obtain vs where "snd e = enc16 (2 * length vs) @ enc_words vs" "2 * length vs < 65536" by (auto simp: extension_ok_def)
    with 4 show ?thesis by (simp add: parse_extension_def same_names_def put_be_2 be16_put unat_u16 del: of_nat_mult)
  next
    case 5
    then show ?thesis by (simp add: parse_extension_def same_names_def)
  qed
qed

lemma parse_loop_step:
  assumes "length (snd e) < 2 ^ 16"
  shows "parse_extensions_loop (enc_extension e @ rest) j =
    res_bind (parse_extension (fst e) (snd e) (j\<lparr>ch_Extensions := ch_Extensions j @ [fst e]\<rparr>)) (parse_extensions_loop rest)"
  using assms
  by (subst parse_extensions_loop.simps) (simp add: enc_extension_def put_be_2 be16_put unat_u16 Let_def)

lemma index_loop_step:
  assumes "length (snd e) < 2 ^ 16 - 4"
  shows "index_extensions i (enc_extension e @ rest) =
    (if fst e = 0 then Some (sni_name i (snd e)) else index_extensions (i + 4 + length (snd e)) rest)"
proof -
  have "unat (of_nat (4 + length (snd e)) :: u16) = 4 + length (snd e)" by (rule unat_u16) (use assms in simp)
  then have "unat ((4 :: u16) + of_nat (length (snd e))) = 4 + length (snd e)" by simp
  with assms show ?thesis
    by (subst index_extensions.simps) (simp add: enc_extension_def put_be_2 be16_put unat_u16 Let_def header_lengths)
qed

text \<open>Extensions with the server name \<open>name\<close>.\<close>

definition extensions_ok :: "bytes \<Rightarrow> (u16 \<times> bytes) list \<Rightarrow> bool" where
  "extensions_ok name exts \<longleftrightarrow>
     (\<forall>e\<in>set exts. extension_ok e \<and> (fst e = 0 \<longrightarrow> snd e = sni_data name))"

lemma parse_extensions_loop_enc:
  assumes "extensions_ok name exts"
  shows "\<exists>j'. parse_extensions_loop (enc_extensions exts) j = Inr j' \<and>
    ch_ServerName j' = (if 0 \<in> fst ` set exts then name else ch_ServerName j) \<and> ch_Extensions j' = ch_Extensions j @ map fst exts \<and>
    ch_CipherSuites j' = ch_CipherSuites j \<and> ch_Version j' = ch_Version j"
  using assms
proof (induction exts arbitrary: j)
  case Nil
  then show ?case by (subst parse_extensions_loop.simps) (simp add: enc_extensions_def)
next
  case (Cons e exts)
  have e: "extension_ok e" "fst e = 0 \<longrightarrow> snd e = sni_data name" "length (snd e) < 2 ^ 16"
    using Cons.prems by (auto simp: extensions_ok_def extension_ok_def)
  let ?j = "j\<lparr>ch_Extensions := ch_Extensions j @ [fst e]\<rparr>"
  obtain j1 where j1: "parse_extension (fst e) (snd e) ?j = Inr j1" "ch_ServerName j1 = (if fst e = 0 then name else ch_ServerName j)"
    "ch_Extensions j1 = ch_Extensions j @ [fst e]" "ch_CipherSuites j1 = ch_CipherSuites j" "ch_Version j1 = ch_Version j"
  proof (cases "fst e = 0")
    case True
    with e parse_sni [of name ?j] that show ?thesis by auto
  next
    case False
    with parse_other [OF e(1), of ?j] that show ?thesis by (auto simp: same_names_def)
  qed
  have "parse_extensions_loop (enc_extensions (e # exts)) j = parse_extensions_loop (enc_extensions exts) j1"
    using parse_loop_step [OF e(3), of "enc_extensions exts" j] j1(1) by (simp add: enc_extensions_def)
  moreover from Cons.prems have "extensions_ok name exts" by (simp add: extensions_ok_def)
  from Cons.IH [OF this, of j1] obtain j' where "parse_extensions_loop (enc_extensions exts) j1 = Inr j'"
    "ch_ServerName j' = (if 0 \<in> fst ` set exts then name else ch_ServerName j1)" "ch_Extensions j' = ch_Extensions j1 @ map fst exts"
    "ch_CipherSuites j' = ch_CipherSuites j1" "ch_Version j' = ch_Version j1" by blast
  ultimately show ?case using j1(2-) by (intro exI [of _ j']) auto
qed

lemma index_extensions_enc:
  assumes "extensions_ok name exts" "0 \<in> fst ` set exts"
  shows "\<exists>k. index_extensions i (enc_extensions exts) = Some (Some \<lparr>sn_Index = k, sn_Length = length name, sn_ServerName = name\<rparr>)"
  using assms
proof (induction exts arbitrary: i)
  case (Cons e exts)
  have e: "fst e = 0 \<longrightarrow> snd e = sni_data name" "length (snd e) < 2 ^ 16 - 4"
    using Cons.prems by (auto simp: extensions_ok_def extension_ok_def)
  note step = index_loop_step [OF e(2), of i "enc_extensions exts"]
  show ?case
  proof (cases "fst e = 0")
    case True
    with e step index_sni [of name i] show ?thesis by (simp add: enc_extensions_def)
  next
    case False
    with step Cons.IH [of "i + 4 + length (snd e)"] Cons.prems show ?thesis by (auto simp: enc_extensions_def extensions_ok_def)
  qed
qed simp

section \<open>The hello\<close>

lemma put_be_3: "\<exists>a b c. put_be 3 (w :: u32) = [a, b, c]"
  by (simp add: numeral_3_eq_3)

lemma length_hello_suites:
  "length (hello_suites suites methods exts) = 5 + 2 * length suites + length methods + length (enc_extensions exts)"
  by (simp add: hello_suites_def)

lemma handshake_length_field:
  assumes "put_be 3 (of_nat n :: u32) = [a, b, c]" "n < 2 ^ 16"
  shows "unat (get_be 0 [a, b, c] :: u32) = n"
proof -
  have "get_be 0 [a, b, c] = take_bit 24 (of_nat n :: u32)" unfolding assms(1) [symmetric] get_be_put_be by simp
  with assms(2) show ?thesis by (simp add: unsigned_take_bit_eq unsigned_of_nat take_bit_nat_eq_self)
qed

lemma suites_shape:
  assumes "2 * length suites < 65536"
  shows "be16 (hello_suites suites methods exts ! 0) (hello_suites suites methods exts ! 1) = of_nat (2 * length suites)"
    "take (2 * length suites) (drop 2 (hello_suites suites methods exts)) = enc_words suites"
    "hello_suites suites methods exts ! (2 + 2 * length suites) = of_nat (length methods)"
    "drop (2 + 2 * length suites + 1 + length methods) (hello_suites suites methods exts) =
       enc16 (length (enc_extensions exts)) @ enc_extensions exts"
proof -
  let ?tail = "enc16 (length (enc_extensions exts)) @ enc_extensions exts"
  have s: "hello_suites suites methods exts = enc16 (2 * length suites) @ enc_words suites @ of_nat (length methods) # methods @ ?tail"
    by (simp add: hello_suites_def)
  show "be16 (hello_suites suites methods exts ! 0) (hello_suites suites methods exts ! 1) = of_nat (2 * length suites)"
    unfolding s put_be_2 by (simp add: be16_put del: of_nat_mult)
  show "take (2 * length suites) (drop 2 (hello_suites suites methods exts)) = enc_words suites" unfolding s by simp
  show "hello_suites suites methods exts ! (2 + 2 * length suites) = of_nat (length methods)" unfolding s by (simp add: nth_append)
  have "hello_suites suites methods exts = (enc16 (2 * length suites) @ enc_words suites @ of_nat (length methods) # methods) @ ?tail"
    unfolding s by simp
  moreover have "length (enc16 (2 * length suites) @ enc_words suites @ of_nat (length methods) # methods) =
    2 + 2 * length suites + 1 + length methods" by simp
  ultimately show "drop (2 + 2 * length suites + 1 + length methods) (hello_suites suites methods exts) = ?tail"
    by (metis append_eq_conv_conj)
qed

lemma handshake_shape:
  assumes "length random = 32" "length session < 256"
    and hs: "hs = hello_handshake (hello_body random session suites methods exts)" and small: "length hs < 2 ^ 16"
  shows "hs ! 0 = 1" "be16 (hs ! 4) (hs ! 5) = 0x0303" "length (drop 4 hs) = unat (get_be 0 [hs ! 1, hs ! 2, hs ! 3] :: u32)"
    "unat (hs ! 38) = length session" "drop (39 + length session) hs = hello_suites suites methods exts"
    "length hs = 39 + length session + length (hello_suites suites methods exts)"
proof -
  let ?S = "hello_suites suites methods exts" and ?body = "hello_body random session suites methods exts"
  obtain a b c where abc: "put_be 3 (of_nat (length ?body) :: u32) = [a, b, c]" using put_be_3 by blast
  have shape: "hs = 1 # a # b # c # 3 # 3 # random @ of_nat (length session) # session @ ?S"
    unfolding hs hello_handshake_def abc by (simp add: hello_body_def)
  show len: "length hs = 39 + length session + length ?S" using assms(1) by (simp add: shape)
  have body: "length ?body < 2 ^ 16" "length (drop 4 hs) = length ?body"
    using small unfolding hs hello_handshake_def abc by simp_all
  show "hs ! 0 = 1" "be16 (hs ! 4) (hs ! 5) = 0x0303" by (simp_all add: shape be16_def)
  show "length (drop 4 hs) = unat (get_be 0 [hs ! 1, hs ! 2, hs ! 3] :: u32)"
    using handshake_length_field [OF abc body(1)] body(2) by (simp add: shape)
  have "hs = ([1, a, b, c, 3, 3] @ random) @ of_nat (length session) # session @ ?S" by (simp add: shape)
  then have "hs ! 38 = of_nat (length session)" using assms(1) nth_append_length [of "[1, a, b, c, 3, 3] @ random"] by simp
  then show "unat (hs ! 38) = length session" using unat_u8 assms(2) by simp
  have "hs = ([1, a, b, c, 3, 3] @ random @ of_nat (length session) # session) @ ?S" by (simp add: shape)
  moreover have "length ([1, a, b, c, 3, 3] @ random @ of_nat (length session) # session) = 39 + length session" using assms(1) by simp
  ultimately show "drop (39 + length session) hs = ?S" by (metis append_eq_conv_conj)
qed

lemma record_shape:
  assumes "length hs < 2 ^ 16"
  shows "be16 (hello_record hs ! 3) (hello_record hs ! 4) = of_nat (length hs)" "unat (of_nat (length hs) :: u16) = length hs"
    "drop 5 (hello_record hs) = hs" "length (hello_record hs) = 5 + length hs" "hello_record hs ! 0 = 22"
    "be16 (hello_record hs ! 1) (hello_record hs ! 2) = 0x0301"
  using assms by (simp_all add: hello_record_def put_be_2 be16_put unat_u16 be16_def [of 3 1])

lemma version_ok_hello: "tlsVersion_ok 0x0303" "tlsVersion_ok 0x0301"
  by code_simp+

lemma parseExtensions_enc:
  assumes "length (enc_extensions exts) < 65536"
  shows "parseExtensions (enc16 (length (enc_extensions exts)) @ enc_extensions exts) j = parse_extensions_loop (enc_extensions exts) j"
    "indexTLSServerNameFromExtensions (enc16 (length (enc_extensions exts)) @ enc_extensions exts) = index_extensions 2 (enc_extensions exts)"
  using assms
  by (simp_all add: parseExtensions_def indexTLSServerNameFromExtensions_def put_be_2 be16_put unat_u16 header_lengths)

lemma parseHandshake_enc:
  assumes "length random = 32" "length session < 256" "length methods < 256"
    and hs: "hs = hello_handshake (hello_body random session suites methods exts)" and small: "length hs < 2 ^ 16"
  shows "parseHandshake hs j = parse_extensions_loop (enc_extensions exts) (j\<lparr>ch_Version := 0x0303, ch_CipherSuites := suites\<rparr>)"
    "\<exists>k. indexTLSServerNameFromHandshake hs = map_option (shift_name k) (index_extensions 2 (enc_extensions exts))"
proof -
  let ?S = "hello_suites suites methods exts" and ?n = "2 * length suites"
  note H = handshake_shape [OF assms(1,2) hs small]
  have n: "?n < 65536" "length (enc_extensions exts) < 65536" using H(6) small by (simp_all add: length_hello_suites)
  note S = suites_shape [OF n(1), of methods exts]
  have un: "unat (of_nat ?n :: u16) = ?n" "unat (of_nat (length methods) :: u8) = length methods" using unat_u16 [OF n(1)] unat_u8 assms(3) by auto
  have S2: "take (length suites * 2) (drop 2 ?S) = enc_words suites" using S(2) by (simp add: mult.commute)
  show "parseHandshake hs j = parse_extensions_loop (enc_extensions exts) (j\<lparr>ch_Version := 0x0303, ch_CipherSuites := suites\<rparr>)"
    unfolding parseHandshake_def H(1-5) Let_def S(1) un(1) S(3) un(2) S(4) parseExtensions_enc(1) [OF n(2)]
    using H(3,6) by (simp add: version_ok_hello length_hello_suites S2)
  have "drop (39 + length session + (2 + ?n + 1 + length methods)) hs = drop (2 + ?n + 1 + length methods) ?S"
    by (simp only: H(5) [symmetric] drop_drop add.commute)
  then have drop: "drop (39 + length session + (2 + ?n + 1 + length methods)) hs = enc16 (length (enc_extensions exts)) @ enc_extensions exts"
    by (simp only: S(4))
  have "extensions_index hs = Some (39 + length session + (2 + ?n + 1 + length methods))"
    unfolding extensions_index_def header_lengths
    using H(4-6) S(1,3) un by (simp add: length_hello_suites del: of_nat_mult)
  with drop obtain k where k: "extensions_index hs = Some k" "drop k hs = enc16 (length (enc_extensions exts)) @ enc_extensions exts" by blast
  show "\<exists>k. indexTLSServerNameFromHandshake hs = map_option (shift_name k) (index_extensions 2 (enc_extensions exts))"
    unfolding indexTLSServerNameFromHandshake_def header_lengths H(1-3)
    using H(3,6) by (intro exI [of _ k]) (simp add: version_ok_hello k parseExtensions_enc(2) [OF n(2)])
qed

text \<open>What the parsers find in an encoded hello.\<close>

lemma hello_found:
  assumes "length random = 32" "length session < 256" "length methods < 256" "extensions_ok name exts" "0 \<in> fst ` set exts"
    and "length (hello_handshake (hello_body random session suites methods exts)) < 2 ^ 16 - 5"
  shows "\<exists>j sn. ja3_Compute (hello_record (hello_handshake (hello_body random session suites methods exts))) = Inr j \<and>
      IndexTLSServerName (hello_record (hello_handshake (hello_body random session suites methods exts))) = Some (Some sn) \<and>
      ch_ServerName j = name \<and> ch_Extensions j = map fst exts \<and> ch_CipherSuites j = suites \<and>
      sn_ServerName sn = name \<and>
      take (length name) (drop (sn_Index sn) (hello_record (hello_handshake (hello_body random session suites methods exts)))) = name"
proof -
  define hs where hs: "hs = hello_handshake (hello_body random session suites methods exts)"
  have small: "length hs < 2 ^ 16" "length hs < 2 ^ 16 - 5" using assms(6) by (simp_all add: hs)
  note H = parseHandshake_enc [OF assms(1-3) hs small(1)] and R = record_shape [OF small(1)]
  obtain j where j: "parse_extensions_loop (enc_extensions exts) (ClientHello_zero\<lparr>ch_Version := 0x0303, ch_CipherSuites := suites\<rparr>) = Inr j"
    "ch_ServerName j = name" "ch_Extensions j = map fst exts" "ch_CipherSuites j = suites"
    using parse_extensions_loop_enc [OF assms(4), of "ClientHello_zero\<lparr>ch_Version := 0x0303, ch_CipherSuites := suites\<rparr>"] assms(5)
    by (auto simp: ClientHello_zero_def)
  have ja3: "ja3_Compute (hello_record hs) = Inr j"
    unfolding ja3_Compute_def parseSegment_def R by (simp add: R version_ok_hello H(1) j(1))
  obtain k where k: "indexTLSServerNameFromHandshake hs = map_option (shift_name k) (index_extensions 2 (enc_extensions exts))"
    using H(2) by blast
  obtain i where i: "index_extensions 2 (enc_extensions exts) = Some (Some \<lparr>sn_Index = i, sn_Length = length name, sn_ServerName = name\<rparr>)"
    using index_extensions_enc [OF assms(4,5)] by blast
  have index: "IndexTLSServerName (hello_record hs) = Some (Some \<lparr>sn_Index = i + k + 5, sn_Length = length name, sn_ServerName = name\<rparr>)"
    unfolding IndexTLSServerName_def header_lengths R by (simp add: R k i shift_name_def)
  have "length (hello_record hs) < 2 ^ 16" using small(2) R(4) by simp
  from IndexTLSServerName_name_at(1) [OF index this] have "take (length name) (drop (i + k + 5) (hello_record hs)) = name"
    by (simp add: name_at_def)
  with ja3 index j(2-4) show ?thesis unfolding hs [symmetric] by (intro exI conjI) auto
qed

text \<open>C11. Both parsers find the server name: for every client hello that is encoded as the specification says, with the name in a server
  name extension and the other extensions well formed, the parser of the sniffer gives the name, the types of the extensions and
  the cipher suites, and the search of the fragmenter gives the name together with the place where it stands.\<close>

theorem hello_parsers_agree:
  assumes "length random = 32" "length session < 256" "length methods < 256" "extensions_ok name exts" "0 \<in> fst ` set exts"
    and "length (hello_handshake (hello_body random session suites methods exts)) < 2 ^ 16 - 5"
  shows "\<exists>j sn. ja3_Compute (hello_record (hello_handshake (hello_body random session suites methods exts))) = Inr j \<and>
      IndexTLSServerName (hello_record (hello_handshake (hello_body random session suites methods exts))) = Some (Some sn) \<and>
      ch_ServerName j = name \<and> ch_Extensions j = map fst exts \<and> ch_CipherSuites j = suites \<and>
      sn_ServerName sn = name \<and>
      take (length name) (drop (sn_Index sn) (hello_record (hello_handshake (hello_body random session suites methods exts)))) = name"
  by (rule hello_found [OF assms])

definition sample_extensions :: "(u16 \<times> bytes) list" where
  "sample_extensions = [(43, [2, 3, 4]), (0, sni_data [97, 46, 98])]"

definition sample_handshake :: bytes where
  "sample_handshake = hello_handshake (hello_body (replicate 32 7) [] [0x1301] [0] sample_extensions)"

theorem hello_parsers_agree_witness:
  "\<exists>j sn. ja3_Compute (hello_record sample_handshake) = Inr j \<and> IndexTLSServerName (hello_record sample_handshake) = Some (Some sn) \<and>
     ch_ServerName j = [97, 46, 98] \<and> sn_ServerName sn = [97, 46, 98]"
proof -
  have "extension_ok (0, sni_data [97, 46, 98])" by (simp add: extension_ok_def sni_data_def)
  moreover have "[2, 3, 4] = of_nat (2 * length [0x0304 :: u16]) # enc_words [0x0304]" by code_simp
  then have "extension_ok (43, [2, 3, 4])" by (auto simp: extension_ok_def intro!: exI [of _ "[0x0304]"])
  ultimately have "extensions_ok [97, 46, 98] sample_extensions" by (simp add: extensions_ok_def sample_extensions_def)
  moreover have "0 \<in> fst ` set sample_extensions" "length sample_handshake = 66" by code_simp+
  ultimately show ?thesis
    using hello_parsers_agree [of "replicate 32 7" "[]" "[0]" "[97, 46, 98]" sample_extensions "[0x1301]"]
    unfolding sample_handshake_def by auto
qed

section \<open>Where the parser goes wrong\<close>

text \<open>The lists of versions and of signature algorithms are read with the length that they claim, which is not compared with the
  bytes of the extension.\<close>

lemma claimed_length_panics:
  "length bs < n \<Longrightarrow> read_claimed n bs = Inl index_panic"
proof (induction n bs rule: read_claimed.induct)
  case (2 n a b bs)
  then show ?case by (cases n) auto
qed auto

lemma versions_panic: "length bs < unat n \<Longrightarrow> parse_extension 43 (n # bs) j = Inl index_panic"
  by (simp add: parse_extension_def claimed_length_panics)

text \<open>The text of the fingerprint holds the GREASE values and drops the others.\<close>

lemma marshalJA3_keeps_only_grease:
  assumes "\<forall>val\<in>set vals. val AND GreaseBitmask \<noteq> 0x0A0A" "vals \<noteq> []"
  shows "append_values s vals = butlast s @ '',''"
  using assms by (simp add: append_values_def grease_values_def)

end
