(* ===== verification/QuicProps.thy ===== *)
theory QuicProps
  imports Quic HelloProps "HOL-Library.Multiset"
begin

text \<open>
  Properties of the QUIC sniffer and of the parser of client hellos: the pieces of a client hello are put together whatever their
  order and number of packets, when the loop that does it ends and when it does not, the server name that a hello holds is the
  one that both parsers find, and the panics that a packet can cause.
\<close>

section \<open>Samples\<close>

text \<open>An Initial packet with the given frames, and ciphers that do nothing.\<close>

definition sample_qd :: quic_deps where
  "sample_qd = \<lparr>qd_mask = \<lambda>salt label dest sample. replicate 16 0, qd_open = \<lambda>salt key iv dest number data header. Inr data\<rparr>"

definition sample_initial :: "bytes \<Rightarrow> bytes" where
  "sample_initial frames = [0xc0, 0, 0, 0, 1, 1, 9, 0, 0, 0x40, of_nat (Suc (length frames)), 0] @ frames"

definition crypto_frame :: "nat \<Rightarrow> bytes \<Rightarrow> bytes" where
  "crypto_frame offset payload = [6, of_nat offset, of_nat (length payload)] @ payload"

text \<open>The sample hello in two frames, the second half first.\<close>

definition sample_frames :: bytes where
  "sample_frames = crypto_frame 20 (drop 20 sample_handshake) @ crypto_frame 0 (take 20 sample_handshake)"

definition sample_frames_twice :: bytes where
  "sample_frames_twice = sample_frames @ crypto_frame 0 (take 20 sample_handshake)"

section \<open>Putting pieces together\<close>

text \<open>A message cut into pieces.\<close>

fun cut :: "nat \<Rightarrow> bytes list \<Rightarrow> qCryptoFragment list" where
  "cut i [] = []"
| "cut i (p # ps) = \<lparr>qf_offset = of_nat i, qf_length = of_nat (length p), qf_payload = p\<rparr> # cut (i + length p) ps"

lemma cut_append: "cut i (ps @ qs) = cut i ps @ cut (i + length (concat ps)) qs"
  by (induction ps arbitrary: i) (auto simp: add.assoc)

lemma cut_offset:
  "f \<in> set (cut i ps) \<Longrightarrow> (\<And>p. p \<in> set ps \<Longrightarrow> p \<noteq> []) \<Longrightarrow>
   \<exists>n. i \<le> n \<and> n < i + length (concat ps) \<and> qf_offset f = of_nat n"
proof (induction ps arbitrary: i)
  case (Cons p ps)
  then consider "f = \<lparr>qf_offset = of_nat i, qf_length = of_nat (length p), qf_payload = p\<rparr>" | "f \<in> set (cut (i + length p) ps)"
    by auto
  then show ?case
  proof cases
    case 1
    with Cons.prems(2) [of p] show ?thesis by (intro exI [of _ i]) auto
  next
    case 2
    from Cons.IH [OF 2] Cons.prems(2) obtain n where
      "i + length p \<le> n" "n < i + length p + length (concat ps)" "qf_offset f = of_nat n" by auto
    then show ?thesis by (intro exI [of _ n]) auto
  qed
qed simp

lemma of_nat_u64_eq: "m < 2 ^ 64 \<Longrightarrow> n < 2 ^ 64 \<Longrightarrow> (of_nat m :: u64) = of_nat n \<longleftrightarrow> m = n"
  by (simp add: word_of_nat_eq_iff take_bit_nat_eq_self)

lemma find_unique:
  assumes "x \<in> set xs" "P x" "\<forall>y\<in>set xs. P y \<longrightarrow> y = x"
  shows "find P xs = Some x"
proof (cases "find P xs")
  case None
  with assms(1,2) show ?thesis by (simp add: find_None_iff)
next
  case (Some y)
  then have "y \<in> set xs" "P y" by (auto simp: find_Some_iff)
  with assms(3) Some show ?thesis by blast
qed

lemma assemble_cut:
  assumes "set fragments = set (cut 0 (qs @ ps))" "\<And>p. p \<in> set (qs @ ps) \<Longrightarrow> p \<noteq> []" "length (concat (qs @ ps)) < 2 ^ 64"
  shows "assemble fragments (of_nat (length (concat qs))) buffer = Some (buffer @ concat ps)"
  using assms
proof (induction ps arbitrary: qs buffer)
  case Nil
  have "qf_offset f \<noteq> of_nat (length (concat qs))" if "f \<in> set fragments" for f
  proof -
    from that Nil.prems(1) have "f \<in> set (cut 0 qs)" by simp
    from cut_offset [OF this] Nil.prems(2) obtain n where "n < length (concat qs)" "qf_offset f = of_nat n" by auto
    with of_nat_u64_eq [of n "length (concat qs)"] Nil.prems(3) show ?thesis by auto
  qed
  then have "find (\<lambda>f. qf_offset f = of_nat (length (concat qs))) fragments = None" by (auto simp: find_None_iff)
  then show ?case by (subst assemble.simps) simp
next
  case (Cons p ps)
  let ?i = "length (concat qs)"
  let ?f = "\<lparr>qf_offset = of_nat ?i, qf_length = of_nat (length p), qf_payload = p\<rparr> :: qCryptoFragment"
  have set: "set fragments = set (cut 0 qs) \<union> {?f} \<union> set (cut (?i + length p) ps)" using Cons.prems(1) by (auto simp: cut_append)
  have other: "qf_offset f \<noteq> of_nat ?i" if "f \<in> set (cut 0 qs) \<or> f \<in> set (cut (?i + length p) ps)" for f
  proof -
    have "p \<noteq> []" using Cons.prems(2) [of p] by simp
    from that cut_offset [of f 0 qs] cut_offset [of f "?i + length p" ps] Cons.prems(2)
    obtain n where "n < ?i \<or> ?i + length p \<le> n \<and> n < ?i + length p + length (concat ps)" "qf_offset f = of_nat n" by auto
    with of_nat_u64_eq [of n ?i] Cons.prems(3) \<open>p \<noteq> []\<close> show ?thesis by auto
  qed
  have "find (\<lambda>f. qf_offset f = of_nat ?i) fragments = Some ?f"
    by (rule find_unique) (use set other in auto)
  then have "assemble fragments (of_nat ?i) buffer = assemble fragments (of_nat (length (concat (qs @ [p])))) (buffer @ p)"
    by (subst assemble.simps) simp
  also have "\<dots> = Some ((buffer @ p) @ concat ps)" by (rule Cons.IH) (use Cons.prems in auto)
  finally show ?case by simp
qed

lemma ucast_of_nat_u16: "(ucast (of_nat n :: u64) :: u16) = of_nat n"
  by (simp add: unsigned_of_nat take_bit_of_nat word_of_nat_eq_iff)

lemma record_header_cut:
  assumes "mset fragments = mset (cut 0 pieces)"
  shows "record_header fragments = [0x16, 0x03, 0x03] @ put_be 2 (of_nat (length (concat pieces)) :: u16)"
proof -
  have "sum_list (map qf_length fragments) = sum_list (map qf_length (cut 0 pieces))"
    using assms by (metis mset_map sum_mset_sum_list)
  also have "\<dots> = of_nat (length (concat pieces))"
  proof -
    have "sum_list (map qf_length (cut i pieces)) = of_nat (length (concat pieces))" for i
      by (induction pieces arbitrary: i) auto
    then show ?thesis .
  qed
  finally have "(ucast (sum_list (map qf_length fragments)) :: u16) = of_nat (length (concat pieces))" by (simp only: ucast_of_nat_u16)
  then show ?thesis by (simp add: record_header_def)
qed

text \<open>C12. The sniffer puts the client hello together: when the CRYPTO frames of the packet and those kept from earlier packets are
  the pieces of a message, in whatever order, the fingerprint is computed on a TLS record with that message.\<close>

theorem quic_reassembly:
  assumes "open_packet qd packet = Inr (decrypted, spare)"
    and "read_frames (length decrypted) spare decrypted [] [] = Inr (types, fragments)"
    and "mset (fragments @ (case sniffContext of None \<Rightarrow> [] | Some waiting \<Rightarrow> waiting)) = mset (cut 0 pieces)"
    and "\<forall>p\<in>set pieces. p \<noteq> []" "length (concat pieces) < 2 ^ 16"
  shows "\<exists>kept. QUICClientHello qd packet sniffContext md =
    Some (finish_hello types kept ([0x16, 0x03, 0x03] @ put_be 2 (of_nat (length (concat pieces)) :: u16) @ concat pieces) md)"
proof -
  let ?fs = "fragments @ (case sniffContext of None \<Rightarrow> [] | Some waiting \<Rightarrow> waiting)"
  have "assemble ?fs (of_nat (length (concat []))) (record_header ?fs) = Some (record_header ?fs @ concat pieces)"
    using assemble_cut [of ?fs "[]" pieces "record_header ?fs"] mset_eq_setD [OF assms(3)] assms(4,5) by simp
  with assms(1,2) record_header_cut [OF assms(3)] show ?thesis
    by (intro exI [of _ ?fs]) (simp add: QUICClientHello_def Let_def)
qed

theorem quic_reassembly_witness:
  "\<exists>context md'. QUICClientHello sample_qd (sample_initial sample_frames) None InboundContext_zero = Some (None, context, md') \<and>
     md_Domain md' = ''a.b'' \<and> md_Protocol md' = ProtocolQUIC"
proof -
  let ?pieces = "[take 20 sample_handshake, drop 20 sample_handshake]"
  let ?fs = "[\<lparr>qf_offset = 20, qf_length = 46, qf_payload = drop 20 sample_handshake\<rparr>,
    \<lparr>qf_offset = 0, qf_length = 20, qf_payload = take 20 sample_handshake\<rparr>]"
  have o: "open_packet sample_qd (sample_initial sample_frames) = Inr (sample_frames, [])" by code_simp
  have r: "read_frames (length sample_frames) [] sample_frames [] [] = Inr ([6, 6], ?fs)" by code_simp
  have c: "cut 0 ?pieces = rev ?fs" by code_simp
  have m: "mset (?fs @ (case None of None \<Rightarrow> [] | Some waiting \<Rightarrow> waiting)) = mset (cut 0 ?pieces)" unfolding c by simp
  have p: "\<forall>p\<in>set ?pieces. p \<noteq> []" "length (concat ?pieces) = 66" by code_simp+
  then have l: "length (concat ?pieces) < 2 ^ 16" by simp
  obtain kept where "QUICClientHello sample_qd (sample_initial sample_frames) None InboundContext_zero =
    Some (finish_hello [6, 6] kept ([0x16, 0x03, 0x03] @ put_be 2 (of_nat (length (concat ?pieces)) :: u16) @ concat ?pieces) InboundContext_zero)"
    using quic_reassembly [OF o r m p(1) l] by blast
  moreover have "case ja3_Compute ([0x16, 0x03, 0x03] @ put_be 2 (of_nat (length (concat ?pieces)) :: u16) @ concat ?pieces) of Inl err \<Rightarrow> False
    | Inr j \<Rightarrow> bytes_text (ch_ServerName j) = ''a.b'' \<and> quic_client [6, 6] j = Inr ClientQUICGo" by code_simp
  ultimately show ?thesis by (auto simp: finish_hello_def InboundContext_zero_def split: sum.splits)
qed

section \<open>Termination\<close>

text \<open>The loop ends for fragments that are not empty and do not pass the end of the 64-bit offsets.\<close>

theorem assemble_returns:
  assumes "\<forall>f\<in>set fragments. 0 < qf_length f \<and> unat (qf_offset f) + unat (qf_length f) < 2 ^ 64"
  shows "\<exists>buffer'. assemble fragments index buffer = Some buffer'"
proof (induction "2 ^ 64 - unat index" arbitrary: index buffer rule: less_induct)
  case less
  show ?case
  proof (cases "find (\<lambda>f. qf_offset f = index) fragments")
    case None
    then show ?thesis by (subst assemble.simps) simp
  next
    case (Some f)
    then have f: "f \<in> set fragments" "qf_offset f = index" by (auto simp: find_Some_iff)
    with assms have ok: "0 < qf_length f" "unat index + unat (qf_length f) < 2 ^ 64" by auto
    then have "unat (index + qf_length f) = unat index + unat (qf_length f)" by (simp add: unat_word_ariths)
    moreover from ok(1) have "0 < unat (qf_length f)" by (simp add: unat_gt_0)
    ultimately have "2 ^ 64 - unat (index + qf_length f) < 2 ^ 64 - unat index" using ok(2) by simp
    from less [OF this] Some f(2) show ?thesis by (subst assemble.simps) simp
  qed
qed

theorem assemble_returns_witness:
  "\<exists>buffer. assemble [\<lparr>qf_offset = 1, qf_length = 1, qf_payload = [8]\<rparr>, \<lparr>qf_offset = 0, qf_length = 1, qf_payload = [7]\<rparr>] 0 [] = Some buffer"
  using assemble_returns [of "[\<lparr>qf_offset = 1, qf_length = 1, qf_payload = [8]\<rparr>, \<lparr>qf_offset = 0, qf_length = 1, qf_payload = [7]\<rparr>]" 0 "[]"]
  by simp

lemma assemble_diverges:
  assumes "find (\<lambda>f. qf_offset f = index) fragments = Some f" "qf_length f = 0"
  shows "assemble fragments index buffer = None"
proof -
  have "fragments' = fragments \<longrightarrow> index' \<noteq> index" if "assemble fragments' index' buffer' = Some y" for fragments' index' buffer' y
  proof (rule assemble.raw_induct [where P = "\<lambda>fragments' index' buffer' y. fragments' = fragments \<longrightarrow> index' \<noteq> index", OF _ that])
    fix g fragments' index' buffer' y
    assume IH: "\<And>fragments' index' buffer' y. g fragments' index' buffer' = Some y \<Longrightarrow> fragments' = fragments \<longrightarrow> index' \<noteq> index"
      and step: "(case find (\<lambda>fragment. qf_offset fragment = index') fragments' of None \<Rightarrow> Some buffer'
         | Some fragment \<Rightarrow> g fragments' (qf_offset fragment + qf_length fragment) (buffer' @ qf_payload fragment)) = Some y"
    show "fragments' = fragments \<longrightarrow> index' \<noteq> index"
    proof (intro impI notI)
      assume "fragments' = fragments" "index' = index"
      moreover from assms(1) have "qf_offset f = index" by (auto simp: find_Some_iff)
      ultimately have "g fragments index (buffer' @ qf_payload f) = Some y"
        using step assms \<open>fragments' = fragments\<close> by simp
      from IH [OF this] show False by simp
    qed
  qed
  then show ?thesis by (cases "assemble fragments index buffer") auto
qed

text \<open>A packet whose first frame is an empty CRYPTO frame at offset 0 makes the sniffer run forever.\<close>

theorem quic_empty_fragment_diverges:
  assumes "open_packet qd packet = Inr ([0x06, 0x00, 0x00] @ replicate n 0x00, spare)"
  shows "QUICClientHello qd packet sniffContext md = None"
proof -
  have pad: "m \<le> fuel \<Longrightarrow> \<exists>types'. read_frames fuel spare (replicate m 0) types fragments = Inr (types', fragments)" for m fuel types fragments
  proof (induction m arbitrary: fuel types)
    case (Suc m)
    then obtain fuel' where "fuel = Suc fuel'" "m \<le> fuel'" by (cases fuel) auto
    with Suc.IH [of fuel' "types @ [0]"] show ?case by simp
  qed simp
  have v: "quic_ReadUvarint (0 # bs) = Inr (0, bs)" for bs by (simp add: quic_ReadUvarint_def)
  let ?f = "\<lparr>qf_offset = 0, qf_length = 0, qf_payload = []\<rparr> :: qCryptoFragment"
  have c: "read_crypto spare (0 # 0 # bs) = Inr (?f, bs)" for bs by (simp add: read_crypto_def v)
  obtain types where frames:
    "read_frames (length ([0x06, 0x00, 0x00] @ replicate n 0x00 :: bytes)) spare ([0x06, 0x00, 0x00] @ replicate n 0x00) [] [] = Inr (types, [?f])"
    using pad [of n "Suc (Suc n)" "[6]" "[?f]"] by (auto simp: c Let_def)
  from frames assms assemble_diverges [of 0 "?f # rest" ?f for rest] show ?thesis by (simp add: QUICClientHello_def)
qed

theorem quic_empty_fragment_diverges_witness:
  "QUICClientHello sample_qd (sample_initial ([0x06, 0x00, 0x00] @ replicate 20 0x00)) None InboundContext_zero = None"
proof -
  have "open_packet sample_qd (sample_initial ([0x06, 0x00, 0x00] @ replicate 20 0x00)) = Inr ([0x06, 0x00, 0x00] @ replicate 20 0x00, [])"
    by code_simp
  then show ?thesis by (rule quic_empty_fragment_diverges)
qed

text \<open>A CRYPTO frame that claims more bytes than the packet has makes the sniffer panic, whatever the bytes of the packet and the
  fragments of earlier ones.\<close>

theorem quic_crypto_length_panics:
  assumes "open_packet qd packet = Inr ([0x06, 0x00, 0x7f, 0xff] @ rest, spare)" "length rest + length spare < 0x3fff"
  shows "QUICClientHello qd packet sniffContext md = Some (Some (GoPanic [ArgS ''slice bounds out of range'']), sniffContext, md)"
proof -
  have "quic_ReadUvarint (0 # bs) = Inr (0, bs)" for bs by (simp add: quic_ReadUvarint_def)
  moreover have "quic_ReadUvarint (0x7f # 0xff # bs) = Inr (0x3fff, bs)" for bs
  proof -
    have "drop_bit 6 ((0x7f :: u8) AND 0xc0) = 1" "get_be (0 :: u64) [0x7f AND 0x3f, 0xff] = 0x3fff" by code_simp+
    then show ?thesis by (simp add: quic_ReadUvarint_def)
  qed
  ultimately have "read_crypto spare (0 # 0x7f # 0xff # rest) = Inl (GoPanic [ArgS ''slice bounds out of range''])"
    using assms(2) by (simp add: read_crypto_def)
  with assms(1) show ?thesis by (simp add: QUICClientHello_def Let_def)
qed

theorem quic_crypto_length_panics_witness:
  "\<exists>err. QUICClientHello sample_qd (sample_initial ([0x06, 0x00, 0x7f, 0xff] @ replicate 20 0x00)) None InboundContext_zero =
     Some (Some (GoPanic err), None, InboundContext_zero)"
proof -
  have "open_packet sample_qd (sample_initial ([0x06, 0x00, 0x7f, 0xff] @ replicate 20 0x00)) =
    Inr ([0x06, 0x00, 0x7f, 0xff] @ replicate 20 0x00, [])" by code_simp
  from quic_crypto_length_panics [OF this] show ?thesis by simp
qed

section \<open>Fragments that come twice\<close>

lemma cut_lengths:
  assumes "length (concat ps) < 2 ^ 64"
  shows "(\<Sum>f\<leftarrow>cut i ps. unat (qf_length f)) = length (concat ps)"
  using assms by (induction ps arbitrary: i) (auto simp: unsigned_of_nat take_bit_nat_eq_self)

lemma cut_length_pos:
  assumes "f \<in> set (cut i ps)" "\<forall>p\<in>set ps. p \<noteq> []" "length (concat ps) < 2 ^ 64"
  shows "0 < unat (qf_length f)"
  using assms by (induction ps arbitrary: i) (auto simp: unsigned_of_nat take_bit_nat_eq_self)

lemma sum_lengths: "sum_list (map qf_length fs) = of_nat (\<Sum>f\<leftarrow>fs. unat (qf_length f))"
  by (induction fs) auto

lemma parseSegment_short:
  assumes "length rest < n" "n < 2 ^ 16"
  shows "ja3_Compute ([0x16, 0x03, 0x03] @ put_be 2 (of_nat n :: u16) @ rest) = Inl (LengthErr 2)"
proof -
  obtain a b where ab: "put_be 2 (of_nat n :: u16) = [a, b]" by (simp add: numeral_2_eq_2)
  have "be16 a b = (of_nat n :: u16)"
    unfolding be16_get_be ab [symmetric] get_be_put_be by (simp add: take_bit_word_eq_self)
  with assms have "unat (be16 a b) = n" by (simp add: unsigned_of_nat take_bit_nat_eq_self)
  moreover have "tlsVersion_ok (be16 3 3)" by code_simp
  ultimately show ?thesis using assms(1) by (simp add: ja3_Compute_def parseSegment_def ab)
qed

text \<open>A fragment that comes twice, as it does when a client sends its packet again, hides the client hello: the length of the
  record counts both copies, the bytes only one, so the sniffer asks for more data, and keeps both copies for the next packet.\<close>

theorem quic_duplicate_fragment:
  assumes "open_packet qd packet = Inr (decrypted, spare)"
    and "read_frames (length decrypted) spare decrypted [] [] = Inr (types, fragments)"
    and "mset (fragments @ waiting) = mset (cut 0 pieces) + copies" "copies \<noteq> {#}" "set_mset copies \<subseteq> set (cut 0 pieces)"
    and "\<forall>p\<in>set pieces. p \<noteq> []" "length (concat pieces) < 2 ^ 16"
    and "(\<Sum>f\<leftarrow>fragments @ waiting. unat (qf_length f)) < 2 ^ 16"
  shows "QUICClientHello qd packet (Some waiting) md =
    Some (Some (EErrors [ENeedMoreData, LengthErr 2]), Some (fragments @ waiting), md\<lparr>md_Protocol := ProtocolQUIC, md_Client := ClientChromium\<rparr>)"
proof -
  let ?fs = "fragments @ waiting" and ?n = "length (concat pieces)"
  let ?sum = "\<Sum>f\<leftarrow>?fs. unat (qf_length f)"
  have "set_mset (mset ?fs) = set (cut 0 pieces)" unfolding assms(3) using assms(5) by auto
  then have set: "set ?fs = set (cut 0 pieces)" by simp
  have sum: "?sum = (\<Sum>f\<leftarrow>cut 0 pieces. unat (qf_length f)) + (\<Sum>f\<in>#copies. unat (qf_length f))"
    using arg_cong [OF assms(3), of "\<lambda>m. \<Sum>f\<in>#m. unat (qf_length f)"] by (simp flip: sum_mset_sum_list)
  from assms(4) obtain f where f: "f \<in># copies" by auto
  then obtain rest where "copies = add_mset f rest" by (metis multi_member_split)
  moreover have "0 < unat (qf_length f)" using cut_length_pos [of f 0 pieces] assms(5-7) f by auto
  ultimately have "?n < ?sum" using sum cut_lengths [of pieces 0] assms(7) by simp
  have header: "record_header ?fs = [0x16, 0x03, 0x03] @ put_be 2 (of_nat ?sum :: u16)"
    unfolding record_header_def sum_lengths ucast_of_nat_u16 by (rule refl)
  have "assemble ?fs 0 (record_header ?fs) = Some (record_header ?fs @ concat pieces)"
    using assemble_cut [of ?fs "[]" pieces "record_header ?fs"] set assms(6,7) by simp
  moreover have "ja3_Compute (record_header ?fs @ concat pieces) = Inl (LengthErr 2)"
    unfolding header using parseSegment_short [OF \<open>?n < ?sum\<close> assms(8)] by simp
  ultimately show ?thesis
    using assms(1,2) by (simp add: QUICClientHello_def finish_hello_def is_panic_def LengthErr_def)
qed

theorem quic_duplicate_fragment_witness:
  "\<exists>kept md'. QUICClientHello sample_qd (sample_initial sample_frames_twice) (Some []) InboundContext_zero =
     Some (Some (EErrors [ENeedMoreData, LengthErr 2]), Some kept, md')"
proof -
  let ?pieces = "[take 20 sample_handshake, drop 20 sample_handshake]"
  let ?f = "\<lparr>qf_offset = 0, qf_length = 20, qf_payload = take 20 sample_handshake\<rparr> :: qCryptoFragment"
  let ?g = "\<lparr>qf_offset = 20, qf_length = 46, qf_payload = drop 20 sample_handshake\<rparr> :: qCryptoFragment"
  have o: "open_packet sample_qd (sample_initial sample_frames_twice) = Inr (sample_frames_twice, [])" by code_simp
  have r: "read_frames (length sample_frames_twice) [] sample_frames_twice [] [] = Inr ([6, 6, 6], [?g, ?f, ?f])" by code_simp
  have c: "cut 0 ?pieces = [?f, ?g]" by code_simp
  have m: "mset ([?g, ?f, ?f] @ []) = mset (cut 0 ?pieces) + {#?f#}" "set_mset {#?f#} \<subseteq> set (cut 0 ?pieces)" unfolding c by simp_all
  have p: "\<forall>p\<in>set ?pieces. p \<noteq> []" "length (concat ?pieces) = 66" by code_simp+
  then have l: "length (concat ?pieces) < 2 ^ 16" by simp
  from quic_duplicate_fragment [OF o r m(1) _ m(2) p(1) l] show ?thesis by simp
qed

end
