(* ===== verification/Sniffers.thy ===== *)
theory Sniffers
  imports Sniff Quic
begin

text \<open>
  The sniffers of the single protocols (\<^verbatim>\<open>common/sniff\<close>): DNS, STUN, SSH, RDP, NTP, DTLS, BitTorrent, and HTTP and TLS around the
  parsers of the standard library, which are arguments, as is the parser of DNS messages. A stream is the list of buffers that the
  \<^verbatim>\<open>io.MultiReader\<close> of \<^verbatim>\<open>PeekStream\<close> reads; all sniffers but BitTorrent read through the end of a buffer.
\<close>

section \<open>Library code\<close>

record sniffer_libs =
  http_ReadRequest_Host :: "bytes \<Rightarrow> string res"
  M_AddrString :: "string \<Rightarrow> string"
  tls_ClientHello :: "bytes \<Rightarrow> goerr option \<times> string option"
  Msg_Unpack :: "bytes \<Rightarrow> Msg res"

type_synonym sniff_outcome = "goerr option \<times> InboundContext"

definition need_more :: "goerr \<Rightarrow> goerr" where
  "need_more err = EErrors [ENeedMoreData, err]"

definition found :: "string \<Rightarrow> InboundContext \<Rightarrow> sniff_outcome" where
  "found protocol md = (None, md\<lparr>md_Protocol := protocol\<rparr>)"

definition invalid :: "InboundContext \<Rightarrow> sniff_outcome" where
  "invalid md = (Some EInvalid, md)"

text \<open>\<^verbatim>\<open>errors.Is(err, io.ErrUnexpectedEOF)\<close>.\<close>

fun is_UnexpectedEOF :: "goerr \<Rightarrow> bool" where
  "is_UnexpectedEOF EUnexpectedEOF = True"
| "is_UnexpectedEOF (ECause err args) = is_UnexpectedEOF err"
| "is_UnexpectedEOF (EExtend err args) = is_UnexpectedEOF err"
| "is_UnexpectedEOF (EErrors errs) = list_ex is_UnexpectedEOF errs"
| "is_UnexpectedEOF _ = False"

section \<open>Protocols\<close>

definition ProtocolTLS :: string where "ProtocolTLS = ''tls''"
definition ProtocolHTTP :: string where "ProtocolHTTP = ''http''"
definition ProtocolDNS :: string where "ProtocolDNS = ''dns''"
definition ProtocolSTUN :: string where "ProtocolSTUN = ''stun''"
definition ProtocolBitTorrent :: string where "ProtocolBitTorrent = ''bittorrent''"
definition ProtocolDTLS :: string where "ProtocolDTLS = ''dtls''"
definition ProtocolSSH :: string where "ProtocolSSH = ''ssh''"
definition ProtocolRDP :: string where "ProtocolRDP = ''rdp''"
definition ProtocolNTP :: string where "ProtocolNTP = ''ntp''"

section \<open>DNS\<close>

definition sniff_DomainNameQuery :: "sniffer_libs \<Rightarrow> bytes \<Rightarrow> InboundContext \<Rightarrow> sniff_outcome" where
  "sniff_DomainNameQuery libs packet md =
     (case Msg_Unpack libs packet of
        Inl err \<Rightarrow> (Some err, md)
      | Inr msg \<Rightarrow>
          if msg_Response msg \<or> msg_Question msg = [] \<or> msg_Answer msg \<noteq> [] \<or> msg_Ns msg \<noteq> [] then (None, md)
          else found ProtocolDNS md)"

text \<open>The checks of the header that are made on the bytes that have come so far.\<close>

definition dns_header_bad :: "bytes \<Rightarrow> bool" where
  "dns_header_bad packet \<longleftrightarrow>
     (length packet > 2 \<and> packet ! 2 AND 0x80 \<noteq> 0) \<or>
     (length packet > 5 \<and> packet ! 4 = 0 \<and> packet ! 5 = 0) \<or>
     list_ex (\<lambda>i. length packet > i \<and> packet ! i \<noteq> 0) [6..<10]"

definition sniff_StreamDomainNameQuery :: "sniffer_libs \<Rightarrow> bytes \<Rightarrow> InboundContext \<Rightarrow> sniff_outcome" where
  "sniff_StreamDomainNameQuery libs content md =
     (case read_full 2 content of
        Inl err \<Rightarrow> (Some (need_more err), md)
      | Inr (len, rest) \<Rightarrow>
          let n = unat (get_be 0 len :: u16); packet = take n rest
          in if n < 12 then invalid md
             else if dns_header_bad packet then invalid md
             else if length rest < n then (Some (need_more (if rest = [] then io_EOF else EUnexpectedEOF)), md)
             else sniff_DomainNameQuery libs packet md)"

section \<open>STUN, NTP and DTLS\<close>

definition sniff_STUNMessage :: "bytes \<Rightarrow> InboundContext \<Rightarrow> sniff_outcome" where
  "sniff_STUNMessage packet md =
     (if length packet < 20 then invalid md
      else if (get_be 0 (take 4 (drop 4 packet)) :: u32) \<noteq> 0x2112A442 then invalid md
      else if length packet < 20 + unat (get_be 0 (take 2 (drop 2 packet)) :: u16) then invalid md
      else found ProtocolSTUN md)"

text \<open>The comparisons are done in floating point, exactly: a number is above 16 units of 65536 if it is above 1048576.\<close>

definition sniff_NTP :: "bytes \<Rightarrow> InboundContext \<Rightarrow> sniff_outcome" where
  "sniff_NTP packet md =
     (if length packet < 48 then invalid md
      else
        let firstByte = packet ! 0; li = drop_bit 6 firstByte AND 0x03; vn = drop_bit 3 firstByte AND 0x07; mode = firstByte AND 0x07
        in if li > 3 then invalid md
           else if vn \<noteq> 3 \<and> vn \<noteq> 4 then invalid md
           else if mode \<noteq> 3 then invalid md
           else if unat (get_be 0 (take 4 (drop 4 packet)) :: u32) > 16 * 65536 then invalid md
           else if unat (get_be 0 (take 4 (drop 8 packet)) :: u32) > 16 * 65536 then invalid md
           else found ProtocolNTP md)"

definition sniff_DTLSRecord :: "bytes \<Rightarrow> InboundContext \<Rightarrow> sniff_outcome" where
  "sniff_DTLSRecord packet md =
     (if length packet < 13 then invalid md
      else if packet ! 0 \<notin> {20, 21, 22, 23, 25} then invalid md
      else if packet ! 1 \<noteq> 0xfe then invalid md
      else if packet ! 2 \<noteq> 0xff \<and> packet ! 2 \<noteq> 0xfd then invalid md
      else found ProtocolDTLS md)"

section \<open>SSH\<close>

definition sshPrefix :: bytes where
  "sshPrefix = map (\<lambda>c. of_nat (of_char c)) ''SSH-2.0-''"

text \<open>\<^verbatim>\<open>bufio.Reader.ReadLine\<close> with its buffer of 4096 bytes: a line without its end, the bytes before the end of the
  stream, or as many as the buffer holds.\<close>

definition read_line :: "bytes \<Rightarrow> bytes" where
  "read_line content =
     (let window = take 4096 content; line = takeWhile (\<lambda>b. b \<noteq> 10) window
      in if 10 \<in> set window then (if line \<noteq> [] \<and> last line = 13 then butlast line else line)
         else if length content < 4096 then line
         else if last line = 13 then butlast line else line)"

definition sniff_SSH :: "bytes \<Rightarrow> InboundContext \<Rightarrow> sniff_outcome" where
  "sniff_SSH content md =
     (let prefix = take (length sshPrefix) content
      in if prefix \<noteq> take (length prefix) sshPrefix then invalid md
         else if length content < length sshPrefix then (Some (need_more io_EOF), md)
         else (None, md\<lparr>md_Protocol := ProtocolSSH, md_Client := bytes_text (drop 8 (read_line content))\<rparr>))"

section \<open>RDP\<close>

text \<open>The fields in their order: the bytes that are skipped, the length of the field and the values that are accepted. Bytes that do not
  come yet are asked for.\<close>

fun read_fields :: "(nat \<times> nat \<times> (bytes \<Rightarrow> bool)) list \<Rightarrow> bytes \<Rightarrow> goerr option" where
  "read_fields [] bs = None"
| "read_fields ((skipped, n, ok) # fs) bs =
     (case discard skipped bs of
        Inl err \<Rightarrow> Some (need_more err)
      | Inr bs \<Rightarrow>
          (case read_full n bs of
             Inl err \<Rightarrow> Some (need_more err)
           | Inr (v, bs) \<Rightarrow> if ok v then read_fields fs bs else Some EInvalid))"

definition rdp_fields :: "(nat \<times> nat \<times> (bytes \<Rightarrow> bool)) list" where
  "rdp_fields =
     [(0, 1, \<lambda>tpktVersion. tpktVersion = [0x03]), (0, 1, \<lambda>tpktReserved. tpktReserved = [0x00]),
      (0, 2, \<lambda>tpktLength. (get_be 0 tpktLength :: u16) = 19), (0, 1, \<lambda>cotpLength. cotpLength = [14]),
      (0, 1, \<lambda>cotpTpduType. cotpTpduType = [0xE0]), (5, 1, \<lambda>rdpType. rdpType = [0x01]),
      (0, 1, \<lambda>rdpFlags. True), (0, 1, \<lambda>rdpLength. rdpLength = [8])]"

definition sniff_RDP :: "bytes \<Rightarrow> InboundContext \<Rightarrow> sniff_outcome" where
  "sniff_RDP content md =
     (case read_fields rdp_fields content of
        Some err \<Rightarrow> (Some err, md)
      | None \<Rightarrow> found ProtocolRDP md)"

section \<open>BitTorrent\<close>

definition bt_header :: bytes where
  "bt_header = map (\<lambda>c. of_nat (of_char c)) ''BitTorrent protocol''"

text \<open>The buffers after \<^verbatim>\<open>binary.Read\<close> of one byte, and the bytes of one \<^verbatim>\<open>Read\<close>, which does not pass the end of a
  buffer.\<close>

fun first_byte :: "bytes list \<Rightarrow> (u8 \<times> bytes list) option" where
  "first_byte [] = None"
| "first_byte ([] # chunks) = first_byte chunks"
| "first_byte ((b # bs) # chunks) = Some (b, bs # chunks)"

fun read_once :: "bytes list \<Rightarrow> nat \<Rightarrow> bytes res" where
  "read_once [] n = Inl io_EOF"
| "read_once ([] # chunks) n = read_once chunks n"
| "read_once ((b # bs) # chunks) n = Inr (take n (b # bs))"

definition sniff_BitTorrent :: "bytes list \<Rightarrow> InboundContext \<Rightarrow> sniff_outcome" where
  "sniff_BitTorrent chunks md =
     (case first_byte chunks of
        None \<Rightarrow> (Some (need_more io_EOF), md)
      | Some (b, chunks) \<Rightarrow>
          if b \<noteq> 19 then invalid md
          else case read_once chunks 19 of
            Inl err \<Rightarrow> (Some (need_more err), md)
          | Inr protocol \<Rightarrow>
              if protocol \<noteq> take (length protocol) bt_header then invalid md
              else if length protocol < 19 then (Some ENeedMoreData, md)
              else found ProtocolBitTorrent md)"

text \<open>The extensions of uTP: each has the type of the next one, its length and its data; a length that passes the end is
  noticed when the next type is read.\<close>

function utp_extensions :: "u8 \<Rightarrow> bytes \<Rightarrow> goerr option" where
  "utp_extensions extension bs =
     (if extension = 0 then None
      else case bs of
        [] \<Rightarrow> Some io_EOF
      | next_extension # bs \<Rightarrow>
          if next_extension > 4 then Some EInvalid
          else case bs of
            [] \<Rightarrow> Some io_EOF
          | len # bs \<Rightarrow> utp_extensions next_extension (drop (unat len) bs))"
  by pat_completeness auto
termination
  by (relation "measure (\<lambda>(extension, bs). length bs)") auto

declare utp_extensions.simps [simp del]

definition sniff_UTP :: "bytes \<Rightarrow> InboundContext \<Rightarrow> sniff_outcome" where
  "sniff_UTP packet md =
     (if length packet < 20 then invalid md
      else if packet ! 0 AND 0x0F \<noteq> 1 \<or> drop_bit 4 (packet ! 0) > 4 then invalid md
      else case utp_extensions (packet ! 1) (drop 20 packet) of
        Some err \<Rightarrow> (Some err, md)
      | None \<Rightarrow> found ProtocolBitTorrent md)"

definition trackerConnectFlag :: u32 where "trackerConnectFlag = 0"
definition trackerProtocolID :: u64 where "trackerProtocolID = 0x41727101980"
definition trackerConnectMinSize :: nat where "trackerConnectMinSize = 16"

definition sniff_UDPTracker :: "bytes \<Rightarrow> InboundContext \<Rightarrow> sniff_outcome" where
  "sniff_UDPTracker packet md =
     (if length packet < trackerConnectMinSize then invalid md
      else if get_be 0 (take 8 packet) \<noteq> trackerProtocolID then invalid md
      else if get_be 0 (take 4 (drop 8 packet)) \<noteq> trackerConnectFlag then invalid md
      else found ProtocolBitTorrent md)"

section \<open>HTTP and TLS\<close>

definition eof_needs_more :: "goerr \<Rightarrow> goerr" where
  "eof_needs_more err = (if is_UnexpectedEOF err then need_more err else err)"

definition sniff_HTTPHost :: "sniffer_libs \<Rightarrow> bytes \<Rightarrow> InboundContext \<Rightarrow> sniff_outcome" where
  "sniff_HTTPHost libs content md =
     (case http_ReadRequest_Host libs content of
        Inl err \<Rightarrow> (Some (eof_needs_more err), md)
      | Inr host \<Rightarrow> (None, md\<lparr>md_Protocol := ProtocolHTTP, md_Domain := M_AddrString libs host\<rparr>))"

definition sniff_TLSClientHello :: "sniffer_libs \<Rightarrow> bytes \<Rightarrow> InboundContext \<Rightarrow> sniff_outcome" where
  "sniff_TLSClientHello libs content md =
     (case tls_ClientHello libs content of
        (_, Some serverName) \<Rightarrow> (None, md\<lparr>md_Protocol := ProtocolTLS, md_Domain := serverName\<rparr>)
      | (Some err, None) \<Rightarrow> (Some (eof_needs_more err), md)
      | (None, None) \<Rightarrow> (None, md))"

section \<open>All sniffers\<close>

text \<open>The functions that the sniff driver calls. The QUIC sniffer keeps fragments of earlier packets besides the metadata and may
  not return (theory \<open>Quic\<close>); here it is an argument.\<close>

definition stream_sniffer :: "sniffer_libs \<Rightarrow> StreamSniffer \<Rightarrow> bytes list \<Rightarrow> InboundContext \<Rightarrow> sniff_outcome" where
  "stream_sniffer libs s chunks md =
     (case s of
        TLSClientHello \<Rightarrow> sniff_TLSClientHello libs (concat chunks) md
      | HTTPHost \<Rightarrow> sniff_HTTPHost libs (concat chunks) md
      | StreamDomainNameQuery \<Rightarrow> sniff_StreamDomainNameQuery libs (concat chunks) md
      | BitTorrent \<Rightarrow> sniff_BitTorrent chunks md
      | SSH \<Rightarrow> sniff_SSH (concat chunks) md
      | RDP \<Rightarrow> sniff_RDP (concat chunks) md)"

definition packet_sniffer ::
  "sniffer_libs \<Rightarrow> (bytes \<Rightarrow> InboundContext \<Rightarrow> sniff_outcome) \<Rightarrow> PacketSniffer \<Rightarrow> bytes \<Rightarrow> InboundContext \<Rightarrow> sniff_outcome" where
  "packet_sniffer libs quic s packet md =
     (case s of
        DomainNameQuery \<Rightarrow> sniff_DomainNameQuery libs packet md
      | RuleAction.QUICClientHello \<Rightarrow> quic packet md
      | STUNMessage \<Rightarrow> sniff_STUNMessage packet md
      | UTP \<Rightarrow> sniff_UTP packet md
      | UDPTracker \<Rightarrow> sniff_UDPTracker packet md
      | DTLSRecord \<Rightarrow> sniff_DTLSRecord packet md
      | NTP \<Rightarrow> sniff_NTP packet md)"

definition sniffers ::
  "sniffer_libs \<Rightarrow> (bytes \<Rightarrow> InboundContext \<Rightarrow> sniff_outcome) \<Rightarrow> (string \<Rightarrow> bool) \<Rightarrow> sniff_deps" where
  "sniffers libs quic isDomainName =
     \<lparr>sd_stream = stream_sniffer libs, sd_packet = packet_sniffer libs quic, M_IsDomainName = isDomainName\<rparr>"

end
