(* ===== verification/SnifferProps.thy ===== *)
theory SnifferProps
  imports Sniffers
begin

text \<open>
  The stream sniffers of the program answer in steps: on the beginning of a stream that they accept they ask for more data and never
  reject it. This is the contract that the sniff driver relies on, stated as a locale and discharged for the four sniffers whose
  parsers are the program's own; what follows for the driver is proved once.
\<close>

section \<open>The contract of a stream sniffer\<close>

definition waits :: "goerr option \<Rightarrow> bool" where
  "waits r \<longleftrightarrow> (case r of None \<Rightarrow> True | Some err \<Rightarrow> is_NeedMoreData err)"

lemma waits_need_more [simp]: "waits (Some (need_more err))" "waits None" "waits (Some ENeedMoreData)"
  by (simp_all add: waits_def need_more_def)

lemma run_sniffers_errors:
  "run_sniffers f ss c errs md = (Some errs', md') \<Longrightarrow> s \<in> set ss \<Longrightarrow> \<exists>md'' err. fst (f s c md'') = Some err \<and> err \<in> set errs'"
proof (induction ss arbitrary: errs md)
  case (Cons s' ss)
  then obtain err md1 where s': "f s' c md = (Some err, md1)" and rest: "run_sniffers f ss c (errs @ [err]) md1 = (Some errs', md')"
    by (auto split: prod.splits option.splits)
  have keep: "run_sniffers f ss c es m = (Some es', m') \<Longrightarrow> set es \<subseteq> set es'" for ss es m es' m'
    by (induction ss arbitrary: es m) (fastforce split: prod.splits option.splits)+
  show ?case
  proof (cases "s = s'")
    case True
    with s' keep [OF rest] show ?thesis by (intro exI [of _ md] exI [of _ err]) auto
  next
    case False
    with Cons.prems(2) Cons.IH [OF rest] show ?thesis by auto
  qed
qed simp

locale incremental =
  fixes sniff :: "bytes \<Rightarrow> InboundContext \<Rightarrow> sniff_outcome"
  assumes ignores_metadata: "fst (sniff c md) = fst (sniff c md')"
    and accepts_in_steps: "fst (sniff (p @ q) md) = None \<Longrightarrow> waits (fst (sniff p md))"
begin

lemma PeekStream_loop_recognises:
  assumes "s \<in> set ss" "\<And>c. sd_stream sd s [c] = sniff c" "pls \<noteq> []"
    and "fst (sniff (buffer @ concat pls) md0) = None"
  shows "fst (PeekStream_loop sd ss [] None i se buffer (map Inr pls @ rest) md) = None"
  using assms(3,4)
proof (induction pls arbitrary: buffer i se md)
  case (Cons payload pls)
  let ?c = "buffer @ payload"
  obtain errs md1 where run: "run_sniffers (sd_stream sd) ss [?c] [] md = (errs, md1)" by force
  show ?case
  proof (cases errs)
    case None
    with run show ?thesis by simp
  next
    case (Some es)
    then obtain err md2 where err: "fst (sniff ?c md2) = Some err" "err \<in> set es"
      using run_sniffers_errors [OF run [unfolded Some] assms(1)] assms(2) by auto
    have "waits (fst (sniff ?c md0))" using Cons.prems(2) accepts_in_steps [of ?c "concat pls" md0] by simp
    with ignores_metadata [of ?c md0 md2] err have more: "is_NeedMoreData (EErrors es)" by (auto simp: waits_def list_ex_iff)
    have "pls \<noteq> []"
    proof
      assume "pls = []"
      with Cons.prems(2) ignores_metadata [of ?c md0 md2] err(1) show False by simp
    qed
    moreover have "es \<noteq> []" using err(2) by auto
    ultimately show ?thesis using Cons.IH [of ?c "Suc i" "Some (EErrors es)" md1] Cons.prems(2) run Some more
      by (simp add: E_Errors_def)
  qed
qed simp

end

section \<open>The sniffers of the program\<close>

lemma read_full_append:
  "read_full n (p @ q) = Inr (v, bs) \<Longrightarrow> (\<exists>err. read_full n p = Inl err) \<or> (\<exists>bs'. read_full n p = Inr (v, bs') \<and> bs = bs' @ q)"
  by (auto simp: read_full_def split: if_splits)

lemma discard_append:
  "discard n (p @ q) = Inr bs \<Longrightarrow> (\<exists>err. discard n p = Inl err) \<or> (\<exists>bs'. discard n p = Inr bs' \<and> bs = bs' @ q)"
  by (auto simp: discard_def split: if_splits)

lemma read_fields_in_steps: "read_fields fs (p @ q) = None \<Longrightarrow> waits (read_fields fs p)"
proof (induction fs arbitrary: p)
  case (Cons f fs)
  obtain skipped n ok where f: "f = (skipped, n, ok)" by (cases f)
  from Cons.prems f obtain bs v bs2 where bs: "discard skipped (p @ q) = Inr bs" and v: "read_full n bs = Inr (v, bs2)"
    and ok: "ok v" "read_fields fs bs2 = None"
    by (auto split: sum.splits if_splits)
  from discard_append [OF bs] consider err where "discard skipped p = Inl err" | p' where "discard skipped p = Inr p'" "bs = p' @ q" by auto
  then show ?case
  proof cases
    case 1
    with f show ?thesis by simp
  next
    case 2
    from read_full_append [OF v [unfolded 2(2)]] consider err where "read_full n p' = Inl err"
      | p'' where "read_full n p' = Inr (v, p'')" "bs2 = p'' @ q" by auto
    then show ?thesis using f 2(1) ok Cons.IH by cases auto
  qed
qed simp

lemma bt_header_length: "length bt_header = 19"
  by code_simp

lemma ssh_length: "length sshPrefix = 8"
  by code_simp

lemma BitTorrent_step:
  assumes "r \<noteq> []"
  shows "sniff_BitTorrent ((b # r) # chunks) md =
    (if b \<noteq> 19 then invalid md
     else if take 19 r \<noteq> take (length (take 19 r)) bt_header then invalid md
     else if length (take 19 r) < 19 then (Some ENeedMoreData, md)
     else found ProtocolBitTorrent md)"
proof -
  have "read_once (r # chunks) 19 = Inr (take 19 r)" using assms by (cases r) auto
  then show ?thesis by (simp add: sniff_BitTorrent_def)
qed

lemma BitTorrent_one: "sniff_BitTorrent [[b]] md = (if b \<noteq> 19 then invalid md else (Some (need_more io_EOF), md))"
  by (simp add: sniff_BitTorrent_def)

lemma BitTorrent_accepts:
  assumes "fst (sniff_BitTorrent [b # r] md) = None"
  shows "b = 19 \<and> take 19 r = bt_header"
proof (cases "r = []")
  case False
  with assms have "b = 19" "take 19 r = take (length (take 19 r)) bt_header" "\<not> length (take 19 r) < 19"
    unfolding BitTorrent_step [OF False] by (auto simp: invalid_def split: if_splits)
  moreover from this(3) have "length (take 19 r) = 19" by simp
  ultimately show ?thesis using bt_header_length by simp
qed (use assms in \<open>auto simp: BitTorrent_one invalid_def split: if_splits\<close>)

lemma BitTorrent_beginning:
  assumes "fst (sniff_BitTorrent [p @ q] md) = None"
  shows "waits (fst (sniff_BitTorrent [p] md))"
proof (cases p)
  case (Cons b r)
  with assms BitTorrent_accepts [of b "r @ q" md] have b: "b = 19" "take 19 (r @ q) = bt_header" by auto
  show ?thesis
  proof (cases "r = []")
    case True
    with Cons b(1) show ?thesis by (simp add: BitTorrent_one)
  next
    case False
    from b(2) have "take 19 r = take (length (take 19 r)) bt_header" by (metis append_eq_conv_conj take_append)
    then have same: "\<not> take 19 r \<noteq> take (length (take 19 r)) bt_header" by blast
    show ?thesis unfolding Cons BitTorrent_step [OF False] if_not_P [OF same] using b(1) by (simp add: found_def)
  qed
qed (simp add: sniff_BitTorrent_def)

lemma dns_header_prefix: "\<not> dns_header_bad (p @ q) \<Longrightarrow> \<not> dns_header_bad p"
  by (auto simp: dns_header_bad_def list_ex_iff nth_append split: if_splits)

lemma StreamDomainNameQuery_beginning:
  assumes "fst (sniff_StreamDomainNameQuery libs (p @ q) md) = None"
  shows "waits (fst (sniff_StreamDomainNameQuery libs p md))"
proof (cases "read_full 2 p")
  case (Inr a)
  obtain len rest where lr: "read_full 2 p = Inr (len, rest)" using Inr by (cases a) auto
  then have full: "read_full 2 (p @ q) = Inr (len, rest @ q)" by (auto simp: read_full_def split: if_splits)
  let ?n = "unat (get_be 0 len :: u16)"
  have ok: "\<not> ?n < 12" "\<not> dns_header_bad (take ?n (rest @ q))" "\<not> length (rest @ q) < ?n"
    "fst (sniff_DomainNameQuery libs (take ?n (rest @ q)) md) = None"
    using assms unfolding sniff_StreamDomainNameQuery_def full by (auto simp: invalid_def Let_def split: if_splits)
  from ok(2) dns_header_prefix have header: "\<not> dns_header_bad (take ?n rest)" by simp
  show ?thesis
  proof (cases "length rest < ?n")
    case True
    with lr ok(1) header show ?thesis by (simp add: sniff_StreamDomainNameQuery_def Let_def)
  next
    case False
    with ok(4) have "fst (sniff_DomainNameQuery libs (take ?n rest) md) = None" by simp
    with False lr ok(1) header show ?thesis by (simp add: sniff_StreamDomainNameQuery_def Let_def)
  qed
qed (simp add: sniff_StreamDomainNameQuery_def)

interpretation rdp: incremental sniff_RDP
proof unfold_locales
  show "fst (sniff_RDP c md) = fst (sniff_RDP c md')" for c md md' by (simp add: sniff_RDP_def found_def split: option.split)
  show "fst (sniff_RDP (p @ q) md) = None \<Longrightarrow> waits (fst (sniff_RDP p md))" for p q md
    using read_fields_in_steps [of rdp_fields p q] by (auto simp: sniff_RDP_def found_def split: option.splits)
qed

interpretation ssh: incremental sniff_SSH
proof unfold_locales
  show "fst (sniff_SSH c md) = fst (sniff_SSH c md')" for c md md' by (simp add: sniff_SSH_def invalid_def Let_def)
  show "waits (fst (sniff_SSH p md))" if ok: "fst (sniff_SSH (p @ q) md) = None" for p q md
  proof -
    from ok have c: "take 8 (p @ q) = take (length (take 8 (p @ q))) sshPrefix" "8 \<le> length (p @ q)"
      by (auto simp: sniff_SSH_def invalid_def Let_def ssh_length split: if_splits)
    from c(2) have "length (take 8 (p @ q)) = length sshPrefix" by (simp add: ssh_length)
    with c(1) have "take 8 (p @ q) = sshPrefix" by simp
    then have "take 8 p = take (length (take 8 p)) sshPrefix" by (metis append_eq_conv_conj take_append)
    then show ?thesis by (simp add: sniff_SSH_def Let_def ssh_length)
  qed
qed

interpretation bittorrent: incremental "\<lambda>c. sniff_BitTorrent [c]"
proof unfold_locales
  show "fst (sniff_BitTorrent [c] md) = fst (sniff_BitTorrent [c] md')" for c md md'
    by (simp add: sniff_BitTorrent_def found_def invalid_def split: option.split prod.split sum.split)
  show "fst (sniff_BitTorrent [p @ q] md) = None \<Longrightarrow> waits (fst (sniff_BitTorrent [p] md))" for p q md
    by (rule BitTorrent_beginning)
qed

interpretation dns: incremental "sniff_StreamDomainNameQuery libs" for libs
proof unfold_locales
  show "fst (sniff_StreamDomainNameQuery libs c md) = fst (sniff_StreamDomainNameQuery libs c md')" for c md md'
    by (simp add: sniff_StreamDomainNameQuery_def sniff_DomainNameQuery_def found_def invalid_def Let_def split: prod.split sum.split)
  show "fst (sniff_StreamDomainNameQuery libs (p @ q) md) = None \<Longrightarrow> waits (fst (sniff_StreamDomainNameQuery libs p md))" for p q md
    by (rule StreamDomainNameQuery_beginning)
qed

section \<open>The driver with these sniffers\<close>

text \<open>C14. A stream is recognised however it is cut into reads: when the sniffer for DNS, BitTorrent, SSH or RDP is among the sniffers and
  accepts the bytes of the first reads taken together, the sniff driver ends with success, whatever else is read, whichever other sniffers
  are run before it and whatever they answer.\<close>

theorem PeekStream_recognises:
  assumes "s \<in> {StreamDomainNameQuery, BitTorrent, SSH, RDP}" "s \<in> set ss" "pls \<noteq> []"
    and "fst (stream_sniffer libs s [concat pls] md0) = None"
  shows "fst (PeekStream (sniffers libs quic isDomainName) ss [] \<lparr>sc_deadlineError = None, sc_reads = map Inr pls @ rest\<rparr> md) = None"
proof -
  let ?sd = "sniffers libs quic isDomainName"
  have sd: "sd_stream ?sd = stream_sniffer libs" by (simp add: sniffers_def)
  have [simp]: "sd_stream ?sd StreamDomainNameQuery [c] = sniff_StreamDomainNameQuery libs c" "sd_stream ?sd SSH [c] = sniff_SSH c"
    "sd_stream ?sd BitTorrent [c] = sniff_BitTorrent [c]" "sd_stream ?sd RDP [c] = sniff_RDP c" for c
    by (auto simp: sd stream_sniffer_def)
  have "fst (PeekStream_loop ?sd ss [] None 0 None [] (map Inr pls @ rest) md) = None"
    using assms(1)
  proof (elim insertE emptyE)
    assume "s = StreamDomainNameQuery"
    with assms show ?thesis by (intro dns.PeekStream_loop_recognises [of s]) (auto simp: stream_sniffer_def)
  next
    assume "s = BitTorrent"
    with assms show ?thesis by (intro bittorrent.PeekStream_loop_recognises [of s]) (auto simp: stream_sniffer_def)
  next
    assume "s = SSH"
    with assms show ?thesis by (intro ssh.PeekStream_loop_recognises [of s]) (auto simp: stream_sniffer_def)
  next
    assume "s = RDP"
    with assms show ?thesis by (intro rdp.PeekStream_loop_recognises [of s]) (auto simp: stream_sniffer_def)
  qed
  then show ?thesis by (auto simp: PeekStream_def split: prod.split)
qed

definition sample_libs :: sniffer_libs where
  "sample_libs = \<lparr>http_ReadRequest_Host = \<lambda>bs. Inl EInvalid, M_AddrString = id, tls_ClientHello = \<lambda>bs. (Some EInvalid, None),
     Msg_Unpack = \<lambda>bs. Inl EInvalid\<rparr>"

theorem PeekStream_recognises_witness:
  "fst (PeekStream (sniffers sample_libs (\<lambda>bs md. (Some EInvalid, md)) (\<lambda>s. True)) default_stream_sniffers []
     \<lparr>sc_deadlineError = None, sc_reads = [Inr [3, 0, 0], Inr [19, 14, 0xE0, 0, 0, 0], Inr [0, 0, 1, 0, 8, 0]]\<rparr> InboundContext_zero) = None"
proof -
  let ?pls = "[[3, 0, 0], [19, 14, 0xE0, 0, 0, 0], [0, 0, 1, 0, 8, 0]] :: bytes list"
  have "fst (stream_sniffer sample_libs RDP [concat ?pls] InboundContext_zero) = None" by code_simp
  moreover have "RDP \<in> set default_stream_sniffers" by (simp add: default_stream_sniffers_def)
  ultimately show ?thesis
    using PeekStream_recognises [of RDP default_stream_sniffers ?pls sample_libs InboundContext_zero "\<lambda>bs md. (Some EInvalid, md)" "\<lambda>s. True" "[]"]
    by simp
qed

section \<open>Where the sniffers go wrong\<close>

text \<open>With the bytes of an earlier sniff in another buffer, the BitTorrent sniffer never sees the whole header.\<close>

lemma BitTorrent_buffers:
  assumes "0 < n" "n < 19"
  shows "fst (sniff_BitTorrent [19 # take n bt_header, drop n bt_header @ rest] md) = Some ENeedMoreData"
proof -
  have r: "take n bt_header \<noteq> []" "length (take n bt_header) = n" using assms bt_header_length by auto
  then have "take 19 (take n bt_header) = take n bt_header" using assms(2) by simp
  then show ?thesis unfolding BitTorrent_step [OF r(1)] using r(2) assms(2) by simp
qed

text \<open>A DNS message that is no query counts as recognised: no error, but no protocol either, so the sniffers after it are not
  run.\<close>

lemma DomainNameQuery_response:
  assumes "Msg_Unpack libs packet = Inr msg" "msg_Response msg"
  shows "packet_sniffer libs quic DomainNameQuery packet md = (None, md)"
  using assms by (simp add: packet_sniffer_def sniff_DomainNameQuery_def)

end
