(* ===== verification/RouterLife.thy ===== *)
theory RouterLife
  imports Router DnsRouter Managers
begin

text \<open>
  The life cycle of the router (\<^verbatim>\<open>route/router.go\<close>, \<^verbatim>\<open>route/rule_conds.go\<close>): building the rules and rule sets, the start stages in
  which rule sets are loaded, rules take their references and rule sets without references are released, and closing. The rule sets
  are a store from tags; the list keeps their order. They are loaded by up to five goroutines in the code, each on its own rule set and its own
  entry of the cache file; here one after the other. Tun inbounds
  start between the stages of the router and take references too; they are in \<open>TunRuleSets\<close>.
\<close>

section \<open>What the rules need\<close>

definition isProcessRule :: "RawDefaultRule \<Rightarrow> bool" where
  "isProcessRule rule \<longleftrightarrow>
     dr_ProcessName rule \<noteq> [] \<or> dr_ProcessPath rule \<noteq> [] \<or> dr_ProcessPathRegex rule \<noteq> [] \<or> dr_PackageName rule \<noteq> [] \<or>
     dr_User rule \<noteq> [] \<or> dr_UserID rule \<noteq> []"

definition isProcessDNSRule :: "RawDefaultDNSRule \<Rightarrow> bool" where
  "isProcessDNSRule rule \<longleftrightarrow>
     dd_ProcessName rule \<noteq> [] \<or> dd_ProcessPath rule \<noteq> [] \<or> dd_ProcessPathRegex rule \<noteq> [] \<or> dd_PackageName rule \<noteq> [] \<or>
     dd_User rule \<noteq> [] \<or> dd_UserID rule \<noteq> []"

definition isWIFIRule :: "RawDefaultRule \<Rightarrow> bool" where
  "isWIFIRule rule \<longleftrightarrow> dr_WIFISSID rule \<noteq> [] \<or> dr_WIFIBSSID rule \<noteq> []"

definition isWIFIDNSRule :: "RawDefaultDNSRule \<Rightarrow> bool" where
  "isWIFIDNSRule rule \<longleftrightarrow> dd_WIFISSID rule \<noteq> [] \<or> dd_WIFIBSSID rule \<noteq> []"

fun hasRule :: "(RawDefaultRule \<Rightarrow> bool) \<Rightarrow> RuleOptions list \<Rightarrow> bool" where
  "hasRule cond [] = False"
| "hasRule cond (RuleOptions type def act mode rules neg lact # rest) =
     (if type = RuleTypeDefault \<and> cond def then True
      else if type = RuleTypeLogical \<and> hasRule cond rules then True
      else hasRule cond rest)"

fun hasDNSRule :: "(RawDefaultDNSRule \<Rightarrow> bool) \<Rightarrow> DNSRuleOptions list \<Rightarrow> bool" where
  "hasDNSRule cond [] = False"
| "hasDNSRule cond (DNSRuleOptions type def act mode rules neg lact # rest) =
     (if type = RuleTypeDefault \<and> cond def then True
      else if type = RuleTypeLogical \<and> hasDNSRule cond rules then True
      else hasDNSRule cond rest)"

section \<open>The router\<close>

record 'h RouteRouter =
  lr_rules :: "'h Rule list"
  lr_needFindProcess :: bool
  lr_ruleSets :: "string list"
  lr_ruleSetMap :: "'h rule_sets"
  lr_processSearcher :: bool
  lr_platformInterface :: bool
  lr_needWIFIState :: bool
  lr_started :: bool

definition NewRouter :: "RuleOptions list \<Rightarrow> DNSRuleOptions list \<Rightarrow> bool \<Rightarrow> bool \<Rightarrow> 'h RouteRouter" where
  "NewRouter rules dnsRules findProcess platformInterface =
     \<lparr>lr_rules = [],
      lr_needFindProcess = hasRule isProcessRule rules \<or> hasDNSRule isProcessDNSRule dnsRules \<or> findProcess,
      lr_ruleSets = [], lr_ruleSetMap = Map.empty, lr_processSearcher = False, lr_platformInterface = platformInterface,
      lr_needWIFIState = hasRule isWIFIRule rules \<or> hasDNSRule isWIFIDNSRule dnsRules, lr_started = False\<rparr>"

text \<open>The loops of \<^verbatim>\<open>Initialize\<close>; \<open>new\<close> is \<^verbatim>\<open>NewRuleSet\<close> with its context.\<close>

fun init_rules :: "'h deps \<Rightarrow> (DialerOptions \<Rightarrow> 'h res) \<Rightarrow> nat \<Rightarrow> RuleOptions list \<Rightarrow> 'h RouteRouter \<Rightarrow> goerr option \<times> 'h RouteRouter" where
  "init_rules d dialer_New i [] r = (None, r)"
| "init_rules d dialer_New i (options # rules) r =
     (case NewRule d dialer_New False options of
        Inl err \<Rightarrow> (Some (ECause err [ArgS ''parse rule['', ArgI (int i), ArgS '']'']), r)
      | Inr rule \<Rightarrow> init_rules d dialer_New (Suc i) rules (r\<lparr>lr_rules := lr_rules r @ [rule]\<rparr>))"

fun init_rule_sets ::
  "('h RuleSetOptions \<Rightarrow> 'h RuleSet res) \<Rightarrow> nat \<Rightarrow> 'h RuleSetOptions list \<Rightarrow> 'h RouteRouter \<Rightarrow> goerr option \<times> 'h RouteRouter" where
  "init_rule_sets new i [] r = (None, r)"
| "init_rule_sets new i (options # ruleSets) r =
     (if lr_ruleSetMap r (rso_Tag options) \<noteq> None
      then (Some (ENew [ArgS ''duplicate rule-set tag: '', ArgS (rso_Tag options)]), r)
      else case new options of
        Inl err \<Rightarrow> (Some (ECause err [ArgS ''parse rule-set['', ArgI (int i), ArgS '']'']), r)
      | Inr ruleSet \<Rightarrow>
          init_rule_sets new (Suc i) ruleSets
            (r\<lparr>lr_ruleSets := lr_ruleSets r @ [rso_Tag options], lr_ruleSetMap := (lr_ruleSetMap r)(rso_Tag options \<mapsto> ruleSet)\<rparr>))"

definition Router_Initialize ::
  "'h deps \<Rightarrow> (DialerOptions \<Rightarrow> 'h res) \<Rightarrow> ('h RuleSetOptions \<Rightarrow> 'h RuleSet res) \<Rightarrow> RuleOptions list \<Rightarrow> 'h RuleSetOptions list \<Rightarrow>
     'h RouteRouter \<Rightarrow> goerr option \<times> 'h RouteRouter" where
  "Router_Initialize d dialer_New new rules ruleSets r =
     (case init_rules d dialer_New 0 rules r of
        (Some err, r) \<Rightarrow> (Some err, r)
      | (None, r) \<Rightarrow> init_rule_sets new 0 ruleSets r)"

section \<open>Starting\<close>

text \<open>\<open>load\<close> is \<^verbatim>\<open>StartContext\<close> of a remote rule set with its context: what it reads from the cache file and the network, with the
  cache file passed on. A local rule set starts its file watcher, whose error is logged.\<close>

type_synonym ('h, 'c) loader = "'h RemoteRuleSet \<Rightarrow> 'c \<Rightarrow> goerr option \<times> 'h RemoteRuleSet \<times> 'c"

definition remote_loader ::
  "'h deps \<Rightarrow> 'h codec \<Rightarrow> bool \<Rightarrow> (bytes \<Rightarrow> 'h PlainRuleSetCompat res) \<Rightarrow> ('h RuleSetOptions \<Rightarrow> string \<Rightarrow> http_response res) \<Rightarrow>
     (string \<Rightarrow> bool) \<Rightarrow> int \<Rightarrow> ('h, CacheFile option) loader" where
  "remote_loader d c nm json_Unmarshal http outbound now s cacheFile =
     (case RemoteRuleSet_StartContext d c nm json_Unmarshal (http (rm_options s)) outbound now cacheFile s of
        (err, s, cacheFile, callbacks) \<Rightarrow> (err, s, cacheFile))"

fun RuleSet_StartContext :: "('h, 'c) loader \<Rightarrow> 'h RuleSet \<Rightarrow> 'c \<Rightarrow> goerr option \<times> 'h RuleSet \<times> 'c" where
  "RuleSet_StartContext load (LocalSet s) cache = (None, LocalSet s, cache)"
| "RuleSet_StartContext load (RemoteSet s) cache =
     (case load s cache of (err, s, cache) \<Rightarrow> (err, RemoteSet s, cache))"

fun start_rule_sets ::
  "('h, 'c) loader \<Rightarrow> nat \<Rightarrow> string list \<Rightarrow> 'h rule_sets \<Rightarrow> 'c \<Rightarrow> goerr option \<times> 'h rule_sets \<times> 'c" where
  "start_rule_sets load i [] sets cache = (None, sets, cache)"
| "start_rule_sets load i (tag # tags) sets cache =
     (case sets tag of
        None \<Rightarrow> start_rule_sets load (Suc i) tags sets cache
      | Some ruleSet \<Rightarrow>
          (case RuleSet_StartContext load ruleSet cache of
             (Some err, ruleSet, cache) \<Rightarrow>
               (Some (ECause err [ArgS ''initialize rule-set['', ArgI (int i), ArgS '']'']), sets(tag \<mapsto> ruleSet), cache)
           | (None, ruleSet, cache) \<Rightarrow> start_rule_sets load (Suc i) tags (sets(tag \<mapsto> ruleSet)) cache))"

definition set_metadata :: "'h RouteRouter \<Rightarrow> RuleSetMetadata list" where
  "set_metadata r = map RuleSet_Metadata (List.map_filter (lr_ruleSetMap r) (lr_ruleSets r))"

text \<open>\<open>searcher\<close> says whether \<^verbatim>\<open>process.NewSearcher\<close> succeeds; its error is logged.\<close>

definition Router_StartState ::
  "('h, 'c) loader \<Rightarrow> bool \<Rightarrow> 'c \<Rightarrow> 'h RouteRouter \<Rightarrow> goerr option \<times> 'h RouteRouter \<times> 'c" where
  "Router_StartState load searcher cache r =
     (case start_rule_sets load 0 (lr_ruleSets r) (lr_ruleSetMap r) cache of
        (Some err, sets, cache) \<Rightarrow> (Some err, r\<lparr>lr_ruleSetMap := sets\<rparr>, cache)
      | (None, sets, cache) \<Rightarrow>
          let r = r\<lparr>lr_ruleSetMap := sets\<rparr>;
              needFindProcess = lr_needFindProcess r \<or> list_ex ContainsProcessRule (set_metadata r);
              r = (if list_ex ContainsWIFIRule (set_metadata r) then r\<lparr>lr_needWIFIState := True\<rparr> else r);
              r = (if needFindProcess \<and> (lr_platformInterface r \<or> searcher) then r\<lparr>lr_processSearcher := True\<rparr> else r)
          in (None, r, cache))"

fun start_rules :: "env \<Rightarrow> nat \<Rightarrow> 'h Rule list \<Rightarrow> 'h rule_sets \<Rightarrow> 'h Rule list res \<times> 'h rule_sets" where
  "start_rules e i [] sets = (Inr [], sets)"
| "start_rules e i (rule # rules) sets =
     (case Rule_Start e rule sets of
        (Inl err, sets) \<Rightarrow> (Inl (ECause err [ArgS ''initialize rule['', ArgI (int i), ArgS '']'']), sets)
      | (Inr rule, sets) \<Rightarrow>
          (case start_rules e (Suc i) rules sets of
             (Inl err, sets) \<Rightarrow> (Inl err, sets)
           | (Inr rules, sets) \<Rightarrow> (Inr (rule # rules), sets)))"

text \<open>\<^verbatim>\<open>PostStart\<close> of a rule set starts its update loop and does not fail.\<close>

definition Router_PostStart :: "env \<Rightarrow> 'h RouteRouter \<Rightarrow> goerr option \<times> 'h RouteRouter" where
  "Router_PostStart e r =
     (case start_rules e 0 (lr_rules r) (lr_ruleSetMap r) of
        (Inl err, sets) \<Rightarrow> (Some err, r\<lparr>lr_ruleSetMap := sets\<rparr>)
      | (Inr rules, sets) \<Rightarrow> (None, r\<lparr>lr_rules := rules, lr_ruleSetMap := sets, lr_started := True\<rparr>))"

definition each_set :: "('h RuleSet \<Rightarrow> 'h RuleSet) \<Rightarrow> string list \<Rightarrow> 'h rule_sets \<Rightarrow> 'h rule_sets" where
  "each_set f tags sets = fold (\<lambda>tag sets. case sets tag of None \<Rightarrow> sets | Some s \<Rightarrow> sets(tag \<mapsto> f s)) tags sets"

definition Router_Started :: "'h RouteRouter \<Rightarrow> 'h RouteRouter" where
  "Router_Started r = r\<lparr>lr_ruleSetMap := each_set RuleSet_Cleanup (lr_ruleSets r) (lr_ruleSetMap r)\<rparr>"

definition Router_Start ::
  "('h, 'c) loader \<Rightarrow> bool \<Rightarrow> env \<Rightarrow> StartStage \<Rightarrow> 'c \<Rightarrow> 'h RouteRouter \<Rightarrow> goerr option \<times> 'h RouteRouter \<times> 'c" where
  "Router_Start load searcher e stage cache r =
     (case stage of
        StartStateStart \<Rightarrow> Router_StartState load searcher cache r
      | StartStatePostStart \<Rightarrow> (case Router_PostStart e r of (err, r) \<Rightarrow> (err, r, cache))
      | StartStateStarted \<Rightarrow> (None, Router_Started r, cache)
      | StartStateInitialize \<Rightarrow> (None, r, cache))"

text \<open>No rule item has a \<^verbatim>\<open>Close\<close> method and the rule sets close without an error, so only the rule sets change.\<close>

definition Router_Close :: "'h RouteRouter \<Rightarrow> goerr option \<times> 'h RouteRouter" where
  "Router_Close r = (None, r\<lparr>lr_ruleSetMap := each_set RuleSet_Close (lr_ruleSets r) (lr_ruleSetMap r)\<rparr>)"

definition Router_RuleSet :: "'h RouteRouter \<Rightarrow> string \<Rightarrow> 'h RuleSet option" where
  "Router_RuleSet r tag = lr_ruleSetMap r tag"

end
