(* ===== verification/TunRuleSets.thy ===== *)
theory TunRuleSets
  imports RouterLife
begin

text \<open>
  The rule sets of a tun inbound (\<^verbatim>\<open>protocol/tun/inbound.go\<close>): the addresses it routes and excludes can come from rule sets, which are
  looked up when the inbound is built. When the inbound starts, after the rule sets have been loaded and before the rules of the router
  start, it takes a reference to each of them, collects their addresses and, with auto-redirect, registers for their updates. The
  interface itself, its stack and auto-redirect belong to \<^verbatim>\<open>sing-tun\<close>; \<open>autoRedirect\<close> is what \<^verbatim>\<open>tun.NewAutoRedirect\<close> and the
  registration of its mark return. A rule set is named by its tag in the store of the router, a callback by a number.
\<close>

record TunInboundOptions =
  tio_AutoRoute :: bool
  tio_AutoRedirect :: bool
  tio_RouteAddressSet :: "string list"
  tio_RouteExcludeAddressSet :: "string list"

record TunInbound =
  tn_platformInterface :: bool
  tn_autoRedirect :: bool
  tn_routeRuleSet :: "string list"
  tn_routeRuleSetCallback :: "nat list"
  tn_routeExcludeRuleSet :: "string list"
  tn_routeExcludeRuleSetCallback :: "nat list"
  tn_routeAddressSet :: "myIPSet list"
  tn_routeExcludeAddressSet :: "myIPSet list"

fun find_rule_sets :: "string \<Rightarrow> 'h RouteRouter \<Rightarrow> string list \<Rightarrow> string list res" where
  "find_rule_sets message r [] = Inr []"
| "find_rule_sets message r (tag # tags) =
     (case Router_RuleSet r tag of
        None \<Rightarrow> Inl (ENew [ArgS message, ArgS tag])
      | Some ruleSet \<Rightarrow> res_bind (find_rule_sets message r tags) (\<lambda>found. Inr (tag # found)))"

definition tun_NewInbound :: "bool \<Rightarrow> unit res \<Rightarrow> 'h RouteRouter \<Rightarrow> TunInboundOptions \<Rightarrow> TunInbound res" where
  "tun_NewInbound platformInterface autoRedirect r options =
     res_bind (find_rule_sets ''parse route_address_set: rule-set not found: '' r (tio_RouteAddressSet options)) (\<lambda>routeRuleSet.
     res_bind (find_rule_sets ''parse route_exclude_address_set: rule-set not found: '' r (tio_RouteExcludeAddressSet options)) (\<lambda>routeExcludeRuleSet.
     let t = \<lparr>tn_platformInterface = platformInterface, tn_autoRedirect = tio_AutoRedirect options,
              tn_routeRuleSet = routeRuleSet, tn_routeRuleSetCallback = [],
              tn_routeExcludeRuleSet = routeExcludeRuleSet, tn_routeExcludeRuleSetCallback = [],
              tn_routeAddressSet = [], tn_routeExcludeAddressSet = []\<rparr>
     in if tio_AutoRedirect options
        then if \<not> tio_AutoRoute options then Inl (ENew [ArgS ''`auto_route` is required by `auto_redirect`''])
             else res_bind autoRedirect (\<lambda>_. Inr t)
        else Inr t))"

fun RuleSet_ExtractIPSet :: "'h RuleSet \<Rightarrow> myIPSet list" where
  "RuleSet_ExtractIPSet (LocalSet s) = LocalRuleSet_ExtractIPSet s"
| "RuleSet_ExtractIPSet (RemoteSet s) = RemoteRuleSet_ExtractIPSet s"

fun RuleSet_RegisterCallback :: "nat \<Rightarrow> 'h RuleSet \<Rightarrow> 'h RuleSet" where
  "RuleSet_RegisterCallback cb (LocalSet s) = LocalSet (LocalRuleSet_RegisterCallback cb s)"
| "RuleSet_RegisterCallback cb (RemoteSet s) = RemoteSet (RemoteRuleSet_RegisterCallback cb s)"

definition extract_sets :: "'h rule_sets \<Rightarrow> string list \<Rightarrow> myIPSet list" where
  "extract_sets sets tags = concat (map RuleSet_ExtractIPSet (List.map_filter sets tags))"

fun take_sets ::
  "bool \<Rightarrow> nat \<Rightarrow> string list \<Rightarrow> 'h rule_sets \<Rightarrow> myIPSet list \<Rightarrow> nat list \<Rightarrow> 'h rule_sets \<times> myIPSet list \<times> nat list" where
  "take_sets autoRedirect cb [] sets addressSet callbacks = (sets, addressSet, callbacks)"
| "take_sets autoRedirect cb (tag # tags) sets addressSet callbacks =
     (case sets tag of
        None \<Rightarrow> take_sets autoRedirect cb tags sets addressSet callbacks
      | Some ruleSet \<Rightarrow>
          let ipSets = RuleSet_ExtractIPSet ruleSet;
              ruleSet = RuleSet_IncRef ruleSet;
              ruleSet = (if autoRedirect then RuleSet_RegisterCallback cb ruleSet else ruleSet)
          in take_sets autoRedirect cb tags (sets(tag \<mapsto> ruleSet)) (addressSet @ ipSets)
               (if autoRedirect then callbacks @ [cb] else callbacks))"

text \<open>The part of \<^verbatim>\<open>Start\<close> that deals with the rule sets; the interface is opened after it. The addresses are collected twice, once in a batch and
  once in the loop.\<close>

definition tun_Start :: "nat \<Rightarrow> TunInbound \<Rightarrow> 'h rule_sets \<Rightarrow> TunInbound \<times> 'h rule_sets" where
  "tun_Start cb t sets =
     (if tn_platformInterface t then (t, sets)
      else case take_sets (tn_autoRedirect t) cb (tn_routeRuleSet t) sets
                  (extract_sets sets (tn_routeRuleSet t)) (tn_routeRuleSetCallback t) of
        (sets, routeAddressSet, routeRuleSetCallback) \<Rightarrow>
          (case take_sets (tn_autoRedirect t) cb (tn_routeExcludeRuleSet t) sets
                  (extract_sets sets (tn_routeExcludeRuleSet t)) (tn_routeExcludeRuleSetCallback t) of
             (sets, routeExcludeAddressSet, routeExcludeRuleSetCallback) \<Rightarrow>
               (t\<lparr>tn_routeAddressSet := routeAddressSet, tn_routeRuleSetCallback := routeRuleSetCallback,
                  tn_routeExcludeAddressSet := routeExcludeAddressSet,
                  tn_routeExcludeRuleSetCallback := routeExcludeRuleSetCallback\<rparr>, sets)))"

text \<open>The inbound manager starts the inbounds one after the other, here those whose interfaces open; an error would end the start of the
  program. The first callback is \<open>cb\<close>.\<close>

fun tun_starts :: "nat \<Rightarrow> TunInbound list \<Rightarrow> 'h rule_sets \<Rightarrow> TunInbound list \<times> 'h rule_sets" where
  "tun_starts cb [] sets = ([], sets)"
| "tun_starts cb (t # ts) sets =
     (case tun_Start cb t sets of (t, sets) \<Rightarrow> (case tun_starts (Suc cb) ts sets of (ts, sets) \<Rightarrow> (t # ts, sets)))"

section \<open>Lemmas\<close>

lemma find_rule_sets_found:
  "find_rule_sets message r tags = Inr found \<Longrightarrow> found = tags \<and> (\<forall>t\<in>set tags. Router_RuleSet r t \<noteq> None)"
  by (induction tags arbitrary: found) (auto simp: res_bind_def split: option.splits sum.splits)

lemma tun_NewInbound_fields:
  assumes "tun_NewInbound platformInterface autoRedirect r options = Inr t"
  shows "tn_platformInterface t = platformInterface" "tn_routeRuleSet t = tio_RouteAddressSet options"
    "tn_routeExcludeRuleSet t = tio_RouteExcludeAddressSet options"
    "\<forall>tag\<in>set (tn_routeRuleSet t @ tn_routeExcludeRuleSet t). Router_RuleSet r tag \<noteq> None"
  using assms
  by (auto simp: tun_NewInbound_def res_bind_def Let_def dest!: find_rule_sets_found split: sum.splits if_splits)

end
