(* ===== verification/LifeProps.thy ===== *)
theory LifeProps
  imports TunRuleSets Samples SrsProps
begin

text \<open>
  Rule sets through the start of the router: rules of the DNS router, tun inbounds and rules of the router take their references, and what
  the last stage releases is exactly what nobody refers to.
\<close>

section \<open>References\<close>

fun item_tags :: "'h Item \<Rightarrow> string list" where
  "item_tags (PlainItem item) = []"
| "item_tags (RuleSetItem tagList setList src acc) = tagList"

fun rule_tags :: "'h Rule \<Rightarrow> string list" where
  "rule_tags (DefaultRule r) = concat (map item_tags (allItems r))"
| "rule_tags (LogicalRule rules mode neg act) = concat (map rule_tags rules)"

fun dns_rule_tags :: "'h DNSRule \<Rightarrow> string list" where
  "dns_rule_tags (DefaultDNSRule r) = concat (map item_tags (allItems r))"
| "dns_rule_tags (LogicalDNSRule rules mode neg act) = concat (map dns_rule_tags rules)"

definition takes_refs :: "string list \<Rightarrow> 'h rule_sets \<Rightarrow> 'h rule_sets \<Rightarrow> bool" where
  "takes_refs tags sets sets' \<longleftrightarrow>
     (\<forall>t\<in>set tags. sets t \<noteq> None) \<and>
     (\<forall>t. map_option RuleSet_refs (sets' t) = map_option (\<lambda>s. RuleSet_refs s + int (count_list tags t)) (sets t)) \<and>
     (\<forall>t. map_option RuleSet_rules (sets' t) = map_option RuleSet_rules (sets t))"

lemma takes_refs_Nil: "takes_refs [] sets sets"
  by (simp add: takes_refs_def)

lemma takes_refs_dom: "takes_refs tags sets sets' \<Longrightarrow> sets' t = None \<longleftrightarrow> sets t = None"
  by (metis takes_refs_def map_option_is_None)

lemma takes_refs_append:
  assumes "takes_refs xs sets sets1" "takes_refs ys sets1 sets2"
  shows "takes_refs (xs @ ys) sets sets2"
  unfolding takes_refs_def
proof (intro conjI allI ballI)
  show "sets t \<noteq> None" if "t \<in> set (xs @ ys)" for t
    using that assms takes_refs_dom [OF assms(1)] by (auto simp: takes_refs_def)
  show "map_option RuleSet_refs (sets2 t) = map_option (\<lambda>s. RuleSet_refs s + int (count_list (xs @ ys) t)) (sets t)" for t
  proof (cases "sets t")
    case None
    with takes_refs_dom assms show ?thesis by (metis map_option_is_None)
  next
    case (Some s)
    from assms(1) Some obtain s1 where s1: "sets1 t = Some s1" "RuleSet_refs s1 = RuleSet_refs s + int (count_list xs t)"
      unfolding takes_refs_def by (metis (no_types, lifting) map_option_eq_Some option.simps(9))
    from assms(2) s1(1) obtain s2 where s2: "sets2 t = Some s2" "RuleSet_refs s2 = RuleSet_refs s1 + int (count_list ys t)"
      unfolding takes_refs_def by (metis (no_types, lifting) map_option_eq_Some option.simps(9))
    from s1 s2 Some show ?thesis by simp
  qed
  show "map_option RuleSet_rules (sets2 t) = map_option RuleSet_rules (sets t)" for t
    using assms by (simp add: takes_refs_def)
qed

lemma Item_Start_refs: "Item_Start e item sets = (Inr item', sets') \<Longrightarrow> takes_refs (item_tags item) sets sets'"
proof (cases item)
  case (RuleSetItem tags setList src acc)
  assume "Item_Start e item sets = (Inr item', sets')"
  with RuleSetItem obtain setList' where "RuleSetItem_Start tags setList sets = (Inr setList', sets')"
    by (auto split: prod.splits sum.splits)
  from RuleSetItem_Start_spec [OF this] RuleSetItem show ?thesis by (simp add: takes_refs_def)
qed (auto simp: takes_refs_Nil split: sum.splits)

lemma start_items_refs:
  "start_items (Item_Start e) its sets = (Inr its', sets') \<Longrightarrow> takes_refs (concat (map item_tags its)) sets sets'"
proof (induction its arbitrary: sets its')
  case (Cons i its)
  then obtain i' sets1 its1 where "Item_Start e i sets = (Inr i', sets1)" "start_items (Item_Start e) its sets1 = (Inr its1, sets')"
    by (auto split: prod.splits sum.splits)
  with takes_refs_append [OF Item_Start_refs Cons.IH] show ?case by auto
qed (simp add: takes_refs_Nil)

lemma abstractDefaultRule_Start_refs:
  "abstractDefaultRule_Start (Item_Start e) r sets = (Inr r', sets') \<Longrightarrow> takes_refs (concat (map item_tags (allItems r))) sets sets'"
  by (auto simp: abstractDefaultRule_Start_def dest: start_items_refs split: prod.splits sum.splits)

lemma Rule_Start_refs:
  "Rule_Start e r sets = (Inr r', sets') \<Longrightarrow> takes_refs (rule_tags r) sets sets'"
  "Rules_Start e rs sets = (Inr rs', sets') \<Longrightarrow> takes_refs (concat (map rule_tags rs)) sets sets'"
proof (induction e r sets and e rs sets arbitrary: r' sets' and rs' sets' rule: Rule_Start_Rules_Start.induct)
  case (4 e r rs sets)
  then obtain r1 sets1 rs1 where r1: "Rule_Start e r sets = (Inr r1, sets1)" and rs1: "Rules_Start e rs sets1 = (Inr rs1, sets')"
    by (auto split: prod.splits sum.splits)
  from takes_refs_append [OF "4.IH"(1) [OF r1] "4.IH"(2) [OF r1 [symmetric] _ rs1]] show ?case by simp
qed (auto simp: takes_refs_Nil dest: abstractDefaultRule_Start_refs split: prod.splits sum.splits)

lemma DNSRule_Start_refs:
  "DNSRule_Start e r sets = (Inr r', sets') \<Longrightarrow> takes_refs (dns_rule_tags r) sets sets'"
  "DNSRules_Start e rs sets = (Inr rs', sets') \<Longrightarrow> takes_refs (concat (map dns_rule_tags rs)) sets sets'"
proof (induction e r sets and e rs sets arbitrary: r' sets' and rs' sets' rule: DNSRule_Start_DNSRules_Start.induct)
  case (4 e r rs sets)
  then obtain r1 sets1 rs1 where r1: "DNSRule_Start e r sets = (Inr r1, sets1)" and rs1: "DNSRules_Start e rs sets1 = (Inr rs1, sets')"
    by (auto split: prod.splits sum.splits)
  from takes_refs_append [OF "4.IH"(1) [OF r1] "4.IH"(2) [OF r1 [symmetric] _ rs1]] show ?case by simp
qed (auto simp: takes_refs_Nil dest: abstractDefaultRule_Start_refs split: prod.splits sum.splits)

lemma start_rules_refs:
  "start_rules e i rs sets = (Inr rs', sets') \<Longrightarrow> takes_refs (concat (map rule_tags rs)) sets sets'"
proof (induction rs arbitrary: i sets rs')
  case (Cons r rs)
  then obtain r1 sets1 rs1 where "Rule_Start e r sets = (Inr r1, sets1)" "start_rules e (Suc i) rs sets1 = (Inr rs1, sets')"
    by (auto split: prod.splits sum.splits)
  with takes_refs_append [OF Rule_Start_refs(1) Cons.IH] show ?case by auto
qed (simp add: takes_refs_Nil)

lemma start_dns_rules_refs:
  "start_dns_rules e i rs sets = (Inr rs', sets') \<Longrightarrow> takes_refs (concat (map dns_rule_tags rs)) sets sets'"
proof (induction rs arbitrary: i sets rs')
  case (Cons r rs)
  then obtain r1 sets1 rs1 where "DNSRule_Start e r sets = (Inr r1, sets1)" "start_dns_rules e (Suc i) rs sets1 = (Inr rs1, sets')"
    by (auto split: prod.splits sum.splits)
  with takes_refs_append [OF DNSRule_Start_refs(1) Cons.IH] show ?case by auto
qed (simp add: takes_refs_Nil)

lemma RuleSet_taken:
  "RuleSet_refs (RuleSet_IncRef s) = RuleSet_refs s + 1" "RuleSet_rules (RuleSet_IncRef s) = RuleSet_rules s"
  "RuleSet_refs (RuleSet_RegisterCallback cb s) = RuleSet_refs s" "RuleSet_rules (RuleSet_RegisterCallback cb s) = RuleSet_rules s"
  by (cases s; simp add: LocalRuleSet_IncRef_def RemoteRuleSet_IncRef_def LocalRuleSet_RegisterCallback_def RemoteRuleSet_RegisterCallback_def)+

lemma take_sets_refs:
  assumes "take_sets autoRedirect cb tags sets addressSet callbacks = (sets', addressSet', callbacks')" "\<forall>t\<in>set tags. sets t \<noteq> None"
  shows "takes_refs tags sets sets'"
  using assms
proof (induction tags arbitrary: sets addressSet callbacks)
  case (Cons tag tags)
  then obtain s where s: "sets tag = Some s" by auto
  define s1 where "s1 = (if autoRedirect then RuleSet_RegisterCallback cb (RuleSet_IncRef s) else RuleSet_IncRef s)"
  have "takes_refs [tag] sets (sets(tag \<mapsto> s1))"
    using s by (auto simp: takes_refs_def s1_def RuleSet_taken option.map_ident)
  moreover have "takes_refs tags (sets(tag \<mapsto> s1)) sets'"
  proof (rule Cons.IH)
    show "take_sets autoRedirect cb tags (sets(tag \<mapsto> s1)) (addressSet @ RuleSet_ExtractIPSet s)
        (if autoRedirect then callbacks @ [cb] else callbacks) = (sets', addressSet', callbacks')"
      using Cons.prems(1) s by (simp add: Let_def s1_def)
    show "\<forall>t\<in>set tags. (sets(tag \<mapsto> s1)) t \<noteq> None" using Cons.prems(2) by simp
  qed
  ultimately show ?case using takes_refs_append by fastforce
qed (simp add: takes_refs_Nil)

definition tun_tags :: "TunInbound \<Rightarrow> string list" where
  "tun_tags t = (if tn_platformInterface t then [] else tn_routeRuleSet t @ tn_routeExcludeRuleSet t)"

lemma tun_Start_refs:
  assumes "tun_Start cb t sets = (t', sets')" "\<forall>tag\<in>set (tun_tags t). sets tag \<noteq> None"
  shows "takes_refs (tun_tags t) sets sets'"
proof (cases "tn_platformInterface t")
  case False
  with assms obtain sets1 x y x' y' where
    1: "take_sets (tn_autoRedirect t) cb (tn_routeRuleSet t) sets (extract_sets sets (tn_routeRuleSet t)) (tn_routeRuleSetCallback t) = (sets1, x, y)" and
    2: "take_sets (tn_autoRedirect t) cb (tn_routeExcludeRuleSet t) sets1 (extract_sets sets1 (tn_routeExcludeRuleSet t))
          (tn_routeExcludeRuleSetCallback t) = (sets', x', y')"
    by (auto simp: tun_Start_def split: prod.splits)
  from False assms(2) have "takes_refs (tn_routeRuleSet t) sets sets1" by (intro take_sets_refs [OF 1]) (simp add: tun_tags_def)
  moreover from False assms(2) have "takes_refs (tn_routeExcludeRuleSet t) sets1 sets'"
    using takes_refs_dom [OF calculation] by (intro take_sets_refs [OF 2]) (simp add: tun_tags_def)
  ultimately show ?thesis using False by (simp add: tun_tags_def takes_refs_append)
qed (use assms in \<open>simp add: tun_Start_def tun_tags_def takes_refs_Nil\<close>)

lemma tun_starts_refs:
  assumes "tun_starts cb ts sets = (ts', sets')" "\<forall>tag\<in>set (concat (map tun_tags ts)). sets tag \<noteq> None"
  shows "takes_refs (concat (map tun_tags ts)) sets sets'"
  using assms
proof (induction ts arbitrary: cb sets ts')
  case (Cons t ts)
  obtain t1 sets1 where t1: "tun_Start cb t sets = (t1, sets1)" by fastforce
  with Cons.prems obtain ts1 where ts1: "tun_starts (Suc cb) ts sets1 = (ts1, sets')" by (auto split: prod.splits)
  from Cons.prems t1 have refs: "takes_refs (tun_tags t) sets sets1" by (intro tun_Start_refs) auto
  from Cons.IH [OF ts1] Cons.prems takes_refs_dom [OF refs] have "takes_refs (concat (map tun_tags ts)) sets1 sets'" by auto
  with refs show ?case by (simp add: takes_refs_append)
qed (simp add: takes_refs_Nil)

text \<open>The rule sets the options of the tun inbounds name.\<close>

definition inbound_tags :: "bool \<Rightarrow> (TunInboundOptions \<times> unit res) list \<Rightarrow> string list" where
  "inbound_tags platformInterface inbounds =
     (if platformInterface then []
      else concat (map (\<lambda>(options, autoRedirect). tio_RouteAddressSet options @ tio_RouteExcludeAddressSet options) inbounds))"

lemma tun_NewInbound_tags:
  assumes "tun_NewInbound platformInterface autoRedirect r options = Inr t"
  shows "tun_tags t = inbound_tags platformInterface [(options, autoRedirect)]" "\<forall>tag\<in>set (tun_tags t). lr_ruleSetMap r tag \<noteq> None"
  using tun_NewInbound_fields [OF assms] by (simp_all add: tun_tags_def inbound_tags_def Router_RuleSet_def)

lemma tun_NewInbounds_tags:
  assumes "list_all2 (\<lambda>(options, autoRedirect) t. tun_NewInbound platformInterface autoRedirect r options = Inr t) inbounds tuns"
  shows "concat (map tun_tags tuns) = inbound_tags platformInterface inbounds \<and>
    (\<forall>tag\<in>set (concat (map tun_tags tuns)). lr_ruleSetMap r tag \<noteq> None)"
  using assms
proof (induction rule: list_all2_induct)
  case (Cons i ins t ts)
  obtain options autoRedirect where i: "i = (options, autoRedirect)" by fastforce
  with Cons have "tun_NewInbound platformInterface autoRedirect r options = Inr t" by simp
  note tags = tun_NewInbound_tags [OF this]
  have "inbound_tags platformInterface (i # ins) = inbound_tags platformInterface [i] @ inbound_tags platformInterface ins"
    by (simp add: inbound_tags_def)
  with tags Cons.IH show ?case unfolding i by (auto simp del: set_concat)
qed (simp add: inbound_tags_def)

section \<open>Loading and releasing\<close>

lemma StartContext_refs:
  "RemoteRuleSet_StartContext d c nm json http outbound now cacheFile s = (err, s', cacheFile', cbs) \<Longrightarrow> rm_refs s' = rm_refs s"
  by (auto simp: RemoteRuleSet_StartContext_def RemoteRuleSet_fetch_def Let_def res_bind_def res_cause_def
      dest!: loadBytes_options split: if_splits option.splits sum.splits prod.splits)

lemma RuleSet_StartContext_refs:
  assumes "RuleSet_StartContext (remote_loader d c nm json http outbound now) s cache = (err, s', cache')"
  shows "RuleSet_refs s' = RuleSet_refs s"
  using assms by (cases s) (auto simp: remote_loader_def dest: StartContext_refs split: prod.splits)

lemma start_rule_sets_refs:
  assumes "start_rule_sets (remote_loader d c nm json http outbound now) i tags sets cache = (err, sets', cache')"
  shows "map_option RuleSet_refs (sets' t) = map_option RuleSet_refs (sets t)"
  using assms
proof (induction tags arbitrary: i sets cache)
  case (Cons tag tags)
  show ?case
  proof (cases "sets tag")
    case None
    with Cons show ?thesis by simp
  next
    case (Some s)
    obtain err1 s1 cache1 where ctx: "RuleSet_StartContext (remote_loader d c nm json http outbound now) s cache = (err1, s1, cache1)"
      by (metis prod_cases3)
    note refs = RuleSet_StartContext_refs [OF ctx]
    show ?thesis
    proof (cases err1)
      case None
      with Cons.prems Some ctx have "start_rule_sets (remote_loader d c nm json http outbound now) (Suc i) tags (sets(tag \<mapsto> s1)) cache1 = (err, sets', cache')"
        by simp
      from Cons.IH [OF this] refs Some show ?thesis by auto
    next
      case (Some e)
      with Cons.prems \<open>sets tag = Some s\<close> ctx refs show ?thesis by auto
    qed
  qed
qed simp

lemma each_set_apply:
  assumes "distinct tags"
  shows "each_set f tags sets t = (if t \<in> set tags then map_option f (sets t) else sets t)"
  using assms
proof (induction tags arbitrary: sets)
  case (Cons tag tags)
  let ?sets = "case sets tag of None \<Rightarrow> sets | Some s \<Rightarrow> sets(tag \<mapsto> f s)"
  have "each_set f (tag # tags) sets = each_set f tags ?sets" by (simp add: each_set_def)
  with Cons show ?case by (auto split: option.split)
qed (simp add: each_set_def)

lemma RuleSet_Cleanup_rules: "RuleSet_rules (RuleSet_Cleanup s) = (if RuleSet_refs s = 0 then [] else RuleSet_rules s)"
  by (cases s) (simp_all add: LocalRuleSet_Cleanup_def RemoteRuleSet_Cleanup_def)

section \<open>Building\<close>

text \<open>What \<^verbatim>\<open>Initialize\<close> leaves: the tags are different, the map has exactly them, and nobody refers to a rule set.\<close>

definition fresh_sets :: "'h RouteRouter \<Rightarrow> bool" where
  "fresh_sets r \<longleftrightarrow> distinct (lr_ruleSets r) \<and> dom (lr_ruleSetMap r) = set (lr_ruleSets r) \<and>
     (\<forall>t s. lr_ruleSetMap r t = Some s \<longrightarrow> RuleSet_refs s = 0)"

lemma init_rules_sets:
  "init_rules d dialer_New i rules r = (err, r') \<Longrightarrow> lr_ruleSets r' = lr_ruleSets r \<and> lr_ruleSetMap r' = lr_ruleSetMap r"
  by (induction rules arbitrary: i r) (auto split: sum.splits)

lemma init_rule_sets_fresh:
  assumes "init_rule_sets new i ruleSets r = (err, r')" "fresh_sets r" "\<And>options s. new options = Inr s \<Longrightarrow> RuleSet_refs s = 0"
  shows "fresh_sets r'"
  using assms(1,2)
proof (induction ruleSets arbitrary: i r)
  case (Cons options ruleSets)
  show ?case
  proof (cases "lr_ruleSetMap r (rso_Tag options)")
    case None
    show ?thesis
    proof (cases "new options")
      case (Inr s)
      let ?r = "r\<lparr>lr_ruleSets := lr_ruleSets r @ [rso_Tag options], lr_ruleSetMap := (lr_ruleSetMap r)(rso_Tag options \<mapsto> s)\<rparr>"
      have "rso_Tag options \<notin> set (lr_ruleSets r)" using None Cons.prems(2) by (metis fresh_sets_def domIff)
      then have "fresh_sets ?r" using Cons.prems(2) assms(3) [OF Inr] by (auto simp: fresh_sets_def)
      moreover have "init_rule_sets new (Suc i) ruleSets ?r = (err, r')" using Cons.prems(1) None Inr by simp
      ultimately show ?thesis using Cons.IH by blast
    qed (use Cons.prems None in auto)
  qed (use Cons.prems in auto)
qed simp

lemma NewRuleSet_refs: "NewRuleSet d c nm json readFile absPath newWatcher options = Inr s \<Longrightarrow> RuleSet_refs s = 0"
  by (auto simp: NewRuleSet_def NewLocalRuleSet_def NewRemoteRuleSet_def LocalRuleSet_reloadFile_def LocalRuleSet_reloadRules_def
      res_bind_Inr_iff Let_def split: if_splits)

lemma Router_Initialize_fresh:
  assumes "Router_Initialize d dialer_New (NewRuleSet d c nm json readFile absPath newWatcher) rules ruleSets
    (NewRouter rules dnsRules findProcess platformInterface) = (None, r)"
  shows "fresh_sets r"
proof -
  let ?r = "NewRouter rules dnsRules findProcess platformInterface"
  obtain r1 where r1: "init_rules d dialer_New 0 rules ?r = (None, r1)"
    "init_rule_sets (NewRuleSet d c nm json readFile absPath newWatcher) 0 ruleSets r1 = (None, r)"
    using assms by (auto simp: Router_Initialize_def split: prod.splits option.splits)
  from init_rules_sets [OF r1(1)] have "fresh_sets r1" by (simp add: fresh_sets_def NewRouter_def)
  from init_rule_sets_fresh [OF r1(2) this] NewRuleSet_refs show ?thesis by blast
qed

section \<open>The whole start\<close>

lemma release_unreferenced:
  assumes "fresh_sets r" "takes_refs xs (lr_ruleSetMap r) sets"
    and "\<And>t. map_option RuleSet_refs (sets1 t) = map_option RuleSet_refs (sets t)" "takes_refs ys sets1 sets2"
  shows "(t \<in> set (xs @ ys) \<longrightarrow> each_set RuleSet_Cleanup (lr_ruleSets r) sets2 t \<noteq> None) \<and>
    map_option RuleSet_rules (each_set RuleSet_Cleanup (lr_ruleSets r) sets2 t) =
      (if t \<in> set (xs @ ys) then map_option RuleSet_rules (sets1 t) else map_option (\<lambda>s. []) (sets1 t))"
proof -
  have dom1: "sets1 t = None \<longleftrightarrow> lr_ruleSetMap r t = None"
    using assms(3) [of t] takes_refs_dom [OF assms(2), of t] by (metis map_option_is_None)
  have each: "each_set RuleSet_Cleanup (lr_ruleSets r) sets2 t =
      (if t \<in> set (lr_ruleSets r) then map_option RuleSet_Cleanup (sets2 t) else sets2 t)"
    using each_set_apply assms(1) by (metis fresh_sets_def)
  show ?thesis
  proof (cases "lr_ruleSetMap r t")
    case None
    then have "t \<notin> set xs" using assms(2) by (auto simp: takes_refs_def)
    moreover have "t \<notin> set ys" using assms(4) dom1 None by (auto simp: takes_refs_def)
    moreover have "sets2 t = None" using takes_refs_dom [OF assms(4), of t] dom1 None by simp
    ultimately show ?thesis using each dom1 None by simp
  next
    case (Some s0)
    then have t: "t \<in> set (lr_ruleSets r)" "RuleSet_refs s0 = 0" using assms(1) by (auto simp: fresh_sets_def)
    obtain s1 where s1: "sets1 t = Some s1" using dom1 Some by auto
    have "map_option RuleSet_refs (sets1 t) = Some (int (count_list xs t))"
      using assms(2,3) Some t(2) by (simp add: takes_refs_def)
    with s1 have refs: "RuleSet_refs s1 = int (count_list xs t)" by simp
    have "map_option RuleSet_refs (sets2 t) = Some (RuleSet_refs s1 + int (count_list ys t))"
      "map_option RuleSet_rules (sets2 t) = Some (RuleSet_rules s1)" using assms(4) s1 by (simp_all add: takes_refs_def)
    then obtain s2 where s2: "sets2 t = Some s2" "RuleSet_refs s2 = int (count_list (xs @ ys) t)" "RuleSet_rules s2 = RuleSet_rules s1"
      using refs by auto
    have "RuleSet_refs s2 = 0 \<longleftrightarrow> t \<notin> set (xs @ ys)" unfolding s2(2) using count_list_0_iff [of "xs @ ys" t] by linarith
    with each t(1) s1 s2(1,3) show ?thesis by (simp add: RuleSet_Cleanup_rules)
  qed
qed

text \<open>C22. Through the whole start, from the configuration to the last stage, in the order of \<^verbatim>\<open>box.go\<close>: the DNS rules start, the rule sets
  are loaded, the tun inbounds start, the route rules start, and the last stage follows, with no rule set reloaded in between. Every tag
  that a route rule, a DNS rule or a tun inbound (unless a platform runs the interface) refers to is a rule set, the rule sets referred
  to keep the rules that were loaded, and all the others are released.\<close>

theorem start_keeps_referenced:
  assumes "Router_Initialize d dialer_New (NewRuleSet d c nm json readFile absPath newWatcher) rules ruleSets
      (NewRouter rules dnsOptions findProcess platformInterface) = (None, r)"
    and "load = remote_loader d c nm json http outbound now"
    and "list_all2 (\<lambda>(options, autoRedirect) t. tun_NewInbound platformInterface autoRedirect r options = Inr t) inbounds tuns"
    and "start_dns_rules e 0 dnsRules (lr_ruleSetMap r) = (Inr dnsRules', sets)"
    and "Router_Start load searcher e StartStateStart cache (r\<lparr>lr_ruleSetMap := sets\<rparr>) = (None, r1, cache1)"
    and "tun_starts cb tuns (lr_ruleSetMap r1) = (tuns', sets')"
    and "Router_Start load searcher e StartStatePostStart cache1 (r1\<lparr>lr_ruleSetMap := sets'\<rparr>) = (None, r2, cache2)"
    and "Router_Start load searcher e StartStateStarted cache2 r2 = (None, r3, cache3)"
    and "tags = concat (map dns_rule_tags dnsRules) @ inbound_tags platformInterface inbounds @ concat (map rule_tags (lr_rules r))"
  shows "(\<forall>t\<in>set tags. Router_RuleSet r3 t \<noteq> None) \<and>
    (\<forall>t. map_option RuleSet_rules (Router_RuleSet r3 t) =
       (if t \<in> set tags then map_option RuleSet_rules (Router_RuleSet r1 t) else map_option (\<lambda>s. []) (Router_RuleSet r1 t)))"
proof -
  note dns = start_dns_rules_refs [OF assms(4)]
  obtain sets1 where sets1: "start_rule_sets load 0 (lr_ruleSets r) sets cache = (None, sets1, cache1)"
    and r1: "lr_ruleSetMap r1 = sets1" "lr_rules r1 = lr_rules r" "lr_ruleSets r1 = lr_ruleSets r"
    using assms(5) by (auto simp: Router_Start_def Router_StartState_def Let_def split: prod.splits option.splits if_splits)
  note refs1 = start_rule_sets_refs [OF sets1 [unfolded assms(2)]]
  have known: "sets1 t = None \<longleftrightarrow> lr_ruleSetMap r t = None" for t
    using refs1 [of t] takes_refs_dom [OF dns, of t] by (metis map_option_is_None)
  have tun: "takes_refs (inbound_tags platformInterface inbounds) sets1 sets'"
    using tun_starts_refs [OF assms(6)] tun_NewInbounds_tags [OF assms(3)] known r1(1) by simp
  obtain rules2 sets2 where sets2: "start_rules e 0 (lr_rules r) sets' = (Inr rules2, sets2)"
    and r2: "lr_ruleSetMap r2 = sets2" "lr_ruleSets r2 = lr_ruleSets r"
    using assms(7) r1 by (auto simp: Router_Start_def Router_PostStart_def split: prod.splits sum.splits)
  note route = takes_refs_append [OF tun start_rules_refs [OF sets2]]
  have "Router_RuleSet r3 t = each_set RuleSet_Cleanup (lr_ruleSets r) sets2 t" for t
    using assms(8) r2 by (auto simp: Router_Start_def Router_Started_def Router_RuleSet_def)
  with release_unreferenced [OF Router_Initialize_fresh [OF assms(1)] dns refs1 route] show ?thesis
    unfolding assms(9) [symmetric] Router_RuleSet_def r1(1) by auto
qed

definition sample_set_options :: "string \<Rightarrow> string list RuleSetOptions" where
  "sample_set_options tag =
     \<lparr>rso_Type = ''inline'', rso_Tag = tag, rso_Format = [],
      rso_InlineRules = [HeadlessRuleOptions ''default'' (DefaultHeadlessRuleOptions_zero\<lparr>hr_Network := [''tcp'']\<rparr>) [] [] False],
      rso_LocalPath = [], rso_URL = [], rso_DownloadDetour = [], rso_UpdateInterval = 0\<rparr>"

definition sample_set_rule :: RuleOptions where
  "sample_set_rule =
     RuleOptions ''default'' (RawDefaultRule_zero\<lparr>dr_RuleSet := [''a'']\<rparr>) (RuleActionOptions_zero\<lparr>rua_Action := RuleActionTypeHijackDNS\<rparr>)
       [] [] False RuleActionOptions_zero"

definition sample_life :: "goerr option \<times> string list RouteRouter" where
  "sample_life =
     Router_Initialize sample_deps (\<lambda>opts. Inl EInvalid)
       (NewRuleSet sample_deps sample_codec False (\<lambda>bs. Inl EInvalid) (\<lambda>path. Inl EInvalid) id (\<lambda>path. Inl EInvalid))
       [sample_set_rule] [sample_set_options ''a'', sample_set_options ''b'', sample_set_options ''c''] (NewRouter [sample_set_rule] [] False False)"

definition sample_loader :: "(string list, CacheFile option) loader" where
  "sample_loader = remote_loader sample_deps sample_codec False (\<lambda>bs. Inl EInvalid) (\<lambda>opts etag. Inl EInvalid) (\<lambda>tag. True) 0"

definition sample_stage :: "StartStage \<Rightarrow> string list RouteRouter \<Rightarrow> goerr option \<times> string list RouteRouter \<times> CacheFile option" where
  "sample_stage stage r = Router_Start sample_loader True sample_env stage None r"

definition sample_tun_options :: TunInboundOptions where
  "sample_tun_options = \<lparr>tio_AutoRoute = True, tio_AutoRedirect = True, tio_RouteAddressSet = [''c''], tio_RouteExcludeAddressSet = []\<rparr>"

definition sample_tun :: TunInbound where
  "sample_tun = \<lparr>tn_platformInterface = False, tn_autoRedirect = True, tn_routeRuleSet = [''c''], tn_routeRuleSetCallback = [],
     tn_routeExcludeRuleSet = [], tn_routeExcludeRuleSetCallback = [], tn_routeAddressSet = [], tn_routeExcludeAddressSet = []\<rparr>"

definition sample_tun_start :: "string list RouteRouter \<Rightarrow> string list RouteRouter" where
  "sample_tun_start r = r\<lparr>lr_ruleSetMap := snd (tun_starts 0 [sample_tun] (lr_ruleSetMap r))\<rparr>"

text \<open>A rule refers to the rule set \<open>a\<close> and a tun inbound to \<open>c\<close>.\<close>

theorem start_keeps_referenced_witness:
  "let r1 = fst (snd (sample_stage StartStateStart (snd sample_life)));
       r2 = fst (snd (sample_stage StartStatePostStart (sample_tun_start r1)));
       r3 = fst (snd (sample_stage StartStateStarted r2))
   in map_option RuleSet_rules (Router_RuleSet r3 ''a'') = map_option RuleSet_rules (Router_RuleSet r1 ''a'') \<and>
      map_option RuleSet_rules (Router_RuleSet r3 ''c'') = map_option RuleSet_rules (Router_RuleSet r1 ''c'') \<and>
      map_option RuleSet_rules (Router_RuleSet r3 ''b'') = Some [] \<and>
      map_option (\<lambda>s. RuleSet_rules s = []) (Router_RuleSet r1 ''a'') = Some False \<and>
      map_option (\<lambda>s. RuleSet_rules s = []) (Router_RuleSet r1 ''c'') = Some False"
proof -
  let ?r = "snd sample_life"
  let ?s1 = "sample_stage StartStateStart ?r" let ?r1 = "fst (snd ?s1)"
  let ?s2 = "sample_stage StartStatePostStart (sample_tun_start ?r1)" let ?r2 = "fst (snd ?s2)"
  let ?s3 = "sample_stage StartStateStarted ?r2" let ?r3 = "fst (snd ?s3)"
  have ok: "fst sample_life = None" "fst ?s1 = None" "fst ?s2 = None" "fst ?s3 = None" "snd (snd ?s1) = None" "snd (snd ?s2) = None"
    "concat (map rule_tags (lr_rules ?r)) = [''a'']" "map_option (\<lambda>s. RuleSet_rules s = []) (Router_RuleSet ?r1 ''a'') = Some False"
    "map_option (\<lambda>s. RuleSet_rules s = []) (Router_RuleSet ?r1 ''c'') = Some False"
    "map_option (\<lambda>s. ()) (Router_RuleSet ?r1 ''b'') = Some ()" by code_simp+
  have "map_option (\<lambda>s. ()) (Router_RuleSet ?r ''c'') = Some ()" by code_simp
  then have t: "list_all2 (\<lambda>(options, autoRedirect) t. tun_NewInbound False autoRedirect ?r options = Inr t) [(sample_tun_options, Inr ())] [sample_tun]"
    by (auto simp: tun_NewInbound_def sample_tun_options_def sample_tun_def res_bind_def)
  have i: "Router_Initialize sample_deps (\<lambda>opts. Inl EInvalid)
       (NewRuleSet sample_deps sample_codec False (\<lambda>bs. Inl EInvalid) (\<lambda>path. Inl EInvalid) id (\<lambda>path. Inl EInvalid))
       [sample_set_rule] [sample_set_options ''a'', sample_set_options ''b'', sample_set_options ''c'']
       (NewRouter [sample_set_rule] [] False False) = (None, ?r)"
    using ok(1) unfolding sample_life_def [symmetric] by (metis prod.collapse)
  have d: "start_dns_rules sample_env 0 [] (lr_ruleSetMap ?r) = (Inr [], lr_ruleSetMap ?r)" by simp
  have s1: "Router_Start sample_loader True sample_env StartStateStart None (?r\<lparr>lr_ruleSetMap := lr_ruleSetMap ?r\<rparr>) = (None, ?r1, None)"
    using ok(2,5) by (simp add: sample_stage_def prod_eq_iff)
  have s2: "Router_Start sample_loader True sample_env StartStatePostStart None
      (?r1\<lparr>lr_ruleSetMap := snd (tun_starts 0 [sample_tun] (lr_ruleSetMap ?r1))\<rparr>) = (None, ?r2, None)"
    using ok(3,6) unfolding sample_stage_def sample_tun_start_def by (simp add: prod_eq_iff)
  have s3: "Router_Start sample_loader True sample_env StartStateStarted None ?r2 = (None, ?r3, snd (snd ?s3))"
    using ok(4) by (simp add: sample_stage_def prod_eq_iff)
  have tags: "[''c'', ''a''] =
      concat (map dns_rule_tags []) @ inbound_tags False [(sample_tun_options, Inr ())] @ concat (map rule_tags (lr_rules ?r))"
    using ok(7) by (simp add: inbound_tags_def sample_tun_options_def)
  from start_keeps_referenced [OF i sample_loader_def t d s1 prod.collapse [symmetric] s2 s3 tags]
  have "map_option RuleSet_rules (Router_RuleSet ?r3 ''a'') = map_option RuleSet_rules (Router_RuleSet ?r1 ''a'')"
    "map_option RuleSet_rules (Router_RuleSet ?r3 ''c'') = map_option RuleSet_rules (Router_RuleSet ?r1 ''c'')"
    "map_option RuleSet_rules (Router_RuleSet ?r3 ''b'') = map_option (\<lambda>s. []) (Router_RuleSet ?r1 ''b'')" by simp_all
  with ok(8,9,10) show ?thesis by (cases "Router_RuleSet ?r1 ''b''") (simp_all add: Let_def)
qed

end
