(* ===== verification/AdGuard.thy ===== *)
theory AdGuard
  imports HeadlessRules Srs
begin

text \<open>
  The converter between AdGuard filter lists and headless rules (\<^verbatim>\<open>common/convertor/adguard/convertor.go\<close>). A list is the lines that the
  scanner would give if none were too long. The functions of other modules are the fields of \<open>adguard_deps\<close>. Log messages are left out, and
  with them the count of ignored lines.
\<close>

section \<open>Lines\<close>

record adguard_deps =
  ag_IsDomainName :: "string \<Rightarrow> bool"
  ag_netip_ParseAddr :: "string \<Rightarrow> Addr res"
  ag_M_ParseAddr :: "string \<Rightarrow> Addr"
  ag_SubstringBefore :: "string \<Rightarrow> string \<Rightarrow> string"
  ag_SubstringAfter :: "string \<Rightarrow> string \<Rightarrow> string"

record agdguardRuleLine =
  al_ruleLine :: string
  al_isRawDomain :: bool
  al_isExclude :: bool
  al_isSuffix :: bool
  al_hasStart :: bool
  al_hasEnd :: bool
  al_isRegexp :: bool
  al_isImportant :: bool

definition Addr_IsUnspecified :: "Addr \<Rightarrow> bool" where
  "Addr_IsUnspecified a \<longleftrightarrow> a = Addr4 0 \<or> a = Addr6 0 []"

definition ignoreIPCIDRRegexp :: "adguard_deps \<Rightarrow> string \<Rightarrow> bool" where
  "ignoreIPCIDRRegexp d ruleLine =
     (let slashes = [CHR 0x5C, CHR ''/'', CHR 0x5C, CHR ''/'', CHR '')''];
          ruleLine =
            (if has_prefix ruleLine (''(http?:'' @ slashes) then drop 12 ruleLine
             else if has_prefix ruleLine (''(https?:'' @ slashes) then drop 13 ruleLine
             else if has_prefix ruleLine ''^'' then drop 1 ruleLine
             else ruleLine);
          is_byte = (\<lambda>s. case ParseUint10 8 s of Inl err \<Rightarrow> False | Inr n \<Rightarrow> True)
      in is_byte (ag_SubstringBefore d ruleLine [CHR 0x5C, CHR ''.'']) \<or> is_byte (ag_SubstringBefore d ruleLine ''.''))"

definition parseAdGuardHostLine :: "adguard_deps \<Rightarrow> string \<Rightarrow> string res" where
  "parseAdGuardHostLine d ruleLine =
     (case index_of CHR '' '' ruleLine of
        None \<Rightarrow> Inl EInvalid
      | Some idx \<Rightarrow>
          (case ag_netip_ParseAddr d (take idx ruleLine) of
             Inl err \<Rightarrow> Inl err
           | Inr address \<Rightarrow>
               if \<not> Addr_IsUnspecified address then Inr []
               else let domain = drop (idx + 1) ruleLine
                    in if \<not> ag_IsDomainName d domain then Inl (ENew [ArgS ''invalid domain name: '', ArgS domain])
                       else Inr domain))"

text \<open>The next function tells IP prefixes from other names that are no domains; the code ignores the line in both cases and only the log
  message differs, so \<open>adguard_domain\<close> below does not call it.\<close>

definition parseADGuardIPCIDRLine :: "string \<Rightarrow> Prefix res" where
  "parseADGuardIPCIDRLine ruleLine =
     (let isPrefix = has_suffix ruleLine ''.'';
          ruleLine = (if isPrefix then butlast ruleLine else ruleLine);
          ruleStringParts = strings_Split CHR ''.'' ruleLine
      in if length ruleStringParts > 4 \<or> length ruleStringParts < 4 \<and> \<not> isPrefix then Inl EInvalid
         else case map_res (\<lambda>part. case ParseUint10 8 part of Inl err \<Rightarrow> Inl (ENum err) | Inr n \<Rightarrow> Inr (of_nat n :: u8)) ruleStringParts of
           Inl err \<Rightarrow> Inl err
         | Inr ruleParts \<Rightarrow>
             Inr \<lparr>pfx_Addr = Addr4 (get_be 0 (ruleParts @ replicate (4 - length ruleParts) 0)), pfx_Bits = int (length ruleParts) * 8\<rparr>)"

text \<open>The modifiers behind \<^verbatim>\<open>$\<close>: whether the rule is important, or \<open>None\<close> if one of them is not supported.\<close>

fun parse_modifiers :: "adguard_deps \<Rightarrow> string list \<Rightarrow> bool \<Rightarrow> bool option" where
  "parse_modifiers d [] isImportant = Some isImportant"
| "parse_modifiers d (param # params) isImportant =
     (let paramParts = strings_Split CHR ''='' param; name = hd paramParts; two = length paramParts \<le> 2
      in if two \<and> name = ''important'' then parse_modifiers d params True
         else if two \<and> name = ''dnsrewrite'' \<and> length paramParts = 2 \<and> Addr_IsUnspecified (ag_M_ParseAddr d (paramParts ! 1))
         then parse_modifiers d params isImportant
         else None)"

definition adguard_modifiers :: "adguard_deps \<Rightarrow> string \<Rightarrow> (bool \<times> string) option" where
  "adguard_modifiers d ruleLine =
     (if \<not> has_prefix ruleLine ''/'' \<and> strings_Contains ruleLine ''$''
      then map_option (\<lambda>isImportant. (isImportant, ag_SubstringBefore d ruleLine ''$''))
             (parse_modifiers d (strings_Split CHR '','' (ag_SubstringAfter d ruleLine ''$'')) False)
      else Some (False, ruleLine))"

text \<open>A pattern that is no regular expression: the domain and whether it is a suffix, or \<open>None\<close> if it is not supported.\<close>

definition adguard_domain :: "adguard_deps \<Rightarrow> string \<Rightarrow> bool \<Rightarrow> (string \<times> bool) option" where
  "adguard_domain d ruleLine isSuffix =
     (let scheme = strings_Contains ruleLine ''://'';
          ruleLine = (if scheme then ag_SubstringAfter d ruleLine ''://'' else ruleLine)
      in if list_ex (\<lambda>c. c \<in> set ruleLine) ''/?&[]()!#~'' then None
         else let domainCheck = (if has_prefix ruleLine ''.'' \<or> has_prefix ruleLine ''-'' then CHR ''r'' # ruleLine else ruleLine)
              in if ruleLine = [] then None
                 else if \<not> ag_IsDomainName d (map (\<lambda>c. if c = CHR ''*'' then CHR ''x'' else c) domainCheck) then None
                 else Some (ruleLine, isSuffix \<or> scheme))"

datatype line_result = LineSkipped | LineIgnored | LinePanics | LineRule agdguardRuleLine

definition trim_bar :: "string \<Rightarrow> string" where
  "trim_bar s = (if has_suffix s ''|'' then butlast s else s)"

text \<open>The pattern without its modifiers. A slice of a single slash panics.\<close>

definition adguard_pattern :: "adguard_deps \<Rightarrow> bool \<Rightarrow> string \<Rightarrow> line_result" where
  "adguard_pattern d isImportant ruleLine =
     (let isExclude = has_prefix ruleLine ''@@'';
          ruleLine = (if isExclude then drop 2 ruleLine else ruleLine);
          ruleLine = trim_bar ruleLine;
          isSuffix = has_prefix ruleLine ''||'';
          hasStart = (\<not> isSuffix \<and> has_prefix ruleLine ''|'');
          ruleLine = (if isSuffix then drop 2 ruleLine else if hasStart then drop 1 ruleLine else ruleLine);
          hasEnd = has_suffix ruleLine ''^'';
          ruleLine = (if hasEnd then butlast ruleLine else ruleLine)
      in if has_prefix ruleLine ''/'' \<and> has_suffix ruleLine ''/'' then
           (if length ruleLine < 2 then LinePanics
            else let ruleLine = butlast (drop 1 ruleLine)
                 in if ignoreIPCIDRRegexp d ruleLine then LineIgnored
                    else LineRule \<lparr>al_ruleLine = ruleLine, al_isRawDomain = False, al_isExclude = isExclude, al_isSuffix = isSuffix,
                      al_hasStart = hasStart, al_hasEnd = hasEnd, al_isRegexp = True, al_isImportant = isImportant\<rparr>)
         else case adguard_domain d ruleLine isSuffix of
           None \<Rightarrow> LineIgnored
         | Some (ruleLine, isSuffix) \<Rightarrow>
             LineRule \<lparr>al_ruleLine = ruleLine, al_isRawDomain = False, al_isExclude = isExclude, al_isSuffix = isSuffix,
               al_hasStart = hasStart, al_hasEnd = hasEnd, al_isRegexp = False, al_isImportant = isImportant\<rparr>)"

definition raw_line :: "string \<Rightarrow> bool \<Rightarrow> agdguardRuleLine" where
  "raw_line ruleLine host =
     \<lparr>al_ruleLine = ruleLine, al_isRawDomain = True, al_isExclude = False, al_isSuffix = False, al_hasStart = host, al_hasEnd = host,
      al_isRegexp = False, al_isImportant = False\<rparr>"

definition adguard_line :: "adguard_deps \<Rightarrow> string \<Rightarrow> line_result" where
  "adguard_line d ruleLine =
     (if ruleLine = [] then LineSkipped
      else if has_prefix ruleLine ''!'' \<or> has_prefix ruleLine ''#'' then LineSkipped
      else if ag_IsDomainName d ruleLine then LineRule (raw_line ruleLine False)
      else case parseAdGuardHostLine d ruleLine of
        Inr hostLine \<Rightarrow> if hostLine \<noteq> [] then LineRule (raw_line hostLine True) else LineSkipped
      | Inl err \<Rightarrow>
          (case adguard_modifiers d (trim_bar ruleLine) of
             None \<Rightarrow> LineIgnored
           | Some (isImportant, ruleLine) \<Rightarrow> adguard_pattern d isImportant ruleLine))"

text \<open>The scanner stops silently at a line that does not fit into its buffer.\<close>

definition scanner_lines :: "string list \<Rightarrow> string list" where
  "scanner_lines lines = takeWhile (\<lambda>l. length l < 65536) lines"

fun adguard_lines :: "adguard_deps \<Rightarrow> string list \<Rightarrow> agdguardRuleLine list res" where
  "adguard_lines d [] = Inr []"
| "adguard_lines d (l # ls) =
     (case adguard_line d l of
        LinePanics \<Rightarrow> Inl (GoPanic [ArgS ''slice bounds out of range''])
      | LineRule r \<Rightarrow> (case adguard_lines d ls of Inl err \<Rightarrow> Inl err | Inr rs \<Rightarrow> Inr (r # rs))
      | _ \<Rightarrow> adguard_lines d ls)"

section \<open>Rules\<close>

definition mapDomain :: "agdguardRuleLine \<Rightarrow> string" where
  "mapDomain it =
     (let ruleLine = al_ruleLine it;
          ruleLine = (if al_isSuffix it then ''||'' @ ruleLine else if al_hasStart it then ''|'' @ ruleLine else ruleLine)
      in if al_hasEnd it then ruleLine @ ''^'' else ruleLine)"

record adguard_groups =
  gr_importantDomain :: "string list"
  gr_importantDomainRegex :: "string list"
  gr_importantExcludeDomain :: "string list"
  gr_importantExcludeDomainRegex :: "string list"
  gr_domain :: "string list"
  gr_domainRegex :: "string list"
  gr_excludeDomain :: "string list"
  gr_excludeDomainRegex :: "string list"

definition line_group :: "bool \<Rightarrow> bool \<Rightarrow> bool \<Rightarrow> agdguardRuleLine list \<Rightarrow> string list" where
  "line_group isImportant isRegexp isExclude ruleLines =
     map mapDomain (filter (\<lambda>it. al_isImportant it = isImportant \<and> al_isRegexp it = isRegexp \<and> al_isExclude it = isExclude) ruleLines)"

definition adguard_groups :: "agdguardRuleLine list \<Rightarrow> adguard_groups" where
  "adguard_groups ruleLines =
     \<lparr>gr_importantDomain = line_group True False False ruleLines, gr_importantDomainRegex = line_group True True False ruleLines,
      gr_importantExcludeDomain = line_group True False True ruleLines, gr_importantExcludeDomainRegex = line_group True True True ruleLines,
      gr_domain = line_group False False False ruleLines, gr_domainRegex = line_group False True False ruleLines,
      gr_excludeDomain = line_group False False True ruleLines, gr_excludeDomainRegex = line_group False True True ruleLines\<rparr>"

definition default_rule :: "string list \<Rightarrow> string list \<Rightarrow> bool \<Rightarrow> 'h HeadlessRuleOptions" where
  "default_rule domains regexes neg =
     HeadlessRuleOptions RuleTypeDefault
       (DefaultHeadlessRuleOptions_zero\<lparr>hr_AdGuardDomain := domains, hr_DomainRegex := regexes, hr_Invert := neg\<rparr>) [] [] False"

definition logical_rule :: "string \<Rightarrow> 'h HeadlessRuleOptions list \<Rightarrow> 'h HeadlessRuleOptions" where
  "logical_rule mode rules = HeadlessRuleOptions RuleTypeLogical DefaultHeadlessRuleOptions_zero mode rules False"

definition adguard_rule :: "adguard_groups \<Rightarrow> 'h HeadlessRuleOptions" where
  "adguard_rule g =
     (let currentRule = default_rule (gr_domain g) (gr_domainRegex g) False;
          currentRule =
            (if gr_excludeDomain g \<noteq> [] \<or> gr_excludeDomainRegex g \<noteq> []
             then logical_rule LogicalTypeAnd [default_rule (gr_excludeDomain g) (gr_excludeDomainRegex g) True, currentRule]
             else currentRule);
          currentRule =
            (if gr_importantDomain g \<noteq> [] \<or> gr_importantDomainRegex g \<noteq> []
             then logical_rule LogicalTypeOr [default_rule (gr_importantDomain g) (gr_importantDomainRegex g) False, currentRule]
             else currentRule)
      in if gr_importantExcludeDomain g \<noteq> [] \<or> gr_importantExcludeDomainRegex g \<noteq> []
         then logical_rule LogicalTypeAnd [default_rule (gr_importantExcludeDomain g) (gr_importantExcludeDomainRegex g) True, currentRule]
         else currentRule)"

definition ToOptions :: "adguard_deps \<Rightarrow> string list \<Rightarrow> 'h HeadlessRuleOptions list res" where
  "ToOptions d lines =
     (case adguard_lines d (scanner_lines lines) of
        Inl err \<Rightarrow> Inl err
      | Inr ruleLines \<Rightarrow>
          if length ruleLines = 0 then Inl (ENew [ArgS ''AdGuard rule-set is empty or all rules are unsupported''])
          else if list_all al_isRawDomain ruleLines
          then Inr [HeadlessRuleOptions RuleTypeDefault (DefaultHeadlessRuleOptions_zero\<lparr>hr_Domain := map al_ruleLine ruleLines\<rparr>) [] [] False]
          else Inr [adguard_rule (adguard_groups ruleLines)])"

section \<open>Back to text\<close>

definition AdGuard_ErrInvalid :: goerr where
  "AdGuard_ErrInvalid = ENew [ArgS ''invalid binary AdGuard rule-set'']"

definition no_groups :: adguard_groups where
  "no_groups = \<lparr>gr_importantDomain = [], gr_importantDomainRegex = [], gr_importantExcludeDomain = [], gr_importantExcludeDomainRegex = [],
     gr_domain = [], gr_domainRegex = [], gr_excludeDomain = [], gr_excludeDomainRegex = []\<rparr>"

text \<open>The loop that takes a rule apart; it does not end for a rule of another type.\<close>

partial_function (option) parse_rule :: "'h HeadlessRuleOptions \<Rightarrow> adguard_groups \<Rightarrow> adguard_groups res option" where
  "parse_rule rule g =
     (if hro_Type rule = RuleTypeLogical then
        (let rules = hro_Rules rule; first = hro_DefaultOptions (rules ! 0); domains = hr_AdGuardDomain first; regexes = hr_DomainRegex first
         in if \<not> (length rules = 2 \<and> hro_Type (rules ! 0) = RuleTypeDefault) then Some (Inl AdGuard_ErrInvalid)
            else if hro_Mode rule = LogicalTypeAnd \<and> hr_Invert first then
              (if length domains + length regexes = 0 then Some (Inl AdGuard_ErrInvalid)
               else if gr_importantExcludeDomain g = [] \<and> gr_importantExcludeDomainRegex g = []
               then parse_rule (rules ! 1) (g\<lparr>gr_importantExcludeDomain := domains, gr_importantExcludeDomainRegex := regexes\<rparr>)
               else parse_rule (rules ! 1) (g\<lparr>gr_excludeDomain := domains, gr_excludeDomainRegex := regexes\<rparr>))
            else if hro_Mode rule = LogicalTypeOr \<and> \<not> hr_Invert first then
              (if length domains + length regexes = 0 then Some (Inl AdGuard_ErrInvalid)
               else parse_rule (rules ! 1) (g\<lparr>gr_importantDomain := domains, gr_importantDomainRegex := regexes\<rparr>))
            else Some (Inl AdGuard_ErrInvalid))
      else if hro_Type rule = RuleTypeDefault then
        (let domains = hr_AdGuardDomain (hro_DefaultOptions rule); regexes = hr_DomainRegex (hro_DefaultOptions rule)
         in Some (if length domains + length regexes = 0 then Inl AdGuard_ErrInvalid
                  else Inr (g\<lparr>gr_domain := domains, gr_domainRegex := regexes\<rparr>)))
      else parse_rule rule g)"

declare parse_rule.simps [code]

definition adguard_text :: "adguard_groups \<Rightarrow> string list" where
  "adguard_text g =
     map (\<lambda>l. l @ ''$important'') (gr_importantDomain g) @
     map (\<lambda>l. ''/'' @ l @ ''/$important'') (gr_importantDomainRegex g) @
     map (\<lambda>l. ''@@'' @ l @ ''$important'') (gr_importantExcludeDomain g) @
     map (\<lambda>l. ''@@/'' @ l @ ''/$important'') (gr_importantExcludeDomainRegex g) @
     gr_domain g @
     map (\<lambda>l. ''/'' @ l @ ''/'') (gr_domainRegex g) @
     map (\<lambda>l. ''@@'' @ l) (gr_excludeDomain g) @
     map (\<lambda>l. ''@@/'' @ l @ ''/'') (gr_excludeDomainRegex g)"

text \<open>The output is given as its lines; the code writes each with a newline behind it.\<close>

definition FromOptions :: "'h HeadlessRuleOptions list \<Rightarrow> string list res option" where
  "FromOptions rules =
     (if length rules \<noteq> 1 then Some (Inl AdGuard_ErrInvalid)
      else map_option (map_sum id adguard_text) (parse_rule (rules ! 0) no_groups))"

end
