(* ===== verification/AdGuardProps.thy ===== *)
theory AdGuardProps
  imports AdGuard Samples
begin

text \<open>
  Properties of the converter of AdGuard lists: what the rule that is made from a list decides, composed with the matching of headless rules;
  which lists are read back from a rule; and where the converter goes wrong.
\<close>

section \<open>What the rule decides\<close>

definition hits :: "'h deps \<Rightarrow> string list \<Rightarrow> string list \<Rightarrow> InboundContext \<Rightarrow> bool" where
  "hits d domains regexes md \<longleftrightarrow>
     domains \<noteq> [] \<and> AdGuardDomainItem_Match d (domain_NewAdGuardMatcher d domains) md \<or>
     regexes \<noteq> [] \<and> (case compile_all d 0 regexes of Inl err \<Rightarrow> False | Inr matchers \<Rightarrow> DomainRegexItem_Match d matchers md)"

lemma default_group_match:
  assumes "NewHeadlessRule d nm (default_rule domains regexes neg) = Inr r" "domains \<noteq> [] \<or> regexes \<noteq> []"
  shows "fst (HeadlessRule_Match d e r (ResetRuleCache md)) \<longleftrightarrow> hits d domains regexes (ResetRuleCache md) \<noteq> neg"
proof -
  let ?opts = "DefaultHeadlessRuleOptions_zero\<lparr>hr_AdGuardDomain := domains, hr_DomainRegex := regexes, hr_Invert := neg\<rparr>"
  obtain rr where rr: "NewDefaultHeadlessRule d nm ?opts = Inr rr" "r = DefaultHeadlessRule rr"
    using assms(1) by (auto simp: default_rule_def rule_types res_bind_Inr_iff split: if_splits)
  define regex_items where "regex_items = (case compile_all d 0 regexes of Inl err \<Rightarrow> [] | Inr matchers \<Rightarrow>
     if regexes = [] then [] else [DomainRegexItem matchers (describe_regexes d ''domain_regex'' regexes)])"
  define domain_items where "domain_items = (if domains = [] then [] else [AdGuardDomainItem (domain_NewAdGuardMatcher d domains)])"
  have built: "rr = (empty_rule neg None)\<lparr>destinationAddressItems := regex_items @ domain_items, allItems := regex_items @ domain_items\<rparr>"
    and compiled: "regexes \<noteq> [] \<Longrightarrow> \<exists>matchers. compile_all d 0 regexes = Inr matchers"
    using rr(1)
    by (auto simp: NewDefaultHeadlessRule_def headless_stage_defs DefaultHeadlessRuleOptions_zero_def opt_item_def opt_res_def regex_items_def
        domain_items_def NewDomainRegexItem_def NewAdGuardDomainItem_def add_defs empty_rule_def res_bind_def res_cause_def
        split: if_splits sum.splits)
  have "rule_looks (\<lambda>_. False) rr (ResetRuleCache md)"
    using assms(2) compiled by (auto simp: built rule_looks_def destination_items_def empty_rule_def regex_items_def domain_items_def)
  moreover have "rule_condition (\<lambda>i. RuleItem_Match d e i (ResetRuleCache md)) rr (ResetRuleCache md) \<longleftrightarrow> hits d domains regexes (ResetRuleCache md)"
    using assms(2) compiled
    by (auto simp: built rule_condition_def group_ok_def destination_items_def empty_rule_def regex_items_def domain_items_def hits_def)
  moreover have "allItems rr \<noteq> []" "invert rr = neg"
    using assms(2) compiled by (auto simp: built regex_items_def domain_items_def empty_rule_def)
  ultimately show ?thesis by (simp add: rr(2) plain.Match_spec) 
qed

lemma logical_rule_match:
  assumes "NewHeadlessRule d nm (logical_rule mode [a, b]) = Inr r"
  obtains ra rb where "NewHeadlessRule d nm a = Inr ra" "NewHeadlessRule d nm b = Inr rb" "mode = LogicalTypeAnd \<or> mode = LogicalTypeOr"
    "\<And>md. fst (HeadlessRule_Match d e r (ResetRuleCache md)) \<longleftrightarrow>
       (if mode = LogicalTypeAnd
        then fst (HeadlessRule_Match d e ra (ResetRuleCache md)) \<and> fst (HeadlessRule_Match d e rb (ResetRuleCache md))
        else fst (HeadlessRule_Match d e ra (ResetRuleCache md)) \<or> fst (HeadlessRule_Match d e rb (ResetRuleCache md)))"
proof -
  from assms obtain ra rb where r: "NewHeadlessRule d nm a = Inr ra" "NewHeadlessRule d nm b = Inr rb" "r = LogicalHeadlessRule [ra, rb] mode False"
    "mode = LogicalTypeAnd \<or> mode = LogicalTypeOr"
    by (auto simp: logical_rule_def rule_types res_bind_Inr_iff logical_mode_def split: if_splits sum.splits)
  show thesis
    by (rule that [OF r(1,2,4)]) (simp add: r(3) headless.logical_spec)
qed

lemma modes_differ: "LogicalTypeAnd \<noteq> LogicalTypeOr"
  by code_simp

text \<open>The decision of an AdGuard list by its four groups: an important exception wins over everything, an important rule over exceptions, an
  exception over rules.\<close>

definition group_hits :: "'h deps \<Rightarrow> bool \<Rightarrow> bool \<Rightarrow> agdguardRuleLine list \<Rightarrow> InboundContext \<Rightarrow> bool" where
  "group_hits d isImportant isExclude ruleLines md =
     hits d (line_group isImportant False isExclude ruleLines) (line_group isImportant True isExclude ruleLines) md"

lemma no_hits: "\<not> hits d [] [] md"
  by (simp add: hits_def)

lemma optional_part:
  assumes "NewHeadlessRule d nm (if ds \<noteq> [] \<or> rs \<noteq> [] then logical_rule mode [default_rule ds rs neg, rule] else rule) = Inr r"
    and "\<And>r'. NewHeadlessRule d nm rule = Inr r' \<Longrightarrow> fst (HeadlessRule_Match d e r' (ResetRuleCache md)) \<longleftrightarrow> P"
    and "mode = LogicalTypeAnd \<and> neg \<or> mode = LogicalTypeOr \<and> \<not> neg"
  shows "fst (HeadlessRule_Match d e r (ResetRuleCache md)) \<longleftrightarrow>
    (if neg then \<not> hits d ds rs (ResetRuleCache md) \<and> P else hits d ds rs (ResetRuleCache md) \<or> P)"
proof (cases "ds \<noteq> [] \<or> rs \<noteq> []")
  case True
  with assms(1) have "NewHeadlessRule d nm (logical_rule mode [default_rule ds rs neg, rule]) = Inr r" by simp
  then obtain ra rb where r: "NewHeadlessRule d nm (default_rule ds rs neg) = Inr ra" "NewHeadlessRule d nm rule = Inr rb"
    "fst (HeadlessRule_Match d e r (ResetRuleCache md)) \<longleftrightarrow>
       (if mode = LogicalTypeAnd
        then fst (HeadlessRule_Match d e ra (ResetRuleCache md)) \<and> fst (HeadlessRule_Match d e rb (ResetRuleCache md))
        else fst (HeadlessRule_Match d e ra (ResetRuleCache md)) \<or> fst (HeadlessRule_Match d e rb (ResetRuleCache md)))"
    by (rule logical_rule_match) blast
  show ?thesis
    unfolding r(3) default_group_match [OF r(1) True] assms(2) [OF r(2)] using assms(3) modes_differ by auto
next
  case False
  with assms(1) have "NewHeadlessRule d nm rule = Inr r" by simp
  from assms(2) [OF this] False show ?thesis by (simp add: no_hits)
qed

text \<open>C20. What an AdGuard list decides: the rule that the list is converted to, built and matched against a connection, matches exactly if no
  important exception hits and an important rule hits, or a rule hits and no exception does; for lists that are not only domain names and
  have at least one rule that is neither important nor an exception.\<close>

theorem adguard_list_decision:
  assumes "adguard_lines ad (scanner_lines lines) = Inr ruleLines" "\<not> list_all al_isRawDomain ruleLines"
    and "\<exists>l\<in>set ruleLines. \<not> al_isImportant l \<and> \<not> al_isExclude l"
    and "ToOptions ad lines = Inr [rule]" "NewHeadlessRule d nm rule = Inr r"
  shows "fst (HeadlessRule_Match d e r (ResetRuleCache md)) \<longleftrightarrow>
    \<not> group_hits d True True ruleLines (ResetRuleCache md) \<and>
    (group_hits d True False ruleLines (ResetRuleCache md) \<or>
     \<not> group_hits d False True ruleLines (ResetRuleCache md) \<and> group_hits d False False ruleLines (ResetRuleCache md))"
proof -
  have "ruleLines \<noteq> []" using assms(2) by auto
  with assms(1,2,4) have "rule = adguard_rule (adguard_groups ruleLines)" by (auto simp: ToOptions_def)
  then have rule: "NewHeadlessRule d nm (adguard_rule (adguard_groups ruleLines)) = Inr r" using assms(5) by simp
  have plain: "line_group False False False ruleLines \<noteq> [] \<or> line_group False True False ruleLines \<noteq> []"
    using assms(3) by (auto simp: line_group_def filter_empty_conv)
  define c0 where "c0 = (default_rule (line_group False False False ruleLines) (line_group False True False ruleLines) False :: 'a HeadlessRuleOptions)"
  define c1 where "c1 = (if line_group False False True ruleLines \<noteq> [] \<or> line_group False True True ruleLines \<noteq> []
    then logical_rule LogicalTypeAnd [default_rule (line_group False False True ruleLines) (line_group False True True ruleLines) True, c0] else c0)"
  define c2 where "c2 = (if line_group True False False ruleLines \<noteq> [] \<or> line_group True True False ruleLines \<noteq> []
    then logical_rule LogicalTypeOr [default_rule (line_group True False False ruleLines) (line_group True True False ruleLines) False, c1] else c1)"
  let ?match = "\<lambda>r. fst (HeadlessRule_Match d e r (ResetRuleCache md))" and ?hits = "\<lambda>imp exc. group_hits d imp exc ruleLines (ResetRuleCache md)"
  have m0: "?match r' \<longleftrightarrow> ?hits False False" if "NewHeadlessRule d nm c0 = Inr r'" for r'
    using default_group_match [OF that [unfolded c0_def] plain] by (simp add: group_hits_def)
  have m1: "?match r' \<longleftrightarrow> \<not> ?hits False True \<and> ?hits False False" if "NewHeadlessRule d nm c1 = Inr r'" for r'
    using optional_part [OF that [unfolded c1_def] m0] by (simp add: group_hits_def)
  have m2: "?match r' \<longleftrightarrow> ?hits True False \<or> \<not> ?hits False True \<and> ?hits False False" if "NewHeadlessRule d nm c2 = Inr r'" for r'
    using optional_part [OF that [unfolded c2_def] m1] by (simp add: group_hits_def)
  have "NewHeadlessRule d nm (if line_group True False True ruleLines \<noteq> [] \<or> line_group True True True ruleLines \<noteq> []
      then logical_rule LogicalTypeAnd [default_rule (line_group True False True ruleLines) (line_group True True True ruleLines) True, c2] else c2) = Inr r"
    using rule unfolding adguard_rule_def adguard_groups_def Let_def adguard_groups.simps c0_def [symmetric] c1_def [symmetric] c2_def [symmetric] .
  from optional_part [OF this m2] show ?thesis by (simp add: group_hits_def)
qed

section \<open>Reading back what was written\<close>

lemma type_names: "RuleTypeLogical \<noteq> RuleTypeDefault"
  by code_simp

lemma parse_default_rule:
  "ds \<noteq> [] \<or> rs \<noteq> [] \<Longrightarrow> parse_rule (default_rule ds rs False) g = Some (Inr (g\<lparr>gr_domain := ds, gr_domainRegex := rs\<rparr>))"
  using type_names by (subst parse_rule.simps) (auto simp: default_rule_def)

lemma parse_exclude_rule:
  "ds \<noteq> [] \<or> rs \<noteq> [] \<Longrightarrow> parse_rule (logical_rule LogicalTypeAnd [default_rule ds rs True, rule]) g =
     parse_rule rule (if gr_importantExcludeDomain g = [] \<and> gr_importantExcludeDomainRegex g = []
       then g\<lparr>gr_importantExcludeDomain := ds, gr_importantExcludeDomainRegex := rs\<rparr> else g\<lparr>gr_excludeDomain := ds, gr_excludeDomainRegex := rs\<rparr>)"
  by (subst parse_rule.simps) (auto simp: default_rule_def logical_rule_def Let_def)

lemma parse_important_rule:
  "ds \<noteq> [] \<or> rs \<noteq> [] \<Longrightarrow> parse_rule (logical_rule LogicalTypeOr [default_rule ds rs False, rule]) g =
     parse_rule rule (g\<lparr>gr_importantDomain := ds, gr_importantDomainRegex := rs\<rparr>)"
  using modes_differ by (subst parse_rule.simps) (auto simp: default_rule_def logical_rule_def Let_def)

text \<open>Exceptions without important exceptions are taken for important ones.\<close>

definition read_groups :: "adguard_groups \<Rightarrow> adguard_groups" where
  "read_groups g =
     (if gr_importantExcludeDomain g = [] \<and> gr_importantExcludeDomainRegex g = []
      then g\<lparr>gr_importantExcludeDomain := gr_excludeDomain g, gr_importantExcludeDomainRegex := gr_excludeDomainRegex g,
        gr_excludeDomain := [], gr_excludeDomainRegex := []\<rparr>
      else g)"

lemma parse_adguard_rule:
  assumes "gr_domain g \<noteq> [] \<or> gr_domainRegex g \<noteq> []"
  shows "parse_rule (adguard_rule g) no_groups = Some (Inr (read_groups g))"
proof -
  obtain id ir xd xr dd dr ed er where g: "g = \<lparr>gr_importantDomain = id, gr_importantDomainRegex = ir, gr_importantExcludeDomain = xd,
    gr_importantExcludeDomainRegex = xr, gr_domain = dd, gr_domainRegex = dr, gr_excludeDomain = ed, gr_excludeDomainRegex = er\<rparr>"
    by (cases g)
  have d: "dd \<noteq> [] \<or> dr \<noteq> []" using assms g by simp
  show ?thesis
    by (cases "ed \<noteq> [] \<or> er \<noteq> []"; cases "id \<noteq> [] \<or> ir \<noteq> []"; cases "xd \<noteq> [] \<or> xr \<noteq> []")
      (auto simp: g adguard_rule_def parse_exclude_rule parse_important_rule parse_default_rule [OF d] no_groups_def read_groups_def)
qed

section \<open>Lines\<close>

text \<open>What the conversion relies on of other modules: domain names have no characters of the syntax, and the cut at a dollar sign.\<close>

definition special_chars :: string where
  "special_chars = ''/?&[]()!#~|^@$ ''"

definition adguard_laws :: "adguard_deps \<Rightarrow> bool" where
  "adguard_laws d \<longleftrightarrow>
     (\<forall>s. ag_IsDomainName d s \<longrightarrow> set s \<inter> set special_chars = {}) \<and>
     (\<forall>a b. CHR ''$'' \<notin> set a \<longrightarrow> ag_SubstringBefore d (a @ ''$'' @ b) ''$'' = a \<and> ag_SubstringAfter d (a @ ''$'' @ b) ''$'' = b)"

text \<open>Patterns of domains as they are written: markers around a domain that may have wildcards.\<close>

definition pattern_ok :: "adguard_deps \<Rightarrow> string \<Rightarrow> string \<Rightarrow> string \<Rightarrow> bool" where
  "pattern_ok d pre body suf \<longleftrightarrow> pre \<in> {[], ''|'', ''||''} \<and> suf \<in> {[], ''^''} \<and> body \<noteq> [] \<and> set body \<inter> set special_chars = {} \<and>
     ag_IsDomainName d (map (\<lambda>c. if c = CHR ''*'' then CHR ''x'' else c)
       (if has_prefix body ''.'' \<or> has_prefix body ''-'' then CHR ''r'' # body else body))"

definition domain_ok :: "adguard_deps \<Rightarrow> string \<Rightarrow> bool" where
  "domain_ok d p \<longleftrightarrow> (\<exists>pre body suf. p = pre @ body @ suf \<and> pattern_ok d pre body suf)"

lemma has_prefix_Cons: "has_prefix (x # s) [c] \<longleftrightarrow> x = c" "has_prefix (x # s) (c # c' # t) \<longleftrightarrow> x = c \<and> has_prefix s (c' # t)" "\<not> has_prefix [] (c # t)"
  by (auto simp: has_prefix_def)

lemma has_suffix_last: "s \<noteq> [] \<Longrightarrow> has_suffix s [c] \<longleftrightarrow> last s = c"
  by (auto simp: has_suffix_iff) (metis append_butlast_last_id)

lemma strings_Contains_needs: "strings_Contains s t \<Longrightarrow> set t \<subseteq> set s"
  by (auto simp: strings_Contains_iff)

lemma adguard_domain_ok: "pattern_ok d pre body suf \<Longrightarrow> adguard_domain d body isSuffix = Some (body, isSuffix)"
  using strings_Contains_needs [of body "''://''"] by (auto simp: pattern_ok_def adguard_domain_def special_chars_def Let_def)

lemma pattern_parsed:
  assumes "pattern_ok d pre body suf"
  shows "adguard_pattern d imp ((if exc then ''@@'' else []) @ pre @ body @ suf) =
    LineRule \<lparr>al_ruleLine = body, al_isRawDomain = False, al_isExclude = exc, al_isSuffix = (pre = ''||''), al_hasStart = (pre = ''|''),
      al_hasEnd = (suf = ''^''), al_isRegexp = False, al_isImportant = imp\<rparr>"
proof -
  have "body \<noteq> []" "set body \<inter> set special_chars = {}" using assms by (simp_all add: pattern_ok_def)
  then obtain c t where body: "body = c # t" "c \<notin> set special_chars" "last body \<notin> set special_chars"
    using last_in_set [of body] by (cases body) auto
  let ?p = "pre @ body @ suf"
  have pre: "pre \<in> {[], ''|'', ''||''}" and suf: "suf \<in> {[], ''^''}" using assms by (simp_all add: pattern_ok_def)
  have c: "c \<noteq> CHR ''@''" "c \<noteq> CHR ''|''" "c \<noteq> CHR ''/''" "last body \<noteq> CHR ''|''" "last body \<noteq> CHR ''^''" using body by (auto simp: special_chars_def)
  have ex: "has_prefix ((if exc then ''@@'' else []) @ ?p) ''@@'' = exc"
    using pre c body(1) by (auto simp: has_prefix_def)
  have trim: "trim_bar ?p = ?p" using suf c body(1) by (auto simp: trim_bar_def has_suffix_last)
  have start: "has_prefix ?p ''||'' = (pre = ''||'')" "has_prefix ?p ''|'' = (pre \<noteq> [])" using pre c body(1) by (auto simp: has_prefix_def)
  have strip: "(if pre = ''||'' then drop 2 ?p else if pre = ''|'' then drop 1 ?p else ?p) = body @ suf" using pre by auto
  have last: "has_suffix (body @ suf) ''^'' = (suf = ''^'')" "(if suf = ''^'' then butlast (body @ suf) else body @ suf) = body"
    using suf c body(1) by (auto simp: has_suffix_last)
  have slash: "\<not> has_prefix body ''/''" using c body(1) by (simp add: has_prefix_def)
  have h: "(\<not> pre = ''||'' \<and> pre \<noteq> []) = (pre = ''|'')" using pre by auto
  have drop: "(if exc then drop 2 ((if exc then ''@@'' else []) @ ?p) else (if exc then ''@@'' else []) @ ?p) = ?p" by simp
  show ?thesis
    unfolding adguard_pattern_def Let_def ex drop trim start h strip last
    using slash adguard_domain_ok [OF assms] by simp
qed

lemma regex_parsed:
  assumes "\<not> ignoreIPCIDRRegexp d r"
  shows "adguard_pattern d imp ((if exc then ''@@'' else []) @ ''/'' @ r @ ''/'') =
    LineRule \<lparr>al_ruleLine = r, al_isRawDomain = False, al_isExclude = exc, al_isSuffix = False, al_hasStart = False,
      al_hasEnd = False, al_isRegexp = True, al_isImportant = imp\<rparr>"
proof -
  let ?p = "''/'' @ r @ ''/''"
  have ex: "has_prefix ((if exc then ''@@'' else []) @ ?p) ''@@'' = exc" by (auto simp: has_prefix_def)
  have drop: "(if exc then drop 2 ((if exc then ''@@'' else []) @ ?p) else (if exc then ''@@'' else []) @ ?p) = ?p" by simp
  have p: "trim_bar ?p = ?p" "\<not> has_prefix ?p ''||''" "\<not> has_prefix ?p ''|''" "\<not> has_suffix ?p ''^''" "has_prefix ?p ''/''" "has_suffix ?p ''/''"
    by (auto simp: trim_bar_def has_suffix_last has_prefix_def)
  show ?thesis
    unfolding adguard_pattern_def Let_def ex drop using p assms by (simp add: butlast_append)
qed

lemma host_line_no_space: "CHR '' '' \<notin> set l \<Longrightarrow> parseAdGuardHostLine d l = Inl EInvalid"
  using index_of_None [of "CHR '' ''" l] by (simp add: parseAdGuardHostLine_def)

lemma not_domain: "adguard_laws d \<Longrightarrow> c \<in> set l \<Longrightarrow> c \<in> set special_chars \<Longrightarrow> \<not> ag_IsDomainName d l"
  unfolding adguard_laws_def by blast

lemma line_important:
  assumes "adguard_laws d" "CHR ''$'' \<notin> set w" "CHR '' '' \<notin> set w" "w \<noteq> []" "hd w \<notin> {CHR ''!'', CHR ''#'', CHR ''/''}"
  shows "adguard_line d (w @ ''$important'') = adguard_pattern d True w"
proof -
  let ?l = "w @ ''$important''"
  obtain c t where w: "w = c # t" using assms(4) by (cases w) auto
  have "\<not> ag_IsDomainName d ?l" by (rule not_domain [OF assms(1), of "CHR ''$''"]) (simp_all add: special_chars_def)
  moreover have "parseAdGuardHostLine d ?l = Inl EInvalid" using assms(3) by (intro host_line_no_space) auto
  moreover have "trim_bar ?l = ?l" by (simp add: trim_bar_def has_suffix_last)
  moreover have "ag_SubstringBefore d ?l ''$'' = w" "ag_SubstringAfter d ?l ''$'' = ''important''"
    using assms(1,2) unfolding adguard_laws_def by (metis append_Cons append_Nil)+
  then have "adguard_modifiers d ?l = Some (True, w)"
    using assms(5) w by (simp add: adguard_modifiers_def has_prefix_Cons strings_Contains_single)
  ultimately show ?thesis using assms(5) w by (simp add: adguard_line_def has_prefix_Cons)
qed

lemma line_plain:
  assumes "\<not> ag_IsDomainName d w" "CHR ''$'' \<notin> set w \<or> hd w = CHR ''/''" "CHR '' '' \<notin> set w" "w \<noteq> []" "hd w \<notin> {CHR ''!'', CHR ''#''}" "last w \<noteq> CHR ''|''"
  shows "adguard_line d w = adguard_pattern d False w"
proof -
  obtain c t where w: "w = c # t" using assms(4) by (cases w) auto
  have "trim_bar w = w" using assms(4,6) by (simp add: trim_bar_def has_suffix_last)
  moreover have "adguard_modifiers d w = Some (False, w)" using assms(2) w by (auto simp: adguard_modifiers_def has_prefix_Cons strings_Contains_single)
  ultimately show ?thesis using assms(1,5) host_line_no_space [OF assms(3)] w by (simp add: adguard_line_def has_prefix_Cons)
qed

text \<open>The lines that a group is written to are read as rules of that group.\<close>

definition line_read :: "adguard_deps \<Rightarrow> bool \<Rightarrow> bool \<Rightarrow> bool \<Rightarrow> string \<Rightarrow> string \<Rightarrow> bool" where
  "line_read d imp rgx exc line x \<longleftrightarrow> (\<exists>l. adguard_line d line = LineRule l \<and> mapDomain l = x \<and> al_isImportant l = imp \<and> al_isRegexp l = rgx \<and>
     al_isExclude l = exc \<and> (al_isRawDomain l \<longrightarrow> ag_IsDomainName d line))"

definition regex_ok :: "adguard_deps \<Rightarrow> string \<Rightarrow> bool" where
  "regex_ok d r \<longleftrightarrow> \<not> ignoreIPCIDRRegexp d r \<and> CHR '' '' \<notin> set r"

lemma domain_ok_chars:
  assumes "pattern_ok d pre body suf"
  shows "CHR ''$'' \<notin> set (pre @ body @ suf)" "CHR '' '' \<notin> set (pre @ body @ suf)" "pre @ body @ suf \<noteq> []"
    "hd (pre @ body @ suf) \<notin> {CHR ''!'', CHR ''#'', CHR ''/''}" "last (pre @ body @ suf) \<noteq> CHR ''|''"
proof -
  have "body \<noteq> []" "set body \<inter> set special_chars = {}" using assms by (simp_all add: pattern_ok_def)
  then have "hd body \<notin> set special_chars" "last body \<notin> set special_chars" "body \<noteq> []" "set body \<inter> set special_chars = {}"
    using hd_in_set [of body] last_in_set [of body] by (auto simp: disjoint_iff)
  moreover have "pre \<in> {[], ''|'', ''||''}" "suf \<in> {[], ''^''}" using assms by (simp_all add: pattern_ok_def)
  ultimately show "CHR ''$'' \<notin> set (pre @ body @ suf)" "CHR '' '' \<notin> set (pre @ body @ suf)" "pre @ body @ suf \<noteq> []"
    "hd (pre @ body @ suf) \<notin> {CHR ''!'', CHR ''#'', CHR ''/''}" "last (pre @ body @ suf) \<noteq> CHR ''|''"
    by (auto simp: special_chars_def)
qed

lemma mapDomain_pattern:
  "pattern_ok d pre body suf \<Longrightarrow> mapDomain \<lparr>al_ruleLine = body, al_isRawDomain = False, al_isExclude = exc, al_isSuffix = (pre = ''||''),
     al_hasStart = (pre = ''|''), al_hasEnd = (suf = ''^''), al_isRegexp = False, al_isImportant = imp\<rparr> = pre @ body @ suf"
  by (auto simp: pattern_ok_def mapDomain_def)

lemma domain_lines:
  assumes "adguard_laws d" "domain_ok d p"
  shows "line_read d True False False (p @ ''$important'') p" "line_read d True False True (''@@'' @ p @ ''$important'') p"
    "line_read d False False False p p" "line_read d False False True (''@@'' @ p) p"
proof -
  obtain pre body suf where p: "p = pre @ body @ suf" and ok: "pattern_ok d pre body suf" using assms(2) by (auto simp: domain_ok_def)
  note chars = domain_ok_chars [OF ok] and parsed = pattern_parsed [OF ok] and printed = mapDomain_pattern [OF ok]
  have "adguard_line d (p @ ''$important'') = adguard_pattern d True p"
    unfolding p by (rule line_important [OF assms(1) chars(1-4)])
  then show "line_read d True False False (p @ ''$important'') p"
    using parsed [of True False] printed [of False True] by (simp add: line_read_def p)
  have "adguard_line d ((''@@'' @ p) @ ''$important'') = adguard_pattern d True (''@@'' @ p)"
    by (rule line_important [OF assms(1)]) (use chars in \<open>auto simp: p\<close>)
  then show "line_read d True False True (''@@'' @ p @ ''$important'') p"
    using parsed [of True True] printed [of True True] by (simp add: line_read_def p)
  have "\<not> ag_IsDomainName d (''@@'' @ p)" by (rule not_domain [OF assms(1), of "CHR ''@''"]) (simp_all add: special_chars_def)
  then have "adguard_line d (''@@'' @ p) = adguard_pattern d False (''@@'' @ p)"
    by (rule line_plain) (use chars in \<open>auto simp: p\<close>)
  then show "line_read d False False True (''@@'' @ p) p"
    using parsed [of False True] printed [of True False] by (simp add: line_read_def p)
  show "line_read d False False False p p"
  proof (cases "ag_IsDomainName d p")
    case True
    then have "adguard_line d p = LineRule (raw_line p False)" using chars by (cases p) (auto simp: adguard_line_def has_prefix_Cons p)
    then show ?thesis using True by (simp add: line_read_def raw_line_def mapDomain_def)
  next
    case False
    then have "adguard_line d p = adguard_pattern d False p" by (rule line_plain) (use chars in \<open>auto simp: p\<close>)
    then show ?thesis using parsed [of False False] printed [of False False] by (simp add: line_read_def p)
  qed
qed

lemma regex_lines:
  assumes "adguard_laws d" "regex_ok d r"
  shows "line_read d False True False (''/'' @ r @ ''/'') r"
    "CHR ''$'' \<notin> set r \<Longrightarrow> line_read d False True True (''@@/'' @ r @ ''/'') r"
    "CHR ''$'' \<notin> set r \<Longrightarrow> line_read d True True True (''@@/'' @ r @ ''/$important'') r"
proof -
  have r: "\<not> ignoreIPCIDRRegexp d r" "CHR '' '' \<notin> set r" using assms(2) by (simp_all add: regex_ok_def)
  note parsed = regex_parsed [OF r(1)]
  have printed: "mapDomain \<lparr>al_ruleLine = r, al_isRawDomain = False, al_isExclude = exc, al_isSuffix = False, al_hasStart = False, al_hasEnd = False,
      al_isRegexp = True, al_isImportant = imp\<rparr> = r" for exc imp by (simp add: mapDomain_def)
  have nodom: "\<not> ag_IsDomainName d (''/'' @ r @ ''/'')" "\<not> ag_IsDomainName d (''@@/'' @ r @ ''/'')"
    by (rule not_domain [OF assms(1), of "CHR ''/''"]; simp add: special_chars_def)+
  have "adguard_line d (''/'' @ r @ ''/'') = adguard_pattern d False (''/'' @ r @ ''/'')"
    by (rule line_plain [OF nodom(1)]) (use r(2) in auto)
  then show "line_read d False True False (''/'' @ r @ ''/'') r"
    using parsed [of False False] printed by (simp add: line_read_def)
  show "line_read d False True True (''@@/'' @ r @ ''/'') r" if "CHR ''$'' \<notin> set r"
  proof -
    have "adguard_line d (''@@/'' @ r @ ''/'') = adguard_pattern d False (''@@/'' @ r @ ''/'')"
      by (rule line_plain [OF nodom(2)]) (use r(2) that in auto)
    then show ?thesis using parsed [of False True] printed by (simp add: line_read_def)
  qed
  show "line_read d True True True (''@@/'' @ r @ ''/$important'') r" if "CHR ''$'' \<notin> set r"
  proof -
    have "adguard_line d ((''@@/'' @ r @ ''/'') @ ''$important'') = adguard_pattern d True (''@@/'' @ r @ ''/'')"
      by (rule line_important [OF assms(1)]) (use r(2) that in auto)
    then show ?thesis using parsed [of True True] printed by (simp add: line_read_def)
  qed
qed

section \<open>The text of a rule is read as the rule\<close>

lemma adguard_lines_all2:
  "list_all2 (\<lambda>t l. adguard_line d t = LineRule l \<and> P t l) ts ls \<Longrightarrow> adguard_lines d ts = Inr ls"
  by (induction rule: list_all2_induct) simp_all

lemma all2_partner: "list_all2 R ts ls \<Longrightarrow> t \<in> set ts \<Longrightarrow> \<exists>l\<in>set ls. R t l"
  by (induction rule: list_all2_induct) auto

lemma segment_lines:
  "\<forall>x\<in>set xs. line_read d imp rgx exc (f x) x \<Longrightarrow>
   \<exists>ls. list_all2 (\<lambda>t l. adguard_line d t = LineRule l \<and> (al_isRawDomain l \<longrightarrow> ag_IsDomainName d t)) (map f xs) ls \<and>
     (\<forall>i r e. line_group i r e ls = (if i = imp \<and> r = rgx \<and> e = exc then xs else []))"
proof (induction xs)
  case (Cons x xs)
  then obtain ls where ls: "list_all2 (\<lambda>t l. adguard_line d t = LineRule l \<and> (al_isRawDomain l \<longrightarrow> ag_IsDomainName d t)) (map f xs) ls"
    "\<forall>i r e. line_group i r e ls = (if i = imp \<and> r = rgx \<and> e = exc then xs else [])" by auto
  obtain l where l: "adguard_line d (f x) = LineRule l" "mapDomain l = x" "al_isImportant l = imp" "al_isRegexp l = rgx" "al_isExclude l = exc"
    "al_isRawDomain l \<longrightarrow> ag_IsDomainName d (f x)" using Cons.prems by (auto simp: line_read_def)
  have "line_group i r e (l # ls) = (if i = imp \<and> r = rgx \<and> e = exc then x # xs else [])" for i r e
    using ls(2) [rule_format, of i r e] l by (auto simp: line_group_def)
  with ls(1) l(1,6) show ?case by (intro exI [of _ "l # ls"]) simp
qed (simp add: line_group_def)

lemma segment_read:
  assumes "\<forall>x\<in>set xs. line_read d imp rgx exc (f x) x"
  obtains ls where "list_all2 (\<lambda>t l. adguard_line d t = LineRule l \<and> (al_isRawDomain l \<longrightarrow> ag_IsDomainName d t)) (map f xs) ls"
    "\<forall>i r e. line_group i r e ls = (if i = imp \<and> r = rgx \<and> e = exc then xs else [])"
  using segment_lines [OF assms] by blast

lemma line_group_append: "line_group i r e (xs @ ys) = line_group i r e xs @ line_group i r e ys"
  by (simp add: line_group_def)

text \<open>The groups of patterns whose text is read back: no important regular expression, exceptions only beside important ones, and at least one
  line that is no plain domain name.\<close>

definition groups_ok :: "adguard_deps \<Rightarrow> adguard_groups \<Rightarrow> bool" where
  "groups_ok d g \<longleftrightarrow> gr_importantDomainRegex g = [] \<and>
     (\<forall>p\<in>set (gr_importantDomain g @ gr_importantExcludeDomain g @ gr_domain g @ gr_excludeDomain g). domain_ok d p) \<and>
     (\<forall>r\<in>set (gr_importantExcludeDomainRegex g @ gr_excludeDomainRegex g). regex_ok d r \<and> CHR ''$'' \<notin> set r) \<and>
     (\<forall>r\<in>set (gr_domainRegex g). regex_ok d r) \<and>
     (gr_domain g \<noteq> [] \<or> gr_domainRegex g \<noteq> []) \<and>
     (gr_importantExcludeDomain g \<noteq> [] \<or> gr_importantExcludeDomainRegex g \<noteq> [] \<or> gr_excludeDomain g = [] \<and> gr_excludeDomainRegex g = []) \<and>
     (\<exists>t\<in>set (adguard_text g). \<not> ag_IsDomainName d t) \<and> (\<forall>t\<in>set (adguard_text g). length t < 65536)"

lemma text_read:
  assumes "adguard_laws d" "groups_ok d g"
  obtains ls where "adguard_lines d (adguard_text g) = Inr ls" "adguard_groups ls = g" "\<not> list_all al_isRawDomain ls"
proof -
  let ?R = "\<lambda>t l. adguard_line d t = LineRule l \<and> (al_isRawDomain l \<longrightarrow> ag_IsDomainName d t)"
  note ok = assms(2) [unfolded groups_ok_def]
  have "\<forall>p\<in>set (gr_importantDomain g). line_read d True False False (p @ ''$important'') p"
    using ok domain_lines(1) [OF assms(1)] by simp
  then obtain l1 where l1: "list_all2 ?R (map (\<lambda>l. l @ ''$important'') (gr_importantDomain g)) l1"
    "\<forall>i r e. line_group i r e l1 = (if i = True \<and> r = False \<and> e = False then gr_importantDomain g else [])" by (rule segment_read)
  have "\<forall>p\<in>set (gr_importantExcludeDomain g). line_read d True False True (''@@'' @ p @ ''$important'') p"
    using ok domain_lines(2) [OF assms(1)] by simp
  then obtain l3 where l3: "list_all2 ?R (map (\<lambda>l. ''@@'' @ l @ ''$important'') (gr_importantExcludeDomain g)) l3"
    "\<forall>i r e. line_group i r e l3 = (if i = True \<and> r = False \<and> e = True then gr_importantExcludeDomain g else [])" by (rule segment_read)
  have "\<forall>p\<in>set (gr_importantExcludeDomainRegex g). line_read d True True True (''@@/'' @ p @ ''/$important'') p"
    using ok regex_lines(3) [OF assms(1)] by simp
  then obtain l4 where l4: "list_all2 ?R (map (\<lambda>l. ''@@/'' @ l @ ''/$important'') (gr_importantExcludeDomainRegex g)) l4"
    "\<forall>i r e. line_group i r e l4 = (if i = True \<and> r = True \<and> e = True then gr_importantExcludeDomainRegex g else [])" by (rule segment_read)
  have "\<forall>p\<in>set (gr_domain g). line_read d False False False ((\<lambda>l. l) p) p" using ok domain_lines(3) [OF assms(1)] by simp
  then obtain l5 where l5: "list_all2 ?R (map (\<lambda>l. l) (gr_domain g)) l5"
    "\<forall>i r e. line_group i r e l5 = (if i = False \<and> r = False \<and> e = False then gr_domain g else [])" by (rule segment_read)
  have "\<forall>p\<in>set (gr_domainRegex g). line_read d False True False (''/'' @ p @ ''/'') p" using ok regex_lines(1) [OF assms(1)] by simp
  then obtain l6 where l6: "list_all2 ?R (map (\<lambda>l. ''/'' @ l @ ''/'') (gr_domainRegex g)) l6"
    "\<forall>i r e. line_group i r e l6 = (if i = False \<and> r = True \<and> e = False then gr_domainRegex g else [])" by (rule segment_read)
  have "\<forall>p\<in>set (gr_excludeDomain g). line_read d False False True (''@@'' @ p) p" using ok domain_lines(4) [OF assms(1)] by simp
  then obtain l7 where l7: "list_all2 ?R (map (\<lambda>l. ''@@'' @ l) (gr_excludeDomain g)) l7"
    "\<forall>i r e. line_group i r e l7 = (if i = False \<and> r = False \<and> e = True then gr_excludeDomain g else [])" by (rule segment_read)
  have "\<forall>p\<in>set (gr_excludeDomainRegex g). line_read d False True True (''@@/'' @ p @ ''/'') p" using ok regex_lines(2) [OF assms(1)] by simp
  then obtain l8 where l8: "list_all2 ?R (map (\<lambda>l. ''@@/'' @ l @ ''/'') (gr_excludeDomainRegex g)) l8"
    "\<forall>i r e. line_group i r e l8 = (if i = False \<and> r = True \<and> e = True then gr_excludeDomainRegex g else [])" by (rule segment_read)
  let ?ls = "l1 @ l3 @ l4 @ l5 @ l6 @ l7 @ l8"
  have all: "list_all2 ?R (adguard_text g) ?ls"
    unfolding adguard_text_def conjunct1 [OF ok] list.map append_Nil
    using list_all2_appendI l1(1) l3(1) l4(1) l5(1) [unfolded list.map_ident] l6(1) l7(1) l8(1) by (intro list_all2_appendI)
  show thesis
  proof (rule that [of ?ls])
    show "adguard_lines d (adguard_text g) = Inr ?ls" using all by (rule adguard_lines_all2)
    have "gr_importantDomainRegex g = []" using ok by simp
    then show "adguard_groups ?ls = g"
      by (simp add: adguard_groups_def line_group_append l1(2) l3(2) l4(2) l5(2) l6(2) l7(2) l8(2))
    obtain t where t: "t \<in> set (adguard_text g)" "\<not> ag_IsDomainName d t" using ok by blast
    then obtain l where "l \<in> set ?ls" "al_isRawDomain l \<longrightarrow> ag_IsDomainName d t" using all2_partner [OF all t(1)] by blast
    with t(2) show "\<not> list_all al_isRawDomain ?ls" unfolding list_all_iff by blast
  qed
qed

text \<open>C21. Writing a rule as an AdGuard list and reading that list gives the rule back, for the rules that such a list can carry:
  \<^verbatim>\<open>FromOptions\<close> of the rule of some groups of patterns gives their lines, and \<^verbatim>\<open>ToOptions\<close> of these lines gives the same rule. The
  groups have well-formed patterns, no important regular expressions, exceptions only beside important exceptions, no \<^verbatim>\<open>$\<close> in the
  regular expressions of exceptions, and some pattern that is neither important nor an exception; some line is not a plain domain name,
  and the lines are shorter than 64 KiB. (The lemmas \<open>important_regex_ignored\<close>, \<open>exceptions_become_important\<close> and
  \<open>dollar_exception_ignored\<close> show that the first conditions are needed.)\<close>

theorem adguard_roundtrip:
  assumes "adguard_laws d" "groups_ok d g"
  shows "FromOptions [adguard_rule g :: 'h HeadlessRuleOptions] = Some (Inr (adguard_text g)) \<and>
    ToOptions d (adguard_text g) = Inr [adguard_rule g :: 'h HeadlessRuleOptions]"
proof
  note ok = assms(2) [unfolded groups_ok_def]
  have "read_groups g = g" using ok by (auto simp: read_groups_def)
  then have "parse_rule (adguard_rule g :: 'h HeadlessRuleOptions) no_groups = Some (Inr g)" using ok parse_adguard_rule [of g] by metis
  then show "FromOptions [adguard_rule g :: 'h HeadlessRuleOptions] = Some (Inr (adguard_text g))" by (simp add: FromOptions_def)
  have scanned: "scanner_lines (adguard_text g) = adguard_text g" using ok by (simp add: scanner_lines_def takeWhile_eq_all_conv)
  obtain ls where ls: "adguard_lines d (adguard_text g) = Inr ls" "adguard_groups ls = g" "\<not> list_all al_isRawDomain ls"
    using assms by (rule text_read)
  then have "ls \<noteq> []" by auto
  with ls show "ToOptions d (adguard_text g) = Inr [adguard_rule g :: 'h HeadlessRuleOptions]" by (simp add: ToOptions_def scanned)
qed

section \<open>Examples\<close>

fun text_before :: "string \<Rightarrow> string \<Rightarrow> string" where
  "text_before [] t = []"
| "text_before (c # s) t = (if has_prefix (c # s) t then [] else c # text_before s t)"

fun text_after :: "string \<Rightarrow> string \<Rightarrow> string" where
  "text_after [] t = []"
| "text_after (c # s) t = (if has_prefix (c # s) t then drop (length t) (c # s) else text_after s t)"

definition sample_adguard :: adguard_deps where
  "sample_adguard =
     \<lparr>ag_IsDomainName = (\<lambda>s. s \<noteq> [] \<and> list_all (\<lambda>c. c \<in> set ''.-_0123456789abcdefghijklmnopqrstuvwxyz'') s),
      ag_netip_ParseAddr = (\<lambda>s. if s = ''0.0.0.0'' then Inr (Addr4 0) else Inl EInvalid),
      ag_M_ParseAddr = (\<lambda>s. if s = ''0.0.0.0'' then Addr4 0 else AddrZero),
      ag_SubstringBefore = text_before, ag_SubstringAfter = text_after\<rparr>"

lemma sample_adguard_laws: "adguard_laws sample_adguard"
proof -
  have chars: "set ''.-_0123456789abcdefghijklmnopqrstuvwxyz'' \<inter> set special_chars = {}" by (simp add: special_chars_def)
  have "set s \<inter> set special_chars = {}" if "ag_IsDomainName sample_adguard s" for s
  proof -
    have "set s \<subseteq> set ''.-_0123456789abcdefghijklmnopqrstuvwxyz''"
      using that unfolding sample_adguard_def adguard_deps.simps list_all_iff by blast
    with chars show ?thesis by blast
  qed
  moreover have "text_before (a @ ''$'' @ b) ''$'' = a \<and> text_after (a @ ''$'' @ b) ''$'' = b" if "CHR ''$'' \<notin> set a" for a b
    using that by (induction a) (auto simp: has_prefix_Cons)
  ultimately show ?thesis by (simp add: adguard_laws_def sample_adguard_def)
qed

theorem adguard_list_decision_witness:
  "\<exists>r. (case ToOptions sample_adguard [''ads'', ''0.0.0.0 spy'', ''@@good''] of Inl err \<Rightarrow> False
         | Inr rules \<Rightarrow> NewHeadlessRule sample_deps True (hd rules) = Inr r) \<and>
     fst (HeadlessRule_Match sample_deps sample_env r (ResetRuleCache (InboundContext_zero\<lparr>md_Domain := ''ads''\<rparr>)))"
proof -
  let ?lines = "[''ads'', ''0.0.0.0 spy'', ''@@good'']" and ?md = "ResetRuleCache (InboundContext_zero\<lparr>md_Domain := ''ads''\<rparr>)"
  define ls where "ls = (case adguard_lines sample_adguard ?lines of Inl err \<Rightarrow> [] | Inr ls \<Rightarrow> ls)"
  have "(case adguard_lines sample_adguard ?lines of Inl err \<Rightarrow> False | Inr ls \<Rightarrow> \<not> list_all al_isRawDomain ls \<and>
      list_ex (\<lambda>l. \<not> al_isImportant l \<and> \<not> al_isExclude l) ls \<and>
      \<not> group_hits sample_deps True True ls ?md \<and> \<not> group_hits sample_deps False True ls ?md \<and> group_hits sample_deps False False ls ?md \<and>
      (case NewHeadlessRule sample_deps True (adguard_rule (adguard_groups ls)) of Inl err \<Rightarrow> False | Inr r \<Rightarrow> True))"
    by code_simp
  then obtain r where *: "adguard_lines sample_adguard ?lines = Inr ls" "\<not> list_all al_isRawDomain ls"
    "\<exists>l\<in>set ls. \<not> al_isImportant l \<and> \<not> al_isExclude l" "\<not> group_hits sample_deps True True ls ?md"
    "\<not> group_hits sample_deps False True ls ?md" "group_hits sample_deps False False ls ?md"
    "NewHeadlessRule sample_deps True (adguard_rule (adguard_groups ls)) = Inr r"
    unfolding ls_def by (auto split: sum.splits simp: list_ex_iff)
  then have "ls \<noteq> []" by auto
  have scanned: "scanner_lines ?lines = ?lines" by (simp add: scanner_lines_def)
  have to: "ToOptions sample_adguard ?lines = Inr [adguard_rule (adguard_groups ls) :: string list HeadlessRuleOptions]"
    using * \<open>ls \<noteq> []\<close> by (simp add: ToOptions_def scanned)
  with adguard_list_decision [OF _ *(2,3) to *(7), of sample_env "InboundContext_zero\<lparr>md_Domain := ''ads''\<rparr>"] * show ?thesis
    by (intro exI [of _ r]) (simp add: scanned)
qed

definition sample_groups :: adguard_groups where
  "sample_groups = no_groups\<lparr>gr_importantExcludeDomain := [''||c.org''], gr_domain := [''||a.org^'', ''b*.org''], gr_domainRegex := [''x[a-z]$''],
     gr_excludeDomain := [''|d.org'']\<rparr>"

theorem adguard_roundtrip_witness:
  "FromOptions [adguard_rule sample_groups :: string list HeadlessRuleOptions] =
     Some (Inr [''@@||c.org$important'', ''||a.org^'', ''b*.org'', ''/x[a-z]$/'', ''@@|d.org'']) \<and>
   ToOptions sample_adguard [''@@||c.org$important'', ''||a.org^'', ''b*.org'', ''/x[a-z]$/'', ''@@|d.org''] =
     Inr [adguard_rule sample_groups :: string list HeadlessRuleOptions]"
proof -
  have "pattern_ok sample_adguard ''||'' ''c.org'' []" "pattern_ok sample_adguard ''||'' ''a.org'' ''^''" "pattern_ok sample_adguard [] ''b*.org'' []"
    "pattern_ok sample_adguard ''|'' ''d.org'' []" by code_simp+
  then have ds: "domain_ok sample_adguard ''||c.org''" "domain_ok sample_adguard ''||a.org^''" "domain_ok sample_adguard ''b*.org''"
    "domain_ok sample_adguard ''|d.org''"
    unfolding domain_ok_def by (metis append_Cons append_Nil append_Nil2)+
  have r: "regex_ok sample_adguard ''x[a-z]$''" by code_simp
  have t: "adguard_text sample_groups = [''@@||c.org$important'', ''||a.org^'', ''b*.org'', ''/x[a-z]$/'', ''@@|d.org'']"
    by (simp add: adguard_text_def sample_groups_def no_groups_def)
  have "\<not> ag_IsDomainName sample_adguard ''||a.org^''" by code_simp
  then have "groups_ok sample_adguard sample_groups"
    using ds r by (simp add: groups_ok_def t) (simp add: sample_groups_def no_groups_def)
  from adguard_roundtrip [OF sample_adguard_laws this] show ?thesis unfolding t .
qed

section \<open>Where the converter goes wrong\<close>

text \<open>A line that is a single slash makes the conversion panic.\<close>

lemma slash_line_panics: "ToOptions sample_adguard [''ads.org'', ''/''] = Inl (GoPanic [ArgS ''slice bounds out of range''])"
proof -
  have "adguard_line sample_adguard ''/'' = LinePanics" "adguard_line sample_adguard ''ads.org'' = LineRule (raw_line ''ads.org'' False)"
    by code_simp+
  then show ?thesis by (simp add: ToOptions_def scanner_lines_def)
qed

text \<open>Exceptions come back as important ones if there are no important exceptions.\<close>

lemma exceptions_become_important:
  assumes "gr_domain g \<noteq> [] \<or> gr_domainRegex g \<noteq> []" "gr_importantExcludeDomain g = []" "gr_importantExcludeDomainRegex g = []"
  shows "FromOptions [adguard_rule g] = Some (Inr (adguard_text (g\<lparr>gr_importantExcludeDomain := gr_excludeDomain g,
    gr_importantExcludeDomainRegex := gr_excludeDomainRegex g, gr_excludeDomain := [], gr_excludeDomainRegex := []\<rparr>)))"
  using assms(2,3) by (simp add: FromOptions_def parse_adguard_rule [OF assms(1)] read_groups_def)

text \<open>The line of an important regular expression, as \<^verbatim>\<open>FromOptions\<close> writes it, is not read back, and neither is an exception whose
  regular expression has a dollar sign.\<close>

lemma important_regex_ignored: "adguard_line sample_adguard ''/ads[0-9]/$important'' = LineIgnored"
  by code_simp

lemma dollar_exception_ignored: "adguard_line sample_adguard ''@@/ads[0-9]$/'' = LineIgnored"
  by code_simp

text \<open>The lines behind a line that is too long are dropped silently.\<close>

lemma scanner_stops:
  assumes "65536 \<le> length l"
  shows "ToOptions d (ls @ l # ls') = ToOptions d ls"
proof -
  have "scanner_lines (ls @ l # ls') = scanner_lines ls" using assms by (induction ls) (auto simp: scanner_lines_def)
  then show ?thesis by (simp only: ToOptions_def)
qed

text \<open>A list without a rule that is neither important nor an exception is converted to a rule that cannot be loaded.\<close>

lemma important_only_fails:
  "(case adguard_lines sample_adguard [''||ads.org^$important''] of Inl err \<Rightarrow> False
    | Inr ls \<Rightarrow> (case NewHeadlessRule sample_deps True (adguard_rule (adguard_groups ls)) of Inl err \<Rightarrow> True | Inr r \<Rightarrow> False))"
  by code_simp

text \<open>Taking a rule apart does not end for a rule of another type.\<close>

lemma parse_rule_other_type:
  assumes "hro_Type rule \<notin> {RuleTypeLogical, RuleTypeDefault}"
  shows "parse_rule rule g = None"
proof -
  have "parse_rule rule g = Some y \<Longrightarrow> hro_Type rule \<in> {RuleTypeLogical, RuleTypeDefault}" for y
    by (rule parse_rule.raw_induct [where P = "\<lambda>rule g y. hro_Type rule \<in> {RuleTypeLogical, RuleTypeDefault}"])
      (auto split: if_splits)
  with assms show ?thesis by (cases "parse_rule rule g") auto
qed

end
