(* ===== verification/Streams.thy ===== *)
theory Streams
  imports SrsRoundtrip
begin

text \<open>
  Byte streams: what the transports use of \<^verbatim>\<open>net.Conn\<close>, \<^verbatim>\<open>io\<close> and \<^verbatim>\<open>bufio\<close>. A connection is the list of the segments that the
  peer's bytes arrive in, after which it is at its end; a read gives bytes of one segment. The interface \<^verbatim>\<open>io.Reader\<close> is the locale
  \<open>io_reader\<close>: a read that can give something gives a beginning of it or makes progress otherwise. In it, \<^verbatim>\<open>io.ReadFull\<close> and
  \<^verbatim>\<open>io.Copy\<close> are shown to return and to give everything. It is interpreted here for connections and buffered readers, and later
  for the connections of the transports.
\<close>

section \<open>Connections\<close>

type_synonym segments = "bytes list"

text \<open>A read returns an error and bytes, with the reader afterwards; \<open>None\<close> is a read that never returns.\<close>

type_synonym 's read = "nat \<Rightarrow> 's \<Rightarrow> ((goerr option \<times> bytes) \<times> 's) option"

fun conn_Read :: "segments read" where
  "conn_Read k [] = Some ((Some io_EOF, []), [])"
| "conn_Read k (c # cs) = Some ((None, take k c), if length c \<le> k then cs else drop k c # cs)"

section \<open>Reading in a loop\<close>

text \<open>The loop of \<^verbatim>\<open>io.ReadAtLeast\<close> for a buffer that is to be filled; \<open>n\<close> bytes are missing, \<open>acc\<close> is in the buffer.\<close>

partial_function (option) read_missing :: "'s read \<Rightarrow> nat \<Rightarrow> bytes \<Rightarrow> 's \<Rightarrow> ((goerr option \<times> bytes) \<times> 's) option" where
  "read_missing rd n acc s =
     (if n = 0 then Some ((None, acc), s)
      else case rd n s of
        None \<Rightarrow> None
      | Some ((None, p), s) \<Rightarrow> read_missing rd (n - length p) (acc @ p) s
      | Some ((Some err, p), s) \<Rightarrow>
          Some ((if n \<le> length p then None else Some (if err = io_EOF \<and> acc @ p \<noteq> [] then EUnexpectedEOF else err), acc @ p), s))"

definition io_ReadFull :: "'s read \<Rightarrow> nat \<Rightarrow> 's \<Rightarrow> ((goerr option \<times> bytes) \<times> 's) option" where
  "io_ReadFull rd n s = read_missing rd n [] s"

text \<open>\<^verbatim>\<open>io.Copy\<close> and the other loops that read to the end; the buffer of the \<open>i\<close>-th read has \<open>sz i\<close> bytes.\<close>

partial_function (option) io_Copy :: "'s read \<Rightarrow> (nat \<Rightarrow> nat) \<Rightarrow> nat \<Rightarrow> bytes \<Rightarrow> 's \<Rightarrow> (goerr option \<times> bytes) option" where
  "io_Copy rd sz i acc s =
     (case rd (sz i) s of
        None \<Rightarrow> None
      | Some ((None, p), s) \<Rightarrow> io_Copy rd sz (Suc i) (acc @ p) s
      | Some ((Some err, p), s) \<Rightarrow> Some (if err = io_EOF then None else Some err, acc @ p))"

declare read_missing.simps [code]
declare io_Copy.simps [code]

section \<open>The interface\<close>

text \<open>\<open>gives s bs\<close> says that \<open>bs\<close> is what the reader still gives. A read that gives nothing takes a step.\<close>

locale io_reader =
  fixes Read :: "'s read" and gives :: "'s \<Rightarrow> bytes \<Rightarrow> bool" and steps :: "'s \<Rightarrow> nat"
  assumes reads: "gives s bs \<Longrightarrow> bs \<noteq> [] \<Longrightarrow> 0 < k \<Longrightarrow>
      \<exists>p s' rest. Read k s = Some ((None, p), s') \<and> bs = p @ rest \<and> length p \<le> k \<and> gives s' rest \<and> (p = [] \<longrightarrow> steps s' < steps s)"
    and ends: "gives s [] \<Longrightarrow> 0 < k \<Longrightarrow>
      \<exists>err s'. Read k s = Some ((err, []), s') \<and> gives s' [] \<and> (err = None \<and> steps s' < steps s \<or> err = Some io_EOF)"
begin

lemma read_missing_returns:
  "gives s (bs @ rest) \<Longrightarrow> \<exists>s'. read_missing Read (length bs) acc s = Some ((None, acc @ bs), s') \<and> gives s' rest"
proof (induction "(length bs, steps s)" arbitrary: bs acc s rule: wf_induct_rule [OF wf_lex_prod [OF wf_less_than wf_less_than]])
  case (1 bs s)
  show ?case
  proof (cases "bs = []")
    case True
    with "1.prems" show ?thesis by (simp add: read_missing.simps)
  next
    case False
    from reads [OF "1.prems", of "length bs"] False obtain p s' r where
      rd: "Read (length bs) s = Some ((None, p), s')" "bs @ rest = p @ r" "length p \<le> length bs" "gives s' r" "p = [] \<Longrightarrow> steps s' < steps s"
      by auto
    obtain q where q: "bs = p @ q" "r = q @ rest" using rd(2,3) by (auto simp: append_eq_append_conv2)
    have "((length q, steps s'), length bs, steps s) \<in> less_than <*lex*> less_than"
      using rd(5) q(1) by (cases "p = []") auto
    then have "\<exists>s''. read_missing Read (length q) (acc @ p) s' = Some ((None, (acc @ p) @ q), s'') \<and> gives s'' rest"
      by (rule "1.hyps") (use rd(4) q in simp)
    then obtain s'' where "read_missing Read (length q) (acc @ p) s' = Some ((None, acc @ bs), s'')" "gives s'' rest" by (auto simp: q)
    with False rd(1) show ?thesis by (subst read_missing.simps) (auto simp: q(1))
  qed
qed

lemma ReadFull_returns:
  "gives s (bs @ rest) \<Longrightarrow> length bs = n \<Longrightarrow> \<exists>s'. io_ReadFull Read n s = Some ((None, bs), s') \<and> gives s' rest"
  unfolding io_ReadFull_def using read_missing_returns [of s bs rest "[]"] by auto

lemma ReadFull_at_end: "gives s [] \<Longrightarrow> 0 < n \<Longrightarrow> \<exists>s'. io_ReadFull Read n s = Some ((Some io_EOF, []), s') \<and> gives s' []"
proof (induction "steps s" arbitrary: s rule: less_induct)
  case less
  from ends [OF less.prems] obtain err s' where
    rd: "Read n s = Some ((err, []), s')" "gives s' []" "err = None \<and> steps s' < steps s \<or> err = Some io_EOF" by blast
  with less.hyps [of s'] less.prems(2) show ?case unfolding io_ReadFull_def by (subst read_missing.simps) (auto simp: io_ReadFull_def)
qed

lemma Copy_returns:
  "gives s bs \<Longrightarrow> (\<And>i. 0 < sz i) \<Longrightarrow> io_Copy Read sz i acc s = Some (None, acc @ bs)"
proof (induction "(length bs, steps s)" arbitrary: bs acc s i rule: wf_induct_rule [OF wf_lex_prod [OF wf_less_than wf_less_than]])
  case (1 bs s)
  show ?case
  proof (cases "bs = []")
    case True
    with "1.prems"(1) ends [of s "sz i"] "1.prems"(2) [of i] obtain err s' where
      rd: "Read (sz i) s = Some ((err, []), s')" "gives s' []" "err = None \<and> steps s' < steps s \<or> err = Some io_EOF" by blast
    have "io_Copy Read sz (Suc i) acc s' = Some (None, acc)" if "err = None"
      using "1.hyps" [of "[]" s' "Suc i" acc] rd that True "1.prems"(2) by auto
    with rd True show ?thesis by (subst io_Copy.simps) auto
  next
    case False
    from reads [OF "1.prems"(1) False "1.prems"(2) [of i]] obtain p s' rest where
      rd: "Read (sz i) s = Some ((None, p), s')" "bs = p @ rest" "gives s' rest" "p = [] \<Longrightarrow> steps s' < steps s" by blast
    have "((length rest, steps s'), length bs, steps s) \<in> less_than <*lex*> less_than"
      using rd(2,4) by (cases "p = []") auto
    from "1.hyps" [OF this rd(3) "1.prems"(2), of "Suc i" "acc @ p"] rd(1,2) show ?thesis by (subst io_Copy.simps) simp
  qed
qed

text \<open>A reader that passes errors through a function which keeps the end of the stream.\<close>

lemma wrapped:
  assumes "w io_EOF = io_EOF"
  shows "io_reader (\<lambda>k s. map_option (apfst (apfst (map_option w))) (Read k s)) gives steps"
proof
  fix s bs and k :: nat
  assume "gives s bs" "bs \<noteq> []" "0 < k"
  from reads [OF this] show "\<exists>p s' rest. map_option (apfst (apfst (map_option w))) (Read k s) = Some ((None, p), s') \<and> bs = p @ rest \<and>
      length p \<le> k \<and> gives s' rest \<and> (p = [] \<longrightarrow> steps s' < steps s)"
    by auto
next
  fix s and k :: nat
  assume "gives s []" "0 < k"
  from ends [OF this] assms show "\<exists>err s'. map_option (apfst (apfst (map_option w))) (Read k s) = Some ((err, []), s') \<and> gives s' [] \<and>
      (err = None \<and> steps s' < steps s \<or> err = Some io_EOF)"
    by auto
qed

end

text \<open>A connection gives its bytes, however they are cut into segments.\<close>

interpretation conn: io_reader conn_Read "\<lambda>cs bs. concat cs = bs" length
proof (unfold_locales, goal_cases)
  case (1 cs bs k)
  then obtain c cs' where cs: "cs = c # cs'" by (cases cs) auto
  with 1 show ?case by (cases "length c \<le> k") auto
next
  case (2 cs k)
  then show ?case by (cases cs) auto
qed

section \<open>Buffered readers\<close>

text \<open>A \<^verbatim>\<open>bufio.Reader\<close> with the default size on a connection: what is in its buffer and the connection.\<close>

type_synonym bufio_reader = "bytes \<times> segments"

abbreviation bufio_size :: nat where "bufio_size \<equiv> 4096"

definition bufio_NewReader :: "segments \<Rightarrow> bufio_reader" where
  "bufio_NewReader cs = ([], cs)"

fun bufio_Read :: "bufio_reader read" where
  "bufio_Read k (buf, cs) =
     (if k = 0 then Some ((None, []), buf, cs)
      else if buf \<noteq> [] then Some ((None, take k buf), drop k buf, cs)
      else if bufio_size \<le> k then
        (case conn_Read k cs of None \<Rightarrow> None | Some (r, cs) \<Rightarrow> Some (r, [], cs))
      else
        (case conn_Read bufio_size cs of
           None \<Rightarrow> None
         | Some ((err, p), cs) \<Rightarrow> Some (if p = [] then ((err, []), [], cs) else ((None, take k p), drop k p, cs))))"

text \<open>\<^verbatim>\<open>fill\<close> on an empty buffer: it gives up after 100 reads without bytes.\<close>

fun bufio_fill :: "nat \<Rightarrow> segments \<Rightarrow> goerr option \<times> bufio_reader" where
  "bufio_fill 0 cs = (Some (EExternal ''multiple Read calls return no data or error''), [], cs)"
| "bufio_fill (Suc i) [] = (Some io_EOF, [], [])"
| "bufio_fill (Suc i) (c # cs) =
     (if c = [] then bufio_fill i cs
      else (None, take bufio_size c, if length c \<le> bufio_size then cs else drop bufio_size c # cs))"

fun bufio_ReadByte :: "bufio_reader \<Rightarrow> u8 res \<times> bufio_reader" where
  "bufio_ReadByte (b # buf, cs) = (Inr b, buf, cs)"
| "bufio_ReadByte ([], cs) =
     (case bufio_fill 100 cs of
        (Some err, r) \<Rightarrow> (Inl err, r)
      | (None, [], cs) \<Rightarrow> (Inl io_EOF, [], cs)
      | (None, b # buf, cs) \<Rightarrow> (Inr b, buf, cs))"

text \<open>\<^verbatim>\<open>Discard\<close> skips byte for byte here; the code skips what is in the buffer at once.\<close>

fun bufio_Discard :: "nat \<Rightarrow> bufio_reader \<Rightarrow> goerr option \<times> bufio_reader" where
  "bufio_Discard 0 r = (None, r)"
| "bufio_Discard (Suc n) r =
     (case bufio_ReadByte r of (Inl err, r) \<Rightarrow> (Some err, r) | (Inr b, r) \<Rightarrow> bufio_Discard n r)"

text \<open>\<^verbatim>\<open>binary.ReadUvarint\<close> on a buffered reader.\<close>

fun bufio_ReadUvarint_loop :: "nat \<Rightarrow> nat \<Rightarrow> u64 \<Rightarrow> nat \<Rightarrow> bufio_reader \<Rightarrow> u64 res \<times> bufio_reader" where
  "bufio_ReadUvarint_loop 0 i x s r = (Inl EOverflow, r)"
| "bufio_ReadUvarint_loop (Suc n) i x s r =
     (case bufio_ReadByte r of
        (Inl err, r) \<Rightarrow> (Inl (if i > 0 \<and> err = io_EOF then EUnexpectedEOF else err), r)
      | (Inr b, r) \<Rightarrow>
          if b < 0x80 then (if i = 9 \<and> b > 1 then Inl EOverflow else Inr (x OR push_bit s (ucast b)), r)
          else bufio_ReadUvarint_loop n (Suc i) (x OR push_bit s (ucast (b AND 0x7f))) (s + 7) r)"

definition bufio_ReadUvarint :: "bufio_reader \<Rightarrow> u64 res \<times> bufio_reader" where
  "bufio_ReadUvarint r = bufio_ReadUvarint_loop 10 0 0 0 r"

text \<open>What a buffered reader on a connection without empty reads still holds.\<close>

definition bufio_content :: "bufio_reader \<Rightarrow> bytes" where
  "bufio_content r = fst r @ concat (snd r)"

definition bufio_ok :: "bufio_reader \<Rightarrow> bool" where
  "bufio_ok r \<longleftrightarrow> [] \<notin> set (snd r)"

lemma bufio_fill_content:
  assumes "[] \<notin> set cs" "concat cs = b # bs"
  shows "\<exists>buf cs'. bufio_fill 100 cs = (None, b # buf, cs') \<and> buf @ concat cs' = bs \<and> [] \<notin> set cs'"
proof -
  obtain c cs' where cs: "cs = (b # c) # cs'" using assms by (cases cs; cases "hd cs") auto
  have "bufio_fill 100 cs = (None, take bufio_size (b # c), if length (b # c) \<le> bufio_size then cs' else drop bufio_size (b # c) # cs')"
    using bufio_fill.simps(3) [of 99 "b # c" cs'] unfolding cs by simp
  moreover have "take bufio_size (b # c) = b # take 4095 c" by simp
  ultimately show ?thesis using assms by (auto simp: cs)
qed

lemma bufio_ReadByte_content:
  assumes "bufio_ok r" "bufio_content r = b # bs"
  shows "\<exists>r'. bufio_ReadByte r = (Inr b, r') \<and> bufio_content r' = bs \<and> bufio_ok r'"
proof (cases "fst r")
  case Nil
  then obtain cs where r: "r = ([], cs)" by (cases r) auto
  with assms bufio_fill_content [of cs b bs] show ?thesis by (auto simp: bufio_content_def bufio_ok_def)
next
  case (Cons b' buf)
  with assms show ?thesis by (cases r) (auto simp: bufio_content_def bufio_ok_def)
qed

lemma bufio_ReadByte_empty:
  "bufio_ok r \<Longrightarrow> bufio_content r = [] \<Longrightarrow> bufio_ReadByte r = (Inl io_EOF, r)"
  using bufio_fill.simps(2) [of 99] by (cases r; cases "snd r") (auto simp: bufio_content_def bufio_ok_def)

lemma bufio_Discard_content:
  "bufio_ok r \<Longrightarrow> bufio_content r = bs @ rest \<Longrightarrow> \<exists>r'. bufio_Discard (length bs) r = (None, r') \<and> bufio_content r' = rest \<and> bufio_ok r'"
proof (induction bs arbitrary: r)
  case (Cons b bs)
  from bufio_ReadByte_content [of r b "bs @ rest"] Cons.prems obtain r' where
    "bufio_ReadByte r = (Inr b, r')" "bufio_content r' = bs @ rest" "bufio_ok r'" by auto
  with Cons.IH [of r'] show ?case by auto
qed simp

lemma bufio_ReadUvarint_loop_content:
  "bufio_ok r \<Longrightarrow> ReadUvarint_loop n i x s (bufio_content r) = Inr (v, rest) \<Longrightarrow>
   \<exists>r'. bufio_ReadUvarint_loop n i x s r = (Inr v, r') \<and> bufio_content r' = rest \<and> bufio_ok r'"
proof (induction n arbitrary: i x s r)
  case (Suc n)
  then obtain b bs where b: "bufio_content r = b # bs" by (cases "bufio_content r") auto
  from bufio_ReadByte_content [OF Suc.prems(1) this] obtain r' where
    r': "bufio_ReadByte r = (Inr b, r')" "bufio_content r' = bs" "bufio_ok r'" by blast
  with Suc.IH [OF r'(3)] Suc.prems(2) b show ?case by (cases r') (auto split: if_splits)
qed simp

lemma bufio_ReadUvarint_PutUvarint:
  "bufio_ok r \<Longrightarrow> bufio_content r = PutUvarint v @ rest \<Longrightarrow>
   \<exists>r'. bufio_ReadUvarint r = (Inr v, r') \<and> bufio_content r' = rest \<and> bufio_ok r'"
  using bufio_ReadUvarint_loop_content [of r 10 0 0 0 v rest] ReadUvarint_PutUvarint [of v rest]
  by (simp add: bufio_ReadUvarint_def ReadUvarint_def)

lemma bufio_Read_content:
  assumes "bufio_ok r" "bufio_content r \<noteq> []" "0 < k"
  shows "\<exists>p r'. bufio_Read k r = Some ((None, p), r') \<and> p \<noteq> [] \<and> length p \<le> k \<and> bufio_content r = p @ bufio_content r' \<and> bufio_ok r'"
proof -
  obtain buf cs where r: "r = (buf, cs)" by (cases r)
  consider "buf \<noteq> []" | c cs' where "buf = []" "cs = c # cs'" "c \<noteq> []"
    using assms(1,2) by (cases cs) (auto simp: r bufio_content_def bufio_ok_def)
  then show ?thesis
  proof cases
    case 1
    with assms show ?thesis by (auto simp: r bufio_content_def bufio_ok_def)
  next
    case (2 c cs')
    then have "take k c \<noteq> []" "take bufio_size c \<noteq> []" using assms(3) by auto
    moreover have "c = take k c @ drop k (take bufio_size c) @ drop bufio_size c" if "k < bufio_size"
    proof -
      have "take k (take bufio_size c) = take k c" using that by (simp add: min_def)
      then show ?thesis by (metis append.assoc append_take_drop_id)
    qed
    ultimately show ?thesis using 2 assms
      by (cases "bufio_size \<le> k"; cases "length c \<le> k"; cases "length c \<le> bufio_size") (auto simp: r bufio_content_def bufio_ok_def)
  qed
qed

interpretation bufio: io_reader bufio_Read "\<lambda>r bs. bufio_ok r \<and> bufio_content r = bs" "\<lambda>r. 0"
proof (unfold_locales, goal_cases)
  case (1 r bs k)
  with bufio_Read_content [of r k] show ?case by fastforce
next
  case (2 r k)
  then show ?case by (cases r; cases "snd r") (auto simp: bufio_content_def bufio_ok_def)
qed

end
