(* ===== verification/DnsTransports.thy ===== *)
theory DnsTransports
  imports DnsClient Streams HelloProps
begin

text \<open>
  The DNS transports over TCP, TLS and UDP (\<^verbatim>\<open>dns/transport/tcp.go\<close>, \<^verbatim>\<open>tls.go\<close>, \<^verbatim>\<open>udp.go\<close>). Messages on streams have their length in
  front; connections over TLS are kept in a pool; over UDP all queries share a connection, whose receive loop hands a response to the
  query that waits for its number. Each part of the UDP transport that runs under a lock is a function here, and a relation interleaves
  them. Packing and unpacking of messages are functions of \<^verbatim>\<open>miekg/dns\<close> in the record \<open>wire_deps\<close>, with dialling and writing as arguments.
\<close>

section \<open>Messages on streams\<close>

record wire_deps =
  wd_Len :: "Msg \<Rightarrow> nat"
  wd_Pack :: "Msg \<Rightarrow> bytes res"
  wd_Unpack :: "bytes \<Rightarrow> Msg res"

definition ErrShortRead :: goerr where
  "ErrShortRead = EExternal ''short read''"

definition ReadMessage :: "wire_deps \<Rightarrow> 's read \<Rightarrow> 's \<Rightarrow> (Msg res \<times> 's) option" where
  "ReadMessage d rd s =
     (case io_ReadFull rd 2 s of
        None \<Rightarrow> None
      | Some ((Some err, b), s) \<Rightarrow> Some (Inl err, s)
      | Some ((None, b), s) \<Rightarrow>
          let responseLen = unat (be16 (b ! 0) (b ! 1))
          in if responseLen < 10 then Some (Inl ErrShortRead, s)
             else case io_ReadFull rd responseLen s of
               None \<Rightarrow> None
             | Some ((Some err, b), s) \<Rightarrow> Some (Inl err, s)
             | Some ((None, b), s) \<Rightarrow> Some (wd_Unpack d b, s))"

text \<open>The bytes that are written. The length in front is the one of the message without compression.\<close>

definition WriteMessage :: "wire_deps \<Rightarrow> u16 \<Rightarrow> Msg \<Rightarrow> bytes res" where
  "WriteMessage d messageId message =
     (case wd_Pack d (message\<lparr>msg_Id := messageId\<rparr>) of
        Inl err \<Rightarrow> Inl err
      | Inr rawMessage \<Rightarrow> Inr (put_be 2 (of_nat (wd_Len d message) :: u16) @ rawMessage))"

text \<open>A dialled connection: what the server sends, and the error of writing to it.\<close>

record stream_conn =
  tc_segments :: segments
  tc_write :: "bytes \<Rightarrow> goerr option"

definition TCP_Exchange :: "wire_deps \<Rightarrow> stream_conn res \<Rightarrow> Msg \<Rightarrow> Msg res option" where
  "TCP_Exchange d dial message =
     (case dial of
        Inl err \<Rightarrow> Some (Inl err)
      | Inr conn \<Rightarrow>
          (case WriteMessage d 0 message of
             Inl err \<Rightarrow> Some (Inl err)
           | Inr b \<Rightarrow>
               (case tc_write conn b of
                  Some err \<Rightarrow> Some (Inl err)
                | None \<Rightarrow> map_option fst (ReadMessage d conn_Read (tc_segments conn)))))"

section \<open>TLS\<close>

text \<open>A connection with the messages that were written to it and read from it.\<close>

record tlsDNSConn =
  tc_conn :: stream_conn
  tc_queryId :: u16
  tc_written :: "bytes list"
  tc_read :: "Msg list"

record TLSTransport =
  tt_connections :: "tlsDNSConn list"
  tt_closed :: "tlsDNSConn list"

definition tls_exchange :: "wire_deps \<Rightarrow> Msg \<Rightarrow> tlsDNSConn \<Rightarrow> TLSTransport \<Rightarrow> (Msg res \<times> TLSTransport) option" where
  "tls_exchange d message conn t =
     (let conn = conn\<lparr>tc_queryId := tc_queryId conn + 1\<rparr>;
          failed = (\<lambda>err what conn. (Inl (ECause err [ArgS what]), t\<lparr>tt_closed := conn # tt_closed t\<rparr>))
      in case WriteMessage d (tc_queryId conn) message of
           Inl err \<Rightarrow> Some (failed err ''write request'' conn)
         | Inr b \<Rightarrow>
             (case tc_write (tc_conn conn) b of
                Some err \<Rightarrow> Some (failed err ''write request'' conn)
              | None \<Rightarrow>
                  let conn = conn\<lparr>tc_written := tc_written conn @ [b]\<rparr>
                  in case ReadMessage d conn_Read (tc_segments (tc_conn conn)) of
                       None \<Rightarrow> None
                     | Some (Inl err, cs) \<Rightarrow> Some (failed err ''read response'' (conn\<lparr>tc_conn := (tc_conn conn)\<lparr>tc_segments := cs\<rparr>\<rparr>))
                     | Some (Inr response, cs) \<Rightarrow>
                         Some (Inr response, t\<lparr>tt_connections := tt_connections t @
                           [conn\<lparr>tc_conn := (tc_conn conn)\<lparr>tc_segments := cs\<rparr>, tc_read := tc_read conn @ [response]\<rparr>]\<rparr>)))"

definition newTLSConn :: "stream_conn \<Rightarrow> tlsDNSConn" where
  "newTLSConn conn = \<lparr>tc_conn = conn, tc_queryId = 0, tc_written = [], tc_read = []\<rparr>"

definition tls_dial_exchange :: "wire_deps \<Rightarrow> stream_conn res \<Rightarrow> Msg \<Rightarrow> TLSTransport \<Rightarrow> (Msg res \<times> TLSTransport) option" where
  "tls_dial_exchange d dial message t =
     (case dial of Inl err \<Rightarrow> Some (Inl err, t) | Inr conn \<Rightarrow> tls_exchange d message (newTLSConn conn) t)"

definition TLS_Exchange :: "wire_deps \<Rightarrow> stream_conn res \<Rightarrow> Msg \<Rightarrow> TLSTransport \<Rightarrow> (Msg res \<times> TLSTransport) option" where
  "TLS_Exchange d dial message t =
     (case tt_connections t of
        [] \<Rightarrow> tls_dial_exchange d dial message t
      | conn # conns \<Rightarrow>
          (case tls_exchange d message conn (t\<lparr>tt_connections := conns\<rparr>) of
             None \<Rightarrow> None
           | Some (Inr response, t) \<Rightarrow> Some (Inr response, t)
           | Some (Inl err, t) \<Rightarrow> tls_dial_exchange d dial message t))"

definition TLS_Close :: "TLSTransport \<Rightarrow> TLSTransport" where
  "TLS_Close t = \<lparr>tt_connections = [], tt_closed = tt_connections t @ tt_closed t\<rparr>"

section \<open>UDP\<close>

text \<open>Connections and exchanges are numbered. A callback belongs to one exchange and holds the response once it is done; a channel that may be
  closed is the number of times that it has been closed and made again. \<open>dc_loop\<close> says that the receive loop runs. Three fields only
  record what happened: how many queries were registered on a connection, what was sent and what was received.\<close>

record dnsConnection =
  dc_err :: "goerr option"
  dc_queryId :: u16
  dc_callbacks :: "u16 \<rightharpoonup> nat"
  dc_buffer :: nat
  dc_loop :: bool
  dc_registered :: nat

datatype phase =
    Sized
  | Opened nat
  | Registered nat u16
  | Selecting nat u16 nat
  | Finished "Msg res"

record udp_exchange =
  ue_message :: Msg
  ue_phase :: phase
  ue_answer :: "Msg option"

record UDPTransport =
  ut_udpSize :: nat
  ut_conn :: "nat option"
  ut_done :: nat
  ut_conns :: "nat \<rightharpoonup> dnsConnection"
  ut_exchanges :: "nat \<rightharpoonup> udp_exchange"
  ut_sent :: "(nat \<times> Msg) list"
  ut_received :: "(nat \<times> Msg) list"

definition NewUDPRaw :: UDPTransport where
  "NewUDPRaw = \<lparr>ut_udpSize = 2048, ut_conn = None, ut_done = 0, ut_conns = Map.empty, ut_exchanges = Map.empty, ut_sent = [], ut_received = []\<rparr>"

definition UDP_Close :: "UDPTransport \<Rightarrow> UDPTransport" where
  "UDP_Close t = t\<lparr>ut_done := ut_done t + 1\<rparr>"

definition set_exchange :: "nat \<Rightarrow> udp_exchange \<Rightarrow> UDPTransport \<Rightarrow> UDPTransport" where
  "set_exchange e x t = t\<lparr>ut_exchanges := (ut_exchanges t)(e \<mapsto> x)\<rparr>"

definition set_conn :: "nat \<Rightarrow> dnsConnection \<Rightarrow> UDPTransport \<Rightarrow> UDPTransport" where
  "set_conn c k t = t\<lparr>ut_conns := (ut_conns t)(c \<mapsto> k)\<rparr>"

definition Connection_Close :: "goerr \<Rightarrow> dnsConnection \<Rightarrow> dnsConnection" where
  "Connection_Close err k = (if dc_err k = None then k\<lparr>dc_err := Some err\<rparr> else k)"

text \<open>The parts of \<^verbatim>\<open>exchange\<close>, in their order.\<close>

definition exchange_size :: "dns_deps \<Rightarrow> Msg \<Rightarrow> UDPTransport \<Rightarrow> UDPTransport" where
  "exchange_size dd message t =
     (case dns_IsEdns0 dd message of
        None \<Rightarrow> t
      | Some opt \<Rightarrow>
          let udpSize = unat (OPT_UDPSize dd opt)
          in if udpSize > ut_udpSize t then t\<lparr>ut_udpSize := udpSize, ut_done := ut_done t + 1\<rparr> else t)"

definition UDP_open :: "(nat res) \<Rightarrow> UDPTransport \<Rightarrow> nat res \<times> UDPTransport" where
  "UDP_open dial t =
     (let reuse = (case ut_conn t of None \<Rightarrow> None
                   | Some c \<Rightarrow> (case ut_conns t c of None \<Rightarrow> None | Some k \<Rightarrow> if dc_err k = None then Some c else None))
      in case reuse of
           Some c \<Rightarrow> (Inr c, t)
         | None \<Rightarrow>
             (case dial of
                Inl err \<Rightarrow> (Inl err, t)
              | Inr c \<Rightarrow>
                  (Inr c, (set_conn c \<lparr>dc_err = None, dc_queryId = 0, dc_callbacks = Map.empty, dc_buffer = ut_udpSize t,
                    dc_loop = True, dc_registered = 0\<rparr> t)\<lparr>ut_conn := Some c\<rparr>)))"

definition register :: "nat \<Rightarrow> nat \<Rightarrow> UDPTransport \<Rightarrow> u16 \<times> UDPTransport" where
  "register e c t =
     (case ut_conns t c of
        None \<Rightarrow> (0, t)
      | Some k \<Rightarrow>
          let ident = dc_queryId k + 1
          in (ident, set_conn c (k\<lparr>dc_queryId := ident, dc_callbacks := (dc_callbacks k)(ident \<mapsto> e),
            dc_registered := dc_registered k + 1\<rparr>) t))"

text \<open>The deferred removal of the callback, and the return.\<close>

definition unregister :: "nat \<Rightarrow> u16 \<Rightarrow> UDPTransport \<Rightarrow> UDPTransport" where
  "unregister c ident t =
     (case ut_conns t c of None \<Rightarrow> t | Some k \<Rightarrow> set_conn c (k\<lparr>dc_callbacks := (dc_callbacks k)(ident := None)\<rparr>) t)"

definition close_conn :: "nat \<Rightarrow> goerr \<Rightarrow> UDPTransport \<Rightarrow> UDPTransport" where
  "close_conn c err t = (case ut_conns t c of None \<Rightarrow> t | Some k \<Rightarrow> set_conn c (Connection_Close err k) t)"

definition finish :: "nat \<Rightarrow> udp_exchange \<Rightarrow> Msg res \<Rightarrow> UDPTransport \<Rightarrow> UDPTransport" where
  "finish e x r t = set_exchange e (x\<lparr>ue_phase := Finished r\<rparr>) t"

text \<open>One round of the receive loop with a datagram; the buffer has the size that \<^verbatim>\<open>udpSize\<close> had when the round began.\<close>

definition deliver :: "nat \<Rightarrow> Msg \<Rightarrow> UDPTransport \<Rightarrow> UDPTransport" where
  "deliver c message t =
     (case ut_conns t c of
        None \<Rightarrow> t
      | Some k \<Rightarrow>
          (case dc_callbacks k (msg_Id message) of
             None \<Rightarrow> t
           | Some e \<Rightarrow>
               (case ut_exchanges t e of
                  None \<Rightarrow> t
                | Some x \<Rightarrow> if ue_answer x = None then set_exchange e (x\<lparr>ue_answer := Some message\<rparr>) t else t)))"

definition end_loop :: "nat \<Rightarrow> goerr \<Rightarrow> UDPTransport \<Rightarrow> UDPTransport" where
  "end_loop c err t = (case ut_conns t c of None \<Rightarrow> t | Some k \<Rightarrow> set_conn c ((Connection_Close err k)\<lparr>dc_loop := False\<rparr>) t)"

definition recv_round :: "wire_deps \<Rightarrow> nat \<Rightarrow> bytes res \<Rightarrow> UDPTransport \<Rightarrow> UDPTransport" where
  "recv_round d c datagram t =
     (case ut_conns t c of
        None \<Rightarrow> t
      | Some k \<Rightarrow>
          (case datagram of
             Inl err \<Rightarrow> end_loop c err t
           | Inr b \<Rightarrow>
               (case wd_Unpack d (take (dc_buffer k) b) of
                  Inl err \<Rightarrow> end_loop c err t
                | Inr message \<Rightarrow>
                    let t = deliver c message (t\<lparr>ut_received := (c, message) # ut_received t\<rparr>)
                    in case ut_conns t c of None \<Rightarrow> t | Some k \<Rightarrow> set_conn c (k\<lparr>dc_buffer := ut_udpSize t\<rparr>) t)))"

definition UDP_Exchange :: "(Msg \<Rightarrow> Msg res option) \<Rightarrow> Msg \<Rightarrow> Msg res \<Rightarrow> Msg res option" where
  "UDP_Exchange tcp_Exchange message result =
     (case result of
        Inl err \<Rightarrow> Some (Inl err)
      | Inr response \<Rightarrow> if msg_Truncated response then tcp_Exchange message else Some (Inr response))"

definition os_ErrClosed :: goerr where
  "os_ErrClosed = EExternal ''file already closed''"

text \<open>The interleavings: an exchange goes through its phases, while datagrams arrive on connections and the transport may be closed.\<close>

inductive udp_step :: "wire_deps \<Rightarrow> dns_deps \<Rightarrow> UDPTransport \<Rightarrow> UDPTransport \<Rightarrow> bool" for d dd where
  begins: "ut_exchanges t e = None \<Longrightarrow>
    udp_step d dd t (set_exchange e \<lparr>ue_message = message, ue_phase = Sized, ue_answer = None\<rparr> (exchange_size dd message t))"
| opens: "ut_exchanges t e = Some x \<Longrightarrow> ue_phase x = Sized \<Longrightarrow> UDP_open dial t = (Inr c, t') \<Longrightarrow> (\<And>c. dial = Inr c \<Longrightarrow> ut_conns t c = None) \<Longrightarrow>
    udp_step d dd t (set_exchange e (x\<lparr>ue_phase := Opened c\<rparr>) t')"
| open_fails: "ut_exchanges t e = Some x \<Longrightarrow> ue_phase x = Sized \<Longrightarrow> UDP_open dial t = (Inl err, t') \<Longrightarrow> udp_step d dd t (finish e x (Inl err) t')"
| registers: "ut_exchanges t e = Some x \<Longrightarrow> ue_phase x = Opened c \<Longrightarrow> register e c t = (ident, t') \<Longrightarrow>
    udp_step d dd t (set_exchange e (x\<lparr>ue_phase := Registered c ident\<rparr>) t')"
| pack_fails: "ut_exchanges t e = Some x \<Longrightarrow> ue_phase x = Registered c ident \<Longrightarrow> wd_Pack d ((ue_message x)\<lparr>msg_Id := ident\<rparr>) = Inl err \<Longrightarrow>
    udp_step d dd t (finish e x (Inl err) (unregister c ident t))"
| write_fails: "ut_exchanges t e = Some x \<Longrightarrow> ue_phase x = Registered c ident \<Longrightarrow> wd_Pack d ((ue_message x)\<lparr>msg_Id := ident\<rparr>) = Inr b \<Longrightarrow>
    udp_step d dd t (finish e x (Inl err) (unregister c ident (close_conn c err t)))"
| writes: "ut_exchanges t e = Some x \<Longrightarrow> ue_phase x = Registered c ident \<Longrightarrow> wd_Pack d ((ue_message x)\<lparr>msg_Id := ident\<rparr>) = Inr b \<Longrightarrow>
    udp_step d dd t (set_exchange e (x\<lparr>ue_phase := Selecting c ident (ut_done t)\<rparr>)
      (t\<lparr>ut_sent := (c, (ue_message x)\<lparr>msg_Id := ident\<rparr>) # ut_sent t\<rparr>))"
| answered: "ut_exchanges t e = Some x \<Longrightarrow> ue_phase x = Selecting c ident g \<Longrightarrow> ue_answer x = Some m \<Longrightarrow>
    udp_step d dd t (finish e x (Inr (m\<lparr>msg_Id := msg_Id (ue_message x)\<rparr>)) (unregister c ident t))"
| conn_done: "ut_exchanges t e = Some x \<Longrightarrow> ue_phase x = Selecting c ident g \<Longrightarrow> ut_conns t c = Some k \<Longrightarrow> dc_err k = Some err \<Longrightarrow>
    udp_step d dd t (finish e x (Inl err) (unregister c ident t))"
| transport_done: "ut_exchanges t e = Some x \<Longrightarrow> ue_phase x = Selecting c ident g \<Longrightarrow> g < ut_done t \<Longrightarrow>
    udp_step d dd t (finish e x (Inl os_ErrClosed) (unregister c ident t))"
| cancelled: "ut_exchanges t e = Some x \<Longrightarrow> ue_phase x = Selecting c ident g \<Longrightarrow>
    udp_step d dd t (finish e x (Inl err) (unregister c ident (close_conn c err t)))"
| receives: "ut_conns t c = Some k \<Longrightarrow> dc_loop k \<Longrightarrow> udp_step d dd t (recv_round d c datagram t)"
| closes: "udp_step d dd t (UDP_Close t)"

abbreviation udp_reachable :: "wire_deps \<Rightarrow> dns_deps \<Rightarrow> UDPTransport \<Rightarrow> bool" where
  "udp_reachable d dd t \<equiv> (udp_step d dd)\<^sup>*\<^sup>* NewUDPRaw t"

end
