(* ===== verification/DnsTransportProps.thy ===== *)
theory DnsTransportProps
  imports DnsTransports DnsProps
begin

text \<open>
  Properties of the DNS transports: messages on streams are read as they were written; a connection over TLS that goes back to the pool
  owes no response; over UDP an exchange returns only a response to its own query, and a response that arrives is returned.
\<close>

section \<open>The invariant of the UDP transport\<close>

definition in_flight :: "udp_exchange \<Rightarrow> nat \<Rightarrow> u16 \<Rightarrow> bool" where
  "in_flight x c ident \<longleftrightarrow> ue_phase x = Registered c ident \<or> (\<exists>g. ue_phase x = Selecting c ident g)"

definition callbacks_inv :: "UDPTransport \<Rightarrow> bool" where
  "callbacks_inv t \<longleftrightarrow> (\<forall>c k. ut_conns t c = Some k \<longrightarrow> dc_queryId k = of_nat (dc_registered k) \<and>
     (\<forall>i e. dc_callbacks k i = Some e \<longrightarrow> (\<exists>x. ut_exchanges t e = Some x \<and> in_flight x c i)))"

definition flight_inv :: "UDPTransport \<Rightarrow> nat \<Rightarrow> udp_exchange \<Rightarrow> nat \<Rightarrow> u16 \<Rightarrow> bool" where
  "flight_inv t e x c i \<longleftrightarrow> (\<forall>m. ue_answer x = Some m \<longrightarrow> (c, m) \<in> set (ut_received t) \<and> msg_Id m = i) \<and>
     (\<exists>k j. ut_conns t c = Some k \<and> 1 \<le> j \<and> j \<le> dc_registered k \<and> i = of_nat j \<and> (dc_registered k < 65536 \<longrightarrow> dc_callbacks k i = Some e))"

definition answer_ok :: "UDPTransport \<Rightarrow> Msg \<Rightarrow> Msg \<Rightarrow> bool" where
  "answer_ok t message r \<longleftrightarrow> (\<exists>c m. (c, m) \<in> set (ut_received t) \<and> (c, message\<lparr>msg_Id := msg_Id m\<rparr>) \<in> set (ut_sent t) \<and>
     r = m\<lparr>msg_Id := msg_Id message\<rparr>)"

definition phase_inv :: "UDPTransport \<Rightarrow> nat \<Rightarrow> udp_exchange \<Rightarrow> bool" where
  "phase_inv t e x \<longleftrightarrow>
     (case ue_phase x of
        Sized \<Rightarrow> ue_answer x = None
      | Opened c \<Rightarrow> ue_answer x = None \<and> ut_conns t c \<noteq> None
      | Registered c i \<Rightarrow> flight_inv t e x c i
      | Selecting c i g \<Rightarrow> flight_inv t e x c i \<and> (c, (ue_message x)\<lparr>msg_Id := i\<rparr>) \<in> set (ut_sent t)
      | Finished (Inl err) \<Rightarrow> True
      | Finished (Inr r) \<Rightarrow> answer_ok t (ue_message x) r)"

definition udp_inv :: "UDPTransport \<Rightarrow> bool" where
  "udp_inv t \<longleftrightarrow> callbacks_inv t \<and> (\<forall>e x. ut_exchanges t e = Some x \<longrightarrow> phase_inv t e x)"

lemma NewUDPRaw_inv: "udp_inv NewUDPRaw"
  by (simp add: udp_inv_def callbacks_inv_def NewUDPRaw_def)

text \<open>What the steps leave alone.\<close>

lemmas udp_updates = set_exchange_def set_conn_def finish_def

lemma set_conn_quiet:
  assumes "udp_inv t" "ut_conns t c = Some k"
    and "dc_callbacks k' = dc_callbacks k" "dc_queryId k' = dc_queryId k" "dc_registered k' = dc_registered k"
  shows "udp_inv (set_conn c k' t)"
proof -
  have "phase_inv (set_conn c k' t) e x" if "phase_inv t e x" for e x
    using that assms(2-5) by (auto simp: phase_inv_def flight_inv_def answer_ok_def set_conn_def split: phase.splits sum.splits)
  moreover have "callbacks_inv (set_conn c k' t)"
    using assms unfolding udp_inv_def callbacks_inv_def by (auto simp: set_conn_def)
  ultimately show ?thesis using assms(1) by (auto simp: udp_inv_def set_conn_def)
qed

lemma close_conn_inv: "udp_inv t \<Longrightarrow> udp_inv (close_conn c err t)"
  unfolding close_conn_def by (auto split: option.splits intro!: set_conn_quiet simp: Connection_Close_def)

lemma end_loop_inv: "udp_inv t \<Longrightarrow> udp_inv (end_loop c err t)"
  unfolding end_loop_def by (auto split: option.splits intro!: set_conn_quiet simp: Connection_Close_def)

text \<open>Steps that only change a number, or add to what was sent and received.\<close>

lemma grow_inv:
  assumes "udp_inv t" "ut_conns t' = ut_conns t" "ut_exchanges t' = ut_exchanges t"
    and "set (ut_sent t) \<subseteq> set (ut_sent t')" "set (ut_received t) \<subseteq> set (ut_received t')"
  shows "udp_inv t'"
proof -
  have "phase_inv t' e x" if "phase_inv t e x" for e x
    using that assms(2-5) by (auto simp: phase_inv_def flight_inv_def answer_ok_def split: phase.splits sum.splits)
  with assms(1-3) show ?thesis by (auto simp: udp_inv_def callbacks_inv_def)
qed

text \<open>An exchange that is not in flight may change.\<close>

lemma phase_inv_other: "phase_inv (set_exchange e x t) e' x' = phase_inv t e' x'"
  by (simp add: phase_inv_def flight_inv_def answer_ok_def set_exchange_def split: phase.splits sum.splits)

lemma set_exchange_inv:
  assumes "udp_inv t" "phase_inv t e x'" "\<And>c k i. ut_conns t c = Some k \<Longrightarrow> dc_callbacks k i = Some e \<Longrightarrow> in_flight x' c i"
  shows "udp_inv (set_exchange e x' t)"
proof -
  have "callbacks_inv (set_exchange e x' t)"
    using assms(1,3) unfolding udp_inv_def callbacks_inv_def by (auto simp: set_exchange_def)
  moreover have "phase_inv (set_exchange e x' t) e' y" if "ut_exchanges (set_exchange e x' t) e' = Some y" for e' y
    using that assms(1,2) unfolding phase_inv_other by (auto simp: udp_inv_def set_exchange_def split: if_splits)
  ultimately show ?thesis by (simp add: udp_inv_def)
qed

lemma no_callback:
  assumes "udp_inv t" "ut_exchanges t e = Some x" "\<And>c i. \<not> in_flight x c i" "ut_conns t c = Some k"
  shows "dc_callbacks k i \<noteq> Some e"
  using assms unfolding udp_inv_def callbacks_inv_def by fastforce

lemma no_callback_new:
  assumes "udp_inv t" "ut_exchanges t e = None" "ut_conns t c = Some k"
  shows "dc_callbacks k i \<noteq> Some e"
  using assms unfolding udp_inv_def callbacks_inv_def by fastforce

text \<open>Returning: the callback is taken out of the map, and nothing else is lost.\<close>

lemma in_flight_inv:
  assumes "udp_inv t" "ut_exchanges t e = Some x" "in_flight x c i"
  shows "flight_inv t e x c i"
  using assms unfolding udp_inv_def phase_inv_def in_flight_def by (fastforce split: phase.splits)

lemma unregister_flight:
  assumes "flight_inv t e x c i" "flight_inv t e' x' c' i'" "e' \<noteq> e"
  shows "flight_inv (unregister c i t) e' x' c' i'"
  using assms by (auto simp: flight_inv_def unregister_def set_conn_def split: option.splits)

lemma unregister_phase:
  assumes "udp_inv t" "ut_exchanges t e = Some x" "in_flight x c i" "phase_inv t e' x'" "e' \<noteq> e"
  shows "phase_inv (unregister c i t) e' x'"
proof -
  note flight = unregister_flight [OF in_flight_inv [OF assms(1-3)] _ assms(5)]
  have "ut_sent (unregister c i t) = ut_sent t" "ut_received (unregister c i t) = ut_received t"
    "ut_conns (unregister c i t) c' = None \<longleftrightarrow> ut_conns t c' = None" for c'
    by (auto simp: unregister_def set_conn_def split: option.splits)
  then show ?thesis
    using assms(4) flight by (auto simp: phase_inv_def answer_ok_def split: phase.splits sum.splits)
qed

lemma returns_inv:
  assumes "udp_inv t" "ut_exchanges t e = Some x" "in_flight x c i" "\<And>r'. r = Inr r' \<Longrightarrow> answer_ok t (ue_message x) r'"
  shows "udp_inv (finish e x r (unregister c i t))"
proof -
  let ?t = "finish e x r (unregister c i t)"
  have ex: "ut_exchanges ?t = (ut_exchanges t)(e \<mapsto> x\<lparr>ue_phase := Finished r\<rparr>)"
    and keep: "ut_sent ?t = ut_sent t" "ut_received ?t = ut_received t"
    and conns: "ut_conns ?t c' = (if c' = c then map_option (\<lambda>k. k\<lparr>dc_callbacks := (dc_callbacks k)(i := None)\<rparr>) (ut_conns t c) else ut_conns t c')" for c'
    by (auto simp: finish_def unregister_def udp_updates split: option.splits)
  have "callbacks_inv ?t"
    unfolding callbacks_inv_def
  proof (intro allI impI conjI)
    fix c' k
    assume "ut_conns ?t c' = Some k"
    then obtain k0 where k0: "ut_conns t c' = Some k0" "dc_queryId k = dc_queryId k0" "dc_registered k = dc_registered k0"
      "dc_callbacks k = (if c' = c then (dc_callbacks k0)(i := None) else dc_callbacks k0)" by (auto simp: conns split: if_splits)
    then show "dc_queryId k = of_nat (dc_registered k)" using assms(1) by (simp add: udp_inv_def callbacks_inv_def)
    fix j e'
    assume e': "dc_callbacks k j = Some e'"
    with k0 have cb: "dc_callbacks k0 j = Some e'" "\<not> (c' = c \<and> j = i)" by (auto split: if_splits)
    then obtain y where y: "ut_exchanges t e' = Some y" "in_flight y c' j" using assms(1) k0(1) unfolding udp_inv_def callbacks_inv_def by blast
    with cb(2) assms(2,3) have "e' \<noteq> e" by (auto simp: in_flight_def)
    with y show "\<exists>x. ut_exchanges ?t e' = Some x \<and> in_flight x c' j" by (simp add: ex)
  qed
  moreover have "phase_inv ?t e' y" if "ut_exchanges ?t e' = Some y" for e' y
  proof (cases "e' = e")
    case True
    with that ex have "y = x\<lparr>ue_phase := Finished r\<rparr>" by simp
    moreover have "answer_ok ?t message r' = answer_ok t message r'" for message r' by (simp only: answer_ok_def keep)
    ultimately show ?thesis using assms(4) by (auto simp: phase_inv_def split: sum.splits)
  next
    case False
    with that ex have "ut_exchanges t e' = Some y" by simp
    then have "phase_inv t e' y" using assms(1) by (simp add: udp_inv_def)
    from unregister_phase [OF assms(1-3) this False] show ?thesis unfolding finish_def phase_inv_other .
  qed
  ultimately show ?thesis by (simp add: udp_inv_def)
qed

text \<open>Registration takes the next number.\<close>

lemma of_nat_u16_eq: "a < 65536 \<Longrightarrow> b < 65536 \<Longrightarrow> (of_nat a :: u16) = of_nat b \<longleftrightarrow> a = b"
  by (metis unat_u16)

lemma register_inv:
  assumes "udp_inv t" "ut_exchanges t e = Some x" "ue_phase x = Opened c" "register e c t = (i, t')"
  shows "udp_inv (set_exchange e (x\<lparr>ue_phase := Registered c i\<rparr>) t')"
proof -
  have x: "ue_answer x = None" "ut_conns t c \<noteq> None" "\<And>c i. \<not> in_flight x c i"
    using assms(1-3) by (fastforce simp: udp_inv_def phase_inv_def in_flight_def split: phase.splits)+
  then obtain k where k: "ut_conns t c = Some k" by blast
  then have q: "dc_queryId k = of_nat (dc_registered k)" using assms(1) by (simp add: udp_inv_def callbacks_inv_def)
  let ?k = "k\<lparr>dc_queryId := i, dc_callbacks := (dc_callbacks k)(i \<mapsto> e), dc_registered := dc_registered k + 1\<rparr>"
  have i: "i = of_nat (Suc (dc_registered k))" and t': "t' = set_conn c ?k t" using assms(4) by (auto simp: register_def k Let_def q)
  let ?x = "x\<lparr>ue_phase := Registered c i\<rparr>" and ?t = "set_exchange e (x\<lparr>ue_phase := Registered c i\<rparr>) t'"
  have others: "phase_inv t' e' y" if "ut_exchanges t e' = Some y" for e' y
  proof -
    have flight: "flight_inv t' e' y c' i'" if f: "flight_inv t e' y c' i'" for c' i'
    proof (cases "c' = c")
      case True
      with f k obtain j where j: "1 \<le> j" "j \<le> dc_registered k" "i' = of_nat j" "dc_registered k < 65536 \<longrightarrow> dc_callbacks k i' = Some e'"
        "\<forall>m. ue_answer y = Some m \<longrightarrow> (c, m) \<in> set (ut_received t) \<and> msg_Id m = i'" by (auto simp: flight_inv_def)
      have "i' \<noteq> i" if "Suc (dc_registered k) < 65536"
        unfolding i j(3) using of_nat_u16_eq [of j "Suc (dc_registered k)"] that j(2) by auto
      with j True show ?thesis unfolding flight_inv_def t'
        by (intro conjI exI [of _ ?k] exI [of _ j]) (auto simp: set_conn_def)
    next
      case False
      with f show ?thesis by (simp add: flight_inv_def t' set_conn_def)
    qed
    have "phase_inv t e' y" using assms(1) that by (simp add: udp_inv_def)
    then show ?thesis using flight
      by (auto simp: phase_inv_def answer_ok_def split: phase.splits sum.splits) (auto simp: t' set_conn_def)
  qed
  have own: "flight_inv t' e ?x c i"
    unfolding flight_inv_def using x(1)
    by (intro conjI exI [of _ ?k] exI [of _ "Suc (dc_registered k)"]) (auto simp: t' set_conn_def i)
  have "callbacks_inv ?t"
    unfolding callbacks_inv_def
  proof (intro allI impI conjI)
    fix c' k'
    assume k': "ut_conns ?t c' = Some k'"
    then show "dc_queryId k' = of_nat (dc_registered k')"
      using assms(1) by (auto simp: udp_inv_def callbacks_inv_def t' udp_updates i split: if_splits)
    fix j e'
    assume e': "dc_callbacks k' j = Some e'"
    show "\<exists>y. ut_exchanges ?t e' = Some y \<and> in_flight y c' j"
    proof (cases "c' = c \<and> j = i")
      case True
      with k' e' show ?thesis by (auto simp: t' udp_updates in_flight_def)
    next
      case False
      with k' e' have "\<exists>k0. ut_conns t c' = Some k0 \<and> dc_callbacks k0 j = Some e'"
        using k by (auto simp: t' udp_updates split: if_splits)
      then obtain k0 where k0: "ut_conns t c' = Some k0" "dc_callbacks k0 j = Some e'" by blast
      then obtain y where y: "ut_exchanges t e' = Some y" "in_flight y c' j" using assms(1) unfolding udp_inv_def callbacks_inv_def by blast
      with x(3) assms(2) have "e' \<noteq> e" by auto
      with y show ?thesis by (simp add: t' udp_updates)
    qed
  qed
  moreover have "phase_inv ?t e' y" if "ut_exchanges ?t e' = Some y" for e' y
    using that others [of e' y] own unfolding phase_inv_other by (auto simp: t' udp_updates phase_inv_def split: if_splits)
  ultimately show ?thesis by (simp add: udp_inv_def)
qed

text \<open>A message that is received goes to the exchange that waits for it.\<close>

lemma deliver_inv:
  assumes "udp_inv t" "(c, m) \<in> set (ut_received t)"
  shows "udp_inv (deliver c m t)"
proof (cases "\<exists>k e x. ut_conns t c = Some k \<and> dc_callbacks k (msg_Id m) = Some e \<and> ut_exchanges t e = Some x \<and> ue_answer x = None")
  case True
  then obtain k e x where *: "ut_conns t c = Some k" "dc_callbacks k (msg_Id m) = Some e" "ut_exchanges t e = Some x" "ue_answer x = None" by blast
  then have d: "deliver c m t = set_exchange e (x\<lparr>ue_answer := Some m\<rparr>) t" by (simp add: deliver_def)
  from *(1-3) have fl: "in_flight x c (msg_Id m)" using assms(1) unfolding udp_inv_def callbacks_inv_def by fastforce
  have "phase_inv t e x" using assms(1) *(3) by (simp add: udp_inv_def)
  with fl assms(2) have "phase_inv t e (x\<lparr>ue_answer := Some m\<rparr>)" by (auto simp: phase_inv_def flight_inv_def in_flight_def)
  moreover have "in_flight (x\<lparr>ue_answer := Some m\<rparr>) c' i" if "ut_conns t c' = Some k'" "dc_callbacks k' i = Some e" for c' k' i
    using that *(3) assms(1) unfolding udp_inv_def callbacks_inv_def by (fastforce simp: in_flight_def)
  ultimately show ?thesis unfolding d using assms(1) by (intro set_exchange_inv)
next
  case False
  then have "deliver c m t = t" by (auto simp: deliver_def split: option.splits)
  with assms(1) show ?thesis by simp
qed

lemma recv_round_inv:
  assumes "udp_inv t"
  shows "udp_inv (recv_round d c datagram t)"
proof -
  have "udp_inv (t\<lparr>ut_received := (c, m) # ut_received t\<rparr>)" for m by (rule grow_inv [OF assms]) auto
  then have "udp_inv (deliver c m (t\<lparr>ut_received := (c, m) # ut_received t\<rparr>))" for m by (rule deliver_inv) simp
  with assms show ?thesis
    by (auto simp: recv_round_def Let_def split: option.splits sum.splits intro: end_loop_inv set_conn_quiet)
qed

lemma open_inv:
  assumes "udp_inv t" "UDP_open dial t = (r, t')" "\<And>c. dial = Inr c \<Longrightarrow> ut_conns t c = None"
  shows "udp_inv t' \<and> ut_exchanges t' = ut_exchanges t \<and> (\<forall>c. r = Inr c \<longrightarrow> ut_conns t' c \<noteq> None)"
proof -
  let ?new = "\<lparr>dc_err = None, dc_queryId = 0, dc_callbacks = Map.empty, dc_buffer = ut_udpSize t, dc_loop = True, dc_registered = 0\<rparr>"
  consider "t' = t" "\<forall>c. r = Inr c \<longrightarrow> ut_conns t c \<noteq> None" |
    c where "dial = Inr c" "r = Inr c" "t' = (set_conn c ?new t)\<lparr>ut_conn := Some c\<rparr>"
    using assms(2) by (auto simp: UDP_open_def Let_def split: option.splits sum.splits if_splits)
  then show ?thesis
  proof cases
    case 1
    with assms(1) show ?thesis by simp
  next
    case c: (2 c)
  have none: "ut_conns t c = None" using assms(3) c(1) by simp
  have "phase_inv t' e x" if "phase_inv t e x" for e x
    using that none by (auto simp: c(3) phase_inv_def flight_inv_def answer_ok_def set_conn_def split: phase.splits sum.splits)
  moreover have "callbacks_inv t'" using assms(1) by (auto simp: udp_inv_def callbacks_inv_def c(3) set_conn_def)
  ultimately show ?thesis using assms(1) c by (auto simp: udp_inv_def set_conn_def)
  qed
qed

lemma udp_step_inv:
  assumes "udp_step d dd t t'" "udp_inv t"
  shows "udp_inv t'"
  using assms
proof induction
  case (begins t e message)
  have "udp_inv (exchange_size dd message t)" "ut_exchanges (exchange_size dd message t) e = None"
    using begins by (auto simp: exchange_size_def Let_def split: option.splits intro: grow_inv)
  then show ?case by (intro set_exchange_inv) (auto simp: phase_inv_def dest: no_callback_new)
next
  case (opens t e x dial c t')
  from open_inv [OF opens.prems opens.hyps(3,4)] have "udp_inv t'" "ut_exchanges t' e = Some x" "ut_conns t' c \<noteq> None" using opens.hyps(1) by auto
  moreover have "ue_answer x = None" "\<And>c i. \<not> in_flight x c i"
    using opens.prems opens.hyps(1,2) by (fastforce simp: udp_inv_def phase_inv_def in_flight_def split: phase.splits)+
  ultimately show ?case by (intro set_exchange_inv) (auto simp: phase_inv_def dest: no_callback)
next
  case (open_fails t e x dial err t')
  then have "t' = t" by (auto simp: UDP_open_def Let_def split: option.splits sum.splits if_splits)
  moreover have "\<And>c i. \<not> in_flight x c i" using open_fails.hyps(2) by (simp add: in_flight_def)
  ultimately show ?case unfolding finish_def using open_fails by (intro set_exchange_inv) (auto simp: phase_inv_def dest: no_callback)
next
  case (registers t e x c ident t')
  then show ?case by (intro register_inv)
next
  case (pack_fails t e x c ident err)
  then show ?case by (intro returns_inv) (auto simp: in_flight_def)
next
  case (write_fails t e x c ident b err)
  then show ?case by (intro returns_inv close_conn_inv) (auto simp: in_flight_def close_conn_def set_conn_def split: option.splits)
next
  case (writes t e x c ident b)
  let ?t = "t\<lparr>ut_sent := (c, (ue_message x)\<lparr>msg_Id := ident\<rparr>) # ut_sent t\<rparr>"
  have inv: "udp_inv ?t" by (rule grow_inv [OF writes.prems]) auto
  have "flight_inv ?t e x c ident" by (rule in_flight_inv [OF inv]) (use writes.hyps in \<open>simp_all add: in_flight_def\<close>)
  then have "phase_inv ?t e (x\<lparr>ue_phase := Selecting c ident (ut_done t)\<rparr>)" by (simp add: phase_inv_def flight_inv_def)
  moreover have "in_flight (x\<lparr>ue_phase := Selecting c ident (ut_done t)\<rparr>) c' i" if "ut_conns ?t c' = Some k" "dc_callbacks k i = Some e" for c' k i
    using that writes.hyps(1,2) inv unfolding udp_inv_def callbacks_inv_def by (fastforce simp: in_flight_def)
  ultimately show ?case using inv by (intro set_exchange_inv)
next
  case (answered t e x c ident g m)
  have fl: "in_flight x c ident" using answered.hyps(2) by (auto simp: in_flight_def)
  have "phase_inv t e x" using answered.hyps(1) answered.prems by (simp add: udp_inv_def)
  then have "(c, m) \<in> set (ut_received t)" "msg_Id m = ident" "(c, (ue_message x)\<lparr>msg_Id := ident\<rparr>) \<in> set (ut_sent t)"
    using answered.hyps(2,3) by (simp_all add: phase_inv_def flight_inv_def)
  then have "answer_ok t (ue_message x) (m\<lparr>msg_Id := msg_Id (ue_message x)\<rparr>)" unfolding answer_ok_def by blast
  with answered fl show ?case by (intro returns_inv) auto
next
  case (conn_done t e x c ident g k err)
  then show ?case by (intro returns_inv) (auto simp: in_flight_def)
next
  case (transport_done t e x c ident g)
  then show ?case by (intro returns_inv) (auto simp: in_flight_def)
next
  case (cancelled t e x c ident g err)
  then show ?case by (intro returns_inv close_conn_inv) (auto simp: in_flight_def close_conn_def set_conn_def split: option.splits)
next
  case (receives t c k datagram)
  then show ?case by (intro recv_round_inv)
next
  case (closes t)
  then show ?case by (rule grow_inv) (auto simp: UDP_Close_def)
qed

lemma udp_reachable_inv: "udp_reachable d dd t \<Longrightarrow> udp_inv t"
  by (induction rule: rtranclp_induct) (auto intro: NewUDPRaw_inv udp_step_inv)

text \<open>C15. Queries over UDP are not mixed up: in every state that the transport can reach, whatever the interleaving of queries, responses, errors and
  closings, an exchange that has returned a response has returned one that was received on the connection that its query was sent on, under
  the number of that query, with the number of the caller put back.\<close>

theorem udp_answer_matches:
  assumes "udp_reachable d dd t" "ut_exchanges t e = Some x" "ue_phase x = Finished (Inr r)"
  shows "\<exists>c m. (c, m) \<in> set (ut_received t) \<and> (c, (ue_message x)\<lparr>msg_Id := msg_Id m\<rparr>) \<in> set (ut_sent t) \<and>
    r = m\<lparr>msg_Id := msg_Id (ue_message x)\<rparr>"
proof -
  have "phase_inv t e x" using udp_reachable_inv [OF assms(1)] assms(2) by (simp add: udp_inv_def)
  then show ?thesis using assms(3) by (simp add: phase_inv_def answer_ok_def)
qed

text \<open>C16. A response over UDP is not lost: as long as fewer than 65536 queries were registered on the connection, a datagram with the number of a
  query that waits leads to the return of its message.\<close>

theorem udp_response_returned:
  assumes "udp_reachable d dd t" "ut_exchanges t e = Some x" "ue_phase x = Selecting c i g" "ue_answer x = None"
    and "ut_conns t c = Some k" "dc_loop k" "dc_registered k < 65536" "wd_Unpack d (take (dc_buffer k) b) = Inr m" "msg_Id m = i"
  shows "udp_step d dd t (recv_round d c (Inr b) t) \<and>
    (\<exists>t'. udp_step d dd (recv_round d c (Inr b) t) t' \<and>
       map_option ue_phase (ut_exchanges t' e) = Some (Finished (Inr (m\<lparr>msg_Id := msg_Id (ue_message x)\<rparr>))))"
proof
  let ?t = "recv_round d c (Inr b) t" and ?x = "x\<lparr>ue_answer := Some m\<rparr>"
  show "udp_step d dd t ?t" using assms(5,6) by (rule udp_step.receives)
  have "flight_inv t e x c i" by (rule in_flight_inv [OF udp_reachable_inv [OF assms(1)] assms(2)]) (simp add: in_flight_def assms(3))
  then have "dc_callbacks k (msg_Id m) = Some e" using assms(5,7,9) by (auto simp: flight_inv_def)
  then have "ut_exchanges ?t e = Some ?x"
    using assms(2,4,5,8) by (simp add: recv_round_def Let_def deliver_def udp_updates split: option.splits)
  moreover from this have "udp_step d dd ?t (finish e ?x (Inr (m\<lparr>msg_Id := msg_Id (ue_message x)\<rparr>)) (unregister c i ?t))"
    using udp_step.answered [of ?t e ?x c i g m d dd] assms(3) by simp
  ultimately show "\<exists>t'. udp_step d dd ?t t' \<and> map_option ue_phase (ut_exchanges t' e) = Some (Finished (Inr (m\<lparr>msg_Id := msg_Id (ue_message x)\<rparr>)))"
    by (intro exI [of _ "finish e ?x (Inr (m\<lparr>msg_Id := msg_Id (ue_message x)\<rparr>)) (unregister c i ?t)"]) (simp add: udp_updates)
qed

section \<open>Messages on streams\<close>

context io_reader
begin

lemma ReadMessage_returns:
  assumes "gives s (put_be 2 (of_nat (length raw) :: u16) @ raw @ rest)" "10 \<le> length raw" "length raw < 65536"
  shows "\<exists>s'. ReadMessage d Read s = Some (wd_Unpack d raw, s') \<and> gives s' rest"
proof -
  let ?h = "put_be 2 (of_nat (length raw) :: u16)"
  from ReadFull_returns [OF assms(1), of 2] obtain s1 where s1: "io_ReadFull Read 2 s = Some ((None, ?h), s1)" "gives s1 (raw @ rest)" by auto
  from ReadFull_returns [OF s1(2) refl] obtain s2 where s2: "io_ReadFull Read (length raw) s1 = Some ((None, raw), s2)" "gives s2 rest" by blast
  have "be16 (?h ! 0) (?h ! 1) = of_nat (length raw)" by (simp add: put_be_2 be16_put)
  then have "unat (be16 (?h ! 0) (?h ! 1)) = length raw" using assms(3) by (simp only: unat_u16)
  with s1(1) s2 assms(2) show ?thesis by (simp add: ReadMessage_def Let_def)
qed

end

definition wire_laws :: "wire_deps \<Rightarrow> Msg \<Rightarrow> bool" where
  "wire_laws d m \<longleftrightarrow> (\<forall>b. wd_Pack d m = Inr b \<longrightarrow> wd_Unpack d b = Inr m \<and> length b = wd_Len d m \<and> 10 \<le> length b \<and> length b < 65536)"

text \<open>Messages are read as they were written, however the stream is cut, if the length of a message does not change by compression.\<close>

lemma message_roundtrip:
  assumes "WriteMessage d ident m = Inr b" "wire_laws d (m\<lparr>msg_Id := ident\<rparr>)" "wd_Len d (m\<lparr>msg_Id := ident\<rparr>) = wd_Len d m" "concat cs = b @ rest"
  shows "\<exists>cs'. ReadMessage d conn_Read cs = Some (Inr (m\<lparr>msg_Id := ident\<rparr>), cs') \<and> concat cs' = rest"
proof -
  from assms(1) obtain raw where raw: "wd_Pack d (m\<lparr>msg_Id := ident\<rparr>) = Inr raw" "b = put_be 2 (of_nat (wd_Len d m) :: u16) @ raw"
    by (auto simp: WriteMessage_def split: sum.splits)
  with assms(2,3) have r: "wd_Unpack d raw = Inr (m\<lparr>msg_Id := ident\<rparr>)" "length raw = wd_Len d m" "10 \<le> length raw" "length raw < 65536"
    by (simp_all add: wire_laws_def)
  from conn.ReadMessage_returns [OF _ r(3,4), of cs rest d] r(1,2) raw(2) assms(4) show ?thesis by simp
qed

text \<open>A message that compression makes shorter is announced with its length before: the reader waits for bytes that do not come.\<close>

lemma compressed_message_misframed:
  assumes "WriteMessage d ident m = Inr b" "wd_Pack d (m\<lparr>msg_Id := ident\<rparr>) = Inr raw" "length raw < wd_Len d m" "10 \<le> wd_Len d m" "wd_Len d m < 65536"
  shows "\<exists>err cs. ReadMessage d conn_Read [b] = Some (Inl err, cs)"
proof -
  let ?h = "put_be 2 (of_nat (wd_Len d m) :: u16)"
  have b: "b = ?h @ raw" using assms(1,2) by (simp add: WriteMessage_def)
  have h: "be16 (?h ! 0) (?h ! 1) = of_nat (wd_Len d m)" "length ?h = 2" by (simp_all add: put_be_2 be16_put)
  have n: "unat (be16 (?h ! 0) (?h ! 1)) = wd_Len d m" unfolding h(1) using assms(5) by (simp only: unat_u16)
  have "io_ReadFull conn_Read 2 [b] = Some ((None, ?h), if raw = [] then [] else [raw])"
    unfolding io_ReadFull_def b by (subst read_missing.simps, subst read_missing.simps) (simp add: h(2))
  moreover have "\<exists>p. io_ReadFull conn_Read (wd_Len d m) (if raw = [] then [] else [raw]) =
      Some ((Some (if raw = [] then io_EOF else EUnexpectedEOF), p), [])"
    unfolding io_ReadFull_def using assms(3,4)
    by (subst read_missing.simps, subst read_missing.simps) auto
  ultimately show ?thesis using n assms(4) by (auto simp: ReadMessage_def Let_def)
qed

section \<open>Connections over TLS\<close>

text \<open>A connection in the pool has as many responses as queries, and its number is the number of queries.\<close>

definition in_sync :: "tlsDNSConn \<Rightarrow> bool" where
  "in_sync c \<longleftrightarrow> length (tc_read c) = length (tc_written c) \<and> tc_queryId c = of_nat (length (tc_written c))"

lemma tls_exchange_in_sync:
  assumes "tls_exchange d message conn t = Some (r, t')" "in_sync conn" "\<forall>c\<in>set (tt_connections t). in_sync c"
  shows "(\<forall>c\<in>set (tt_connections t'). in_sync c) \<and> (\<forall>response. r = Inr response \<longrightarrow>
    (\<exists>c b. c \<in> set (tt_connections t') \<and> WriteMessage d (tc_queryId c) message = Inr b \<and> last (tc_written c) = b \<and> last (tc_read c) = response))"
  using assms by (auto simp: tls_exchange_def in_sync_def Let_def split: sum.splits option.splits)
    (intro exI conjI, rule disjI1, rule refl, simp_all)

theorem tls_pool_in_sync:
  assumes "TLS_Exchange d dial message t = Some (r, t')" "\<forall>c\<in>set (tt_connections t). in_sync c"
  shows "(\<forall>c\<in>set (tt_connections t'). in_sync c) \<and> (\<forall>response. r = Inr response \<longrightarrow>
    (\<exists>c b. c \<in> set (tt_connections t') \<and> WriteMessage d (tc_queryId c) message = Inr b \<and> last (tc_written c) = b \<and> last (tc_read c) = response))"
proof -
  have dial: "(\<forall>c\<in>set (tt_connections t'). in_sync c) \<and> (\<forall>response. r = Inr response \<longrightarrow>
    (\<exists>c b. c \<in> set (tt_connections t') \<and> WriteMessage d (tc_queryId c) message = Inr b \<and> last (tc_written c) = b \<and> last (tc_read c) = response))"
    if "tls_dial_exchange d dial message t0 = Some (r, t')" "\<forall>c\<in>set (tt_connections t0). in_sync c" for t0
  proof (cases dial)
    case (Inl err)
    with that show ?thesis by (auto simp: tls_dial_exchange_def)
  next
    case (Inr conn)
    with that(1) have "tls_exchange d message (newTLSConn conn) t0 = Some (r, t')" by (simp add: tls_dial_exchange_def)
    then show ?thesis by (rule tls_exchange_in_sync) (use that(2) in \<open>simp_all add: in_sync_def newTLSConn_def\<close>)
  qed
  show ?thesis
  proof (cases "tt_connections t")
    case Nil
    with assms(1) have "tls_dial_exchange d dial message t = Some (r, t')" by (simp add: TLS_Exchange_def)
    then show ?thesis using assms(2) by (rule dial)
  next
    case (Cons conn conns)
    with assms(1) obtain r1 t1 where x: "tls_exchange d message conn (t\<lparr>tt_connections := conns\<rparr>) = Some (r1, t1)"
      by (auto simp: TLS_Exchange_def split: option.splits)
    have sync: "in_sync conn" "\<forall>c\<in>set (tt_connections (t\<lparr>tt_connections := conns\<rparr>)). in_sync c" using assms(2) Cons by simp_all
    note one = tls_exchange_in_sync [OF x sync]
    show ?thesis
    proof (cases r1)
      case (Inl err)
      with assms(1) Cons x have "tls_dial_exchange d dial message t1 = Some (r, t')" by (simp add: TLS_Exchange_def)
      then show ?thesis using one by (intro dial) auto
    next
      case (Inr response)
      with assms(1) Cons x have "r = r1" "t' = t1" by (simp_all add: TLS_Exchange_def)
      with one show ?thesis by simp
    qed
  qed
qed

section \<open>Runs\<close>

definition sample_wire :: wire_deps where
  "sample_wire = \<lparr>wd_Len = (\<lambda>m. 12), wd_Pack = (\<lambda>m. Inr (replicate 12 0)),
     wd_Unpack = (\<lambda>b. if length b = 12 then Inr (Msg_zero\<lparr>msg_Id := 1, msg_Response := True\<rparr>) else Inl EInvalid)\<rparr>"

definition sample_udp_query :: Msg where
  "sample_udp_query = Msg_zero\<lparr>msg_Id := 42\<rparr>"

definition sample_phase :: "phase \<Rightarrow> udp_exchange" where
  "sample_phase p = \<lparr>ue_message = sample_udp_query, ue_phase = p, ue_answer = None\<rparr>"

definition sample_opened :: UDPTransport where
  "sample_opened = set_exchange 0 (sample_phase (Opened 7))
     (snd (UDP_open (Inr 7) (set_exchange 0 (sample_phase Sized) (exchange_size sample_dns sample_udp_query NewUDPRaw))))"

definition sample_waiting :: UDPTransport where
  "sample_waiting = (let t = set_exchange 0 (sample_phase (Registered 7 1)) (snd (register 0 7 sample_opened))
     in set_exchange 0 (sample_phase (Selecting 7 1 0)) (t\<lparr>ut_sent := [(7, sample_udp_query\<lparr>msg_Id := 1\<rparr>)]\<rparr>))"

lemma sample_waiting_state:
  "sample_waiting = \<lparr>ut_udpSize = 2048, ut_conn = Some 7, ut_done = 0,
     ut_conns = [7 \<mapsto> \<lparr>dc_err = None, dc_queryId = 1, dc_callbacks = [1 \<mapsto> 0], dc_buffer = 2048, dc_loop = True, dc_registered = 1\<rparr>],
     ut_exchanges = [0 \<mapsto> sample_phase (Selecting 7 1 0)], ut_sent = [(7, sample_udp_query\<lparr>msg_Id := 1\<rparr>)], ut_received = []\<rparr>"
  by (simp add: sample_waiting_def sample_opened_def NewUDPRaw_def UDP_open_def register_def exchange_size_def udp_updates sample_dns_def Let_def)

lemma sample_waiting_reachable: "udp_reachable sample_wire sample_dns sample_waiting"
proof -
  let ?s1 = "set_exchange 0 (sample_phase Sized) (exchange_size sample_dns sample_udp_query NewUDPRaw)"
  let ?s3 = "set_exchange 0 (sample_phase (Registered 7 1)) (snd (register 0 7 sample_opened))"
  have 1: "udp_step sample_wire sample_dns NewUDPRaw ?s1"
    unfolding sample_phase_def by (rule udp_step.begins) (simp add: NewUDPRaw_def)
  have 2: "udp_step sample_wire sample_dns ?s1 sample_opened"
    using udp_step.opens [of ?s1 0 "sample_phase Sized" "Inr 7" 7 "snd (UDP_open (Inr 7) ?s1)" sample_wire sample_dns]
    by (simp add: sample_opened_def sample_phase_def exchange_size_def sample_dns_def NewUDPRaw_def udp_updates UDP_open_def)
  have 3: "udp_step sample_wire sample_dns sample_opened ?s3"
    using udp_step.registers [of sample_opened 0 "sample_phase (Opened 7)" 7 1 "snd (register 0 7 sample_opened)" sample_wire sample_dns]
    by (simp add: sample_opened_def sample_phase_def exchange_size_def sample_dns_def NewUDPRaw_def udp_updates UDP_open_def register_def)
  have 4: "udp_step sample_wire sample_dns ?s3 sample_waiting"
    using udp_step.writes [of ?s3 0 "sample_phase (Registered 7 1)" 7 1 sample_wire "replicate 12 0" sample_dns]
    by (simp add: sample_waiting_def sample_wire_def sample_opened_def sample_phase_def exchange_size_def sample_dns_def NewUDPRaw_def udp_updates
        UDP_open_def register_def Let_def)
  from 1 2 3 4 show ?thesis by (meson converse_rtranclp_into_rtranclp rtranclp.rtrancl_refl)
qed

theorem udp_response_returned_witness:
  "\<exists>t'. udp_step sample_wire sample_dns (recv_round sample_wire 7 (Inr (replicate 12 0)) sample_waiting) t' \<and>
     map_option ue_phase (ut_exchanges t' 0) = Some (Finished (Inr (Msg_zero\<lparr>msg_Id := 42, msg_Response := True\<rparr>)))"
proof -
  let ?k = "\<lparr>dc_err = None, dc_queryId = 1, dc_callbacks = [1 \<mapsto> 0], dc_buffer = 2048, dc_loop = True, dc_registered = 1\<rparr>"
  have "ut_exchanges sample_waiting 0 = Some (sample_phase (Selecting 7 1 0))" "ut_conns sample_waiting 7 = Some ?k"
    by (simp_all add: sample_waiting_state)
  from udp_response_returned [OF sample_waiting_reachable this(1) _ _ this(2), of 1 0 "replicate 12 0" "Msg_zero\<lparr>msg_Id := 1, msg_Response := True\<rparr>"]
  show ?thesis by (simp add: sample_phase_def sample_wire_def sample_udp_query_def Msg_zero_def)
qed

definition sample_received :: UDPTransport where
  "sample_received = recv_round sample_wire 7 (Inr (replicate 12 0)) sample_waiting"

definition sample_answer :: Msg where
  "sample_answer = Msg_zero\<lparr>msg_Id := 1, msg_Response := True\<rparr>"

definition sample_finished :: UDPTransport where
  "sample_finished = finish 0 ((sample_phase (Selecting 7 1 0))\<lparr>ue_answer := Some sample_answer\<rparr>) (Inr (sample_answer\<lparr>msg_Id := 42\<rparr>))
     (unregister 7 1 sample_received)"

lemma sample_received_state:
  "ut_exchanges sample_received 0 = Some ((sample_phase (Selecting 7 1 0))\<lparr>ue_answer := Some sample_answer\<rparr>)"
  "ut_received sample_received = [(7, sample_answer)]" "ut_sent sample_received = [(7, sample_udp_query\<lparr>msg_Id := 1\<rparr>)]"
  by (simp_all add: sample_received_def recv_round_def deliver_def sample_waiting_state sample_wire_def sample_answer_def sample_phase_def udp_updates)

theorem udp_answer_matches_witness:
  "\<exists>c m. (c, m) \<in> set (ut_received sample_finished) \<and> (c, sample_udp_query\<lparr>msg_Id := msg_Id m\<rparr>) \<in> set (ut_sent sample_finished) \<and>
     Msg_zero\<lparr>msg_Id := 42, msg_Response := True\<rparr> = m\<lparr>msg_Id := msg_Id sample_udp_query\<rparr>"
proof -
  let ?x = "(sample_phase (Selecting 7 1 0))\<lparr>ue_answer := Some sample_answer\<rparr>"
  have "udp_step sample_wire sample_dns sample_waiting sample_received"
    unfolding sample_received_def by (rule udp_step.receives) (simp add: sample_waiting_state, simp)
  moreover have "udp_step sample_wire sample_dns sample_received sample_finished"
    using udp_step.answered [of sample_received 0 ?x 7 1 0 sample_answer sample_wire sample_dns] sample_received_state(1)
    by (simp add: sample_finished_def sample_phase_def sample_udp_query_def)
  ultimately have "udp_reachable sample_wire sample_dns sample_finished"
    using sample_waiting_reachable by (meson rtranclp.rtrancl_into_rtrancl)
  moreover have "ut_exchanges sample_finished 0 = Some (?x\<lparr>ue_phase := Finished (Inr (sample_answer\<lparr>msg_Id := 42\<rparr>))\<rparr>)"
    by (simp add: sample_finished_def udp_updates)
  ultimately have "\<exists>c m. (c, m) \<in> set (ut_received sample_finished) \<and> (c, sample_udp_query\<lparr>msg_Id := msg_Id m\<rparr>) \<in> set (ut_sent sample_finished) \<and>
      sample_answer\<lparr>msg_Id := 42\<rparr> = m\<lparr>msg_Id := msg_Id sample_udp_query\<rparr>"
    using udp_answer_matches [of sample_wire sample_dns sample_finished 0 "?x\<lparr>ue_phase := Finished (Inr (sample_answer\<lparr>msg_Id := 42\<rparr>))\<rparr>"]
    by (simp add: sample_phase_def)
  then show ?thesis by (simp add: sample_answer_def Msg_zero_def)
qed

text \<open>A query that announces larger responses does not enlarge the buffer of the receive loop that waits already: the first larger response is
  cut off, and if it cannot be unpacked then the connection is closed.\<close>

lemma larger_response_closes:
  assumes "ut_conns t c = Some k" "dc_err k = None" "wd_Unpack d (take (dc_buffer k) b) = Inl err"
  shows "map_option dc_err (ut_conns (recv_round d c (Inr b) (exchange_size dd message t)) c) = Some (Some err)"
  using assms by (auto simp: recv_round_def end_loop_def Connection_Close_def exchange_size_def set_conn_def Let_def split: option.splits)

end
