(* ===== verification/Hosts.thy ===== *)
theory Hosts
  imports DnsClient FakeIP
begin

text \<open>
  The DNS transport of hosts files (\<^verbatim>\<open>dns/transport/hosts\<close>): predefined addresses, and files that are read again when they have changed.
  What the file system shows is an argument: the time of modification and the size of the file, and its content with an error of reading
  behind it. Times are in nanoseconds; the zero time is 0. \<^verbatim>\<open>dns.CanonicalName\<close> is a parameter. \<^verbatim>\<open>strings.Fields\<close> is given for
  ASCII spaces.
\<close>

section \<open>Lines and fields\<close>

definition is_field_space :: "char \<Rightarrow> bool" where
  "is_field_space c \<longleftrightarrow> c \<in> {CHR 0x09, CHR 0x0A, CHR 0x0B, CHR 0x0C, CHR 0x0D, CHR '' ''}"

fun fields_from :: "string \<Rightarrow> string \<Rightarrow> string list" where
  "fields_from word [] = (if word = [] then [] else [rev word])"
| "fields_from word (c # s) =
     (if is_field_space c then (if word = [] then [] else [rev word]) @ fields_from [] s else fields_from (c # word) s)"

definition strings_Fields :: "string \<Rightarrow> string list" where
  "strings_Fields s = fields_from [] s"

text \<open>\<^verbatim>\<open>bufio.Reader.ReadLine\<close> with the default buffer gives a long line in pieces; a piece that is not the last is marked.\<close>

abbreviation piece :: "string \<Rightarrow> string" where
  "piece s \<equiv> (if last (take 4096 s) = CHR 0x0D then butlast (take 4096 s) else take 4096 s)"

function line_pieces :: "bool \<Rightarrow> string \<Rightarrow> (string \<times> bool) list" where
  "line_pieces terminated s =
     (if length s < 4096
      then (if terminated then [(if s \<noteq> [] \<and> last s = CHR 0x0D then butlast s else s, False)] else if s = [] then [] else [(s, False)])
      else (piece s, True) # line_pieces terminated (drop (length (piece s)) s))"
  by pat_completeness auto
termination
proof (relation "measure (\<lambda>(terminated, s). length s)", simp)
  fix terminated :: bool and s :: string
  assume "\<not> length s < 4096"
  then have "4095 \<le> length (piece s)" by simp
  then show "((terminated, drop (length (piece s)) s), terminated, s) \<in> measure (\<lambda>(terminated, s). length s)"
    using \<open>\<not> length s < 4096\<close> by simp
qed

declare line_pieces.simps [simp del]

fun read_lines :: "string list \<Rightarrow> (string \<times> bool) list" where
  "read_lines [] = []"
| "read_lines [l] = line_pieces False l"
| "read_lines (l # ls) = line_pieces True l @ read_lines ls"

section \<open>Hosts files\<close>

record hosts_deps =
  hd_CanonicalName :: "string \<Rightarrow> string"
  hd_ParseAddr :: "string \<Rightarrow> Addr res"

record file_view =
  fv_stat :: "(int \<times> int) res"
  fv_content :: "(string \<times> goerr option) res"

definition cacheMaxAge :: int where "cacheMaxAge = 5 * 10 ^ 9"

type_synonym names = "(string \<times> Addr list) list"

record File =
  hf_byName :: names
  hf_expire :: int
  hf_modTime :: int
  hf_size :: int

definition NewFile :: File where
  "NewFile = \<lparr>hf_byName = [], hf_expire = 0, hf_modTime = 0, hf_size = 0\<rparr>"

definition addresses_of :: "names \<Rightarrow> string \<Rightarrow> Addr list" where
  "addresses_of byName name = (case map_of byName name of None \<Rightarrow> [] | Some as \<Rightarrow> as)"

definition add_name :: "hosts_deps \<Rightarrow> Addr \<Rightarrow> string \<Rightarrow> names \<Rightarrow> names" where
  "add_name d addr field byName =
     (let name = hd_CanonicalName d field in AList.update name (addresses_of byName name @ [addr]) byName)"

definition hosts_line :: "hosts_deps \<Rightarrow> string \<Rightarrow> names \<Rightarrow> names" where
  "hosts_line d line byName =
     (let line = (case index_of CHR ''#'' line of None \<Rightarrow> line | Some i \<Rightarrow> take i line); fields = strings_Fields line
      in if length fields < 2 then byName
         else case hd_ParseAddr d (fields ! 0) of
           Inl err \<Rightarrow> byName
         | Inr addr \<Rightarrow> fold (add_name d addr) (drop 1 fields) byName)"

fun hosts_lines :: "hosts_deps \<Rightarrow> (string \<times> bool) list \<Rightarrow> string \<Rightarrow> names \<Rightarrow> names" where
  "hosts_lines d [] pre byName = byName"
| "hosts_lines d ((line, isPrefix) # ls) pre byName =
     (if isPrefix then hosts_lines d ls (pre @ line) byName else hosts_lines d ls [] (hosts_line d (pre @ line) byName))"

definition read_hosts :: "hosts_deps \<Rightarrow> string \<Rightarrow> names" where
  "read_hosts d content = hosts_lines d (read_lines (strings_Split CHR 0x0A content)) [] []"

definition File_update :: "hosts_deps \<Rightarrow> int \<Rightarrow> file_view \<Rightarrow> File \<Rightarrow> File" where
  "File_update d now v f =
     (if now < hf_expire f \<and> length (hf_byName f) > 0 then f
      else case fv_stat v of
        Inl err \<Rightarrow> f
      | Inr (modTime, sz) \<Rightarrow>
          if hf_modTime f = modTime \<and> hf_size f = sz then f\<lparr>hf_expire := now + cacheMaxAge\<rparr>
          else case fv_content v of
            Inl err \<Rightarrow> f
          | Inr (content, Some err) \<Rightarrow> f
          | Inr (content, None) \<Rightarrow>
              \<lparr>hf_byName = read_hosts d content, hf_expire = now + cacheMaxAge, hf_modTime = modTime, hf_size = sz\<rparr>)"

definition File_Lookup :: "hosts_deps \<Rightarrow> int \<Rightarrow> file_view \<Rightarrow> string \<Rightarrow> File \<Rightarrow> Addr list \<times> File" where
  "File_Lookup d now v name f =
     (let f = File_update d now v f in (addresses_of (hf_byName f) (hd_CanonicalName d name), f))"

section \<open>The transport\<close>

record HostsTransport =
  ht_files :: "File list"
  ht_predefined :: "string \<rightharpoonup> Addr list"

definition NewHostsTransport :: "hosts_deps \<Rightarrow> string list \<Rightarrow> (string \<times> Addr list) list \<Rightarrow> HostsTransport" where
  "NewHostsTransport d paths predefined =
     \<lparr>ht_files = (if length paths = 0 then [NewFile] else map (\<lambda>path. NewFile) paths),
      ht_predefined = fold (\<lambda>(key, value) m. m(hd_CanonicalName d key \<mapsto> value)) predefined Map.empty\<rparr>"

text \<open>The files are asked in order until one knows the name; only those are updated. \<open>vs\<close> is what the files look like.\<close>

fun lookup_files :: "hosts_deps \<Rightarrow> int \<Rightarrow> file_view list \<Rightarrow> string \<Rightarrow> File list \<Rightarrow> Addr list \<times> File list" where
  "lookup_files d now (v # vs) name (f # fs) =
     (case File_Lookup d now v name f of
        (addresses, f) \<Rightarrow>
          if length addresses > 0 then (addresses, f # fs)
          else case lookup_files d now vs name fs of (addresses, fs) \<Rightarrow> (addresses, f # fs))"
| "lookup_files d now vs name fs = ([], fs)"

definition Hosts_Exchange :: "hosts_deps \<Rightarrow> int \<Rightarrow> file_view list \<Rightarrow> Msg \<Rightarrow> HostsTransport \<Rightarrow> Msg res \<times> HostsTransport" where
  "Hosts_Exchange d now vs message t =
     (case msg_Question message of
        [] \<Rightarrow> (Inl (GoPanic [ArgS ''index out of range'']), t)
      | question # _ \<Rightarrow>
          let domain = hd_CanonicalName d (q_Name question);
              nx = Inr (Msg_zero\<lparr>msg_Id := msg_Id message, msg_Rcode := RcodeNameError, msg_Response := True, msg_Question := [question]\<rparr>)
          in if q_Qtype question = TypeA \<or> q_Qtype question = TypeAAAA then
               (case ht_predefined t domain of
                  Some addresses \<Rightarrow> (Inr (FixedResponse (msg_Id message) question addresses DefaultDNSTTL), t)
                | None \<Rightarrow>
                    (case lookup_files d now vs domain (ht_files t) of
                       (addresses, fs) \<Rightarrow>
                         (if length addresses > 0 then Inr (FixedResponse (msg_Id message) question addresses DefaultDNSTTL) else nx,
                          t\<lparr>ht_files := fs\<rparr>)))
             else (nx, t))"

section \<open>Lines are read whole\<close>

definition chomp :: "string \<Rightarrow> string" where
  "chomp s = (if s \<noteq> [] \<and> last s = CHR 0x0D then butlast s else s)"

lemma chomp_append: "r \<noteq> [] \<Longrightarrow> chomp (p @ r) = p @ chomp r"
  by (simp add: chomp_def butlast_append)

lemma piece_drop: "\<not> length s < 4096 \<Longrightarrow> piece s @ drop (length (piece s)) s = s"
proof -
  assume n: "\<not> length s < 4096"
  then have "butlast (take 4096 s) = take 4095 s" using butlast_take [of 4096 s] by simp
  with n show ?thesis by simp
qed

lemma piece_chomp: "\<not> length s < 4096 \<Longrightarrow> piece s @ chomp (drop (length (piece s)) s) = chomp s"
proof -
  assume n: "\<not> length s < 4096"
  let ?p = "piece s" and ?r = "drop (length (piece s)) s"
  have s: "?p @ ?r = s" by (rule piece_drop [OF n])
  show ?thesis
  proof (cases "?r = []")
    case True
    then have "piece s = s" using s by simp
    moreover have "last s \<noteq> CHR 0x0D"
    proof (cases "last (take 4096 s) = CHR 0x0D")
      case cr: True
      with n have "length (piece s) = 4095" by simp
      with \<open>piece s = s\<close> n show ?thesis by simp
    next
      case False
      with \<open>piece s = s\<close> show ?thesis by simp
    qed
    ultimately show ?thesis using True by (simp add: chomp_def)
  next
    case False
    from chomp_append [OF this, of ?p] show ?thesis unfolding s by (rule sym)
  qed
qed

lemma hosts_lines_pieces:
  "hosts_lines d (line_pieces True s @ ls) pre byName = hosts_lines d ls [] (hosts_line d (pre @ chomp s) byName)"
proof (induction "True" s arbitrary: pre rule: line_pieces.induct)
  case (1 s)
  show ?case
  proof (cases "length s < 4096")
    case True
    then show ?thesis by (subst line_pieces.simps) (simp add: chomp_def)
  next
    case False
    have "hosts_lines d (line_pieces True s @ ls) pre byName =
        hosts_lines d (line_pieces True (drop (length (piece s)) s) @ ls) (pre @ piece s) byName"
      using False by (subst line_pieces.simps) (simp only: if_False append_Cons hosts_lines.simps if_True)
    also have "\<dots> = hosts_lines d ls [] (hosts_line d ((pre @ piece s) @ chomp (drop (length (piece s)) s)) byName)" by (rule "1" [OF False])
    finally show ?thesis using piece_chomp [OF False] by (simp only: append_assoc)
  qed
qed

text \<open>A file whose lines all end is the sequence of its lines, however long they are.\<close>

lemma read_hosts_lines:
  assumes "strings_Split CHR 0x0A content = ls @ [[]]"
  shows "read_hosts d content = fold (\<lambda>l. hosts_line d (chomp l)) ls []"
proof -
  have "hosts_lines d (read_lines (ls @ [[]])) [] byName = fold (\<lambda>l. hosts_line d (chomp l)) ls byName" for byName
  proof (induction ls arbitrary: byName)
    case Nil
    then show ?case by (simp add: line_pieces.simps)
  next
    case (Cons l ls)
    have "read_lines ((l # ls) @ [[]]) = line_pieces True l @ read_lines (ls @ [[]])" by (cases ls) simp_all
    then show ?case by (simp only: hosts_lines_pieces) (simp add: Cons.IH)
  qed
  with assms show ?thesis by (simp add: read_hosts_def)
qed

section \<open>Freshness\<close>

text \<open>Views of a file, which can be read or not; the time of modification and the size tell contents apart.\<close>

definition readable :: "file_view \<Rightarrow> int \<Rightarrow> int \<Rightarrow> string \<Rightarrow> bool" where
  "readable v modTime sz content \<longleftrightarrow> fv_stat v = Inr (modTime, sz) \<and> fv_content v = Inr (content, None)"

definition can_read :: "file_view \<Rightarrow> bool" where
  "can_read v \<longleftrightarrow> (\<exists>modTime sz content. readable v modTime sz content)"

definition honest :: "(int \<times> file_view) list \<Rightarrow> bool" where
  "honest vs \<longleftrightarrow> (\<forall>now v modTime sz. (now, v) \<in> set vs \<longrightarrow> fv_stat v = Inr (modTime, sz) \<longrightarrow> 0 < modTime \<and>
     (\<forall>now' v'. (now', v') \<in> set vs \<longrightarrow> fv_stat v' = Inr (modTime, sz) \<longrightarrow> fv_content v' = fv_content v))"

definition updates :: "hosts_deps \<Rightarrow> (int \<times> file_view) list \<Rightarrow> File" where
  "updates d vs = fold (\<lambda>(now, v). File_update d now v) vs NewFile"

text \<open>The names are those of the file at a time that is less than the age of the cache before every time at which it could be read.\<close>

definition checked :: "hosts_deps \<Rightarrow> (int \<times> file_view) list \<Rightarrow> File \<Rightarrow> bool" where
  "checked d vs f \<longleftrightarrow> (\<exists>now v content. (now, v) \<in> set vs \<and> hf_expire f = now + cacheMaxAge \<and>
     readable v (hf_modTime f) (hf_size f) content \<and> hf_byName f = read_hosts d content \<and>
     (\<forall>t w. (t, w) \<in> set vs \<longrightarrow> can_read w \<longrightarrow> t < now + cacheMaxAge))"

definition unread :: "(int \<times> file_view) list \<Rightarrow> File \<Rightarrow> bool" where
  "unread vs f \<longleftrightarrow> f = NewFile \<and> (\<forall>t w. (t, w) \<in> set vs \<longrightarrow> \<not> can_read w)"

lemma honest_prefix: "honest (vs @ vs') \<Longrightarrow> honest vs"
  unfolding honest_def set_append by blast

lemma File_update_cases:
  obtains (kept) "File_update d now v f = f" "now < hf_expire f" "hf_byName f \<noteq> []"
  | (failed) "File_update d now v f = f" "\<not> can_read v" 
  | (same) "File_update d now v f = f\<lparr>hf_expire := now + cacheMaxAge\<rparr>" "fv_stat v = Inr (hf_modTime f, hf_size f)"
  | (loaded) modTime sz content where "readable v modTime sz content"
      "File_update d now v f = \<lparr>hf_byName = read_hosts d content, hf_expire = now + cacheMaxAge, hf_modTime = modTime, hf_size = sz\<rparr>"
proof (cases "now < hf_expire f \<and> hf_byName f \<noteq> []")
  case True
  then show ?thesis using kept by (simp add: File_update_def)
next
  case False
  then have miss: "\<not> (now < hf_expire f \<and> length (hf_byName f) > 0)" by simp
  show ?thesis
  proof (cases "fv_stat v")
    case (Inl err)
    then show ?thesis using failed miss unfolding File_update_def if_not_P [OF miss] by (simp add: can_read_def readable_def)
  next
    case (Inr x)
    obtain modTime sz where x: "x = (modTime, sz)" by force
    show ?thesis
    proof (cases "hf_modTime f = modTime \<and> hf_size f = sz")
      case True
      then show ?thesis using same Inr unfolding File_update_def if_not_P [OF miss] by (simp add: x)
    next
      case False
      then show ?thesis using failed loaded Inr unfolding File_update_def if_not_P [OF miss]
        by (cases "fv_content v"; cases "snd (projr (fv_content v))"; cases "projr (fv_content v)") (auto simp: x can_read_def readable_def)
    qed
  qed
qed

lemma update_checked:
  assumes "honest (vs @ [(now, v)])" "\<forall>t\<in>fst ` set vs. t \<le> now" "unread vs f \<or> checked d vs f"
  shows "unread (vs @ [(now, v)]) (File_update d now v f) \<or> checked d (vs @ [(now, v)]) (File_update d now v f)"
proof -
  have young: "t < now + cacheMaxAge" if "(t, w) \<in> set (vs @ [(now, v)])" for t w
    using that assms(2) by (force simp: cacheMaxAge_def)
  show ?thesis
  proof (cases rule: File_update_cases [of d now v f])
    case kept
    with assms(3) have "checked d vs f" by (auto simp: unread_def NewFile_def)
    with kept show ?thesis unfolding checked_def by fastforce
  next
    case failed
    with assms(3) show ?thesis unfolding checked_def unread_def by fastforce
  next
    case same
    have "(now, v) \<in> set (vs @ [(now, v)])" by simp
    with assms(1) same(2) have law: "0 < hf_modTime f" "\<And>now' v'. (now', v') \<in> set vs \<Longrightarrow> fv_stat v' = Inr (hf_modTime f, hf_size f) \<Longrightarrow> fv_content v' = fv_content v"
      unfolding honest_def set_append by blast+
    with assms(3) obtain now' v' content where v': "(now', v') \<in> set vs" "readable v' (hf_modTime f) (hf_size f) content" "hf_byName f = read_hosts d content"
      by (auto simp: unread_def NewFile_def checked_def)
    then have "readable v (hf_modTime f) (hf_size f) content" using law(2) [of now' v'] same(2) by (simp add: readable_def)
    with same v'(3) young show ?thesis
      unfolding checked_def by (intro disjI2 exI [of _ now] exI [of _ v] exI [of _ content]) auto
  next
    case (loaded modTime sz content)
    with young show ?thesis
      unfolding checked_def by (intro disjI2 exI [of _ now] exI [of _ v] exI [of _ content]) auto
  qed
qed

lemma updates_checked:
  "honest vs \<Longrightarrow> sorted (map fst vs) \<Longrightarrow> unread vs (updates d vs) \<or> checked d vs (updates d vs)"
proof (induction vs rule: rev_induct)
  case (snoc x vs)
  obtain now v where x: "x = (now, v)" by (cases x)
  have "honest vs" "sorted (map fst vs)" "\<forall>t\<in>fst ` set vs. t \<le> now"
    using snoc.prems honest_prefix by (auto simp: sorted_append x)
  with snoc.IH update_checked [OF snoc.prems(1) [unfolded x], of "updates d vs"] show ?case by (simp add: updates_def x)
qed (simp add: updates_def unread_def)

text \<open>C27. What a hosts file answers is at most five seconds older than the last time the file could be read: after any sequence of lookups at times
  that do not go back, a lookup answers from the content that the file had at a lookup, this one included, less than five seconds before
  every lookup at which the file could be read; as long as the file has never been readable, it answers nothing. The time of modification,
  which is not the zero time, and the size determine what reading the file gives.\<close>

theorem hosts_lookup_fresh:
  assumes "honest (vs @ [(now, v)])" "sorted (map fst (vs @ [(now, v)]))"
  shows "(\<forall>t w. (t, w) \<in> set (vs @ [(now, v)]) \<longrightarrow> \<not> can_read w) \<and> fst (File_Lookup d now v name (updates d vs)) = [] \<or>
    (\<exists>now' v' content. (now', v') \<in> set (vs @ [(now, v)]) \<and> fv_content v' = Inr (content, None) \<and>
      (\<forall>t w. (t, w) \<in> set (vs @ [(now, v)]) \<longrightarrow> can_read w \<longrightarrow> t < now' + 5 * 10 ^ 9) \<and>
      fst (File_Lookup d now v name (updates d vs)) = addresses_of (read_hosts d content) (hd_CanonicalName d name))"
proof -
  have "unread vs (updates d vs) \<or> checked d vs (updates d vs)"
    using updates_checked [OF honest_prefix [OF assms(1)]] assms(2) by (simp add: sorted_append)
  with assms have "unread (vs @ [(now, v)]) (File_update d now v (updates d vs)) \<or> checked d (vs @ [(now, v)]) (File_update d now v (updates d vs))"
    by (intro update_checked) (auto simp: sorted_append)
  then show ?thesis
  proof
    assume "unread (vs @ [(now, v)]) (File_update d now v (updates d vs))"
    then show ?thesis by (simp add: unread_def File_Lookup_def NewFile_def addresses_of_def)
  next
    assume "checked d (vs @ [(now, v)]) (File_update d now v (updates d vs))"
    then obtain now' v' content where "(now', v') \<in> set (vs @ [(now, v)])" "readable v' (hf_modTime (File_update d now v (updates d vs))) (hf_size (File_update d now v (updates d vs))) content"
      "hf_byName (File_update d now v (updates d vs)) = read_hosts d content" "\<forall>t w. (t, w) \<in> set (vs @ [(now, v)]) \<longrightarrow> can_read w \<longrightarrow> t < now' + cacheMaxAge"
      unfolding checked_def by blast
    then show ?thesis
      by (intro disjI2 exI [of _ now'] exI [of _ v'] exI [of _ content]) (simp add: File_Lookup_def Let_def readable_def cacheMaxAge_def)
  qed
qed

definition sample_hosts :: hosts_deps where
  "sample_hosts = \<lparr>hd_CanonicalName = (\<lambda>s. s @ ''.''), hd_ParseAddr = (\<lambda>s. if s = ''1.1.1.1'' then Inr (Addr4 0x01010101) else Inl EInvalid)\<rparr>"

definition sample_view :: "int \<Rightarrow> string \<Rightarrow> file_view" where
  "sample_view modTime content = \<lparr>fv_stat = Inr (modTime, int (length content)), fv_content = Inr (content, None)\<rparr>"

theorem hosts_lookup_fresh_witness:
  "\<exists>now' v' content. (now', v') \<in> set [(1 :: int, sample_view 1 ''1.1.1.1 a''), (7, sample_view 2 ''1.1.1.1 b'')] \<and> fv_content v' = Inr (content, None) \<and>
     7 < now' + 5 * 10 ^ 9 \<and>
     fst (File_Lookup sample_hosts 7 (sample_view 2 ''1.1.1.1 b'') ''a'' (updates sample_hosts [(1, sample_view 1 ''1.1.1.1 a'')])) =
       addresses_of (read_hosts sample_hosts content) ''a.''"
proof -
  let ?vs = "[(1 :: int, sample_view 1 ''1.1.1.1 a'')] @ [(7, sample_view 2 ''1.1.1.1 b'')]"
  have "honest ?vs" "sorted (map fst ?vs)" by (auto simp: honest_def sample_view_def)
  note fresh = hosts_lookup_fresh [OF this, of sample_hosts "''a''"]
  have "can_read (sample_view modTime content)" for modTime content by (simp add: can_read_def readable_def sample_view_def)
  moreover have "hd_CanonicalName sample_hosts ''a'' = ''a.''" by (simp add: sample_hosts_def)
  ultimately show ?thesis using fresh by simp blast
qed

text \<open>The order of the sources: predefined addresses first, then the first file that knows the name.\<close>

lemma Hosts_Exchange_predefined:
  assumes "msg_Question message = q # qs" "q_Qtype q = TypeA \<or> q_Qtype q = TypeAAAA" "ht_predefined t (hd_CanonicalName d (q_Name q)) = Some addresses"
  shows "Hosts_Exchange d now vs message t = (Inr (FixedResponse (msg_Id message) q addresses DefaultDNSTTL), t)"
  using assms by (simp add: Hosts_Exchange_def)

lemma lookup_files_first:
  "length vs = length fs \<Longrightarrow> fst (lookup_files d now vs name fs) =
    (case find (\<lambda>as. as \<noteq> []) (map2 (\<lambda>v f. fst (File_Lookup d now v name f)) vs fs) of None \<Rightarrow> [] | Some as \<Rightarrow> as)"
proof (induction vs fs rule: list_induct2)
  case (Cons v vs f fs)
  then show ?case by (auto split: prod.splits)
qed simp

text \<open>A last line without its end that fills the buffer exactly is lost.\<close>

lemma full_last_line_lost:
  assumes "length l = 4096" "last l \<noteq> CHR 0x0D" "CHR 0x0A \<notin> set l"
  shows "read_hosts d l = []"
proof -
  have "line_pieces False l = [(l, True)]"
    using assms(1,2) by (subst line_pieces.simps) (simp add: line_pieces.simps)
  moreover have "strings_Split CHR 0x0A l = [l]" using assms(3) by (induction l) auto
  ultimately show ?thesis by (simp add: read_hosts_def)
qed

end
