(* ===== verification/LocalResolver.thy ===== *)
theory LocalResolver
  imports Hosts DnsProps
begin

text \<open>
  The local resolver (\<^verbatim>\<open>dns/transport/local\<close>, without systemd-resolved): reading \<^verbatim>\<open>resolv.conf\<close> again when it has changed, the names
  that are asked for a name, and the servers that are asked in turn, one name after the other or all at once. An exchange with a server
  (\<^verbatim>\<open>exchangeOne\<close> with its connections) is a function of the number of exchanges before it, the server and the name. Every
  function that asks servers also returns what it has asked.
\<close>

section \<open>Configuration\<close>

record dnsConfig =
  rc_servers :: "string list"
  rc_search :: "string list"
  rc_ndots :: int
  rc_timeout :: int
  rc_attempts :: int
  rc_rotate :: bool
  rc_unknownOpt :: bool
  rc_lookup :: "string list"
  rc_err :: "goerr option"
  rc_mtime :: int
  rc_soffset :: u32
  rc_singleRequest :: bool
  rc_useTCP :: bool
  rc_trustAD :: bool
  rc_noReload :: bool

record local_deps =
  lo_ParseAddr :: "string \<Rightarrow> Addr res"
  lo_Fqdn :: "string \<Rightarrow> string"
  lo_defaultNS :: "string list"
  lo_Hostname :: "string res"
  lo_exchange :: "nat \<Rightarrow> string \<Rightarrow> string \<Rightarrow> Msg res"

definition net_JoinHostPort :: "string \<Rightarrow> string \<Rightarrow> string" where
  "net_JoinHostPort host port = (if CHR '':'' \<in> set host then ''['' @ host @ '']:'' @ port else host @ '':'' @ port)"

definition dnsDefaultSearch :: "local_deps \<Rightarrow> string list" where
  "dnsDefaultSearch d =
     (case lo_Hostname d of
        Inl err \<Rightarrow> []
      | Inr hn \<Rightarrow>
          (case index_of CHR ''.'' hn of
             None \<Rightarrow> []
           | Some i \<Rightarrow> if i < length hn - 1 then [lo_Fqdn d (drop (i + 1) hn)] else []))"

fun dtoi_loop :: "string \<Rightarrow> int \<Rightarrow> nat \<Rightarrow> int \<times> nat \<times> bool" where
  "dtoi_loop [] n i = (if i = 0 then (0, 0, False) else (n, i, True))"
| "dtoi_loop (c # s) n i =
     (if 48 \<le> (of_char c :: int) \<and> (of_char c :: int) \<le> 57 then
        (let n = n * 10 + (of_char c - 48) in if n \<ge> 0xFFFFFF then (0xFFFFFF, i, False) else dtoi_loop s n (i + 1))
      else if i = 0 then (0, 0, False) else (n, i, True))"

definition dtoi :: "string \<Rightarrow> int \<times> nat \<times> bool" where
  "dtoi s = dtoi_loop s 0 0"

definition resolv_option :: "string \<Rightarrow> dnsConfig \<Rightarrow> dnsConfig" where
  "resolv_option s conf =
     (if has_prefix s ''ndots:'' then
        (let n = fst (dtoi (drop 6 s)) in conf\<lparr>rc_ndots := if n < 0 then 0 else if n > 15 then 15 else n\<rparr>)
      else if has_prefix s ''timeout:'' then
        (let n = fst (dtoi (drop 8 s)) in conf\<lparr>rc_timeout := (if n < 1 then 1 else n) * 10 ^ 9\<rparr>)
      else if has_prefix s ''attempts:'' then (let n = fst (dtoi (drop 9 s)) in conf\<lparr>rc_attempts := if n < 1 then 1 else n\<rparr>)
      else if s = ''rotate'' then conf\<lparr>rc_rotate := True\<rparr>
      else if s = ''single-request'' \<or> s = ''single-request-reopen'' then conf\<lparr>rc_singleRequest := True\<rparr>
      else if s = ''use-vc'' \<or> s = ''usevc'' \<or> s = ''tcp'' then conf\<lparr>rc_useTCP := True\<rparr>
      else if s = ''trust-ad'' then conf\<lparr>rc_trustAD := True\<rparr>
      else if s = ''edns0'' then conf
      else if s = ''no-reload'' then conf\<lparr>rc_noReload := True\<rparr>
      else conf\<lparr>rc_unknownOpt := True\<rparr>)"

definition resolv_line :: "local_deps \<Rightarrow> string \<Rightarrow> dnsConfig \<Rightarrow> dnsConfig" where
  "resolv_line d line conf =
     (if line \<noteq> [] \<and> (hd line = CHR '';'' \<or> hd line = CHR ''#'') then conf
      else case strings_Fields line of
        [] \<Rightarrow> conf
      | f # args \<Rightarrow>
          if f = ''nameserver'' then
            (case args of
               [] \<Rightarrow> conf
             | a # _ \<Rightarrow>
                 if length (rc_servers conf) < 3 then
                   (case lo_ParseAddr d a of Inl err \<Rightarrow> conf | Inr addr \<Rightarrow> conf\<lparr>rc_servers := rc_servers conf @ [net_JoinHostPort a ''53'']\<rparr>)
                 else conf)
          else if f = ''domain'' then (case args of [] \<Rightarrow> conf | a # _ \<Rightarrow> conf\<lparr>rc_search := [lo_Fqdn d a]\<rparr>)
          else if f = ''search'' then conf\<lparr>rc_search := filter (\<lambda>name. name \<noteq> ''.'') (map (lo_Fqdn d) args)\<rparr>
          else if f = ''options'' then fold resolv_option args conf
          else if f = ''lookup'' then conf\<lparr>rc_lookup := args\<rparr>
          else conf\<lparr>rc_unknownOpt := True\<rparr>)"

fun resolv_lines :: "local_deps \<Rightarrow> (string \<times> bool) list \<Rightarrow> string \<Rightarrow> dnsConfig \<Rightarrow> dnsConfig" where
  "resolv_lines d [] pre conf = conf"
| "resolv_lines d ((line, isPrefix) # ls) pre conf =
     (if isPrefix then resolv_lines d ls (pre @ line) conf else resolv_lines d ls [] (resolv_line d (pre @ line) conf))"

definition dnsConfig_initial :: dnsConfig where
  "dnsConfig_initial =
     \<lparr>rc_servers = [], rc_search = [], rc_ndots = 1, rc_timeout = 5 * 10 ^ 9, rc_attempts = 2, rc_rotate = False, rc_unknownOpt = False,
      rc_lookup = [], rc_err = None, rc_mtime = 0, rc_soffset = 0, rc_singleRequest = False, rc_useTCP = False, rc_trustAD = False,
      rc_noReload = False\<rparr>"

text \<open>What \<^verbatim>\<open>os.Open\<close> gives is the content as far as it can be read; a failing read ends the loop without an error.\<close>

record conf_view =
  cv_open :: "string res"
  cv_stat :: "int res"

definition dnsReadConfig :: "local_deps \<Rightarrow> conf_view \<Rightarrow> dnsConfig" where
  "dnsReadConfig d v =
     (let failed = (\<lambda>err. dnsConfig_initial\<lparr>rc_servers := lo_defaultNS d, rc_search := dnsDefaultSearch d, rc_err := Some err\<rparr>)
      in case cv_open v of
           Inl err \<Rightarrow> failed err
         | Inr content \<Rightarrow>
             (case cv_stat v of
                Inl err \<Rightarrow> failed err
              | Inr mtime \<Rightarrow>
                  let conf = resolv_lines d (read_lines (strings_Split CHR 0x0A content)) [] (dnsConfig_initial\<lparr>rc_mtime := mtime\<rparr>);
                      conf = (if rc_servers conf = [] then conf\<lparr>rc_servers := lo_defaultNS d\<rparr> else conf)
                  in if rc_search conf = [] then conf\<lparr>rc_search := dnsDefaultSearch d\<rparr> else conf))"

record resolverConfig =
  rv_lastChecked :: int
  rv_dnsConfig :: dnsConfig

definition resolver_init :: "local_deps \<Rightarrow> int \<Rightarrow> conf_view \<Rightarrow> resolverConfig" where
  "resolver_init d now v = \<lparr>rv_lastChecked = now, rv_dnsConfig = dnsReadConfig d v\<rparr>"

definition tryUpdate :: "local_deps \<Rightarrow> int \<Rightarrow> conf_view \<Rightarrow> resolverConfig option \<Rightarrow> resolverConfig" where
  "tryUpdate d now v conf =
     (let conf = (case conf of None \<Rightarrow> resolver_init d now v | Some conf \<Rightarrow> conf)
      in if rc_noReload (rv_dnsConfig conf) then conf
         else if now - 5 * 10 ^ 9 < rv_lastChecked conf then conf
         else let conf = conf\<lparr>rv_lastChecked := now\<rparr>; mtime = (case cv_stat v of Inl err \<Rightarrow> 0 | Inr mtime \<Rightarrow> mtime)
              in if mtime = rc_mtime (rv_dnsConfig conf) then conf else conf\<lparr>rv_dnsConfig := dnsReadConfig d v\<rparr>)"

section \<open>Names\<close>

definition avoidDNS :: "string \<Rightarrow> bool" where
  "avoidDNS name =
     (if name = [] then True
      else let name = (if last name = CHR ''.'' then butlast name else name) in has_suffix name ''.onion'')"

definition nameList :: "dnsConfig \<Rightarrow> string \<Rightarrow> string list" where
  "nameList c name =
     (let l = length name; rooted = (l > 0 \<and> last name = CHR ''.'')
      in if l > 254 \<or> l = 254 \<and> \<not> rooted then []
         else if rooted then (if avoidDNS name then [] else [name])
         else let hasNdots = (int (count_list name CHR ''.'') \<ge> rc_ndots c);
                  name = name @ ''.'';
                  own = (if avoidDNS name then [] else [name]);
                  searched = filter (\<lambda>fqdn. \<not> avoidDNS fqdn \<and> length fqdn \<le> 254) (map (\<lambda>suffix. name @ suffix) (rc_search c))
              in if hasNdots then own @ searched else searched @ own)"

section \<open>Servers\<close>

definition serverOffset :: "dnsConfig \<Rightarrow> u32 \<times> dnsConfig" where
  "serverOffset c =
     (if rc_rotate c then (rc_soffset c + 1 - 1, c\<lparr>rc_soffset := rc_soffset c + 1\<rparr>) else (0, c))"

type_synonym asked = "(string \<times> string) list"

fun ask_servers :: "local_deps \<Rightarrow> string \<Rightarrow> string list \<Rightarrow> nat \<Rightarrow> goerr option \<Rightarrow> (Msg res option \<times> goerr option) \<times> asked" where
  "ask_servers d fqdn [] k lastErr = ((None, lastErr), [])"
| "ask_servers d fqdn (server # servers) k lastErr =
     (case lo_exchange d k server fqdn of
        Inl err \<Rightarrow> apsnd (\<lambda>asked. (server, fqdn) # asked) (ask_servers d fqdn servers (Suc k) (Some err))
      | Inr response \<Rightarrow> ((Some (Inr response), lastErr), [(server, fqdn)]))"

definition server_order :: "u32 \<Rightarrow> string list \<Rightarrow> string list" where
  "server_order offset servers =
     map (\<lambda>j. servers ! unat ((offset + of_nat j) mod of_nat (length servers))) [0..<length servers]"

text \<open>If no server was asked, \<^verbatim>\<open>E.Cause\<close> is called with a nil error; the configuration always has servers.\<close>

definition tryOneName :: "local_deps \<Rightarrow> nat \<Rightarrow> string \<Rightarrow> dnsConfig \<Rightarrow> (Msg res \<times> asked) \<times> dnsConfig" where
  "tryOneName d k fqdn config =
     (case serverOffset config of
        (offset, config) \<Rightarrow>
          (case ask_servers d fqdn (concat (replicate (nat (rc_attempts config)) (server_order offset (rc_servers config)))) k None of
             ((Some r, _), asked) \<Rightarrow> ((r, asked), config)
           | ((None, lastErr), asked) \<Rightarrow>
               ((Inl (ECause (case lastErr of None \<Rightarrow> nil_dereference | Some err \<Rightarrow> err) [ArgS fqdn]), asked), config)))"

text \<open>One name after the other. \<open>None\<close> in the result is a nil response.\<close>

fun try_names :: "local_deps \<Rightarrow> nat \<Rightarrow> string list \<Rightarrow> goerr option \<Rightarrow> dnsConfig \<Rightarrow> (Msg option res \<times> asked) \<times> dnsConfig" where
  "try_names d k [] lastErr config = ((case lastErr of None \<Rightarrow> Inr None | Some err \<Rightarrow> Inl err, []), config)"
| "try_names d k (fqdn # names) lastErr config =
     (case tryOneName d k fqdn config of
        ((Inr response, asked), config) \<Rightarrow> ((Inr (Some response), asked), config)
      | ((Inl err, asked), config) \<Rightarrow>
          (case try_names d (k + length asked) names (Some err) config of ((r, asked'), config) \<Rightarrow> ((r, asked @ asked'), config)))"

definition exchangeSingleRequest :: "local_deps \<Rightarrow> string \<Rightarrow> dnsConfig \<Rightarrow> (Msg option res \<times> asked) \<times> dnsConfig" where
  "exchangeSingleRequest d domain config = try_names d 0 (nameList config domain) None config"

text \<open>All names at once: each racer gives a result, and the results come in an order that is an argument, those that come before the context is
  done.\<close>

definition racer_result :: "dns_deps \<Rightarrow> string \<Rightarrow> Msg res \<Rightarrow> Msg res" where
  "racer_result dd fqdn r =
     (case r of
        Inl err \<Rightarrow> Inl err
      | Inr response \<Rightarrow>
          if msg_Rcode response \<noteq> RcodeSuccess then Inl (ERcode (msg_Rcode response))
          else if MessageToAddresses dd response = [] then Inl (ENew [ArgS fqdn, ArgS '': empty result''])
          else Inr response)"

fun start_racers :: "local_deps \<Rightarrow> dns_deps \<Rightarrow> nat \<Rightarrow> string list \<Rightarrow> dnsConfig \<Rightarrow> (Msg res list \<times> asked) \<times> dnsConfig" where
  "start_racers d dd k [] config = (([], []), config)"
| "start_racers d dd k (fqdn # names) config =
     (case tryOneName d k fqdn config of
        ((r, asked), config) \<Rightarrow>
          (case start_racers d dd (k + length asked) names config of
             ((rs, asked'), config) \<Rightarrow> ((racer_result dd fqdn r # rs, asked @ asked'), config)))"

fun await_results :: "goerr \<Rightarrow> nat \<Rightarrow> Msg res list \<Rightarrow> goerr list \<Rightarrow> Msg option res" where
  "await_results ctxErr nameCount [] errs = Inl ctxErr"
| "await_results ctxErr nameCount (Inr response # rs) errs = Inr (Some response)"
| "await_results ctxErr nameCount (Inl err # rs) errs =
     (if length (errs @ [err]) = nameCount then Inl (EErrors (errs @ [err])) else await_results ctxErr nameCount rs (errs @ [err]))"

definition exchangeParallel ::
  "local_deps \<Rightarrow> dns_deps \<Rightarrow> goerr \<Rightarrow> (Msg res list \<Rightarrow> Msg res list) \<Rightarrow> string \<Rightarrow> dnsConfig \<Rightarrow> (Msg option res \<times> asked) \<times> dnsConfig" where
  "exchangeParallel d dd ctxErr arrive domain config =
     (case start_racers d dd 0 (nameList config domain) config of
        ((rs, asked), config) \<Rightarrow> ((await_results ctxErr (length (nameList config domain)) (arrive rs) [], asked), config))"

definition local_exchange ::
  "local_deps \<Rightarrow> dns_deps \<Rightarrow> goerr \<Rightarrow> (Msg res list \<Rightarrow> Msg res list) \<Rightarrow> u16 \<Rightarrow> string \<Rightarrow> dnsConfig \<Rightarrow> (Msg option res \<times> asked) \<times> dnsConfig" where
  "local_exchange d dd ctxErr arrive qtype domain config =
     (if rc_singleRequest config \<or> \<not> (qtype = TypeA \<or> qtype = TypeAAAA) then exchangeSingleRequest d domain config
      else exchangeParallel d dd ctxErr arrive domain config)"

text \<open>The transport: systemd-resolved where it runs and has an object for the default interface, and otherwise the hosts file first. The
  resolver of systemd-resolved is an interface: whether it has an object, and what an exchange with that object returns.\<close>

record ResolvedResolver =
  rr_Object :: "(Msg \<Rightarrow> Msg res) option"

record LocalTransport =
  lt_hosts :: File
  lt_resolver :: "resolverConfig option"
  lt_resolved :: "ResolvedResolver option"

definition Local_Exchange ::
  "local_deps \<Rightarrow> dns_deps \<Rightarrow> hosts_deps \<Rightarrow> goerr \<Rightarrow> (Msg res list \<Rightarrow> Msg res list) \<Rightarrow> int \<Rightarrow> file_view \<Rightarrow> conf_view \<Rightarrow> Msg \<Rightarrow> LocalTransport \<Rightarrow>
     (Msg option res \<times> asked) \<times> LocalTransport" where
  "Local_Exchange d dd hh ctxErr arrive now hosts_view conf message t =
     (case Option.bind (lt_resolved t) rr_Object of
        Some exchange \<Rightarrow> ((map_sum id Some (exchange message), []), t)
      | None \<Rightarrow>
      case msg_Question message of
        [] \<Rightarrow> ((Inl (GoPanic [ArgS ''index out of range'']), []), t)
      | question # _ \<Rightarrow>
          let address = (q_Qtype question = TypeA \<or> q_Qtype question = TypeAAAA);
              (addresses, hosts) = (if address then File_Lookup hh now hosts_view (FqdnToDomain dd (q_Name question)) (lt_hosts t) else ([], lt_hosts t));
              t = t\<lparr>lt_hosts := hosts\<rparr>
          in if address \<and> length addresses > 0
             then ((Inr (Some (FixedResponse (msg_Id message) question addresses DefaultDNSTTL)), []), t)
             else let resolver = tryUpdate d now conf (lt_resolver t)
                  in case local_exchange d dd ctxErr arrive (q_Qtype question) (q_Name question) (rv_dnsConfig resolver) of
                       (r, config) \<Rightarrow> (r, t\<lparr>lt_resolver := Some (resolver\<lparr>rv_dnsConfig := config\<rparr>)\<rparr>))"

section \<open>What is asked\<close>

definition local_laws :: "local_deps \<Rightarrow> bool" where
  "local_laws d \<longleftrightarrow> (\<forall>s. lo_Fqdn d s \<noteq> [] \<and> last (lo_Fqdn d s) = CHR ''.'') \<and> lo_defaultNS d \<noteq> [] \<and> length (lo_defaultNS d) < 2 ^ 32"

definition config_ok :: "dnsConfig \<Rightarrow> bool" where
  "config_ok c \<longleftrightarrow> (\<forall>s\<in>set (rc_search c). s \<noteq> [] \<and> last s = CHR ''.'') \<and> rc_servers c \<noteq> [] \<and> length (rc_servers c) < 2 ^ 32 \<and> 1 \<le> rc_attempts c"

definition reading_ok :: "dnsConfig \<Rightarrow> bool" where
  "reading_ok c \<longleftrightarrow> (\<forall>s\<in>set (rc_search c). s \<noteq> [] \<and> last s = CHR ''.'') \<and> length (rc_servers c) \<le> 3 \<and> 1 \<le> rc_attempts c"

lemma resolv_option_keeps:
  "rc_search (resolv_option s c) = rc_search c" "rc_servers (resolv_option s c) = rc_servers c"
  by (cases c; simp only: resolv_option_def Let_def if_distrib [of rc_search] if_distrib [of rc_servers] dnsConfig.simps if_cancel)+

lemma resolv_option_attempts: "1 \<le> rc_attempts c \<Longrightarrow> 1 \<le> rc_attempts (resolv_option s c)"
proof -
  assume "1 \<le> rc_attempts c"
  moreover have "rc_attempts (resolv_option s c) = rc_attempts c \<or>
      rc_attempts (resolv_option s c) = (if fst (dtoi (drop 9 s)) < 1 then 1 else fst (dtoi (drop 9 s)))"
    by (cases c; cases "has_prefix s ''ndots:''"; cases "has_prefix s ''timeout:''"; cases "has_prefix s ''attempts:''")
      (simp_all only: resolv_option_def Let_def if_distrib [of rc_attempts] dnsConfig.simps if_True if_False if_cancel simp_thms)
  ultimately show ?thesis by (auto split: if_splits)
qed

lemma resolv_option_ok: "reading_ok c \<Longrightarrow> reading_ok (resolv_option s c)"
  unfolding reading_ok_def resolv_option_keeps using resolv_option_attempts by blast

lemma resolv_options_ok: "reading_ok c \<Longrightarrow> reading_ok (fold resolv_option ss c)"
  by (induction ss arbitrary: c) (auto intro: resolv_option_ok)

lemma if_both: "reading_ok x \<Longrightarrow> reading_ok y \<Longrightarrow> reading_ok (if b then x else y)"
  by simp

lemma resolv_line_ok:
  assumes "local_laws d" "reading_ok c"
  shows "reading_ok (resolv_line d l c)"
proof -
  have nameserver: "reading_ok (case args of [] \<Rightarrow> c | a # _ \<Rightarrow> if length (rc_servers c) < 3 then
      (case lo_ParseAddr d a of Inl err \<Rightarrow> c | Inr addr \<Rightarrow> c\<lparr>rc_servers := rc_servers c @ [net_JoinHostPort a ''53'']\<rparr>) else c)" for args
    using assms(2) by (cases args) (auto simp: reading_ok_def split: sum.split)
  have domain: "reading_ok (case args of [] \<Rightarrow> c | a # _ \<Rightarrow> c\<lparr>rc_search := [lo_Fqdn d a]\<rparr>)" for args
    using assms by (cases args) (auto simp: reading_ok_def local_laws_def)
  have search: "reading_ok (c\<lparr>rc_search := filter (\<lambda>name. name \<noteq> ''.'') (map (lo_Fqdn d) args)\<rparr>)" for args
    using assms by (auto simp: reading_ok_def local_laws_def)
  have other: "reading_ok (c\<lparr>rc_lookup := args\<rparr>)" "reading_ok (c\<lparr>rc_unknownOpt := True\<rparr>)" for args using assms(2) by (simp_all add: reading_ok_def)
  have "reading_ok (case strings_Fields l of
        [] \<Rightarrow> c
      | f # args \<Rightarrow>
          if f = ''nameserver'' then
            (case args of [] \<Rightarrow> c | a # _ \<Rightarrow> if length (rc_servers c) < 3 then
               (case lo_ParseAddr d a of Inl err \<Rightarrow> c | Inr addr \<Rightarrow> c\<lparr>rc_servers := rc_servers c @ [net_JoinHostPort a ''53'']\<rparr>) else c)
          else if f = ''domain'' then (case args of [] \<Rightarrow> c | a # _ \<Rightarrow> c\<lparr>rc_search := [lo_Fqdn d a]\<rparr>)
          else if f = ''search'' then c\<lparr>rc_search := filter (\<lambda>name. name \<noteq> ''.'') (map (lo_Fqdn d) args)\<rparr>
          else if f = ''options'' then fold resolv_option args c
          else if f = ''lookup'' then c\<lparr>rc_lookup := args\<rparr>
          else c\<lparr>rc_unknownOpt := True\<rparr>)"
    by (cases "strings_Fields l"; simp only: list.case)
      (intro if_both nameserver domain search other resolv_options_ok assms(2))+
  then show ?thesis unfolding resolv_line_def by (intro if_both assms(2))
qed

lemma resolv_lines_ok: "local_laws d \<Longrightarrow> reading_ok c \<Longrightarrow> reading_ok (resolv_lines d ls pre c)"
  by (induction d ls pre c rule: resolv_lines.induct) (auto intro: resolv_line_ok)

lemma default_search_ok: "local_laws d \<Longrightarrow> s \<in> set (dnsDefaultSearch d) \<Longrightarrow> s \<noteq> [] \<and> last s = CHR ''.''"
  by (auto simp: dnsDefaultSearch_def local_laws_def split: sum.splits option.splits if_splits)

lemma dnsReadConfig_ok:
  assumes "local_laws d"
  shows "config_ok (dnsReadConfig d v)"
proof -
  have failed: "config_ok (dnsConfig_initial\<lparr>rc_servers := lo_defaultNS d, rc_search := dnsDefaultSearch d, rc_err := Some err\<rparr>)" for err
    using assms default_search_ok [OF assms] by (auto simp: config_ok_def dnsConfig_initial_def local_laws_def)
  have "reading_ok (dnsConfig_initial\<lparr>rc_mtime := mtime\<rparr>)" for mtime by (simp add: reading_ok_def dnsConfig_initial_def)
  from resolv_lines_ok [OF assms this]
  have read: "reading_ok (resolv_lines d ls [] (dnsConfig_initial\<lparr>rc_mtime := mtime\<rparr>))" for mtime ls .
  have filled: "config_ok (let c = (if rc_servers c = [] then c\<lparr>rc_servers := lo_defaultNS d\<rparr> else c)
      in if rc_search c = [] then c\<lparr>rc_search := dnsDefaultSearch d\<rparr> else c)" if "reading_ok c" for c
  proof -
    have "length (rc_servers c) < 2 ^ 32" using that by (simp add: reading_ok_def)
    with that assms default_search_ok [OF assms] show ?thesis by (auto simp: config_ok_def reading_ok_def local_laws_def Let_def)
  qed
  show ?thesis
  proof (cases "cv_open v")
    case (Inl err)
    with failed show ?thesis by (simp add: dnsReadConfig_def)
  next
    case (Inr content)
    show ?thesis
    proof (cases "cv_stat v")
      case (Inl err)
      with Inr failed show ?thesis by (simp add: dnsReadConfig_def)
    next
      case stat: (Inr mtime)
      from filled [OF read, of "read_lines (strings_Split CHR 0x0A content)" mtime] show ?thesis
        by (simp only: dnsReadConfig_def Inr stat sum.case Let_def)
    qed
  qed
qed

lemma tryUpdate_ok:
  "local_laws d \<Longrightarrow> (\<And>c. conf = Some c \<Longrightarrow> config_ok (rv_dnsConfig c)) \<Longrightarrow> config_ok (rv_dnsConfig (tryUpdate d now v conf))"
  by (auto simp: tryUpdate_def resolver_init_def Let_def dnsReadConfig_ok split: option.splits)

text \<open>The names: fully qualified, short enough, and none under the domain that must not be asked for.\<close>

definition name_ok :: "string \<Rightarrow> bool" where
  "name_ok n \<longleftrightarrow> n \<noteq> [] \<and> last n = CHR ''.'' \<and> length n \<le> 254 \<and> \<not> has_suffix (butlast n) ''.onion''"

lemma rooted_ok: "n \<noteq> [] \<Longrightarrow> last n = CHR ''.'' \<Longrightarrow> length n \<le> 254 \<Longrightarrow> \<not> avoidDNS n \<Longrightarrow> name_ok n"
  by (simp add: name_ok_def avoidDNS_def)

lemma nameList_ok:
  assumes "config_ok c" "n \<in> set (nameList c name)"
  shows "name_ok n"
proof -
  define rooted where "rooted \<longleftrightarrow> length name > 0 \<and> last name = CHR ''.''"
  have short: "\<not> (length name > 254 \<or> length name = 254 \<and> \<not> rooted)" 
  proof
    assume "length name > 254 \<or> length name = 254 \<and> \<not> rooted"
    then have "nameList c name = []" unfolding nameList_def Let_def rooted_def by (simp only: if_True)
    with assms(2) show False by simp
  qed
  show ?thesis
  proof (cases rooted)
    case True
    with short assms(2) have "n = name" "\<not> avoidDNS n" by (auto simp: nameList_def rooted_def Let_def split: if_splits)
    with True short show ?thesis by (intro rooted_ok) (auto simp: rooted_def)
  next
    case False
    let ?own = "if avoidDNS (name @ ''.'') then [] else [name @ ''.'']"
    let ?searched = "filter (\<lambda>fqdn. \<not> avoidDNS fqdn \<and> length fqdn \<le> 254) (map (\<lambda>suffix. (name @ ''.'') @ suffix) (rc_search c))"
    have "nameList c name = (if int (count_list name CHR ''.'') \<ge> rc_ndots c then ?own @ ?searched else ?searched @ ?own)"
      using short False unfolding nameList_def Let_def rooted_def by (simp only: if_False)
    with assms(2) consider "n \<in> set ?own" | "n \<in> set ?searched" by (auto split: if_splits)
    then show ?thesis
    proof cases
      case 1
      with short False show ?thesis by (intro rooted_ok) (auto split: if_splits)
    next
      case 2
      then obtain suffix where "suffix \<in> set (rc_search c)" "n = (name @ ''.'') @ suffix" "length n \<le> 254" "\<not> avoidDNS n" by auto
      with assms(1) show ?thesis by (intro rooted_ok) (auto simp: config_ok_def)
    qed
  qed
qed

lemma ask_servers_asked: "snd (ask_servers d fqdn servers k e) = map (\<lambda>s. (s, fqdn)) (take (length (snd (ask_servers d fqdn servers k e))) servers)"
  by (induction d fqdn servers k e rule: ask_servers.induct) (auto split: sum.splits)

lemma server_order_servers:
  assumes "servers \<noteq> []" "length servers < 2 ^ 32"
  shows "set (server_order offset servers) \<subseteq> set servers"
proof
  fix x
  assume "x \<in> set (server_order offset servers)"
  then obtain j where x: "x = servers ! unat ((offset + of_nat j) mod (of_nat (length servers) :: u32))" by (auto simp: server_order_def)
  have n: "unat (of_nat (length servers) :: u32) = length servers" using assms(2) by (simp add: unsigned_of_nat take_bit_nat_eq_self)
  have "unat ((offset + of_nat j) mod (of_nat (length servers) :: u32)) = unat (offset + of_nat j :: u32) mod length servers"
    by (simp only: unat_mod n)
  with assms(1) x show "x \<in> set servers" by simp
qed

lemma tryOneName_asked:
  assumes "config_ok config" "tryOneName d k fqdn config = ((r, asked), config')"
  shows "rc_servers config' = rc_servers config \<and> rc_search config' = rc_search config \<and> rc_attempts config' = rc_attempts config \<and>
    rc_ndots config' = rc_ndots config \<and> (\<forall>(server, name)\<in>set asked. server \<in> set (rc_servers config) \<and> name = fqdn)"
proof -
  obtain offset c where o: "serverOffset config = (offset, c)" by (cases "serverOffset config")
  have c: "rc_servers c = rc_servers config" "rc_search c = rc_search config" "rc_attempts c = rc_attempts config" "rc_ndots c = rc_ndots config"
    using o by (auto simp: serverOffset_def split: if_splits)
  let ?ss = "concat (replicate (nat (rc_attempts c)) (server_order offset (rc_servers c)))"
  have ss: "set ?ss \<subseteq> set (rc_servers config)" using server_order_servers assms(1) c(1) by (fastforce simp: config_ok_def)
  have r: "asked = snd (ask_servers d fqdn ?ss k None)" "config' = c"
    using assms(2) by (auto simp: tryOneName_def o split: prod.splits option.splits)
  have "(server, name) \<in> set asked \<Longrightarrow> server \<in> set ?ss \<and> name = fqdn" for server name
    unfolding r(1) by (subst (asm) ask_servers_asked) (auto dest: in_set_takeD)
  with ss c r(2) show ?thesis by blast
qed

definition same_config :: "dnsConfig \<Rightarrow> dnsConfig \<Rightarrow> bool" where
  "same_config c c' \<longleftrightarrow> rc_servers c' = rc_servers c \<and> rc_search c' = rc_search c \<and> rc_attempts c' = rc_attempts c \<and> rc_ndots c' = rc_ndots c"

definition asked_ok :: "dnsConfig \<Rightarrow> string list \<Rightarrow> asked \<Rightarrow> bool" where
  "asked_ok c names asked \<longleftrightarrow> (\<forall>(server, name)\<in>set asked. server \<in> set (rc_servers c) \<and> name \<in> set names)"

lemma same_config_ok: "same_config c c' \<Longrightarrow> config_ok c \<Longrightarrow> config_ok c'"
  by (simp add: same_config_def config_ok_def)

lemma try_names_asked:
  "config_ok config \<Longrightarrow> try_names d k names e config = ((r, asked), config') \<Longrightarrow> same_config config config' \<and> asked_ok config names asked"
proof (induction d k names e config arbitrary: r asked config' rule: try_names.induct)
  case (2 d k fqdn names e config)
  obtain r1 a1 c1 where one: "tryOneName d k fqdn config = ((r1, a1), c1)" by (metis surj_pair)
  from tryOneName_asked [OF "2.prems"(1) one] have s1: "same_config config c1" "asked_ok config [fqdn] a1"
    by (auto simp: same_config_def asked_ok_def)
  show ?case
  proof (cases r1)
    case (Inr m)
    with "2.prems"(2) one s1 show ?thesis by (auto simp: asked_ok_def)
  next
    case (Inl err)
    obtain r2 a2 c2 where rest: "try_names d (k + length a1) names (Some err) c1 = ((r2, a2), c2)" by (metis surj_pair)
    with Inl "2.prems"(2) one have "asked = a1 @ a2" "config' = c2" by auto
    with "2.IH" [OF one [symmetric] refl Inl same_config_ok [OF s1(1) "2.prems"(1)] rest] s1 show ?thesis
      by (auto simp: asked_ok_def same_config_def)
  qed
qed (auto simp: same_config_def asked_ok_def)

lemma start_racers_asked:
  "config_ok config \<Longrightarrow> start_racers d dd k names config = ((rs, asked), config') \<Longrightarrow> same_config config config' \<and> asked_ok config names asked"
proof (induction d dd k names config arbitrary: rs asked config' rule: start_racers.induct)
  case (2 d dd k fqdn names config)
  obtain r1 a1 c1 where one: "tryOneName d k fqdn config = ((r1, a1), c1)" by (metis surj_pair)
  from tryOneName_asked [OF "2.prems"(1) one] have s1: "same_config config c1" "asked_ok config [fqdn] a1"
    by (auto simp: same_config_def asked_ok_def)
  obtain r2 a2 c2 where rest: "start_racers d dd (k + length a1) names c1 = ((r2, a2), c2)" by (metis surj_pair)
  with "2.prems"(2) one have "asked = a1 @ a2" "config' = c2" by auto
  with "2.IH" [OF one [symmetric] refl same_config_ok [OF s1(1) "2.prems"(1)] rest] s1 show ?case
    by (auto simp: asked_ok_def same_config_def)
qed (auto simp: same_config_def asked_ok_def)

lemma local_exchange_asked:
  assumes "config_ok config" "local_exchange d dd ctxErr arrive qtype domain config = ((r, asked), config')"
  shows "same_config config config' \<and> asked_ok config (nameList config domain) asked"
proof (cases "rc_singleRequest config \<or> \<not> (qtype = TypeA \<or> qtype = TypeAAAA)")
  case True
  with assms show ?thesis by (intro try_names_asked) (auto simp: local_exchange_def exchangeSingleRequest_def)
next
  case False
  with assms(2) obtain rs where "start_racers d dd 0 (nameList config domain) config = ((rs, asked), config')"
    by (auto simp: local_exchange_def exchangeParallel_def split: prod.splits)
  with assms(1) show ?thesis by (rule start_racers_asked)
qed

lemma LocalTransport_resolver: "lt_resolver (t\<lparr>lt_hosts := f\<rparr>) = lt_resolver t"
  by simp

definition local_ok :: "LocalTransport \<Rightarrow> bool" where
  "local_ok t \<longleftrightarrow> (\<forall>c. lt_resolver t = Some c \<longrightarrow> config_ok (rv_dnsConfig c))"

lemma local_go_queries:
  assumes "local_laws d" "local_ok t" "Local_Exchange d dd hh ctxErr arrive now hosts_view conf message t = ((r, asked), t')"
    and "Option.bind (lt_resolved t) rr_Object = None"
  shows "local_ok t' \<and> (\<forall>(server, name)\<in>set asked. name_ok name \<and> (\<exists>c. lt_resolver t' = Some c \<and> server \<in> set (rc_servers (rv_dnsConfig c))))"
proof (cases "msg_Question message")
  case Nil
  with assms show ?thesis by (simp add: Local_Exchange_def)
next
  case (Cons question qs)
  define address where "address \<longleftrightarrow> q_Qtype question = TypeA \<or> q_Qtype question = TypeAAAA"
  obtain addresses f where f: "(if address then File_Lookup hh now hosts_view (FqdnToDomain dd (q_Name question)) (lt_hosts t) else ([], lt_hosts t)) = (addresses, f)"
    by (metis surj_pair)
  let ?t = "t\<lparr>lt_hosts := f\<rparr>" and ?resolver = "tryUpdate d now conf (lt_resolver t)"
  have ok: "config_ok (rv_dnsConfig ?resolver)" using assms(1,2) by (intro tryUpdate_ok) (auto simp: local_ok_def)
  obtain r1 a1 c1 where x: "local_exchange d dd ctxErr arrive (q_Qtype question) (q_Name question) (rv_dnsConfig ?resolver) = ((r1, a1), c1)"
    by (metis surj_pair)
  have result: "((r, asked), t') = (if address \<and> length addresses > 0
      then ((Inr (Some (FixedResponse (msg_Id message) question addresses DefaultDNSTTL)), []), ?t)
      else ((r1, a1), ?t\<lparr>lt_resolver := Some (?resolver\<lparr>rv_dnsConfig := c1\<rparr>)\<rparr>))"
    using assms(3) x unfolding Local_Exchange_def assms(4) option.case Cons list.case Let_def address_def [symmetric] f prod.case by (simp only: LocalTransport_resolver prod.case)
  show ?thesis
  proof (cases "address \<and> length addresses > 0")
    case True
    with result assms(2) show ?thesis by (simp add: local_ok_def)
  next
    case False
    then have "asked = a1" "t' = ?t\<lparr>lt_resolver := Some (?resolver\<lparr>rv_dnsConfig := c1\<rparr>)\<rparr>" using result by auto
    moreover from local_exchange_asked [OF ok x] have same: "same_config (rv_dnsConfig ?resolver) c1"
      and asked: "asked_ok (rv_dnsConfig ?resolver) (nameList (rv_dnsConfig ?resolver) (q_Name question)) a1" by auto
    ultimately show ?thesis using same_config_ok [OF same ok] nameList_ok [OF ok] by (auto simp: local_ok_def asked_ok_def same_config_def)
  qed
qed

text \<open>C26. The local resolver asks only what it may: an exchange is left to systemd-resolved where it is in use and has an object, and then
  the resolver sends nothing itself; otherwise every query that it sends goes to a server of the configuration it has read, for a name
  that is fully qualified, has at most 254 characters and does not end in \<^verbatim>\<open>.onion\<close> in lower case; and the transport stays in a state of
  this kind, whatever \<^verbatim>\<open>resolv.conf\<close> says.\<close>

theorem local_queries_safe:
  assumes "local_laws d" "local_ok t" "Local_Exchange d dd hh ctxErr arrive now hosts_view conf message t = ((r, asked), t')"
  shows "local_ok t' \<and>
    (case Option.bind (lt_resolved t) rr_Object of
       Some exchange \<Rightarrow> asked = [] \<and> r = map_sum id Some (exchange message) \<and> t' = t
     | None \<Rightarrow> \<forall>(server, name)\<in>set asked. name_ok name \<and> (\<exists>c. lt_resolver t' = Some c \<and> server \<in> set (rc_servers (rv_dnsConfig c))))"
proof (cases "Option.bind (lt_resolved t) rr_Object")
  case (Some exchange)
  with assms(2,3) show ?thesis by (simp add: Local_Exchange_def)
next
  case None
  have "local_ok t' \<and> (\<forall>(server, name)\<in>set asked. name_ok name \<and> (\<exists>c. lt_resolver t' = Some c \<and> server \<in> set (rc_servers (rv_dnsConfig c))))"
    using assms None by (rule local_go_queries)
  with None show ?thesis by simp
qed

section \<open>A server that answers is found\<close>

lemma rotation: "0 < n \<Longrightarrow> i < n \<Longrightarrow> \<exists>j<n. (o' + j) mod n = (i :: nat)"
proof (intro exI conjI)
  assume n: "0 < n" "i < n"
  let ?j = "(i + n - o' mod n) mod n"
  show "?j < n" using n(1) by simp
  define q r where "q = o' div n * n" and "r = o' mod n"
  have "o' = q + r" "r < n" using n(1) by (simp_all add: q_def r_def)
  then have "o' + (i + n - r) = q + n + i" by simp
  then have "o' + (i + n - o' mod n) = o' div n * n + n + i" by (simp only: q_def r_def)
  then have "(o' + ?j) mod n = (o' div n * n + n + i) mod n" by (simp add: mod_add_right_eq)
  also have "o' div n * n + n + i = i + (o' div n + 1) * n" by simp
  finally show "(o' + ?j) mod n = i" using n(2) by (simp only: mod_mult_self1 mod_less)
qed

lemma server_order_all:
  assumes "servers \<noteq> []" "length servers < 2 ^ 32" "unat offset + length servers \<le> 2 ^ 32"
  shows "set (server_order offset servers) = set servers"
proof
  let ?n = "length servers"
  show "set (server_order offset servers) \<subseteq> set servers" using assms(1,2) by (rule server_order_servers)
  have n: "unat (of_nat ?n :: u32) = ?n" using assms(2) by (simp add: unsigned_of_nat take_bit_nat_eq_self)
  have sum: "unat (offset + of_nat j :: u32) = unat offset + j" if "j < ?n" for j
    using that assms(2,3) by (subst unat_plus_simple [THEN iffD1]) (auto simp: unsigned_of_nat take_bit_nat_eq_self word_le_nat_alt unat_word_ariths)
  show "set servers \<subseteq> set (server_order offset servers)"
  proof
    fix x
    assume "x \<in> set servers"
    then obtain i where i: "i < ?n" "x = servers ! i" by (auto simp: in_set_conv_nth)
    from rotation [of ?n i "unat offset"] assms(1) i(1) obtain j where j: "j < ?n" "(unat offset + j) mod ?n = i" by auto
    have "unat ((offset + of_nat j) mod (of_nat ?n :: u32)) = i" by (simp only: unat_mod n sum [OF j(1)] j(2))
    then show "x \<in> set (server_order offset servers)" using j(1) i(2) unfolding server_order_def set_map by force
  qed
qed

lemma ask_servers_finds:
  assumes "s \<in> set servers" "\<And>k. \<exists>m. lo_exchange d k s fqdn = Inr m"
  shows "\<exists>m. fst (fst (ask_servers d fqdn servers k e)) = Some (Inr m)"
  using assms
proof (induction d fqdn servers k e rule: ask_servers.induct)
  case (2 d fqdn server servers k e)
  show ?case
  proof (cases "lo_exchange d k server fqdn")
    case (Inl err)
    with "2.prems" have "s \<in> set servers" by (metis Inl_Inr_False set_ConsD)
    with "2.IH" [OF Inl] "2.prems"(2) Inl show ?thesis by simp
  qed simp
qed simp

text \<open>A name is answered if one of the servers answers, as long as the rotating offset does not wrap.\<close>

theorem tryOneName_finds:
  assumes "config_ok config" "s \<in> set (rc_servers config)" "\<And>k. \<exists>m. lo_exchange d k s fqdn = Inr m"
    and "rc_rotate config \<longrightarrow> unat (rc_soffset config) + length (rc_servers config) \<le> 2 ^ 32"
  shows "\<exists>m. fst (fst (tryOneName d k fqdn config)) = Inr m"
proof -
  obtain offset c where o: "serverOffset config = (offset, c)" by (cases "serverOffset config")
  have c: "rc_servers c = rc_servers config" "rc_attempts c = rc_attempts config" "unat offset + length (rc_servers config) \<le> 2 ^ 32"
    using o assms(1,4) by (auto simp: serverOffset_def config_ok_def split: if_splits)
  have "set (server_order offset (rc_servers c)) = set (rc_servers config)" using server_order_all [of "rc_servers config" offset] assms(1) c by (simp add: config_ok_def)
  then have "s \<in> set (concat (replicate (nat (rc_attempts c)) (server_order offset (rc_servers c))))" using assms(1,2) c(2) by (simp add: config_ok_def)
  from ask_servers_finds [OF this assms(3), of k None] show ?thesis by (auto simp: tryOneName_def o split: prod.splits option.splits)
qed

text \<open>When the offset wraps, a server is left out.\<close>

lemma wrapped_offset_skips: "server_order 0xFFFFFFFF [''a'', ''b'', ''c''] = [''a'', ''a'', ''b'']"
  by code_simp

text \<open>A name that has no name to ask gives a nil response without an error, and with racers an exchange that waits until its context is done.\<close>

lemma no_names_nil:
  assumes "nameList config domain = []"
  shows "fst (exchangeSingleRequest d domain config) = (Inr None, [])" "fst (exchangeParallel d dd ctxErr (\<lambda>rs. rs) domain config) = (Inl ctxErr, [])"
  using assms by (simp_all add: exchangeSingleRequest_def exchangeParallel_def)

text \<open>The test for \<^verbatim>\<open>.onion\<close> looks at the case of the letters.\<close>

lemma onion_case_asked: "nameList dnsConfig_initial ''hidden.Onion'' = [''hidden.Onion.'']"
  by (simp add: nameList_def avoidDNS_def dnsConfig_initial_def has_suffix_def has_prefix_def)

definition sample_local :: local_deps where
  "sample_local = \<lparr>lo_ParseAddr = (\<lambda>s. Inl EInvalid), lo_Fqdn = (\<lambda>s. s @ ''.''), lo_defaultNS = [''127.0.0.1:53''], lo_Hostname = Inr ''h.lan'',
     lo_exchange = (\<lambda>k server name. Inl EInvalid)\<rparr>"

definition sample_local_view :: conf_view where
  "sample_local_view = \<lparr>cv_open = Inl EInvalid, cv_stat = Inl EInvalid\<rparr>"

definition sample_local_query :: Msg where
  "sample_local_query = Msg_zero\<lparr>msg_Question := [\<lparr>q_Name = ''a'', q_Qtype = 16, q_Qclass = 1\<rparr>]\<rparr>"

lemma sample_local_asked:
  "snd (fst (Local_Exchange sample_local dd hh EInvalid id 0 hosts_view sample_local_view sample_local_query \<lparr>lt_hosts = NewFile, lt_resolver = None, lt_resolved = None\<rparr>)) =
     [(''127.0.0.1:53'', ''a.lan.''), (''127.0.0.1:53'', ''a.lan.''), (''127.0.0.1:53'', ''a.''), (''127.0.0.1:53'', ''a.'')]"
proof -
  have "rv_dnsConfig (tryUpdate sample_local 0 sample_local_view None) =
      dnsConfig_initial\<lparr>rc_servers := [''127.0.0.1:53''], rc_search := [''lan.''], rc_err := Some EInvalid\<rparr>"
    by (simp add: tryUpdate_def resolver_init_def dnsReadConfig_def sample_local_view_def sample_local_def dnsDefaultSearch_def Let_def dnsConfig_initial_def)
  moreover have "snd (fst (exchangeSingleRequest sample_local ''a'' (dnsConfig_initial\<lparr>rc_servers := [''127.0.0.1:53''], rc_search := [''lan.''], rc_err := Some EInvalid\<rparr>))) =
     [(''127.0.0.1:53'', ''a.lan.''), (''127.0.0.1:53'', ''a.lan.''), (''127.0.0.1:53'', ''a.''), (''127.0.0.1:53'', ''a.'')]"
    by code_simp
  ultimately show ?thesis
    by (auto simp: Local_Exchange_def sample_local_query_def local_exchange_def TypeA_def TypeAAAA_def split: prod.splits)
qed

theorem local_queries_safe_witness:
  "list_all (\<lambda>(server, name). name_ok name) [(''127.0.0.1:53'', ''a.lan.''), (''127.0.0.1:53'', ''a.lan.''), (''127.0.0.1:53'', ''a.''), (''127.0.0.1:53'', ''a.'')]"
proof -
  let ?t = "\<lparr>lt_hosts = NewFile, lt_resolver = None, lt_resolved = None\<rparr>" and ?v = "\<lparr>fv_stat = Inl EInvalid, fv_content = Inl EInvalid\<rparr>"
  obtain r asked t' where x: "Local_Exchange sample_local sample_dns sample_hosts EInvalid id 0 ?v sample_local_view sample_local_query ?t = ((r, asked), t')"
    by (metis surj_pair)
  have "local_laws sample_local" "local_ok ?t" by (simp_all add: local_laws_def sample_local_def local_ok_def)
  from local_queries_safe [OF this x] have "list_all (\<lambda>(server, name). name_ok name) asked" by (auto simp: list_all_iff)
  moreover from sample_local_asked [of sample_dns sample_hosts ?v] x have "asked =
      [(''127.0.0.1:53'', ''a.lan.''), (''127.0.0.1:53'', ''a.lan.''), (''127.0.0.1:53'', ''a.''), (''127.0.0.1:53'', ''a.'')]" by simp
  ultimately show ?thesis by simp
qed

end
