(* ===== verification/Geosite.thy ===== *)
theory Geosite
  imports SrsProps Rules "HOL-Library.Char_ord" "HOL-Library.List_Lexorder"
begin

text \<open>
  The database of domain lists (\<^verbatim>\<open>common/geosite\<close>): the file format with its index, and the rules that lists are compiled to. A file is its
  bytes. The functions of \<^verbatim>\<open>varbin\<close> that write and read strings and its are the record \<open>geosite_codec\<close>; a list of its is read
  into a slice of known length. The map of lists that is written is an association list with distinct keys.
\<close>

section \<open>Items and rules\<close>

definition GeositeDomain :: u8 where "GeositeDomain = 0"
definition GeositeDomainSuffix :: u8 where "GeositeDomainSuffix = 1"
definition GeositeDomainKeyword :: u8 where "GeositeDomainKeyword = 2"
definition GeositeDomainRegex :: u8 where "GeositeDomainRegex = 3"

record geosite_Item =
  gi_Type :: u8
  gi_Value :: string

definition values_of :: "u8 \<Rightarrow> geosite_Item list \<Rightarrow> string list" where
  "values_of ty its = map gi_Value (filter (\<lambda>item. gi_Type item = ty) its)"

definition geosite_Compile :: "geosite_Item list \<Rightarrow> RawDefaultRule" where
  "geosite_Compile code =
     RawDefaultRule_zero\<lparr>dr_Domain := values_of GeositeDomain code, dr_DomainSuffix := values_of GeositeDomainSuffix code,
       dr_DomainKeyword := values_of GeositeDomainKeyword code, dr_DomainRegex := values_of GeositeDomainRegex code\<rparr>"

definition geosite_Merge :: "RawDefaultRule list \<Rightarrow> RawDefaultRule" where
  "geosite_Merge rules =
     RawDefaultRule_zero\<lparr>dr_Domain := concat (map dr_Domain rules), dr_DomainSuffix := concat (map dr_DomainSuffix rules),
       dr_DomainKeyword := concat (map dr_DomainKeyword rules), dr_DomainRegex := concat (map dr_DomainRegex rules)\<rparr>"

section \<open>The file\<close>

record geosite_codec =
  gc_WriteUvarint :: "u64 \<Rightarrow> bytes"
  gc_WriteString :: "string \<Rightarrow> bytes"
  gc_ReadString :: "string reader"
  gc_WriteItem :: "geosite_Item \<Rightarrow> bytes res"
  gc_ReadItems :: "nat \<Rightarrow> geosite_Item list reader"

type_synonym domains = "(string \<times> geosite_Item list) list"

text \<open>The lists are written one after the other; the index has where each begins.\<close>

fun write_items_of :: "geosite_codec \<Rightarrow> geosite_Item list \<Rightarrow> bytes res" where
  "write_items_of c [] = Inr []"
| "write_items_of c (item # its) =
     res_bind (gc_WriteItem c item) (\<lambda>b. res_bind (write_items_of c its) (\<lambda>bs. Inr (b @ bs)))"

fun write_lists :: "geosite_codec \<Rightarrow> domains \<Rightarrow> bytes \<Rightarrow> (bytes \<times> nat list) res" where
  "write_lists c [] content = Inr (content, [])"
| "write_lists c ((code, its) # ls) content =
     res_bind (write_items_of c its) (\<lambda>b.
     res_bind (write_lists c ls (content @ b)) (\<lambda>(all, index). Inr (all, length content # index)))"

definition sorted_domains :: "domains \<Rightarrow> domains" where
  "sorted_domains domains = map (\<lambda>code. (code, the (map_of domains code))) (sort (map fst domains))"

definition write_entry :: "geosite_codec \<Rightarrow> string \<times> geosite_Item list \<Rightarrow> nat \<Rightarrow> bytes" where
  "write_entry c l index = gc_WriteString c (fst l) @ gc_WriteUvarint c (of_nat index) @ gc_WriteUvarint c (of_nat (length (snd l)))"

definition geosite_Write :: "geosite_codec \<Rightarrow> domains \<Rightarrow> bytes res" where
  "geosite_Write c domains =
     res_bind (write_lists c (sorted_domains domains) []) (\<lambda>(content, index).
       Inr ([0] @ gc_WriteUvarint c (of_nat (length (sorted_domains domains))) @
         concat (map2 (write_entry c) (sorted_domains domains) index) @ content))"

record geosite_Reader =
  gr_file :: bytes
  gr_metadataIndex :: nat
  gr_domainIndex :: "(string \<times> int) list"
  gr_domainLength :: "(string \<times> int) list"

text \<open>A slice that is too long for the address space makes \<^verbatim>\<open>make\<close> panic; a string has 16 bytes, an item 24.\<close>

definition make_panics :: "nat \<Rightarrow> int \<Rightarrow> bool" where
  "make_panics elem_size len \<longleftrightarrow> len < 0 \<or> 2 ^ 48 < len * int elem_size"

definition make_panic :: goerr where
  "make_panic = GoPanic [ArgS ''makeslice: len out of range'']"

fun read_entries ::
  "geosite_codec \<Rightarrow> nat \<Rightarrow> (string \<times> int) list \<Rightarrow> (string \<times> int) list \<Rightarrow> ((string \<times> int) list \<times> (string \<times> int) list) reader" where
  "read_entries c 0 domainIndex domainLength bs = Inr ((domainIndex, domainLength), bs)"
| "read_entries c (Suc n) domainIndex domainLength bs =
     res_bind (gc_ReadString c bs) (\<lambda>(code, bs).
     res_bind (ReadUvarint bs) (\<lambda>(codeIndex, bs).
     res_bind (ReadUvarint bs) (\<lambda>(codeLength, bs).
       read_entries c n (AList.update code (sint codeIndex) domainIndex) (AList.update code (sint codeLength) domainLength) bs)))"

definition readMetadata :: "geosite_codec \<Rightarrow> bytes \<Rightarrow> geosite_Reader res" where
  "readMetadata c file =
     (case file of
        [] \<Rightarrow> Inl io_EOF
      | version # bs \<Rightarrow>
          if version \<noteq> 0 then Inl (ENew [ArgS ''unknown version''])
          else res_bind (ReadUvarint bs) (\<lambda>(entryLength, bs).
            if make_panics 16 (sint entryLength) then Inl make_panic
            else res_bind (read_entries c (nat (sint entryLength)) [] [] bs) (\<lambda>((domainIndex, domainLength), bs).
              Inr \<lparr>gr_file = file, gr_metadataIndex = length file - length bs, gr_domainIndex = domainIndex, gr_domainLength = domainLength\<rparr>)))"

definition geosite_NewReader :: "geosite_codec \<Rightarrow> bytes \<Rightarrow> (geosite_Reader \<times> string list) res" where
  "geosite_NewReader c file = res_bind (readMetadata c file) (\<lambda>r. Inr (r, map fst (gr_domainIndex r)))"

definition geosite_Read :: "geosite_codec \<Rightarrow> geosite_Reader \<Rightarrow> string \<Rightarrow> geosite_Item list res" where
  "geosite_Read c r code =
     (case map_of (gr_domainIndex r) code of
        None \<Rightarrow> Inl (ENew [ArgS ''code '', ArgS code, ArgS '' not exists!''])
      | Some index \<Rightarrow>
          if int (gr_metadataIndex r) + index < 0 then Inl EInvalid
          else let len = (case map_of (gr_domainLength r) code of None \<Rightarrow> 0 | Some len \<Rightarrow> len)
               in if make_panics 24 len then Inl make_panic
                  else res_bind (gc_ReadItems c (nat len) (drop (nat (int (gr_metadataIndex r) + index)) (gr_file r))) (\<lambda>(its, bs). Inr its))"

section \<open>Compiled lists\<close>

lemma values_of_concat: "values_of ty (concat codes) = concat (map (values_of ty) codes)"
  by (induction codes) (simp_all add: values_of_def)

text \<open>Merging the rules of lists is the rule of the lists together.\<close>

theorem Merge_Compile: "geosite_Merge (map geosite_Compile codes) = geosite_Compile (concat codes)"
  by (simp add: geosite_Merge_def geosite_Compile_def values_of_concat comp_def)

section \<open>What is written is read\<close>

definition geosite_laws :: "geosite_codec \<Rightarrow> bool" where
  "geosite_laws c \<longleftrightarrow> (\<forall>n. gc_WriteUvarint c n = PutUvarint n) \<and> (\<forall>s rest. gc_ReadString c (gc_WriteString c s @ rest) = Inr (s, rest)) \<and>
     (\<forall>its b rest. its \<noteq> [] \<longrightarrow> write_items_of c its = Inr b \<longrightarrow> gc_ReadItems c (length its) (b @ rest) = Inr (its, rest))"

lemma write_lists_index:
  "write_lists c ls content = Inr (all, index) \<Longrightarrow> length index = length ls \<and> (\<exists>rest. all = content @ rest) \<and>
   (\<forall>i<length ls. \<exists>b rest. write_items_of c (snd (ls ! i)) = Inr b \<and> index ! i \<le> length all \<and> drop (index ! i) all = b @ rest)"
proof (induction ls arbitrary: content index)
  case (Cons l ls)
  obtain code its where l: "l = (code, its)" by (cases l)
  from Cons.prems l obtain b index' where b: "write_items_of c its = Inr b" "write_lists c ls (content @ b) = Inr (all, index')"
    "index = length content # index'" by (auto simp: res_bind_Inr_iff)
  note IH = Cons.IH [OF b(2)]
  then obtain rest where rest: "all = content @ b @ rest" by auto
  have "\<exists>b rest. write_items_of c (snd ((l # ls) ! i)) = Inr b \<and> index ! i \<le> length all \<and> drop (index ! i) all = b @ rest" if "i < length (l # ls)" for i
    using that IH rest b(1,3) l by (cases i) auto
  with IH b(3) rest show ?case by auto
qed simp

lemma sorted_domains_props:
  assumes "distinct (map fst domains)"
  shows "set (sorted_domains domains) = set domains" "distinct (map fst (sorted_domains domains))" "length (sorted_domains domains) = length domains"
proof -
  show "set (sorted_domains domains) = set domains"
    using assms by (force simp: sorted_domains_def image_iff)
  have "map fst (sorted_domains domains) = sort (map fst domains)" by (simp add: sorted_domains_def comp_def)
  then show "distinct (map fst (sorted_domains domains))" "length (sorted_domains domains) = length domains"
    using assms by (simp_all add: sorted_domains_def)
qed

lemma map_of_updates: "map_of (fold (\<lambda>(k, v). AList.update k v) kvs al) = map_of al ++ map_of (rev kvs)"
  by (induction kvs arbitrary: al) (auto simp: AList.update_conv' map_add_def fun_eq_iff split: option.splits)

lemma keys_updates: "set (map fst (fold (\<lambda>(k, v). AList.update k v) kvs al)) = set (map fst al) \<union> set (map fst kvs)"
  by (simp add: dom_map_of_conv_image_fst [symmetric] map_of_updates) (simp add: dom_map_of_conv_image_fst Un_commute)

lemma updates_lookup:
  assumes "distinct (map fst kvs)" "(k, v) \<in> set kvs"
  shows "map_of (fold (\<lambda>(k, v). AList.update k v) kvs []) k = Some v"
  using assms by (simp add: map_of_updates map_of_is_SomeI rev_map [symmetric])

lemma sint_of_nat: "n < 2 ^ 63 \<Longrightarrow> sint (of_nat n :: u64) = int n"
  by (simp add: signed_of_nat signed_take_bit_int_eq_self)

lemma read_entries_write:
  assumes "geosite_laws c" "length index = length ls" "\<forall>n\<in>set index. n < 2 ^ 63" "\<forall>l\<in>set ls. length (snd l) < 2 ^ 63"
  shows "read_entries c (length ls) di dl (concat (map2 (write_entry c) ls index) @ rest) =
    Inr ((fold (\<lambda>(k, v). AList.update k v) (zip (map fst ls) (map int index)) di,
      fold (\<lambda>(k, v). AList.update k v) (map (\<lambda>l. (fst l, int (length (snd l)))) ls) dl), rest)"
  using assms(2-4)
proof (induction ls arbitrary: index di dl)
  case (Cons l ls)
  then obtain n ns where n: "index = n # ns" by (cases index) auto
  have laws: "gc_ReadString c (gc_WriteString c s @ rest) = Inr (s, rest)" "gc_WriteUvarint c m = PutUvarint m" for s m rest
    using assms(1) by (simp_all add: geosite_laws_def)
  from Cons show ?case
    by (simp add: n write_entry_def laws ReadUvarint_PutUvarint res_bind_def sint_of_nat)
qed simp

definition sizes_ok :: "domains \<Rightarrow> bytes \<Rightarrow> bool" where
  "sizes_ok domains file \<longleftrightarrow> length domains \<le> 2 ^ 44 \<and> length file < 2 ^ 63 \<and> (\<forall>l\<in>set domains. snd l \<noteq> [] \<and> length (snd l) \<le> 2 ^ 43)"

lemma make_fits: "n \<le> 2 ^ 44 \<Longrightarrow> \<not> make_panics 16 (int n)" "n \<le> 2 ^ 43 \<Longrightarrow> \<not> make_panics 24 (int n)"
  by (simp_all add: make_panics_def)

lemma readMetadata_write:
  assumes "geosite_laws c" "distinct (map fst domains)" "geosite_Write c domains = Inr file" "sizes_ok domains file"
    and "write_lists c (sorted_domains domains) [] = Inr (content, index)"
  shows "\<exists>header. file = header @ content \<and> readMetadata c file = Inr \<lparr>gr_file = file, gr_metadataIndex = length header,
    gr_domainIndex = fold (\<lambda>(k, v). AList.update k v) (zip (map fst (sorted_domains domains)) (map int index)) [],
    gr_domainLength = fold (\<lambda>(k, v). AList.update k v) (map (\<lambda>l. (fst l, int (length (snd l)))) (sorted_domains domains)) []\<rparr>"
proof -
  let ?ls = "sorted_domains domains"
  let ?entries = "concat (map2 (write_entry c) ?ls index)" and ?n = "length ?ls"
  have put: "gc_WriteUvarint c m = PutUvarint m" for m using assms(1) by (simp add: geosite_laws_def)
  have whole: "file = 0 # PutUvarint (of_nat ?n) @ ?entries @ content" using assms(3,5) by (simp add: geosite_Write_def res_bind_def put)
  note props = sorted_domains_props [OF assms(2)] and idx = write_lists_index [OF assms(5)]
  have sizes: "?n \<le> 2 ^ 44" "length content < 2 ^ 63" "\<forall>l\<in>set ?ls. length (snd l) < 2 ^ 63"
    using assms(4) props whole by (auto simp: sizes_ok_def)
  have "\<forall>m\<in>set index. m < 2 ^ 63"
  proof
    fix m
    assume "m \<in> set index"
    then obtain i where "i < length index" "m = index ! i" by (auto simp: in_set_conv_nth)
    with idx have "m \<le> length content" by auto
    with sizes(2) show "m < 2 ^ 63" by simp
  qed
  note entries = read_entries_write [OF assms(1) _ this sizes(3), of "[]" "[]" content]
  have "sint (of_nat ?n :: u64) = int ?n" using sizes(1) by (intro sint_of_nat) simp
  then have "readMetadata c file = Inr \<lparr>gr_file = file, gr_metadataIndex = length file - length content,
    gr_domainIndex = fold (\<lambda>(k, v). AList.update k v) (zip (map fst ?ls) (map int index)) [],
    gr_domainLength = fold (\<lambda>(k, v). AList.update k v) (map (\<lambda>l. (fst l, int (length (snd l)))) ?ls) []\<rparr>"
    using entries idx make_fits(1) [OF sizes(1)] by (simp add: readMetadata_def whole ReadUvarint_PutUvarint res_bind_def)
  then show ?thesis by (intro exI [of _ "0 # PutUvarint (of_nat ?n) @ ?entries"]) (simp add: whole)
qed

text \<open>C28. The domain lists that are written are read: the reader of the file lists exactly the codes, and gives for each code its list.\<close>

theorem geosite_roundtrip:
  assumes "geosite_laws c" "distinct (map fst domains)" "geosite_Write c domains = Inr file" "sizes_ok domains file"
  shows "\<exists>r codes. geosite_NewReader c file = Inr (r, codes) \<and> set codes = fst ` set domains \<and>
    (\<forall>(code, its)\<in>set domains. geosite_Read c r code = Inr its) \<and>
    (\<forall>code. code \<notin> fst ` set domains \<longrightarrow> geosite_Read c r code = Inl (ENew [ArgS ''code '', ArgS code, ArgS '' not exists!'']))"
proof -
  let ?ls = "sorted_domains domains"
  note props = sorted_domains_props [OF assms(2)]
  from assms(3) obtain content index where w: "write_lists c ?ls [] = Inr (content, index)" by (auto simp: geosite_Write_def res_bind_Inr_iff)
  note idx = write_lists_index [OF w]
  let ?di = "fold (\<lambda>(k, v). AList.update k v) (zip (map fst ?ls) (map int index)) []"
  let ?dl = "fold (\<lambda>(k, v). AList.update k v) (map (\<lambda>l. (fst l, int (length (snd l)))) ?ls) []"
  from readMetadata_write [OF assms w] obtain header where
    h: "file = header @ content" "readMetadata c file = Inr \<lparr>gr_file = file, gr_metadataIndex = length header, gr_domainIndex = ?di, gr_domainLength = ?dl\<rparr>"
    by blast
  let ?r = "\<lparr>gr_file = file, gr_metadataIndex = length header, gr_domainIndex = ?di, gr_domainLength = ?dl\<rparr>"
  have keys: "fst ` set ?di = fst ` set domains"
    using keys_updates [of "zip (map fst ?ls) (map int index)" "[]"] idx props(1) by simp
  have "geosite_Read c ?r code = Inr its" if "(code, its) \<in> set domains" for code its
  proof -
    from that props(1) obtain i where i: "i < length ?ls" "?ls ! i = (code, its)" by (metis in_set_conv_nth)
    from idx i obtain b rest where b: "write_items_of c its = Inr b" "index ! i \<le> length content" "drop (index ! i) content = b @ rest" by fastforce
    have "(code, int (index ! i)) \<in> set (zip (map fst ?ls) (map int index))" using i idx by (force simp: set_zip)
    then have di: "map_of ?di code = Some (int (index ! i))" using props(2) idx by (intro updates_lookup) simp_all
    have "(code, int (length its)) \<in> set (map (\<lambda>l. (fst l, int (length (snd l)))) ?ls)" using i by (force simp: in_set_conv_nth)
    then have dl: "map_of ?dl code = Some (int (length its))" using props(2) by (intro updates_lookup) (simp_all add: comp_def)
    have its: "its \<noteq> []" "\<not> make_panics 24 (int (length its))" using assms(4) that make_fits(2) [of "length its"] by (auto simp: sizes_ok_def)
    have "gc_ReadItems c (length its) (b @ rest) = Inr (its, rest)" using assms(1) its(1) b(1) by (simp add: geosite_laws_def)
    moreover have "drop (nat (int (length header) + int (index ! i))) file = b @ rest" using h(1) b(3) by (simp add: nat_int_add)
    ultimately show ?thesis using di dl its(2) by (simp add: geosite_Read_def res_bind_def)
  qed
  moreover have "map_of ?di code = None" if "code \<notin> fst ` set domains" for code using that keys by (simp add: map_of_eq_None_iff)
  ultimately show ?thesis using h(2) keys
    by (intro exI [of _ ?r] exI [of _ "map fst ?di"]) (auto simp: geosite_NewReader_def res_bind_def geosite_Read_def)
qed

fun get_sites :: "nat \<Rightarrow> geosite_Item list reader" where
  "get_sites 0 bs = Inr ([], bs)"
| "get_sites (Suc n) [] = Inl EInvalid"
| "get_sites (Suc n) (b # bs) =
     res_bind (get_string bs) (\<lambda>(s, bs). res_bind (get_sites n bs) (\<lambda>(its, bs). Inr (\<lparr>gi_Type = b, gi_Value = s\<rparr> # its, bs)))"

definition sample_geosite :: geosite_codec where
  "sample_geosite = \<lparr>gc_WriteUvarint = PutUvarint, gc_WriteString = put_string, gc_ReadString = get_string,
     gc_WriteItem = (\<lambda>item. Inr (gi_Type item # put_string (gi_Value item))), gc_ReadItems = get_sites\<rparr>"

lemma sample_geosite_laws: "geosite_laws sample_geosite"
proof -
  have "get_sites (length its) (b @ rest) = Inr (its, rest)" if "write_items_of sample_geosite its = Inr b" for its b rest
    using that
  proof (induction its arbitrary: b)
    case (Cons item its)
    then obtain b' where "write_items_of sample_geosite its = Inr b'" "b = gi_Type item # put_string (gi_Value item) @ b'"
      by (auto simp: sample_geosite_def res_bind_Inr_iff)
    with Cons.IH [of b'] show ?case by (simp add: res_bind_def)
  qed simp
  then show ?thesis by (simp add: geosite_laws_def sample_geosite_def)
qed

definition sample_domains :: domains where
  "sample_domains = [(''cn'', [\<lparr>gi_Type = 1, gi_Value = ''b''\<rparr>]), (''ads'', [\<lparr>gi_Type = 0, gi_Value = ''a''\<rparr>, \<lparr>gi_Type = 2, gi_Value = []\<rparr>])]"

theorem geosite_roundtrip_witness:
  "\<exists>file r codes. geosite_Write sample_geosite sample_domains = Inr file \<and> geosite_NewReader sample_geosite file = Inr (r, codes) \<and>
     set codes = {''cn'', ''ads''} \<and> geosite_Read sample_geosite r ''cn'' = Inr [\<lparr>gi_Type = 1, gi_Value = ''b''\<rparr>]"
proof -
  have "(case geosite_Write sample_geosite sample_domains of Inl err \<Rightarrow> False | Inr file \<Rightarrow> length file < 100)" by code_simp
  then obtain f where w: "geosite_Write sample_geosite sample_domains = Inr f" "length f < 100" by (auto split: sum.splits)
  then have "sizes_ok sample_domains f" by (simp add: sizes_ok_def sample_domains_def)
  moreover have "distinct (map fst sample_domains)" by (simp add: sample_domains_def)
  ultimately obtain r codes where r: "geosite_NewReader sample_geosite f = Inr (r, codes)" "set codes = fst ` set sample_domains"
    "\<forall>(code, its)\<in>set sample_domains. geosite_Read sample_geosite r code = Inr its"
    using geosite_roundtrip [OF sample_geosite_laws _ w(1)] by blast
  from r(3) have "geosite_Read sample_geosite r ''cn'' = Inr [\<lparr>gi_Type = 1, gi_Value = ''b''\<rparr>]" by (simp add: sample_domains_def)
  moreover have "fst ` set sample_domains = {''cn'', ''ads''}" by (simp add: sample_domains_def)
  ultimately show ?thesis using w(1) r(1,2) by (intro exI [of _ f] exI [of _ r] exI [of _ codes] conjI) simp_all
qed

text \<open>A file that claims too many entries makes the reader panic.\<close>

lemma huge_index_panics:
  "PutUvarint n @ rest = bs \<Longrightarrow> make_panics 16 (sint n) \<Longrightarrow> geosite_NewReader c (0 # bs) = Inl make_panic"
  by (auto simp: geosite_NewReader_def readMetadata_def ReadUvarint_PutUvarint res_bind_def)

end
