(* ===== verification/Naive.thy ===== *)
theory Naive
  imports Streams HelloProps
begin

text \<open>
  The connections of the naive inbound (\<^verbatim>\<open>protocol/naive/inbound_conn.go\<close>): the first eight pieces in each direction are framed with a
  header of their size and the size of a padding behind them. \<^verbatim>\<open>naiveH1Conn\<close> works on a connection, \<^verbatim>\<open>naiveH2Conn\<close> on the body of
  a request and a response that is flushed; the rest of their code is the same and is one group of definitions here, for all extensions of
  the record. The random padding of the i-th framed piece is \<open>pad i\<close>, the function \<open>skip\<close> is \<^verbatim>\<open>rw.SkipN\<close>, and \<open>writer\<close> is the write below: the
  number of bytes that it has written, and its error.
\<close>

section \<open>Model\<close>

definition kFirstPaddings :: nat where "kFirstPaddings = 8"

record naiveH1Conn =
  nv_conn :: segments
  nv_readPadding :: nat
  nv_writePadding :: nat
  nv_readRemaining :: nat
  nv_paddingRemaining :: nat
  nv_written :: bytes

record naiveH2Conn = naiveH1Conn +
  nv_flushed :: nat

definition newH1Conn :: "segments \<Rightarrow> naiveH1Conn" where
  "newH1Conn cs = \<lparr>nv_conn = cs, nv_readPadding = 0, nv_writePadding = 0, nv_readRemaining = 0, nv_paddingRemaining = 0, nv_written = []\<rparr>"

definition newH2Conn :: "segments \<Rightarrow> naiveH2Conn" where
  "newH2Conn cs =
     \<lparr>nv_conn = cs, nv_readPadding = 0, nv_writePadding = 0, nv_readRemaining = 0, nv_paddingRemaining = 0, nv_written = [], nv_flushed = 0\<rparr>"

type_synonym writer = "bytes \<Rightarrow> nat \<times> goerr option"

definition ErrClosed :: goerr where
  "ErrClosed = EExternal ''use of closed network connection''"

definition wrapHttpError :: "(goerr \<Rightarrow> string) \<Rightarrow> goerr \<Rightarrow> goerr" where
  "wrapHttpError err_Error err =
     (if strings_Contains (err_Error err) ''client disconnected'' then ErrClosed
      else if strings_Contains (err_Error err) ''body closed by handler'' then ErrClosed
      else if strings_Contains (err_Error err) ''canceled with error code 268'' then io_EOF
      else err)"

subsection \<open>Reading\<close>

text \<open>The header of a framed piece and its first bytes.\<close>

definition naive_frame :: "nat \<Rightarrow> 'a naiveH1Conn_scheme \<Rightarrow> ((goerr option \<times> bytes) \<times> 'a naiveH1Conn_scheme) option" where
  "naive_frame k c =
     (case io_ReadFull conn_Read 3 (nv_conn c) of
        None \<Rightarrow> None
      | Some ((Some err, p), cs) \<Rightarrow> Some ((Some err, []), c\<lparr>nv_conn := cs\<rparr>)
      | Some ((None, paddingHdr), cs) \<Rightarrow>
          let originalDataSize = unat (be16 (paddingHdr ! 0) (paddingHdr ! 1)); paddingSize = unat (paddingHdr ! 2)
          in case conn_Read (if k > originalDataSize then originalDataSize else k) cs of
               None \<Rightarrow> None
             | Some ((Some err, p), cs) \<Rightarrow> Some ((Some err, p), c\<lparr>nv_conn := cs\<rparr>)
             | Some ((None, p), cs) \<Rightarrow>
                 Some ((None, p), c\<lparr>nv_conn := cs, nv_readPadding := nv_readPadding c + 1, nv_readRemaining := originalDataSize - length p,
                   nv_paddingRemaining := paddingSize\<rparr>))"

definition naive_plain :: "nat \<Rightarrow> 'a naiveH1Conn_scheme \<Rightarrow> ((goerr option \<times> bytes) \<times> 'a naiveH1Conn_scheme) option" where
  "naive_plain k c = map_option (apsnd (\<lambda>cs. c\<lparr>nv_conn := cs\<rparr>)) (conn_Read k (nv_conn c))"

definition naive_read :: "(nat \<Rightarrow> segments \<Rightarrow> goerr option \<times> segments) \<Rightarrow> 'a naiveH1Conn_scheme read" where
  "naive_read skip k c =
     (if nv_readRemaining c > 0 then
        (case conn_Read (if k > nv_readRemaining c then nv_readRemaining c else k) (nv_conn c) of
           None \<Rightarrow> None
         | Some ((Some err, p), cs) \<Rightarrow> Some ((Some err, p), c\<lparr>nv_conn := cs\<rparr>)
         | Some ((None, p), cs) \<Rightarrow> Some ((None, p), c\<lparr>nv_conn := cs, nv_readRemaining := nv_readRemaining c - length p\<rparr>))
      else case (if nv_paddingRemaining c > 0 then skip (nv_paddingRemaining c) (nv_conn c) else (None, nv_conn c)) of
        (Some err, cs) \<Rightarrow> Some ((Some err, []), c\<lparr>nv_conn := cs\<rparr>)
      | (None, cs) \<Rightarrow>
          let c = c\<lparr>nv_conn := cs, nv_paddingRemaining := 0\<rparr>
          in if nv_readPadding c < kFirstPaddings then naive_frame k c else naive_plain k c)"

definition naive_Read :: "(goerr \<Rightarrow> string) \<Rightarrow> (nat \<Rightarrow> segments \<Rightarrow> goerr option \<times> segments) \<Rightarrow> 'a naiveH1Conn_scheme read" where
  "naive_Read err_Error skip k c = map_option (apfst (apfst (map_option (wrapHttpError err_Error)))) (naive_read skip k c)"

text \<open>The method \<^verbatim>\<open>Read\<close> of both types.\<close>

definition H1_Read :: "(goerr \<Rightarrow> string) \<Rightarrow> (nat \<Rightarrow> segments \<Rightarrow> goerr option \<times> segments) \<Rightarrow> naiveH1Conn read" where
  "H1_Read err_Error skip k c = naive_Read err_Error skip k c"

definition H2_Read :: "(goerr \<Rightarrow> string) \<Rightarrow> (nat \<Rightarrow> segments \<Rightarrow> goerr option \<times> segments) \<Rightarrow> naiveH2Conn read" where
  "H2_Read err_Error skip k c = naive_Read err_Error skip k c"

subsection \<open>Writing\<close>

definition write_below :: "writer \<Rightarrow> bytes \<Rightarrow> 'a naiveH1Conn_scheme \<Rightarrow> (nat \<times> goerr option) \<times> 'a naiveH1Conn_scheme" where
  "write_below writer b c = (writer b, c\<lparr>nv_written := nv_written c @ take (fst (writer b)) b\<rparr>)"

text \<open>The buffer of \<^verbatim>\<open>write\<close> has room for the padding, but the padding is not put into it.\<close>

definition naive_write :: "(nat \<Rightarrow> bytes) \<Rightarrow> writer \<Rightarrow> bytes \<Rightarrow> 'a naiveH1Conn_scheme \<Rightarrow> (nat \<times> goerr option) \<times> 'a naiveH1Conn_scheme" where
  "naive_write pad writer p c =
     (if nv_writePadding c < kFirstPaddings then
        (let paddingSize = length (pad (nv_writePadding c));
             buffer = put_be 2 (of_nat (length p) :: u16) @ [of_nat paddingSize] @ p
         in case write_below writer buffer c of
              ((n, err), c) \<Rightarrow>
                (case err of None \<Rightarrow> (length p, None) | Some err \<Rightarrow> (0, Some err), c\<lparr>nv_writePadding := nv_writePadding c + 1\<rparr>))
      else write_below writer p c)"

function naive_write_loop ::
  "(nat \<Rightarrow> bytes) \<Rightarrow> writer \<Rightarrow> bytes \<Rightarrow> nat \<Rightarrow> 'a naiveH1Conn_scheme \<Rightarrow> (nat \<times> goerr option) \<times> 'a naiveH1Conn_scheme" where
  "naive_write_loop pad writer p n c =
     (if p = [] then ((n, None), c)
      else case naive_write pad writer (if length p > 65535 then take 65535 p else p) c of
        ((writeN, Some err), c) \<Rightarrow> ((n + writeN, Some err), c)
      | ((writeN, None), c) \<Rightarrow> naive_write_loop pad writer (if length p > 65535 then drop 65535 p else []) (n + writeN) c)"
  by pat_completeness auto
termination by (relation "measure (\<lambda>(pad, writer, p, n, c). length p)") auto

declare naive_write_loop.simps [simp del]

definition H1_Write ::
  "(goerr \<Rightarrow> string) \<Rightarrow> (nat \<Rightarrow> bytes) \<Rightarrow> writer \<Rightarrow> bytes \<Rightarrow> naiveH1Conn \<Rightarrow> (nat \<times> goerr option) \<times> naiveH1Conn" where
  "H1_Write err_Error pad writer p c = apfst (apsnd (map_option (wrapHttpError err_Error))) (naive_write_loop pad writer p 0 c)"

definition H2_Write ::
  "(goerr \<Rightarrow> string) \<Rightarrow> (nat \<Rightarrow> bytes) \<Rightarrow> writer \<Rightarrow> bytes \<Rightarrow> naiveH2Conn \<Rightarrow> (nat \<times> goerr option) \<times> naiveH2Conn" where
  "H2_Write err_Error pad writer p c =
     (case naive_write_loop pad writer p 0 c of
        ((n, None), c) \<Rightarrow> ((n, None), c\<lparr>nv_flushed := nv_flushed c + 1\<rparr>)
      | ((n, Some err), c) \<Rightarrow> ((n, Some (wrapHttpError err_Error err)), c))"

text \<open>A buffer is written with its padding. It has to have the room that the next three functions ask for.\<close>

definition naive_FrontHeadroom :: "'a naiveH1Conn_scheme \<Rightarrow> nat" where
  "naive_FrontHeadroom c = (if nv_writePadding c < kFirstPaddings then 3 else 0)"

definition naive_RearHeadroom :: "'a naiveH1Conn_scheme \<Rightarrow> nat" where
  "naive_RearHeadroom c = (if nv_writePadding c < kFirstPaddings then 255 else 0)"

definition naive_WriterMTU :: "'a naiveH1Conn_scheme \<Rightarrow> nat" where
  "naive_WriterMTU c = (if nv_writePadding c < kFirstPaddings then 65535 else 0)"

definition framed_buffer :: "(nat \<Rightarrow> bytes) \<Rightarrow> bytes \<Rightarrow> 'a naiveH1Conn_scheme \<Rightarrow> bytes \<times> 'a naiveH1Conn_scheme" where
  "framed_buffer pad buffer c =
     (if nv_writePadding c < kFirstPaddings
      then (put_be 2 (of_nat (length buffer) :: u16) @ [of_nat (length (pad (nv_writePadding c)))] @ buffer @ pad (nv_writePadding c),
        c\<lparr>nv_writePadding := nv_writePadding c + 1\<rparr>)
      else (buffer, c))"

definition H1_WriteBuffer ::
  "(goerr \<Rightarrow> string) \<Rightarrow> (nat \<Rightarrow> bytes) \<Rightarrow> writer \<Rightarrow> bytes \<Rightarrow> naiveH1Conn \<Rightarrow> goerr option \<times> naiveH1Conn" where
  "H1_WriteBuffer err_Error pad writer buffer c =
     (if nv_writePadding c < kFirstPaddings \<and> length buffer > 65535 then apfst snd (H1_Write err_Error pad writer buffer c)
      else case framed_buffer pad buffer c of
        (b, c) \<Rightarrow> apfst (\<lambda>r. map_option (wrapHttpError err_Error) (snd r)) (write_below writer b c))"

definition H2_WriteBuffer ::
  "(goerr \<Rightarrow> string) \<Rightarrow> (nat \<Rightarrow> bytes) \<Rightarrow> writer \<Rightarrow> bytes \<Rightarrow> naiveH2Conn \<Rightarrow> goerr option \<times> naiveH2Conn" where
  "H2_WriteBuffer err_Error pad writer buffer c =
     (if nv_writePadding c < kFirstPaddings \<and> length buffer > 65535 then apfst snd (H2_Write err_Error pad writer buffer c)
      else case framed_buffer pad buffer c of
        (b, c) \<Rightarrow>
          (case write_below writer b c of
             ((n, None), c) \<Rightarrow> (None, c\<lparr>nv_flushed := nv_flushed c + 1\<rparr>)
           | ((n, Some err), c) \<Rightarrow> (Some (wrapHttpError err_Error err), c)))"

definition naive_ReaderReplaceable :: "'a naiveH1Conn_scheme \<Rightarrow> bool" where
  "naive_ReaderReplaceable c \<longleftrightarrow> nv_readPadding c = kFirstPaddings"

definition naive_WriterReplaceable :: "'a naiveH1Conn_scheme \<Rightarrow> bool" where
  "naive_WriterReplaceable c \<longleftrightarrow> nv_writePadding c = kFirstPaddings"

section \<open>Buffers arrive\<close>

definition enc_naive :: "bytes \<times> bytes \<Rightarrow> bytes" where
  "enc_naive f = put_be 2 (of_nat (length (fst f)) :: u16) @ [of_nat (length (snd f))] @ fst f @ snd f"

definition frames_ok :: "(bytes \<times> bytes) list \<Rightarrow> bool" where
  "frames_ok fs \<longleftrightarrow> (\<forall>f\<in>set fs. fst f \<noteq> [] \<and> length (fst f) < 65536 \<and> length (snd f) < 256)"

definition naive_gives :: "'a naiveH1Conn_scheme \<Rightarrow> bytes \<Rightarrow> bool" where
  "naive_gives c bs \<longleftrightarrow> (\<exists>rest padding fs tail. nv_readRemaining c = length rest \<and> nv_paddingRemaining c = length padding \<and>
     concat (nv_conn c) = rest @ padding @ concat (map enc_naive fs) @ tail \<and> frames_ok fs \<and>
     nv_readPadding c + length fs \<le> kFirstPaddings \<and> (tail \<noteq> [] \<longrightarrow> nv_readPadding c + length fs = kFirstPaddings) \<and>
     bs = rest @ concat (map fst fs) @ tail)"

text \<open>What is needed of \<^verbatim>\<open>rw.SkipN\<close>: it leaves what reading that many bytes leaves.\<close>

definition skip_law :: "(nat \<Rightarrow> segments \<Rightarrow> goerr option \<times> segments) \<Rightarrow> bool" where
  "skip_law skip \<longleftrightarrow> (\<forall>n cs p cs'. io_ReadFull conn_Read n cs = Some ((None, p), cs') \<longrightarrow> skip n cs = (None, cs'))"

lemma conn_Read_segments: "conn_Read k cs = Some (r, cs') \<Longrightarrow> length cs' \<le> length cs"
  by (cases cs) (auto split: if_splits)

lemma read_missing_segments:
  assumes "read_missing conn_Read n acc cs = Some y"
  shows "length (snd y) \<le> length cs"
proof -
  have "conn_Read = conn_Read \<longrightarrow> length (snd y) \<le> length cs"
  proof (rule read_missing.raw_induct [where P = "\<lambda>rd n acc cs y. rd = conn_Read \<longrightarrow> length (snd y) \<le> length cs", OF _ assms], rule impI)
    fix f and rd :: "segments read" and n acc cs y
    assume IH: "\<And>rd n acc cs y. f rd n acc cs = Some y \<Longrightarrow> rd = conn_Read \<longrightarrow> length (snd y) \<le> length cs" and rd: "rd = conn_Read"
      and step: "(if n = 0 then Some ((None, acc), cs)
        else case rd n cs of
          None \<Rightarrow> None
        | Some ((None, p), cs) \<Rightarrow> f rd (n - length p) (acc @ p) cs
        | Some ((Some err, p), cs) \<Rightarrow>
            Some ((if n \<le> length p then None else Some (if err = io_EOF \<and> acc @ p \<noteq> [] then EUnexpectedEOF else err), acc @ p), cs)) = Some y"
    show "length (snd y) \<le> length cs"
    proof (cases "n = 0")
      case False
      with step rd obtain e p cs' where cs': "conn_Read n cs = Some ((e, p), cs')"
        "e = None \<Longrightarrow> f rd (n - length p) (acc @ p) cs' = Some y" "e \<noteq> None \<Longrightarrow> snd y = cs'"
        by (auto split: option.splits prod.splits)
      show ?thesis
      proof (cases e)
        case None
        from IH [OF cs'(2) [OF None]] rd have "length (snd y) \<le> length cs'" by simp
        with conn_Read_segments [OF cs'(1)] show ?thesis by simp
      next
        case Some
        with cs'(3) conn_Read_segments [OF cs'(1)] show ?thesis by simp
      qed
    qed (use step in auto)
  qed
  then show ?thesis by simp
qed

lemma conn_ReadFull:
  assumes "concat cs = bs @ rest" "length bs = n"
  shows "\<exists>cs'. io_ReadFull conn_Read n cs = Some ((None, bs), cs') \<and> concat cs' = rest \<and> length cs' \<le> length cs"
  using conn.ReadFull_returns [OF assms] read_missing_segments [of n "[]" cs] by (auto simp: io_ReadFull_def)

lemma skip_padding:
  assumes "skip_law skip" "concat cs = padding @ rest"
  shows "\<exists>cs'. (if length padding > 0 then skip (length padding) cs else (None, cs)) = (None, cs') \<and> concat cs' = rest \<and> length cs' \<le> length cs"
  using conn_ReadFull [OF assms(2) refl] assms unfolding skip_law_def by fastforce


lemma read_piece:
  assumes "concat cs = d @ rest" "d \<noteq> []" "0 < k"
  shows "\<exists>p d' cs'. conn_Read (if k > length d then length d else k) cs = Some ((None, p), cs') \<and> d = p @ d' \<and> length p \<le> k \<and>
    concat cs' = d' @ rest \<and> (p = [] \<longrightarrow> length cs' < length cs)"
proof -
  let ?k = "if k > length d then length d else k"
  have k: "0 < ?k" "?k \<le> length d" "?k \<le> k" using assms(2,3) by auto
  from conn.reads [of cs "d @ rest" ?k] assms(1,2) k(1) obtain p cs' r where
    rd: "conn_Read ?k cs = Some ((None, p), cs')" "d @ rest = p @ r" "length p \<le> ?k" "concat cs' = r" "p = [] \<longrightarrow> length cs' < length cs" by auto
  have "length p \<le> length d" using rd(3) k(2) by simp
  with rd(2) obtain d' where "d = p @ d'" "r = d' @ rest" by (auto simp: append_eq_append_conv2)
  with rd k(3) show ?thesis by (intro exI [of _ p] exI [of _ d'] exI [of _ cs']) auto
qed

lemma frame_header:
  assumes "length d < 65536" "length padding < 256"
  shows "unat (be16 ((put_be 2 (of_nat (length d) :: u16) @ [of_nat (length padding)]) ! 0)
      ((put_be 2 (of_nat (length d) :: u16) @ [of_nat (length padding)]) ! 1)) = length d"
    "unat ((put_be 2 (of_nat (length d) :: u16) @ [of_nat (length padding) :: u8]) ! 2) = length padding"
proof -
  have "be16 ((put_be 2 (w :: u16) @ [v]) ! 0) ((put_be 2 w @ [v]) ! 1) = w" for w v by (simp add: put_be_2 be16_put)
  then show "unat (be16 ((put_be 2 (of_nat (length d) :: u16) @ [of_nat (length padding)]) ! 0)
      ((put_be 2 (of_nat (length d) :: u16) @ [of_nat (length padding)]) ! 1)) = length d" using assms(1) by (simp only: unat_u16)
  show "unat ((put_be 2 (of_nat (length d) :: u16) @ [of_nat (length padding) :: u8]) ! 2) = length padding"
    using assms(2) by (simp add: nth_append unat_u8)
qed

lemma naive_frame_gives:
  assumes "concat (nv_conn c) = concat (map enc_naive (f # fs)) @ tail" "frames_ok (f # fs)" "0 < k"
    and "nv_readPadding c + length (f # fs) \<le> kFirstPaddings" "tail \<noteq> [] \<longrightarrow> nv_readPadding c + length (f # fs) = kFirstPaddings"
  shows "\<exists>p c' rest. naive_frame k c = Some ((None, p), c') \<and> concat (map fst (f # fs)) @ tail = p @ rest \<and> length p \<le> k \<and> naive_gives c' rest \<and>
    (p = [] \<longrightarrow> length (nv_conn c') < length (nv_conn c))"
proof -
  obtain d padding where f: "f = (d, padding)" by (cases f)
  let ?h = "put_be 2 (of_nat (length d) :: u16) @ [of_nat (length padding) :: u8]" and ?t = "padding @ concat (map enc_naive fs) @ tail"
  have d: "d \<noteq> []" "length d < 65536" "length padding < 256" "frames_ok fs" using assms(2) by (simp_all add: frames_ok_def f)
  have "concat (nv_conn c) = ?h @ d @ ?t" "length ?h = 3" using assms(1) by (simp_all add: f enc_naive_def)
  from conn_ReadFull [OF this] obtain cs where
    cs: "io_ReadFull conn_Read 3 (nv_conn c) = Some ((None, ?h), cs)" "concat cs = d @ ?t" "length cs \<le> length (nv_conn c)" by blast
  from read_piece [OF cs(2) d(1) assms(3)] obtain p d' cs' where
    p: "conn_Read (if k > length d then length d else k) cs = Some ((None, p), cs')" "d = p @ d'" "length p \<le> k" "concat cs' = d' @ ?t"
      "p = [] \<longrightarrow> length cs' < length cs" by blast
  let ?c = "c\<lparr>nv_conn := cs', nv_readPadding := nv_readPadding c + 1, nv_readRemaining := length d - length p, nv_paddingRemaining := length padding\<rparr>"
  have "naive_frame k c = Some ((None, p), ?c)"
    unfolding naive_frame_def cs(1) option.case prod.case Let_def frame_header [OF d(2,3)] p(1) ..
  moreover have "naive_gives ?c (d' @ concat (map fst fs) @ tail)"
    unfolding naive_gives_def using p(2,4) d(4) assms(4,5) by (intro exI [of _ d'] exI [of _ padding] exI [of _ fs] exI [of _ tail]) simp
  ultimately show ?thesis using p(2,3,5) cs(3) by (intro exI [of _ p] exI [of _ ?c] exI [of _ "d' @ concat (map fst fs) @ tail"]) (auto simp: f)
qed

lemma naive_plain_gives:
  assumes "nv_readPadding c = kFirstPaddings" "nv_readRemaining c = 0" "nv_paddingRemaining c = 0" "concat (nv_conn c) = tail" "tail \<noteq> []" "0 < k"
  shows "\<exists>p c' rest. naive_plain k c = Some ((None, p), c') \<and> tail = p @ rest \<and> length p \<le> k \<and> naive_gives c' rest \<and>
    (p = [] \<longrightarrow> length (nv_conn c') < length (nv_conn c))"
proof -
  from conn.reads [OF assms(4-6)] obtain p cs rest where
    p: "conn_Read k (nv_conn c) = Some ((None, p), cs)" "tail = p @ rest" "length p \<le> k" "concat cs = rest" "p = [] \<longrightarrow> length cs < length (nv_conn c)"
    by blast
  have "naive_gives (c\<lparr>nv_conn := cs\<rparr>) rest"
    unfolding naive_gives_def using assms(1-3) p(4)
    by (intro exI [of _ "[]"] exI [of _ rest]) (simp add: frames_ok_def)
  with p show ?thesis by (auto simp: naive_plain_def)
qed

lemma naive_after_skip:
  assumes "skip_law skip" "nv_readRemaining c = 0" "nv_paddingRemaining c = length padding" "concat (nv_conn c) = padding @ rest"
  obtains cs where "concat cs = rest" "length cs \<le> length (nv_conn c)"
    "naive_read skip k c = (if nv_readPadding c < kFirstPaddings then naive_frame k (c\<lparr>nv_conn := cs, nv_paddingRemaining := 0\<rparr>)
       else naive_plain k (c\<lparr>nv_conn := cs, nv_paddingRemaining := 0\<rparr>))"
proof -
  from skip_padding [OF assms(1,4)] obtain cs where
    cs: "(if length padding > 0 then skip (length padding) (nv_conn c) else (None, nv_conn c)) = (None, cs)" "concat cs = rest"
      "length cs \<le> length (nv_conn c)" by blast
  from cs(1) have "naive_read skip k c = (if nv_readPadding c < kFirstPaddings then naive_frame k (c\<lparr>nv_conn := cs, nv_paddingRemaining := 0\<rparr>)
       else naive_plain k (c\<lparr>nv_conn := cs, nv_paddingRemaining := 0\<rparr>))"
    unfolding naive_read_def assms(2,3) by (simp add: Let_def)
  with cs(2,3) show thesis by (rule that)
qed

lemma naive_at_end:
  assumes "concat (nv_conn c) = []" "0 < k" "nv_readRemaining c = 0" "nv_paddingRemaining c = 0" "nv_readPadding c \<le> kFirstPaddings"
  shows "\<exists>err c'. (if nv_readPadding c < kFirstPaddings then naive_frame k c else naive_plain k c) = Some ((err, []), c') \<and> naive_gives c' [] \<and>
    (err = None \<and> length (nv_conn c') < length (nv_conn c) \<or> err = Some io_EOF)"
proof -
  have gives: "naive_gives (c\<lparr>nv_conn := cs\<rparr>) []" if "concat cs = []" for cs
    unfolding naive_gives_def using that assms by (intro exI [of _ "[]"]) (simp add: frames_ok_def)
  show ?thesis
  proof (cases "nv_readPadding c < kFirstPaddings")
    case True
    from conn.ReadFull_at_end [OF assms(1), of 3] gives True show ?thesis by (auto simp: naive_frame_def)
  next
    case False
    from conn.ends [OF assms(1,2)] gives False show ?thesis by (auto simp: naive_plain_def)
  qed
qed

text \<open>A naive connection is a reader of the pieces and what follows them.\<close>

interpretation naive: io_reader "naive_read skip" "\<lambda>c bs. skip_law skip \<and> naive_gives c bs" "\<lambda>c. length (nv_conn c)" for skip
proof (unfold_locales, goal_cases)
  case (1 c bs k)
  then obtain rest padding fs tail where
    c: "nv_readRemaining c = length rest" "nv_paddingRemaining c = length padding"
      "concat (nv_conn c) = rest @ padding @ concat (map enc_naive fs) @ tail" "frames_ok fs"
      "nv_readPadding c + length fs \<le> kFirstPaddings" "tail \<noteq> [] \<longrightarrow> nv_readPadding c + length fs = kFirstPaddings"
      "bs = rest @ concat (map fst fs) @ tail"
    by (auto simp: naive_gives_def)
  show ?case
  proof (cases "rest = []")
    case False
    from read_piece [OF c(3) False 1(3)] obtain p d cs where
      p: "conn_Read (if k > length rest then length rest else k) (nv_conn c) = Some ((None, p), cs)" "rest = p @ d" "length p \<le> k"
        "concat cs = d @ padding @ concat (map enc_naive fs) @ tail" "p = [] \<longrightarrow> length cs < length (nv_conn c)" by blast
    let ?c = "c\<lparr>nv_conn := cs, nv_readRemaining := nv_readRemaining c - length p\<rparr>"
    have "naive_read skip k c = Some ((None, p), ?c)" using False p(1) unfolding naive_read_def c(1) by simp
    moreover have "naive_gives ?c (d @ concat (map fst fs) @ tail)"
      unfolding naive_gives_def using c p(2,4) by (intro exI [of _ d] exI [of _ padding] exI [of _ fs] exI [of _ tail]) simp
    ultimately show ?thesis using p(2,3,5) c(7) 1(1) by (intro exI [of _ p] exI [of _ ?c] exI [of _ "d @ concat (map fst fs) @ tail"]) auto
  next
    case True
    from 1(1) have "skip_law skip" by simp
    from naive_after_skip [OF this, of c padding "concat (map enc_naive fs) @ tail" k] c(1-3) True obtain cs where
      cs: "concat cs = concat (map enc_naive fs) @ tail" "length cs \<le> length (nv_conn c)"
        "naive_read skip k c = (if nv_readPadding c < kFirstPaddings then naive_frame k (c\<lparr>nv_conn := cs, nv_paddingRemaining := 0\<rparr>)
          else naive_plain k (c\<lparr>nv_conn := cs, nv_paddingRemaining := 0\<rparr>))" by auto
    let ?c = "c\<lparr>nv_conn := cs, nv_paddingRemaining := 0\<rparr>"
    have "\<exists>p c' rest. naive_read skip k c = Some ((None, p), c') \<and> bs = p @ rest \<and> length p \<le> k \<and> naive_gives c' rest \<and>
      (p = [] \<longrightarrow> length (nv_conn c') < length (nv_conn ?c))"
    proof (cases fs)
      case Nil
      with 1(2) c(6,7) True have "tail \<noteq> []" "nv_readPadding c = kFirstPaddings" by auto
      with naive_plain_gives [of ?c tail k] cs(1) c(1,7) True Nil 1(3) show ?thesis unfolding cs(3) by simp
    next
      case (Cons f fs')
      with c(5) have "nv_readPadding c < kFirstPaddings" by simp
      with naive_frame_gives [of ?c f fs' tail k] cs(1) c(4-7) True Cons 1(3) show ?thesis unfolding cs(3) by simp
    qed
    with cs(2) \<open>skip_law skip\<close> show ?thesis by fastforce
  qed
next
  case (2 c k)
  then obtain rest padding fs tail where
    c: "nv_readRemaining c = length rest" "nv_paddingRemaining c = length padding"
      "concat (nv_conn c) = rest @ padding @ concat (map enc_naive fs) @ tail" "frames_ok fs"
      "nv_readPadding c + length fs \<le> kFirstPaddings" "rest @ concat (map fst fs) @ tail = []"
    by (auto simp: naive_gives_def)
  have "fs = []" using c(4,6) by (cases fs) (auto simp: frames_ok_def)
  from 2 have law: "skip_law skip" by simp
  from naive_after_skip [OF this, of c padding "[]" k] c \<open>fs = []\<close> obtain cs where
    cs: "concat cs = []" "length cs \<le> length (nv_conn c)"
      "naive_read skip k c = (if nv_readPadding c < kFirstPaddings then naive_frame k (c\<lparr>nv_conn := cs, nv_paddingRemaining := 0\<rparr>)
        else naive_plain k (c\<lparr>nv_conn := cs, nv_paddingRemaining := 0\<rparr>))" by auto
  from naive_at_end [of "c\<lparr>nv_conn := cs, nv_paddingRemaining := 0\<rparr>" k] cs(1) c(1,5,6) 2(2) law cs(2) show ?case unfolding cs(3) by fastforce
qed

fun buffer_writes :: "(bytes \<Rightarrow> 'c \<Rightarrow> goerr option \<times> 'c) \<Rightarrow> bytes list \<Rightarrow> 'c \<Rightarrow> goerr option \<times> 'c" where
  "buffer_writes wb [] c = (None, c)"
| "buffer_writes wb (b # bs) c = (case wb b c of (Some err, c) \<Rightarrow> (Some err, c) | (None, c) \<Rightarrow> buffer_writes wb bs c)"

definition naive_wire :: "(nat \<Rightarrow> bytes) \<Rightarrow> nat \<Rightarrow> bytes list \<Rightarrow> bytes" where
  "naive_wire pad w ps =
     concat (map enc_naive (zip (take (kFirstPaddings - w) ps) (map pad [w..<kFirstPaddings]))) @ concat (drop (kFirstPaddings - w) ps)"

lemma naive_wire_Cons:
  "naive_wire pad w (p # ps) = (if w < kFirstPaddings then enc_naive (p, pad w) @ naive_wire pad (Suc w) ps else p @ naive_wire pad w ps)"
proof (cases "w < kFirstPaddings")
  case True
  then have "[w..<kFirstPaddings] = w # [Suc w..<kFirstPaddings]" "kFirstPaddings - w = Suc (kFirstPaddings - Suc w)" by (simp_all add: upt_conv_Cons)
  with True show ?thesis by (simp add: naive_wire_def)
qed (simp add: naive_wire_def)

lemma framed_buffer_wire:
  "fst (framed_buffer pad p c) = (if nv_writePadding c < kFirstPaddings then enc_naive (p, pad (nv_writePadding c)) else p)"
  by (simp add: framed_buffer_def enc_naive_def)

text \<open>What a function that writes buffers puts on the wire, and that both of them do.\<close>

definition puts_buffer :: "(nat \<Rightarrow> bytes) \<Rightarrow> (bytes \<Rightarrow> 'a naiveH1Conn_scheme \<Rightarrow> goerr option \<times> 'a naiveH1Conn_scheme) \<Rightarrow> bool" where
  "puts_buffer pad wb \<longleftrightarrow> (\<forall>p c. (nv_writePadding c < kFirstPaddings \<longrightarrow> length p \<le> 65535) \<longrightarrow>
     (\<exists>c'. wb p c = (None, c') \<and> nv_written c' = nv_written c @ fst (framed_buffer pad p c) \<and>
       nv_writePadding c' = (if nv_writePadding c < kFirstPaddings then Suc (nv_writePadding c) else nv_writePadding c)))"

lemma H1_puts: "(\<And>b. writer b = (length b, None)) \<Longrightarrow> puts_buffer pad (H1_WriteBuffer err_Error pad writer)"
  by (auto simp: puts_buffer_def H1_WriteBuffer_def framed_buffer_def write_below_def)

lemma H2_puts: "(\<And>b. writer b = (length b, None)) \<Longrightarrow> puts_buffer pad (H2_WriteBuffer err_Error pad writer)"
  by (auto simp: puts_buffer_def H2_WriteBuffer_def framed_buffer_def write_below_def)

lemma buffer_writes_wire:
  assumes "puts_buffer pad wb" "\<forall>p\<in>set (take (kFirstPaddings - nv_writePadding c) ps). length p \<le> 65535"
  shows "\<exists>c'. buffer_writes wb ps c = (None, c') \<and> nv_written c' = nv_written c @ naive_wire pad (nv_writePadding c) ps"
  using assms(2)
proof (induction ps arbitrary: c)
  case (Cons p ps)
  have "nv_writePadding c < kFirstPaddings \<longrightarrow> length p \<le> 65535" using Cons.prems by (auto simp: take_Cons' split: if_splits)
  with assms(1) obtain c1 where
    c1: "wb p c = (None, c1)" "nv_written c1 = nv_written c @ fst (framed_buffer pad p c)"
      "nv_writePadding c1 = (if nv_writePadding c < kFirstPaddings then Suc (nv_writePadding c) else nv_writePadding c)"
    unfolding puts_buffer_def by blast
  have "\<forall>p\<in>set (take (kFirstPaddings - nv_writePadding c1) ps). length p \<le> 65535"
    using Cons.prems c1(3) by (auto simp: take_Cons' split: if_splits)
  from Cons.IH [OF this] c1 show ?case by (auto simp: naive_wire_Cons framed_buffer_wire split: if_splits)
qed (simp add: naive_wire_def)

lemma wire_gives:
  assumes "concat (nv_conn c) = naive_wire pad 0 ps" "nv_readPadding c = 0" "nv_readRemaining c = 0" "nv_paddingRemaining c = 0"
    and "\<And>i. length (pad i) < 256" "\<forall>p\<in>set (take kFirstPaddings ps). p \<noteq> [] \<and> length p \<le> 65535"
  shows "naive_gives c (concat ps)"
proof -
  let ?fs = "zip (take kFirstPaddings ps) (map pad [0..<kFirstPaddings])" and ?tail = "concat (drop kFirstPaddings ps)"
  have len: "length ?fs = min (length ps) kFirstPaddings" by simp
  have fst: "map fst ?fs = take kFirstPaddings ps" by (simp add: map_fst_zip_take min_def)
  have ok: "frames_ok ?fs" unfolding frames_ok_def
  proof
    fix f
    assume "f \<in> set ?fs"
    then have "fst f \<in> set (take kFirstPaddings ps)" "snd f \<in> pad ` {0..<kFirstPaddings}"
      using set_zip_leftD [of "fst f" "snd f"] set_zip_rightD [of "fst f" "snd f"] by fastforce+
    moreover from this obtain i where "snd f = pad i" by blast
    ultimately have "fst f \<noteq> [] \<and> length (fst f) \<le> 65535" "length (snd f) < 256" using assms(6) assms(5) [of i] by simp_all
    then show "fst f \<noteq> [] \<and> length (fst f) < 65536 \<and> length (snd f) < 256" by simp
  qed
  have "concat (take kFirstPaddings ps) @ ?tail = concat ps" by (metis append_take_drop_id concat_append)
  then show ?thesis
    unfolding naive_gives_def using assms(1-4) ok len fst
    by (intro exI [of _ "[]"] exI [of _ ?fs] exI [of _ ?tail]) (auto simp: naive_wire_def min_def split: if_splits)
qed

text \<open>C25. Buffers through a naive connection arrive intact: what is written with \<^verbatim>\<open>WriteBuffer\<close>, with any paddings and cut into segments in any
  way, is read completely and in order with buffers of any sizes, for both kinds of connections; of the first eight buffers none is empty or
  longer than 65535 bytes.\<close>

theorem naive_buffers_intact:
  assumes "skip_law skip" "err_Error io_EOF = ''EOF''" "\<And>b. writer b = (length b, None)" "\<And>i. length (pad i) < 256" "\<And>i. 0 < sizes i"
    and "\<forall>p\<in>set (take kFirstPaddings ps). p \<noteq> [] \<and> length p \<le> 65535"
    and "concat cs = nv_written (snd (buffer_writes (H1_WriteBuffer err_Error pad writer) ps (newH1Conn []))) \<or>
      concat cs = nv_written (snd (buffer_writes (H2_WriteBuffer err_Error pad writer) ps (newH2Conn [])))"
  shows "fst (buffer_writes (H1_WriteBuffer err_Error pad writer) ps (newH1Conn [])) = None \<and>
    fst (buffer_writes (H2_WriteBuffer err_Error pad writer) ps (newH2Conn [])) = None \<and>
    io_Copy (H1_Read err_Error skip) sizes 0 [] (newH1Conn cs) = Some (None, concat ps) \<and>
    io_Copy (H2_Read err_Error skip) sizes 0 [] (newH2Conn cs) = Some (None, concat ps)"
proof -
  have "\<forall>p\<in>set (take kFirstPaddings ps). length p \<le> 65535" using assms(6) by blast
  then have 1: "\<exists>c'. buffer_writes (H1_WriteBuffer err_Error pad writer) ps (newH1Conn []) = (None, c') \<and> nv_written c' = naive_wire pad 0 ps"
    and 2: "\<exists>c'. buffer_writes (H2_WriteBuffer err_Error pad writer) ps (newH2Conn []) = (None, c') \<and> nv_written c' = naive_wire pad 0 ps"
    using buffer_writes_wire [OF H1_puts [OF assms(3)], of "newH1Conn []" ps] buffer_writes_wire [OF H2_puts [OF assms(3)], of "newH2Conn []" ps]
    by (simp_all add: newH1Conn_def newH2Conn_def)
  with assms(7) have wire: "concat cs = naive_wire pad 0 ps" by auto
  have eof: "wrapHttpError err_Error io_EOF = io_EOF" by (simp add: wrapHttpError_def assms(2) has_prefix_def)
  have "naive_gives (newH1Conn cs) (concat ps)" "naive_gives (newH2Conn cs) (concat ps)"
    by (rule wire_gives [OF _ _ _ _ assms(4,6)]; simp add: newH1Conn_def newH2Conn_def wire)+
  then have "io_Copy (H1_Read err_Error skip) sizes 0 [] (newH1Conn cs) = Some (None, concat ps)"
    "io_Copy (H2_Read err_Error skip) sizes 0 [] (newH2Conn cs) = Some (None, concat ps)"
    using io_reader.Copy_returns [OF naive.wrapped [of "wrapHttpError err_Error", OF eof], of skip "newH1Conn cs" "concat ps" sizes 0 "[]"]
      io_reader.Copy_returns [OF naive.wrapped [of "wrapHttpError err_Error", OF eof], of skip "newH2Conn cs" "concat ps" sizes 0 "[]"]
      assms(1,5) unfolding H1_Read_def H2_Read_def naive_Read_def by auto
  with 1 2 show ?thesis by auto
qed

definition sample_skip :: "nat \<Rightarrow> segments \<Rightarrow> goerr option \<times> segments" where
  "sample_skip n cs = (case io_ReadFull conn_Read n cs of None \<Rightarrow> (None, cs) | Some ((err, p), cs) \<Rightarrow> (err, cs))"

lemma sample_skip_law: "skip_law sample_skip"
  by (simp add: skip_law_def sample_skip_def)

theorem naive_buffers_intact_witness:
  "io_Copy (H2_Read (\<lambda>err. ''EOF'') sample_skip) Suc 0 [] (newH2Conn [[0, 3, 2, 1], [2, 3, 99, 99, 0], [1, 2, 4, 99, 99]]) = Some (None, [1, 2, 3, 4])"
proof -
  let ?cs = "[[0, 3, 2, 1], [2, 3, 99, 99, 0], [1, 2, 4, 99, 99]] :: segments"
  have "concat ?cs = nv_written (snd (buffer_writes (H1_WriteBuffer (\<lambda>err. ''EOF'') (\<lambda>i. [99, 99]) (\<lambda>b. (length b, None))) [[1, 2, 3], [4]] (newH1Conn [])))"
    by (simp add: H1_WriteBuffer_def framed_buffer_def write_below_def newH1Conn_def kFirstPaddings_def put_be_2 drop_bit_eq_div)
  with naive_buffers_intact [OF sample_skip_law, of "\<lambda>err. ''EOF''" "\<lambda>b. (length b, None)" "\<lambda>i. [99, 99]" Suc "[[1, 2, 3], [4]]" ?cs]
  show ?thesis by (simp add: kFirstPaddings_def)
qed

text \<open>\<^verbatim>\<open>Write\<close> announces a padding that it does not write: the peer skips the beginning of the next piece.\<close>

lemma naive_Write_loses:
  "\<exists>c c'. H1_Write (\<lambda>err. ''EOF'') (\<lambda>i. [0, 0]) (\<lambda>b. (length b, None)) [1, 2, 3] (newH1Conn []) = ((3, None), c) \<and>
     H1_Write (\<lambda>err. ''EOF'') (\<lambda>i. [0, 0]) (\<lambda>b. (length b, None)) [4, 5] c = ((2, None), c') \<and>
     io_Copy (H1_Read (\<lambda>err. ''EOF'') sample_skip) (\<lambda>i. 16) 0 [] (newH1Conn [nv_written c']) = Some (None, [1, 2, 3])"
proof -
  have "io_Copy (H1_Read (\<lambda>err. ''EOF'') sample_skip) (\<lambda>i. 16) 0 [] (newH1Conn [[0, 3, 2, 1, 2, 3, 0, 2, 2, 4, 5]]) = Some (None, [1, 2, 3])"
    by code_simp
  then show ?thesis
    by (simp add: H1_Write_def naive_write_loop.simps naive_write_def write_below_def newH1Conn_def kFirstPaddings_def put_be_2 drop_bit_eq_div Let_def)
qed

end
