(* ===== verification/Versions.thy ===== *)
theory Versions
  imports Prelude "HOL-Library.Product_Lexorder"
begin

text \<open>
  Versions and their order (\<^verbatim>\<open>common/badversion/version.go\<close>): parsing, printing and comparing, and the features of kernel TLS that depend
  on the version of the kernel. The check \<^verbatim>\<open>IsValid\<close> is one call of
  the \<^verbatim>\<open>semver\<close> package and is left out.
\<close>

section \<open>Numbers\<close>

text \<open>\<^verbatim>\<open>strconv.Atoi\<close> without its error: 0 for what is no number, the nearest value for one that is out of range. A number is read with
  64 bits first, so one that is out of range there is not read to its end.\<close>

definition magnitude :: "nat \<Rightarrow> string \<Rightarrow> nat" where
  "magnitude limit s =
     (case ParseUint10 64 s of
        Inl ErrSyntax \<Rightarrow> 0
      | Inl ErrRange \<Rightarrow> limit
      | Inr n \<Rightarrow> min limit n)"

definition strconv_Atoi :: "string \<Rightarrow> int" where
  "strconv_Atoi s =
     (case s of
        [] \<Rightarrow> 0
      | c # rest \<Rightarrow>
          if c = CHR ''-'' then - int (magnitude (2 ^ 63) rest)
          else if c = CHR ''+'' then int (magnitude (2 ^ 63 - 1) rest)
          else int (magnitude (2 ^ 63 - 1) s))"

definition int_text :: "int \<Rightarrow> string" where
  "int_text i = (if i < 0 then CHR ''-'' # decimal (nat (- i)) else decimal (nat i))"

section \<open>Versions\<close>

record Version =
  ve_Major :: int
  ve_Minor :: int
  ve_Patch :: int
  ve_Commit :: string
  ve_PreReleaseIdentifier :: string
  ve_PreReleaseVersion :: int

definition Version_zero :: Version where
  "Version_zero = \<lparr>ve_Major = 0, ve_Minor = 0, ve_Patch = 0, ve_Commit = [], ve_PreReleaseIdentifier = [], ve_PreReleaseVersion = 0\<rparr>"

definition parsePreReleaseIdentifier :: "string \<Rightarrow> int" where
  "parsePreReleaseIdentifier identifier =
     (if has_prefix identifier ''rc'' then 1
      else if has_prefix identifier ''beta'' then 2
      else if has_prefix identifier ''alpha'' then 3
      else 0)"

definition GreaterThan :: "Version \<Rightarrow> Version \<Rightarrow> bool" where
  "GreaterThan v w =
     (if ve_Major v > ve_Major w then True
      else if ve_Major v < ve_Major w then False
      else if ve_Minor v > ve_Minor w then True
      else if ve_Minor v < ve_Minor w then False
      else if ve_Patch v > ve_Patch w then True
      else if ve_Patch v < ve_Patch w then False
      else if ve_PreReleaseIdentifier v = [] \<and> ve_PreReleaseIdentifier w \<noteq> [] then True
      else if ve_PreReleaseIdentifier v \<noteq> [] \<and> ve_PreReleaseIdentifier w = [] then False
      else if ve_PreReleaseIdentifier v \<noteq> [] \<and> ve_PreReleaseIdentifier w \<noteq> [] then
        (if ve_PreReleaseIdentifier v = ve_PreReleaseIdentifier w \<and> ve_PreReleaseVersion v > ve_PreReleaseVersion w then True
         else if ve_PreReleaseIdentifier v = ve_PreReleaseIdentifier w \<and> ve_PreReleaseVersion v < ve_PreReleaseVersion w then False
         else if parsePreReleaseIdentifier (ve_PreReleaseIdentifier v) < parsePreReleaseIdentifier (ve_PreReleaseIdentifier w) then True
         else False)
      else False)"

definition GreaterThanOrEqual :: "Version \<Rightarrow> Version \<Rightarrow> bool" where
  "GreaterThanOrEqual v w \<longleftrightarrow> v = w \<or> GreaterThan v w"

definition LessThanOrEqual :: "Version \<Rightarrow> Version \<Rightarrow> bool" where
  "LessThanOrEqual v w \<longleftrightarrow> v = w \<or> GreaterThan w v"

definition LessThan :: "Version \<Rightarrow> Version \<Rightarrow> bool" where
  "LessThan v w \<longleftrightarrow> \<not> GreaterThanOrEqual v w"

definition VersionString :: "Version \<Rightarrow> string" where
  "VersionString v = int_text (ve_Major v) @ ''.'' @ int_text (ve_Minor v) @ ''.'' @ int_text (ve_Patch v)"

definition Version_String :: "Version \<Rightarrow> string" where
  "Version_String v =
     (let version = int_text (ve_Major v) @ ''.'' @ int_text (ve_Minor v) @ ''.'' @ int_text (ve_Patch v)
      in if ve_PreReleaseIdentifier v \<noteq> []
         then version @ ''-'' @ ve_PreReleaseIdentifier v @ ''.'' @ int_text (ve_PreReleaseVersion v)
         else version)"

definition BadString :: "Version \<Rightarrow> string" where
  "BadString v =
     (let version = int_text (ve_Major v) @ ''.'' @ int_text (ve_Minor v);
          version = (if ve_Patch v > 0 then version @ ''.'' @ int_text (ve_Patch v) else version)
      in if ve_PreReleaseIdentifier v \<noteq> [] then
           (let version = version @ ''-'' @ ve_PreReleaseIdentifier v
            in if ve_PreReleaseVersion v > 0 then version @ int_text (ve_PreReleaseVersion v) else version)
         else version)"

text \<open>The part of \<^verbatim>\<open>Parse\<close> after a dash.\<close>

definition parse_identifier :: "string \<Rightarrow> Version \<Rightarrow> Version" where
  "parse_identifier identifier v =
     (if strings_Contains identifier ''.'' then
        (case strings_Split CHR ''.'' identifier of
           [] \<Rightarrow> v
         | [i] \<Rightarrow> v\<lparr>ve_PreReleaseIdentifier := i\<rparr>
         | i # n # _ \<Rightarrow> v\<lparr>ve_PreReleaseIdentifier := i, ve_PreReleaseVersion := strconv_Atoi n\<rparr>)
      else if has_prefix identifier ''alpha''
      then v\<lparr>ve_PreReleaseIdentifier := ''alpha'', ve_PreReleaseVersion := strconv_Atoi (drop 5 identifier)\<rparr>
      else if has_prefix identifier ''beta''
      then v\<lparr>ve_PreReleaseIdentifier := ''beta'', ve_PreReleaseVersion := strconv_Atoi (drop 4 identifier)\<rparr>
      else v\<lparr>ve_Commit := identifier\<rparr>)"

definition element :: "nat \<Rightarrow> string list \<Rightarrow> int" where
  "element i versionElements = (if i < length versionElements then strconv_Atoi (versionElements ! i) else 0)"

definition Version_Parse :: "string \<Rightarrow> Version" where
  "Version_Parse versionName =
     (let versionName = (if has_prefix versionName ''v'' then drop 1 versionName else versionName);
          parts = strings_Split CHR ''-'' versionName;
          v = (if strings_Contains versionName ''-'' then parse_identifier (parts ! 1) Version_zero else Version_zero);
          versionName = (if strings_Contains versionName ''-'' then parts ! 0 else versionName);
          versionElements = strings_Split CHR ''.'' versionName
      in v\<lparr>ve_Major := element 0 versionElements, ve_Minor := element 1 versionElements, ve_Patch := element 2 versionElements\<rparr>)"

section \<open>What a kernel supports\<close>

text \<open>The use of the order in \<^verbatim>\<open>common/ktls/ktls_linux.go\<close>: the features of kernel TLS by the version of the kernel. A \<^verbatim>\<open>switch\<close> whose cases
  all fall through runs the first case that holds and all after it.\<close>

record Support =
  su_TLS :: bool
  su_TLS_RX :: bool
  su_TLS_Version13 :: bool
  su_TLS_Version13_RX :: bool
  su_TLS_TX_ZEROCOPY :: bool
  su_TLS_RX_NOPADDING :: bool
  su_TLS_AES_256_GCM :: bool
  su_TLS_AES_128_CCM :: bool
  su_TLS_CHACHA20_POLY1305 :: bool
  su_TLS_SM4 :: bool
  su_TLS_ARIA_GCM :: bool
  su_TLS_Version13_KeyUpdate :: bool

definition Support_zero :: Support where
  "Support_zero = \<lparr>su_TLS = False, su_TLS_RX = False, su_TLS_Version13 = False, su_TLS_Version13_RX = False, su_TLS_TX_ZEROCOPY = False,
     su_TLS_RX_NOPADDING = False, su_TLS_AES_256_GCM = False, su_TLS_AES_128_CCM = False, su_TLS_CHACHA20_POLY1305 = False,
     su_TLS_SM4 = False, su_TLS_ARIA_GCM = False, su_TLS_Version13_KeyUpdate = False\<rparr>"

abbreviation release :: "int \<Rightarrow> int \<Rightarrow> Version" where
  "release major minor \<equiv> Version_zero\<lparr>ve_Major := major, ve_Minor := minor\<rparr>"

definition support_cases :: "(Version \<times> (Support \<Rightarrow> Support)) list" where
  "support_cases =
     [(release 6 14, \<lambda>s. s\<lparr>su_TLS_Version13_KeyUpdate := True\<rparr>),
      (release 6 1, \<lambda>s. s\<lparr>su_TLS_ARIA_GCM := True\<rparr>),
      (release 6 0, \<lambda>s. s\<lparr>su_TLS_Version13_RX := True, su_TLS_RX_NOPADDING := True\<rparr>),
      (release 5 19, \<lambda>s. s\<lparr>su_TLS_TX_ZEROCOPY := True\<rparr>),
      (release 5 16, \<lambda>s. s\<lparr>su_TLS_SM4 := True\<rparr>),
      (release 5 11, \<lambda>s. s\<lparr>su_TLS_CHACHA20_POLY1305 := True\<rparr>),
      (release 5 2, \<lambda>s. s\<lparr>su_TLS_AES_128_CCM := True\<rparr>),
      (release 5 1, \<lambda>s. s\<lparr>su_TLS_AES_256_GCM := True, su_TLS_Version13 := True\<rparr>),
      (release 4 17, \<lambda>s. s\<lparr>su_TLS_RX := True\<rparr>),
      (release 4 13, \<lambda>s. s\<lparr>su_TLS := True\<rparr>)]"

fun fallthrough :: "Version \<Rightarrow> (Version \<times> (Support \<Rightarrow> Support)) list \<Rightarrow> Support \<Rightarrow> Support" where
  "fallthrough kernelVersion [] support = support"
| "fallthrough kernelVersion ((version, body) # cases) support =
     (if GreaterThanOrEqual kernelVersion version then fold (\<lambda>c s. snd c s) ((version, body) # cases) support
      else fallthrough kernelVersion cases support)"

text \<open>\<open>name\<close> is the release of \<^verbatim>\<open>uname\<close> without the padding, \<open>module\<close> what checking for the kernel module and loading it says.\<close>

definition KernelSupport :: "string \<Rightarrow> goerr option \<Rightarrow> Support res" where
  "KernelSupport name module =
     (let support = fallthrough (Version_Parse name) support_cases Support_zero
      in if su_TLS support \<and> su_TLS_Version13 support
         then (case module of Some err \<Rightarrow> Inl err | None \<Rightarrow> Inr support)
         else Inr support)"

definition ktls_Load :: "string \<Rightarrow> goerr option \<Rightarrow> goerr option" where
  "ktls_Load name module =
     (case KernelSupport name module of
        Inl err \<Rightarrow> Some (ECause err [ArgS ''ktls: check availability''])
      | Inr support \<Rightarrow>
          if \<not> su_TLS support \<or> \<not> su_TLS_Version13 support then Some (ENew [ArgS ''ktls: kernel does not support TLS 1.3'']) else None)"

lemmas parse_eval = Version_Parse_def Let_def has_prefix_def strings_Contains_single parse_identifier_def element_def Version_zero_def
  strconv_Atoi_def magnitude_def ParseUint10_def digit_value_def nth_Cons'

section \<open>The order\<close>

text \<open>Released versions, and pre-releases of one of the three kinds.\<close>

definition plain_version :: "Version \<Rightarrow> bool" where
  "plain_version v \<longleftrightarrow> ve_Commit v = [] \<and>
     (ve_PreReleaseIdentifier v = [] \<and> ve_PreReleaseVersion v = 0 \<or> ve_PreReleaseIdentifier v \<in> {''alpha'', ''beta'', ''rc''})"

definition version_key :: "Version \<Rightarrow> int \<times> int \<times> int \<times> int \<times> int" where
  "version_key v = (ve_Major v, ve_Minor v, ve_Patch v,
     if ve_PreReleaseIdentifier v = [] then 0 else - parsePreReleaseIdentifier (ve_PreReleaseIdentifier v), ve_PreReleaseVersion v)"

lemma identifier_ranks: "parsePreReleaseIdentifier ''rc'' = 1" "parsePreReleaseIdentifier ''beta'' = 2" "parsePreReleaseIdentifier ''alpha'' = 3"
  by code_simp+

lemma version_key_inject: "plain_version v \<Longrightarrow> plain_version w \<Longrightarrow> version_key v = version_key w \<longleftrightarrow> v = w"
  by (cases v; cases w) (auto simp: plain_version_def version_key_def identifier_ranks)

text \<open>The comparison of versions is a total order on released versions and pre-releases: it is the lexicographic order by the three
  numbers, the kind of pre-release (alpha before beta before release candidate before the release) and its number.\<close>

lemma version_order:
  assumes "plain_version v" "plain_version w"
  shows "(GreaterThan v w \<longleftrightarrow> version_key v > version_key w) \<and> (LessThan v w \<longleftrightarrow> version_key v < version_key w) \<and>
    (GreaterThanOrEqual v w \<longleftrightarrow> version_key v \<ge> version_key w) \<and> (LessThanOrEqual v w \<longleftrightarrow> version_key v \<le> version_key w) \<and>
    (version_key v = version_key w \<longleftrightarrow> v = w)"
proof -
  have gt: "GreaterThan v w \<longleftrightarrow> version_key v > version_key w" if "plain_version v" "plain_version w" for v w
    using that by (auto simp: plain_version_def version_key_def GreaterThan_def identifier_ranks)
  show ?thesis
    using gt [OF assms] gt [OF assms(2,1)] version_key_inject [OF assms] version_key_inject [OF assms(2,1)]
    unfolding LessThan_def GreaterThanOrEqual_def LessThanOrEqual_def by (metis linorder_less_linear order_le_less not_le)
qed

section \<open>Printing and parsing\<close>

lemma decimal_digits: "c \<in> set (decimal n) \<Longrightarrow> digit_value c \<noteq> None"
proof (induction n rule: decimal.induct)
  case (1 n)
  then show ?case by (subst (asm) (2) decimal.simps) (auto split: if_splits)
qed

lemma no_digits: "digit_value CHR ''-'' = None" "digit_value CHR ''.'' = None" "digit_value CHR ''+'' = None" "digit_value CHR ''v'' = None"
  by code_simp+

lemma not_in_decimal: "digit_value c = None \<Longrightarrow> c \<notin> set (decimal n)"
  using decimal_digits by blast

lemma Atoi_decimal: "n < 2 ^ 63 \<Longrightarrow> strconv_Atoi (decimal n) = int n"
proof -
  assume n: "n < 2 ^ 63"
  obtain c rest where c: "decimal n = c # rest" by (cases "decimal n") auto
  then have "c \<in> set (decimal n)" by simp
  then have "c \<noteq> CHR ''-''" "c \<noteq> CHR ''+''" using not_in_decimal no_digits by metis+
  moreover have "magnitude (2 ^ 63 - 1) (decimal n) = n"
    using n by (simp add: magnitude_def ParseUint10_decimal)
  ultimately show ?thesis by (simp add: strconv_Atoi_def c)
qed

lemma Atoi_int_text: "0 \<le> i \<Longrightarrow> i < 2 ^ 63 \<Longrightarrow> strconv_Atoi (int_text i) = i"
  using Atoi_decimal [of "nat i"] by (simp add: int_text_def)

lemma not_in_int_text: "0 \<le> i \<Longrightarrow> digit_value c = None \<Longrightarrow> c \<notin> set (int_text i)"
  by (simp add: int_text_def not_in_decimal)

lemma Split_single: "c \<notin> set s \<Longrightarrow> strings_Split c s = [s]"
  by (induction s) auto

lemma Split_append: "c \<notin> set s \<Longrightarrow> strings_Split c (s @ c # t) = s # strings_Split c t"
  by (induction s) auto

text \<open>Versions as they are printed: numbers that are not negative, an identifier without dots and dashes.\<close>

definition printable :: "Version \<Rightarrow> bool" where
  "printable v \<longleftrightarrow> ve_Commit v = [] \<and> 0 \<le> ve_Major v \<and> ve_Major v < 2 ^ 63 \<and> 0 \<le> ve_Minor v \<and> ve_Minor v < 2 ^ 63 \<and>
     0 \<le> ve_Patch v \<and> ve_Patch v < 2 ^ 63 \<and> 0 \<le> ve_PreReleaseVersion v \<and> ve_PreReleaseVersion v < 2 ^ 63 \<and>
     CHR ''.'' \<notin> set (ve_PreReleaseIdentifier v) \<and> CHR ''-'' \<notin> set (ve_PreReleaseIdentifier v) \<and>
     (ve_PreReleaseIdentifier v = [] \<longrightarrow> ve_PreReleaseVersion v = 0)"

text \<open>A version is printed and parsed back unchanged.\<close>

theorem version_roundtrip:
  assumes "printable v"
  shows "Version_Parse (Version_String v) = v"
proof -
  let ?n = "int_text (ve_Major v) @ CHR ''.'' # int_text (ve_Minor v) @ CHR ''.'' # int_text (ve_Patch v)"
  let ?i = "ve_PreReleaseIdentifier v" and ?p = "int_text (ve_PreReleaseVersion v)"
  have nonneg: "0 \<le> ve_Major v" "0 \<le> ve_Minor v" "0 \<le> ve_Patch v" "0 \<le> ve_PreReleaseVersion v" using assms by (auto simp: printable_def)
  note digits = not_in_int_text [OF nonneg(1)] not_in_int_text [OF nonneg(2)] not_in_int_text [OF nonneg(3)] not_in_int_text [OF nonneg(4)]
  have elements: "strings_Split CHR ''.'' ?n = [int_text (ve_Major v), int_text (ve_Minor v), int_text (ve_Patch v)]"
    using digits no_digits by (simp add: Split_append Split_single)
  have dash: "CHR ''-'' \<notin> set ?n" using digits no_digits by simp
  obtain c rest where c: "int_text (ve_Major v) = c # rest" using nonneg(1) by (cases "int_text (ve_Major v)") (auto simp: int_text_def)
  then have "c \<noteq> CHR ''v''" using digits(1) no_digits(4) by (metis list.set_intros(1))
  with c have v: "\<not> has_prefix (?n @ s) ''v''" "\<not> has_prefix ?n ''v''" for s by (simp_all add: has_prefix_def)
  have numbers: "strconv_Atoi (int_text (ve_Major v)) = ve_Major v" "strconv_Atoi (int_text (ve_Minor v)) = ve_Minor v"
      "strconv_Atoi (int_text (ve_Patch v)) = ve_Patch v" "strconv_Atoi ?p = ve_PreReleaseVersion v"
    using assms by (auto simp: printable_def intro!: Atoi_int_text)
  have fields0: "ve_Commit v = []" "?i = [] \<Longrightarrow> ve_PreReleaseVersion v = 0" using assms by (auto simp: printable_def)
  show ?thesis
  proof (cases "?i = []")
    case True
    then have s: "Version_String v = ?n" by (simp add: Version_String_def)
    show ?thesis
      unfolding s Version_Parse_def Let_def
      using v(2) dash by (intro Version.equality) (simp_all add: elements element_def Version_zero_def strings_Contains_single numbers True fields0)
  next
    case False
    have s: "Version_String v = ?n @ CHR ''-'' # ?i @ CHR ''.'' # ?p" using False by (simp add: Version_String_def Let_def)
    have suffix: "CHR ''-'' \<notin> set (?i @ CHR ''.'' # ?p)" using assms digits(4) no_digits(1) by (simp add: printable_def)
    have parts: "strings_Split CHR ''-'' (Version_String v) = [?n, ?i @ CHR ''.'' # ?p]"
      unfolding s Split_append [OF dash] Split_single [OF suffix] ..
    have "strings_Split CHR ''.'' (?i @ CHR ''.'' # ?p) = [?i, ?p]"
      using assms digits(4) no_digits(2) by (simp add: Split_append Split_single printable_def)
    then have id: "parse_identifier (?i @ CHR ''.'' # ?p) Version_zero = Version_zero\<lparr>ve_PreReleaseIdentifier := ?i, ve_PreReleaseVersion := ve_PreReleaseVersion v\<rparr>"
      by (simp add: parse_identifier_def strings_Contains_single numbers)
    have p: "\<not> has_prefix (Version_String v) ''v''" "strings_Contains (Version_String v) ''-''"
      unfolding s using v(1) by (simp_all add: strings_Contains_single)
    show ?thesis
      unfolding Version_Parse_def Let_def
      by (intro Version.equality) (simp_all add: p parts id [unfolded Version_zero_def] elements element_def Version_zero_def numbers fields0)
  qed
qed

theorem version_roundtrip_witness:
  "let v = Version_zero\<lparr>ve_Major := 1, ve_Minor := 13, ve_PreReleaseIdentifier := ''rc'', ve_PreReleaseVersion := 10\<rparr>
   in Version_Parse (Version_String v) = v \<and> Version_String v = ''1.13.0-rc.10''"
proof -
  let ?v = "Version_zero\<lparr>ve_Major := 1, ve_Minor := 13, ve_PreReleaseIdentifier := ''rc'', ve_PreReleaseVersion := 10\<rparr>"
  have "printable ?v" by (simp add: printable_def Version_zero_def)
  moreover have "Version_String ?v = ''1.13.0-rc.10''" by code_simp
  ultimately show ?thesis using version_roundtrip [of ?v] by (simp add: Let_def)
qed

section \<open>Kernel features\<close>

lemma release_key: "plain_version (release major minor)" "version_key (release major minor) = (major, minor, 0, 0, 0)"
  by (simp_all add: plain_version_def version_key_def Version_zero_def)

lemma at_least_release: "plain_version v \<Longrightarrow> GreaterThanOrEqual v (release major minor) \<longleftrightarrow> (major, minor, 0, 0, 0) \<le> version_key v"
  using version_order [OF _ release_key(1), of v] by (simp add: release_key(2))

lemma supported:
  fixes v :: Version
  defines "p \<equiv> \<lambda>major minor. GreaterThanOrEqual v (release major minor)" and "s \<equiv> fallthrough v support_cases Support_zero"
  shows "su_TLS_Version13_KeyUpdate s \<longleftrightarrow> p 6 14" "su_TLS_ARIA_GCM s \<longleftrightarrow> p 6 14 \<or> p 6 1"
    "su_TLS_Version13_RX s \<longleftrightarrow> p 6 14 \<or> p 6 1 \<or> p 6 0" "su_TLS_RX_NOPADDING s \<longleftrightarrow> p 6 14 \<or> p 6 1 \<or> p 6 0"
    "su_TLS_TX_ZEROCOPY s \<longleftrightarrow> p 6 14 \<or> p 6 1 \<or> p 6 0 \<or> p 5 19" "su_TLS_SM4 s \<longleftrightarrow> p 6 14 \<or> p 6 1 \<or> p 6 0 \<or> p 5 19 \<or> p 5 16"
    "su_TLS_CHACHA20_POLY1305 s \<longleftrightarrow> p 6 14 \<or> p 6 1 \<or> p 6 0 \<or> p 5 19 \<or> p 5 16 \<or> p 5 11"
    "su_TLS_AES_128_CCM s \<longleftrightarrow> p 6 14 \<or> p 6 1 \<or> p 6 0 \<or> p 5 19 \<or> p 5 16 \<or> p 5 11 \<or> p 5 2"
    "su_TLS_AES_256_GCM s \<longleftrightarrow> p 6 14 \<or> p 6 1 \<or> p 6 0 \<or> p 5 19 \<or> p 5 16 \<or> p 5 11 \<or> p 5 2 \<or> p 5 1"
    "su_TLS_Version13 s \<longleftrightarrow> p 6 14 \<or> p 6 1 \<or> p 6 0 \<or> p 5 19 \<or> p 5 16 \<or> p 5 11 \<or> p 5 2 \<or> p 5 1"
    "su_TLS_RX s \<longleftrightarrow> p 6 14 \<or> p 6 1 \<or> p 6 0 \<or> p 5 19 \<or> p 5 16 \<or> p 5 11 \<or> p 5 2 \<or> p 5 1 \<or> p 4 17"
    "su_TLS s \<longleftrightarrow> p 6 14 \<or> p 6 1 \<or> p 6 0 \<or> p 5 19 \<or> p 5 16 \<or> p 5 11 \<or> p 5 2 \<or> p 5 1 \<or> p 4 17 \<or> p 4 13"
  by (simp_all add: p_def s_def support_cases_def Support_zero_def)

text \<open>Kernel TLS: for a kernel whose name has no suffix, or the suffix of a pre-release, a feature is supported exactly if the version
  is at least the one that the feature came with; a name without suffix that is at least 5.1 loads if the module does.\<close>

theorem kernel_support_exact:
  assumes "plain_version (Version_Parse name)" "s = fallthrough (Version_Parse name) support_cases Support_zero"
    and "since = (\<lambda>major minor. (major, minor, 0, 0, 0) \<le> version_key (Version_Parse name))"
  shows "(su_TLS_Version13_KeyUpdate s \<longleftrightarrow> since 6 14) \<and> (su_TLS_ARIA_GCM s \<longleftrightarrow> since 6 1) \<and>
    (su_TLS_Version13_RX s \<longleftrightarrow> since 6 0) \<and> (su_TLS_RX_NOPADDING s \<longleftrightarrow> since 6 0) \<and> (su_TLS_TX_ZEROCOPY s \<longleftrightarrow> since 5 19) \<and>
    (su_TLS_SM4 s \<longleftrightarrow> since 5 16) \<and> (su_TLS_CHACHA20_POLY1305 s \<longleftrightarrow> since 5 11) \<and> (su_TLS_AES_128_CCM s \<longleftrightarrow> since 5 2) \<and>
    (su_TLS_AES_256_GCM s \<longleftrightarrow> since 5 1) \<and> (su_TLS_Version13 s \<longleftrightarrow> since 5 1) \<and> (su_TLS_RX s \<longleftrightarrow> since 4 17) \<and> (su_TLS s \<longleftrightarrow> since 4 13) \<and>
    (ktls_Load name module = None \<longleftrightarrow> since 5 1 \<and> module = None)"
proof -
  obtain a b c d e where key: "version_key (Version_Parse name) = (a, b, c, d, e)" by (cases "version_key (Version_Parse name)") auto
  have since: "GreaterThanOrEqual (Version_Parse name) (release major minor) \<longleftrightarrow> since major minor" for major minor
    using at_least_release [OF assms(1)] by (simp add: assms(3))
  have mono: "since 6 14 \<Longrightarrow> since 6 1" "since 6 1 \<Longrightarrow> since 6 0" "since 6 0 \<Longrightarrow> since 5 19" "since 5 19 \<Longrightarrow> since 5 16"
    "since 5 16 \<Longrightarrow> since 5 11" "since 5 11 \<Longrightarrow> since 5 2" "since 5 2 \<Longrightarrow> since 5 1" "since 5 1 \<Longrightarrow> since 4 17" "since 4 17 \<Longrightarrow> since 4 13"
    by (auto simp: assms(3) key)
  have load: "ktls_Load name module = None \<longleftrightarrow> su_TLS s \<and> su_TLS_Version13 s \<and> module = None"
    by (cases "su_TLS s"; cases "su_TLS_Version13 s"; cases module) (simp_all add: ktls_Load_def KernelSupport_def Let_def assms(2))
  show ?thesis
    unfolding load unfolding assms(2) supported since using mono by argo
qed

lemma parse_6_14: "Version_Parse ''6.14'' = release 6 14"
  by (simp add: parse_eval)

theorem kernel_support_exact_witness:
  "ktls_Load ''6.14'' None = None \<and> su_TLS_Version13_KeyUpdate (fallthrough (Version_Parse ''6.14'') support_cases Support_zero)"
proof -
  have "plain_version (Version_Parse ''6.14'')" "version_key (Version_Parse ''6.14'') = (6, 14, 0, 0, 0)"
    by (simp_all only: parse_6_14 release_key)
  with kernel_support_exact [of "''6.14''", OF _ refl refl, of None] show ?thesis by simp
qed

section \<open>Where the comparison goes wrong\<close>

text \<open>A suffix that is no pre-release breaks the comparison: of two versions with the same numbers that differ in the suffix, neither is
  greater than or equal to the other, and each is less than the other. The name of a kernel has such a suffix.\<close>

lemma version_suffix_incomparable:
  assumes "v = w\<lparr>ve_Commit := suffix\<rparr>" "suffix \<noteq> ve_Commit w"
  shows "\<not> GreaterThanOrEqual v w \<and> \<not> GreaterThanOrEqual w v \<and> LessThan v w \<and> LessThan w v"
proof -
  have "ve_Commit v \<noteq> ve_Commit w" using assms by simp
  then have "v \<noteq> w" by blast
  moreover have "\<not> GreaterThan v w" "\<not> GreaterThan w v" using assms(1) by (simp_all add: GreaterThan_def)
  ultimately show ?thesis unfolding LessThan_def GreaterThanOrEqual_def by blast
qed

lemma kernel_suffix_loses_feature:
  "\<not> su_TLS_Version13_KeyUpdate (fallthrough (Version_Parse ''6.14.0-generic'') support_cases Support_zero)"
proof -
  have "Version_Parse ''6.14.0-generic'' = (release 6 14)\<lparr>ve_Commit := ''generic''\<rparr>" by (simp add: parse_eval)
  moreover have "''generic'' \<noteq> ve_Commit (release 6 14)" by (simp add: Version_zero_def)
  ultimately have "\<not> GreaterThanOrEqual (Version_Parse ''6.14.0-generic'') (release 6 14)" by (blast dest: version_suffix_incomparable)
  then show ?thesis unfolding supported .
qed

text \<open>A release candidate in the short form is parsed as a suffix.\<close>

lemma short_rc_is_commit: "ve_Commit (Version_Parse ''1.13.0-rc1'') = ''rc1''" "ve_PreReleaseIdentifier (Version_Parse ''1.13.0-rc1'') = []"
  by (simp_all add: parse_eval)

end
