(* ===== verification/GrpcLite.thy ===== *)
theory GrpcLite
  imports Streams
begin

text \<open>
  The connection of the light gRPC transport (\<^verbatim>\<open>transport/v2raygrpclite/conn.go\<close>): every write is a gRPC message with one protobuf
  field, and reads take them apart. \<^verbatim>\<open>baderror.WrapH2\<close> and \<^verbatim>\<open>varbin.UvarintLen\<close> are functions of another module and arguments
  here. The HTTP/2 request below is the reader's segments and a function that writes.
\<close>

section \<open>The connection\<close>

text \<open>\<open>gc_created\<close> says that the channel \<^verbatim>\<open>create\<close> is closed, \<open>gc_written\<close> is what the writer has taken.\<close>

record GunConn =
  gc_reader :: "bufio_reader option"
  gc_created :: bool
  gc_err :: "goerr option"
  gc_readRemaining :: int
  gc_written :: bytes

definition newGunConn :: "segments \<Rightarrow> GunConn" where
  "newGunConn reader =
     \<lparr>gc_reader = Some (bufio_NewReader reader), gc_created = False, gc_err = None, gc_readRemaining = 0, gc_written = []\<rparr>"

definition newLateGunConn :: GunConn where
  "newLateGunConn = \<lparr>gc_reader = None, gc_created = False, gc_err = None, gc_readRemaining = 0, gc_written = []\<rparr>"

definition GunConn_setup :: "segments option \<Rightarrow> goerr option \<Rightarrow> GunConn \<Rightarrow> GunConn" where
  "GunConn_setup reader err c =
     (let c = (case reader of None \<Rightarrow> c | Some r \<Rightarrow> c\<lparr>gc_reader := Some (bufio_NewReader r)\<rparr>)
      in c\<lparr>gc_err := err, gc_created := True\<rparr>)"

section \<open>Reading\<close>

definition slice_panic :: goerr where
  "slice_panic = GoPanic [ArgS ''slice bounds out of range'']"

definition gun_data :: "nat \<Rightarrow> bufio_reader \<Rightarrow> GunConn \<Rightarrow> ((goerr option \<times> bytes) \<times> GunConn) option" where
  "gun_data k r c =
     map_option (\<lambda>((err, p), r). ((err, p), c\<lparr>gc_reader := Some r, gc_readRemaining := gc_readRemaining c - int (length p)\<rparr>)) (bufio_Read k r)"

definition gun_header :: "nat \<Rightarrow> bufio_reader \<Rightarrow> GunConn \<Rightarrow> ((goerr option \<times> bytes) \<times> GunConn) option" where
  "gun_header k r c =
     (case bufio_Discard 6 r of
        (Some err, r) \<Rightarrow> Some ((Some err, []), c\<lparr>gc_reader := Some r\<rparr>)
      | (None, r) \<Rightarrow>
          (case bufio_ReadUvarint r of
             (Inl err, r) \<Rightarrow> Some ((Some err, []), c\<lparr>gc_reader := Some r\<rparr>)
           | (Inr dataLen, r) \<Rightarrow>
               let readLen = sint dataLen; c = c\<lparr>gc_reader := Some r, gc_readRemaining := readLen\<rparr>
               in if int k > readLen
                  then (if readLen < 0 then Some ((Some slice_panic, []), c) else gun_data (nat readLen) r c)
                  else gun_data k r c))"

text \<open>\<open>None\<close>: the read waits for the channel and does not return.\<close>

definition gun_read :: "GunConn read" where
  "gun_read k c =
     (case gc_reader c of
        None \<Rightarrow>
          if \<not> gc_created c then None
          else Some ((Some (case gc_err c of Some err \<Rightarrow> err | None \<Rightarrow> nil_dereference), []), c)
      | Some r \<Rightarrow>
          if gc_readRemaining c > 0
          then gun_data (if int k > gc_readRemaining c then nat (gc_readRemaining c) else k) r c
          else gun_header k r c)"

definition GunConn_Read :: "(goerr \<Rightarrow> goerr) \<Rightarrow> GunConn read" where
  "GunConn_Read wrapH2 = (\<lambda>k c. map_option (apfst (apfst (map_option wrapH2))) (gun_read k c))"

section \<open>Writing\<close>

text \<open>\<^verbatim>\<open>PutUvarint\<close> into the rest of the header, which panics when it does not fit. Sizes are \<^verbatim>\<open>int\<close>s of the code.\<close>

definition gun_frame :: "(u64 \<Rightarrow> nat) \<Rightarrow> bytes \<Rightarrow> bytes res" where
  "gun_frame uvarintLen b =
     (let varLen = uvarintLen (of_nat (length b)); len = PutUvarint (of_nat (length b))
      in if length len > varLen then Inl (GoPanic [ArgS ''index out of range''])
         else Inr ([0x00] @ put_be 4 (of_nat (1 + varLen + length b) :: u32) @ [0x0A] @ len @ replicate (varLen - length len) 0 @ b))"

definition GunConn_Write ::
  "(goerr \<Rightarrow> goerr) \<Rightarrow> (u64 \<Rightarrow> nat) \<Rightarrow> (bytes \<Rightarrow> goerr option) \<Rightarrow> bytes \<Rightarrow> GunConn \<Rightarrow> nat res \<times> GunConn" where
  "GunConn_Write wrapH2 uvarintLen writer b c =
     (case gun_frame uvarintLen b of
        Inl err \<Rightarrow> (Inl err, c)
      | Inr buffer \<Rightarrow>
          (case writer buffer of
             Some err \<Rightarrow> (Inl (wrapH2 err), c)
           | None \<Rightarrow> (Inr (length b), c\<lparr>gc_written := gc_written c @ buffer\<rparr>)))"

definition GunConn_WriteBuffer ::
  "(goerr \<Rightarrow> goerr) \<Rightarrow> (u64 \<Rightarrow> nat) \<Rightarrow> (bytes \<Rightarrow> goerr option) \<Rightarrow> bytes \<Rightarrow> GunConn \<Rightarrow> goerr option \<times> GunConn" where
  "GunConn_WriteBuffer wrapH2 uvarintLen writer b c =
     (case gun_frame uvarintLen b of
        Inl err \<Rightarrow> (Some err, c)
      | Inr buffer \<Rightarrow>
          (case writer buffer of
             Some err \<Rightarrow> (Some (wrapH2 err), c)
           | None \<Rightarrow> (None, c\<lparr>gc_written := gc_written c @ buffer\<rparr>)))"

fun gun_writes :: "(goerr \<Rightarrow> goerr) \<Rightarrow> (u64 \<Rightarrow> nat) \<Rightarrow> (bytes \<Rightarrow> goerr option) \<Rightarrow> bytes list \<Rightarrow> GunConn \<Rightarrow> goerr option \<times> GunConn" where
  "gun_writes wrapH2 uvarintLen writer [] c = (None, c)"
| "gun_writes wrapH2 uvarintLen writer (b # bs) c =
     (case GunConn_Write wrapH2 uvarintLen writer b c of
        (Inl err, c) \<Rightarrow> (Some err, c)
      | (Inr n, c) \<Rightarrow> gun_writes wrapH2 uvarintLen writer bs c)"

section \<open>What is written is read\<close>

definition enc_gun :: "bytes \<Rightarrow> bytes" where
  "enc_gun b = [0x00] @ put_be 4 (of_nat (1 + length (PutUvarint (of_nat (length b))) + length b) :: u32) @ [0x0A] @
     PutUvarint (of_nat (length b)) @ b"

definition gun_gives :: "GunConn \<Rightarrow> bytes \<Rightarrow> bool" where
  "gun_gives c bs \<longleftrightarrow> (\<exists>r rest ps. gc_reader c = Some r \<and> bufio_ok r \<and> gc_readRemaining c = int (length rest) \<and>
     bufio_content r = rest @ concat (map enc_gun ps) \<and> bs = rest @ concat ps \<and> (\<forall>p\<in>set ps. length p < 2 ^ 63))"

abbreviation gun_steps :: "GunConn \<Rightarrow> nat" where
  "gun_steps c \<equiv> (case gc_reader c of None \<Rightarrow> 0 | Some r \<Rightarrow> length (bufio_content r))"

lemma sint_length: "n < 2 ^ 63 \<Longrightarrow> sint (of_nat n :: u64) = int n"
  by (simp add: signed_of_nat signed_take_bit_int_eq_self)

text \<open>Reading in a message.\<close>

lemma gun_data_gives:
  assumes "bufio_ok r" "bufio_content r = rest @ concat (map enc_gun ps)" "gc_readRemaining c = int (length rest)"
    and "rest \<noteq> []" "0 < k" "k \<le> length rest" "\<forall>p\<in>set ps. length p < 2 ^ 63"
  shows "\<exists>p c' q. gun_data k r c = Some ((None, p), c') \<and> p \<noteq> [] \<and> length p \<le> k \<and> rest @ concat ps = p @ q \<and> gun_gives c' q"
proof -
  from bufio_Read_content [OF assms(1) _ assms(5)] assms(2,4) obtain p r' where
    rd: "bufio_Read k r = Some ((None, p), r')" "p \<noteq> []" "length p \<le> k" "bufio_content r = p @ bufio_content r'" "bufio_ok r'" by auto
  obtain q where q: "rest = p @ q" "bufio_content r' = q @ concat (map enc_gun ps)"
  proof
    have "length p \<le> length rest" using rd(3) assms(6) by simp
    then show "rest = p @ drop (length p) rest" "bufio_content r' = drop (length p) rest @ concat (map enc_gun ps)"
      using rd(4) assms(2) by (metis append_eq_append_conv_if append_take_drop_id)+
  qed
  have "gun_gives (c\<lparr>gc_reader := Some r', gc_readRemaining := gc_readRemaining c - int (length p)\<rparr>) (q @ concat ps)"
    unfolding gun_gives_def using rd(5) q assms(3,7) by auto
  with rd q show ?thesis by (auto simp: gun_data_def)
qed

text \<open>The header of a message.\<close>

lemma gun_header_next:
  assumes "bufio_ok r" "bufio_content r = enc_gun p @ rest" "length p < 2 ^ 63"
  shows "\<exists>r'. bufio_ok r' \<and> bufio_content r' = p @ rest \<and>
    gun_header k r c = gun_data (min k (length p)) r' (c\<lparr>gc_reader := Some r', gc_readRemaining := int (length p)\<rparr>)"
proof -
  let ?h = "[0x00] @ put_be 4 (of_nat (1 + length (PutUvarint (of_nat (length p))) + length p) :: u32) @ [0x0A]"
  have "bufio_content r = ?h @ PutUvarint (of_nat (length p)) @ p @ rest" "length ?h = 6"
    using assms(2) by (simp_all add: enc_gun_def length_put_be)
  with bufio_Discard_content [OF assms(1), of ?h] obtain r1 where
    r1: "bufio_Discard 6 r = (None, r1)" "bufio_content r1 = PutUvarint (of_nat (length p)) @ p @ rest" "bufio_ok r1" by auto
  from bufio_ReadUvarint_PutUvarint [OF r1(3,2)] obtain r2 where
    r2: "bufio_ReadUvarint r1 = (Inr (of_nat (length p)), r2)" "bufio_content r2 = p @ rest" "bufio_ok r2" by blast
  have "gun_header k r c = gun_data (min k (length p)) r2 (c\<lparr>gc_reader := Some r2, gc_readRemaining := int (length p)\<rparr>)"
    by (simp add: gun_header_def r1(1) r2(1) sint_length [OF assms(3)] Let_def min_def)
  with r2(2,3) show ?thesis by blast
qed

lemma gun_header_end: "bufio_ok r \<Longrightarrow> bufio_content r = [] \<Longrightarrow> gun_header k r c = Some ((Some io_EOF, []), c\<lparr>gc_reader := Some r\<rparr>)"
  using bufio_Discard.simps(2) [of 5 r] by (simp add: gun_header_def bufio_ReadByte_empty)

lemma gun_empty_message:
  assumes "bufio_ok r" "bufio_content r = concat (map enc_gun ps)" "\<forall>p\<in>set ps. length p < 2 ^ 63"
  shows "\<exists>c'. gun_data 0 r (c\<lparr>gc_reader := Some r, gc_readRemaining := 0\<rparr>) = Some ((None, []), c') \<and> gun_gives c' (concat ps) \<and>
    gun_steps c' = length (bufio_content r)"
  using assms by (cases r) (auto simp: gun_data_def gun_gives_def)

lemma length_enc_gun: "length p < length (enc_gun p)"
  by (simp add: enc_gun_def)

text \<open>A gun connection is a reader of the bytes in the messages.\<close>

interpretation gun: io_reader gun_read gun_gives gun_steps
proof (unfold_locales, goal_cases)
  case (1 c bs k)
  from 1(1) obtain r rest ps where
    c: "gc_reader c = Some r" "bufio_ok r" "gc_readRemaining c = int (length rest)" "bufio_content r = rest @ concat (map enc_gun ps)"
      "bs = rest @ concat ps" "\<forall>p\<in>set ps. length p < 2 ^ 63" by (auto simp: gun_gives_def)
  show ?case
  proof (cases "rest = []")
    case False
    have "gun_read k c = gun_data (min k (length rest)) r c" using False c by (simp add: gun_read_def min_def)
    moreover have "0 < min k (length rest)" using 1(3) False by simp
    ultimately show ?thesis using gun_data_gives [OF c(2,4,3) False _ min.cobounded2 c(6), of k] c(5) by fastforce
  next
    case True
    with 1(2) c(5) obtain p ps' where ps: "ps = p # ps'" by (cases ps) auto
    from gun_header_next [OF c(2), of p "concat (map enc_gun ps')" k c] c(4,6) True ps obtain r' where
      r': "bufio_ok r'" "bufio_content r' = p @ concat (map enc_gun ps')"
        "gun_header k r c = gun_data (min k (length p)) r' (c\<lparr>gc_reader := Some r', gc_readRemaining := int (length p)\<rparr>)" by auto
    have rd: "gun_read k c = gun_data (min k (length p)) r' (c\<lparr>gc_reader := Some r', gc_readRemaining := int (length p)\<rparr>)"
      using c(1,3) True r'(3) by (simp add: gun_read_def)
    show ?thesis
    proof (cases "p = []")
      case False
      then obtain q c' q' where "gun_read k c = Some ((None, q), c')" "q \<noteq> []" "length q \<le> min k (length p)" "p @ concat ps' = q @ q'" "gun_gives c' q'"
        using 1(3) gun_data_gives [OF r'(1,2), of "c\<lparr>gc_reader := Some r', gc_readRemaining := int (length p)\<rparr>" "min k (length p)"] c(6) ps
        unfolding rd by auto
      then show ?thesis using c(5) True ps by auto
    next
      case p: True
      with gun_empty_message [OF r'(1), of ps' c] r'(2) c(6) ps obtain c' where
        "gun_read k c = Some ((None, []), c')" "gun_gives c' (concat ps')" "gun_steps c' = length (bufio_content r')" unfolding rd by auto
      moreover have "length (bufio_content r') < gun_steps c" using c(1,4) r'(2) True p ps length_enc_gun [of "[]"] by simp
      ultimately show ?thesis using c(5) True p ps by auto
    qed
  qed
next
  case (2 c k)
  then obtain r ps where c: "gc_reader c = Some r" "bufio_ok r" "gc_readRemaining c = 0" "bufio_content r = concat (map enc_gun ps)"
      "concat ps = []" "\<forall>p\<in>set ps. length p < 2 ^ 63" by (auto simp: gun_gives_def)
  show ?case
  proof (cases ps)
    case Nil
    with c have "gun_read k c = Some ((Some io_EOF, []), c\<lparr>gc_reader := Some r\<rparr>)" by (simp add: gun_read_def gun_header_end)
    moreover have "c\<lparr>gc_reader := Some r\<rparr> = c" using c(1) by simp
    ultimately show ?thesis using 2(1) by simp
  next
    case (Cons p ps')
    with c(5) have p: "p = []" by simp
    from gun_header_next [OF c(2), of p "concat (map enc_gun ps')" k c] c(4) Cons p obtain r' where
      r': "bufio_ok r'" "bufio_content r' = concat (map enc_gun ps')"
        "gun_header k r c = gun_data 0 r' (c\<lparr>gc_reader := Some r', gc_readRemaining := 0\<rparr>)" by auto
    with gun_empty_message [OF r'(1,2), of c] c(6) Cons obtain c' where
      "gun_header k r c = Some ((None, []), c')" "gun_gives c' (concat ps')" "gun_steps c' = length (bufio_content r')" by auto
    moreover have "length (bufio_content r') < gun_steps c" using c(1,4) r'(2) Cons p length_enc_gun [of "[]"] by simp
    moreover have "gun_read k c = gun_header k r c" "concat ps' = []" using c(1,3,5) Cons by (simp_all add: gun_read_def)
    ultimately show ?thesis by metis
  qed
qed

lemma gun_writes_enc:
  assumes "\<And>n. uvarintLen n = length (PutUvarint n)" "\<And>buffer. writer buffer = None"
  shows "gun_writes wrapH2 uvarintLen writer ps c = (None, c\<lparr>gc_written := gc_written c @ concat (map enc_gun ps)\<rparr>)"
  using assms by (induction ps arbitrary: c) (auto simp: GunConn_Write_def gun_frame_def enc_gun_def Let_def)

text \<open>C19. A stream through the light gRPC transport is intact: the bytes of any writes, cut into segments in any way by the network, are read
  completely and in order with buffers of any sizes.\<close>

theorem gun_stream_intact:
  assumes "\<And>n. uvarintLen n = length (PutUvarint n)" "\<And>buffer. writer buffer = None" "wrapH2 io_EOF = io_EOF"
    and "\<forall>p\<in>set ps. length p < 2 ^ 63" "[] \<notin> set cs" "\<And>i. 0 < sizes i"
    and "concat cs = gc_written (snd (gun_writes wrapH2 uvarintLen writer ps newLateGunConn))"
  shows "fst (gun_writes wrapH2 uvarintLen writer ps newLateGunConn) = None \<and>
    io_Copy (GunConn_Read wrapH2) sizes 0 [] (newGunConn cs) = Some (None, concat ps) \<and>
    io_Copy (GunConn_Read wrapH2) sizes 0 [] (GunConn_setup (Some cs) None newLateGunConn) = Some (None, concat ps)"
proof -
  note writes = gun_writes_enc [OF assms(1,2)]
  have "concat cs = concat (map enc_gun ps)" using assms(7) by (simp add: writes newLateGunConn_def)
  then have "gun_gives (newGunConn cs) (concat ps)" "gun_gives (GunConn_setup (Some cs) None newLateGunConn) (concat ps)"
    using assms(4,5)
    by (auto simp: gun_gives_def newGunConn_def GunConn_setup_def newLateGunConn_def bufio_NewReader_def bufio_ok_def bufio_content_def)
  then have "io_Copy (GunConn_Read wrapH2) sizes 0 [] c = Some (None, concat ps)" if "c \<in> {newGunConn cs, GunConn_setup (Some cs) None newLateGunConn}" for c
    using that assms(6) io_reader.Copy_returns [OF gun.wrapped [of wrapH2, OF assms(3)], of c "concat ps" sizes 0 "[]"]
    unfolding GunConn_Read_def by auto
  then show ?thesis by (simp add: writes)
qed

definition sample_gun_segments :: segments where
  "sample_gun_segments = [[0, 0, 0, 0, 4, 10, 2, 1], [2, 0, 0], [0, 0, 2, 10, 0, 0, 0, 0, 0, 3, 10, 1, 3]]"

theorem gun_stream_intact_witness:
  "io_Copy (GunConn_Read id) (\<lambda>i. Suc i) 0 [] (newGunConn sample_gun_segments) = Some (None, [1, 2, 3])"
proof -
  have "concat sample_gun_segments =
    gc_written (snd (gun_writes id (\<lambda>n. length (PutUvarint n)) (\<lambda>buffer. None) [[1, 2], [], [3]] newLateGunConn))"
    by code_simp
  with gun_stream_intact [of "\<lambda>n. length (PutUvarint n)" "\<lambda>buffer. None" id "[[1, 2], [], [3]]" sample_gun_segments Suc]
  show ?thesis by (simp add: sample_gun_segments_def)
qed

text \<open>The length in a message is converted to a signed number: a message of a peer that claims \<open>2 ^ 63\<close> bytes or more makes every read
  panic.\<close>

theorem gun_length_panics:
  assumes "bufio_ok r" "bufio_content r = header @ PutUvarint v @ rest" "length header = 6" "2 ^ 63 \<le> unat v"
    and "gc_reader c = Some r" "gc_readRemaining c = 0"
  shows "\<exists>c'. gun_read k c = Some ((Some slice_panic, []), c')"
proof -
  from bufio_Discard_content [OF assms(1,2)] assms(3) obtain r1 where
    r1: "bufio_Discard 6 r = (None, r1)" "bufio_content r1 = PutUvarint v @ rest" "bufio_ok r1" by auto
  from bufio_ReadUvarint_PutUvarint [OF r1(3,2)] obtain r2 where r2: "bufio_ReadUvarint r1 = (Inr v, r2)" by blast
  have "sint v < 0"
  proof (rule ccontr)
    assume "\<not> sint v < 0"
    then have "uint v = sint v" using uint_sint [of v] sint_less [of v] by (simp add: take_bit_int_eq_self)
    moreover have "sint v < 2 ^ 63" using sint_less [of v] by simp
    moreover have "(2 ^ 63 :: int) \<le> uint v" using assms(4) by (metis of_nat_numeral of_nat_power uint_nat zle_int)
    ultimately show False by linarith
  qed
  moreover from this have "sint v < int k" by simp
  ultimately have "gun_header k r c = Some ((Some slice_panic, []), c\<lparr>gc_reader := Some r2, gc_readRemaining := sint v\<rparr>)"
    unfolding gun_header_def r1(1) r2 Let_def prod.case option.case sum.case by (simp only: if_True)
  then show ?thesis using assms(5,6) by (simp add: gun_read_def)
qed

theorem gun_length_panics_witness:
  "\<exists>c'. gun_read 16 (newGunConn [[0, 0, 0, 0, 12, 10] @ PutUvarint 0x8000000000000000]) = Some ((Some slice_panic, []), c')"
  by (rule gun_length_panics [of "([], [[0, 0, 0, 0, 12, 10] @ PutUvarint 0x8000000000000000])" "[0, 0, 0, 0, 12, 10]" "0x8000000000000000" "[]"])
    (simp_all add: bufio_ok_def bufio_content_def newGunConn_def bufio_NewReader_def)

text \<open>Both ways of writing put the same bytes on the wire.\<close>

lemma gun_WriteBuffer_Write:
  "GunConn_WriteBuffer wrapH2 uvarintLen writer b c =
     (case GunConn_Write wrapH2 uvarintLen writer b c of (Inl err, c) \<Rightarrow> (Some err, c) | (Inr n, c) \<Rightarrow> (None, c))"
  by (simp add: GunConn_WriteBuffer_def GunConn_Write_def split: sum.split option.split)

end
