(* ===== verification/SimpleObfs.thy ===== *)
theory SimpleObfs
  imports Streams HelloProps
begin

text \<open>
  The simple-obfs plugin (\<^verbatim>\<open>transport/simple-obfs\<close>): a connection that looks like TLS, whose first request is a client hello with the
  data in a session ticket and whose other data are in application-data records, and one that looks like HTTP, whose first request and
  response have a header. The connection below is its segments and a function that writes; the random bytes and the time are arguments.
\<close>

section \<open>TLS\<close>

definition chunkSize :: nat where "chunkSize = 2 ^ 14"

record TLSObfs =
  to_conn :: segments
  to_server :: bytes
  to_remain :: nat
  to_firstRequest :: bool
  to_firstResponse :: bool
  to_written :: bytes

definition NewTLSObfs :: "segments \<Rightarrow> bytes \<Rightarrow> TLSObfs" where
  "NewTLSObfs conn server =
     \<lparr>to_conn = conn, to_server = server, to_remain = 0, to_firstRequest = True, to_firstResponse = True, to_written = []\<rparr>"

subsection \<open>Reading\<close>

text \<open>The size and the data of a record. An error of reading the size is not returned.\<close>

definition tls_body :: "nat \<Rightarrow> TLSObfs \<Rightarrow> ((goerr option \<times> bytes) \<times> TLSObfs) option" where
  "tls_body k t =
     (case io_ReadFull conn_Read 2 (to_conn t) of
        None \<Rightarrow> None
      | Some ((Some err, p), cs) \<Rightarrow> Some ((None, []), t\<lparr>to_conn := cs\<rparr>)
      | Some ((None, sizeBuf), cs) \<Rightarrow>
          let len = unat (be16 (sizeBuf ! 0) (sizeBuf ! 1))
          in if len > k then
               (case conn_Read k cs of
                  None \<Rightarrow> None
                | Some ((Some err, p), cs) \<Rightarrow> Some ((Some err, p), t\<lparr>to_conn := cs\<rparr>)
                | Some ((None, p), cs) \<Rightarrow> Some ((None, p), t\<lparr>to_conn := cs, to_remain := len - length p\<rparr>))
             else map_option (apsnd (\<lambda>cs. t\<lparr>to_conn := cs\<rparr>)) (io_ReadFull conn_Read len cs))"

definition tls_read :: "nat \<Rightarrow> nat \<Rightarrow> TLSObfs \<Rightarrow> ((goerr option \<times> bytes) \<times> TLSObfs) option" where
  "tls_read discardN k t =
     (case io_ReadFull conn_Read discardN (to_conn t) of
        None \<Rightarrow> None
      | Some ((Some err, p), cs) \<Rightarrow> Some ((Some err, []), t\<lparr>to_conn := cs\<rparr>)
      | Some ((None, p), cs) \<Rightarrow> tls_body k (t\<lparr>to_conn := cs\<rparr>))"

definition TLSObfs_Read :: "TLSObfs read" where
  "TLSObfs_Read k t =
     (if to_remain t > 0 then
        map_option (\<lambda>((err, p), cs). ((err, p), t\<lparr>to_conn := cs, to_remain := to_remain t - length p\<rparr>))
          (io_ReadFull conn_Read (if to_remain t > k then k else to_remain t) (to_conn t))
      else if to_firstResponse t then tls_read 105 k (t\<lparr>to_firstResponse := False\<rparr>)
      else tls_read 3 k t)"

subsection \<open>Writing\<close>

text \<open>The lengths in the hello are 16-bit numbers; \<open>random\<close>, \<open>sessionID\<close> and \<open>now\<close> come from the random generator and the clock.\<close>

definition cipher_suites :: bytes where
  "cipher_suites =
     [0xc0, 0x2c, 0xc0, 0x30, 0x00, 0x9f, 0xcc, 0xa9, 0xcc, 0xa8, 0xcc, 0xaa, 0xc0, 0x2b, 0xc0, 0x2f,
      0x00, 0x9e, 0xc0, 0x24, 0xc0, 0x28, 0x00, 0x6b, 0xc0, 0x23, 0xc0, 0x27, 0x00, 0x67, 0xc0, 0x0a,
      0xc0, 0x14, 0x00, 0x39, 0xc0, 0x09, 0xc0, 0x13, 0x00, 0x33, 0x00, 0x9d, 0x00, 0x9c, 0x00, 0x3d,
      0x00, 0x3c, 0x00, 0x35, 0x00, 0x2f, 0x00, 0xff]"

definition signature_extension :: bytes where
  "signature_extension =
     [0x00, 0x0d, 0x00, 0x20, 0x00, 0x1e, 0x06, 0x01, 0x06, 0x02, 0x06, 0x03, 0x05,
      0x01, 0x05, 0x02, 0x05, 0x03, 0x04, 0x01, 0x04, 0x02, 0x04, 0x03, 0x03, 0x01,
      0x03, 0x02, 0x03, 0x03, 0x02, 0x01, 0x02, 0x02, 0x02, 0x03]"

definition makeClientHelloMsg :: "bytes \<Rightarrow> bytes \<Rightarrow> u32 \<Rightarrow> bytes \<Rightarrow> bytes \<Rightarrow> bytes" where
  "makeClientHelloMsg random sessionID now data server =
     [22, 0x03, 0x01] @ enc16 (212 + length data + length server) @
     [1, 0] @ enc16 (208 + length data + length server) @ [0x03, 0x03] @
     put_be 4 now @ random @ [32] @ sessionID @
     [0x00, 0x38] @ cipher_suites @ [0x01, 0x00] @
     enc16 (79 + length data + length server) @
     [0x00, 0x23] @ enc16 (length data) @ data @
     [0x00, 0x00] @ enc16 (length server + 5) @ enc16 (length server + 3) @ [0] @ enc16 (length server) @ server @
     [0x00, 0x0b, 0x00, 0x04, 0x03, 0x01, 0x00, 0x02] @
     [0x00, 0x0a, 0x00, 0x0a, 0x00, 0x08, 0x00, 0x1d, 0x00, 0x17, 0x00, 0x19, 0x00, 0x18] @
     signature_extension @ [0x00, 0x16, 0x00, 0x00] @ [0x00, 0x17, 0x00, 0x00]"

record obfs_deps =
  od_random :: bytes
  od_sessionID :: bytes
  od_now :: u32
  od_writer :: "bytes \<Rightarrow> goerr option"

definition tls_write :: "obfs_deps \<Rightarrow> bytes \<Rightarrow> TLSObfs \<Rightarrow> (nat \<times> goerr option) \<times> TLSObfs" where
  "tls_write od b t =
     (let msg = (if to_firstRequest t then makeClientHelloMsg (od_random od) (od_sessionID od) (od_now od) b (to_server t)
                 else [0x17, 0x03, 0x03] @ enc16 (length b) @ b);
          err = od_writer od msg;
          t = (if err = None then t\<lparr>to_written := to_written t @ msg\<rparr> else t)
      in ((length b, err), t\<lparr>to_firstRequest := False\<rparr>))"

function tls_write_loop :: "obfs_deps \<Rightarrow> bytes \<Rightarrow> TLSObfs \<Rightarrow> (nat \<times> goerr) option \<times> TLSObfs" where
  "tls_write_loop od b t =
     (if b = [] then (None, t)
      else case tls_write od (take chunkSize b) t of
        ((n, Some err), t) \<Rightarrow> (Some (n, err), t)
      | ((n, None), t) \<Rightarrow> tls_write_loop od (drop chunkSize b) t)"
  by auto
termination by (relation "measure (\<lambda>(od, b, t). length b)") (auto simp: chunkSize_def)

declare tls_write_loop.simps [simp del]

definition TLSObfs_Write :: "obfs_deps \<Rightarrow> bytes \<Rightarrow> TLSObfs \<Rightarrow> (nat \<times> goerr option) \<times> TLSObfs" where
  "TLSObfs_Write od b t =
     (case tls_write_loop od b t of
        (Some (n, err), t) \<Rightarrow> ((n, Some err), t)
      | (None, t) \<Rightarrow> ((length b, None), t))"

section \<open>HTTP\<close>

text \<open>\<^verbatim>\<open>ho_buf\<close> is what is left of the first response; the offset into it is not kept.\<close>

record HTTPObfs =
  ho_conn :: segments
  ho_buf :: "bytes option"
  ho_firstRequest :: bool
  ho_firstResponse :: bool
  ho_written :: bytes

definition NewHTTPObfs :: "segments \<Rightarrow> HTTPObfs" where
  "NewHTTPObfs conn = \<lparr>ho_conn = conn, ho_buf = None, ho_firstRequest = True, ho_firstResponse = True, ho_written = []\<rparr>"

definition header_end :: bytes where "header_end = [13, 10, 13, 10]"

text \<open>\<^verbatim>\<open>bytes.Index\<close>.\<close>

fun bytes_Index :: "bytes \<Rightarrow> bytes \<Rightarrow> nat option" where
  "bytes_Index [] sep = (if sep = [] then Some 0 else None)"
| "bytes_Index (b # bs) sep = (if has_prefix (b # bs) sep then Some 0 else map_option Suc (bytes_Index bs sep))"

text \<open>\<open>bufferSize\<close> is \<^verbatim>\<open>B.BufferSize\<close>.\<close>

definition HTTPObfs_Read :: "nat \<Rightarrow> HTTPObfs read" where
  "HTTPObfs_Read bufferSize k h =
     (case ho_buf h of
        Some buf \<Rightarrow> Some ((None, take k buf), h\<lparr>ho_buf := if length buf \<le> k then None else Some (drop k buf)\<rparr>)
      | None \<Rightarrow>
          if ho_firstResponse h then
            (case conn_Read bufferSize (ho_conn h) of
               None \<Rightarrow> None
             | Some ((Some err, p), cs) \<Rightarrow> Some ((Some err, []), h\<lparr>ho_conn := cs\<rparr>)
             | Some ((None, p), cs) \<Rightarrow>
                 (case bytes_Index p header_end of
                    None \<Rightarrow> Some ((Some io_EOF, []), h\<lparr>ho_conn := cs\<rparr>)
                  | Some idx \<Rightarrow>
                      let body = drop (idx + 4) p
                      in Some ((None, take k body),
                           h\<lparr>ho_conn := cs, ho_firstResponse := False, ho_buf := if length body > k then Some (drop k body) else None\<rparr>)))
          else map_option (apsnd (\<lambda>cs. h\<lparr>ho_conn := cs\<rparr>)) (conn_Read k (ho_conn h)))"

text \<open>\<open>request\<close> is the request that \<^verbatim>\<open>net/http\<close> writes with the data as its body.\<close>

definition HTTPObfs_Write :: "(bytes \<Rightarrow> bytes) \<Rightarrow> (bytes \<Rightarrow> goerr option) \<Rightarrow> bytes \<Rightarrow> HTTPObfs \<Rightarrow> (nat \<times> goerr option) \<times> HTTPObfs" where
  "HTTPObfs_Write request writer b h =
     (let msg = (if ho_firstRequest h then request b else b);
          err = writer msg;
          h = (if err = None then h\<lparr>ho_written := ho_written h @ msg\<rparr> else h)
      in ((if ho_firstRequest h \<or> err = None then length b else 0, err), h\<lparr>ho_firstRequest := False\<rparr>))"

section \<open>Records are read as they are written\<close>

definition enc_record :: "bytes \<times> bytes \<Rightarrow> bytes" where
  "enc_record r = fst r @ enc16 (length (snd r)) @ snd r"

fun records_ok :: "bool \<Rightarrow> (bytes \<times> bytes) list \<Rightarrow> bool" where
  "records_ok first [] = True"
| "records_ok first ((h, d) # rs) = (length h = (if first then 105 else 3) \<and> length d < 2 ^ 16 \<and> records_ok False rs)"

definition tls_gives :: "TLSObfs \<Rightarrow> bytes \<Rightarrow> bool" where
  "tls_gives t bs \<longleftrightarrow> (\<exists>rest rs. to_remain t = length rest \<and> concat (to_conn t) = rest @ concat (map enc_record rs) \<and>
     bs = rest @ concat (map snd rs) \<and> records_ok (to_firstResponse t) rs)"

abbreviation tls_steps :: "TLSObfs \<Rightarrow> nat" where
  "tls_steps t \<equiv> length (concat (to_conn t))"

lemma read_size: "n < 2 ^ 16 \<Longrightarrow> unat (be16 (enc16 n ! 0) (enc16 n ! Suc 0)) = n"
  by (simp add: put_be_2 be16_put unat_u16)

text \<open>The body of a record of which \<open>k\<close> bytes are asked for.\<close>

lemma tls_body_gives:
  assumes "concat (to_conn t) = enc16 (length d) @ d @ concat (map enc_record rs)" "length d < 2 ^ 16" "0 < k"
    and "to_remain t = 0" "records_ok (to_firstResponse t) rs"
  shows "\<exists>p t' q. tls_body k t = Some ((None, p), t') \<and> length p \<le> k \<and> d @ concat (map snd rs) = p @ q \<and> tls_gives t' q \<and> tls_steps t' < tls_steps t"
proof -
  let ?rest = "concat (map enc_record rs)"
  from conn.ReadFull_returns [OF assms(1), of 2] obtain cs where
    cs: "io_ReadFull conn_Read 2 (to_conn t) = Some ((None, enc16 (length d)), cs)" "concat cs = d @ ?rest" by auto
  have steps: "length (concat cs) < tls_steps t" using assms(1) cs(2) by simp
  note size = read_size [OF assms(2)]
  show ?thesis
  proof (cases "length d > k")
    case True
    then have "d @ ?rest \<noteq> []" by auto
    from conn.reads [OF cs(2) this assms(3)] obtain p cs' r where
      rd: "conn_Read k cs = Some ((None, p), cs')" "d @ ?rest = p @ r" "length p \<le> k" "concat cs' = r" by blast
    have d: "d = p @ drop (length p) d" "r = drop (length p) d @ ?rest"
      using rd(2,3) True by (simp_all add: append_eq_append_conv_if split: if_splits) (metis append_take_drop_id)
    let ?t = "t\<lparr>to_conn := cs', to_remain := length d - length p\<rparr>"
    have "tls_body k t = Some ((None, p), ?t)" using True by (simp add: tls_body_def cs(1) size rd(1) Let_def)
    moreover have "tls_gives ?t (drop (length p) d @ concat (map snd rs))"
      unfolding tls_gives_def using rd(4) d(2) assms(5) by (intro exI [of _ "drop (length p) d"] exI [of _ rs]) simp
    moreover have "tls_steps ?t < tls_steps t" using steps cs(2) rd(2,4) by simp
    ultimately show ?thesis using rd(3) d(1) by (metis append.assoc)
  next
    case False
    from conn.ReadFull_returns [OF cs(2) refl] obtain cs' where
      rd: "io_ReadFull conn_Read (length d) cs = Some ((None, d), cs')" "concat cs' = ?rest" by blast
    have "tls_body k t = Some ((None, d), t\<lparr>to_conn := cs'\<rparr>)" using False by (simp add: tls_body_def cs(1) size rd(1) Let_def)
    moreover have "tls_gives (t\<lparr>to_conn := cs'\<rparr>) (concat (map snd rs))"
      unfolding tls_gives_def using rd(2) assms(4,5) by (intro exI [of _ "[]"] exI [of _ rs]) simp
    moreover have "tls_steps (t\<lparr>to_conn := cs'\<rparr>) < tls_steps t" using steps cs(2) rd(2) by simp
    ultimately show ?thesis using False by (metis linorder_not_less)
  qed
qed

lemma tls_next_record:
  assumes "concat (to_conn t) = enc_record (h, d) @ concat (map enc_record rs)" "records_ok (to_firstResponse t) ((h, d) # rs)" "0 < k"
    and "to_remain t = 0"
  shows "\<exists>p t' q. TLSObfs_Read k t = Some ((None, p), t') \<and> length p \<le> k \<and> d @ concat (map snd rs) = p @ q \<and> tls_gives t' q \<and> tls_steps t' < tls_steps t"
proof -
  let ?rest = "enc16 (length d) @ d @ concat (map enc_record rs)" and ?n = "if to_firstResponse t then 105 else 3 :: nat"
  have conn: "concat (to_conn t) = h @ ?rest" and h: "length h = ?n" using assms(1,2) by (simp_all add: enc_record_def)
  from conn.ReadFull_returns [OF conn h] obtain cs where
    cs: "io_ReadFull conn_Read ?n (to_conn t) = Some ((None, h), cs)" "concat cs = ?rest" by blast
  let ?t = "t\<lparr>to_firstResponse := False, to_conn := cs\<rparr>"
  have "TLSObfs_Read k t = tls_body k (if to_firstResponse t then ?t else t\<lparr>to_conn := cs\<rparr>)"
    using cs(1) assms(4) by (cases "to_firstResponse t") (simp_all add: TLSObfs_Read_def tls_read_def)
  moreover have "(if to_firstResponse t then ?t else t\<lparr>to_conn := cs\<rparr>) = ?t" by (cases t) simp
  ultimately have "TLSObfs_Read k t = tls_body k ?t" by simp
  moreover have "tls_steps ?t \<le> tls_steps t" using cs(2) conn by simp
  ultimately show ?thesis using tls_body_gives [of ?t d rs k] cs(2) assms by (auto intro: less_le_trans)
qed

interpretation tls_obfs: io_reader TLSObfs_Read tls_gives tls_steps
proof (unfold_locales, goal_cases)
  case (1 t bs k)
  from 1(1) obtain rest rs where t: "to_remain t = length rest" "concat (to_conn t) = rest @ concat (map enc_record rs)"
    "bs = rest @ concat (map snd rs)" "records_ok (to_firstResponse t) rs" by (auto simp: tls_gives_def)
  show ?case
  proof (cases "rest = []")
    case True
    with 1(2) t(3) obtain h d rs' where rs: "rs = (h, d) # rs'" by (cases rs) auto
    with tls_next_record [of t h d rs' k] t 1(3) True show ?thesis by fastforce
  next
    case False
    let ?n = "if length rest > k then k else length rest"
    have "concat (to_conn t) = take ?n rest @ drop ?n rest @ concat (map enc_record rs)" using t(2) by simp
    from conn.ReadFull_returns [OF this, of ?n] obtain cs where
      cs: "io_ReadFull conn_Read ?n (to_conn t) = Some ((None, take ?n rest), cs)" "concat cs = drop ?n rest @ concat (map enc_record rs)" by auto
    let ?t = "t\<lparr>to_conn := cs, to_remain := length rest - ?n\<rparr>"
    have "TLSObfs_Read k t = Some ((None, take ?n rest), ?t)"
      using cs(1) t(1) False by (auto simp: TLSObfs_Read_def)
    moreover have "tls_gives ?t (drop ?n rest @ concat (map snd rs))"
      unfolding tls_gives_def using cs(2) t(4) by (intro exI [of _ "drop ?n rest"] exI [of _ rs]) simp
    moreover have "bs = take ?n rest @ drop ?n rest @ concat (map snd rs)" using t(3) by simp
    moreover have "take ?n rest \<noteq> []" "length (take ?n rest) \<le> k" using 1(3) False by auto
    ultimately show ?thesis by blast
  qed
next
  case (2 t k)
  then obtain rs where t: "to_remain t = 0" "concat (to_conn t) = concat (map enc_record rs)"
    "concat (map snd rs) = []" "records_ok (to_firstResponse t) rs" by (auto simp: tls_gives_def)
  show ?case
  proof (cases rs)
    case Nil
    with t have "concat (to_conn t) = []" by simp
    from conn.ReadFull_at_end [OF this] obtain f where
      f: "0 < n \<Longrightarrow> io_ReadFull conn_Read n (to_conn t) = Some ((Some io_EOF, []), f n) \<and> concat (f n) = []" for n by metis
    have "\<exists>t'. TLSObfs_Read k t = Some ((Some io_EOF, []), t') \<and> to_remain t' = 0 \<and> concat (to_conn t') = []"
      using f [of 3] f [of 105] t(1) by (cases "to_firstResponse t") (auto simp: TLSObfs_Read_def tls_read_def)
    moreover have "tls_gives t' []" if "to_remain t' = 0" "concat (to_conn t') = []" for t'
      unfolding tls_gives_def using that by (intro exI [of _ "[]"]) simp
    ultimately show ?thesis by blast
  next
    case (Cons r rs')
    obtain h d where r: "r = (h, d)" by (cases r)
    with tls_next_record [of t h d rs' k] t 2(2) Cons show ?thesis by fastforce
  qed
qed

subsection \<open>What is written\<close>

fun app_records :: "nat \<Rightarrow> bytes \<Rightarrow> (bytes \<times> bytes) list" where
  "app_records n [] = []"
| "app_records 0 bs = []"
| "app_records (Suc n) bs = ([0x17, 0x03, 0x03], take chunkSize bs) # app_records n (drop chunkSize bs)"

lemma app_records_ok: "records_ok False (app_records n bs)"
  by (induction n bs rule: app_records.induct) (auto simp: chunkSize_def)

lemma app_records_nonempty: "[] \<notin> snd ` set (app_records n bs)"
  by (induction n bs rule: app_records.induct) (auto simp: chunkSize_def)

lemma app_records_data: "length bs \<le> n \<Longrightarrow> concat (map snd (app_records n bs)) = bs"
  by (induction n bs rule: app_records.induct) (auto simp: chunkSize_def)

lemma tls_write_loop_records:
  assumes "\<And>msg. od_writer od msg = None"
  shows "\<not> to_firstRequest t \<Longrightarrow> length b \<le> n \<Longrightarrow>
    tls_write_loop od b t = (None, t\<lparr>to_written := to_written t @ concat (map enc_record (app_records n b))\<rparr>)"
proof (induction n b arbitrary: t rule: app_records.induct)
  case (3 n x bs)
  let ?b = "x # bs"
  let ?t = "t\<lparr>to_written := to_written t @ enc_record ([0x17, 0x03, 0x03], take chunkSize ?b)\<rparr>"
  have "tls_write od (take chunkSize ?b) t = ((length (take chunkSize ?b), None), ?t)"
    using "3.prems"(1) assms by (cases t) (simp add: tls_write_def enc_record_def)
  moreover have "length (drop chunkSize ?b) \<le> n" using "3.prems"(2) by (simp add: chunkSize_def)
  ultimately show ?case using "3.IH" [of ?t] "3.prems"(1) by (subst tls_write_loop.simps) simp
qed (auto simp: tls_write_loop.simps)

text \<open>Several writes.\<close>

fun tls_writes :: "obfs_deps \<Rightarrow> bytes list \<Rightarrow> TLSObfs \<Rightarrow> goerr option \<times> TLSObfs" where
  "tls_writes od [] t = (None, t)"
| "tls_writes od (b # bs) t =
     (case TLSObfs_Write od b t of
        ((n, Some err), t) \<Rightarrow> (Some err, t)
      | ((n, None), t) \<Rightarrow> tls_writes od bs t)"

lemma records_ok_append: "records_ok False rs \<Longrightarrow> records_ok False rs' \<Longrightarrow> records_ok False (rs @ rs')"
  by (induction rs) auto

lemma tls_writes_records:
  assumes "\<And>msg. od_writer od msg = None" "\<not> to_firstRequest t"
  shows "\<exists>rs. tls_writes od bs t = (None, t\<lparr>to_written := to_written t @ concat (map enc_record rs)\<rparr>) \<and>
    records_ok False rs \<and> [] \<notin> snd ` set rs \<and> concat (map snd rs) = concat bs"
  using assms(2)
proof (induction bs arbitrary: t)
  case Nil
  show ?case by (intro exI [of _ "[]"]) (cases t, simp)
next
  case (Cons b bs)
  let ?rs = "app_records (length b) b"
  let ?t = "t\<lparr>to_written := to_written t @ concat (map enc_record ?rs)\<rparr>"
  have w: "TLSObfs_Write od b t = ((length b, None), ?t)"
    using tls_write_loop_records [OF assms(1) Cons.prems, of b "length b"] by (simp add: TLSObfs_Write_def)
  from Cons.IH [of ?t] Cons.prems obtain rs where
    rs: "tls_writes od bs ?t = (None, ?t\<lparr>to_written := to_written ?t @ concat (map enc_record rs)\<rparr>)"
      "records_ok False rs" "[] \<notin> snd ` set rs" "concat (map snd rs) = concat bs" by auto
  show ?case
    by (intro exI [of _ "?rs @ rs"]) (use w rs records_ok_append [OF app_records_ok rs(2)] app_records_nonempty [of "length b" b] app_records_data [of b "length b"] in auto)
qed

text \<open>The records of several writes are read by the other side, also behind the 102 bytes of a server hello.\<close>

lemma records_read:
  assumes "records_ok False rs" "rs \<noteq> []" "length hello = (if first then 102 else 0)" "concat cs = hello @ concat (map enc_record rs)" "\<And>i. 0 < sizes i"
  shows "io_Copy TLSObfs_Read sizes 0 [] ((NewTLSObfs cs server)\<lparr>to_firstResponse := first\<rparr>) = Some (None, concat (map snd rs))"
proof -
  obtain h d rs' where r: "rs = (h, d) # rs'" using assms(2) by (cases rs) auto
  let ?rs = "(hello @ h, d) # rs'"
  have "concat cs = concat (map enc_record ?rs)" using assms(4) r by (simp add: enc_record_def)
  moreover have "records_ok first ?rs" using assms(1,3) r by simp
  moreover have "concat (map snd ?rs) = concat (map snd rs)" using r by simp
  ultimately have "tls_gives ((NewTLSObfs cs server)\<lparr>to_firstResponse := first\<rparr>) (concat (map snd rs))"
    unfolding tls_gives_def by (intro exI [of _ "[]"] exI [of _ ?rs]) (simp add: NewTLSObfs_def)
  from tls_obfs.Copy_returns [OF this, of sizes 0 "[]"] assms(5) show ?thesis by simp
qed

text \<open>The first data of a connection go into the hello.\<close>

lemma tls_first_writes:
  assumes "\<And>msg. od_writer od msg = None" "to_firstRequest t" "concat bs \<noteq> []"
  shows "\<exists>ticket rs t1. tls_writes od bs t = (None, t1) \<and> 0 < length ticket \<and> length ticket \<le> chunkSize \<and>
    to_written t1 = to_written t @ makeClientHelloMsg (od_random od) (od_sessionID od) (od_now od) ticket (to_server t) @ concat (map enc_record rs) \<and>
    records_ok False rs \<and> [] \<notin> snd ` set rs \<and> ticket @ concat (map snd rs) = concat bs"
  using assms(2,3)
proof (induction bs arbitrary: t)
  case (Cons b bs)
  show ?case
  proof (cases "b = []")
    case True
    then have "TLSObfs_Write od b t = ((0, None), t)" by (simp add: TLSObfs_Write_def tls_write_loop.simps)
    with Cons.IH [OF Cons.prems(1)] Cons.prems(2) True show ?thesis by simp
  next
    case False
    let ?ticket = "take chunkSize b" and ?b = "drop chunkSize b"
    let ?hello = "makeClientHelloMsg (od_random od) (od_sessionID od) (od_now od) ?ticket (to_server t)"
    define t1 where "t1 = t\<lparr>to_written := to_written t @ ?hello, to_firstRequest := False\<rparr>"
    let ?rs = "app_records (length ?b) ?b"
    define t2 where "t2 = t1\<lparr>to_written := to_written t1 @ concat (map enc_record ?rs)\<rparr>"
    have "tls_write od ?ticket t = ((length ?ticket, None), t1)"
      using Cons.prems(1) assms(1) by (simp add: tls_write_def t1_def)
    moreover have "tls_write_loop od ?b t1 = (None, t2)"
      unfolding t2_def by (rule tls_write_loop_records [OF assms(1)]) (simp_all add: t1_def)
    ultimately have w: "TLSObfs_Write od b t = ((length b, None), t2)"
      using False by (simp add: TLSObfs_Write_def tls_write_loop.simps [of od b t])
    have "\<not> to_firstRequest t2" by (simp add: t2_def t1_def)
    from tls_writes_records [OF assms(1) this, of bs] obtain rs where
      rs: "tls_writes od bs t2 = (None, t2\<lparr>to_written := to_written t2 @ concat (map enc_record rs)\<rparr>)" "records_ok False rs"
      "[] \<notin> snd ` set rs" "concat (map snd rs) = concat bs" by blast
    show ?thesis
    proof (intro exI conjI)
      show "tls_writes od (b # bs) t = (None, t2\<lparr>to_written := to_written t2 @ concat (map enc_record rs)\<rparr>)" using w rs(1) by simp
      show "0 < length ?ticket" "length ?ticket \<le> chunkSize" using False by (simp_all add: chunkSize_def)
      show "records_ok False (?rs @ rs)" using records_ok_append [OF app_records_ok rs(2)] .
      show "?ticket @ concat (map snd (?rs @ rs)) = concat (b # bs)" using rs(4) app_records_data [of ?b "length ?b"] by (simp flip: append_assoc)
      show "[] \<notin> snd ` set (?rs @ rs)" using rs(3) app_records_nonempty by auto
    qed (simp add: t2_def t1_def)
  qed
qed simp

section \<open>The hello\<close>

text \<open>The extensions of the hello, in the wire format.\<close>

definition obfs_extensions :: "bytes \<Rightarrow> bytes \<Rightarrow> (u16 \<times> bytes) list" where
  "obfs_extensions data server =
     [(35, data), (0, sni_data server), (11, [3, 1, 0, 2]), (10, enc16 (2 * 4) @ enc_words [0x1d, 0x17, 0x19, 0x18]),
      (13, enc16 (2 * 15) @ enc_words [0x0601, 0x0602, 0x0603, 0x0501, 0x0502, 0x0503, 0x0401, 0x0402, 0x0403, 0x0301, 0x0302, 0x0303, 0x0201, 0x0202, 0x0203]),
      (22, []), (23, [])]"

definition obfs_suites :: "u16 list" where
  "obfs_suites = read_pairs cipher_suites"

lemma obfs_suites_enc: "enc_words obfs_suites = cipher_suites" "length obfs_suites = 28"
  by code_simp+

lemma obfs_constants:
  "enc_extension (11, [3, 1, 0, 2]) = [0x00, 0x0b, 0x00, 0x04, 0x03, 0x01, 0x00, 0x02]"
  "enc_extension (10, enc16 (2 * 4) @ enc_words [0x1d, 0x17, 0x19, 0x18]) = [0x00, 0x0a, 0x00, 0x0a, 0x00, 0x08, 0x00, 0x1d, 0x00, 0x17, 0x00, 0x19, 0x00, 0x18]"
  "enc_extension (13, enc16 (2 * 15) @ enc_words [0x0601, 0x0602, 0x0603, 0x0501, 0x0502, 0x0503, 0x0401, 0x0402, 0x0403, 0x0301, 0x0302, 0x0303, 0x0201, 0x0202, 0x0203]) = signature_extension"
  "enc_extension (22, []) = [0x00, 0x16, 0x00, 0x00]" "enc_extension (23, []) = [0x00, 0x17, 0x00, 0x00]"
  "put_be 2 (35 :: u16) = [0x00, 0x23]" "put_be 2 (0 :: u16) = [0x00, 0x00]" "enc16 (2 * 28) = [0x00, 0x38]"
  by code_simp+

lemma length_sni_data: "length (sni_data name) = length name + 5"
  by (simp add: sni_data_def)

lemma obfs_enc_extensions:
  "enc_extensions (obfs_extensions data server) =
     [0x00, 0x23] @ enc16 (length data) @ data @
     [0x00, 0x00] @ enc16 (length server + 5) @ enc16 (length server + 3) @ [0] @ enc16 (length server) @ server @
     [0x00, 0x0b, 0x00, 0x04, 0x03, 0x01, 0x00, 0x02] @
     [0x00, 0x0a, 0x00, 0x0a, 0x00, 0x08, 0x00, 0x1d, 0x00, 0x17, 0x00, 0x19, 0x00, 0x18] @
     signature_extension @ [0x00, 0x16, 0x00, 0x00] @ [0x00, 0x17, 0x00, 0x00]"
proof -
  have "enc_extension (35, data) = [0x00, 0x23] @ enc16 (length data) @ data"
    "enc_extension (0, sni_data server) = [0x00, 0x00] @ enc16 (length server + 5) @ sni_data server"
    by (simp_all only: enc_extension_def fst_conv snd_conv obfs_constants length_sni_data)
  then show ?thesis
    by (simp only: obfs_extensions_def enc_extensions_def list.map concat.simps obfs_constants sni_data_def append.assoc append_Nil2)
qed

lemma signature_length: "length signature_extension = 36" "length cipher_suites = 56"
  by code_simp+

lemma obfs_lengths:
  "length (enc_extensions (obfs_extensions data server)) = 79 + length data + length server"
  by (simp add: obfs_enc_extensions signature_length)

lemma put_be_3_small:
  assumes "n < 2 ^ 16"
  shows "put_be 3 (of_nat n :: u32) = 0 # enc16 n"
proof -
  have "unat (of_nat n :: u32) = n" using assms by (simp add: unsigned_of_nat take_bit_nat_eq_self)
  then have "unat (drop_bit 16 (of_nat n :: u32)) = drop_bit 16 n" by (simp only: unat_drop_bit_eq)
  then have "unat (drop_bit 16 (of_nat n :: u32)) = 0" using assms by (simp only: drop_bit_eq_div) simp
  then have "drop_bit 16 (of_nat n :: u32) = 0" by (simp add: unat_eq_0)
  moreover have "(ucast (drop_bit 8 (of_nat n :: u32)) :: u8) = ucast (drop_bit 8 (of_nat n :: u16))" "(ucast (of_nat n :: u32) :: u8) = ucast (of_nat n :: u16)"
    by (rule bit_word_eqI, simp add: bit_simps)+
  ultimately show ?thesis by (simp add: numeral_3_eq_3 put_be_2)
qed

lemma obfs_hello_enc:
  assumes "length random = 28" "length sessionID = 32" "212 + length data + length server < 2 ^ 16"
  shows "makeClientHelloMsg random sessionID now data server =
    hello_record (hello_handshake (hello_body (put_be 4 now @ random) sessionID obfs_suites [0] (obfs_extensions data server)))"
proof -
  let ?exts = "obfs_extensions data server"
  let ?suites = "hello_suites obfs_suites [0] ?exts" and ?body = "hello_body (put_be 4 now @ random) sessionID obfs_suites [0] (obfs_extensions data server)"
  have suites: "?suites = [0x00, 0x38] @ cipher_suites @ [0x01, 0x00] @ enc16 (79 + length data + length server) @ enc_extensions ?exts"
    unfolding hello_suites_def obfs_suites_enc obfs_constants obfs_lengths by simp
  have "length ?suites = 141 + length data + length server"
    by (simp add: suites signature_length obfs_lengths)
  then have body: "?body = [3, 3] @ (put_be 4 now @ random) @ [32] @ sessionID @ ?suites" "length ?body = 208 + length data + length server"
    using assms(1,2) by (simp_all add: hello_body_def length_put_be)
  have "put_be 3 (of_nat (208 + length data + length server) :: u32) = 0 # enc16 (208 + length data + length server)"
    by (rule put_be_3_small) (use assms(3) in simp)
  then have hs: "hello_handshake ?body = [1] @ (0 # enc16 (208 + length data + length server)) @ ?body"
    by (simp only: hello_handshake_def body(2))
  then have len: "length (hello_handshake ?body) = 212 + length data + length server" by (simp add: body(2))
  show ?thesis unfolding hello_record_def makeClientHelloMsg_def len unfolding hs unfolding body(1) suites obfs_enc_extensions by simp
qed

lemma obfs_extensions_ok:
  assumes "length data < 2 ^ 16 - 4" "length server < 2 ^ 16 - 9"
  shows "extensions_ok server (obfs_extensions data server)"
proof -
  have "extension_ok (11, [3, 1, 0, 2])" by (auto simp: extension_ok_def intro: exI [of _ "[1, 0, 2]"])
  moreover have "extension_ok (t, enc16 (2 * length vs) @ enc_words vs)" if "length vs < 100" "t \<in> {10, 13}" for t vs
    using that by (auto simp: extension_ok_def)
  from this [of "[0x1d, 0x17, 0x19, 0x18]" 10]
    this [of "[0x0601, 0x0602, 0x0603, 0x0501, 0x0502, 0x0503, 0x0401, 0x0402, 0x0403, 0x0301, 0x0302, 0x0303, 0x0201, 0x0202, 0x0203]" 13]
  have "extension_ok (10, enc16 (2 * 4) @ enc_words [0x1d, 0x17, 0x19, 0x18])"
    "extension_ok (13, enc16 (2 * 15) @ enc_words [0x0601, 0x0602, 0x0603, 0x0501, 0x0502, 0x0503, 0x0401, 0x0402, 0x0403, 0x0301, 0x0302, 0x0303, 0x0201, 0x0202, 0x0203])"
    by simp_all
  moreover have "extension_ok (35, data)" "extension_ok (0, sni_data server)" "extension_ok (22, [])" "extension_ok (23, [])"
    using assms by (simp_all add: extension_ok_def length_sni_data)
  ultimately show ?thesis unfolding extensions_ok_def obfs_extensions_def by simp
qed

text \<open>C30. The TLS obfuscation keeps the stream of a new connection: of what is written, in writes of any sizes, the first data stand in a client hello,
  as its session ticket, and all that follow are read completely and in order by the other side, however the network cuts them and
  whatever buffers they are read with; so are the records of a response, the first of which is preceded by the 102 bytes of a server
  hello. The server name has at most 32768 bytes, and the writes below succeed.\<close>

theorem tls_obfs_stream_intact:
  assumes "\<And>msg. od_writer od msg = None" "length (od_random od) = 28" "length (od_sessionID od) = 32" "length server \<le> 2 ^ 15"
    and "concat bs \<noteq> []" "tls_writes od bs (NewTLSObfs conn server) = (err, t)" "\<And>i. 0 < sizes i"
  shows "err = None \<and> (\<exists>ticket rest wire extensions.
    ticket @ rest = concat bs \<and> ticket \<noteq> [] \<and>
    to_written t = hello_record (hello_handshake (hello_body (put_be 4 (od_now od) @ od_random od) (od_sessionID od) obfs_suites [0] extensions)) @ wire \<and>
    extensions_ok server extensions \<and> distinct (map fst extensions) \<and> (35, ticket) \<in> set extensions \<and>
    (if rest = [] then wire = []
     else \<forall>hello cs first. length hello = (if first then 102 else 0) \<longrightarrow> concat cs = hello @ wire \<longrightarrow>
       io_Copy TLSObfs_Read sizes 0 [] ((NewTLSObfs cs server)\<lparr>to_firstResponse := first\<rparr>) = Some (None, rest)))"
proof -
  have new: "to_firstRequest (NewTLSObfs conn server)" "to_written (NewTLSObfs conn server) = []" "to_server (NewTLSObfs conn server) = server"
    by (simp_all add: NewTLSObfs_def)
  obtain ticket rs where w: "err = None" "0 < length ticket" "length ticket \<le> chunkSize"
    "to_written t = makeClientHelloMsg (od_random od) (od_sessionID od) (od_now od) ticket server @ concat (map enc_record rs)"
    "records_ok False rs" "ticket @ concat (map snd rs) = concat bs" "[] \<notin> snd ` set rs"
    using tls_first_writes [OF assms(1) new(1) assms(5)] assms(6) new(2,3) by auto
  have small: "212 + length ticket + length server < 2 ^ 16 - 5" using w(3) assms(4) by (simp add: chunkSize_def)
  have "to_written t = hello_record (hello_handshake (hello_body (put_be 4 (od_now od) @ od_random od) (od_sessionID od) obfs_suites [0]
      (obfs_extensions ticket server))) @ concat (map enc_record rs)"
    unfolding w(4) by (subst obfs_hello_enc) (use assms(2,3) small in simp_all)
  moreover have "extensions_ok server (obfs_extensions ticket server)" by (rule obfs_extensions_ok) (use small in simp_all)
  moreover have "distinct (map fst (obfs_extensions ticket server))" "(35, ticket) \<in> set (obfs_extensions ticket server)" by (simp_all add: obfs_extensions_def)
  moreover have "rs = [] \<longleftrightarrow> concat (map snd rs) = []" using w(7) by (cases rs) auto
  moreover have "io_Copy TLSObfs_Read sizes 0 [] ((NewTLSObfs cs server)\<lparr>to_firstResponse := first\<rparr>) = Some (None, concat (map snd rs))"
    if "rs \<noteq> []" "length hello = (if first then 102 else 0)" "concat cs = hello @ concat (map enc_record rs)" for hello cs first
    using records_read [OF w(5) that] assms(7) by blast
  ultimately show ?thesis using w(1,2,6)
    by (intro conjI exI [of _ ticket] exI [of _ "concat (map snd rs)"] exI [of _ "concat (map enc_record rs)"] exI [of _ "obfs_extensions ticket server"]) auto
qed

definition sample_obfs :: obfs_deps where
  "sample_obfs = \<lparr>od_random = replicate 28 7, od_sessionID = replicate 32 8, od_now = 9, od_writer = (\<lambda>msg. None)\<rparr>"

theorem tls_obfs_stream_intact_witness:
  "\<exists>ticket rest. ticket @ rest = [1, 2, 3, 4, 5] \<and> ticket \<noteq> [] \<and> fst (tls_writes sample_obfs [[1, 2, 3], [4, 5]] (NewTLSObfs [] [97])) = None"
proof -
  obtain err t where run: "tls_writes sample_obfs [[1, 2, 3], [4, 5]] (NewTLSObfs [] [97]) = (err, t)" by fastforce
  have "length (od_random sample_obfs) = 28" "length (od_sessionID sample_obfs) = 32" "length [97 :: u8] \<le> 2 ^ 15" "od_writer sample_obfs msg = None" for msg
    by (simp_all add: sample_obfs_def)
  note ok = this
  from tls_obfs_stream_intact [OF ok(4) ok(1-3) _ run, of "\<lambda>i. 2"] run show ?thesis by (auto simp del: tls_writes.simps)
qed

text \<open>C29. The hello of the obfuscation is a client hello: whatever data it carries, the parser of the sniffer and the search of the fragmenter
  find the configured server in it, and the sniffer finds the cipher suites.\<close>

theorem obfs_hello_parsed:
  assumes "length random = 28" "length sessionID = 32" "length data \<le> chunkSize" "length server \<le> 2 ^ 15"
  shows "\<exists>j sn. ja3_Compute (makeClientHelloMsg random sessionID now data server) = Inr j \<and>
    IndexTLSServerName (makeClientHelloMsg random sessionID now data server) = Some (Some sn) \<and>
    ch_ServerName j = server \<and> ch_CipherSuites j = read_pairs cipher_suites \<and> ch_Extensions j = [35, 0, 11, 10, 13, 22, 23] \<and> sn_ServerName sn = server"
proof -
  let ?h = "hello_handshake (hello_body (put_be 4 now @ random) sessionID obfs_suites [0] (obfs_extensions data server))"
  have small: "212 + length data + length server < 2 ^ 16 - 5" using assms(3,4) by (simp add: chunkSize_def)
  have eq: "makeClientHelloMsg random sessionID now data server = hello_record ?h" by (rule obfs_hello_enc) (use assms(1,2) small in simp_all)
  have "length ?h = 212 + length data + length server"
    using assms(1,2) by (simp add: hello_handshake_def hello_body_def length_hello_suites obfs_suites_enc obfs_lengths length_put_be)
  with small have "length ?h < 2 ^ 16 - 5" by simp
  moreover have "extensions_ok server (obfs_extensions data server)" by (rule obfs_extensions_ok) (use small in simp_all)
  moreover have "map fst (obfs_extensions data server) = [35, 0, 11, 10, 13, 22, 23]" "0 \<in> fst ` set (obfs_extensions data server)"
    by (simp_all add: obfs_extensions_def)
  ultimately show ?thesis
    using hello_found [of "put_be 4 now @ random" sessionID "[0]" server "obfs_extensions data server" obfs_suites] assms(1,2)
    unfolding eq obfs_suites_def [symmetric] by (auto simp: length_put_be)
qed

theorem obfs_hello_parsed_witness:
  "\<exists>j. ja3_Compute (makeClientHelloMsg (replicate 28 7) (replicate 32 8) 9 [1, 2, 3] [97, 46, 98]) = Inr j \<and> ch_ServerName j = [97, 46, 98]"
  using obfs_hello_parsed [of "replicate 28 7" "replicate 32 8" "[1, 2, 3]" "[97, 46, 98]" 9] by (auto simp: chunkSize_def)

section \<open>The HTTP connection\<close>

text \<open>A response whose header comes with the first read, or one after it.\<close>

definition http_gives :: "nat \<Rightarrow> HTTPObfs \<Rightarrow> bytes \<Rightarrow> bool" where
  "http_gives bufferSize h bs \<longleftrightarrow>
     (if ho_firstResponse h
      then ho_buf h = None \<and> (\<exists>header body cs. ho_conn h = (header @ header_end @ body) # cs \<and> length (header @ header_end @ body) \<le> bufferSize \<and>
        bytes_Index (header @ header_end @ body) header_end = Some (length header) \<and> bs = body @ concat cs)
      else bs = (case ho_buf h of None \<Rightarrow> [] | Some buf \<Rightarrow> buf) @ concat (ho_conn h) \<and> ho_buf h \<noteq> Some [])"

abbreviation http_steps :: "HTTPObfs \<Rightarrow> nat" where
  "http_steps h \<equiv> (if ho_firstResponse h then 1 else 0) + length (ho_conn h)"

lemma http_first_read:
  assumes "ho_firstResponse h" "http_gives bufferSize h bs"
  shows "\<exists>body cs h'. HTTPObfs_Read bufferSize k h = Some ((None, take k body), h') \<and> bs = body @ concat cs \<and>
    http_gives bufferSize h' (drop k body @ concat cs) \<and> http_steps h' < http_steps h"
proof -
  obtain header body cs where h: "ho_buf h = None" "ho_conn h = (header @ header_end @ body) # cs" "length (header @ header_end @ body) \<le> bufferSize"
    "bytes_Index (header @ header_end @ body) header_end = Some (length header)" "bs = body @ concat cs"
    using assms by (auto simp: http_gives_def)
  have "drop (length header + 4) (header @ header_end @ body) = body" by (simp add: header_end_def)
  with h assms(1) show ?thesis
    by (intro exI [of _ body] exI [of _ cs]) (simp add: HTTPObfs_Read_def http_gives_def Let_def)
qed

lemma http_later_read:
  assumes "\<not> ho_firstResponse h" "http_gives bufferSize h bs" "ho_buf h = Some buf" "0 < k"
  shows "\<exists>p h' rest. HTTPObfs_Read bufferSize k h = Some ((None, p), h') \<and> bs = p @ rest \<and> length p \<le> k \<and> p \<noteq> [] \<and> http_gives bufferSize h' rest"
proof -
  have "take k buf \<noteq> []" "bs = take k buf @ drop k buf @ concat (ho_conn h)" using assms by (auto simp: http_gives_def)
  with assms show ?thesis by (cases "length buf \<le> k") (auto simp: HTTPObfs_Read_def http_gives_def)
qed

interpretation http_obfs: io_reader "HTTPObfs_Read bufferSize" "http_gives bufferSize" http_steps for bufferSize
proof (unfold_locales, goal_cases)
  case (1 h bs k)
  show ?case
  proof (cases "ho_firstResponse h")
    case True
    from http_first_read [OF this 1(1), of k] obtain body cs h' where
      h: "HTTPObfs_Read bufferSize k h = Some ((None, take k body), h')" "bs = body @ concat cs" "http_gives bufferSize h' (drop k body @ concat cs)"
      "http_steps h' < http_steps h" by blast
    moreover have "bs = take k body @ drop k body @ concat cs" using h(2) by simp
    moreover have "length (take k body) \<le> k" by simp
    ultimately show ?thesis by blast
  next
    case False
    show ?thesis
    proof (cases "ho_buf h")
      case None
      with 1(1) False have "concat (ho_conn h) = bs" by (simp add: http_gives_def)
      from conn.reads [OF this 1(2,3)] None False show ?thesis
        by (fastforce simp: HTTPObfs_Read_def http_gives_def)
    next
      case (Some buf)
      from http_later_read [OF False 1(1) this 1(3)] show ?thesis by blast
    qed
  qed
next
  case (2 h k)
  show ?case
  proof (cases "ho_firstResponse h")
    case True
    from http_first_read [OF this 2(1), of k] show ?thesis by fastforce
  next
    case False
    with 2(1) have "ho_buf h = None" "concat (ho_conn h) = []" by (auto simp: http_gives_def split: option.splits)
    from conn.ends [OF this(2) 2(2)] this False show ?thesis by (fastforce simp: HTTPObfs_Read_def http_gives_def)
  qed
qed

text \<open>A response is read completely behind its header, if the header comes with the first read. If it does not, the connection ends.\<close>

lemma http_obfs_response:
  assumes "length (header @ header_end @ body) \<le> bufferSize"
    and "bytes_Index (header @ header_end @ body) header_end = Some (length header)" "\<And>i. 0 < sizes i"
  shows "io_Copy (HTTPObfs_Read bufferSize) sizes 0 [] (NewHTTPObfs ((header @ header_end @ body) # cs)) = Some (None, body @ concat cs)"
proof -
  have "http_gives bufferSize (NewHTTPObfs ((header @ header_end @ body) # cs)) (body @ concat cs)"
    using assms(1,2) by (auto simp: http_gives_def NewHTTPObfs_def)
  from http_obfs.Copy_returns [OF this, of sizes 0 "[]"] assms(3) show ?thesis by simp
qed

lemma http_split_header_ends:
  "bytes_Index (take bufferSize c) header_end = None \<Longrightarrow>
   \<exists>h'. HTTPObfs_Read bufferSize k (NewHTTPObfs (c # cs)) = Some ((Some io_EOF, []), h')"
  by (simp add: HTTPObfs_Read_def NewHTTPObfs_def)

end
