(* ===== verification/Trojan.thy ===== *)
theory Trojan
  imports Streams HelloProps Metadata
begin

text \<open>
  The Trojan protocol (\<^verbatim>\<open>transport/trojan\<close>): the client's handshake for streams and packets, packet framing, the users of the service
  and how the service takes a connection. The hash, the address serializer and the buffer functions belong to other modules: they are
  the fields of \<open>trojan_deps\<close>. Buffers have the room in front that \<^verbatim>\<open>FrontHeadroom\<close> announces. A connection is its segments and a
  function that writes; what was written is kept.
\<close>

section \<open>The functions of other packages\<close>

record trojan_deps =
  td_sha224 :: "bytes \<Rightarrow> bytes"
  td_WriteAddrPort :: "Socksaddr \<Rightarrow> bytes res"
  td_AddrPortLen :: "Socksaddr \<Rightarrow> nat"
  td_MaxSocksaddrLength :: nat
  td_ReadAddrPort :: "segments \<Rightarrow> Socksaddr res \<times> segments"
  td_ReadAddrPort_buffered :: "bufio_reader \<Rightarrow> Socksaddr res \<times> bufio_reader"
  td_SkipN :: "nat \<Rightarrow> segments \<Rightarrow> goerr option \<times> segments"
  td_ReadFullFrom :: "nat \<Rightarrow> nat \<Rightarrow> segments \<Rightarrow> bytes res \<times> segments"
  td_new_Len :: "nat \<Rightarrow> nat"
  td_writer :: "bytes \<Rightarrow> goerr option"

text \<open>A write: the error, and all that was written.\<close>

definition conn_Write :: "trojan_deps \<Rightarrow> bytes \<Rightarrow> bytes \<Rightarrow> goerr option \<times> bytes" where
  "conn_Write d p written = (case td_writer d p of Some err \<Rightarrow> (Some err, written) | None \<Rightarrow> (None, written @ p))"

section \<open>The client\<close>

definition KeyLength :: nat where "KeyLength = 56"
definition CommandTCP :: u8 where "CommandTCP = 1"
definition CommandUDP :: u8 where "CommandUDP = 3"
definition CommandMux :: u8 where "CommandMux = 0x7f"
definition CRLF :: bytes where "CRLF = [13, 10]"

definition hex_digit :: "u8 \<Rightarrow> u8" where
  "hex_digit n = (if n < 10 then 48 + n else 87 + n)"

definition hex_Encode :: "bytes \<Rightarrow> bytes" where
  "hex_Encode bs = concat (map (\<lambda>b. [hex_digit (drop_bit 4 b), hex_digit (b AND 0x0f)]) bs)"

definition Key :: "trojan_deps \<Rightarrow> bytes \<Rightarrow> bytes" where
  "Key d password = hex_Encode (td_sha224 d password)"

text \<open>Writes one after the other, until one fails.\<close>

fun write_parts :: "trojan_deps \<Rightarrow> bytes list \<Rightarrow> bytes \<Rightarrow> goerr option \<times> bytes" where
  "write_parts d [] written = (None, written)"
| "write_parts d (p # ps) written =
     (case conn_Write d p written of
        (Some err, written) \<Rightarrow> (Some err, written)
      | (None, written) \<Rightarrow> write_parts d ps written)"

definition ClientHandshakeRaw :: "trojan_deps \<Rightarrow> bytes \<Rightarrow> u8 \<Rightarrow> Socksaddr \<Rightarrow> bytes \<Rightarrow> bytes \<Rightarrow> goerr option \<times> bytes" where
  "ClientHandshakeRaw d key command destination payload written =
     (case write_parts d [key, CRLF, [command]] written of
        (Some err, written) \<Rightarrow> (Some err, written)
      | (None, written) \<Rightarrow>
          (case td_WriteAddrPort d destination of
             Inl err \<Rightarrow> (Some err, written)
           | Inr addr \<Rightarrow> write_parts d ([addr, CRLF] @ (if length payload > 0 then [payload] else [])) written))"

definition ClientHandshake :: "trojan_deps \<Rightarrow> bytes \<Rightarrow> Socksaddr \<Rightarrow> bytes \<Rightarrow> bytes \<Rightarrow> goerr option \<times> bytes" where
  "ClientHandshake d key destination payload written =
     (case td_WriteAddrPort d destination of
        Inl err \<Rightarrow> (Some err, written)
      | Inr addr \<Rightarrow>
          (case conn_Write d (key @ CRLF @ [CommandTCP] @ addr @ CRLF @ payload) written of
             (Some err, written) \<Rightarrow> (Some (ECause err [ArgS ''write request'']), written)
           | (None, written) \<Rightarrow> (None, written)))"

definition ClientHandshakeBuffer :: "trojan_deps \<Rightarrow> bytes \<Rightarrow> Socksaddr \<Rightarrow> bytes \<Rightarrow> bytes \<Rightarrow> goerr option \<times> bytes" where
  "ClientHandshakeBuffer d key destination payload written =
     (case td_WriteAddrPort d destination of
        Inl err \<Rightarrow> (Some err, written)
      | Inr addr \<Rightarrow>
          let header = key @ CRLF @ [CommandTCP] @ addr @ CRLF
          in case conn_Write d (header @ payload) written of
               (Some err, written) \<Rightarrow> (Some (ECause err [ArgS ''write request'']), written)
             | (None, written) \<Rightarrow> (None, written))"

text \<open>\<open>start\<close> is the room in front of the payload.\<close>

definition ClientHandshakePacket :: "trojan_deps \<Rightarrow> bytes \<Rightarrow> Socksaddr \<Rightarrow> nat \<Rightarrow> bytes \<Rightarrow> bytes \<Rightarrow> goerr option \<times> bytes" where
  "ClientHandshakePacket d key destination start payload written =
     (let headerLen = KeyLength + 2 * td_AddrPortLen d destination + 9; writeHeader = \<not> start \<ge> headerLen
      in case td_WriteAddrPort d destination of
           Inl err \<Rightarrow> (Some err, written)
         | Inr addr \<Rightarrow>
             let header = key @ CRLF @ [CommandUDP] @ addr @ CRLF @ addr @ enc16 (length payload) @ CRLF
             in case (if writeHeader then conn_Write d header written else (None, written)) of
                  (Some err, written) \<Rightarrow> (Some (ECause err [ArgS ''write request'']), written)
                | (None, written) \<Rightarrow>
                    (case conn_Write d (if writeHeader then payload else header @ payload) written of
                       (Some err, written) \<Rightarrow> (Some (ECause err [ArgS ''write payload'']), written)
                     | (None, written) \<Rightarrow> (None, written)))"

definition WritePacket :: "trojan_deps \<Rightarrow> bytes \<Rightarrow> Socksaddr \<Rightarrow> bytes \<Rightarrow> goerr option \<times> bytes" where
  "WritePacket d buffer destination written =
     (case td_WriteAddrPort d destination of
        Inl err \<Rightarrow> (Some err, written)
      | Inr addr \<Rightarrow>
          (case conn_Write d (addr @ enc16 (length buffer) @ CRLF @ buffer) written of
             (Some err, written) \<Rightarrow> (Some (ECause err [ArgS ''write packet'']), written)
           | (None, written) \<Rightarrow> (None, written)))"

text \<open>\<open>free\<close> is the space in the buffer. Reading on a connection always returns.\<close>

definition conn_read_n :: "nat \<Rightarrow> segments \<Rightarrow> bytes res \<times> segments" where
  "conn_read_n n cs =
     (case io_ReadFull conn_Read n cs of
        None \<Rightarrow> (Inl io_EOF, cs)
      | Some ((Some err, p), cs) \<Rightarrow> (Inl err, cs)
      | Some ((None, p), cs) \<Rightarrow> (Inr p, cs))"

definition ReadPacket :: "trojan_deps \<Rightarrow> nat \<Rightarrow> segments \<Rightarrow> (bytes \<times> Socksaddr) res \<times> segments" where
  "ReadPacket d free cs =
     (case td_ReadAddrPort d cs of
        (Inl err, cs) \<Rightarrow> (Inl (ECause err [ArgS ''read destination'']), cs)
      | (Inr destination, cs) \<Rightarrow>
          (case conn_read_n 2 cs of
             (Inl err, cs) \<Rightarrow> (Inl (ECause err [ArgS ''read chunk length'']), cs)
           | (Inr len, cs) \<Rightarrow>
               (case td_SkipN d 2 cs of
                  (Some err, cs) \<Rightarrow> (Inl (ECause err [ArgS ''skip crlf'']), cs)
                | (None, cs) \<Rightarrow>
                    (case td_ReadFullFrom d free (unat (be16 (len ! 0) (len ! 1))) cs of
                       (Inl err, cs) \<Rightarrow> (Inl err, cs)
                     | (Inr payload, cs) \<Rightarrow> (Inr (payload, destination), cs)))))"

record ClientConn =
  cc_key :: bytes
  cc_destination :: Socksaddr
  cc_headerWritten :: bool
  cc_written :: bytes

definition NewClientConn :: "bytes \<Rightarrow> Socksaddr \<Rightarrow> ClientConn" where
  "NewClientConn key destination = \<lparr>cc_key = key, cc_destination = destination, cc_headerWritten = False, cc_written = []\<rparr>"

definition ClientConn_Write :: "trojan_deps \<Rightarrow> bytes \<Rightarrow> ClientConn \<Rightarrow> (nat \<times> goerr option) \<times> ClientConn" where
  "ClientConn_Write d p c =
     (if cc_headerWritten c then
        (case conn_Write d p (cc_written c) of
           (Some err, w) \<Rightarrow> ((0, Some err), c\<lparr>cc_written := w\<rparr>)
         | (None, w) \<Rightarrow> ((length p, None), c\<lparr>cc_written := w\<rparr>))
      else
        (case ClientHandshake d (cc_key c) (cc_destination c) p (cc_written c) of
           (Some err, w) \<Rightarrow> ((0, Some err), c\<lparr>cc_written := w\<rparr>)
         | (None, w) \<Rightarrow> ((length p, None), c\<lparr>cc_written := w, cc_headerWritten := True\<rparr>)))"

definition ClientConn_WriteBuffer :: "trojan_deps \<Rightarrow> bytes \<Rightarrow> ClientConn \<Rightarrow> goerr option \<times> ClientConn" where
  "ClientConn_WriteBuffer d p c =
     (if cc_headerWritten c then
        (case conn_Write d p (cc_written c) of (err, w) \<Rightarrow> (err, c\<lparr>cc_written := w\<rparr>))
      else
        (case ClientHandshakeBuffer d (cc_key c) (cc_destination c) p (cc_written c) of
           (Some err, w) \<Rightarrow> (Some err, c\<lparr>cc_written := w\<rparr>)
         | (None, w) \<Rightarrow> (None, c\<lparr>cc_written := w, cc_headerWritten := True\<rparr>)))"

definition ClientConn_FrontHeadroom :: "trojan_deps \<Rightarrow> ClientConn \<Rightarrow> nat" where
  "ClientConn_FrontHeadroom d c = (if \<not> cc_headerWritten c then KeyLength + 5 + td_MaxSocksaddrLength d else 0)"

record ClientPacketConn =
  cp_key :: bytes
  cp_headerWritten :: bool
  cp_written :: bytes

definition NewClientPacketConn :: "bytes \<Rightarrow> ClientPacketConn" where
  "NewClientPacketConn key = \<lparr>cp_key = key, cp_headerWritten = False, cp_written = []\<rparr>"

definition ClientPacketConn_WritePacket ::
  "trojan_deps \<Rightarrow> nat \<Rightarrow> bytes \<Rightarrow> Socksaddr \<Rightarrow> ClientPacketConn \<Rightarrow> goerr option \<times> ClientPacketConn" where
  "ClientPacketConn_WritePacket d start buffer destination c =
     (if \<not> cp_headerWritten c then
        (case ClientHandshakePacket d (cp_key c) destination start buffer (cp_written c) of
           (err, w) \<Rightarrow> (err, c\<lparr>cp_written := w, cp_headerWritten := True\<rparr>))
      else (case WritePacket d buffer destination (cp_written c) of (err, w) \<Rightarrow> (err, c\<lparr>cp_written := w\<rparr>)))"

definition ClientPacketConn_FrontHeadroom :: "trojan_deps \<Rightarrow> ClientPacketConn \<Rightarrow> nat" where
  "ClientPacketConn_FrontHeadroom d c =
     (if \<not> cp_headerWritten c then KeyLength + 2 * td_MaxSocksaddrLength d + 9 else td_MaxSocksaddrLength d + 4)"

section \<open>The service\<close>

record 'k Service =
  sv_users :: "'k \<rightharpoonup> bytes"
  sv_keys :: "bytes \<rightharpoonup> 'k"
  sv_fallbackHandler :: bool

definition NewService :: "bool \<Rightarrow> 'k Service" where
  "NewService fallbackHandler = \<lparr>sv_users = Map.empty, sv_keys = Map.empty, sv_fallbackHandler = fallbackHandler\<rparr>"

definition ErrUserExists :: goerr where "ErrUserExists = ENew [ArgS ''user already exists'']"

text \<open>The loop over the users. A list of passwords that is too short makes it panic; the name of the other user in the error is left out.\<close>

fun add_users ::
  "trojan_deps \<Rightarrow> 'k list \<Rightarrow> bytes list \<Rightarrow> ('k \<rightharpoonup> bytes) \<times> (bytes \<rightharpoonup> 'k) \<Rightarrow> (('k \<rightharpoonup> bytes) \<times> (bytes \<rightharpoonup> 'k)) res" where
  "add_users d [] passwordList m = Inr m"
| "add_users d (user # userList) passwordList (users, keys) =
     (if users user \<noteq> None then Inl ErrUserExists
      else case passwordList of
        [] \<Rightarrow> Inl (GoPanic [ArgS ''index out of range''])
      | password # passwordList \<Rightarrow>
          let key = Key d password
          in if keys key \<noteq> None then Inl (EExtend ErrUserExists [ArgS ''password used by ''])
             else add_users d userList passwordList (users(user \<mapsto> key), keys(key \<mapsto> user)))"

definition UpdateUsers :: "trojan_deps \<Rightarrow> 'k list \<Rightarrow> bytes list \<Rightarrow> 'k Service \<Rightarrow> goerr option \<times> 'k Service" where
  "UpdateUsers d userList passwordList s =
     (case add_users d userList passwordList (Map.empty, Map.empty) of
        Inl err \<Rightarrow> (Some err, s)
      | Inr (users, keys) \<Rightarrow> (None, s\<lparr>sv_users := users, sv_keys := keys\<rparr>))"

text \<open>What the service does with a connection: hand it to the handler as a stream or as packets, with the user and the destination, take
  it for a multiplexed one, or pass it to the fallback handler.\<close>

datatype 'k handled =
    NewConnectionEx 'k Socksaddr segments
  | NewPacketConnectionEx 'k Socksaddr segments
  | HandleMuxConnection 'k segments
  | FallbackConnectionEx segments

definition Service_fallback :: "'k Service \<Rightarrow> segments \<Rightarrow> bytes \<Rightarrow> goerr \<Rightarrow> 'k handled res" where
  "Service_fallback s conn header err =
     (if \<not> sv_fallbackHandler s then Inl (EExtend err [ArgS ''fallback disabled''])
      else Inr (FallbackConnectionEx (header # conn)))"

definition service_request :: "trojan_deps \<Rightarrow> 'k \<Rightarrow> segments \<Rightarrow> 'k handled res" where
  "service_request d user cs =
     (case td_SkipN d 2 cs of
        (Some err, cs) \<Rightarrow> Inl (ECause err [ArgS ''skip crlf''])
      | (None, cs) \<Rightarrow>
          (case conn_read_n 1 cs of
             (Inl err, cs) \<Rightarrow> Inl (ECause err [ArgS ''read command''])
           | (Inr cmd, cs) \<Rightarrow>
               let command = hd cmd
               in if command \<notin> {CommandTCP, CommandUDP, CommandMux} then Inl (ENew [ArgS ''unknown command '', ArgI (uint command)])
                  else case td_ReadAddrPort d cs of
                    (Inl err, cs) \<Rightarrow> Inl (ECause err [ArgS ''read destination''])
                  | (Inr destination, cs) \<Rightarrow>
                      (case td_SkipN d 2 cs of
                         (Some err, cs) \<Rightarrow> Inl (ECause err [ArgS ''skip crlf''])
                       | (None, cs) \<Rightarrow>
                           Inr (if command = CommandTCP then NewConnectionEx user destination cs
                                else if command = CommandUDP then NewPacketConnectionEx user destination cs
                                else HandleMuxConnection user cs))))"

definition Service_NewConnection :: "trojan_deps \<Rightarrow> 'k Service \<Rightarrow> segments \<Rightarrow> 'k handled res" where
  "Service_NewConnection d s conn =
     (case conn_Read KeyLength conn of
        None \<Rightarrow> Inl io_EOF
      | Some ((Some err, key), cs) \<Rightarrow> Inl err
      | Some ((None, key), cs) \<Rightarrow>
          if length key \<noteq> KeyLength then Service_fallback s cs key (ENew [ArgS ''bad request size''])
          else case sv_keys s key of
            Some user \<Rightarrow> service_request d user cs
          | None \<Rightarrow> Service_fallback s cs key (ENew [ArgS ''bad request'']))"

text \<open>A stream of a multiplexed connection. \<open>td_new_Len\<close> is the length of a buffer that was just made with some capacity.\<close>

definition newMuxConnection0 :: "trojan_deps \<Rightarrow> 'k \<Rightarrow> segments \<Rightarrow> 'k handled res" where
  "newMuxConnection0 d user conn =
     (case bufio_ReadByte (bufio_NewReader conn) of
        (Inl err, r) \<Rightarrow> Inl (ECause err [ArgS ''read command''])
      | (Inr command, r) \<Rightarrow>
          (case td_ReadAddrPort_buffered d r of
             (Inl err, r) \<Rightarrow> Inl (ECause err [ArgS ''read destination''])
           | (Inr destination, r) \<Rightarrow>
               (case (if fst r \<noteq> [] then io_ReadFull bufio_Read (td_new_Len d (length (fst r))) r else Some ((None, []), r)) of
                  None \<Rightarrow> Inl io_EOF
                | Some ((Some err, p), r) \<Rightarrow> Inl err
                | Some ((None, buffer), r') \<Rightarrow>
                    let cs = (if fst r \<noteq> [] then buffer # snd r' else snd r')
                    in if command = CommandTCP then Inr (NewConnectionEx user destination cs)
                       else if command = CommandUDP then Inr (NewPacketConnectionEx user destination cs)
                       else Inl (ENew [ArgS ''unknown command '', ArgI (uint command)]))))"

end
