(* ===== verification/TrojanProps.thy ===== *)
theory TrojanProps
  imports Trojan
begin

text \<open>
  Properties of the Trojan protocol: a request of the client reaches the handler of the service with its user, destination and data; packets
  keep their boundaries, order and destinations; the fallback gets the whole stream; the users are a bijection; what the service of a
  multiplexed stream loses.
\<close>

section \<open>What is relied on\<close>

text \<open>The serializer reads the address that it wrote, from a connection and from a buffered reader on one; skipping and reading into a buffer
  with enough space take the bytes they are asked for.\<close>

definition address_ok :: "trojan_deps \<Rightarrow> Socksaddr \<Rightarrow> bool" where
  "address_ok d a \<longleftrightarrow> (\<exists>bs. td_WriteAddrPort d a = Inr bs \<and>
     (\<forall>cs rest. concat cs = bs @ rest \<longrightarrow> (\<exists>cs'. td_ReadAddrPort d cs = (Inr a, cs') \<and> concat cs' = rest)))"

definition reads_ok :: "trojan_deps \<Rightarrow> bool" where
  "reads_ok d \<longleftrightarrow>
     (\<forall>cs bs rest. concat cs = bs @ rest \<longrightarrow> (\<exists>cs'. td_SkipN d (length bs) cs = (None, cs') \<and> concat cs' = rest)) \<and>
     (\<forall>free cs bs rest. concat cs = bs @ rest \<longrightarrow> length bs \<le> free \<longrightarrow>
        (\<exists>cs'. td_ReadFullFrom d free (length bs) cs = (Inr bs, cs') \<and> concat cs' = rest))"

lemma address_okE:
  assumes "address_ok d a"
  obtains bs where "td_WriteAddrPort d a = Inr bs"
    "\<And>cs rest. concat cs = bs @ rest \<Longrightarrow> \<exists>cs'. td_ReadAddrPort d cs = (Inr a, cs') \<and> concat cs' = rest"
  using assms unfolding address_ok_def by blast

lemma SkipN_CRLF: "reads_ok d \<Longrightarrow> concat cs = CRLF @ rest \<Longrightarrow> \<exists>cs'. td_SkipN d 2 cs = (None, cs') \<and> concat cs' = rest"
  unfolding reads_ok_def by (metis CRLF_def length_Cons list.size(3) numeral_2_eq_2 One_nat_def)

lemma ReadFullFrom_bytes:
  "reads_ok d \<Longrightarrow> concat cs = bs @ rest \<Longrightarrow> length bs \<le> free \<Longrightarrow> \<exists>cs'. td_ReadFullFrom d free (length bs) cs = (Inr bs, cs') \<and> concat cs' = rest"
  unfolding reads_ok_def by blast

lemma conn_read_bytes: "concat cs = bs @ rest \<Longrightarrow> length bs = n \<Longrightarrow> \<exists>cs'. conn_read_n n cs = (Inr bs, cs') \<and> concat cs' = rest"
  using conn.ReadFull_returns [of cs bs rest n] by (auto simp: conn_read_n_def)

section \<open>Requests\<close>

text \<open>The service reads a request of the wire format: the key in the first read, then command and destination.\<close>

lemma service_request_reads:
  assumes "reads_ok d" "address_ok d a" "td_WriteAddrPort d a = Inr addr" "command \<in> {CommandTCP, CommandUDP, CommandMux}"
    and "concat cs = CRLF @ [command] @ addr @ CRLF @ rest"
  shows "\<exists>cs'. service_request d user cs =
      Inr (if command = CommandTCP then NewConnectionEx user a cs' else if command = CommandUDP then NewPacketConnectionEx user a cs' else HandleMuxConnection user cs') \<and>
    concat cs' = rest"
proof -
  obtain cs1 where cs1: "td_SkipN d 2 cs = (None, cs1)" "concat cs1 = [command] @ addr @ CRLF @ rest" using SkipN_CRLF [OF assms(1,5)] by blast
  obtain cs2 where cs2: "conn_read_n 1 cs1 = (Inr [command], cs2)" "concat cs2 = addr @ CRLF @ rest" using conn_read_bytes [OF cs1(2), of 1] by auto
  obtain cs3 where cs3: "td_ReadAddrPort d cs2 = (Inr a, cs3)" "concat cs3 = CRLF @ rest"
  proof -
    have "\<forall>cs rest. concat cs = addr @ rest \<longrightarrow> (\<exists>cs'. td_ReadAddrPort d cs = (Inr a, cs') \<and> concat cs' = rest)"
      using assms(2,3) by (auto simp: address_ok_def)
    with cs2(2) that show thesis by blast
  qed
  obtain cs4 where cs4: "td_SkipN d 2 cs3 = (None, cs4)" "concat cs4 = rest" using SkipN_CRLF [OF assms(1) cs3(2)] by blast
  from assms(4) show ?thesis by (simp add: service_request_def cs1(1) cs2(1) [unfolded One_nat_def] cs3(1) cs4)
qed

lemma service_first_read:
  assumes "conn = c # cs" "KeyLength \<le> length c" "concat conn = key @ rest" "length key = KeyLength" "sv_keys s key = Some user"
  shows "\<exists>cs'. Service_NewConnection d s conn = service_request d user cs' \<and> concat cs' = rest"
proof -
  have "take KeyLength (c @ concat cs) = take KeyLength (key @ rest)" "drop KeyLength (c @ concat cs) = drop KeyLength (key @ rest)"
    using assms(1,3) by simp_all
  then have c: "take KeyLength c = key" "drop KeyLength c @ concat cs = rest" using assms(2,4) by simp_all
  show ?thesis
  proof (cases "length c \<le> KeyLength")
    case True
    then have "Service_NewConnection d s conn = service_request d user cs" "concat cs = rest"
      using assms c by (simp_all add: Service_NewConnection_def)
    then show ?thesis by blast
  next
    case False
    then have "Service_NewConnection d s conn = service_request d user (drop KeyLength c # cs)"
      using assms c(1) by (simp add: Service_NewConnection_def)
    with c(2) show ?thesis by (metis concat.simps(2))
  qed
qed

text \<open>A successful update makes users and keys inverse to each other.\<close>

definition users_wf :: "('k \<rightharpoonup> bytes) \<Rightarrow> (bytes \<rightharpoonup> 'k) \<Rightarrow> bool" where
  "users_wf users keys \<longleftrightarrow> (\<forall>user key. users user = Some key \<longleftrightarrow> keys key = Some user)"

lemma add_users_wf: "add_users d us ps (users, keys) = Inr (users', keys') \<Longrightarrow> users_wf users keys \<Longrightarrow> users_wf users' keys'"
proof (induction us arbitrary: ps users keys)
  case (Cons u us)
  then obtain p ps' where ps: "ps = p # ps'" "users u = None" "keys (Key d p) = None"
    by (auto split: if_splits list.splits simp: Let_def)
  with Cons.prems(1) have "add_users d us ps' (users(u \<mapsto> Key d p), keys(Key d p \<mapsto> u)) = Inr (users', keys')" by (simp add: Let_def)
  moreover have "users_wf (users(u \<mapsto> Key d p)) (keys(Key d p \<mapsto> u))"
  proof -
    have w: "users user = Some key \<longleftrightarrow> keys key = Some user" for user key using Cons.prems(2) by (simp add: users_wf_def)
    have "users user \<noteq> Some (Key d p)" "keys key \<noteq> Some u" for user key using w ps(2,3) by (metis option.distinct(1))+
    then show ?thesis using w by (auto simp: users_wf_def)
  qed
  ultimately show ?case by (rule Cons.IH)
qed simp

lemma add_users_fresh: "add_users d us ps (users, keys) = Inr m \<Longrightarrow> u \<in> set us \<Longrightarrow> users u = None"
proof (induction us arbitrary: ps users keys)
  case (Cons u' us)
  then obtain p ps' where ps: "ps = p # ps'" "users u' = None" "keys (Key d p) = None"
    by (auto split: if_splits list.splits simp: Let_def)
  with Cons.prems(1) have "add_users d us ps' (users(u' \<mapsto> Key d p), keys(Key d p \<mapsto> u')) = Inr m" by (simp add: Let_def)
  with Cons.IH [OF this] Cons.prems(2) ps(2) show ?case by (auto split: if_splits)
qed simp

lemma add_users_distinct: "add_users d us ps (users, keys) = Inr m \<Longrightarrow> distinct us"
proof (induction us arbitrary: ps users keys)
  case (Cons u us)
  then obtain p ps' where "ps = p # ps'" "users u = None" "keys (Key d p) = None"
    by (auto split: if_splits list.splits simp: Let_def)
  with Cons.prems have add: "add_users d us ps' (users(u \<mapsto> Key d p), keys(Key d p \<mapsto> u)) = Inr m" by (simp add: Let_def)
  from Cons.IH [OF this] add_users_fresh [OF add, of u] show ?case by auto
qed simp

lemma length_hex_Encode: "length (hex_Encode bs) = 2 * length bs"
  by (induction bs) (auto simp: hex_Encode_def)

lemma length_Key: "(\<And>p. length (td_sha224 d p) = 28) \<Longrightarrow> length (Key d p) = KeyLength"
  by (simp add: Key_def length_hex_Encode KeyLength_def)

lemma add_users_entries:
  "add_users d us ps (users, keys) = Inr (users', keys') \<Longrightarrow>
   length us \<le> length ps \<and> (\<forall>u. users' u = (if u \<in> set us then map_of (zip us (map (Key d) ps)) u else users u))"
proof (induction us arbitrary: ps users keys)
  case (Cons u us)
  then obtain p ps' where ps: "ps = p # ps'" "users u = None" "keys (Key d p) = None"
    by (auto split: if_splits list.splits simp: Let_def)
  with Cons.prems have "add_users d us ps' (users(u \<mapsto> Key d p), keys(Key d p \<mapsto> u)) = Inr (users', keys')" by (simp add: Let_def)
  moreover from add_users_fresh [OF this, of u] have "u \<notin> set us" by auto
  ultimately show ?case using Cons.IH ps(1) by fastforce
qed simp

lemma UpdateUsers_entries:
  assumes "UpdateUsers d us ps s0 = (None, s)"
  shows "users_wf (sv_users s) (sv_keys s)" "distinct us" "length us \<le> length ps" "dom (sv_users s) = set us"
    "i < length us \<Longrightarrow> sv_users s (us ! i) = Some (Key d (ps ! i))"
proof -
  from assms obtain users keys where add: "add_users d us ps (Map.empty, Map.empty) = Inr (users, keys)"
    and s: "sv_users s = users" "sv_keys s = keys" by (auto simp: UpdateUsers_def split: sum.splits)
  have "users_wf Map.empty Map.empty" by (simp add: users_wf_def)
  with add show "users_wf (sv_users s) (sv_keys s)" unfolding s by (rule add_users_wf)
  note entries = add_users_entries [OF add]
  show dist: "distinct us" by (rule add_users_distinct [OF add])
  show "length us \<le> length ps" using entries by blast
  have nth: "sv_users s (us ! i) = Some (Key d (ps ! i))" if "i < length us" for i
  proof -
    have "map_of (zip us (map (Key d) ps)) (us ! i) = Some (Key d (ps ! i))"
      using that entries dist by (intro map_of_is_SomeI) (auto simp: map_fst_zip_take in_set_zip intro!: exI [of _ i])
    then show ?thesis using entries that by (simp add: s)
  qed
  then show "i < length us \<Longrightarrow> sv_users s (us ! i) = Some (Key d (ps ! i))" .
  show "dom (sv_users s) = set us"
  proof
    show "dom (sv_users s) \<subseteq> set us" using entries by (auto simp: s split: if_splits)
    show "set us \<subseteq> dom (sv_users s)" using nth by (metis domI in_set_conv_nth subsetI)
  qed
qed

text \<open>The key of a registered user leads to the user.\<close>

lemma registered:
  assumes "UpdateUsers d us ps s0 = (None, s)" "i < length us"
  shows "sv_keys s (Key d (ps ! i)) = Some (us ! i)"
  using UpdateUsers_entries(1,5) [OF assms(1)] assms(2) by (simp add: users_wf_def)

text \<open>C17. A Trojan request arrives: the first write of a client with the password of a registered user, sent with any further bytes and cut into
  segments in any way after the key, is handed to the handler as a connection of that user to the destination, and the handler's stream
  is exactly the data.\<close>

theorem trojan_request_arrives:
  assumes "UpdateUsers d us ps s0 = (None, s)" "i < length us" "\<And>p. length (td_sha224 d p) = 28"
    and "reads_ok d" "address_ok d a" "\<And>p. td_writer d p = None"
    and "ClientConn_Write d p (NewClientConn (Key d (ps ! i)) a) = (r, c)" "ClientConn_Write d q c = (r', c')"
    and "concat (g # conn) = cc_written c' @ later" "KeyLength \<le> length g"
  shows "r = (length p, None) \<and> r' = (length q, None) \<and>
    (\<exists>cs. Service_NewConnection d s (g # conn) = Inr (NewConnectionEx (us ! i) a cs) \<and> concat cs = p @ q @ later)"
proof -
  obtain addr where addr: "td_WriteAddrPort d a = Inr addr" using assms(5) by (auto elim: address_okE)
  let ?key = "Key d (ps ! i)"
  have w: "conn_Write d x y = (None, y @ x)" for x y using assms(6) by (simp add: conn_Write_def)
  have c: "r = (length p, None)" "r' = (length q, None)" "cc_written c' = ?key @ CRLF @ [CommandTCP] @ addr @ CRLF @ p @ q"
    using assms(7,8) by (auto simp: ClientConn_Write_def NewClientConn_def ClientHandshake_def addr w)
  have "concat (g # conn) = ?key @ CRLF @ [CommandTCP] @ addr @ CRLF @ (p @ q @ later)" using assms(9) c(3) by simp
  then obtain cs where cs: "Service_NewConnection d s (g # conn) = service_request d (us ! i) cs" "concat cs = CRLF @ [CommandTCP] @ addr @ CRLF @ (p @ q @ later)"
    using service_first_read [OF refl assms(10), of _ ?key] length_Key [OF assms(3)] registered [OF assms(1,2)] by metis
  from service_request_reads [OF assms(4,5) addr _ cs(2), of "us ! i"] cs(1) c(1,2) show ?thesis by auto
qed

section \<open>Packets\<close>

fun write_packets :: "trojan_deps \<Rightarrow> (nat \<times> bytes \<times> Socksaddr) list \<Rightarrow> ClientPacketConn \<Rightarrow> goerr option \<times> ClientPacketConn" where
  "write_packets d [] c = (None, c)"
| "write_packets d ((start, p, a) # ps) c =
     (case ClientPacketConn_WritePacket d start p a c of
        (Some err, c) \<Rightarrow> (Some err, c)
      | (None, c) \<Rightarrow> write_packets d ps c)"

fun read_packets :: "trojan_deps \<Rightarrow> nat \<Rightarrow> nat \<Rightarrow> segments \<Rightarrow> (bytes \<times> Socksaddr) list res" where
  "read_packets d free 0 cs = Inr []"
| "read_packets d free (Suc n) cs =
     (case ReadPacket d free cs of
        (Inl err, cs) \<Rightarrow> Inl err
      | (Inr p, cs) \<Rightarrow> (case read_packets d free n cs of Inl err \<Rightarrow> Inl err | Inr ps \<Rightarrow> Inr (p # ps)))"

definition enc_packet :: "trojan_deps \<Rightarrow> bytes \<times> Socksaddr \<Rightarrow> bytes" where
  "enc_packet d p = (case td_WriteAddrPort d (snd p) of Inl err \<Rightarrow> [] | Inr addr \<Rightarrow> addr @ enc16 (length (fst p)) @ CRLF @ fst p)"

lemma ReadPacket_enc:
  assumes "reads_ok d" "address_ok d a" "length p < 2 ^ 16" "length p \<le> free" "concat cs = enc_packet d (p, a) @ rest"
  shows "\<exists>cs'. ReadPacket d free cs = (Inr (p, a), cs') \<and> concat cs' = rest"
proof -
  obtain addr where addr: "td_WriteAddrPort d a = Inr addr"
    "\<And>cs rest. concat cs = addr @ rest \<Longrightarrow> \<exists>cs'. td_ReadAddrPort d cs = (Inr a, cs') \<and> concat cs' = rest"
    using assms(2) by (auto elim: address_okE)
  have cs: "concat cs = addr @ enc16 (length p) @ CRLF @ p @ rest" using assms(5) addr(1) by (simp add: enc_packet_def)
  obtain cs1 where cs1: "td_ReadAddrPort d cs = (Inr a, cs1)" "concat cs1 = enc16 (length p) @ CRLF @ p @ rest" using addr(2) [OF cs] by blast
  obtain cs2 where cs2: "conn_read_n 2 cs1 = (Inr (enc16 (length p)), cs2)" "concat cs2 = CRLF @ p @ rest" using conn_read_bytes [OF cs1(2), of 2] by auto
  obtain cs3 where cs3: "td_SkipN d 2 cs2 = (None, cs3)" "concat cs3 = p @ rest" using SkipN_CRLF [OF assms(1) cs2(2)] by blast
  obtain cs4 where cs4: "td_ReadFullFrom d free (length p) cs3 = (Inr p, cs4)" "concat cs4 = rest" using ReadFullFrom_bytes [OF assms(1) cs3(2) assms(4)] by blast
  have "unat (be16 (enc16 (length p) ! 0) (enc16 (length p) ! 1)) = length p" using assms(3) by (simp add: put_be_2 be16_put unat_u16)
  then show ?thesis unfolding ReadPacket_def cs1(1) prod.case sum.case cs2(1) cs3(1) option.case using cs4 by simp
qed

lemma read_packets_enc:
  assumes "reads_ok d" "\<forall>(p, a)\<in>set ps. address_ok d a \<and> length p < 2 ^ 16 \<and> length p \<le> free"
  shows "concat cs = concat (map (enc_packet d) ps) @ rest \<Longrightarrow> read_packets d free (length ps) cs = Inr ps"
  using assms(2)
proof (induction ps arbitrary: cs)
  case (Cons p ps)
  obtain b a where p: "p = (b, a)" by (cases p)
  from ReadPacket_enc [OF assms(1), of a b free cs "concat (map (enc_packet d) ps) @ rest"] Cons.prems p obtain cs' where
    "ReadPacket d free cs = (Inr p, cs')" "concat cs' = concat (map (enc_packet d) ps) @ rest" by auto
  with Cons.IH [of cs'] Cons.prems(2) show ?case by simp
qed simp

lemma write_packets_enc:
  assumes "\<And>p. td_writer d p = None" "\<forall>(start, p, a)\<in>set ps. address_ok d a"
  shows "cp_headerWritten c \<Longrightarrow> write_packets d ps c = (None, c\<lparr>cp_written := cp_written c @ concat (map (enc_packet d) (map snd ps))\<rparr>)"
  using assms(2)
proof (induction ps arbitrary: c)
  case (Cons x ps)
  obtain start p a where x: "x = (start, p, a)" by (cases x)
  with Cons.prems(2) obtain addr where addr: "td_WriteAddrPort d a = Inr addr" by (auto elim: address_okE)
  have w: "conn_Write d x y = (None, y @ x)" for x y using assms(1) by (simp add: conn_Write_def)
  have "ClientPacketConn_WritePacket d start p a c = (None, c\<lparr>cp_written := cp_written c @ enc_packet d (p, a)\<rparr>)"
    using Cons.prems(1) addr by (simp add: ClientPacketConn_WritePacket_def WritePacket_def enc_packet_def w)
  with Cons.IH [of "c\<lparr>cp_written := cp_written c @ enc_packet d (p, a)\<rparr>"] Cons.prems x show ?case by simp
qed simp

text \<open>C18. Packets arrive as they were sent: the packets that a client writes, the first of them with the handshake in one or two writes, are
  taken by the service as a packet connection of the user to the first destination, and reading from it gives the packets with their
  destinations, in order and with their boundaries.\<close>

theorem trojan_packets_arrive:
  assumes "UpdateUsers d us ps s0 = (None, s)" "i < length us" "\<And>p. length (td_sha224 d p) = 28"
    and "reads_ok d" "\<And>p. td_writer d p = None"
    and "\<forall>(start, p, a)\<in>set ((start, p, a) # packets). address_ok d a \<and> length p < 2 ^ 16 \<and> length p \<le> free"
    and "write_packets d ((start, p, a) # packets) (NewClientPacketConn (Key d (ps ! i))) = (err, c)"
    and "concat (g # conn) = cp_written c" "KeyLength \<le> length g"
  shows "err = None \<and> (\<exists>cs. Service_NewConnection d s (g # conn) = Inr (NewPacketConnectionEx (us ! i) a cs) \<and>
    read_packets d free (Suc (length packets)) cs = Inr ((p, a) # map snd packets))"
proof -
  have a: "address_ok d a" using assms(6) by simp
  then obtain addr where addr: "td_WriteAddrPort d a = Inr addr" by (auto elim: address_okE)
  let ?key = "Key d (ps ! i)" and ?packets = "(p, a) # map snd packets"
  have w: "conn_Write d x y = (None, y @ x)" for x y using assms(5) by (simp add: conn_Write_def)
  have "ClientPacketConn_WritePacket d start p a (NewClientPacketConn ?key) =
      (None, \<lparr>cp_key = ?key, cp_headerWritten = True, cp_written = ?key @ CRLF @ [CommandUDP] @ addr @ CRLF @ enc_packet d (p, a)\<rparr>)"
    using addr by (simp add: ClientPacketConn_WritePacket_def NewClientPacketConn_def ClientHandshakePacket_def enc_packet_def w Let_def)
  moreover have "\<forall>(start, p, a)\<in>set packets. address_ok d a" using assms(6) by auto
  ultimately have c: "err = None" "cp_written c = ?key @ CRLF @ [CommandUDP] @ addr @ CRLF @ concat (map (enc_packet d) ?packets)"
    using write_packets_enc [OF assms(5), of packets] assms(7) by auto
  then obtain cs where cs: "Service_NewConnection d s (g # conn) = service_request d (us ! i) cs"
      "concat cs = CRLF @ [CommandUDP] @ addr @ CRLF @ concat (map (enc_packet d) ?packets)"
    using service_first_read [OF refl assms(9), of _ ?key] length_Key [OF assms(3)] registered [OF assms(1,2)] assms(8) by metis
  from service_request_reads [OF assms(4) a addr _ cs(2), of "us ! i"] obtain cs' where
    cs': "service_request d (us ! i) cs = Inr (NewPacketConnectionEx (us ! i) a cs')" "concat cs' = concat (map (enc_packet d) ?packets)"
    by (auto simp: CommandTCP_def CommandUDP_def)
  have "read_packets d free (length ?packets) cs' = Inr ?packets"
    by (rule read_packets_enc [OF assms(4), of _ _ _ "[]"]) (use assms(6) cs'(2) in auto)
  with cs(1) cs'(1) c(1) show ?thesis by simp
qed

section \<open>The fallback\<close>

text \<open>C31. The fallback handler gets the connection of a stranger as it came: with a key that is not registered, or fewer bytes than a key in
  the first read, the stream that is passed on has all bytes of the client, in order.\<close>

theorem trojan_fallback_transparent:
  assumes "sv_fallbackHandler s" "conn \<noteq> []" "length (hd conn) < KeyLength \<or> sv_keys s (take KeyLength (hd conn)) = None"
  shows "\<exists>cs. Service_NewConnection d s conn = Inr (FallbackConnectionEx cs) \<and> concat cs = concat conn"
proof -
  obtain c conn' where conn: "conn = c # conn'" using assms(2) by (cases conn) auto
  from assms show ?thesis
    by (cases "length c \<le> KeyLength") (auto simp: conn Service_NewConnection_def Service_fallback_def)
qed

section \<open>Witnesses\<close>

text \<open>A serializer for IPv4 addresses in the format of SOCKS.\<close>

definition sample_write :: "Socksaddr \<Rightarrow> bytes res" where
  "sample_write a = (case sa_Addr a of Addr4 ip \<Rightarrow> Inr ([1] @ put_be 4 ip @ put_be 2 (sa_Port a)) | _ \<Rightarrow> Inl EInvalid)"

definition sample_read :: "segments \<Rightarrow> Socksaddr res \<times> segments" where
  "sample_read cs =
     (case conn_read_n 7 cs of
        (Inl err, cs) \<Rightarrow> (Inl err, cs)
      | (Inr bs, cs) \<Rightarrow> (Inr \<lparr>sa_Addr = Addr4 (get_be 0 (take 4 (drop 1 bs))), sa_Port = get_be 0 (drop 5 bs), sa_Fqdn = []\<rparr>, cs))"

definition sample_trojan :: trojan_deps where
  "sample_trojan =
     \<lparr>td_sha224 = (\<lambda>p. take 28 (p @ replicate 28 0)), td_WriteAddrPort = sample_write, td_AddrPortLen = (\<lambda>a. 7), td_MaxSocksaddrLength = 259,
      td_ReadAddrPort = sample_read,
      td_ReadAddrPort_buffered = (\<lambda>r. (Inr \<lparr>sa_Addr = Addr4 0x01020304, sa_Port = 443, sa_Fqdn = []\<rparr>, drop 7 (fst r), snd r)),
      td_SkipN = (\<lambda>n cs. case conn_read_n n cs of (Inl err, cs) \<Rightarrow> (Some err, cs) | (Inr p, cs) \<Rightarrow> (None, cs)),
      td_ReadFullFrom = (\<lambda>free n cs. if free < n then (Inl (EExternal ''short buffer''), cs) else conn_read_n n cs),
      td_new_Len = (\<lambda>n. 0), td_writer = (\<lambda>p. None)\<rparr>"

definition sample_destination :: Socksaddr where
  "sample_destination = \<lparr>sa_Addr = Addr4 0x01020304, sa_Port = 443, sa_Fqdn = []\<rparr>"

lemma sample_trojan_laws: "reads_ok sample_trojan" "address_ok sample_trojan sample_destination"
  "length (td_sha224 sample_trojan p) = 28" "td_writer sample_trojan p = None"
proof -
  show "reads_ok sample_trojan"
    unfolding reads_ok_def using conn_read_bytes by (fastforce simp: sample_trojan_def)
  have "\<exists>cs'. sample_read cs = (Inr sample_destination, cs') \<and> concat cs' = rest" if "concat cs = [1, 1, 2, 3, 4, 1, 187] @ rest" for cs rest
    using conn_read_bytes [OF that, of 7] by (auto simp: sample_read_def sample_destination_def)
  moreover have "sample_write sample_destination = Inr [1, 1, 2, 3, 4, 1, 187]" by code_simp
  ultimately show "address_ok sample_trojan sample_destination" by (simp add: address_ok_def sample_trojan_def)
qed (simp_all add: sample_trojan_def)

lemma sample_users: "\<exists>s. UpdateUsers sample_trojan [0 :: nat, 1] [[97], [98]] (NewService True) = (None, s)"
proof -
  have "Key sample_trojan [97] \<noteq> Key sample_trojan [98]" by code_simp
  then show ?thesis by (simp add: UpdateUsers_def NewService_def Let_def)
qed

abbreviation sample_service :: "nat Service" where
  "sample_service \<equiv> snd (UpdateUsers sample_trojan [0, 1] [[97], [98]] (NewService True))"

lemma sample_service: "UpdateUsers sample_trojan [0 :: nat, 1] [[97], [98]] (NewService True) = (None, sample_service)"
  using sample_users by auto

lemma sample_key_length: "length (Key sample_trojan p) = KeyLength"
  by (rule length_Key) (rule sample_trojan_laws)

theorem trojan_request_arrives_witness:
  "\<exists>cs. Service_NewConnection sample_trojan sample_service
      [Key sample_trojan [98] @ [13], [10, 1, 1, 1], [2, 3, 4, 1, 187, 13, 10, 5], [6, 7, 8]] = Inr (NewConnectionEx 1 sample_destination cs) \<and>
    concat cs = [5, 6, 7, 8]"
proof -
  have addr: "td_WriteAddrPort sample_trojan sample_destination = Inr [1, 1, 2, 3, 4, 1, 187]" by code_simp
  obtain r c where c: "ClientConn_Write sample_trojan [5, 6] (NewClientConn (Key sample_trojan ([[97], [98]] ! 1)) sample_destination) = (r, c)" by fastforce
  obtain r' c' where c': "ClientConn_Write sample_trojan [7] c = (r', c')" by fastforce
  have w: "conn_Write sample_trojan x y = (None, y @ x)" for x y by (simp add: conn_Write_def sample_trojan_laws)
  have "cc_written c' = Key sample_trojan [98] @ [13, 10, 1, 1, 1, 2, 3, 4, 1, 187, 13, 10, 5, 6, 7]"
    using c c' by (auto simp: ClientConn_Write_def NewClientConn_def ClientHandshake_def addr w CRLF_def CommandTCP_def)
  with trojan_request_arrives [OF sample_service _ sample_trojan_laws(3,1,2,4) c c', of "Key sample_trojan [98] @ [13]"
      "[[10, 1, 1, 1], [2, 3, 4, 1, 187, 13, 10, 5], [6, 7, 8]]" "[8]"]
  show ?thesis by (simp add: sample_key_length)
qed

theorem trojan_packets_arrive_witness:
  "\<exists>cs. Service_NewConnection sample_trojan sample_service
      [Key sample_trojan [98] @ [13, 10, 3, 1, 1, 2, 3, 4, 1, 187, 13, 10, 1, 1, 2, 3], [4, 1, 187, 0, 2, 13, 10, 5, 6, 1, 1, 2], [3, 4, 1, 187, 0, 0, 13, 10]] =
      Inr (NewPacketConnectionEx 1 sample_destination cs) \<and>
    read_packets sample_trojan 64 (Suc (Suc 0)) cs = Inr [([5, 6], sample_destination), ([], sample_destination)]"
proof -
  have addr: "td_WriteAddrPort sample_trojan sample_destination = Inr [1, 1, 2, 3, 4, 1, 187]" by code_simp
  let ?c = "NewClientPacketConn (Key sample_trojan ([[97], [98]] ! 1))"
  obtain err c where c: "write_packets sample_trojan ((0, [5, 6], sample_destination) # [(100, [], sample_destination)]) ?c = (err, c)" by fastforce
  have w: "conn_Write sample_trojan x y = (None, y @ x)" for x y by (simp add: conn_Write_def sample_trojan_laws)
  have two: "put_be 2 (2 :: u16) = [0, 2]" "put_be 2 (0 :: u16) = [0, 0]" by code_simp+
  have "cp_written c = Key sample_trojan [98] @ [13, 10, 3, 1, 1, 2, 3, 4, 1, 187, 13, 10, 1, 1, 2, 3, 4, 1, 187, 0, 2, 13, 10, 5, 6, 1, 1, 2, 3, 4, 1, 187, 0, 0, 13, 10]"
    using c by (auto simp: ClientPacketConn_WritePacket_def NewClientPacketConn_def ClientHandshakePacket_def WritePacket_def addr w CRLF_def
      CommandUDP_def Let_def two simp del: put_be.simps)
  with trojan_packets_arrive [OF sample_service _ sample_trojan_laws(3,1,4) _ c, of 64 "Key sample_trojan [98] @ [13, 10, 3, 1, 1, 2, 3, 4, 1, 187, 13, 10, 1, 1, 2, 3]"
      "[[4, 1, 187, 0, 2, 13, 10, 5, 6, 1, 1, 2], [3, 4, 1, 187, 0, 0, 13, 10]]"]
  show ?thesis by (simp add: sample_key_length sample_trojan_laws del: read_packets.simps)
qed

theorem trojan_fallback_transparent_witness:
  "\<exists>cs. Service_NewConnection sample_trojan (NewService True :: nat Service) [[71, 69, 84], [32, 47]] = Inr (FallbackConnectionEx cs) \<and> concat cs = [71, 69, 84, 32, 47]"
  using trojan_fallback_transparent [of "NewService True :: nat Service" "[[71, 69, 84], [32, 47]]" sample_trojan]
  by (simp add: NewService_def KeyLength_def)

section \<open>Users\<close>

lemma add_users_succeeds:
  "(\<exists>m. add_users d us ps (users, keys) = Inr m) \<longleftrightarrow>
     distinct us \<and> length us \<le> length ps \<and> distinct (map (Key d) (take (length us) ps)) \<and>
     (\<forall>u\<in>set us. users u = None) \<and> (\<forall>p\<in>set (take (length us) ps). keys (Key d p) = None)"
proof (induction us arbitrary: ps users keys)
  case (Cons u us)
  note IH = Cons.IH
  show ?case
  proof (cases ps)
    case (Cons p ps')
    have "(\<exists>m. add_users d (u # us) ps (users, keys) = Inr m) \<longleftrightarrow> users u = None \<and> keys (Key d p) = None \<and>
        (\<exists>m. add_users d us ps' (users(u \<mapsto> Key d p), keys(Key d p \<mapsto> u)) = Inr m)"
      unfolding Cons by (simp add: Let_def)
    then show ?thesis unfolding IH Cons by (auto split: if_splits simp: image_iff)
  qed simp
qed simp

text \<open>C32. The users of a service: an update succeeds exactly if no user and no key occurs twice and every user has a password; then users and
  keys are inverse to each other and hold the given passwords; an update that fails changes nothing.\<close>

theorem trojan_users:
  "(fst (UpdateUsers d us ps s) = None \<longleftrightarrow> distinct us \<and> length us \<le> length ps \<and> distinct (map (Key d) (take (length us) ps))) \<and>
   (case UpdateUsers d us ps s of
      (Some err, s') \<Rightarrow> s' = s
    | (None, s') \<Rightarrow> (\<forall>user key. sv_users s' user = Some key \<longleftrightarrow> sv_keys s' key = Some user) \<and> dom (sv_users s') = set us \<and>
        list_all (\<lambda>i. sv_users s' (us ! i) = Some (Key d (ps ! i))) [0..<length us])"
proof -
  have "fst (UpdateUsers d us ps s) = None \<longleftrightarrow> (\<exists>m. add_users d us ps (Map.empty, Map.empty) = Inr m)"
    by (auto simp: UpdateUsers_def split: sum.splits)
  then have ok: "fst (UpdateUsers d us ps s) = None \<longleftrightarrow> distinct us \<and> length us \<le> length ps \<and> distinct (map (Key d) (take (length us) ps))"
    by (simp only: add_users_succeeds) simp
  show ?thesis
  proof (cases "UpdateUsers d us ps s")
    case (Pair err s')
    show ?thesis
    proof (cases err)
      case None
      with Pair UpdateUsers_entries [of d us ps s s'] ok show ?thesis by (simp add: users_wf_def list_all_iff)
    next
      case (Some e)
      with Pair ok show ?thesis by (auto simp: UpdateUsers_def split: sum.splits)
    qed
  qed
qed

section \<open>Multiplexed streams\<close>

text \<open>The length of a buffer that was just made is 0, so the service of a multiplexed stream reads none of the bytes that came with the
  header: they are missing from the stream of the handler.\<close>

lemma mux_loses_buffered:
  assumes "bufio_ReadByte (bufio_NewReader conn) = (Inr CommandTCP, r)" "td_ReadAddrPort_buffered d r = (Inr a, buffered, cs)" "\<And>n. td_new_Len d n = 0"
  shows "\<exists>cs'. newMuxConnection0 d user conn = Inr (NewConnectionEx user a cs') \<and> concat cs' = concat cs"
  using assms by (auto simp: newMuxConnection0_def io_ReadFull_def read_missing.simps)

lemma mux_loses_buffered_run:
  "\<exists>cs. newMuxConnection0 sample_trojan user [[1, 1, 1, 2, 3, 4, 1, 187, 71, 69, 84], [32]] = Inr (NewConnectionEx user sample_destination cs) \<and> concat cs = [32]"
proof -
  have "bufio_fill 100 [[1, 1, 1, 2, 3, 4, 1, 187, 71, 69, 84], [32]] = (None, [1, 1, 1, 2, 3, 4, 1, 187, 71, 69, 84], [[32]])"
    using bufio_fill.simps(3) [of 99] by simp
  then have "bufio_ReadByte (bufio_NewReader [[1, 1, 1, 2, 3, 4, 1, 187, 71, 69, 84], [32]]) = (Inr CommandTCP, [1, 1, 2, 3, 4, 1, 187, 71, 69, 84], [[32]])"
    by (simp add: bufio_NewReader_def CommandTCP_def)
  from mux_loses_buffered [OF this, of sample_trojan sample_destination "[71, 69, 84]" "[[32]]" user] show ?thesis
    by (simp add: sample_trojan_def sample_destination_def)
qed

text \<open>The room that the connections announce is enough for what they put in front of the data.\<close>

lemma headroom_enough:
  assumes "td_AddrPortLen d a \<le> td_MaxSocksaddrLength d"
  shows "\<not> cc_headerWritten c \<Longrightarrow> KeyLength + td_AddrPortLen d a + 5 \<le> ClientConn_FrontHeadroom d c"
    "KeyLength + 2 * td_AddrPortLen d a + 9 \<le> ClientPacketConn_FrontHeadroom d (c'\<lparr>cp_headerWritten := False\<rparr>)"
    "td_AddrPortLen d a + 4 \<le> ClientPacketConn_FrontHeadroom d c'"
  using assms by (auto simp: ClientConn_FrontHeadroom_def ClientPacketConn_FrontHeadroom_def KeyLength_def)

text \<open>The raw handshake writes what the buffered one does.\<close>

lemma handshake_raw_same:
  "(\<And>p. td_writer d p = None) \<Longrightarrow> ClientHandshakeRaw d key CommandTCP a payload written = (err, w) \<Longrightarrow> td_WriteAddrPort d a = Inr addr \<Longrightarrow>
   ClientHandshake d key a payload written = (err, w) \<and> ClientHandshakeBuffer d key a payload written = (err, w)"
  by (cases "payload = []") (auto simp: ClientHandshakeRaw_def ClientHandshake_def ClientHandshakeBuffer_def conn_Write_def Let_def)

end
