(* ===== verification/Spec2Isabelle.thy ===== *)
theory Spec2Isabelle
  imports RouterProps RuleProps RuleSetProps ActionProps DnsProps ManagerProps FakeIPProps GroupProps QuicProps SnifferProps LifeProps AdGuardProps DnsTransportProps LocalResolver Geosite Naive Versions GrpcLite SimpleObfs TrojanProps
begin

text \<open>
  \<^bold>\<open>Verification of the core of AnchorCore\<close>

  AnchorCore is a universal proxy platform written in Go. Connections come in through inbounds, the router matches them against
  rules, may look into their first bytes (sniffing) or resolve their names, and hands them to an outbound; names are resolved by a DNS
  router with rules of its own. This development models the parts that decide: rules, rule sets, the router, DNS, the
  managers that start everything, fake addresses, outbound groups, the fragmentation of client hellos and the sniffers, the conversion
  of AdGuard lists, the geosite database, DNS over UDP, TCP and TLS, hosts files, and four of the protocols that carry connections:
  Trojan, simple obfuscation, naive and the light gRPC transport.
  File names below are relative to \<^verbatim>\<open>src/\<close>.

  \<^bold>\<open>Conventions.\<close> A Go function is a HOL function of the same name (a method has the type in front). State is passed and
  returned; a panic is a value of the error type like any other error (\<open>GoPanic\<close> in \<open>Prelude\<close>), so it is a branch of the
  model. Integers that Go keeps in 8, 16, 32 or 64 bits are words and wrap. Code of other modules (the sing library, miekg/dns, netip,
  bbolt, ciphers, the network) is a function that the definitions take as an argument, collected in records
  (\<open>deps\<close>, \<open>env\<close>, \<open>codec\<close>, \<open>sniff_deps\<close>, \<open>route_deps\<close>, \<open>dns_deps\<close>, \<open>fragment_deps\<close>, \<open>quic_deps\<close>, \<open>obfs_deps\<close>,
  \<open>trojan_deps\<close>, \<open>adguard_deps\<close>, \<open>wire_deps\<close>, \<open>hosts_deps\<close>, \<open>local_deps\<close>, \<open>geosite_codec\<close>); properties that need
  a behaviour of it name it as a hypothesis, and a witness instantiates it. Locks are not modelled: an operation that runs under
  a lock is one step; goroutines whose interleaving matters are steps of a relation.

  \<^bold>\<open>Theories, in the order of the program.\<close>
    \<^item> \<open>Prelude\<close>: results, errors, maps with state over lists, strings, the simplification collections. \<open>Metadata\<close>: the
      metadata of a connection (\<^verbatim>\<open>adapter/inbound.go\<close>) and the environment.
    \<^item> \<open>RuleItems\<close>: every rule item of \<^verbatim>\<open>route/rule/rule_item_*.go\<close>. \<open>RuleMatch\<close>: the abstract default and logical rule with the
      match cache in the metadata (\<^verbatim>\<open>rule_abstract.go\<close>). \<open>RuleAction\<close>, \<open>DnsMessages\<close>: actions and the messages that they answer with
      (\<^verbatim>\<open>rule_action.go\<close>). \<open>HeadlessRules\<close>, \<open>Rules\<close>, \<open>DNSRules\<close>: options, constructors and matching of the three
      kinds of rules (\<^verbatim>\<open>rule_headless.go\<close>, \<^verbatim>\<open>rule_default.go\<close>, \<^verbatim>\<open>rule_dns.go\<close>). \<open>RuleSets\<close>: local and remote rule sets
      (\<^verbatim>\<open>rule_set*.go\<close>).
    \<^item> \<open>Srs\<close>, \<open>SrsRoundtrip\<close>: the binary rule-set format (\<^verbatim>\<open>common/srs\<close>).
    \<^item> \<open>Sniff\<close>: the sniff driver (\<^verbatim>\<open>common/sniff/sniff.go\<close>, \<^verbatim>\<open>actionSniff\<close> of \<^verbatim>\<open>route/route.go\<close>). \<open>Router\<close>: rule loop, routing
      of connections and packets, pre-match (\<^verbatim>\<open>route/route.go\<close>). \<open>RouterLife\<close>: building, start stages and closing of the router (\<^verbatim>\<open>route/router.go\<close>).
      \<open>TunRuleSets\<close>: the rule sets of tun inbounds, which start between these stages (\<^verbatim>\<open>protocol/tun/inbound.go\<close>).
    \<^item> \<open>DnsClient\<close>: cache, rejected-response cache, client subnet, exchange and lookup (\<^verbatim>\<open>dns/client.go\<close>). \<open>DnsRouter\<close>: DNS rule
      loop, exchange and lookup with retries, reverse mapping (\<^verbatim>\<open>dns/router.go\<close>). \<open>DnsTransports\<close>: exchanges over UDP as a
      step relation on the parts of \<^verbatim>\<open>exchange\<close> and \<^verbatim>\<open>recvLoop\<close>, over TCP, and over pooled TLS connections
      (\<^verbatim>\<open>dns/transport/udp.go\<close>, \<^verbatim>\<open>tcp.go\<close>, \<^verbatim>\<open>tls.go\<close>). \<open>Hosts\<close>: hosts files (\<^verbatim>\<open>dns/transport/hosts\<close>).
      \<open>LocalResolver\<close>: the names and servers that the local resolver asks (\<^verbatim>\<open>dns/transport/local\<close>).
    \<^item> \<open>Managers\<close>: registration by tag, start stages, start in the order of the dependencies (\<^verbatim>\<open>adapter/*/manager.go\<close>,
      \<^verbatim>\<open>dns/transport_manager.go\<close>, \<^verbatim>\<open>adapter/lifecycle*.go\<close>).
    \<^item> \<open>FakeIP\<close>: allocation of fake addresses, the storage in memory and in the cache file (\<^verbatim>\<open>dns/transport/fakeip\<close>,
      \<^verbatim>\<open>experimental/cachefile/fakeip.go\<close>, \<^verbatim>\<open>adapter/fakeip*.go\<close>). The interface \<^verbatim>\<open>adapter.FakeIPStorage\<close> is the locale
      \<open>fakeip_storage\<close>, interpreted for both storages.
    \<^item> \<open>OutboundGroups\<close>: URL test group and selector (\<^verbatim>\<open>protocol/group\<close>, \<^verbatim>\<open>common/urltest\<close>, \<^verbatim>\<open>common/interrupt\<close>).
    \<^item> \<open>TlsFragment\<close>: writing a client hello in pieces (\<^verbatim>\<open>common/tlsfragment\<close>). \<open>Ja3\<close>: the parser of client hellos
      (\<^verbatim>\<open>common/ja3\<close>). \<open>Quic\<close>: the QUIC sniffer (\<^verbatim>\<open>common/sniff/quic.go\<close>, \<^verbatim>\<open>common/sniff/internal/qtls\<close>). \<open>Sniffers\<close>: the
      sniffers of the other protocols (\<^verbatim>\<open>common/sniff\<close>), and the record of all of them that the sniff driver takes.
    \<^item> \<open>AdGuard\<close>: AdGuard lists to headless rules and back (\<^verbatim>\<open>common/convertor/adguard\<close>). \<open>Geosite\<close>: the database of
      domain lists (\<^verbatim>\<open>common/geosite\<close>). \<open>Versions\<close>: version numbers and the
      features of kernel TLS (\<^verbatim>\<open>common/badversion\<close>, \<^verbatim>\<open>common/ktls/ktls_linux.go\<close>).
    \<^item> \<open>Streams\<close>: readers that give their bytes in segments, as the locale \<open>io_reader\<close>, interpreted for the connection and the
      buffered reader, with \<^verbatim>\<open>io.ReadFull\<close> and \<^verbatim>\<open>io.Copy\<close> on it. \<open>GrpcLite\<close> (\<^verbatim>\<open>transport/v2raygrpclite/conn.go\<close>), \<open>SimpleObfs\<close>
      (\<^verbatim>\<open>transport/simple-obfs\<close>), \<open>Naive\<close> (\<^verbatim>\<open>protocol/naive/inbound_conn.go\<close>) and \<open>Trojan\<close> (\<^verbatim>\<open>transport/trojan\<close>): connections on such a reader, which are again readers.
    \<^item> \<open>Samples\<close>: concrete inputs for the witnesses; \<open>RuleProps\<close>, \<open>ActionProps\<close>, \<open>SrsProps\<close>, \<open>RuleSetProps\<close>, \<open>RouterProps\<close>,
      \<open>DnsProps\<close>, \<open>ManagerProps\<close>, \<open>FakeIPProps\<close>, \<open>GroupProps\<close>, \<open>FragmentProps\<close>, \<open>HelloProps\<close>, \<open>QuicProps\<close>, \<open>SnifferProps\<close>, \<open>LifeProps\<close>, \<open>AdGuardProps\<close>, \<open>TrojanProps\<close>, \<open>DnsTransportProps\<close>: the properties of the
      theory of that name, with those that span several components in the theory that is higher up.

  \<^bold>\<open>What is shown.\<close>
    \<^item> Rules: a rule without rule sets matches as documented for its options (conjunction of groups, disjunction within a group, inversion), the match cache
      does not leak between the rules of the router, logical rules refine conjunction and disjunction, one pass of DNS matching is enough
      without address limits.
    \<^item> Router: the first matching rule decides; the bytes and packets read while sniffing are handed on completely and in order for
      one sniff action; outbounds are used only for networks they support; the start keeps every rule set that a rule or a tun inbound refers to
      and releases the others.
    \<^item> Rule sets and their format: the format round trips for every version; a version gate keeps new items out of old files; metadata is
      truthful; failed fetches change nothing; restarts restore.
    \<^item> DNS: the first matching rule with the options it gives the query, responses checked against the address limit when the cache is off, remaining lifetimes from the cache, rejected
      responses remembered, addresses of fixed responses. Over UDP, in every interleaving, an exchange returns only a response to its own
      query, and a response that arrives is returned; a pooled TLS connection owes no response; a hosts file answers with a content less than
      five seconds older than the last time it could be read; the local resolver leaves queries to systemd-resolved or asks only servers of its configuration, for names that may be asked.
    \<^item> Managers: starting succeeds exactly for acyclic dependencies that exist, in their order, and a failure names the real cause; the
      manager is a map from tags.
    \<^item> Fake addresses: with the storage in memory, an address leads back to its domain through the router and addresses of both families differ until
      a range is used up; with the cache file, a restart goes on and the background writes are invisible.
    \<^item> Groups: the selected outbound is within the tolerance of the best, as long as delays are not zero and sums fit into 16 bits, and changes only for a better one; selections survive restarts.
    \<^item> Sniffers: the contract of a stream sniffer, to ask for more data on the beginning of what it accepts, is the locale
      \<open>incremental\<close>; the driver recognises a stream of such a sniffer however it is cut into reads.
    \<^item> Client hellos: both parsers find the encoded server name; fragments written are the whole hello; a QUIC hello is put together
      from its fragments in any order; the loops end for which inputs, and for which they do not.
    \<^item> AdGuard lists: the rule of a list, built and matched, decides by the precedence of the lines; a rule that a list can carry is read back
      from the list that is written for it.
      Geosite files round trip, and merging the rules of lists is the rule of the lists together.
    \<^item> Protocols: what is written on one side is read completely and in order on the other, for any cut of the stream into segments
      and any read buffers (light gRPC, simple obfuscation from the hello on, buffers of naive); a Trojan client reaches the handler of the service as the right user with the
      right destination, packets keep their boundaries, and other clients reach the fallback with all their bytes; the hello of the
      obfuscation is one that the sniffer and the fragmenter understand.
    \<^item> Versions: the features of kernel TLS are reported exactly from the version on that the code names.
    \<^item> Where the code deviates from what it means to do, a lemma shows a run: duplicated packets and swapped bytes with two sniff
      actions, a leak of the match cache in rule sets, checks that come after the removal, 16-bit sums that wrap, loops that do not end,
      lengths from the network that make a slice panic, data lost at the start of a multiplexed stream, lines of AdGuard lists that are
      written but not read, kernel versions with a suffix, a padding that is announced but not written, DNS messages announced with the wrong
      length.

  \<^bold>\<open>Bounds and fuel.\<close> The reader of rule sets takes fuel of one more than the bytes left, which the round trip shows to be
  enough, since a rule takes at least one byte; the loop over QUIC frames takes as much fuel as there are bytes, and a frame takes
  at least one. The loops of the DNS router, of the managers and of the client hello parser have termination proofs by measures. The
  search for the server name, the reassembly of fragments, the copying of a stream and the loop that takes an AdGuard rule apart are \<open>partial_function\<close>s with the value \<open>None\<close> for a loop that does not
  end; that they return is a theorem of its own.

  \<^bold>\<open>Not modelled.\<close> Goroutines with a ticker (\<^verbatim>\<open>loopUpdate\<close>) and file watchers; locks; logging; the eviction of the LRU caches
  (a parameter of the DNS client); JSON decoding except for the checks written in Go; network I/O: the protocol implementations under
  \<^verbatim>\<open>protocol/\<close> and \<^verbatim>\<open>transport/\<close> apart from those named above, which are mostly calls of the sing libraries, the DNS transports over
  HTTPS, QUIC and DHCP, the connections of the local resolver and the client of systemd-resolved, the measurement of a URL test; the network monitor
  (\<^verbatim>\<open>route/network.go\<close>); services, the APIs under \<^verbatim>\<open>experimental/\<close> apart from the cache file, the command line, and the certificates and other data.
\<close>

end
